(* ===== verification/Prelude.thy ===== *)
theory Prelude
  imports Main "HOL-Library.Word" "HOL-Library.Monad_Syntax" "HOL-Library.Signed_Division"
begin

text \<open>
  The C memory and arithmetic layer that every component of the development shares.

  \<^item> A byte is an \<open>8 word\<close>; a C object in memory (a field, a heap block, a transmission
    buffer) is the list of its bytes. A pointer to a heap block is a \<open>byte list option\<close>
    with \<open>None\<close> for \<open>NULL\<close>.
  \<^item> An operation that can run into undefined behaviour (a read or a write outside an object,
    a dereference of \<open>NULL\<close>) returns an \<open>option\<close>: \<open>None\<close> is undefined behaviour, and
    is propagated by the \<open>do\<close> notation of the option monad.
  \<^item> C \<open>int\<close> is the type \<open>int\<close>, wrapped to 32 bits by \<open>wrap32\<close> wherever the code's
    arithmetic can leave the range; \<open>size_t\<close> conversions are written out by \<open>to_size\<close>.
  \<^item> The layout of integers in memory is little-endian two's complement, as on every platform
    the makefiles of the repository build for.
\<close>

named_theorems mem_simps \<open>reads and writes of byte lists\<close>
named_theorems cstr_simps \<open>C strings in byte arrays\<close>

type_synonym byte = "8 word"
type_synonym mem = "byte list"
type_synonym ptr = "byte list option"

section \<open>Machine integers\<close>

definition in_i32 :: "int \<Rightarrow> bool" where
  "in_i32 x \<longleftrightarrow> - 2147483648 \<le> x \<and> x < 2147483648"

definition wrap32 :: "int \<Rightarrow> int" where
  "wrap32 x = (x + 2147483648) mod 4294967296 - 2147483648"

lemma wrap32_id [simp]: "in_i32 x \<Longrightarrow> wrap32 x = x"
  by (simp add: in_i32_def wrap32_def)

lemma wrap32_in_i32 [simp]: "in_i32 (wrap32 x)"
  by (simp add: in_i32_def wrap32_def pos_mod_bound)

text \<open>The value an \<open>int\<close> takes when it is converted to \<open>size_t\<close> (64 bits).\<close>

definition to_size :: "int \<Rightarrow> int" where
  "to_size x = x mod 18446744073709551616"

lemma to_size_id [simp]: "0 \<le> x \<Longrightarrow> x < 18446744073709551616 \<Longrightarrow> to_size x = x"
  by (simp add: to_size_def)

lemma to_size_neg:
  assumes "- 9223372036854775808 \<le> x" and "x < 0"
  shows "9223372036854775808 \<le> to_size x"
proof -
  have "to_size x = (x + 18446744073709551616) mod 18446744073709551616"
    unfolding to_size_def by simp
  also have "\<dots> = x + 18446744073709551616"
    using assms by (intro mod_pos_pos_trivial) simp_all
  finally show ?thesis using assms by simp
qed

text \<open>The value a \<open>char\<close> takes when an \<open>int\<close> is stored in it.\<close>

definition to_char :: "int \<Rightarrow> int" where
  "to_char x = (x + 128) mod 256 - 128"

lemma to_char_id [simp]: "- 128 \<le> x \<Longrightarrow> x < 128 \<Longrightarrow> to_char x = x"
  by (simp add: to_char_def)

section \<open>Little-endian integers\<close>

text \<open>An \<open>int\<close> as the four bytes that \<open>memcpy(dst, &x, sizeof(int))\<close> copies.\<close>

definition enc_int :: "int \<Rightarrow> mem" where
  "enc_int x = [word_of_int x, word_of_int (x div 256), word_of_int (x div 65536),
                word_of_int (x div 16777216)]"

text \<open>The unsigned value of a little-endian byte sequence of any length.\<close>

fun le_val :: "mem \<Rightarrow> int" where
  "le_val [] = 0"
| "le_val (b # bs) = uint b + 256 * le_val bs"

definition dec_int :: "mem \<Rightarrow> int" where
  "dec_int bs = wrap32 (le_val bs)"

lemma length_enc_int [simp]: "length (enc_int x) = 4"
  by (simp add: enc_int_def)

lemma uint_byte: "uint (word_of_int k :: byte) = k mod 256"
  by (simp add: uint_word_of_int)

lemma le_val_enc_int: "le_val (enc_int x) = x mod 4294967296"
proof -
  have split: "y mod (256 * c) = y mod 256 + 256 * (y div 256 mod c)" if "0 \<le> c" for y c :: int
    using zmod_zmult2_eq [OF that, of y 256] by (simp only: add.commute)
  have d: "x div 256 div 256 = x div 65536" "x div 65536 div 256 = x div 16777216"
    using zdiv_zmult2_eq [of 256 x 256] zdiv_zmult2_eq [of 256 x 65536] by simp_all
  have "x mod (256 * (256 * (256 * 256))) =
      x mod 256 + 256 * (x div 256 mod 256 + 256 * (x div 65536 mod 256 +
        256 * (x div 16777216 mod 256)))"
    by (simp only: split d zero_le_numeral mult_nonneg_nonneg)
  moreover have "le_val (enc_int x) =
      x mod 256 + 256 * (x div 256 mod 256 + 256 * (x div 65536 mod 256 +
        256 * (x div 16777216 mod 256)))"
    by (simp only: enc_int_def le_val.simps uint_byte mult_zero_right add_0_right)
  ultimately have "le_val (enc_int x) = x mod (256 * (256 * (256 * 256)))"
    by (simp only:)
  then show ?thesis by simp
qed

lemma dec_enc_int [simp]:
  assumes "in_i32 x"
  shows "dec_int (enc_int x) = x"
proof -
  have "(x mod 4294967296 + 2147483648) mod 4294967296 = (x + 2147483648) mod 4294967296"
    by (rule mod_add_left_eq)
  also have "\<dots> = x + 2147483648"
    using assms by (intro mod_pos_pos_trivial) (simp_all add: in_i32_def)
  finally show ?thesis by (simp add: dec_int_def le_val_enc_int wrap32_def)
qed

lemma dec_int_in_i32 [simp]: "in_i32 (dec_int bs)"
  by (simp add: dec_int_def)

text \<open>
  What the wire protocol needs of an integer layout, and what follows from it: a reader that
  is handed the concatenation of encodings recovers the integers one by one.
\<close>

locale int_codec =
  fixes enc :: "int \<Rightarrow> mem" and dec :: "mem \<Rightarrow> int"
  assumes width: "length (enc x) = 4"
    and inverse: "in_i32 x \<Longrightarrow> dec (enc x) = x"
begin

lemma take_enc: "take 4 (enc x @ rest) = enc x"
  by (simp add: width)

lemma drop_enc: "drop 4 (enc x @ rest) = rest"
  by (simp add: width)

lemma read_first: "in_i32 x \<Longrightarrow> dec (take 4 (enc x @ rest)) = x"
  unfolding take_enc by (rule inverse)

lemma enc_inject: "in_i32 x \<Longrightarrow> in_i32 y \<Longrightarrow> enc x = enc y \<longleftrightarrow> x = y"
  using inverse by metis

end

interpretation le: int_codec enc_int dec_int
  by unfold_locales simp_all

section \<open>Reads and writes\<close>

text \<open>
  \<open>mem_read b i n\<close> copies \<open>n\<close> bytes out of the object \<open>b\<close> from offset \<open>i\<close>;
  \<open>mem_write b i v\<close> copies the bytes \<open>v\<close> into it. Both are undefined outside the object.
\<close>

definition mem_read :: "mem \<Rightarrow> int \<Rightarrow> nat \<Rightarrow> mem option" where
  "mem_read b i n =
     (if 0 \<le> i \<and> i + int n \<le> int (length b) then Some (take n (drop (nat i) b)) else None)"

definition mem_write :: "mem \<Rightarrow> int \<Rightarrow> mem \<Rightarrow> mem option" where
  "mem_write b i v =
     (if 0 \<le> i \<and> i + int (length v) \<le> int (length b)
      then Some (take (nat i) b @ v @ drop (nat i + length v) b) else None)"

definition read_int :: "mem \<Rightarrow> int \<Rightarrow> int option" where
  "read_int b i = map_option dec_int (mem_read b i 4)"

lemma mem_read_Some_iff:
  "(\<exists>v. mem_read b i n = Some v) \<longleftrightarrow> 0 \<le> i \<and> i + int n \<le> int (length b)"
  by (simp add: mem_read_def)

lemma length_mem_read: "mem_read b i n = Some v \<Longrightarrow> length v = n"
  by (auto simp: mem_read_def split: if_splits)

lemma length_mem_write [mem_simps]: "mem_write b i v = Some b' \<Longrightarrow> length b' = length b"
  by (auto simp: mem_write_def split: if_splits)

lemma mem_read_append [mem_simps]:
  "length p = i \<Longrightarrow> length v = n \<Longrightarrow> mem_read (p @ v @ q) (int i) n = Some v"
  by (auto simp: mem_read_def)

lemma mem_write_append [mem_simps]:
  "length p = i \<Longrightarrow> length w = length v \<Longrightarrow> mem_write (p @ w @ q) (int i) v = Some (p @ v @ q)"
  by (auto simp: mem_write_def)

lemma mem_read_whole [mem_simps]: "length b = n \<Longrightarrow> mem_read b 0 n = Some b"
  by (simp add: mem_read_def)

lemma mem_write_whole [mem_simps]: "length v = length b \<Longrightarrow> mem_write b 0 v = Some v"
  by (simp add: mem_write_def)

lemma mem_read_write [mem_simps]:
  "mem_write b i v = Some b' \<Longrightarrow> mem_read b' i (length v) = Some v"
  by (auto simp: mem_write_def mem_read_def split: if_splits)

lemma read_int_append [mem_simps]:
  "length p = i \<Longrightarrow> in_i32 x \<Longrightarrow> read_int (p @ enc_int x @ q) (int i) = Some x"
  by (simp add: read_int_def mem_read_append)

lemma read_int_in_i32: "read_int b i = Some x \<Longrightarrow> in_i32 x"
  by (auto simp: read_int_def)

section \<open>C strings\<close>

text \<open>The characters of a C string literal.\<close>

definition chars :: "string \<Rightarrow> mem" where
  "chars s = map of_char s"

text \<open>The contents of a byte array read as a C string: everything before the first NUL.\<close>

definition cstr :: "mem \<Rightarrow> mem" where
  "cstr b = takeWhile (\<lambda>c. c \<noteq> 0) b"

definition terminated :: "mem \<Rightarrow> bool" where
  "terminated b \<longleftrightarrow> 0 \<in> set b"

text \<open>
  \<open>strcmp(a,b) == 0\<close>: it reads both arrays up to the first difference or the common
  terminator, and is undefined when it runs off the end of one of them.
\<close>

fun streq :: "mem \<Rightarrow> mem \<Rightarrow> bool option" where
  "streq (x # xs) (y # ys) =
     (if x \<noteq> y then Some False else if x = 0 then Some True else streq xs ys)"
| "streq _ _ = None"

text \<open>\<open>strncmp(a,b,n) == 0\<close>: as above, and it stops after \<open>n\<close> characters.\<close>

fun strneq :: "nat \<Rightarrow> mem \<Rightarrow> mem \<Rightarrow> bool option" where
  "strneq 0 _ _ = Some True"
| "strneq (Suc n) (x # xs) (y # ys) =
     (if x \<noteq> y then Some False else if x = 0 then Some True else strneq n xs ys)"
| "strneq (Suc n) _ _ = None"

text \<open>
  \<open>strcpy(dst,src)\<close> into an array: it copies up to and including the terminator, and is
  undefined when \<open>src\<close> has none or the array is too small.
\<close>

definition strcpy :: "mem \<Rightarrow> mem \<Rightarrow> mem option" where
  "strcpy dst src =
     (if terminated src then mem_write dst 0 (cstr src @ [0]) else None)"

text \<open>\<open>strncpy(dst,src,n)\<close> with \<open>n = sizeof dst\<close>: copies at most \<open>n\<close> characters, pads with NUL.\<close>

definition strncpy :: "mem \<Rightarrow> mem \<Rightarrow> mem" where
  "strncpy dst src =
     take (length dst) (cstr src @ replicate (length dst) 0)"

lemma cstr_Nil [simp]: "cstr [] = []"
  by (simp add: cstr_def)

lemma cstr_Cons [simp]: "cstr (x # xs) = (if x = 0 then [] else x # cstr xs)"
  by (simp add: cstr_def)

lemma terminated_Nil [simp]: "\<not> terminated []"
  by (simp add: terminated_def)

lemma terminated_Cons [simp]: "terminated (x # xs) \<longleftrightarrow> x = 0 \<or> terminated xs"
  by (auto simp: terminated_def)

lemma terminated_append [simp]: "terminated (a @ b) \<longleftrightarrow> terminated a \<or> terminated b"
  by (auto simp: terminated_def)

lemma terminated_replicate [simp]: "terminated (replicate n 0) \<longleftrightarrow> 0 < n"
  by (auto simp: terminated_def)

lemma cstr_replicate [simp]: "cstr (replicate n 0) = []"
  by (cases n) simp_all

lemma streq_terminated [cstr_simps]:
  "terminated a \<Longrightarrow> terminated b \<Longrightarrow> streq a b = Some (cstr a = cstr b)"
  by (induction a b rule: streq.induct) auto

lemma strneq_terminated [cstr_simps]:
  "terminated a \<Longrightarrow> length a \<le> n \<Longrightarrow> length b = length a \<Longrightarrow>
   strneq n a b = Some (cstr a = cstr b)"
  by (induction n a b rule: strneq.induct) auto

lemma strneq_take:
  "n \<le> length a \<Longrightarrow> n \<le> length b \<Longrightarrow> 0 \<notin> set (take n b) \<Longrightarrow>
   strneq n a b = Some (take n a = take n b)"
proof (induction n a b rule: strneq.induct)
  case (2 n x xs y ys)
  then show ?case by auto
qed auto

lemma streq_empty [cstr_simps]: "b \<noteq> [] \<Longrightarrow> streq [0] b = Some (hd b = 0)"
  by (cases b) auto

lemma cstr_no_nul: "0 \<notin> set (cstr b)"
  unfolding cstr_def by (metis set_takeWhileD)

lemma cstr_append_nul [cstr_simps]: "0 \<notin> set a \<Longrightarrow> cstr (a @ 0 # b) = a"
  by (induction a) auto

lemma cstr_decompose: "terminated b \<Longrightarrow> \<exists>r. b = cstr b @ 0 # r"
  by (induction b) auto

lemma length_cstr: "terminated b \<Longrightarrow> length (cstr b) < length b"
  by (induction b) auto

lemma cstr_empty_iff: "b \<noteq> [] \<Longrightarrow> cstr b = [] \<longleftrightarrow> hd b = 0"
  by (cases b) auto

lemma strcpy_Some [cstr_simps]:
  "terminated src \<Longrightarrow> length (cstr src) < length dst \<Longrightarrow>
   strcpy dst src = Some (cstr src @ 0 # drop (Suc (length (cstr src))) dst)"
  by (simp add: strcpy_def mem_write_def)

lemma strcpy_result:
  assumes "strcpy dst src = Some d"
  shows "length d = length dst" and "terminated d" and "cstr d = cstr src"
proof -
  from assms have t: "terminated src" and w: "mem_write dst 0 (cstr src @ [0]) = Some d"
    by (auto simp: strcpy_def split: if_splits)
  from w show "length d = length dst" by (rule length_mem_write)
  from w have d: "d = cstr src @ 0 # drop (Suc (length (cstr src))) dst"
    by (auto simp: mem_write_def split: if_splits)
  then show "terminated d" by simp
  from d show "cstr d = cstr src" by (simp add: cstr_append_nul cstr_no_nul)
qed

lemma length_strncpy [simp]: "length (strncpy dst src) = length dst"
  by (simp add: strncpy_def)

section \<open>Numbers as text\<close>

fun dec_digits :: "nat \<Rightarrow> mem" where
  "dec_digits n = (if n < 10 then [of_nat (48 + n)] else dec_digits (n div 10) @ [of_nat (48 + n mod 10)])"

declare dec_digits.simps [simp del]

text \<open>The conversion \<open>%i\<close>.\<close>

definition fmt_int :: "int \<Rightarrow> mem" where
  "fmt_int x = (if x < 0 then chars ''-'' else []) @ dec_digits (nat \<bar>x\<bar>)"

lemma digit_not_nul: "n < 10 \<Longrightarrow> (of_nat (48 + n) :: byte) \<noteq> 0"
proof -
  assume "n < 10"
  then have "n = 0 \<or> n = 1 \<or> n = 2 \<or> n = 3 \<or> n = 4 \<or> n = 5 \<or> n = 6 \<or> n = 7 \<or> n = 8 \<or> n = 9"
    by arith
  then show ?thesis by auto
qed

lemma dec_digits_no_nul: "0 \<notin> set (dec_digits n)"
proof (induction n rule: dec_digits.induct)
  case (1 n)
  have "(of_nat (48 + n mod 10) :: byte) \<noteq> 0" by (rule digit_not_nul) simp
  with 1 digit_not_nul [of n] show ?case by (subst dec_digits.simps) auto
qed

lemma fmt_int_no_nul: "0 \<notin> set (fmt_int x)"
  using dec_digits_no_nul [of "nat \<bar>x\<bar>"] by (auto simp: fmt_int_def chars_def)

section \<open>Linear search\<close>

text \<open>The position of the first element with a property: what the search loops compute.\<close>

fun first_index :: "('a \<Rightarrow> bool) \<Rightarrow> 'a list \<Rightarrow> nat option" where
  "first_index P [] = None"
| "first_index P (x # xs) = (if P x then Some 0 else map_option Suc (first_index P xs))"

lemma first_index_None: "first_index P xs = None \<longleftrightarrow> (\<forall>x \<in> set xs. \<not> P x)"
  by (induction xs) auto

lemma first_index_Some:
  "first_index P xs = Some j \<Longrightarrow> j < length xs \<and> P (xs ! j) \<and> (\<forall>k < j. \<not> P (xs ! k))"
proof (induction xs arbitrary: j)
  case (Cons x xs)
  show ?case
  proof (cases "P x")
    case False
    with Cons.prems obtain l where l: "first_index P xs = Some l" "j = Suc l" by auto
    from Cons.IH [OF l(1)] False l(2) show ?thesis by (auto simp: nth_Cons split: nat.splits)
  qed (use Cons.prems in auto)
qed simp

lemma first_indexI:
  assumes "j < length xs" and "P (xs ! j)" and "\<And>k. k < length xs \<Longrightarrow> P (xs ! k) \<Longrightarrow> k = j"
  shows "first_index P xs = Some j"
proof (cases "first_index P xs")
  case None
  with assms(1,2) show ?thesis by (auto simp: first_index_None)
next
  case (Some i)
  with first_index_Some [OF Some] assms(3) [of i] show ?thesis by simp
qed

lemma first_index_cong:
  "(\<And>x. x \<in> set xs \<Longrightarrow> P x \<longleftrightarrow> Q x) \<Longrightarrow> first_index P xs = first_index Q xs"
  by (induction xs) auto

lemma map_upd_same:
  assumes "f (g (xs ! k)) = f (xs ! k)"
  shows "map f (xs[k := g (xs ! k)]) = map f xs"
proof (cases "k < length xs")
  case True
  then have "(map f xs)[k := f (xs ! k)] = map f xs" by (metis list_update_id nth_map)
  with assms show ?thesis by (simp add: map_update)
qed (simp add: list_update_beyond)

lemma ball_upd:
  assumes "\<forall>x \<in> set xs. P x" and "k < length xs \<Longrightarrow> P y"
  shows "\<forall>x \<in> set (xs[k := y]). P x"
proof (cases "k < length xs")
  case True
  with assms set_update_subset_insert [of xs k y] show ?thesis by auto
qed (use assms in \<open>simp add: list_update_beyond\<close>)

text \<open>How one update changes the number of elements with a property.\<close>

lemma count_upd:
  "i < length xs \<Longrightarrow>
   int (length (filter P (xs[i := y]))) =
     int (length (filter P xs)) - (if P (xs ! i) then 1 else 0) + (if P y then 1 else 0)"
proof (induction xs arbitrary: i)
  case (Cons x xs)
  show ?case
  proof (cases i)
    case (Suc l)
    with Cons.IH [of l] Cons.prems show ?thesis by (cases "P x") simp_all
  qed simp
qed simp

section \<open>Decimal digits\<close>

lemma div_power_0: "0 \<le> (v::int) \<Longrightarrow> v div 10 ^ j = 0 \<longleftrightarrow> v < 10 ^ j"
  by (simp add: zdiv_eq_0_iff) (smt (verit) zero_less_power)

lemma power_10_mono: "j \<le> k \<Longrightarrow> (10::int) ^ j \<le> 10 ^ k"
  by (rule power_increasing) simp_all

lemma sdiv_nonneg: "0 \<le> (a::int) \<Longrightarrow> 0 < b \<Longrightarrow> a sdiv b = a div b"
  by (cases "a = 0") (simp_all add: signed_divide_int_def)

lemma digits_sum: "0 \<le> (v::int) \<Longrightarrow> (\<Sum>k < n. v div 10 ^ k mod 10 * 10 ^ k) = v mod 10 ^ n"
proof (induction n)
  case (Suc n)
  then show ?case
    using zmod_zmult2_eq [of 10 v "10 ^ n"] by (simp add: mult.commute add.commute)
qed simp

end
