(* ===== verification/Arrays.thy ===== *)
theory Arrays
  imports Prelude
begin

text \<open>
  Checked array accesses and counting loops, which the models of the radar receiver and of the
  hardware clients share. An index outside the array makes the result \<open>None\<close>.
\<close>

definition arr_get :: "'a list \<Rightarrow> int \<Rightarrow> 'a option" where
  "arr_get xs i = (if 0 \<le> i \<and> i < int (length xs) then Some (xs ! nat i) else None)"

definition arr_set :: "'a list \<Rightarrow> int \<Rightarrow> 'a \<Rightarrow> 'a list option" where
  "arr_set xs i v = (if 0 \<le> i \<and> i < int (length xs) then Some (xs[nat i := v]) else None)"

text \<open>\<open>for (k = \<dots>) body\<close>: the body is run for each value of the counter in turn.\<close>

fun for_each :: "'k list \<Rightarrow> ('k \<Rightarrow> 's \<Rightarrow> 's option) \<Rightarrow> 's \<Rightarrow> 's option" where
  "for_each [] f s = Some s"
| "for_each (k # ks) f s = do { s \<leftarrow> f k s; for_each ks f s }"

text \<open>A loop that a \<open>break\<close> may end: the body also says whether to leave the loop.\<close>

fun for_until :: "'k list \<Rightarrow> ('k \<Rightarrow> 's \<Rightarrow> ('s \<times> bool) option) \<Rightarrow> 's \<Rightarrow> 's option" where
  "for_until [] f s = Some s"
| "for_until (k # ks) f s = do { (s, break) \<leftarrow> f k s; if break then Some s else for_until ks f s }"

text \<open>Arrays of arrays.\<close>

definition arr_get2 :: "'a list list \<Rightarrow> int \<Rightarrow> int \<Rightarrow> 'a option" where
  "arr_get2 xss i k = do { xs \<leftarrow> arr_get xss i; arr_get xs k }"

definition arr_set2 :: "'a list list \<Rightarrow> int \<Rightarrow> int \<Rightarrow> 'a \<Rightarrow> 'a list list option" where
  "arr_set2 xss i k v = do { xs \<leftarrow> arr_get xss i; xs \<leftarrow> arr_set xs k v; arr_set xss i xs }"

named_theorems arr_simps \<open>array accesses inside the array\<close>

lemma arr_get_in [arr_simps]: "0 \<le> i \<Longrightarrow> i < int (length xs) \<Longrightarrow> arr_get xs i = Some (xs ! nat i)"
  by (simp add: arr_get_def)

lemma arr_set_in [arr_simps]:
  "0 \<le> i \<Longrightarrow> i < int (length xs) \<Longrightarrow> arr_set xs i v = Some (xs[nat i := v])"
  by (simp add: arr_set_def)

lemma arr_get_int [arr_simps]: "k < length xs \<Longrightarrow> arr_get xs (int k) = Some (xs ! k)"
  by (simp add: arr_get_def)

lemma arr_set_int [arr_simps]: "k < length xs \<Longrightarrow> arr_set xs (int k) v = Some (xs[k := v])"
  by (simp add: arr_set_def)

lemma arr_get_hd [simp]: "arr_get (x # xs) 0 = Some x"
  by (simp add: arr_get_def)

lemma arr_set_hd [simp]: "arr_set (x # xs) 0 v = Some (v # xs)"
  by (simp add: arr_set_def)

lemma arr_set_length: "arr_set xs i v = Some ys \<Longrightarrow> length ys = length xs"
  by (auto simp: arr_set_def split: if_splits)

text \<open>The equations of a loop that is not applied to its state.\<close>

lemma for_each_run: "for_each [] f = Some" "for_each (k # ks) f = (\<lambda>s. do { s \<leftarrow> f k s; for_each ks f s })"
  by (simp_all add: fun_eq_iff)

lemma for_each_append: "for_each (ks @ ls) f s = do { s \<leftarrow> for_each ks f s; for_each ls f s }"
proof (induction ks arbitrary: s)
  case (Cons k ks)
  then show ?case by (cases "f k s") simp_all
qed simp

lemma for_each_concat:
  "for_each (concat (map g ks)) f s = for_each ks (\<lambda>k. for_each (g k) f) s"
  by (induction ks arbitrary: s) (simp_all add: for_each_append)

lemma for_each_map: "for_each (map g ks) f = for_each ks (\<lambda>k. f (g k))"
proof
  show "for_each (map g ks) f s = for_each ks (\<lambda>k. f (g k)) s" for s
  proof (induction ks arbitrary: s)
    case (Cons k ks)
    then show ?case by (cases "f (g k) s") simp_all
  qed simp
qed

lemma for_each_cong [fundef_cong]:
  "ks = ls \<Longrightarrow> s = t \<Longrightarrow> (\<And>k u. k \<in> set ls \<Longrightarrow> f k u = g k u) \<Longrightarrow> for_each ks f s = for_each ls g t"
proof (induction ls arbitrary: ks s t)
  case (Cons l ls)
  then show ?case by (cases "g l t") simp_all
qed simp

text \<open>A loop whose body is defined on every state that satisfies an invariant.\<close>

lemma for_each_inv:
  assumes "I s" and "\<And>k s. k \<in> set ks \<Longrightarrow> I s \<Longrightarrow> \<exists>t. f k s = Some t \<and> I t"
  shows "\<exists>t. for_each ks f s = Some t \<and> I t"
  using assms
proof (induction ks arbitrary: s)
  case (Cons k ks)
  from Cons.prems(2) [of k s] Cons.prems(1) obtain t where "f k s = Some t" "I t" by auto
  with Cons.IH [of t] Cons.prems(2) show ?case by simp
qed simp

text \<open>A loop that runs through its range without a \<open>break\<close>, with an invariant that may depend on how
  far it has come.\<close>

lemma for_until_steps:
  assumes "P 0 s" and "\<And>k s. k < n \<Longrightarrow> P k s \<Longrightarrow> \<exists>t. f k s = Some (t, False) \<and> P (Suc k) t"
  shows "\<exists>t. for_until [0..<n] f s = Some t \<and> P n t"
proof -
  have "m \<le> n \<Longrightarrow> P m s \<Longrightarrow> \<exists>t. for_until [m..<n] f s = Some t \<and> P n t" for m s
  proof (induction "n - m" arbitrary: m s)
    case (Suc d)
    then have m: "m < n" by simp
    from assms(2) [OF m Suc.prems(2)] obtain t where t: "f m s = Some (t, False)" "P (Suc m) t" by blast
    with Suc.hyps(1) [of "Suc m" t] Suc.hyps(2) m show ?case by (simp add: upt_conv_Cons)
  qed simp
  with assms(1) show ?thesis by blast
qed

lemma for_each_steps:
  assumes "P 0 s" and "\<And>k s. k < n \<Longrightarrow> P k s \<Longrightarrow> \<exists>t. f k s = Some t \<and> P (Suc k) t"
  shows "\<exists>t. for_each [0..<n] f s = Some t \<and> P n t"
proof -
  have "m \<le> n \<Longrightarrow> P m s \<Longrightarrow> \<exists>t. for_each [m..<n] f s = Some t \<and> P n t" for m s
  proof (induction "n - m" arbitrary: m s)
    case (Suc d)
    then have m: "m < n" by simp
    from assms(2) [OF m Suc.prems(2)] obtain t where t: "f m s = Some t" "P (Suc m) t" by blast
    with Suc.hyps(1) [of "Suc m" t] Suc.hyps(2) m show ?case by (simp add: upt_conv_Cons)
  qed simp
  with assms(1) show ?thesis by blast
qed

text \<open>A loop in which every step is a total function.\<close>

lemma for_each_fold:
  assumes "I s" and "\<And>k s. k \<in> set ks \<Longrightarrow> I s \<Longrightarrow> f k s = Some (g k s) \<and> I (g k s)"
  shows "for_each ks f s = Some (fold g ks s) \<and> I (fold g ks s)"
  using assms by (induction ks arbitrary: s) simp_all

text \<open>A loop that updates the elements of a range of an array, each from its own old value.\<close>

lemma fold_update_range:
  "off + n \<le> length xs \<Longrightarrow>
   fold (\<lambda>k xs. xs[off + k := g k (xs ! (off + k))]) [0..<n] xs =
     take off xs @ map (\<lambda>k. g k (xs ! (off + k))) [0..<n] @ drop (off + n) xs"
proof (induction n)
  case (Suc n)
  let ?m = "map (\<lambda>k. g k (xs ! (off + k))) [0..<n]"
  from Suc have d: "drop (off + n) xs = xs ! (off + n) # drop (off + Suc n) xs"
    by (metis Cons_nth_drop_Suc add_Suc_right Suc_le_lessD)
  from Suc have l: "off + n = length (take off xs @ ?m)" by simp
  from Suc have "fold (\<lambda>k xs. xs[off + k := g k (xs ! (off + k))]) [0..<Suc n] xs =
      (let ys = (take off xs @ ?m) @ xs ! (off + n) # drop (off + Suc n) xs
       in ys[off + n := g n (ys ! (off + n))])"
    by (simp add: d Let_def)
  also have "\<dots> = (take off xs @ ?m) @ g n (xs ! (off + n)) # drop (off + Suc n) xs"
    unfolding Let_def l by (simp only: nth_append_length list_update_length)
  finally show ?case by simp
qed simp

section \<open>Arrays of a given shape\<close>

text \<open>An array of a given length with all elements in a set.\<close>

definition arr_ok :: "nat \<Rightarrow> ('a \<Rightarrow> bool) \<Rightarrow> 'a list \<Rightarrow> bool" where
  "arr_ok n P xs \<longleftrightarrow> length xs = n \<and> list_all P xs"

definition within :: "int \<Rightarrow> int \<Rightarrow> int \<Rightarrow> bool" where
  "within lo hi x \<longleftrightarrow> lo \<le> x \<and> x \<le> hi"

named_theorems arr_intros \<open>array operations keep the shape of an array\<close>

lemma arr_ok_length: "arr_ok n P xs \<Longrightarrow> length xs = n"
  by (simp add: arr_ok_def)

lemma arr_ok_nth: "arr_ok n P xs \<Longrightarrow> k < n \<Longrightarrow> P (xs ! k)"
  by (auto simp: arr_ok_def list_all_length)

lemma arr_ok_get: "arr_ok n P xs \<Longrightarrow> 0 \<le> i \<Longrightarrow> i < int n \<Longrightarrow> arr_get xs i = Some (xs ! nat i) \<and> P (xs ! nat i)"
  using arr_ok_nth [of n P xs "nat i"] by (simp add: arr_get_def arr_ok_length)

lemma arr_ok_update [arr_intros]: "arr_ok n P xs \<Longrightarrow> P v \<Longrightarrow> arr_ok n P (xs[k := v])"
  using ball_upd [of xs P k v] by (simp add: arr_ok_def list_all_iff)

lemma arr_ok_set:
  "arr_ok n P xs \<Longrightarrow> 0 \<le> i \<Longrightarrow> i < int n \<Longrightarrow> P v \<Longrightarrow>
   arr_set xs i v = Some (xs[nat i := v]) \<and> arr_ok n P (xs[nat i := v])"
  using arr_ok_length [of n P xs] by (simp add: arr_set_def arr_ok_update)

lemma arr_ok_map [arr_intros]: "arr_ok n P xs \<Longrightarrow> (\<And>x. P x \<Longrightarrow> Q (f x)) \<Longrightarrow> arr_ok n Q (map f xs)"
  by (auto simp: arr_ok_def list_all_iff)

lemma arr_ok_const [arr_intros]: "length xs = n \<Longrightarrow> P v \<Longrightarrow> arr_ok n P (map (\<lambda>_. v) xs)"
  by (auto simp: arr_ok_def list_all_iff)

lemma arr_ok_replicate [arr_intros]: "P v \<Longrightarrow> arr_ok n P (replicate n v)"
  by (auto simp: arr_ok_def list_all_iff)

text \<open>An update of an array of arrays, and its shape and elements.\<close>

definition upd2 :: "'a list list \<Rightarrow> nat \<Rightarrow> nat \<Rightarrow> 'a \<Rightarrow> 'a list list" where
  "upd2 xss i k v = xss[i := (xss ! i)[k := v]]"

lemma arr_ok_get2:
  assumes "arr_ok n (arr_ok m P) xss" and "0 \<le> i" "i < int n" and "0 \<le> k" "k < int m"
  shows "arr_get2 xss i k = Some (xss ! nat i ! nat k) \<and> P (xss ! nat i ! nat k)"
  using arr_ok_get [OF assms(1-3)] arr_ok_get [of m P "xss ! nat i" k] assms(4,5)
  by (simp add: arr_get2_def)

lemma arr_ok_upd2 [arr_intros]: "arr_ok n (arr_ok m P) xss \<Longrightarrow> i < n \<Longrightarrow> P v \<Longrightarrow> arr_ok n (arr_ok m P) (upd2 xss i k v)"
  by (simp add: upd2_def arr_ok_update arr_ok_nth)

lemma arr_ok_set2:
  assumes "arr_ok n (arr_ok m P) xss" and "0 \<le> i" "i < int n" and "0 \<le> k" "k < int m" and "P v"
  shows "arr_set2 xss i k v = Some (upd2 xss (nat i) (nat k) v) \<and>
    arr_ok n (arr_ok m P) (upd2 xss (nat i) (nat k) v)"
  using arr_ok_get [OF assms(1-3)] arr_ok_set [of m P "xss ! nat i" k v] assms
    arr_ok_length [OF assms(1)]
  by (simp add: arr_set2_def upd2_def arr_set_def arr_ok_update)

lemma upd2_nth:
  "i < length xss \<Longrightarrow> k < length (xss ! i) \<Longrightarrow>
   upd2 xss i k v ! i' ! k' = (if i' = i \<and> k' = k then v else xss ! i' ! k')"
  by (auto simp: upd2_def nth_list_update)

lemma length_upd2 [simp]: "length (upd2 xss i k v) = length xss"
  by (simp add: upd2_def)

lemma length_row_upd2 [simp]: "length (upd2 xss i k v ! j) = length (xss ! j)"
  by (cases "i < length xss"; cases "j = i") (simp_all add: upd2_def list_update_beyond)

lemma upd2_row:
  "i < length xss \<Longrightarrow> upd2 xss i k v ! j = (if j = i then (xss ! i)[k := v] else xss ! j)"
  by (simp add: upd2_def nth_list_update)

section \<open>Results that exist and satisfy a condition\<close>

text \<open>
  \<open>gives r P\<close>: the computation \<open>r\<close> does not fail, and its result satisfies \<open>P\<close>. The equations take a
  \<open>do\<close> block apart from the left; what is left are conditions on the array accesses in it.
\<close>

definition gives :: "'a option \<Rightarrow> ('a \<Rightarrow> bool) \<Rightarrow> bool" where
  "gives r P \<longleftrightarrow> (\<exists>x. r = Some x \<and> P x)"

named_theorems gives_intros \<open>conditions under which a computation gives a result\<close>

lemma gives_simps [simp]:
  "gives (Some x) P = P x" "\<not> gives None P"
  "gives (Option.bind r f) P = gives r (\<lambda>x. gives (f x) P)"
  "gives (map_option g r) P = gives r (\<lambda>x. P (g x))"
  by (cases r; auto simp: gives_def)+

lemma gives_mono: "gives r P \<Longrightarrow> (\<And>x. P x \<Longrightarrow> Q x) \<Longrightarrow> gives r Q"
  by (auto simp: gives_def)

lemma givesD: "gives r P \<Longrightarrow> \<exists>x. r = Some x \<and> P x"
  by (simp add: gives_def)

lemma gives_get:
  "arr_ok n Q xs \<Longrightarrow> 0 \<le> i \<Longrightarrow> i < int n \<Longrightarrow> (\<And>x. Q x \<Longrightarrow> P x) \<Longrightarrow> gives (arr_get xs i) P"
  using arr_ok_get [of n Q xs i] by simp

lemma gives_set:
  "arr_ok n Q xs \<Longrightarrow> 0 \<le> i \<Longrightarrow> i < int n \<Longrightarrow> Q v \<Longrightarrow> (\<And>ys. arr_ok n Q ys \<Longrightarrow> P ys) \<Longrightarrow>
   gives (arr_set xs i v) P"
  using arr_ok_set [of n Q xs i v] by simp

lemma gives_get2:
  "arr_ok n (arr_ok m Q) xss \<Longrightarrow> 0 \<le> i \<Longrightarrow> i < int n \<Longrightarrow> 0 \<le> k \<Longrightarrow> k < int m \<Longrightarrow> (\<And>x. Q x \<Longrightarrow> P x) \<Longrightarrow>
   gives (arr_get2 xss i k) P"
  using arr_ok_get2 [of n m Q xss i k] by simp

lemma gives_set2:
  "arr_ok n (arr_ok m Q) xss \<Longrightarrow> 0 \<le> i \<Longrightarrow> i < int n \<Longrightarrow> 0 \<le> k \<Longrightarrow> k < int m \<Longrightarrow> Q v \<Longrightarrow>
   (\<And>yss. arr_ok n (arr_ok m Q) yss \<Longrightarrow> P yss) \<Longrightarrow> gives (arr_set2 xss i k v) P"
  using arr_ok_set2 [of n m Q xss i k v] by simp

lemma gives_for_each:
  "I s \<Longrightarrow> (\<And>k s. k \<in> set ks \<Longrightarrow> I s \<Longrightarrow> gives (f k s) I) \<Longrightarrow> (\<And>t. I t \<Longrightarrow> P t) \<Longrightarrow>
   gives (for_each ks f s) P"
  using for_each_inv [of I s ks f] by (auto simp: gives_def)

section \<open>Shifting an array\<close>

lemma shift_loop:
  "n < length h \<Longrightarrow>
   for_each (rev [0..<n]) (\<lambda>s h. do { x \<leftarrow> arr_get h (int s); arr_set h (int s + 1) x }) h =
     Some (take 1 h @ take n h @ drop (Suc n) h)"
proof (induction n arbitrary: h)
  case 0
  then show ?case by (cases h) simp_all
next
  case (Suc n)
  let ?h = "h[Suc n := h ! n]"
  have "arr_set h (int n + 1) (h ! n) = Some ?h"
    using Suc.prems by (simp add: arr_set_def nat_add_distrib)
  then have "for_each (rev [0..<Suc n]) (\<lambda>s h. do { x \<leftarrow> arr_get h (int s); arr_set h (int s + 1) x }) h
      = for_each (rev [0..<n]) (\<lambda>s h. do { x \<leftarrow> arr_get h (int s); arr_set h (int s + 1) x }) ?h"
    using Suc.prems by (simp add: arr_get_def)
  also have "\<dots> = Some (take 1 ?h @ take n ?h @ drop (Suc n) ?h)"
    using Suc.prems by (intro Suc.IH) simp
  also from Suc.prems have "drop (Suc n) h = h ! Suc n # drop (Suc (Suc n)) h"
    by (intro Cons_nth_drop_Suc [symmetric])
  then have "drop (Suc n) ?h = h ! n # drop (Suc (Suc n)) h"
    using Suc.prems by (simp add: drop_update_swap Cons_nth_drop_Suc [of "Suc n" ?h, symmetric])
  also have "take n ?h = take n h" by simp
  also have "take 1 ?h = take 1 h" by simp
  finally show ?case using Suc.prems by (simp add: take_Suc_conv_app_nth)
qed

end
