(* ===== verification/Datarefs.thy ===== *)
theory Datarefs
  imports Prelude
begin

text \<open>
  What both ends of the connection agree on about a dataref: the type and status codes of
  \<open>libxpcockpit/src/serverdata.h\<close> (repeated in \<open>xpserver/src/common.h\<close>), the size and the
  initial contents of a dataref's memory block, the missing-value markers, and the test that
  decides whether a value has changed enough to be transmitted.

  Floating point values are kept as their IEEE 754 bit patterns. Where the code only copies
  them or compares them with a constant the bit pattern is all that is needed; where it
  multiplies and rounds (the precision test) the arithmetic is written out on integers:
  a binary64/binary32 product rounded to nearest-even, \<open>round\<close> half away from zero, and the
  conversion to \<open>int\<close>, which gives the x86 indefinite value when the result does not fit.
\<close>

section \<open>Type and status codes\<close>

abbreviation (input) INT_MISS :: int where "INT_MISS \<equiv> - 2000000000"

abbreviation (input) XPTYPE_UNKNOWN :: int where "XPTYPE_UNKNOWN \<equiv> 0"
abbreviation (input) XPTYPE_INT :: int where "XPTYPE_INT \<equiv> 1"
abbreviation (input) XPTYPE_FLT :: int where "XPTYPE_FLT \<equiv> 2"
abbreviation (input) XPTYPE_DBL :: int where "XPTYPE_DBL \<equiv> 4"
abbreviation (input) XPTYPE_FLT_ARR :: int where "XPTYPE_FLT_ARR \<equiv> 8"
abbreviation (input) XPTYPE_INT_ARR :: int where "XPTYPE_INT_ARR \<equiv> 16"
abbreviation (input) XPTYPE_BYTE_ARR :: int where "XPTYPE_BYTE_ARR \<equiv> 32"
abbreviation (input) XPTYPE_CMD_ONCE :: int where "XPTYPE_CMD_ONCE \<equiv> 64"
abbreviation (input) XPTYPE_CMD_HOLD :: int where "XPTYPE_CMD_HOLD \<equiv> 128"

abbreviation (input) XPSTATUS_UNINITIALIZED :: int where "XPSTATUS_UNINITIALIZED \<equiv> 0"
abbreviation (input) XPSTATUS_ALLOC :: int where "XPSTATUS_ALLOC \<equiv> 1"
abbreviation (input) XPSTATUS_DEALLOC :: int where "XPSTATUS_DEALLOC \<equiv> 2"
abbreviation (input) XPSTATUS_LINK :: int where "XPSTATUS_LINK \<equiv> 3"
abbreviation (input) XPSTATUS_UNLINK :: int where "XPSTATUS_UNLINK \<equiv> 4"
abbreviation (input) XPSTATUS_VALID :: int where "XPSTATUS_VALID \<equiv> 5"

text \<open>Length of the \<open>datarefname\<close> and \<open>clientname\<close> arrays.\<close>

abbreviation (input) NAMELEN :: nat where "NAMELEN \<equiv> 100"

definition known_type :: "int \<Rightarrow> bool" where
  "known_type t \<longleftrightarrow> t = XPTYPE_INT \<or> t = XPTYPE_FLT \<or> t = XPTYPE_DBL \<or> t = XPTYPE_FLT_ARR \<or>
     t = XPTYPE_INT_ARR \<or> t = XPTYPE_BYTE_ARR \<or> t = XPTYPE_CMD_ONCE \<or> t = XPTYPE_CMD_HOLD"

definition scalar_type :: "int \<Rightarrow> bool" where
  "scalar_type t \<longleftrightarrow> t = XPTYPE_INT \<or> t = XPTYPE_FLT \<or> t = XPTYPE_DBL \<or>
     t = XPTYPE_CMD_ONCE \<or> t = XPTYPE_CMD_HOLD"

definition command_type :: "int \<Rightarrow> bool" where
  "command_type t \<longleftrightarrow> t = XPTYPE_CMD_ONCE \<or> t = XPTYPE_CMD_HOLD"

lemma scalar_known [simp]: "scalar_type t \<Longrightarrow> known_type t"
  by (auto simp: scalar_type_def known_type_def)

lemma command_scalar [simp]: "command_type t \<Longrightarrow> scalar_type t"
  by (auto simp: command_type_def scalar_type_def)

lemma known_typeE [consumes 1]:
  assumes "known_type t"
  obtains (INT) "t = XPTYPE_INT" | (FLT) "t = XPTYPE_FLT" | (DBL) "t = XPTYPE_DBL"
    | (FLT_ARR) "t = XPTYPE_FLT_ARR" | (INT_ARR) "t = XPTYPE_INT_ARR"
    | (BYTE_ARR) "t = XPTYPE_BYTE_ARR" | (CMD_ONCE) "t = XPTYPE_CMD_ONCE"
    | (CMD_HOLD) "t = XPTYPE_CMD_HOLD"
  using assms by (auto simp: known_type_def)

section \<open>Elements and blocks\<close>

text \<open>\<open>sizeof\<close> the element type, and the missing-value markers as bytes in memory
  (\<open>FLT_MISS\<close> and \<open>DBL_MISS\<close> are \<open>-2000000000.0\<close>, which both formats represent exactly).\<close>

definition elem_size :: "int \<Rightarrow> nat" where
  "elem_size t = (if t = XPTYPE_DBL then 8 else if t = XPTYPE_BYTE_ARR then 1 else 4)"

definition flt_miss :: mem where
  "flt_miss = [0x28, 0x6B, 0xEE, 0xCE]"

definition dbl_miss :: mem where
  "dbl_miss = [0x00, 0x00, 0x00, 0x00, 0x65, 0xCD, 0xDD, 0xC1]"

definition init_elem :: "int \<Rightarrow> mem" where
  "init_elem t =
     (if t = XPTYPE_FLT \<or> t = XPTYPE_FLT_ARR then flt_miss
      else if t = XPTYPE_DBL then dbl_miss
      else if t = XPTYPE_BYTE_ARR then [0]
      else enc_int INT_MISS)"

text \<open>
  The test \<open>data != INT_MISS\<close> / \<open>FLT_MISS\<close> / \<open>DBL_MISS\<close> of the receivers, negated. Byte
  arrays have no missing value. The markers are neither zero nor NaN, so that floating point
  equality with them is equality of the bit pattern.
\<close>

definition is_miss :: "int \<Rightarrow> mem \<Rightarrow> bool" where
  "is_miss t v =
     (if t = XPTYPE_FLT \<or> t = XPTYPE_FLT_ARR then v = flt_miss
      else if t = XPTYPE_DBL then v = dbl_miss
      else if t = XPTYPE_BYTE_ARR then False
      else dec_int v = INT_MISS)"

text \<open>Elements held for a dataref: one, or all of an array when the index is \<open>-1\<close>.\<close>

definition elem_count :: "int \<Rightarrow> int \<Rightarrow> int \<Rightarrow> int" where
  "elem_count t nelements index =
     (if scalar_type t then 1 else if index = -1 then nelements else 1)"

definition block_size :: "int \<Rightarrow> int \<Rightarrow> int \<Rightarrow> nat" where
  "block_size t nelements index = nat (elem_count t nelements index) * elem_size t"

definition init_block :: "int \<Rightarrow> int \<Rightarrow> int \<Rightarrow> mem" where
  "init_block t nelements index =
     concat (replicate (nat (elem_count t nelements index)) (init_elem t))"

text \<open>
  The contract that the sender, the receiver and the allocators share about the elements of a
  block, and the facts about whole blocks that follow from it.
\<close>

locale elem_layout =
  fixes size :: "int \<Rightarrow> nat" and init :: "int \<Rightarrow> mem" and miss :: "int \<Rightarrow> mem \<Rightarrow> bool"
  assumes size_pos: "0 < size t"
    and init_size: "length (init t) = size t"
    and init_miss: "t \<noteq> XPTYPE_BYTE_ARR \<Longrightarrow> miss t (init t)"
begin

lemma length_block: "length (concat (replicate n (init t))) = n * size t"
  by (induction n) (simp_all add: init_size)

lemma block_elem:
  "j < n \<Longrightarrow> take (size t) (drop (j * size t) (concat (replicate n (init t)))) = init t"
proof (induction n arbitrary: j)
  case 0
  then show ?case by simp
next
  case (Suc n)
  then show ?case by (cases j) (simp_all add: init_size)
qed

lemma block_all_miss:
  "t \<noteq> XPTYPE_BYTE_ARR \<Longrightarrow> j < n \<Longrightarrow>
   miss t (take (size t) (drop (j * size t) (concat (replicate n (init t)))))"
  by (simp add: block_elem init_miss)

end

lemma length_init_elem [simp]: "length (init_elem t) = elem_size t"
  unfolding init_elem_def elem_size_def flt_miss_def dbl_miss_def by simp

lemma elem_size_pos [simp]: "0 < elem_size t"
  by (simp add: elem_size_def)

lemma elem_size_bound: "elem_size t \<le> 8"
  by (simp add: elem_size_def)

interpretation el: elem_layout elem_size init_elem is_miss
proof unfold_locales
  show "t \<noteq> XPTYPE_BYTE_ARR \<Longrightarrow> is_miss t (init_elem t)" for t
    by (simp add: init_elem_def is_miss_def in_i32_def)
qed simp_all

lemma length_init_block [simp]: "length (init_block t n i) = block_size t n i"
  by (simp add: init_block_def block_size_def el.length_block)

lemma elem_count_pos: "1 \<le> n \<Longrightarrow> 1 \<le> elem_count t n i"
  by (simp add: elem_count_def)

section \<open>The precision test\<close>

datatype fpval = NaN | Inf bool | Fin int int \<comment> \<open>mantissa and exponent: \<open>m * 2 ^ e\<close>\<close>

text \<open>A bit pattern with \<open>mb\<close> mantissa bits and \<open>eb\<close> exponent bits (23/8 and 52/11).\<close>

definition fp_val :: "nat \<Rightarrow> nat \<Rightarrow> int \<Rightarrow> fpval" where
  "fp_val mb eb n =
     (let neg = n div 2 ^ (mb + eb) mod 2 = 1;
          e = n div 2 ^ mb mod 2 ^ eb;
          m = n mod 2 ^ mb
      in if e = 2 ^ eb - 1 then (if m = 0 then Inf neg else NaN)
         else let a = (if e = 0 then m else m + 2 ^ mb)
              in Fin (if neg then - a else a)
                     ((if e = 0 then 1 else e) - (2 ^ (eb - 1) - 1) - int mb))"

text \<open>The operator \<open>!=\<close> on two floating point objects.\<close>

definition fp_ne :: "nat \<Rightarrow> nat \<Rightarrow> int \<Rightarrow> int \<Rightarrow> bool" where
  "fp_ne mb eb a b =
     (fp_val mb eb a = NaN \<or> fp_val mb eb b = NaN \<or>
      (a \<noteq> b \<and> \<not> (a mod 2 ^ (mb + eb) = 0 \<and> b mod 2 ^ (mb + eb) = 0)))"

function bitlength :: "int \<Rightarrow> int" where
  "bitlength n = (if n \<le> 0 then 0 else 1 + bitlength (n div 2))"
  by pat_completeness auto
termination
  by (relation "measure nat") auto

declare bitlength.simps [simp del]

text \<open>Division by \<open>2 ^ k\<close> of a non-negative integer, rounded to nearest, ties to even.\<close>

definition div_rne :: "int \<Rightarrow> nat \<Rightarrow> int" where
  "div_rne a k =
     (let q = a div 2 ^ k; r = a mod 2 ^ k
      in if 2 * r > 2 ^ k \<or> (2 * r = 2 ^ k \<and> odd q) then q + 1 else q)"

text \<open>Rounding of an exact \<open>m * 2 ^ e\<close> to the format.\<close>

definition fp_round :: "nat \<Rightarrow> nat \<Rightarrow> int \<Rightarrow> int \<Rightarrow> fpval" where
  "fp_round mb eb m e =
     (let bias = 2 ^ (eb - 1) - 1;
          k = max (bitlength \<bar>m\<bar> - int (mb + 1)) (1 - bias - int mb - e);
          a = (if k \<le> 0 then \<bar>m\<bar> else div_rne \<bar>m\<bar> (nat k));
          e' = (if k \<le> 0 then e else e + k)
      in if 0 \<le> e' \<and> 2 ^ nat (bias + 1) \<le> a * 2 ^ nat e' then Inf (m < 0)
         else Fin (sgn m * a) e')"

text \<open>\<open>(int) round(v)\<close>: half away from zero; out of range or not finite gives \<open>INT_MIN\<close>.\<close>

definition round_away :: "int \<Rightarrow> int \<Rightarrow> int" where
  "round_away m e =
     (if 0 \<le> e then m * 2 ^ nat e
      else sgn m * ((2 * \<bar>m\<bar> + 2 ^ nat (- e)) div (2 * 2 ^ nat (- e))))"

definition int_of_fp :: "fpval \<Rightarrow> int" where
  "int_of_fp v =
     (case v of Fin m e \<Rightarrow> (let r = round_away m e in if in_i32 r then r else - 2147483648)
      | _ \<Rightarrow> - 2147483648)"

text \<open>\<open>scale = pow(10,-precision)\<close> as a \<open>float\<close>, for \<open>-10 \<le> precision \<le> 10\<close>.\<close>

definition scale_of :: "int \<Rightarrow> int \<times> int" where
  "scale_of p =
     (if p \<le> 0 then (10 ^ nat (- p), 0)
      else if p = 1 then (13421773, -27) else if p = 2 then (10737418, -30)
      else if p = 3 then (8589935, -33) else if p = 4 then (13743895, -37)
      else if p = 5 then (10995116, -40) else if p = 6 then (8796093, -43)
      else if p = 7 then (14073749, -47) else if p = 8 then (11258999, -50)
      else if p = 9 then (9007199, -53) else (14411519, -57))"

definition quantise :: "nat \<Rightarrow> nat \<Rightarrow> int \<Rightarrow> int \<Rightarrow> int" where
  "quantise mb eb p n =
     (case fp_val mb eb n of
        Fin m e \<Rightarrow> (case scale_of p of (sm, se) \<Rightarrow> int_of_fp (fp_round mb eb (m * sm) (e + se)))
      | v \<Rightarrow> int_of_fp v)"

text \<open>No precision given (\<open>INT_MISS\<close>): every change counts.\<close>

definition no_precision :: "int \<Rightarrow> bool" where
  "no_precision p \<longleftrightarrow> p > 10 \<or> p < -10"

definition fp_changed :: "nat \<Rightarrow> nat \<Rightarrow> int \<Rightarrow> mem \<Rightarrow> mem \<Rightarrow> bool" where
  "fp_changed mb eb p a b =
     (if no_precision p then fp_ne mb eb (le_val a) (le_val b)
      else quantise mb eb p (le_val a) \<noteq> quantise mb eb p (le_val b))"

text \<open>The comparison that sets \<open>changed\<close> for one element of a dataref of type \<open>t\<close>.\<close>

definition elem_changed :: "int \<Rightarrow> int \<Rightarrow> mem \<Rightarrow> mem \<Rightarrow> bool" where
  "elem_changed t p a b =
     (if t = XPTYPE_FLT \<or> t = XPTYPE_FLT_ARR then fp_changed 23 8 p a b
      else if t = XPTYPE_DBL then fp_changed 52 11 p a b
      else a \<noteq> b)"

text \<open>The loop over the \<open>n\<close> elements of two blocks; it reads both of them completely.\<close>

definition blocks_changed :: "int \<Rightarrow> int \<Rightarrow> nat \<Rightarrow> mem \<Rightarrow> mem \<Rightarrow> bool option" where
  "blocks_changed t p n a b =
     do {
       va \<leftarrow> mem_read a 0 (n * elem_size t);
       vb \<leftarrow> mem_read b 0 (n * elem_size t);
       Some (list_ex (\<lambda>j. elem_changed t p
          (take (elem_size t) (drop (j * elem_size t) va))
          (take (elem_size t) (drop (j * elem_size t) vb))) [0..<n])
     }"

end
