(* ===== verification/Floats.thy ===== *)
theory Floats
  imports Datarefs
begin

text \<open>
  The floating point arithmetic that the hardware clients compute with: conversions from and to
  \<open>int\<close>, comparisons, and the four operations with one correct rounding each, on the values
  \<open>fpval\<close> of theory \<open>Datarefs\<close>. \<open>F32\<close> and \<open>F64\<close> name the parameters of the two formats. The
  sign of a zero is not kept: the code never looks at it, and where it divides by a difference
  that may be zero the result, infinite of either sign or not a number, is converted to \<open>int\<close>,
  which gives the most negative value in all three cases.
\<close>

section \<open>Operations\<close>

text \<open>Exact comparison of finite values.\<close>

definition fin_le :: "int \<Rightarrow> int \<Rightarrow> int \<Rightarrow> int \<Rightarrow> bool" where
  "fin_le m e n f \<longleftrightarrow> m * 2 ^ nat (e - min e f) \<le> n * 2 ^ nat (f - min e f)"

fun fp_le :: "fpval \<Rightarrow> fpval \<Rightarrow> bool" where
  "fp_le NaN _ = False"
| "fp_le _ NaN = False"
| "fp_le (Inf a) (Inf b) = (a \<or> \<not> b)"
| "fp_le (Inf a) (Fin _ _) = a"
| "fp_le (Fin _ _) (Inf b) = (\<not> b)"
| "fp_le (Fin m e) (Fin n f) = fin_le m e n f"

definition fp_eq :: "fpval \<Rightarrow> fpval \<Rightarrow> bool" where
  "fp_eq a b \<longleftrightarrow> fp_le a b \<and> fp_le b a"

definition fp_less :: "fpval \<Rightarrow> fpval \<Rightarrow> bool" where
  "fp_less a b \<longleftrightarrow> fp_le a b \<and> \<not> fp_le b a"

fun fp_neg :: "fpval \<Rightarrow> fpval" where
  "fp_neg NaN = NaN"
| "fp_neg (Inf s) = Inf (\<not> s)"
| "fp_neg (Fin m e) = Fin (- m) e"

text \<open>Rounding of a value to a format, which is also the conversion between formats.\<close>

fun fp_to :: "nat \<Rightarrow> nat \<Rightarrow> fpval \<Rightarrow> fpval" where
  "fp_to mb eb (Fin m e) = fp_round mb eb m e"
| "fp_to mb eb v = v"

text \<open>\<open>(float) n\<close> and \<open>(double) n\<close>.\<close>

definition fp_of_int :: "nat \<Rightarrow> nat \<Rightarrow> int \<Rightarrow> fpval" where
  "fp_of_int mb eb n = fp_round mb eb n 0"

fun fp_add :: "nat \<Rightarrow> nat \<Rightarrow> fpval \<Rightarrow> fpval \<Rightarrow> fpval" where
  "fp_add mb eb NaN _ = NaN"
| "fp_add mb eb _ NaN = NaN"
| "fp_add mb eb (Inf a) (Inf b) = (if a = b then Inf a else NaN)"
| "fp_add mb eb (Inf a) (Fin _ _) = Inf a"
| "fp_add mb eb (Fin _ _) (Inf b) = Inf b"
| "fp_add mb eb (Fin m e) (Fin n f) =
     (let g = min e f in fp_round mb eb (m * 2 ^ nat (e - g) + n * 2 ^ nat (f - g)) g)"

definition fp_sub :: "nat \<Rightarrow> nat \<Rightarrow> fpval \<Rightarrow> fpval \<Rightarrow> fpval" where
  "fp_sub mb eb a b = fp_add mb eb a (fp_neg b)"

fun fp_mul :: "nat \<Rightarrow> nat \<Rightarrow> fpval \<Rightarrow> fpval \<Rightarrow> fpval" where
  "fp_mul mb eb NaN _ = NaN"
| "fp_mul mb eb _ NaN = NaN"
| "fp_mul mb eb (Inf a) (Inf b) = Inf (a \<noteq> b)"
| "fp_mul mb eb (Inf a) (Fin n _) = (if n = 0 then NaN else Inf (a \<noteq> (n < 0)))"
| "fp_mul mb eb (Fin m _) (Inf b) = (if m = 0 then NaN else Inf ((m < 0) \<noteq> b))"
| "fp_mul mb eb (Fin m e) (Fin n f) = fp_round mb eb (m * n) (e + f)"

text \<open>
  The quotient of two finite values: enough quotient bits for the rounding, and one more bit
  that records whether there is a remainder.
\<close>

definition fin_div :: "nat \<Rightarrow> nat \<Rightarrow> int \<Rightarrow> int \<Rightarrow> int \<Rightarrow> int \<Rightarrow> fpval" where
  "fin_div mb eb m e n f =
     (let k = nat (int mb + 3 + bitlength \<bar>n\<bar>);
          q = \<bar>m\<bar> * 2 ^ k div \<bar>n\<bar>;
          sticky = (if \<bar>m\<bar> * 2 ^ k mod \<bar>n\<bar> = 0 then 0 else 1)
      in fp_round mb eb (sgn m * sgn n * (2 * q + sticky)) (e - f - int k - 1))"

fun fp_div :: "nat \<Rightarrow> nat \<Rightarrow> fpval \<Rightarrow> fpval \<Rightarrow> fpval" where
  "fp_div mb eb NaN _ = NaN"
| "fp_div mb eb _ NaN = NaN"
| "fp_div mb eb (Inf a) (Inf b) = NaN"
| "fp_div mb eb (Inf a) (Fin n _) = Inf (a \<noteq> (n < 0))"
| "fp_div mb eb (Fin m e) (Inf b) = Fin 0 0"
| "fp_div mb eb (Fin m e) (Fin n f) =
     (if n = 0 then (if m = 0 then NaN else Inf (m < 0)) else fin_div mb eb m e n f)"

text \<open>\<open>(int) x\<close> cuts off towards zero.\<close>

definition fp_trunc :: "fpval \<Rightarrow> int" where
  "fp_trunc v =
     (case v of
        Fin m e \<Rightarrow> (let r = (if 0 \<le> e then m * 2 ^ nat e else sgn m * (\<bar>m\<bar> div 2 ^ nat (- e)))
                   in if in_i32 r then r else - 2147483648)
      | _ \<Rightarrow> - 2147483648)"

text \<open>\<open>(int) lroundf(x)\<close>, through a 64-bit \<open>long\<close>.\<close>

definition fp_lround :: "fpval \<Rightarrow> int" where
  "fp_lround v =
     (case v of
        Fin m e \<Rightarrow> (let r = round_away m e
                   in wrap32 (if - (2 ^ 63) \<le> r \<and> r < 2 ^ 63 then r else - (2 ^ 63)))
      | _ \<Rightarrow> wrap32 (- (2 ^ 63)))"

text \<open>\<open>FLT_MISS\<close>, and the test \<open>x == FLT_MISS\<close>.\<close>

definition flt_miss_val :: fpval where
  "flt_miss_val = Fin (- 2000000000) 0"

definition fp_is_miss :: "fpval \<Rightarrow> bool" where
  "fp_is_miss v \<longleftrightarrow> fp_eq v flt_miss_val"

section \<open>Small integers are exact\<close>

text \<open>What the properties need of floating point: on integers of up to 24 bits nothing is rounded.\<close>

named_theorems fp_simps \<open>exact floating point operations\<close>

lemma bitlength_le: "n < 2 ^ k \<Longrightarrow> bitlength n \<le> int k"
proof (induction k arbitrary: n)
  case 0
  then show ?case by (simp add: bitlength.simps)
next
  case (Suc k)
  then have "n div 2 < 2 ^ k" by simp
  from Suc.IH [OF this] show ?case by (simp add: bitlength.simps [of n])
qed

lemma fp_round_exact:
  assumes "\<bar>n\<bar> < 2 ^ 24"
  shows "fp_round 23 8 n 0 = Fin n 0"
proof -
  from bitlength_le [OF assms] have k: "max (bitlength \<bar>n\<bar> - 24) (- 149) \<le> 0" by simp
  from assms have o: "\<not> 2 ^ 128 \<le> \<bar>n\<bar>" by simp
  have "nat (2 ^ (8 - 1) - 1 + 1) = (128::nat)" by simp
  with k o show ?thesis
    by (simp add: fp_round_def Let_def sgn_mult_abs)
qed

lemma fp_of_int_exact [fp_simps]: "\<bar>n\<bar> < 2 ^ 24 \<Longrightarrow> fp_of_int 23 8 n = Fin n 0"
  by (simp add: fp_of_int_def fp_round_exact)

lemma fp_add_exact [fp_simps]: "\<bar>m + n\<bar> < 2 ^ 24 \<Longrightarrow> fp_add 23 8 (Fin m 0) (Fin n 0) = Fin (m + n) 0"
  by (simp add: fp_round_exact)

lemma fp_mul_exact [fp_simps]: "\<bar>m * n\<bar> < 2 ^ 24 \<Longrightarrow> fp_mul 23 8 (Fin m 0) (Fin n 0) = Fin (m * n) 0"
  by (simp add: fp_round_exact)

lemma fp_lround_exact [fp_simps]: "in_i32 n \<Longrightarrow> fp_lround (Fin n 0) = n"
  by (simp add: fp_lround_def round_away_def Let_def in_i32_def wrap32_def)

lemma fp_eq_int [fp_simps]: "fp_eq (Fin m 0) (Fin n 0) \<longleftrightarrow> m = n"
  by (auto simp: fp_eq_def fin_le_def)

lemma fp_is_miss_int [fp_simps]: "fp_is_miss (Fin n 0) \<longleftrightarrow> n = - 2000000000"
  by (simp add: fp_is_miss_def flt_miss_val_def fp_eq_int)

end
