(* ===== verification/Dictionary.thy ===== *)
theory Dictionary
  imports Prelude
begin

text \<open>
  \<open>libxpcockpit/src/dictionary.c\<close>: string/string associations in parallel arrays of keys,
  values and hashes. (\<open>xpserver/src/dictionary.c\<close> is the same file but for a cast.)

  A C string is the list of its characters without the terminator; the arrays are lists of
  the length \<open>size\<close>, and an array that was lost when the dictionary could not grow is the
  empty list, so that reading it is undefined. \<open>avail\<close> says which allocations succeed.
\<close>

unbundle bit_operations_syntax

section \<open>State\<close>

record dictionary =
  d_n :: nat
  d_size :: nat
  d_val :: "mem option list"
  d_key :: "mem option list"
  d_hash :: "32 word list"

abbreviation (input) DICTMINSZ :: nat where "DICTMINSZ \<equiv> 128"

text \<open>A \<open>char *\<close> result: \<open>NULL\<close>, the marker \<open>(char * )-1\<close>, or a string.\<close>

datatype cptr = Null | Invalid | Str mem

definition ptr_of :: "mem option \<Rightarrow> cptr" where
  "ptr_of v = (case v of None \<Rightarrow> Null | Some s \<Rightarrow> Str s)"

section \<open>Hash\<close>

text \<open>\<open>(unsigned)key[i]\<close> sign-extends the character.\<close>

definition hash_step :: "32 word \<Rightarrow> byte \<Rightarrow> 32 word" where
  "hash_step h c =
     (let h = h + signed c; h = h + push_bit 10 h in h XOR drop_bit 6 h)"

definition dictionary_hash :: "mem \<Rightarrow> 32 word" where
  "dictionary_hash key =
     (let h = fold (\<lambda>c h. hash_step h c) key 0;
          h = h + push_bit 3 h;
          h = h XOR drop_bit 11 h
      in h + push_bit 15 h)"

section \<open>Operations\<close>

definition dictionary_new :: "nat \<Rightarrow> dictionary" where
  "dictionary_new size0 =
     (let size = (if size0 < DICTMINSZ then DICTMINSZ else size0)
      in \<lparr>d_n = 0, d_size = size, d_val = replicate size None, d_key = replicate size None,
          d_hash = replicate size 0\<rparr>)"

text \<open>
  The search loop over slots \<open>i, \<dots>, i + r - 1\<close>: the first slot with the hash and the key.
\<close>

fun find_key :: "mem \<Rightarrow> 32 word \<Rightarrow> mem option list \<Rightarrow> 32 word list \<Rightarrow> nat \<Rightarrow> nat \<Rightarrow> nat option option" where
  "find_key key h ks hs i 0 = Some None"
| "find_key key h ks hs i (Suc r) =
     (if i < length ks then
        (case ks ! i of
           None \<Rightarrow> find_key key h ks hs (Suc i) r
         | Some k \<Rightarrow>
             (if i < length hs then
                (if h = hs ! i \<and> key = k then Some (Some i) else find_key key h ks hs (Suc i) r)
              else None))
      else None)"

definition dictionary_get :: "dictionary \<Rightarrow> mem \<Rightarrow> cptr \<Rightarrow> cptr option" where
  "dictionary_get d key def =
     do {
       found \<leftarrow> find_key key (dictionary_hash key) (d_key d) (d_hash d) 0 (d_size d);
       (case found of
          None \<Rightarrow> Some def
        | Some i \<Rightarrow> (if i < length (d_val d) then Some (ptr_of (d_val d ! i)) else None))
     }"

definition xstrdup :: "(nat \<Rightarrow> bool) \<Rightarrow> mem \<Rightarrow> mem option" where
  "xstrdup avail s = (if avail (length s + 1) then Some s else None)"

text \<open>\<open>mem_double\<close>: the array followed by as many zero elements, \<open>[]\<close> when that fails.\<close>

definition mem_double :: "(nat \<Rightarrow> bool) \<Rightarrow> nat \<Rightarrow> 'a \<Rightarrow> 'a list \<Rightarrow> 'a list" where
  "mem_double avail es z xs =
     (if avail (2 * (length xs * es)) then xs @ replicate (length xs) z else [])"

text \<open>The first empty slot; the loop ends at \<open>size\<close> when there is none.\<close>

fun empty_slot :: "mem option list \<Rightarrow> nat" where
  "empty_slot [] = 0"
| "empty_slot (k # ks) = (if k = None then 0 else Suc (empty_slot ks))"

definition grow :: "(nat \<Rightarrow> bool) \<Rightarrow> dictionary \<Rightarrow> dictionary \<times> bool" where
  "grow avail d =
     (if d_n d = d_size d then
        (let d = d\<lparr>d_val := mem_double avail 8 None (d_val d), d_key := mem_double avail 8 None (d_key d),
                   d_hash := mem_double avail 4 0 (d_hash d)\<rparr>
         in if d_val d = [] \<or> d_key d = [] \<or> d_hash d = [] then (d, False)
            else (d\<lparr>d_size := d_size d * 2\<rparr>, True))
      else (d, True))"

definition insert_new :: "(nat \<Rightarrow> bool) \<Rightarrow> mem \<Rightarrow> mem option \<Rightarrow> dictionary \<Rightarrow> dictionary option" where
  "insert_new avail key val d =
     (let i = empty_slot (d_key d) in
      if i < length (d_key d) \<and> i < length (d_val d) \<and> i < length (d_hash d) then
        Some (d\<lparr>d_key := (d_key d)[i := xstrdup avail key],
                d_val := (d_val d)[i := Option.bind val (xstrdup avail)],
                d_hash := (d_hash d)[i := dictionary_hash key], d_n := d_n d + 1\<rparr>)
      else None)"

text \<open>
  \<open>dictionary_set\<close> with a dictionary and a key that are not \<open>NULL\<close>: the dictionary and the
  return value.
\<close>

definition dictionary_set ::
  "(nat \<Rightarrow> bool) \<Rightarrow> dictionary \<Rightarrow> mem \<Rightarrow> mem option \<Rightarrow> (dictionary \<times> int) option" where
  "dictionary_set avail d key val =
     do {
       found \<leftarrow> (if d_n d > 0
                 then find_key key (dictionary_hash key) (d_key d) (d_hash d) 0 (d_size d)
                 else Some None);
       (case found of
          Some i \<Rightarrow>
            (if i < length (d_val d)
             then Some (d\<lparr>d_val := (d_val d)[i := Option.bind val (xstrdup avail)]\<rparr>, 0)
             else None)
        | None \<Rightarrow>
            (case grow avail d of
               (d, False) \<Rightarrow> Some (d, -1)
             | (d, True) \<Rightarrow> map_option (\<lambda>d. (d, 0)) (insert_new avail key val d)))
     }"

definition dictionary_unset :: "dictionary \<Rightarrow> mem \<Rightarrow> dictionary option" where
  "dictionary_unset d key =
     do {
       found \<leftarrow> find_key key (dictionary_hash key) (d_key d) (d_hash d) 0 (d_size d);
       (case found of
          None \<Rightarrow> Some d
        | Some i \<Rightarrow>
            (if i < length (d_val d) \<and> i < length (d_hash d) then
               Some (d\<lparr>d_key := (d_key d)[i := None], d_val := (d_val d)[i := None],
                       d_hash := (d_hash d)[i := 0], d_n := d_n d - 1\<rparr>)
             else None))
     }"

section \<open>Invariant and abstraction\<close>

text \<open>
  The three arrays have the stated size, hashes belong to their keys, a key is stored once,
  and \<open>n\<close> counts the keys.
\<close>

definition dict_inv :: "dictionary \<Rightarrow> bool" where
  "dict_inv d \<longleftrightarrow>
     length (d_key d) = d_size d \<and> length (d_val d) = d_size d \<and> length (d_hash d) = d_size d \<and>
     0 < d_size d \<and>
     (\<forall>i k. i < d_size d \<longrightarrow> d_key d ! i = Some k \<longrightarrow> d_hash d ! i = dictionary_hash k) \<and>
     (\<forall>i j k. i < d_size d \<longrightarrow> j < d_size d \<longrightarrow> d_key d ! i = Some k \<longrightarrow> d_key d ! j = Some k \<longrightarrow> i = j) \<and>
     d_n d = length (filter (\<lambda>k. k \<noteq> None) (d_key d))"

text \<open>The map that a dictionary stands for: a key that is present has a value or \<open>NULL\<close>.\<close>

definition dict_map :: "dictionary \<Rightarrow> mem \<Rightarrow> mem option option" where
  "dict_map d key = map_of (zip (d_key d) (d_val d)) (Some key)"

lemma zip_nth_map_of:
  assumes "length ks = length vs" and "i < length ks" and "ks ! i = Some k"
    and "\<And>j. j < length ks \<Longrightarrow> ks ! j = Some k \<Longrightarrow> j = i"
  shows "map_of (zip ks vs) (Some k) = Some (vs ! i)"
  using assms
proof (induction ks vs arbitrary: i rule: list_induct2)
  case Nil
  then show ?case by simp
next
  case (Cons x xs y ys)
  show ?case
  proof (cases i)
    case 0
    with Cons.prems show ?thesis by simp
  next
    case (Suc l)
    have "x \<noteq> Some k" using Cons.prems(3) [of 0] Suc by auto
    moreover have "map_of (zip xs ys) (Some k) = Some (ys ! l)"
    proof (rule Cons.IH)
      show "l < length xs" "xs ! l = Some k" using Cons.prems Suc by simp_all
      show "j = l" if "j < length xs" "xs ! j = Some k" for j
        using Cons.prems(3) [of "Suc j"] that Suc by simp
    qed
    ultimately show ?thesis using Suc by simp
  qed
qed

lemma map_of_zip_absent:
  "Some k \<notin> set ks \<Longrightarrow> map_of (zip ks vs) (Some k) = None"
  by (auto simp: map_of_eq_None_iff dest: set_zip_leftD)

lemma find_key_result:
  assumes "i + r \<le> length ks" and "length hs = length ks"
    and "\<And>j k. j < length ks \<Longrightarrow> ks ! j = Some k \<Longrightarrow> hs ! j = dictionary_hash k"
  shows "(\<exists>j. find_key key (dictionary_hash key) ks hs i r = Some (Some j) \<and>
            i \<le> j \<and> j < i + r \<and> ks ! j = Some key) \<or>
         (find_key key (dictionary_hash key) ks hs i r = Some None \<and>
            (\<forall>j. i \<le> j \<longrightarrow> j < i + r \<longrightarrow> ks ! j \<noteq> Some key))"
  using assms(1)
proof (induction r arbitrary: i)
  case 0
  then show ?case by auto
next
  case (Suc r)
  have lt: "i < length ks" "i < length hs" using Suc.prems assms(2) by auto
  show ?case
  proof (cases "ks ! i = Some key")
    case True
    then show ?thesis using lt assms(3) by auto
  next
    case False
    have e: "find_key key (dictionary_hash key) ks hs i (Suc r) =
        find_key key (dictionary_hash key) ks hs (Suc i) r"
      using False lt by (cases "ks ! i") auto
    have "i \<le> j \<and> j < i + Suc r \<longleftrightarrow> j = i \<or> (Suc i \<le> j \<and> j < Suc i + r)" for j
      by auto
    with Suc.IH [of "Suc i"] Suc.prems False show ?thesis
      unfolding e by (metis Suc_leD add_Suc_shift)
  qed
qed

text \<open>Under the invariant the search finds the one slot that holds the key.\<close>

lemma find_key_cases:
  assumes "dict_inv d"
  obtains (Present) j where
      "find_key key (dictionary_hash key) (d_key d) (d_hash d) 0 (d_size d) = Some (Some j)"
      "j < d_size d" "d_key d ! j = Some key"
  | (Absent)
      "find_key key (dictionary_hash key) (d_key d) (d_hash d) 0 (d_size d) = Some None"
      "Some key \<notin> set (d_key d)"
proof -
  have "length (d_hash d) = length (d_key d)" "length (d_key d) = d_size d"
    "\<And>j k. j < length (d_key d) \<Longrightarrow> d_key d ! j = Some k \<Longrightarrow> d_hash d ! j = dictionary_hash k"
    using assms by (auto simp: dict_inv_def)
  with find_key_result [of 0 "d_size d" "d_key d" "d_hash d" key] show ?thesis
    using Present Absent by (auto simp: in_set_conv_nth)
qed

lemma dict_map_slot:
  "dict_inv d \<Longrightarrow> j < d_size d \<Longrightarrow> d_key d ! j = Some key \<Longrightarrow> dict_map d key = Some (d_val d ! j)"
  unfolding dict_map_def dict_inv_def by (rule zip_nth_map_of) auto

lemma dict_map_absent: "Some key \<notin> set (d_key d) \<Longrightarrow> dict_map d key = None"
  unfolding dict_map_def by (rule map_of_zip_absent)

lemma dictionary_get_map:
  assumes "dict_inv d"
  shows "dictionary_get d key def = Some (case dict_map d key of None \<Rightarrow> def | Some v \<Rightarrow> ptr_of v)"
  using assms
proof (cases rule: find_key_cases [of d key])
  case (Present j)
  with assms dict_map_slot [OF assms Present(2,3)] show ?thesis
    by (auto simp: dictionary_get_def dict_inv_def)
qed (auto simp: assms dictionary_get_def dict_map_absent)

text \<open>The map of a dictionary that satisfies the invariant, and how its parts change it.\<close>

lemma dict_invD:
  assumes "dict_inv d"
  shows "length (d_key d) = d_size d" and "length (d_val d) = d_size d" and "length (d_hash d) = d_size d"
    and "0 < d_size d" and "d_n d = length (filter (\<lambda>k. k \<noteq> None) (d_key d))"
    and "i < d_size d \<Longrightarrow> d_key d ! i = Some k \<Longrightarrow> d_hash d ! i = dictionary_hash k"
    and "i < d_size d \<Longrightarrow> j < d_size d \<Longrightarrow> d_key d ! i = Some k \<Longrightarrow> d_key d ! j = Some k \<Longrightarrow> i = j"
  using assms unfolding dict_inv_def by blast+

lemma dict_map_iff:
  assumes "dict_inv d"
  shows "dict_map d key = Some v \<longleftrightarrow> (\<exists>j < d_size d. d_key d ! j = Some key \<and> d_val d ! j = v)"
  using assms
proof (cases rule: find_key_cases [of d key])
  case (Present j)
  have "dict_map d key = Some (d_val d ! j)"
    using dict_map_slot [OF assms Present(2,3)] .
  moreover have "i = j" if "i < d_size d" "d_key d ! i = Some key" for i
    using dict_invD(7) [OF assms that(1) Present(2) that(2) Present(3)] .
  ultimately show ?thesis using Present(2,3) by (metis option.inject)
next
  case Absent
  have "d_key d ! j \<noteq> Some key" if "j < d_size d" for j
    using that Absent(2) dict_invD(1) [OF assms] by (metis nth_mem)
  with dict_map_absent [OF Absent(2)] show ?thesis by auto
qed

lemma dict_map_eqI:
  assumes "\<And>k v. dict_map d k = Some v \<longleftrightarrow> m k = Some v"
  shows "dict_map d = m"
  by (rule ext) (metis assms not_None_eq)

lemma count_update_in:
  "i < length xs \<Longrightarrow> xs ! i = None \<Longrightarrow>
   length (filter (\<lambda>k. k \<noteq> None) (xs[i := Some k])) = length (filter (\<lambda>k. k \<noteq> None) xs) + 1"
  by (induction xs arbitrary: i) (auto split: nat.splits)

lemma count_pos:
  "i < length xs \<Longrightarrow> xs ! i = Some k \<Longrightarrow> 0 < length (filter (\<lambda>k. k \<noteq> None) xs)"
  by (simp add: filter_empty_conv) (metis nth_mem)

lemma count_update_out:
  "i < length xs \<Longrightarrow> xs ! i = Some k \<Longrightarrow>
   length (filter (\<lambda>k. k \<noteq> None) (xs[i := None])) = length (filter (\<lambda>k. k \<noteq> None) xs) - 1"
proof -
  assume a: "i < length xs" "xs ! i = Some k"
  have "xs = (xs[i := None])[i := Some k]" using a(2) by (metis list_update_id list_update_overwrite)
  with count_update_in [of i "xs[i := None]" k] a(1) show ?thesis by simp
qed

lemma empty_slot_bound:
  "length (filter (\<lambda>k. k \<noteq> None) ks) < length ks \<Longrightarrow>
   empty_slot ks < length ks \<and> ks ! empty_slot ks = None"
  by (induction ks) (auto split: if_splits)

lemma dictionary_new_inv: "dict_inv (dictionary_new n)"
  by (auto simp: dict_inv_def dictionary_new_def)

lemma dictionary_new_map: "dict_map (dictionary_new n) = (\<lambda>_. None)"
  by (rule ext, rule dict_map_absent) (auto simp: dictionary_new_def)

lemma set_value:
  assumes "dict_inv d" and "j < d_size d" and "d_key d ! j = Some key"
  shows "dict_inv (d\<lparr>d_val := (d_val d)[j := v]\<rparr>)"
    and "dict_map (d\<lparr>d_val := (d_val d)[j := v]\<rparr>) = (dict_map d)(key \<mapsto> v)"
proof -
  show inv: "dict_inv (d\<lparr>d_val := (d_val d)[j := v]\<rparr>)"
    using assms unfolding dict_inv_def by simp
  have l: "length (d_val d) = d_size d" using assms(1) by (rule dict_invD)
  have inj: "\<And>i. i < d_size d \<Longrightarrow> d_key d ! i = Some key \<Longrightarrow> i = j"
    using dict_invD(7) [OF assms(1) _ assms(2) _ assms(3)] by blast
  show "dict_map (d\<lparr>d_val := (d_val d)[j := v]\<rparr>) = (dict_map d)(key \<mapsto> v)"
  proof (rule dict_map_eqI)
    fix k w
    show "dict_map (d\<lparr>d_val := (d_val d)[j := v]\<rparr>) k = Some w \<longleftrightarrow> ((dict_map d)(key \<mapsto> v)) k = Some w"
      unfolding dict_map_iff [OF inv] using assms(2,3) l
      by (cases "k = key") (auto simp: dict_map_iff [OF assms(1)] nth_list_update dest: inj)
  qed
qed

lemma insert_at:
  fixes v :: "mem option"
  assumes "dict_inv d" and "i < d_size d" and "d_key d ! i = None" and "Some key \<notin> set (d_key d)"
  defines "d' \<equiv> d\<lparr>d_key := (d_key d)[i := Some key], d_val := (d_val d)[i := v],
                  d_hash := (d_hash d)[i := dictionary_hash key], d_n := d_n d + 1\<rparr>"
  shows "dict_inv d'" and "dict_map d' = (dict_map d)(key \<mapsto> v)"
proof -
  note D = dict_invD [OF assms(1)]
  have f [simp]: "d_size d' = d_size d" "d_key d' = (d_key d)[i := Some key]"
    "d_val d' = (d_val d)[i := v]" "d_hash d' = (d_hash d)[i := dictionary_hash key]"
    "d_n d' = d_n d + 1"
    by (simp_all add: d'_def)
  have absent: "\<And>j. j < d_size d \<Longrightarrow> d_key d ! j \<noteq> Some key"
    using assms(4) D(1) by (metis nth_mem)
  have count: "d_n d' = length (filter (\<lambda>k. k \<noteq> None) (d_key d'))"
    using count_update_in [of i "d_key d" key] assms(2,3) D(1,5) by simp
  have nth: "d_key d' ! j = Some k \<longleftrightarrow> (if j = i then k = key else d_key d ! j = Some k)"
    if "j < d_size d" for j k
    using that assms(3) D(1) by (auto simp: nth_list_update)
  have unique: "j = j'" if "j < d_size d" "j' < d_size d" "d_key d' ! j = Some k" "d_key d' ! j' = Some k"
    for j j' k
    using that nth absent D(7) [of j j' k] by (auto split: if_splits)
  have hashes: "d_hash d' ! j = dictionary_hash k" if "j < d_size d" "d_key d' ! j = Some k" for j k
    using nth [OF that(1), of k] that D(3) D(6) [OF that(1), of k] assms(2)
    by (simp add: nth_list_update split: if_splits del: f(2))
  show inv: "dict_inv d'"
    unfolding dict_inv_def using count unique hashes D(1-4) by (simp del: f(5))
  show "dict_map d' = (dict_map d)(key \<mapsto> v)"
  proof (rule dict_map_eqI)
    fix k w
    show "dict_map d' k = Some w \<longleftrightarrow> ((dict_map d)(key \<mapsto> v)) k = Some w"
    proof (cases "k = key")
      case True
      then show ?thesis unfolding dict_map_iff [OF inv] f(1) using assms(2) D(2) absent
        by (auto simp: nth nth_list_update simp del: f(2) cong: conj_cong)
    next
      case False
      have "(d_key d' ! j = Some k \<and> d_val d' ! j = w) \<longleftrightarrow> (d_key d ! j = Some k \<and> d_val d ! j = w)"
        if "j < d_size d" for j
        using False assms(3) nth [OF that, of k] by (cases "j = i") (simp_all del: f(2))
      with False show ?thesis
        unfolding dict_map_iff [OF inv] f(1) by (simp add: dict_map_iff [OF assms(1)] cong: conj_cong)
    qed
  qed
qed

lemma remove_at:
  assumes "dict_inv d" and "i < d_size d" and "d_key d ! i = Some key"
  defines "d' \<equiv> d\<lparr>d_key := (d_key d)[i := None], d_val := (d_val d)[i := None],
                  d_hash := (d_hash d)[i := 0], d_n := d_n d - 1\<rparr>"
  shows "dict_inv d'" and "dict_map d' = (dict_map d)(key := None)"
proof -
  note D = dict_invD [OF assms(1)]
  have f [simp]: "d_size d' = d_size d" "d_key d' = (d_key d)[i := None]"
    "d_val d' = (d_val d)[i := None]" "d_hash d' = (d_hash d)[i := 0]" "d_n d' = d_n d - 1"
    by (simp_all add: d'_def)
  have count: "d_n d' = length (filter (\<lambda>k. k \<noteq> None) (d_key d'))"
    using count_update_out [of i "d_key d" key] assms(2,3) D(1,5) by simp
  have nth: "d_key d' ! j = Some k \<longleftrightarrow> j \<noteq> i \<and> d_key d ! j = Some k" if "j < d_size d" for j k
    using that D(1) assms(2) by (auto simp: nth_list_update)
  have unique: "j = j'" if "j < d_size d" "j' < d_size d" "d_key d' ! j = Some k" "d_key d' ! j' = Some k"
    for j j' k
    using that nth D(7) [of j j' k] by (auto simp del: f(2))
  have hashes: "d_hash d' ! j = dictionary_hash k" if "j < d_size d" "d_key d' ! j = Some k" for j k
    using nth [OF that(1), of k] that D(6) [OF that(1), of k] by (simp del: f(2))
  show inv: "dict_inv d'"
    unfolding dict_inv_def using count unique hashes D(1-4) by (simp del: f(5))
  have only: "j = i" if "j < d_size d" "d_key d ! j = Some key" for j
    using D(7) that assms(2,3) by blast
  show "dict_map d' = (dict_map d)(key := None)"
  proof (rule dict_map_eqI)
    fix k w
    have eq: "(d_key d' ! j = Some k \<and> d_val d' ! j = w) \<longleftrightarrow>
        (k \<noteq> key \<and> d_key d ! j = Some k \<and> d_val d ! j = w)" if "j < d_size d" for j
      using assms(3) only [OF that] nth [OF that, of k]
      by (cases "j = i") (auto simp del: f(2))
    have "dict_map d' k = Some w \<longleftrightarrow> k \<noteq> key \<and> dict_map d k = Some w"
      unfolding dict_map_iff [OF inv] dict_map_iff [OF assms(1)] f(1) using eq by blast
    then show "dict_map d' k = Some w \<longleftrightarrow> ((dict_map d)(key := None)) k = Some w"
      by simp
  qed
qed

lemma grow_inv:
  assumes "dict_inv d" and "\<And>n. avail n"
  shows "\<exists>d'. grow avail d = (d', True) \<and> dict_inv d' \<and> dict_map d' = dict_map d \<and>
    set (d_key d') \<subseteq> insert None (set (d_key d)) \<and> d_n d' < d_size d'"
proof (cases "d_n d = d_size d")
  case False
  moreover have "d_n d \<le> d_size d"
    using assms(1) by (metis dict_inv_def length_filter_le)
  ultimately show ?thesis using assms(1) by (auto simp: grow_def)
next
  case True
  let ?d = "d\<lparr>d_val := d_val d @ replicate (d_size d) None, d_key := d_key d @ replicate (d_size d) None,
    d_hash := d_hash d @ replicate (d_size d) 0, d_size := d_size d * 2\<rparr>"
  have l: "length (d_val d) = d_size d" "length (d_key d) = d_size d" "length (d_hash d) = d_size d"
    and pos: "0 < d_size d"
    using assms(1) unfolding dict_inv_def by blast+
  have nth: "(d_key d @ replicate (d_size d) None) ! j = Some k \<longleftrightarrow> j < d_size d \<and> d_key d ! j = Some k"
    if "j < d_size d * 2" for j k
    using that l by (auto simp: nth_append)
  have inv: "dict_inv ?d"
    using assms(1) l pos nth unfolding dict_inv_def by (auto simp: nth_append)
  have "dict_map ?d = dict_map d"
    by (rule dict_map_eqI)
      (use l nth in \<open>auto simp: dict_map_iff [OF inv] dict_map_iff [OF assms(1)] nth_append\<close>)
  moreover have "grow avail d = (?d, True)"
    using True assms(2) l pos by (auto simp: grow_def mem_double_def Let_def)
  ultimately show ?thesis using inv True pos by auto
qed

lemma dictionary_set_map:
  assumes "dict_inv d" and "\<And>n. avail n"
  shows "\<exists>d'. dictionary_set avail d key val = Some (d', 0) \<and> dict_inv d' \<and>
    dict_map d' = (dict_map d)(key \<mapsto> val)"
proof -
  have dup: "xstrdup avail s = Some s" for s by (simp add: xstrdup_def assms(2))
  then have dupv: "Option.bind val (xstrdup avail) = val" by (cases val) simp_all
  from assms(1) show ?thesis
  proof (cases rule: find_key_cases [of d key])
    case (Present j)
    have "d_n d > 0" and "j < length (d_val d)"
      using assms(1) Present(2,3) count_pos [of j "d_key d" key] unfolding dict_inv_def by auto
    then have "dictionary_set avail d key val = Some (d\<lparr>d_val := (d_val d)[j := val]\<rparr>, 0)"
      using Present(1) by (simp add: dictionary_set_def dupv)
    with set_value [OF assms(1) Present(2,3)] show ?thesis by auto
  next
    case Absent
    obtain d1 where d1: "grow avail d = (d1, True)" "dict_inv d1" "dict_map d1 = dict_map d"
      "set (d_key d1) \<subseteq> insert None (set (d_key d))" "d_n d1 < d_size d1"
      using grow_inv [of d avail] assms by blast
    let ?i = "empty_slot (d_key d1)"
    have l: "length (d_val d1) = d_size d1" "length (d_key d1) = d_size d1" "length (d_hash d1) = d_size d1"
      and "d_n d1 = length (filter (\<lambda>k. k \<noteq> None) (d_key d1))"
      using d1(2) unfolding dict_inv_def by blast+
    with d1(5) have i: "?i < d_size d1" "d_key d1 ! ?i = None"
      using empty_slot_bound [of "d_key d1"] by auto
    have "Some key \<notin> set (d_key d1)" using d1(4) Absent(2) by blast
    note I = insert_at [OF d1(2) i this, of val]
    have "insert_new avail key val d1 = Some (d1\<lparr>d_key := (d_key d1)[?i := Some key],
        d_val := (d_val d1)[?i := val], d_hash := (d_hash d1)[?i := dictionary_hash key],
        d_n := d_n d1 + 1\<rparr>)"
      using l i(1) by (simp add: insert_new_def dup dupv Let_def)
    with I d1(1,3) Absent(1) show ?thesis
      by (simp add: dictionary_set_def)
  qed
qed

lemma dictionary_unset_map:
  assumes "dict_inv d"
  shows "\<exists>d'. dictionary_unset d key = Some d' \<and> dict_inv d' \<and>
    dict_map d' = (dict_map d)(key := None)"
  using assms
proof (cases rule: find_key_cases [of d key])
  case (Present j)
  have "j < length (d_val d)" "j < length (d_hash d)"
    using assms Present(2) unfolding dict_inv_def by auto
  with remove_at [OF assms Present(2,3)] Present(1) show ?thesis
    by (simp add: dictionary_unset_def)
next
  case Absent
  then show ?thesis using assms dict_map_absent [of key d]
    by (auto simp: dictionary_unset_def)
qed

section \<open>The dictionary as a map\<close>

text \<open>
  The contract that users of a dictionary rely on, over the map \<open>lookup\<close> that it stands for,
  and what follows from it for sequences of calls.
\<close>

locale string_dict =
  fixes inv :: "'d \<Rightarrow> bool"
    and lookup :: "'d \<Rightarrow> mem \<Rightarrow> mem option option"
    and get :: "'d \<Rightarrow> mem \<Rightarrow> cptr \<Rightarrow> cptr option"
    and put :: "'d \<Rightarrow> mem \<Rightarrow> mem option \<Rightarrow> ('d \<times> int) option"
    and del :: "'d \<Rightarrow> mem \<Rightarrow> 'd option"
  assumes get_lookup: "inv d \<Longrightarrow> get d k def = Some (case lookup d k of None \<Rightarrow> def | Some v \<Rightarrow> ptr_of v)"
    and put_lookup: "inv d \<Longrightarrow> \<exists>d'. put d k v = Some (d', 0) \<and> inv d' \<and> lookup d' = (lookup d)(k \<mapsto> v)"
    and del_lookup: "inv d \<Longrightarrow> \<exists>d'. del d k = Some d' \<and> inv d' \<and> lookup d' = (lookup d)(k := None)"
begin

lemma get_put:
  assumes "inv d"
  shows "\<exists>d'. put d k v = Some (d', 0) \<and> inv d' \<and> get d' k def = Some (ptr_of v) \<and>
    (\<forall>k'. k' \<noteq> k \<longrightarrow> get d' k' def = get d k' def)"
proof -
  obtain d' where "put d k v = Some (d', 0)" "inv d'" "lookup d' = (lookup d)(k \<mapsto> v)"
    using put_lookup [OF assms] by blast
  then show ?thesis using assms by (intro exI [of _ d']) (simp add: get_lookup)
qed

lemma get_del:
  assumes "inv d"
  shows "\<exists>d'. del d k = Some d' \<and> inv d' \<and> get d' k def = Some def \<and>
    (\<forall>k'. k' \<noteq> k \<longrightarrow> get d' k' def = get d k' def)"
proof -
  obtain d' where "del d k = Some d'" "inv d'" "lookup d' = (lookup d)(k := None)"
    using del_lookup [OF assms] by blast
  then show ?thesis using assms by (intro exI [of _ d']) (simp add: get_lookup)
qed

lemma put_many:
  "inv d \<Longrightarrow> \<exists>d'. inv d' \<and> lookup d' = lookup d ++ map_of (rev kvs) \<and>
     foldl (\<lambda>r (k, v). Option.bind r (\<lambda>d. map_option fst (put d k v))) (Some d) kvs = Some d'"
proof (induction kvs arbitrary: d)
  case (Cons kv kvs)
  obtain k v where kv: "kv = (k, v)" by (cases kv)
  obtain d1 where d1: "put d k v = Some (d1, 0)" "inv d1" "lookup d1 = (lookup d)(k \<mapsto> v)"
    using put_lookup [OF Cons.prems] by blast
  obtain d' where "inv d'" "lookup d' = lookup d1 ++ map_of (rev kvs)"
    "foldl (\<lambda>r (k, v). Option.bind r (\<lambda>d. map_option fst (put d k v))) (Some d1) kvs = Some d'"
    using Cons.IH [OF d1(2)] by blast
  with d1 kv show ?case by (intro exI [of _ d']) (simp add: map_add_upd)
qed simp

end

interpretation dict: string_dict dict_inv dict_map dictionary_get "dictionary_set (\<lambda>_. True)" dictionary_unset
  by unfold_locales (simp_all add: dictionary_get_map dictionary_set_map dictionary_unset_map)

section \<open>Properties\<close>

text \<open>C38: Setting a key makes it readable and changes no other key, through any growth of the arrays: on a
  well-formed dictionary, with memory available, the call succeeds and keeps the dictionary
  well-formed.\<close>

theorem dictionary_get_set:
  assumes "dict_inv d"
  shows "\<exists>d'. dictionary_set (\<lambda>_. True) d key val = Some (d', 0) \<and> dict_inv d' \<and>
    dictionary_get d' key def = Some (ptr_of val) \<and>
    (\<forall>key'. key' \<noteq> key \<longrightarrow> dictionary_get d' key' def = dictionary_get d key' def)"
  by (rule dict.get_put [OF assms])

text \<open>Unsetting a key makes it absent and changes no other key.\<close>

theorem dictionary_get_unset:
  assumes "dict_inv d"
  shows "\<exists>d'. dictionary_unset d key = Some d' \<and> dict_inv d' \<and> dictionary_get d' key def = Some def \<and>
    (\<forall>key'. key' \<noteq> key \<longrightarrow> dictionary_get d' key' def = dictionary_get d key' def)"
  by (rule dict.get_del [OF assms])

text \<open>A new dictionary filled by any sequence of settings is the map of the last settings, however often
  it had to grow.\<close>

theorem dictionary_filled:
  "\<exists>d. foldl (\<lambda>r (k, v). Option.bind r (\<lambda>d. map_option fst (dictionary_set (\<lambda>_. True) d k v)))
         (Some (dictionary_new n)) kvs = Some d \<and>
     dict_inv d \<and> dict_map d = map_of (rev kvs)"
  using dict.put_many [OF dictionary_new_inv [of n], of kvs] by (auto simp: dictionary_new_map)

end
