(* ===== verification/Iniparser.thy ===== *)
theory Iniparser
  imports Dictionary
begin

text \<open>
  \<open>libxpcockpit/src/iniparser.c\<close>: the parser of the ini files that every program of the
  repository reads its settings from, on top of theory \<open>Dictionary\<close>.
  \<open>xpserver/src/iniparser.c\<close> is the same file but for the size of one buffer, which is the
  argument \<open>tmpsz\<close> here.

  A C string in an array is the list of its characters without the terminator; copying it into an
  array that has no room for it is undefined (\<open>copy_in\<close>). The file is the list of its bytes.
  The character classes are those of the C locale.
\<close>

section \<open>The standard library\<close>

definition isspace :: "byte \<Rightarrow> bool" where
  "isspace c \<longleftrightarrow> c = 32 \<or> (9 \<le> c \<and> c \<le> 13)"

definition tolower :: "byte \<Rightarrow> byte" where
  "tolower c = (if 65 \<le> c \<and> c \<le> 90 then c + 32 else c)"

text \<open>\<open>strcpy\<close>, \<open>sprintf\<close> or \<open>sscanf\<close> into an array of \<open>cap\<close> characters.\<close>

definition copy_in :: "nat \<Rightarrow> mem \<Rightarrow> mem option" where
  "copy_in cap s = (if length s < cap then Some s else None)"

text \<open>
  The conversions that the code's \<open>sscanf\<close> calls use: white space, a literal character, \<open>%[^\<dots>]\<close> and
  \<open>%[\<dots>]\<close>. The result is the list of the strings that are assigned, so that its length is the
  return value (where \<open>sscanf\<close> returns \<open>EOF\<close>, it is empty).
\<close>

datatype conversion = Blank | Lit byte | NoneOf "byte list" | OneOf "byte list"

fun sscanf :: "conversion list \<Rightarrow> mem \<Rightarrow> mem list" where
  "sscanf [] s = []"
| "sscanf (Blank # fs) s = sscanf fs (dropWhile isspace s)"
| "sscanf (Lit c # fs) s = (case s of [] \<Rightarrow> [] | x # xs \<Rightarrow> if x = c then sscanf fs xs else [])"
| "sscanf (NoneOf cs # fs) s =
     (let w = takeWhile (\<lambda>x. x \<notin> set cs) s
      in if w = [] then [] else w # sscanf fs (dropWhile (\<lambda>x. x \<notin> set cs) s))"
| "sscanf (OneOf cs # fs) s =
     (let w = takeWhile (\<lambda>x. x \<in> set cs) s
      in if w = [] then [] else w # sscanf fs (dropWhile (\<lambda>x. x \<in> set cs) s))"

text \<open>
  \<open>fgets(s, n, file)\<close>: up to \<open>n - 1\<close> characters, not beyond the end of the line; \<open>NULL\<close> at the
  end of the file. The text and what is left of the file.
\<close>

definition fgets :: "nat \<Rightarrow> mem \<Rightarrow> (mem \<times> mem) option" where
  "fgets n file =
     (if file = [] then None
      else let k = min (n - 1) (Suc (length (takeWhile (\<lambda>c. c \<noteq> 10) file)))
           in Some (take k file, drop k file))"

text \<open>\<open>strtol(s, NULL, 0)\<close>, with a 64-bit \<open>long\<close>.\<close>

definition digit_value :: "byte \<Rightarrow> int" where
  "digit_value c =
     (if 48 \<le> c \<and> c \<le> 57 then uint c - 48
      else if 97 \<le> tolower c \<and> tolower c \<le> 122 then uint (tolower c) - 87 else 36)"

fun read_digits :: "int \<Rightarrow> int \<Rightarrow> mem \<Rightarrow> int" where
  "read_digits base acc [] = acc"
| "read_digits base acc (c # s) =
     (if digit_value c < base then read_digits base (acc * base + digit_value c) s else acc)"

definition strtol_unsigned :: "mem \<Rightarrow> int" where
  "strtol_unsigned s =
     (case s of
        c # x # d # r \<Rightarrow>
          (if c = 48 \<and> (x = 120 \<or> x = 88) \<and> digit_value d < 16 then read_digits 16 0 (d # r)
           else if c = 48 then read_digits 8 0 s else read_digits 10 0 s)
      | c # r \<Rightarrow> (if c = 48 then read_digits 8 0 s else read_digits 10 0 s)
      | [] \<Rightarrow> 0)"

definition strtol :: "mem \<Rightarrow> int" where
  "strtol s =
     (let s = dropWhile isspace s;
          v = (case s of [] \<Rightarrow> 0
               | c # r \<Rightarrow> (if c = 45 then - strtol_unsigned r
                           else if c = 43 then strtol_unsigned r else strtol_unsigned s))
      in max (- (2 ^ 63)) (min (2 ^ 63 - 1) v))"

section \<open>Strings\<close>

abbreviation (input) ASCIILINESZ :: nat where "ASCIILINESZ \<equiv> 1024"

definition strlwc :: "mem \<Rightarrow> mem" where
  "strlwc s = map tolower (take ASCIILINESZ s)"

text \<open>The loops that remove white space at the end, in \<open>strstrip\<close> and \<open>iniparser_load\<close>.\<close>

definition strip_end :: "mem \<Rightarrow> mem" where
  "strip_end s = rev (dropWhile isspace (rev s))"

definition strstrip :: "mem \<Rightarrow> mem option" where
  "strstrip s = map_option strip_end (copy_in (ASCIILINESZ + 1) (dropWhile isspace s))"

section \<open>Access to a dictionary\<close>

definition iniparser_getstring :: "dictionary option \<Rightarrow> mem \<Rightarrow> cptr \<Rightarrow> cptr option" where
  "iniparser_getstring d key def =
     (case d of None \<Rightarrow> Some def | Some d \<Rightarrow> dictionary_get d (strlwc key) def)"

text \<open>A section has a \<open>NULL\<close> value, and reading a number from it is undefined.\<close>

definition iniparser_getint :: "dictionary option \<Rightarrow> mem \<Rightarrow> int \<Rightarrow> int option" where
  "iniparser_getint d key notfound =
     do {
       str \<leftarrow> iniparser_getstring d key Invalid;
       (case str of Invalid \<Rightarrow> Some notfound | Null \<Rightarrow> None | Str s \<Rightarrow> Some (wrap32 (strtol s)))
     }"

definition iniparser_getboolean :: "dictionary option \<Rightarrow> mem \<Rightarrow> int \<Rightarrow> int option" where
  "iniparser_getboolean d key notfound =
     do {
       c \<leftarrow> iniparser_getstring d key Invalid;
       (case c of Invalid \<Rightarrow> Some notfound | Null \<Rightarrow> None
        | Str s \<Rightarrow>
            (case s of [] \<Rightarrow> Some notfound
             | x # _ \<Rightarrow> Some (if x \<in> {121, 89, 49, 116, 84} then 1
                              else if x \<in> {110, 78, 48, 102, 70} then 0 else notfound)))
     }"

definition iniparser_find_entry :: "dictionary option \<Rightarrow> mem \<Rightarrow> int option" where
  "iniparser_find_entry ini entry =
     map_option (\<lambda>r. if r \<noteq> Invalid then 1 else 0) (iniparser_getstring ini entry Invalid)"

definition iniparser_set ::
  "(nat \<Rightarrow> bool) \<Rightarrow> dictionary \<Rightarrow> mem \<Rightarrow> mem option \<Rightarrow> (dictionary \<times> int) option" where
  "iniparser_set avail ini entry val = dictionary_set avail ini (strlwc entry) val"

definition iniparser_unset :: "dictionary \<Rightarrow> mem \<Rightarrow> dictionary option" where
  "iniparser_unset ini entry = dictionary_unset ini (strlwc entry)"

text \<open>Sections are the keys without a colon. The loops over the slots stop at \<open>size\<close>; a dictionary that
  has lost an array is never returned by \<open>iniparser_load\<close>.\<close>

definition is_section :: "mem option \<Rightarrow> bool" where
  "is_section k = (case k of None \<Rightarrow> False | Some s \<Rightarrow> 58 \<notin> set s)"

definition iniparser_getnsec :: "dictionary option \<Rightarrow> int" where
  "iniparser_getnsec d =
     (case d of None \<Rightarrow> -1
      | Some d \<Rightarrow> int (length (filter is_section (take (d_size d) (d_key d)))))"

definition iniparser_getsecname :: "dictionary option \<Rightarrow> int \<Rightarrow> mem option" where
  "iniparser_getsecname d n =
     (case d of None \<Rightarrow> None
      | Some d \<Rightarrow>
          (let secs = filter is_section (take (d_size d) (d_key d))
           in if n < 0 \<or> int (length secs) \<le> n then None else secs ! nat n))"

section \<open>One line\<close>

datatype line_status =
  LINE_UNPROCESSED | LINE_ERROR | LINE_EMPTY | LINE_COMMENT | LINE_SECTION | LINE_VALUE

text \<open>One \<open>sscanf\<close> call that reads a key and a value, and the calls joined by \<open>||\<close>.\<close>

definition scan_pair :: "conversion list \<Rightarrow> mem \<Rightarrow> mem \<Rightarrow> mem \<Rightarrow> (nat \<times> mem \<times> mem) option" where
  "scan_pair fmt line key value =
     (case sscanf fmt line of
        [] \<Rightarrow> Some (0, key, value)
      | [k] \<Rightarrow> map_option (\<lambda>k. (1, k, value)) (copy_in (ASCIILINESZ + 1) k)
      | k # v # _ \<Rightarrow>
          do {
            k \<leftarrow> copy_in (ASCIILINESZ + 1) k;
            v \<leftarrow> copy_in (ASCIILINESZ + 1) v;
            Some (2, k, v)
          })"

fun scan_any :: "conversion list list \<Rightarrow> mem \<Rightarrow> mem \<Rightarrow> mem \<Rightarrow> (bool \<times> mem \<times> mem) option" where
  "scan_any [] line key value = Some (False, key, value)"
| "scan_any (fmt # fmts) line key value =
     do {
       (n, key, value) \<leftarrow> scan_pair fmt line key value;
       if n = 2 then Some (True, key, value) else scan_any fmts line key value
     }"

definition value_formats :: "conversion list list" where
  "value_formats =
     [[NoneOf [61], Blank, Lit 61, Blank, Lit 34, NoneOf [34], Lit 34],
      [NoneOf [61], Blank, Lit 61, Blank, Lit 39, NoneOf [39], Lit 39],
      [NoneOf [61], Blank, Lit 61, Blank, NoneOf [59, 35]]]"

definition empty_formats :: "conversion list list" where
  "empty_formats =
     [[NoneOf [61], Blank, Lit 61, Blank, OneOf [59, 35]], [NoneOf [61], Blank, OneOf [61]]]"

text \<open>\<open>strcpy(key, strstrip(key)); strcpy(key, strlwc(key))\<close>, for the key and for a section.\<close>

definition clean_name :: "mem \<Rightarrow> mem option" where
  "clean_name s =
     do {
       s \<leftarrow> strstrip s;
       s \<leftarrow> copy_in (ASCIILINESZ + 1) s;
       copy_in (ASCIILINESZ + 1) (strlwc s)
     }"

definition iniparser_line ::
  "mem \<Rightarrow> mem \<Rightarrow> mem \<Rightarrow> mem \<Rightarrow> (line_status \<times> mem \<times> mem \<times> mem) option" where
  "iniparser_line input_line sec key value =
     do {
       t \<leftarrow> strstrip input_line;
       line \<leftarrow> copy_in (ASCIILINESZ + 1) t;
       if length line < 1 then Some (LINE_EMPTY, sec, key, value)
       else if hd line = 35 then Some (LINE_COMMENT, sec, key, value)
       else if hd line = 91 \<and> last line = 93 then
         do {
           sec \<leftarrow> (case sscanf [Lit 91, NoneOf [93]] line of
                       [] \<Rightarrow> Some sec | w # _ \<Rightarrow> copy_in (ASCIILINESZ + 1) w);
           sec \<leftarrow> clean_name sec;
           Some (LINE_SECTION, sec, key, value)
         }
       else
         do {
           (found, key, value) \<leftarrow> scan_any value_formats line key value;
           if found then
             do {
               key \<leftarrow> clean_name key;
               value \<leftarrow> strstrip value;
               value \<leftarrow> copy_in (ASCIILINESZ + 1) value;
               Some (LINE_VALUE, sec, key, if value = [34, 34] \<or> value = [39, 39] then [] else value)
             }
           else
             do {
               (found, key, value) \<leftarrow> scan_any empty_formats line key value;
               if found then
                 do { key \<leftarrow> clean_name key; Some (LINE_VALUE, sec, key, []) }
               else Some (LINE_ERROR, sec, key, value)
             }
         }
     }"

section \<open>A file\<close>

text \<open>\<open>dictionary_del\<close> has no result; it reads all slots of keys and values.\<close>

definition dictionary_del :: "dictionary \<Rightarrow> unit option" where
  "dictionary_del d =
     (if d_size d \<le> length (d_key d) \<and> d_size d \<le> length (d_val d) then Some () else None)"

record ini_state =
  ini_section :: mem
  ini_key :: mem
  ini_val :: mem
  ini_dict :: dictionary
  ini_errs :: int

text \<open>The \<open>switch\<close> over the status of a line.\<close>

definition load_line :: "(nat \<Rightarrow> bool) \<Rightarrow> nat \<Rightarrow> mem \<Rightarrow> ini_state \<Rightarrow> ini_state option" where
  "load_line avail tmpsz line st =
     do {
       (sta, sec, key, val) \<leftarrow> iniparser_line line (ini_section st) (ini_key st) (ini_val st);
       let st = st\<lparr>ini_section := sec, ini_key := key, ini_val := val\<rparr>;
       (case sta of
          LINE_SECTION \<Rightarrow>
            do {
              (dict, errs) \<leftarrow> dictionary_set avail (ini_dict st) sec None;
              Some (st\<lparr>ini_dict := dict, ini_errs := errs\<rparr>)
            }
        | LINE_VALUE \<Rightarrow>
            do {
              tmp \<leftarrow> copy_in tmpsz (sec @ 58 # key);
              (dict, errs) \<leftarrow> dictionary_set avail (ini_dict st) tmp (Some val);
              Some (st\<lparr>ini_dict := dict, ini_errs := errs\<rparr>)
            }
        | LINE_ERROR \<Rightarrow> Some (st\<lparr>ini_errs := wrap32 (ini_errs st + 1)\<rparr>)
        | _ \<Rightarrow> Some st)
     }"

text \<open>After the loop: the dictionary, or \<open>NULL\<close> when there were errors.\<close>

definition load_end :: "ini_state \<Rightarrow> dictionary option option" where
  "load_end st =
     (if ini_errs st \<noteq> 0 then do { dictionary_del (ini_dict st); Some None } else Some (Some (ini_dict st)))"

text \<open>
  The loop over the lines of the file. \<open>line\<close> holds what is kept of a line that is continued, and
  \<open>pos\<close> is where the next one is read to (\<open>last\<close> in the code). A line that starts with a null
  character is read before its start. The loop ends: see theory \<open>IniLoad\<close>.
\<close>

partial_function (option) load_loop ::
  "(nat \<Rightarrow> bool) \<Rightarrow> nat \<Rightarrow> mem \<Rightarrow> mem \<Rightarrow> nat \<Rightarrow> ini_state \<Rightarrow> dictionary option option" where
  "load_loop avail tmpsz file line pos st =
     (case fgets (ASCIILINESZ - pos) file of
        None \<Rightarrow> load_end st
      | Some (text, rest) \<Rightarrow>
          do {
            let line = take pos line @ cstr text;
            if line = [] then None
            else if last line \<noteq> 10 then do { dictionary_del (ini_dict st); Some None }
            else
              do {
                let line = strip_end line;
                if line \<noteq> [] \<and> last line = 92 then
                  load_loop avail tmpsz rest line (length line - 1) st
                else
                  do {
                    st \<leftarrow> load_line avail tmpsz line st;
                    if ini_errs st < 0 then load_end st
                    else load_loop avail tmpsz rest [] 0 st
                  }
              }
          })"

definition iniparser_load ::
  "(nat \<Rightarrow> bool) \<Rightarrow> nat \<Rightarrow> mem option \<Rightarrow> dictionary option option" where
  "iniparser_load avail tmpsz file =
     (case file of
        None \<Rightarrow> Some None
      | Some text \<Rightarrow>
          load_loop avail tmpsz text [] 0
            \<lparr>ini_section = [], ini_key = [], ini_val = [], ini_dict = dictionary_new 0, ini_errs = 0\<rparr>)"

section \<open>Writing an ini file\<close>

text \<open>\<open>fprintf(f, "%-30s = %s\<dots>")\<close>: the key is padded to 30 characters.\<close>

definition entry_line :: "mem \<Rightarrow> mem \<Rightarrow> mem" where
  "entry_line key val = key @ replicate (30 - length key) 32 @ [32, 61, 32] @ val @ [10]"

definition section_entries :: "mem \<Rightarrow> dictionary \<Rightarrow> mem" where
  "section_entries secname d =
     concat (map (\<lambda>(k, v). case k of None \<Rightarrow> []
         | Some key \<Rightarrow>
             (if take (length secname + 1) key = secname @ [58]
              then entry_line (drop (length secname + 1) key) (case v of None \<Rightarrow> [] | Some val \<Rightarrow> val)
              else []))
       (take (d_size d) (zip (d_key d) (d_val d))))"

text \<open>A value that is \<open>NULL\<close> cannot be printed in the branch for files without sections.\<close>

fun dump_plain :: "(mem option \<times> mem option) list \<Rightarrow> mem option" where
  "dump_plain [] = Some []"
| "dump_plain ((None, v) # r) = dump_plain r"
| "dump_plain ((Some key, None) # r) = None"
| "dump_plain ((Some key, Some val) # r) =
     map_option (\<lambda>s. key @ [32, 61, 32] @ val @ [10] @ s) (dump_plain r)"

fun dump_sections :: "mem option list \<Rightarrow> dictionary \<Rightarrow> mem option" where
  "dump_sections [] d = Some [10]"
| "dump_sections (None # r) d = None"
| "dump_sections (Some secname # r) d =
     do {
       keym \<leftarrow> copy_in (ASCIILINESZ + 1) (secname @ [58]);
       more \<leftarrow> dump_sections r d;
       Some ([10, 91] @ secname @ [93, 10] @ section_entries secname d @ more)
     }"

definition iniparser_dump_ini :: "dictionary option \<Rightarrow> mem option" where
  "iniparser_dump_ini d =
     (case d of
        None \<Rightarrow> Some []
      | Some d \<Rightarrow>
          (if iniparser_getnsec (Some d) < 1 then
             dump_plain (take (d_size d) (zip (d_key d) (d_val d)))
           else
             dump_sections
               (map (\<lambda>i. iniparser_getsecname (Some d) (int i)) [0..<nat (iniparser_getnsec (Some d))]) d))"

end
