(* ===== verification/Teensy.thy ===== *)
theory Teensy
  imports Arrays Floats Iniparser
begin

text \<open>
  The tables of \<open>xpteensy\<close>, the driver of Teensy micro-controllers and of the chips that are connected
  to them: the structures of \<open>teensy_config.h\<close>, which the driver and the firmware of the boards
  (\<open>xpteensy/ino/firmware\<close>) share, their initial values from the ini file and the end of a cycle
  (\<open>ini.c\<close>), the receive thread (\<open>handleudp.c\<close>), and \<open>recv_teensy\<close> (\<open>libteensy.c\<close>).

  The code has one array per kind of chip, \<open>mcp23017[MAXTEENSYS][MAX_DEV]\<close> and so on. Here what belongs
  to one Teensy, the rows of these arrays with the same first index, is one record \<open>teensy_unit\<close>; the
  firmware has just one such unit. The 8 and 16 bit integers are \<open>int\<close>, converted where they are stored.
\<close>

section \<open>Data\<close>

abbreviation (input) MAXTEENSYS :: nat where "MAXTEENSYS \<equiv> 5"
abbreviation (input) RECVMSGLEN :: nat where "RECVMSGLEN \<equiv> 16"
abbreviation (input) SENDMSGLEN :: nat where "SENDMSGLEN \<equiv> 16"
abbreviation (input) UDPRECVBUFLEN :: nat where "UDPRECVBUFLEN \<equiv> 12 * 1000"
abbreviation (input) MAX_DEV :: nat where "MAX_DEV \<equiv> 20"
abbreviation (input) MAX_HIST :: nat where "MAX_HIST \<equiv> 11"
abbreviation (input) INITVAL :: int where "INITVAL \<equiv> - 1"
abbreviation (input) MAX_PROG :: nat where "MAX_PROG \<equiv> 5"
abbreviation (input) MAX_VARS :: nat where "MAX_VARS \<equiv> 10"
abbreviation (input) MAX_PINS :: nat where "MAX_PINS \<equiv> 42"
abbreviation (input) PCA9685_MAX_PINS :: nat where "PCA9685_MAX_PINS \<equiv> 16"
abbreviation (input) MCP23017_MAX_PINS :: nat where "MCP23017_MAX_PINS \<equiv> 16"
abbreviation (input) PCF8591_MAX_PINS :: nat where "PCF8591_MAX_PINS \<equiv> 4"
abbreviation (input) HT16K33_MAX_DIG :: nat where "HT16K33_MAX_DIG \<equiv> 16"
abbreviation (input) PGA2311_MAX_CHANNELS :: nat where "PGA2311_MAX_CHANNELS \<equiv> 2"

abbreviation (input) TEENSY_ID1 :: byte where "TEENSY_ID1 \<equiv> 0x54"
abbreviation (input) TEENSY_ID2 :: byte where "TEENSY_ID2 \<equiv> 0x45"

abbreviation (input) TEENSY_PING :: int where "TEENSY_PING \<equiv> 0"
abbreviation (input) TEENSY_INIT :: int where "TEENSY_INIT \<equiv> 1"
abbreviation (input) TEENSY_REGULAR :: int where "TEENSY_REGULAR \<equiv> 2"
abbreviation (input) TEENSY_ERROR :: int where "TEENSY_ERROR \<equiv> 9"
abbreviation (input) TEENSY_RESET :: int where "TEENSY_RESET \<equiv> 11"

abbreviation (input) TEENSY_TYPE :: int where "TEENSY_TYPE \<equiv> 0"
abbreviation (input) PROGRAM_TYPE :: int where "PROGRAM_TYPE \<equiv> 20"
abbreviation (input) MCP23017_TYPE :: int where "MCP23017_TYPE \<equiv> 101"
abbreviation (input) PCA9685_TYPE :: int where "PCA9685_TYPE \<equiv> 102"
abbreviation (input) AS5048B_TYPE :: int where "AS5048B_TYPE \<equiv> 111"
abbreviation (input) HT16K33_TYPE :: int where "HT16K33_TYPE \<equiv> 112"
abbreviation (input) PGA2311_TYPE :: int where "PGA2311_TYPE \<equiv> 113"
abbreviation (input) PROGRAM_CLOSEDLOOP :: int where "PROGRAM_CLOSEDLOOP \<equiv> 1"

abbreviation (input) PINMODE_INPUT :: int where "PINMODE_INPUT \<equiv> 1"
abbreviation (input) PINMODE_OUTPUT :: int where "PINMODE_OUTPUT \<equiv> 2"
abbreviation (input) PINMODE_PWM :: int where "PINMODE_PWM \<equiv> 3"
abbreviation (input) PINMODE_ANALOGINPUTMEDIAN :: int where "PINMODE_ANALOGINPUTMEDIAN \<equiv> 4"
abbreviation (input) PINMODE_ANALOGINPUTMEAN :: int where "PINMODE_ANALOGINPUTMEAN \<equiv> 5"
abbreviation (input) PINMODE_ANALOGINPUT :: int where "PINMODE_ANALOGINPUT \<equiv> 6"
abbreviation (input) PINMODE_INTERRUPT :: int where "PINMODE_INTERRUPT \<equiv> 7"
abbreviation (input) PINMODE_SERVO :: int where "PINMODE_SERVO \<equiv> 8"
abbreviation (input) PINMODE_MOTOR :: int where "PINMODE_MOTOR \<equiv> 9"
abbreviation (input) PINMODE_I2C :: int where "PINMODE_I2C \<equiv> 10"
abbreviation (input) PINMODE_SPI :: int where "PINMODE_SPI \<equiv> 11"

record teensy_struct =
  connected :: int
  online :: int
  initialized :: int
  ping_time :: "int \<times> int"
  val :: "int list list"
  val_save :: "int list"
  val_time :: "(int \<times> int) list"
  pinmode :: "int list"
  arg1 :: "int list"
  arg2 :: "int list"
  arg3 :: "int list"
  arg4 :: "int list"
  arg5 :: "int list"
  arg6 :: "int list"
  ip :: mem
  port :: int
  mac :: mem
  num_servo :: int

record program_struct =
  prog_connected :: int
  prog_type :: int
  val8 :: "int list"
  val16 :: "int list"
  val8_save :: "int list"
  val16_save :: "int list"

record mcp23017_struct =
  mcp_connected :: int
  mcp_val :: "int list"
  mcp_save :: "int list"
  mcp_time :: "(int \<times> int) list"
  mcp_pinmode :: "int list"
  mcp_intpin :: int
  mcp_wire :: int
  mcp_address :: int

record pca9685_struct =
  pca_connected :: int
  pca_val :: "int list"
  pca_save :: "int list"
  pca_pinmode :: "int list"
  pca_wire :: int
  pca_address :: int

record as5048b_struct =
  as_connected :: int
  as_val :: "int list"
  as_save :: int
  as_nangle :: int
  as_type :: int
  as_wire :: int
  as_address :: int

record pcf8591_struct =
  pcf_connected :: int
  pcf_val :: "int list list"
  pcf_save :: "int list"
  pcf_dac :: int
  pcf_wire :: int
  pcf_address :: int

record ht16k33_struct =
  ht_connected :: int
  ht_val :: "int list"
  ht_save :: "int list"
  ht_decimalpoint :: "int list"
  ht_brightness :: int
  ht_wire :: int
  ht_address :: int

record pga2311_struct =
  pga_connected :: int
  pga_val :: "int list"
  pga_save :: "int list"
  pga_spi :: int
  pga_cs :: int

record teensy_unit =
  teensy :: teensy_struct
  program :: "program_struct list"
  mcp23017 :: "mcp23017_struct list"
  pca9685 :: "pca9685_struct list"
  pcf8591 :: "pcf8591_struct list"
  as5048b :: "as5048b_struct list"
  ht16k33 :: "ht16k33_struct list"
  pga2311 :: "pga2311_struct list"
  SPI_active :: int

record teensy_state =
  units :: "teensy_unit list"
  udpRecvBuffer :: mem
  udpReadLeft :: int

text \<open>A 16 bit integer and its two bytes.\<close>

definition to_i16 :: "int \<Rightarrow> int" where
  "to_i16 x = (x + 32768) mod 65536 - 32768"

definition enc_i16 :: "int \<Rightarrow> mem" where
  "enc_i16 x = [word_of_int x, word_of_int (x div 256)]"

definition dec_i16 :: "mem \<Rightarrow> int" where
  "dec_i16 bs = to_i16 (le_val bs)"

text \<open>
  The time between two times of day in milliseconds:
  \<open>((float)(new.tv_sec - old.tv_sec) + ((float)(new.tv_usec - old.tv_usec)) / 1000000.0)*1000.0\<close>.
\<close>

definition ms_since :: "int \<times> int \<Rightarrow> int \<times> int \<Rightarrow> fpval" where
  "ms_since new old =
     fp_to 23 8
       (fp_mul 52 11
          (fp_add 52 11 (fp_of_int 23 8 (fst new - fst old))
             (fp_div 52 11 (fp_of_int 23 8 (snd new - snd old)) (Fin 1000000 0)))
          (Fin 1000 0))"

section \<open>Initial values\<close>

text \<open>The tables as C initialises them: all bytes 0.\<close>

definition static_teensy :: teensy_struct where
  "static_teensy =
     \<lparr> connected = 0, online = 0, initialized = 0, ping_time = (0, 0),
       val = replicate MAX_PINS (replicate MAX_HIST 0), val_save = replicate MAX_PINS 0,
       val_time = replicate MAX_PINS (0, 0), pinmode = replicate MAX_PINS 0,
       arg1 = replicate MAX_PINS 0, arg2 = replicate MAX_PINS 0, arg3 = replicate MAX_PINS 0,
       arg4 = replicate MAX_PINS 0, arg5 = replicate MAX_PINS 0, arg6 = replicate MAX_PINS 0,
       ip = replicate 30 0, port = 0, mac = [0, 0], num_servo = 0 \<rparr>"

definition static_unit :: teensy_unit where
  "static_unit =
     \<lparr> teensy = static_teensy,
       program = replicate MAX_PROG
         \<lparr> prog_connected = 0, prog_type = 0, val8 = replicate MAX_VARS 0, val16 = replicate MAX_VARS 0,
           val8_save = replicate MAX_VARS 0, val16_save = replicate MAX_VARS 0 \<rparr>,
       mcp23017 = replicate MAX_DEV
         \<lparr> mcp_connected = 0, mcp_val = replicate MCP23017_MAX_PINS 0,
           mcp_save = replicate MCP23017_MAX_PINS 0, mcp_time = replicate MCP23017_MAX_PINS (0, 0),
           mcp_pinmode = replicate MCP23017_MAX_PINS 0, mcp_intpin = 0, mcp_wire = 0, mcp_address = 0 \<rparr>,
       pca9685 = replicate MAX_DEV
         \<lparr> pca_connected = 0, pca_val = replicate PCA9685_MAX_PINS 0,
           pca_save = replicate PCA9685_MAX_PINS 0, pca_pinmode = replicate PCA9685_MAX_PINS 0,
           pca_wire = 0, pca_address = 0 \<rparr>,
       pcf8591 = replicate MAX_DEV
         \<lparr> pcf_connected = 0, pcf_val = replicate PCF8591_MAX_PINS (replicate MAX_HIST 0),
           pcf_save = replicate PCF8591_MAX_PINS 0, pcf_dac = 0, pcf_wire = 0, pcf_address = 0 \<rparr>,
       as5048b = replicate MAX_DEV
         \<lparr> as_connected = 0, as_val = replicate MAX_HIST 0, as_save = 0, as_nangle = 0, as_type = 0,
           as_wire = 0, as_address = 0 \<rparr>,
       ht16k33 = replicate MAX_DEV
         \<lparr> ht_connected = 0, ht_val = replicate HT16K33_MAX_DIG 0, ht_save = replicate HT16K33_MAX_DIG 0,
           ht_decimalpoint = replicate HT16K33_MAX_DIG 0, ht_brightness = 0, ht_wire = 0, ht_address = 0 \<rparr>,
       pga2311 = replicate MAX_DEV
         \<lparr> pga_connected = 0, pga_val = replicate PGA2311_MAX_CHANNELS 0,
           pga_save = replicate PGA2311_MAX_CHANNELS 0, pga_spi = 0, pga_cs = 0 \<rparr>,
       SPI_active = 0 \<rparr>"

text \<open>
  The loops of \<open>ini_read\<close> over the devices of one kind: \<open>n\<close> is the number of connected devices that
  the ini file gives, \<open>j\<close> the device.
\<close>

definition here :: "int \<Rightarrow> nat \<Rightarrow> int" where
  "here n j = (if int j < n then 1 else 0)"

definition on_all :: "(nat \<Rightarrow> 'a \<Rightarrow> 'b) \<Rightarrow> 'a list \<Rightarrow> 'b list" where
  "on_all f xs = map2 f [0..<length xs] xs"

definition blank :: "int \<Rightarrow> 'a list \<Rightarrow> int list" where
  "blank v xs = map (\<lambda>_. v) xs"

definition ini_mcp :: "int \<times> int \<Rightarrow> int \<Rightarrow> nat \<Rightarrow> mcp23017_struct \<Rightarrow> mcp23017_struct" where
  "ini_mcp newtime n j d =
     d\<lparr>mcp_val := blank INITVAL (mcp_val d), mcp_save := blank INITVAL (mcp_save d),
       mcp_pinmode := blank INITVAL (mcp_pinmode d), mcp_time := map (\<lambda>_. newtime) (mcp_time d),
       mcp_intpin := INITVAL, mcp_wire := INITVAL, mcp_address := 0, mcp_connected := here n j\<rparr>"

definition ini_pca :: "int \<Rightarrow> nat \<Rightarrow> pca9685_struct \<Rightarrow> pca9685_struct" where
  "ini_pca n j d =
     d\<lparr>pca_val := blank INITVAL (pca_val d), pca_save := blank INITVAL (pca_save d),
       pca_pinmode := blank INITVAL (pca_pinmode d), pca_wire := INITVAL, pca_address := 0,
       pca_connected := here n j\<rparr>"

definition ini_pcf :: "int \<Rightarrow> nat \<Rightarrow> pcf8591_struct \<Rightarrow> pcf8591_struct" where
  "ini_pcf n j d =
     d\<lparr>pcf_val := map (blank INITVAL) (pcf_val d), pcf_save := blank INITVAL (pcf_save d),
       pcf_dac := INITVAL, pcf_wire := INITVAL, pcf_address := 0, pcf_connected := here n j\<rparr>"

definition ini_as :: "int \<Rightarrow> nat \<Rightarrow> as5048b_struct \<Rightarrow> as5048b_struct" where
  "ini_as n j d =
     d\<lparr>as_val := blank (- 1000) (as_val d), as_save := - 1000, as_nangle := INITVAL, as_type := INITVAL,
       as_wire := INITVAL, as_address := 0, as_connected := here n j\<rparr>"

definition ini_ht :: "int \<Rightarrow> nat \<Rightarrow> ht16k33_struct \<Rightarrow> ht16k33_struct" where
  "ini_ht n j d =
     d\<lparr>ht_val := blank INITVAL (ht_val d), ht_save := blank INITVAL (ht_save d),
       ht_decimalpoint := blank INITVAL (ht_decimalpoint d), ht_brightness := 0, ht_wire := INITVAL,
       ht_address := 0, ht_connected := here n j\<rparr>"

definition ini_pga :: "int \<Rightarrow> nat \<Rightarrow> pga2311_struct \<Rightarrow> pga2311_struct" where
  "ini_pga n j d =
     d\<lparr>pga_val := blank INITVAL (pga_val d), pga_save := blank INITVAL (pga_save d),
       pga_spi := INITVAL, pga_cs := INITVAL, pga_connected := here n j\<rparr>"

definition ini_program :: "int \<Rightarrow> nat \<Rightarrow> program_struct \<Rightarrow> program_struct" where
  "ini_program n j d =
     d\<lparr>prog_type := INITVAL, val8 := blank INITVAL (val8 d), val16 := blank INITVAL (val16 d),
       val8_save := blank INITVAL (val8_save d), val16_save := blank INITVAL (val16_save d),
       prog_connected := here n j\<rparr>"

definition ini_pins :: "int \<times> int \<Rightarrow> teensy_struct \<Rightarrow> teensy_struct" where
  "ini_pins newtime t =
     t\<lparr>val := map (blank INITVAL) (val t), val_time := map (\<lambda>_. newtime) (val_time t),
       val_save := blank INITVAL (val_save t), pinmode := blank INITVAL (pinmode t),
       arg1 := blank INITVAL (arg1 t), arg2 := blank INITVAL (arg2 t), arg3 := blank INITVAL (arg3 t),
       arg4 := blank 0 (arg4 t), arg5 := blank 0 (arg5 t), arg6 := blank INITVAL (arg6 t)\<rparr>"

text \<open>The settings of one Teensy, as the ini file gives them, and the body of the loop over the Teensys.\<close>

record teensy_config =
  s_address :: mem
  s_port :: int
  s_mac1 :: int
  s_mac2 :: int
  s_version :: mem
  s_mcp23017 :: int
  s_pca9685 :: int
  s_pcf8591 :: int
  s_as5048b :: int
  s_ht16k33 :: int
  s_pga2311 :: int
  s_programs :: int

definition ini_unit :: "int \<times> int \<Rightarrow> teensy_config \<Rightarrow> teensy_unit \<Rightarrow> teensy_unit option" where
  "ini_unit newtime s u =
     do {
       address \<leftarrow> strcpy (ip (teensy u)) (s_address s);
       _ \<leftarrow> strcpy (replicate 10 0) (s_version s);
       let t = ini_pins newtime ((teensy u)\<lparr>ip := address, port := s_port s,
                 mac := [word_of_int (s_mac1 s), word_of_int (s_mac2 s)]\<rparr>);
       let u = u\<lparr>SPI_active := 0\<rparr>;
       Some
         (if port t = 0 then u\<lparr>teensy := t\<lparr>connected := 0\<rparr>\<rparr>
          else u\<lparr>teensy := t\<lparr>connected := 1, online := 0, initialized := 0, ping_time := newtime\<rparr>,
                 mcp23017 := on_all (ini_mcp newtime (s_mcp23017 s)) (mcp23017 u),
                 pca9685 := on_all (ini_pca (s_pca9685 s)) (pca9685 u),
                 pcf8591 := on_all (ini_pcf (s_pcf8591 s)) (pcf8591 u),
                 as5048b := on_all (ini_as (s_as5048b s)) (as5048b u),
                 ht16k33 := on_all (ini_ht (s_ht16k33 s)) (ht16k33 u),
                 pga2311 := on_all (ini_pga (s_pga2311 s)) (pga2311 u),
                 SPI_active := (if 0 < s_pga2311 s then 1 else 0),
                 program := on_all (ini_program (s_programs s)) (program u)\<rparr>)
     }"

fun ini_units :: "int \<times> int \<Rightarrow> teensy_config list \<Rightarrow> teensy_unit list \<Rightarrow> teensy_unit list option" where
  "ini_units newtime (s # ss) (u # us) =
     do { u \<leftarrow> ini_unit newtime s u; us \<leftarrow> ini_units newtime ss us; Some (u # us) }"
| "ini_units newtime _ us = Some us"

text \<open>\<open>sprintf(tmp, "teensy%i:\<dots>", i)\<close>, and what is read from the ini file for one Teensy.\<close>

definition teensy_key :: "nat \<Rightarrow> string \<Rightarrow> mem" where
  "teensy_key i name = chars ''teensy'' @ fmt_int (int i) @ chars name"

definition get_str :: "dictionary option \<Rightarrow> mem \<Rightarrow> mem option" where
  "get_str ini key =
     do {
       a \<leftarrow> iniparser_getstring ini key (Str (chars ''NA''));
       (case a of Str s \<Rightarrow> Some (s @ [0]) | _ \<Rightarrow> None)
     }"

text \<open>The numbers of chips are read only for a Teensy that has a port.\<close>

definition number_of :: "dictionary option \<Rightarrow> nat \<Rightarrow> int \<Rightarrow> string \<Rightarrow> int option" where
  "number_of ini i p name = (if p = 0 then Some 0 else iniparser_getint ini (teensy_key i name) 0)"

definition teensy_settings :: "dictionary option \<Rightarrow> nat \<Rightarrow> teensy_config option" where
  "teensy_settings ini i =
     do {
       address \<leftarrow> get_str ini (teensy_key i '':Address'');
       p \<leftarrow> iniparser_getint ini (teensy_key i '':Port'') 0;
       mac1 \<leftarrow> iniparser_getint ini (teensy_key i '':Mac1'') 0;
       mac2 \<leftarrow> iniparser_getint ini (teensy_key i '':Mac2'') 0;
       version \<leftarrow> get_str ini (teensy_key i '':Version'');
       mcp \<leftarrow> number_of ini i p '':MCP23017'';
       pca \<leftarrow> number_of ini i p '':PCA9685'';
       pcf \<leftarrow> number_of ini i p '':PCF8591'';
       as \<leftarrow> number_of ini i p '':AS5048B'';
       ht \<leftarrow> number_of ini i p '':HT16K33'';
       pga \<leftarrow> number_of ini i p '':PGA2311'';
       prog \<leftarrow> number_of ini i p '':PROGRAMS'';
       Some \<lparr> s_address = address, s_port = p, s_mac1 = mac1, s_mac2 = mac2, s_version = version,
              s_mcp23017 = mcp, s_pca9685 = pca, s_pcf8591 = pcf, s_as5048b = as, s_ht16k33 = ht,
              s_pga2311 = pga, s_programs = prog \<rparr>
     }"

fun all_settings :: "dictionary option \<Rightarrow> nat list \<Rightarrow> teensy_config list option" where
  "all_settings ini [] = Some []"
| "all_settings ini (i # is) =
     do { s \<leftarrow> teensy_settings ini i; ss \<leftarrow> all_settings ini is; Some (s # ss) }"

text \<open>The start of the driver, with the buffer that \<open>init_udp_receive\<close> clears.\<close>

definition start_teensy :: "int \<times> int \<Rightarrow> teensy_config list \<Rightarrow> teensy_state option" where
  "start_teensy newtime ss =
     do {
       us \<leftarrow> ini_units newtime ss (replicate MAXTEENSYS static_unit);
       Some \<lparr> units = us, udpRecvBuffer = replicate UDPRECVBUFLEN 0, udpReadLeft = 0 \<rparr>
     }"

section \<open>The end of a cycle\<close>

text \<open>The present values become the saved ones, for the Teensys that are running.\<close>

definition is_running :: "teensy_struct \<Rightarrow> bool" where
  "is_running t \<longleftrightarrow> connected t = 1 \<and> online t = 1 \<and> initialized t = 1"

definition save_pins :: "teensy_struct \<Rightarrow> teensy_struct option" where
  "save_pins t =
     do {
       saves \<leftarrow> for_each [0..<MAX_PINS] (\<lambda>pin saves.
         do { v \<leftarrow> arr_get2 (val t) (int pin) 0; arr_set saves (int pin) v }) (val_save t);
       Some (t\<lparr>val_save := saves\<rparr>)
     }"

definition save_mcp :: "mcp23017_struct \<Rightarrow> mcp23017_struct" where
  "save_mcp d = (if mcp_connected d = 1 then d\<lparr>mcp_save := mcp_val d\<rparr> else d)"

definition save_pca :: "pca9685_struct \<Rightarrow> pca9685_struct" where
  "save_pca d = (if pca_connected d = 1 then d\<lparr>pca_save := pca_val d\<rparr> else d)"

definition save_as :: "as5048b_struct \<Rightarrow> as5048b_struct option" where
  "save_as d =
     (if as_connected d = 1 then do { v \<leftarrow> arr_get (as_val d) 0; Some (d\<lparr>as_save := v\<rparr>) } else Some d)"

definition save_ht :: "ht16k33_struct \<Rightarrow> ht16k33_struct" where
  "save_ht d = (if ht_connected d = 1 then d\<lparr>ht_save := ht_val d\<rparr> else d)"

definition save_pga :: "pga2311_struct \<Rightarrow> pga2311_struct" where
  "save_pga d = (if pga_connected d = 1 then d\<lparr>pga_save := pga_val d\<rparr> else d)"

definition save_program :: "program_struct \<Rightarrow> program_struct" where
  "save_program d = (if prog_connected d = 1 then d\<lparr>val8_save := val8 d, val16_save := val16 d\<rparr> else d)"

text \<open>A loop over an array whose body may fail.\<close>

fun try_map :: "('a \<Rightarrow> 'b option) \<Rightarrow> 'a list \<Rightarrow> 'b list option" where
  "try_map f [] = Some []"
| "try_map f (x # xs) = do { y \<leftarrow> f x; ys \<leftarrow> try_map f xs; Some (y # ys) }"

definition reset_unit :: "teensy_unit \<Rightarrow> teensy_unit option" where
  "reset_unit u =
     (if is_running (teensy u) then
        do {
          t \<leftarrow> save_pins (teensy u);
          as \<leftarrow> try_map save_as (as5048b u);
          Some (u\<lparr>teensy := t, mcp23017 := map save_mcp (mcp23017 u), pca9685 := map save_pca (pca9685 u),
            as5048b := as, ht16k33 := map save_ht (ht16k33 u), pga2311 := map save_pga (pga2311 u),
            program := map save_program (program u)\<rparr>)
        }
      else Some u)"

definition reset_teensydata :: "teensy_state \<Rightarrow> teensy_state option" where
  "reset_teensydata st = do { us \<leftarrow> try_map reset_unit (units st); Some (st\<lparr>units := us\<rparr>) }"

section \<open>Receiving\<close>

text \<open>
  One turn of the loop in \<open>udpclient_thread_main\<close>: a datagram, at most as long as the buffer it is
  received in, is appended if there is room for all of it, and dropped otherwise.
\<close>

definition udp_receive :: "mem \<Rightarrow> teensy_state \<Rightarrow> teensy_state option" where
  "udp_receive buffer st =
     (let ret = int (length buffer)
      in if ret > 0 \<and> ret \<le> int UDPRECVBUFLEN then
           (if ret \<le> int UDPRECVBUFLEN - udpReadLeft st then
              do {
                b \<leftarrow> mem_write (udpRecvBuffer st) (udpReadLeft st) buffer;
                Some (st\<lparr>udpRecvBuffer := b, udpReadLeft := udpReadLeft st + ret\<rparr>)
              }
            else Some st)
         else Some st)"

text \<open>The last Teensy of the table with the address in the message, as in the loop without a \<open>break\<close>.\<close>

definition sent_by :: "mem \<Rightarrow> teensy_unit \<Rightarrow> bool" where
  "sent_by msg u \<longleftrightarrow>
     mac (teensy u) ! 0 = msg ! 2 \<and> mac (teensy u) ! 1 = msg ! 3 \<and> connected (teensy u) = 1"

definition which_teensy :: "mem \<Rightarrow> teensy_unit list \<Rightarrow> int" where
  "which_teensy msg us =
     fold (\<lambda>i te. if sent_by msg (us ! i) then int i else te) [0..<length us] INITVAL"

definition is_analog :: "int \<Rightarrow> bool" where
  "is_analog mode \<longleftrightarrow>
     mode = PINMODE_ANALOGINPUTMEDIAN \<or> mode = PINMODE_ANALOGINPUTMEAN \<or> mode = PINMODE_ANALOGINPUT"

text \<open>A value that a Teensy has sent: of one of its own pins, of an MCP23017 or of an AS5048B.\<close>

definition receive_pin :: "int \<Rightarrow> int \<Rightarrow> teensy_unit \<Rightarrow> teensy_unit option" where
  "receive_pin pin v u =
     (if pin \<ge> 0 \<and> pin < int MAX_PINS then
        do {
          mode \<leftarrow> arr_get (pinmode (teensy u)) pin;
          if mode = PINMODE_INPUT \<or> is_analog mode then
            do {
              vs \<leftarrow> arr_set2 (val (teensy u)) pin 0 v;
              Some (u\<lparr>teensy := (teensy u)\<lparr>val := vs\<rparr>\<rparr>)
            }
          else Some u
        }
      else Some u)"

definition receive_mcp :: "int \<Rightarrow> int \<Rightarrow> int \<Rightarrow> teensy_unit \<Rightarrow> teensy_unit option" where
  "receive_mcp dev_num pin v u =
     do {
       d \<leftarrow> arr_get (mcp23017 u) dev_num;
       if mcp_connected d = 1 \<and> pin \<ge> 0 \<and> pin < int MCP23017_MAX_PINS then
         do {
           vs \<leftarrow> arr_set (mcp_val d) pin v;
           ds \<leftarrow> arr_set (mcp23017 u) dev_num (d\<lparr>mcp_val := vs\<rparr>);
           Some (u\<lparr>mcp23017 := ds\<rparr>)
         }
       else Some u
     }"

definition receive_as :: "int \<Rightarrow> int \<Rightarrow> teensy_unit \<Rightarrow> teensy_unit option" where
  "receive_as dev_num v u =
     do {
       d \<leftarrow> arr_get (as5048b u) dev_num;
       if as_connected d = 1 then
         do {
           vs \<leftarrow> arr_set (as_val d) 0 v;
           ds \<leftarrow> arr_set (as5048b u) dev_num (d\<lparr>as_val := vs\<rparr>);
           Some (u\<lparr>as5048b := ds\<rparr>)
         }
       else Some u
     }"

text \<open>A message: the reply to a ping, or a value. An error message is only printed.\<close>

definition decode_message :: "int \<times> int \<Rightarrow> mem \<Rightarrow> teensy_unit \<Rightarrow> teensy_unit option" where
  "decode_message newtime msg u =
     (let recv_type = uint (msg ! 4); dev_type = uint (msg ! 5); dev_num = uint (msg ! 6);
          pin = uint (msg ! 7); v = dec_i16 [msg ! 8, msg ! 9]
      in if recv_type = TEENSY_PING then
           (if dev_type = TEENSY_TYPE \<and> dev_num = 0
            then Some (u\<lparr>teensy := (teensy u)\<lparr>online := 1, ping_time := newtime\<rparr>\<rparr>) else Some u)
         else if recv_type = TEENSY_REGULAR then
           (if dev_type = TEENSY_TYPE \<and> dev_num = 0 then receive_pin pin v u
            else if dev_type = MCP23017_TYPE \<and> dev_num \<ge> 0 \<and> dev_num < int MAX_DEV
            then receive_mcp dev_num pin v u
            else if dev_type = AS5048B_TYPE \<and> dev_num \<ge> 0 \<and> dev_num < int MAX_DEV
            then receive_as dev_num v u
            else Some u)
         else Some u)"

definition take_message :: "int \<times> int \<Rightarrow> mem \<Rightarrow> teensy_unit list \<Rightarrow> teensy_unit list option" where
  "take_message newtime msg us =
     (if msg ! 0 = TEENSY_ID1 \<and> msg ! 1 = TEENSY_ID2 then
        (let te = which_teensy msg us
         in if te \<ge> 0 then
              do {
                u \<leftarrow> arr_get us te;
                u \<leftarrow> decode_message newtime msg u;
                arr_set us te u
              }
            else Some us)
      else Some us)"

text \<open>A call takes one message from the front of the buffer.\<close>

definition recv_teensy :: "int \<times> int \<Rightarrow> teensy_state \<Rightarrow> teensy_state option" where
  "recv_teensy newtime st =
     (if udpReadLeft st \<ge> int RECVMSGLEN then
        do {
          msg \<leftarrow> mem_read (udpRecvBuffer st) 0 RECVMSGLEN;
          rest \<leftarrow> mem_read (udpRecvBuffer st) (int RECVMSGLEN) (nat (udpReadLeft st - int RECVMSGLEN));
          b \<leftarrow> mem_write (udpRecvBuffer st) 0 rest;
          us \<leftarrow> take_message newtime msg (units st);
          Some (st\<lparr>units := us, udpRecvBuffer := b, udpReadLeft := udpReadLeft st - int RECVMSGLEN\<rparr>)
        }
      else Some st)"

end
