(* ===== verification/TeensyAccess.thy ===== *)
theory TeensyAccess
  imports Teensy
begin

text \<open>
  The functions of \<open>xpteensy/src/libteensy.c\<close> by which the panel code reads inputs and sets outputs. A
  value passed by pointer is an \<open>option\<close>, with \<open>None\<close> for \<open>NULL\<close>; a \<open>float\<close> is an \<open>fpval\<close>; the time of day
  and \<open>verbose\<close>, where it decides more than what is printed, are arguments.
\<close>

section \<open>A call on a Teensy\<close>

text \<open>
  The tests of the number and of the connection, which every function makes. A failed test gives
  \<open>-1\<close>; a negative number is not caught. \<open>body\<close> gives the return value, the new value and the unit.
\<close>

definition on_teensy ::
  "int \<Rightarrow> (teensy_unit \<Rightarrow> (int \<times> 'v \<times> teensy_unit) option) \<Rightarrow> 'v \<Rightarrow> teensy_state \<Rightarrow>
   (int \<times> 'v \<times> teensy_state) option" where
  "on_teensy te body v st =
     (if te < int MAXTEENSYS then
        do {
          u \<leftarrow> arr_get (units st) te;
          if connected (teensy u) \<noteq> 0 then
            do {
              (retval, v, u) \<leftarrow> body u;
              us \<leftarrow> arr_set (units st) te u;
              Some (retval, v, st\<lparr>units := us\<rparr>)
            }
          else Some (-1, v, st)
        }
      else Some (-1, v, st))"

text \<open>The test of a pointer; the call changes the value that it points to.\<close>

definition with_value ::
  "'v option \<Rightarrow> ('v \<Rightarrow> teensy_state \<Rightarrow> (int \<times> 'v \<times> teensy_state) option) \<Rightarrow> teensy_state \<Rightarrow>
   (int \<times> 'v option \<times> teensy_state) option" where
  "with_value value call st =
     (case value of
        None \<Rightarrow> Some (0, None, st)
      | Some v \<Rightarrow> do { (retval, v, st) \<leftarrow> call v st; Some (retval, Some v, st) })"

text \<open>The value and the saved value of a pin, of the Teensy itself or of an MCP23017.\<close>

definition get_pin :: "int \<Rightarrow> teensy_unit \<Rightarrow> (int \<times> int) option" where
  "get_pin pin u =
     do {
       v \<leftarrow> arr_get2 (val (teensy u)) pin 0;
       save \<leftarrow> arr_get (val_save (teensy u)) pin;
       Some (v, save)
     }"

definition get_mcp :: "int \<Rightarrow> mcp23017_struct \<Rightarrow> (int \<times> int) option" where
  "get_mcp pin d = do { v \<leftarrow> arr_get (mcp_val d) pin; save \<leftarrow> arr_get (mcp_save d) pin; Some (v, save) }"

definition set_pin :: "int \<Rightarrow> int \<Rightarrow> teensy_unit \<Rightarrow> teensy_unit option" where
  "set_pin pin v u =
     do {
       vs \<leftarrow> arr_set2 (val (teensy u)) pin 0 (to_i16 v);
       Some (u\<lparr>teensy := (teensy u)\<lparr>val := vs\<rparr>\<rparr>)
     }"

section \<open>Digital inputs\<close>

text \<open>
  The value and the return value from the new and the saved state of the input. A pushbutton that
  has no state yet leaves the value as it is; on an MCP23017 it does so only while the state is
  the saved one (\<open>raw\<close>).
\<close>

definition input_value :: "bool \<Rightarrow> int \<Rightarrow> int \<Rightarrow> int \<times> int \<Rightarrow> int \<times> int" where
  "input_value raw input_type value p =
     (let (v, save) = p
      in if input_type = 0 then
           (if v \<noteq> save then 1 else 0,
            if v \<noteq> INITVAL \<or> (raw \<and> v \<noteq> save) then v else value)
         else if v = 1 \<and> save = 0 \<and> value \<noteq> INT_MISS then
           (if value = 0 \<or> value = 1 then (1, 1 - value) else (-1, value))
         else (0, value))"

definition input_pin :: "int \<Rightarrow> int \<Rightarrow> int \<Rightarrow> teensy_unit \<Rightarrow> (int \<times> int \<times> teensy_unit) option" where
  "input_pin pin input_type value u =
     (if pin \<ge> 0 \<and> pin < int MAX_PINS then
        do {
          mode \<leftarrow> arr_get (pinmode (teensy u)) pin;
          if mode = PINMODE_INPUT then
            do {
              p \<leftarrow> get_pin pin u;
              let (retval, value) = input_value False input_type value p;
              Some (retval, value, u)
            }
          else Some (-1, value, u)
        }
      else Some (-1, value, u))"

definition input_mcp :: "int \<Rightarrow> int \<Rightarrow> int \<Rightarrow> int \<Rightarrow> teensy_unit \<Rightarrow> (int \<times> int \<times> teensy_unit) option" where
  "input_mcp dev pin input_type value u =
     (if dev \<ge> 0 \<and> dev < int MAX_DEV then
        do {
          d \<leftarrow> arr_get (mcp23017 u) dev;
          if mcp_connected d = 1 \<and> pin \<ge> 0 \<and> pin < int MCP23017_MAX_PINS then
            do {
              mode \<leftarrow> arr_get (mcp_pinmode d) pin;
              if mode = PINMODE_INPUT then
                do {
                  p \<leftarrow> get_mcp pin d;
                  let (retval, value) = input_value True input_type value p;
                  Some (retval, value, u)
                }
              else Some (-1, value, u)
            }
          else Some (-1, value, u)
        }
      else Some (-1, value, u))"

definition digital_input ::
  "int \<Rightarrow> int \<Rightarrow> int \<Rightarrow> int \<Rightarrow> int option \<Rightarrow> int \<Rightarrow> teensy_state \<Rightarrow>
   (int \<times> int option \<times> teensy_state) option" where
  "digital_input te type dev pin value input_type =
     with_value value (\<lambda>v. on_teensy te (\<lambda>u.
       if type = TEENSY_TYPE then input_pin pin input_type v u
       else if type = MCP23017_TYPE then input_mcp dev pin input_type v u
       else Some (-1, v, u)) v)"

definition digital_inputf ::
  "int \<Rightarrow> int \<Rightarrow> int \<Rightarrow> int \<Rightarrow> fpval option \<Rightarrow> int \<Rightarrow> teensy_state \<Rightarrow>
   (int \<times> fpval option \<times> teensy_state) option" where
  "digital_inputf te type dev pin fvalue input_type st =
     do {
       f \<leftarrow> fvalue;
       let value = (if \<not> fp_is_miss f then fp_lround f else INT_MISS);
       (ret, value, st) \<leftarrow> digital_input te type dev pin (Some value) input_type st;
       v \<leftarrow> value;
       Some (ret, Some (if v \<noteq> INT_MISS then fp_of_int 23 8 v else f), st)
     }"

section \<open>Angles and potentiometers\<close>

text \<open>The test of the number of the device lets no number through but 0 and the negative ones.\<close>

definition angle_body :: "int \<Rightarrow> int \<Rightarrow> int \<Rightarrow> int \<Rightarrow> teensy_unit \<Rightarrow> (int \<times> int \<times> teensy_unit) option" where
  "angle_body type dev input_type value u =
     (if type = AS5048B_TYPE \<and> dev \<le> 0 \<and> dev < int MAX_DEV then
        do {
          d \<leftarrow> arr_get (as5048b u) dev;
          if as_connected d = 1 \<and> input_type = as_type d then
            do {
              v \<leftarrow> arr_get (as_val d) 0;
              if v \<noteq> as_save d then
                (if input_type = 0 then
                   do {
                     vs \<leftarrow> arr_set (as_val d) 0 0;
                     ds \<leftarrow> arr_set (as5048b u) dev (d\<lparr>as_val := vs\<rparr>);
                     Some (1, v, u\<lparr>as5048b := ds\<rparr>)
                   }
                 else Some (1, v, u))
              else Some (0, value, u)
            }
          else Some (-1, value, u)
        }
      else Some (-1, value, u))"

definition angle_input ::
  "int \<Rightarrow> int \<Rightarrow> int \<Rightarrow> int \<Rightarrow> int option \<Rightarrow> teensy_state \<Rightarrow> (int \<times> int option \<times> teensy_state) option" where
  "angle_input te type dev input_type value =
     with_value value (\<lambda>v. on_teensy te (angle_body type dev input_type v) v)"

text \<open>\<open>(float) x / (float) (pow(2,ANALOGINPUT_NBITS)-1) * (maxval - minval) + minval\<close>.\<close>

definition analog_scaled :: "int \<Rightarrow> fpval \<Rightarrow> fpval \<Rightarrow> fpval" where
  "analog_scaled x minval maxval =
     fp_add 23 8
       (fp_mul 23 8 (fp_div 23 8 (fp_of_int 23 8 x) (fp_of_int 23 8 (2 ^ 10 - 1)))
          (fp_sub 23 8 maxval minval))
       minval"

definition analog_body :: "int \<Rightarrow> fpval \<Rightarrow> fpval \<Rightarrow> fpval \<Rightarrow> teensy_unit \<Rightarrow> (int \<times> fpval \<times> teensy_unit) option" where
  "analog_body pin minval maxval value u =
     (if pin \<ge> 0 \<and> pin < int MAX_PINS then
        do {
          mode \<leftarrow> arr_get (pinmode (teensy u)) pin;
          if is_analog mode then
            do {
              (v, save) \<leftarrow> get_pin pin u;
              Some (if v \<noteq> save then 1 else 0,
                    if v \<noteq> INITVAL then analog_scaled v minval maxval else value, u)
            }
          else Some (0, value, u)
        }
      else Some (-1, value, u))"

definition analog_input ::
  "int \<Rightarrow> int \<Rightarrow> fpval option \<Rightarrow> fpval \<Rightarrow> fpval \<Rightarrow> teensy_state \<Rightarrow>
   (int \<times> fpval option \<times> teensy_state) option" where
  "analog_input te pin value minval maxval =
     with_value value (\<lambda>v. on_teensy te (analog_body pin minval maxval v) v)"

section \<open>Encoders\<close>

text \<open>The direction, from the old and the new states of the two inputs.\<close>

definition optical_updown :: "int \<times> int \<Rightarrow> int \<times> int \<Rightarrow> int" where
  "optical_updown obits nbits =
     (if obits = (0, 1) \<and> nbits = (0, 0) then -1
      else if obits = (0, 1) \<and> nbits = (1, 1) then 1
      else if obits = (1, 0) \<and> nbits = (1, 1) then -1
      else if obits = (1, 0) \<and> nbits = (0, 0) then 1
      else 0)"

definition gray_updown :: "int \<times> int \<Rightarrow> int \<times> int \<Rightarrow> int" where
  "gray_updown obits nbits =
     (let oldcount = to_i16 (fst obits + 2 * snd obits); newcount = to_i16 (fst nbits + 2 * snd nbits);
          forward = (oldcount = 0 \<and> newcount = 1) \<or> (oldcount = 1 \<and> newcount = 3) \<or>
            (oldcount = 3 \<and> newcount = 2) \<or> (oldcount = 2 \<and> newcount = 0);
          backward = (oldcount = 2 \<and> newcount = 3) \<or> (oldcount = 3 \<and> newcount = 1) \<or>
            (oldcount = 1 \<and> newcount = 0) \<or> (oldcount = 0 \<and> newcount = 2)
      in if backward then -1 else if forward then 1 else 0)"

text \<open>\<open>value + updown * multiplier * (1 + (int) (50.0/MAX(dt,5.0)))\<close>.\<close>

definition encoder_add :: "fpval \<Rightarrow> int \<Rightarrow> fpval \<Rightarrow> fpval \<Rightarrow> fpval" where
  "encoder_add v updown multiplier dt =
     fp_add 23 8 v
       (fp_mul 23 8 (fp_mul 23 8 (fp_of_int 23 8 updown) multiplier)
          (fp_of_int 23 8
             (1 + fp_trunc (fp_div 52 11 (Fin 50 0) (if fp_less (Fin 5 0) dt then dt else Fin 5 0)))))"

text \<open>Both inputs with their modes, values and saved values; the time of the first, which is changed.\<close>

record pin_pair =
  e_modes :: "int \<times> int"
  e_new :: "int \<times> int"
  e_old :: "int \<times> int"
  e_time :: "int \<times> int"

definition encoder_pins :: "int \<Rightarrow> int \<Rightarrow> int \<Rightarrow> int \<Rightarrow> teensy_unit \<Rightarrow> pin_pair option" where
  "encoder_pins type dev pin1 pin2 u =
     (if type = TEENSY_TYPE then
        do {
          m1 \<leftarrow> arr_get (pinmode (teensy u)) pin1;
          m2 \<leftarrow> arr_get (pinmode (teensy u)) pin2;
          (v1, s1) \<leftarrow> get_pin pin1 u;
          (v2, s2) \<leftarrow> get_pin pin2 u;
          t \<leftarrow> arr_get (val_time (teensy u)) pin1;
          Some \<lparr> e_modes = (m1, m2), e_new = (v1, v2), e_old = (s1, s2), e_time = t \<rparr>
        }
      else
        do {
          d \<leftarrow> arr_get (mcp23017 u) dev;
          m1 \<leftarrow> arr_get (mcp_pinmode d) pin1;
          m2 \<leftarrow> arr_get (mcp_pinmode d) pin2;
          (v1, s1) \<leftarrow> get_mcp pin1 d;
          (v2, s2) \<leftarrow> get_mcp pin2 d;
          t \<leftarrow> arr_get (mcp_time d) pin1;
          Some \<lparr> e_modes = (m1, m2), e_new = (v1, v2), e_old = (s1, s2), e_time = t \<rparr>
        })"

definition set_encoder_time :: "int \<Rightarrow> int \<Rightarrow> int \<Rightarrow> int \<times> int \<Rightarrow> teensy_unit \<Rightarrow> teensy_unit option" where
  "set_encoder_time type dev pin1 newtime u =
     (if type = TEENSY_TYPE then
        do {
          ts \<leftarrow> arr_set (val_time (teensy u)) pin1 newtime;
          Some (u\<lparr>teensy := (teensy u)\<lparr>val_time := ts\<rparr>\<rparr>)
        }
      else
        do {
          d \<leftarrow> arr_get (mcp23017 u) dev;
          ts \<leftarrow> arr_set (mcp_time d) pin1 newtime;
          ds \<leftarrow> arr_set (mcp23017 u) dev (d\<lparr>mcp_time := ts\<rparr>);
          Some (u\<lparr>mcp23017 := ds\<rparr>)
        })"

text \<open>A change of the inputs: a step in one of the directions, or none.\<close>

definition encoder_step ::
  "int \<Rightarrow> int \<Rightarrow> int \<Rightarrow> fpval \<Rightarrow> int \<Rightarrow> int \<times> int \<Rightarrow> int \<Rightarrow> pin_pair \<Rightarrow> fpval \<Rightarrow> teensy_unit \<Rightarrow>
   (int \<times> fpval \<times> teensy_unit) option" where
  "encoder_step type dev pin1 multiplier encoder_type newtime verbose e v u =
     (if encoder_type = 1 \<or> encoder_type = 2 then
        (let updown = (if encoder_type = 1 then optical_updown (e_old e) (e_new e)
                       else gray_updown (e_old e) (e_new e))
         in if updown \<noteq> 0 then
              do {
                u \<leftarrow> set_encoder_time type dev pin1 newtime u;
                Some (1, encoder_add v updown multiplier (ms_since newtime (e_time e)), u)
              }
            else Some (0, v, u))
      else Some (if verbose > 0 then -1 else 0, v, u))"

definition encoder_body ::
  "int \<Rightarrow> int \<Rightarrow> int \<Rightarrow> int \<Rightarrow> fpval \<Rightarrow> int \<Rightarrow> int \<times> int \<Rightarrow> int \<Rightarrow> fpval \<Rightarrow> teensy_unit \<Rightarrow>
   (int \<times> fpval \<times> teensy_unit) option" where
  "encoder_body type dev pin1 pin2 multiplier encoder_type newtime verbose v u =
     do {
       there \<leftarrow> (if type = TEENSY_TYPE then Some True
                else map_option (\<lambda>d. mcp_connected d = 1) (arr_get (mcp23017 u) dev));
       let max_pins = (if type = TEENSY_TYPE then int MAX_PINS else int MCP23017_MAX_PINS);
       if there \<and> pin1 \<ge> 0 \<and> pin1 < max_pins \<and> pin2 \<ge> 0 \<and> pin2 < max_pins then
         do {
           e \<leftarrow> encoder_pins type dev pin1 pin2 u;
           if e_modes e = (PINMODE_INPUT, PINMODE_INPUT) then
             (if fst (e_new e) \<noteq> INITVAL \<and> snd (e_new e) \<noteq> INITVAL \<and>
                 fst (e_old e) \<noteq> INITVAL \<and> snd (e_old e) \<noteq> INITVAL \<and> e_new e \<noteq> e_old e
              then encoder_step type dev pin1 multiplier encoder_type newtime verbose e v u
              else Some (0, v, u))
           else Some (-1, v, u)
         }
       else Some (-1, v, u)
     }"

definition encoder_inputf ::
  "int \<Rightarrow> int \<Rightarrow> int \<Rightarrow> int \<Rightarrow> int \<Rightarrow> fpval option \<Rightarrow> fpval \<Rightarrow> int \<Rightarrow> int \<times> int \<Rightarrow> int \<Rightarrow> teensy_state \<Rightarrow>
   (int \<times> fpval option \<times> teensy_state) option" where
  "encoder_inputf te type dev pin1 pin2 value multiplier encoder_type newtime verbose =
     with_value value (\<lambda>v st.
       if fp_is_miss v then Some (0, v, st)
       else if type = TEENSY_TYPE \<or> type = MCP23017_TYPE \<and> dev \<ge> 0 \<and> dev < int MAX_DEV then
         on_teensy te (encoder_body type dev pin1 pin2 multiplier encoder_type newtime verbose v) v st
       else Some (-1, v, st))"

definition encoder_input ::
  "int \<Rightarrow> int \<Rightarrow> int \<Rightarrow> int \<Rightarrow> int \<Rightarrow> int option \<Rightarrow> int \<Rightarrow> int \<Rightarrow> int \<times> int \<Rightarrow> int \<Rightarrow> teensy_state \<Rightarrow>
   (int \<times> int option \<times> teensy_state) option" where
  "encoder_input te type dev pin1 pin2 value multiplier encoder_type newtime verbose st =
     do {
       v \<leftarrow> value;
       let fvalue = (if v \<noteq> INT_MISS then fp_of_int 23 8 v else flt_miss_val);
       (ret, fvalue, st) \<leftarrow> encoder_inputf te type dev pin1 pin2 (Some fvalue)
         (fp_of_int 23 8 multiplier) encoder_type newtime verbose st;
       f \<leftarrow> fvalue;
       Some (ret, Some (if \<not> fp_is_miss f then fp_lround f else v), st)
     }"

section \<open>Digital outputs\<close>

definition output_pin :: "int \<Rightarrow> int \<Rightarrow> teensy_unit \<Rightarrow> (int \<times> int \<times> teensy_unit) option" where
  "output_pin pin value u =
     (if pin \<ge> 0 \<and> pin < int MAX_PINS then
        do {
          mode \<leftarrow> arr_get (pinmode (teensy u)) pin;
          if mode = PINMODE_OUTPUT then
            do {
              old \<leftarrow> arr_get2 (val (teensy u)) pin 0;
              if value \<noteq> old then do { u \<leftarrow> set_pin pin value u; Some (1, value, u) }
              else Some (0, value, u)
            }
          else Some (-1, value, u)
        }
      else Some (-1, value, u))"

definition output_mcp :: "int \<Rightarrow> int \<Rightarrow> int \<Rightarrow> teensy_unit \<Rightarrow> (int \<times> int \<times> teensy_unit) option" where
  "output_mcp dev pin value u =
     (if dev \<ge> 0 \<and> dev < int MAX_DEV then
        do {
          d \<leftarrow> arr_get (mcp23017 u) dev;
          if mcp_connected d = 1 \<and> pin \<ge> 0 \<and> pin < int MCP23017_MAX_PINS then
            do {
              mode \<leftarrow> arr_get (mcp_pinmode d) pin;
              if mode = PINMODE_OUTPUT then
                do {
                  old \<leftarrow> arr_get (mcp_val d) pin;
                  if value \<noteq> old then
                    do {
                      vs \<leftarrow> arr_set (mcp_val d) pin (to_i16 value);
                      ds \<leftarrow> arr_set (mcp23017 u) dev (d\<lparr>mcp_val := vs\<rparr>);
                      Some (1, value, u\<lparr>mcp23017 := ds\<rparr>)
                    }
                  else Some (0, value, u)
                }
              else Some (-1, value, u)
            }
          else Some (-1, value, u)
        }
      else Some (-1, value, u))"

definition digital_output ::
  "int \<Rightarrow> int \<Rightarrow> int \<Rightarrow> int \<Rightarrow> int option \<Rightarrow> teensy_state \<Rightarrow> (int \<times> int option \<times> teensy_state) option" where
  "digital_output te type dev pin value =
     with_value value (\<lambda>v st.
       if v = INT_MISS then Some (0, v, st)
       else if v = 1 \<or> v = 0 then
         on_teensy te (\<lambda>u.
           if type = TEENSY_TYPE then output_pin pin v u
           else if type = MCP23017_TYPE then output_mcp dev pin v u
           else Some (-1, v, u)) v st
       else Some (-1, v, st))"

text \<open>The \<open>double\<close> nearest to \<open>0.04\<close>.\<close>

definition threshold_004 :: fpval where
  "threshold_004 = Fin 5764607523034235 (- 57)"

definition digital_outputf ::
  "int \<Rightarrow> int \<Rightarrow> int \<Rightarrow> int \<Rightarrow> fpval option \<Rightarrow> teensy_state \<Rightarrow> (int \<times> teensy_state) option" where
  "digital_outputf te type dev pin fvalue st =
     do {
       f \<leftarrow> fvalue;
       let value = (if fp_is_miss f then INT_MISS else if fp_le threshold_004 f then 1 else 0);
       (retval, _, st) \<leftarrow> digital_output te type dev pin (Some value) st;
       Some (retval, st)
     }"

section \<open>Displays\<close>

text \<open>A digit and its decimal point. That a digit has changed is only printed.\<close>

definition put_digit :: "int \<Rightarrow> int \<Rightarrow> ht16k33_struct \<Rightarrow> ht16k33_struct option" where
  "put_digit i v d =
     do {
       old \<leftarrow> arr_get (ht_val d) i;
       if old \<noteq> v then do { vs \<leftarrow> arr_set (ht_val d) i (to_i16 v); Some (d\<lparr>ht_val := vs\<rparr>) }
       else Some d
     }"

definition put_point :: "int \<Rightarrow> bool \<Rightarrow> ht16k33_struct \<Rightarrow> ht16k33_struct option" where
  "put_point i on d =
     do {
       ps \<leftarrow> arr_set (ht_decimalpoint d) i (if on then 1 else 0);
       Some (d\<lparr>ht_decimalpoint := ps\<rparr>)
     }"

text \<open>The first \<open>while\<close> loop: the digits of the number, from the right.\<close>

function show_digits ::
  "int \<Rightarrow> int \<Rightarrow> int \<Rightarrow> int \<Rightarrow> int \<Rightarrow> ht16k33_struct \<Rightarrow> (int \<times> ht16k33_struct) option" where
  "show_digits pos n dp tempval cnt d =
     (if tempval \<noteq> 0 \<and> cnt < n then
        do {
          d \<leftarrow> put_point (pos + cnt) (dp = cnt) d;
          d \<leftarrow> put_digit (pos + cnt) (tempval smod 10) d;
          show_digits pos n dp (tempval sdiv 10) (cnt + 1) d
        }
      else Some (cnt, d))"
  by pat_completeness auto
termination
  by (relation "measure (\<lambda>(pos, n, dp, tempval, cnt, d). nat (n - cnt))") auto

text \<open>
  The second one: the minus sign (19), zeros up to the decimal point, blanks (16). While the minus sign
  waits for its place, nothing is shown.
\<close>

function show_rest :: "int \<Rightarrow> int \<Rightarrow> int \<Rightarrow> bool \<Rightarrow> int \<Rightarrow> ht16k33_struct \<Rightarrow> ht16k33_struct option" where
  "show_rest pos n dp negative cnt d =
     (if cnt < n then
        (if negative then
           (if cnt > dp then
              do { d \<leftarrow> put_digit (pos + cnt) 19 d; show_rest pos n dp False (cnt + 1) d }
            else show_rest pos n dp negative (cnt + 1) d)
         else if cnt = 0 \<or> dp \<ge> cnt then
           do {
             d \<leftarrow> put_point (pos + cnt) (dp = cnt) d;
             d \<leftarrow> put_digit (pos + cnt) 0 d;
             show_rest pos n dp negative (cnt + 1) d
           }
         else do { d \<leftarrow> put_digit (pos + cnt) 16 d; show_rest pos n dp negative (cnt + 1) d })
      else Some d)"
  by pat_completeness auto
termination
  by (relation "measure (\<lambda>(pos, n, dp, negative, cnt, d). nat (n - cnt))") auto

declare show_digits.simps [simp del] show_rest.simps [simp del]

text \<open>A single digit may also be one of the special signs; its decimal point is compared with \<open>pos\<close>.\<close>

definition show_number :: "int \<Rightarrow> int \<Rightarrow> int \<Rightarrow> int \<Rightarrow> ht16k33_struct \<Rightarrow> ht16k33_struct option" where
  "show_number pos n dp value d =
     (if n > 1 then
        do {
          (cnt, d) \<leftarrow> show_digits pos n dp (if value < 0 then wrap32 (- value) else value) 0 d;
          show_rest pos n dp (value < 0) cnt d
        }
      else do { d \<leftarrow> put_point pos (dp = pos) d; put_digit pos value d })"

definition display_body ::
  "int \<Rightarrow> int \<Rightarrow> int \<Rightarrow> int \<Rightarrow> int \<Rightarrow> int \<Rightarrow> int \<Rightarrow> teensy_unit \<Rightarrow> (int \<times> int \<times> teensy_unit) option" where
  "display_body type dev pos n dp brightness value u =
     (if type = HT16K33_TYPE \<and> dev \<ge> 0 \<and> dev < int MAX_DEV then
        do {
          d \<leftarrow> arr_get (ht16k33 u) dev;
          if ht_connected d = 1 \<and> pos \<ge> 0 \<and> pos < int HT16K33_MAX_DIG \<and> n > 0 \<and>
             wrap32 (pos + n) \<le> int HT16K33_MAX_DIG then
            do {
              d \<leftarrow> show_number pos n dp value (d\<lparr>ht_brightness := to_char brightness\<rparr>);
              ds \<leftarrow> arr_set (ht16k33 u) dev d;
              Some (0, value, u\<lparr>ht16k33 := ds\<rparr>)
            }
          else Some (-1, value, u)
        }
      else Some (-1, value, u))"

definition display_output ::
  "int \<Rightarrow> int \<Rightarrow> int \<Rightarrow> int \<Rightarrow> int \<Rightarrow> int option \<Rightarrow> int \<Rightarrow> int \<Rightarrow> teensy_state \<Rightarrow>
   (int \<times> int option \<times> teensy_state) option" where
  "display_output te type dev pos n value dp brightness =
     with_value value (\<lambda>v st.
       if v = INT_MISS then Some (0, v, st)
       else on_teensy te (display_body type dev pos n dp brightness v) v st)"

definition display_outputf ::
  "int \<Rightarrow> int \<Rightarrow> int \<Rightarrow> int \<Rightarrow> int \<Rightarrow> fpval option \<Rightarrow> int \<Rightarrow> int \<Rightarrow> teensy_state \<Rightarrow>
   (int \<times> teensy_state) option" where
  "display_outputf te type dev pos n fvalue dp brightness st =
     do {
       f \<leftarrow> fvalue;
       let value = (if fp_is_miss f then INT_MISS else fp_lround f);
       (retval, _, st) \<leftarrow> display_output te type dev pos n (Some value) dp brightness st;
       Some (retval, st)
     }"

section \<open>Servos, motors, volume and programs\<close>

text \<open>\<open>MIN(MAX(0.0,x),1.0)\<close>, with the macros as they are: what is not a number becomes 1.\<close>

definition fp_max :: "fpval \<Rightarrow> fpval \<Rightarrow> fpval" where
  "fp_max a b = (if fp_less b a then a else b)"

definition fp_min :: "fpval \<Rightarrow> fpval \<Rightarrow> fpval" where
  "fp_min a b = (if fp_less a b then a else b)"

definition clamp01 :: "fpval \<Rightarrow> fpval" where
  "clamp01 x = fp_min (fp_max (Fin 0 0) x) (Fin 1 0)"

text \<open>The position of a value in its range; and \<open>(int) (clamp01(x) * scale + offset)\<close>, in \<open>double\<close>.\<close>

definition position :: "fpval \<Rightarrow> fpval \<Rightarrow> fpval \<Rightarrow> fpval" where
  "position f minval maxval = fp_div 23 8 (fp_sub 23 8 f minval) (fp_sub 23 8 maxval minval)"

definition scale_to :: "fpval \<Rightarrow> fpval \<Rightarrow> fpval \<Rightarrow> int" where
  "scale_to x scale offset = fp_trunc (fp_add 52 11 (fp_mul 52 11 (clamp01 x) scale) offset)"

definition pwm_value :: "int \<Rightarrow> fpval \<Rightarrow> fpval \<Rightarrow> fpval \<Rightarrow> int" where
  "pwm_value limit f minval maxval = fp_trunc (fp_mul 52 11 (clamp01 (position f minval maxval)) (Fin limit 0))"

text \<open>A new value of a pin of the Teensy in the given mode, or of a PCA9685.\<close>

definition value_pin :: "int \<Rightarrow> int \<Rightarrow> int \<Rightarrow> fpval \<Rightarrow> teensy_unit \<Rightarrow> (int \<times> fpval \<times> teensy_unit) option" where
  "value_pin required pin ival f u =
     (if pin \<ge> 0 \<and> pin < int MAX_PINS then
        do {
          mode \<leftarrow> arr_get (pinmode (teensy u)) pin;
          if mode = required then
            do {
              old \<leftarrow> arr_get2 (val (teensy u)) pin 0;
              u \<leftarrow> (if ival \<noteq> old then set_pin pin ival u else Some u);
              Some (0, f, u)
            }
          else Some (-1, f, u)
        }
      else Some (-1, f, u))"

definition value_pca ::
  "int \<Rightarrow> int \<Rightarrow> int \<Rightarrow> int \<Rightarrow> fpval \<Rightarrow> teensy_unit \<Rightarrow> (int \<times> fpval \<times> teensy_unit) option" where
  "value_pca required dev pin ival f u =
     (if dev \<ge> 0 \<and> dev < int MAX_DEV then
        do {
          d \<leftarrow> arr_get (pca9685 u) dev;
          if pca_connected d = 1 \<and> pin \<ge> 0 \<and> pin < int PCA9685_MAX_PINS then
            do {
              mode \<leftarrow> arr_get (pca_pinmode d) pin;
              if mode = required then
                do {
                  old \<leftarrow> arr_get (pca_val d) pin;
                  vs \<leftarrow> (if ival \<noteq> old then arr_set (pca_val d) pin (to_i16 ival) else Some (pca_val d));
                  ds \<leftarrow> arr_set (pca9685 u) dev (d\<lparr>pca_val := vs\<rparr>);
                  Some (0, f, u\<lparr>pca9685 := ds\<rparr>)
                }
              else Some (-1, f, u)
            }
          else Some (-1, f, u)
        }
      else Some (-1, f, u))"

definition with_number ::
  "fpval option \<Rightarrow> (fpval \<Rightarrow> teensy_unit \<Rightarrow> (int \<times> fpval \<times> teensy_unit) option) \<Rightarrow> int \<Rightarrow> teensy_state \<Rightarrow>
   (int \<times> fpval option \<times> teensy_state) option" where
  "with_number fvalue body te =
     with_value fvalue (\<lambda>f st. if fp_is_miss f then Some (0, f, st) else on_teensy te (body f) f st)"

definition pwm_output ::
  "int \<Rightarrow> int \<Rightarrow> int \<Rightarrow> int \<Rightarrow> fpval option \<Rightarrow> fpval \<Rightarrow> fpval \<Rightarrow> teensy_state \<Rightarrow>
   (int \<times> fpval option \<times> teensy_state) option" where
  "pwm_output te type dev pin fvalue minval maxval =
     with_number fvalue (\<lambda>f u.
       if type = TEENSY_TYPE then value_pin PINMODE_PWM pin (pwm_value 255 f minval maxval) f u
       else if type = PCA9685_TYPE then value_pca PINMODE_PWM dev pin (pwm_value 4095 f minval maxval) f u
       else Some (-1, f, u)) te"

definition servo_position :: "fpval \<Rightarrow> fpval \<Rightarrow> fpval \<Rightarrow> fpval \<Rightarrow> fpval \<Rightarrow> fpval" where
  "servo_position f minval maxval servo_minval servo_maxval =
     fp_add 23 8 (fp_mul 23 8 (position f minval maxval) (fp_sub 23 8 servo_maxval servo_minval)) servo_minval"

definition servo_output ::
  "int \<Rightarrow> int \<Rightarrow> int \<Rightarrow> int \<Rightarrow> fpval option \<Rightarrow> fpval \<Rightarrow> fpval \<Rightarrow> fpval \<Rightarrow> fpval \<Rightarrow> teensy_state \<Rightarrow>
   (int \<times> fpval option \<times> teensy_state) option" where
  "servo_output te type dev pin fvalue minval maxval servo_minval servo_maxval =
     with_number fvalue (\<lambda>f u.
       let x = servo_position f minval maxval servo_minval servo_maxval
       in if type = TEENSY_TYPE then value_pin PINMODE_SERVO pin (scale_to x (Fin (180 - 0) 0) (Fin 0 0)) f u
          else if type = PCA9685_TYPE then
            value_pca PINMODE_SERVO dev pin (scale_to x (Fin (2400 - 600) 0) (Fin 600 0)) f u
          else Some (-1, f, u)) te"

text \<open>A motor: 1000 brakes; \<open>-1\<close>, the initial value, is avoided.\<close>

definition motor_value :: "fpval \<Rightarrow> fpval \<Rightarrow> fpval \<Rightarrow> int \<Rightarrow> int" where
  "motor_value f minval maxval brake =
     (if brake = 1 then 1000
      else
        (let ival =
           (if fp_le (Fin 0 0) f then pwm_value 255 f minval maxval
            else fp_trunc (fp_neg (fp_mul 52 11 (clamp01 (position (fp_neg f) minval maxval)) (Fin 255 0))))
         in if ival = INITVAL then 0 else ival))"

definition motor_output ::
  "int \<Rightarrow> int \<Rightarrow> int \<Rightarrow> int \<Rightarrow> fpval option \<Rightarrow> fpval \<Rightarrow> fpval \<Rightarrow> int \<Rightarrow> teensy_state \<Rightarrow>
   (int \<times> fpval option \<times> teensy_state) option" where
  "motor_output te type dev pin fvalue minval maxval brake =
     with_number fvalue (\<lambda>f u.
       if type = TEENSY_TYPE then value_pin PINMODE_MOTOR pin (motor_value f minval maxval brake) f u
       else Some (-1, f, u)) te"

definition volume_body ::
  "int \<Rightarrow> int \<Rightarrow> fpval \<Rightarrow> fpval \<Rightarrow> fpval \<Rightarrow> teensy_unit \<Rightarrow> (int \<times> fpval \<times> teensy_unit) option" where
  "volume_body dev channel minval maxval f u =
     (if dev \<ge> 0 \<and> dev < int MAX_DEV then
        do {
          d \<leftarrow> arr_get (pga2311 u) dev;
          if pga_connected d = 1 \<and> channel \<ge> 0 \<and> channel < int PGA2311_MAX_CHANNELS then
            do {
              let ival = pwm_value 255 f minval maxval;
              old \<leftarrow> arr_get (pga_val d) channel;
              vs \<leftarrow> (if ival \<noteq> old then arr_set (pga_val d) channel (to_i16 ival) else Some (pga_val d));
              ds \<leftarrow> arr_set (pga2311 u) dev (d\<lparr>pga_val := vs\<rparr>);
              Some (0, f, u\<lparr>pga2311 := ds\<rparr>)
            }
          else Some (-1, f, u)
        }
      else Some (-1, f, u))"

definition volume_output ::
  "int \<Rightarrow> int \<Rightarrow> int \<Rightarrow> int \<Rightarrow> fpval option \<Rightarrow> fpval \<Rightarrow> fpval \<Rightarrow> teensy_state \<Rightarrow>
   (int \<times> fpval option \<times> teensy_state) option" where
  "volume_output te type dev channel fvalue minval maxval =
     with_number fvalue (volume_body dev channel minval maxval) te"

text \<open>
  The value for the program that steers a motor by a potentiometer, and whether it is active. The range of
  the potentiometer is in the program's own values.
\<close>

definition loop_value :: "fpval \<Rightarrow> fpval \<Rightarrow> fpval \<Rightarrow> int \<Rightarrow> int \<Rightarrow> int" where
  "loop_value f minval maxval lo hi =
     (let servo_min = fp_of_int 23 8 lo; servo_max = fp_of_int 23 8 hi
      in to_i16 (scale_to (position f minval maxval) (fp_sub 23 8 servo_max servo_min) servo_min))"

definition loop_body ::
  "int \<Rightarrow> int \<Rightarrow> fpval \<Rightarrow> fpval \<Rightarrow> fpval \<Rightarrow> teensy_unit \<Rightarrow> (int \<times> fpval \<times> teensy_unit) option" where
  "loop_body prog active minval maxval f u =
     (if prog \<ge> 0 \<and> prog < int MAX_PROG then
        do {
          p \<leftarrow> arr_get (program u) prog;
          if prog_type p = PROGRAM_CLOSEDLOOP then
            do {
              lo \<leftarrow> arr_get (val16 p) 1;
              hi \<leftarrow> arr_get (val16 p) 2;
              old \<leftarrow> arr_get (val16 p) 0;
              was \<leftarrow> arr_get (val8 p) 0;
              let ival = loop_value f minval maxval lo hi;
              v16 \<leftarrow> (if ival \<noteq> old then arr_set (val16 p) 0 ival else Some (val16 p));
              v8 \<leftarrow> (if active \<noteq> was then arr_set (val8 p) 0 (to_char active) else Some (val8 p));
              ps \<leftarrow> arr_set (program u) prog (p\<lparr>val16 := v16, val8 := v8\<rparr>);
              Some (0, f, u\<lparr>program := ps\<rparr>)
            }
          else Some (-1, f, u)
        }
      else Some (-1, f, u))"

definition program_closedloop ::
  "int \<Rightarrow> int \<Rightarrow> int \<Rightarrow> fpval option \<Rightarrow> fpval \<Rightarrow> fpval \<Rightarrow> teensy_state \<Rightarrow>
   (int \<times> fpval option \<times> teensy_state) option" where
  "program_closedloop te prog active fvalue minval maxval =
     with_value fvalue (\<lambda>f st.
       if fp_is_miss f \<or> active = INT_MISS then Some (0, f, st)
       else on_teensy te (loop_body prog active minval maxval f) f st)"

end
