(* ===== verification/TeensySend.thy ===== *)
theory TeensySend
  imports Teensy
begin

text \<open>
  The functions of \<open>xpteensy/src/libteensy.c\<close> that send to the Teensys: \<open>ping_teensy\<close>, \<open>init_teensy\<close> and
  \<open>send_teensy\<close>. A datagram is the address and the port it goes to and its 16 bytes; what \<open>sendto\<close>
  returns is only printed. The waiting between messages is left out.
\<close>

section \<open>Messages\<close>

type_synonym datagram = "mem \<times> int \<times> mem"

text \<open>
  \<open>teensySendBuffer\<close>, cleared and then filled: the identifier, bytes 2 and 3, the kind of message, the
  type and the number of the device, the pin, and what follows from byte 8 on.
\<close>

definition teensy_message :: "mem \<Rightarrow> int \<Rightarrow> int \<Rightarrow> int \<Rightarrow> int \<Rightarrow> mem \<Rightarrow> mem" where
  "teensy_message b23 kind dtype num pin payload =
     [TEENSY_ID1, TEENSY_ID2] @ b23 @
     [word_of_int kind, word_of_int dtype, word_of_int num, word_of_int pin] @
     payload @ replicate (8 - length payload) 0"

definition send_to :: "teensy_unit \<Rightarrow> mem \<Rightarrow> datagram" where
  "send_to u msg = (ip (teensy u), port (teensy u), msg)"

text \<open>\<open>for (\<dots>) \<dots> send_udp(\<dots>)\<close>: what the body sends for one value of the counter after the other.\<close>

fun sends :: "'k list \<Rightarrow> ('k \<Rightarrow> datagram list option) \<Rightarrow> datagram list option" where
  "sends [] f = Some []"
| "sends (k # ks) f = do { a \<leftarrow> f k; b \<leftarrow> sends ks f; Some (a @ b) }"

text \<open>The loop over the Teensys.\<close>

fun each_teensy ::
  "(teensy_unit \<Rightarrow> (teensy_unit \<times> datagram list) option) \<Rightarrow> teensy_unit list \<Rightarrow>
   (teensy_unit list \<times> datagram list) option" where
  "each_teensy f [] = Some ([], [])"
| "each_teensy f (u # us) =
     do { (u, a) \<leftarrow> f u; (us, b) \<leftarrow> each_teensy f us; Some (u # us, a @ b) }"

definition over_teensys ::
  "(teensy_unit \<Rightarrow> (teensy_unit \<times> datagram list) option) \<Rightarrow> teensy_state \<Rightarrow>
   (teensy_state \<times> datagram list) option" where
  "over_teensys f st = do { (us, sent) \<leftarrow> each_teensy f (units st); Some (st\<lparr>units := us\<rparr>, sent) }"

section \<open>Ping\<close>

definition ping_unit :: "int \<times> int \<Rightarrow> teensy_unit \<Rightarrow> teensy_unit \<times> datagram list" where
  "ping_unit newtime u =
     (let t = teensy u
      in if connected t = 1 \<and> online t = 0 \<and> fp_less (Fin 1000 0) (ms_since newtime (ping_time t))
         then (u\<lparr>teensy := t\<lparr>ping_time := newtime\<rparr>\<rparr>,
               [send_to u (teensy_message [0, 0] TEENSY_PING TEENSY_TYPE 0 0 [])])
         else (u, []))"

definition ping_teensy :: "int \<times> int \<Rightarrow> teensy_state \<Rightarrow> (teensy_state \<times> datagram list) option" where
  "ping_teensy newtime = over_teensys (\<lambda>u. Some (ping_unit newtime u))"

section \<open>Initialising a Teensy\<close>

definition known_mode :: "int \<Rightarrow> bool" where
  "known_mode mode \<longleftrightarrow>
     mode = PINMODE_INPUT \<or> mode = PINMODE_OUTPUT \<or> mode = PINMODE_PWM \<or> mode = PINMODE_SERVO \<or>
     mode = PINMODE_MOTOR \<or> mode = PINMODE_ANALOGINPUTMEDIAN \<or> mode = PINMODE_ANALOGINPUTMEAN \<or>
     mode = PINMODE_ANALOGINPUT \<or> mode = PINMODE_INTERRUPT \<or> mode = PINMODE_I2C \<or> mode = PINMODE_SPI"

definition i2c_pin :: "int \<Rightarrow> bool" where
  "i2c_pin pin \<longleftrightarrow> pin = 19 \<or> pin = 18"

definition spi_pin :: "int \<Rightarrow> bool" where
  "spi_pin pin \<longleftrightarrow> pin = 11 \<or> pin = 12 \<or> pin = 13"

definition init_pin :: "teensy_unit \<Rightarrow> nat \<Rightarrow> datagram list option" where
  "init_pin u k =
     do {
       let t = teensy u;
       let pin = int k;
       mode \<leftarrow> arr_get (pinmode t) pin;
       if known_mode mode \<and> \<not> i2c_pin pin \<and> \<not> (SPI_active u = 1 \<and> spi_pin pin) then
         do {
           v \<leftarrow> arr_get2 (val t) pin 0;
           a1 \<leftarrow> arr_get (arg1 t) pin;
           a2 \<leftarrow> arr_get (arg2 t) pin;
           a3 \<leftarrow> arr_get (arg3 t) pin;
           a4 \<leftarrow> arr_get (arg4 t) pin;
           a5 \<leftarrow> arr_get (arg5 t) pin;
           a6 \<leftarrow> arr_get (arg6 t) pin;
           Some [send_to u
             (if mode = PINMODE_MOTOR
              then teensy_message (enc_i16 a6) TEENSY_INIT TEENSY_TYPE 0 pin
                     (enc_i16 v @ map word_of_int [mode, a1, a2, a3, a4, a5])
              else teensy_message [0, 0] TEENSY_INIT TEENSY_TYPE 0 pin (enc_i16 v @ [word_of_int mode]))]
         }
       else Some []
     }"

definition init_pca :: "teensy_unit \<Rightarrow> nat \<Rightarrow> datagram list option" where
  "init_pca u dev =
     do {
       d \<leftarrow> arr_get (pca9685 u) (int dev);
       if pca_connected d = 1 \<and> pca_wire d \<noteq> INITVAL then
         sends [0..<PCA9685_MAX_PINS] (\<lambda>pin.
           do {
             mode \<leftarrow> arr_get (pca_pinmode d) (int pin);
             v \<leftarrow> arr_get (pca_val d) (int pin);
             Some (if mode = PINMODE_PWM \<or> mode = PINMODE_SERVO
               then [send_to u (teensy_message [0, 0] TEENSY_INIT PCA9685_TYPE (int dev) (int pin)
                      (enc_i16 v @ map word_of_int [mode, 0, pca_wire d, pca_address d]))]
               else [])
           })
       else Some []
     }"

definition init_mcp :: "teensy_unit \<Rightarrow> nat \<Rightarrow> datagram list option" where
  "init_mcp u dev =
     do {
       d \<leftarrow> arr_get (mcp23017 u) (int dev);
       if mcp_connected d = 1 \<and> mcp_wire d \<noteq> INITVAL then
         sends [0..<MCP23017_MAX_PINS] (\<lambda>pin.
           do {
             mode \<leftarrow> arr_get (mcp_pinmode d) (int pin);
             v \<leftarrow> arr_get (mcp_val d) (int pin);
             Some (if (mode = PINMODE_INPUT \<or> mode = PINMODE_OUTPUT) \<and> \<not> i2c_pin (mcp_intpin d)
               then [send_to u (teensy_message [0, 0] TEENSY_INIT MCP23017_TYPE (int dev) (int pin)
                      (enc_i16 v @ map word_of_int [mode, mcp_intpin d, mcp_wire d, mcp_address d]))]
               else [])
           })
       else Some []
     }"

definition init_as :: "teensy_unit \<Rightarrow> nat \<Rightarrow> datagram list option" where
  "init_as u dev =
     do {
       d \<leftarrow> arr_get (as5048b u) (int dev);
       v \<leftarrow> arr_get (as_val d) 0;
       Some (if as_connected d = 1 \<and> as_wire d \<noteq> INITVAL
         then [send_to u (teensy_message [0, 0] TEENSY_INIT AS5048B_TYPE (int dev) 0
                (enc_i16 v @ map word_of_int [as_nangle d, as_type d, as_wire d, as_address d]))]
         else [])
     }"

definition init_ht :: "teensy_unit \<Rightarrow> nat \<Rightarrow> datagram list option" where
  "init_ht u dev =
     do {
       d \<leftarrow> arr_get (ht16k33 u) (int dev);
       Some (if ht_connected d = 1 \<and> ht_wire d \<noteq> INITVAL
         then [send_to u (teensy_message [0, 0] TEENSY_INIT HT16K33_TYPE (int dev) 0
                ([0, 0, 0, 0] @ map word_of_int [ht_wire d, ht_address d]))]
         else [])
     }"

definition init_pga :: "teensy_unit \<Rightarrow> nat \<Rightarrow> datagram list option" where
  "init_pga u dev =
     do {
       d \<leftarrow> arr_get (pga2311 u) (int dev);
       if pga_connected d = 1 \<and> pga_spi d \<noteq> INITVAL then
         sends [0..<PGA2311_MAX_CHANNELS] (\<lambda>pin.
           do {
             v \<leftarrow> arr_get (pga_val d) (int pin);
             Some [send_to u (teensy_message [0, 0] TEENSY_INIT PGA2311_TYPE (int dev) (int pin)
                    (enc_i16 v @ map word_of_int [0, 0, pga_spi d, pga_cs d]))]
           })
       else Some []
     }"

text \<open>The values of a program, in the first message and in a regular one.\<close>

definition program_message :: "int \<Rightarrow> nat \<Rightarrow> program_struct \<Rightarrow> mem \<Rightarrow> mem option" where
  "program_message kind prog p rest =
     do {
       a0 \<leftarrow> arr_get (val8 p) 0;
       a1 \<leftarrow> arr_get (val8 p) 1;
       a2 \<leftarrow> arr_get (val8 p) 2;
       b0 \<leftarrow> arr_get (val16 p) 0;
       b1 \<leftarrow> arr_get (val16 p) 1;
       b2 \<leftarrow> arr_get (val16 p) 2;
       Some (teensy_message (map word_of_int [a0, a1]) kind PROGRAM_TYPE (prog_type p) (int prog)
         (enc_i16 b0 @ enc_i16 b1 @ enc_i16 b2 @ [word_of_int a2] @ rest))
     }"

definition init_program :: "teensy_unit \<Rightarrow> nat \<Rightarrow> datagram list option" where
  "init_program u prog =
     do {
       p \<leftarrow> arr_get (program u) (int prog);
       if prog_connected p = 1 \<and> prog_type p \<noteq> INITVAL then
         do { msg \<leftarrow> program_message TEENSY_INIT prog p []; Some [send_to u msg] }
       else Some []
     }"

definition init_unit :: "teensy_unit \<Rightarrow> (teensy_unit \<times> datagram list) option" where
  "init_unit u =
     (let t = teensy u
      in if connected t = 1 \<and> online t = 1 \<and> initialized t = 0 then
           do {
             let reset = [send_to u (teensy_message [0, 0] TEENSY_RESET TEENSY_TYPE 0 0 [])];
             pins \<leftarrow> sends [0..<MAX_PINS] (init_pin u);
             pcas \<leftarrow> sends [0..<MAX_DEV] (init_pca u);
             mcps \<leftarrow> sends [0..<MAX_DEV] (init_mcp u);
             ass \<leftarrow> sends [0..<MAX_DEV] (init_as u);
             hts \<leftarrow> sends [0..<MAX_DEV] (init_ht u);
             pgas \<leftarrow> sends [0..<MAX_DEV] (init_pga u);
             progs \<leftarrow> sends [0..<MAX_PROG] (init_program u);
             Some (u\<lparr>teensy := t\<lparr>initialized := 1\<rparr>\<rparr>,
               reset @ pins @ pcas @ mcps @ ass @ hts @ pgas @ progs)
           }
         else Some (u, []))"

definition init_teensy :: "int \<times> int \<Rightarrow> teensy_state \<Rightarrow> (teensy_state \<times> datagram list) option" where
  "init_teensy newtime st =
     do {
       (st, pings) \<leftarrow> ping_teensy newtime st;
       (st, sent) \<leftarrow> over_teensys init_unit st;
       Some (st, pings @ sent)
     }"

section \<open>Sending what has changed\<close>

definition output_mode :: "int \<Rightarrow> bool" where
  "output_mode mode \<longleftrightarrow>
     mode = PINMODE_OUTPUT \<or> mode = PINMODE_PWM \<or> mode = PINMODE_MOTOR \<or> mode = PINMODE_SERVO"

text \<open>A message with a new value of a pin.\<close>

definition value_message :: "int \<Rightarrow> int \<Rightarrow> int \<Rightarrow> int \<Rightarrow> mem" where
  "value_message dtype num pin v = teensy_message [0, 0] TEENSY_REGULAR dtype num pin (enc_i16 v)"

definition send_pin :: "teensy_unit \<Rightarrow> nat \<Rightarrow> datagram list option" where
  "send_pin u pin =
     do {
       mode \<leftarrow> arr_get (pinmode (teensy u)) (int pin);
       v \<leftarrow> arr_get2 (val (teensy u)) (int pin) 0;
       save \<leftarrow> arr_get (val_save (teensy u)) (int pin);
       Some (if output_mode mode \<and> v \<noteq> save then [send_to u (value_message TEENSY_TYPE 0 (int pin) v)]
             else [])
     }"

definition send_mcp :: "teensy_unit \<Rightarrow> nat \<Rightarrow> datagram list option" where
  "send_mcp u dev =
     do {
       d \<leftarrow> arr_get (mcp23017 u) (int dev);
       if mcp_connected d = 1 \<and> mcp_wire d \<noteq> INITVAL then
         sends [0..<MCP23017_MAX_PINS] (\<lambda>pin.
           do {
             mode \<leftarrow> arr_get (mcp_pinmode d) (int pin);
             v \<leftarrow> arr_get (mcp_val d) (int pin);
             save \<leftarrow> arr_get (mcp_save d) (int pin);
             Some (if mode = PINMODE_OUTPUT \<and> v \<noteq> save
               then [send_to u (value_message MCP23017_TYPE (int dev) (int pin) v)] else [])
           })
       else Some []
     }"

definition send_pca :: "teensy_unit \<Rightarrow> nat \<Rightarrow> datagram list option" where
  "send_pca u dev =
     do {
       d \<leftarrow> arr_get (pca9685 u) (int dev);
       if pca_connected d = 1 \<and> pca_wire d \<noteq> INITVAL then
         sends [0..<PCA9685_MAX_PINS] (\<lambda>pin.
           do {
             mode \<leftarrow> arr_get (pca_pinmode d) (int pin);
             v \<leftarrow> arr_get (pca_val d) (int pin);
             save \<leftarrow> arr_get (pca_save d) (int pin);
             Some (if (mode = PINMODE_PWM \<or> mode = PINMODE_SERVO) \<and> v \<noteq> save
               then [send_to u (value_message PCA9685_TYPE (int dev) (int pin) v)] else [])
           })
       else Some []
     }"

definition send_ht :: "teensy_unit \<Rightarrow> nat \<Rightarrow> datagram list option" where
  "send_ht u dev =
     do {
       d \<leftarrow> arr_get (ht16k33 u) (int dev);
       if ht_connected d = 1 \<and> ht_wire d \<noteq> INITVAL then
         sends [0..<HT16K33_MAX_DIG] (\<lambda>dig.
           do {
             v \<leftarrow> arr_get (ht_val d) (int dig);
             save \<leftarrow> arr_get (ht_save d) (int dig);
             dp \<leftarrow> arr_get (ht_decimalpoint d) (int dig);
             Some (if v \<noteq> save
               then [send_to u (teensy_message [0, 0] TEENSY_REGULAR HT16K33_TYPE (int dev) (int dig)
                      (enc_i16 v @ map word_of_int [dp, ht_brightness d]))]
               else [])
           })
       else Some []
     }"

definition send_pga :: "teensy_unit \<Rightarrow> nat \<Rightarrow> datagram list option" where
  "send_pga u dev =
     do {
       d \<leftarrow> arr_get (pga2311 u) (int dev);
       if pga_connected d = 1 \<and> pga_spi d \<noteq> INITVAL then
         sends [0..<PGA2311_MAX_CHANNELS] (\<lambda>pin.
           do {
             v \<leftarrow> arr_get (pga_val d) (int pin);
             save \<leftarrow> arr_get (pga_save d) (int pin);
             Some (if v \<noteq> save then [send_to u (value_message PGA2311_TYPE (int dev) (int pin) v)] else [])
           })
       else Some []
     }"

text \<open>The three 8 bit and three 16 bit values of a program that are compared; four 8 bit ones are sent.\<close>

definition program_changed :: "program_struct \<Rightarrow> bool option" where
  "program_changed p =
     for_each [0..<3] (\<lambda>k any.
       do {
         a \<leftarrow> arr_get (val8 p) (int k);
         a' \<leftarrow> arr_get (val8_save p) (int k);
         b \<leftarrow> arr_get (val16 p) (int k);
         b' \<leftarrow> arr_get (val16_save p) (int k);
         Some (any \<or> a \<noteq> a' \<or> b \<noteq> b')
       }) False"

definition send_program :: "teensy_unit \<Rightarrow> nat \<Rightarrow> datagram list option" where
  "send_program u prog =
     do {
       p \<leftarrow> arr_get (program u) (int prog);
       if prog_connected p = 1 \<and> prog_type p \<noteq> INITVAL then
         do {
           changed \<leftarrow> program_changed p;
           if changed then
             do {
               a3 \<leftarrow> arr_get (val8 p) 3;
               msg \<leftarrow> program_message TEENSY_REGULAR prog p [word_of_int a3];
               Some [send_to u msg]
             }
           else Some []
         }
       else Some []
     }"

definition send_unit :: "teensy_unit \<Rightarrow> datagram list option" where
  "send_unit u =
     (if is_running (teensy u) then
        do {
          pins \<leftarrow> sends [0..<MAX_PINS] (send_pin u);
          mcps \<leftarrow> sends [0..<MAX_DEV] (send_mcp u);
          pcas \<leftarrow> sends [0..<MAX_DEV] (send_pca u);
          hts \<leftarrow> sends [0..<MAX_DEV] (send_ht u);
          pgas \<leftarrow> sends [0..<MAX_DEV] (send_pga u);
          progs \<leftarrow> sends [0..<MAX_PROG] (send_program u);
          Some (pins @ mcps @ pcas @ hts @ pgas @ progs)
        }
      else Some [])"

definition send_teensy :: "teensy_state \<Rightarrow> datagram list option" where
  "send_teensy st = sends (units st) send_unit"

end
