(* ===== verification/TeensyTable.thy ===== *)
theory TeensyTable
  imports TeensyAccess TeensySend
begin

text \<open>
  The invariant of the tables of \<open>xpteensy\<close>: the sizes of the arrays and the ranges of the integer types.
  Every operation of the driver keeps it, and none of them leaves an array.
\<close>

section \<open>The invariant\<close>

abbreviation (input) i8 :: "int \<Rightarrow> bool" where "i8 \<equiv> within (- 128) 127"
abbreviation (input) i16 :: "int \<Rightarrow> bool" where "i16 \<equiv> within (- 32768) 32767"
abbreviation (input) flag :: "int \<Rightarrow> bool" where "flag \<equiv> within 0 1"
abbreviation (input) anything :: "'a \<Rightarrow> bool" where "anything \<equiv> \<lambda>_. True"

definition teensy_ok :: "teensy_struct \<Rightarrow> bool" where
  "teensy_ok t \<longleftrightarrow>
     flag (connected t) \<and> flag (online t) \<and> flag (initialized t) \<and>
     arr_ok MAX_PINS (arr_ok MAX_HIST i16) (val t) \<and> arr_ok MAX_PINS i16 (val_save t) \<and>
     arr_ok MAX_PINS anything (val_time t) \<and> arr_ok MAX_PINS i8 (pinmode t) \<and>
     arr_ok MAX_PINS i8 (arg1 t) \<and> arr_ok MAX_PINS i8 (arg2 t) \<and> arr_ok MAX_PINS i8 (arg3 t) \<and>
     arr_ok MAX_PINS (within 0 255) (arg4 t) \<and> arr_ok MAX_PINS (within 0 255) (arg5 t) \<and>
     arr_ok MAX_PINS i16 (arg6 t) \<and> length (ip t) = 30 \<and> terminated (ip t) \<and> length (mac t) = 2"

definition program_ok :: "program_struct \<Rightarrow> bool" where
  "program_ok p \<longleftrightarrow>
     flag (prog_connected p) \<and> i8 (prog_type p) \<and> arr_ok MAX_VARS i8 (val8 p) \<and>
     arr_ok MAX_VARS i16 (val16 p) \<and> arr_ok MAX_VARS i8 (val8_save p) \<and> arr_ok MAX_VARS i16 (val16_save p)"

definition mcp_ok :: "mcp23017_struct \<Rightarrow> bool" where
  "mcp_ok d \<longleftrightarrow>
     flag (mcp_connected d) \<and> arr_ok MCP23017_MAX_PINS i16 (mcp_val d) \<and>
     arr_ok MCP23017_MAX_PINS i16 (mcp_save d) \<and> arr_ok MCP23017_MAX_PINS anything (mcp_time d) \<and>
     arr_ok MCP23017_MAX_PINS i8 (mcp_pinmode d) \<and> i8 (mcp_intpin d) \<and> i8 (mcp_wire d) \<and>
     within 0 255 (mcp_address d)"

definition pca_ok :: "pca9685_struct \<Rightarrow> bool" where
  "pca_ok d \<longleftrightarrow>
     flag (pca_connected d) \<and> arr_ok PCA9685_MAX_PINS i16 (pca_val d) \<and>
     arr_ok PCA9685_MAX_PINS i16 (pca_save d) \<and> arr_ok PCA9685_MAX_PINS i8 (pca_pinmode d) \<and>
     i8 (pca_wire d) \<and> within 0 255 (pca_address d)"

definition pcf_ok :: "pcf8591_struct \<Rightarrow> bool" where
  "pcf_ok d \<longleftrightarrow>
     flag (pcf_connected d) \<and> arr_ok PCF8591_MAX_PINS (arr_ok MAX_HIST i16) (pcf_val d) \<and>
     arr_ok PCF8591_MAX_PINS i16 (pcf_save d) \<and> i16 (pcf_dac d) \<and> i8 (pcf_wire d) \<and>
     within 0 255 (pcf_address d)"

definition as_ok :: "as5048b_struct \<Rightarrow> bool" where
  "as_ok d \<longleftrightarrow>
     flag (as_connected d) \<and> arr_ok MAX_HIST i16 (as_val d) \<and> i16 (as_save d) \<and> i8 (as_nangle d) \<and>
     i8 (as_type d) \<and> i8 (as_wire d) \<and> within 0 255 (as_address d)"

definition ht_ok :: "ht16k33_struct \<Rightarrow> bool" where
  "ht_ok d \<longleftrightarrow>
     flag (ht_connected d) \<and> arr_ok HT16K33_MAX_DIG i16 (ht_val d) \<and> arr_ok HT16K33_MAX_DIG i16 (ht_save d) \<and>
     arr_ok HT16K33_MAX_DIG i8 (ht_decimalpoint d) \<and> i8 (ht_brightness d) \<and> i8 (ht_wire d) \<and>
     within 0 255 (ht_address d)"

definition pga_ok :: "pga2311_struct \<Rightarrow> bool" where
  "pga_ok d \<longleftrightarrow>
     flag (pga_connected d) \<and> arr_ok PGA2311_MAX_CHANNELS i16 (pga_val d) \<and>
     arr_ok PGA2311_MAX_CHANNELS i16 (pga_save d) \<and> i8 (pga_spi d) \<and> i8 (pga_cs d)"

definition unit_ok :: "teensy_unit \<Rightarrow> bool" where
  "unit_ok u \<longleftrightarrow>
     teensy_ok (teensy u) \<and> arr_ok MAX_PROG program_ok (program u) \<and> arr_ok MAX_DEV mcp_ok (mcp23017 u) \<and>
     arr_ok MAX_DEV pca_ok (pca9685 u) \<and> arr_ok MAX_DEV pcf_ok (pcf8591 u) \<and>
     arr_ok MAX_DEV as_ok (as5048b u) \<and> arr_ok MAX_DEV ht_ok (ht16k33 u) \<and>
     arr_ok MAX_DEV pga_ok (pga2311 u) \<and> flag (SPI_active u)"

definition state_ok :: "teensy_state \<Rightarrow> bool" where
  "state_ok st \<longleftrightarrow>
     arr_ok MAXTEENSYS unit_ok (units st) \<and> length (udpRecvBuffer st) = UDPRECVBUFLEN \<and>
     0 \<le> udpReadLeft st \<and> udpReadLeft st \<le> int UDPRECVBUFLEN"

lemma unit_okD:
  assumes "unit_ok u"
  shows "teensy_ok (teensy u)" "arr_ok 5 program_ok (program u)" "arr_ok 20 mcp_ok (mcp23017 u)"
    "arr_ok 20 pca_ok (pca9685 u)" "arr_ok 20 as_ok (as5048b u)" "arr_ok 20 ht_ok (ht16k33 u)"
    "arr_ok 20 pga_ok (pga2311 u)"
    "arr_ok 42 (arr_ok 11 i16) (val (teensy u))" "arr_ok 42 i16 (val_save (teensy u))"
    "arr_ok 42 anything (val_time (teensy u))" "arr_ok 42 i8 (pinmode (teensy u))"
  using assms by (simp_all add: unit_ok_def teensy_ok_def)

text \<open>Units that differ from a good one in good parts.\<close>

named_theorems unit_intros \<open>changes that keep the invariant of a unit\<close>

lemma unit_changes [unit_intros]:
  "unit_ok u \<Longrightarrow> teensy_ok t \<Longrightarrow> unit_ok (u\<lparr>teensy := t\<rparr>)"
  "unit_ok u \<Longrightarrow> arr_ok 5 program_ok ps \<Longrightarrow> unit_ok (u\<lparr>program := ps\<rparr>)"
  "unit_ok u \<Longrightarrow> arr_ok 20 mcp_ok ms \<Longrightarrow> unit_ok (u\<lparr>mcp23017 := ms\<rparr>)"
  "unit_ok u \<Longrightarrow> arr_ok 20 pca_ok cs \<Longrightarrow> unit_ok (u\<lparr>pca9685 := cs\<rparr>)"
  "unit_ok u \<Longrightarrow> arr_ok 20 as_ok as \<Longrightarrow> unit_ok (u\<lparr>as5048b := as\<rparr>)"
  "unit_ok u \<Longrightarrow> arr_ok 20 ht_ok hs \<Longrightarrow> unit_ok (u\<lparr>ht16k33 := hs\<rparr>)"
  "unit_ok u \<Longrightarrow> arr_ok 20 pga_ok gs \<Longrightarrow> unit_ok (u\<lparr>pga2311 := gs\<rparr>)"
  by (simp_all add: unit_ok_def)

lemma teensy_changes [unit_intros]:
  "teensy_ok t \<Longrightarrow> arr_ok 42 (arr_ok 11 i16) vs \<Longrightarrow> teensy_ok (t\<lparr>val := vs\<rparr>)"
  "teensy_ok t \<Longrightarrow> arr_ok 42 i16 ss \<Longrightarrow> teensy_ok (t\<lparr>val_save := ss\<rparr>)"
  "teensy_ok t \<Longrightarrow> arr_ok 42 anything ts \<Longrightarrow> teensy_ok (t\<lparr>val_time := ts\<rparr>)"
  "teensy_ok t \<Longrightarrow> teensy_ok (t\<lparr>online := 1\<rparr>)"
  "teensy_ok t \<Longrightarrow> teensy_ok (t\<lparr>ping_time := n\<rparr>)" "teensy_ok t \<Longrightarrow> teensy_ok (t\<lparr>initialized := 1\<rparr>)"
  by (simp_all add: teensy_ok_def within_def)

lemma chip_changes [unit_intros]:
  "mcp_ok d \<Longrightarrow> arr_ok 16 i16 vs \<Longrightarrow> mcp_ok (d\<lparr>mcp_val := vs\<rparr>)"
  "mcp_ok d \<Longrightarrow> arr_ok 16 anything ts \<Longrightarrow> mcp_ok (d\<lparr>mcp_time := ts\<rparr>)"
  "pca_ok c \<Longrightarrow> arr_ok 16 i16 vs \<Longrightarrow> pca_ok (c\<lparr>pca_val := vs\<rparr>)"
  "as_ok a \<Longrightarrow> arr_ok 11 i16 ws \<Longrightarrow> as_ok (a\<lparr>as_val := ws\<rparr>)"
  "as_ok a \<Longrightarrow> i16 x \<Longrightarrow> as_ok (a\<lparr>as_save := x\<rparr>)"
  "ht_ok h \<Longrightarrow> arr_ok 16 i16 vs \<Longrightarrow> ht_ok (h\<lparr>ht_val := vs\<rparr>)"
  "ht_ok h \<Longrightarrow> arr_ok 16 i8 ps \<Longrightarrow> ht_ok (h\<lparr>ht_decimalpoint := ps\<rparr>)"
  "ht_ok h \<Longrightarrow> i8 b \<Longrightarrow> ht_ok (h\<lparr>ht_brightness := b\<rparr>)"
  "pga_ok g \<Longrightarrow> arr_ok 2 i16 gs \<Longrightarrow> pga_ok (g\<lparr>pga_val := gs\<rparr>)"
  "program_ok p \<Longrightarrow> arr_ok 10 i16 us \<Longrightarrow> arr_ok 10 i8 bs \<Longrightarrow> program_ok (p\<lparr>val16 := us, val8 := bs\<rparr>)"
  "program_ok p \<Longrightarrow> arr_ok 10 i16 us \<Longrightarrow> program_ok (p\<lparr>val16 := us\<rparr>)"
  "program_ok p \<Longrightarrow> arr_ok 10 i8 bs \<Longrightarrow> program_ok (p\<lparr>val8 := bs\<rparr>)"
  by (simp_all add: mcp_ok_def pca_ok_def as_ok_def ht_ok_def pga_ok_def program_ok_def)

lemma chip_arrays [unit_intros]:
  "mcp_ok d \<Longrightarrow> arr_ok 16 i16 (mcp_val d)" "mcp_ok d \<Longrightarrow> arr_ok 16 i16 (mcp_save d)"
  "mcp_ok d \<Longrightarrow> arr_ok 16 anything (mcp_time d)" "mcp_ok d \<Longrightarrow> arr_ok 16 i8 (mcp_pinmode d)"
  "pca_ok c \<Longrightarrow> arr_ok 16 i16 (pca_val c)" "pca_ok c \<Longrightarrow> arr_ok 16 i16 (pca_save c)"
  "pca_ok c \<Longrightarrow> arr_ok 16 i8 (pca_pinmode c)"
  "as_ok a \<Longrightarrow> arr_ok 11 i16 (as_val a)"
  "ht_ok h \<Longrightarrow> arr_ok 16 i16 (ht_val h)" "ht_ok h \<Longrightarrow> arr_ok 16 i16 (ht_save h)"
  "ht_ok h \<Longrightarrow> arr_ok 16 i8 (ht_decimalpoint h)"
  "pga_ok g \<Longrightarrow> arr_ok 2 i16 (pga_val g)" "pga_ok g \<Longrightarrow> arr_ok 2 i16 (pga_save g)"
  "program_ok p \<Longrightarrow> arr_ok 10 i16 (val16 p)" "program_ok p \<Longrightarrow> arr_ok 10 i8 (val8 p)"
  "program_ok p \<Longrightarrow> arr_ok 10 i16 (val16_save p)" "program_ok p \<Longrightarrow> arr_ok 10 i8 (val8_save p)"
  by (simp_all add: mcp_ok_def pca_ok_def as_ok_def ht_ok_def pga_ok_def program_ok_def)

lemma to_i16_range [simp]: "i16 (to_i16 v)"
  using pos_mod_bound [of 65536 "v + 32768"] pos_mod_sign [of 65536 "v + 32768"]
  unfolding within_def to_i16_def by linarith

lemma to_i16_id [simp]: "i16 v \<Longrightarrow> to_i16 v = v"
  by (simp add: within_def to_i16_def)

lemma i8_to_char [simp]: "i8 (to_char v)"
  using pos_mod_bound [of 256 "v + 128"] pos_mod_sign [of 256 "v + 128"]
  unfolding within_def to_char_def by linarith

section \<open>The access functions on a unit\<close>

text \<open>A call that succeeds with a good unit, whatever it returns.\<close>

definition keeps :: "(int \<times> 'v \<times> teensy_unit) option \<Rightarrow> bool" where
  "keeps r \<longleftrightarrow> gives r (\<lambda>(retval, v, u). unit_ok u)"

lemmas array_gives [gives_intros] =
  chip_arrays [THEN gives_get] chip_arrays [THEN gives_set]
  unit_okD(8) [THEN gives_get2] unit_okD(8) [THEN gives_set2]
  unit_okD(9) [THEN gives_get] unit_okD(10) [THEN gives_get] unit_okD(10) [THEN gives_set]
  unit_okD(11) [THEN gives_get]

lemma arg_arrays:
  "unit_ok u \<Longrightarrow> arr_ok 42 i8 (arg1 (teensy u))" "unit_ok u \<Longrightarrow> arr_ok 42 i8 (arg2 (teensy u))"
  "unit_ok u \<Longrightarrow> arr_ok 42 i8 (arg3 (teensy u))" "unit_ok u \<Longrightarrow> arr_ok 42 (within 0 255) (arg4 (teensy u))"
  "unit_ok u \<Longrightarrow> arr_ok 42 (within 0 255) (arg5 (teensy u))" "unit_ok u \<Longrightarrow> arr_ok 42 i16 (arg6 (teensy u))"
  by (simp_all add: unit_ok_def teensy_ok_def)

lemmas unit_gives [gives_intros] =
  arg_arrays [THEN gives_get]
  unit_okD(2-7) [THEN gives_get] unit_okD(2-7) [THEN gives_set]

lemma get_pin_ok [gives_intros]:
  "unit_ok u \<Longrightarrow> 0 \<le> pin \<Longrightarrow> pin < 42 \<Longrightarrow> (\<And>v s. i16 v \<Longrightarrow> i16 s \<Longrightarrow> P (v, s)) \<Longrightarrow> gives (get_pin pin u) P"
  unfolding get_pin_def by (auto intro!: gives_intros)

lemma get_mcp_ok [gives_intros]:
  "mcp_ok d \<Longrightarrow> 0 \<le> pin \<Longrightarrow> pin < 16 \<Longrightarrow> (\<And>v s. i16 v \<Longrightarrow> i16 s \<Longrightarrow> P (v, s)) \<Longrightarrow> gives (get_mcp pin d) P"
  unfolding get_mcp_def by (auto intro!: gives_intros)

lemma set_pin_ok [gives_intros]:
  "unit_ok u \<Longrightarrow> 0 \<le> pin \<Longrightarrow> pin < 42 \<Longrightarrow> (\<And>u. unit_ok u \<Longrightarrow> P u) \<Longrightarrow> gives (set_pin pin v u) P"
  unfolding set_pin_def by (auto intro!: gives_intros) (simp add: unit_intros unit_okD)

lemma input_ok: "unit_ok u \<Longrightarrow> keeps (input_pin pin ty v u)" "unit_ok u \<Longrightarrow> keeps (input_mcp dev pin ty v u)"
  unfolding keeps_def input_pin_def input_mcp_def
  by (auto intro!: gives_intros split: prod.splits)

lemma output_ok: "unit_ok u \<Longrightarrow> keeps (output_pin pin v u)" "unit_ok u \<Longrightarrow> keeps (output_mcp dev pin v u)"
  unfolding keeps_def output_pin_def output_mcp_def
  by (auto intro!: gives_intros unit_intros)

lemma angle_ok: "unit_ok u \<Longrightarrow> 0 \<le> dev \<Longrightarrow> keeps (angle_body ty dev it v u)"
  unfolding keeps_def angle_body_def
  by (auto intro!: gives_intros unit_intros) (simp_all add: within_def)

lemma analog_ok: "unit_ok u \<Longrightarrow> keeps (analog_body pin lo hi v u)"
  unfolding keeps_def analog_body_def by (auto intro!: gives_intros)

lemma encoder_pins_ok:
  assumes "unit_ok u" and "0 \<le> pin1" "0 \<le> pin2"
    and "if ty = 0 then pin1 < 42 \<and> pin2 < 42 else 0 \<le> dev \<and> dev < 20 \<and> pin1 < 16 \<and> pin2 < 16"
  shows "gives (encoder_pins ty dev pin1 pin2 u) anything"
  using assms unfolding encoder_pins_def by (auto intro!: gives_intros split: if_splits)

lemma encoder_time_ok:
  assumes "unit_ok u" and "0 \<le> pin1" and "if ty = 0 then pin1 < 42 else 0 \<le> dev \<and> dev < 20 \<and> pin1 < 16"
  shows "gives (set_encoder_time ty dev pin1 t u) unit_ok"
  using assms unfolding set_encoder_time_def
  by (auto intro!: gives_intros unit_intros split: if_splits dest: unit_okD(1,10))

lemma teensy_encoder_step_ok:
  assumes "unit_ok u" and "0 \<le> pin1" and "if ty = 0 then pin1 < 42 else 0 \<le> dev \<and> dev < 20 \<and> pin1 < 16"
  shows "gives (encoder_step ty dev pin1 m et t vb e v u) (\<lambda>(r, v, u). unit_ok u)"
  unfolding encoder_step_def using assms(1)
  by (auto simp: Let_def intro!: gives_mono [OF encoder_time_ok [OF assms]])

lemma encoder_ok:
  assumes "unit_ok u" and "ty = 0 \<or> 0 \<le> dev \<and> dev < 20"
  shows "keeps (encoder_body ty dev pin1 pin2 m et t vb v u)"
  using assms unfolding keeps_def encoder_body_def Let_def
  by (auto intro!: gives_intros gives_mono [OF encoder_pins_ok] teensy_encoder_step_ok)

lemma pwm_ok: "unit_ok u \<Longrightarrow> keeps (value_pin m pin x v u)" "unit_ok u \<Longrightarrow> keeps (value_pca m dev pin x v u)"
  unfolding keeps_def value_pin_def value_pca_def by (auto intro!: gives_intros unit_intros)

lemma volume_ok: "unit_ok u \<Longrightarrow> keeps (volume_body dev ch lo hi v u)"
  unfolding keeps_def volume_body_def Let_def by (auto intro!: gives_intros unit_intros)

lemma loop_value_range: "i16 (loop_value f lo hi a b)"
  by (simp add: loop_value_def Let_def)

lemma loop_ok: "unit_ok u \<Longrightarrow> keeps (loop_body prog active lo hi v u)"
  unfolding keeps_def loop_body_def
  by (auto simp: Let_def loop_value_range intro!: gives_intros unit_intros)

section \<open>Displays\<close>

lemma put_digit_ok: "ht_ok d \<Longrightarrow> 0 \<le> i \<Longrightarrow> i < 16 \<Longrightarrow> gives (put_digit i v d) ht_ok"
  unfolding put_digit_def by (auto intro!: gives_intros unit_intros)

lemma put_point_ok: "ht_ok d \<Longrightarrow> 0 \<le> i \<Longrightarrow> i < 16 \<Longrightarrow> gives (put_point i b d) ht_ok"
  unfolding put_point_def by (auto intro!: gives_intros unit_intros simp: within_def)

lemma teensy_show_digits_ok:
  assumes "ht_ok d" and "0 \<le> pos" and "pos + n \<le> 16" and "0 \<le> cnt" and "cnt \<le> n"
  shows "gives (show_digits pos n dp v cnt d) (\<lambda>(m, d). ht_ok d \<and> 0 \<le> m \<and> m \<le> n)"
  using assms
proof (induction "nat (n - cnt)" arbitrary: v cnt d rule: less_induct)
  case less
  show ?case
  proof (cases "v \<noteq> 0 \<and> cnt < n")
    case True
    with less show ?thesis
      by (subst show_digits.simps) (auto intro!: gives_mono [OF put_point_ok] gives_mono [OF put_digit_ok])
  next
    case False
    with less.prems show ?thesis by (subst show_digits.simps) auto
  qed
qed

lemma teensy_show_rest_ok:
  assumes "ht_ok d" and "0 \<le> pos" and "pos + n \<le> 16" and "0 \<le> cnt"
  shows "gives (show_rest pos n dp negative cnt d) ht_ok"
  using assms
proof (induction "nat (n - cnt)" arbitrary: negative cnt d rule: less_induct)
  case less
  show ?case
  proof (cases "cnt < n")
    case True
    with less show ?thesis
      by (subst show_rest.simps) (auto intro!: gives_mono [OF put_point_ok] gives_mono [OF put_digit_ok])
  next
    case False
    with less.prems show ?thesis by (subst show_rest.simps) auto
  qed
qed

lemma teensy_show_number_ok:
  assumes "ht_ok d" and "0 \<le> pos" and "pos + n \<le> 16" and "0 < n"
  shows "gives (show_number pos n dp v d) ht_ok"
  using assms unfolding show_number_def
  by (auto intro!: gives_mono [OF teensy_show_digits_ok] gives_mono [OF teensy_show_rest_ok] gives_mono [OF put_point_ok]
      gives_mono [OF put_digit_ok] split: prod.splits)

lemma display_ok:
  assumes "unit_ok u" and "pos + n < 2147483648"
  shows "keeps (display_body ty dev pos n dp b v u)"
proof -
  have "wrap32 (pos + n) = pos + n" if "0 \<le> pos" "0 < n" using assms(2) that by (simp add: in_i32_def)
  with assms show ?thesis
    unfolding keeps_def display_body_def
    by (auto intro!: gives_intros unit_intros gives_mono [OF teensy_show_number_ok])
qed

section \<open>The end of a cycle\<close>

lemma try_map_ok:
  assumes "arr_ok n P xs" and "\<And>x. P x \<Longrightarrow> gives (f x) Q"
  shows "gives (try_map f xs) (arr_ok n Q)"
proof -
  from assms(1) have "gives (try_map f xs) (arr_ok (length xs) Q)" unfolding arr_ok_def
  proof (elim conjE, induction xs arbitrary: n)
    case (Cons x xs)
    then show ?case by (auto simp: arr_ok_def intro!: gives_mono [OF assms(2)] elim!: gives_mono)
  qed (simp add: arr_ok_def)
  with assms(1) show ?thesis by (simp add: arr_ok_def)
qed

lemma save_pins_ok: "teensy_ok t \<Longrightarrow> gives (save_pins t) teensy_ok"
  unfolding save_pins_def
  by (simp, rule gives_for_each [where I = "arr_ok 42 i16"])
    (auto simp: teensy_ok_def intro!: gives_get2 [where Q = i16 and n = 42 and m = 11]
      gives_set [where Q = i16 and n = 42])

lemma save_as_ok: "as_ok d \<Longrightarrow> gives (save_as d) as_ok"
  unfolding save_as_def by (auto intro!: gives_intros unit_intros)

lemma flag_1 [simp]: "flag 1"
  by (simp add: within_def)

lemma save_chip_ok:
  "mcp_ok m \<Longrightarrow> mcp_ok (save_mcp m)" "pca_ok c \<Longrightarrow> pca_ok (save_pca c)" "ht_ok h \<Longrightarrow> ht_ok (save_ht h)"
  "pga_ok g \<Longrightarrow> pga_ok (save_pga g)" "program_ok p \<Longrightarrow> program_ok (save_program p)"
  by (simp_all add: save_mcp_def save_pca_def save_ht_def save_pga_def save_program_def
      mcp_ok_def pca_ok_def ht_ok_def pga_ok_def program_ok_def)

lemma reset_unit_ok: "unit_ok u \<Longrightarrow> gives (reset_unit u) unit_ok"
  unfolding reset_unit_def
  by (auto simp: unit_ok_def intro!: gives_mono [OF save_pins_ok] gives_mono [OF try_map_ok [OF _ save_as_ok]]
      arr_ok_map save_chip_ok)

lemma reset_ok: "state_ok st \<Longrightarrow> gives (reset_teensydata st) state_ok"
  unfolding reset_teensydata_def
  by (auto simp: state_ok_def intro!: gives_mono [OF try_map_ok [OF _ reset_unit_ok]])

section \<open>Receiving\<close>

lemma receive_pin_ok: "unit_ok u \<Longrightarrow> i16 v \<Longrightarrow> gives (receive_pin pin v u) unit_ok"
  unfolding receive_pin_def by (auto intro!: gives_intros unit_intros dest: unit_okD(1))

lemma receive_mcp_ok: "unit_ok u \<Longrightarrow> 0 \<le> dev \<Longrightarrow> dev < 20 \<Longrightarrow> i16 v \<Longrightarrow> gives (receive_mcp dev pin v u) unit_ok"
  unfolding receive_mcp_def by (auto intro!: gives_intros unit_intros)

lemma receive_as_ok: "unit_ok u \<Longrightarrow> 0 \<le> dev \<Longrightarrow> dev < 20 \<Longrightarrow> i16 v \<Longrightarrow> gives (receive_as dev v u) unit_ok"
  unfolding receive_as_def by (auto intro!: gives_intros unit_intros)

lemma dec_i16_range: "i16 (dec_i16 bs)"
  by (simp add: dec_i16_def)

lemma decode_ok: "unit_ok u \<Longrightarrow> gives (decode_message t msg u) unit_ok"
  unfolding decode_message_def Let_def
  by (auto intro!: receive_pin_ok receive_mcp_ok receive_as_ok dec_i16_range unit_intros dest: unit_okD(1))

lemma which_teensy_range: "which_teensy msg us < int (length us)"
proof -
  have "fold (\<lambda>i te. if sent_by msg (us ! i) then int i else te) is t < int (length us)"
    if "\<forall>i \<in> set is. i < length us" "t < int (length us)" for "is" t
    using that by (induction "is" arbitrary: t) auto
  from this [of "[0..<length us]" "- 1"] show ?thesis by (simp add: which_teensy_def)
qed

lemma take_message_ok:
  assumes "arr_ok 5 unit_ok us"
  shows "gives (take_message t msg us) (arr_ok 5 unit_ok)"
  using assms which_teensy_range [of msg us] arr_ok_length [OF assms] unfolding take_message_def Let_def
  by (auto intro!: gives_get [where Q = unit_ok and n = 5] gives_set [where Q = unit_ok and n = 5]
      gives_mono [OF decode_ok])

text \<open>The buffer: what is read from its front, and the rest that is moved to it.\<close>

lemma recv_teensy_ok:
  assumes "state_ok st"
  shows "gives (recv_teensy t st) state_ok"
proof (cases "udpReadLeft st \<ge> 16")
  case True
  let ?b = "udpRecvBuffer st"
  from True obtain m where m: "udpReadLeft st = 16 + int m" by (metis zle_iff_zadd)
  with assms have l: "length ?b = 12000" "16 + m \<le> 12000" "arr_ok 5 unit_ok (units st)"
    by (auto simp: state_ok_def)
  have w: "mem_write ?b 0 (take m (drop 16 ?b)) = Some (take m (drop 16 ?b) @ drop m ?b)"
    using l by (simp add: mem_write_def)
  show ?thesis using l
    by (auto simp: recv_teensy_def m mem_read_def w state_ok_def intro!: gives_mono [OF take_message_ok])
qed (use assms in \<open>simp add: recv_teensy_def\<close>)

lemma teensy_udp_receive_ok:
  assumes "state_ok st"
  shows "gives (udp_receive d st) state_ok"
  using assms by (auto simp: udp_receive_def Let_def state_ok_def mem_write_def)

section \<open>Sending\<close>

lemma sends_ok: "(\<And>k. k \<in> set ks \<Longrightarrow> gives (f k) anything) \<Longrightarrow> gives (sends ks f) anything"
  by (induction ks) auto

lemma each_teensy_ok:
  assumes "arr_ok n unit_ok us" and "\<And>u. unit_ok u \<Longrightarrow> gives (f u) (\<lambda>(u, ds). unit_ok u)"
  shows "gives (each_teensy f us) (\<lambda>(us, ds). arr_ok n unit_ok us)"
proof -
  have "gives (each_teensy f us) (\<lambda>(vs, ds). length vs = length us \<and> list_all unit_ok vs)"
    if "list_all unit_ok us" using that
  proof (induction us)
    case (Cons u us)
    then show ?case by (auto intro!: gives_mono [OF assms(2)] elim!: gives_mono)
  qed simp
  with assms(1) show ?thesis by (auto simp: arr_ok_def elim!: gives_mono)
qed

lemma over_teensys_ok:
  assumes "state_ok st" and "\<And>u. unit_ok u \<Longrightarrow> gives (f u) (\<lambda>(u, ds). unit_ok u)"
  shows "gives (over_teensys f st) (\<lambda>(st, ds). state_ok st)"
  using assms(1) unfolding over_teensys_def
  by (auto simp: state_ok_def intro!: gives_mono [OF each_teensy_ok [OF _ assms(2)]])

lemma send_parts_ok:
  assumes u: "unit_ok u"
  shows "k < 42 \<Longrightarrow> gives (send_pin u k) anything" "k < 20 \<Longrightarrow> gives (send_mcp u k) anything"
    "k < 20 \<Longrightarrow> gives (send_pca u k) anything" "k < 20 \<Longrightarrow> gives (send_ht u k) anything"
    "k < 20 \<Longrightarrow> gives (send_pga u k) anything"
  using u unfolding send_pin_def send_mcp_def send_pca_def send_ht_def send_pga_def
  by (auto intro!: gives_intros sends_ok)

lemma send_program_ok: "unit_ok u \<Longrightarrow> k < 5 \<Longrightarrow> gives (send_program u k) anything"
  unfolding send_program_def program_changed_def program_message_def
  by (auto intro!: gives_intros gives_for_each [where I = anything])

lemma send_unit_ok: "unit_ok u \<Longrightarrow> gives (send_unit u) anything"
  unfolding send_unit_def
  by (auto intro!: gives_mono [OF sends_ok] send_parts_ok send_program_ok)

lemma send_teensy_ok:
  assumes "state_ok st"
  shows "gives (send_teensy st) anything"
  using assms unfolding send_teensy_def
  by (intro sends_ok send_unit_ok) (auto simp: state_ok_def arr_ok_def list_all_iff)

lemma init_pin_ok: "unit_ok u \<Longrightarrow> k < 42 \<Longrightarrow> gives (init_pin u k) anything"
  unfolding init_pin_def Let_def by (auto intro!: gives_intros)

lemma init_parts_ok:
  assumes u: "unit_ok u"
  shows "k < 20 \<Longrightarrow> gives (init_mcp u k) anything"
    "k < 20 \<Longrightarrow> gives (init_pca u k) anything" "k < 20 \<Longrightarrow> gives (init_as u k) anything"
    "k < 20 \<Longrightarrow> gives (init_ht u k) anything" "k < 20 \<Longrightarrow> gives (init_pga u k) anything"
    "k < 5 \<Longrightarrow> gives (init_program u k) anything"
  using u unfolding init_mcp_def init_pca_def init_as_def init_ht_def init_pga_def init_program_def
    program_message_def
  by (auto intro!: gives_intros sends_ok)

lemma init_unit_ok: "unit_ok u \<Longrightarrow> gives (init_unit u) (\<lambda>(u, ds). unit_ok u)"
  unfolding init_unit_def Let_def
  by (auto intro!: gives_mono [OF sends_ok] init_pin_ok init_parts_ok unit_intros dest: unit_okD(1))

lemma init_teensy_ok: "state_ok st \<Longrightarrow> gives (init_teensy t st) (\<lambda>(st, ds). state_ok st)"
  unfolding init_teensy_def ping_teensy_def
  by (auto intro!: gives_mono [OF over_teensys_ok] init_unit_ok unit_intros
      simp: ping_unit_def Let_def dest: unit_okD(1))

end
