(* ===== verification/TeensySystem.thy ===== *)
theory TeensySystem
  imports TeensyTable
begin

text \<open>
  All calls of the \<open>xpteensy\<close> driver, from the settings of the ini file on: the datagrams that the receive
  thread appends, the functions that the main loop calls in each cycle, and those by which the panel
  programs read inputs, set outputs and choose the modes of the pins.
\<close>

section \<open>The start\<close>

lemma on_all_ok:
  assumes "arr_ok n P xs" and "\<And>j x. P x \<Longrightarrow> Q (f j x)"
  shows "arr_ok n Q (on_all f xs)"
  using assms by (auto simp: on_all_def arr_ok_def list_all_length)

lemma blank_ok: "arr_ok n P xs \<Longrightarrow> Q v \<Longrightarrow> arr_ok n Q (blank v xs)"
  by (auto simp: blank_def intro: arr_ok_const arr_ok_length)

lemma blank_rows_ok: "arr_ok n (arr_ok m P) xss \<Longrightarrow> Q v \<Longrightarrow> arr_ok n (arr_ok m Q) (map (blank v) xss)"
  by (auto intro: arr_ok_map blank_ok)

lemmas range_simps = within_def here_def

lemma ini_chips_ok:
  "mcp_ok m \<Longrightarrow> mcp_ok (ini_mcp t n j m)" "pca_ok c \<Longrightarrow> pca_ok (ini_pca n j c)"
  "pcf_ok p \<Longrightarrow> pcf_ok (ini_pcf n j p)" "as_ok a \<Longrightarrow> as_ok (ini_as n j a)" "ht_ok h \<Longrightarrow> ht_ok (ini_ht n j h)"
  "pga_ok g \<Longrightarrow> pga_ok (ini_pga n j g)" "program_ok q \<Longrightarrow> program_ok (ini_program n j q)"
  by (auto simp: ini_mcp_def mcp_ok_def ini_pca_def pca_ok_def ini_pcf_def pcf_ok_def ini_as_def as_ok_def
      ini_ht_def ht_ok_def ini_pga_def pga_ok_def ini_program_def program_ok_def range_simps
      intro: blank_ok blank_rows_ok arr_ok_map)

lemma static_unit_ok: "unit_ok static_unit"
  by (simp add: unit_ok_def static_unit_def static_teensy_def teensy_ok_def program_ok_def mcp_ok_def pca_ok_def
      pcf_ok_def as_ok_def ht_ok_def pga_ok_def arr_ok_replicate within_def)

lemma ini_pins_ok:
  assumes "teensy_ok t" and "length i = 30" "terminated i"
  shows "teensy_ok (ini_pins now (t\<lparr>ip := i, port := p, mac := [m1, m2]\<rparr>))"
  using assms by (auto simp: teensy_ok_def ini_pins_def within_def intro: blank_ok blank_rows_ok arr_ok_map)

lemma teensy_started:
  assumes "teensy_ok t"
  shows "teensy_ok (t\<lparr>connected := 0\<rparr>)"
    and "teensy_ok (t\<lparr>connected := 1, online := 0, initialized := 0, ping_time := now\<rparr>)"
  using assms by (simp_all add: teensy_ok_def within_def)

lemma unit_started:
  assumes "unit_ok u" and "teensy_ok t"
  shows "unit_ok (u\<lparr>SPI_active := 0, teensy := t\<rparr>)"
    and "flag x \<Longrightarrow> unit_ok (u\<lparr>teensy := t,
      mcp23017 := on_all (ini_mcp now n2) (mcp23017 u), pca9685 := on_all (ini_pca n3) (pca9685 u),
      pcf8591 := on_all (ini_pcf n4) (pcf8591 u), as5048b := on_all (ini_as n5) (as5048b u),
      ht16k33 := on_all (ini_ht n6) (ht16k33 u), pga2311 := on_all (ini_pga n7) (pga2311 u),
      SPI_active := x, program := on_all (ini_program n1) (program u)\<rparr>)"
  using assms by (auto simp: unit_ok_def within_def intro: on_all_ok ini_chips_ok)

lemma ini_unit_ok:
  assumes "unit_ok u" and "ini_unit now s u = Some u'"
  shows "unit_ok u'"
proof -
  from assms(2) obtain i where i: "strcpy (ip (teensy u)) (s_address s) = Some i"
    by (auto simp: ini_unit_def split: Option.bind_splits)
  from assms(1) strcpy_result [OF i] have l: "length i = 30" "terminated i"
    by (simp_all add: unit_ok_def teensy_ok_def)
  define t where "t = ini_pins now ((teensy u)\<lparr>ip := i, port := s_port s,
    mac := [word_of_int (s_mac1 s), word_of_int (s_mac2 s)]\<rparr>)"
  from assms(1) l have "teensy_ok t" unfolding t_def by (simp add: unit_ok_def ini_pins_ok)
  note t = unit_started [OF assms(1) teensy_started(1) [OF this]]
    unit_started(2) [OF assms(1) teensy_started(2) [OF this]]
  from assms(2) show ?thesis
    unfolding ini_unit_def i Let_def bind.bind_lunit t_def [symmetric]
    by (cases "port t = 0") (auto intro!: t simp: within_def split: Option.bind_splits)
qed

lemma ini_units_ok:
  assumes "ini_units now ss us = Some us'" and "arr_ok n unit_ok us"
  shows "arr_ok n unit_ok us'"
proof -
  have "length us' = length us \<and> list_all unit_ok us'" if "list_all unit_ok us"
    using assms(1) that
    by (induction now ss us arbitrary: us' rule: ini_units.induct)
      (auto split: Option.bind_splits dest: ini_unit_ok)
  with assms(2) show ?thesis by (simp add: arr_ok_def)
qed

lemma start_teensy_ok: "start_teensy now ss = Some st \<Longrightarrow> state_ok st"
  by (auto simp: start_teensy_def state_ok_def split: Option.bind_splits
      dest!: ini_units_ok [OF _ arr_ok_replicate [of unit_ok, OF static_unit_ok]])

section \<open>All calls\<close>

text \<open>
  \<open>Configure te u\<close> stands for the assignments by which the panel programs set the pin modes, the
  addresses of the chips and the parameters of the programs of a Teensy.
\<close>

datatype teensy_call =
    Datagram mem
  | Receive "int \<times> int"
  | InitTeensys "int \<times> int"
  | SendTeensys
  | EndOfCycle
  | Configure int teensy_unit
  | Switch int int int int "int option" int
  | SwitchF int int int int "fpval option" int
  | Angle int int int int "int option"
  | Potentiometer int int "fpval option" fpval fpval
  | Encoder int int int int int "int option" int int "int \<times> int" int
  | EncoderF int int int int int "fpval option" fpval int "int \<times> int" int
  | Lamp int int int int "int option"
  | LampF int int int int "fpval option"
  | Display int int int int int "int option" int int
  | DisplayF int int int int int "fpval option" int int
  | Pwm int int int int "fpval option" fpval fpval
  | Servo int int int int "fpval option" fpval fpval fpval fpval
  | Motor int int int int "fpval option" fpval fpval int
  | Volume int int int int "fpval option" fpval fpval
  | ClosedLoop int int int "fpval option" fpval fpval

definition configure :: "int \<Rightarrow> teensy_unit \<Rightarrow> teensy_state \<Rightarrow> teensy_state option" where
  "configure te u st = map_option (\<lambda>us. st\<lparr>units := us\<rparr>) (arr_set (units st) te u)"

text \<open>The state after a call.\<close>

fun run_call :: "teensy_call \<Rightarrow> teensy_state \<Rightarrow> teensy_state option" where
  "run_call (Datagram d) st = udp_receive d st"
| "run_call (Receive t) st = recv_teensy t st"
| "run_call (InitTeensys t) st = map_option fst (init_teensy t st)"
| "run_call SendTeensys st = map_option (\<lambda>_. st) (send_teensy st)"
| "run_call EndOfCycle st = reset_teensydata st"
| "run_call (Configure te u) st = configure te u st"
| "run_call (Switch te ty d p v it) st = map_option (snd \<circ> snd) (digital_input te ty d p v it st)"
| "run_call (SwitchF te ty d p v it) st = map_option (snd \<circ> snd) (digital_inputf te ty d p v it st)"
| "run_call (Angle te ty d it v) st = map_option (snd \<circ> snd) (angle_input te ty d it v st)"
| "run_call (Potentiometer te p v lo hi) st = map_option (snd \<circ> snd) (analog_input te p v lo hi st)"
| "run_call (Encoder te ty d p q v m et t vb) st =
     map_option (snd \<circ> snd) (encoder_input te ty d p q v m et t vb st)"
| "run_call (EncoderF te ty d p q v m et t vb) st =
     map_option (snd \<circ> snd) (encoder_inputf te ty d p q v m et t vb st)"
| "run_call (Lamp te ty d p v) st = map_option (snd \<circ> snd) (digital_output te ty d p v st)"
| "run_call (LampF te ty d p v) st = map_option snd (digital_outputf te ty d p v st)"
| "run_call (Display te ty d p n v dp b) st = map_option (snd \<circ> snd) (display_output te ty d p n v dp b st)"
| "run_call (DisplayF te ty d p n v dp b) st = map_option snd (display_outputf te ty d p n v dp b st)"
| "run_call (Pwm te ty d p v lo hi) st = map_option (snd \<circ> snd) (pwm_output te ty d p v lo hi st)"
| "run_call (Servo te ty d p v lo hi a b) st =
     map_option (snd \<circ> snd) (servo_output te ty d p v lo hi a b st)"
| "run_call (Motor te ty d p v lo hi b) st = map_option (snd \<circ> snd) (motor_output te ty d p v lo hi b st)"
| "run_call (Volume te ty d c v lo hi) st = map_option (snd \<circ> snd) (volume_output te ty d c v lo hi st)"
| "run_call (ClosedLoop te p act v lo hi) st =
     map_option (snd \<circ> snd) (program_closedloop te p act v lo hi st)"

text \<open>
  What the code asks of its callers: no negative number of a Teensy (and of an angle sensor), no range
  of digits beyond the largest \<open>int\<close>, no \<open>NULL\<close> for the wrappers that dereference their pointer, and values
  within their types in what the panel programs assign.
\<close>

fun safe_call :: "teensy_call \<Rightarrow> bool" where
  "safe_call (Configure te u) \<longleftrightarrow> 0 \<le> te \<and> te < int MAXTEENSYS \<and> unit_ok u"
| "safe_call (Switch te ty d p v it) \<longleftrightarrow> 0 \<le> te"
| "safe_call (SwitchF te ty d p v it) \<longleftrightarrow> 0 \<le> te \<and> v \<noteq> None"
| "safe_call (Angle te ty d it v) \<longleftrightarrow> 0 \<le> te \<and> 0 \<le> d"
| "safe_call (Potentiometer te p v lo hi) \<longleftrightarrow> 0 \<le> te"
| "safe_call (Encoder te ty d p q v m et t vb) \<longleftrightarrow> 0 \<le> te \<and> v \<noteq> None"
| "safe_call (EncoderF te ty d p q v m et t vb) \<longleftrightarrow> 0 \<le> te"
| "safe_call (Lamp te ty d p v) \<longleftrightarrow> 0 \<le> te"
| "safe_call (LampF te ty d p v) \<longleftrightarrow> 0 \<le> te \<and> v \<noteq> None"
| "safe_call (Display te ty d p n v dp b) \<longleftrightarrow> 0 \<le> te \<and> p + n < 2147483648"
| "safe_call (DisplayF te ty d p n v dp b) \<longleftrightarrow> 0 \<le> te \<and> p + n < 2147483648 \<and> v \<noteq> None"
| "safe_call (Pwm te ty d p v lo hi) \<longleftrightarrow> 0 \<le> te"
| "safe_call (Servo te ty d p v lo hi a b) \<longleftrightarrow> 0 \<le> te"
| "safe_call (Motor te ty d p v lo hi b) \<longleftrightarrow> 0 \<le> te"
| "safe_call (Volume te ty d c v lo hi) \<longleftrightarrow> 0 \<le> te"
| "safe_call (ClosedLoop te p act v lo hi) \<longleftrightarrow> 0 \<le> te"
| "safe_call _ \<longleftrightarrow> True"

text \<open>The frame that the access functions share.\<close>

abbreviation (input) good :: "int \<times> 'v \<times> teensy_state \<Rightarrow> bool" where
  "good \<equiv> \<lambda>(retval, v, st). state_ok st"

abbreviation (input) good_value :: "int \<times> 'v option \<times> teensy_state \<Rightarrow> bool" where
  "good_value \<equiv> \<lambda>(retval, v, st). state_ok st \<and> (\<exists>w. v = Some w)"

lemma on_teensy_ok:
  assumes "state_ok st" and "0 \<le> te" and "\<And>u. unit_ok u \<Longrightarrow> keeps (body u)"
  shows "gives (on_teensy te body v st) good"
  using assms unfolding on_teensy_def state_ok_def keeps_def
  by (auto intro!: gives_get [where Q = unit_ok and n = 5] gives_set [where Q = unit_ok and n = 5]
      gives_mono [OF assms(3) [unfolded keeps_def]])

lemma with_value_ok:
  assumes "state_ok st" and "\<And>v. gives (call v st) good"
  shows "gives (with_value x call st) good" and "gives (with_value (Some w) call st) good_value"
  using assms(1) unfolding with_value_def by (auto split: option.split intro!: gives_mono [OF assms(2)])

lemma with_number_ok:
  assumes "state_ok st" and "0 \<le> te" and "\<And>f u. unit_ok u \<Longrightarrow> keeps (body f u)"
  shows "gives (with_number x body te st) good"
  unfolding with_number_def by (rule with_value_ok(1)) (use assms in \<open>auto intro: on_teensy_ok\<close>)

lemma keeps_refused [simp]: "unit_ok u \<Longrightarrow> keeps (Some (r, v, u))"
  by (simp add: keeps_def)

lemma teensy_access_ok:
  assumes st: "state_ok st" and te: "0 \<le> te"
  shows "gives (digital_input te ty d p v it st) good"
    and "gives (digital_input te ty d p (Some w) it st) good_value"
    and "0 \<le> d \<Longrightarrow> gives (angle_input te ty d it v st) good"
    and "gives (analog_input te p f lo hi st) good"
    and "gives (encoder_inputf te ty d p q f m et t vb st) good"
    and "gives (encoder_inputf te ty d p q (Some g) m et t vb st) good_value"
    and "gives (digital_output te ty d p v st) good"
    and "p + n < 2147483648 \<Longrightarrow> gives (display_output te ty d p n v dp b st) good"
  unfolding digital_input_def angle_input_def analog_input_def encoder_inputf_def digital_output_def
    display_output_def
  by (auto intro!: with_value_ok [OF st] on_teensy_ok [OF st te] st input_ok angle_ok analog_ok encoder_ok
      output_ok display_ok)

lemma number_ok:
  assumes st: "state_ok st" and te: "0 \<le> te"
  shows "gives (pwm_output te ty d p f lo hi st) good"
    and "gives (servo_output te ty d p f lo hi a b st) good"
    and "gives (motor_output te ty d p f lo hi brake st) good"
    and "gives (volume_output te ty d p f lo hi st) good"
    and "gives (program_closedloop te p active f lo hi st) good"
  unfolding pwm_output_def servo_output_def motor_output_def volume_output_def program_closedloop_def
  by (auto intro!: with_number_ok [OF st te] with_value_ok [OF st] on_teensy_ok [OF st te] st pwm_ok
      volume_ok loop_ok simp: Let_def)

text \<open>The wrappers that dereference their pointer.\<close>

lemma teensy_wrapper_ok:
  assumes st: "state_ok st" and te: "0 \<le> te"
  shows "gives (digital_inputf te ty d p (Some f) it st) good"
    and "gives (encoder_input te ty d p q (Some v) x et t vb st) good"
    and "gives (digital_outputf te ty d p (Some f) st) (\<lambda>(r, st). state_ok st)"
    and "p + n < 2147483648 \<Longrightarrow>
      gives (display_outputf te ty d p n (Some f) dp b st) (\<lambda>(r, st). state_ok st)"
  unfolding digital_inputf_def encoder_input_def digital_outputf_def display_outputf_def Let_def
  by (auto intro!: gives_mono [OF teensy_access_ok(2) [OF st te]] gives_mono [OF teensy_access_ok(6) [OF st te]]
      gives_mono [OF teensy_access_ok(7) [OF st te]] gives_mono [OF teensy_access_ok(8) [OF st te]] simp del: if_split)

lemma configure_ok: "state_ok st \<Longrightarrow> unit_ok u \<Longrightarrow> 0 \<le> te \<Longrightarrow> te < 5 \<Longrightarrow> gives (configure te u st) state_ok"
  unfolding configure_def state_ok_def
  by (auto intro: gives_set [where Q = unit_ok and n = 5])

lemma given: "gives r P \<Longrightarrow> (\<And>x. P x \<Longrightarrow> Q (h x)) \<Longrightarrow> gives (map_option h r) Q"
  by (auto elim: gives_mono)

lemma teensy_run_call_ok:
  assumes st: "state_ok st" and safe: "safe_call k"
  shows "gives (run_call k st) state_ok"
  using safe
  by (cases k)
    (auto intro!: teensy_udp_receive_ok [OF st] recv_teensy_ok [OF st] gives_mono [OF init_teensy_ok [OF st]]
      gives_mono [OF send_teensy_ok [OF st]] reset_ok [OF st] configure_ok [OF st]
      gives_mono [OF teensy_access_ok(1) [OF st]] gives_mono [OF teensy_access_ok(3) [OF st]]
      gives_mono [OF teensy_access_ok(4) [OF st]] gives_mono [OF teensy_access_ok(5) [OF st]]
      gives_mono [OF teensy_access_ok(7) [OF st]] gives_mono [OF teensy_access_ok(8) [OF st]]
      gives_mono [OF number_ok(1) [OF st]] gives_mono [OF number_ok(2) [OF st]]
      gives_mono [OF number_ok(3) [OF st]] gives_mono [OF number_ok(4) [OF st]]
      gives_mono [OF number_ok(5) [OF st]] gives_mono [OF teensy_wrapper_ok(1) [OF st]]
      gives_mono [OF teensy_wrapper_ok(2) [OF st]] gives_mono [OF teensy_wrapper_ok(3) [OF st]]
      gives_mono [OF teensy_wrapper_ok(4) [OF st]] st)

text \<open>The states that the program can reach.\<close>

inductive teensy_reachable :: "teensy_state \<Rightarrow> bool" where
  start: "start_teensy now settings = Some st \<Longrightarrow> teensy_reachable st"
| call: "teensy_reachable st \<Longrightarrow> safe_call k \<Longrightarrow> run_call k st = Some st' \<Longrightarrow> teensy_reachable st'"

text \<open>C31: whatever the ini file and the Teensys say, and whatever the main loop and the panel programs
  call in whatever order, the tables of the driver stay well-formed (the sizes of all arrays, every
  value within its integer type, the flags 0 or 1, the addresses terminated), and every call that keeps
  to its preconditions returns without leaving an array.\<close>

theorem teensy_always_well_formed:
  assumes "teensy_reachable st"
  shows "state_ok st \<and> (\<forall>k. safe_call k \<longrightarrow> run_call k st \<noteq> None)"
proof -
  from assms have "state_ok st"
  proof induction
    case (start now settings st)
    then show ?case by (rule start_teensy_ok)
  next
    case (call st k st')
    with teensy_run_call_ok [of st k] show ?case by simp
  qed
  with teensy_run_call_ok show ?thesis by (fastforce simp: gives_def)
qed

end
