(* ===== verification/WxrData.thy ===== *)
theory WxrData
  imports Floats Arrays
begin

text \<open>
  \<open>libxpcockpit/src/xplanewxr.c\<close>: the UDP connection that carries the weather radar data of
  X-Plane, its buffers, and the thread that fills the receive buffer.

  The datagrams that \<open>sendto\<close> hands to the socket are the list \<open>wxr_sent\<close>. The receive thread is
  a step of its own between the calls of the main program: the code copies a datagram into the
  receive buffer, and takes data out of it, under a lock. Fresh memory has arbitrary contents (\<open>junk\<close>).
\<close>

record wxr =
  wxrServerIP :: mem
  wxrServerPort :: int
  wxrSendBuffer :: ptr
  wxrRecvBuffer :: ptr
  wxrSendBufferLen :: int
  wxrRecvBufferLen :: int
  wxrReadLeft :: int
  wxr_is_xp12 :: int
  wxr_poll_thread_exit_code :: int
  wxr_poll_buffer :: mem
  wxr_sent :: "mem list"

section \<open>Buffers and thread\<close>

definition allocate_wxrdata :: "int \<Rightarrow> int \<Rightarrow> mem \<Rightarrow> mem \<Rightarrow> 'a wxr_scheme \<Rightarrow> 'a wxr_scheme" where
  "allocate_wxrdata sendlen recvlen junk1 junk2 st =
     st\<lparr>wxrSendBufferLen := sendlen, wxrRecvBufferLen := recvlen,
        wxrSendBuffer := Some (take (nat sendlen) junk1), wxrRecvBuffer := Some (take (nat recvlen) junk2)\<rparr>"

definition deallocate_wxrdata :: "'a wxr_scheme \<Rightarrow> 'a wxr_scheme" where
  "deallocate_wxrdata st = st\<lparr>wxrSendBuffer := None, wxrRecvBuffer := None\<rparr>"

text \<open>\<open>init_wxr_receive\<close> starts the thread, whose local buffer is as long as the receive buffer.\<close>

definition init_wxr_receive :: "mem \<Rightarrow> 'a wxr_scheme \<Rightarrow> 'a wxr_scheme" where
  "init_wxr_receive junk st =
     st\<lparr>wxr_poll_thread_exit_code := 0, wxr_poll_buffer := take (nat (wxrRecvBufferLen st)) junk\<rparr>"

text \<open>\<open>exit_wxr_server\<close> and \<open>exit_wxr_client\<close>: the thread ends, the socket is closed.\<close>

definition exit_wxr_socket :: "'a wxr_scheme \<Rightarrow> 'a wxr_scheme" where
  "exit_wxr_socket st = st\<lparr>wxr_poll_thread_exit_code := 1\<rparr>"

section \<open>The receive thread\<close>

definition is_wxr :: "mem \<Rightarrow> bool option" where
  "is_wxr buffer =
     do {
       x \<leftarrow> strneq 4 buffer (chars ''xRAD'' @ [0]);
       if x then Some True else strneq 4 buffer (chars ''RADR'' @ [0])
     }"

text \<open>One turn of the loop, for a datagram; time-outs and errors of \<open>recvfrom\<close> do nothing.\<close>

definition wxr_poll :: "mem \<Rightarrow> 'a wxr_scheme \<Rightarrow> 'a wxr_scheme option" where
  "wxr_poll data st =
     (if wxr_poll_thread_exit_code st \<noteq> 0 then Some st
      else do {
        let msg = take (nat (wxrRecvBufferLen st)) data;
        let ret = int (length msg);
        buffer \<leftarrow> mem_write (wxr_poll_buffer st) 0 msg;
        let st = st\<lparr>wxr_poll_buffer := buffer\<rparr>;
        if ret > 0 \<and> ret \<le> wxrRecvBufferLen st then
          do {
            radar \<leftarrow> is_wxr buffer;
            if radar then
              do {
                let st = st\<lparr>wxr_is_xp12 := (if (ret - 5) sdiv 13 * 13 = ret - 5 then 0 else 1)\<rparr>;
                if ret \<le> wxrRecvBufferLen st - wxrReadLeft st then
                  do {
                    b \<leftarrow> wxrRecvBuffer st;
                    v \<leftarrow> mem_read buffer 0 (nat ret);
                    b \<leftarrow> mem_write b (wxrReadLeft st) v;
                    Some (st\<lparr>wxrRecvBuffer := Some b, wxrReadLeft := wxrReadLeft st + ret\<rparr>)
                  }
                else Some st
              }
            else Some st
          }
        else Some st
      })"

section \<open>Sending\<close>

definition send_wxr_to_server :: "'a wxr_scheme \<Rightarrow> 'a wxr_scheme option" where
  "send_wxr_to_server st =
     do {
       b \<leftarrow> wxrSendBuffer st;
       v \<leftarrow> mem_read b 0 (nat (wxrSendBufferLen st));
       Some (st\<lparr>wxr_sent := wxr_sent st @ [v]\<rparr>)
     }"

section \<open>The radar picture: arithmetic and arrays\<close>

text \<open>
  \<open>libxpcockpit/src/wxrdata.c\<close>: the weather radar picture. X-Plane sends radar points in scans, from
  south to north and, in every latitude, from west to east. A first scan tells the bounds of the
  picture (phase 0), the next one is collected (phase 1); when it starts over again, the picture
  is enlarged by \<open>WXR_UPSCALE\<close> and handed to the display.

  A two-dimensional array is a list of rows, or \<open>NULL\<close>. \<open>heap n\<close> says whether a request of
  \<open>n\<close> bytes is granted. The cosine of the C library is an argument (\<open>cosine\<close>); so is the time of
  day. The arithmetic of the code is done in \<open>float\<close> and \<open>double\<close>, one rounding per operation.
\<close>

abbreviation (input) MAXRADAR :: nat where "MAXRADAR \<equiv> 100"
abbreviation (input) WXR_UPSCALE :: int where "WXR_UPSCALE \<equiv> 5"
abbreviation (input) WXR_MISS :: fpval where "WXR_MISS \<equiv> Fin (- 9999) 0"

type_synonym grid = "int list list"

record radar = wxr +
  wxr_lonmin_tmp :: fpval
  wxr_lonmax_tmp :: fpval
  wxr_latmin_tmp :: fpval
  wxr_latmax_tmp :: fpval
  wxr_pixperlon_tmp :: int
  wxr_pixperlat_tmp :: int
  wxr_ncol_tmp :: int
  wxr_nlin_tmp :: int
  wxr_data_tmp :: "grid option"
  wxr_height_tmp :: "grid option"
  wxr_type :: int
  wxr_lonmin :: fpval
  wxr_lonmax :: fpval
  wxr_latmin :: fpval
  wxr_latmax :: fpval
  wxr_pixperlon :: int
  wxr_pixperlat :: int
  wxr_ncol :: int
  wxr_nlin :: int
  wxr_phase :: int
  wxr_initialized :: int
  wxr_data :: "grid option"
  wxr_height :: "grid option"
  wxr_newdata :: int
  wxr_firstread :: int
  wxr_firstsend :: int
  wxr_t1 :: "int \<times> int"

section \<open>Arithmetic\<close>

text \<open>\<open>float\<close> and \<open>double\<close> operations; a \<open>float\<close> is a \<open>double\<close> without a change of its value.\<close>

abbreviation (input) f32 :: "int \<Rightarrow> fpval" where "f32 n \<equiv> fp_of_int 23 8 n"
abbreviation (input) f64 :: "int \<Rightarrow> fpval" where "f64 n \<equiv> fp_of_int 52 11 n"
abbreviation (input) addf :: "fpval \<Rightarrow> fpval \<Rightarrow> fpval" where "addf \<equiv> fp_add 23 8"
abbreviation (input) subf :: "fpval \<Rightarrow> fpval \<Rightarrow> fpval" where "subf \<equiv> fp_sub 23 8"
abbreviation (input) mulf :: "fpval \<Rightarrow> fpval \<Rightarrow> fpval" where "mulf \<equiv> fp_mul 23 8"
abbreviation (input) divf :: "fpval \<Rightarrow> fpval \<Rightarrow> fpval" where "divf \<equiv> fp_div 23 8"
abbreviation (input) addd :: "fpval \<Rightarrow> fpval \<Rightarrow> fpval" where "addd \<equiv> fp_add 52 11"
abbreviation (input) subd :: "fpval \<Rightarrow> fpval \<Rightarrow> fpval" where "subd \<equiv> fp_sub 52 11"
abbreviation (input) muld :: "fpval \<Rightarrow> fpval \<Rightarrow> fpval" where "muld \<equiv> fp_mul 52 11"
abbreviation (input) divd :: "fpval \<Rightarrow> fpval \<Rightarrow> fpval" where "divd \<equiv> fp_div 52 11"
abbreviation (input) to_float :: "fpval \<Rightarrow> fpval" where "to_float \<equiv> fp_to 23 8"

definition to_uchar :: "int \<Rightarrow> int" where
  "to_uchar x = x mod 256"

definition fp_zero :: "fpval \<Rightarrow> bool" where
  "fp_zero v \<longleftrightarrow> fp_eq v (Fin 0 0)"

text \<open>\<open>(int) ceil(x)\<close>.\<close>

definition fp_ceil :: "fpval \<Rightarrow> int" where
  "fp_ceil v =
     (case v of
        Fin m e \<Rightarrow> (let r = (if 0 \<le> e then m * 2 ^ nat e else - (- m div 2 ^ nat (- e)))
                   in if in_i32 r then r else - 2147483648)
      | _ \<Rightarrow> - 2147483648)"

text \<open>The constants 0.9, 3.28 and 3.1415/180.0 as doubles.\<close>

definition d_09 :: fpval where "d_09 = Fin 8106479329266893 (- 53)"
definition d_328 :: fpval where "d_328 = Fin 7385903388887613 (- 51)"
definition d_deg :: fpval where "d_deg = Fin 5030420703781125 (- 58)"

section \<open>Arrays\<close>

definition grid_get :: "grid \<Rightarrow> int \<Rightarrow> int \<Rightarrow> int option" where
  "grid_get g j i = do { row \<leftarrow> arr_get g j; arr_get row i }"

definition grid_set :: "int \<Rightarrow> int \<Rightarrow> int \<Rightarrow> grid \<Rightarrow> grid option" where
  "grid_set j i v g =
     do {
       row \<leftarrow> arr_get g j;
       row \<leftarrow> arr_set row i v;
       arr_set g j row
     }"

text \<open>
  An array of pointers and its rows, with elements of \<open>width\<close> bytes that are all set afterwards. The
  pointers are only used if there are rows, and a row only if it has columns.
\<close>

definition alloc_grid :: "(int \<Rightarrow> bool) \<Rightarrow> int \<Rightarrow> int \<Rightarrow> int \<Rightarrow> grid option option" where
  "alloc_grid heap width nlin ncol =
     (if nlin \<le> 0 then Some (if heap (to_size (nlin * 8)) then Some [] else None)
      else if \<not> heap (to_size (nlin * 8)) then None
      else if ncol > 0 \<and> \<not> heap (to_size (ncol * width)) then None
      else Some (Some (replicate (nat nlin) (replicate (nat ncol) 0))))"

text \<open>
  The loop that frees the rows reads the pointers of all rows; \<open>free_grid\<close> does so only if the
  array is not \<open>NULL\<close>.
\<close>

definition free_rows :: "int \<Rightarrow> grid option \<Rightarrow> unit option" where
  "free_rows nlin g =
     (if nlin \<le> 0 then Some ()
      else do { rows \<leftarrow> g; if nlin \<le> int (length rows) then Some () else None })"

definition free_grid :: "int \<Rightarrow> grid option \<Rightarrow> unit option" where
  "free_grid nlin g =
     (case g of None \<Rightarrow> Some () | Some rows \<Rightarrow> free_rows nlin g)"

section \<open>Interpolation\<close>

text \<open>The loops over the new picture: every pixel is set to what \<open>pixel\<close> computes.\<close>

definition fill_grid :: "(int \<Rightarrow> int \<Rightarrow> int option) \<Rightarrow> int \<Rightarrow> int \<Rightarrow> grid \<Rightarrow> grid option" where
  "fill_grid pixel newWidth newHeight =
     for_each [0..<nat newHeight] (\<lambda>j. for_each [0..<nat newWidth] (\<lambda>i newData.
       do { v \<leftarrow> pixel (int j) (int i); grid_set (int j) (int i) v newData }))"

text \<open>\<open>(float)(width-1)/newWidth\<close>.\<close>

definition scale :: "int \<Rightarrow> int \<Rightarrow> fpval" where
  "scale width newWidth = divf (f32 (width - 1)) (f32 newWidth)"

definition nearest_pixel :: "grid \<Rightarrow> fpval \<Rightarrow> fpval \<Rightarrow> int \<Rightarrow> int \<Rightarrow> int option" where
  "nearest_pixel data tx ty j i =
     grid_get data (fp_ceil (mulf ty (f32 j))) (fp_ceil (mulf tx (f32 i)))"

definition nearest_uchar :: "grid \<Rightarrow> grid \<Rightarrow> int \<Rightarrow> int \<Rightarrow> int \<Rightarrow> int \<Rightarrow> grid option" where
  "nearest_uchar data newData width height newWidth newHeight =
     fill_grid (nearest_pixel data (scale width newWidth) (scale height newHeight))
       newWidth newHeight newData"

definition nearest_int :: "grid \<Rightarrow> grid \<Rightarrow> int \<Rightarrow> int \<Rightarrow> int \<Rightarrow> int \<Rightarrow> grid option" where
  "nearest_int data newData width height newWidth newHeight =
     fill_grid (nearest_pixel data (scale width newWidth) (scale height newHeight))
       newWidth newHeight newData"

text \<open>
  The weighted sum of the four neighbours, before it is converted to the type of the pixel. The
  products with \<open>1.0-\<dots>\<close> are \<open>double\<close>, the others \<open>float\<close>.
\<close>

definition bilinear_sum :: "int \<Rightarrow> int \<Rightarrow> int \<Rightarrow> int \<Rightarrow> fpval \<Rightarrow> fpval \<Rightarrow> fpval" where
  "bilinear_sum a b c d x_diff y_diff =
     (let x1 = subd (f64 1) x_diff; y1 = subd (f64 1) y_diff
      in addd (addd (addd
           (muld (muld (f32 a) x1) y1)
           (muld (muld (f32 b) y1) x_diff))
           (muld (mulf (f32 c) y_diff) x1))
           (mulf (mulf (f32 d) y_diff) x_diff))"

definition bilinear_pixel :: "grid \<Rightarrow> fpval \<Rightarrow> fpval \<Rightarrow> int \<Rightarrow> int \<Rightarrow> fpval option" where
  "bilinear_pixel data tx ty j i =
     do {
       let x = fp_trunc (mulf tx (f32 i));
       let y = fp_trunc (mulf ty (f32 j));
       let x_diff = subf (mulf tx (f32 i)) (f32 x);
       let y_diff = subf (mulf ty (f32 j)) (f32 y);
       a \<leftarrow> grid_get data y x;
       b \<leftarrow> grid_get data y (x + 1);
       c \<leftarrow> grid_get data (y + 1) x;
       d \<leftarrow> grid_get data (y + 1) (x + 1);
       Some (bilinear_sum a b c d x_diff y_diff)
     }"

definition bilinear_uchar :: "grid \<Rightarrow> grid \<Rightarrow> int \<Rightarrow> int \<Rightarrow> int \<Rightarrow> int \<Rightarrow> grid option" where
  "bilinear_uchar data newData width height newWidth newHeight =
     (let tx = scale width newWidth; ty = scale height newHeight
      in fill_grid (\<lambda>j i. map_option (\<lambda>v. to_uchar (fp_trunc v)) (bilinear_pixel data tx ty j i))
           newWidth newHeight newData)"

definition bilinear_int :: "grid \<Rightarrow> grid \<Rightarrow> int \<Rightarrow> int \<Rightarrow> int \<Rightarrow> int \<Rightarrow> grid option" where
  "bilinear_int data newData width height newWidth newHeight =
     (let tx = scale width newWidth; ty = scale height newHeight
      in fill_grid (\<lambda>j i. map_option fp_trunc (bilinear_pixel data tx ty j i))
           newWidth newHeight newData)"

text \<open>
  The cubic through four values, of which the second is \<open>a0\<close> and the others are given by their
  differences to it: the coefficients are computed in \<open>double\<close> and stored as \<open>float\<close>.
\<close>

definition cubic :: "fpval \<Rightarrow> fpval \<Rightarrow> fpval \<Rightarrow> fpval \<Rightarrow> fpval \<Rightarrow> fpval" where
  "cubic a0 d0 d2 d3 dx =
     (let third = divd (f64 (- 1)) (f64 3); sixth = divd (f64 1) (f64 6);
          msixth = divd (f64 (- 1)) (f64 6); half = divd (f64 1) (f64 2);
          a1 = to_float (subd (addd (muld third d0) d2) (muld sixth d3));
          a2 = to_float (addd (muld half d0) (muld half d2));
          a3 = to_float (addd (subd (muld msixth d0) (muld half d2)) (muld sixth d3))
      in addf (addf (addf a0 (mulf a1 dx)) (mulf (mulf a2 dx) dx)) (mulf (mulf (mulf a3 dx) dx) dx))"

definition bicubic_row :: "grid \<Rightarrow> int \<Rightarrow> int \<Rightarrow> int \<Rightarrow> int \<Rightarrow> fpval \<Rightarrow> int \<Rightarrow> fpval option" where
  "bicubic_row data width height x y dx jj =
     do {
       let r = min (max (y - 1 + jj) 0) (height - 1);
       v0 \<leftarrow> grid_get data r x;
       vm \<leftarrow> grid_get data r (max (x - 1) 0);
       v1 \<leftarrow> grid_get data r (min (x + 1) (width - 1));
       v2 \<leftarrow> grid_get data r (min (x + 2) (width - 1));
       let a0 = f32 v0;
       Some (cubic a0 (subf (f32 vm) a0) (subf (f32 v1) a0) (subf (f32 v2) a0) dx)
     }"

definition bicubic_pixel :: "grid \<Rightarrow> int \<Rightarrow> int \<Rightarrow> fpval \<Rightarrow> fpval \<Rightarrow> int \<Rightarrow> int \<Rightarrow> fpval option" where
  "bicubic_pixel data width height tx ty j i =
     do {
       let x = fp_trunc (mulf tx (f32 i));
       let y = fp_trunc (mulf ty (f32 j));
       let dx = subf (mulf tx (f32 i)) (f32 x);
       let dy = subf (mulf ty (f32 j)) (f32 y);
       c0 \<leftarrow> bicubic_row data width height x y dx 0;
       c1 \<leftarrow> bicubic_row data width height x y dx 1;
       c2 \<leftarrow> bicubic_row data width height x y dx 2;
       c3 \<leftarrow> bicubic_row data width height x y dx 3;
       Some (cubic c1 (subf c0 c1) (subf c2 c1) (subf c3 c1) dy)
     }"

definition clamp_uchar :: "fpval \<Rightarrow> int" where
  "clamp_uchar v =
     (let c = (if fp_trunc v > 255 then f32 255 else v);
          c = (if fp_trunc c < 0 then f32 0 else c)
      in to_uchar (fp_trunc c))"

definition bicubic_uchar :: "grid \<Rightarrow> grid \<Rightarrow> int \<Rightarrow> int \<Rightarrow> int \<Rightarrow> int \<Rightarrow> grid option" where
  "bicubic_uchar data newData width height newWidth newHeight =
     (let tx = scale width newWidth; ty = scale height newHeight
      in fill_grid (\<lambda>j i. map_option clamp_uchar (bicubic_pixel data width height tx ty j i))
           newWidth newHeight newData)"

definition bicubic_int :: "grid \<Rightarrow> grid \<Rightarrow> int \<Rightarrow> int \<Rightarrow> int \<Rightarrow> int \<Rightarrow> grid option" where
  "bicubic_int data newData width height newWidth newHeight =
     (let tx = scale width newWidth; ty = scale height newHeight
      in fill_grid (\<lambda>j i. map_option fp_trunc (bicubic_pixel data width height tx ty j i))
           newWidth newHeight newData)"

end
