(* ===== verification/WxrFloat.thy ===== *)
theory WxrFloat
  imports WxrData Complex_Main
begin

text \<open>
  What the radar picture needs of floating point arithmetic: the real value of a finite number,
  that rounding never crosses a number of the format, and so bounds on the results of the
  operations. Rounding upwards by at most \<open>2 powi - s\<close> is all the error analysis that is needed.
\<close>

section \<open>Rounding does not cross representable numbers\<close>

lemma bitlength_upper: "0 \<le> n \<Longrightarrow> n < 2 ^ nat (bitlength n)"
proof (induction n rule: bitlength.induct)
  case (1 n)
  show ?case
  proof (cases "n = 0")
    case False
    with 1 have n: "0 < n" "n div 2 < 2 ^ nat (bitlength (n div 2))" by simp_all
    have nn: "0 \<le> bitlength k" for k by (induction k rule: bitlength.induct) (subst bitlength.simps, simp)
    from n(1) nn [of "n div 2"] have "nat (bitlength n) = Suc (nat (bitlength (n div 2)))"
      by (subst bitlength.simps) (simp add: nat_add_distrib)
    with n show ?thesis by simp
  qed (simp add: bitlength.simps)
qed

lemma bitlength_nonneg [simp]: "0 \<le> bitlength k"
  by (induction k rule: bitlength.induct) (subst bitlength.simps, simp)

lemma bitlength_lower: "0 < n \<Longrightarrow> 2 ^ nat (bitlength n - 1) \<le> n"
proof (induction n rule: bitlength.induct)
  case (1 n)
  show ?case
  proof (cases "n = 1")
    case True
    then show ?thesis by (subst bitlength.simps) (simp add: bitlength.simps)
  next
    case False
    with 1 have n: "1 < n" "2 ^ nat (bitlength (n div 2) - 1) \<le> n div 2" by simp_all
    then have "n div 2 \<ge> 1" by simp
    then have "bitlength (n div 2) \<ge> 1" by (subst bitlength.simps) simp
    moreover from n(1) have "bitlength n = 1 + bitlength (n div 2)" by (subst bitlength.simps) simp
    ultimately have "nat (bitlength n - 1) = Suc (nat (bitlength (n div 2) - 1))" by simp
    with n show ?thesis by simp
  qed
qed

definition val :: "int \<Rightarrow> int \<Rightarrow> real" where
  "val m e = real_of_int m * 2 powi e"

lemma val_0 [simp]: "val 0 e = 0" "val m 0 = m"
  by (simp_all add: val_def)

lemma powi_pos [simp]: "0 < (2 :: real) powi e"
  by (simp add: zero_less_power_int)

lemma powi_not_le [simp]: "\<not> (2 :: real) powi e \<le> 0"
  by (simp add: not_le)

lemma val_nonneg [simp]: "0 \<le> val m e \<longleftrightarrow> 0 \<le> m"
  by (auto simp: val_def zero_le_mult_iff)

lemma val_shift: "val (m * 2 ^ k) e = val m (e + int k)"
  by (simp add: val_def power_int_add)

lemma val_mult: "val (m * n) (e + f) = val m e * val n f"
  by (simp add: val_def power_int_add)

lemma val_le_iff: "val m e \<le> val n e \<longleftrightarrow> m \<le> n"
  by (simp add: val_def)

lemma val_less_iff: "val m e < val n e \<longleftrightarrow> m < n"
  by (simp add: val_def)

lemma powi_le: "(2 :: real) powi a < 2 powi b \<Longrightarrow> a < b"
  by (metis linorder_not_less one_le_numeral power_int_increasing)

lemma div_rne_le: "0 \<le> m \<Longrightarrow> m \<le> c * 2 ^ k \<Longrightarrow> div_rne m k \<le> c"
proof -
  assume m: "0 \<le> m" "m \<le> c * 2 ^ k"
  then have "m div 2 ^ k \<le> c * 2 ^ k div 2 ^ k" by (intro zdiv_mono1) simp_all
  then have "m div 2 ^ k \<le> c" by simp
  then consider "m div 2 ^ k < c" | "m div 2 ^ k = c" by linarith
  then show "div_rne m k \<le> c"
  proof cases
    case 2
    with m(2) have "m mod 2 ^ k \<le> 0" using div_mult_mod_eq [of m "2 ^ k"] by simp
    moreover have "0 \<le> m mod 2 ^ k" by (rule pos_mod_sign) simp
    ultimately have "m mod 2 ^ k = 0" by (rule antisym)
    with 2 show ?thesis by (simp add: div_rne_def Let_def)
  qed (simp add: div_rne_def Let_def)
qed

lemma div_rne_nonneg: "0 \<le> m \<Longrightarrow> 0 \<le> div_rne m k"
  by (auto simp: div_rne_def Let_def pos_imp_zdiv_nonneg_iff)


lemma fp_round_le:
  assumes m: "0 \<le> m" "val m e \<le> val n f" and n: "0 \<le> n" "n < 2 ^ (mb + 1)"
    and f: "2 - 2 ^ (eb - 1) - int mb \<le> f" and range: "val n f < 2 powi (2 ^ (eb - 1))"
  shows "\<exists>a g. fp_round mb eb m e = Fin a g \<and> 0 \<le> a \<and> val a g \<le> val n f"
proof -
  define k where "k = max (bitlength \<bar>m\<bar> - int (mb + 1)) (1 - (2 ^ (eb - 1) - 1) - int mb - e)"
  define a where "a = (if k \<le> 0 then \<bar>m\<bar> else div_rne \<bar>m\<bar> (nat k))"
  define g where "g = (if k \<le> 0 then e else e + k)"
  have bound: "0 \<le> a \<and> val a g \<le> val n f"
  proof (cases "k \<le> 0 \<or> m = 0")
    case True
    then show ?thesis using m n by (auto simp: a_def g_def div_rne_def val_def)
  next
    case False
    have "e + k \<le> f"
    proof (cases "k = 1 - (2 ^ (eb - 1) - 1) - int mb - e")
      case True
      with f show ?thesis by simp
    next
      case False
      with k_def have k: "k = bitlength m - int (mb + 1)" using m by (simp add: max_def split: if_splits)
      have "0 < k" using \<open>\<not> (k \<le> 0 \<or> m = 0)\<close> by simp
      with k have "bitlength m - 1 = int (mb + nat k)" by simp
      then have "nat (bitlength m - 1) = mb + nat k" by (simp only: nat_int)
      with bitlength_lower [of m] m \<open>\<not> (k \<le> 0 \<or> m = 0)\<close> have "2 ^ (mb + nat k) \<le> m" by simp
      then have "val (2 ^ (mb + nat k)) e \<le> val m e" by (simp add: val_le_iff)
      also note m(2)
      also have "val n f < val (2 ^ (mb + 1)) f" using n(2) by (simp only: val_less_iff)
      finally have "(2 :: real) powi (int mb + k + e) < 2 powi (int mb + 1 + f)"
        using \<open>\<not> (k \<le> 0 \<or> m = 0)\<close> val_shift [of 1 "mb + nat k" e] val_shift [of 1 "mb + 1" f]
        by (simp add: val_def algebra_simps)
      from powi_le [OF this] show ?thesis by simp
    qed
    then have c: "val n f = val (n * 2 ^ nat (f - (e + k))) (e + k)" by (simp add: val_shift)
    have "val m e \<le> val (n * 2 ^ nat (f - (e + k)) * 2 ^ nat k) e"
      using m(2) c False by (simp add: val_shift)
    then have "div_rne m (nat k) \<le> n * 2 ^ nat (f - (e + k))"
      using m(1) by (intro div_rne_le) (simp_all add: val_le_iff)
    with c m(1) False show ?thesis by (simp add: a_def g_def val_le_iff div_rne_nonneg)
  qed
  have "\<not> (0 \<le> g \<and> 2 ^ nat (2 ^ (eb - 1) - 1 + 1) \<le> a * 2 ^ nat g)"
  proof
    assume "0 \<le> g \<and> 2 ^ nat (2 ^ (eb - 1) - 1 + 1) \<le> a * 2 ^ nat g"
    then have "val (2 ^ nat (2 ^ (eb - 1))) 0 \<le> val (a * 2 ^ nat g) 0" by (simp only: val_le_iff) simp
    then have "2 powi (2 ^ (eb - 1)) \<le> val a g"
      using \<open>0 \<le> g \<and> _\<close> val_shift [of a "nat g" 0] by (simp add: power_int_def)
    with bound range show False by simp
  qed
  then have "fp_round mb eb m e = Fin (sgn m * a) g"
    unfolding fp_round_def Let_def k_def [symmetric] a_def [symmetric] g_def [symmetric]
    by (simp only: if_False)
  moreover have "0 \<le> sgn m * a \<and> val (sgn m * a) g \<le> val n f"
    using bound m n by (cases "m = 0") (simp_all add: val_def)
  ultimately show ?thesis by blast
qed


section \<open>Exact values and results of operations\<close>

text \<open>\<open>v\<close> is finite, not negative, and its value is \<open>r\<close>.\<close>

definition fp_is :: "fpval \<Rightarrow> real \<Rightarrow> bool" where
  "fp_is v r \<longleftrightarrow> (\<exists>m e. v = Fin m e \<and> 0 \<le> m \<and> val m e = r)"

lemma fp_is_Fin [simp]: "fp_is (Fin m e) r \<longleftrightarrow> 0 \<le> m \<and> val m e = r"
  by (auto simp: fp_is_def)

lemma fp_is_nonneg: "fp_is v r \<Longrightarrow> 0 \<le> r"
  by (auto simp: fp_is_def)

text \<open>\<open>(int) v\<close> is the floor.\<close>

lemma floor_val:
  assumes "0 \<le> m"
  shows "\<lfloor>val m e\<rfloor> = (if 0 \<le> e then m * 2 ^ nat e else m div 2 ^ nat (- e))"
proof (cases "0 \<le> e")
  case True
  then have "val m e = of_int (m * 2 ^ nat e)" by (simp add: val_def power_int_def)
  with True show ?thesis by (simp only: floor_of_int if_True)
next
  case False
  then have "val m e = of_int m / of_int (2 ^ nat (- e))"
    by (simp add: val_def power_int_def field_simps)
  with False show ?thesis by (simp only: floor_divide_of_int_eq if_False)
qed

lemma fp_trunc_floor:
  assumes "fp_is v r" and "r < 2147483648"
  shows "fp_trunc v = \<lfloor>r\<rfloor>"
proof -
  from assms(1) obtain m e where v: "v = Fin m e" "0 \<le> m" "val m e = r" by (auto simp: fp_is_def)
  have "0 \<le> \<lfloor>r\<rfloor>" "\<lfloor>r\<rfloor> < 2147483648"
    using v assms(2) by (auto simp: floor_less_iff)
  then have "in_i32 \<lfloor>r\<rfloor>" by (simp add: in_i32_def)
  moreover have "(if 0 \<le> e then m * 2 ^ nat e else sgn m * (\<bar>m\<bar> div 2 ^ nat (- e))) = \<lfloor>r\<rfloor>"
    using v floor_val [of m e] by (cases "m = 0") simp_all
  ultimately show ?thesis using v(1) by (simp add: fp_trunc_def Let_def)
qed

text \<open>Rounding adds at most one unit of the last place that the format has for the range.\<close>

lemma fp_round_up:
  assumes m: "0 \<le> m" "val m e \<le> r" and s: "(r + 1) * 2 ^ s \<le> 2 ^ mb"
    and fmt: "int s + 2 \<le> 2 ^ (eb - 1)" "int mb + 1 \<le> 2 ^ (eb - 1)"
  shows "\<exists>u. fp_is (fp_round mb eb m e) u \<and> u \<le> val m e + 1 / 2 ^ s"
proof -
  define n where "n = \<lceil>val m e * 2 ^ s\<rceil>"
  have v: "val n (- int s) = of_int n / 2 ^ s" by (simp add: val_def power_int_minus field_simps)
  have up: "val m e * 2 ^ s \<le> of_int n" "of_int n < val m e * 2 ^ s + 1"
    unfolding n_def by linarith+
  have one: "1 \<le> (2 :: real) ^ s" by simp
  from m have le: "val m e * 2 ^ s \<le> r * 2 ^ s" by (simp add: mult_right_mono)
  have "real_of_int n \<le> (r + 1) * 2 ^ s"
    using up(2) le one unfolding distrib_right by linarith
  also note s
  finally have n: "n \<le> 2 ^ mb" by (simp flip: of_int_le_iff)
  have "0 \<le> val m e * 2 ^ s" using m(1) by simp
  then have n0: "0 \<le> n" unfolding n_def by simp
  have "val n (- int s) \<le> of_int n"
    unfolding v using n0 one by (simp add: divide_le_eq mult_le_cancel_left1)
  also have "\<dots> \<le> 2 powi int mb" using n by (simp flip: of_int_le_iff)
  also have "\<dots> < 2 powi (2 ^ (eb - 1))" by (rule power_int_strict_increasing) (use fmt(2) in linarith, simp)
  finally have range: "val n (- int s) < 2 powi (2 ^ (eb - 1))" .
  have "val m e \<le> val n (- int s)" using up(1) by (simp add: v field_simps)
  moreover have "n < 2 ^ (mb + 1)"
    using le_less_trans [OF n power_strict_increasing [of mb "mb + 1" "2 :: int"]] by simp
  moreover have "2 - 2 ^ (eb - 1) - int mb \<le> - int s" using fmt(1) by linarith
  ultimately obtain a g where
    "fp_round mb eb m e = Fin a g" "0 \<le> a" "val a g \<le> val n (- int s)"
    using fp_round_le [OF m(1) _ n0 _ _ range] by blast
  moreover have "val n (- int s) \<le> val m e + 1 / 2 ^ s" using up(2) by (simp add: v field_simps)
  ultimately show ?thesis by auto
qed

text \<open>The two formats: \<open>float\<close> up to 511 and \<open>double\<close> up to 2000.\<close>

lemma round32: "0 \<le> m \<Longrightarrow> val m e \<le> 511 \<Longrightarrow> \<exists>u. fp_is (fp_round 23 8 m e) u \<and> u \<le> val m e + 1 / 2 ^ 14"
  by (rule fp_round_up [where r = 511]) simp_all

lemma round64: "0 \<le> m \<Longrightarrow> val m e \<le> 2000 \<Longrightarrow> \<exists>u. fp_is (fp_round 52 11 m e) u \<and> u \<le> val m e + 1 / 2 ^ 40"
  by (rule fp_round_up [where r = 2000]) simp_all

text \<open>The exact value that is rounded.\<close>

lemma mul_value:
  assumes "fp_is a r" and "fp_is b t"
  shows "\<exists>k g. fp_mul mb eb a b = fp_round mb eb k g \<and> 0 \<le> k \<and> val k g = r * t"
proof -
  from assms obtain m e n f where "a = Fin m e" "0 \<le> m" "val m e = r"
    "b = Fin n f" "0 \<le> n" "val n f = t" by (auto simp: fp_is_def)
  then show ?thesis by (intro exI [of _ "m * n"] exI [of _ "e + f"]) (simp add: val_mult)
qed

lemma val_align: "g \<le> e \<Longrightarrow> val (m * 2 ^ nat (e - g)) g = val m e"
  by (simp add: val_shift)

lemma fin_le_val: "fin_le m e n f \<longleftrightarrow> val m e \<le> val n f"
proof -
  have "val m e = val (m * 2 ^ nat (e - min e f)) (min e f)"
    and "val n f = val (n * 2 ^ nat (f - min e f)) (min e f)" by (simp_all add: val_align)
  then show ?thesis by (simp add: fin_le_def val_le_iff)
qed

lemma val_add: "val (m + n) e = val m e + val n e"
  by (simp add: val_def algebra_simps)

lemma val_minus: "val (- m) e = - val m e"
  by (simp add: val_def)

lemma add_value:
  assumes "fp_is a r" and "fp_is b t"
  shows "\<exists>k g. fp_add mb eb a b = fp_round mb eb k g \<and> 0 \<le> k \<and> val k g = r + t"
proof -
  from assms(1,2) obtain m e n f where v: "a = Fin m e" "0 \<le> m" "val m e = r"
    "b = Fin n f" "0 \<le> n" "val n f = t" by (auto simp: fp_is_def)
  let ?g = "min e f" let ?s = "m * 2 ^ nat (e - ?g) + n * 2 ^ nat (f - ?g)"
  have "val ?s ?g = r + t" using v by (simp only: val_add val_align min.cobounded1 min.cobounded2)
  with v show ?thesis by (intro exI [of _ ?s] exI [of _ ?g]) (simp add: Let_def)
qed

lemma diff_value:
  assumes "fp_is a r" and "fp_is b t" and "t \<le> r"
  shows "\<exists>k g. fp_sub mb eb a b = fp_round mb eb k g \<and> 0 \<le> k \<and> val k g = r - t"
proof -
  from assms(1,2) obtain m e n f where v: "a = Fin m e" "0 \<le> m" "val m e = r"
    "b = Fin n f" "0 \<le> n" "val n f = t" by (auto simp: fp_is_def)
  let ?g = "min e f" let ?s = "m * 2 ^ nat (e - ?g) + (- n) * 2 ^ nat (f - ?g)"
  have d: "val ?s ?g = r - t"
    using v by (simp only: val_add val_align min.cobounded1 min.cobounded2 val_minus)
  with assms(3) have "0 \<le> ?s" using val_nonneg [of ?s ?g] by simp
  with v d show ?thesis by (intro exI [of _ ?s] exI [of _ ?g]) (simp add: fp_sub_def Let_def)
qed

lemma mulf_is:
  assumes "fp_is a r" and "fp_is b t" and "r * t \<le> 511"
  shows "\<exists>u. fp_is (mulf a b) u \<and> u \<le> r * t + 1 / 2 ^ 14"
  using mul_value [OF assms(1,2)] assms(3) round32 by metis

lemma muld_is:
  assumes "fp_is a r" and "fp_is b t" and "r * t \<le> 2000"
  shows "\<exists>u. fp_is (muld a b) u \<and> u \<le> r * t + 1 / 2 ^ 40"
  using mul_value [OF assms(1,2)] assms(3) round64 by metis

lemma addd_is:
  assumes "fp_is a r" and "fp_is b t" and "r + t \<le> 2000"
  shows "\<exists>u. fp_is (addd a b) u \<and> u \<le> r + t + 1 / 2 ^ 40"
  using add_value [OF assms(1,2)] assms(3) round64 by metis

lemma subd_is:
  assumes "fp_is a r" and "fp_is b t" and "t \<le> r" and "r - t \<le> 2000"
  shows "\<exists>u. fp_is (subd a b) u \<and> u \<le> r - t + 1 / 2 ^ 40"
  using diff_value [OF assms(1-3)] assms(4) round64 by metis

text \<open>A difference of at most 1 does not round to more than 1.\<close>

lemma subf_is_1:
  assumes "fp_is a r" and "fp_is b t" and "t \<le> r" and "r \<le> t + 1"
  shows "\<exists>u. fp_is (subf a b) u \<and> u \<le> 1"
proof -
  from diff_value [OF assms(1-3), of 23 8] obtain k g where
    k: "subf a b = fp_round 23 8 k g" "0 \<le> k" "val k g = r - t" by blast
  have "val 1 0 < 2 powi 128" by (simp add: power_int_def)
  with fp_round_le [of k g 1 0 23 8] k assms(4) show ?thesis by auto
qed

lemma f32_is: "0 \<le> n \<Longrightarrow> n < 2 ^ 24 \<Longrightarrow> fp_is (f32 n) (of_int n)"
  by (simp add: fp_of_int_exact)

end
