(* ===== verification/TeensyRange.thy ===== *)
theory TeensyRange
  imports WxrFloat TeensyAccess
begin

text \<open>
  The ranges of the values that the driver computes for actuators: whatever the value, the range and
  the position are, infinite or not a number included, the result is one that the hardware accepts.
\<close>

section \<open>Rounding from below\<close>

lemma div_rne_ge:
  assumes "c * 2 ^ k \<le> m"
  shows "c \<le> div_rne m k"
proof -
  from assms have "c * 2 ^ k div 2 ^ k \<le> m div 2 ^ k" by (intro zdiv_mono1) simp_all
  then have "c \<le> m div 2 ^ k" by simp
  then show ?thesis by (auto simp: div_rne_def Let_def)
qed

text \<open>Rounding never takes a value below a number of the format.\<close>

lemma fp_round_ge:
  assumes m: "0 \<le> m" "WxrFloat.val n f \<le> WxrFloat.val m e" and n: "0 \<le> n" "n < 2 ^ (mb + 1)"
    and f: "2 - 2 ^ (eb - 1) - int mb \<le> f" and r: "fp_round mb eb m e = Fin a g"
  shows "WxrFloat.val n f \<le> WxrFloat.val a g"
proof (cases "m = 0")
  case True
  with m n val_le_iff [of n f 0] have "n = 0" by simp
  with True r show ?thesis
    by (auto simp: fp_round_def Let_def div_rne_def split: if_splits)
next
  case False
  with m(1) have m0: "0 < m" by simp
  define k where "k = max (bitlength \<bar>m\<bar> - int (mb + 1)) (1 - (2 ^ (eb - 1) - 1) - int mb - e)"
  have r': "a = (if k \<le> 0 then m else div_rne m (nat k))" "g = (if k \<le> 0 then e else e + k)"
  proof -
    define a' where "a' = (if k \<le> 0 then \<bar>m\<bar> else div_rne \<bar>m\<bar> (nat k))"
    define g' where "g' = (if k \<le> 0 then e else e + k)"
    from r have "sgn m * a' = a" "g' = g"
      unfolding fp_round_def Let_def k_def [symmetric] a'_def [symmetric] g'_def [symmetric]
      by (simp_all only: split: if_splits) (simp_all only: fpval.simps)
    with m0 show "a = (if k \<le> 0 then m else div_rne m (nat k))" "g = (if k \<le> 0 then e else e + k)"
      by (simp_all add: a'_def g'_def)
  qed
  show ?thesis
  proof (cases "k \<le> 0")
    case True
    with m(2) r' show ?thesis by simp
  next
    case pos: False
    show ?thesis
    proof (cases "e + k \<le> f")
      case True
      then have c: "WxrFloat.val n f = WxrFloat.val (n * 2 ^ nat (f - (e + k))) (e + k)" by (simp add: val_shift)
      then have "WxrFloat.val (n * 2 ^ nat (f - (e + k)) * 2 ^ nat k) e \<le> WxrFloat.val m e"
        using m(2) pos by (simp add: val_shift)
      then have "n * 2 ^ nat (f - (e + k)) \<le> div_rne m (nat k)" by (intro div_rne_ge) (simp add: val_le_iff)
      with c pos r' show ?thesis by (simp add: val_le_iff)
    next
      case False
      with f have k: "k = bitlength m - int (mb + 1)" using m0 by (auto simp: k_def max_def split: if_splits)
      with pos have "nat (bitlength m - 1) = mb + nat k" by (simp add: nat_eq_iff)
      with bitlength_lower [OF m0] have "2 ^ mb * 2 ^ nat k \<le> m" by (simp add: power_add)
      then have "2 ^ mb \<le> div_rne m (nat k)" by (rule div_rne_ge)
      have "WxrFloat.val n f \<le> WxrFloat.val (2 ^ (mb + 1)) f" using n(2) by (simp add: val_le_iff)
      also have "\<dots> = 2 powi (int mb + 1 + f)"
        using val_shift [of 1 "mb + 1" f] by (simp only: WxrFloat.val_def mult_1 of_int_1 of_nat_add of_nat_1 ac_simps)
      also have "\<dots> \<le> 2 powi (int mb + (e + k))" using False by (intro power_int_increasing) simp_all
      also have "\<dots> = WxrFloat.val (2 ^ mb) (e + k)"
        using val_shift [of 1 mb "e + k"] by (simp only: WxrFloat.val_def mult_1 of_int_1 ac_simps)
      also have "\<dots> \<le> WxrFloat.val a g" using \<open>2 ^ mb \<le> _\<close> pos r' by (simp add: val_le_iff)
      finally show ?thesis .
    qed
  qed
qed

section \<open>The values of actuators\<close>

text \<open>A finite number between two integers.\<close>

definition fp_between :: "int \<Rightarrow> int \<Rightarrow> fpval \<Rightarrow> bool" where
  "fp_between lo hi v \<longleftrightarrow> (\<exists>m e. v = Fin m e \<and> of_int lo \<le> WxrFloat.val m e \<and> WxrFloat.val m e \<le> of_int hi)"

lemma clamp01_between: "fp_between 0 1 (clamp01 x)"
  by (cases x)
    (auto simp: clamp01_def fp_max_def fp_min_def fp_less_def fin_le_val fp_between_def
      simp del: val_nonneg)

lemma round_between:
  assumes "0 \<le> lo" "of_int lo \<le> WxrFloat.val m e" "WxrFloat.val m e \<le> of_int hi" and "hi < 100000"
  shows "fp_between lo hi (fp_round 52 11 m e)"
proof -
  from assms have m: "0 \<le> m" by (metis of_int_0_le_iff order_trans val_nonneg)
  from assms have h: "0 \<le> hi" by (metis of_int_0_le_iff of_int_le_iff order_trans)
  have "real_of_int hi < 2 powi (2 ^ (11 - 1))"
  proof -
    have "real_of_int hi < 2 powi 20" using assms(4) by (simp add: power_int_def)
    also have "\<dots> \<le> 2 powi (2 ^ (11 - 1))" by (intro power_int_increasing) simp_all
    finally show ?thesis .
  qed
  with fp_round_le [of m e hi 0 52 11] m assms h obtain a g where
    r: "fp_round 52 11 m e = Fin a g" "WxrFloat.val a g \<le> of_int hi" by auto
  with fp_round_ge [OF m _ assms(1) _ _ r(1), of 0] assms h show ?thesis
    by (auto simp: fp_between_def)
qed

lemma trunc_between:
  assumes "fp_between lo hi v" and "0 \<le> lo" and "hi < 100000"
  shows "lo \<le> fp_trunc v \<and> fp_trunc v \<le> hi" and "- hi \<le> fp_trunc (fp_neg v) \<and> fp_trunc (fp_neg v) \<le> - lo"
proof -
  from assms(1) obtain m e where v: "v = Fin m e" "of_int lo \<le> WxrFloat.val m e" "WxrFloat.val m e \<le> of_int hi"
    by (auto simp: fp_between_def)
  with assms(2) have m: "0 \<le> m" by (metis of_int_0_le_iff order_trans val_nonneg)
  from v assms(3) have "fp_trunc v = \<lfloor>WxrFloat.val m e\<rfloor>"
    by (intro fp_trunc_floor) (use m in \<open>auto simp: fp_is_def\<close>)
  with v show b: "lo \<le> fp_trunc v \<and> fp_trunc v \<le> hi" by (auto simp: le_floor_iff floor_le_iff)
  have "fp_trunc (fp_neg v) = - fp_trunc v"
  proof -
    let ?r = "if 0 \<le> e then m * 2 ^ nat e else m div 2 ^ nat (- e)"
    have f: "\<lfloor>WxrFloat.val m e\<rfloor> = ?r" by (rule floor_val [OF m])
    have s: "sgn m * (m div k) = m div k" for k using m by (cases "m = 0") simp_all
    have t: "fp_trunc (Fin (- m) e) = (if in_i32 (- ?r) then - ?r else - 2147483648)"
      using m s by (cases "0 \<le> e"; cases "m = 0") (simp_all add: fp_trunc_def Let_def)
    from b \<open>fp_trunc v = _\<close> assms(2,3) f have r: "fp_trunc v = ?r" "0 \<le> fp_trunc v" "fp_trunc v < 100000"
      by simp_all
    have "in_i32 (- fp_trunc v)" unfolding in_i32_def using r(2,3) by linarith
    then show ?thesis unfolding v(1) fp_neg.simps t r(1) [symmetric, unfolded v(1)] by simp
  qed
  with b show "- hi \<le> fp_trunc (fp_neg v) \<and> fp_trunc (fp_neg v) \<le> - lo" by simp
qed

lemma mul_between:
  assumes "fp_between 0 1 x" and "0 \<le> n" and "n < 100000"
  shows "fp_between 0 n (fp_mul 52 11 x (Fin n 0))"
proof -
  from assms(1) obtain m e where x: "x = Fin m e" "0 \<le> WxrFloat.val m e" "WxrFloat.val m e \<le> 1"
    by (auto simp: fp_between_def)
  have "WxrFloat.val (m * n) e = WxrFloat.val m e * of_int n" using val_mult [of m n e 0] by simp
  moreover have "WxrFloat.val m e * of_int n \<le> 1 * of_int n" using x(3) assms(2) by (intro mult_right_mono) simp_all
  ultimately show ?thesis using x assms(2,3) by (auto intro!: round_between)
qed

lemma add_between:
  assumes "fp_between 0 n x" and "0 \<le> k" and "n + k < 100000"
  shows "fp_between k (n + k) (fp_add 52 11 x (Fin k 0))"
proof -
  from assms(1) obtain m e where x: "x = Fin m e" "0 \<le> WxrFloat.val m e" "WxrFloat.val m e \<le> of_int n"
    by (auto simp: fp_between_def)
  let ?g = "min e 0"
  have "WxrFloat.val (m * 2 ^ nat (e - ?g) + k * 2 ^ nat (0 - ?g)) ?g = WxrFloat.val m e + WxrFloat.val k 0"
    by (simp only: val_add val_align min.cobounded1 min.cobounded2)
  with x assms(2,3) show ?thesis by (auto simp: Let_def intro!: round_between)
qed

lemmas scaled_between = trunc_between(1) [OF mul_between [OF clamp01_between]]
  trunc_between(2) [OF mul_between [OF clamp01_between]]
  trunc_between(1) [OF add_between [OF mul_between [OF clamp01_between]]]

text \<open>C32: whatever value and range the panel code gives, infinities and NaN included, what the driver
  computes is a value that the output takes: 8 bit PWM and volume 0 to 255, the 12 bit PWM of a PCA9685
  0 to 4095, a servo at the Teensy 0 to 180 degrees, one at a PCA9685 600 to 2400 microseconds, and a
  motor \<open>-255\<close> to 255 or 1000 for the brake, but never \<open>-1\<close>, which stands for no value.\<close>

theorem actuators_within_range:
  "0 \<le> pwm_value 255 f minval maxval \<and> pwm_value 255 f minval maxval \<le> 255 \<and>
   0 \<le> pwm_value 4095 f minval maxval \<and> pwm_value 4095 f minval maxval \<le> 4095 \<and>
   0 \<le> scale_to x (Fin (180 - 0) 0) (Fin 0 0) \<and> scale_to x (Fin (180 - 0) 0) (Fin 0 0) \<le> 180 \<and>
   600 \<le> scale_to x (Fin (2400 - 600) 0) (Fin 600 0) \<and>
   scale_to x (Fin (2400 - 600) 0) (Fin 600 0) \<le> 2400 \<and>
   motor_value f minval maxval brake \<in> {- 255 .. 255} \<union> {1000} - {INITVAL}"
  using scaled_between(1) [of 255 "position f minval maxval"]
    scaled_between(1) [of 4095 "position f minval maxval"]
    scaled_between(2) [of 255 "position (fp_neg f) minval maxval"]
    scaled_between(3) [of 180 0 x] scaled_between(3) [of 1800 600 x]
  by (auto simp: pwm_value_def scale_to_def motor_value_def Let_def)

end
