(* ===== verification/SismoSort.thy ===== *)
theory SismoSort
  imports Arrays "HOL-Library.Multiset"
begin

text \<open>
  The in-place quicksort of \<open>xpsismo/src/libsismo.c\<close>, which the median filter of the analog
  inputs uses.
\<close>

section \<open>Quicksort\<close>

definition swap_at :: "int list \<Rightarrow> int \<Rightarrow> int \<Rightarrow> int list option" where
  "swap_at arr a b =
     do {
       temp \<leftarrow> arr_get arr a;
       y \<leftarrow> arr_get arr b;
       arr \<leftarrow> arr_set arr a y;
       arr_set arr b temp
     }"

text \<open>The two inner loops of \<open>partition\<close>; each tests the element before the bound.\<close>

partial_function (option) scan_up :: "int list \<Rightarrow> int \<Rightarrow> int \<Rightarrow> int \<Rightarrow> int option" where
  "scan_up arr p high i =
     do {
       x \<leftarrow> arr_get arr i;
       if x \<le> p \<and> i \<le> high - 1 then scan_up arr p high (i + 1) else Some i
     }"

partial_function (option) scan_down :: "int list \<Rightarrow> int \<Rightarrow> int \<Rightarrow> int \<Rightarrow> int option" where
  "scan_down arr p low j =
     do {
       x \<leftarrow> arr_get arr j;
       if x > p \<and> j \<ge> low + 1 then scan_down arr p low (j - 1) else Some j
     }"

partial_function (option) partition_loop ::
  "int list \<Rightarrow> int \<Rightarrow> int \<Rightarrow> int \<Rightarrow> int \<Rightarrow> int \<Rightarrow> (int list \<times> int) option" where
  "partition_loop arr p low high i j =
     (if i < j then
        do {
          i \<leftarrow> scan_up arr p high i;
          j \<leftarrow> scan_down arr p low j;
          arr \<leftarrow> (if i < j then swap_at arr i j else Some arr);
          partition_loop arr p low high i j
        }
      else Some (arr, j))"

definition partition_at :: "int list \<Rightarrow> int \<Rightarrow> int \<Rightarrow> (int list \<times> int) option" where
  "partition_at arr low high =
     do {
       p \<leftarrow> arr_get arr low;
       (arr, j) \<leftarrow> partition_loop arr p low high low high;
       arr \<leftarrow> swap_at arr low j;
       Some (arr, j)
     }"

partial_function (option) quicksort :: "int list \<Rightarrow> int \<Rightarrow> int \<Rightarrow> int list option" where
  "quicksort arr low high =
     (if low < high then
        do {
          (arr, pi) \<leftarrow> partition_at arr low high;
          arr \<leftarrow> quicksort arr low (pi - 1);
          quicksort arr (pi + 1) high
        }
      else Some arr)"

section \<open>The sort sorts\<close>

text \<open>
  What one step of the sort may do to an array: permute the elements of a slice among
  themselves. The relation is closed under composition, so that the proofs below compose it.
\<close>

definition permuted :: "int \<Rightarrow> int \<Rightarrow> int list \<Rightarrow> int list \<Rightarrow> bool" where
  "permuted low high a b \<longleftrightarrow>
     0 \<le> low \<and> length b = length a \<and> mset b = mset a \<and>
     (\<forall>k \<ge> 0. k < low \<or> high < k \<longrightarrow> b ! nat k = a ! nat k) \<and>
     (\<forall>k. low \<le> k \<and> k \<le> high \<longrightarrow> (\<exists>l. low \<le> l \<and> l \<le> high \<and> b ! nat k = a ! nat l))"

lemma permuted_refl: "0 \<le> low \<Longrightarrow> permuted low high a a"
  by (auto simp: permuted_def)

lemma permuted_length: "permuted low high a b \<Longrightarrow> length b = length a"
  by (simp add: permuted_def)

lemma permuted_mset: "permuted low high a b \<Longrightarrow> mset b = mset a"
  by (simp add: permuted_def)

lemma permuted_outside:
  "permuted low high a b \<Longrightarrow> 0 \<le> k \<Longrightarrow> k < low \<or> high < k \<Longrightarrow> b ! nat k = a ! nat k"
  unfolding permuted_def by blast

lemma permuted_inside:
  assumes "permuted low high a b" and "low \<le> k" and "k \<le> high"
  obtains l where "low \<le> l" "l \<le> high" "b ! nat k = a ! nat l"
  using assms by (auto simp: permuted_def)

lemma permutedI:
  assumes "0 \<le> low" and "length b = length a" and "mset b = mset a"
    and "\<And>k. 0 \<le> k \<Longrightarrow> k < low \<or> high < k \<Longrightarrow> b ! nat k = a ! nat k"
    and "\<And>k. low \<le> k \<Longrightarrow> k \<le> high \<Longrightarrow> \<exists>l. low \<le> l \<and> l \<le> high \<and> b ! nat k = a ! nat l"
  shows "permuted low high a b"
  using assms by (simp add: permuted_def)

lemma permuted_trans:
  assumes ab: "permuted low high a b" and bc: "permuted low high b c"
  shows "permuted low high a c"
proof (rule permutedI)
  show "0 \<le> low" using ab by (simp add: permuted_def)
  show "c ! nat k = a ! nat k" if "0 \<le> k" "k < low \<or> high < k" for k
    using permuted_outside [OF ab that] permuted_outside [OF bc that] by simp
  show "\<exists>l. low \<le> l \<and> l \<le> high \<and> c ! nat k = a ! nat l" if k: "low \<le> k" "k \<le> high" for k
  proof -
    from permuted_inside [OF bc k] obtain l where l: "low \<le> l" "l \<le> high" "c ! nat k = b ! nat l" .
    from permuted_inside [OF ab l(1,2)] obtain l' where "low \<le> l'" "l' \<le> high" "b ! nat l = a ! nat l'" .
    with l(3) show ?thesis by (intro exI [of _ l']) simp
  qed
qed (use permuted_length [OF ab] permuted_length [OF bc] permuted_mset [OF ab] permuted_mset [OF bc]
    in simp_all)

lemma permuted_wider:
  assumes ab: "permuted low high a b" and "low' \<le> low" and "high \<le> high'" and "0 \<le> low'"
  shows "permuted low' high' a b"
proof (rule permutedI)
  show "b ! nat k = a ! nat k" if "0 \<le> k" "k < low' \<or> high' < k" for k
    using that assms(2,3) by (intro permuted_outside [OF ab]) auto
  show "\<exists>l. low' \<le> l \<and> l \<le> high' \<and> b ! nat k = a ! nat l" if k: "low' \<le> k" "k \<le> high'" for k
  proof (cases "low \<le> k \<and> k \<le> high")
    case True
    with permuted_inside [OF ab] obtain l where "low \<le> l" "l \<le> high" "b ! nat k = a ! nat l" by blast
    with assms(2,3) show ?thesis by (intro exI [of _ l]) simp
  next
    case False
    with k assms(4) have "b ! nat k = a ! nat k" by (intro permuted_outside [OF ab]) auto
    with k show ?thesis by auto
  qed
qed (use assms(4) permuted_length [OF ab] permuted_mset [OF ab] in simp_all)

lemma swap_at_in:
  assumes "0 \<le> i" "i < int (length a)" "0 \<le> j" "j < int (length a)"
  shows "swap_at a i j = Some (a[nat i := a ! nat j, nat j := a ! nat i])"
  using assms by (simp add: swap_at_def arr_simps)

lemma swap_nth:
  assumes "0 \<le> i" "i < int (length a)" "0 \<le> j" "j < int (length a)" "0 \<le> k"
  shows "a[nat i := a ! nat j, nat j := a ! nat i] ! nat k =
    a ! nat (if k = j then i else if k = i then j else k)"
  using assms by (auto simp: nth_list_update nat_eq_iff)

lemma swap_permuted:
  assumes "0 \<le> low" "low \<le> i" "i \<le> high" "low \<le> j" "j \<le> high" "high < int (length a)"
  shows "permuted low high a (a[nat i := a ! nat j, nat j := a ! nat i])"
proof (rule permutedI)
  show "mset (a[nat i := a ! nat j, nat j := a ! nat i]) = mset a"
    using assms by (intro mset_swap) auto
  show "a[nat i := a ! nat j, nat j := a ! nat i] ! nat k = a ! nat k"
    if "0 \<le> k" "k < low \<or> high < k" for k
    using that assms by (subst swap_nth) auto
  show "\<exists>l. low \<le> l \<and> l \<le> high \<and> a[nat i := a ! nat j, nat j := a ! nat i] ! nat k = a ! nat l"
    if "low \<le> k" "k \<le> high" for k
    using that assms
    by (intro exI [of _ "if k = j then i else if k = i then j else k"]) (subst swap_nth, auto)
qed (use assms in simp_all)

lemma scan_up_finds:
  assumes "0 \<le> i" and "i \<le> high" and "high < int (length a)"
  shows "\<exists>i'. scan_up a p high i = Some i' \<and> i \<le> i' \<and> i' \<le> high \<and>
    (\<forall>k. i \<le> k \<and> k < i' \<longrightarrow> a ! nat k \<le> p) \<and> (i' = high \<or> p < a ! nat i')"
  using assms
proof (induction "nat (high - i)" arbitrary: i rule: less_induct)
  case less
  show ?case
  proof (cases "a ! nat i \<le> p \<and> i \<le> high - 1")
    case True
    with less.prems have "nat (high - (i + 1)) < nat (high - i)" "0 \<le> i + 1" "i + 1 \<le> high" by auto
    from less.hyps [OF this less.prems(3)] obtain i' where
      *: "scan_up a p high (i + 1) = Some i'" "i + 1 \<le> i'" "i' \<le> high"
        "\<forall>k. i + 1 \<le> k \<and> k < i' \<longrightarrow> a ! nat k \<le> p" "i' = high \<or> p < a ! nat i'" by blast
    have "a ! nat k \<le> p" if "i \<le> k" "k < i'" for k
      using *(4) True that by (cases "k = i") simp_all
    with * True less.prems show ?thesis by (simp add: scan_up.simps [of a p high i] arr_simps)
  next
    case False
    with less.prems show ?thesis by (auto simp: scan_up.simps [of a p high i] arr_simps)
  qed
qed

lemma scan_down_finds:
  assumes "0 \<le> low" and "low \<le> j" and "j < int (length a)"
  shows "\<exists>j'. scan_down a p low j = Some j' \<and> low \<le> j' \<and> j' \<le> j \<and>
    (\<forall>k. j' < k \<and> k \<le> j \<longrightarrow> p < a ! nat k) \<and> (j' = low \<or> a ! nat j' \<le> p)"
  using assms
proof (induction "nat (j - low)" arbitrary: j rule: less_induct)
  case less
  show ?case
  proof (cases "p < a ! nat j \<and> low + 1 \<le> j")
    case True
    with less.prems have "nat (j - 1 - low) < nat (j - low)" "low \<le> j - 1" "j - 1 < int (length a)"
      by auto
    from less.hyps [OF this(1) less.prems(1) this(2,3)] obtain j' where
      *: "scan_down a p low (j - 1) = Some j'" "low \<le> j'" "j' \<le> j - 1"
        "\<forall>k. j' < k \<and> k \<le> j - 1 \<longrightarrow> p < a ! nat k" "j' = low \<or> a ! nat j' \<le> p" by blast
    have "p < a ! nat k" if "j' < k" "k \<le> j" for k
      using *(4) True that by (cases "k = j") simp_all
    with * True less.prems show ?thesis by (simp add: scan_down.simps [of a p low j] arr_simps)
  next
    case False
    with less.prems show ?thesis by (auto simp: scan_down.simps [of a p low j] arr_simps)
  qed
qed

text \<open>
  The loop of \<open>partition\<close>: elements below \<open>i\<close> are at most the pivot, elements above \<open>j\<close> are
  greater, and while the two have not met, the element at \<open>i\<close> is one of the small ones, so that
  the next scan moves on.
\<close>

definition split_ok :: "int list \<Rightarrow> int \<Rightarrow> int \<Rightarrow> int \<Rightarrow> int \<Rightarrow> int \<Rightarrow> bool" where
  "split_ok a p low high i j \<longleftrightarrow>
     0 \<le> low \<and> low \<le> i \<and> i \<le> high \<and> low \<le> j \<and> j \<le> high \<and> high < int (length a) \<and>
     a ! nat low = p \<and> (\<forall>k. low \<le> k \<and> k < i \<longrightarrow> a ! nat k \<le> p) \<and>
     (\<forall>k. j < k \<and> k \<le> high \<longrightarrow> p < a ! nat k)"

definition parted :: "int list \<Rightarrow> int \<Rightarrow> int \<Rightarrow> int \<Rightarrow> int \<Rightarrow> bool" where
  "parted a p low high j \<longleftrightarrow>
     low \<le> j \<and> j \<le> high \<and> (\<forall>k. low \<le> k \<and> k \<le> j \<longrightarrow> a ! nat k \<le> p) \<and>
     (\<forall>k. j < k \<and> k \<le> high \<longrightarrow> p < a ! nat k)"

lemma partition_loop_parts:
  assumes "split_ok a p low high i j" and "i < j" and "a ! nat i \<le> p"
  shows "\<exists>b j'. partition_loop a p low high i j = Some (b, j') \<and> permuted low high a b \<and>
    b ! nat low = p \<and> parted b p low high j'"
  using assms
proof (induction "nat (j - i)" arbitrary: a i j rule: less_induct)
  case less
  note s = less.prems(1) [unfolded split_ok_def]
  from s scan_up_finds [of i high a p] obtain i' where
    up: "scan_up a p high i = Some i'" "i \<le> i'" "i' \<le> high"
      "\<forall>k. i \<le> k \<and> k < i' \<longrightarrow> a ! nat k \<le> p" "i' = high \<or> p < a ! nat i'" by auto
  from s scan_down_finds [of low j a p] obtain j' where
    dn: "scan_down a p low j = Some j'" "low \<le> j'" "j' \<le> j"
      "\<forall>k. j' < k \<and> k \<le> j \<longrightarrow> p < a ! nat k" "a ! nat j' \<le> p" by auto
  have lo: "a ! nat k \<le> p" if "low \<le> k" "k < i'" for k
    using that s up(4) by (cases "k < i") auto
  have hi: "p < a ! nat k" if "j' < k" "k \<le> high" for k
    using that s dn(4) by (cases "k \<le> j") auto
  have "i' \<noteq> i" using less.prems(2,3) s up(5) by auto
  with up(2) have adv: "i < i'" by simp
  show ?case
  proof (cases "i' < j'")
    case False
    have "a ! nat k \<le> p" if "low \<le> k" "k \<le> j'" for k
      using that lo dn(5) False by (cases "k = j'") auto
    with hi dn s have "parted a p low high j'" by (simp add: parted_def)
    with False s up(1) dn(1) less.prems(2) show ?thesis
      by (auto simp: partition_loop.simps [of a p low high i j]
          partition_loop.simps [of a p low high i' j'] intro: permuted_refl)
  next
    case True
    let ?b = "a[nat i' := a ! nat j', nat j' := a ! nat i']"
    have nth: "?b ! nat k = a ! nat (if k = j' then i' else if k = i' then j' else k)" if "0 \<le> k" for k
      using that True s up(2,3) dn(2,3) by (intro swap_nth) auto
    have perm: "permuted low high a ?b"
      using True s up(2,3) dn(2,3) by (intro swap_permuted) auto
    have big: "p < a ! nat i'" using True up(5) dn(3) s by auto
    have "split_ok ?b p low high i' j'"
      using s up(2,3) dn(2,3) adv True lo hi big by (auto simp: split_ok_def nth)
    moreover have "?b ! nat i' \<le> p" using s up(2) True dn(5) by (simp add: nth)
    moreover have "nat (j' - i') < nat (j - i)" using adv dn(3) True by simp
    ultimately obtain b j'' where
      "partition_loop ?b p low high i' j' = Some (b, j'')" "permuted low high ?b b"
      "b ! nat low = p" "parted b p low high j''" using less.hyps True by blast
    moreover have "swap_at a i' j' = Some ?b"
      using True s up(2,3) dn(2,3) by (intro swap_at_in) auto
    ultimately show ?thesis
      using True up(1) dn(1) less.prems(2) permuted_trans [OF perm]
      by (auto simp: partition_loop.simps [of a p low high i j])
  qed
qed

text \<open>The elements of the slice \<open>low .. high\<close> are in order.\<close>

definition slice_sorted :: "int list \<Rightarrow> int \<Rightarrow> int \<Rightarrow> bool" where
  "slice_sorted a low high \<longleftrightarrow>
     (\<forall>k l. low \<le> k \<and> k \<le> l \<and> l \<le> high \<longrightarrow> a ! nat k \<le> a ! nat l)"

lemma partition_at_parts:
  assumes "0 \<le> low" and "low < high" and "high < int (length a)"
  shows "\<exists>b j. partition_at a low high = Some (b, j) \<and> permuted low high a b \<and>
    parted b (b ! nat j) low high j"
proof -
  let ?p = "a ! nat low"
  from assms have "split_ok a ?p low high low high" by (simp add: split_ok_def)
  from partition_loop_parts [OF this assms(2)] obtain b j where
    l: "partition_loop a ?p low high low high = Some (b, j)" "permuted low high a b"
      "b ! nat low = ?p" and pt: "parted b ?p low high j" by auto
  let ?c = "b[nat low := b ! nat j, nat j := b ! nat low]"
  from pt have j: "low \<le> j" "j \<le> high" by (simp_all add: parted_def)
  from assms permuted_length [OF l(2)] j have nth:
    "?c ! nat k = b ! nat (if k = j then low else if k = low then j else k)" if "0 \<le> k" for k
    using that by (intro swap_nth) auto
  have "swap_at b low j = Some ?c"
    using assms permuted_length [OF l(2)] j by (intro swap_at_in) auto
  moreover have "permuted low high b ?c"
    using assms permuted_length [OF l(2)] j by (intro swap_permuted) auto
  moreover have "?c ! nat j = ?p" using nth [of j] j assms(1) l(3) by simp
  moreover have "parted ?c ?p low high j"
    unfolding parted_def
  proof (intro conjI allI impI)
    fix k assume k: "low \<le> k \<and> k \<le> j"
    with assms(1) nth [of k] pt l(3) j show "?c ! nat k \<le> ?p" by (simp add: parted_def)
  next
    fix k assume k: "j < k \<and> k \<le> high"
    with assms(1) nth [of k] pt l(3) j show "?p < ?c ! nat k" by (simp add: parted_def)
  qed (use j in simp_all)
  ultimately show ?thesis
    using assms l permuted_trans [OF l(2)] by (auto simp: partition_at_def arr_simps)
qed

lemma parted_perm:
  assumes b: "parted b p low high j" and jp: "b ! nat j = p"
    and bc: "permuted low (j - 1) b c" and cd: "permuted (j + 1) high c d"
  shows "parted d p low high j" and "d ! nat j = p"
proof -
  from b have j: "low \<le> j" "j \<le> high" and le: "\<And>k. low \<le> k \<Longrightarrow> k \<le> j \<Longrightarrow> b ! nat k \<le> p"
    and gt: "\<And>k. j < k \<Longrightarrow> k \<le> high \<Longrightarrow> p < b ! nat k"
    by (simp_all add: parted_def)
  from bc have low: "0 \<le> low" by (simp add: permuted_def)
  from j low show dj: "d ! nat j = p"
    using permuted_outside [OF bc, of j] permuted_outside [OF cd, of j] jp by simp
  have "d ! nat k \<le> p" if k: "low \<le> k" "k \<le> j" for k
  proof (cases "k = j")
    case False
    with k have "k \<le> j - 1" by simp
    with permuted_inside [OF bc k(1)] le show ?thesis
      using permuted_outside [OF cd, of k] k low by (metis diff_add_cancel le_add_diff_inverse2
        less_le order_trans zle_add1_eq_le zless_add1_eq)
  qed (simp add: dj)
  moreover have "p < d ! nat k" if k: "j < k" "k \<le> high" for k
  proof -
    from k have "j + 1 \<le> k" by simp
    from permuted_inside [OF cd this k(2)] obtain l where
      "j + 1 \<le> l" "l \<le> high" "d ! nat k = c ! nat l" .
    moreover from this(1) low j have "c ! nat l = b ! nat l"
      by (intro permuted_outside [OF bc]) auto
    ultimately show ?thesis using gt by simp
  qed
  ultimately show "parted d p low high j" using j by (simp add: parted_def)
qed

lemma slice_sorted_join:
  assumes "slice_sorted d low (j - 1)" and "slice_sorted d (j + 1) high"
    and pt: "parted d (d ! nat j) low high j"
  shows "slice_sorted d low high"
  unfolding slice_sorted_def
proof (intro allI impI)
  fix k l assume kl: "low \<le> k \<and> k \<le> l \<and> l \<le> high"
  consider "l < j" | "j < k" | "k \<le> j" "j \<le> l" by linarith
  then show "d ! nat k \<le> d ! nat l"
  proof cases
    case 3
    from pt kl 3 have "d ! nat k \<le> d ! nat j" by (simp add: parted_def)
    moreover have "d ! nat j \<le> d ! nat l"
      using pt kl 3 by (cases "l = j") (auto simp: parted_def less_imp_le)
    ultimately show ?thesis by simp
  qed (use assms(1,2) kl in \<open>auto simp: slice_sorted_def\<close>)
qed

lemma slice_sorted_outside:
  assumes "slice_sorted c low high" and "permuted low' high' c d" and "high < low'" and "0 \<le> low"
  shows "slice_sorted d low high"
proof -
  have "d ! nat k = c ! nat k" if "low \<le> k" "k \<le> high" for k
    using that assms(3,4) by (intro permuted_outside [OF assms(2)]) auto
  with assms(1) show ?thesis by (auto simp: slice_sorted_def)
qed

lemma quicksort_sorts:
  assumes "0 \<le> low" and "high < int (length a)"
  shows "\<exists>b. quicksort a low high = Some b \<and> permuted low high a b \<and> slice_sorted b low high"
  using assms
proof (induction "nat (high + 1 - low)" arbitrary: a low high rule: less_induct)
  case less
  show ?case
  proof (cases "low < high")
    case False
    have "k = l" if "low \<le> k" "k \<le> l" "l \<le> high" for k l using False that by linarith
    then have "slice_sorted a low high" unfolding slice_sorted_def by (metis order_refl)
    with False less.prems show ?thesis
      by (simp add: quicksort.simps [of a low high] permuted_refl)
  next
    case True
    from partition_at_parts [OF less.prems(1) True less.prems(2)] obtain b j where
      b: "partition_at a low high = Some (b, j)" "permuted low high a b"
        "parted b (b ! nat j) low high j" by auto
    from b(3) have j: "low \<le> j" "j \<le> high" by (simp_all add: parted_def)
    from less.hyps [of "j - 1" low b] less.prems j permuted_length [OF b(2)] True obtain c where
      c: "quicksort b low (j - 1) = Some c" "permuted low (j - 1) b c" "slice_sorted c low (j - 1)"
      by auto
    from less.hyps [of high "j + 1" c] less.prems j permuted_length [OF b(2)] permuted_length [OF c(2)]
    obtain d where
      d: "quicksort c (j + 1) high = Some d" "permuted (j + 1) high c d" "slice_sorted d (j + 1) high"
      by auto
    note pd = parted_perm [OF b(3) refl c(2) d(2)]
    have "slice_sorted d low (j - 1)"
      by (rule slice_sorted_outside [OF c(3) d(2)]) (use less.prems in simp_all)
    from slice_sorted_join [OF this d(3)] pd have s: "slice_sorted d low high" by simp
    have "permuted low high b c" "permuted low high c d"
      using permuted_wider [OF c(2)] permuted_wider [OF d(2)] j less.prems by auto
    with b(2) have "permuted low high a d" using permuted_trans by blast
    with True b(1) c(1) d(1) s show ?thesis by (simp add: quicksort.simps [of a low high])
  qed
qed

text \<open>The whole array: the result is the library's \<open>sort\<close>.\<close>

lemma quicksort_whole: "quicksort a 0 (int (length a) - 1) = Some (sort a)"
proof -
  from quicksort_sorts [of 0 "int (length a) - 1" a] obtain b where
    b: "quicksort a 0 (int (length a) - 1) = Some b" "permuted 0 (int (length a) - 1) a b"
      "slice_sorted b 0 (int (length a) - 1)" by auto
  have "b ! k \<le> b ! l" if "k \<le> l" "l < length b" for k l
    using b(3) [unfolded slice_sorted_def, rule_format, of "int k" "int l"] that
      permuted_length [OF b(2)] by simp
  then have "sorted b" by (simp add: sorted_iff_nth_mono)
  with permuted_mset [OF b(2)] have "sort a = b" by (intro properties_for_sort) simp_all
  with b(1) show ?thesis by simp
qed

end
