(* ===== verification/Firmware.thy ===== *)
theory Firmware
  imports TeensySend SismoSort
begin

text \<open>
  The firmware that runs on the Teensy boards, \<open>xpteensy/ino/firmware\<close>: the pins of the board itself
  (\<open>teensy.ino\<close>), the chips (\<open>mcp23017.ino\<close>, \<open>pca9685.ino\<close>, \<open>ht16k33.ino\<close>, \<open>pga2311.ino\<close>, \<open>as5048b.ino\<close>,
  \<open>spi.ino\<close>), the program that steers a motor (\<open>program_closedloop.ino\<close>), and the messages
  (\<open>udp_receive.ino\<close>, \<open>udp_send.ino\<close>).

  What the code does to the hardware, by calls of the Arduino core and of the libraries of the chips, is
  a list of \<open>hw\<close> values, in order. What it learns from the hardware is the record \<open>board_io\<close>, an argument
  that stands for one turn of the loop. The speed of the I2C bus and debug output are left out.
\<close>

section \<open>The board and its hardware\<close>

abbreviation (input) ERROR_INIT :: int where "ERROR_INIT \<equiv> - 10"
abbreviation (input) ERROR_WIRE_RANGE :: int where "ERROR_WIRE_RANGE \<equiv> - 12"
abbreviation (input) ERROR_INIT_INTERRUPT :: int where "ERROR_INIT_INTERRUPT \<equiv> - 13"
abbreviation (input) ERROR_NOT_CONNECTED :: int where "ERROR_NOT_CONNECTED \<equiv> - 14"
abbreviation (input) ERROR_PIN_RANGE :: int where "ERROR_PIN_RANGE \<equiv> - 15"
abbreviation (input) ERROR_DEV_RANGE :: int where "ERROR_DEV_RANGE \<equiv> - 16"
abbreviation (input) ERROR_PINMODE :: int where "ERROR_PINMODE \<equiv> - 17"
abbreviation (input) ERROR_VAL_RANGE :: int where "ERROR_VAL_RANGE \<equiv> - 19"
abbreviation (input) ERROR_SPI_INIT :: int where "ERROR_SPI_INIT \<equiv> - 20"
abbreviation (input) MAX_SERVO :: nat where "MAX_SERVO \<equiv> 10"

datatype pin_kind = INPUT | INPUT_PULLUP | OUTPUT

datatype hw =
    PinMode int pin_kind
  | DigitalWrite int int
  | AnalogWrite int int
  | ServoAttach int int
  | ServoWrite int int
  | McpPinMode int int pin_kind
  | McpInterrupts int
  | McpInterruptPin int int
  | WriteGPIOA int byte
  | WriteGPIOB int byte
  | PcaSetup int
  | PcaPin int int int
  | PcaMicroseconds int int int
  | HtSetup int
  | HtBrightness int int
  | Ht7Seg int int int bool
  | HtSendLed int
  | SpiSetup
  | SpiTransfer byte
  | AsSetup int

record board_io =
  digitalRead :: "int \<Rightarrow> int"
  analogRead :: "int \<Rightarrow> int"
  readGPIOAB :: "int \<Rightarrow> int"
  angleR :: "int \<Rightarrow> int"
  mcp_begin :: "int \<Rightarrow> int"
  pca_begin :: "int \<Rightarrow> bool"
  ht_begin :: "int \<Rightarrow> int"
  udp_write :: int
  current_time :: "int \<times> int"
  micros :: int

record firmware =
  dat :: teensy_unit
  effects :: "hw list"
  outbox :: "mem list"
  remotePort :: int
  spi_initialized :: bool
  as5048b_time :: int

definition act :: "hw list \<Rightarrow> firmware \<Rightarrow> firmware" where
  "act es f = f\<lparr>effects := effects f @ es\<rparr>"

definition with_teensy :: "(teensy_struct \<Rightarrow> teensy_struct) \<Rightarrow> firmware \<Rightarrow> firmware" where
  "with_teensy g f = f\<lparr>dat := (dat f)\<lparr>teensy := g (teensy (dat f))\<rparr>\<rparr>"

section \<open>Sending\<close>

text \<open>Nothing is sent before something has been received.\<close>

definition udp_send :: "board_io \<Rightarrow> int \<Rightarrow> int \<Rightarrow> int \<Rightarrow> int \<Rightarrow> int \<Rightarrow> firmware \<Rightarrow> int \<times> firmware" where
  "udp_send io dev_type dev_num send_type pin_num v f =
     (if remotePort f \<noteq> 0 then
        (udp_write io,
         f\<lparr>outbox := outbox f @
           [teensy_message (mac (teensy (dat f))) send_type dev_type dev_num pin_num (enc_i16 v)]\<rparr>)
      else (0, f))"

section \<open>Initial data\<close>

definition init_data :: "board_io \<Rightarrow> firmware \<Rightarrow> firmware" where
  "init_data io f =
     (let u = dat f; t = teensy u
      in f\<lparr>dat := u\<lparr>
        teensy := t\<lparr>num_servo := 0, val := map (blank INITVAL) (val t), val_save := blank INITVAL (val_save t),
          pinmode := blank INITVAL (pinmode t), val_time := map (\<lambda>_. current_time io) (val_time t),
          arg1 := blank INITVAL (arg1 t), arg2 := blank INITVAL (arg2 t), arg3 := blank INITVAL (arg3 t),
          arg4 := blank 0 (arg4 t), arg5 := blank 0 (arg5 t), arg6 := blank INITVAL (arg6 t),
          connected := 1\<rparr>,
        mcp23017 := map (\<lambda>d. d\<lparr>mcp_val := blank INITVAL (mcp_val d), mcp_save := blank INITVAL (mcp_save d),
          mcp_pinmode := blank INITVAL (mcp_pinmode d), mcp_intpin := INITVAL, mcp_wire := INITVAL,
          mcp_address := 0, mcp_connected := 0\<rparr>) (mcp23017 u),
        pca9685 := map (\<lambda>d. d\<lparr>pca_val := blank INITVAL (pca_val d), pca_save := blank INITVAL (pca_save d),
          pca_pinmode := blank INITVAL (pca_pinmode d), pca_wire := INITVAL, pca_address := 0,
          pca_connected := 0\<rparr>) (pca9685 u),
        ht16k33 := map (\<lambda>d. d\<lparr>ht_val := blank INITVAL (ht_val d), ht_save := blank INITVAL (ht_save d),
          ht_decimalpoint := blank INITVAL (ht_decimalpoint d), ht_brightness := INITVAL,
          ht_wire := INITVAL, ht_address := 0, ht_connected := 0\<rparr>) (ht16k33 u),
        as5048b := map (\<lambda>d. d\<lparr>as_val := blank INITVAL (as_val d), as_save := INITVAL, as_type := INITVAL,
          as_nangle := INITVAL, as_wire := INITVAL, as_address := 0, as_connected := 0\<rparr>) (as5048b u),
        pga2311 := map (\<lambda>d. d\<lparr>pga_val := blank 0 (pga_val d), pga_spi := INITVAL, pga_cs := INITVAL,
          pga_connected := 0\<rparr>) (pga2311 u)\<rparr>\<rparr>)"

section \<open>The pins of the board\<close>

definition store_val :: "int \<Rightarrow> int \<Rightarrow> firmware \<Rightarrow> firmware option" where
  "store_val pin v f =
     do { vs \<leftarrow> arr_set2 (val (teensy (dat f))) pin 0 v; Some (with_teensy (\<lambda>t. t\<lparr>val := vs\<rparr>) f) }"

definition store_save :: "int \<Rightarrow> int \<Rightarrow> firmware \<Rightarrow> firmware option" where
  "store_save pin v f =
     do {
       saves \<leftarrow> arr_set (val_save (teensy (dat f))) pin v;
       Some (with_teensy (\<lambda>t. t\<lparr>val_save := saves\<rparr>) f)
     }"

text \<open>The motor driver: the pins for the direction are arguments of the motor pin.\<close>

definition drive_motor :: "int \<Rightarrow> int \<Rightarrow> int \<Rightarrow> int \<Rightarrow> hw list" where
  "drive_motor pin in1 in2 v =
     (if v = 1000 then [DigitalWrite pin 1, DigitalWrite in1 0, DigitalWrite in2 0]
      else if v > 0 then [AnalogWrite pin v, DigitalWrite in1 1, DigitalWrite in2 0]
      else [AnalogWrite pin (- v), DigitalWrite in1 0, DigitalWrite in2 1])"

definition teensy_write :: "int \<Rightarrow> int \<Rightarrow> firmware \<Rightarrow> firmware option" where
  "teensy_write pin v f =
     (if v \<noteq> INITVAL \<and> pin \<ge> 0 \<and> pin < int MAX_PINS then
        do {
          let t = teensy (dat f);
          mode \<leftarrow> arr_get (pinmode t) pin;
          a1 \<leftarrow> arr_get (arg1 t) pin;
          a2 \<leftarrow> arr_get (arg2 t) pin;
          if mode = PINMODE_OUTPUT then
            do {
              f \<leftarrow> store_val pin v f;
              Some (if v = 0 \<or> v = 1 then act [DigitalWrite pin v] f else f)
            }
          else if mode = PINMODE_PWM then
            do { f \<leftarrow> store_val pin v f; Some (act [AnalogWrite pin v] f) }
          else if mode = PINMODE_MOTOR then
            do { f \<leftarrow> store_val pin v f; Some (act (drive_motor pin a1 a2 v) f) }
          else if mode = PINMODE_SERVO then
            Some (if a1 < num_servo t \<and> a1 \<ge> 0 then act [ServoWrite a1 v] f else f)
          else Some f
        }
      else Some f)"

definition store_mode :: "int \<Rightarrow> int \<Rightarrow> firmware \<Rightarrow> firmware option" where
  "store_mode pin mode f =
     do {
       modes \<leftarrow> arr_set (pinmode (teensy (dat f))) pin mode;
       Some (with_teensy (\<lambda>t. t\<lparr>pinmode := modes\<rparr>) f)
     }"

definition attached :: "int \<Rightarrow> firmware \<Rightarrow> bool" where
  "attached i f \<longleftrightarrow> list_ex (\<lambda>e. case e of ServoAttach k _ \<Rightarrow> k = i | _ \<Rightarrow> False) (effects f)"

text \<open>A servo gets the next free instance of the servo library, unless the pin has one.\<close>

definition attach_servo :: "int \<Rightarrow> firmware \<Rightarrow> firmware option" where
  "attach_servo pin f =
     do {
       let t = teensy (dat f);
       a1 \<leftarrow> arr_get (arg1 t) pin;
       if 0 \<le> a1 \<and> a1 < num_servo t \<and> attached a1 f then Some f
       else if num_servo t < int MAX_SERVO then
         do {
           args \<leftarrow> arr_set (arg1 t) pin (to_char (num_servo t));
           Some (act [ServoAttach (num_servo t) pin]
             (with_teensy (\<lambda>t. t\<lparr>arg1 := args, num_servo := num_servo t + 1\<rparr>) f))
         }
       else None
     }"

definition init_motor :: "int \<Rightarrow> int \<Rightarrow> int \<Rightarrow> int \<Rightarrow> int \<Rightarrow> int \<Rightarrow> int \<Rightarrow> firmware \<Rightarrow> firmware option" where
  "init_motor pin a1 a2 a3 a4 a5 a6 f =
     do {
       let t = teensy (dat f);
       as1 \<leftarrow> arr_set (arg1 t) pin a1;
       as2 \<leftarrow> arr_set (arg2 t) pin a2;
       as3 \<leftarrow> arr_set (arg3 t) pin a3;
       as4 \<leftarrow> arr_set (arg4 t) pin a4;
       as5 \<leftarrow> arr_set (arg5 t) pin a5;
       as6 \<leftarrow> arr_set (arg6 t) pin a6;
       let f = act ([PinMode pin OUTPUT] @ (if a1 \<noteq> INITVAL then [PinMode a1 OUTPUT] else []) @
           (if a2 \<noteq> INITVAL then [PinMode a2 OUTPUT] else []) @
           (if a3 \<noteq> INITVAL then [PinMode a3 INPUT] else []))
         (with_teensy (\<lambda>t. t\<lparr>arg1 := as1, arg2 := as2, arg3 := as3, arg4 := as4, arg5 := as5,
            arg6 := as6\<rparr>) f);
       Some (act [DigitalWrite pin 0, DigitalWrite a1 0, DigitalWrite a2 0] f)
     }"

definition teensy_init ::
  "int \<Rightarrow> int \<Rightarrow> int \<Rightarrow> int \<Rightarrow> int \<Rightarrow> int \<Rightarrow> int \<Rightarrow> int \<Rightarrow> int \<Rightarrow> firmware \<Rightarrow> firmware option" where
  "teensy_init pin mode v a1 a2 a3 a4 a5 a6 f =
     (if pin \<ge> 0 \<and> pin < int MAX_PINS then
        do {
          f \<leftarrow> store_mode pin mode f;
          if mode = PINMODE_INPUT then
            do { f \<leftarrow> store_val pin INITVAL (act [PinMode pin INPUT_PULLUP] f); store_save pin INITVAL f }
          else if mode = PINMODE_OUTPUT \<or> mode = PINMODE_PWM then
            do { f \<leftarrow> store_val pin v (act [PinMode pin OUTPUT] f); teensy_write pin v f }
          else if mode = PINMODE_ANALOGINPUTMEDIAN \<or> mode = PINMODE_ANALOGINPUTMEAN then
            do { f \<leftarrow> store_val pin INITVAL (act [PinMode pin INPUT] f); store_save pin INITVAL f }
          else if mode = PINMODE_INTERRUPT then Some (act [PinMode pin INPUT_PULLUP] f)
          else if mode = PINMODE_SERVO then
            do { f \<leftarrow> attach_servo pin f; f \<leftarrow> store_val pin v f; teensy_write pin v f }
          else if mode = PINMODE_MOTOR then
            do {
              f \<leftarrow> init_motor pin a1 a2 a3 a4 a5 a6 f;
              f \<leftarrow> store_val pin v f;
              teensy_write pin v f
            }
          else Some f
        }
      else Some f)"

section \<open>MCP23017\<close>

definition get_chip :: "(teensy_unit \<Rightarrow> 'd list) \<Rightarrow> int \<Rightarrow> firmware \<Rightarrow> 'd option" where
  "get_chip chips dev f = arr_get (chips (dat f)) dev"

definition store_mcp :: "int \<Rightarrow> mcp23017_struct \<Rightarrow> firmware \<Rightarrow> firmware option" where
  "store_mcp dev d f =
     do { ds \<leftarrow> arr_set (mcp23017 (dat f)) dev d; Some (f\<lparr>dat := (dat f)\<lparr>mcp23017 := ds\<rparr>\<rparr>) }"

text \<open>The states of eight pins from \<open>first\<close> on as the bits of a byte.\<close>

definition port_bits :: "int list \<Rightarrow> int \<Rightarrow> byte option" where
  "port_bits vs first =
     for_each [0..<8] (\<lambda>b bitstate.
       do {
         v \<leftarrow> arr_get vs (int b + first);
         Some (if v = 1 then or bitstate (push_bit b 1) else bitstate)
       }) 0"

definition mcp23017_write :: "int \<Rightarrow> int \<Rightarrow> int \<Rightarrow> firmware \<Rightarrow> (int \<times> firmware) option" where
  "mcp23017_write dev pin v f =
     (if pin \<ge> 0 \<and> pin < int MCP23017_MAX_PINS then
        (if dev \<ge> 0 \<and> dev < int MAX_DEV then
           do {
             d \<leftarrow> get_chip mcp23017 dev f;
             if mcp_connected d = 1 then
               do {
                 old \<leftarrow> arr_get (mcp_val d) pin;
                 if v \<noteq> old \<and> (v = 0 \<or> v = 1) then
                   do {
                     vs \<leftarrow> arr_set (mcp_val d) pin v;
                     f \<leftarrow> store_mcp dev (d\<lparr>mcp_val := vs\<rparr>) f;
                     bits \<leftarrow> port_bits vs (if pin < 8 then 0 else 8);
                     Some (0, act [if pin < 8 then WriteGPIOA dev bits else WriteGPIOB dev bits] f)
                   }
                 else Some (0, f)
               }
             else Some (ERROR_NOT_CONNECTED, f)
           }
         else Some (ERROR_DEV_RANGE, f))
      else Some (ERROR_PIN_RANGE, f))"

text \<open>An input pin whose state is not the one last sent is sent.\<close>

definition read_mcp_pin :: "board_io \<Rightarrow> int \<Rightarrow> nat \<Rightarrow> firmware \<Rightarrow> firmware option" where
  "read_mcp_pin io dev k f =
     do {
       let pin = int k;
       d \<leftarrow> get_chip mcp23017 dev f;
       mode \<leftarrow> arr_get (mcp_pinmode d) pin;
       if mode = PINMODE_INPUT then
         do {
           let v = 1 - (if odd (drop_bit k (readGPIOAB io dev)) then 1 else 0);
           vs \<leftarrow> arr_set (mcp_val d) pin v;
           let d = d\<lparr>mcp_val := vs\<rparr>;
           f \<leftarrow> store_mcp dev d f;
           save \<leftarrow> arr_get (mcp_save d) pin;
           if v \<noteq> save then
             do {
               let (ret, f) = udp_send io MCP23017_TYPE dev TEENSY_REGULAR pin v f;
               if ret = int SENDMSGLEN then
                 do { saves \<leftarrow> arr_set (mcp_save d) pin v; store_mcp dev (d\<lparr>mcp_save := saves\<rparr>) f }
               else Some f
             }
           else Some f
         }
       else Some f
     }"

definition mcp23017_read :: "board_io \<Rightarrow> int \<Rightarrow> firmware \<Rightarrow> firmware option" where
  "mcp23017_read io dev f =
     (if dev \<ge> 0 \<and> dev < int MAX_DEV then
        do {
          d \<leftarrow> get_chip mcp23017 dev f;
          if mcp_connected d = 1 then for_each [0..<MCP23017_MAX_PINS] (read_mcp_pin io dev) f
          else Some f
        }
      else Some f)"

text \<open>
  The connection of the chip to its I2C bus. A wire that does not exist is reported as any other failure,
  as \<open>ret\<close> is still 0 then.
\<close>

definition connect_mcp ::
  "board_io \<Rightarrow> int \<Rightarrow> int \<Rightarrow> int \<Rightarrow> int \<Rightarrow> mcp23017_struct \<Rightarrow> firmware \<Rightarrow> (int \<times> firmware) option" where
  "connect_mcp io dev intpin wirenum address d f =
     (let ret = (if wirenum = 0 \<or> wirenum = 1 \<or> wirenum = 2 then mcp_begin io dev else 0);
          on = d\<lparr>mcp_connected := 1, mcp_wire := wirenum, mcp_address := address\<rparr>
      in if ret = 0 then Some (ERROR_INIT, f)
         else if intpin = INITVAL then do { f \<leftarrow> store_mcp dev on f; Some (0, f) }
         else
           do {
             mode \<leftarrow> arr_get (pinmode (teensy (dat f))) intpin;
             f \<leftarrow> (if mode = INITVAL
                  then do { f \<leftarrow> store_mode intpin PINMODE_INTERRUPT f; Some (act [PinMode intpin INPUT_PULLUP] f) }
                  else Some f);
             if mode = INITVAL \<or> mode = PINMODE_INTERRUPT then
               do {
                 f \<leftarrow> store_mcp dev (on\<lparr>mcp_intpin := intpin\<rparr>) f;
                 as1 \<leftarrow> arr_set (arg1 (teensy (dat f))) intpin MCP23017_TYPE;
                 as2 \<leftarrow> arr_set (arg2 (teensy (dat f))) intpin dev;
                 Some (0, act [McpInterrupts dev] (with_teensy (\<lambda>t. t\<lparr>arg1 := as1, arg2 := as2\<rparr>) f))
               }
             else Some (ERROR_INIT_INTERRUPT, f)
           })"

definition init_mcp_pin ::
  "board_io \<Rightarrow> int \<Rightarrow> int \<Rightarrow> int \<Rightarrow> int \<Rightarrow> int \<Rightarrow> firmware \<Rightarrow> (int \<times> firmware) option" where
  "init_mcp_pin io dev pin mode v retval f =
     do {
       d \<leftarrow> get_chip mcp23017 dev f;
       if mcp_connected d = 1 then
         (if mode = PINMODE_INPUT then
            do {
              saves \<leftarrow> arr_set (mcp_save d) pin INITVAL;
              modes \<leftarrow> arr_set (mcp_pinmode d) pin mode;
              f \<leftarrow> store_mcp dev (d\<lparr>mcp_save := saves, mcp_pinmode := modes\<rparr>) f;
              f \<leftarrow> mcp23017_read io dev (act [McpPinMode dev pin INPUT_PULLUP, McpInterruptPin dev pin] f);
              Some (retval, f)
            }
          else if mode = PINMODE_OUTPUT then
            do {
              modes \<leftarrow> arr_set (mcp_pinmode d) pin mode;
              f \<leftarrow> store_mcp dev (d\<lparr>mcp_pinmode := modes\<rparr>) f;
              (_, f) \<leftarrow> mcp23017_write dev pin v (act [McpPinMode dev pin OUTPUT] f);
              Some (retval, f)
            }
          else Some (ERROR_PINMODE, f))
       else Some (retval, f)
     }"

definition mcp23017_init ::
  "board_io \<Rightarrow> int \<Rightarrow> int \<Rightarrow> int \<Rightarrow> int \<Rightarrow> int \<Rightarrow> int \<Rightarrow> int \<Rightarrow> firmware \<Rightarrow> (int \<times> firmware) option" where
  "mcp23017_init io dev pin mode intpin wirenum address v f =
     (if pin \<ge> 0 \<and> pin < int MCP23017_MAX_PINS then
        (if dev \<ge> 0 \<and> dev < int MAX_DEV then
           do {
             d \<leftarrow> get_chip mcp23017 dev f;
             (retval, f) \<leftarrow> (if mcp_connected d = 0 then connect_mcp io dev intpin wirenum address d f
                            else Some (0, f));
             init_mcp_pin io dev pin mode v retval f
           }
         else Some (ERROR_DEV_RANGE, f))
      else Some (ERROR_PIN_RANGE, f))"

section \<open>PCA9685\<close>

definition store_pca :: "int \<Rightarrow> pca9685_struct \<Rightarrow> firmware \<Rightarrow> firmware option" where
  "store_pca dev d f =
     do { ds \<leftarrow> arr_set (pca9685 (dat f)) dev d; Some (f\<lparr>dat := (dat f)\<lparr>pca9685 := ds\<rparr>\<rparr>) }"

definition set_pca :: "int \<Rightarrow> int \<Rightarrow> int \<Rightarrow> hw \<Rightarrow> pca9685_struct \<Rightarrow> firmware \<Rightarrow> (int \<times> firmware) option" where
  "set_pca dev pin v e d f =
     do {
       vs \<leftarrow> arr_set (pca_val d) pin v;
       f \<leftarrow> store_pca dev (d\<lparr>pca_val := vs\<rparr>) f;
       Some (0, act [e] f)
     }"

definition pca9685_write :: "int \<Rightarrow> int \<Rightarrow> int \<Rightarrow> firmware \<Rightarrow> (int \<times> firmware) option" where
  "pca9685_write dev pin v f =
     (if pin \<ge> 0 \<and> pin < int PCA9685_MAX_PINS then
        (if dev \<ge> 0 \<and> dev < int MAX_DEV then
           do {
             d \<leftarrow> get_chip pca9685 dev f;
             if pca_connected d = 1 then
               do {
                 old \<leftarrow> arr_get (pca_val d) pin;
                 mode \<leftarrow> arr_get (pca_pinmode d) pin;
                 if old \<noteq> v \<and> v \<noteq> INITVAL then
                   (if mode = PINMODE_PWM then
                      (if v \<ge> 0 \<and> v < 4096 then set_pca dev pin v (PcaPin dev pin v) d f
                       else Some (ERROR_VAL_RANGE, f))
                    else if mode = PINMODE_SERVO then
                      (if v \<ge> 600 \<and> v \<le> 2400 then set_pca dev pin v (PcaMicroseconds dev pin v) d f
                       else Some (ERROR_VAL_RANGE, f))
                    else Some (ERROR_PINMODE, f))
                 else Some (0, f)
               }
             else Some (ERROR_NOT_CONNECTED, f)
           }
         else Some (ERROR_DEV_RANGE, f))
      else Some (ERROR_PIN_RANGE, f))"

definition connect_pca ::
  "board_io \<Rightarrow> int \<Rightarrow> int \<Rightarrow> int \<Rightarrow> pca9685_struct \<Rightarrow> firmware \<Rightarrow> (int \<times> firmware) option" where
  "connect_pca io dev wirenum address d f =
     (if wirenum < 0 \<or> wirenum > 2 then Some (ERROR_WIRE_RANGE, f)
      else if pca_begin io dev then
        do {
          f \<leftarrow> store_pca dev (d\<lparr>pca_connected := 1, pca_wire := wirenum, pca_address := address\<rparr>) f;
          Some (0, act [PcaSetup dev] f)
        }
      else Some (ERROR_INIT, f))"

definition init_pca_pin :: "int \<Rightarrow> int \<Rightarrow> int \<Rightarrow> int \<Rightarrow> int \<Rightarrow> firmware \<Rightarrow> (int \<times> firmware) option" where
  "init_pca_pin dev pin mode v retval f =
     do {
       d \<leftarrow> get_chip pca9685 dev f;
       if pca_connected d = 1 then
         do {
           let known = (mode = PINMODE_PWM \<or> mode = PINMODE_SERVO);
           saves \<leftarrow> (if known then arr_set (pca_save d) pin INITVAL else Some (pca_save d));
           modes \<leftarrow> (if known then arr_set (pca_pinmode d) pin mode else Some (pca_pinmode d));
           vs \<leftarrow> arr_set (pca_val d) pin INITVAL;
           f \<leftarrow> store_pca dev (d\<lparr>pca_save := saves, pca_pinmode := modes, pca_val := vs\<rparr>) f;
           (_, f) \<leftarrow> pca9685_write dev pin v f;
           Some (if known then retval else ERROR_PINMODE, f)
         }
       else Some (retval, f)
     }"

definition pca9685_init ::
  "board_io \<Rightarrow> int \<Rightarrow> int \<Rightarrow> int \<Rightarrow> int \<Rightarrow> int \<Rightarrow> int \<Rightarrow> firmware \<Rightarrow> (int \<times> firmware) option" where
  "pca9685_init io dev pin mode wirenum address v f =
     (if pin \<ge> 0 \<and> pin < int PCA9685_MAX_PINS then
        (if dev \<ge> 0 \<and> dev < int MAX_DEV then
           do {
             d \<leftarrow> get_chip pca9685 dev f;
             (retval, f) \<leftarrow> (if pca_connected d = 0 then connect_pca io dev wirenum address d f
                            else Some (0, f));
             init_pca_pin dev pin mode v retval f
           }
         else Some (ERROR_DEV_RANGE, f))
      else Some (ERROR_PIN_RANGE, f))"

section \<open>HT16K33\<close>

text \<open>
  The values of the digits are compared with the table, but never stored in it: every digit that
  arrives is shown. A wire that does not exist counts as success.
\<close>

definition ht16k33_write :: "int \<Rightarrow> int \<Rightarrow> int \<Rightarrow> int \<Rightarrow> int \<Rightarrow> firmware \<Rightarrow> (int \<times> firmware) option" where
  "ht16k33_write dev dig v dp brightness f =
     (if dig \<ge> 0 \<and> dig < int HT16K33_MAX_DIG then
        (if dev \<ge> 0 \<and> dev < int MAX_DEV then
           do {
             d \<leftarrow> get_chip ht16k33 dev f;
             if ht_connected d = 1 then
               do {
                 old \<leftarrow> arr_get (ht_val d) dig;
                 Some (0, if v \<noteq> old then act [HtBrightness dev brightness, Ht7Seg dev dig v (dp = 1), HtSendLed dev] f
                          else f)
               }
             else Some (ERROR_NOT_CONNECTED, f)
           }
         else Some (ERROR_DEV_RANGE, f))
      else Some (ERROR_PIN_RANGE, f))"

definition ht16k33_init :: "board_io \<Rightarrow> int \<Rightarrow> int \<Rightarrow> int \<Rightarrow> firmware \<Rightarrow> (int \<times> firmware) option" where
  "ht16k33_init io dev wirenum address f =
     (if dev \<ge> 0 \<and> dev < int MAX_DEV then
        do {
          d \<leftarrow> get_chip ht16k33 dev f;
          if ht_connected d = 0 then
            (let known = (wirenum = 0 \<or> wirenum = 1 \<or> wirenum = 2);
                 retval = (if known then 0 else ERROR_WIRE_RANGE);
                 ret = (if known then ht_begin io dev else 0)
             in if ret \<noteq> 0 then Some (ERROR_INIT, f)
                else
                  do {
                    ds \<leftarrow> arr_set (ht16k33 (dat f)) dev (d\<lparr>ht_connected := 1\<rparr>);
                    Some (retval, act [HtSetup dev] (f\<lparr>dat := (dat f)\<lparr>ht16k33 := ds\<rparr>\<rparr>))
                  })
          else Some (0, f)
        }
      else Some (ERROR_DEV_RANGE, f))"

end
