(* ===== verification/FirmwareLoop.thy ===== *)
theory FirmwareLoop
  imports Firmware
begin

text \<open>
  The firmware of the Teensy boards, continued: the volume control, the angle sensor, the inputs of the board,
  the program that steers a motor, the messages that are received, and the loop.
\<close>

section \<open>PGA2311 and its bus\<close>

text \<open>\<open>spi_init\<close>: the three pins of the bus must be free. Only bus 0 is supported.\<close>

definition spi_init :: "int \<Rightarrow> firmware \<Rightarrow> (int \<times> firmware) option" where
  "spi_init spinum f =
     (if spinum \<ge> 0 \<and> spinum < 1 then
        do {
          sclk \<leftarrow> arr_get (pinmode (teensy (dat f))) 13;
          miso \<leftarrow> arr_get (pinmode (teensy (dat f))) 12;
          mosi \<leftarrow> arr_get (pinmode (teensy (dat f))) 11;
          if sclk = INITVAL \<and> miso = INITVAL \<and> mosi = INITVAL then
            do {
              f \<leftarrow> store_mode 13 PINMODE_SPI (act [SpiSetup] f);
              f \<leftarrow> store_mode 12 PINMODE_SPI f;
              f \<leftarrow> store_mode 11 PINMODE_SPI f;
              Some (0, f\<lparr>spi_initialized := True\<rparr>)
            }
          else Some (-1, f)
        }
      else Some (-1, f))"

definition store_pga :: "int \<Rightarrow> pga2311_struct \<Rightarrow> firmware \<Rightarrow> firmware option" where
  "store_pga dev d f =
     do { ds \<leftarrow> arr_set (pga2311 (dat f)) dev d; Some (f\<lparr>dat := (dat f)\<lparr>pga2311 := ds\<rparr>\<rparr>) }"

text \<open>Both channels are sent, right and left, while the chip is selected.\<close>

definition pga2311_write :: "int \<Rightarrow> int \<Rightarrow> int \<Rightarrow> firmware \<Rightarrow> (int \<times> firmware) option" where
  "pga2311_write dev channel v f =
     (if channel \<ge> 0 \<and> channel < int PGA2311_MAX_CHANNELS then
        (if dev \<ge> 0 \<and> dev < int MAX_DEV then
           do {
             d \<leftarrow> get_chip pga2311 dev f;
             if pga_connected d = 1 then
               do {
                 let v = (if v < 0 then 0 else v);
                 let v = (if v > 255 then 255 else v);
                 old \<leftarrow> arr_get (pga_val d) channel;
                 if v \<noteq> old then
                   do {
                     vs \<leftarrow> arr_set (pga_val d) channel v;
                     f \<leftarrow> store_pga dev (d\<lparr>pga_val := vs\<rparr>) f;
                     left \<leftarrow> arr_get vs 0;
                     right \<leftarrow> arr_get vs 1;
                     Some (0, act [DigitalWrite (pga_cs d) 0, SpiTransfer (word_of_int right),
                       SpiTransfer (word_of_int left), DigitalWrite (pga_cs d) 1] f)
                   }
                 else Some (0, f)
               }
             else Some (ERROR_NOT_CONNECTED, f)
           }
         else Some (ERROR_DEV_RANGE, f))
      else Some (ERROR_PIN_RANGE, f))"

definition connect_pga :: "int \<Rightarrow> int \<Rightarrow> pga2311_struct \<Rightarrow> firmware \<Rightarrow> (int \<times> firmware) option" where
  "connect_pga dev cspin d f =
     do {
       mode \<leftarrow> arr_get (pinmode (teensy (dat f))) cspin;
       if mode \<noteq> INITVAL then Some (ERROR_INIT, f)
       else
         do {
           f \<leftarrow> store_mode cspin PINMODE_SPI f;
           f \<leftarrow> store_pga dev (d\<lparr>pga_connected := 1\<rparr>) f;
           Some (0, act [PinMode cspin OUTPUT, DigitalWrite cspin 1] f)
         }
     }"

definition pga2311_init :: "int \<Rightarrow> int \<Rightarrow> int \<Rightarrow> int \<Rightarrow> int \<Rightarrow> firmware \<Rightarrow> (int \<times> firmware) option" where
  "pga2311_init dev channel spinum cspin v f =
     (if channel \<ge> 0 \<and> channel < int PGA2311_MAX_CHANNELS then
        (if dev \<ge> 0 \<and> dev < int MAX_DEV then
           do {
             d \<leftarrow> get_chip pga2311 dev f;
             let d = d\<lparr>pga_spi := spinum, pga_cs := cspin\<rparr>;
             f \<leftarrow> store_pga dev d f;
             (spi, f) \<leftarrow> (if spi_initialized f then Some (0, f) else spi_init spinum f);
             let retval = (if spi \<noteq> 0 then ERROR_SPI_INIT else 0);
             (retval, f) \<leftarrow> (if retval = 0 \<and> pga_connected d = 0 then connect_pga dev cspin d f
                            else Some (retval, f));
             d \<leftarrow> get_chip pga2311 dev f;
             f \<leftarrow> (if pga_connected d = 1 then map_option snd (pga2311_write dev channel v f) else Some f);
             Some (retval, f)
           }
         else Some (ERROR_DEV_RANGE, f))
      else Some (ERROR_PIN_RANGE, f))"

section \<open>AS5048B\<close>

definition store_as :: "int \<Rightarrow> as5048b_struct \<Rightarrow> firmware \<Rightarrow> firmware option" where
  "store_as dev d f =
     do { ds \<leftarrow> arr_set (as5048b (dat f)) dev d; Some (f\<lparr>dat := (dat f)\<lparr>as5048b := ds\<rparr>\<rparr>) }"

definition as5048b_init ::
  "board_io \<Rightarrow> int \<Rightarrow> int \<Rightarrow> int \<Rightarrow> int \<Rightarrow> int \<Rightarrow> firmware \<Rightarrow> firmware option" where
  "as5048b_init io dev nangle type wirenum address f =
     do {
       f \<leftarrow> (if dev \<ge> 0 \<and> dev < int MAX_DEV then
              do {
                d \<leftarrow> get_chip as5048b dev f;
                let d = (if as_connected d = 0 \<and> wirenum = 0
                         then d\<lparr>as_connected := 1, as_wire := wirenum, as_address := address\<rparr> else d);
                if as_connected d = 1 then
                  do {
                    f \<leftarrow> store_as dev (d\<lparr>as_save := INITVAL, as_type := type, as_nangle := nangle\<rparr>) f;
                    Some (act [AsSetup dev] f)
                  }
                else Some f
              }
            else Some f);
       Some (f\<lparr>as5048b_time := micros io\<rparr>)
     }"

definition unroll :: "int \<Rightarrow> int \<Rightarrow> int" where
  "unroll previous a =
     (if a \<noteq> INITVAL \<and> previous \<noteq> INITVAL then
        (let a = (if previous > a + 300 then a + 360 else a)
         in if previous < a - 300 then a - 360 else a)
      else a)"

definition roll :: "int \<Rightarrow> int" where
  "roll median =
     (let median = (if median < 0 then median + 360 else median)
      in if median > 359 then median - 360 else median)"

definition shift_in :: "int \<Rightarrow> int list \<Rightarrow> int list option" where
  "shift_in v h =
     do {
       h \<leftarrow> for_each (rev [0..<MAX_HIST - 1])
              (\<lambda>s h. do { x \<leftarrow> arr_get h (int s); arr_set h (int s + 1) x }) h;
       arr_set h 0 v
     }"

definition median_of :: "int list \<Rightarrow> int option" where
  "median_of h = do { s \<leftarrow> quicksort h 0 (int MAX_HIST - 1); arr_get s (int MAX_HIST div 2) }"

text \<open>One sensor: a turn by more than an n-th of the circle is sent, as an angle or a direction.\<close>

definition read_angle :: "board_io \<Rightarrow> nat \<Rightarrow> firmware \<Rightarrow> firmware option" where
  "read_angle io k f =
     do {
       let dev = int k;
       d \<leftarrow> get_chip as5048b dev f;
       if as_connected d = 1 then
         do {
           let angle = angleR io dev smod 360;
           let previous = as_save d;
           h \<leftarrow> shift_in angle (as_val d);
           median \<leftarrow> median_of (map (unroll previous) h);
           let d = d\<lparr>as_val := h\<rparr>;
           let old = previous * as_nangle d sdiv 360;
           let new = median * as_nangle d sdiv 360;
           (d, f) \<leftarrow>
             (if median \<noteq> INITVAL \<and> previous \<noteq> INITVAL \<and> (median < previous - 1 \<or> median > previous + 1) \<and>
                 new \<noteq> old then
                (let (ret, f) = udp_send io AS5048B_TYPE dev TEENSY_REGULAR 0
                       (if as_type d = 1 then angle else if new > old then 1 else -1) f
                 in if ret = int SENDMSGLEN then Some (d\<lparr>as_save := roll median smod 360\<rparr>, f) else Some (d, f))
              else Some (d, f));
           let d = (if as_save d = INITVAL \<and> median \<noteq> INITVAL then d\<lparr>as_save := roll median\<rparr> else d);
           store_as dev d f
         }
       else Some f
     }"

definition as5048b_read :: "board_io \<Rightarrow> firmware \<Rightarrow> firmware option" where
  "as5048b_read io f =
     (if micros io > (as5048b_time f + 20 * 1000) mod 2 ^ 32
      then for_each [0..<MAX_DEV] (read_angle io) (f\<lparr>as5048b_time := micros io\<rparr>)
      else Some f)"

section \<open>The inputs of the board\<close>

definition calcmean :: "int list \<Rightarrow> int" where
  "calcmean h =
     (let xs = filter (\<lambda>x. x \<noteq> INITVAL) h
      in if xs \<noteq> [] then sum_list xs sdiv int (length xs) else INITVAL)"

text \<open>A potentiometer: whether its new value is sent, and what is saved for the comparison.\<close>

definition noisy :: "int \<Rightarrow> int \<Rightarrow> int \<Rightarrow> bool" where
  "noisy noise a b \<longleftrightarrow> a < b - noise \<or> a > b + noise"

definition analog_decision :: "int \<Rightarrow> int \<Rightarrow> int list \<Rightarrow> int \<Rightarrow> (int option) option" where
  "analog_decision mode v h save =
     (if mode = PINMODE_ANALOGINPUTMEAN then
        (let mean = calcmean h
         in Some (if mean \<noteq> INITVAL \<and> (noisy 3 save mean \<or> save = INITVAL) \<and> mean \<noteq> save
                  then Some mean else None))
      else if mode = PINMODE_ANALOGINPUTMEDIAN then
        do {
          median \<leftarrow> median_of h;
          Some (if median \<noteq> INITVAL \<and> (noisy 3 median save \<or> save = INITVAL) then Some median else None)
        }
      else Some (if noisy 7 v save \<or> save = INITVAL then Some v else None))"

text \<open>The interval after which a pin is read again: \<open>10.0 + (float) pin / 20.0\<close> milliseconds.\<close>

definition analog_due :: "int \<Rightarrow> int \<times> int \<Rightarrow> int \<times> int \<Rightarrow> bool" where
  "analog_due pin now since \<longleftrightarrow>
     fp_less (fp_add 52 11 (Fin 10 0) (fp_div 52 11 (fp_of_int 23 8 pin) (Fin 20 0))) (ms_since now since)"

definition read_analog_pin :: "board_io \<Rightarrow> int \<Rightarrow> int \<Rightarrow> firmware \<Rightarrow> firmware option" where
  "read_analog_pin io pin mode f =
     do {
       let t = teensy (dat f);
       since \<leftarrow> arr_get (val_time t) pin;
       if analog_due pin (current_time io) since then
         do {
           let v = analogRead io pin;
           times \<leftarrow> arr_set (val_time t) pin (current_time io);
           h \<leftarrow> arr_get (val t) pin;
           h \<leftarrow> shift_in v h;
           vs \<leftarrow> arr_set (val t) pin h;
           save \<leftarrow> arr_get (val_save t) pin;
           decision \<leftarrow> analog_decision mode v h save;
           let f = with_teensy (\<lambda>t. t\<lparr>val_time := times, val := vs\<rparr>) f;
           (case decision of
              None \<Rightarrow> Some f
            | Some new \<Rightarrow> store_save pin new (snd (udp_send io TEENSY_TYPE 0 TEENSY_REGULAR pin v f)))
         }
       else Some f
     }"

definition read_digital_pin :: "board_io \<Rightarrow> int \<Rightarrow> firmware \<Rightarrow> firmware option" where
  "read_digital_pin io pin f =
     do {
       let v = (if digitalRead io pin \<noteq> 0 then 0 else 1);
       f \<leftarrow> store_val pin v f;
       save \<leftarrow> arr_get (val_save (teensy (dat f))) pin;
       if v \<noteq> save then
         (let (ret, f) = udp_send io TEENSY_TYPE 0 TEENSY_REGULAR pin v f
          in if ret = int SENDMSGLEN then store_save pin v f else Some f)
       else Some f
     }"

definition read_interrupt_pin :: "board_io \<Rightarrow> int \<Rightarrow> firmware \<Rightarrow> firmware option" where
  "read_interrupt_pin io pin f =
     (if digitalRead io pin = 0 then
        do {
          a1 \<leftarrow> arr_get (arg1 (teensy (dat f))) pin;
          a2 \<leftarrow> arr_get (arg2 (teensy (dat f))) pin;
          if a1 = MCP23017_TYPE then mcp23017_read io a2 f else Some f
        }
      else Some f)"

definition read_pin :: "board_io \<Rightarrow> nat \<Rightarrow> firmware \<Rightarrow> firmware option" where
  "read_pin io k f =
     do {
       mode \<leftarrow> arr_get (pinmode (teensy (dat f))) (int k);
       if mode = PINMODE_INPUT then read_digital_pin io (int k) f
       else if mode = PINMODE_INTERRUPT then read_interrupt_pin io (int k) f
       else if is_analog mode then read_analog_pin io (int k) mode f
       else Some f
     }"

definition teensy_read :: "board_io \<Rightarrow> firmware \<Rightarrow> firmware option" where
  "teensy_read io = for_each [0..<MAX_PINS] (read_pin io)"

section \<open>The program that steers a motor by a potentiometer\<close>

definition store_program :: "int \<Rightarrow> program_struct \<Rightarrow> firmware \<Rightarrow> firmware option" where
  "store_program prog p f =
     do { ps \<leftarrow> arr_set (program (dat f)) prog p; Some (f\<lparr>dat := (dat f)\<lparr>program := ps\<rparr>\<rparr>) }"

text \<open>
  \<open>min(max(fabsf(request - actual) / pow(2,10) * 15.0, 0.0), 1.0) * float(max_speed - min_speed) + min_speed\<close>,
  converted to 8 bits.
\<close>

definition loop_speed :: "int \<Rightarrow> int \<Rightarrow> int \<Rightarrow> int \<Rightarrow> int" where
  "loop_speed request actual min_speed max_speed =
     (let x = fp_mul 52 11 (fp_div 52 11 (fp_of_int 23 8 \<bar>request - actual\<bar>) (Fin 1024 0)) (Fin 15 0);
          x = (if fp_less (Fin 1 0) x then Fin 1 0 else x)
      in fp_trunc (fp_add 52 11 (fp_mul 52 11 x (fp_of_int 23 8 (max_speed - min_speed)))
           (fp_of_int 52 11 min_speed)) mod 256)"

text \<open>The directions: a stopped motor starts only when the position is off by twice the precision.\<close>

definition loop_directions :: "int \<Rightarrow> int \<Rightarrow> bool \<Rightarrow> bool \<times> bool" where
  "loop_directions request actual moving =
     (let hysteresis = (if moving then 10 else 10 * 2)
      in (request > actual + hysteresis, request < actual - hysteresis))"

definition program_closedloop :: "board_io \<Rightarrow> int \<Rightarrow> firmware \<Rightarrow> (int \<times> firmware) option" where
  "program_closedloop io prog f =
     (if prog \<ge> 0 \<and> prog < int MAX_PROG then
        do {
          p \<leftarrow> arr_get (program (dat f)) prog;
          active \<leftarrow> arr_get (val8 p) 0;
          pot_pin \<leftarrow> arr_get (val8 p) 1;
          mot_pin \<leftarrow> arr_get (val8 p) 2;
          request \<leftarrow> arr_get (val16 p) 0;
          _ \<leftarrow> arr_get (pinmode (teensy (dat f))) pot_pin;
          _ \<leftarrow> arr_get (pinmode (teensy (dat f))) mot_pin;
          in1 \<leftarrow> arr_get (arg1 (teensy (dat f))) mot_pin;
          in2 \<leftarrow> arr_get (arg2 (teensy (dat f))) mot_pin;
          if active = 1 \<and> request \<noteq> INITVAL then
            do {
              let actual = analogRead io pot_pin;
              min_speed \<leftarrow> arr_get (arg4 (teensy (dat f))) mot_pin;
              max_speed \<leftarrow> arr_get (arg5 (teensy (dat f))) mot_pin;
              forward_save \<leftarrow> arr_get (val8 p) 5;
              backward_save \<leftarrow> arr_get (val8 p) 6;
              let (forward, backward) = loop_directions request actual (forward_save \<noteq> 0 \<or> backward_save \<noteq> 0);
              let speed = loop_speed request actual min_speed max_speed;
              v8 \<leftarrow> arr_set (val8 p) 5 (if forward then 1 else 0);
              v8 \<leftarrow> arr_set v8 6 (if backward then 1 else 0);
              saves \<leftarrow> arr_set (val16_save p) 0 request;
              f \<leftarrow> store_program prog (p\<lparr>val8 := v8, val16_save := saves\<rparr>) f;
              Some (0, act (if forward then [AnalogWrite mot_pin speed, DigitalWrite in1 1, DigitalWrite in2 0]
                            else if backward then [AnalogWrite mot_pin speed, DigitalWrite in1 0, DigitalWrite in2 1]
                            else [AnalogWrite mot_pin 255, DigitalWrite in1 0, DigitalWrite in2 0]) f)
            }
          else Some (0, act [AnalogWrite mot_pin 0, DigitalWrite in1 0, DigitalWrite in2 1] f)
        }
      else Some (-1, f))"

section \<open>Receiving\<close>

text \<open>Bytes of the message as signed and unsigned 8 bit numbers, and two of them as a 16 bit number.\<close>

definition s8 :: "mem \<Rightarrow> nat \<Rightarrow> int" where
  "s8 buf k = to_char (uint (buf ! k))"

definition u8 :: "mem \<Rightarrow> nat \<Rightarrow> int" where
  "u8 buf k = uint (buf ! k)"

definition s16 :: "mem \<Rightarrow> nat \<Rightarrow> int" where
  "s16 buf k = dec_i16 [buf ! k, buf ! (k + 1)]"

text \<open>A chip that reports an error gets it sent to the driver.\<close>

definition report :: "board_io \<Rightarrow> int \<Rightarrow> mem \<Rightarrow> (int \<times> firmware) option \<Rightarrow> firmware option" where
  "report io dtype buf r =
     do {
       (retval, f) \<leftarrow> r;
       Some (if retval \<noteq> 0 then snd (udp_send io dtype (s8 buf 6) TEENSY_ERROR (s8 buf 7) retval f) else f)
     }"

definition receive_teensy :: "board_io \<Rightarrow> mem \<Rightarrow> firmware \<Rightarrow> firmware option" where
  "receive_teensy io buf f =
     (if u8 buf 4 = TEENSY_PING then Some (snd (udp_send io TEENSY_TYPE 0 TEENSY_PING INITVAL 0 f))
      else if u8 buf 4 = TEENSY_RESET then Some (init_data io f)
      else if u8 buf 4 = TEENSY_INIT then
        teensy_init (s8 buf 7) (s8 buf 10) (s16 buf 8) (s8 buf 11) (s8 buf 12) (s8 buf 13) (u8 buf 14)
          (u8 buf 15) (s16 buf 2) f
      else if u8 buf 4 = TEENSY_REGULAR then teensy_write (s8 buf 7) (s16 buf 8) f
      else Some f)"

definition receive_program :: "mem \<Rightarrow> firmware \<Rightarrow> firmware option" where
  "receive_program buf f =
     do {
       let prog = s8 buf 7;
       p \<leftarrow> arr_get (program (dat f)) prog;
       p \<leftarrow> (if u8 buf 4 = TEENSY_INIT then
               do {
                 v8 \<leftarrow> arr_set (val8 p) 3 0;
                 v8 \<leftarrow> arr_set v8 4 0;
                 Some (p\<lparr>prog_connected := 1, prog_type := s8 buf 6, val8 := v8\<rparr>)
               }
             else Some p);
       v16 \<leftarrow> arr_set (val16 p) 0 (s16 buf 8);
       v16 \<leftarrow> arr_set v16 1 (s16 buf 10);
       v16 \<leftarrow> arr_set v16 2 (s16 buf 12);
       v8 \<leftarrow> arr_set (val8 p) 0 (s8 buf 2);
       v8 \<leftarrow> arr_set v8 1 (s8 buf 3);
       v8 \<leftarrow> arr_set v8 2 (s8 buf 14);
       store_program prog (p\<lparr>val16 := v16, val8 := v8\<rparr>) f
     }"

definition receive_chip :: "board_io \<Rightarrow> mem \<Rightarrow> firmware \<Rightarrow> firmware option" where
  "receive_chip io buf f =
     (let dtype = u8 buf 5; dev = s8 buf 6; pin = s8 buf 7; v = s16 buf 8;
          first = (u8 buf 4 = TEENSY_INIT); regular = (u8 buf 4 = TEENSY_REGULAR)
      in if dtype = MCP23017_TYPE then
           (if first then report io dtype buf
              (mcp23017_init io dev pin (s8 buf 10) (s8 buf 11) (s8 buf 12) (u8 buf 13) v f)
            else if regular then report io dtype buf (mcp23017_write dev pin v f) else Some f)
         else if dtype = PCA9685_TYPE then
           (if first then report io dtype buf
              (pca9685_init io dev pin (s8 buf 10) (s8 buf 12) (u8 buf 13) v f)
            else if regular then report io dtype buf (pca9685_write dev pin v f) else Some f)
         else if dtype = HT16K33_TYPE then
           (if first then report io dtype buf (ht16k33_init io dev (s8 buf 12) (u8 buf 13) f)
            else if regular then report io dtype buf
              (ht16k33_write dev pin v (s8 buf 10) (s8 buf 11) f) else Some f)
         else if dtype = AS5048B_TYPE then
           (if first then as5048b_init io dev (s8 buf 10) (s8 buf 11) (s8 buf 12) (u8 buf 13) f else Some f)
         else if dtype = PGA2311_TYPE then
           (if first then report io dtype buf (pga2311_init dev pin (s8 buf 12) (s8 buf 13) v f)
            else if regular then report io dtype buf (pga2311_write dev pin v f) else Some f)
         else if dtype = PROGRAM_TYPE then receive_program buf f
         else Some f)"

text \<open>One packet, with the port of its sender, if one has arrived.\<close>

definition udp_receive :: "board_io \<Rightarrow> (int \<times> mem) option \<Rightarrow> firmware \<Rightarrow> firmware option" where
  "udp_receive io packet f =
     (case packet of
        None \<Rightarrow> Some f
      | Some (sender, buf) \<Rightarrow>
          if buf = [] then Some f
          else
            (let f = f\<lparr>remotePort := sender\<rparr>
             in if length buf = RECVMSGLEN \<and> buf ! 0 = TEENSY_ID1 \<and> buf ! 1 = TEENSY_ID2 then
                  (if u8 buf 5 = TEENSY_TYPE \<and> u8 buf 6 = 0 then receive_teensy io buf f
                   else receive_chip io buf f)
                else Some f))"

section \<open>The loop\<close>

definition run_program :: "board_io \<Rightarrow> nat \<Rightarrow> firmware \<Rightarrow> firmware option" where
  "run_program io k f =
     do {
       p \<leftarrow> arr_get (program (dat f)) (int k);
       if prog_connected p = 1 \<and> prog_type p = PROGRAM_CLOSEDLOOP
       then map_option snd (program_closedloop io (int k) f) else Some f
     }"

definition firmware_loop :: "board_io \<Rightarrow> (int \<times> mem) option \<Rightarrow> firmware \<Rightarrow> firmware option" where
  "firmware_loop io packet f =
     do {
       f \<leftarrow> udp_receive io packet f;
       f \<leftarrow> teensy_read io f;
       f \<leftarrow> as5048b_read io f;
       for_each [0..<MAX_PROG] (run_program io) f
     }"

end
