(* ===== verification/TeensyWire.thy ===== *)
theory TeensyWire
  imports TeensyTable FirmwareLoop
begin

text \<open>
  The protocol from the driver to a Teensy: the regular messages as orders, with the encoder that
  \<open>send_teensy\<close> uses and what the firmware makes of them. \<open>send_unit\<close> sends the orders for the outputs
  that have changed; the firmware carries out exactly the order that was encoded.
\<close>

section \<open>Orders\<close>

datatype order =
    SetPin nat int
  | SetMcp nat nat int
  | SetPca nat nat int
  | SetDigit nat nat int int int
  | SetVolume nat nat int
  | SetProgram nat program_struct

fun encode_order :: "order \<Rightarrow> mem" where
  "encode_order (SetPin k v) = value_message TEENSY_TYPE 0 (int k) v"
| "encode_order (SetMcp d k v) = value_message MCP23017_TYPE (int d) (int k) v"
| "encode_order (SetPca d k v) = value_message PCA9685_TYPE (int d) (int k) v"
| "encode_order (SetDigit d g v dp b) =
     teensy_message [0, 0] TEENSY_REGULAR HT16K33_TYPE (int d) (int g) (enc_i16 v @ map word_of_int [dp, b])"
| "encode_order (SetVolume d c v) = value_message PGA2311_TYPE (int d) (int c) v"
| "encode_order (SetProgram n p) =
     teensy_message (map word_of_int [val8 p ! 0, val8 p ! 1]) TEENSY_REGULAR PROGRAM_TYPE (prog_type p) (int n)
       (enc_i16 (val16 p ! 0) @ enc_i16 (val16 p ! 1) @ enc_i16 (val16 p ! 2) @
        [word_of_int (val8 p ! 2)] @ [word_of_int (val8 p ! 3)])"

text \<open>The outputs that are configured for a Teensy, with their present values.\<close>

definition pin_orders :: "teensy_unit \<Rightarrow> order list" where
  "pin_orders u =
     map (\<lambda>k. SetPin k (val (teensy u) ! k ! 0))
       (filter (\<lambda>k. output_mode (pinmode (teensy u) ! k)) [0..<MAX_PINS])"

definition mcp_orders :: "teensy_unit \<Rightarrow> nat \<Rightarrow> order list" where
  "mcp_orders u d =
     (let m = mcp23017 u ! d
      in if mcp_connected m = 1 \<and> mcp_wire m \<noteq> INITVAL
         then map (\<lambda>k. SetMcp d k (mcp_val m ! k))
                (filter (\<lambda>k. mcp_pinmode m ! k = PINMODE_OUTPUT) [0..<MCP23017_MAX_PINS])
         else [])"

definition pca_orders :: "teensy_unit \<Rightarrow> nat \<Rightarrow> order list" where
  "pca_orders u d =
     (let m = pca9685 u ! d
      in if pca_connected m = 1 \<and> pca_wire m \<noteq> INITVAL
         then map (\<lambda>k. SetPca d k (pca_val m ! k))
                (filter (\<lambda>k. pca_pinmode m ! k = PINMODE_PWM \<or> pca_pinmode m ! k = PINMODE_SERVO)
                   [0..<PCA9685_MAX_PINS])
         else [])"

definition ht_orders :: "teensy_unit \<Rightarrow> nat \<Rightarrow> order list" where
  "ht_orders u d =
     (let m = ht16k33 u ! d
      in if ht_connected m = 1 \<and> ht_wire m \<noteq> INITVAL
         then map (\<lambda>g. SetDigit d g (ht_val m ! g) (ht_decimalpoint m ! g) (ht_brightness m))
                [0..<HT16K33_MAX_DIG]
         else [])"

definition pga_orders :: "teensy_unit \<Rightarrow> nat \<Rightarrow> order list" where
  "pga_orders u d =
     (let m = pga2311 u ! d
      in if pga_connected m = 1 \<and> pga_spi m \<noteq> INITVAL
         then map (\<lambda>c. SetVolume d c (pga_val m ! c)) [0..<PGA2311_MAX_CHANNELS] else [])"

definition program_orders :: "teensy_unit \<Rightarrow> nat \<Rightarrow> order list" where
  "program_orders u n =
     (let p = program u ! n
      in if prog_connected p = 1 \<and> prog_type p \<noteq> INITVAL then [SetProgram n p] else [])"

definition outputs :: "teensy_unit \<Rightarrow> order list" where
  "outputs u =
     pin_orders u @ concat (map (mcp_orders u) [0..<MAX_DEV]) @ concat (map (pca_orders u) [0..<MAX_DEV]) @
     concat (map (ht_orders u) [0..<MAX_DEV]) @ concat (map (pga_orders u) [0..<MAX_DEV]) @
     concat (map (program_orders u) [0..<MAX_PROG])"

text \<open>Those that differ from their saved values.\<close>

fun is_due :: "teensy_unit \<Rightarrow> order \<Rightarrow> bool" where
  "is_due u (SetPin k v) \<longleftrightarrow> v \<noteq> val_save (teensy u) ! k"
| "is_due u (SetMcp d k v) \<longleftrightarrow> v \<noteq> mcp_save (mcp23017 u ! d) ! k"
| "is_due u (SetPca d k v) \<longleftrightarrow> v \<noteq> pca_save (pca9685 u ! d) ! k"
| "is_due u (SetDigit d g v dp b) \<longleftrightarrow> v \<noteq> ht_save (ht16k33 u ! d) ! g"
| "is_due u (SetVolume d c v) \<longleftrightarrow> v \<noteq> pga_save (pga2311 u ! d) ! c"
| "is_due u (SetProgram n p) \<longleftrightarrow>
     (\<exists>k < 3. val8 p ! k \<noteq> val8_save (program u ! n) ! k \<or> val16 p ! k \<noteq> val16_save (program u ! n) ! k)"

section \<open>The driver sends what is due\<close>

lemma sends_concat:
  "(\<And>k. k \<in> set ks \<Longrightarrow> f k = Some (g k)) \<Longrightarrow> sends ks f = Some (concat (map g ks))"
  by (induction ks) auto

lemma sends_filter:
  assumes "\<And>k. k \<in> set ks \<Longrightarrow> f k = Some (if P k \<and> Q k then [h k] else [])"
  shows "sends ks f = Some (map h (filter (\<lambda>k. P k \<and> Q k) ks))"
  using assms by (induction ks) auto

lemma map_filter_orders: "map (s \<circ> encode_order) (filter D (map (\<lambda>k. a k) (filter P ks))) =
    map (\<lambda>k. s (encode_order (a k))) (filter (\<lambda>k. P k \<and> D (a k)) ks)"
  by (induction ks) auto

lemma arr_ok_int: "arr_ok n P xs \<Longrightarrow> k < n \<Longrightarrow> arr_get xs (int k) = Some (xs ! k)"
  by (simp add: arr_ok_length arr_get_int)

lemma arr_ok_int2: "arr_ok n (arr_ok m P) xss \<Longrightarrow> k < n \<Longrightarrow> 0 < m \<Longrightarrow> arr_get2 xss (int k) 0 = Some (xss ! k ! 0)"
  using arr_ok_get2 [of n m P xss "int k" 0] by simp

lemma chips_ok:
  assumes "unit_ok u" and "d < 20"
  shows "mcp_ok (mcp23017 u ! d)" "pca_ok (pca9685 u ! d)" "ht_ok (ht16k33 u ! d)" "pga_ok (pga2311 u ! d)"
  using unit_okD [OF assms(1)] assms(2) by (auto intro: arr_ok_nth)

lemma programs_ok: "unit_ok u \<Longrightarrow> n < 5 \<Longrightarrow> program_ok (program u ! n)"
  using unit_okD(2) arr_ok_nth by blast

definition posted :: "teensy_unit \<Rightarrow> order list \<Rightarrow> datagram list" where
  "posted u os = map (send_to u \<circ> encode_order) (filter (is_due u) os)"

lemma send_pins_due:
  assumes "unit_ok u"
  shows "sends [0..<42] (send_pin u) = Some (posted u (pin_orders u))"
proof -
  note a = unit_okD(8,9,11) [OF assms]
  have "send_pin u k = Some (if output_mode (pinmode (teensy u) ! k) \<and> is_due u (SetPin k (val (teensy u) ! k ! 0))
          then [send_to u (encode_order (SetPin k (val (teensy u) ! k ! 0)))] else [])" if "k < 42" for k
    using that by (simp add: send_pin_def arr_ok_int [OF a(2)] arr_ok_int [OF a(3)] arr_ok_int2 [OF a(1)])
  then have "sends [0..<42] (send_pin u) = Some (map (\<lambda>k. send_to u (encode_order (SetPin k (val (teensy u) ! k ! 0))))
      (filter (\<lambda>k. output_mode (pinmode (teensy u) ! k) \<and> is_due u (SetPin k (val (teensy u) ! k ! 0))) [0..<42]))"
    by (intro sends_filter) simp
  then show ?thesis by (simp only: posted_def pin_orders_def map_filter_orders)
qed

lemma send_mcp_due:
  assumes "unit_ok u" and d: "d < 20"
  shows "send_mcp u d = Some (posted u (mcp_orders u d))"
proof -
  let ?m = "mcp23017 u ! d"
  note a = chip_arrays(1,2,4) [OF chips_ok(1) [OF assms]]
  have "sends [0..<16] (\<lambda>k. do { mode \<leftarrow> arr_get (mcp_pinmode ?m) (int k); v \<leftarrow> arr_get (mcp_val ?m) (int k);
      save \<leftarrow> arr_get (mcp_save ?m) (int k);
      Some (if mode = PINMODE_OUTPUT \<and> v \<noteq> save then [send_to u (value_message MCP23017_TYPE (int d) (int k) v)] else []) }) =
    Some (map (\<lambda>k. send_to u (encode_order (SetMcp d k (mcp_val ?m ! k))))
      (filter (\<lambda>k. mcp_pinmode ?m ! k = PINMODE_OUTPUT \<and> is_due u (SetMcp d k (mcp_val ?m ! k))) [0..<16]))"
    by (rule sends_filter) (simp add: arr_ok_int [OF a(1)] arr_ok_int [OF a(2)] arr_ok_int [OF a(3)])
  then show ?thesis
    by (simp add: send_mcp_def arr_ok_int [OF unit_okD(3) [OF assms(1)] d] posted_def mcp_orders_def Let_def
        map_filter_orders del: comp_apply)
qed

lemma send_pca_due:
  assumes "unit_ok u" and d: "d < 20"
  shows "send_pca u d = Some (posted u (pca_orders u d))"
proof -
  let ?m = "pca9685 u ! d"
  note a = chip_arrays(5-7) [OF chips_ok(2) [OF assms]]
  have "sends [0..<16] (\<lambda>k. do { mode \<leftarrow> arr_get (pca_pinmode ?m) (int k); v \<leftarrow> arr_get (pca_val ?m) (int k);
      save \<leftarrow> arr_get (pca_save ?m) (int k);
      Some (if (mode = PINMODE_PWM \<or> mode = PINMODE_SERVO) \<and> v \<noteq> save
        then [send_to u (value_message PCA9685_TYPE (int d) (int k) v)] else []) }) =
    Some (map (\<lambda>k. send_to u (encode_order (SetPca d k (pca_val ?m ! k))))
      (filter (\<lambda>k. (pca_pinmode ?m ! k = PINMODE_PWM \<or> pca_pinmode ?m ! k = PINMODE_SERVO) \<and>
         is_due u (SetPca d k (pca_val ?m ! k))) [0..<16]))"
    by (rule sends_filter) (simp add: arr_ok_int [OF a(1)] arr_ok_int [OF a(2)] arr_ok_int [OF a(3)])
  then show ?thesis
    by (simp add: send_pca_def arr_ok_int [OF unit_okD(4) [OF assms(1)] d] posted_def pca_orders_def Let_def
        map_filter_orders del: comp_apply)
qed

text \<open>Where every place is an output.\<close>

lemma sends_all:
  assumes "\<And>k. k \<in> set ks \<Longrightarrow> f k = Some (if Q k then [h k] else [])"
  shows "sends ks f = Some (map h (filter Q ks))"
  using sends_filter [of ks f "\<lambda>_. True" Q h] assms by simp

lemma map_filter_all: "map (s \<circ> encode_order) (filter D (map a ks)) =
    map (\<lambda>k. s (encode_order (a k))) (filter (\<lambda>k. D (a k)) ks)"
  by (induction ks) auto

lemma send_ht_due:
  assumes "unit_ok u" and d: "d < 20"
  shows "send_ht u d = Some (posted u (ht_orders u d))"
proof -
  let ?m = "ht16k33 u ! d" let ?o = "\<lambda>g. SetDigit d g (ht_val ?m ! g) (ht_decimalpoint ?m ! g) (ht_brightness ?m)"
  note a = chip_arrays(9-11) [OF chips_ok(3) [OF assms]]
  have "sends [0..<16] (\<lambda>g. do { v \<leftarrow> arr_get (ht_val ?m) (int g); save \<leftarrow> arr_get (ht_save ?m) (int g);
      dp \<leftarrow> arr_get (ht_decimalpoint ?m) (int g);
      Some (if v \<noteq> save then [send_to u (teensy_message [0, 0] TEENSY_REGULAR HT16K33_TYPE (int d) (int g)
        (enc_i16 v @ map word_of_int [dp, ht_brightness ?m]))] else []) }) =
    Some (map (\<lambda>g. send_to u (encode_order (?o g))) (filter (\<lambda>g. is_due u (?o g)) [0..<16]))"
    by (rule sends_all) (simp add: arr_ok_int [OF a(1)] arr_ok_int [OF a(2)] arr_ok_int [OF a(3)])
  then show ?thesis
    by (simp add: send_ht_def arr_ok_int [OF unit_okD(6) [OF assms(1)] d] posted_def ht_orders_def Let_def
        map_filter_all del: comp_apply)
qed

lemma send_pga_due:
  assumes "unit_ok u" and d: "d < 20"
  shows "send_pga u d = Some (posted u (pga_orders u d))"
proof -
  let ?m = "pga2311 u ! d"
  note a = chip_arrays(12,13) [OF chips_ok(4) [OF assms]]
  have "sends [0..<2] (\<lambda>c. do { v \<leftarrow> arr_get (pga_val ?m) (int c); save \<leftarrow> arr_get (pga_save ?m) (int c);
      Some (if v \<noteq> save then [send_to u (value_message PGA2311_TYPE (int d) (int c) v)] else []) }) =
    Some (map (\<lambda>c. send_to u (encode_order (SetVolume d c (pga_val ?m ! c))))
      (filter (\<lambda>c. is_due u (SetVolume d c (pga_val ?m ! c))) [0..<2]))"
    by (rule sends_all) (auto simp: arr_ok_int [OF a(1)] arr_ok_int [OF a(2)])
  then show ?thesis
    by (simp add: send_pga_def arr_ok_int [OF unit_okD(7) [OF assms(1)] d] posted_def pga_orders_def Let_def
        map_filter_all del: comp_apply)
qed

lemma arr_get_first:
  assumes "arr_ok n P xs" and "3 < n"
  shows "arr_get xs 0 = Some (xs ! 0)" "arr_get xs 1 = Some (xs ! 1)" "arr_get xs 2 = Some (xs ! 2)"
    "arr_get xs 3 = Some (xs ! 3)"
  using assms by (auto simp: arr_get_def arr_ok_length)

lemma below_3: "(\<exists>k < 3. P k) \<longleftrightarrow> P 0 \<or> P 1 \<or> P (2 :: nat)"
  by (auto simp: numeral_eq_Suc less_Suc_eq)

lemma send_program_due:
  assumes "unit_ok u" and n: "n < 5"
  shows "send_program u n = Some (posted u (program_orders u n))"
proof -
  let ?p = "program u ! n"
  note p = programs_ok [OF assms]
  note a = arr_get_first [OF chip_arrays(14) [OF p]] arr_get_first [OF chip_arrays(15) [OF p]]
    arr_get_first [OF chip_arrays(16) [OF p]] arr_get_first [OF chip_arrays(17) [OF p]]
  have r: "[0..<3] = [0, 1, 2]" by (simp add: numeral_eq_Suc upt_rec)
  have "program_changed ?p = Some (is_due u (SetProgram n ?p))"
    unfolding program_changed_def r by (auto simp: a below_3)
  moreover have "program_message TEENSY_REGULAR n ?p [word_of_int (val8 ?p ! 3)] = Some (encode_order (SetProgram n ?p))"
    unfolding program_message_def by (simp add: a)
  ultimately show ?thesis
    by (simp add: a send_program_def arr_ok_int [OF unit_okD(2) [OF assms(1)] n] posted_def program_orders_def Let_def)
qed

lemma posted_append: "posted u (a @ b) = posted u a @ posted u b"
  by (simp add: posted_def)

lemma posted_concat: "posted u (concat (map g ks)) = concat (map (\<lambda>k. posted u (g k)) ks)"
  by (induction ks) (simp_all add: posted_append, simp add: posted_def)

lemma sends_posted:
  assumes "\<And>k. k < n \<Longrightarrow> f k = Some (posted u (g k))"
  shows "sends [0..<n] f = Some (posted u (concat (map g [0..<n])))"
  unfolding posted_concat by (rule sends_concat) (simp add: assms)

lemma send_unit_due:
  assumes u: "unit_ok u" and run: "is_running (teensy u)"
  shows "send_unit u = Some (posted u (outputs u))"
  using run
  by (simp add: send_unit_def send_pins_due [OF u] outputs_def posted_append sends_posted [OF send_mcp_due [OF u]]
      sends_posted [OF send_pca_due [OF u]] sends_posted [OF send_ht_due [OF u]]
      sends_posted [OF send_pga_due [OF u]] sends_posted [OF send_program_due [OF u]])

section \<open>The firmware understands the orders\<close>

text \<open>Numbers as bytes.\<close>

lemma uint_of_int: "uint (word_of_int x :: byte) = x mod 256"
  by (simp add: uint_word_of_int)

lemma to_char_byte: "i8 x \<Longrightarrow> to_char (x mod 256) = x"
  by (simp add: to_char_def within_def mod_add_left_eq)

lemma uint_of_nat: "n < 128 \<Longrightarrow> uint (word_of_nat n :: byte) = int n"
  by (simp add: unsigned_of_nat take_bit_nat_eq_self)

lemma to_char_nat: "n < 128 \<Longrightarrow> to_char (int n) = int n"
  by simp

lemma dec_enc_i16: "i16 v \<Longrightarrow> dec_i16 (enc_i16 v) = v"
proof -
  assume v: "i16 v"
  have "v mod 256 + 256 * (v div 256 mod 256) = v mod 65536"
    using mod_mult2_eq' [of v 256 256] by simp
  moreover have "to_i16 (v mod 65536) = to_i16 v" by (simp add: to_i16_def mod_add_left_eq)
  ultimately show ?thesis using v by (simp add: dec_i16_def enc_i16_def uint_of_int)
qed

fun fits :: "order \<Rightarrow> bool" where
  "fits (SetPin k v) \<longleftrightarrow> k < MAX_PINS \<and> i16 v"
| "fits (SetMcp d k v) \<longleftrightarrow> d < MAX_DEV \<and> k < MCP23017_MAX_PINS \<and> i16 v"
| "fits (SetPca d k v) \<longleftrightarrow> d < MAX_DEV \<and> k < PCA9685_MAX_PINS \<and> i16 v"
| "fits (SetDigit d g v dp b) \<longleftrightarrow> d < MAX_DEV \<and> g < HT16K33_MAX_DIG \<and> i16 v \<and> i8 dp \<and> i8 b"
| "fits (SetVolume d c v) \<longleftrightarrow> d < MAX_DEV \<and> c < PGA2311_MAX_CHANNELS \<and> i16 v"
| "fits (SetProgram n p) \<longleftrightarrow> n < MAX_PROG \<and> program_ok p"

text \<open>What an order asks the firmware for.\<close>

fun obey :: "board_io \<Rightarrow> order \<Rightarrow> firmware \<Rightarrow> firmware option" where
  "obey io (SetPin k v) f = teensy_write (int k) v f"
| "obey io (SetMcp d k v) f =
     report io MCP23017_TYPE (encode_order (SetMcp d k v)) (mcp23017_write (int d) (int k) v f)"
| "obey io (SetPca d k v) f =
     report io PCA9685_TYPE (encode_order (SetPca d k v)) (pca9685_write (int d) (int k) v f)"
| "obey io (SetDigit d g v dp b) f =
     report io HT16K33_TYPE (encode_order (SetDigit d g v dp b)) (ht16k33_write (int d) (int g) v dp b f)"
| "obey io (SetVolume d c v) f =
     report io PGA2311_TYPE (encode_order (SetVolume d c v)) (pga2311_write (int d) (int c) v f)"
| "obey io (SetProgram n p) f =
     do {
       q \<leftarrow> arr_get (program (dat f)) (int n);
       v16 \<leftarrow> arr_set (val16 q) 0 (val16 p ! 0);
       v16 \<leftarrow> arr_set v16 1 (val16 p ! 1);
       v16 \<leftarrow> arr_set v16 2 (val16 p ! 2);
       v8 \<leftarrow> arr_set (val8 q) 0 (val8 p ! 0);
       v8 \<leftarrow> arr_set v8 1 (val8 p ! 1);
       v8 \<leftarrow> arr_set v8 2 (val8 p ! 2);
       store_program (int n) (q\<lparr>val16 := v16, val8 := v8\<rparr>) f
     }"

lemmas message_simps = teensy_message_def u8_def s8_def s16_def enc_i16_def uint_of_int uint_of_nat to_char_nat
  to_char_byte

lemma value_message_bytes:
  assumes "dt < 256" "0 \<le> dt" "n < 128" "k < 128" "i16 v"
  defines "m \<equiv> value_message dt (int n) (int k) v"
  shows "length m = 16" "m ! 0 = TEENSY_ID1" "m ! Suc 0 = TEENSY_ID2" "u8 m 4 = TEENSY_REGULAR" "u8 m 5 = dt"
    "s8 m 6 = int n" "u8 m 6 = int n" "s8 m 7 = int k" "s16 m 8 = v" "m \<noteq> []"
  using assms dec_enc_i16 [OF assms(5)]
  by (simp_all add: value_message_def message_simps)

lemma digit_message_bytes:
  assumes "n < 128" "k < 128" "i16 v" "i8 dp" "i8 b"
  defines "m \<equiv> encode_order (SetDigit n k v dp b)"
  shows "length m = 16" "m ! 0 = TEENSY_ID1" "m ! Suc 0 = TEENSY_ID2" "u8 m 4 = TEENSY_REGULAR"
    "u8 m 5 = HT16K33_TYPE" "s8 m 6 = int n" "s8 m 7 = int k" "s16 m 8 = v" "s8 m 10 = dp" "s8 m 11 = b" "m \<noteq> []"
  using assms dec_enc_i16 [OF assms(3)]
  by (simp_all add: message_simps)

lemma program_bytes:
  fixes t y3 :: int
  assumes "n < 128" and v: "i16 x0" "i16 x1" "i16 x2" and b: "i8 y0" "i8 y1" "i8 y2"
  defines "m \<equiv> teensy_message (map word_of_int [y0, y1]) TEENSY_REGULAR PROGRAM_TYPE t (int n)
       (enc_i16 x0 @ enc_i16 x1 @ enc_i16 x2 @ [word_of_int y2] @ [word_of_int y3])"
  shows "length m = 16" "m ! 0 = TEENSY_ID1" "m ! Suc 0 = TEENSY_ID2" "u8 m 4 = TEENSY_REGULAR"
    "u8 m 5 = PROGRAM_TYPE" "s8 m 7 = int n" "s16 m 8 = x0" "s16 m 10 = x1"
    "s16 m 12 = x2" "s8 m 2 = y0" "s8 m 3 = y1" "s8 m 14 = y2" "m \<noteq> []"
proof -
  obtain l0 h0 l1 h1 l2 h2 where e: "enc_i16 x0 = [l0, h0]" "enc_i16 x1 = [l1, h1]" "enc_i16 x2 = [l2, h2]"
    by (simp add: enc_i16_def)
  obtain c0 c1 c2 c3 n' t' where c: "word_of_int y0 = (c0 :: byte)" "word_of_int y1 = (c1 :: byte)"
    "word_of_int y2 = (c2 :: byte)" "word_of_int y3 = (c3 :: byte)" "word_of_nat n = (n' :: byte)"
    "word_of_int t = (t' :: byte)"
    by simp
  have m: "m = [TEENSY_ID1, TEENSY_ID2, c0, c1, 2, 20, t', n', l0, h0, l1, h1, l2, h2, c2, c3]"
    by (simp add: m_def teensy_message_def e c)
  show "length m = 16" "m ! 0 = TEENSY_ID1" "m ! Suc 0 = TEENSY_ID2" "u8 m 4 = TEENSY_REGULAR" "u8 m 5 = PROGRAM_TYPE"
    "m \<noteq> []"
    by (simp_all add: m u8_def)
  show "s8 m 7 = int n" using uint_of_nat [OF assms(1)] to_char_nat [OF assms(1)] by (simp add: m s8_def c)
  show "s16 m 8 = x0" "s16 m 10 = x1" "s16 m 12 = x2"
    using dec_enc_i16 [OF v(1)] dec_enc_i16 [OF v(2)] dec_enc_i16 [OF v(3)] by (simp_all add: m e s16_def)
  show "s8 m 2 = y0" "s8 m 3 = y1" "s8 m 14 = y2"
    by (simp_all add: m s8_def uint_of_int to_char_byte b flip: c)
qed

lemma program_message_bytes:
  assumes "n < 128" and p: "program_ok q"
  defines "m \<equiv> encode_order (SetProgram n q)"
  shows "length m = 16" "m ! 0 = TEENSY_ID1" "m ! Suc 0 = TEENSY_ID2" "u8 m 4 = TEENSY_REGULAR"
    "u8 m 5 = PROGRAM_TYPE" "s8 m 7 = int n" "s16 m 8 = val16 q ! 0" "s16 m 10 = val16 q ! 1"
    "s16 m 12 = val16 q ! 2" "s8 m 2 = val8 q ! 0" "s8 m 3 = val8 q ! 1" "s8 m 14 = val8 q ! 2" "m \<noteq> []"
proof -
  have a: "i16 (val16 q ! k)" "i8 (val8 q ! k)" if "k < 10" for k
    using chip_arrays(14,15) [OF p] that by (auto intro: arr_ok_nth)
  have "i16 (val16 q ! 0)" "i16 (val16 q ! 1)" "i16 (val16 q ! 2)" "i8 (val8 q ! 0)" "i8 (val8 q ! 1)"
    "i8 (val8 q ! 2)"
    using a by simp_all
  from program_bytes [OF \<open>n < 128\<close> this, where t = "prog_type q" and ?y3.0 = "val8 q ! 3"]
  show "length m = 16" "m ! 0 = TEENSY_ID1" "m ! Suc 0 = TEENSY_ID2" "u8 m 4 = TEENSY_REGULAR"
    "u8 m 5 = PROGRAM_TYPE" "s8 m 7 = int n" "s16 m 8 = val16 q ! 0" "s16 m 10 = val16 q ! 1"
    "s16 m 12 = val16 q ! 2" "s8 m 2 = val8 q ! 0" "s8 m 3 = val8 q ! 1" "s8 m 14 = val8 q ! 2" "m \<noteq> []"
    unfolding m_def encode_order.simps by this
qed

lemma order_received:
  assumes "fits o'"
  shows "FirmwareLoop.udp_receive io (Some (p, encode_order o')) f = obey io o' (f\<lparr>remotePort := p\<rparr>)"
proof (cases o')
  case (SetPin k v)
  with assms value_message_bytes [of 0 0 k v] show ?thesis
    by (simp add: FirmwareLoop.udp_receive_def receive_teensy_def)
next
  case (SetMcp d k v)
  with assms value_message_bytes [of 101 d k v] show ?thesis
    by (simp add: FirmwareLoop.udp_receive_def receive_chip_def Let_def)
next
  case (SetPca d k v)
  with assms value_message_bytes [of 102 d k v] show ?thesis
    by (simp add: FirmwareLoop.udp_receive_def receive_chip_def Let_def)
next
  case (SetDigit d g v dp b)
  with assms digit_message_bytes [of d g v dp b] show ?thesis
    by (simp add: FirmwareLoop.udp_receive_def receive_chip_def Let_def del: encode_order.simps)
next
  case (SetVolume d c v)
  with assms value_message_bytes [of 113 d c v] show ?thesis
    by (simp add: FirmwareLoop.udp_receive_def receive_chip_def Let_def)
next
  case (SetProgram n q)
  with assms program_message_bytes [of n q] show ?thesis
    by (simp add: FirmwareLoop.udp_receive_def receive_chip_def Let_def receive_program_def del: encode_order.simps)
qed

section \<open>A cycle of the driver on the board\<close>

lemma outputs_fit:
  assumes "unit_ok u" and "o' \<in> set (outputs u)"
  shows "fits o'"
proof -
  have "i16 (val (teensy u) ! k ! 0)" if "k < 42" for k
    using arr_ok_nth [OF unit_okD(8) [OF assms(1)] that] by (rule arr_ok_nth) simp
  moreover have "i16 (mcp_val (mcp23017 u ! d) ! k)" "i16 (pca_val (pca9685 u ! d) ! k)"
    "i16 (ht_val (ht16k33 u ! d) ! k)" "i8 (ht_decimalpoint (ht16k33 u ! d) ! k)" if "d < 20" "k < 16" for d k
    using chips_ok [OF assms(1) that(1)] that(2) by (blast intro: chip_arrays [THEN arr_ok_nth])+
  moreover have "i16 (pga_val (pga2311 u ! d) ! k)" if "d < 20" "k < 2" for d k
    using chips_ok [OF assms(1) that(1)] that(2) by (blast intro: chip_arrays [THEN arr_ok_nth])
  moreover have "i8 (ht_brightness (ht16k33 u ! d))" if "d < 20" for d
    using chips_ok(3) [OF assms(1) that] by (simp add: ht_ok_def)
  ultimately show ?thesis using assms(2) programs_ok [OF assms(1)]
    by (auto simp: outputs_def pin_orders_def mcp_orders_def pca_orders_def ht_orders_def pga_orders_def
        program_orders_def Let_def split: if_splits)
qed

definition due :: "teensy_unit \<Rightarrow> order list" where
  "due u = filter (is_due u) (outputs u)"

lemma cycle_obeyed:
  assumes "unit_ok u"
  shows "for_each (posted u (outputs u)) (\<lambda>(a, q, m). FirmwareLoop.udp_receive io (Some (p, m))) f =
    for_each (due u) (\<lambda>o' f. obey io o' (f\<lparr>remotePort := p\<rparr>)) f"
proof -
  have "fits o'" if "o' \<in> set (filter (is_due u) (outputs u))" for o'
    using that outputs_fit [OF assms] by simp
  then show ?thesis
    unfolding posted_def for_each_map due_def
    by (intro for_each_cong refl) (simp add: send_to_def order_received)
qed

end
