(* ===== verification/TeensyBoard.thy ===== *)
theory TeensyBoard
  imports TeensyWire
begin

text \<open>
  What a board shows: the last that its hardware has been told about a place. Obeying an order changes the
  place the order is for, and no other.
\<close>

section \<open>Places of the hardware\<close>

datatype spot = Line int | ServoNo int | Bank int bool | Channel int int | Digit int int | Elsewhere

fun place :: "hw \<Rightarrow> spot" where
  "place (DigitalWrite k _) = Line k"
| "place (AnalogWrite k _) = Line k"
| "place (ServoWrite i _) = ServoNo i"
| "place (WriteGPIOA d _) = Bank d True"
| "place (WriteGPIOB d _) = Bank d False"
| "place (PcaPin d k _) = Channel d k"
| "place (PcaMicroseconds d k _) = Channel d k"
| "place (Ht7Seg d g _ _) = Digit d g"
| "place _ = Elsewhere"

definition places :: "hw list \<Rightarrow> spot set" where
  "places es = place ` set es - {Elsewhere}"

text \<open>The actions \<open>es\<close> have been carried out one after the other, and nothing on their places since.\<close>

definition shown :: "hw list \<Rightarrow> firmware \<Rightarrow> bool" where
  "shown es f \<longleftrightarrow> (\<exists>before after. effects f = before @ es @ after \<and> places after \<inter> places es = {})"

lemma places_simps [simp]:
  "places [] = {}" "places (e # es) = (if place e = Elsewhere then {} else {place e}) \<union> places es"
  "places (es @ ds) = places es \<union> places ds"
  by (auto simp: places_def)

lemma shown_now: "effects f' = effects f @ es \<Longrightarrow> shown es f'"
  by (force simp: shown_def)

lemma shown_later: "shown es f \<Longrightarrow> effects f' = effects f @ ds \<Longrightarrow> places ds \<inter> places es = {} \<Longrightarrow> shown es f'"
  unfolding shown_def
proof (elim exE conjE)
  fix before after
  assume "effects f' = effects f @ ds" "places ds \<inter> places es = {}" "effects f = before @ es @ after"
    "places after \<inter> places es = {}"
  then have "effects f' = before @ es @ (after @ ds) \<and> places (after @ ds) \<inter> places es = {}" by auto
  then show "\<exists>before after. effects f' = before @ es @ after \<and> places after \<inter> places es = {}" by blast
qed

section \<open>Which orders are accepted, and what they bring about\<close>

text \<open>What a pin of the board does with a value, and the places it uses, by its mode.\<close>

definition drive :: "firmware \<Rightarrow> nat \<Rightarrow> int \<Rightarrow> hw list" where
  "drive f k v =
     (let t = teensy (dat f); mode = pinmode t ! k
      in if mode = PINMODE_OUTPUT then [DigitalWrite (int k) v]
         else if mode = PINMODE_PWM then [AnalogWrite (int k) v]
         else if mode = PINMODE_MOTOR then drive_motor (int k) (arg1 t ! k) (arg2 t ! k) v
         else if mode = PINMODE_SERVO then [ServoWrite (arg1 t ! k) v] else [])"

definition pin_places :: "firmware \<Rightarrow> nat \<Rightarrow> spot set" where
  "pin_places f k = places (drive f k 0)"

definition channel_write :: "firmware \<Rightarrow> nat \<Rightarrow> nat \<Rightarrow> int \<Rightarrow> hw" where
  "channel_write f d k v =
     (if pca_pinmode (pca9685 (dat f) ! d) ! k = PINMODE_PWM then PcaPin (int d) (int k) v
      else PcaMicroseconds (int d) (int k) v)"

fun accepts :: "firmware \<Rightarrow> order \<Rightarrow> bool" where
  "accepts f (SetPin k v) \<longleftrightarrow> v \<noteq> INITVAL \<and>
     (let t = teensy (dat f); mode = pinmode t ! k
      in mode = PINMODE_OUTPUT \<and> (v = 0 \<or> v = 1) \<or> mode = PINMODE_PWM \<or> mode = PINMODE_MOTOR \<or>
         mode = PINMODE_SERVO \<and> 0 \<le> arg1 t ! k \<and> arg1 t ! k < num_servo t)"
| "accepts f (SetMcp d k v) \<longleftrightarrow>
     mcp_connected (mcp23017 (dat f) ! d) = 1 \<and> mcp_pinmode (mcp23017 (dat f) ! d) ! k = PINMODE_OUTPUT \<and>
     (v = 0 \<or> v = 1)"
| "accepts f (SetPca d k v) \<longleftrightarrow>
     pca_connected (pca9685 (dat f) ! d) = 1 \<and> v \<noteq> INITVAL \<and>
     (let mode = pca_pinmode (pca9685 (dat f) ! d) ! k
      in mode = PINMODE_PWM \<and> 0 \<le> v \<and> v < 4096 \<or> mode = PINMODE_SERVO \<and> 600 \<le> v \<and> v \<le> 2400)"
| "accepts f (SetDigit d g v _ _) \<longleftrightarrow>
     ht_connected (ht16k33 (dat f) ! d) = 1 \<and> v \<noteq> ht_val (ht16k33 (dat f) ! d) ! g"
| "accepts f (SetVolume d c v) \<longleftrightarrow> pga_connected (pga2311 (dat f) ! d) = 1"
| "accepts f (SetProgram n p) \<longleftrightarrow> True"

definition port_write :: "nat \<Rightarrow> nat \<Rightarrow> byte \<Rightarrow> hw" where
  "port_write d k bits = (if k < 8 then WriteGPIOA (int d) bits else WriteGPIOB (int d) bits)"

definition volume_frame :: "pga2311_struct \<Rightarrow> hw list" where
  "volume_frame m =
     [DigitalWrite (pga_cs m) 0, SpiTransfer (word_of_int (pga_val m ! 1)),
      SpiTransfer (word_of_int (pga_val m ! 0)), DigitalWrite (pga_cs m) 1]"

definition volume :: "int \<Rightarrow> int" where
  "volume v = min 255 (max 0 v)"

text \<open>A volume control that has never been selected is at its initial volume, 0.\<close>

definition volume_current :: "firmware \<Rightarrow> nat \<Rightarrow> bool" where
  "volume_current f d \<longleftrightarrow>
     (let m = pga2311 (dat f) ! d
      in shown (volume_frame m) f \<or>
         pga_val m ! 0 = 0 \<and> pga_val m ! 1 = 0 \<and> DigitalWrite (pga_cs m) 0 \<notin> set (effects f))"

text \<open>The hardware at the place of an order is as the order asks for.\<close>

fun board_shows :: "firmware \<Rightarrow> order \<Rightarrow> bool" where
  "board_shows f (SetPin k v) \<longleftrightarrow> shown (drive f k v) f"
| "board_shows f (SetMcp d k v) \<longleftrightarrow> (\<exists>bits. shown [port_write d k bits] f \<and> (bit bits (k mod 8) \<longleftrightarrow> v = 1))"
| "board_shows f (SetPca d k v) \<longleftrightarrow> shown [channel_write f d k v] f"
| "board_shows f (SetDigit d g v dp b) \<longleftrightarrow>
     shown [HtBrightness (int d) b, Ht7Seg (int d) (int g) v (dp = 1), HtSendLed (int d)] f"
| "board_shows f (SetVolume d c v) \<longleftrightarrow> pga_val (pga2311 (dat f) ! d) ! c = volume v \<and> volume_current f d"
| "board_shows f (SetProgram n p) \<longleftrightarrow>
     (let q = program (dat f) ! n in \<forall>k < 3. val8 q ! k = val8 p ! k \<and> val16 q ! k = val16 p ! k)"

text \<open>
  The tables of the firmware: a chip whose present value is that of the order. Where a chip is written only
  when its value changes, the hardware has to agree with the table.
\<close>

fun noted :: "firmware \<Rightarrow> order \<Rightarrow> bool" where
  "noted f (SetMcp d k v) \<longleftrightarrow> mcp_val (mcp23017 (dat f) ! d) ! k = v"
| "noted f (SetPca d k v) \<longleftrightarrow> pca_val (pca9685 (dat f) ! d) ! k = v"
| "noted f (SetVolume d c v) \<longleftrightarrow> pga_val (pga2311 (dat f) ! d) ! c = volume v"
| "noted f o' \<longleftrightarrow> board_shows f o'"

definition port_current :: "firmware \<Rightarrow> nat \<Rightarrow> nat \<Rightarrow> bool" where
  "port_current f d k \<longleftrightarrow>
     (\<exists>bits. shown [port_write d k bits] f \<and>
        (\<forall>b < 8. bit bits b \<longleftrightarrow> mcp_val (mcp23017 (dat f) ! d) ! ((if k < 8 then 0 else 8) + b) = 1))"

definition mirrors :: "firmware \<Rightarrow> bool" where
  "mirrors f \<longleftrightarrow>
     (\<forall>d < MAX_DEV.
        (\<forall>k < MCP23017_MAX_PINS. accepts f (SetMcp d k (mcp_val (mcp23017 (dat f) ! d) ! k)) \<longrightarrow> port_current f d k) \<and>
        (\<forall>k < PCA9685_MAX_PINS. let v = pca_val (pca9685 (dat f) ! d) ! k
           in accepts f (SetPca d k v) \<longrightarrow> shown [channel_write f d k v] f) \<and>
        (pga_connected (pga2311 (dat f) ! d) = 1 \<longrightarrow> volume_current f d))"

text \<open>No line of the board serves two purposes.\<close>

definition wired :: "firmware \<Rightarrow> bool" where
  "wired f \<longleftrightarrow>
     (\<forall>k < MAX_PINS. \<forall>k' < MAX_PINS. k \<noteq> k' \<longrightarrow> pin_places f k \<inter> pin_places f k' = {}) \<and>
     (\<forall>d < MAX_DEV. pga_connected (pga2311 (dat f) ! d) = 1 \<longrightarrow>
        (\<forall>k < MAX_PINS. Line (pga_cs (pga2311 (dat f) ! d)) \<notin> pin_places f k) \<and>
        (\<forall>d' < MAX_DEV. d \<noteq> d' \<and> pga_connected (pga2311 (dat f) ! d') = 1 \<longrightarrow>
           pga_cs (pga2311 (dat f) ! d) \<noteq> pga_cs (pga2311 (dat f) ! d')))"

text \<open>The part of the data that orders do not change.\<close>

definition settings :: "firmware \<Rightarrow> teensy_unit" where
  "settings f =
     (let u = dat f
      in u\<lparr>teensy := (teensy u)\<lparr>val := []\<rparr>, mcp23017 := map (\<lambda>d. d\<lparr>mcp_val := []\<rparr>) (mcp23017 u),
        pca9685 := map (\<lambda>d. d\<lparr>pca_val := []\<rparr>) (pca9685 u), pga2311 := map (\<lambda>d. d\<lparr>pga_val := []\<rparr>) (pga2311 u),
        program := []\<rparr>)"

definition good :: "firmware \<Rightarrow> bool" where
  "good f \<longleftrightarrow> unit_ok (dat f) \<and> wired f \<and> mirrors f"

text \<open>The address of an order.\<close>

fun address :: "order \<Rightarrow> int \<times> nat \<times> nat" where
  "address (SetPin k _) = (TEENSY_TYPE, 0, k)"
| "address (SetMcp d k _) = (MCP23017_TYPE, d, k)"
| "address (SetPca d k _) = (PCA9685_TYPE, d, k)"
| "address (SetDigit d g _ _ _) = (HT16K33_TYPE, d, g)"
| "address (SetVolume d c _) = (PGA2311_TYPE, d, c)"
| "address (SetProgram n _) = (PROGRAM_TYPE, 0, n)"

lemma noted_shown:
  assumes "mirrors f" and "fits o'" and "accepts f o'" and "noted f o'"
  shows "board_shows f o'"
proof (cases o')
  case (SetMcp d k v)
  with assms have "port_current f d k" by (auto simp: mirrors_def)
  then obtain bits where s: "shown [port_write d k bits] f"
    and b: "\<And>b. b < 8 \<Longrightarrow> bit bits b \<longleftrightarrow> mcp_val (mcp23017 (dat f) ! d) ! ((if k < 8 then 0 else 8) + b) = 1"
    by (auto simp: port_current_def)
  have "(if k < 8 then 0 else 8) + k mod 8 = k" using assms(2) SetMcp by (auto simp: mod_if)
  with b [of "k mod 8"] have "bit bits (k mod 8) \<longleftrightarrow> mcp_val (mcp23017 (dat f) ! d) ! k = 1" by simp
  with s assms(4) SetMcp show ?thesis by auto
qed (use assms in \<open>auto simp: mirrors_def Let_def\<close>)

section \<open>What an order leaves alone\<close>

lemma settings_teensy:
  assumes "settings f' = settings f"
  shows "pinmode (teensy (dat f')) = pinmode (teensy (dat f))" "arg1 (teensy (dat f')) = arg1 (teensy (dat f))"
    "arg2 (teensy (dat f')) = arg2 (teensy (dat f))" "num_servo (teensy (dat f')) = num_servo (teensy (dat f))"
    "ht16k33 (dat f') = ht16k33 (dat f)"
  using arg_cong [OF assms, of "\<lambda>u. pinmode (teensy u)"] arg_cong [OF assms, of "\<lambda>u. arg1 (teensy u)"]
    arg_cong [OF assms, of "\<lambda>u. arg2 (teensy u)"] arg_cong [OF assms, of "\<lambda>u. num_servo (teensy u)"]
    arg_cong [OF assms, of ht16k33]
  by (simp_all add: settings_def Let_def)

lemma nth_of_maps: "map g xs = map g ys \<Longrightarrow> k < length ys \<Longrightarrow> g (xs ! k) = g (ys ! k)"
  by (metis length_map nth_map)

lemma settings_chips:
  assumes "settings f' = settings f" and "unit_ok (dat f)" and d: "d < 20"
  shows "mcp_connected (mcp23017 (dat f') ! d) = mcp_connected (mcp23017 (dat f) ! d)"
    "mcp_pinmode (mcp23017 (dat f') ! d) = mcp_pinmode (mcp23017 (dat f) ! d)"
    "pca_connected (pca9685 (dat f') ! d) = pca_connected (pca9685 (dat f) ! d)"
    "pca_pinmode (pca9685 (dat f') ! d) = pca_pinmode (pca9685 (dat f) ! d)"
    "pga_connected (pga2311 (dat f') ! d) = pga_connected (pga2311 (dat f) ! d)"
    "pga_cs (pga2311 (dat f') ! d) = pga_cs (pga2311 (dat f) ! d)"
proof -
  note l = unit_okD(3,4,7) [OF assms(2), THEN arr_ok_length]
  have m: "map (\<lambda>d. d\<lparr>mcp_val := []\<rparr>) (mcp23017 (dat f')) = map (\<lambda>d. d\<lparr>mcp_val := []\<rparr>) (mcp23017 (dat f))"
    "map (\<lambda>d. d\<lparr>pca_val := []\<rparr>) (pca9685 (dat f')) = map (\<lambda>d. d\<lparr>pca_val := []\<rparr>) (pca9685 (dat f))"
    "map (\<lambda>d. d\<lparr>pga_val := []\<rparr>) (pga2311 (dat f')) = map (\<lambda>d. d\<lparr>pga_val := []\<rparr>) (pga2311 (dat f))"
    using arg_cong [OF assms(1), of mcp23017] arg_cong [OF assms(1), of pca9685] arg_cong [OF assms(1), of pga2311]
    by (simp_all add: settings_def Let_def)
  note n = nth_of_maps [OF m(1), of d] nth_of_maps [OF m(2), of d] nth_of_maps [OF m(3), of d]
  show "mcp_connected (mcp23017 (dat f') ! d) = mcp_connected (mcp23017 (dat f) ! d)"
    "mcp_pinmode (mcp23017 (dat f') ! d) = mcp_pinmode (mcp23017 (dat f) ! d)"
    using arg_cong [OF n(1), of mcp_connected] arg_cong [OF n(1), of mcp_pinmode] d l by simp_all
  show "pca_connected (pca9685 (dat f') ! d) = pca_connected (pca9685 (dat f) ! d)"
    "pca_pinmode (pca9685 (dat f') ! d) = pca_pinmode (pca9685 (dat f) ! d)"
    using arg_cong [OF n(2), of pca_connected] arg_cong [OF n(2), of pca_pinmode] d l by simp_all
  show "pga_connected (pga2311 (dat f') ! d) = pga_connected (pga2311 (dat f) ! d)"
    "pga_cs (pga2311 (dat f') ! d) = pga_cs (pga2311 (dat f) ! d)"
    using arg_cong [OF n(3), of pga_connected] arg_cong [OF n(3), of pga_cs] d l by simp_all
qed

lemma settings_drive: "settings f' = settings f \<Longrightarrow> drive f' = drive f \<and> pin_places f' = pin_places f"
  using settings_teensy [of f' f] by (simp add: fun_eq_iff drive_def pin_places_def Let_def)

lemma settings_accepts:
  assumes "settings f' = settings f" and "unit_ok (dat f)" and "fits o'"
  shows "accepts f' o' = accepts f o'"
  using settings_teensy [OF assms(1)] settings_chips [OF assms(1,2)] assms(3)
  by (cases o') (simp_all add: Let_def)

lemma settings_channel:
  "settings f' = settings f \<Longrightarrow> unit_ok (dat f) \<Longrightarrow> d < 20 \<Longrightarrow> channel_write f' d k v = channel_write f d k v"
  using settings_chips(4) [of f' f d] by (simp add: channel_write_def)

lemma settings_wired: "settings f' = settings f \<Longrightarrow> unit_ok (dat f) \<Longrightarrow> wired f' = wired f"
  using settings_drive [of f' f] settings_chips(5,6) [of f' f] by (simp add: wired_def)

lemma drive_places: "places (drive f k v) = pin_places f k"
  by (auto simp: pin_places_def drive_def drive_motor_def Let_def)

lemma pin_places_lines: "x \<in> pin_places f k \<Longrightarrow> (\<exists>l. x = Line l) \<or> (\<exists>i. x = ServoNo i)"
  by (auto simp: pin_places_def drive_def drive_motor_def Let_def split: if_splits)

text \<open>What has to hold between two states for an order to stay noted.\<close>

fun apart :: "firmware \<Rightarrow> firmware \<Rightarrow> hw list \<Rightarrow> order \<Rightarrow> bool" where
  "apart f f' es (SetPin k v) \<longleftrightarrow> places es \<inter> pin_places f k = {}"
| "apart f f' es (SetMcp d k v) \<longleftrightarrow> mcp_val (mcp23017 (dat f') ! d) ! k = mcp_val (mcp23017 (dat f) ! d) ! k"
| "apart f f' es (SetPca d k v) \<longleftrightarrow> pca_val (pca9685 (dat f') ! d) ! k = pca_val (pca9685 (dat f) ! d) ! k"
| "apart f f' es (SetDigit d g v dp b) \<longleftrightarrow> Digit (int d) (int g) \<notin> places es"
| "apart f f' es (SetVolume d c v) \<longleftrightarrow> pga_val (pga2311 (dat f') ! d) ! c = pga_val (pga2311 (dat f) ! d) ! c"
| "apart f f' es (SetProgram n p) \<longleftrightarrow> program (dat f') ! n = program (dat f) ! n"

lemma noted_later:
  assumes "noted f o'" and "settings f' = settings f" and "effects f' = effects f @ es" and "apart f f' es o'"
  shows "noted f' o'"
  using assms(1,4) settings_drive [OF assms(2)]
  by (cases o') (auto simp: drive_places intro!: shown_later [OF _ assms(3)])

lemma port_current_later:
  assumes "port_current f d k" and "effects f' = effects f @ es" and "Bank (int d) (k < 8) \<notin> places es"
    and "\<And>b. b < 8 \<Longrightarrow> mcp_val (mcp23017 (dat f') ! d) ! ((if k < 8 then 0 else 8) + b) =
      mcp_val (mcp23017 (dat f) ! d) ! ((if k < 8 then 0 else 8) + b)"
  shows "port_current f' d k"
proof -
  from assms(1) obtain bits where s: "shown [port_write d k bits] f"
    and b: "\<forall>b < 8. bit bits b \<longleftrightarrow> mcp_val (mcp23017 (dat f) ! d) ! ((if k < 8 then 0 else 8) + b) = 1"
    by (auto simp: port_current_def)
  from shown_later [OF s assms(2)] assms(3) have "shown [port_write d k bits] f'"
    by (auto simp: port_write_def split: if_splits)
  with b assms(4) show ?thesis by (auto simp: port_current_def)
qed

lemma volume_current_later:
  assumes "volume_current f d" and "effects f' = effects f @ es" and "Line (pga_cs (pga2311 (dat f) ! d)) \<notin> places es"
    and "pga2311 (dat f') ! d = pga2311 (dat f) ! d"
  shows "volume_current f' d"
proof -
  have "DigitalWrite (pga_cs (pga2311 (dat f) ! d)) 0 \<notin> set es" using assms(3) by (force simp: places_def)
  then show ?thesis
    using assms by (auto simp: volume_current_def Let_def volume_frame_def intro: shown_later [OF _ assms(2)])
qed

end
