(* ===== verification/TeensyMirror.thy ===== *)
theory TeensyMirror
  imports TeensyBoard
begin

text \<open>
  Every order that arrives is carried out: its place of the board is as it asks for, if the board accepts it,
  and all other places are as before.
\<close>

section \<open>One order\<close>

definition carried_out :: "firmware \<Rightarrow> order \<Rightarrow> firmware \<Rightarrow> bool" where
  "carried_out f o' f' \<longleftrightarrow>
     good f' \<and> settings f' = settings f \<and> (accepts f o' \<longrightarrow> noted f' o') \<and>
     (\<forall>b. fits b \<and> address b \<noteq> address o' \<and> noted f b \<longrightarrow> noted f' b)"

text \<open>The parts of \<open>mirrors\<close>, and how they are kept.\<close>

lemma mirrorsI:
  assumes "\<And>d k. d < 20 \<Longrightarrow> k < 16 \<Longrightarrow> accepts f (SetMcp d k (mcp_val (mcp23017 (dat f) ! d) ! k)) \<Longrightarrow> port_current f d k"
    and "\<And>d k. d < 20 \<Longrightarrow> k < 16 \<Longrightarrow> accepts f (SetPca d k (pca_val (pca9685 (dat f) ! d) ! k)) \<Longrightarrow>
        shown [channel_write f d k (pca_val (pca9685 (dat f) ! d) ! k)] f"
    and "\<And>d. d < 20 \<Longrightarrow> pga_connected (pga2311 (dat f) ! d) = 1 \<Longrightarrow> volume_current f d"
  shows "mirrors f"
  using assms unfolding mirrors_def Let_def by blast

lemma mirrorsD:
  assumes "mirrors f" and "d < 20"
  shows "k < 16 \<Longrightarrow> accepts f (SetMcp d k (mcp_val (mcp23017 (dat f) ! d) ! k)) \<Longrightarrow> port_current f d k"
    and "k < 16 \<Longrightarrow> accepts f (SetPca d k (pca_val (pca9685 (dat f) ! d) ! k)) \<Longrightarrow>
        shown [channel_write f d k (pca_val (pca9685 (dat f) ! d) ! k)] f"
    and "pga_connected (pga2311 (dat f) ! d) = 1 \<Longrightarrow> volume_current f d"
  using assms unfolding mirrors_def Let_def by blast+

text \<open>A step between two states that has told the hardware \<open>es\<close>.\<close>

definition order_step :: "firmware \<Rightarrow> hw list \<Rightarrow> firmware \<Rightarrow> bool" where
  "order_step f es f' \<longleftrightarrow>
     good f \<and> settings f' = settings f \<and> unit_ok (dat f') \<and> effects f' = effects f @ es"

lemma order_stepD:
  assumes "order_step f es f'"
  shows "unit_ok (dat f)" "wired f" "mirrors f" "settings f' = settings f" "unit_ok (dat f')"
    "effects f' = effects f @ es" "wired f'"
  using assms settings_wired [of f' f] by (simp_all add: order_step_def good_def)

lemma accepts_later: "order_step f es f' \<Longrightarrow> fits b \<Longrightarrow> accepts f' b = accepts f b"
  using order_stepD(1,4) settings_accepts by blast

lemma mcp_kept:
  assumes "order_step f es f'" and "Bank (int d) (k < 8) \<notin> places es" and "d < 20" "k < 16"
    and same: "\<And>b. b < 16 \<Longrightarrow> (b < 8 \<longleftrightarrow> k < 8) \<Longrightarrow> mcp_val (mcp23017 (dat f') ! d) ! b = mcp_val (mcp23017 (dat f) ! d) ! b"
    and a: "accepts f' (SetMcp d k (mcp_val (mcp23017 (dat f') ! d) ! k))"
  shows "port_current f' d k"
proof -
  note s = order_stepD [OF assms(1)]
  have "accepts f (SetMcp d k (mcp_val (mcp23017 (dat f) ! d) ! k))"
    using a same [of k] settings_chips [OF s(4,1) assms(3)] assms(4) by simp
  from mirrorsD(1) [OF s(3) assms(3,4) this] show ?thesis
    by (rule port_current_later [OF _ s(6) assms(2)]) (auto intro: same)
qed

lemma pca_kept:
  assumes "order_step f es f'" and same: "pca_val (pca9685 (dat f') ! d) ! k = pca_val (pca9685 (dat f) ! d) ! k"
    and "Channel (int d) (int k) \<notin> places es" and d: "d < 20" "k < 16"
    and a: "accepts f' (SetPca d k (pca_val (pca9685 (dat f') ! d) ! k))"
  shows "shown [channel_write f' d k (pca_val (pca9685 (dat f') ! d) ! k)] f'"
proof -
  note s = order_stepD [OF assms(1)]
  have "fits (SetPca d k (pca_val (pca9685 (dat f) ! d) ! k))"
    using d chip_arrays(5) [OF chips_ok(2) [OF s(1) d(1)]] by (auto intro: arr_ok_nth)
  from accepts_later [OF assms(1) this] a
  have "accepts f (SetPca d k (pca_val (pca9685 (dat f) ! d) ! k))" unfolding same by blast
  from mirrorsD(2) [OF s(3) d this] have "shown [channel_write f d k (pca_val (pca9685 (dat f) ! d) ! k)] f'"
    by (rule shown_later [OF _ s(6)]) (use assms(3) in \<open>simp add: channel_write_def\<close>)
  with same show ?thesis by (simp add: settings_channel [OF s(4,1) d(1)])
qed

lemma pga_kept:
  assumes "order_step f es f'" and "pga2311 (dat f') ! d = pga2311 (dat f) ! d" and "d < 20"
    and "pga_connected (pga2311 (dat f') ! d) = 1" and "Line (pga_cs (pga2311 (dat f) ! d)) \<notin> places es"
  shows "volume_current f' d"
proof -
  note s = order_stepD [OF assms(1)]
  from mirrorsD(3) [OF s(3) assms(3)] assms(2,4) have "volume_current f d" by simp
  then show ?thesis by (rule volume_current_later [OF _ s(6) assms(5,2)])
qed

lemma mirrors_kept:
  assumes "order_step f es f'" and "mcp23017 (dat f') = mcp23017 (dat f)" "pca9685 (dat f') = pca9685 (dat f)"
    "pga2311 (dat f') = pga2311 (dat f)"
    and "\<And>d b. Bank d b \<notin> places es" "\<And>d k. Channel d k \<notin> places es"
    and "\<And>d. d < 20 \<Longrightarrow> pga_connected (pga2311 (dat f) ! d) = 1 \<Longrightarrow> Line (pga_cs (pga2311 (dat f) ! d)) \<notin> places es"
  shows "mirrors f'"
proof (rule mirrorsI)
  show "port_current f' d k" if "d < 20" "k < 16" "accepts f' (SetMcp d k (mcp_val (mcp23017 (dat f') ! d) ! k))" for d k
    using that assms by (intro mcp_kept [OF assms(1)]) simp_all
  show "shown [channel_write f' d k (pca_val (pca9685 (dat f') ! d) ! k)] f'"
    if "d < 20" "k < 16" "accepts f' (SetPca d k (pca_val (pca9685 (dat f') ! d) ! k))" for d k
    using that assms by (intro pca_kept [OF assms(1)]) simp_all
  show "volume_current f' d" if "d < 20" "pga_connected (pga2311 (dat f') ! d) = 1" for d
    using that assms by (intro pga_kept [OF assms(1)]) simp_all
qed

lemma carried_outI:
  assumes "order_step f es f'" and "mirrors f'" and "accepts f o' \<Longrightarrow> noted f' o'"
    and "\<And>b. fits b \<Longrightarrow> address b \<noteq> address o' \<Longrightarrow> apart f f' es b"
  shows "carried_out f o' f'"
proof -
  note s = order_stepD [OF assms(1)]
  show ?thesis
    using assms(2-4) s(5,7,4) noted_later [OF _ s(4,6)] unfolding carried_out_def good_def by blast
qed

section \<open>A pin\<close>

lemma store_val_in:
  assumes "unit_ok (dat f)" and "k < 42" "i16 v"
  shows "store_val (int k) v f = Some (with_teensy (\<lambda>t. t\<lparr>val := upd2 (val (teensy (dat f))) k 0 v\<rparr>) f)"
    "unit_ok (dat (with_teensy (\<lambda>t. t\<lparr>val := upd2 (val (teensy (dat f))) k 0 v\<rparr>) f))"
  using arr_ok_set2 [OF unit_okD(8) [OF assms(1)], of "int k" 0 v] assms unit_okD(1) [OF assms(1)]
  by (auto simp: store_val_def with_teensy_def intro!: unit_intros)

lemma act_nothing [simp]: "act [] f = f"
  by (simp add: act_def)

lemma settings_act [simp]: "settings (act es f) = settings f" "dat (act es f) = dat f"
  "effects (act es f) = effects f @ es"
  by (simp_all add: settings_def act_def)

lemma settings_val [simp]: "settings (with_teensy (\<lambda>t. t\<lparr>val := vs\<rparr>) f) = settings f"
  by (simp add: settings_def with_teensy_def Let_def)

lemma teensy_write_step:
  assumes g: "good f" and k: "k < 42" and v: "i16 v"
  shows "\<exists>f' es. teensy_write (int k) v f = Some f' \<and> order_step f es f' \<and> places es \<subseteq> pin_places f k \<and>
    (accepts f (SetPin k v) \<longrightarrow> es = drive f k v) \<and>
    (\<exists>t. dat f' = (dat f)\<lparr>teensy := t\<rparr>)"
proof -
  let ?t = "teensy (dat f)"
  let ?f = "with_teensy (\<lambda>t. t\<lparr>val := upd2 (val ?t) k 0 v\<rparr>) f"
  have u: "unit_ok (dat f)" using g by (simp add: good_def)
  note store = store_val_in [OF u k v]
  have get: "arr_get (pinmode ?t) (int k) = Some (pinmode ?t ! k)" "arr_get (arg1 ?t) (int k) = Some (arg1 ?t ! k)"
    "arr_get (arg2 ?t) (int k) = Some (arg2 ?t ! k)"
    using arr_ok_int [OF unit_okD(11) [OF u] k] arr_ok_int [OF arg_arrays(1) [OF u] k]
      arr_ok_int [OF arg_arrays(2) [OF u] k] by simp_all
  have stored: "order_step f es (act es ?f) \<and> (\<exists>t. dat (act es ?f) = (dat f)\<lparr>teensy := t\<rparr>)" for es
    using g store(2) by (auto simp: order_step_def) (auto simp: with_teensy_def)
  have kept: "order_step f es (act es f) \<and> (\<exists>t. dat (act es f) = (dat f)\<lparr>teensy := t\<rparr>)" for es
    using g u by (auto simp: order_step_def intro: exI [of _ ?t])
  let ?es = "if accepts f (SetPin k v) then drive f k v else []"
  let ?h = "if v \<noteq> INITVAL \<and> pinmode ?t ! k \<in> {PINMODE_OUTPUT, PINMODE_PWM, PINMODE_MOTOR} then ?f else f"
  have "teensy_write (int k) v f = Some (act ?es ?h)"
    using k by (auto simp: teensy_write_def get store Let_def drive_def)
  moreover have "order_step f es (act es ?h) \<and> (\<exists>t. dat (act es ?h) = (dat f)\<lparr>teensy := t\<rparr>)" for es
    using stored [of es] kept [of es] by presburger
  moreover have "places ?es \<subseteq> pin_places f k" by (simp add: drive_places)
  ultimately show ?thesis by (intro exI [of _ "act ?es ?h"] exI [of _ ?es]) auto
qed

lemma pin_carried_out:
  assumes g: "good f" and fits: "fits (SetPin k v)"
  shows "\<exists>f'. obey io (SetPin k v) f = Some f' \<and> carried_out f (SetPin k v) f'"
proof -
  from fits have "k < 42" "i16 v" by simp_all
  from teensy_write_step [OF g this] obtain f' es t where w: "teensy_write (int k) v f = Some f'"
    and s: "order_step f es f'" and p: "places es \<subseteq> pin_places f k"
    and e: "accepts f (SetPin k v) \<Longrightarrow> es = drive f k v" and t: "dat f' = (dat f)\<lparr>teensy := t\<rparr>" by blast
  note d = order_stepD [OF s]
  have no: "Bank a b \<notin> places es" "Channel a c \<notin> places es" "Digit a c \<notin> places es" for a b c
    using p pin_places_lines by blast+
  have cs: "Line (pga_cs (pga2311 (dat f) ! d)) \<notin> places es" if "d < 20" "pga_connected (pga2311 (dat f) ! d) = 1" for d
    using p d(2) that \<open>k < 42\<close> by (auto simp: wired_def)
  have m: "mirrors f'" by (rule mirrors_kept [OF s]) (simp_all add: t no cs)
  have "noted f' (SetPin k v)" if "accepts f (SetPin k v)"
    using e [OF that] d(6) settings_drive [OF d(4)] by (simp add: shown_now)
  moreover have "apart f f' es b" if "fits b" "address b \<noteq> address (SetPin k v)" for b
    using that p d(2) \<open>k < 42\<close> by (cases b) (auto simp: t no wired_def)
  ultimately have "carried_out f (SetPin k v) f'" by (rule carried_outI [OF s m])
  with w show ?thesis by auto
qed

section \<open>The chips\<close>

lemma report_same: "report io dt buf (Some (r, h)) = Some f' \<Longrightarrow> dat f' = dat h \<and> effects f' = effects h"
  by (auto simp: report_def udp_send_def split: if_splits)

lemma report_Some: "\<exists>f'. report io dt buf (Some (r, h)) = Some f' \<and> dat f' = dat h \<and> effects f' = effects h"
  by (auto simp: report_def udp_send_def)

lemma map_put_same: "g y = g (xs ! d) \<Longrightarrow> map g (xs[d := y]) = map g xs"
  by (metis list_update_id map_update)

lemma settings_chip:
  "dat f' = (dat f)\<lparr>mcp23017 := (mcp23017 (dat f))[d := (mcp23017 (dat f) ! d)\<lparr>mcp_val := vs\<rparr>]\<rparr> \<Longrightarrow>
     settings f' = settings f"
  "dat f' = (dat f)\<lparr>pca9685 := (pca9685 (dat f))[d := (pca9685 (dat f) ! d)\<lparr>pca_val := vs\<rparr>]\<rparr> \<Longrightarrow>
     settings f' = settings f"
  "dat f' = (dat f)\<lparr>pga2311 := (pga2311 (dat f))[d := (pga2311 (dat f) ! d)\<lparr>pga_val := vs\<rparr>]\<rparr> \<Longrightarrow>
     settings f' = settings f"
  "dat f' = (dat f)\<lparr>program := ps\<rparr> \<Longrightarrow> settings f' = settings f"
  by (simp_all add: settings_def Let_def map_put_same)

lemma bit_set: "bit (or w (push_bit b (1 :: byte))) c \<longleftrightarrow> bit w c \<or> b = c \<and> c < 8"
  by (auto simp: bit_or_iff bit_exp_iff)

lemma port_bits_bit:
  assumes "length vs = 16" and "first = 0 \<or> first = 8"
  shows "\<exists>bits. port_bits vs (int first) = Some bits \<and> (\<forall>b < 8. bit bits b \<longleftrightarrow> vs ! (first + b) = 1)"
proof -
  have "\<exists>bits. for_each [0..<8] (\<lambda>b w. do { v \<leftarrow> arr_get vs (int b + int first);
      Some (if v = 1 then or w (push_bit b (1 :: byte)) else w) }) 0 = Some bits \<and>
    (\<forall>b. bit bits b \<longleftrightarrow> b < 8 \<and> vs ! (first + b) = 1)"
  proof (rule for_each_steps [where P = "\<lambda>k w. \<forall>b. bit w b \<longleftrightarrow> b < k \<and> vs ! (first + b) = 1"])
    fix k and w :: byte
    assume k: "k < 8" and w: "\<forall>b. bit w b \<longleftrightarrow> b < k \<and> vs ! (first + b) = 1"
    have "arr_get vs (int k + int first) = Some (vs ! (first + k))"
      using arr_get_int [of "first + k" vs] assms k by (auto simp: add.commute)
    then show "\<exists>u. do { v \<leftarrow> arr_get vs (int k + int first); Some (if v = 1 then or w (push_bit k 1) else w) } = Some u \<and>
        (\<forall>b. bit u b \<longleftrightarrow> b < Suc k \<and> vs ! (first + b) = 1)"
      using w k by (simp add: bit_set less_Suc_eq del: push_bit_of_1) blast
  qed simp
  then show ?thesis by (auto simp: port_bits_def)
qed

text \<open>Nothing has changed.\<close>

lemma unchanged_carried_out:
  assumes g: "good f" and "dat f' = dat f" "effects f' = effects f" and n: "accepts f o' \<Longrightarrow> noted f o'"
  shows "carried_out f o' f'"
proof -
  have s: "order_step f [] f'" using assms by (simp add: order_step_def good_def settings_def)
  have d: "dat f' = dat f" by (fact assms(2))
  have m: "mirrors f'" by (rule mirrors_kept [OF s]) (simp_all add: d)
  have apart: "apart f f' [] b" for b by (cases b) (simp_all add: d)
  have "noted f' o'" if "accepts f o'"
    by (rule noted_later [OF n [OF that] order_stepD(4,6) [OF s] apart])
  with apart show ?thesis by (intro carried_outI [OF s m]) auto
qed

lemma mcp23017_write_cases:
  assumes u: "unit_ok (dat f)" and d: "d < 20" and k: "k < 16" and v: "i16 v"
  defines "m \<equiv> mcp23017 (dat f) ! d"
  shows "(\<exists>r. mcp23017_write (int d) (int k) v f = Some (r, f)) \<and>
      (accepts f (SetMcp d k v) \<longrightarrow> noted f (SetMcp d k v)) \<or>
    (\<exists>h bits vs. mcp23017_write (int d) (int k) v f = Some (0, h) \<and> vs = (mcp_val m)[k := v] \<and>
      dat h = (dat f)\<lparr>mcp23017 := (mcp23017 (dat f))[d := m\<lparr>mcp_val := vs\<rparr>]\<rparr> \<and>
      effects h = effects f @ [port_write d k bits] \<and>
      (\<forall>b < 8. bit bits b \<longleftrightarrow> vs ! ((if k < 8 then 0 else 8) + b) = 1))"
proof -
  let ?vs = "(mcp_val m)[k := v]"
  have m: "mcp_ok m" using chips_ok(1) [OF u d] by (simp add: m_def)
  note a = chip_arrays(1) [OF m]
  have get: "get_chip mcp23017 (int d) f = Some m" "arr_get (mcp_val m) (int k) = Some (mcp_val m ! k)"
    "arr_set (mcp_val m) (int k) v = Some ?vs"
    using arr_ok_int [OF unit_okD(3) [OF u] d] arr_ok_int [OF a k] arr_set_int [of k "mcp_val m" v] arr_ok_length [OF a] k
    by (simp_all add: get_chip_def m_def)
  have put: "store_mcp (int d) (m\<lparr>mcp_val := ?vs\<rparr>) f =
      Some (f\<lparr>dat := (dat f)\<lparr>mcp23017 := (mcp23017 (dat f))[d := m\<lparr>mcp_val := ?vs\<rparr>]\<rparr>\<rparr>)"
    using arr_set_int [of d "mcp23017 (dat f)"] arr_ok_length [OF unit_okD(3) [OF u]] d by (simp add: store_mcp_def)
  obtain bits where b: "port_bits ?vs (if k < 8 then 0 else 8) = Some bits"
    "\<forall>b < 8. bit bits b \<longleftrightarrow> ?vs ! ((if k < 8 then 0 else 8) + b) = 1"
    using port_bits_bit [of ?vs "if k < 8 then 0 else 8"] arr_ok_length [OF a] by (cases "k < 8") auto
  show ?thesis
  proof (cases "mcp_connected m = 1 \<and> v \<noteq> mcp_val m ! k \<and> (v = 0 \<or> v = 1)")
    case True
    then have "mcp23017_write (int d) (int k) v f = Some (0, act [port_write d k bits]
        (f\<lparr>dat := (dat f)\<lparr>mcp23017 := (mcp23017 (dat f))[d := m\<lparr>mcp_val := ?vs\<rparr>]\<rparr>\<rparr>))"
      using d k b(1) by (simp add: mcp23017_write_def get put port_write_def)
    with b(2) show ?thesis by (intro disjI2 exI conjI) (assumption | simp add: act_def)+
  next
    case False
    then have "\<exists>r. mcp23017_write (int d) (int k) v f = Some (r, f)"
      using d k by (auto simp: mcp23017_write_def get)
    moreover from False have "accepts f (SetMcp d k v) \<longrightarrow> noted f (SetMcp d k v)" by (auto simp: m_def)
    ultimately show ?thesis by blast
  qed
qed

lemma mcp_carried_out:
  assumes g: "good f" and fits: "fits (SetMcp d k v)"
  shows "\<exists>f'. obey io (SetMcp d k v) f = Some f' \<and> carried_out f (SetMcp d k v) f'"
proof -
  let ?m = "mcp23017 (dat f) ! d"
  from fits have d: "d < 20" and k: "k < 16" and v: "i16 v" by simp_all
  from g have u: "unit_ok (dat f)" by (simp add: good_def)
  from mcp23017_write_cases [OF u d k v] show ?thesis
  proof (elim disjE exE conjE)
    fix r
    assume "mcp23017_write (int d) (int k) v f = Some (r, f)"
      and n: "accepts f (SetMcp d k v) \<longrightarrow> noted f (SetMcp d k v)"
    with report_Some [of io MCP23017_TYPE "encode_order (SetMcp d k v)" r f] obtain f' where
      "obey io (SetMcp d k v) f = Some f'" "dat f' = dat f" "effects f' = effects f" by auto
    with unchanged_carried_out [OF g] n show ?thesis by blast
  next
    fix h bits vs
    assume w: "mcp23017_write (int d) (int k) v f = Some (0, h)" and vs: "vs = (mcp_val ?m)[k := v]"
      and h: "dat h = (dat f)\<lparr>mcp23017 := (mcp23017 (dat f))[d := ?m\<lparr>mcp_val := vs\<rparr>]\<rparr>"
        "effects h = effects f @ [port_write d k bits]"
      and bits: "\<forall>b < 8. bit bits b \<longleftrightarrow> vs ! ((if k < 8 then 0 else 8) + b) = 1"
    from w report_Some [of io MCP23017_TYPE "encode_order (SetMcp d k v)" 0 h] obtain f' where
      f': "obey io (SetMcp d k v) f = Some f'" "dat f' = dat h" "effects f' = effects f @ [port_write d k bits]"
      by (auto simp: h)
    note a = chip_arrays(1) [OF chips_ok(1) [OF u d]]
    have len: "length (mcp23017 (dat f)) = 20" "length vs = 16" "arr_ok 16 i16 vs"
      using arr_ok_length [OF unit_okD(3) [OF u]] arr_ok_length [OF a] arr_ok_update [OF a, of v] v by (simp_all add: vs)
    have ok: "unit_ok (dat f')"
      using u len(3) chips_ok(1) [OF u d] unit_okD(3) [OF u]
      by (auto simp: f' h intro!: unit_intros arr_ok_update)
    have st: "settings f' = settings f" by (rule settings_chip(1)) (simp add: f' h)
    have s: "order_step f [port_write d k bits] f'" using g st ok f' by (simp add: order_step_def)
    have vals: "mcp_val (mcp23017 (dat f') ! d') = (if d' = d then vs else mcp_val (mcp23017 (dat f) ! d'))" for d'
      using d len by (simp add: f' h nth_list_update)
    have others: "pca9685 (dat f') = pca9685 (dat f)" "pga2311 (dat f') = pga2311 (dat f)"
      "program (dat f') = program (dat f)" by (simp_all add: f' h)
    have m: "mirrors f'"
    proof (rule mirrorsI)
      fix d' k'
      assume dk: "d' < 20" "k' < 16" "accepts f' (SetMcp d' k' (mcp_val (mcp23017 (dat f') ! d') ! k'))"
      show "port_current f' d' k'"
      proof (cases "d' = d \<and> (k' < 8 \<longleftrightarrow> k < 8)")
        case True
        then have "shown [port_write d' k' bits] f'"
          using shown_now [of f' f "[port_write d k bits]"] f' by (simp add: port_write_def)
        with True bits show ?thesis by (auto simp: port_current_def vals)
      next
        case False
        with dk k show ?thesis
          by (intro mcp_kept [OF s]) (auto simp: port_write_def vals vs nth_list_update split: if_splits)
      qed
    next
      show "shown [channel_write f' d' k' (pca_val (pca9685 (dat f') ! d') ! k')] f'"
        if "d' < 20" "k' < 16" "accepts f' (SetPca d' k' (pca_val (pca9685 (dat f') ! d') ! k'))" for d' k'
        using that by (intro pca_kept [OF s]) (simp_all add: others port_write_def)
      show "volume_current f' d'" if "d' < 20" "pga_connected (pga2311 (dat f') ! d') = 1" for d'
        using that by (intro pga_kept [OF s]) (simp_all add: others port_write_def)
    qed
    have "carried_out f (SetMcp d k v) f'"
    proof (rule carried_outI [OF s m])
      show "noted f' (SetMcp d k v)" using k len by (simp add: vals) (simp add: vs)
      show "apart f f' [port_write d k bits] b" if "fits b" "address b \<noteq> address (SetMcp d k v)" for b
        using that by (cases b) (auto simp: vals vs others port_write_def nth_list_update dest: pin_places_lines)
    qed
    with f' show ?thesis by blast
  qed
qed

lemma pca9685_write_cases:
  assumes u: "unit_ok (dat f)" and d: "d < 20" and k: "k < 16" and v: "i16 v"
  defines "m \<equiv> pca9685 (dat f) ! d"
  shows "(\<exists>r. pca9685_write (int d) (int k) v f = Some (r, f)) \<and>
      (accepts f (SetPca d k v) \<longrightarrow> noted f (SetPca d k v)) \<or>
    (\<exists>h vs. pca9685_write (int d) (int k) v f = Some (0, h) \<and> vs = (pca_val m)[k := v] \<and>
      dat h = (dat f)\<lparr>pca9685 := (pca9685 (dat f))[d := m\<lparr>pca_val := vs\<rparr>]\<rparr> \<and>
      effects h = effects f @ [channel_write f d k v])"
proof -
  let ?vs = "(pca_val m)[k := v]"
  let ?mode = "pca_pinmode m ! k"
  have m: "pca_ok m" using chips_ok(2) [OF u d] by (simp add: m_def)
  note a = chip_arrays(5,7) [OF m]
  have get: "get_chip pca9685 (int d) f = Some m" "arr_get (pca_val m) (int k) = Some (pca_val m ! k)"
    "arr_get (pca_pinmode m) (int k) = Some ?mode" "arr_set (pca_val m) (int k) v = Some ?vs"
    using arr_ok_int [OF unit_okD(4) [OF u] d] arr_ok_int [OF a(1) k] arr_ok_int [OF a(2) k]
      arr_set_int [of k "pca_val m" v] arr_ok_length [OF a(1)] k
    by (simp_all add: get_chip_def m_def)
  have put: "store_pca (int d) (m\<lparr>pca_val := ?vs\<rparr>) f =
      Some (f\<lparr>dat := (dat f)\<lparr>pca9685 := (pca9685 (dat f))[d := m\<lparr>pca_val := ?vs\<rparr>]\<rparr>\<rparr>)"
    using arr_set_int [of d "pca9685 (dat f)"] arr_ok_length [OF unit_okD(4) [OF u]] d by (simp add: store_pca_def)
  have acc: "accepts f (SetPca d k v) \<longleftrightarrow> pca_connected m = 1 \<and> v \<noteq> INITVAL \<and>
      (?mode = PINMODE_PWM \<and> 0 \<le> v \<and> v < 4096 \<or> ?mode = PINMODE_SERVO \<and> 600 \<le> v \<and> v \<le> 2400)"
    by (simp add: m_def Let_def)
  have not: "noted f (SetPca d k v) \<longleftrightarrow> pca_val m ! k = v" by (simp add: m_def)
  show ?thesis
  proof (cases "accepts f (SetPca d k v) \<and> v \<noteq> pca_val m ! k")
    case True
    then have "pca9685_write (int d) (int k) v f = Some (0, act [channel_write f d k v]
        (f\<lparr>dat := (dat f)\<lparr>pca9685 := (pca9685 (dat f))[d := m\<lparr>pca_val := ?vs\<rparr>]\<rparr>\<rparr>))"
      using d k unfolding acc
      by (auto simp: pca9685_write_def set_pca_def get put channel_write_def simp flip: m_def)
    then show ?thesis by (intro disjI2 exI conjI) (assumption | simp add: act_def)+
  next
    case False
    then have "\<exists>r. pca9685_write (int d) (int k) v f = Some (r, f)"
      using d k unfolding acc by (auto simp: pca9685_write_def get)
    with False show ?thesis unfolding not by blast
  qed
qed

lemma pca_carried_out:
  assumes g: "good f" and fits: "fits (SetPca d k v)"
  shows "\<exists>f'. obey io (SetPca d k v) f = Some f' \<and> carried_out f (SetPca d k v) f'"
proof -
  let ?m = "pca9685 (dat f) ! d"
  let ?e = "channel_write f d k v"
  from fits have d: "d < 20" and k: "k < 16" and v: "i16 v" by simp_all
  from g have u: "unit_ok (dat f)" by (simp add: good_def)
  from pca9685_write_cases [OF u d k v] show ?thesis
  proof (elim disjE exE conjE)
    fix r
    assume "pca9685_write (int d) (int k) v f = Some (r, f)"
      and n: "accepts f (SetPca d k v) \<longrightarrow> noted f (SetPca d k v)"
    with report_Some [of io PCA9685_TYPE "encode_order (SetPca d k v)" r f] obtain f' where
      "obey io (SetPca d k v) f = Some f'" "dat f' = dat f" "effects f' = effects f" by auto
    with unchanged_carried_out [OF g] n show ?thesis by blast
  next
    fix h vs
    assume w: "pca9685_write (int d) (int k) v f = Some (0, h)" and vs: "vs = (pca_val ?m)[k := v]"
      and h: "dat h = (dat f)\<lparr>pca9685 := (pca9685 (dat f))[d := ?m\<lparr>pca_val := vs\<rparr>]\<rparr>"
        "effects h = effects f @ [?e]"
    from w report_Some [of io PCA9685_TYPE "encode_order (SetPca d k v)" 0 h] obtain f' where
      f': "obey io (SetPca d k v) f = Some f'" "dat f' = dat h" "effects f' = effects f @ [?e]"
      by (auto simp: h)
    note a = chip_arrays(5) [OF chips_ok(2) [OF u d]]
    have len: "length (pca9685 (dat f)) = 20" "length vs = 16" "arr_ok 16 i16 vs"
      using arr_ok_length [OF unit_okD(4) [OF u]] arr_ok_length [OF a] arr_ok_update [OF a, of v] v by (simp_all add: vs)
    have ok: "unit_ok (dat f')"
      using u len(3) chips_ok(2) [OF u d] unit_okD(4) [OF u] by (auto simp: f' h intro!: unit_intros arr_ok_update)
    have st: "settings f' = settings f" by (rule settings_chip(2)) (simp add: f' h)
    have s: "order_step f [?e] f'" using g st ok f' by (simp add: order_step_def)
    have e: "place ?e = Channel (int d) (int k)" by (simp add: channel_write_def)
    have vals: "pca_val (pca9685 (dat f') ! d') = (if d' = d then vs else pca_val (pca9685 (dat f) ! d'))" for d'
      using d len by (simp add: f' h nth_list_update)
    have others: "mcp23017 (dat f') = mcp23017 (dat f)" "pga2311 (dat f') = pga2311 (dat f)"
      "program (dat f') = program (dat f)" by (simp_all add: f' h)
    have m: "mirrors f'"
    proof (rule mirrorsI)
      show "port_current f' d' k'" if "d' < 20" "k' < 16" "accepts f' (SetMcp d' k' (mcp_val (mcp23017 (dat f') ! d') ! k'))"
        for d' k' using that by (intro mcp_kept [OF s]) (simp_all add: others e)
    next
      fix d' k'
      assume dk: "d' < 20" "k' < 16" "accepts f' (SetPca d' k' (pca_val (pca9685 (dat f') ! d') ! k'))"
      show "shown [channel_write f' d' k' (pca_val (pca9685 (dat f') ! d') ! k')] f'"
      proof (cases "d' = d \<and> k' = k")
        case True
        then show ?thesis using shown_now [OF f'(3)] k len by (simp add: vals settings_channel [OF st u d]) (simp add: vs)
      next
        case False
        with dk show ?thesis by (intro pca_kept [OF s]) (auto simp: e vals vs nth_list_update split: if_splits)
      qed
    next
      show "volume_current f' d'" if "d' < 20" "pga_connected (pga2311 (dat f') ! d') = 1" for d'
        using that by (intro pga_kept [OF s]) (simp_all add: others e)
    qed
    have "carried_out f (SetPca d k v) f'"
    proof (rule carried_outI [OF s m])
      show "noted f' (SetPca d k v)" using k len by (simp add: vals) (simp add: vs)
      show "apart f f' [?e] b" if "fits b" "address b \<noteq> address (SetPca d k v)" for b
        using that by (cases b) (auto simp: vals vs others e nth_list_update dest: pin_places_lines)
    qed
    with f' show ?thesis by blast
  qed
qed

lemma digit_carried_out:
  assumes g: "good f" and fits: "fits (SetDigit d k v dp b)"
  shows "\<exists>f'. obey io (SetDigit d k v dp b) f = Some f' \<and> carried_out f (SetDigit d k v dp b) f'"
proof -
  let ?o = "SetDigit d k v dp b" and ?m = "ht16k33 (dat f) ! d"
  let ?es = "[HtBrightness (int d) b, Ht7Seg (int d) (int k) v (dp = 1), HtSendLed (int d)]"
  from fits have d: "d < 20" and k: "k < 16" by simp_all
  from g have u: "unit_ok (dat f)" by (simp add: good_def)
  have get: "get_chip ht16k33 (int d) f = Some ?m" "arr_get (ht_val ?m) (int k) = Some (ht_val ?m ! k)"
    using arr_ok_int [OF unit_okD(6) [OF u] d] arr_ok_int [OF chip_arrays(9) [OF chips_ok(3) [OF u d]] k]
    by (simp_all add: get_chip_def)
  show ?thesis
  proof (cases "accepts f ?o")
    case False
    then have "\<exists>r. ht16k33_write (int d) (int k) v dp b f = Some (r, f)"
      using d k by (auto simp: ht16k33_write_def get)
    then obtain r where w: "ht16k33_write (int d) (int k) v dp b f = Some (r, f)" by blast
    from report_Some [of io HT16K33_TYPE "encode_order ?o" r f] obtain f' where
      "obey io ?o f = Some f'" "dat f' = dat f" "effects f' = effects f" by (auto simp: w)
    with unchanged_carried_out [OF g, of f' ?o] False show ?thesis by blast
  next
    case True
    then have w: "ht16k33_write (int d) (int k) v dp b f = Some (0, act ?es f)"
      using d k by (simp add: ht16k33_write_def get)
    from report_Some [of io HT16K33_TYPE "encode_order ?o" 0 "act ?es f"] obtain f' where
      f': "obey io ?o f = Some f'" "dat f' = dat f" "effects f' = effects f @ ?es" by (auto simp: w)
    have s: "order_step f ?es f'" using g u f' by (simp add: order_step_def settings_def)
    have m: "mirrors f'" by (rule mirrors_kept [OF s]) (simp_all add: f')
    have "carried_out f ?o f'"
    proof (rule carried_outI [OF s m])
      show "noted f' ?o" using shown_now [OF f'(3)] by simp
      show "apart f f' ?es b'" if "fits b'" "address b' \<noteq> address ?o" for b'
        using that by (cases b') (auto simp: f' dest: pin_places_lines)
    qed
    with f' show ?thesis by blast
  qed
qed

lemma pga2311_write_cases:
  assumes u: "unit_ok (dat f)" and d: "d < 20" and c: "c < 2"
  defines "m \<equiv> pga2311 (dat f) ! d"
  shows "(\<exists>r. pga2311_write (int d) (int c) v f = Some (r, f)) \<and>
      (accepts f (SetVolume d c v) \<longrightarrow> noted f (SetVolume d c v)) \<or>
    (\<exists>h n. pga2311_write (int d) (int c) v f = Some (0, h) \<and> pga_connected m = 1 \<and>
      n = m\<lparr>pga_val := (pga_val m)[c := volume v]\<rparr> \<and>
      dat h = (dat f)\<lparr>pga2311 := (pga2311 (dat f))[d := n]\<rparr> \<and> effects h = effects f @ volume_frame n)"
proof -
  let ?n = "m\<lparr>pga_val := (pga_val m)[c := volume v]\<rparr>"
  have m: "pga_ok m" using chips_ok(4) [OF u d] by (simp add: m_def)
  note a = chip_arrays(12) [OF m]
  have len: "length (pga_val m) = 2" by (rule arr_ok_length [OF a])
  have clamp: "(if 255 < (if v < 0 then 0 else v) then 255 else if v < 0 then 0 else v) = volume v"
    by (simp add: volume_def)
  have get: "get_chip pga2311 (int d) f = Some m" "arr_get (pga_val m) (int c) = Some (pga_val m ! c)"
    "arr_set (pga_val m) (int c) (volume v) = Some ((pga_val m)[c := volume v])"
    "arr_get ((pga_val m)[c := volume v]) 0 = Some ((pga_val m)[c := volume v] ! 0)"
    "arr_get ((pga_val m)[c := volume v]) 1 = Some ((pga_val m)[c := volume v] ! 1)"
    using arr_ok_int [OF unit_okD(7) [OF u] d] arr_ok_int [OF a c] len c
    by (simp_all add: get_chip_def m_def arr_get_def arr_set_def)
  have put: "store_pga (int d) ?n f = Some (f\<lparr>dat := (dat f)\<lparr>pga2311 := (pga2311 (dat f))[d := ?n]\<rparr>\<rparr>)"
    using arr_set_int [of d "pga2311 (dat f)"] arr_ok_length [OF unit_okD(7) [OF u]] d by (simp add: store_pga_def)
  show ?thesis
  proof (cases "pga_connected m = 1 \<and> volume v \<noteq> pga_val m ! c")
    case True
    then have "pga2311_write (int d) (int c) v f = Some (0, act (volume_frame ?n)
        (f\<lparr>dat := (dat f)\<lparr>pga2311 := (pga2311 (dat f))[d := ?n]\<rparr>\<rparr>))"
      using d c unfolding pga2311_write_def Let_def clamp by (simp add: get put volume_frame_def)
    with True show ?thesis by (intro disjI2 exI conjI) (assumption | simp add: act_def)+
  next
    case False
    then have "\<exists>r. pga2311_write (int d) (int c) v f = Some (r, f)"
      using d c unfolding pga2311_write_def Let_def clamp by (auto simp: get)
    moreover from False have "accepts f (SetVolume d c v) \<longrightarrow> noted f (SetVolume d c v)" by (auto simp: m_def)
    ultimately show ?thesis by blast
  qed
qed

lemma volume_range: "i16 (volume v)"
  by (auto simp: volume_def within_def min_def max_def)

lemma volume_carried_out:
  assumes g: "good f" and fits: "fits (SetVolume d c v)"
  shows "\<exists>f'. obey io (SetVolume d c v) f = Some f' \<and> carried_out f (SetVolume d c v) f'"
proof -
  let ?m = "pga2311 (dat f) ! d"
  from fits have d: "d < 20" and c: "c < 2" by simp_all
  from g have u: "unit_ok (dat f)" and wd: "wired f" by (simp_all add: good_def)
  from pga2311_write_cases [OF u d c, of v] show ?thesis
  proof (elim disjE exE conjE)
    fix r
    assume "pga2311_write (int d) (int c) v f = Some (r, f)"
      and n: "accepts f (SetVolume d c v) \<longrightarrow> noted f (SetVolume d c v)"
    with report_Some [of io PGA2311_TYPE "encode_order (SetVolume d c v)" r f] obtain f' where
      "obey io (SetVolume d c v) f = Some f'" "dat f' = dat f" "effects f' = effects f" by auto
    with unchanged_carried_out [OF g] n show ?thesis by blast
  next
    fix h n
    assume w: "pga2311_write (int d) (int c) v f = Some (0, h)" and on: "pga_connected ?m = 1"
      and n: "n = ?m\<lparr>pga_val := (pga_val ?m)[c := volume v]\<rparr>"
      and h: "dat h = (dat f)\<lparr>pga2311 := (pga2311 (dat f))[d := n]\<rparr>" "effects h = effects f @ volume_frame n"
    from w report_Some [of io PGA2311_TYPE "encode_order (SetVolume d c v)" 0 h] obtain f' where
      f': "obey io (SetVolume d c v) f = Some f'" "dat f' = dat h" "effects f' = effects f @ volume_frame n"
      by (auto simp: h)
    note a = chip_arrays(12) [OF chips_ok(4) [OF u d]]
    have len: "length (pga2311 (dat f)) = 20" "length (pga_val ?m) = 2"
      using arr_ok_length [OF unit_okD(7) [OF u]] arr_ok_length [OF a] by simp_all
    have "pga_ok n" using chips_ok(4) [OF u d] arr_ok_update [OF a, of "volume v"] volume_range
      by (auto simp: n intro!: unit_intros)
    then have ok: "unit_ok (dat f')"
      using u unit_okD(7) [OF u] by (auto simp: f' h intro!: unit_intros arr_ok_update)
    have st: "settings f' = settings f" by (rule settings_chip(3)) (simp add: f' h n)
    have s: "order_step f (volume_frame n) f'" using g st ok f' by (simp add: order_step_def)
    have e: "places (volume_frame n) = {Line (pga_cs ?m)}" by (simp add: volume_frame_def n)
    have cs: "Line (pga_cs ?m) \<notin> pin_places f k" if "k < 42" for k
      using wd on d that by (auto simp: wired_def)
    have chips: "pga2311 (dat f') ! d' = (if d' = d then n else pga2311 (dat f) ! d')" for d'
      using d len by (simp add: f' h nth_list_update)
    have others: "mcp23017 (dat f') = mcp23017 (dat f)" "pca9685 (dat f') = pca9685 (dat f)"
      "program (dat f') = program (dat f)" by (simp_all add: f' h)
    have vals: "pga_val (pga2311 (dat f') ! d') = (if d' = d then (pga_val ?m)[c := volume v] else pga_val (pga2311 (dat f) ! d'))" for d'
      by (simp add: chips n)
    have m: "mirrors f'"
    proof (rule mirrorsI)
      show "port_current f' d' k'" if "d' < 20" "k' < 16" "accepts f' (SetMcp d' k' (mcp_val (mcp23017 (dat f') ! d') ! k'))"
        for d' k' using that by (intro mcp_kept [OF s]) (simp_all add: others e)
      show "shown [channel_write f' d' k' (pca_val (pca9685 (dat f') ! d') ! k')] f'"
        if "d' < 20" "k' < 16" "accepts f' (SetPca d' k' (pca_val (pca9685 (dat f') ! d') ! k'))" for d' k'
        using that by (intro pca_kept [OF s]) (simp_all add: others e)
    next
      fix d'
      assume d': "d' < 20" "pga_connected (pga2311 (dat f') ! d') = 1"
      show "volume_current f' d'"
      proof (cases "d' = d")
        case True
        with shown_now [OF f'(3)] show ?thesis by (simp add: volume_current_def chips)
      next
        case False
        with d' have "pga_cs (pga2311 (dat f) ! d') \<noteq> pga_cs ?m"
          using wd on d by (auto simp: wired_def chips)
        with False d' show ?thesis by (intro pga_kept [OF s]) (simp_all add: chips e)
      qed
    qed
    have "carried_out f (SetVolume d c v) f'"
    proof (rule carried_outI [OF s m])
      show "noted f' (SetVolume d c v)" using c len by (simp add: chips n)
      show "apart f f' (volume_frame n) b" if "fits b" "address b \<noteq> address (SetVolume d c v)" for b
        using that cs by (cases b) (auto simp: e vals others nth_list_update)
    qed
    with f' show ?thesis by blast
  qed
qed

lemma program_carried_out:
  assumes g: "good f" and fits: "fits (SetProgram k p)"
  shows "\<exists>f'. obey io (SetProgram k p) f = Some f' \<and> carried_out f (SetProgram k p) f'"
proof -
  let ?o = "SetProgram k p"
  from fits have k: "k < 5" and p: "program_ok p" by simp_all
  from g have u: "unit_ok (dat f)" by (simp add: good_def)
  let ?q = "program (dat f) ! k"
  have q: "program_ok ?q" by (rule programs_ok [OF u k])
  note a = chip_arrays(14,15) [OF q] and b = chip_arrays(14,15) [OF p]
  let ?v16 = "(val16 ?q)[0 := val16 p ! 0, 1 := val16 p ! 1, 2 := val16 p ! 2]"
  let ?v8 = "(val8 ?q)[0 := val8 p ! 0, 1 := val8 p ! 1, 2 := val8 p ! 2]"
  let ?n = "?q\<lparr>val16 := ?v16, val8 := ?v8\<rparr>"
  define f' where "f' = f\<lparr>dat := (dat f)\<lparr>program := (program (dat f))[k := ?n]\<rparr>\<rparr>"
  have len: "length (program (dat f)) = 5" "length (val16 ?q) = 10" "length (val8 ?q) = 10"
    using arr_ok_length [OF unit_okD(2) [OF u]] arr_ok_length [OF a(1)] arr_ok_length [OF a(2)] by simp_all
  have w: "obey io ?o f = Some f'"
  proof -
    have "arr_get (program (dat f)) (int k) = Some ?q" "arr_set (program (dat f)) (int k) n = Some ((program (dat f))[k := n])" for n
      using k len by (simp_all add: arr_get_int arr_set_int)
    moreover have "arr_set xs 0 x = Some (xs[0 := x])" "arr_set xs 1 x = Some (xs[1 := x])" "arr_set xs 2 x = Some (xs[2 := x])"
      if "length xs = 10" for xs :: "int list" and x
      using that by (simp_all add: arr_set_def)
    ultimately show ?thesis using len by (simp add: store_program_def f'_def)
  qed
  have "arr_ok 10 i16 ?v16" "arr_ok 10 i8 ?v8"
    using a b by (auto intro!: arr_ok_update intro: arr_ok_nth)
  then have ok: "unit_ok (dat f')"
    using u q unit_okD(2) [OF u] by (auto simp: f'_def intro!: unit_intros arr_ok_update)
  have st: "settings f' = settings f" by (rule settings_chip(4)) (simp add: f'_def)
  have s: "order_step f [] f'" using g st ok by (simp add: order_step_def) (simp add: f'_def)
  have others: "mcp23017 (dat f') = mcp23017 (dat f)" "pca9685 (dat f') = pca9685 (dat f)"
    "pga2311 (dat f') = pga2311 (dat f)" by (simp_all add: f'_def)
  have m: "mirrors f'" by (rule mirrors_kept [OF s]) (simp_all add: others)
  have "carried_out f ?o f'"
  proof (rule carried_outI [OF s m])
    show "noted f' ?o" using k len by (auto simp: f'_def Let_def numeral_eq_Suc less_Suc_eq)
    show "apart f f' [] c" if "fits c" "address c \<noteq> address ?o" for c
      using that by (cases c) (auto simp: others f'_def)
  qed
  with w show ?thesis by blast
qed

text \<open>Every order that has been encoded is carried out.\<close>

lemma order_carried_out:
  assumes "good f" and "fits o'"
  shows "\<exists>f'. obey io o' f = Some f' \<and> carried_out f o' f'"
  using assms pin_carried_out mcp_carried_out pca_carried_out digit_carried_out volume_carried_out program_carried_out
  by (cases o') metis+

end
