(* ===== verification/TeensyOutputs.thy ===== *)
theory TeensyOutputs
  imports TeensyMirror
begin

text \<open>
  A cycle of the driver: the outputs that have changed are sent, the board carries the orders out, and then
  shows the values of all outputs. The locale \<open>order_server\<close> is the contract of the board: an order changes
  what its address shows and nothing else.
\<close>

section \<open>A server of orders\<close>

locale order_server =
  fixes step :: "'o \<Rightarrow> 's \<Rightarrow> 's option" and good :: "'s \<Rightarrow> bool" and shows_it :: "'s \<Rightarrow> 'o \<Rightarrow> bool"
    and takes :: "'s \<Rightarrow> 'o \<Rightarrow> bool" and valid :: "'o \<Rightarrow> bool" and place_of :: "'o \<Rightarrow> 'a" and fixed :: "'s \<Rightarrow> 'c"
  assumes step_law: "good s \<Longrightarrow> valid x \<Longrightarrow> \<exists>t. step x s = Some t \<and> good t \<and> fixed t = fixed s \<and>
      (takes s x \<longrightarrow> shows_it t x) \<and>
      (\<forall>y. valid y \<and> place_of y \<noteq> place_of x \<and> shows_it s y \<longrightarrow> shows_it t y)"
    and takes_fixed: "good s \<Longrightarrow> fixed t = fixed s \<Longrightarrow> valid x \<Longrightarrow> takes t x = takes s x"
begin

lemma serve_all:
  assumes "good s" and "\<And>x. x \<in> set xs \<Longrightarrow> valid x" and "distinct (map place_of xs)"
  shows "\<exists>t. for_each xs step s = Some t \<and> good t \<and> fixed t = fixed s \<and>
    (\<forall>x \<in> set xs. takes s x \<longrightarrow> shows_it t x) \<and>
    (\<forall>y. valid y \<and> place_of y \<notin> place_of ` set xs \<and> shows_it s y \<longrightarrow> shows_it t y)"
  using assms
proof (induction xs arbitrary: s)
  case (Cons x xs)
  then have v: "valid x" "\<And>y. y \<in> set xs \<Longrightarrow> valid y" by simp_all
  from step_law [OF Cons.prems(1) v(1)] obtain r where r: "step x s = Some r" "good r" "fixed r = fixed s"
    "takes s x \<Longrightarrow> shows_it r x" "\<And>y. valid y \<Longrightarrow> place_of y \<noteq> place_of x \<Longrightarrow> shows_it s y \<Longrightarrow> shows_it r y" by blast
  from Cons.IH [OF r(2) v(2)] Cons.prems(3) obtain t where t: "for_each xs step r = Some t" "good t"
    "fixed t = fixed r" "\<And>y. y \<in> set xs \<Longrightarrow> takes r y \<Longrightarrow> shows_it t y"
    "\<And>y. valid y \<Longrightarrow> place_of y \<notin> place_of ` set xs \<Longrightarrow> shows_it r y \<Longrightarrow> shows_it t y" by auto
  have "takes s y = takes r y" if "valid y" for y using takes_fixed [OF Cons.prems(1) r(3) that] by simp
  then show ?case using r t v Cons.prems(3) by auto
qed simp

end

lemma remote_port [simp]:
  "shown es (f\<lparr>remotePort := p\<rparr>) = shown es f" "settings (f\<lparr>remotePort := p\<rparr>) = settings f"
  "drive (f\<lparr>remotePort := p\<rparr>) = drive f" "pin_places (f\<lparr>remotePort := p\<rparr>) = pin_places f"
  "channel_write (f\<lparr>remotePort := p\<rparr>) = channel_write f" "volume_current (f\<lparr>remotePort := p\<rparr>) = volume_current f"
  "port_current (f\<lparr>remotePort := p\<rparr>) = port_current f" "wired (f\<lparr>remotePort := p\<rparr>) = wired f"
  by (simp_all add: shown_def settings_def Let_def fun_eq_iff drive_def pin_places_def channel_write_def
      volume_current_def port_current_def wired_def)

lemma remote_port_orders [simp]:
  "accepts (f\<lparr>remotePort := p\<rparr>) b = accepts f b" "noted (f\<lparr>remotePort := p\<rparr>) b = noted f b"
  by (cases b; simp add: Let_def)+

lemma remote_port_good [simp]: "good (f\<lparr>remotePort := p\<rparr>) = good f"
  by (simp add: good_def mirrors_def)

interpretation board: order_server "\<lambda>b f. obey io b (f\<lparr>remotePort := p\<rparr>)" good noted accepts fits address settings
  for io p
proof (unfold_locales, goal_cases)
  case (1 f b)
  with order_carried_out [of "f\<lparr>remotePort := p\<rparr>" b io] show ?case by (auto simp: carried_out_def)
next
  case (2 f f' b)
  then show ?case using settings_accepts [of f' f b] by (simp add: good_def)
qed

section \<open>The addresses of the outputs differ\<close>

lemma distinct_concat_upt:
  assumes "\<And>k. k < n \<Longrightarrow> distinct (map h (g k))" and "\<And>k x. k < n \<Longrightarrow> x \<in> set (g k) \<Longrightarrow> t (h x) = k"
  shows "distinct (map h (concat (map g [0..<n])))"
  using assms
proof (induction n)
  case (Suc n)
  have "h x \<noteq> h y" if "x \<in> set (g k)" "k < n" "y \<in> set (g n)" for x y k
    using Suc.prems(2) [of k x] Suc.prems(2) [of n y] that by auto
  then show ?case using Suc by (auto simp: distinct_append)
qed simp

lemma distinct_outputs: "distinct (map address (outputs u))"
proof -
  have pins: "distinct (map address (pin_orders u))"
    by (auto simp: pin_orders_def distinct_map inj_on_def comp_def)
  have chips: "distinct (map address (concat (map (mcp_orders u) [0..<MAX_DEV])))"
    "distinct (map address (concat (map (pca_orders u) [0..<MAX_DEV])))"
    "distinct (map address (concat (map (ht_orders u) [0..<MAX_DEV])))"
    "distinct (map address (concat (map (pga_orders u) [0..<MAX_DEV])))"
    by (rule distinct_concat_upt [where t = "fst \<circ> snd"];
        auto simp: mcp_orders_def pca_orders_def ht_orders_def pga_orders_def Let_def distinct_map inj_on_def)+
  have programs: "distinct (map address (concat (map (program_orders u) [0..<MAX_PROG])))"
    by (rule distinct_concat_upt [where t = "snd \<circ> snd"]) (auto simp: program_orders_def Let_def)
  have types: "\<And>x. x \<in> set (pin_orders u) \<Longrightarrow> fst (address x) = TEENSY_TYPE"
    "\<And>d x. x \<in> set (mcp_orders u d) \<Longrightarrow> fst (address x) = MCP23017_TYPE"
    "\<And>d x. x \<in> set (pca_orders u d) \<Longrightarrow> fst (address x) = PCA9685_TYPE"
    "\<And>d x. x \<in> set (ht_orders u d) \<Longrightarrow> fst (address x) = HT16K33_TYPE"
    "\<And>d x. x \<in> set (pga_orders u d) \<Longrightarrow> fst (address x) = PGA2311_TYPE"
    "\<And>d x. x \<in> set (program_orders u d) \<Longrightarrow> fst (address x) = PROGRAM_TYPE"
    by (auto simp: pin_orders_def mcp_orders_def pca_orders_def ht_orders_def pga_orders_def program_orders_def
        Let_def split: if_splits)
  have apart: "set xs \<inter> set ys = {}" if "\<And>x. x \<in> set xs \<Longrightarrow> fst x \<notin> fst ` set ys" for xs ys :: "(int \<times> nat \<times> nat) list"
    using that by force
  show ?thesis
    unfolding outputs_def map_append distinct_append
    by (intro conjI pins chips programs apart) (auto dest!: types)
qed

section \<open>A cycle\<close>

text \<open>The driver and a board are in step: the board has what the driver takes for saved.\<close>

definition in_step :: "teensy_unit \<Rightarrow> firmware \<Rightarrow> bool" where
  "in_step u f \<longleftrightarrow> (\<forall>b \<in> set (outputs u). accepts f b \<and> \<not> is_due u b \<longrightarrow> noted f b)"

lemma reset_unit_saved:
  assumes u: "unit_ok u" and run: "is_running (teensy u)" and r: "reset_unit u = Some v"
  shows "due v = []" "\<And>f. (\<And>b. b \<in> set (outputs u) \<Longrightarrow> accepts f b \<Longrightarrow> noted f b) \<Longrightarrow> in_step v f"
proof -
  note a = unit_okD(8,9) [OF u]
  from run r obtain t as where t: "save_pins (teensy u) = Some t"
    and v: "v = u\<lparr>teensy := t, mcp23017 := map save_mcp (mcp23017 u), pca9685 := map save_pca (pca9685 u),
      as5048b := as, ht16k33 := map save_ht (ht16k33 u), pga2311 := map save_pga (pga2311 u),
      program := map save_program (program u)\<rparr>"
    by (auto simp: reset_unit_def bind_eq_Some_conv)
  have "\<exists>ss. for_each [0..<42] (\<lambda>pin ss. do { x \<leftarrow> arr_get2 (val (teensy u)) (int pin) 0; arr_set ss (int pin) x })
      (val_save (teensy u)) = Some ss \<and> (length ss = 42 \<and> (\<forall>k < 42. ss ! k = val (teensy u) ! k ! 0))"
    by (rule for_each_steps [where P = "\<lambda>n ss. length ss = 42 \<and> (\<forall>k < n. ss ! k = val (teensy u) ! k ! 0)"])
      (auto simp: arr_ok_length [OF a(2)] arr_ok_int2 [OF a(1)] arr_set_int nth_list_update)
  with t obtain ss where ss: "t = (teensy u)\<lparr>val_save := ss\<rparr>" "\<And>k. k < 42 \<Longrightarrow> ss ! k = val (teensy u) ! k ! 0"
    by (auto simp: save_pins_def)
  note len = unit_okD(2-4,6,7) [OF u, THEN arr_ok_length]
  have orders: "mcp_orders v d = mcp_orders u d" "pca_orders v d = pca_orders u d" "ht_orders v d = ht_orders u d"
    "pga_orders v d = pga_orders u d" if "d < 20" for d
    using that len by (simp_all add: v mcp_orders_def pca_orders_def ht_orders_def pga_orders_def save_mcp_def save_pca_def
        save_ht_def save_pga_def Let_def)
  have programs: "program_orders v n = map (\<lambda>_. SetProgram n (save_program (program u ! n))) (program_orders u n)" if "n < 5" for n
    using that len by (simp add: v program_orders_def save_program_def Let_def)
  have pins: "pin_orders v = pin_orders u" by (simp add: v ss pin_orders_def)
  have old: "b \<in> set (outputs u) \<or> (\<exists>n. b = SetProgram n (save_program (program u ! n)) \<and>
      SetProgram n (program u ! n) \<in> set (outputs u))" if "b \<in> set (outputs v)" for b
    using that by (auto simp: outputs_def pins orders programs) (auto simp: program_orders_def Let_def split: if_splits)
  have "\<not> is_due v b" if "b \<in> set (outputs v)" for b
    using that len
    by (auto simp: outputs_def pins orders programs)
      (auto simp: v ss pin_orders_def mcp_orders_def pca_orders_def ht_orders_def pga_orders_def program_orders_def
        save_mcp_def save_pca_def save_ht_def save_pga_def save_program_def Let_def split: if_splits)
  then show "due v = []" by (simp add: due_def filter_empty_conv)
  show "in_step v f" if n: "\<And>b. b \<in> set (outputs u) \<Longrightarrow> accepts f b \<Longrightarrow> noted f b" for f
    unfolding in_step_def
  proof (intro ballI impI)
    fix b
    assume b: "b \<in> set (outputs v)" "accepts f b \<and> \<not> is_due v b"
    from old [OF b(1)] show "noted f b"
    proof (elim disjE exE conjE)
      fix k
      assume k: "b = SetProgram k (save_program (program u ! k))" "SetProgram k (program u ! k) \<in> set (outputs u)"
      from n [OF k(2)] show ?thesis by (simp add: k(1) save_program_def Let_def)
    qed (use n b in blast)
  qed
qed

text \<open>C30: The outputs of the panel reach the board. Suppose that a Teensy is running, that its board is in good
  order (its table is well-formed, no line serves two purposes, and the chips that are written only on a change
  are as the table of the firmware says), and that whatever the driver takes for saved is what the board has.
  Then \<open>send_unit\<close> sends some datagrams, the board receives them one after the other without leaving an array,
  and afterwards the hardware shows the present value of every output that the board accepts: of pins, motors,
  servos, port expanders, PWM channels, digits, volumes and program variables. The settings of the board are
  unchanged, and after \<open>reset_unit\<close> nothing is left to send and the two are in step again.\<close>
theorem teensy_outputs_shown:
  assumes "unit_ok u" and "is_running (teensy u)" and "good f" and "in_step u f"
  shows "\<exists>ds f'. send_unit u = Some ds \<and>
    for_each ds (\<lambda>(a, q, m). FirmwareLoop.udp_receive io (Some (p, m))) f = Some f' \<and>
    good f' \<and> settings f' = settings f \<and>
    (\<forall>b \<in> set (outputs u). accepts f b \<longrightarrow> board_shows f' b) \<and>
    (\<exists>v. reset_unit u = Some v \<and> unit_ok v \<and> due v = [] \<and> in_step v f')"
proof -
  have fits: "\<And>b. b \<in> set (outputs u) \<Longrightarrow> fits b" by (rule outputs_fit [OF assms(1)])
  have "distinct (map address (due u))" unfolding due_def by (rule distinct_map_filter [OF distinct_outputs])
  from board.serve_all [OF assms(3) _ this, of io p] fits obtain f' where
    f': "for_each (due u) (\<lambda>b f. obey io b (f\<lparr>remotePort := p\<rparr>)) f = Some f'" "good f'" "settings f' = settings f"
      "\<And>b. b \<in> set (due u) \<Longrightarrow> accepts f b \<Longrightarrow> noted f' b"
      "\<And>b. fits b \<Longrightarrow> address b \<notin> address ` set (due u) \<Longrightarrow> noted f b \<Longrightarrow> noted f' b"
    by (auto simp: due_def)
  have n: "noted f' b" if b: "b \<in> set (outputs u)" "accepts f b" for b
  proof (cases "is_due u b")
    case True
    with b show ?thesis by (intro f'(4)) (simp_all add: due_def)
  next
    case False
    have "address b \<notin> address ` set (due u)"
    proof
      assume "address b \<in> address ` set (due u)"
      then obtain c where c: "c \<in> set (due u)" "address c = address b" by auto
      then have "c \<in> set (outputs u)" by (simp add: due_def)
      with c(2) b(1) distinct_outputs [of u] have "c = b" by (simp add: distinct_map inj_on_def)
      with c(1) False show False by (simp add: due_def)
    qed
    with b False assms(4) show ?thesis by (intro f'(5) fits) (simp_all add: in_step_def)
  qed
  have acc: "accepts f' b = accepts f b" if "b \<in> set (outputs u)" for b
    using settings_accepts [OF f'(3) _ fits [OF that]] assms(3) by (simp add: good_def)
  have "mirrors f'" using f'(2) by (simp add: good_def)
  with n acc have hw: "board_shows f' b" if "b \<in> set (outputs u)" "accepts f b" for b
    using that fits by (blast intro: noted_shown)
  from givesD [OF reset_unit_ok [OF assms(1)]] obtain v where v: "reset_unit u = Some v" "unit_ok v" by blast
  note saved = reset_unit_saved [OF assms(1,2) v(1)]
  have "in_step v f'" by (rule saved(2)) (use n acc in blast)
  then show ?thesis
    using send_unit_due [OF assms(1,2)] cycle_obeyed [OF assms(1), of io p f] f'(1-3) hw v saved(1) by auto
qed

end
