(* ===== verification/TeensyWitnesses.thy ===== *)
theory TeensyWitnesses
  imports TeensySystem TeensyRange TeensyOutputs
begin

text \<open>
  Concrete instances of the theorems on the Teensy driver and its firmware.
\<close>

section \<open>A Teensy from the ini file\<close>

definition sample_config :: teensy_config where
  "sample_config =
     \<lparr> s_address = chars ''192.168.1.66'' @ [0], s_port = 1030, s_mac1 = 0x21, s_mac2 = 0x9e,
       s_version = chars ''4.1'' @ [0], s_mcp23017 = 2, s_pca9685 = 1, s_pcf8591 = 0, s_as5048b = 1,
       s_ht16k33 = 1, s_pga2311 = 1, s_programs = 2 \<rparr>"

lemma sample_starts: "\<exists>st. start_teensy (5, 0) [sample_config] = Some st"
proof -
  have "cstr (chars ''192.168.1.66'' @ [0]) = chars ''192.168.1.66''"
    "cstr (chars ''4.1'' @ [0]) = chars ''4.1''" by code_simp+
  moreover have "length (ip (teensy static_unit)) = 30" by (simp add: static_unit_def static_teensy_def)
  ultimately have "\<exists>u. ini_unit (5, 0) sample_config static_unit = Some u"
    by (simp add: ini_unit_def sample_config_def strcpy_Some Let_def chars_def)
  moreover have "replicate MAXTEENSYS static_unit = static_unit # replicate 4 static_unit"
    by (simp add: replicate_Suc [symmetric] del: replicate_Suc)
  ultimately show ?thesis by (auto simp: start_teensy_def)
qed

lemma teensy_always_well_formed_witness:
  "\<exists>st st'. start_teensy (5, 0) [sample_config] = Some st \<and>
     run_call (Lamp 0 TEENSY_TYPE 0 5 (Some 1)) st = Some st' \<and> state_ok st'"
proof -
  from sample_starts obtain st where st: "start_teensy (5, 0) [sample_config] = Some st" by blast
  let ?k = "Lamp 0 0 0 5 (Some 1)"
  from st have r: "teensy_reachable st" by (rule start)
  from teensy_always_well_formed [OF r] have "safe_call ?k \<longrightarrow> run_call ?k st \<noteq> None" by blast
  then obtain st' where st': "run_call ?k st = Some st'" by auto
  from r _ st' have "teensy_reachable st'" by (rule call) simp
  from teensy_always_well_formed [OF this] st st' show ?thesis by blast
qed

section \<open>A lamp\<close>

text \<open>A running Teensy with one output, pin 5, which the panel has switched on, and its board.\<close>

definition lamp_unit :: teensy_unit where
  "lamp_unit =
     static_unit\<lparr>teensy := static_teensy\<lparr>connected := 1, online := 1, initialized := 1,
       pinmode := (replicate MAX_PINS 0)[5 := PINMODE_OUTPUT],
       val := (replicate MAX_PINS (replicate MAX_HIST 0))[5 := 1 # replicate 10 0]\<rparr>\<rparr>"

definition lamp_board :: firmware where
  "lamp_board =
     \<lparr> dat = lamp_unit, effects = [], outbox = [], remotePort = 0, spi_initialized = False, as5048b_time = 0 \<rparr>"

definition quiet_io :: board_io where
  "quiet_io =
     \<lparr> digitalRead = \<lambda>_. 1, analogRead = \<lambda>_. 0, readGPIOAB = \<lambda>_. 0, angleR = \<lambda>_. 0, mcp_begin = \<lambda>_. 1,
       pca_begin = \<lambda>_. True, ht_begin = \<lambda>_. 0, udp_write = 16, current_time = (0, 0), micros = 0 \<rparr>"

lemma lamp_unit_ok: "unit_ok lamp_unit"
proof -
  have "arr_ok 11 i16 (1 # replicate 10 0)" "arr_ok 11 i16 (replicate 11 0)"
    by (simp_all add: arr_ok_def list_all_iff within_def)
  then show ?thesis
    unfolding lamp_unit_def using static_unit_ok
    by (intro unit_intros) (auto simp: teensy_ok_def static_teensy_def within_def intro!: arr_ok_update arr_ok_replicate)
qed

lemma lamp_modes: "k < 42 \<Longrightarrow> pinmode (teensy lamp_unit) ! k = (if k = 5 then 2 else 0)"
  by (simp add: lamp_unit_def static_unit_def static_teensy_def nth_list_update)

lemma lamp_alone:
  "d < 20 \<Longrightarrow> mcp_connected (mcp23017 lamp_unit ! d) = 0" "d < 20 \<Longrightarrow> pca_connected (pca9685 lamp_unit ! d) = 0"
  "d < 20 \<Longrightarrow> ht_connected (ht16k33 lamp_unit ! d) = 0" "d < 20 \<Longrightarrow> pga_connected (pga2311 lamp_unit ! d) = 0"
  "n < 5 \<Longrightarrow> prog_connected (program lamp_unit ! n) = 0"
  by (simp_all add: lamp_unit_def static_unit_def)

lemma lamp_board_good: "good lamp_board"
proof -
  have "pin_places lamp_board k = (if k = 5 then {Line 5} else {})" if "k < 42" for k
    using lamp_modes [OF that] by (simp add: pin_places_def drive_def lamp_board_def)
  then have "wired lamp_board" by (simp add: wired_def lamp_alone) (simp add: lamp_board_def lamp_alone)
  moreover have "mirrors lamp_board" by (simp add: mirrors_def Let_def) (simp add: lamp_board_def lamp_alone)
  ultimately show ?thesis using lamp_unit_ok by (simp add: good_def) (simp add: lamp_board_def)
qed

lemma lamp_order: "SetPin 5 1 \<in> set (outputs lamp_unit)" "in_step lamp_unit lamp_board"
proof -
  have v: "Teensy.val (teensy lamp_unit) ! 5 ! 0 = 1" "val_save (teensy lamp_unit) ! 5 = 0"
    by (simp_all add: lamp_unit_def static_unit_def static_teensy_def)
  have out: "b \<in> set (outputs lamp_unit) \<longleftrightarrow> b = SetPin 5 1" for b
    using v by (auto simp: outputs_def pin_orders_def mcp_orders_def pca_orders_def ht_orders_def pga_orders_def
        program_orders_def Let_def lamp_modes lamp_alone output_mode_def split: if_splits)
  then show "SetPin 5 1 \<in> set (outputs lamp_unit)" "in_step lamp_unit lamp_board"
    using v by (auto simp: in_step_def)
qed

lemma teensy_outputs_shown_witness:
  "\<exists>ds f'. send_unit lamp_unit = Some ds \<and>
     for_each ds (\<lambda>(a, q, m). FirmwareLoop.udp_receive quiet_io (Some (1026, m))) lamp_board = Some f' \<and>
     shown [DigitalWrite 5 1] f'"
proof -
  have "is_running (teensy lamp_unit)" by (simp add: is_running_def lamp_unit_def)
  from teensy_outputs_shown [OF lamp_unit_ok this lamp_board_good lamp_order(2), of quiet_io 1026]
  obtain ds f' where f': "send_unit lamp_unit = Some ds"
    "for_each ds (\<lambda>(a, q, m). FirmwareLoop.udp_receive quiet_io (Some (1026, m))) lamp_board = Some f'"
    "settings f' = settings lamp_board"
    "\<forall>b \<in> set (outputs lamp_unit). accepts lamp_board b \<longrightarrow> board_shows f' b" by blast
  have "drive lamp_board 5 1 = [DigitalWrite 5 1]" "accepts lamp_board (SetPin 5 1)"
    using lamp_modes [of 5] by (simp_all add: drive_def lamp_board_def)
  with f' lamp_order(1) settings_drive [OF f'(3)] have "shown [DigitalWrite 5 1] f'" by auto
  with f' show ?thesis by blast
qed

end
