(* ===== verification/Usb.thy ===== *)
theory Usb
  imports Arrays
begin

text \<open>
  \<open>xpusb/src/hidapi_interface.c\<close>: the layer between the OpenCockpits driver and the HID library.
  Every device has a read buffer, which a thread of its own fills with the reports of the device,
  and from which \<open>read_usb\<close> takes one report per call; \<open>write_usb\<close> hands a report to the library.

  The library is outside the program: what it answers to \<open>hid_open\<close> and the like is the record
  \<open>hid_found\<close>; what \<open>hid_write\<close> returns is a function of all the reports written so far,
  the present one included. These reports are kept in \<open>hid_written\<close>. A turn of
  the read thread is a step between the calls of the main program (the code's lock makes the copying
  atomic). The macros select the thread (\<open>USE_THREADS\<close>) and the blocking read.
\<close>

section \<open>State\<close>

abbreviation (input) MAXDEVICES :: nat where "MAXDEVICES \<equiv> 10"
abbreviation (input) READBUFFERSIZE :: nat where "READBUFFERSIZE \<equiv> 1024 * 16"
abbreviation (input) WRITEBUFFERSIZE :: nat where "WRITEBUFFERSIZE \<equiv> 1024 * 16"

text \<open>Of the handle only matters whether it is \<open>NULL\<close>.\<close>

record device_struct =
  handle :: bool
  inBufferSize :: int
  outBufferSize :: int
  inBuffer :: ptr
  outBuffer :: ptr
  readBufferSize :: int
  writeBufferSize :: int
  readBuffer :: ptr
  writeBuffer :: ptr
  readLeft :: int
  writeLeft :: int
  dv_status :: int
  dv_number :: int
  poll_thread_exit_code :: int

text \<open>A report that was written, with the number of its device.\<close>

type_synonym usb_report = "int \<times> mem"

record usb =
  device :: "device_struct list"
  hid_written :: "usb_report list"

type_synonym hid_writer = "usb_report list \<Rightarrow> int"

section \<open>Reading\<close>

text \<open>
  What a blocking read brings: an error, nothing in 100 ms, or a report, which the library cuts
  off at the size of the buffer. A report that is shorter than the buffer leaves the end of the
  previous one behind it, and the whole buffer is appended.
\<close>

datatype hid_event = HidError | HidNothing | HidReport mem

definition poll_turn :: "int \<Rightarrow> hid_event \<Rightarrow> 'a usb_scheme \<Rightarrow> 'a usb_scheme option" where
  "poll_turn number ev u =
     (if 0 \<le> number \<and> number < int MAXDEVICES then
        do {
          d \<leftarrow> arr_get (device u) number;
          if poll_thread_exit_code d \<noteq> 0 then Some u
          else
            (case (inBuffer d, ev) of
               (Some b, HidReport data) \<Rightarrow>
                 do {
                   let data = take (nat (inBufferSize d)) data;
                   let ret = int (length data);
                   b \<leftarrow> mem_write b 0 data;
                   let d = d\<lparr>inBuffer := Some b\<rparr>;
                   d \<leftarrow>
                     (if ret > 0 \<and> readLeft d + inBufferSize d \<le> readBufferSize d then
                        do {
                          r \<leftarrow> readBuffer d;
                          v \<leftarrow> mem_read b 0 (nat (inBufferSize d));
                          r \<leftarrow> mem_write r (readLeft d) v;
                          Some (d\<lparr>readBuffer := Some r, readLeft := readLeft d + inBufferSize d\<rparr>)
                        }
                      else Some d);
                   ds \<leftarrow> arr_set (device u) number d;
                   Some (u\<lparr>device := ds\<rparr>)
                 }
             | _ \<Rightarrow> Some u)
        }
      else Some u)"

text \<open>
  The result is the return value, the bytes that are copied to the caller (none, if there is no
  report) and the new state.
\<close>

definition read_usb :: "int \<Rightarrow> int \<Rightarrow> 'a usb_scheme \<Rightarrow> (int \<times> mem \<times> 'a usb_scheme) option" where
  "read_usb number len u =
     (if 0 \<le> number \<and> number < int MAXDEVICES then
        do {
          d \<leftarrow> arr_get (device u) number;
          if inBuffer d = None then Some (-3, [], u)
          else if dv_status d \<noteq> 0 then Some (-1, [], u)
          else if inBufferSize d \<noteq> len then Some (-2, [], u)
          else if readLeft d > 0 then
            do {
              r \<leftarrow> readBuffer d;
              bytes \<leftarrow> mem_read r 0 (nat (inBufferSize d));
              r \<leftarrow>
                (if readLeft d - inBufferSize d > 0 then
                   do {
                     rest \<leftarrow> mem_read r (inBufferSize d) (nat (readLeft d - inBufferSize d));
                     mem_write r 0 rest
                   }
                 else Some r);
              ds \<leftarrow> arr_set (device u) number
                (d\<lparr>readBuffer := Some r, readLeft := readLeft d - inBufferSize d\<rparr>);
              Some (inBufferSize d, bytes, u\<lparr>device := ds\<rparr>)
            }
          else Some (0, [], u)
        }
      else Some (-3, [], u))"

section \<open>Writing\<close>

text \<open>The report is preceded by a byte 0, the number of the report.\<close>

definition write_usb :: "hid_writer \<Rightarrow> int \<Rightarrow> mem \<Rightarrow> int \<Rightarrow> 'a usb_scheme \<Rightarrow> (int \<times> 'a usb_scheme) option" where
  "write_usb hid_write number bytes len u =
     (if 0 \<le> number \<and> number < int MAXDEVICES then
        do {
          d \<leftarrow> arr_get (device u) number;
          case outBuffer d of
            None \<Rightarrow> Some (-3, u)
          | Some b \<Rightarrow>
              if dv_status d \<noteq> 0 then Some (-1, u)
              else if outBufferSize d - 1 \<noteq> len then Some (-2, u)
              else
                do {
                  v \<leftarrow> mem_read bytes 0 (nat len);
                  b \<leftarrow> mem_write b 1 v;
                  b \<leftarrow> mem_write b 0 [0];
                  report \<leftarrow> mem_read b 0 (nat (outBufferSize d));
                  ds \<leftarrow> arr_set (device u) number (d\<lparr>outBuffer := Some b\<rparr>);
                  let written = hid_written u @ [(number, report)];
                  let result = hid_write written;
                  Some (if result = outBufferSize d then result - 1 else result,
                    u\<lparr>device := ds, hid_written := written\<rparr>)
                }
        }
      else Some (-3, u))"

section \<open>Opening and closing\<close>

text \<open>\<open>malloc\<close> of a number of bytes gives a block with arbitrary contents, or \<open>NULL\<close>.\<close>

type_synonym allocator = "int \<Rightarrow> ptr"

definition setbuffer_usb :: "allocator \<Rightarrow> int \<Rightarrow> int \<Rightarrow> 'a usb_scheme \<Rightarrow> (int \<times> 'a usb_scheme) option" where
  "setbuffer_usb malloc number bufferSize u =
     (if 0 \<le> number \<and> number < int MAXDEVICES then
        do {
          d \<leftarrow> arr_get (device u) number;
          if dv_status d = -1 then Some (-1, u)
          else if inBuffer d = None \<and> outBuffer d = None then
            do {
              let insize = bufferSize mod 65536;
              let outsize = (bufferSize + 1) mod 65536;
              ds \<leftarrow> arr_set (device u) number
                (d\<lparr>inBufferSize := insize, outBufferSize := outsize, inBuffer := malloc insize,
                   outBuffer := malloc outsize\<rparr>);
              Some (0, u\<lparr>device := ds\<rparr>)
            }
          else Some (-2, u)
        }
      else Some (-3, u))"

text \<open>
  What the library finds for a device of the ini file (by path, serial number or identifiers): its
  product string, and the results of \<open>hid_set_nonblocking\<close> and \<open>pthread_create\<close>.
\<close>

record hid_found =
  hf_product :: mem
  hf_nonblocking :: int
  hf_thread :: int

definition check_usb ::
  "allocator \<Rightarrow> hid_found option \<Rightarrow> mem \<Rightarrow> int \<Rightarrow> 'a usb_scheme \<Rightarrow> (int \<times> 'a usb_scheme) option" where
  "check_usb malloc found name number u =
     (case found of
        None \<Rightarrow> Some (-7, u)
      | Some f \<Rightarrow>
          do {
            d \<leftarrow> arr_get (device u) number;
            let d = d\<lparr>handle := True, dv_status := 0, dv_number := number\<rparr>;
            same \<leftarrow> strneq (length (cstr name)) (hf_product f) name;
            (result, d) \<leftarrow>
              (if same then
                 (let d = d\<lparr>readBuffer := malloc (readBufferSize d),
                            writeBuffer := malloc (writeBufferSize d)\<rparr>
                  in if hf_nonblocking f < 0 then Some (-5, d)
                     else Some (if hf_thread f > 0 then -7 else 0, d\<lparr>poll_thread_exit_code := 0\<rparr>))
               else Some (-6, d));
            ds \<leftarrow> arr_set (device u) number d;
            Some (result, u\<lparr>device := ds\<rparr>)
          })"

definition init_device :: "nat \<Rightarrow> device_struct" where
  "init_device i =
     \<lparr> handle = False, inBufferSize = 0, outBufferSize = 0, inBuffer = None, outBuffer = None,
       readBufferSize = int READBUFFERSIZE, writeBufferSize = int WRITEBUFFERSIZE,
       readBuffer = None, writeBuffer = None, readLeft = 0, writeLeft = 0, dv_status = -1,
       dv_number = int i, poll_thread_exit_code = 1 \<rparr>"

definition init_usb :: "'a usb_scheme \<Rightarrow> 'a usb_scheme" where
  "init_usb u = u\<lparr>device := map init_device [0..<MAXDEVICES]\<rparr>"

definition exit_device :: "device_struct \<Rightarrow> device_struct" where
  "exit_device d =
     (if handle d
      then d\<lparr>poll_thread_exit_code := 1, handle := False, dv_status := -1, inBuffer := None,
             outBuffer := None, readBuffer := None, writeBuffer := None\<rparr>
      else d)"

definition exit_usb :: "'a usb_scheme \<Rightarrow> 'a usb_scheme" where
  "exit_usb u = u\<lparr>device := map exit_device (device u)\<rparr>"

section \<open>The read buffer as a queue\<close>

text \<open>
  The read buffer of a device is a queue of reports: the read thread appends at the end, as long as
  there is room, and \<open>read_usb\<close> takes from the front.
\<close>

definition holds :: "nat \<Rightarrow> mem list \<Rightarrow> device_struct \<Rightarrow> bool" where
  "holds n rs d \<longleftrightarrow>
     0 < n \<and> (\<exists>b. inBuffer d = Some b \<and> length b = n) \<and> dv_status d = 0 \<and> inBufferSize d = int n \<and>
     readBufferSize d = int READBUFFERSIZE \<and>
     (\<exists>b. readBuffer d = Some b \<and> length b = READBUFFERSIZE \<and>
        take (length (concat rs)) b = concat rs) \<and>
     readLeft d = int (length (concat rs)) \<and> length (concat rs) \<le> READBUFFERSIZE \<and>
     (\<forall>r \<in> set rs. length r = n)"

lemma holds_empty:
  assumes "holds n [] d"
  shows "0 < n" "inBuffer d \<noteq> None" "dv_status d = 0" "inBufferSize d = int n" "readLeft d = 0"
  using assms by (auto simp: holds_def)

lemma read_empty:
  assumes "length (device u) = MAXDEVICES" "k < MAXDEVICES" "holds n [] (device u ! k)"
  shows "read_usb (int k) (int n) u = Some (0, [], u)"
  using assms holds_empty [OF assms(3)] by (simp add: read_usb_def arr_get_def)

lemma read_next:
  assumes l: "length (device u) = MAXDEVICES" "k < MAXDEVICES" and h: "holds n (r # rs) (device u ! k)"
  shows "\<exists>d. read_usb (int k) (int n) u = Some (int n, r, u\<lparr>device := (device u)[k := d]\<rparr>) \<and> holds n rs d"
proof -
  let ?d = "device u ! k"
  from h obtain ib b where d: "0 < n" "inBuffer ?d = Some ib" "length ib = n" "dv_status ?d = 0"
    "inBufferSize ?d = int n" "readBufferSize ?d = 16384" "readBuffer ?d = Some b" "length b = 16384"
    "take (length (r @ concat rs)) b = r @ concat rs" "readLeft ?d = int (length (r @ concat rs))"
    "length (r @ concat rs) \<le> 16384" "length r = n" "\<forall>r \<in> set rs. length r = n"
    by (auto simp: holds_def)
  define m where "m = length (concat rs)"
  define q where "q = drop (n + m) b"
  have b: "b = r @ concat rs @ q"
  proof -
    have "b = take (n + m) b @ drop (n + m) b" by simp
    also have "take (n + m) b = r @ concat rs" using d(9,12) by (simp add: m_def)
    finally show ?thesis by (simp add: q_def)
  qed
  have lq: "n + m + length q = 16384" using d(8,12) by (simp add: b m_def)
  have r: "mem_read b 0 n = Some r" using d(12) by (simp add: mem_read_def b)
  define b' where "b' = (if m > 0 then concat rs @ drop m b else b)"
  have s: "mem_read b (int n) m = Some (concat rs)"
    using mem_read_append [of r n "concat rs" m q] d(12) by (simp add: b m_def)
  have s0: "m > 0 \<Longrightarrow> mem_write b 0 (concat rs) = Some b'" "m = 0 \<Longrightarrow> b' = b"
    using lq d(8) by (simp_all add: mem_write_def b'_def m_def [symmetric])
  let ?d' = "?d\<lparr>readBuffer := Some b', readLeft := int m\<rparr>"
  have b'l: "length b' = 16384" using lq d(8) by (auto simp: b'_def m_def)
  have b't: "take m b' = concat rs"
  proof (cases "m = 0")
    case True
    then have "concat rs = []" by (simp only: m_def length_0_conv)
    with True show ?thesis by (simp only: take0)
  next
    case False
    then show ?thesis by (simp add: b'_def m_def)
  qed
  have nm: "int (length (r @ concat rs)) = int n + int m" using d(12) by (simp add: m_def)
  have "read_usb (int k) (int n) u = Some (int n, r, u\<lparr>device := (device u)[k := ?d']\<rparr>)"
    using l d r s s0 nm by (simp add: read_usb_def arr_get_int arr_set_int)
  moreover have "holds n rs ?d'"
    using d lq b'l b't by (auto simp: holds_def m_def)
  ultimately show ?thesis by blast
qed

lemma poll_adds:
  assumes l: "length (device u) = MAXDEVICES" "k < MAXDEVICES" and h: "holds n rs (device u ! k)"
    and on: "poll_thread_exit_code (device u ! k) = 0"
    and r: "length r = n" and room: "length (concat rs) + n \<le> READBUFFERSIZE"
  shows "\<exists>d. poll_turn (int k) (HidReport r) u = Some (u\<lparr>device := (device u)[k := d]\<rparr>) \<and>
    holds n (rs @ [r]) d \<and> poll_thread_exit_code d = 0"
proof -
  let ?d = "device u ! k"
  from h obtain ib b where d: "0 < n" "inBuffer ?d = Some ib" "length ib = n" "dv_status ?d = 0"
    "inBufferSize ?d = int n" "readBufferSize ?d = 16384" "readBuffer ?d = Some b" "length b = 16384"
    "take (length (concat rs)) b = concat rs" "readLeft ?d = int (length (concat rs))"
    "\<forall>r \<in> set rs. length r = n"
    by (auto simp: holds_def)
  let ?m = "length (concat rs)"
  have w: "mem_write ib 0 r = Some r" using mem_write_whole [of r ib] d(3) r by simp
  have rd: "mem_read r 0 n = Some r" using mem_read_whole [of r n] r by simp
  let ?b = "concat rs @ r @ drop (?m + n) b"
  have w2: "mem_write b (int ?m) r = Some ?b"
    using d(8,9) r room by (simp add: mem_write_def)
  let ?d' = "?d\<lparr>inBuffer := Some r, readBuffer := Some ?b, readLeft := int ?m + int n\<rparr>"
  have "poll_turn (int k) (HidReport r) u = Some (u\<lparr>device := (device u)[k := ?d']\<rparr>)"
    using l d on r room w rd w2 by (auto simp: poll_turn_def Let_def arr_get_int arr_set_int)
  moreover have "holds n (rs @ [r]) ?d'"
    using d r room by (auto simp: holds_def)
  ultimately show ?thesis using on by (intro exI [of _ ?d']) simp
qed

text \<open>Reports that arrive one after the other.\<close>

lemma polls_add:
  assumes "length (device u) = MAXDEVICES" "k < MAXDEVICES" and "holds n rs (device u ! k)"
    and "poll_thread_exit_code (device u ! k) = 0"
    and "\<forall>r \<in> set qs. length r = n" and "length (concat rs) + n * length qs \<le> READBUFFERSIZE"
  shows "\<exists>d. for_each qs (\<lambda>r. poll_turn (int k) (HidReport r)) u = Some (u\<lparr>device := (device u)[k := d]\<rparr>) \<and>
    holds n (rs @ qs) d \<and> poll_thread_exit_code d = 0"
  using assms
proof (induction qs arbitrary: u rs)
  case Nil
  then show ?case by (intro exI [of _ "device u ! k"]) simp
next
  case (Cons q qs)
  from poll_adds [OF Cons.prems(1-4), of q] Cons.prems(5,6) obtain d where
    d: "poll_turn (int k) (HidReport q) u = Some (u\<lparr>device := (device u)[k := d]\<rparr>)"
      "holds n (rs @ [q]) d" "poll_thread_exit_code d = 0" by auto
  let ?u = "u\<lparr>device := (device u)[k := d]\<rparr>"
  from Cons.IH [of ?u "rs @ [q]"] Cons.prems d(2,3) obtain d' where
    "for_each qs (\<lambda>r. poll_turn (int k) (HidReport r)) ?u = Some (?u\<lparr>device := (device ?u)[k := d']\<rparr>)"
    "holds n ((rs @ [q]) @ qs) d'" "poll_thread_exit_code d' = 0" by auto
  with d(1) show ?case by (intro exI [of _ d']) simp
qed

text \<open>Writing: the report is handed to the library, and nothing but the write buffer changes.\<close>

definition writable_device :: "nat \<Rightarrow> device_struct \<Rightarrow> bool" where
  "writable_device n d \<longleftrightarrow>
     (\<exists>b. outBuffer d = Some b \<and> length b = n + 1) \<and> dv_status d = 0 \<and> outBufferSize d = int n + 1"

lemma write_usb_run:
  assumes l: "length (device u) = MAXDEVICES" "k < MAXDEVICES" and w: "writable_device n (device u ! k)"
    and v: "length v = n"
  shows "\<exists>d. write_usb hid_write (int k) v (int n) u =
      Some (let res = hid_write (hid_written u @ [(int k, 0 # v)]) in if res = int n + 1 then int n else res,
        u\<lparr>device := (device u)[k := d], hid_written := hid_written u @ [(int k, 0 # v)]\<rparr>) \<and>
    writable_device n d \<and> d = (device u ! k)\<lparr>outBuffer := Some (0 # v)\<rparr>"
proof -
  from w obtain b where b: "outBuffer (device u ! k) = Some b" "length b = n + 1" "dv_status (device u ! k) = 0"
    "outBufferSize (device u ! k) = int n + 1" by (auto simp: writable_device_def)
  from b(2) obtain x bs where bx: "b = x # bs" "length bs = n" by (cases b) auto
  have "mem_read v 0 n = Some v" using mem_read_whole [of v n] v by simp
  moreover have "mem_write b 1 v = Some (x # v)" using bx v by (simp add: mem_write_def)
  moreover have "mem_write (x # v) 0 [0] = Some (0 # v)" by (simp add: mem_write_def)
  moreover have "mem_read (0 # v) 0 (Suc n) = Some (0 # v)" using mem_read_whole [of "0 # v" "Suc n"] v by simp
  ultimately show ?thesis
    using l b by (auto simp: write_usb_def arr_get_int arr_set_int Let_def nat_add_distrib writable_device_def v)
qed

end
