(* ===== verification/Iocards.thy ===== *)
theory Iocards
  imports Usb Floats SismoSort
begin

text \<open>
  The driver of the OpenCockpits cards of \<open>xpusb\<close>: the device table of \<open>libiocards.h\<close> and, of
  \<open>libiocards.c\<close>, the setting up of the devices, the initialisation of their data, the copy of the
  states at the end of a cycle, and the functions that receive data from the cards. The
  quicksort of \<open>libiocards.c\<close> is, function for function, the one of theory \<open>SismoSort\<close>.
\<close>

section \<open>The device table\<close>

abbreviation (input) MAXMASTERCARDS :: nat where "MAXMASTERCARDS \<equiv> 4"
abbreviation (input) INITVAL :: int where "INITVAL \<equiv> - 1"
abbreviation (input) MAX_HIST :: nat where "MAX_HIST \<equiv> 10"
abbreviation (input) MAXAXES :: nat where "MAXAXES \<equiv> 8"
abbreviation (input) MAXINPUTS :: nat where "MAXINPUTS \<equiv> 72"
abbreviation (input) MAXOUTPUTS :: nat where "MAXOUTPUTS \<equiv> 45"
abbreviation (input) MAXDISPLAYS :: nat where "MAXDISPLAYS \<equiv> 64"
abbreviation (input) MAXSERVOS :: nat where "MAXSERVOS \<equiv> 6"
abbreviation (input) MAXMOTORS :: nat where "MAXMOTORS \<equiv> 4"
abbreviation (input) MOTORPARK :: int where "MOTORPARK \<equiv> 0"
abbreviation (input) SERVOPARK :: int where "SERVOPARK \<equiv> 0"
abbreviation (input) SERVOMIN :: int where "SERVOMIN \<equiv> 200"
abbreviation (input) SERVOMAX :: int where "SERVOMAX \<equiv> 1023"

record iocard_struct =
  name :: mem
  vendor :: int
  product :: int
  bus :: int
  address :: int
  path :: mem
  serial :: mem
  ncards :: int
  naxes :: int
  ninputs :: int
  noutputs :: int
  ndisplays :: int
  nservos :: int
  nmotors :: int
  nbits :: int
  status :: int
  time_enc :: "(int \<times> int) list list"
  slotdata :: "int list list"
  inputs :: "int list list"
  inputs_old :: "int list list"
  inputs_read :: "int list list"
  outputs :: "int list list"
  outputs_old :: "int list list"
  displays :: "int list list"
  displays_old :: "int list list"
  axes_hist :: "int list list"
  axes :: "int list"
  axes_old :: "int list"
  servos :: "int list"
  servos_old :: "int list"
  time_servos :: "fpval list"
  motors :: "int list"
  motors_old :: "int list"

text \<open>The driver: the USB layer, the table, and the variable \<open>initial\<close>.\<close>

record iocards = usb +
  iocard :: "iocard_struct list"
  initial :: int

text \<open>The table as C initialises it.\<close>

definition static_device :: iocard_struct where
  "static_device =
     \<lparr> name = replicate 30 0, vendor = 0, product = 0, bus = 0, address = 0,
       path = replicate 255 0, serial = replicate 50 0, ncards = 0, naxes = 0, ninputs = 0,
       noutputs = 0, ndisplays = 0, nservos = 0, nmotors = 0, nbits = 0, status = 0,
       time_enc = replicate MAXMASTERCARDS (replicate MAXINPUTS (0, 0)),
       slotdata = replicate MAXMASTERCARDS (replicate 8 0),
       inputs = replicate MAXMASTERCARDS (replicate MAXINPUTS 0),
       inputs_old = replicate MAXMASTERCARDS (replicate MAXINPUTS 0),
       inputs_read = replicate MAXMASTERCARDS (replicate MAXINPUTS 0),
       outputs = replicate MAXMASTERCARDS (replicate MAXOUTPUTS 0),
       outputs_old = replicate MAXMASTERCARDS (replicate MAXOUTPUTS 0),
       displays = replicate MAXMASTERCARDS (replicate MAXDISPLAYS 0),
       displays_old = replicate MAXMASTERCARDS (replicate MAXDISPLAYS 0),
       axes_hist = replicate MAXAXES (replicate MAX_HIST 0),
       axes = replicate MAXAXES 0, axes_old = replicate MAXAXES 0,
       servos = replicate MAXSERVOS 0, servos_old = replicate MAXSERVOS 0,
       time_servos = replicate MAXSERVOS (Fin 0 0),
       motors = replicate MAXMOTORS 0, motors_old = replicate MAXMOTORS 0 \<rparr>"

section \<open>Names of devices\<close>

text \<open>
  \<open>!strcmp(field, s)\<close> for a field that is longer than the literal: the comparison ends at the
  terminator of the literal at the latest.
\<close>

definition names :: "mem \<Rightarrow> string \<Rightarrow> bool" where
  "names field s \<longleftrightarrow> take (length s + 1) field = chars s @ [0]"

abbreviation name_is :: "iocard_struct \<Rightarrow> string \<Rightarrow> bool" where
  "name_is c s \<equiv> names (name c) s"

definition is_mastercard :: "iocard_struct \<Rightarrow> bool" where
  "is_mastercard c \<longleftrightarrow> name_is c ''USB-Expancion V3'' \<or> name_is c ''USBexp V2''"

definition is_servos :: "iocard_struct \<Rightarrow> bool" where
  "is_servos c \<longleftrightarrow> name_is c ''IOCard-USBServos'' \<or> name_is c ''USBServos v3''"

definition is_motors :: "iocard_struct \<Rightarrow> bool" where
  "is_motors c \<longleftrightarrow> name_is c ''DCMotors PLUS''"

definition is_bu0836 :: "iocard_struct \<Rightarrow> bool" where
  "is_bu0836 c \<longleftrightarrow> name_is c ''BU0836X Interface'' \<or> name_is c ''BU0836A Interface''"

definition is_keys :: "iocard_struct \<Rightarrow> bool" where
  "is_keys c \<longleftrightarrow> name_is c ''IOCardS-Keys''"

definition is_chrono320 :: "iocard_struct \<Rightarrow> bool" where
  "is_chrono320 c \<longleftrightarrow> name_is c ''IOCard-Chrono320''"

section \<open>Initialisation of the data\<close>

text \<open>
  A loop over the sub-cards of a device, and over a count of elements on each. The counts come
  from the ini file or from the initialisation of the card, and may exceed the arrays.
\<close>

definition over_cards ::
  "iocard_struct \<Rightarrow> (int \<Rightarrow> iocard_struct \<Rightarrow> iocard_struct option) \<Rightarrow> iocard_struct option" where
  "over_cards c body = for_each [0..<nat (ncards c)] (\<lambda>cardno. body (int cardno)) c"

definition over_count ::
  "int \<Rightarrow> (int \<Rightarrow> iocard_struct \<Rightarrow> iocard_struct option) \<Rightarrow> iocard_struct \<Rightarrow> iocard_struct option" where
  "over_count n body = for_each [0..<nat n] (\<lambda>cnt. body (int cnt))"

definition init_input :: "int \<times> int \<Rightarrow> int \<Rightarrow> int \<Rightarrow> iocard_struct \<Rightarrow> iocard_struct option" where
  "init_input time_new cardno cnt c =
     do {
       ins \<leftarrow> arr_set2 (inputs c) cardno cnt 0;
       olds \<leftarrow> arr_set2 (inputs_old c) cardno cnt INITVAL;
       times \<leftarrow> arr_set2 (time_enc c) cardno cnt time_new;
       reads \<leftarrow> arr_set2 (inputs_read c) cardno cnt 0;
       Some (c\<lparr>inputs := ins, inputs_old := olds, time_enc := times, inputs_read := reads\<rparr>)
     }"

definition init_output :: "int \<Rightarrow> int \<Rightarrow> iocard_struct \<Rightarrow> iocard_struct option" where
  "init_output cardno cnt c =
     do {
       outs \<leftarrow> arr_set2 (outputs c) cardno cnt 0;
       olds \<leftarrow> arr_set2 (outputs_old c) cardno cnt INITVAL;
       Some (c\<lparr>outputs := outs, outputs_old := olds\<rparr>)
     }"

definition init_display :: "int \<Rightarrow> int \<Rightarrow> iocard_struct \<Rightarrow> iocard_struct option" where
  "init_display cardno cnt c =
     do {
       ds \<leftarrow> arr_set2 (displays c) cardno cnt 0;
       olds \<leftarrow> arr_set2 (displays_old c) cardno cnt INITVAL;
       Some (c\<lparr>displays := ds, displays_old := olds\<rparr>)
     }"

definition init_axis :: "int \<Rightarrow> iocard_struct \<Rightarrow> iocard_struct option" where
  "init_axis cnt c =
     do {
       hist \<leftarrow> for_each [0..<MAX_HIST] (\<lambda>h hs. arr_set2 hs cnt (int h) INITVAL) (axes_hist c);
       ax \<leftarrow> arr_set (axes c) cnt INITVAL;
       olds \<leftarrow> arr_set (axes_old c) cnt INITVAL;
       Some (c\<lparr>axes_hist := hist, axes := ax, axes_old := olds\<rparr>)
     }"

definition init_servo :: "int \<Rightarrow> iocard_struct \<Rightarrow> iocard_struct option" where
  "init_servo cnt c =
     do {
       ss \<leftarrow> arr_set (servos c) cnt SERVOPARK;
       olds \<leftarrow> arr_set (servos_old c) cnt INITVAL;
       times \<leftarrow> arr_set (time_servos c) cnt flt_miss_val;
       Some (c\<lparr>servos := ss, servos_old := olds, time_servos := times\<rparr>)
     }"

definition init_motor :: "int \<Rightarrow> iocard_struct \<Rightarrow> iocard_struct option" where
  "init_motor cnt c =
     do {
       ms \<leftarrow> arr_set (motors c) cnt MOTORPARK;
       olds \<leftarrow> arr_set (motors_old c) cnt INITVAL;
       Some (c\<lparr>motors := ms, motors_old := olds\<rparr>)
     }"

definition initialize_device_data :: "int \<times> int \<Rightarrow> iocard_struct \<Rightarrow> iocard_struct option" where
  "initialize_device_data time_new c =
     do {
       c \<leftarrow> over_cards c (\<lambda>cardno c.
         do {
           c \<leftarrow> over_count (ninputs c) (init_input time_new cardno) c;
           c \<leftarrow> over_count (noutputs c) (init_output cardno) c;
           over_count (ndisplays c) (init_display cardno) c
         });
       c \<leftarrow> over_count (naxes c) init_axis c;
       c \<leftarrow> over_count (nservos c) init_servo c;
       over_count (nmotors c) init_motor c
     }"

text \<open>A loop over the devices whose body works on one device.\<close>

fun each_device :: "(iocard_struct \<Rightarrow> iocard_struct option) \<Rightarrow> iocard_struct list \<Rightarrow> iocard_struct list option" where
  "each_device f [] = Some []"
| "each_device f (c # cs) = do { c \<leftarrow> f c; cs \<leftarrow> each_device f cs; Some (c # cs) }"

definition initialize_iocardsdata :: "int \<times> int \<Rightarrow> iocards \<Rightarrow> iocards option" where
  "initialize_iocardsdata time_new st =
     do {
       cs \<leftarrow> each_device (initialize_device_data time_new) (iocard st);
       Some (st\<lparr>initial := 1, iocard := cs\<rparr>)
     }"

section \<open>The copy at the end of a cycle\<close>

definition copy_input :: "int \<Rightarrow> int \<Rightarrow> iocard_struct \<Rightarrow> iocard_struct option" where
  "copy_input cardno cnt c =
     do {
       r \<leftarrow> arr_get2 (inputs_read c) cardno cnt;
       if r = 1 then
         do {
           v \<leftarrow> arr_get2 (inputs c) cardno cnt;
           olds \<leftarrow> arr_set2 (inputs_old c) cardno cnt v;
           reads \<leftarrow> arr_set2 (inputs_read c) cardno cnt 0;
           Some (c\<lparr>inputs_old := olds, inputs_read := reads\<rparr>)
         }
       else Some c
     }"

definition copy_output :: "int \<Rightarrow> int \<Rightarrow> iocard_struct \<Rightarrow> iocard_struct option" where
  "copy_output cardno cnt c =
     do {
       v \<leftarrow> arr_get2 (outputs c) cardno cnt;
       olds \<leftarrow> arr_set2 (outputs_old c) cardno cnt v;
       Some (c\<lparr>outputs_old := olds\<rparr>)
     }"

definition copy_display :: "int \<Rightarrow> int \<Rightarrow> iocard_struct \<Rightarrow> iocard_struct option" where
  "copy_display cardno cnt c =
     do {
       v \<leftarrow> arr_get2 (displays c) cardno cnt;
       olds \<leftarrow> arr_set2 (displays_old c) cardno cnt v;
       Some (c\<lparr>displays_old := olds\<rparr>)
     }"

definition copy_device :: "iocard_struct \<Rightarrow> iocard_struct option" where
  "copy_device c =
     do {
       c \<leftarrow> over_cards c (\<lambda>cardno c.
         do {
           c \<leftarrow> over_count (ninputs c) (copy_input cardno) c;
           c \<leftarrow> over_count (noutputs c) (copy_output cardno) c;
           over_count (ndisplays c) (copy_display cardno) c
         });
       let c = (if naxes c > 0 then c\<lparr>axes_old := axes c\<rparr> else c);
       let c = (if nservos c > 0 then c\<lparr>servos_old := servos c\<rparr> else c);
       Some (if nmotors c > 0 then c\<lparr>motors_old := motors c\<rparr> else c)
     }"

definition copy_iocardsdata :: "iocards \<Rightarrow> iocards option" where
  "copy_iocardsdata st =
     do {
       cs \<leftarrow> each_device copy_device (iocard st);
       Some (st\<lparr>iocard := cs, initial := (if initial st = 1 then 0 else initial st)\<rparr>)
     }"

end
