(* ===== verification/IocardsReceive.thy ===== *)
theory IocardsReceive
  imports Iocards
begin

text \<open>
  \<open>xpusb/src/libiocards.c\<close>: finding and initialising the cards, and receiving from them:
  \<open>receive_mastercard\<close>, \<open>receive_keys\<close>, \<open>receive_axes\<close>, \<open>receive_bu0836\<close>. The number of a device
  is the C variable \<open>device\<close>; of the functions of the USB layer the allocator and the results of
  \<open>hid_write\<close> are arguments.
\<close>

section \<open>Initialisation of the cards\<close>

definition set_device :: "int \<Rightarrow> iocard_struct \<Rightarrow> iocards \<Rightarrow> iocards option" where
  "set_device dev c st = do { cs \<leftarrow> arr_set (iocard st) dev c; Some (st\<lparr>iocard := cs\<rparr>) }"

text \<open>
  What the functions for the single kinds of cards share: the buffers, the counts, the string that
  is sent, and the return value.
\<close>

definition setup_card ::
  "allocator \<Rightarrow> hid_writer \<Rightarrow> (iocard_struct \<Rightarrow> bool) \<Rightarrow> (iocard_struct \<Rightarrow> iocard_struct) \<Rightarrow>
   (iocard_struct \<Rightarrow> mem) \<Rightarrow> int \<Rightarrow> iocards \<Rightarrow> (int \<times> iocards) option" where
  "setup_card malloc hid_write kind counts send_data dev st =
     do {
       c \<leftarrow> arr_get (iocard st) dev;
       if kind c \<and> status c = 0 then
         do {
           let len = int (length (send_data c));
           (result, st) \<leftarrow> setbuffer_usb malloc dev len st;
           st \<leftarrow> set_device dev (counts c) st;
           (send_status, st) \<leftarrow> write_usb hid_write dev (send_data c) len st;
           Some (if send_status = len then 1 else result, st)
         }
       else Some (0, st)
     }"

definition mastercard_string :: "iocard_struct \<Rightarrow> mem" where
  "mastercard_string c =
     [0x3d, 0x00, 0x3a, if ncards c \<in> {1..4} then word_of_int (ncards c) else 0x00,
      0x39, if naxes c > 0 then word_of_int (naxes c) else 0x00, 0xff, 0xff]"

definition initialize_mastercard ::
  "allocator \<Rightarrow> hid_writer \<Rightarrow> int \<Rightarrow> iocards \<Rightarrow> (int \<times> iocards) option" where
  "initialize_mastercard malloc hid_write =
     setup_card malloc hid_write is_mastercard
       (\<lambda>c. c\<lparr>noutputs := 45, ninputs := 72, nservos := 0, nmotors := 0, ndisplays := 64, nbits := 8\<rparr>)
       mastercard_string"

definition initialize_keys ::
  "allocator \<Rightarrow> hid_writer \<Rightarrow> int \<Rightarrow> iocards \<Rightarrow> (int \<times> iocards) option" where
  "initialize_keys malloc hid_write =
     setup_card malloc hid_write is_keys
       (\<lambda>c. c\<lparr>ncards := 1, naxes := 0, noutputs := 0, ninputs := 88, nservos := 0, nmotors := 0,
              ndisplays := 0\<rparr>)
       (\<lambda>c. [0xff, 0, 0, 0, 0, 0, 0, 0])"

definition initialize_servos ::
  "allocator \<Rightarrow> hid_writer \<Rightarrow> int \<Rightarrow> iocards \<Rightarrow> (int \<times> iocards) option" where
  "initialize_servos malloc hid_write =
     setup_card malloc hid_write is_servos
       (\<lambda>c. c\<lparr>ncards := 0, naxes := 4, noutputs := 0, ninputs := 0, nservos := 6, nmotors := 0,
              ndisplays := 0, nbits := 8\<rparr>)
       (\<lambda>c. [0xff, 0xff, 0xff, 0xff, 0xff, 0xff, 0xff, 0xf0])"

definition initialize_motors ::
  "allocator \<Rightarrow> hid_writer \<Rightarrow> int \<Rightarrow> iocards \<Rightarrow> (int \<times> iocards) option" where
  "initialize_motors malloc hid_write =
     setup_card malloc hid_write is_motors
       (\<lambda>c. c\<lparr>ncards := 1, naxes := 8, noutputs := 8, ninputs := 10, nservos := 4, nmotors := 4,
              ndisplays := 0, nbits := 8\<rparr>)
       (\<lambda>c. [0xff, 0xff, 0xff, 0xff, 0xff, 0, 0, 0, 0, 0, 0, 0, 0, 0, 0, 0])"

definition initialize_chrono320 ::
  "allocator \<Rightarrow> hid_writer \<Rightarrow> int \<Rightarrow> iocards \<Rightarrow> (int \<times> iocards) option" where
  "initialize_chrono320 malloc hid_write =
     setup_card malloc hid_write is_chrono320
       (\<lambda>c. c\<lparr>ncards := 1, naxes := 0, noutputs := 7, ninputs := 7, nservos := 0, nmotors := 0,
              ndisplays := 0\<rparr>)
       (\<lambda>c. [0xaa, 0xaa, 0xaa, 0xaa, 0xaa, 0xaa, 0xaa, 0x0f])"

text \<open>Leo Bodnar's cards are only read: nothing is sent.\<close>

definition initialize_bu0836 ::
  "allocator \<Rightarrow> int \<Rightarrow> iocards \<Rightarrow> (int \<times> iocards) option" where
  "initialize_bu0836 malloc dev st =
     do {
       c \<leftarrow> arr_get (iocard st) dev;
       if is_bu0836 c \<and> status c = 0 then
         do {
           (result, st) \<leftarrow> setbuffer_usb malloc dev 32 st;
           st \<leftarrow> set_device dev
             (c\<lparr>ncards := 1, noutputs := 0, ninputs := 32, nservos := 0, nmotors := 0, ndisplays := 0,
                nbits := 12\<rparr>) st;
           Some (1, st)
         }
       else Some (0, st)
     }"

text \<open>The chain of \<open>else if\<close>: the functions are tried until one returns 1.\<close>

fun first_of ::
  "(int \<Rightarrow> iocards \<Rightarrow> (int \<times> iocards) option) list \<Rightarrow> int \<Rightarrow> iocards \<Rightarrow> (bool \<times> iocards) option" where
  "first_of [] dev st = Some (False, st)"
| "first_of (f # fs) dev st =
     do { (ret, st) \<leftarrow> f dev st; if ret = 1 then Some (True, st) else first_of fs dev st }"

definition initialize_one ::
  "allocator \<Rightarrow> hid_writer \<Rightarrow> int \<Rightarrow> iocards \<Rightarrow> (bool \<times> iocards) option" where
  "initialize_one malloc hid_write =
     first_of
       [initialize_mastercard malloc hid_write, initialize_keys malloc hid_write,
        initialize_chrono320 malloc hid_write, initialize_servos malloc hid_write,
        initialize_motors malloc hid_write, initialize_bu0836 malloc]"

definition initialize_iocards ::
  "allocator \<Rightarrow> hid_writer \<Rightarrow> (int \<Rightarrow> hid_found option) \<Rightarrow> iocards \<Rightarrow> (int \<times> iocards) option" where
  "initialize_iocards malloc hid_write found st =
     for_until [0..<MAXDEVICES] (\<lambda>k (result, st).
       do {
         let dev = int k;
         c \<leftarrow> arr_get (iocard st) dev;
         if \<not> name_is c ''none'' \<and> status c = -1 then
           do {
             (ret, st) \<leftarrow> check_usb malloc (found dev) (name c) dev st;
             if ret < 0 then Some ((ret, st), True)
             else
               do {
                 st \<leftarrow> set_device dev (c\<lparr>status := 0\<rparr>) st;
                 (ok, st) \<leftarrow> initialize_one malloc hid_write dev st;
                 c \<leftarrow> arr_get (iocard st) dev;
                 st \<leftarrow> set_device dev (c\<lparr>status := (if ok then 1 else 0)\<rparr>) st;
                 Some ((if ok then result else -1, st), False)
               }
           }
         else Some ((result, st), False)
       }) (0, st)"

section \<open>The median filter of the axes\<close>

definition shift_axis :: "int list \<Rightarrow> int list option" where
  "shift_axis h =
     for_each (rev [0..<MAX_HIST - 1])
       (\<lambda>s h. do { x \<leftarrow> arr_get h (int s); arr_set h (int s + 1) x }) h"

definition axis_filter :: "int \<Rightarrow> int \<Rightarrow> int \<Rightarrow> iocard_struct \<Rightarrow> iocard_struct option" where
  "axis_filter noise axis val c =
     do {
       h \<leftarrow> arr_get (axes_hist c) axis;
       temparr \<leftarrow> quicksort (take MAX_HIST h) 0 (int MAX_HIST - 1);
       median \<leftarrow> arr_get temparr (int MAX_HIST div 2);
       ax \<leftarrow>
         (if val \<noteq> INITVAL \<and> median \<noteq> INITVAL then
            (if val < median - noise \<or> val > median + noise then arr_set (axes c) axis val
             else Some (axes c))
          else arr_set (axes c) axis val);
       h \<leftarrow> shift_axis h;
       h \<leftarrow> arr_set h 0 val;
       hist \<leftarrow> arr_set (axes_hist c) axis h;
       Some (c\<lparr>axes := ax, axes_hist := hist\<rparr>)
     }"

section \<open>The receive loop of a device\<close>

text \<open>\<open>do { recv_status = read_usb(\<dots>); if (recv_status > 0) \<dots> } while (recv_status > 0)\<close>.\<close>

partial_function (option) receive_loop ::
  "(mem \<Rightarrow> iocard_struct \<Rightarrow> iocard_struct option) \<Rightarrow> int \<Rightarrow> int \<Rightarrow> iocards \<Rightarrow> (int \<times> iocards) option" where
  "receive_loop body dev len st =
     do {
       (recv_status, recv_data, st) \<leftarrow> read_usb dev len st;
       if recv_status > 0 then
         do {
           c \<leftarrow> arr_get (iocard st) dev;
           c \<leftarrow> body recv_data c;
           st \<leftarrow> set_device dev c st;
           receive_loop body dev len st
         }
       else Some (recv_status, st)
     }"

text \<open>The loop over the devices, for those of a kind that are ready.\<close>

definition receive_kind ::
  "(iocard_struct \<Rightarrow> bool) \<Rightarrow> (mem \<Rightarrow> iocard_struct \<Rightarrow> iocard_struct option) \<Rightarrow> int \<Rightarrow>
   nat \<Rightarrow> int \<times> iocards \<Rightarrow> (int \<times> iocards) option" where
  "receive_kind kind body len k = (\<lambda>(result, st).
     do {
       c \<leftarrow> arr_get (iocard st) (int k);
       if kind c \<and> status c = 1 then receive_loop body (int k) len st else Some (result, st)
     })"

section \<open>MASTERCARD\<close>

text \<open>The bits of the report, \<open>input[byte][bit]\<close>.\<close>

definition input_bit :: "mem \<Rightarrow> int \<Rightarrow> nat \<Rightarrow> int option" where
  "input_bit recv_data byte b =
     do { x \<leftarrow> arr_get recv_data byte; Some (if b < 8 \<and> bit x b then 1 else 0) }"

definition report_axis :: "mem \<Rightarrow> int option" where
  "report_axis recv_data =
     do { x \<leftarrow> arr_get recv_data 0; Some (uint (and (drop_bit 4 x) 7)) }"

text \<open>The axis value in the second byte; a change by 1 is noise.\<close>

definition read_axis_value :: "mem \<Rightarrow> iocard_struct \<Rightarrow> iocard_struct option" where
  "read_axis_value recv_data c =
     do {
       axis \<leftarrow> report_axis recv_data;
       if axis > 0 then
         do {
           x \<leftarrow> arr_get recv_data 1;
           let val = uint x;
           old \<leftarrow> arr_get (axes_old c) (axis - 1);
           if \<bar>val - old\<bar> > 1 \<or> val = 0 \<or> val = 255 then axis_filter 1 (axis - 1) val c else Some c
         }
       else Some c
     }"

text \<open>
  A new transmission: which slots follow, as given by one byte per MASTERCARD that is present. The
  number of these bytes is returned.
\<close>

definition clear_slots :: "int list list \<Rightarrow> int list list option" where
  "clear_slots sd =
     for_each [0..<MAXMASTERCARDS] (\<lambda>cardno.
       for_each [0..<8] (\<lambda>slot sd. arr_set2 sd (int cardno) (int slot) 0)) sd"

definition mark_slots :: "mem \<Rightarrow> int \<Rightarrow> int list list \<Rightarrow> (int list list \<times> int) option" where
  "mark_slots recv_data byte sd =
     for_each [0..<MAXMASTERCARDS] (\<lambda>cardno (sd, sumcards).
       do {
         present \<leftarrow> input_bit recv_data 0 cardno;
         if present = 1 then
           do {
             sd \<leftarrow> for_each [0..<8] (\<lambda>slot sd.
               do {
                 b \<leftarrow> input_bit recv_data (byte + sumcards) slot;
                 if b = 1 then arr_set2 sd (int cardno) (int slot) 1 else Some sd
               }) sd;
             Some (sd, sumcards + 1)
           }
         else Some (sd, sumcards)
       }) (sd, 0)"

text \<open>
  The two passes over the slots for one byte of data: the first slot that has not been read takes
  its inputs 0 to 7 from the byte; if there is none, the byte has the inputs 8 of the next eight
  slots. Slots of a MASTERCARD that the ini file does not give are passed over.
\<close>

definition take_eight ::
  "mem \<Rightarrow> int \<Rightarrow> nat \<times> nat \<Rightarrow> iocard_struct \<times> bool \<times> int \<Rightarrow> (iocard_struct \<times> bool \<times> int) option" where
  "take_eight recv_data byte = (\<lambda>(cardno, slot) (c, found, readleft).
     do {
       v \<leftarrow> arr_get2 (slotdata c) (int cardno) (int slot);
       if v = 1 then
         (if \<not> found then
            do {
              sd \<leftarrow> arr_set2 (slotdata c) (int cardno) (int slot) 2;
              ins \<leftarrow>
                (if int cardno < ncards c then
                   for_each [0..<8] (\<lambda>b ins.
                     do {
                       x \<leftarrow> input_bit recv_data byte b;
                       arr_set2 ins (int cardno) (9 * int slot + int b) x
                     }) (inputs c)
                 else Some (inputs c));
              Some (c\<lparr>slotdata := sd, inputs := ins\<rparr>, True, readleft + 1)
            }
          else Some (c, found, readleft + 1))
       else Some (c, found, readleft)
     })"

definition take_ninth ::
  "mem \<Rightarrow> int \<Rightarrow> nat \<times> nat \<Rightarrow> iocard_struct \<times> int \<times> int \<Rightarrow> (iocard_struct \<times> int \<times> int) option" where
  "take_ninth recv_data byte = (\<lambda>(cardno, slot) (c, readnine, sumnine).
     do {
       v \<leftarrow> arr_get2 (slotdata c) (int cardno) (int slot);
       let sumnine = (if v = 3 then sumnine + 1 else sumnine);
       if v = 2 then
         (if readnine < 8 then
            do {
              sd \<leftarrow> arr_set2 (slotdata c) (int cardno) (int slot) 3;
              ins \<leftarrow>
                (if int cardno < ncards c then
                   do {
                     x \<leftarrow> input_bit recv_data byte (nat ((sumnine + readnine) mod 8));
                     arr_set2 (inputs c) (int cardno) (9 * int slot + 8) x
                   }
                 else Some (inputs c));
              Some (c\<lparr>slotdata := sd, inputs := ins\<rparr>, readnine + 1, sumnine)
            }
          else Some (c, readnine + 1, sumnine))
       else Some (c, readnine, sumnine)
     })"

definition all_slots :: "(nat \<times> nat) list" where
  "all_slots = List.product [0..<MAXMASTERCARDS] [0..<8]"

definition take_byte :: "mem \<Rightarrow> int \<Rightarrow> iocard_struct \<Rightarrow> iocard_struct option" where
  "take_byte recv_data byte c =
     do {
       (c, found, readleft) \<leftarrow> for_each all_slots (take_eight recv_data byte) (c, False, 0);
       if readleft = 0 then
         do {
           (c, readnine, sumnine) \<leftarrow> for_each all_slots (take_ninth recv_data byte) (c, 0, 0);
           Some c
         }
       else Some c
     }"

text \<open>One report of 8 bytes.\<close>

definition take_report :: "mem \<Rightarrow> iocard_struct \<Rightarrow> iocard_struct option" where
  "take_report recv_data c =
     do {
       c \<leftarrow> read_axis_value recv_data c;
       axis \<leftarrow> report_axis recv_data;
       let byte = (if axis = 0 then 1 else 2);
       more \<leftarrow> input_bit recv_data 0 7;
       (c, byte) \<leftarrow>
         (if more = 0 then
            do {
              sd \<leftarrow> clear_slots (slotdata c);
              (sd, sumcards) \<leftarrow> mark_slots recv_data byte sd;
              Some (c\<lparr>slotdata := sd\<rparr>, byte + sumcards)
            }
          else Some (c, byte));
       for_each (map int [nat byte..<8]) (take_byte recv_data) c
     }"

definition receive_mastercard :: "iocards \<Rightarrow> (int \<times> iocards) option" where
  "receive_mastercard st =
     for_each [0..<MAXDEVICES] (receive_kind is_mastercard take_report 8) (0, st)"

section \<open>The other cards\<close>

text \<open>These functions return 0, whatever \<open>read_usb\<close> returns.\<close>

definition take_keys :: "mem \<Rightarrow> iocard_struct \<Rightarrow> iocard_struct option" where
  "take_keys recv_data c =
     for_each [0..<8] (\<lambda>byte c.
       do {
         x \<leftarrow> arr_get recv_data (int byte);
         if uint x \<ge> 1 \<and> uint x \<le> ninputs c then
           do {
             ins \<leftarrow> arr_set2 (inputs c) 0 (uint x - 1) 1;
             Some (c\<lparr>inputs := ins\<rparr>)
           }
         else Some c
       }) c"

definition receive_keys :: "iocards \<Rightarrow> (int \<times> iocards) option" where
  "receive_keys st =
     do {
       (_, st) \<leftarrow> for_each [0..<MAXDEVICES] (receive_kind is_keys take_keys 8) (0, st);
       Some (0, st)
     }"

definition take_axes :: "nat \<Rightarrow> mem \<Rightarrow> iocard_struct \<Rightarrow> iocard_struct option" where
  "take_axes n recv_data =
     for_each [0..<n] (\<lambda>byte c.
       do { x \<leftarrow> arr_get recv_data (int byte); axis_filter 1 (int byte) (uint x) c })"

definition receive_axes :: "iocards \<Rightarrow> (int \<times> iocards) option" where
  "receive_axes st =
     do {
       (_, st) \<leftarrow> for_each [0..<MAXDEVICES] (\<lambda>k s.
         do {
           s \<leftarrow> receive_kind is_servos (take_axes 4) 8 k s;
           receive_kind is_motors (take_axes 8) 16 k s
         }) (0, st);
       Some (0, st)
     }"

text \<open>The buttons of one of these cards, known by its serial number, start a byte later.\<close>

definition take_joystick :: "mem \<Rightarrow> iocard_struct \<Rightarrow> iocard_struct option" where
  "take_joystick recv_data c =
     do {
       c \<leftarrow> over_count (naxes c) (\<lambda>axis c.
         do {
           lo \<leftarrow> arr_get recv_data (2 * axis);
           hi \<leftarrow> arr_get recv_data (2 * axis + 1);
           axis_filter 2 axis (uint lo + uint hi * 256) c
         }) c;
       for_each [0..<32] (\<lambda>button c.
         do {
           let byte = 2 * naxes c + (if names (serial c) ''B37271'' then 1 else 0) + int button div 8;
           x \<leftarrow> arr_get recv_data byte;
           ins \<leftarrow> arr_set2 (inputs c) 0 (int button)
             (uint (and (drop_bit (button mod 8) x) 1));
           Some (c\<lparr>inputs := ins\<rparr>)
         }) c
     }"

definition receive_bu0836 :: "iocards \<Rightarrow> (int \<times> iocards) option" where
  "receive_bu0836 st =
     do {
       (_, st) \<leftarrow> for_each [0..<MAXDEVICES] (receive_kind is_bu0836 take_joystick 32) (0, st);
       Some (0, st)
     }"

end
