(* ===== verification/IocardsReport.thy ===== *)
theory IocardsReport
  imports IocardsReceive
begin

text \<open>
  What a MASTERCARD tells: the slots that a transmission has, their inputs spread over the data
  bytes, and the cutting of a transmission into reports of 8 bytes, as the comment in
  \<open>receive_mastercard\<close> describes it. The code is shown to read every such transmission back,
  whatever axis values the reports carry besides.
\<close>

section \<open>One byte of data\<close>

definition mc_ok :: "iocard_struct \<Rightarrow> bool" where
  "mc_ok c \<longleftrightarrow>
     arr_ok MAXMASTERCARDS (arr_ok 8 (within 0 3)) (slotdata c) \<and>
     arr_ok MAXMASTERCARDS (arr_ok MAXINPUTS (within (- 1) 1)) (inputs c)"

lemma mc_okD:
  assumes "mc_ok c"
  shows "arr_ok 4 (arr_ok 8 (within 0 3)) (slotdata c)"
    and "arr_ok 4 (arr_ok 72 (within (- 1) 1)) (inputs c)"
  using assms by (simp_all add: mc_ok_def)

lemma all_slots_iff: "p \<in> set all_slots \<longleftrightarrow> fst p < 4 \<and> snd p < 8"
  by (cases p) (auto simp: all_slots_def)

lemma distinct_all_slots: "distinct all_slots"
  by (simp add: all_slots_def distinct_product)

text \<open>The state of a slot, and the updates of the code as functions.\<close>

abbreviation slot_at :: "iocard_struct \<Rightarrow> nat \<times> nat \<Rightarrow> int" where
  "slot_at c p \<equiv> slotdata c ! fst p ! snd p"

definition set_slot :: "nat \<times> nat \<Rightarrow> int \<Rightarrow> iocard_struct \<Rightarrow> iocard_struct" where
  "set_slot p v c = c\<lparr>slotdata := upd2 (slotdata c) (fst p) (snd p) v\<rparr>"

definition set_input :: "nat \<times> nat \<Rightarrow> nat \<Rightarrow> int \<Rightarrow> iocard_struct \<Rightarrow> iocard_struct" where
  "set_input p b v c =
     (if int (fst p) < ncards c then c\<lparr>inputs := upd2 (inputs c) (fst p) (9 * snd p + b) v\<rparr> else c)"

definition store_eight :: "byte \<Rightarrow> nat \<times> nat \<Rightarrow> iocard_struct \<Rightarrow> iocard_struct" where
  "store_eight x p c =
     set_slot p 2 (fold (\<lambda>b. set_input p b (of_bool (bit x b))) [0..<8] c)"

definition store_ninth :: "byte \<Rightarrow> nat \<Rightarrow> nat \<times> nat \<Rightarrow> iocard_struct \<Rightarrow> iocard_struct" where
  "store_ninth x b p c = set_slot p 3 (set_input p 8 (of_bool (bit x b)) c)"

lemma set_slot_at:
  assumes "mc_ok c" and "q \<in> set all_slots" and "p \<in> set all_slots"
  shows "slot_at (set_slot p v c) q = (if q = p then v else slot_at c q)"
  using assms arr_ok_length [OF mc_okD(1)] arr_ok_length [OF arr_ok_nth [OF mc_okD(1)]]
  by (auto simp: set_slot_def upd2_nth all_slots_iff prod_eq_iff)

lemma set_slot_frame [simp]: "inputs (set_slot p v c) = inputs c" "ncards (set_slot p v c) = ncards c"
  by (simp_all add: set_slot_def)

lemma set_input_frame [simp]:
  "slotdata (set_input p b v c) = slotdata c" "ncards (set_input p b v c) = ncards c"
  by (simp_all add: set_input_def)

lemma set_slot_ok: "mc_ok c \<Longrightarrow> p \<in> set all_slots \<Longrightarrow> within 0 3 v \<Longrightarrow> mc_ok (set_slot p v c)"
  by (simp add: mc_ok_def set_slot_def arr_ok_upd2 all_slots_iff)

lemma set_input_ok: "mc_ok c \<Longrightarrow> p \<in> set all_slots \<Longrightarrow> within (- 1) 1 v \<Longrightarrow> mc_ok (set_input p b v c)"
  by (simp add: mc_ok_def set_input_def arr_ok_upd2 all_slots_iff)

lemma within_bit [simp]: "within (- 1) 1 (of_bool P)"
  by (simp add: within_def)

text \<open>The loop over the eight bits of a slot.\<close>

lemma eight_bits:
  assumes "mc_ok c" and p: "p \<in> set all_slots" and "int (fst p) < ncards c" and "\<And>b. b < n \<Longrightarrow> f b = Some (of_bool (g b))"
    and "n \<le> 8"
  shows "for_each [0..<n] (\<lambda>b ins. do { x \<leftarrow> f b; arr_set2 ins (int (fst p)) (9 * int (snd p) + int b) x })
      (inputs c) = Some (inputs (fold (\<lambda>b. set_input p b (of_bool (g b))) [0..<n] c)) \<and>
    mc_ok (fold (\<lambda>b. set_input p b (of_bool (g b))) [0..<n] c) \<and>
    ncards (fold (\<lambda>b. set_input p b (of_bool (g b))) [0..<n] c) = ncards c"
  using assms(4,5)
proof (induction n)
  case 0
  with assms show ?case by simp
next
  case (Suc n)
  let ?c = "fold (\<lambda>b. set_input p b (of_bool (g b))) [0..<n] c"
  from Suc have IH: "for_each [0..<n] (\<lambda>b ins. do { x \<leftarrow> f b; arr_set2 ins (int (fst p)) (9 * int (snd p) + int b) x })
      (inputs c) = Some (inputs ?c)" and ok: "mc_ok ?c" "ncards ?c = ncards c" by auto
  have p': "fst p < 4" "snd p < 8" using p by (simp_all add: all_slots_iff)
  have i: "nat (9 * int (snd p) + int n) = 9 * snd p + n" by linarith
  have "arr_set2 (inputs ?c) (int (fst p)) (9 * int (snd p) + int n) (of_bool (g n)) =
      Some (upd2 (inputs ?c) (fst p) (9 * snd p + n) (of_bool (g n)))"
    using arr_ok_set2 [OF mc_okD(2) [OF ok(1)], of "int (fst p)" "9 * int (snd p) + int n"] p' Suc.prems(2)
    by (simp add: i)
  with IH Suc.prems ok assms(3) p show ?case
    by (simp add: for_each_append set_input_ok) (simp add: set_input_def)
qed

lemma fold_set_input_frame [simp]:
  "slotdata (fold (\<lambda>b. set_input p b (g b)) bs c) = slotdata c"
  "ncards (fold (\<lambda>b. set_input p b (g b)) bs c) = ncards c"
  by (induction bs arbitrary: c) simp_all

lemma input_bit_of_byte:
  "b < 8 \<Longrightarrow> byte < 8 \<Longrightarrow> length d = 8 \<Longrightarrow> input_bit d (int byte) b = Some (of_bool (bit (d ! byte) b))"
  by (simp add: input_bit_def arr_get_def)

lemma take_eight_step:
  assumes c: "mc_ok c" and p: "p \<in> set all_slots" and d: "length d = 8" "byte < 8"
  shows "take_eight d (int byte) p (c, found, r) = Some
    (if slot_at c p = 1 then (if found then (c, True, r + 1) else (store_eight (d ! byte) p c, True, r + 1))
     else (c, found, r))"
proof -
  obtain i k where p_eq: "p = (i, k)" by (rule prod.exhaust)
  with p have ik: "p = (i, k)" "i < 4" "k < 8" by (simp_all add: all_slots_iff)
  have g: "arr_get2 (slotdata c) (int i) (int k) = Some (slot_at c p)"
    and s: "arr_set2 (slotdata c) (int i) (int k) 2 = Some (upd2 (slotdata c) i k 2)"
    using arr_ok_get2 [OF mc_okD(1) [OF c], of "int i" "int k"] arr_ok_set2 [OF mc_okD(1) [OF c], of "int i" "int k" 2] ik
    by (simp_all add: within_def)
  show ?thesis
  proof (cases "int i < ncards c")
    case True
    then have n: "int (fst p) < ncards c" by (simp add: ik)
    have "for_each [0..<8] (\<lambda>b ins. do { x \<leftarrow> input_bit d (int byte) b; arr_set2 ins (int i) (9 * int k + int b) x })
        (inputs c) = Some (inputs (fold (\<lambda>b. set_input p b (of_bool (bit (d ! byte) b))) [0..<8] c))"
      using eight_bits [OF c p n, of 8 "input_bit d (int byte)" "\<lambda>b. bit (d ! byte) b"] d
      by (simp add: input_bit_of_byte ik)
    moreover have "\<exists>ins. fold (\<lambda>b. set_input p b (of_bool (bit (d ! byte) b))) bs c = c\<lparr>inputs := ins\<rparr>" for bs
      by (induction bs rule: rev_induct) (auto simp: set_input_def intro: exI [of _ "inputs c"])
    then obtain ins where "fold (\<lambda>b. set_input p b (of_bool (bit (d ! byte) b))) [0..<8] c = c\<lparr>inputs := ins\<rparr>" by blast
    ultimately show ?thesis
      using g s True by (simp add: take_eight_def ik store_eight_def set_slot_def)
  next
    case False
    then have "fold (\<lambda>b. set_input p b (of_bool (bit (d ! byte) b))) bs c = c" for bs
      by (induction bs) (simp_all add: set_input_def ik)
    with False g s show ?thesis by (simp add: take_eight_def ik store_eight_def set_slot_def)
  qed
qed

lemma set_input_slots [simp]: "slot_at (set_input p b v c) q = slot_at c q"
  by simp

lemma fold_set_input_ok:
  "mc_ok c \<Longrightarrow> p \<in> set all_slots \<Longrightarrow> mc_ok (fold (\<lambda>b. set_input p b (of_bool (g b))) bs c)"
  by (induction bs arbitrary: c) (simp_all add: set_input_ok)

lemma store_eight_slots:
  assumes "mc_ok c" "p \<in> set all_slots" "q \<in> set all_slots"
  shows "slot_at (store_eight x p c) q = (if q = p then 2 else slot_at c q)"
  using set_slot_at [OF fold_set_input_ok [OF assms(1,2)] assms(3,2)] by (simp add: store_eight_def)

lemma store_eight_ok: "mc_ok c \<Longrightarrow> p \<in> set all_slots \<Longrightarrow> mc_ok (store_eight x p c)"
  by (simp add: store_eight_def set_slot_ok fold_set_input_ok within_def)

lemma store_ninth_slots:
  assumes "mc_ok c" "p \<in> set all_slots" "q \<in> set all_slots"
  shows "slot_at (store_ninth x b p c) q = (if q = p then 3 else slot_at c q)"
  using set_slot_at [OF set_input_ok [OF assms(1,2) within_bit] assms(3,2)] by (simp add: store_ninth_def)

lemma store_ninth_ok: "mc_ok c \<Longrightarrow> p \<in> set all_slots \<Longrightarrow> mc_ok (store_ninth x b p c)"
  by (simp add: store_ninth_def set_slot_ok set_input_ok within_def)

lemma take_ninth_step:
  assumes c: "mc_ok c" and p: "p \<in> set all_slots" and d: "length d = 8" "byte < 8"
  shows "take_ninth d (int byte) p (c, r, s) = Some
    (let s' = (if slot_at c p = 3 then s + 1 else s) in
     if slot_at c p = 2 then
       (if r < 8 then store_ninth (d ! byte) (nat ((s' + r) mod 8)) p c else c, r + 1, s')
     else (c, r, s'))"
proof -
  obtain i k where p_eq: "p = (i, k)" by (rule prod.exhaust)
  with p have ik: "p = (i, k)" "i < 4" "k < 8" by (simp_all add: all_slots_iff)
  have g: "arr_get2 (slotdata c) (int i) (int k) = Some (slot_at c p)"
    and s3: "arr_set2 (slotdata c) (int i) (int k) 3 = Some (upd2 (slotdata c) i k 3)"
    using arr_ok_get2 [OF mc_okD(1) [OF c], of "int i" "int k"] arr_ok_set2 [OF mc_okD(1) [OF c], of "int i" "int k" 3] ik
    by (simp_all add: within_def)
  have j: "nat (9 * int k + 8) = 9 * k + 8" by linarith
  have b: "nat (x mod 8) < 8" for x :: int by (simp add: nat_less_iff)
  have "arr_set2 (inputs c) (int i) (9 * int k + 8) (of_bool v) = Some (upd2 (inputs c) i (9 * k + 8) (of_bool v))" for v
    using arr_ok_set2 [OF mc_okD(2) [OF c], of "int i" "9 * int k + 8" "of_bool v"] ik by (simp add: j)
  then show ?thesis
    using g s3 ik d(2) b input_bit_of_byte [OF b d(2,1)]
    by (auto simp: take_ninth_def Let_def store_ninth_def set_slot_def set_input_def)
qed

lemma eight_pass_none:
  "mc_ok c \<Longrightarrow> length d = 8 \<Longrightarrow> byte < 8 \<Longrightarrow> set L \<subseteq> set all_slots \<Longrightarrow> \<forall>p \<in> set L. slot_at c p \<noteq> 1 \<Longrightarrow>
   for_each L (take_eight d (int byte)) (c, f, r) = Some (c, f, r)"
  by (induction L) (simp_all add: take_eight_step)

lemma eight_pass_found:
  "mc_ok c \<Longrightarrow> length d = 8 \<Longrightarrow> byte < 8 \<Longrightarrow> set L \<subseteq> set all_slots \<Longrightarrow>
   for_each L (take_eight d (int byte)) (c, True, r) =
     Some (c, True, r + int (length (filter (\<lambda>p. slot_at c p = 1) L)))"
  by (induction L arbitrary: r) (simp_all add: take_eight_step)

fun store_ninths :: "byte \<Rightarrow> nat \<Rightarrow> (nat \<times> nat) list \<Rightarrow> iocard_struct \<Rightarrow> iocard_struct" where
  "store_ninths x r [] c = c"
| "store_ninths x r (p # ps) c = store_ninths x (Suc r) ps (if r < 8 then store_ninth x r p c else c)"

lemma ninth_pass_done:
  "mc_ok c \<Longrightarrow> length d = 8 \<Longrightarrow> byte < 8 \<Longrightarrow> set L \<subseteq> set all_slots \<Longrightarrow> \<forall>p \<in> set L. slot_at c p \<noteq> 2 \<Longrightarrow>
   for_each L (take_ninth d (int byte)) (c, r, s) =
     Some (c, r, s + int (length (filter (\<lambda>p. slot_at c p = 3) L)))"
  by (induction L arbitrary: s) (simp_all add: take_ninth_step Let_def)

lemma ninth_pass_pending:
  assumes "length d = 8" "byte < 8" and "8 dvd s" "0 \<le> s"
  shows "mc_ok c \<Longrightarrow> set L \<subseteq> set all_slots \<Longrightarrow> distinct L \<Longrightarrow> \<forall>p \<in> set L. slot_at c p \<noteq> 3 \<Longrightarrow>
   for_each L (take_ninth d (int byte)) (c, int r, s) =
     Some (store_ninths (d ! byte) r (filter (\<lambda>p. slot_at c p = 2) L) c,
       int (r + length (filter (\<lambda>p. slot_at c p = 2) L)), s)"
proof (induction L arbitrary: c r)
  case (Cons p L)
  define c' where c': "c' = (if r < 8 then store_ninth (d ! byte) r p c else c)"
  have p: "p \<in> set all_slots" using Cons.prems by simp
  have m: "nat ((s + int r) mod 8) = r" if "r < 8" using assms(3) that by (auto elim!: dvdE)
  show ?case
  proof (cases "slot_at c p = 2")
    case True
    have L: "set L \<subseteq> set all_slots" "distinct L" "p \<notin> set L" using Cons.prems by auto
    have at: "slot_at c' q = slot_at c q" if q: "q \<in> set L" for q
    proof -
      from q L have "q \<in> set all_slots" "q \<noteq> p" by blast+
      with store_ninth_slots [OF Cons.prems(1) p] show ?thesis by (simp add: c' del: set_slot_frame)
    qed
    have ok: "mc_ok c'" using Cons.prems(1) p by (simp add: c' store_ninth_ok)
    have "\<forall>q \<in> set L. slot_at c' q \<noteq> 3" using at Cons.prems(4) by simp
    moreover have "filter (\<lambda>p. slot_at c' p = 2) L = filter (\<lambda>p. slot_at c p = 2) L"
      by (rule filter_cong) (simp_all only: at)
    ultimately have "for_each L (take_ninth d (int byte)) (c', int (Suc r), s) =
       Some (store_ninths (d ! byte) (Suc r) (filter (\<lambda>p. slot_at c p = 2) L) c',
         int (Suc r + length (filter (\<lambda>p. slot_at c p = 2) L)), s)"
      using Cons.IH [OF ok L(1,2), of "Suc r"] by simp
    moreover have "take_ninth d (int byte) p (c, int r, s) = Some (c', int (Suc r), s)"
      using take_ninth_step [OF Cons.prems(1) p assms(1,2)] True m by (simp add: c' Let_def ac_simps)
    ultimately show ?thesis using True by (simp add: c')
  next
    case False
    with Cons.prems take_ninth_step [OF Cons.prems(1) p assms(1,2), of "int r" s] Cons.IH [of c r]
    show ?thesis by (simp add: Let_def)
  qed
qed simp

text \<open>One byte, in terms of the slots that wait for their eight and their ninth inputs.\<close>

lemma take_byte_eight:
  assumes c: "mc_ok c" and d: "length d = 8" "byte < 8"
    and Q: "filter (\<lambda>p. slot_at c p = 1) all_slots = p # ps"
  shows "take_byte d (int byte) c = Some (store_eight (d ! byte) p c)"
proof -
  from Q obtain A B where AB: "all_slots = A @ p # B" "\<forall>q \<in> set A. slot_at c q \<noteq> 1" "slot_at c p = 1"
    by (auto simp: filter_eq_Cons_iff)
  have p: "p \<in> set all_slots" and sub: "set A \<subseteq> set all_slots" "set B \<subseteq> set all_slots" by (auto simp: AB)
  note ok = store_eight_ok [OF c p, of "d ! byte"]
  have "for_each all_slots (take_eight d (int byte)) (c, False, 0) =
    Some (store_eight (d ! byte) p c, True,
      1 + int (length (filter (\<lambda>q. slot_at (store_eight (d ! byte) p c) q = 1) B)))"
    by (simp add: AB for_each_append eight_pass_none [OF c d sub(1) AB(2)] take_eight_step [OF c p d]
        eight_pass_found [OF ok d sub(2)])
  then show ?thesis by (simp add: take_byte_def)
qed

lemma take_byte_ninth:
  assumes c: "mc_ok c" and d: "length d = 8" "byte < 8"
    and Q: "filter (\<lambda>p. slot_at c p = 1) all_slots = []"
    and AB: "all_slots = A @ B" "\<forall>p \<in> set A. slot_at c p \<noteq> 2" "\<forall>p \<in> set B. slot_at c p \<noteq> 3"
    and m: "8 dvd length (filter (\<lambda>p. slot_at c p = 3) A)"
  shows "take_byte d (int byte) c = Some (store_ninths (d ! byte) 0 (filter (\<lambda>p. slot_at c p = 2) B) c)"
proof -
  have sub: "set A \<subseteq> set all_slots" "set B \<subseteq> set all_slots" "distinct B"
    using distinct_all_slots by (auto simp: AB(1))
  from Q have "\<forall>p \<in> set all_slots. slot_at c p \<noteq> 1" by (simp add: filter_empty_conv)
  then have e: "for_each all_slots (take_eight d (int byte)) (c, False, 0) = Some (c, False, 0)"
    by (intro eight_pass_none [OF c d]) simp_all
  from m have "8 dvd int (length (filter (\<lambda>p. slot_at c p = 3) A))" by presburger
  from ninth_pass_pending [OF d this _ c sub(2,3) AB(3), of 0]
  have "for_each all_slots (take_ninth d (int byte)) (c, 0, 0) =
     Some (store_ninths (d ! byte) 0 (filter (\<lambda>p. slot_at c p = 2) B) c,
       int (length (filter (\<lambda>p. slot_at c p = 2) B)), int (length (filter (\<lambda>p. slot_at c p = 3) A)))"
    by (simp add: AB(1) for_each_append ninth_pass_done [OF c d sub(1) AB(2)])
  with e show ?thesis by (simp add: take_byte_def)
qed

end
