(* ===== verification/IocardsDecode.thy ===== *)
theory IocardsDecode
  imports IocardsReport
begin

text \<open>
  The data of a transmission of a MASTERCARD: first a byte with the inputs 0 to 7 of every slot that
  is present, then bytes with the inputs 8 of eight slots each. Taking the bytes one after the
  other leaves the inputs of these slots as the transmission says, and all others alone.
\<close>

section \<open>The data bytes\<close>

definition bits_byte :: "(nat \<Rightarrow> bool) \<Rightarrow> byte" where
  "bits_byte f = horner_sum of_bool 2 (map f [0..<8])"

lemma bit_bits_byte [simp]: "j < 8 \<Longrightarrow> bit (bits_byte f) j \<longleftrightarrow> f j"
  by (simp add: bits_byte_def bit_horner_sum_bit_word_iff)

text \<open>The states of the nine inputs of a slot.\<close>

type_synonym readings = "nat \<times> nat \<Rightarrow> nat \<Rightarrow> bool"

definition data_byte :: "(nat \<times> nat) list \<Rightarrow> readings \<Rightarrow> nat \<Rightarrow> byte" where
  "data_byte ss val k =
     (let n = length ss in
      if k < n then bits_byte (val (ss ! k))
      else bits_byte (\<lambda>j. 8 * (k - n) + j < n \<and> val (ss ! (8 * (k - n) + j)) 8))"

definition data_length :: "nat \<Rightarrow> nat" where
  "data_length n = n + (n + 7) div 8"

definition data_bytes :: "(nat \<times> nat) list \<Rightarrow> readings \<Rightarrow> mem" where
  "data_bytes ss val = map (data_byte ss val) [0..<data_length (length ss)]"

section \<open>How far a transmission has been read\<close>

definition eights :: "(nat \<times> nat) list \<Rightarrow> nat \<Rightarrow> (nat \<times> nat) set" where
  "eights ss k = set (take k ss)"

definition nines :: "(nat \<times> nat) list \<Rightarrow> nat \<Rightarrow> (nat \<times> nat) set" where
  "nines ss k = set (take (8 * (k - length ss)) ss)"

definition slot_state :: "(nat \<times> nat) list \<Rightarrow> nat \<Rightarrow> nat \<times> nat \<Rightarrow> int" where
  "slot_state ss k p =
     (if p \<in> nines ss k then 3 else if p \<in> eights ss k then 2 else if p \<in> set ss then 1 else 0)"

text \<open>The inputs after \<open>k\<close> bytes of data, from the state \<open>c0\<close> at the start of the transmission.\<close>

definition decoded :: "(nat \<times> nat) list \<Rightarrow> readings \<Rightarrow> nat \<Rightarrow> iocard_struct \<Rightarrow> nat \<Rightarrow> nat \<Rightarrow> int" where
  "decoded ss val k c0 i j =
     (let p = (i, j div 9) in
      if int i < ncards c0 \<and> p \<in> (if j mod 9 < 8 then eights ss k else nines ss k)
      then of_bool (val p (j mod 9)) else inputs c0 ! i ! j)"

text \<open>What the data bytes do not touch.\<close>

definition frame :: "iocard_struct \<Rightarrow> iocard_struct" where
  "frame c = c\<lparr>slotdata := [], inputs := []\<rparr>"

lemma frame_eqD:
  assumes "frame c = frame c0"
  shows "ncards c = ncards c0" "axes c = axes c0" "axes_hist c = axes_hist c0" "axes_old c = axes_old c0"
proof -
  from assms have "ncards (frame c) = ncards (frame c0)" "axes (frame c) = axes (frame c0)"
    "axes_hist (frame c) = axes_hist (frame c0)" "axes_old (frame c) = axes_old (frame c0)" by simp_all
  then show "ncards c = ncards c0" "axes c = axes c0" "axes_hist c = axes_hist c0" "axes_old c = axes_old c0"
    by (simp_all add: frame_def)
qed

definition decode_inv ::
  "(nat \<times> nat) list \<Rightarrow> readings \<Rightarrow> nat \<Rightarrow> iocard_struct \<Rightarrow> iocard_struct \<Rightarrow> bool" where
  "decode_inv ss val k c0 c \<longleftrightarrow>
     mc_ok c \<and> (\<forall>p \<in> set all_slots. slot_at c p = slot_state ss k p) \<and>
     (\<forall>i < 4. \<forall>j < 72. inputs c ! i ! j = decoded ss val k c0 i j) \<and> frame c = frame c0"

section \<open>The inputs after an update\<close>

lemma input_pos: "b < 9 \<Longrightarrow> j = 9 * s + b \<longleftrightarrow> j div 9 = s \<and> j mod (9::nat) = b"
  by auto

lemma set_input_nth:
  assumes "mc_ok c" "p \<in> set all_slots" "b < 9" "i < 4" "j < 72"
  shows "inputs (set_input p b v c) ! i ! j =
    (if (i, j div 9) = p \<and> j mod 9 = b \<and> int i < ncards c then v else inputs c ! i ! j)"
proof -
  have p: "fst p < length (inputs c)" "9 * snd p + b < length (inputs c ! fst p)"
    using assms(2,3) arr_ok_length [OF mc_okD(2) [OF assms(1)]]
      arr_ok_length [OF arr_ok_nth [OF mc_okD(2) [OF assms(1)]]] by (simp_all add: all_slots_iff)
  show ?thesis
    using upd2_nth [OF p, of v i j] input_pos [OF assms(3), of j "snd p"]
    by (auto simp: set_input_def prod_eq_iff)
qed

lemma fold_input_nth:
  assumes "mc_ok c" "p \<in> set all_slots" "i < 4" "j < 72" "n \<le> 8"
  shows "inputs (fold (\<lambda>b. set_input p b (of_bool (g b))) [0..<n] c) ! i ! j =
    (if (i, j div 9) = p \<and> j mod 9 < n \<and> int i < ncards c then of_bool (g (j mod 9)) else inputs c ! i ! j)"
  using assms(5)
proof (induction n)
  case (Suc n)
  have "mc_ok (fold (\<lambda>b. set_input p b (of_bool (g b))) [0..<n] c)"
    by (rule fold_set_input_ok [OF assms(1,2)])
  from set_input_nth [OF this assms(2) _ assms(3,4), of n "of_bool (g n)"] Suc show ?case
    by (auto simp: less_Suc_eq)
qed simp

lemma store_eight_nth:
  "mc_ok c \<Longrightarrow> p \<in> set all_slots \<Longrightarrow> i < 4 \<Longrightarrow> j < 72 \<Longrightarrow>
   inputs (store_eight x p c) ! i ! j =
     (if (i, j div 9) = p \<and> j mod 9 < 8 \<and> int i < ncards c then of_bool (bit x (j mod 9)) else inputs c ! i ! j)"
  using fold_input_nth [of c p i j 8 "bit x"] by (simp add: store_eight_def)

lemma store_ninth_nth:
  "mc_ok c \<Longrightarrow> p \<in> set all_slots \<Longrightarrow> i < 4 \<Longrightarrow> j < 72 \<Longrightarrow>
   inputs (store_ninth x b p c) ! i ! j =
     (if (i, j div 9) = p \<and> j mod 9 = 8 \<and> int i < ncards c then of_bool (bit x b) else inputs c ! i ! j)"
  using set_input_nth [of c p 8 i j "of_bool (bit x b)"] by (simp add: store_ninth_def)

lemma store_frame [simp]:
  "frame (set_slot p v c) = frame c" "frame (set_input p b w c) = frame c"
  by (simp_all add: frame_def set_slot_def set_input_def)

lemma store_eight_frame [simp]: "frame (store_eight x p c) = frame c"
proof -
  have "frame (fold (\<lambda>b. set_input p b (g b)) bs c) = frame c" for g bs
    by (induction bs arbitrary: c) simp_all
  then show ?thesis by (simp add: store_eight_def)
qed

lemma store_ninth_frame [simp]: "frame (store_ninth x b p c) = frame c"
  by (simp add: store_ninth_def)

lemma store_ninths_facts:
  assumes "mc_ok c" and "set ps \<subseteq> set all_slots" and "distinct ps"
    and "\<And>t. t < length ps \<Longrightarrow> r + t < 8 \<Longrightarrow> bit x (r + t) = v (ps ! t)"
  shows "mc_ok (store_ninths x r ps c) \<and>
    (\<forall>q \<in> set all_slots. slot_at (store_ninths x r ps c) q = (if q \<in> set (take (8 - r) ps) then 3 else slot_at c q)) \<and>
    (\<forall>i < 4. \<forall>j < 72. inputs (store_ninths x r ps c) ! i ! j =
      (if (i, j div 9) \<in> set (take (8 - r) ps) \<and> j mod 9 = 8 \<and> int i < ncards c
       then of_bool (v (i, j div 9)) else inputs c ! i ! j)) \<and>
    frame (store_ninths x r ps c) = frame c"
  using assms
proof (induction ps arbitrary: r c)
  case (Cons p ps)
  show ?case
  proof (cases "r < 8")
    case True
    have p: "p \<in> set all_slots" "p \<notin> set ps" using Cons.prems by auto
    let ?c = "store_ninth x r p c"
    have sub: "set ps \<subseteq> set all_slots" "distinct ps" using Cons.prems by auto
    have bits: "bit x (Suc r + t) = v (ps ! t)" if "t < length ps" "Suc r + t < 8" for t
      using Cons.prems(4) [of "Suc t"] that by simp
    note IH = Cons.IH [OF store_ninth_ok [OF Cons.prems(1) p(1)] sub bits]
    have vr: "bit x r = v p" using Cons.prems(4) [of 0] True by simp
    have nt: "p \<notin> set (take (7 - r) ps)" using p(2) by (meson in_set_takeD)
    have nc: "ncards ?c = ncards c" by (simp add: store_ninth_def)
    have e: "8 - r = Suc (7 - r)" "8 - Suc r = 7 - r" using True by simp_all
    show ?thesis
      using IH store_ninth_slots [OF Cons.prems(1) p(1)] store_ninth_nth [OF Cons.prems(1) p(1)] vr nt nc True
      by (auto simp: e)
  next
    case False
    then have "store_ninths x r (p # ps) c = c"
      by (induction ps arbitrary: r p) simp_all
    with False Cons.prems(1) show ?thesis by simp
  qed
qed simp

section \<open>One byte further\<close>

lemma take_byte_idle:
  assumes c: "mc_ok c" and d: "length d = 8" "byte < 8"
    and none: "\<forall>p \<in> set all_slots. slot_at c p \<noteq> 1 \<and> slot_at c p \<noteq> 2"
  shows "take_byte d (int byte) c = Some c"
  using eight_pass_none [OF c d order_refl, of False 0] ninth_pass_done [OF c d order_refl, of 0 0] none
  by (simp add: take_byte_def)

lemma eights_Suc: "k < length ss \<Longrightarrow> eights ss (Suc k) = insert (ss ! k) (eights ss k)"
  by (simp add: eights_def take_Suc_conv_app_nth)

lemma nines_early: "k \<le> length ss \<Longrightarrow> nines ss k = {}"
  by (simp add: nines_def)

lemma eights_late: "length ss \<le> k \<Longrightarrow> eights ss k = set ss"
  by (simp add: eights_def)

lemma filter_split:
  "filter P xs = us @ vs \<Longrightarrow> \<exists>A B. xs = A @ B \<and> us = filter P A \<and> vs = filter P B"
proof (induction xs arbitrary: us)
  case (Cons x xs)
  show ?case
  proof (cases "P x \<and> us \<noteq> []")
    case True
    with Cons.prems obtain us' where "us = x # us'" "filter P xs = us' @ vs" by (cases us) auto
    with Cons.IH obtain A B where "xs = A @ B" "us' = filter P A" "vs = filter P B" by blast
    with True \<open>us = x # us'\<close> show ?thesis by (intro exI [of _ "x # A"] exI [of _ B]) simp
  next
    case False
    show ?thesis
    proof (cases "P x")
      case True
      with False Cons.prems show ?thesis by (intro exI [of _ "[]"] exI [of _ "x # xs"]) simp
    next
      case nP: False
      with Cons.prems have "filter P xs = us @ vs" by simp
      with Cons.IH obtain A B where "xs = A @ B" "us = filter P A" "vs = filter P B" by blast
      with nP show ?thesis by (intro exI [of _ "x # A"] exI [of _ B]) simp
    qed
  qed
qed simp

text \<open>The slots that are present, in the order of the loops.\<close>

definition slot_list :: "(nat \<times> nat) list \<Rightarrow> bool" where
  "slot_list ss \<longleftrightarrow> filter (\<lambda>p. p \<in> set ss) all_slots = ss"

lemma slot_list_distinct: "slot_list ss \<Longrightarrow> distinct ss"
  unfolding slot_list_def by (metis distinct_all_slots distinct_filter)

lemma slot_list_sub: "slot_list ss \<Longrightarrow> set ss \<subseteq> set all_slots"
  unfolding slot_list_def by (metis filter_is_subset)

lemma waiting_eight:
  assumes ss: "slot_list ss" and "k < length ss"
  shows "filter (\<lambda>p. slot_state ss k p = 1) all_slots = drop k ss"
proof -
  have "filter (\<lambda>p. slot_state ss k p = 1) all_slots = filter (\<lambda>p. p \<notin> set (take k ss)) (filter (\<lambda>p. p \<in> set ss) all_slots)"
    using assms(2) by (auto simp: filter_filter slot_state_def nines_early eights_def intro!: filter_cong)
  also have "\<dots> = filter (\<lambda>p. p \<notin> set (take k ss)) (take k ss @ drop k ss)"
    using ss by (simp only: slot_list_def append_take_drop_id)
  also have "\<dots> = filter (\<lambda>p. p \<notin> set (take k ss)) (drop k ss)"
    by (simp only: filter_append) (simp add: filter_empty_conv)
  also have "\<dots> = drop k ss"
  proof (rule filter_True)
    show "\<forall>p \<in> set (drop k ss). p \<notin> set (take k ss)"
      using set_take_disj_set_drop_if_distinct [OF slot_list_distinct [OF ss], of k k] by auto
  qed
  finally show ?thesis .
qed

lemma step_eight:
  assumes ss: "slot_list ss" and inv: "decode_inv ss val k c0 c" and d: "length d = 8" "byte < 8" and k: "k < length ss"
    and x: "d ! byte = data_byte ss val k"
  shows "\<exists>c'. take_byte d (int byte) c = Some c' \<and> decode_inv ss val (Suc k) c0 c'"
proof -
  let ?p = "ss ! k" and ?c = "store_eight (d ! byte) (ss ! k) c"
  from inv have c: "mc_ok c" and at: "\<And>p. p \<in> set all_slots \<Longrightarrow> slot_at c p = slot_state ss k p"
    and ins: "\<And>i j. i < 4 \<Longrightarrow> j < 72 \<Longrightarrow> inputs c ! i ! j = decoded ss val k c0 i j" and fr: "frame c = frame c0"
    by (auto simp: decode_inv_def)
  have p: "?p \<in> set all_slots" using k slot_list_sub [OF ss] nth_mem by blast
  have "filter (\<lambda>p. slot_at c p = 1) all_slots = filter (\<lambda>p. slot_state ss k p = 1) all_slots"
    by (rule filter_cong) (simp_all only: at)
  then have "filter (\<lambda>p. slot_at c p = 1) all_slots = ?p # drop (Suc k) ss"
    using waiting_eight [OF ss k] Cons_nth_drop_Suc [OF k] by simp
  from take_byte_eight [OF c d this] have t: "take_byte d (int byte) c = Some ?c" .
  have bits: "bit (d ! byte) b = val ?p b" if "b < 8" for b
    using x k that by (simp add: data_byte_def)
  have n: "nines ss k = {}" "nines ss (Suc k) = {}" using k by (simp_all add: nines_early)
  have "decode_inv ss val (Suc k) c0 ?c"
    unfolding decode_inv_def
  proof (intro conjI ballI allI impI)
    show "mc_ok ?c" by (rule store_eight_ok [OF c p])
    show "slot_at ?c q = slot_state ss (Suc k) q" if "q \<in> set all_slots" for q
      using store_eight_slots [OF c p that] at [OF that] by (simp add: slot_state_def n eights_Suc [OF k])
    show "inputs ?c ! i ! j = decoded ss val (Suc k) c0 i j" if "i < 4" "j < 72" for i j
      using store_eight_nth [OF c p that, of "d ! byte"] ins [OF that] bits frame_eqD(1) [OF fr]
      by (auto simp: decoded_def Let_def n eights_Suc [OF k])
    show "frame ?c = frame c0" using fr by simp
  qed
  with t show ?thesis by blast
qed

lemma step_ninth:
  assumes ss: "slot_list ss" and inv: "decode_inv ss val k c0 c" and d: "length d = 8" "byte < 8" and k: "length ss \<le> k"
    and x: "k < data_length (length ss) \<Longrightarrow> d ! byte = data_byte ss val k"
  shows "\<exists>c'. take_byte d (int byte) c = Some c' \<and> decode_inv ss val (Suc k) c0 c'"
proof -
  define m where "m = 8 * (k - length ss)"
  from inv have c: "mc_ok c" and at: "\<And>p. p \<in> set all_slots \<Longrightarrow> slot_at c p = slot_state ss k p"
    and ins: "\<And>i j. i < 4 \<Longrightarrow> j < 72 \<Longrightarrow> inputs c ! i ! j = decoded ss val k c0 i j" and fr: "frame c = frame c0"
    by (auto simp: decode_inv_def)
  have e: "eights ss k = set ss" "eights ss (Suc k) = set ss" using k by (simp_all add: eights_late)
  have n: "nines ss k = set (take m ss)" "nines ss (Suc k) = set (take (m + 8) ss)"
    using k by (simp_all add: nines_def m_def Suc_diff_le add.commute)
  show ?thesis
  proof (cases "m < length ss")
    case False
    then have s: "take m ss = ss" "take (m + 8) ss = ss" by simp_all
    have "take_byte d (int byte) c = Some c"
      using at by (intro take_byte_idle [OF c d]) (simp add: slot_state_def n e s)
    moreover have "decode_inv ss val (Suc k) c0 c"
      using inv by (simp add: decode_inv_def slot_state_def decoded_def n e s)
    ultimately show ?thesis by blast
  next
    case True
    have "filter (\<lambda>p. p \<in> set ss) all_slots = take m ss @ drop m ss" using ss by (simp add: slot_list_def)
    from filter_split [OF this] obtain A B where AB: "all_slots = A @ B"
      "take m ss = filter (\<lambda>p. p \<in> set ss) A" "drop m ss = filter (\<lambda>p. p \<in> set ss) B" by blast
    have disj: "set (take m ss) \<inter> set (drop m ss) = {}"
      by (rule set_take_disj_set_drop_if_distinct [OF slot_list_distinct [OF ss]]) simp
    have stA: "slot_at c p = (if p \<in> set ss then 3 else 0)" if "p \<in> set A" for p
    proof -
      have "p \<in> set all_slots" unfolding AB(1) using that by simp
      moreover have "p \<in> set (take m ss) \<longleftrightarrow> p \<in> set ss" using that by (simp add: AB(2))
      ultimately show ?thesis using at by (simp add: slot_state_def n e)
    qed
    have stB: "slot_at c p = (if p \<in> set ss then 2 else 0)" if "p \<in> set B" for p
    proof -
      have mem: "p \<in> set all_slots" unfolding AB(1) using that by simp
      have "p \<notin> set (take m ss)"
      proof
        assume t: "p \<in> set (take m ss)"
        then have "p \<in> set ss" by (rule in_set_takeD)
        with that have "p \<in> set (drop m ss)" by (simp add: AB(3))
        with t disj show False by blast
      qed
      with at mem show ?thesis by (simp add: slot_state_def n e)
    qed
    have fA: "filter (\<lambda>p. slot_at c p = 3) A = take m ss"
      unfolding AB(2) by (rule filter_cong) (simp_all add: stA)
    have fB: "filter (\<lambda>p. slot_at c p = 2) B = drop m ss"
      unfolding AB(3) by (rule filter_cong) (simp_all add: stB)
    have "filter (\<lambda>p. slot_at c p = 1) all_slots = []"
      using stA stB by (auto simp: AB(1) filter_empty_conv split: if_splits)
    from take_byte_ninth [OF c d this AB(1)] fA fB True
    have t: "take_byte d (int byte) c = Some (store_ninths (d ! byte) 0 (drop m ss) c)"
      using stA stB by (simp add: m_def)
    have lt: "k < data_length (length ss)" using True k by (simp add: data_length_def m_def)
    have bits: "bit (d ! byte) (0 + t) = val (drop m ss ! t) 8" if "t < length (drop m ss)" "0 + t < 8" for t
    proof -
      from that(1) have "8 * (k - length ss) + t < length ss" by (simp add: m_def)
      with x [OF lt] k that show ?thesis by (simp add: data_byte_def Let_def m_def)
    qed
    have sub: "set (drop m ss) \<subseteq> set all_slots" using slot_list_sub [OF ss] set_drop_subset [of m ss] by blast
    note facts = store_ninths_facts [OF c sub distinct_drop [OF slot_list_distinct [OF ss]], where v = "\<lambda>p. val p 8", OF bits]
    have n': "nines ss (Suc k) = nines ss k \<union> set (take 8 (drop m ss))"
      by (simp add: n take_add)
    have "decode_inv ss val (Suc k) c0 (store_ninths (d ! byte) 0 (drop m ss) c)"
      unfolding decode_inv_def
    proof (intro conjI ballI allI impI)
      show "slot_at (store_ninths (d ! byte) 0 (drop m ss) c) q = slot_state ss (Suc k) q"
        if "q \<in> set all_slots" for q
        using facts at [OF that] that by (simp add: slot_state_def n' e)
      show "inputs (store_ninths (d ! byte) 0 (drop m ss) c) ! i ! j = decoded ss val (Suc k) c0 i j"
        if "i < 4" "j < 72" for i j
      proof -
        have "j mod 9 < 8 \<or> j mod 9 = 8" using mod_less_divisor [of 9 j] by linarith
        with facts ins [OF that] that frame_eqD(1) [OF fr] show ?thesis
          by (auto simp: decoded_def Let_def e n')
      qed
    qed (use facts fr in simp_all)
    with t show ?thesis by blast
  qed
qed

section \<open>Whole transmissions\<close>

text \<open>
  Whole transmissions of a MASTERCARD: a first report that says which slots follow, and reports that
  continue it. Each report may carry the value of an axis in addition.
\<close>

section \<open>Reports\<close>

text \<open>The first byte: the cards that are present (bits 0 to 3), the number of an axis or 0 (bits
  4 to 6), and whether the report continues a transmission (bit 7).\<close>

definition head_byte :: "nat \<Rightarrow> bool \<Rightarrow> (nat \<Rightarrow> bool) \<Rightarrow> byte" where
  "head_byte axis cont cards =
     bits_byte (\<lambda>j. if j < 4 then cards j else if j < 7 then bit axis (j - 4) else cont)"

definition axis_bytes :: "nat \<times> byte \<Rightarrow> mem" where
  "axis_bytes a = (if fst a = 0 then [] else [snd a])"

definition present_cards :: "(nat \<times> nat) list \<Rightarrow> nat list" where
  "present_cards ss = filter (\<lambda>i. i \<in> fst ` set ss) [0..<4]"

definition slot_bytes :: "(nat \<times> nat) list \<Rightarrow> mem" where
  "slot_bytes ss = map (\<lambda>i. bits_byte (\<lambda>k. (i, k) \<in> set ss)) (present_cards ss)"

definition first_report :: "nat \<times> byte \<Rightarrow> (nat \<times> nat) list \<Rightarrow> mem \<Rightarrow> mem" where
  "first_report a ss xs =
     head_byte (fst a) False (\<lambda>i. i \<in> fst ` set ss) # axis_bytes a @ slot_bytes ss @ xs"

definition next_report :: "(nat \<times> byte) \<times> (nat \<Rightarrow> bool) \<times> mem \<Rightarrow> mem" where
  "next_report = (\<lambda>(a, cards, xs). head_byte (fst a) True cards # axis_bytes a @ xs)"

definition report_data :: "(nat \<times> byte) \<times> (nat \<Rightarrow> bool) \<times> mem \<Rightarrow> mem" where
  "report_data r = snd (snd r)"

lemma report_data_simp [simp]: "report_data (a, cards, xs) = xs"
  by (simp add: report_data_def)

text \<open>
  A transmission: reports of 8 bytes, whose data bytes, taken together, are those of the slots,
  followed by anything.
\<close>

definition transmission ::
  "(nat \<times> nat) list \<Rightarrow> readings \<Rightarrow> (nat \<times> byte) \<Rightarrow> mem \<Rightarrow> ((nat \<times> byte) \<times> (nat \<Rightarrow> bool) \<times> mem) list \<Rightarrow> bool" where
  "transmission ss val a xs rest \<longleftrightarrow>
     slot_list ss \<and> fst a < 8 \<and> length (first_report a ss xs) = 8 \<and>
     (\<forall>r \<in> set rest. fst (fst r) < 8 \<and> length (next_report r) = 8) \<and>
     take (data_length (length ss)) (xs @ concat (map report_data rest)) = data_bytes ss val"

lemma head_byte_bits:
  "j < 4 \<Longrightarrow> bit (head_byte axis cont cards) j = cards j"
  "bit (head_byte axis cont cards) 7 = cont"
  by (simp_all add: head_byte_def)

lemma head_byte_axis:
  assumes "axis < 8"
  shows "uint (and (drop_bit 4 (head_byte axis cont cards)) 7) = int axis"
proof -
  have seven: "(7 :: byte) = mask 3" by (simp add: mask_eq_exp_minus_1)
  have "axis = take_bit 3 axis" using assms by (simp add: take_bit_eq_mod)
  then have a: "bit axis n \<longleftrightarrow> n < 3 \<and> bit axis n" for n by (metis bit_take_bit_iff)
  have h: "bit (head_byte axis cont cards) (4 + n) = bit axis n" if "n < 3" for n
    using that by (simp add: head_byte_def)
  have "take_bit 3 (drop_bit 4 (uint (head_byte axis cont cards))) = int axis"
  proof (rule bit_eqI)
    show "bit (take_bit 3 (drop_bit 4 (uint (head_byte axis cont cards)))) n = bit (int axis) n" for n
      using a [of n] h [of n]
      by (auto simp: bit_take_bit_iff bit_drop_bit_eq bit_uint_iff bit_of_nat_iff_bit)
  qed
  moreover have "take_bit 8 (uint w) = uint w" for w :: byte
    using uint_lt2p [of w] by (simp add: take_bit_eq_mod)
  ultimately show ?thesis
    by (simp add: seven take_bit_eq_mask [symmetric] unsigned_take_bit_eq unsigned_drop_bit_eq)
qed

section \<open>The value of an axis\<close>

definition axes_ok :: "iocard_struct \<Rightarrow> bool" where
  "axes_ok c \<longleftrightarrow>
     arr_ok MAXAXES (arr_ok MAX_HIST (within (- 1) 65535)) (axes_hist c) \<and>
     arr_ok MAXAXES (within (- 1) 65535) (axes c) \<and> arr_ok MAXAXES (within (- 1) 65535) (axes_old c)"

lemma axes_okD:
  assumes "axes_ok c"
  shows "arr_ok 8 (arr_ok 10 (within (- 1) 65535)) (axes_hist c)"
    and "arr_ok 8 (within (- 1) 65535) (axes c)" and "arr_ok 8 (within (- 1) 65535) (axes_old c)"
  using assms by (simp_all add: axes_ok_def)

lemma shift_axis_10:
  assumes "length h = 10"
  shows "shift_axis h = Some (hd h # butlast h)"
proof -
  from assms have "take 1 h = [hd h]" by (cases h) simp_all
  moreover from assms have "take 9 h = butlast h" "drop 10 h = []" by (simp_all add: butlast_conv_take)
  ultimately show ?thesis
    using shift_loop [of 9 h] assms by (simp add: shift_axis_def eval_nat_numeral)
qed

text \<open>The stored value after a reading, in terms of the library's \<open>sort\<close>.\<close>

definition filtered :: "int \<Rightarrow> int list \<Rightarrow> int \<Rightarrow> int \<Rightarrow> int" where
  "filtered noise h old val =
     (if val \<noteq> INITVAL \<and> sort h ! 5 \<noteq> INITVAL \<and> \<bar>val - sort h ! 5\<bar> \<le> noise then old else val)"

lemma axis_filter_run:
  assumes c: "axes_ok c" and a: "a < 8" and v: "within (- 1) 65535 val" and n: "0 \<le> noise"
  shows "axis_filter noise (int a) val c =
      Some (c\<lparr>axes := (axes c)[a := filtered noise (axes_hist c ! a) (axes c ! a) val],
              axes_hist := (axes_hist c)[a := val # butlast (axes_hist c ! a)]\<rparr>)"
    and "axes_ok (c\<lparr>axes := (axes c)[a := filtered noise (axes_hist c ! a) (axes c ! a) val],
              axes_hist := (axes_hist c)[a := val # butlast (axes_hist c ! a)]\<rparr>)"
proof -
  let ?h = "axes_hist c ! a"
  note ok = axes_okD [OF c]
  have h: "arr_ok 10 (within (- 1) 65535) ?h" by (rule arr_ok_nth [OF ok(1) a])
  note l = arr_ok_length [OF h] arr_ok_length [OF ok(1)] arr_ok_length [OF ok(2)]
  have q: "quicksort ?h 0 9 = Some (sort ?h)" using quicksort_whole [of ?h] l by simp
  have g: "arr_get (axes_hist c) (int a) = Some ?h" "arr_get (sort ?h) 5 = Some (sort ?h ! 5)"
    using a l by (simp_all add: arr_get_def)
  have s: "shift_axis ?h = Some (hd ?h # butlast ?h)" by (rule shift_axis_10) (rule l(1))
  have keep: "(axes c)[a := axes c ! a] = axes c" by simp
  show "axis_filter noise (int a) val c =
      Some (c\<lparr>axes := (axes c)[a := filtered noise ?h (axes c ! a) val],
              axes_hist := (axes_hist c)[a := val # butlast ?h]\<rparr>)"
    using a l n by (auto simp: axis_filter_def filtered_def g q s arr_set_int keep)
  have "within (- 1) 65535 (filtered noise ?h (axes c ! a) val)"
    using v arr_ok_nth [OF ok(2) a] by (simp add: filtered_def)
  moreover have "arr_ok 10 (within (- 1) 65535) (val # butlast ?h)"
    using h v l(1) by (auto simp: arr_ok_def list_all_iff dest: in_set_butlastD)
  ultimately show "axes_ok (c\<lparr>axes := (axes c)[a := filtered noise ?h (axes c ! a) val],
      axes_hist := (axes_hist c)[a := val # butlast ?h]\<rparr>)"
    using ok by (simp add: axes_ok_def arr_ok_update)
qed

lemma within_byte: "within (- 1) 65535 (uint (x :: byte))"
  using uint_lt2p [of x] by (auto simp: within_def intro: order_trans [of _ 0])

lemma read_axis_value_run:
  assumes c: "axes_ok c" and d: "length d = 8"
  shows "\<exists>ax hs. read_axis_value d c = Some (c\<lparr>axes := ax, axes_hist := hs\<rparr>) \<and>
    axes_ok (c\<lparr>axes := ax, axes_hist := hs\<rparr>)"
proof -
  define a where "a = uint (and (drop_bit 4 (d ! 0)) 7)"
  have ax: "report_axis d = Some a" using d by (simp add: report_axis_def a_def arr_get_def)
  have "and (drop_bit 4 (d ! 0)) 7 = take_bit 3 (drop_bit 4 (d ! 0))"
    by (simp add: take_bit_eq_mask mask_eq_exp_minus_1)
  then have "a < 8"
    using take_bit_int_less_exp [of 3 "uint (drop_bit 4 (d ! 0))"] by (simp add: a_def unsigned_take_bit_eq)
  show ?thesis
  proof (cases "a > 0")
    case True
    define k where "k = nat (a - 1)"
    have k: "a - 1 = int k" "k < 8" using True \<open>a < 8\<close> by (simp_all add: k_def)
    have "arr_get (axes_old c) (a - 1) = Some (axes_old c ! k)" "arr_get d 1 = Some (d ! 1)"
      using k arr_ok_length [OF axes_okD(3) [OF c]] d by (simp_all add: arr_get_def)
    then have "read_axis_value d c =
        (if \<bar>uint (d ! 1) - axes_old c ! k\<bar> > 1 \<or> uint (d ! 1) = 0 \<or> uint (d ! 1) = 255
         then axis_filter 1 (int k) (uint (d ! 1)) c else Some c)"
      using ax True k(1) by (simp add: read_axis_value_def)
    moreover have "c = c\<lparr>axes := axes c, axes_hist := axes_hist c\<rparr>" by simp
    ultimately show ?thesis
      using axis_filter_run [OF c k(2) within_byte, of 1 "d ! 1"] c by (metis zero_le_one)
  next
    case False
    with ax c show ?thesis
      by (auto simp: read_axis_value_def intro!: exI [of _ "axes c"] exI [of _ "axes_hist c"])
  qed
qed

end
