(* ===== verification/IocardsInputs.thy ===== *)
theory IocardsInputs
  imports IocardsDecode
begin

text \<open>
  \<open>receive_mastercard\<close> on whole transmissions: the slots that the first report announces are marked,
  and the data bytes of all reports are taken in order.
\<close>

section \<open>Marking the slots\<close>

definition slots_ok :: "int list list \<Rightarrow> bool" where
  "slots_ok sd \<longleftrightarrow> arr_ok 4 (arr_ok 8 (within 0 3)) sd"

lemma slots_ok_set:
  assumes "slots_ok sd" "i < 4" "k < 8" "within 0 3 v"
  shows "arr_set2 sd (int i) (int k) v = Some (upd2 sd i k v) \<and> slots_ok (upd2 sd i k v)"
  using arr_ok_set2 [of 4 8 "within 0 3" sd "int i" "int k" v] assms by (simp add: slots_ok_def)

lemma slots_ok_nth:
  assumes "slots_ok sd" "i < 4" "k < 8"
  shows "upd2 sd i k v ! i' ! k' = (if i' = i \<and> k' = k then v else sd ! i' ! k')"
  using assms arr_ok_length [of 4 _ sd] arr_ok_length [OF arr_ok_nth [of 4 "arr_ok 8 (within 0 3)" sd i]]
  by (simp add: slots_ok_def upd2_nth)

text \<open>A loop over the eight slots of a card that sets those for which a condition holds.\<close>

lemma slot_loop:
  assumes "slots_ok sd" and "i < 4" and "n \<le> 8" and "within 0 3 v"
    and "\<And>k sd. k < n \<Longrightarrow> f k sd = (if g k then arr_set2 sd (int i) (int k) v else Some sd)"
  shows "\<exists>sd'. for_each [0..<n] f sd = Some sd' \<and> slots_ok sd' \<and>
    (\<forall>i' k'. sd' ! i' ! k' = (if i' = i \<and> k' < n \<and> g k' then v else sd ! i' ! k'))"
  using assms(3,5)
proof (induction n)
  case 0
  with assms(1) show ?case by simp
next
  case (Suc n)
  then obtain sd' where sd': "for_each [0..<n] f sd = Some sd'" "slots_ok sd'"
    "\<And>i' k'. sd' ! i' ! k' = (if i' = i \<and> k' < n \<and> g k' then v else sd ! i' ! k')" by fastforce
  show ?case
  proof (cases "g n")
    case True
    have *: "arr_set2 sd' (int i) (int n) v = Some (upd2 sd' i n v)" "slots_ok (upd2 sd' i n v)"
      using slots_ok_set [OF sd'(2) assms(2) _ assms(4), of n] Suc.prems(1) by auto
    show ?thesis
    proof (intro exI conjI)
      show "for_each [0..<Suc n] f sd = Some (upd2 sd' i n v)"
        using True sd'(1) * Suc.prems(2) [of n] by (simp add: for_each_append)
      show "\<forall>i' k'. upd2 sd' i n v ! i' ! k' = (if i' = i \<and> k' < Suc n \<and> g k' then v else sd ! i' ! k')"
        using slots_ok_nth [OF sd'(2) assms(2), of n v] Suc.prems(1) sd'(3) True by (auto simp: less_Suc_eq)
    qed (rule *(2))
  next
    case False
    with sd' Suc.prems(2) [of n] show ?thesis by (intro exI [of _ sd']) (auto simp: for_each_append less_Suc_eq)
  qed
qed

lemma clear_slots_run:
  assumes "slots_ok sd"
  shows "\<exists>sd'. clear_slots sd = Some sd' \<and> slots_ok sd' \<and> (\<forall>i < 4. \<forall>k < 8. sd' ! i ! k = 0)"
proof -
  have "\<exists>sd'. for_each [0..<n] (\<lambda>i. for_each [0..<8] (\<lambda>k sd. arr_set2 sd (int i) (int k) 0)) sd = Some sd' \<and>
      slots_ok sd' \<and> (\<forall>i < n. \<forall>k < 8. sd' ! i ! k = 0)" if "n \<le> 4" for n
    using that
  proof (induction n)
    case (Suc n)
    then obtain sd' where sd': "for_each [0..<n] (\<lambda>i. for_each [0..<8] (\<lambda>k sd. arr_set2 sd (int i) (int k) 0)) sd = Some sd'"
      "slots_ok sd'" "\<forall>i < n. \<forall>k < 8. sd' ! i ! k = 0" by auto
    from slot_loop [OF sd'(2), of n 8 0 "\<lambda>k sd. arr_set2 sd (int n) (int k) 0" "\<lambda>_. True"] Suc.prems
    obtain sd2 where "for_each [0..<8] (\<lambda>k sd. arr_set2 sd (int n) (int k) 0) sd' = Some sd2" "slots_ok sd2"
      "\<forall>i' k'. sd2 ! i' ! k' = (if i' = n \<and> k' < 8 then 0 else sd' ! i' ! k')" by (auto simp: within_def)
    with sd' show ?case by (intro exI [of _ sd2]) (auto simp: for_each_append less_Suc_eq)
  qed (use assms in simp)
  from this [of 4] show ?thesis by (simp add: clear_slots_def)
qed

lemma present_split:
  assumes "n < 4" and "n \<in> fst ` set ss"
  shows "length (filter (\<lambda>i. i \<in> fst ` set ss) [0..<n]) < length (present_cards ss)"
    and "present_cards ss ! length (filter (\<lambda>i. i \<in> fst ` set ss) [0..<n]) = n"
proof -
  have "[0..<4] = [0..<n] @ n # [Suc n..<4]"
    using assms(1) upt_add_eq_append [of 0 n "4 - n"] by (simp add: upt_conv_Cons)
  then have "present_cards ss = filter (\<lambda>i. i \<in> fst ` set ss) [0..<n] @ n # filter (\<lambda>i. i \<in> fst ` set ss) [Suc n..<4]"
    using assms(2) by (simp add: present_cards_def)
  then show "length (filter (\<lambda>i. i \<in> fst ` set ss) [0..<n]) < length (present_cards ss)"
    and "present_cards ss ! length (filter (\<lambda>i. i \<in> fst ` set ss) [0..<n]) = n"
    by simp_all
qed

lemma mark_slots_run:
  assumes sd: "slots_ok sd" "\<forall>i < 4. \<forall>k < 8. sd ! i ! k = 0" and d: "length d = 8"
    and cards: "\<And>i. i < 4 \<Longrightarrow> bit (d ! 0) i = (i \<in> fst ` set ss)"
    and room: "byte + length (present_cards ss) \<le> 8"
    and bytes: "\<And>t. t < length (present_cards ss) \<Longrightarrow> d ! (byte + t) = slot_bytes ss ! t"
  shows "\<exists>sd'. mark_slots d (int byte) sd = Some (sd', int (length (present_cards ss))) \<and> slots_ok sd' \<and>
    (\<forall>i < 4. \<forall>k < 8. sd' ! i ! k = of_bool ((i, k) \<in> set ss))"
proof -
  let ?pre = "\<lambda>n. filter (\<lambda>i. i \<in> fst ` set ss) [0..<n]"
  define body where "body = (\<lambda>cardno (sd :: int list list, sumcards).
       do {
         present \<leftarrow> input_bit d 0 cardno;
         if present = 1 then
           do {
             sd \<leftarrow> for_each [0..<8] (\<lambda>slot sd.
               do {
                 b \<leftarrow> input_bit d (int byte + sumcards) slot;
                 if b = 1 then arr_set2 sd (int cardno) (int slot) 1 else Some sd
               }) sd;
             Some (sd, sumcards + 1)
           }
         else Some (sd, sumcards)
       })"
  have "\<exists>sd'. for_each [0..<n] body (sd, 0) = Some (sd', int (length (?pre n))) \<and> slots_ok sd' \<and>
      (\<forall>i < 4. \<forall>k < 8. sd' ! i ! k = of_bool (i < n \<and> (i, k) \<in> set ss))" if "n \<le> 4" for n
    using that
  proof (induction n)
    case 0
    with sd show ?case by (intro exI [of _ sd]) simp
  next
    case (Suc n)
    then obtain sd1 where sd1: "for_each [0..<n] body (sd, 0) = Some (sd1, int (length (?pre n)))" "slots_ok sd1"
      "\<And>i k. i < 4 \<Longrightarrow> k < 8 \<Longrightarrow> sd1 ! i ! k = of_bool (i < n \<and> (i, k) \<in> set ss)" by auto
    have n: "n < 4" using Suc.prems by simp
    have present: "input_bit d 0 n = Some (of_bool (n \<in> fst ` set ss))"
      using input_bit_of_byte [of n 0 d] n d cards [OF n] by simp
    show ?case
    proof (cases "n \<in> fst ` set ss")
      case True
      let ?t = "length (?pre n)"
      note t = present_split [OF n True]
      have b8: "byte + ?t < 8" using room t(1) by linarith
      have "d ! (byte + ?t) = bits_byte (\<lambda>k. (n, k) \<in> set ss)"
        using bytes [OF t(1)] t by (simp add: slot_bytes_def)
      then have bits: "input_bit d (int byte + int ?t) k = Some (of_bool ((n, k) \<in> set ss))" if "k < 8" for k
        using input_bit_of_byte [OF that b8 d] that by simp
      from slot_loop [OF sd1(2) n order_refl, of 1 "\<lambda>slot sd.
               do {
                 b \<leftarrow> input_bit d (int byte + int ?t) slot;
                 if b = 1 then arr_set2 sd (int n) (int slot) 1 else Some sd
               }" "\<lambda>k. (n, k) \<in> set ss"] bits
      obtain sd2 where sd2: "for_each [0..<8] (\<lambda>slot sd.
               do {
                 b \<leftarrow> input_bit d (int byte + int ?t) slot;
                 if b = 1 then arr_set2 sd (int n) (int slot) 1 else Some sd
               }) sd1 = Some sd2" "slots_ok sd2"
        "\<And>i k. sd2 ! i ! k = (if i = n \<and> k < 8 \<and> (n, k) \<in> set ss then 1 else sd1 ! i ! k)"
        by (fastforce simp: within_def)
      then have "body n (sd1, int ?t) = Some (sd2, int ?t + 1)"
        using present True by (simp add: body_def)
      with sd1 sd2 True show ?thesis
        by (intro exI [of _ sd2]) (auto simp: for_each_append less_Suc_eq)
    next
      case False
      then have no: "(n, k) \<notin> set ss" for k by force
      have "body n (sd1, int (length (?pre n))) = Some (sd1, int (length (?pre n)))"
        using present False by (simp add: body_def)
      with sd1 False no show ?thesis
        by (intro exI [of _ sd1]) (auto simp: for_each_append less_Suc_eq)
    qed
  qed
  from this [of 4] show ?thesis by (auto simp: mark_slots_def body_def present_cards_def)
qed

section \<open>Reports\<close>

text \<open>The data that a transmission has from its byte \<open>k\<close> on.\<close>

fun data_at :: "(nat \<times> nat) list \<Rightarrow> readings \<Rightarrow> nat \<Rightarrow> mem \<Rightarrow> bool" where
  "data_at ss val k [] = True"
| "data_at ss val k (y # ys) =
     ((k < data_length (length ss) \<longrightarrow> y = data_byte ss val k) \<and> data_at ss val (Suc k) ys)"

lemma data_at_append:
  "data_at ss val k (ys @ zs) \<longleftrightarrow> data_at ss val k ys \<and> data_at ss val (k + length ys) zs"
  by (induction ys arbitrary: k) simp_all

lemma data_atI:
  "(\<And>t. t < length ys \<Longrightarrow> k + t < data_length (length ss) \<Longrightarrow> ys ! t = data_byte ss val (k + t)) \<Longrightarrow>
   data_at ss val k ys"
proof (induction ys arbitrary: k)
  case (Cons y ys)
  from Cons.prems [of 0] have "k < data_length (length ss) \<longrightarrow> y = data_byte ss val k" by simp
  moreover have "data_at ss val (Suc k) ys"
    using Cons.prems [of "Suc _"] by (intro Cons.IH) simp
  ultimately show ?case by simp
qed simp

lemma chunk_run:
  assumes ss: "slot_list ss" and d: "length d = 8"
  shows "decode_inv ss val k c0 c \<Longrightarrow> pos \<le> 8 \<Longrightarrow> data_at ss val k (drop pos d) \<Longrightarrow>
    \<exists>c'. for_each (map int [pos..<8]) (take_byte d) c = Some c' \<and> decode_inv ss val (k + (8 - pos)) c0 c'"
proof (induction "8 - pos" arbitrary: pos k c)
  case 0
  then show ?case by simp
next
  case (Suc n)
  then have pos: "pos < 8" by simp
  then have dr: "drop pos d = d ! pos # drop (Suc pos) d" using d by (simp add: Cons_nth_drop_Suc)
  from Suc.prems(3) have x: "k < data_length (length ss) \<Longrightarrow> d ! pos = data_byte ss val k"
    and rest: "data_at ss val (Suc k) (drop (Suc pos) d)"
    by (simp_all add: dr)
  have "\<exists>c'. take_byte d (int pos) c = Some c' \<and> decode_inv ss val (Suc k) c0 c'"
  proof (cases "k < length ss")
    case True
    with x have "d ! pos = data_byte ss val k" by (simp add: data_length_def)
    from step_eight [OF ss Suc.prems(1) d pos True this] show ?thesis .
  next
    case False
    with step_ninth [OF ss Suc.prems(1) d pos _ x] show ?thesis by simp
  qed
  then obtain c' where c': "take_byte d (int pos) c = Some c'" "decode_inv ss val (Suc k) c0 c'" by blast
  have "n = 8 - Suc pos" "Suc pos \<le> 8" using Suc.hyps(2) pos by simp_all
  from Suc.hyps(1) [OF this(1) c'(2) this(2) rest] obtain c'' where
    "for_each (map int [Suc pos..<8]) (take_byte d) c' = Some c''"
    "decode_inv ss val (Suc k + (8 - Suc pos)) c0 c''" by blast
  moreover have "Suc k + (8 - Suc pos) = k + (8 - pos)" using pos by simp
  ultimately have "for_each (map int [pos..<8]) (take_byte d) c = Some c''" "decode_inv ss val (k + (8 - pos)) c0 c''"
    using c'(1) pos by (simp_all only: upt_conv_Cons) simp_all
  then show ?case by blast
qed

text \<open>An axis value that comes with a report.\<close>

lemma decode_inv_axes:
  "decode_inv ss val k c0 c \<Longrightarrow>
   decode_inv ss val k (c0\<lparr>axes := ax, axes_hist := hs\<rparr>) (c\<lparr>axes := ax, axes_hist := hs\<rparr>)"
proof -
  assume h: "decode_inv ss val k c0 c"
  have f: "frame (x\<lparr>axes := ax, axes_hist := hs\<rparr>) = (frame x)\<lparr>axes := ax, axes_hist := hs\<rparr>" for x
    by (simp add: frame_def)
  have d: "decoded ss val k (c0\<lparr>axes := ax, axes_hist := hs\<rparr>) i j = decoded ss val k c0 i j" for i j
    by (simp add: decoded_def Let_def)
  from h show ?thesis by (simp add: decode_inv_def mc_ok_def f d)
qed

lemma report_axis_head:
  assumes "d = head_byte axis cont cards # ys" and "axis < 8"
  shows "report_axis d = Some (int axis)"
  using assms head_byte_axis [of axis cont cards] by (simp add: report_axis_def)

lemma take_report_first:
  assumes "read_axis_value d c0 = Some c1" "report_axis d = Some ax" "input_bit d 0 7 = Some 0"
    and "(if ax = 0 then 1 else 2) = byte"
    and "clear_slots (slotdata c1) = Some sd0" "mark_slots d byte sd0 = Some (sd, n)"
  shows "take_report d c0 = for_each (map int [nat (byte + n)..<8]) (take_byte d) (c1\<lparr>slotdata := sd\<rparr>)"
  using assms by (cases "ax = 0") (simp_all add: take_report_def)

lemma take_report_next:
  assumes "read_axis_value d c0 = Some c1" "report_axis d = Some ax" "input_bit d 0 7 = Some 1"
    and "(if ax = 0 then 1 else 2) = byte"
  shows "take_report d c0 = for_each (map int [nat byte..<8]) (take_byte d) c1"
  using assms by (cases "ax = 0") (simp_all add: take_report_def)

lemma first_report_run:
  assumes ss: "slot_list ss" and a: "fst a < 8" and len: "length (first_report a ss xs) = 8"
    and data: "data_at ss val 0 xs" and c0: "mc_ok c0" "axes_ok c0"
  shows "\<exists>c ax hs. take_report (first_report a ss xs) c0 = Some c \<and>
    decode_inv ss val (length xs) (c0\<lparr>axes := ax, axes_hist := hs\<rparr>) c \<and>
    axes_ok (c0\<lparr>axes := ax, axes_hist := hs\<rparr>)"
proof -
  define d where "d = first_report a ss xs"
  have d8: "length d = 8" using len by (simp add: d_def)
  from read_axis_value_run [OF c0(2) d8] obtain ax hs where
    r: "read_axis_value d c0 = Some (c0\<lparr>axes := ax, axes_hist := hs\<rparr>)"
      "axes_ok (c0\<lparr>axes := ax, axes_hist := hs\<rparr>)" by blast
  let ?c = "c0\<lparr>axes := ax, axes_hist := hs\<rparr>"
  define byte where "byte = (if fst a = 0 then 1 else 2 :: nat)"
  have byte: "(if int (fst a) = 0 then 1 else 2) = int byte" by (simp add: byte_def)
  have head: "d = head_byte (fst a) False (\<lambda>i. i \<in> fst ` set ss) # axis_bytes a @ slot_bytes ss @ xs"
    by (simp add: d_def first_report_def)
  have axis: "report_axis d = Some (int (fst a))" by (rule report_axis_head [OF head a])
  have b0: "d ! 0 = head_byte (fst a) False (\<lambda>i. i \<in> fst ` set ss)" by (simp add: head)
  have more: "input_bit d 0 7 = Some 0"
    using input_bit_of_byte [of 7 0 d] d8 by (simp add: b0 head_byte_bits)
  have pre: "Suc (length (axis_bytes a)) = byte" by (simp add: axis_bytes_def byte_def)
  have slots: "slots_ok (slotdata c0)" using c0(1) by (simp add: mc_ok_def slots_ok_def)
  from clear_slots_run [OF this] obtain sd0 where
    clear: "clear_slots (slotdata c0) = Some sd0" "slots_ok sd0" "\<forall>i < 4. \<forall>k < 8. sd0 ! i ! k = 0" by blast
  have l: "byte + length (present_cards ss) + length xs = 8"
    using d8 by (simp add: head slot_bytes_def pre [symmetric])
  have "d ! (byte + t) = slot_bytes ss ! t" if "t < length (present_cards ss)" for t
    using that by (simp add: head nth_append slot_bytes_def pre [symmetric])
  from mark_slots_run [OF clear(2,3) d8 _ _ this] b0 l obtain sd where
    mark: "mark_slots d (int byte) sd0 = Some (sd, int (length (present_cards ss)))" "slots_ok sd"
      "\<forall>i < 4. \<forall>k < 8. sd ! i ! k = of_bool ((i, k) \<in> set ss)"
    by (auto simp: head_byte_bits)
  define pos where "pos = byte + length (present_cards ss)"
  have inv: "decode_inv ss val 0 ?c (?c\<lparr>slotdata := sd\<rparr>)"
    using c0(1) mark(2,3)
    by (auto simp: decode_inv_def mc_ok_def slots_ok_def slot_state_def nines_def eights_def decoded_def
        frame_def all_slots_iff)
  have "drop pos d = xs" by (simp add: pos_def head slot_bytes_def pre [symmetric])
  with data have "data_at ss val 0 (drop pos d)" by simp
  moreover have "pos \<le> 8" "0 + (8 - pos) = length xs" using l by (simp_all add: pos_def)
  ultimately obtain c where c: "for_each (map int [pos..<8]) (take_byte d) (?c\<lparr>slotdata := sd\<rparr>) = Some c"
    "decode_inv ss val (length xs) ?c c" using chunk_run [OF ss d8 inv, of pos] by metis
  have "nat (int byte + int (length (present_cards ss))) = pos" by (simp add: pos_def nat_add_distrib)
  with c have "take_report d c0 = Some c"
    using take_report_first [OF r(1) axis more byte _ mark(1)] clear(1) by simp
  with r(2) c(2) show ?thesis unfolding d_def by blast
qed

lemma next_report_run:
  assumes ss: "slot_list ss" and r: "r = (a, cards, ys)" and a: "fst a < 8" and len: "length (next_report r) = 8"
    and data: "data_at ss val k ys" and inv: "decode_inv ss val k c0 c" and ok: "axes_ok c0"
  shows "\<exists>c' ax hs. take_report (next_report r) c = Some c' \<and>
    decode_inv ss val (k + length ys) (c0\<lparr>axes := ax, axes_hist := hs\<rparr>) c' \<and>
    axes_ok (c0\<lparr>axes := ax, axes_hist := hs\<rparr>)"
proof -
  define d where "d = next_report r"
  have d8: "length d = 8" using len by (simp add: d_def)
  have fr: "frame c = frame c0" using inv by (simp add: decode_inv_def)
  have okc: "axes_ok c" using ok frame_eqD [OF fr] by (simp add: axes_ok_def)
  from read_axis_value_run [OF okc d8] obtain ax hs where
    v: "read_axis_value d c = Some (c\<lparr>axes := ax, axes_hist := hs\<rparr>)"
      "axes_ok (c\<lparr>axes := ax, axes_hist := hs\<rparr>)" by blast
  define pos where "pos = (if fst a = 0 then 1 else 2 :: nat)"
  have pos: "(if int (fst a) = 0 then 1 else 2) = int pos" by (simp add: pos_def)
  have head: "d = head_byte (fst a) True cards # axis_bytes a @ ys"
    by (simp add: d_def next_report_def r)
  have axis: "report_axis d = Some (int (fst a))" by (rule report_axis_head [OF head a])
  have b0: "d ! 0 = head_byte (fst a) True cards" by (simp add: head)
  have more: "input_bit d 0 7 = Some 1"
    using input_bit_of_byte [of 7 0 d] d8 by (simp add: b0 head_byte_bits)
  have dr: "drop pos d = ys" by (simp add: head axis_bytes_def pos_def)
  have l: "pos + length ys = 8" using d8 by (simp add: head axis_bytes_def pos_def split: if_splits)
  from data dr have "data_at ss val k (drop pos d)" by simp
  moreover have "pos \<le> 8" "8 - pos = length ys" using l by simp_all
  ultimately obtain c' where
    c': "for_each (map int [pos..<8]) (take_byte d) (c\<lparr>axes := ax, axes_hist := hs\<rparr>) = Some c'"
    "decode_inv ss val (k + length ys) (c0\<lparr>axes := ax, axes_hist := hs\<rparr>) c'"
    using chunk_run [OF ss d8 decode_inv_axes [OF inv], of pos] by metis
  then have "take_report d c = Some c'"
    using take_report_next [OF v(1) axis more pos] by simp
  moreover have "axes_ok (c0\<lparr>axes := ax, axes_hist := hs\<rparr>)"
    using v(2) ok by (simp add: axes_ok_def)
  ultimately show ?thesis using c'(2) unfolding d_def by blast
qed

lemma next_reports_run:
  assumes ss: "slot_list ss"
  shows "\<forall>r \<in> set rs. fst (fst r) < 8 \<and> length (next_report r) = 8 \<Longrightarrow>
    data_at ss val k (concat (map report_data rs)) \<Longrightarrow> decode_inv ss val k c0 c \<Longrightarrow> axes_ok c0 \<Longrightarrow>
    \<exists>c' ax hs. for_each (map next_report rs) take_report c = Some c' \<and>
      decode_inv ss val (k + length (concat (map report_data rs))) (c0\<lparr>axes := ax, axes_hist := hs\<rparr>) c' \<and>
      axes_ok (c0\<lparr>axes := ax, axes_hist := hs\<rparr>)"
proof (induction rs arbitrary: k c0 c)
  case Nil
  have "c0 = c0\<lparr>axes := axes c0, axes_hist := axes_hist c0\<rparr>" by simp
  with Nil show ?case by (metis add_0_right concat.simps(1) for_each.simps(1) list.simps(8) list.size(3))
next
  case (Cons r rs)
  obtain a cards ys where r: "r = (a, cards, ys)" by (rule prod_cases3)
  have data: "data_at ss val k ys" "data_at ss val (k + length ys) (concat (map report_data rs))"
    using Cons.prems(2) by (simp_all add: r data_at_append)
  from next_report_run [OF ss r _ _ data(1) Cons.prems(3,4)] Cons.prems(1) obtain c1 ax hs where
    c1: "take_report (next_report r) c = Some c1"
      "decode_inv ss val (k + length ys) (c0\<lparr>axes := ax, axes_hist := hs\<rparr>) c1"
      "axes_ok (c0\<lparr>axes := ax, axes_hist := hs\<rparr>)" by (auto simp: r)
  have "\<forall>r \<in> set rs. fst (fst r) < 8 \<and> length (next_report r) = 8" using Cons.prems(1) by simp
  from Cons.IH [OF this data(2) c1(2,3)] obtain c' ax' hs' where
    "for_each (map next_report rs) take_report c1 = Some c'"
    "decode_inv ss val (k + length ys + length (concat (map report_data rs))) (c0\<lparr>axes := ax', axes_hist := hs'\<rparr>) c'"
    "axes_ok (c0\<lparr>axes := ax', axes_hist := hs'\<rparr>)" by auto
  with c1(1) show ?case by (intro exI [of _ c'] exI [of _ ax'] exI [of _ hs']) (simp add: r add.assoc)
qed

text \<open>
  A whole transmission: the nine inputs of every slot that it has are read back, on the cards that
  the ini file gives; all other inputs keep their values, and so does everything else but
  the book-keeping of the slots and the axes.
\<close>

lemma transmission_decoded:
  assumes t: "transmission ss val a xs rest" and c0: "mc_ok c0" "axes_ok c0"
  shows "\<exists>c' ax hs. for_each (first_report a ss xs # map next_report rest) take_report c0 = Some c' \<and>
    (\<forall>i < 4. \<forall>j < 72. inputs c' ! i ! j =
       (if (i, j div 9) \<in> set ss \<and> int i < ncards c0 then of_bool (val (i, j div 9) (j mod 9))
        else inputs c0 ! i ! j)) \<and>
    mc_ok c' \<and> axes_ok c' \<and> frame c' = frame (c0\<lparr>axes := ax, axes_hist := hs\<rparr>)"
proof -
  let ?stream = "xs @ concat (map report_data rest)" and ?n = "length ss"
  from t have ss: "slot_list ss" and pre: "take (data_length ?n) ?stream = data_bytes ss val"
    by (simp_all add: transmission_def)
  have "length (data_bytes ss val) = data_length ?n" by (simp add: data_bytes_def)
  with pre have l: "data_length ?n \<le> length ?stream" by (metis length_take min.absorb_iff2 min.commute)
  have "data_at ss val 0 ?stream"
  proof (rule data_atI)
    fix k assume "k < length ?stream" "0 + k < data_length ?n"
    then have "?stream ! k = take (data_length ?n) ?stream ! k" by (simp only: add_0 nth_take)
    also have "\<dots> = data_byte ss val (0 + k)"
      unfolding pre using \<open>0 + k < data_length ?n\<close> by (simp add: data_bytes_def)
    finally show "?stream ! k = data_byte ss val (0 + k)" .
  qed
  then have data: "data_at ss val 0 xs" "data_at ss val (length xs) (concat (map report_data rest))"
    by (simp_all add: data_at_append)
  from t have a: "fst a < 8" "length (first_report a ss xs) = 8"
    and rest: "\<forall>r \<in> set rest. fst (fst r) < 8 \<and> length (next_report r) = 8"
    by (simp_all add: transmission_def)
  from first_report_run [OF ss a data(1) c0] obtain c1 ax1 hs1 where
    c1: "take_report (first_report a ss xs) c0 = Some c1"
      "decode_inv ss val (length xs) (c0\<lparr>axes := ax1, axes_hist := hs1\<rparr>) c1"
      "axes_ok (c0\<lparr>axes := ax1, axes_hist := hs1\<rparr>)" by blast
  from next_reports_run [OF ss rest data(2) c1(2,3)] obtain c' ax hs where
    c': "for_each (map next_report rest) take_report c1 = Some c'"
      "decode_inv ss val (length ?stream) (c0\<lparr>axes := ax, axes_hist := hs\<rparr>) c'"
      "axes_ok (c0\<lparr>axes := ax, axes_hist := hs\<rparr>)" by auto
  define k where "k = length ?stream"
  have k: "data_length ?n \<le> k" using l by (simp add: k_def)
  then have e: "eights ss k = set ss" by (simp add: eights_late data_length_def)
  have "?n \<le> 8 * (k - ?n)" using k unfolding data_length_def by linarith
  then have n: "nines ss k = set ss" by (simp add: nines_def)
  have fr: "frame c' = frame (c0\<lparr>axes := ax, axes_hist := hs\<rparr>)" and ok: "mc_ok c'"
    and ins: "\<And>i j. i < 4 \<Longrightarrow> j < 72 \<Longrightarrow> inputs c' ! i ! j = decoded ss val k (c0\<lparr>axes := ax, axes_hist := hs\<rparr>) i j"
    using c'(2) by (simp_all add: decode_inv_def k_def)
  have "axes_ok c'" using c'(3) frame_eqD [OF fr] by (simp add: axes_ok_def)
  moreover have "for_each (first_report a ss xs # map next_report rest) take_report c0 = Some c'"
    using c1(1) c'(1) by simp
  ultimately show ?thesis
    using ins fr ok by (intro exI [of _ c'] exI [of _ ax] exI [of _ hs]) (auto simp: decoded_def Let_def e n)
qed

end
