(* ===== verification/IocardsTurn.thy ===== *)
theory IocardsTurn
  imports IocardsInputs Usb
begin

text \<open>
  From the reports that arrive to the inputs that the panel code sees: \<open>receive_mastercard\<close> takes all
  reports of every device.
\<close>

section \<open>The receive loop\<close>

lemma receive_loop_empty:
  assumes "length (device st) = MAXDEVICES" "k < MAXDEVICES" "holds n [] (device st ! k)"
  shows "receive_loop body (int k) (int n) st = Some (0, st)"
  by (subst receive_loop.simps) (simp add: read_empty [OF assms])

lemma receive_loop_run:
  assumes "length (device st) = MAXDEVICES" "length (iocard st) = MAXDEVICES" "k < MAXDEVICES"
    and "holds n rs (device st ! k)" and "for_each rs body (iocard st ! k) = Some c"
  shows "\<exists>d. receive_loop body (int k) (int n) st =
      Some (0, st\<lparr>device := (device st)[k := d], iocard := (iocard st)[k := c]\<rparr>) \<and> holds n [] d"
  using assms
proof (induction rs arbitrary: st)
  case Nil
  then have c: "c = iocard st ! k" by simp
  from receive_loop_empty [OF Nil(1,3,4), of body] Nil(4) show ?case
    unfolding c by (intro exI [of _ "device st ! k"]) simp
next
  case (Cons r rs)
  from Cons.prems(5) obtain c1 where c1: "body r (iocard st ! k) = Some c1" "for_each rs body c1 = Some c"
    by (cases "body r (iocard st ! k)") auto
  from read_next [OF Cons.prems(1,3,4)] obtain d where
    d: "read_usb (int k) (int n) st = Some (int n, r, st\<lparr>device := (device st)[k := d]\<rparr>)" "holds n rs d" by blast
  from Cons.prems(4) have "0 < n" by (simp add: holds_def)
  let ?st = "st\<lparr>device := (device st)[k := d], iocard := (iocard st)[k := c1]\<rparr>"
  from Cons.IH [of ?st] Cons.prems(1-3) d(2) c1(2) obtain d' where
    "receive_loop body (int k) (int n) ?st =
      Some (0, ?st\<lparr>device := (device ?st)[k := d'], iocard := (iocard ?st)[k := c]\<rparr>)" "holds n [] d'" by auto
  with d c1 \<open>0 < n\<close> Cons.prems(1-3) show ?case
    by (subst receive_loop.simps) (auto simp: set_device_def arr_get_int arr_set_int)
qed

text \<open>The loop over the devices, when only one of them has reports.\<close>

definition quiet :: "(iocard_struct \<Rightarrow> bool) \<Rightarrow> nat \<Rightarrow> iocards \<Rightarrow> nat \<Rightarrow> bool" where
  "quiet kind n st k \<longleftrightarrow>
     (kind (iocard st ! k) \<and> status (iocard st ! k) = 1 \<longrightarrow> holds n [] (device st ! k))"

lemma receive_quiet:
  assumes "length (device st) = MAXDEVICES" "length (iocard st) = MAXDEVICES"
    and "\<forall>k \<in> set ks. k < MAXDEVICES \<and> quiet kind n st k"
  shows "for_each ks (receive_kind kind body (int n)) (0, st) = Some (0, st)"
  using assms
proof (induction ks)
  case (Cons k ks)
  then have k: "k < 10" "quiet kind n st k" by simp_all
  have "receive_kind kind body (int n) k (0, st) = Some (0, st)"
    using Cons.prems(1,2) k receive_loop_empty [of st k n body]
    by (auto simp: receive_kind_def quiet_def arr_get_int)
  with Cons show ?case by simp
qed simp

lemma receive_one:
  assumes l: "length (device st) = MAXDEVICES" "length (iocard st) = MAXDEVICES" "k < MAXDEVICES"
    and kind: "kind (iocard st ! k)" "status (iocard st ! k) = 1"
    and h: "holds n rs (device st ! k)" and run: "for_each rs body (iocard st ! k) = Some c"
    and others: "\<And>i. i < MAXDEVICES \<Longrightarrow> i \<noteq> k \<Longrightarrow> quiet kind n st i"
  shows "\<exists>d. for_each [0..<MAXDEVICES] (receive_kind kind body (int n)) (0, st) =
      Some (0, st\<lparr>device := (device st)[k := d], iocard := (iocard st)[k := c]\<rparr>) \<and> holds n [] d"
proof -
  from receive_loop_run [OF l h run] obtain d where
    d: "receive_loop body (int k) (int n) st =
      Some (0, st\<lparr>device := (device st)[k := d], iocard := (iocard st)[k := c]\<rparr>)" "holds n [] d" by blast
  let ?st = "st\<lparr>device := (device st)[k := d], iocard := (iocard st)[k := c]\<rparr>"
  have split: "[0..<10] = [0..<k] @ k # [Suc k..<10]"
    using l(3) upt_add_eq_append [of 0 k "10 - k"] by (simp add: upt_conv_Cons)
  have "for_each [0..<k] (receive_kind kind body (int n)) (0, st) = Some (0, st)"
    using others l by (intro receive_quiet) auto
  moreover have "receive_kind kind body (int n) k (0, st) = Some (0, ?st)"
    using d(1) kind l by (simp add: receive_kind_def arr_get_int)
  moreover have "for_each [Suc k..<10] (receive_kind kind body (int n)) (0, ?st) = Some (0, ?st)"
    using others l by (intro receive_quiet) (auto simp: quiet_def)
  ultimately have "for_each [0..<10] (receive_kind kind body (int n)) (0, st) = Some (0, ?st)"
    unfolding split for_each_append by simp
  with d(2) show ?thesis by blast
qed

section \<open>From the reports to the inputs\<close>

lemma transmission_lengths:
  assumes "transmission ss val a xs rest"
  shows "\<forall>r \<in> set (first_report a ss xs # map next_report rest). length r = 8"
  using assms by (auto simp: transmission_def)

text \<open>C27: a MASTERCARD device sends a transmission: any number of slots of its cards, each with nine
  inputs, cut into reports, with values of axes in between. The read thread buffers the reports, and
  the next \<open>receive_mastercard\<close> sets exactly the inputs of these slots, on the cards that the ini
  file gives, to the values that were sent; all other inputs and devices are left alone, and the
  buffer is empty again.\<close>

theorem inputs_received:
  assumes l: "length (device st) = MAXDEVICES" "length (iocard st) = MAXDEVICES" "k < MAXDEVICES"
    and mc: "is_mastercard (iocard st ! k)" "status (iocard st ! k) = 1"
    and ok: "mc_ok (iocard st ! k)" "axes_ok (iocard st ! k)"
    and idle: "holds 8 [] (device st ! k)" "poll_thread_exit_code (device st ! k) = 0"
    and others: "\<forall>i < MAXDEVICES. i \<noteq> k \<longrightarrow> quiet is_mastercard 8 st i"
    and t: "transmission ss val a xs rest" and room: "length rest < 2048"
  shows "\<exists>st1 st'. for_each (first_report a ss xs # map next_report rest)
        (\<lambda>r. poll_turn (int k) (HidReport r)) st = Some st1 \<and>
      receive_mastercard st1 = Some (0, st') \<and> holds 8 [] (device st' ! k) \<and>
      (\<forall>i < 4. \<forall>j < 72. inputs (iocard st' ! k) ! i ! j =
        (if (i, j div 9) \<in> set ss \<and> int i < ncards (iocard st ! k)
         then of_bool (val (i, j div 9) (j mod 9)) else inputs (iocard st ! k) ! i ! j)) \<and>
      (\<forall>i < MAXDEVICES. i \<noteq> k \<longrightarrow> iocard st' ! i = iocard st ! i \<and> device st' ! i = device st ! i)"
proof -
  let ?rs = "first_report a ss xs # map next_report rest"
  have "length (concat []) + 8 * length ?rs \<le> READBUFFERSIZE" using room by simp
  from polls_add [OF l(1,3) idle transmission_lengths [OF t] this] obtain d where
    d: "for_each ?rs (\<lambda>r. poll_turn (int k) (HidReport r)) st = Some (st\<lparr>device := (device st)[k := d]\<rparr>)"
      "holds 8 ?rs d" by auto
  let ?st = "st\<lparr>device := (device st)[k := d]\<rparr>"
  from transmission_decoded [OF t ok] obtain c where
    c: "for_each ?rs take_report (iocard st ! k) = Some c"
      "\<forall>i < 4. \<forall>j < 72. inputs c ! i ! j =
        (if (i, j div 9) \<in> set ss \<and> int i < ncards (iocard st ! k)
         then of_bool (val (i, j div 9) (j mod 9)) else inputs (iocard st ! k) ! i ! j)" by blast
  have "quiet is_mastercard 8 ?st i" if "i < 10" "i \<noteq> k" for i
    using others that by (simp add: quiet_def)
  with receive_one [of ?st k is_mastercard 8 ?rs take_report c] l mc d(2) c(1) obtain d' where
    "receive_mastercard ?st = Some (0, ?st\<lparr>device := (device ?st)[k := d'], iocard := (iocard ?st)[k := c]\<rparr>)"
      "holds 8 [] d'"
    by (auto simp: receive_mastercard_def)
  with d(1) c(2) l show ?thesis by simp
qed

end
