(* ===== verification/IocardsTable.thy ===== *)
theory IocardsTable
  imports IocardsTurn
begin

text \<open>
  The invariant of the device table of \<open>xpusb\<close>: the sizes of all arrays, the ranges of their values,
  and counts that stay inside the arrays. Setting up the data, receiving and the copy at the end
  of a cycle keep it, and never leave an array.
\<close>

section \<open>The invariant\<close>

definition device_ok :: "iocard_struct \<Rightarrow> bool" where
  "device_ok c \<longleftrightarrow>
     length (name c) = 30 \<and> length (serial c) = 50 \<and>
     within 0 (int MAXMASTERCARDS) (ncards c) \<and> within 0 (int MAXAXES) (naxes c) \<and>
     within 0 (int MAXINPUTS) (ninputs c) \<and> within 0 (int MAXOUTPUTS) (noutputs c) \<and>
     within 0 (int MAXDISPLAYS) (ndisplays c) \<and> within 0 (int MAXSERVOS) (nservos c) \<and>
     within 0 (int MAXMOTORS) (nmotors c) \<and>
     arr_ok MAXMASTERCARDS (arr_ok MAXINPUTS (\<lambda>_. True)) (time_enc c) \<and> mc_ok c \<and>
     arr_ok MAXMASTERCARDS (arr_ok MAXINPUTS (within (- 1) 1)) (inputs_old c) \<and>
     arr_ok MAXMASTERCARDS (arr_ok MAXINPUTS (within 0 1)) (inputs_read c) \<and>
     arr_ok MAXMASTERCARDS (arr_ok MAXOUTPUTS (within 0 1)) (outputs c) \<and>
     arr_ok MAXMASTERCARDS (arr_ok MAXOUTPUTS (within (- 1) 1)) (outputs_old c) \<and>
     arr_ok MAXMASTERCARDS (arr_ok MAXDISPLAYS (within 0 252)) (displays c) \<and>
     arr_ok MAXMASTERCARDS (arr_ok MAXDISPLAYS (within (- 1) 252)) (displays_old c) \<and>
     axes_ok c \<and>
     arr_ok MAXSERVOS (within 0 SERVOMAX) (servos c) \<and> arr_ok MAXSERVOS (within (- 1) SERVOMAX) (servos_old c) \<and>
     length (time_servos c) = MAXSERVOS \<and> length (motors c) = MAXMOTORS \<and> length (motors_old c) = MAXMOTORS"

lemma device_okD:
  assumes "device_ok c"
  shows "0 \<le> ncards c" "ncards c \<le> 4" "0 \<le> naxes c" "naxes c \<le> 8" "0 \<le> ninputs c" "ninputs c \<le> 72"
    "0 \<le> noutputs c" "noutputs c \<le> 45" "0 \<le> ndisplays c" "ndisplays c \<le> 64" "0 \<le> nservos c" "nservos c \<le> 6"
    "0 \<le> nmotors c" "nmotors c \<le> 4"
  using assms by (simp_all add: device_ok_def within_def)

lemma device_ok_arrays:
  assumes "device_ok c"
  shows "mc_ok c" "axes_ok c" "arr_ok 4 (arr_ok 72 (\<lambda>_. True)) (time_enc c)"
    "arr_ok 4 (arr_ok 72 (within (- 1) 1)) (inputs c)"
    "arr_ok 4 (arr_ok 72 (within (- 1) 1)) (inputs_old c)" "arr_ok 4 (arr_ok 72 (within 0 1)) (inputs_read c)"
    "arr_ok 4 (arr_ok 45 (within 0 1)) (outputs c)" "arr_ok 4 (arr_ok 45 (within (- 1) 1)) (outputs_old c)"
    "arr_ok 4 (arr_ok 64 (within 0 252)) (displays c)" "arr_ok 4 (arr_ok 64 (within (- 1) 252)) (displays_old c)"
    "arr_ok 6 (within 0 1023) (servos c)" "arr_ok 6 (within (- 1) 1023) (servos_old c)"
    "length (time_servos c) = 6" "length (motors c) = 4" "length (motors_old c) = 4"
  using assms by (simp_all add: device_ok_def mc_ok_def)

lemmas device_unfold = device_ok_def mc_ok_def axes_ok_def

text \<open>Good devices whose arrays are replaced by good ones.\<close>

lemma device_ok_inputs:
  "device_ok c \<Longrightarrow> arr_ok 4 (arr_ok 72 (within (- 1) 1)) xs \<Longrightarrow> device_ok (c\<lparr>inputs := xs\<rparr>)"
  "device_ok c \<Longrightarrow> arr_ok 4 (arr_ok 72 (within 0 1)) rs \<Longrightarrow> device_ok (c\<lparr>inputs_read := rs\<rparr>)"
  "device_ok c \<Longrightarrow> arr_ok 4 (arr_ok 72 (within (- 1) 1)) xs \<Longrightarrow> arr_ok 4 (arr_ok 72 (within 0 1)) rs \<Longrightarrow>
     device_ok (c\<lparr>inputs_old := xs, inputs_read := rs\<rparr>)"
  "device_ok c \<Longrightarrow> arr_ok 4 (arr_ok 72 (\<lambda>_. True)) ts \<Longrightarrow> device_ok (c\<lparr>time_enc := ts\<rparr>)"
  by (simp_all add: device_unfold)

lemma device_ok_outputs:
  "device_ok c \<Longrightarrow> arr_ok 4 (arr_ok 45 (within 0 1)) xs \<Longrightarrow> device_ok (c\<lparr>outputs := xs\<rparr>)"
  "device_ok c \<Longrightarrow> arr_ok 4 (arr_ok 45 (within (- 1) 1)) xs \<Longrightarrow> device_ok (c\<lparr>outputs_old := xs\<rparr>)"
  "device_ok c \<Longrightarrow> arr_ok 4 (arr_ok 64 (within 0 252)) ds \<Longrightarrow> device_ok (c\<lparr>displays := ds\<rparr>)"
  "device_ok c \<Longrightarrow> arr_ok 4 (arr_ok 64 (within (- 1) 252)) ds \<Longrightarrow> device_ok (c\<lparr>displays_old := ds\<rparr>)"
  "device_ok c \<Longrightarrow> arr_ok 6 (within 0 1023) ss \<Longrightarrow> device_ok (c\<lparr>servos := ss\<rparr>)"
  "device_ok c \<Longrightarrow> length ts = 6 \<Longrightarrow> device_ok (c\<lparr>time_servos := ts\<rparr>)"
  "device_ok c \<Longrightarrow> length ms = 4 \<Longrightarrow> device_ok (c\<lparr>motors := ms\<rparr>)"
  by (simp_all add: device_unfold)

lemma device_ok_axes: "device_ok c \<Longrightarrow> axes_ok (c\<lparr>axes := ax, axes_hist := hs\<rparr>) \<Longrightarrow> device_ok (c\<lparr>axes := ax, axes_hist := hs\<rparr>)"
  by (simp add: device_unfold)

text \<open>Good devices that differ only in what the data bytes of reports touch.\<close>

lemma device_ok_frame:
  assumes c: "device_ok c" and f: "frame c' = frame c" and m: "mc_ok c'"
  shows "device_ok c'"
proof -
  from f have "(frame c')\<lparr>slotdata := slotdata c', inputs := inputs c'\<rparr> =
      (frame c)\<lparr>slotdata := slotdata c', inputs := inputs c'\<rparr>" by simp
  then have e: "c' = c\<lparr>slotdata := slotdata c', inputs := inputs c'\<rparr>" by (simp add: frame_def)
  from c m show ?thesis by (subst e) (simp add: device_unfold)
qed

section \<open>Loops over a device\<close>

lemma over_count_ok:
  assumes "device_ok c" and "n \<le> m"
    and "\<And>cnt c. device_ok c \<Longrightarrow> 0 \<le> cnt \<Longrightarrow> cnt < m \<Longrightarrow> \<exists>c'. body cnt c = Some c' \<and> device_ok c'"
  obtains c' where "over_count n body c = Some c'" "device_ok c'"
proof -
  have "\<exists>c'. over_count n body c = Some c' \<and> device_ok c'"
    unfolding over_count_def using assms by (intro for_each_inv [where I = device_ok]) auto
  with that show thesis by blast
qed

lemma over_cards_ok:
  assumes "device_ok c"
    and "\<And>cardno c. device_ok c \<Longrightarrow> 0 \<le> cardno \<Longrightarrow> cardno < 4 \<Longrightarrow> \<exists>c'. body cardno c = Some c' \<and> device_ok c'"
  obtains c' where "over_cards c body = Some c'" "device_ok c'"
proof -
  have "\<exists>c'. over_cards c body = Some c' \<and> device_ok c'"
    unfolding over_cards_def using assms device_okD(2) [OF assms(1)]
    by (intro for_each_inv [where I = device_ok]) auto
  with that show thesis by blast
qed

text \<open>Accesses to the arrays of a good device.\<close>

lemma get2: "arr_ok n (arr_ok m P) xss \<Longrightarrow> 0 \<le> i \<Longrightarrow> i < int n \<Longrightarrow> 0 \<le> k \<Longrightarrow> k < int m \<Longrightarrow>
    \<exists>v. arr_get2 xss i k = Some v \<and> P v"
  using arr_ok_get2 [of n m P xss i k] by auto

lemma set2: "arr_ok n (arr_ok m P) xss \<Longrightarrow> 0 \<le> i \<Longrightarrow> i < int n \<Longrightarrow> 0 \<le> k \<Longrightarrow> k < int m \<Longrightarrow> P v \<Longrightarrow>
    \<exists>yss. arr_set2 xss i k v = Some yss \<and> arr_ok n (arr_ok m P) yss"
  using arr_ok_set2 [of n m P xss i k v] by auto

lemma set1: "arr_ok n P xs \<Longrightarrow> 0 \<le> i \<Longrightarrow> i < int n \<Longrightarrow> P v \<Longrightarrow> \<exists>ys. arr_set xs i v = Some ys \<and> arr_ok n P ys"
  using arr_ok_set [of n P xs i v] by auto

section \<open>Initialisation\<close>

lemma init_input_ok:
  assumes c: "device_ok c" and i: "0 \<le> i" "i < 4" "0 \<le> k" "k < 72"
  shows "\<exists>c'. init_input t i k c = Some c' \<and> device_ok c'"
proof -
  have i': "0 \<le> i" "i < int 4" "0 \<le> k" "k < int 72" using i by simp_all
  from set2 [OF device_ok_arrays(4) [OF c] i', of 0] set2 [OF device_ok_arrays(5) [OF c] i', of "- 1"]
    set2 [OF device_ok_arrays(3) [OF c] i', of t] set2 [OF device_ok_arrays(6) [OF c] i', of 0]
  obtain a b d e where *: "arr_set2 (inputs c) i k 0 = Some a" "arr_ok 4 (arr_ok 72 (within (- 1) 1)) a"
    "arr_set2 (inputs_old c) i k (- 1) = Some b" "arr_ok 4 (arr_ok 72 (within (- 1) 1)) b"
    "arr_set2 (time_enc c) i k t = Some d" "arr_ok 4 (arr_ok 72 (\<lambda>_. True)) d"
    "arr_set2 (inputs_read c) i k 0 = Some e" "arr_ok 4 (arr_ok 72 (within 0 1)) e"
    by (auto simp: within_def)
  with c show ?thesis by (simp add: init_input_def device_unfold)
qed

lemma init_output_ok:
  assumes c: "device_ok c" and i: "0 \<le> i" "i < 4" "0 \<le> k" "k < 45"
  shows "\<exists>c'. init_output i k c = Some c' \<and> device_ok c'"
proof -
  have i': "0 \<le> i" "i < int 4" "0 \<le> k" "k < int 45" using i by simp_all
  from set2 [OF device_ok_arrays(7) [OF c] i', of 0] set2 [OF device_ok_arrays(8) [OF c] i', of "- 1"]
  obtain a b where "arr_set2 (outputs c) i k 0 = Some a" "arr_ok 4 (arr_ok 45 (within 0 1)) a"
    "arr_set2 (outputs_old c) i k (- 1) = Some b" "arr_ok 4 (arr_ok 45 (within (- 1) 1)) b"
    by (auto simp: within_def)
  with c show ?thesis by (simp add: init_output_def device_unfold)
qed

lemma init_display_ok:
  assumes c: "device_ok c" and i: "0 \<le> i" "i < 4" "0 \<le> k" "k < 64"
  shows "\<exists>c'. init_display i k c = Some c' \<and> device_ok c'"
proof -
  have i': "0 \<le> i" "i < int 4" "0 \<le> k" "k < int 64" using i by simp_all
  from set2 [OF device_ok_arrays(9) [OF c] i', of 0] set2 [OF device_ok_arrays(10) [OF c] i', of "- 1"]
  obtain a b where "arr_set2 (displays c) i k 0 = Some a" "arr_ok 4 (arr_ok 64 (within 0 252)) a"
    "arr_set2 (displays_old c) i k (- 1) = Some b" "arr_ok 4 (arr_ok 64 (within (- 1) 252)) b"
    by (auto simp: within_def)
  with c show ?thesis by (simp add: init_display_def device_unfold)
qed

lemma init_axis_ok:
  assumes c: "device_ok c" and k: "0 \<le> k" "k < 8"
  shows "\<exists>c'. init_axis k c = Some c' \<and> device_ok c'"
proof -
  note ax = axes_okD [OF device_ok_arrays(2) [OF c]]
  have k': "0 \<le> k" "k < int 8" using k by simp_all
  have "\<exists>hs. for_each [0..<10] (\<lambda>h hs. arr_set2 hs k (int h) (- 1)) (axes_hist c) = Some hs \<and>
      arr_ok 8 (arr_ok 10 (within (- 1) 65535)) hs"
  proof (rule for_each_inv [where I = "arr_ok 8 (arr_ok 10 (within (- 1) 65535))", OF ax(1)])
    show "\<exists>t. arr_set2 s k (int h) (- 1) = Some t \<and> arr_ok 8 (arr_ok 10 (within (- 1) 65535)) t"
      if "h \<in> set [0..<10]" "arr_ok 8 (arr_ok 10 (within (- 1) 65535)) s" for h s
      using that k set2 [OF that(2), of k "int h" "- 1"] by (simp add: within_def)
  qed
  moreover from set1 [OF ax(2) k', of "- 1"] set1 [OF ax(3) k', of "- 1"] obtain a b where
    "arr_set (axes c) k (- 1) = Some a" "arr_ok 8 (within (- 1) 65535) a"
    "arr_set (axes_old c) k (- 1) = Some b" "arr_ok 8 (within (- 1) 65535) b" by (auto simp: within_def)
  ultimately show ?thesis using c by (auto simp: init_axis_def device_unfold)
qed

lemma init_servo_ok:
  assumes c: "device_ok c" and k: "0 \<le> k" "k < 6"
  shows "\<exists>c'. init_servo k c = Some c' \<and> device_ok c'"
proof -
  have k': "0 \<le> k" "k < int 6" using k by simp_all
  from set1 [OF device_ok_arrays(11) [OF c] k', of 0] set1 [OF device_ok_arrays(12) [OF c] k', of "- 1"]
  obtain a b where "arr_set (servos c) k 0 = Some a" "arr_ok 6 (within 0 1023) a"
    "arr_set (servos_old c) k (- 1) = Some b" "arr_ok 6 (within (- 1) 1023) b" by (auto simp: within_def)
  with c k show ?thesis by (auto simp: init_servo_def device_unfold arr_set_def)
qed

lemma init_motor_ok:
  assumes c: "device_ok c" and k: "0 \<le> k" "k < 4"
  shows "\<exists>c'. init_motor k c = Some c' \<and> device_ok c'"
  using c k by (auto simp: init_motor_def device_unfold arr_set_def)

lemma initialize_device_data_ok:
  assumes c: "device_ok c"
  shows "\<exists>c'. initialize_device_data t c = Some c' \<and> device_ok c'"
proof -
  have per_card: "\<exists>c'. (do {
        c \<leftarrow> over_count (ninputs c) (init_input t i) c;
        c \<leftarrow> over_count (noutputs c) (init_output i) c;
        over_count (ndisplays c) (init_display i) c
      }) = Some c' \<and> device_ok c'" if c: "device_ok c" and i: "0 \<le> i" "i < 4" for i c
  proof -
    obtain c1 where c1: "over_count (ninputs c) (init_input t i) c = Some c1" "device_ok c1"
      by (rule over_count_ok [OF c device_okD(6) [OF c] init_input_ok [OF _ i]])
    obtain c2 where c2: "over_count (noutputs c1) (init_output i) c1 = Some c2" "device_ok c2"
      by (rule over_count_ok [OF c1(2) device_okD(8) [OF c1(2)] init_output_ok [OF _ i]])
    obtain c3 where "over_count (ndisplays c2) (init_display i) c2 = Some c3" "device_ok c3"
      by (rule over_count_ok [OF c2(2) device_okD(10) [OF c2(2)] init_display_ok [OF _ i]])
    with c1 c2 show ?thesis by simp
  qed
  obtain c1 where c1: "over_cards c (\<lambda>i c. do {
        c \<leftarrow> over_count (ninputs c) (init_input t i) c;
        c \<leftarrow> over_count (noutputs c) (init_output i) c;
        over_count (ndisplays c) (init_display i) c
      }) = Some c1" "device_ok c1"
    by (rule over_cards_ok [OF c per_card])
  obtain c2 where c2: "over_count (naxes c1) init_axis c1 = Some c2" "device_ok c2"
    by (rule over_count_ok [OF c1(2) device_okD(4) [OF c1(2)] init_axis_ok])
  obtain c3 where c3: "over_count (nservos c2) init_servo c2 = Some c3" "device_ok c3"
    by (rule over_count_ok [OF c2(2) device_okD(12) [OF c2(2)] init_servo_ok])
  obtain c4 where "over_count (nmotors c3) init_motor c3 = Some c4" "device_ok c4"
    by (rule over_count_ok [OF c3(2) device_okD(14) [OF c3(2)] init_motor_ok])
  with c1 c2 c3 show ?thesis by (simp add: initialize_device_data_def)
qed

lemma each_device_ok:
  assumes "list_all P cs" and "\<And>c. P c \<Longrightarrow> \<exists>c'. f c = Some c' \<and> P c'"
  shows "\<exists>cs'. each_device f cs = Some cs' \<and> list_all P cs' \<and> length cs' = length cs"
  using assms(1)
proof (induction cs)
  case (Cons c cs)
  with assms(2) [of c] show ?case by auto
qed simp

end
