(* ===== verification/IocardsCopy.thy ===== *)
theory IocardsCopy
  imports IocardsTable
begin

text \<open>
  The copy at the end of a cycle: which elements it changes, and that it keeps the device table
  well-formed.
\<close>

section \<open>One card\<close>

lemma copy_input_run:
  assumes c: "device_ok c" and i: "i < 4" and k: "k < 72"
  shows "copy_input (int i) (int k) c =
      Some (if inputs_read c ! i ! k = 1
            then c\<lparr>inputs_old := upd2 (inputs_old c) i k (inputs c ! i ! k),
                   inputs_read := upd2 (inputs_read c) i k 0\<rparr>
            else c)"
proof -
  have b: "0 \<le> int i" "int i < int 4" "0 \<le> int k" "int k < int 72" using i k by simp_all
  note ok = device_ok_arrays [OF c]
  from arr_ok_get2 [OF ok(6) b] arr_ok_get2 [OF ok(4) b]
    arr_ok_set2 [OF ok(5) b, of "inputs c ! i ! k"] arr_ok_set2 [OF ok(6) b, of 0]
  show ?thesis by (simp add: copy_input_def within_def)
qed

lemma copy_output_run:
  assumes c: "device_ok c" and i: "i < 4" and k: "k < 45"
  shows "copy_output (int i) (int k) c = Some (c\<lparr>outputs_old := upd2 (outputs_old c) i k (outputs c ! i ! k)\<rparr>)"
    and "within (- 1) 1 (outputs c ! i ! k)"
proof -
  have b: "0 \<le> int i" "int i < int 4" "0 \<le> int k" "int k < int 45" using i k by simp_all
  note ok = device_ok_arrays [OF c]
  from arr_ok_get2 [OF ok(7) b] arr_ok_set2 [OF ok(8) b, of "outputs c ! i ! k"]
  show "copy_output (int i) (int k) c = Some (c\<lparr>outputs_old := upd2 (outputs_old c) i k (outputs c ! i ! k)\<rparr>)"
    and "within (- 1) 1 (outputs c ! i ! k)"
    by (simp_all add: copy_output_def within_def)
qed

lemma copy_display_run:
  assumes c: "device_ok c" and i: "i < 4" and k: "k < 64"
  shows "copy_display (int i) (int k) c = Some (c\<lparr>displays_old := upd2 (displays_old c) i k (displays c ! i ! k)\<rparr>)"
    and "within (- 1) 252 (displays c ! i ! k)"
proof -
  have b: "0 \<le> int i" "int i < int 4" "0 \<le> int k" "int k < int 64" using i k by simp_all
  note ok = device_ok_arrays [OF c]
  from arr_ok_get2 [OF ok(9) b] arr_ok_set2 [OF ok(10) b, of "displays c ! i ! k"]
  show "copy_display (int i) (int k) c = Some (c\<lparr>displays_old := upd2 (displays_old c) i k (displays c ! i ! k)\<rparr>)"
    and "within (- 1) 252 (displays c ! i ! k)"
    by (simp_all add: copy_display_def within_def)
qed

text \<open>What the loops over the elements of one card do, element by element.\<close>

lemma copy_inputs_run:
  assumes c: "device_ok c" and i: "i < 4"
  shows "\<exists>os rs. over_count (ninputs c) (copy_input (int i)) c = Some (c\<lparr>inputs_old := os, inputs_read := rs\<rparr>) \<and>
    device_ok (c\<lparr>inputs_old := os, inputs_read := rs\<rparr>) \<and>
    (\<forall>j < 4. \<forall>k < 72.
      os ! j ! k = (if j = i \<and> int k < ninputs c \<and> inputs_read c ! i ! k = 1 then inputs c ! i ! k
                    else inputs_old c ! j ! k) \<and>
      rs ! j ! k = (if j = i \<and> int k < ninputs c \<and> inputs_read c ! i ! k = 1 then 0 else inputs_read c ! j ! k))"
proof -
  define P where "P n s \<longleftrightarrow> (\<exists>os rs. s = c\<lparr>inputs_old := os, inputs_read := rs\<rparr> \<and> device_ok s \<and>
    (\<forall>j < 4. \<forall>k < 72.
      os ! j ! k = (if j = i \<and> k < n \<and> inputs_read c ! i ! k = 1 then inputs c ! i ! k
                    else inputs_old c ! j ! k) \<and>
      rs ! j ! k = (if j = i \<and> k < n \<and> inputs_read c ! i ! k = 1 then 0 else inputs_read c ! j ! k)))"
    for n s
  have "P 0 c" unfolding P_def using c by (intro exI [of _ "inputs_old c"] exI [of _ "inputs_read c"]) simp
  moreover have "\<exists>t. copy_input (int i) (int n) s = Some t \<and> P (Suc n) t" if n: "n < nat (ninputs c)" and p: "P n s" for n s
  proof -
    from p obtain os rs where s: "s = c\<lparr>inputs_old := os, inputs_read := rs\<rparr>" "device_ok s"
      "\<forall>j < 4. \<forall>k < 72.
        os ! j ! k = (if j = i \<and> k < n \<and> inputs_read c ! i ! k = 1 then inputs c ! i ! k
                    else inputs_old c ! j ! k) \<and>
        rs ! j ! k = (if j = i \<and> k < n \<and> inputs_read c ! i ! k = 1 then 0 else inputs_read c ! j ! k)"
      unfolding P_def by blast
    have n72: "n < 72" using n device_okD(6) [OF c] by linarith
    note ok = device_ok_arrays [OF s(2)]
    have r: "rs ! i ! n = inputs_read c ! i ! n" using s(3) i n72 by simp
    have l: "length os = 4" "length rs = 4" "length (os ! i) = 72" "length (rs ! i) = 72"
      using arr_ok_length [OF ok(5)] arr_ok_length [OF ok(6)] arr_ok_length [OF arr_ok_nth [OF ok(5) i]]
        arr_ok_length [OF arr_ok_nth [OF ok(6) i]] s(1) by simp_all
    have v: "within (- 1) 1 (inputs c ! i ! n)"
      using arr_ok_nth [OF arr_ok_nth [OF device_ok_arrays(4) [OF c] i] n72] .
    show ?thesis
    proof (cases "inputs_read c ! i ! n = 1")
      case True
      let ?os = "upd2 os i n (inputs c ! i ! n)" and ?rs = "upd2 rs i n 0"
      have "copy_input (int i) (int n) s = Some (c\<lparr>inputs_old := ?os, inputs_read := ?rs\<rparr>)"
        using copy_input_run [OF s(2) i n72] True r s(1) by simp
      moreover have "device_ok (c\<lparr>inputs_old := ?os, inputs_read := ?rs\<rparr>)"
        using ok(5,6) v i s(1) by (intro device_ok_inputs(3) c arr_ok_upd2) (simp_all add: within_def)
      moreover have "?os ! j ! k = (if j = i \<and> k < Suc n \<and> inputs_read c ! i ! k = 1 then inputs c ! i ! k
                    else inputs_old c ! j ! k) \<and>
          ?rs ! j ! k = (if j = i \<and> k < Suc n \<and> inputs_read c ! i ! k = 1 then 0 else inputs_read c ! j ! k)"
        if "j < 4" "k < 72" for j k
        using s(3) that True l i n72 by (auto simp: upd2_nth less_Suc_eq)
      ultimately show ?thesis unfolding P_def by blast
    next
      case False
      with copy_input_run [OF s(2) i n72] r s(1) have "copy_input (int i) (int n) s = Some s" by simp
      moreover have "P (Suc n) s"
        unfolding P_def using s False by (intro exI [of _ os] exI [of _ rs]) (auto simp: less_Suc_eq)
      ultimately show ?thesis by blast
    qed
  qed
  ultimately have "\<exists>t. for_each [0..<nat (ninputs c)] (\<lambda>k. copy_input (int i) (int k)) c = Some t \<and> P (nat (ninputs c)) t"
    by (rule for_each_steps)
  then show ?thesis unfolding over_count_def P_def zless_nat_eq_int_zless by blast
qed

lemma copy_row:
  assumes ok: "device_ok (put olds0)" and n: "n \<le> m" and i: "i < 4"
    and shape: "\<And>olds. device_ok (put olds) \<Longrightarrow> length olds = 4 \<and> length (olds ! i) = m"
    and step: "\<And>k olds. k < n \<Longrightarrow> device_ok (put olds) \<Longrightarrow>
      body k (put olds) = Some (put (upd2 olds i k (new k))) \<and> device_ok (put (upd2 olds i k (new k)))"
  shows "\<exists>olds. for_each [0..<n] body (put olds0) = Some (put olds) \<and> device_ok (put olds) \<and>
    (\<forall>j < 4. \<forall>k < m. olds ! j ! k = (if j = i \<and> k < n then new k else olds0 ! j ! k))"
proof -
  define P where "P n s \<longleftrightarrow> (\<exists>olds. s = put olds \<and> device_ok (put olds) \<and>
    (\<forall>j < 4. \<forall>k < m. olds ! j ! k = (if j = i \<and> k < n then new k else olds0 ! j ! k)))" for n s
  have "P 0 (put olds0)" unfolding P_def using ok by (intro exI [of _ olds0]) simp
  moreover have "\<exists>t. body k s = Some t \<and> P (Suc k) t" if k: "k < n" and p: "P k s" for k s
  proof -
    from p obtain olds where s: "s = put olds" "device_ok (put olds)"
      "\<forall>j < 4. \<forall>l < m. olds ! j ! l = (if j = i \<and> l < k then new l else olds0 ! j ! l)"
      unfolding P_def by blast
    from shape [OF s(2)] i have l: "i < length olds" "length (olds ! i) = m" by simp_all
    have "upd2 olds i k (new k) ! j ! h = (if j = i \<and> h < Suc k then new h else olds0 ! j ! h)" if "j < 4" "h < m" for j h
      using s(3) that l k n by (auto simp: upd2_nth less_Suc_eq)
    then show ?thesis using step [OF k s(2)] s(1) unfolding P_def by blast
  qed
  ultimately have "\<exists>t. for_each [0..<n] body (put olds0) = Some t \<and> P n t" by (rule for_each_steps)
  then show ?thesis unfolding P_def by blast
qed

lemma copy_outputs_run:
  assumes c: "device_ok c" and i: "i < 4"
  shows "\<exists>os. over_count (noutputs c) (copy_output (int i)) c = Some (c\<lparr>outputs_old := os\<rparr>) \<and>
    device_ok (c\<lparr>outputs_old := os\<rparr>) \<and>
    (\<forall>j < 4. \<forall>k < 45. os ! j ! k = (if j = i \<and> int k < noutputs c then outputs c ! i ! k else outputs_old c ! j ! k))"
proof -
  have "\<exists>os. for_each [0..<nat (noutputs c)] (\<lambda>k. copy_output (int i) (int k)) (c\<lparr>outputs_old := outputs_old c\<rparr>) =
      Some (c\<lparr>outputs_old := os\<rparr>) \<and> device_ok (c\<lparr>outputs_old := os\<rparr>) \<and>
      (\<forall>j < 4. \<forall>k < 45. os ! j ! k = (if j = i \<and> k < nat (noutputs c) then outputs c ! i ! k else outputs_old c ! j ! k))"
  proof (rule copy_row [where put = "\<lambda>os. c\<lparr>outputs_old := os\<rparr>"])
    show "nat (noutputs c) \<le> 45" using device_okD(8) [OF c] by simp
    fix olds assume o: "device_ok (c\<lparr>outputs_old := olds\<rparr>)"
    note ok = device_ok_arrays(8) [OF o]
    from ok i show "length olds = 4 \<and> length (olds ! i) = 45"
      using arr_ok_length [OF ok] arr_ok_length [OF arr_ok_nth [OF ok i]] by simp
    fix k assume k: "k < nat (noutputs c)"
    then have "k < 45" using device_okD(8) [OF c] by linarith
    from copy_output_run [OF o i this] ok i
    show "copy_output (int i) (int k) (c\<lparr>outputs_old := olds\<rparr>) =
        Some (c\<lparr>outputs_old := upd2 olds i k (outputs c ! i ! k)\<rparr>) \<and>
      device_ok (c\<lparr>outputs_old := upd2 olds i k (outputs c ! i ! k)\<rparr>)"
      by (auto intro!: device_ok_outputs(2) c arr_ok_upd2)
  qed (use c i in simp_all)
  then show ?thesis unfolding over_count_def zless_nat_eq_int_zless by simp
qed

lemma copy_displays_run:
  assumes c: "device_ok c" and i: "i < 4"
  shows "\<exists>os. over_count (ndisplays c) (copy_display (int i)) c = Some (c\<lparr>displays_old := os\<rparr>) \<and>
    device_ok (c\<lparr>displays_old := os\<rparr>) \<and>
    (\<forall>j < 4. \<forall>k < 64. os ! j ! k = (if j = i \<and> int k < ndisplays c then displays c ! i ! k else displays_old c ! j ! k))"
proof -
  have "\<exists>os. for_each [0..<nat (ndisplays c)] (\<lambda>k. copy_display (int i) (int k)) (c\<lparr>displays_old := displays_old c\<rparr>) =
      Some (c\<lparr>displays_old := os\<rparr>) \<and> device_ok (c\<lparr>displays_old := os\<rparr>) \<and>
      (\<forall>j < 4. \<forall>k < 64. os ! j ! k = (if j = i \<and> k < nat (ndisplays c) then displays c ! i ! k else displays_old c ! j ! k))"
  proof (rule copy_row [where put = "\<lambda>os. c\<lparr>displays_old := os\<rparr>"])
    show "nat (ndisplays c) \<le> 64" using device_okD(10) [OF c] by simp
    fix olds assume o: "device_ok (c\<lparr>displays_old := olds\<rparr>)"
    note ok = device_ok_arrays(10) [OF o]
    from ok i show "length olds = 4 \<and> length (olds ! i) = 64"
      using arr_ok_length [OF ok] arr_ok_length [OF arr_ok_nth [OF ok i]] by simp
    fix k assume k: "k < nat (ndisplays c)"
    then have "k < 64" using device_okD(10) [OF c] by linarith
    from copy_display_run [OF o i this] ok i
    show "copy_display (int i) (int k) (c\<lparr>displays_old := olds\<rparr>) =
        Some (c\<lparr>displays_old := upd2 olds i k (displays c ! i ! k)\<rparr>) \<and>
      device_ok (c\<lparr>displays_old := upd2 olds i k (displays c ! i ! k)\<rparr>)"
      by (auto intro!: device_ok_outputs(4) c arr_ok_upd2)
  qed (use c i in simp_all)
  then show ?thesis unfolding over_count_def zless_nat_eq_int_zless by simp
qed

section \<open>All cards of a device\<close>

text \<open>The device after the copy of the first \<open>m\<close> cards.\<close>

definition cards_copied :: "iocard_struct \<Rightarrow> nat \<Rightarrow> iocard_struct \<Rightarrow> bool" where
  "cards_copied c m s \<longleftrightarrow> device_ok s \<and>
     s = c\<lparr>inputs_old := inputs_old s, inputs_read := inputs_read s, outputs_old := outputs_old s,
           displays_old := displays_old s\<rparr> \<and>
     (\<forall>j < 4. \<forall>k < 72.
       inputs_old s ! j ! k = (if j < m \<and> int k < ninputs c \<and> inputs_read c ! j ! k = 1 then inputs c ! j ! k
                               else inputs_old c ! j ! k) \<and>
       inputs_read s ! j ! k = (if j < m \<and> int k < ninputs c \<and> inputs_read c ! j ! k = 1 then 0
                                else inputs_read c ! j ! k)) \<and>
     (\<forall>j < 4. \<forall>k < 45. outputs_old s ! j ! k =
       (if j < m \<and> int k < noutputs c then outputs c ! j ! k else outputs_old c ! j ! k)) \<and>
     (\<forall>j < 4. \<forall>k < 64. displays_old s ! j ! k =
       (if j < m \<and> int k < ndisplays c then displays c ! j ! k else displays_old c ! j ! k))"

lemma cards_copied_same:
  assumes "cards_copied c m s"
  shows "inputs s = inputs c" "outputs s = outputs c" "displays s = displays c" "ninputs s = ninputs c"
    "noutputs s = noutputs c" "ndisplays s = ndisplays c" "ncards s = ncards c"
    "axes s = axes c" "servos s = servos c" "motors s = motors c" "naxes s = naxes c" "nservos s = nservos c"
    "nmotors s = nmotors c" "axes_old s = axes_old c" "servos_old s = servos_old c" "motors_old s = motors_old c"
proof -
  from assms have e: "s = c\<lparr>inputs_old := inputs_old s, inputs_read := inputs_read s, outputs_old := outputs_old s,
           displays_old := displays_old s\<rparr>" unfolding cards_copied_def by blast
  show "inputs s = inputs c" "outputs s = outputs c" "displays s = displays c" "ninputs s = ninputs c"
    "noutputs s = noutputs c" "ndisplays s = ndisplays c" "ncards s = ncards c"
    "axes s = axes c" "servos s = servos c" "motors s = motors c" "naxes s = naxes c" "nservos s = nservos c"
    "nmotors s = nmotors c" "axes_old s = axes_old c" "servos_old s = servos_old c" "motors_old s = motors_old c"
    by (subst e, simp)+
qed

lemma copy_card_run:
  assumes s: "cards_copied c m s" and m: "m < 4"
  shows "\<exists>t. (do {
        s \<leftarrow> over_count (ninputs s) (copy_input (int m)) s;
        s \<leftarrow> over_count (noutputs s) (copy_output (int m)) s;
        over_count (ndisplays s) (copy_display (int m)) s
      }) = Some t \<and> cards_copied c (Suc m) t"
proof -
  from s have ok: "device_ok s" by (simp add: cards_copied_def)
  from copy_inputs_run [OF ok m] obtain a b where
    i: "over_count (ninputs s) (copy_input (int m)) s = Some (s\<lparr>inputs_old := a, inputs_read := b\<rparr>)"
      "device_ok (s\<lparr>inputs_old := a, inputs_read := b\<rparr>)"
      "\<forall>j < 4. \<forall>k < 72.
        a ! j ! k = (if j = m \<and> int k < ninputs s \<and> inputs_read s ! m ! k = 1 then inputs s ! m ! k
                    else inputs_old s ! j ! k) \<and>
        b ! j ! k = (if j = m \<and> int k < ninputs s \<and> inputs_read s ! m ! k = 1 then 0 else inputs_read s ! j ! k)"
    by blast
  from copy_outputs_run [OF i(2) m] obtain d where
    o: "over_count (noutputs s) (copy_output (int m)) (s\<lparr>inputs_old := a, inputs_read := b\<rparr>) =
        Some (s\<lparr>inputs_old := a, inputs_read := b, outputs_old := d\<rparr>)"
      "device_ok (s\<lparr>inputs_old := a, inputs_read := b, outputs_old := d\<rparr>)"
      "\<forall>j < 4. \<forall>k < 45. d ! j ! k = (if j = m \<and> int k < noutputs s then outputs s ! m ! k else outputs_old s ! j ! k)"
    by auto
  from copy_displays_run [OF o(2) m] obtain e where
    d: "over_count (ndisplays s) (copy_display (int m)) (s\<lparr>inputs_old := a, inputs_read := b, outputs_old := d\<rparr>) =
        Some (s\<lparr>inputs_old := a, inputs_read := b, outputs_old := d, displays_old := e\<rparr>)"
      "device_ok (s\<lparr>inputs_old := a, inputs_read := b, outputs_old := d, displays_old := e\<rparr>)"
      "\<forall>j < 4. \<forall>k < 64. e ! j ! k = (if j = m \<and> int k < ndisplays s then displays s ! m ! k else displays_old s ! j ! k)"
    by auto
  let ?t = "s\<lparr>inputs_old := a, inputs_read := b, outputs_old := d, displays_old := e\<rparr>"
  from s have h: "s = c\<lparr>inputs_old := inputs_old s, inputs_read := inputs_read s, outputs_old := outputs_old s,
           displays_old := displays_old s\<rparr>" unfolding cards_copied_def by blast
  have f: "?t = c\<lparr>inputs_old := a, inputs_read := b, outputs_old := d, displays_old := e\<rparr>" by (subst h) simp
  have "cards_copied c (Suc m) ?t"
    unfolding cards_copied_def
  proof (intro conjI)
    show "device_ok ?t" by (rule d(2))
    show "?t = c\<lparr>inputs_old := inputs_old ?t, inputs_read := inputs_read ?t, outputs_old := outputs_old ?t,
           displays_old := displays_old ?t\<rparr>" using f by simp
  qed (use s m i(3) o(3) d(3) cards_copied_same [OF s] in \<open>auto simp: cards_copied_def less_Suc_eq\<close>)
  with i(1) o(1) d(1) show ?thesis by simp
qed

definition device_copied :: "iocard_struct \<Rightarrow> iocard_struct \<Rightarrow> bool" where
  "device_copied c s \<longleftrightarrow> device_ok s \<and>
     (\<exists>t. cards_copied c (nat (ncards c)) t \<and>
       s = t\<lparr>axes_old := if naxes c > 0 then axes c else axes_old c,
             servos_old := if nservos c > 0 then servos c else servos_old c,
             motors_old := if nmotors c > 0 then motors c else motors_old c\<rparr>)"

lemma copy_device_run:
  assumes c: "device_ok c"
  shows "\<exists>s. copy_device c = Some s \<and> device_copied c s"
proof -
  have z: "cards_copied c 0 c" using c by (simp add: cards_copied_def)
  have "\<exists>t. for_each [0..<nat (ncards c)] (\<lambda>m s. do {
        s \<leftarrow> over_count (ninputs s) (copy_input (int m)) s;
        s \<leftarrow> over_count (noutputs s) (copy_output (int m)) s;
        over_count (ndisplays s) (copy_display (int m)) s
      }) c = Some t \<and> cards_copied c (nat (ncards c)) t"
    by (rule for_each_steps [where P = "cards_copied c", OF z copy_card_run])
      (use device_okD(2) [OF c] in auto)
  then obtain t where t: "over_cards c (\<lambda>m s. do {
        s \<leftarrow> over_count (ninputs s) (copy_input m) s;
        s \<leftarrow> over_count (noutputs s) (copy_output m) s;
        over_count (ndisplays s) (copy_display m) s
      }) = Some t" "cards_copied c (nat (ncards c)) t"
    unfolding over_cards_def by blast
  note e = cards_copied_same [OF t(2)]
  let ?s = "t\<lparr>axes_old := if naxes c > 0 then axes c else axes_old c,
             servos_old := if nservos c > 0 then servos c else servos_old c,
             motors_old := if nmotors c > 0 then motors c else motors_old c\<rparr>"
  have "t = t\<lparr>axes_old := axes_old c, servos_old := servos_old c, motors_old := motors_old c\<rparr>" using e by simp
  then have "copy_device c = Some ?s"
    unfolding copy_device_def t(1) by (simp add: Let_def e)
  moreover have "device_ok ?s"
  proof -
    have ok: "device_ok t" using t(2) by (simp add: cards_copied_def)
    note a = device_ok_arrays(2) [OF ok]
    have "arr_ok 6 (within (- 1) 1023) (servos t)"
      using device_ok_arrays(11) [OF ok] by (auto simp: arr_ok_def list_all_iff within_def)
    then show ?thesis using ok a device_ok_arrays [OF ok] by (auto simp: device_ok_def axes_ok_def mc_ok_def e)
  qed
  ultimately show ?thesis using t(2) unfolding device_copied_def by blast
qed

lemma device_copied_same:
  assumes "device_copied c s"
  shows "device_ok s" "inputs s = inputs c" "outputs s = outputs c" "displays s = displays c" "ninputs s = ninputs c"
    "noutputs s = noutputs c" "ndisplays s = ndisplays c" "ncards s = ncards c" "axes s = axes c"
    "servos s = servos c" "motors s = motors c" "name s = name c" "status s = status c"
proof -
  from assms obtain t where t: "cards_copied c (nat (ncards c)) t"
    "s = t\<lparr>axes_old := if naxes c > 0 then axes c else axes_old c,
             servos_old := if nservos c > 0 then servos c else servos_old c,
             motors_old := if nmotors c > 0 then motors c else motors_old c\<rparr>"
    unfolding device_copied_def by blast
  note e = cards_copied_same [OF t(1)]
  from t(1) have f: "t = c\<lparr>inputs_old := inputs_old t, inputs_read := inputs_read t, outputs_old := outputs_old t,
           displays_old := displays_old t\<rparr>" unfolding cards_copied_def by blast
  have n: "name t = name c" "status t = status c" by (subst f, simp)+
  show "device_ok s" using assms by (simp add: device_copied_def)
  show "inputs s = inputs c" "outputs s = outputs c" "displays s = displays c" "ninputs s = ninputs c"
    "noutputs s = noutputs c" "ndisplays s = ndisplays c" "ncards s = ncards c" "axes s = axes c"
    "servos s = servos c" "motors s = motors c" "name s = name c" "status s = status c"
    by (simp_all add: t(2) e n)
qed

text \<open>Which old states are the present ones after the copy.\<close>

lemma device_copied_old:
  assumes "device_copied c s" and "j < 4" and "int j < ncards c"
  shows "k < 45 \<Longrightarrow> int k < noutputs c \<Longrightarrow> outputs_old s ! j ! k = outputs c ! j ! k"
    and "k < 64 \<Longrightarrow> int k < ndisplays c \<Longrightarrow> displays_old s ! j ! k = displays c ! j ! k"
    and "k < 72 \<Longrightarrow> int k < ninputs c \<Longrightarrow>
      inputs_old s ! j ! k = (if inputs_read c ! j ! k = 1 then inputs c ! j ! k else inputs_old c ! j ! k)"
proof -
  from assms(1) obtain t where t: "cards_copied c (nat (ncards c)) t"
    "outputs_old s = outputs_old t" "displays_old s = displays_old t" "inputs_old s = inputs_old t"
    unfolding device_copied_def by auto
  have j: "j < nat (ncards c)" using assms(3) by simp
  show "k < 45 \<Longrightarrow> int k < noutputs c \<Longrightarrow> outputs_old s ! j ! k = outputs c ! j ! k"
    and "k < 64 \<Longrightarrow> int k < ndisplays c \<Longrightarrow> displays_old s ! j ! k = displays c ! j ! k"
    and "k < 72 \<Longrightarrow> int k < ninputs c \<Longrightarrow>
      inputs_old s ! j ! k = (if inputs_read c ! j ! k = 1 then inputs c ! j ! k else inputs_old c ! j ! k)"
    using t(1) j assms(2) unfolding t(2-4) cards_copied_def by auto
qed

section \<open>The whole table\<close>

lemma each_device_run:
  assumes "\<And>c. c \<in> set cs \<Longrightarrow> \<exists>s. f c = Some s \<and> R c s"
  shows "\<exists>ss. each_device f cs = Some ss \<and> length ss = length cs \<and> (\<forall>k < length cs. R (cs ! k) (ss ! k))"
  using assms
proof (induction cs)
  case (Cons c cs)
  from Cons.prems [of c] obtain s where s: "f c = Some s" "R c s" by auto
  from Cons.IH Cons.prems obtain ss where ss: "each_device f cs = Some ss" "length ss = length cs"
    "\<forall>k < length cs. R (cs ! k) (ss ! k)" by auto
  with s show ?case by (intro exI [of _ "s # ss"]) (auto simp: nth_Cons split: nat.split)
qed simp

lemma copy_iocardsdata_run:
  assumes "list_all device_ok (iocard st)"
  shows "\<exists>cs. copy_iocardsdata st = Some (st\<lparr>iocard := cs, initial := (if initial st = 1 then 0 else initial st)\<rparr>) \<and>
    length cs = length (iocard st) \<and> (\<forall>k < length cs. device_copied (iocard st ! k) (cs ! k))"
proof -
  from each_device_run [of "iocard st" copy_device device_copied] copy_device_run assms
  obtain cs where cs: "each_device copy_device (iocard st) = Some cs" "length cs = length (iocard st)"
    "\<forall>k < length (iocard st). device_copied (iocard st ! k) (cs ! k)" by (auto simp: list_all_iff)
  then have "copy_iocardsdata st = Some (st\<lparr>iocard := cs, initial := (if initial st = 1 then 0 else initial st)\<rparr>)"
    by (simp add: copy_iocardsdata_def)
  with cs(2,3) show ?thesis by (intro exI [of _ cs]) simp
qed

end
