(* ===== verification/IocardsSend.thy ===== *)
theory IocardsSend
  imports Iocards
begin

text \<open>
  \<open>xpusb/src/libiocards.c\<close>: \<open>send_mastercard\<close>, \<open>send_servos\<close> and \<open>send_motors\<close>, which send the
  states that differ from the copy of the last cycle. The conversion of a value to \<open>unsigned char\<close>
  goes through \<open>int\<close>; \<open>pow\<close> of 2 is exact.
\<close>

section \<open>MASTERCARD\<close>

abbreviation (input) FIRSTOUTPUT :: int where "FIRSTOUTPUT \<equiv> 11"
abbreviation (input) TOTCHANNELS :: int where "TOTCHANNELS \<equiv> 64"

definition no_data :: mem where
  "no_data = replicate 8 0xff"

text \<open>
  One channel of a segment of eight outputs: its bit of the value byte, and whether the output has
  changed.
\<close>

definition put_channel ::
  "iocard_struct \<Rightarrow> int \<Rightarrow> nat \<Rightarrow> int \<Rightarrow> nat \<Rightarrow> mem \<times> bool \<Rightarrow> (mem \<times> bool) option" where
  "put_channel c cardno segment slot k = (\<lambda>(buf, changed).
     do {
       let channel = int segment * 8 + int k;
       old \<leftarrow> arr_get buf (slot * 2 + 1);
       (v, changed) \<leftarrow>
         (if channel < noutputs c then
            do {
              v \<leftarrow> arr_get2 (outputs c) cardno channel;
              w \<leftarrow> arr_get2 (outputs_old c) cardno channel;
              Some (v, changed \<or> v \<noteq> w)
            }
          else Some (1, changed));
       buf \<leftarrow> arr_set buf (slot * 2 + 1)
         (word_of_int ((if k = 0 then 0 else uint old) + v * 2 ^ k));
       Some (buf, changed)
     })"

text \<open>
  The local variables of the loops over segments and displays: the buffer, the number of the next
  free pair of bytes in it, whether anything has to be sent, the result, and the driver.
\<close>

type_synonym sending = "mem \<times> int \<times> bool \<times> int \<times> iocards"

definition send_segment ::
  "hid_writer \<Rightarrow> int \<Rightarrow> iocard_struct \<Rightarrow> int \<Rightarrow> nat \<Rightarrow> sending \<Rightarrow> (sending \<times> bool) option" where
  "send_segment hid_write dev c cardno segment = (\<lambda>(buf, slot, changed, result, st).
     do {
       (buf, slot, changed) \<leftarrow>
         (if int segment * 8 < noutputs c then
            do {
              (buf, changedinsegment) \<leftarrow>
                for_each [0..<8] (put_channel c cardno segment slot) (buf, False);
              if changedinsegment then
                do {
                  buf \<leftarrow> arr_set buf (slot * 2)
                    (word_of_int (cardno * TOTCHANNELS + int segment * 8 + FIRSTOUTPUT));
                  Some (buf, slot + 1, True)
                }
              else Some (buf, slot, changed)
            }
          else Some (buf, slot, changed));
       if slot = 4 \<or> changed \<and> segment = 7 then
         do {
           (send_status, st) \<leftarrow> write_usb hid_write dev buf 8 st;
           if send_status < 0 then Some ((buf, slot, changed, send_status, st), True)
           else Some ((no_data, 0, False, result, st), False)
         }
       else Some ((buf, slot, changed, result, st), False)
     })"

definition send_display ::
  "hid_writer \<Rightarrow> int \<Rightarrow> iocard_struct \<Rightarrow> int \<Rightarrow> nat \<Rightarrow> sending \<Rightarrow> (sending \<times> bool) option" where
  "send_display hid_write dev c cardno k = (\<lambda>(buf, slot, changed, result, st).
     do {
       v \<leftarrow> arr_get2 (displays c) cardno (int k);
       w \<leftarrow> arr_get2 (displays_old c) cardno (int k);
       (buf, slot, changed) \<leftarrow>
         (if v \<noteq> w then
            do {
              let buf = (if slot = 0 then no_data else buf);
              buf \<leftarrow> arr_set buf (slot * 2) (word_of_int v);
              buf \<leftarrow> arr_set buf (slot * 2 + 1) (word_of_int (cardno * ndisplays c + int k));
              Some (buf, slot + 1, True)
            }
          else Some (buf, slot, changed));
       if slot = 4 \<or> changed \<and> int k = ndisplays c - 1 then
         do {
           (send_status, st) \<leftarrow> write_usb hid_write dev buf 8 st;
           if send_status < 0 then Some ((buf, slot, changed, send_status, st), True)
           else Some ((buf, 0, False, result, st), False)
         }
       else Some ((buf, slot, changed, result, st), False)
     })"

text \<open>
  One MASTERCARD: a failed transmission of outputs does not keep the displays from being sent, but
  ends the loop over the cards of the device.
\<close>

definition send_card ::
  "hid_writer \<Rightarrow> int \<Rightarrow> iocard_struct \<Rightarrow> nat \<Rightarrow> int \<times> iocards \<Rightarrow> ((int \<times> iocards) \<times> bool) option" where
  "send_card hid_write dev c cardno = (\<lambda>(result, st).
     do {
       (buf, _, _, result, st) \<leftarrow>
         for_until [0..<8] (send_segment hid_write dev c (int cardno)) (no_data, 0, False, result, st);
       (_, _, _, result, st) \<leftarrow>
         for_until [0..<nat (ndisplays c)] (send_display hid_write dev c (int cardno))
           (buf, 0, False, result, st);
       Some ((result, st), result < 0)
     })"

definition send_mastercard :: "hid_writer \<Rightarrow> iocards \<Rightarrow> (int \<times> iocards) option" where
  "send_mastercard hid_write st =
     for_each [0..<MAXDEVICES] (\<lambda>k (result, st).
       do {
         c \<leftarrow> arr_get (iocard st) (int k);
         if is_mastercard c \<and> status c = 1
         then for_until [0..<nat (ncards c)] (send_card hid_write (int k) c) (result, st)
         else Some (result, st)
       }) (0, st)"

section \<open>Servos\<close>

text \<open>\<open>time.tv_sec + time.tv_usec/1000000.0\<close>, and the time since a servo was set, in \<open>double\<close>.\<close>

definition seconds :: "int \<times> int \<Rightarrow> fpval" where
  "seconds t =
     fp_add 52 11 (fp_of_int 52 11 (fst t)) (fp_div 52 11 (fp_of_int 52 11 (snd t)) (Fin 1000000 0))"

definition overdue :: "int \<times> int \<Rightarrow> fpval \<Rightarrow> bool" where
  "overdue now t \<longleftrightarrow> fp_less (Fin 1 0) (fp_sub 52 11 (seconds now) t)"

text \<open>The first loop: the timers of the servos that were moved, and whether to send at all.\<close>

definition servo_changed ::
  "int \<times> int \<Rightarrow> nat \<Rightarrow> iocard_struct \<times> bool \<Rightarrow> (iocard_struct \<times> bool) option" where
  "servo_changed now servo = (\<lambda>(c, changed).
     do {
       v \<leftarrow> arr_get (servos c) (int servo);
       w \<leftarrow> arr_get (servos_old c) (int servo);
       (c, changed) \<leftarrow>
         (if v \<noteq> w then
            do {
              times \<leftarrow> arr_set (time_servos c) (int servo) (seconds now);
              Some (c\<lparr>time_servos := times\<rparr>, True)
            }
          else Some (c, changed));
       t \<leftarrow> arr_get (time_servos c) (int servo);
       Some (c, changed \<or> \<not> fp_is_miss t \<and> overdue now t)
     })"

text \<open>
  The two upper bits of a position share a byte: from byte 6 on, four servos to a byte, the first
  servo in the most significant bits.
\<close>

definition put_position :: "int \<Rightarrow> nat \<Rightarrow> int \<Rightarrow> mem \<Rightarrow> mem option" where
  "put_position high servo data buf =
     do {
       buf \<leftarrow> arr_set buf (int servo) (word_of_int (and data 0xff));
       let k = high + int servo div 4;
       old \<leftarrow> arr_get buf k;
       arr_set buf k
         (word_of_int (uint old + push_bit (6 - 2 * (servo mod 4)) (and (drop_bit 8 data) 3)))
     }"

text \<open>The second loop: a servo whose time is over is parked, and its timer is stopped.\<close>

definition put_servo :: "int \<times> int \<Rightarrow> nat \<Rightarrow> iocard_struct \<times> mem \<Rightarrow> (iocard_struct \<times> mem) option" where
  "put_servo now servo = (\<lambda>(c, buf).
     do {
       t \<leftarrow> arr_get (time_servos c) (int servo);
       (c, data) \<leftarrow>
         (if \<not> fp_is_miss t then
            (if overdue now t then
               do {
                 times \<leftarrow> arr_set (time_servos c) (int servo) flt_miss_val;
                 Some (c\<lparr>time_servos := times\<rparr>, SERVOMAX - SERVOPARK)
               }
             else
               do {
                 v \<leftarrow> arr_get (servos c) (int servo);
                 Some (c, SERVOMAX - v)
               })
          else Some (c, SERVOMAX - SERVOPARK));
       buf \<leftarrow> put_position 6 servo data buf;
       Some (c, buf)
     })"

definition send_device_servos ::
  "hid_writer \<Rightarrow> int \<times> int \<Rightarrow> nat \<Rightarrow> int \<times> iocards \<Rightarrow> (int \<times> iocards) option" where
  "send_device_servos hid_write now k = (\<lambda>(result, st).
     do {
       c \<leftarrow> arr_get (iocard st) (int k);
       if is_servos c \<and> status c = 1 then
         do {
           (c, changed) \<leftarrow> for_each [0..<nat (nservos c)] (servo_changed now) (c, False);
           (c, buf) \<leftarrow>
             (if changed then for_each [0..<nat (nservos c)] (put_servo now) (c, replicate 8 0)
              else Some (c, []));
           cs \<leftarrow> arr_set (iocard st) (int k) c;
           let st = st\<lparr>iocard := cs\<rparr>;
           if changed then
             do {
               (send_status, st) \<leftarrow> write_usb hid_write (int k) buf 8 st;
               Some (if send_status < 0 then send_status else result, st)
             }
           else Some (result, st)
         }
       else Some (result, st)
     })"

definition send_servos :: "hid_writer \<Rightarrow> int \<times> int \<Rightarrow> iocards \<Rightarrow> (int \<times> iocards) option" where
  "send_servos hid_write now st = for_each [0..<MAXDEVICES] (send_device_servos hid_write now) (0, st)"

section \<open>DCMotors PLUS\<close>

text \<open>Whether any of the first \<open>n\<close> elements differs from its copy.\<close>

definition any_differs :: "int \<Rightarrow> int list \<Rightarrow> int list \<Rightarrow> bool \<Rightarrow> bool option" where
  "any_differs n vs ws =
     for_each [0..<nat n] (\<lambda>k changed.
       do { v \<leftarrow> arr_get vs (int k); w \<leftarrow> arr_get ws (int k); Some (changed \<or> v \<noteq> w) })"

definition put_motor_servo :: "iocard_struct \<Rightarrow> nat \<Rightarrow> mem \<Rightarrow> mem option" where
  "put_motor_servo c servo buf =
     do {
       v \<leftarrow> arr_get (servos c) (int servo);
       let data = SERVOMAX - v;
       if servo < 4 then put_position 4 servo data buf
       else arr_set buf (int servo) (word_of_int (and data 0xff))
     }"

definition put_motor_output :: "iocard_struct \<Rightarrow> nat \<Rightarrow> mem \<Rightarrow> mem option" where
  "put_motor_output c k buf =
     do {
       v \<leftarrow> arr_get2 (outputs c) 0 (int k);
       if v = 1 then
         do { old \<leftarrow> arr_get buf 9; arr_set buf 9 (word_of_int (uint old + push_bit k v)) }
       else Some buf
     }"

definition put_motor :: "iocard_struct \<Rightarrow> nat \<Rightarrow> mem \<Rightarrow> mem option" where
  "put_motor c motor buf =
     do {
       v \<leftarrow> arr_get (motors c) (int motor);
       if v > 0 \<and> v \<le> 255 then arr_set buf (5 + int motor) (word_of_int v) else Some buf
     }"

text \<open>
  The transmission is tried ten times; the result is the status of the last attempt, if there was
  more than one.
\<close>

fun retry_write ::
  "hid_writer \<Rightarrow> int \<Rightarrow> mem \<Rightarrow> nat \<Rightarrow> int \<times> int \<times> iocards \<Rightarrow> (int \<times> int \<times> iocards) option" where
  "retry_write hid_write dev buf 0 s = Some s"
| "retry_write hid_write dev buf (Suc n) (send_status, result, st) =
     (if send_status < 0 then
        do {
          (send_status, st) \<leftarrow> write_usb hid_write dev buf 16 st;
          retry_write hid_write dev buf n (send_status, send_status, st)
        }
      else Some (send_status, result, st))"

text \<open>The buffer is not cleared between two devices.\<close>

definition send_device_motors ::
  "hid_writer \<Rightarrow> nat \<Rightarrow> mem \<times> int \<times> iocards \<Rightarrow> (mem \<times> int \<times> iocards) option" where
  "send_device_motors hid_write k = (\<lambda>(buf, result, st).
     do {
       c \<leftarrow> arr_get (iocard st) (int k);
       if is_motors c \<and> status c = 1 then
         do {
           changed \<leftarrow> any_differs (nservos c) (servos c) (servos_old c) False;
           outs \<leftarrow> arr_get (outputs c) 0;
           olds \<leftarrow> arr_get (outputs_old c) 0;
           changed \<leftarrow> any_differs (noutputs c) outs olds changed;
           changed \<leftarrow> any_differs (nmotors c) (motors c) (motors_old c) changed;
           if changed then
             do {
               buf \<leftarrow> for_each [0..<nat (nservos c)] (put_motor_servo c) buf;
               buf \<leftarrow> for_each [0..<nat (noutputs c)] (put_motor_output c) buf;
               buf \<leftarrow> for_each [0..<nat (nmotors c)] (put_motor c) buf;
               (send_status, st) \<leftarrow> write_usb hid_write (int k) buf 16 st;
               (_, result, st) \<leftarrow> retry_write hid_write (int k) buf 9 (send_status, result, st);
               Some (buf, result, st)
             }
           else Some (buf, result, st)
         }
       else Some (buf, result, st)
     })"

definition send_motors :: "hid_writer \<Rightarrow> iocards \<Rightarrow> (int \<times> iocards) option" where
  "send_motors hid_write st =
     do {
       (_, result, st) \<leftarrow>
         for_each [0..<MAXDEVICES] (send_device_motors hid_write) (replicate 16 0, 0, st);
       Some (result, st)
     }"

end
