(* ===== verification/IocardsTransmit.thy ===== *)
theory IocardsTransmit
  imports IocardsCopy IocardsSend
begin

text \<open>
  What \<open>send_mastercard\<close> puts on the wire: a report of 8 bytes carries up to four pairs of bytes, of
  which those that begin with \<open>0xff\<close> mean nothing. For a segment of outputs the pair is its address
  and the states of its eight outputs; for a display it is the code and the address.
\<close>

section \<open>Reports as pairs of bytes\<close>

type_synonym pair = "byte \<times> byte"

definition slots_of :: "mem \<Rightarrow> pair list" where
  "slots_of v = map (\<lambda>j. (v ! (2 * j), v ! (2 * j + 1))) [0..<4]"

definition pairs_of :: "mem \<Rightarrow> pair list" where
  "pairs_of v = filter (\<lambda>p. fst p \<noteq> 0xff) (slots_of v)"

text \<open>A buffer that is being filled, with the pairs it has so far.\<close>

definition filling :: "mem \<Rightarrow> pair list \<Rightarrow> bool" where
  "filling v ps \<longleftrightarrow>
     length v = 8 \<and> length ps \<le> 4 \<and> take (length ps) (slots_of v) = ps \<and> (\<forall>p \<in> set ps. fst p \<noteq> 0xff) \<and>
     (\<forall>p \<in> set (drop (length ps) (slots_of v)). fst p = 0xff)"

lemma length_slots_of [simp]: "length (slots_of v) = 4"
  by (simp add: slots_of_def)

lemma slots_of_nth [simp]: "j < 4 \<Longrightarrow> slots_of v ! j = (v ! (2 * j), v ! (2 * j + 1))"
  by (simp add: slots_of_def)

lemma filling_pairs:
  assumes "filling v ps"
  shows "pairs_of v = ps"
proof -
  have "pairs_of v = filter (\<lambda>p. fst p \<noteq> 0xff) (take (length ps) (slots_of v) @ drop (length ps) (slots_of v))"
    by (simp add: pairs_of_def)
  also have "\<dots> = filter (\<lambda>p. fst p \<noteq> 0xff) ps"
    using assms unfolding filter_append by (auto simp: filling_def filter_empty_conv)
  also have "\<dots> = ps" using assms by (simp add: filling_def filter_id_conv)
  finally show ?thesis .
qed

lemma filling_none: "filling no_data []"
  by (simp add: filling_def no_data_def slots_of_def upt_rec)

lemma slots_of_value:
  assumes "k < 4" "length v = 8"
  shows "slots_of (v[2 * k + 1 := x]) = (slots_of v)[k := (v ! (2 * k), x)]"
  using assms by (intro nth_equalityI) (auto simp: nth_list_update)

lemma slots_of_pair:
  assumes "k < 4" "length v = 8"
  shows "slots_of (v[2 * k := a, 2 * k + 1 := x]) = (slots_of v)[k := (a, x)]"
  using assms by (intro nth_equalityI) (auto simp: nth_list_update)

text \<open>A value without its address does not count; with the address it is the next pair.\<close>

lemma filling_value:
  assumes f: "filling v ps" and l: "length ps < 4"
  shows "filling (v[2 * length ps + 1 := x]) ps"
proof -
  let ?k = "length ps"
  have v: "length v = 8" using f by (simp add: filling_def)
  have "drop ?k (slots_of v) = slots_of v ! ?k # drop (Suc ?k) (slots_of v)"
    by (rule Cons_nth_drop_Suc [symmetric]) (simp add: l)
  moreover have "fst (slots_of v ! ?k) = v ! (2 * ?k)" using l by simp
  ultimately show ?thesis
    using f l unfolding filling_def slots_of_value [OF l v] by (simp add: drop_update_swap)
qed

lemma filling_pair:
  assumes f: "filling v ps" and l: "length ps < 4" and a: "a \<noteq> 0xff"
  shows "filling (v[2 * length ps := a, 2 * length ps + 1 := x]) (ps @ [(a, x)])"
proof -
  let ?k = "length ps"
  have v: "length v = 8" using f by (simp add: filling_def)
  have d: "drop ?k (slots_of v) = slots_of v ! ?k # drop (Suc ?k) (slots_of v)"
    by (rule Cons_nth_drop_Suc [symmetric]) (simp add: l)
  have t: "take (Suc ?k) ((slots_of v)[?k := (a, x)]) = take ?k (slots_of v) @ [(a, x)]"
    using l by (simp add: take_Suc_conv_app_nth)
  show ?thesis
    using f l a d unfolding filling_def slots_of_pair [OF l v] by (simp add: t)
qed

section \<open>What is due\<close>

definition output_state :: "iocard_struct \<Rightarrow> nat \<Rightarrow> nat \<Rightarrow> byte" where
  "output_state c i s = bits_byte (\<lambda>k. noutputs c \<le> int (8 * s + k) \<or> outputs c ! i ! (8 * s + k) = 1)"

definition segment_due :: "iocard_struct \<Rightarrow> nat \<Rightarrow> nat \<Rightarrow> bool" where
  "segment_due c i s \<longleftrightarrow>
     (\<exists>k < 8. int (8 * s + k) < noutputs c \<and> outputs c ! i ! (8 * s + k) \<noteq> outputs_old c ! i ! (8 * s + k))"

definition due_segment :: "iocard_struct \<Rightarrow> nat \<Rightarrow> nat \<Rightarrow> pair list" where
  "due_segment c i s =
     (if segment_due c i s then [(word_of_nat (64 * i + 8 * s + 11), output_state c i s)] else [])"

definition due_display :: "iocard_struct \<Rightarrow> nat \<Rightarrow> nat \<Rightarrow> pair list" where
  "due_display c i k =
     (if displays c ! i ! k \<noteq> displays_old c ! i ! k
      then [(word_of_int (displays c ! i ! k), word_of_int (int i * ndisplays c + int k))] else [])"

definition due_card :: "iocard_struct \<Rightarrow> nat \<Rightarrow> pair list" where
  "due_card c i = concat (map (due_segment c i) [0..<8]) @ concat (map (due_display c i) [0..<nat (ndisplays c)])"

definition due :: "iocard_struct \<Rightarrow> pair list" where
  "due c = concat (map (due_card c) [0..<nat (ncards c)])"

text \<open>The address of a segment is never the empty one.\<close>

lemma segment_address:
  assumes "i < 4" "s < 8" "8 * s < 45"
  shows "(word_of_nat (64 * i + 8 * s + 11) :: byte) \<noteq> 0xff"
proof
  define n where "n = 64 * i + 8 * s + 11"
  assume "(word_of_nat (64 * i + 8 * s + 11) :: byte) = 0xff"
  then have "unat (word_of_nat n :: byte) = unat (0xff :: byte)" by (simp only: n_def)
  moreover have "n < 256" using assms by (simp add: n_def)
  ultimately have "n = 255" by (simp add: unat_of_nat)
  then show False unfolding n_def by presburger
qed

lemma display_code: "within 0 252 v \<Longrightarrow> (word_of_int v :: byte) \<noteq> 0xff"
proof
  assume v: "within 0 252 v" and e: "(word_of_int v :: byte) = 0xff"
  from e have "uint (word_of_int v :: byte) = uint (0xff :: byte)" by simp
  with v show False by (simp add: within_def uint_word_of_int)
qed

section \<open>The channels of a segment\<close>

definition channel_value :: "iocard_struct \<Rightarrow> nat \<Rightarrow> nat \<Rightarrow> nat \<Rightarrow> bool" where
  "channel_value c i s k \<longleftrightarrow> noutputs c \<le> int (8 * s + k) \<or> outputs c ! i ! (8 * s + k) = 1"

lemma horner_Suc:
  "horner_sum of_bool (2::int) (map f [0..<Suc n]) = horner_sum of_bool 2 (map f [0..<n]) + of_bool (f n) * 2 ^ n"
  by (simp add: horner_sum_append)

lemma word_of_horner:
  "word_of_int (horner_sum of_bool (2::int) bs) = (horner_sum of_bool 2 bs :: 'a::len word)"
  by (induction bs) (simp_all add: of_bool_def)

lemma put_channel_run:
  assumes c: "device_ok c" and i: "i < 4" and s: "slot < 4" and v: "length v = 8" and k: "k < 8"
  shows "put_channel c (int i) s' (int slot) k (v, ch) =
      Some (v[2 * slot + 1 := word_of_int ((if k = 0 then 0 else uint (v ! (2 * slot + 1))) +
               of_bool (channel_value c i s' k) * 2 ^ k)],
        ch \<or> int (8 * s' + k) < noutputs c \<and> outputs c ! i ! (8 * s' + k) \<noteq> outputs_old c ! i ! (8 * s' + k))"
proof -
  have g: "arr_get v (int slot * 2 + 1) = Some (v ! (2 * slot + 1))"
    "arr_set v (int slot * 2 + 1) x = Some (v[2 * slot + 1 := x])" for x
    using s v by (simp_all add: arr_get_def arr_set_def nat_add_distrib nat_mult_distrib mult.commute)
  have ch: "int s' * 8 + int k = int (8 * s' + k)" by simp
  show ?thesis
  proof (cases "int (8 * s' + k) < noutputs c")
    case True
    then have b: "int (8 * s' + k) < int 45" "int i < int 4" using device_okD(8) [OF c] i by simp_all
    from arr_ok_get2 [OF device_ok_arrays(7) [OF c] _ b(2) _ b(1)]
    have o: "arr_get2 (outputs c) (int i) (int (8 * s' + k)) = Some (outputs c ! i ! (8 * s' + k))"
      "within 0 1 (outputs c ! i ! (8 * s' + k))" by (simp_all only: nat_int of_nat_0_le_iff)
    from arr_ok_get2 [OF device_ok_arrays(8) [OF c] _ b(2) _ b(1)]
    have w: "arr_get2 (outputs_old c) (int i) (int (8 * s' + k)) = Some (outputs_old c ! i ! (8 * s' + k))"
      by (simp only: nat_int of_nat_0_le_iff)
    have val: "outputs c ! i ! (8 * s' + k) = of_bool (channel_value c i s' k)"
      using o(2) True by (auto simp: channel_value_def within_def)
    show ?thesis
      unfolding put_channel_def split Let_def ch
      using True o(1) w by (simp add: g val [symmetric] del: of_nat_add of_nat_mult)
  next
    case False
    then have "channel_value c i s' k" by (simp add: channel_value_def)
    with False show ?thesis
      unfolding put_channel_def split Let_def ch by (simp add: g del: of_nat_add of_nat_mult)
  qed
qed

lemma put_channels_run:
  assumes c: "device_ok c" and i: "i < 4" and s: "slot < 4" and v: "length v = 8" and n: "n \<le> 8"
  shows "for_each [0..<n] (put_channel c (int i) s' (int slot)) (v, False) =
      Some (if n = 0 then v else v[2 * slot + 1 := word_of_int (horner_sum of_bool 2 (map (channel_value c i s') [0..<n]))],
        \<exists>k < n. int (8 * s' + k) < noutputs c \<and> outputs c ! i ! (8 * s' + k) \<noteq> outputs_old c ! i ! (8 * s' + k))"
  using n
proof (induction n)
  case (Suc n)
  let ?h = "\<lambda>n. horner_sum of_bool (2::int) (map (channel_value c i s') [0..<n])"
  let ?v = "if n = 0 then v else v[2 * slot + 1 := word_of_int (?h n)]"
  have l: "length ?v = 8" "2 * slot + 1 < length v" using v s by simp_all
  have x: "(word_of_int ((if n = 0 then 0 else uint (?v ! (2 * slot + 1))) + of_bool (channel_value c i s' n) * 2 ^ n) :: byte)
      = word_of_int (?h (Suc n))"
    unfolding horner_Suc using l(2) by auto
  have "for_each [0..<Suc n] (put_channel c (int i) s' (int slot)) (v, False) =
      do { t \<leftarrow> for_each [0..<n] (put_channel c (int i) s' (int slot)) (v, False); put_channel c (int i) s' (int slot) n t }"
    by (simp add: for_each_append for_each_run)
  also have "\<dots> = Some (?v[2 * slot + 1 := word_of_int (?h (Suc n))],
      (\<exists>k < n. int (8 * s' + k) < noutputs c \<and> outputs c ! i ! (8 * s' + k) \<noteq> outputs_old c ! i ! (8 * s' + k)) \<or>
      int (8 * s' + n) < noutputs c \<and> outputs c ! i ! (8 * s' + n) \<noteq> outputs_old c ! i ! (8 * s' + n))"
    using Suc put_channel_run [OF c i s l(1), of n s'] by (simp only: x) simp
  finally show ?case by (simp add: less_Suc_eq ex_disj_distrib conj_disj_distribR disj_commute cong: conj_cong)
qed simp

lemma put_segment_run:
  assumes "device_ok c" "i < 4" "slot < 4" "length v = 8"
  shows "for_each [0..<8] (put_channel c (int i) s (int slot)) (v, False) =
      Some (v[2 * slot + 1 := output_state c i s], segment_due c i s)"
proof -
  have "word_of_int (horner_sum of_bool (2::int) (map (channel_value c i s) [0..<8])) = output_state c i s"
    unfolding word_of_horner output_state_def bits_byte_def channel_value_def by simp
  with put_channels_run [OF assms, of 8 s] show ?thesis by (simp add: segment_due_def)
qed

section \<open>Sending to one device\<close>

text \<open>The state after a number of reports to device \<open>k\<close>, of 8 bytes each.\<close>

definition sent :: "nat \<Rightarrow> mem list \<Rightarrow> iocards \<Rightarrow> iocards \<Rightarrow> bool" where
  "sent k vs st st' \<longleftrightarrow> (\<forall>v \<in> set vs. length v = 8) \<and>
     (\<exists>d. writable_device 8 d \<and>
        st' = st\<lparr>device := (device st)[k := d], hid_written := hid_written st @ map (\<lambda>v. (int k, 0 # v)) vs\<rparr>)"

definition ready :: "nat \<Rightarrow> iocards \<Rightarrow> bool" where
  "ready k st \<longleftrightarrow> length (device st) = MAXDEVICES \<and> k < MAXDEVICES \<and> writable_device 8 (device st ! k)"

definition accepts :: "hid_writer \<Rightarrow> bool" where
  "accepts hid_write \<longleftrightarrow> (\<forall>ws. 0 \<le> hid_write ws)"

lemma sent_none: "ready k st \<Longrightarrow> sent k [] st st"
  unfolding sent_def ready_def by (intro conjI exI [of _ "device st ! k"]) simp_all

lemma sent_trans: "sent k vs st st' \<Longrightarrow> sent k ws st' st'' \<Longrightarrow> sent k (vs @ ws) st st''"
  unfolding sent_def by auto

lemma sent_ready: "sent k vs st st' \<Longrightarrow> ready k st \<Longrightarrow> ready k st'"
  by (auto simp: sent_def ready_def)

lemma sent_table: "sent k vs st st' \<Longrightarrow> iocard st' = iocard st"
  by (auto simp: sent_def)

lemma write_usb_sent:
  assumes r: "ready k st" and a: "accepts hid_write" and v: "length v = 8"
  obtains n st' where "write_usb hid_write (int k) v 8 st = Some (n, st')" "0 \<le> n" "sent k [v] st st'"
proof -
  from r have l: "length (device st) = 10" "k < 10" "writable_device 8 (device st ! k)" by (simp_all add: ready_def)
  let ?d = "(device st ! k)\<lparr>outBuffer := Some (0 # v)\<rparr>"
  from write_usb_run [OF l v, of hid_write] have
    w: "write_usb hid_write (int k) v 8 st =
      Some (let res = hid_write (hid_written st @ [(int k, 0 # v)]) in if res = 9 then 8 else res,
        st\<lparr>device := (device st)[k := ?d], hid_written := hid_written st @ [(int k, 0 # v)]\<rparr>)"
    and d: "writable_device 8 ?d" by (auto simp: Let_def)
  from a have "0 \<le> (let res = hid_write (hid_written st @ [(int k, 0 # v)]) in if res = 9 then 8 else res)"
    by (simp add: accepts_def Let_def)
  moreover have "sent k [v] st (st\<lparr>device := (device st)[k := ?d], hid_written := hid_written st @ [(int k, 0 # v)]\<rparr>)"
    using d v unfolding sent_def by (intro conjI exI [of _ ?d]) simp_all
  ultimately show thesis using that w by blast
qed

section \<open>One card\<close>

text \<open>The state of the loops: the reports so far and the pairs that wait in the buffer are what is due.\<close>

abbreviation all_pairs :: "mem list \<Rightarrow> pair list" where
  "all_pairs vs \<equiv> concat (map pairs_of vs)"

definition segments_sent ::
  "iocard_struct \<Rightarrow> nat \<Rightarrow> nat \<Rightarrow> iocards \<Rightarrow> nat \<Rightarrow> sending \<Rightarrow> bool" where
  "segments_sent c i k st0 n = (\<lambda>(v, slot, changed, result, st).
     \<exists>vs ps. sent k vs st0 st \<and> filling v ps \<and> length ps < 4 \<and> slot = int (length ps) \<and>
       (changed \<longleftrightarrow> ps \<noteq> []) \<and> result = 0 \<and> (\<forall>v \<in> set vs. pairs_of v \<noteq> []) \<and>
       all_pairs vs @ ps = concat (map (due_segment c i) [0..<n]) \<and> (n = 8 \<longrightarrow> ps = []))"

lemma segment_step:
  assumes c: "device_ok c" and i: "i < 4" and n: "n < 8" and r: "ready k st0" and a: "accepts hid_write"
    and s: "segments_sent c i k st0 n s"
  shows "\<exists>t. send_segment hid_write (int k) c (int i) n s = Some (t, False) \<and> segments_sent c i k st0 (Suc n) t"
proof -
  obtain v slot changed result st where st: "s = (v, slot, changed, result, st)" by (cases s)
  with s obtain vs ps where h: "sent k vs st0 st" "filling v ps" "length ps < 4" "slot = int (length ps)"
      "changed \<longleftrightarrow> ps \<noteq> []" "result = 0" "\<forall>v \<in> set vs. pairs_of v \<noteq> []"
      "all_pairs vs @ ps = concat (map (due_segment c i) [0..<n])"
    by (auto simp: segments_sent_def)
  have lv: "length v = 8" using h(2) by (simp add: filling_def)
  let ?x = "output_state c i n"
  define ad where "ad = (word_of_nat (64 * i + 8 * n + 11) :: byte)"
  define ps' where "ps' = ps @ due_segment c i n"
  define v' where "v' =
    (if int n * 8 < noutputs c then
       (if segment_due c i n then v[2 * length ps + 1 := ?x, 2 * length ps := ad] else v[2 * length ps + 1 := ?x])
     else v)"
  have due: "segment_due c i n \<Longrightarrow> int n * 8 < noutputs c" by (auto simp: segment_due_def)
  have addr: "word_of_int (int i * 64 + int n * 8 + 11) = ad"
    by (simp add: ad_def algebra_simps)
  have dseg: "due_segment c i n = (if segment_due c i n then [(ad, ?x)] else [])"
    by (simp add: due_segment_def ad_def)
  have fill: "filling v' ps'"
  proof (cases "segment_due c i n")
    case True
    with due have o: "int n * 8 < noutputs c" by simp
    then have "8 * n < 45" using device_okD(8) [OF c] by linarith
    then have "ad \<noteq> 0xff" unfolding ad_def by (rule segment_address [OF i n])
    from filling_pair [OF h(2,3) this, of ?x] True o show ?thesis
      by (simp add: v'_def ps'_def dseg list_update_swap)
  next
    case False
    with filling_value [OF h(2,3), of ?x] h(2) show ?thesis by (simp add: v'_def ps'_def dseg)
  qed
  have lv': "length v' = 8" using fill by (simp add: filling_def)
  have front: "(if int n * 8 < noutputs c then
       do {
         (buf, changedinsegment) \<leftarrow> for_each [0..<8] (put_channel c (int i) n slot) (v, False);
         if changedinsegment then
           do {
             buf \<leftarrow> arr_set buf (slot * 2) (word_of_int (int i * TOTCHANNELS + int n * 8 + FIRSTOUTPUT));
             Some (buf, slot + 1, True)
           }
         else Some (buf, slot, changed)
       }
     else Some (v, slot, changed)) = Some (v', int (length ps'), ps' \<noteq> [])"
  proof (cases "int n * 8 < noutputs c")
    case True
    have "arr_set (v[2 * length ps + 1 := ?x]) (slot * 2) ad = Some (v[2 * length ps + 1 := ?x, 2 * length ps := ad])"
      using h(3,4) lv by (simp add: arr_set_def nat_mult_distrib mult.commute)
    with True put_segment_run [OF c i h(3) lv, of n] h(4,5) show ?thesis
      unfolding addr by (simp add: v'_def ps'_def dseg)
  next
    case False
    with due have "\<not> segment_due c i n" by blast
    with False h(4,5) show ?thesis by (simp add: v'_def ps'_def dseg)
  qed
  have dues: "all_pairs vs @ ps' = concat (map (due_segment c i) [0..<Suc n])" using h(8) by (simp add: ps'_def)
  have len: "length ps' \<le> 4" using fill by (simp add: filling_def)
  show ?thesis
  proof (cases "length ps' = 4 \<or> ps' \<noteq> [] \<and> n = 7")
    case True
    obtain m st' where w: "write_usb hid_write (int k) v' 8 st = Some (m, st')" "0 \<le> m" "sent k [v'] st st'"
      by (rule write_usb_sent [OF sent_ready [OF h(1) r] a lv'])
    from True have "ps' \<noteq> []" by auto
    then have "segments_sent c i k st0 (Suc n) (no_data, 0, False, 0, st')"
      using sent_trans [OF h(1) w(3)] h(7) dues filling_pairs [OF fill] filling_none
      by (auto simp: segments_sent_def intro!: exI [of _ "vs @ [v']"])
    moreover have "send_segment hid_write (int k) c (int i) n s = Some ((no_data, 0, False, 0, st'), False)"
      unfolding st send_segment_def split front using True w(1,2) h(6) by auto
    ultimately show ?thesis by blast
  next
    case False
    then have "segments_sent c i k st0 (Suc n) (v', int (length ps'), ps' \<noteq> [], 0, st)"
      using h(1,7) dues fill len n by (auto simp: segments_sent_def intro!: exI [of _ vs])
    moreover have "send_segment hid_write (int k) c (int i) n s =
        Some ((v', int (length ps'), ps' \<noteq> [], 0, st), False)"
      unfolding st send_segment_def split front using False h(6) by auto
    ultimately show ?thesis by blast
  qed
qed

text \<open>The displays: the buffer is cleared for the first pair only.\<close>

definition displays_sent ::
  "iocard_struct \<Rightarrow> nat \<Rightarrow> nat \<Rightarrow> iocards \<Rightarrow> nat \<Rightarrow> sending \<Rightarrow> bool" where
  "displays_sent c i k st0 n = (\<lambda>(v, slot, changed, result, st).
     \<exists>vs ps. sent k vs st0 st \<and> length v = 8 \<and> (ps \<noteq> [] \<longrightarrow> filling v ps) \<and> length ps < 4 \<and>
       slot = int (length ps) \<and> (changed \<longleftrightarrow> ps \<noteq> []) \<and> result = 0 \<and> (\<forall>v \<in> set vs. pairs_of v \<noteq> []) \<and>
       all_pairs vs @ ps = concat (map (due_display c i) [0..<n]) \<and> (int n = ndisplays c \<longrightarrow> ps = []))"

lemma display_step:
  assumes c: "device_ok c" and i: "i < 4" and n: "int n < ndisplays c" and r: "ready k st0"
    and a: "accepts hid_write" and s: "displays_sent c i k st0 n s"
  shows "\<exists>t. send_display hid_write (int k) c (int i) n s = Some (t, False) \<and> displays_sent c i k st0 (Suc n) t"
proof -
  obtain v slot changed result st where st: "s = (v, slot, changed, result, st)" by (cases s)
  with s obtain vs ps where h: "sent k vs st0 st" "length v = 8" "ps \<noteq> [] \<longrightarrow> filling v ps" "length ps < 4"
      "slot = int (length ps)" "changed \<longleftrightarrow> ps \<noteq> []" "result = 0" "\<forall>v \<in> set vs. pairs_of v \<noteq> []"
      "all_pairs vs @ ps = concat (map (due_display c i) [0..<n])"
    by (auto simp: displays_sent_def)
  have b: "int n < int 64" "int i < int 4" using n device_okD(10) [OF c] i by simp_all
  from arr_ok_get2 [OF device_ok_arrays(9) [OF c] _ b(2) _ b(1)]
  have g: "arr_get2 (displays c) (int i) (int n) = Some (displays c ! i ! n)" "within 0 252 (displays c ! i ! n)"
    by simp_all
  from arr_ok_get2 [OF device_ok_arrays(10) [OF c] _ b(2) _ b(1)]
  have g': "arr_get2 (displays_old c) (int i) (int n) = Some (displays_old c ! i ! n)" by simp
  define due where "due \<longleftrightarrow> displays c ! i ! n \<noteq> displays_old c ! i ! n"
  define x where "x = (word_of_int (displays c ! i ! n) :: byte)"
  define y where "y = (word_of_int (int i * ndisplays c + int n) :: byte)"
  have dd: "due_display c i n = (if due then [(x, y)] else [])"
    by (simp add: due_display_def due_def x_def y_def)
  define v0 where "v0 = (if ps = [] then no_data else v)"
  define v' where "v' = (if due then v0[2 * length ps := x, 2 * length ps + 1 := y] else v)"
  define ps' where "ps' = ps @ due_display c i n"
  have f0: "filling v0 ps" using h(3) filling_none by (simp add: v0_def)
  then have lv0: "length v0 = 8" by (simp add: filling_def)
  have lv': "length v' = 8" using lv0 h(2) by (simp add: v'_def)
  have fill: "filling v' ps'" if "ps' \<noteq> []"
  proof (cases due)
    case True
    have "x \<noteq> 0xff" unfolding x_def by (rule display_code [OF g(2)])
    from filling_pair [OF f0 h(4) this] True show ?thesis by (simp add: v'_def ps'_def dd)
  next
    case False
    with that h(3) show ?thesis by (simp add: v'_def ps'_def dd)
  qed
  have front: "(if displays c ! i ! n \<noteq> displays_old c ! i ! n then
       do {
         let buf = (if slot = 0 then no_data else v);
         buf \<leftarrow> arr_set buf (slot * 2) (word_of_int (displays c ! i ! n));
         buf \<leftarrow> arr_set buf (slot * 2 + 1) (word_of_int (int i * ndisplays c + int n));
         Some (buf, slot + 1, True)
       }
     else Some (v, slot, changed)) = Some (v', int (length ps'), ps' \<noteq> [])"
  proof (cases due)
    case True
    have e: "(if slot = 0 then no_data else v) = v0" using h(5) by (simp add: v0_def)
    have "arr_set v0 (slot * 2) x = Some (v0[2 * length ps := x])"
      "arr_set (v0[2 * length ps := x]) (slot * 2 + 1) y = Some (v0[2 * length ps := x, 2 * length ps + 1 := y])"
      using h(4,5) lv0 by (simp_all add: arr_set_def nat_mult_distrib nat_add_distrib mult.commute)
    with True show ?thesis
      unfolding e x_def [symmetric] y_def [symmetric] due_def [symmetric]
      by (simp add: v'_def ps'_def dd h(5))
  next
    case False
    then show ?thesis using h(5,6) unfolding due_def [symmetric] by (simp add: v'_def ps'_def dd)
  qed
  have dues: "all_pairs vs @ ps' = concat (map (due_display c i) [0..<Suc n])" using h(9) by (simp add: ps'_def)
  have len: "length ps' \<le> 4" using h(4) by (simp add: ps'_def dd)
  show ?thesis
  proof (cases "length ps' = 4 \<or> ps' \<noteq> [] \<and> int n = ndisplays c - 1")
    case True
    obtain m st' where w: "write_usb hid_write (int k) v' 8 st = Some (m, st')" "0 \<le> m" "sent k [v'] st st'"
      by (rule write_usb_sent [OF sent_ready [OF h(1) r] a lv'])
    from True have ne: "ps' \<noteq> []" by auto
    have "displays_sent c i k st0 (Suc n) (v', 0, False, 0, st')"
      using sent_trans [OF h(1) w(3)] h(8) dues filling_pairs [OF fill [OF ne]] ne lv'
      by (auto simp: displays_sent_def intro!: exI [of _ "vs @ [v']"])
    moreover have "send_display hid_write (int k) c (int i) n s = Some ((v', 0, False, 0, st'), False)"
      unfolding st send_display_def split g(1) g' bind.bind_lunit front using True w(1,2) h(7) by auto
    ultimately show ?thesis by blast
  next
    case False
    then have "displays_sent c i k st0 (Suc n) (v', int (length ps'), ps' \<noteq> [], 0, st)"
      using h(1,8) dues fill len n lv' by (auto simp: displays_sent_def intro!: exI [of _ vs] exI [of _ ps'])
    moreover have "send_display hid_write (int k) c (int i) n s =
        Some ((v', int (length ps'), ps' \<noteq> [], 0, st), False)"
      unfolding st send_display_def split g(1) g' bind.bind_lunit front using False h(7) by auto
    ultimately show ?thesis by blast
  qed
qed

lemma send_card_run:
  assumes c: "device_ok c" and i: "i < 4" and r: "ready k st" and a: "accepts hid_write"
  shows "\<exists>vs st'. send_card hid_write (int k) c i (0, st) = Some ((0, st'), False) \<and> sent k vs st st' \<and>
    all_pairs vs = due_card c i \<and> (\<forall>v \<in> set vs. pairs_of v \<noteq> [])"
proof -
  have "segments_sent c i k st 0 (no_data, 0, False, 0, st)"
    using sent_none [OF r] filling_none by (auto simp: segments_sent_def intro!: exI [of _ "[]"])
  from for_until_steps [where P = "segments_sent c i k st" and n = 8 and f = "send_segment hid_write (int k) c (int i)",
      OF this] segment_step [OF c i _ r a]
  obtain t where t: "for_until [0..<8] (send_segment hid_write (int k) c (int i)) (no_data, 0, False, 0, st) = Some t"
    "segments_sent c i k st 8 t" by blast
  then obtain v vs st1 where u: "t = (v, 0, False, 0, st1)" "sent k vs st st1" "length v = 8"
      "\<forall>v \<in> set vs. pairs_of v \<noteq> []" "all_pairs vs = concat (map (due_segment c i) [0..<8])"
    by (cases t) (auto simp: segments_sent_def filling_def)
  have r1: "ready k st1" by (rule sent_ready [OF u(2) r])
  have z: "displays_sent c i k st1 0 (v, 0, False, 0, st1)"
    using sent_none [OF r1] u(3) by (auto simp: displays_sent_def intro!: exI [of _ "[]"])
  have st: "\<exists>t. send_display hid_write (int k) c (int i) n s = Some (t, False) \<and> displays_sent c i k st1 (Suc n) t"
    if "n < nat (ndisplays c)" "displays_sent c i k st1 n s" for n s
    using that by (intro display_step [OF c i _ r1 a]) simp_all
  from for_until_steps [where P = "displays_sent c i k st1" and f = "send_display hid_write (int k) c (int i)", OF z st]
  obtain t' where
    t': "for_until [0..<nat (ndisplays c)] (send_display hid_write (int k) c (int i)) (v, 0, False, 0, st1) = Some t'"
    "displays_sent c i k st1 (nat (ndisplays c)) t'" by blast
  then obtain v' ws st2 where w: "t' = (v', 0, False, 0, st2)" "sent k ws st1 st2"
      "\<forall>v \<in> set ws. pairs_of v \<noteq> []" "all_pairs ws = concat (map (due_display c i) [0..<nat (ndisplays c)])"
    using device_okD(9) [OF c] by (cases t') (auto simp: displays_sent_def)
  have "send_card hid_write (int k) c i (0, st) = Some ((0, st2), False)"
    using t(1) t'(1) u(1) w(1) by (simp add: send_card_def)
  then show ?thesis
    using sent_trans [OF u(2) w(2)] u(4,5) w(3,4)
    by (intro exI [of _ "vs @ ws"] exI [of _ st2]) (auto simp: due_card_def)
qed

section \<open>All cards of all devices\<close>

definition ready_card :: "iocards \<Rightarrow> nat \<Rightarrow> bool" where
  "ready_card st k \<longleftrightarrow> is_mastercard (iocard st ! k) \<and> status (iocard st ! k) = 1"

text \<open>What goes over the wire: the pairs, with the numbers of the devices.\<close>

definition wire :: "usb_report list \<Rightarrow> (int \<times> pair) list" where
  "wire rs = concat (map (\<lambda>(dev, r). map (Pair dev) (pairs_of (tl r))) rs)"

definition device_due :: "iocards \<Rightarrow> nat \<Rightarrow> (int \<times> pair) list" where
  "device_due st k = (if ready_card st k then map (Pair (int k)) (due (iocard st ! k)) else [])"

definition full_report :: "usb_report \<Rightarrow> bool" where
  "full_report r \<longleftrightarrow> length (snd r) = 9 \<and> hd (snd r) = 0 \<and> pairs_of (tl (snd r)) \<noteq> []"

lemma wire_reports: "wire (map (\<lambda>v. (d, 0 # v)) vs) = map (Pair d) (all_pairs vs)"
  by (induction vs) (simp_all add: wire_def)

lemma wire_append: "wire (rs @ ss) = wire rs @ wire ss"
  by (simp add: wire_def)

definition devices_sent :: "iocards \<Rightarrow> nat \<Rightarrow> int \<times> iocards \<Rightarrow> bool" where
  "devices_sent st n = (\<lambda>(result, s).
     result = 0 \<and> iocard s = iocard st \<and> initial s = initial st \<and> length (device s) = MAXDEVICES \<and>
     (\<forall>k < MAXDEVICES. (ready_card st k \<longrightarrow> writable_device 8 (device s ! k)) \<and>
        (\<not> ready_card st k \<longrightarrow> device s ! k = device st ! k)) \<and>
     (\<exists>rs. hid_written s = hid_written st @ rs \<and> wire rs = concat (map (device_due st) [0..<n]) \<and>
        (\<forall>r \<in> set rs. full_report r)))"

lemma send_device_run:
  assumes c: "device_ok c" and r: "ready k st" and a: "accepts hid_write"
  shows "\<exists>vs st'. for_until [0..<nat (ncards c)] (send_card hid_write (int k) c) (0, st) = Some (0, st') \<and>
    sent k vs st st' \<and> all_pairs vs = due c \<and> (\<forall>v \<in> set vs. pairs_of v \<noteq> [])"
proof -
  define P where "P n s \<longleftrightarrow> fst s = 0 \<and> (\<exists>vs. sent k vs st (snd s) \<and>
    all_pairs vs = concat (map (due_card c) [0..<n]) \<and> (\<forall>v \<in> set vs. pairs_of v \<noteq> []))" for n and s :: "int \<times> iocards"
  have "P 0 (0, st)" unfolding P_def using sent_none [OF r] by (auto intro!: exI [of _ "[]"])
  moreover have "\<exists>t. send_card hid_write (int k) c n s = Some (t, False) \<and> P (Suc n) t"
    if n: "n < nat (ncards c)" and p: "P n s" for n s
  proof -
    from p obtain vs st1 where s: "s = (0, st1)" "sent k vs st st1" "all_pairs vs = concat (map (due_card c) [0..<n])"
      "\<forall>v \<in> set vs. pairs_of v \<noteq> []" unfolding P_def by (cases s) auto
    have "n < 4" using n device_okD(2) [OF c] by linarith
    from send_card_run [OF c this sent_ready [OF s(2) r] a] obtain ws st2 where
      w: "send_card hid_write (int k) c n (0, st1) = Some ((0, st2), False)" "sent k ws st1 st2"
        "all_pairs ws = due_card c n" "\<forall>v \<in> set ws. pairs_of v \<noteq> []" by blast
    have "P (Suc n) (0, st2)"
      unfolding P_def using sent_trans [OF s(2) w(2)] s(3,4) w(3,4) by (auto intro!: exI [of _ "vs @ ws"])
    with w(1) s(1) show ?thesis by blast
  qed
  ultimately have "\<exists>t. for_until [0..<nat (ncards c)] (send_card hid_write (int k) c) (0, st) = Some t \<and>
      P (nat (ncards c)) t"
    by (rule for_until_steps)
  then show ?thesis unfolding P_def due_def by auto
qed

lemma devices_step:
  assumes ok: "\<forall>k < MAXDEVICES. ready_card st k \<longrightarrow> device_ok (iocard st ! k)"
    and l: "length (iocard st) = MAXDEVICES" and a: "accepts hid_write"
    and n: "n < MAXDEVICES" and s: "devices_sent st n s"
  shows "\<exists>t. (case s of (result, s) \<Rightarrow>
       do {
         c \<leftarrow> arr_get (iocard s) (int n);
         if is_mastercard c \<and> status c = 1
         then for_until [0..<nat (ncards c)] (send_card hid_write (int n) c) (result, s)
         else Some (result, s)
       }) = Some t \<and> devices_sent st (Suc n) t"
proof -
  obtain u where u: "s = (0, u)" "iocard u = iocard st" "length (device u) = 10" using s
    by (cases s) (auto simp: devices_sent_def)
  have g: "arr_get (iocard u) (int n) = Some (iocard st ! n)" using u(2) l n by (simp add: arr_get_int)
  show ?thesis
  proof (cases "ready_card st n")
    case False
    then have "devices_sent st (Suc n) (0, u)"
      using s u(1) by (simp add: devices_sent_def device_due_def)
    with False g u(1) show ?thesis by (auto simp: ready_card_def)
  next
    case True
    with s u(1,3) n have r: "ready n u" by (simp add: ready_def devices_sent_def)
    from True ok n have c: "device_ok (iocard st ! n)" by blast
    from send_device_run [OF c r a] obtain vs t where
      t: "for_until [0..<nat (ncards (iocard st ! n))] (send_card hid_write (int n) (iocard st ! n)) (0, u) = Some (0, t)"
        "sent n vs u t" "all_pairs vs = due (iocard st ! n)" "\<forall>v \<in> set vs. pairs_of v \<noteq> []" by blast
    from t(2) obtain d where d: "writable_device 8 d" "\<forall>v \<in> set vs. length v = 8"
      "t = u\<lparr>device := (device u)[n := d], hid_written := hid_written u @ map (\<lambda>v. (int n, 0 # v)) vs\<rparr>"
      unfolding sent_def by blast
    from s u(1) obtain rs where rs: "hid_written u = hid_written st @ rs"
      "wire rs = concat (map (device_due st) [0..<n])" "\<forall>r \<in> set rs. full_report r"
      by (auto simp: devices_sent_def)
    let ?rs = "rs @ map (\<lambda>v. (int n, 0 # v)) vs"
    have "wire ?rs = concat (map (device_due st) [0..<Suc n])"
      using rs(2) t(3) True by (simp add: wire_append wire_reports device_due_def)
    moreover have "\<forall>r \<in> set ?rs. full_report r" using rs(3) t(4) d(2) by (auto simp: full_report_def)
    moreover have "hid_written t = hid_written st @ ?rs" using d(3) rs(1) by simp
    ultimately have "\<exists>rs. hid_written t = hid_written st @ rs \<and> wire rs = concat (map (device_due st) [0..<Suc n]) \<and>
        (\<forall>r \<in> set rs. full_report r)" by blast
    moreover have "\<forall>k < MAXDEVICES. (ready_card st k \<longrightarrow> writable_device 8 (device t ! k)) \<and>
        (\<not> ready_card st k \<longrightarrow> device t ! k = device st ! k)"
      using s u(1) d(1,3) n u(3) True by (auto simp: devices_sent_def nth_list_update)
    ultimately have "devices_sent st (Suc n) (0, t)"
      using s u d(3) by (simp add: devices_sent_def)
    with True g u(1) t(1) show ?thesis by (auto simp: ready_card_def)
  qed
qed

lemma send_mastercard_run:
  assumes ok: "\<forall>k < MAXDEVICES. ready_card st k \<longrightarrow> device_ok (iocard st ! k) \<and> writable_device 8 (device st ! k)"
    and l: "length (iocard st) = MAXDEVICES" "length (device st) = MAXDEVICES" and a: "accepts hid_write"
  shows "\<exists>t. send_mastercard hid_write st = Some (0, t) \<and> devices_sent st MAXDEVICES (0, t)"
proof -
  have z: "devices_sent st 0 (0, st)" using ok l by (simp add: devices_sent_def wire_def)
  have ok': "\<forall>k < MAXDEVICES. ready_card st k \<longrightarrow> device_ok (iocard st ! k)" using ok by blast
  have "\<exists>t. send_mastercard hid_write st = Some t \<and> devices_sent st MAXDEVICES t"
    unfolding send_mastercard_def by (rule for_each_steps [OF z devices_step [OF ok' l(1) a]])
  then show ?thesis by (auto simp: devices_sent_def)
qed

text \<open>Nothing is due after the copy at the end of the cycle.\<close>

lemma due_copied:
  assumes c: "device_ok c" and s: "device_copied c s"
  shows "due s = []"
proof -
  note e = device_copied_same [OF s]
  have "due_card s i = []" if i: "i < nat (ncards c)" for i
  proof -
    have i': "i < 4" "int i < ncards c" using i device_okD(2) [OF c] by linarith+
    note old = device_copied_old [OF s i']
    have "due_segment s i g = []" for g
      using old(1) device_okD(8) [OF c] by (auto simp: due_segment_def segment_due_def e)
    moreover have "due_display s i k = []" if "k < nat (ndisplays c)" for k
      using old(2) [of k] that device_okD(10) [OF c] by (auto simp: due_display_def e)
    ultimately show ?thesis by (auto simp: due_card_def e)
  qed
  then show ?thesis by (auto simp: due_def e)
qed

text \<open>C28: One call of \<open>send_mastercard\<close> tells the cards exactly what has changed since the last copy: for every
  segment of eight outputs with a change its address and the states of all eight, and then every changed
  display, card by card and device by device, in reports of which none is empty. The table is not
  changed; and when \<open>copy_iocardsdata\<close> follows, the next call sends nothing.\<close>

theorem outputs_reach_cards:
  assumes l: "length (iocard st) = MAXDEVICES" "length (device st) = MAXDEVICES"
    and ok: "list_all device_ok (iocard st)"
    and wr: "\<forall>k < MAXDEVICES. ready_card st k \<longrightarrow> writable_device 8 (device st ! k)"
    and a: "accepts hid_write"
  shows "\<exists>st1 rs. send_mastercard hid_write st = Some (0, st1) \<and> iocard st1 = iocard st \<and>
      hid_written st1 = hid_written st @ rs \<and> wire rs = concat (map (device_due st) [0..<MAXDEVICES]) \<and>
      (\<forall>r \<in> set rs. full_report r) \<and>
      (\<exists>st2 st3. copy_iocardsdata st1 = Some st2 \<and> send_mastercard hid_write st2 = Some (0, st3) \<and>
        hid_written st3 = hid_written st1)"
proof -
  have okn: "\<forall>k < 10. device_ok (iocard st ! k)" using ok l(1) by (simp add: list_all_length)
  with wr have "\<forall>k < 10. ready_card st k \<longrightarrow> device_ok (iocard st ! k) \<and> writable_device 8 (device st ! k)" by blast
  from send_mastercard_run [OF this l a] obtain st1 where
    s1: "send_mastercard hid_write st = Some (0, st1)" "devices_sent st 10 (0, st1)" by blast
  then have i1: "iocard st1 = iocard st" "length (device st1) = 10" by (auto simp: devices_sent_def)
  from copy_iocardsdata_run [of st1] ok i1(1) obtain cs st2 where
    s2: "copy_iocardsdata st1 = Some st2" "iocard st2 = cs" "device st2 = device st1" "hid_written st2 = hid_written st1"
    "length cs = 10" "\<forall>k < 10. device_copied (iocard st ! k) (cs ! k)" using l(1) by auto
  have same: "ready_card st2 k = ready_card st k" if "k < 10" for k
    using device_copied_same(12,13) [of "iocard st ! k" "cs ! k"] s2(2,6) that
    by (simp add: ready_card_def is_mastercard_def)
  have "\<forall>k < 10. ready_card st2 k \<longrightarrow> device_ok (iocard st2 ! k) \<and> writable_device 8 (device st2 ! k)"
    using same s1(2) s2(2,3,6) device_copied_same(1) by (auto simp: devices_sent_def)
  from send_mastercard_run [OF this _ _ a] s2(2,3,5) i1(2) obtain st3 where
    s3: "send_mastercard hid_write st2 = Some (0, st3)" "devices_sent st2 10 (0, st3)" by auto
  have "device_due st2 k = []" if "k < 10" for k
    using due_copied [of "iocard st ! k" "cs ! k"] okn s2(2,6) that by (simp add: device_due_def)
  then have "concat (map (device_due st2) [0..<10]) = []" by simp
  with s3(2) obtain rs where rs: "hid_written st3 = hid_written st2 @ rs" "wire rs = []" "\<forall>r \<in> set rs. full_report r"
    by (auto simp: devices_sent_def)
  have "rs = []"
  proof (cases rs)
    case (Cons r rs')
    then show ?thesis using rs(2,3) by (cases r) (auto simp: wire_def full_report_def)
  qed simp
  with rs(1) s2(4) have "hid_written st3 = hid_written st1" by simp
  with s1 s2(1) s3(1) show ?thesis by (auto simp: devices_sent_def)
qed

end
