(* ===== verification/IocardsAccess.thy ===== *)
theory IocardsAccess
  imports Iocards
begin

text \<open>
  The functions of \<open>xpusb/src/libiocards.c\<close> by which the panel code reads inputs, encoders, axes
  and keys, and sets outputs, displays, servos and motors. A value that the panel code passes by
  pointer is an \<open>option\<close>, with \<open>None\<close> for \<open>NULL\<close>; a \<open>float\<close> is an \<open>fpval\<close>; the time of day is an
  argument. The number of the device is not checked by the code.
\<close>

section \<open>A call on a device\<close>

text \<open>
  The tests of the pointer, and of the kind and the status of the device: \<open>NULL\<close> gives 0, a failed
  test \<open>-1\<close>. \<open>body\<close> gives the return value, the new value and the changed device.
\<close>

definition on_device ::
  "(iocard_struct \<Rightarrow> bool) \<Rightarrow> int \<Rightarrow> 'v option \<Rightarrow>
   ('v \<Rightarrow> iocard_struct \<Rightarrow> (int \<times> 'v \<times> iocard_struct) option) \<Rightarrow>
   iocards \<Rightarrow> (int \<times> 'v option \<times> iocards) option" where
  "on_device kind dev value body st =
     (case value of
        None \<Rightarrow> Some (0, None, st)
      | Some v \<Rightarrow>
          do {
            c \<leftarrow> arr_get (iocard st) dev;
            if kind c \<and> status c = 1 then
              do {
                (retval, v, c) \<leftarrow> body v c;
                cs \<leftarrow> arr_set (iocard st) dev c;
                Some (retval, Some v, st\<lparr>iocard := cs\<rparr>)
              }
            else Some (-1, Some v, st)
          })"

definition has_inputs :: "iocard_struct \<Rightarrow> bool" where
  "has_inputs c \<longleftrightarrow> is_mastercard c \<or> is_bu0836 c"

section \<open>Outputs\<close>

text \<open>
  The outputs of a MASTERCARD are numbered from 11 on. The upper bound is one too high: the number
  behind the last output is let through.
\<close>

definition first_output :: "iocard_struct \<Rightarrow> int" where
  "first_output c = (if is_mastercard c then 11 else 0)"

definition output_body :: "int \<Rightarrow> int \<Rightarrow> int \<Rightarrow> iocard_struct \<Rightarrow> (int \<times> int \<times> iocard_struct) option" where
  "output_body cardno i value c =
     (if value \<noteq> INT_MISS then
        (if cardno \<ge> 0 \<and> cardno < ncards c then
           (if i \<ge> first_output c \<and> i \<le> first_output c + noutputs c then
              (if value \<ge> 0 then
                 do {
                   outs \<leftarrow> arr_set2 (outputs c) cardno (i - first_output c) (if value \<ge> 1 then 1 else 0);
                   Some (0, value, c\<lparr>outputs := outs\<rparr>)
                 }
               else Some (-1, value, c))
            else Some (-1, value, c))
         else Some (-1, value, c))
      else Some (0, value, c))"

definition digital_output ::
  "int \<Rightarrow> int \<Rightarrow> int \<Rightarrow> int option \<Rightarrow> iocards \<Rightarrow> (int \<times> int option \<times> iocards) option" where
  "digital_output dev cardno i value =
     on_device (\<lambda>c. is_mastercard c \<or> is_motors c) dev value (output_body cardno i)"

text \<open>The \<open>double\<close> nearest to \<open>0.025\<close>.\<close>

definition threshold_0025 :: fpval where
  "threshold_0025 = Fin 7205759403792794 (- 58)"

definition digital_outputf ::
  "int \<Rightarrow> int \<Rightarrow> int \<Rightarrow> fpval option \<Rightarrow> iocards \<Rightarrow> (int \<times> iocards) option" where
  "digital_outputf dev cardno i fvalue st =
     do {
       f \<leftarrow> fvalue;
       let value = (if fp_is_miss f then INT_MISS else if fp_le threshold_0025 f then 1 else 0);
       (ret, _, st) \<leftarrow> digital_output dev cardno i (Some value) st;
       Some (ret, st)
     }"

section \<open>Inputs\<close>

text \<open>The three types: pushbutton, toggle switch, and pushbutton of which only a press is reported.\<close>

definition input_value :: "int \<Rightarrow> int \<Rightarrow> int \<Rightarrow> int \<Rightarrow> int \<times> int" where
  "input_value type old new value =
     (if type = 0 then (if old \<noteq> new then 1 else 0, new)
      else if type = 1 then
        (if old = 0 \<and> new = 1 then
           (if value \<noteq> INT_MISS \<and> (value = 0 \<or> value = 1) then (1, 1 - value) else (0, value))
         else (0, value))
      else if type = 2 then (if old = 0 \<and> new = 1 then (1, new) else (0, value))
      else (0, value))"

definition input_body ::
  "int \<Rightarrow> int \<Rightarrow> int \<Rightarrow> int \<Rightarrow> iocard_struct \<Rightarrow> (int \<times> int \<times> iocard_struct) option" where
  "input_body cardno i type value c =
     (if cardno \<ge> 0 \<and> cardno < ncards c then
        (if i \<ge> 0 \<and> i < ninputs c then
           do {
             reads \<leftarrow> arr_set2 (inputs_read c) cardno i 1;
             old \<leftarrow> arr_get2 (inputs_old c) cardno i;
             new \<leftarrow> arr_get2 (inputs c) cardno i;
             let (retval, value) = input_value type old new value;
             Some (retval, value, c\<lparr>inputs_read := reads\<rparr>)
           }
         else Some (-1, value, c))
      else Some (-1, value, c))"

definition digital_input ::
  "int \<Rightarrow> int \<Rightarrow> int \<Rightarrow> int option \<Rightarrow> int \<Rightarrow> iocards \<Rightarrow> (int \<times> int option \<times> iocards) option" where
  "digital_input dev cardno i value type = on_device has_inputs dev value (input_body cardno i type)"

definition digital_inputf ::
  "int \<Rightarrow> int \<Rightarrow> int \<Rightarrow> fpval option \<Rightarrow> int \<Rightarrow> iocards \<Rightarrow> (int \<times> fpval option \<times> iocards) option" where
  "digital_inputf dev cardno i fvalue type st =
     do {
       f \<leftarrow> fvalue;
       let value = (if \<not> fp_is_miss f then fp_lround f else INT_MISS);
       (ret, value, st) \<leftarrow> digital_input dev cardno i (Some value) type st;
       v \<leftarrow> value;
       Some (ret, Some (if v \<noteq> INT_MISS then fp_of_int 23 8 v else f), st)
     }"

text \<open>A key is reported once: reading it resets it.\<close>

definition keys_input :: "int \<Rightarrow> int \<Rightarrow> iocards \<Rightarrow> (int \<times> iocards) option" where
  "keys_input dev key st =
     do {
       c \<leftarrow> arr_get (iocard st) dev;
       if is_keys c \<and> status c = 1 then
         (if key \<ge> 0 \<and> key < ninputs c then
            do {
              v \<leftarrow> arr_get2 (inputs c) 0 key;
              if v = 1 then
                do {
                  ins \<leftarrow> arr_set2 (inputs c) 0 key 0;
                  cs \<leftarrow> arr_set (iocard st) dev (c\<lparr>inputs := ins\<rparr>);
                  Some (1, st\<lparr>iocard := cs\<rparr>)
                }
              else Some (0, st)
            }
          else Some (-1, st))
       else Some (-1, st)
     }"

section \<open>Encoders\<close>

text \<open>\<open>mintime\<close> and \<open>maxtime\<close>, the \<open>double\<close> values nearest to 0.01 and 0.05.\<close>

definition mintime :: fpval where "mintime = Fin 5764607523034235 (- 59)"
definition maxtime :: fpval where "maxtime = Fin 7205759403792794 (- 57)"

definition enc_elapsed :: "int \<times> int \<Rightarrow> int \<times> int \<Rightarrow> fpval" where
  "enc_elapsed t1 t2 =
     fp_neg (fp_add 52 11 (fp_of_int 52 11 (fst t2 - fst t1))
       (fp_div 52 11 (fp_of_int 52 11 (snd t2 - snd t1)) (Fin 1000000 0)))"

text \<open>
  The factor by which a step of an encoder counts: the more, the faster it is turned; 0 for a step
  so soon after the last one that it must be a bouncing contact.
\<close>

definition get_acceleration ::
  "int \<times> int \<Rightarrow> int \<Rightarrow> int \<Rightarrow> int \<Rightarrow> iocard_struct \<Rightarrow> (int \<times> iocard_struct) option" where
  "get_acceleration t1 cardno i accelerator c =
     do {
       t2 \<leftarrow> arr_get2 (time_enc c) cardno i;
       let dt = enc_elapsed t1 t2;
       if fp_less mintime dt then
         do {
           let a = fp_of_int 23 8
             (1 + fp_trunc (fp_mul 52 11 (fp_div 52 11 maxtime dt) (fp_of_int 23 8 accelerator)));
           times \<leftarrow> arr_set2 (time_enc c) cardno i t1;
           Some (fp_trunc a, c\<lparr>time_enc := times\<rparr>)
         }
       else Some (0, c)
     }"

text \<open>
  The direction of the four types of encoders, from the old and the new states of the inputs, or 0.
  Type 0 is a rotary switch on three inputs.
\<close>

definition rotary_updown :: "int \<Rightarrow> int \<Rightarrow> int" where
  "rotary_updown oldcount newcount =
     (let updown = (if newcount > oldcount then 1 else -1);
          updown = (if oldcount = 3 \<and> newcount = 1 then 1 else updown)
      in if oldcount = 1 \<and> newcount = 3 then -1 else updown)"

definition gray_updown :: "int \<Rightarrow> int \<Rightarrow> int" where
  "gray_updown oldcount newcount =
     (let forward = (oldcount = 0 \<and> newcount = 1) \<or> (oldcount = 1 \<and> newcount = 3) \<or>
            (oldcount = 3 \<and> newcount = 2) \<or> (oldcount = 2 \<and> newcount = 0);
          backward = (oldcount = 2 \<and> newcount = 3) \<or> (oldcount = 3 \<and> newcount = 1) \<or>
            (oldcount = 1 \<and> newcount = 0) \<or> (oldcount = 0 \<and> newcount = 2)
      in if backward then -1 else if forward then 1 else 0)"

definition optical_updown :: "int \<times> int \<Rightarrow> int \<times> int \<Rightarrow> int" where
  "optical_updown obs nbs =
     (if obs = (0, 1) \<and> nbs = (0, 0) then -1
      else if obs = (0, 1) \<and> nbs = (1, 1) then 1
      else if obs = (1, 0) \<and> nbs = (1, 1) then -1
      else if obs = (1, 0) \<and> nbs = (0, 0) then 1
      else 0)"

definition two_bit_updown :: "int \<Rightarrow> int \<times> int \<Rightarrow> int \<times> int \<Rightarrow> int" where
  "two_bit_updown type obs nbs =
     (if type = 1 then (if snd nbs = 1 then 1 else -1)
      else if type = 2 then
        gray_updown (wrap32 (fst obs + 2 * snd obs)) (wrap32 (fst nbs + 2 * snd nbs))
      else if type = 3 then optical_updown obs nbs
      else 0)"

definition count_step ::
  "int \<times> int \<Rightarrow> int \<Rightarrow> int \<Rightarrow> int \<Rightarrow> fpval \<Rightarrow> int \<Rightarrow> fpval \<Rightarrow> iocard_struct \<Rightarrow>
   (int \<times> fpval \<times> iocard_struct) option" where
  "count_step now cardno i accelerator multiplier updown v c =
     (if updown \<noteq> 0 then
        do {
          (a, c) \<leftarrow> get_acceleration now cardno i accelerator c;
          Some (1, fp_add 23 8 v (fp_mul 23 8 (fp_of_int 23 8 (wrap32 (updown * a))) multiplier), c)
        }
      else Some (0, v, c))"

definition read_mark :: "int \<Rightarrow> int \<Rightarrow> iocard_struct \<Rightarrow> iocard_struct option" where
  "read_mark cardno i c =
     do { reads \<leftarrow> arr_set2 (inputs_read c) cardno i 1; Some (c\<lparr>inputs_read := reads\<rparr>) }"

text \<open>Three inputs of 0 are the moment between two positions of the switch: the old state is kept.\<close>

definition rotary_body ::
  "int \<times> int \<Rightarrow> int \<Rightarrow> int \<Rightarrow> int \<Rightarrow> fpval \<Rightarrow> fpval \<Rightarrow> iocard_struct \<Rightarrow>
   (int \<times> fpval \<times> iocard_struct) option" where
  "rotary_body now cardno i accelerator multiplier v c =
     do {
       n0 \<leftarrow> arr_get2 (inputs c) cardno i;
       n1 \<leftarrow> arr_get2 (inputs c) cardno (i + 1);
       n2 \<leftarrow> arr_get2 (inputs c) cardno (i + 2);
       o0 \<leftarrow> arr_get2 (inputs_old c) cardno i;
       o1 \<leftarrow> arr_get2 (inputs_old c) cardno (i + 1);
       o2 \<leftarrow> arr_get2 (inputs_old c) cardno (i + 2);
       if wrap32 (wrap32 (n0 + n1) + n2) = 0 then
         do {
           ins \<leftarrow> arr_set2 (inputs c) cardno i o0;
           ins \<leftarrow> arr_set2 ins cardno (i + 1) o1;
           ins \<leftarrow> arr_set2 ins cardno (i + 2) o2;
           Some (0, v, c\<lparr>inputs := ins\<rparr>)
         }
       else if (n0 \<noteq> o0 \<or> n1 \<noteq> o1 \<or> n2 \<noteq> o2) \<and> o0 \<noteq> INITVAL \<and> o1 \<noteq> INITVAL \<and> o2 \<noteq> INITVAL then
         count_step now cardno i accelerator multiplier
           (rotary_updown (wrap32 (o0 + o1 * 2 + o2 * 3)) (wrap32 (n0 + n1 * 2 + n2 * 3))) v c
       else Some (0, v, c)
     }"

definition two_bit_body ::
  "int \<times> int \<Rightarrow> int \<Rightarrow> int \<Rightarrow> int \<Rightarrow> fpval \<Rightarrow> int \<Rightarrow> fpval \<Rightarrow> iocard_struct \<Rightarrow>
   (int \<times> fpval \<times> iocard_struct) option" where
  "two_bit_body now cardno i accelerator multiplier type v c =
     do {
       n0 \<leftarrow> arr_get2 (inputs c) cardno i;
       n1 \<leftarrow> arr_get2 (inputs c) cardno (i + 1);
       o0 \<leftarrow> arr_get2 (inputs_old c) cardno i;
       o1 \<leftarrow> arr_get2 (inputs_old c) cardno (i + 1);
       if (n0 \<noteq> o0 \<or> n1 \<noteq> o1) \<and> o0 \<noteq> INITVAL \<and> o1 \<noteq> INITVAL then
         count_step now cardno i accelerator multiplier (two_bit_updown type (o0, o1) (n0, n1)) v c
       else Some (0, v, c)
     }"

definition encoder_body ::
  "int \<times> int \<Rightarrow> int \<Rightarrow> int \<Rightarrow> fpval \<Rightarrow> int \<Rightarrow> int \<Rightarrow> fpval \<Rightarrow> iocard_struct \<Rightarrow>
   (int \<times> fpval \<times> iocard_struct) option" where
  "encoder_body now cardno i multiplier accelerator type v c =
     do {
       (retval, v, c) \<leftarrow>
         (if cardno \<ge> 0 \<and> cardno < ncards c then
            (if \<not> fp_is_miss v then
               (if i \<ge> 0 \<and> i < ninputs c - 2 \<and> type = 0 \<or> i \<ge> 0 \<and> i < ninputs c - 1 \<and> type > 0 then
                  do {
                    c \<leftarrow> read_mark cardno i c;
                    c \<leftarrow> read_mark cardno (i + 1) c;
                    c \<leftarrow> (if type = 0 then read_mark cardno (i + 2) c else Some c);
                    if type = 0 then rotary_body now cardno i accelerator multiplier v c
                    else if type \<le> 3 then two_bit_body now cardno i accelerator multiplier type v c
                    else Some (0, v, c)
                  }
                else Some (-1, v, c))
             else Some (0, v, c))
          else Some (-1, v, c));
       Some (if type < 0 \<or> type > 3 then -1 else retval, v, c)
     }"

definition mastercard_encoder ::
  "int \<Rightarrow> int \<Rightarrow> int \<Rightarrow> fpval option \<Rightarrow> fpval \<Rightarrow> int \<Rightarrow> int \<Rightarrow> int \<times> int \<Rightarrow> iocards \<Rightarrow>
   (int \<times> fpval option \<times> iocards) option" where
  "mastercard_encoder dev cardno i value multiplier accelerator type now =
     on_device has_inputs dev value (encoder_body now cardno i multiplier accelerator type)"

section \<open>Axes\<close>

text \<open>\<open>((float) x) / (float) pow(2,nbits) * (maxval - minval) + minval\<close>.\<close>

definition axis_value :: "int \<Rightarrow> int \<Rightarrow> fpval \<Rightarrow> fpval \<Rightarrow> fpval" where
  "axis_value bits x minval maxval =
     fp_add 23 8
       (fp_mul 23 8 (fp_div 23 8 (fp_of_int 23 8 x) (fp_to 23 8 (Fin 1 bits))) (fp_sub 23 8 maxval minval))
       minval"

definition axis_body ::
  "int \<Rightarrow> fpval \<Rightarrow> fpval \<Rightarrow> fpval \<Rightarrow> iocard_struct \<Rightarrow> (int \<times> fpval \<times> iocard_struct) option" where
  "axis_body i minval maxval v c =
     (if i \<ge> 0 \<and> i < naxes c then
        do {
          old \<leftarrow> arr_get (axes_old c) i;
          x \<leftarrow> arr_get (axes c) i;
          if old \<noteq> x then Some (1, axis_value (nbits c) x minval maxval, c)
          else if x \<noteq> INITVAL then Some (0, axis_value (nbits c) x minval maxval, c)
          else Some (0, v, c)
        }
      else Some (-1, v, c))"

definition axis_input ::
  "int \<Rightarrow> int \<Rightarrow> fpval option \<Rightarrow> fpval \<Rightarrow> fpval \<Rightarrow> iocards \<Rightarrow> (int \<times> fpval option \<times> iocards) option" where
  "axis_input dev i value minval maxval =
     on_device (\<lambda>c. is_mastercard c \<or> is_servos c \<or> is_motors c \<or> is_bu0836 c) dev value
       (axis_body i minval maxval)"

section \<open>Servos and motors\<close>

text \<open>Here the device is tested before the pointer.\<close>

definition servo_data :: "fpval \<Rightarrow> fpval \<Rightarrow> fpval \<Rightarrow> int \<Rightarrow> int \<Rightarrow> int" where
  "servo_data v minval maxval servominval servomaxval =
     (let x = fp_div 23 8 (fp_sub 23 8 v minval) (fp_sub 23 8 maxval minval);
          data = fp_trunc (fp_add 23 8
            (fp_mul 23 8 x (fp_of_int 23 8 (wrap32 (servomaxval - servominval))))
            (fp_of_int 23 8 servominval));
          data = (if data < SERVOMIN then SERVOPARK else data)
      in if data > SERVOMAX then SERVOPARK else data)"

definition servos_output ::
  "int \<Rightarrow> int \<Rightarrow> fpval option \<Rightarrow> fpval \<Rightarrow> fpval \<Rightarrow> int \<Rightarrow> int \<Rightarrow> iocards \<Rightarrow> (int \<times> iocards) option" where
  "servos_output dev servo value minval maxval servominval servomaxval st =
     do {
       c \<leftarrow> arr_get (iocard st) dev;
       if (is_servos c \<or> is_motors c) \<and> status c = 1 then
         (case value of
            None \<Rightarrow> Some (0, st)
          | Some v \<Rightarrow>
              if servo \<ge> 0 \<and> servo < nservos c then
                (if \<not> fp_is_miss v then
                   do {
                     let data = servo_data v minval maxval servominval servomaxval;
                     ss \<leftarrow> arr_set (servos c) servo data;
                     cs \<leftarrow> arr_set (iocard st) dev (c\<lparr>servos := ss\<rparr>);
                     Some (0, st\<lparr>iocard := cs\<rparr>)
                   }
                 else Some (0, st))
              else Some (-1, st))
       else Some (-1, st)
     }"

definition motor_data :: "fpval \<Rightarrow> fpval \<Rightarrow> int" where
  "motor_data v speed =
     (let eps = Fin 1 (- 23); motor_range = 127 in
      if fp_less v (fp_sub 23 8 (fp_neg speed) eps) \<or> fp_less (fp_add 23 8 speed eps) v \<or>
         fp_less (if fp_less v (Fin 0 0) then fp_neg v else v) eps
      then MOTORPARK
      else if fp_less (Fin 0 0) v
      then fp_trunc (fp_div 23 8 (fp_mul 23 8 v (fp_of_int 23 8 motor_range)) speed)
      else wrap32 (fp_trunc (fp_div 52 11 (fp_mul 52 11 (fp_neg v) (fp_of_int 23 8 motor_range)) speed)
             + motor_range + 1))"

definition motors_output ::
  "int \<Rightarrow> int \<Rightarrow> fpval option \<Rightarrow> fpval \<Rightarrow> iocards \<Rightarrow> (int \<times> iocards) option" where
  "motors_output dev motor value speed st =
     do {
       c \<leftarrow> arr_get (iocard st) dev;
       if is_motors c \<and> status c = 1 then
         (case value of
            None \<Rightarrow> Some (0, st)
          | Some v \<Rightarrow>
              if motor \<ge> 0 \<and> motor < nmotors c then
                (if \<not> fp_is_miss v then
                   do {
                     ms \<leftarrow> arr_set (motors c) motor (motor_data v speed);
                     cs \<leftarrow> arr_set (iocard st) dev (c\<lparr>motors := ms\<rparr>);
                     Some (0, st\<lparr>iocard := cs\<rparr>)
                   }
                 else Some (0, st))
              else Some (-1, st))
       else Some (-1, st)
     }"

section \<open>Displays\<close>

text \<open>The codes of the displays for the special values.\<close>

definition special_code :: "int \<Rightarrow> int option" where
  "special_code v =
     (if v = 10 then Some 0x0a else if v = 11 then Some 0xf8 else if v = 12 then Some 0xf9
      else if v = 13 then Some 0xfa else if v = 14 then Some 0xfb else if v = 15 then Some 0xfc
      else if 20 \<le> v \<and> v \<le> 50 then Some (v - 20) else None)"

definition show_at :: "int \<Rightarrow> int \<Rightarrow> int \<Rightarrow> iocard_struct \<Rightarrow> iocard_struct option" where
  "show_at cardno i v c =
     do { ds \<leftarrow> arr_set2 (displays c) cardno i v; Some (c\<lparr>displays := ds\<rparr>) }"

definition show_special :: "int \<Rightarrow> int \<Rightarrow> int \<Rightarrow> int \<Rightarrow> iocard_struct \<Rightarrow> iocard_struct option" where
  "show_special cardno pos n v =
     for_each (rev [0..<nat n]) (\<lambda>k c.
       case special_code v of
         Some code \<Rightarrow> show_at cardno (int k + pos) code c
       | None \<Rightarrow> Some c)"

text \<open>
  \<open>(int) roundf(pow(10,k))\<close>: out of the range of \<open>int\<close> from \<open>10 ^ 10\<close> on, and 0 for negative \<open>k\<close>.
\<close>

definition power_of_ten :: "int \<Rightarrow> int" where
  "power_of_ten k = (if k < 0 then 0 else if k > 9 then - 2147483648 else 10 ^ nat k)"

text \<open>A division by 0 is undefined, and so is \<open>INT_MIN / -1\<close>, which cannot occur here.\<close>

definition div_int :: "int \<Rightarrow> int \<Rightarrow> int option" where
  "div_int a b = (if b = 0 then None else Some (a sdiv b))"

text \<open>The digits from the left; leading zeros are blank, and \<open>firstpos\<close> is the first other digit.\<close>

definition show_digit ::
  "int \<Rightarrow> int \<Rightarrow> nat \<Rightarrow> int \<times> int \<times> iocard_struct \<Rightarrow> (int \<times> int \<times> iocard_struct) option" where
  "show_digit cardno pos k = (\<lambda>(tempval, firstpos, c).
     do {
       let power = power_of_ten (int k);
       single \<leftarrow> div_int tempval power;
       let tempval = wrap32 (tempval - wrap32 (single * power));
       if firstpos < 0 \<and> single = 0 \<and> k \<noteq> 0 then
         do { c \<leftarrow> show_at cardno (int k + pos) 0x0a c; Some (tempval, firstpos, c) }
       else
         do {
           let firstpos = (if firstpos < 0 then int k else firstpos);
           c \<leftarrow> show_at cardno (int k + pos) single c;
           Some (tempval, firstpos, c)
         }
     })"

definition show_number :: "int \<Rightarrow> int \<Rightarrow> int \<Rightarrow> int \<Rightarrow> iocard_struct \<Rightarrow> iocard_struct option" where
  "show_number cardno pos nt value c =
     do {
       let negative = (value < 0);
       let tempval = (if negative then wrap32 (- value) else value);
       let power = power_of_ten nt;
       tempval \<leftarrow>
         (if tempval \<ge> power then
            do { q \<leftarrow> div_int tempval power; Some (wrap32 (tempval - wrap32 (q * power))) }
          else Some tempval);
       (_, firstpos, c) \<leftarrow> for_each (rev [0..<nat nt]) (show_digit cardno pos) (tempval, -1, c);
       if firstpos \<noteq> nt - 1 \<and> negative then show_at cardno (pos + firstpos + 1) 0xf8 c else Some c
     }"

definition display_body ::
  "int \<Rightarrow> int \<Rightarrow> int \<Rightarrow> int \<Rightarrow> int \<Rightarrow> iocard_struct \<Rightarrow> (int \<times> int \<times> iocard_struct) option" where
  "display_body cardno pos n hasspecial value c =
     (if cardno \<ge> 0 \<and> cardno < ncards c then
        (if pos \<ge> 0 \<and> wrap32 (pos + n) \<le> ndisplays c then
           (if value \<noteq> INT_MISS then
              do {
                c \<leftarrow> (if hasspecial \<noteq> 0 then show_special cardno pos n value c
                     else show_number cardno pos n value c);
                Some (0, value, c)
              }
            else Some (0, value, c))
         else Some (-1, value, c))
      else Some (-1, value, c))"

definition mastercard_display ::
  "int \<Rightarrow> int \<Rightarrow> int \<Rightarrow> int \<Rightarrow> int option \<Rightarrow> int \<Rightarrow> iocards \<Rightarrow> (int \<times> int option \<times> iocards) option" where
  "mastercard_display dev cardno pos n value hasspecial =
     on_device is_mastercard dev value (display_body cardno pos n hasspecial)"

definition mastercard_displayf ::
  "int \<Rightarrow> int \<Rightarrow> int \<Rightarrow> int \<Rightarrow> fpval option \<Rightarrow> int \<Rightarrow> iocards \<Rightarrow> (int \<times> iocards) option" where
  "mastercard_displayf dev cardno pos n fvalue hasspecial st =
     do {
       f \<leftarrow> fvalue;
       let value = (if \<not> fp_is_miss f then fp_lround f else INT_MISS);
       (ret, _, st) \<leftarrow> mastercard_display dev cardno pos n (Some value) hasspecial st;
       Some (ret, st)
     }"

end
