(* ===== verification/IocardsDisplay.thy ===== *)
theory IocardsDisplay
  imports IocardsTable IocardsAccess
begin

text \<open>
  What a row of displays of a MASTERCARD shows after \<open>mastercard_display\<close>: the codes that are stored
  for the cards, and the number that a person reads from them.
\<close>

section \<open>The digits\<close>

text \<open>The code at position \<open>k\<close>, from the right, before the sign is set: a digit or a blank.\<close>

definition digit_code :: "int \<Rightarrow> nat \<Rightarrow> int" where
  "digit_code t k = (if k = 0 \<or> t div 10 ^ k \<noteq> 0 then t div 10 ^ k mod 10 else 0x0a)"

lemma digit_code_range: "within 0 252 (digit_code t k)"
  using pos_mod_bound [of 10 "t div 10 ^ k"] by (simp add: digit_code_def within_def del: pos_mod_bound)

lemma show_at_run:
  assumes c: "device_ok c" and i: "i < 4" and k: "k < 64" and v: "within 0 252 v"
  shows "show_at (int i) (int k) v c = Some (c\<lparr>displays := upd2 (displays c) i k v\<rparr>)"
    and "device_ok (c\<lparr>displays := upd2 (displays c) i k v\<rparr>)"
proof -
  have b: "0 \<le> int i" "int i < int 4" "0 \<le> int k" "int k < int 64" using i k by simp_all
  from arr_ok_set2 [OF device_ok_arrays(9) [OF c] b v]
  show "show_at (int i) (int k) v c = Some (c\<lparr>displays := upd2 (displays c) i k v\<rparr>)"
    and "device_ok (c\<lparr>displays := upd2 (displays c) i k v\<rparr>)"
    using device_ok_outputs(3) [OF c] by (simp_all add: show_at_def)
qed

lemma display_nth:
  assumes "device_ok c" and "i < 4" and "k < 64" and "j < 4"
  shows "upd2 (displays c) i k v ! j ! h = (if j = i \<and> h = k then v else displays c ! j ! h)"
  using arr_ok_length [OF device_ok_arrays(9) [OF assms(1)]]
    arr_ok_length [OF arr_ok_nth [OF device_ok_arrays(9) [OF assms(1)] assms(2)]] assms(2,3)
  by (simp add: upd2_nth)

text \<open>The first digit that is not blank, and what the loop over the digits does.\<close>

definition is_first :: "int \<Rightarrow> nat \<Rightarrow> bool" where
  "is_first t f \<longleftrightarrow> (f = 0 \<or> t div 10 ^ f \<noteq> 0) \<and> t div 10 ^ Suc f = 0"

lemma mod_power_Suc:
  fixes t :: int
  shows "t mod 10 ^ Suc m div 10 ^ m = t div 10 ^ m mod 10"
    and "t mod 10 ^ Suc m - (t div 10 ^ m mod 10) * 10 ^ m = t mod 10 ^ m"
proof -
  have e: "t mod 10 ^ Suc m = 10 ^ m * (t div 10 ^ m mod 10) + t mod 10 ^ m"
    using zmod_zmult2_eq [of 10 t "10 ^ m"] by (simp add: mult.commute)
  then show "t mod 10 ^ Suc m - (t div 10 ^ m mod 10) * 10 ^ m = t mod 10 ^ m"
    by simp
  show "t mod 10 ^ Suc m div 10 ^ m = t div 10 ^ m mod 10"
    unfolding e by (simp add: div_add_self1)
qed

lemma div_power_Suc: "(t::int) div 10 ^ Suc m = t div 10 ^ m div 10"
  using zdiv_zmult2_eq [of 10 t "10 ^ m"] by (simp add: mult.commute)

lemma leading_digit:
  assumes "0 \<le> (t::int)" and "t div 10 ^ Suc m = 0"
  shows "0 \<le> t div 10 ^ m" "t div 10 ^ m < 10" "t div 10 ^ m mod 10 = t div 10 ^ m"
proof -
  show x: "0 \<le> t div 10 ^ m" using assms(1) by (simp add: pos_imp_zdiv_nonneg_iff)
  with assms(2) show "t div 10 ^ m < 10" unfolding div_power_Suc by presburger
  with x show "t div 10 ^ m mod 10 = t div 10 ^ m" by simp
qed

lemma small_power: "m \<le> 9 \<Longrightarrow> (10::int) ^ m \<le> 1000000000"
  using power_10_mono [of m 9] by simp

lemma show_digit_run:
  assumes c: "device_ok c" and i: "i < 4" and p: "p + m < 64" and m: "m < 9" and t: "0 \<le> t"
    and f: "f < 0 \<longleftrightarrow> t div 10 ^ Suc m = 0"
  shows "show_digit (int i) (int p) m (t mod 10 ^ Suc m, f, c) =
      Some (t mod 10 ^ m, if f < 0 \<and> digit_code t m \<noteq> 0x0a then int m else f,
        c\<lparr>displays := upd2 (displays c) i (p + m) (digit_code t m)\<rparr>)"
proof -
  have pw: "power_of_ten (int m) = 10 ^ m" "(10::int) ^ Suc m \<le> 1000000000" "0 < (10::int) ^ m"
    using m small_power [of "Suc m"] by (simp_all add: power_of_ten_def)
  define u where "u = t mod 10 ^ Suc m"
  define d where "d = t div 10 ^ m mod 10"
  have "u < 10 ^ Suc m" unfolding u_def by (rule pos_mod_bound) simp
  with pw(2) have u: "0 \<le> u" "u < 1000000000" unfolding u_def by (simp, linarith)
  have d: "0 \<le> d" "d < 10" by (simp_all add: d_def)
  have s: "div_int u (10 ^ m) = Some d"
    using mod_power_Suc(1) [of t m] sdiv_nonneg [OF u(1) pw(3)] by (simp add: div_int_def u_def d_def)
  have r: "u - d * 10 ^ m = t mod 10 ^ m" using mod_power_Suc(2) [of t m] by (simp add: u_def d_def)
  have "0 \<le> d * 10 ^ m" "d * 10 ^ m \<le> u"
    using d r pos_mod_sign [OF pw(3), of t] pw(3) by (simp, linarith)
  with u have w: "wrap32 (d * 10 ^ m) = d * 10 ^ m" "wrap32 (u - d * 10 ^ m) = t mod 10 ^ m"
    unfolding r [symmetric] by (simp_all add: in_i32_def)
  have top: "f < 0 \<Longrightarrow> d = t div 10 ^ m" using f leading_digit(3) [OF t] by (simp only: d_def)
  have "t div 10 ^ m = 0 \<Longrightarrow> t div 10 ^ Suc m = 0" by (simp only: div_power_Suc div_0)
  with f have nz: "\<not> f < 0 \<longrightarrow> t div 10 ^ m \<noteq> 0" by blast
  have k: "int m + int p = int (p + m)" by simp
  have b: "p + m < 64" using p by simp
  note w0 = show_at_run(1) [OF c i b digit_code_range, of t m]
  have blank: "f < 0 \<and> d = 0 \<and> m \<noteq> 0 \<longleftrightarrow> digit_code t m = 0x0a"
  proof (cases "f < 0")
    case True
    with top d show ?thesis by (auto simp: digit_code_def)
  next
    case False
    with nz d show ?thesis by (simp add: digit_code_def d_def [symmetric])
  qed
  have code: "\<not> (f < 0 \<and> d = 0 \<and> m \<noteq> 0) \<Longrightarrow> digit_code t m = d"
    using top nz by (auto simp: digit_code_def d_def)
  show ?thesis
  proof (cases "f < 0 \<and> d = 0 \<and> m \<noteq> 0")
    case True
    with blank have "digit_code t m = 0x0a" by blast
    with True w0 show ?thesis
      unfolding u_def [symmetric] show_digit_def split Let_def pw(1) s bind.bind_lunit w k
      by (simp del: of_nat_add)
  next
    case False
    from code [OF False] w0 have "show_at (int i) (int (p + m)) d c =
        Some (c\<lparr>displays := upd2 (displays c) i (p + m) (digit_code t m)\<rparr>)" by simp
    with False blank show ?thesis
      unfolding u_def [symmetric] show_digit_def split Let_def pw(1) s bind.bind_lunit w k
      by (auto simp del: of_nat_add)
  qed
qed


lemma show_digits_run:
  assumes c: "device_ok c" and i: "i < 4" and p: "p + m \<le> 64" and m: "m \<le> 9" and t: "0 \<le> t"
    and f: "f < 0 \<longleftrightarrow> t div 10 ^ m = 0"
  shows "\<exists>ds f'. for_each (rev [0..<m]) (show_digit (int i) (int p)) (t mod 10 ^ m, f, c) =
      Some (t mod 10 ^ 0, f', c\<lparr>displays := ds\<rparr>) \<and> device_ok (c\<lparr>displays := ds\<rparr>) \<and>
    (\<forall>j < 4. \<forall>k < 64. ds ! j ! k =
      (if j = i \<and> p \<le> k \<and> k < p + m then digit_code t (k - p) else displays c ! j ! k)) \<and>
    (if f < 0 \<and> 0 < m then 0 \<le> f' \<and> nat f' < m \<and> is_first t (nat f') else f' = f)"
  using c p m f
proof (induction m arbitrary: c f)
  case 0
  then show ?case by (intro exI [of _ "displays c"] exI [of _ f]) simp
next
  case (Suc m)
  let ?f = "if f < 0 \<and> digit_code t m \<noteq> 0x0a then int m else f"
  let ?c = "c\<lparr>displays := upd2 (displays c) i (p + m) (digit_code t m)\<rparr>"
  from Suc.prems have b: "p + m < 64" "m < 9" by simp_all
  note st = show_digit_run [OF Suc.prems(1) i b t Suc.prems(4)]
  have c1: "device_ok ?c" by (rule show_at_run(2) [OF Suc.prems(1) i b(1) digit_code_range])
  note top = leading_digit [OF t, of m]
  have f1: "?f < 0 \<longleftrightarrow> t div 10 ^ m = 0" if "m \<noteq> 0"
    using Suc.prems(4) that top unfolding div_power_Suc by (auto simp: digit_code_def)
  show ?case
  proof (cases "m = 0")
    case True
    with st top have e: "for_each (rev [0..<Suc m]) (show_digit (int i) (int p)) (t mod 10 ^ Suc m, f, c) =
        Some (t mod 10 ^ 0, ?f, ?c)" by simp
    have "digit_code t 0 \<noteq> 0x0a" using pos_mod_bound [of 10 t] by (simp add: digit_code_def del: pos_mod_bound)
    with Suc.prems(4) True have "if f < 0 \<and> 0 < Suc m then 0 \<le> ?f \<and> nat ?f < Suc m \<and> is_first t (nat ?f) else ?f = f"
      by (simp add: is_first_def)
    with e c1 True show ?thesis
      by (intro exI [of _ "upd2 (displays c) i (p + m) (digit_code t m)"] exI [of _ ?f])
        (auto simp: display_nth [OF Suc.prems(1) i b(1), unfolded True add_0_right])
  next
    case False
    from Suc.IH [OF c1 _ _ f1 [OF False]] Suc.prems(2,3) obtain ds f' where
      h: "for_each (rev [0..<m]) (show_digit (int i) (int p)) (t mod 10 ^ m, ?f, ?c) =
          Some (t mod 10 ^ 0, f', c\<lparr>displays := ds\<rparr>)" "device_ok (c\<lparr>displays := ds\<rparr>)"
        "\<forall>j < 4. \<forall>k < 64. ds ! j ! k =
          (if j = i \<and> p \<le> k \<and> k < p + m then digit_code t (k - p) else displays ?c ! j ! k)"
        "if ?f < 0 \<and> 0 < m then 0 \<le> f' \<and> nat f' < m \<and> is_first t (nat f') else f' = ?f" by auto
    have "for_each (rev [0..<Suc m]) (show_digit (int i) (int p)) (t mod 10 ^ Suc m, f, c) =
        Some (t mod 10 ^ 0, f', c\<lparr>displays := ds\<rparr>)"
      using st h(1) by simp
    moreover have "ds ! j ! k =
        (if j = i \<and> p \<le> k \<and> k < p + Suc m then digit_code t (k - p) else displays c ! j ! k)"
      if "j < 4" "k < 64" for j k
      using h(3) that by (auto simp: display_nth [OF Suc.prems(1) i b(1)] less_Suc_eq)
    moreover have "if f < 0 \<and> 0 < Suc m then 0 \<le> f' \<and> nat f' < Suc m \<and> is_first t (nat f') else f' = f"
    proof (cases "f < 0 \<and> digit_code t m \<noteq> 0x0a")
      case True
      then have "t div 10 ^ m \<noteq> 0" using False by (auto simp: digit_code_def)
      with True h(4) Suc.prems(4) show ?thesis by (simp add: is_first_def)
    next
      case no: False
      then show ?thesis using h(4) False by (auto split: if_splits)
    qed
    ultimately show ?thesis using h(2) by blast
  qed
qed


section \<open>The sign\<close>

text \<open>The code at position \<open>k\<close> of a row of \<open>n\<close> displays that shows the value \<open>v\<close>: the minus sign stands
  to the left of the first digit, if there is a display left for it.\<close>

definition cut :: "nat \<Rightarrow> int \<Rightarrow> int" where
  "cut n v = \<bar>v\<bar> mod 10 ^ n"

definition number_code :: "nat \<Rightarrow> int \<Rightarrow> nat \<Rightarrow> int" where
  "number_code n v k =
     (if v < 0 \<and> 0 < k \<and> is_first (cut n v) (k - 1) then 0xf8 else digit_code (cut n v) k)"

lemma is_first_unique: "is_first t f \<Longrightarrow> is_first t g \<Longrightarrow> 0 \<le> t \<Longrightarrow> f = g"
proof (induction f g rule: linorder_wlog)
  case (le f g)
  show ?case
  proof (rule ccontr)
    assume "f \<noteq> g"
    with le have "Suc f \<le> g" "t div 10 ^ g \<noteq> 0" "t div 10 ^ Suc f = 0" by (auto simp: is_first_def)
    then show False using div_power_0 [of t] power_10_mono [of "Suc f" g] le(4) by (metis order_less_le_trans)
  qed
qed simp

lemma cut_range: "0 \<le> cut n v" "cut n v < 10 ^ n"
  by (simp_all add: cut_def)

lemma show_number_run:
  assumes c: "device_ok c" and i: "i < 4" and p: "p + n \<le> 64" and n: "0 < n" "n \<le> 9"
    and v: "- 2147483648 < v" "v < 2147483648"
  shows "\<exists>ds. IocardsAccess.show_number (int i) (int p) (int n) v c = Some (c\<lparr>displays := ds\<rparr>) \<and>
    device_ok (c\<lparr>displays := ds\<rparr>) \<and>
    (\<forall>j < 4. \<forall>k < 64. ds ! j ! k =
      (if j = i \<and> p \<le> k \<and> k < p + n then number_code n v (k - p) else displays c ! j ! k))"
proof -
  let ?t = "cut n v"
  have abs: "(if v < 0 then wrap32 (- v) else v) = \<bar>v\<bar>" using v by (simp add: in_i32_def)
  have pw: "power_of_ten (int n) = 10 ^ n" "0 < (10::int) ^ n" using n by (simp_all add: power_of_ten_def)
  have rest: "wrap32 (\<bar>v\<bar> - wrap32 (\<bar>v\<bar> div 10 ^ n * 10 ^ n)) = ?t"
  proof -
    have "0 \<le> \<bar>v\<bar> div 10 ^ n * 10 ^ n" "\<bar>v\<bar> - \<bar>v\<bar> div 10 ^ n * 10 ^ n = ?t"
      using pw(2) by (simp_all add: cut_def minus_div_mult_eq_mod pos_imp_zdiv_nonneg_iff)
    with v cut_range(1) [of n v] show ?thesis by (simp add: in_i32_def)
  qed
  have low: "\<not> \<bar>v\<bar> \<ge> 10 ^ n \<Longrightarrow> \<bar>v\<bar> = ?t" by (simp add: cut_def)
  have ten: "(if \<bar>v\<bar> \<ge> 10 ^ n then
       do { q \<leftarrow> div_int \<bar>v\<bar> (10 ^ n); Some (wrap32 (\<bar>v\<bar> - wrap32 (q * 10 ^ n))) }
     else Some \<bar>v\<bar>) = Some ?t"
    using low rest pw(2) sdiv_nonneg [of "\<bar>v\<bar>" "10 ^ n"] by (simp add: div_int_def)
  have run: "IocardsAccess.show_number (int i) (int p) (int n) v c =
      do {
        (_, firstpos, c) \<leftarrow> for_each (rev [0..<nat (int n)]) (show_digit (int i) (int p)) (?t, - 1, c);
        if firstpos \<noteq> int n - 1 \<and> v < 0 then show_at (int i) (int p + firstpos + 1) 0xf8 c else Some c
      }"
    by (simp only: IocardsAccess.show_number_def Let_def abs pw(1) ten bind.bind_lunit)
  have z: "?t div 10 ^ n = 0" using cut_range [of n v] div_power_0 by blast
  then have "((- 1 :: int) < 0) = (?t div 10 ^ n = 0)" by simp
  from show_digits_run [OF c i p n(2) cut_range(1) this] cut_range [of n v] n(1)
  obtain ds f where d: "for_each (rev [0..<n]) (show_digit (int i) (int p)) (?t, - 1, c) =
        Some (?t mod 10 ^ 0, f, c\<lparr>displays := ds\<rparr>)" "device_ok (c\<lparr>displays := ds\<rparr>)"
      "\<forall>j < 4. \<forall>k < 64. ds ! j ! k =
        (if j = i \<and> p \<le> k \<and> k < p + n then digit_code ?t (k - p) else displays c ! j ! k)"
      "0 \<le> f" "nat f < n" "is_first ?t (nat f)" by auto
  define g where "g = nat f"
  have f: "f = int g" "g < n" "is_first ?t g" using d(4-6) by (simp_all add: g_def)
  have first: "0 < k \<Longrightarrow> is_first ?t (k - 1) \<longleftrightarrow> k = Suc g" for k
    using f(3) is_first_unique [OF _ f(3) cut_range(1), of "k - 1"] by auto
  show ?thesis
  proof (cases "v < 0 \<and> Suc g < n")
    case True
    have b: "p + Suc g < 64" using True p by simp
    let ?ds = "upd2 ds i (p + Suc g) 0xf8"
    have ix: "int p + int g + 1 = int (p + Suc g)" by simp
    have v248: "within 0 252 0xf8" by (simp add: within_def)
    from show_at_run [OF d(2) i b v248]
    have "show_at (int i) (int p + int g + 1) 0xf8 (c\<lparr>displays := ds\<rparr>) = Some (c\<lparr>displays := ?ds\<rparr>)"
      "device_ok (c\<lparr>displays := ?ds\<rparr>)" unfolding ix by simp_all
    moreover have "?ds ! j ! k =
        (if j = i \<and> p \<le> k \<and> k < p + n then number_code n v (k - p) else displays c ! j ! k)"
      if "j < 4" "k < 64" for j k
      using d(3) that True display_nth [OF d(2) i b, of j "0xf8" k] first [of "k - p"]
      by (auto simp: number_code_def)
    moreover have "f \<noteq> int n - 1" using True f(1) by simp
    ultimately show ?thesis
      using d(1) True f(1) unfolding run by (intro exI [of _ ?ds]) simp
  next
    case False
    have "number_code n v (k - p) = digit_code ?t (k - p)" if "p \<le> k" "k < p + n" for k
      using False first [of "k - p"] that by (auto simp: number_code_def)
    moreover have "\<not> (f \<noteq> int n - 1 \<and> v < 0)" using False f by auto
    ultimately show ?thesis
      using d(1-3) unfolding run by (intro exI [of _ ds]) auto
  qed
qed

section \<open>Reading a row of displays\<close>

text \<open>A person reads the digits, and a minus sign in front of them; blanks mean nothing.\<close>

definition read_code :: "int \<Rightarrow> int" where
  "read_code x = (if 0 \<le> x \<and> x \<le> 9 then x else 0)"

definition read_row :: "int list \<Rightarrow> int" where
  "read_row xs = (let m = (\<Sum>k < length xs. read_code (xs ! k) * 10 ^ k) in if 0xf8 \<in> set xs then - m else m)"

lemma read_digit_code: "0 \<le> t \<Longrightarrow> read_code (digit_code t k) = t div 10 ^ k mod 10"
  using pos_mod_bound [of 10 "t div 10 ^ k"]
  by (auto simp: digit_code_def read_code_def simp del: pos_mod_bound)

lemma read_number_code:
  assumes "k < n"
  shows "read_code (number_code n v k) = cut n v div 10 ^ k mod 10"
proof (cases "v < 0 \<and> 0 < k \<and> is_first (cut n v) (k - 1)")
  case True
  then have "cut n v div 10 ^ k = 0" by (cases k) (simp_all add: is_first_def)
  with True show ?thesis by (simp add: number_code_def read_code_def)
next
  case False
  then show ?thesis using read_digit_code [OF cut_range(1)] by (auto simp: number_code_def)
qed

lemma first_exists:
  assumes "0 \<le> t" and "t < 10 ^ Suc m"
  shows "\<exists>f \<le> m. is_first t f"
  using assms(2)
proof (induction m)
  case 0
  then show ?case using assms(1) by (intro exI [of _ 0]) (simp add: is_first_def)
next
  case (Suc m)
  show ?case
  proof (cases "t < 10 ^ Suc m")
    case True
    with Suc.IH show ?thesis using le_SucI by blast
  next
    case False
    then have "is_first t (Suc m)"
      using Suc.prems assms(1) div_power_0 [OF assms(1), of "Suc m"] div_power_0 [OF assms(1), of "Suc (Suc m)"]
      by (simp only: is_first_def) simp
    then show ?thesis by blast
  qed
qed

lemma sign_code:
  assumes n: "0 < n"
  shows "(\<exists>k < n. number_code n v k = 0xf8) \<longleftrightarrow> v < 0 \<and> 1 < n \<and> cut n v < 10 ^ (n - 1)"
proof
  assume "\<exists>k < n. number_code n v k = 0xf8"
  then obtain k where k: "k < n" "number_code n v k = 0xf8" by blast
  have "digit_code (cut n v) k \<noteq> 0xf8"
    using pos_mod_bound [of 10 "cut n v div 10 ^ k"] by (auto simp: digit_code_def simp del: pos_mod_bound)
  with k have v: "v < 0" "0 < k" "is_first (cut n v) (k - 1)" by (auto simp: number_code_def split: if_splits)
  then have "cut n v div 10 ^ k = 0" by (cases k) (simp_all add: is_first_def)
  then have "cut n v < 10 ^ k" using div_power_0 [OF cut_range(1)] by blast
  also have "\<dots> \<le> 10 ^ (n - 1)" using k(1) by (intro power_10_mono) simp
  finally show "v < 0 \<and> 1 < n \<and> cut n v < 10 ^ (n - 1)" using v k by simp
next
  assume h: "v < 0 \<and> 1 < n \<and> cut n v < 10 ^ (n - 1)"
  define m where "m = n - 2"
  from h have m: "n = Suc (Suc m)" unfolding m_def by linarith
  from m have "n - 1 = Suc m" by simp
  with h have "cut n v < 10 ^ Suc m" by metis
  from first_exists [OF cut_range(1) this] obtain f where f: "f \<le> m" "is_first (cut n v) f" by blast
  then have "number_code n v (Suc f) = 0xf8" using h by (simp only: number_code_def diff_Suc_1 zero_less_Suc simp_thms if_True)
  moreover have "Suc f < n" using f(1) m by simp
  ultimately show "\<exists>k < n. number_code n v k = 0xf8" by blast
qed

text \<open>What is left of the value: as many digits as there are displays, and the sign, if there is room.\<close>

definition shown :: "nat \<Rightarrow> int \<Rightarrow> int" where
  "shown n v = (if v < 0 \<and> cut n v < 10 ^ (n - 1) then - cut n v else cut n v)"

lemma read_row_number:
  assumes n: "0 < n" and l: "length xs = n" and x: "\<forall>k < n. xs ! k = number_code n v k"
  shows "read_row xs = shown n v"
proof -
  have "(\<Sum>k < n. read_code (xs ! k) * 10 ^ k) = (\<Sum>k < n. cut n v div 10 ^ k mod 10 * 10 ^ k)"
    using x by (intro sum.cong) (simp_all add: read_number_code)
  also have "\<dots> = cut n v mod 10 ^ n" by (rule digits_sum [OF cut_range(1)])
  also have "\<dots> = cut n v" by (simp add: cut_def)
  finally have m: "(\<Sum>k < length xs. read_code (xs ! k) * 10 ^ k) = cut n v" using l by simp
  have "0xf8 \<in> set xs \<longleftrightarrow> (\<exists>k < n. number_code n v k = 0xf8)"
    using x l by (auto simp: in_set_conv_nth)
  also have "\<dots> \<longleftrightarrow> v < 0 \<and> 1 < n \<and> cut n v < 10 ^ (n - 1)" by (rule sign_code [OF n])
  finally have s: "0xf8 \<in> set xs \<longleftrightarrow> v < 0 \<and> 1 < n \<and> cut n v < 10 ^ (n - 1)" .
  show ?thesis
  proof (cases "n = 1")
    case True
    then show ?thesis using m s cut_range(1) [of n v] by (auto simp: read_row_def shown_def Let_def)
  next
    case False
    with n have "1 < n" by simp
    then show ?thesis using m s by (simp add: read_row_def shown_def Let_def)
  qed
qed

text \<open>C29: A number that \<open>mastercard_display\<close> puts on a row of up to nine displays of a MASTERCARD is read
  back from the codes: all of it if it fits, otherwise its last digits; the sign is shown as long as
  there is a display left for it. All other displays, and the other devices, are left alone.\<close>

theorem number_reads_back:
  assumes l: "dev < length (iocard st)" and ok: "device_ok (iocard st ! dev)"
    and mc: "is_mastercard (iocard st ! dev)" "status (iocard st ! dev) = 1"
    and i: "int i < ncards (iocard st ! dev)" and p: "int (p + n) \<le> ndisplays (iocard st ! dev)"
    and n: "0 < n" "n \<le> 9" and v: "- 2147483648 < v" "v < 2147483648" "v \<noteq> INT_MISS"
  shows "\<exists>ds. mastercard_display (int dev) (int i) (int p) (int n) (Some v) 0 st =
      Some (0, Some v, st\<lparr>iocard := (iocard st)[dev := (iocard st ! dev)\<lparr>displays := ds\<rparr>]\<rparr>) \<and>
    read_row (take n (drop p (ds ! i))) = shown n v \<and> device_ok ((iocard st ! dev)\<lparr>displays := ds\<rparr>) \<and>
    (\<forall>j < 4. \<forall>k < 64. j \<noteq> i \<or> k < p \<or> p + n \<le> k \<longrightarrow> ds ! j ! k = displays (iocard st ! dev) ! j ! k)"
proof -
  let ?c = "iocard st ! dev"
  have i4: "i < 4" and p64: "p + n \<le> 64" using i p device_okD(2,10) [OF ok] by linarith+
  from show_number_run [OF ok i4 p64 n v(1,2)] obtain ds where
    d: "IocardsAccess.show_number (int i) (int p) (int n) v ?c = Some (?c\<lparr>displays := ds\<rparr>)"
      "device_ok (?c\<lparr>displays := ds\<rparr>)"
      "\<forall>j < 4. \<forall>k < 64. ds ! j ! k =
        (if j = i \<and> p \<le> k \<and> k < p + n then number_code n v (k - p) else displays ?c ! j ! k)" by blast
  have w: "wrap32 (int p + int n) = int (p + n)" using p64 by (simp add: in_i32_def)
  have "mastercard_display (int dev) (int i) (int p) (int n) (Some v) 0 st =
      Some (0, Some v, st\<lparr>iocard := (iocard st)[dev := ?c\<lparr>displays := ds\<rparr>]\<rparr>)"
    using l mc i p v(3) d(1)
    by (simp add: mastercard_display_def on_device_def IocardsAccess.display_body_def w arr_get_int arr_set_int)
  moreover have "length (ds ! i) = 64"
    using arr_ok_length [OF arr_ok_nth [OF device_ok_arrays(9) [OF d(2)] i4]] by simp
  then have "read_row (take n (drop p (ds ! i))) = shown n v"
    using d(3) i4 p64 by (intro read_row_number [OF n(1)]) auto
  ultimately show ?thesis using d(2,3) by (intro exI [of _ ds]) auto
qed

end
