(* ===== verification/UsbWitnesses.thy ===== *)
theory UsbWitnesses
  imports IocardsTransmit IocardsDisplay
begin

text \<open>
  Concrete instances of the theorems on the OpenCockpits driver.
\<close>

section \<open>A MASTERCARD device\<close>

text \<open>One device with two cards, as it is after the initialisation.\<close>

definition padded :: "nat \<Rightarrow> string \<Rightarrow> mem" where
  "padded n s = chars s @ replicate (n - length s) 0"

definition sample_mastercard :: iocard_struct where
  "sample_mastercard = static_device\<lparr>name := padded 30 ''USB-Expancion V3'', ncards := 2, naxes := 1,
     ninputs := 72, noutputs := 45, ndisplays := 64, nbits := 8, status := 1\<rparr>"

definition sample_hid :: device_struct where
  "sample_hid = (init_device 0)\<lparr>handle := True, inBufferSize := 8, outBufferSize := 9,
     inBuffer := Some (replicate 8 0), outBuffer := Some (replicate 9 0),
     readBuffer := Some (replicate READBUFFERSIZE 0), writeBuffer := Some (replicate WRITEBUFFERSIZE 0),
     dv_status := 0, poll_thread_exit_code := 0\<rparr>"

definition sample_iocards :: iocards where
  "sample_iocards =
     \<lparr>device = sample_hid # replicate 9 (init_device 0), hid_written = [],
      iocard = sample_mastercard # replicate 9 static_device, initial = 1\<rparr>"

lemma sample_names:
  "is_mastercard sample_mastercard" "\<not> is_mastercard static_device"
  by code_simp+

lemma sample_device_ok: "mc_ok sample_mastercard" "axes_ok sample_mastercard"
  by (simp_all add: sample_mastercard_def static_device_def mc_ok_def axes_ok_def arr_ok_replicate within_def)

lemma sample_hid_holds: "holds 8 [] sample_hid" "poll_thread_exit_code sample_hid = 0"
  by (simp_all add: holds_def sample_hid_def init_device_def)

section \<open>A transmission\<close>

text \<open>Six slots, the last one of a card that the ini file does not give, in two reports; the second
  report has the value of the first axis, too.\<close>

definition sample_slots :: "(nat \<times> nat) list" where
  "sample_slots = [(0, 0), (0, 1), (0, 7), (1, 2), (1, 3), (2, 5)]"

definition sample_readings :: readings where
  "sample_readings = (\<lambda>(i, s) j. odd (i + s + j))"

definition sample_rest :: "((nat \<times> byte) \<times> (nat \<Rightarrow> bool) \<times> mem) list" where
  "sample_rest = [((1, 200), \<lambda>_. False, drop 4 (data_bytes sample_slots sample_readings) @ [0, 0, 0])]"

lemma sample_transmission:
  "transmission sample_slots sample_readings (0, 0) (take 4 (data_bytes sample_slots sample_readings)) sample_rest"
  by code_simp

lemma inputs_received_witness:
  "\<exists>st1 st'.
     for_each (first_report (0, 0) sample_slots (take 4 (data_bytes sample_slots sample_readings)) # map next_report sample_rest)
       (\<lambda>r. poll_turn 0 (HidReport r)) sample_iocards = Some st1 \<and>
     receive_mastercard st1 = Some (0, st') \<and> inputs (iocard st' ! 0) ! 1 ! 20 = 1"
proof -
  have quiet: "\<forall>i < 10. i \<noteq> 0 \<longrightarrow> quiet is_mastercard 8 sample_iocards i"
    using sample_names by (auto simp: quiet_def sample_iocards_def nth_Cons')
  have st: "length (device sample_iocards) = 10" "length (iocard sample_iocards) = 10"
    "iocard sample_iocards ! 0 = sample_mastercard" "device sample_iocards ! 0 = sample_hid"
    by (simp_all add: sample_iocards_def)
  have c: "ncards sample_mastercard = 2" "status sample_mastercard = 1" by (simp_all add: sample_mastercard_def)
  have s: "(1, 20 div 9) \<in> set sample_slots" "sample_readings (1, 20 div 9) (20 mod 9)" by code_simp+
  from inputs_received [of sample_iocards 0, OF st(1,2) _ _ _ _ _ _ _ quiet sample_transmission]
    sample_names(1) sample_device_ok sample_hid_holds c s
  show ?thesis by (auto simp: st sample_rest_def)
qed


section \<open>Outputs and displays\<close>

lemma static_ok: "device_ok static_device"
  by (simp add: device_unfold static_device_def arr_ok_replicate within_def)

lemma sample_ok: "device_ok sample_mastercard"
proof -
  have "length (padded 30 ''USB-Expancion V3'') = 30" by (simp add: padded_def chars_def)
  with static_ok show ?thesis by (simp add: sample_mastercard_def device_unfold within_def)
qed

text \<open>Three outputs in two segments of the first card are switched on, and one display of the second.\<close>

definition sample_on :: iocard_struct where
  "sample_on = sample_mastercard\<lparr>outputs := upd2 (upd2 (upd2 (outputs sample_mastercard) 0 3 1) 0 7 1) 0 44 1,
     displays := upd2 (displays sample_mastercard) 1 60 7\<rparr>"

definition sample_switched :: iocards where
  "sample_switched = sample_iocards\<lparr>iocard := sample_on # replicate 9 static_device\<rparr>"

lemma sample_on_ok: "device_ok sample_on"
proof -
  note ok = device_ok_arrays(7,9) [OF sample_ok]
  have "arr_ok 4 (arr_ok 45 (within 0 1)) (upd2 (upd2 (upd2 (outputs sample_mastercard) 0 3 1) 0 7 1) 0 44 1)"
    by (intro arr_ok_upd2 ok(1)) (simp_all add: within_def)
  moreover have "arr_ok 4 (arr_ok 64 (within 0 252)) (upd2 (displays sample_mastercard) 1 60 7)"
    by (intro arr_ok_upd2 ok(2)) (simp_all add: within_def)
  ultimately show ?thesis
    unfolding sample_on_def using device_ok_outputs(3) [OF device_ok_outputs(1) [OF sample_ok]] by simp
qed

lemma sample_outputs:
  assumes "i < 4" "j < 45"
  shows "outputs sample_on ! i ! j = of_bool (i = 0 \<and> (j = 3 \<or> j = 7 \<or> j = 44))"
    and "outputs_old sample_on ! i ! j = 0"
  using assms by (auto simp: sample_on_def sample_mastercard_def static_device_def upd2_nth)

lemma sample_displays:
  assumes "i < 4" "k < 64"
  shows "displays sample_on ! i ! k = (if i = 1 \<and> k = 60 then 7 else 0)" and "displays_old sample_on ! i ! k = 0"
  using assms by (auto simp: sample_on_def sample_mastercard_def static_device_def upd2_nth)

lemma sample_counts:
  "noutputs sample_on = 45" "ndisplays sample_on = 64" "ncards sample_on = 2" "status sample_on = 1"
  "name sample_on = name sample_mastercard"
  by (simp_all add: sample_on_def sample_mastercard_def)

lemma sample_segments:
  assumes "i < 4" "s < 8"
  shows "segment_due sample_on i s \<longleftrightarrow> i = 0 \<and> (s = 0 \<or> s = 5)"
proof -
  have "segment_due sample_on i s \<longleftrightarrow> i = 0 \<and> (\<exists>k < 8. 8 * s + k = 3 \<or> 8 * s + k = 7 \<or> 8 * s + k = 44)"
    using sample_outputs [OF assms(1)] by (auto simp: segment_due_def sample_counts)
  also have "(\<exists>k < 8. 8 * s + k = 3 \<or> 8 * s + k = 7 \<or> 8 * s + k = 44) \<longleftrightarrow> s = 0 \<or> s = 5" by presburger
  finally show ?thesis .
qed

lemma sample_states: "output_state sample_on 0 0 = 0x88" "output_state sample_on 0 5 = 0xF0"
proof -
  have v: "(noutputs sample_on \<le> int (8 * s + k) \<or> outputs sample_on ! 0 ! (8 * s + k) = 1) \<longleftrightarrow>
      45 \<le> 8 * s + k \<or> 8 * s + k = 3 \<or> 8 * s + k = 7 \<or> 8 * s + k = 44" for s k
    using sample_outputs(1) [of 0 "8 * s + k"] by (cases "8 * s + k < 45") (auto simp: sample_counts)
  show "output_state sample_on 0 0 = 0x88" "output_state sample_on 0 5 = 0xF0"
    unfolding output_state_def v by (simp_all add: bits_byte_def upt_rec)
qed

lemma sample_due: "due sample_on = [(11, 0x88), (51, 0xF0), (7, 124)]"
proof -
  have seg: "due_segment sample_on i s = (if i = 0 \<and> s = 0 then [(11, 0x88)] else if i = 0 \<and> s = 5 then [(51, 0xF0)] else [])"
    if "i < 4" "s < 8" for i s
    using sample_segments [OF that] sample_states by (auto simp: due_segment_def)
  have dsp: "due_display sample_on i k = (if i = 1 \<and> k = 60 then [(7, 124)] else [])" if "i < 4" "k < 64" for i k
    using sample_displays [OF that] by (auto simp: due_display_def sample_counts)
  have "due_card sample_on 0 = [(11, 0x88), (51, 0xF0)]" "due_card sample_on 1 = [(7, 124)]"
    by (simp_all add: due_card_def sample_counts seg dsp upt_rec)
  then show ?thesis by (simp add: due_def sample_counts upt_rec)
qed

lemma outputs_reach_cards_witness:
  "\<exists>st1 rs. send_mastercard (\<lambda>_. 9) sample_switched = Some (0, st1) \<and> hid_written st1 = rs \<and>
     wire rs = [(0, 11, 0x88), (0, 51, 0xF0), (0, 7, 124)]"
proof -
  have n: "is_mastercard sample_on" "\<not> is_mastercard static_device"
    using sample_names by (simp_all add: is_mastercard_def sample_counts)
  have st: "length (iocard sample_switched) = 10" "length (device sample_switched) = 10"
    "device sample_switched ! 0 = sample_hid" "hid_written sample_switched = []"
    "iocard sample_switched ! 0 = sample_on"
    by (simp_all add: sample_switched_def sample_iocards_def)
  have others: "iocard sample_switched ! k = static_device" if "k < 10" "k \<noteq> 0" for k
    using that by (simp add: sample_switched_def nth_Cons')
  have ok: "list_all device_ok (iocard sample_switched)"
    using static_ok sample_on_ok by (simp add: sample_switched_def list_all_iff)
  have w0: "writable_device 8 sample_hid" by (simp add: writable_device_def sample_hid_def init_device_def)
  have wr: "\<forall>k < 10. ready_card sample_switched k \<longrightarrow> writable_device 8 (device sample_switched ! k)"
  proof (intro allI impI)
    fix k assume "k < (10 :: nat)" "ready_card sample_switched k"
    then have "k = 0" using others [of k] n(2) by (cases "k = 0") (simp_all add: ready_card_def)
    then show "writable_device 8 (device sample_switched ! k)" using st(3) w0 by simp
  qed
  have rest: "device_due sample_switched k = []" if "k < 10" "k \<noteq> 0" for k
    using others [OF that] n(2) by (simp add: device_due_def ready_card_def)
  have "concat (map (device_due sample_switched) [0..<10]) =
      device_due sample_switched 0 @ concat (map (device_due sample_switched) [1..<10])"
    by (simp add: upt_conv_Cons [of 0 10])
  also have "concat (map (device_due sample_switched) [1..<10]) = []" using rest by simp
  also have "device_due sample_switched 0 = [(0, 11, 0x88), (0, 51, 0xF0), (0, 7, 124)]"
    using n(1) sample_due by (simp add: device_due_def ready_card_def st(5) sample_counts)
  finally have d: "concat (map (device_due sample_switched) [0..<10]) = [(0, 11, 0x88), (0, 51, 0xF0), (0, 7, 124)]"
    by simp
  have a: "accepts (\<lambda>_. 9)" by (simp add: accepts_def)
  from outputs_reach_cards [OF st(1,2) ok wr a] d st(4) show ?thesis by auto
qed

lemma number_reads_back_witness:
  "\<exists>ds. mastercard_display 0 1 4 5 (Some (- 407)) 0 sample_iocards =
      Some (0, Some (- 407), sample_iocards\<lparr>iocard := (iocard sample_iocards)[0 := sample_mastercard\<lparr>displays := ds\<rparr>]\<rparr>) \<and>
    read_row (take 5 (drop 4 (ds ! 1))) = - 407"
proof -
  have c: "iocard sample_iocards ! 0 = sample_mastercard" "0 < length (iocard sample_iocards)"
    by (simp_all add: sample_iocards_def)
  have m: "ncards sample_mastercard = 2" "ndisplays sample_mastercard = 64" "status sample_mastercard = 1"
    by (simp_all add: sample_mastercard_def)
  have s: "shown 5 (- 407) = - 407" by (simp add: shown_def cut_def)
  from number_reads_back [of 0 sample_iocards 1 4 5 "- 407"] c m s sample_ok sample_names(1)
  show ?thesis by auto
qed

end
