(* ===== verification/WxrScan.thy ===== *)
theory WxrScan
  imports WxrData
begin

text \<open>
  The second half of \<open>libxpcockpit/src/wxrdata.c\<close>: the start and the end of the radar connection,
  its renewal after a minute of silence, and \<open>read_wxr\<close>, which takes the datagrams out of the
  receive buffer and puts the picture together, point by point.
\<close>

section \<open>Start\<close>

abbreviation (input) RADARDIGITS :: int where "RADARDIGITS \<equiv> 3" \<comment> \<open>\<open>(int) log10(MAXRADAR) + 1\<close>\<close>

text \<open>\<open>init_wxr\<close>; whether the socket calls and the start of the thread succeed is not looked at.\<close>

definition init_wxr :: "mem \<Rightarrow> mem \<Rightarrow> mem \<Rightarrow> mem \<Rightarrow> int \<times> int \<Rightarrow> radar \<Rightarrow> radar option" where
  "init_wxr server_ip junk1 junk2 junk3 now st =
     (if wxr_initialized st \<noteq> 0 then Some st
      else do {
        noip \<leftarrow> streq server_ip [0];
        if noip then Some st
        else do {
          let st = st\<lparr>wxr_lonmin_tmp := WXR_MISS, wxr_lonmax_tmp := WXR_MISS,
            wxr_latmin_tmp := WXR_MISS, wxr_latmax_tmp := WXR_MISS, wxr_lonmin := WXR_MISS,
            wxr_lonmax := WXR_MISS, wxr_latmin := WXR_MISS, wxr_latmax := WXR_MISS,
            wxr_newdata := 0, wxr_firstread := 0, wxr_firstsend := 0\<rparr>;
          st \<leftarrow>
            (if wxr_type st = 1 then
               do {
                 ip \<leftarrow> strcpy (wxrServerIP st) server_ip;
                 let st = st\<lparr>wxrServerIP := ip, wxrServerPort := 48003, wxrReadLeft := 0\<rparr>;
                 Some (init_wxr_receive junk3 (allocate_wxrdata 0 8100 junk1 junk2 st))
               }
             else Some st);
          st \<leftarrow>
            (if wxr_type st = 2 then
               do {
                 ip \<leftarrow> strcpy (wxrServerIP st) server_ip;
                 let st = st\<lparr>wxrServerIP := ip, wxrServerPort := 49000\<rparr>;
                 Some (init_wxr_receive junk3 (allocate_wxrdata (7 + RADARDIGITS) 50000 junk1 junk2 st))
               }
             else Some st);
          Some (st\<lparr>wxr_phase := 0, wxr_initialized := 1, wxr_t1 := now\<rparr>)
        }
      })"

section \<open>Asking for data\<close>

text \<open>The seconds since \<open>wxr_t1\<close>, computed in \<open>double\<close> and stored as \<open>float\<close>.\<close>

definition wxr_elapsed :: "int \<times> int \<Rightarrow> int \<times> int \<Rightarrow> fpval" where
  "wxr_elapsed t2 t1 =
     to_float (addd (f64 (fst t2 - fst t1)) (divd (f64 (snd t2 - snd t1)) (f64 1000000)))"

text \<open>The text \<open>RADR n\<close> in the send buffer, with the blank and the byte \<open>eos\<close> replaced by NUL.\<close>

definition put_request :: "int \<Rightarrow> int \<Rightarrow> radar \<Rightarrow> radar option" where
  "put_request n eos st =
     do {
       b \<leftarrow> wxrSendBuffer st;
       b \<leftarrow> mem_write b 0 (chars ''RADR '' @ fmt_int n @ [0]);
       b \<leftarrow> mem_write b 4 [0];
       b \<leftarrow> mem_write b eos [0];
       Some (st\<lparr>wxrSendBuffer := Some b\<rparr>)
     }"

definition write_wxr :: "int \<times> int \<Rightarrow> radar \<Rightarrow> radar option" where
  "write_wxr now st =
     do {
       st \<leftarrow>
         (if fp_less (f64 60) (wxr_elapsed now (wxr_t1 st)) then
            do {
              free_grid (wxr_nlin_tmp st) (wxr_data_tmp st);
              free_grid (wxr_nlin_tmp st) (wxr_height_tmp st);
              Some (st\<lparr>wxr_t1 := now, wxr_firstsend := 0, wxr_data_tmp := None,
                wxr_height_tmp := None, wxr_lonmin_tmp := WXR_MISS, wxr_lonmax_tmp := WXR_MISS,
                wxr_latmin_tmp := WXR_MISS, wxr_latmax_tmp := WXR_MISS, wxr_phase := 0,
                wxr_newdata := 0\<rparr>)
            }
          else Some st);
       if wxr_type st = 2 \<and> wxr_firstsend st = 0 \<and> wxr_initialized st \<noteq> 0 then
         do {
           st \<leftarrow> put_request (int MAXRADAR) (6 + RADARDIGITS) st;
           st \<leftarrow> send_wxr_to_server st;
           Some (st\<lparr>wxr_firstsend := 1, wxr_firstread := 0\<rparr>)
         }
       else Some st
     }"

section \<open>Radar points\<close>

text \<open>
  What the loop over the points of a datagram reads for one point. Type 1 has a row of 61 values
  for one minute of latitude, which stays in the buffer; type 2 has a level and a height. What a
  type does not have is not looked at, and has an arbitrary value here.
\<close>

record radar_point =
  rp_lon :: fpval
  rp_lat :: fpval
  rp_hgt :: fpval
  rp_lev :: int
  rp_lat_min_south :: int
  rp_buffer :: mem

definition read_float :: "mem \<Rightarrow> int \<Rightarrow> fpval option" where
  "read_float b i = map_option (\<lambda>v. fp_val 23 8 (le_val v)) (mem_read b i 4)"

definition read_char :: "mem \<Rightarrow> int \<Rightarrow> int option" where
  "read_char b i = map_option (\<lambda>v. to_char (le_val v)) (mem_read b i 1)"

definition read_point :: "int \<Rightarrow> int \<Rightarrow> mem \<Rightarrow> nat \<Rightarrow> radar_point option" where
  "read_point type is_xp12 buf r =
     (if type = 1 then
        do {
          lon_deg_west \<leftarrow> read_int buf 5;
          lat_deg_south \<leftarrow> read_int buf 9;
          lat_min_south \<leftarrow> read_int buf 13;
          Some \<lparr>rp_lon = f32 lon_deg_west, rp_lat = f32 lat_deg_south, rp_hgt = NaN, rp_lev = 0,
            rp_lat_min_south = lat_min_south, rp_buffer = buf\<rparr>
        }
      else if is_xp12 \<noteq> 0 then
        do {
          lon \<leftarrow> read_float buf (5 + int r * 24 + 0);
          lat \<leftarrow> read_float buf (5 + int r * 24 + 4);
          cloud_base \<leftarrow> read_float buf (5 + int r * 24 + 8);
          hgt \<leftarrow> read_float buf (5 + int r * 24 + 12);
          cloud_ratio \<leftarrow> read_float buf (5 + int r * 24 + 16);
          precip_ratio \<leftarrow> read_float buf (5 + int r * 24 + 20);
          Some \<lparr>rp_lon = lon, rp_lat = lat, rp_hgt = hgt,
            rp_lev = to_char (to_uchar (fp_trunc (muld precip_ratio (f64 100)))),
            rp_lat_min_south = 0, rp_buffer = []\<rparr>
        }
      else
        do {
          lon \<leftarrow> read_float buf (5 + int r * 13 + 0);
          lat \<leftarrow> read_float buf (5 + int r * 13 + 4);
          lev \<leftarrow> read_char buf (5 + int r * 13 + 8);
          hgt \<leftarrow> read_float buf (5 + int r * 13 + 9);
          Some \<lparr>rp_lon = lon, rp_lat = lat, rp_hgt = hgt, rp_lev = lev,
            rp_lat_min_south = 0, rp_buffer = []\<rparr>
        })"

section \<open>Phase 0: the bounds\<close>

definition widen :: "fpval \<Rightarrow> fpval \<Rightarrow> radar \<Rightarrow> radar" where
  "widen lon lat st =
     (let st = (if fp_eq (wxr_lonmax_tmp st) WXR_MISS
                then st\<lparr>wxr_lonmin_tmp := lon, wxr_lonmax_tmp := lon,
                        wxr_latmin_tmp := lat, wxr_latmax_tmp := lat\<rparr> else st);
          st = (if fp_less (wxr_lonmax_tmp st) lon then st\<lparr>wxr_lonmax_tmp := lon\<rparr> else st);
          st = (if fp_less lon (wxr_lonmin_tmp st) then st\<lparr>wxr_lonmin_tmp := lon\<rparr> else st);
          st = (if fp_less (wxr_latmax_tmp st) lat then st\<lparr>wxr_latmax_tmp := lat\<rparr> else st);
          st = (if fp_less lat (wxr_latmin_tmp st) then st\<lparr>wxr_latmin_tmp := lat\<rparr> else st)
      in st)"

text \<open>The resolution, in pixels per degree, and the size of the picture.\<close>

definition pixels_per_lon :: "(fpval \<Rightarrow> fpval) \<Rightarrow> fpval \<Rightarrow> fpval \<Rightarrow> int" where
  "pixels_per_lon cosine latmin latmax =
     fp_trunc (muld (f64 60) (cosine (muld (muld d_deg (addf latmax latmin)) (Fin 1 (- 1)))))"

definition set_size :: "(fpval \<Rightarrow> fpval) \<Rightarrow> radar \<Rightarrow> radar" where
  "set_size cosine st =
     (let dlon = subf (wxr_lonmax_tmp st) (wxr_lonmin_tmp st);
          dlat = subf (wxr_latmax_tmp st) (wxr_latmin_tmp st)
      in if wxr_type st = 1 then
           st\<lparr>wxr_pixperlon_tmp := 60, wxr_pixperlat_tmp := 60,
              wxr_ncol_tmp := fp_trunc (mulf (addf dlon (f32 1)) (f32 60)),
              wxr_nlin_tmp := fp_trunc (mulf (addf dlat (f32 1)) (f32 60))\<rparr>
         else
           (let n = pixels_per_lon cosine (wxr_latmin_tmp st) (wxr_latmax_tmp st)
            in st\<lparr>wxr_pixperlon_tmp := n, wxr_pixperlat_tmp := 60,
                  wxr_ncol_tmp := fp_trunc (addf (mulf dlon (f32 n)) (f32 1)),
                  wxr_nlin_tmp := fp_trunc (addf (mulf dlat (f32 60)) (f32 1))\<rparr>))"

definition behind :: "fpval \<Rightarrow> fpval \<Rightarrow> radar \<Rightarrow> bool" where
  "behind lon lat st \<longleftrightarrow> fp_less lon (wxr_lonmax_tmp st) \<and> fp_less lat (wxr_latmax_tmp st)"

definition bounds_step :: "(int \<Rightarrow> bool) \<Rightarrow> (fpval \<Rightarrow> fpval) \<Rightarrow> radar_point \<Rightarrow> radar \<Rightarrow> radar option" where
  "bounds_step heap cosine p st =
     (let lon = rp_lon p; lat = rp_lat p; st = widen lon lat st
      in if behind lon lat st then
           do {
             let st = set_size cosine st;
             data \<leftarrow> alloc_grid heap 1 (wxr_nlin_tmp st) (wxr_ncol_tmp st);
             height \<leftarrow> alloc_grid heap 4 (wxr_nlin_tmp st) (wxr_ncol_tmp st);
             Some (st\<lparr>wxr_data_tmp := data, wxr_height_tmp := height, wxr_phase := 1,
               wxr_lonmax_tmp := WXR_MISS, wxr_latmax_tmp := WXR_MISS\<rparr>)
           }
         else Some st)"

section \<open>Phase 1: the picture\<close>

text \<open>
  The scan has started over: the picture is complete. The pointers are only used when there are
  pixels; a resolution of 0 is a division by zero.
\<close>

definition interpolate ::
  "(grid \<Rightarrow> grid \<Rightarrow> int \<Rightarrow> int \<Rightarrow> int \<Rightarrow> int \<Rightarrow> grid option) \<Rightarrow> grid option \<Rightarrow> grid option \<Rightarrow> radar \<Rightarrow>
   grid option option" where
  "interpolate f src dst st =
     (if wxr_nlin st \<le> 0 \<or> wxr_ncol st \<le> 0 then Some dst
      else do {
        old \<leftarrow> src;
        new \<leftarrow> dst;
        new \<leftarrow> f old new (wxr_ncol_tmp st) (wxr_nlin_tmp st) (wxr_ncol st) (wxr_nlin st);
        Some (Some new)
      })"

definition complete_picture :: "(int \<Rightarrow> bool) \<Rightarrow> radar \<Rightarrow> radar option" where
  "complete_picture heap st =
     do {
       free_grid (wxr_nlin st) (wxr_data st);
       free_grid (wxr_nlin st) (wxr_height st);
       let st = st\<lparr>wxr_pixperlon := wrap32 (WXR_UPSCALE * wxr_pixperlon_tmp st),
         wxr_pixperlat := wrap32 (WXR_UPSCALE * wxr_pixperlat_tmp st),
         wxr_lonmin := wxr_lonmin_tmp st, wxr_latmin := wxr_latmin_tmp st,
         wxr_ncol := wrap32 (WXR_UPSCALE * wxr_ncol_tmp st),
         wxr_nlin := wrap32 (WXR_UPSCALE * wxr_nlin_tmp st)\<rparr>;
       if wxr_pixperlon st = 0 \<or> wxr_pixperlat st = 0 then None
       else do {
         let st = st\<lparr>wxr_lonmax := addf (wxr_lonmin st) (f32 (wxr_ncol st sdiv wxr_pixperlon st)),
           wxr_latmax := addf (wxr_latmin st) (f32 (wxr_nlin st sdiv wxr_pixperlat st))\<rparr>;
         data \<leftarrow> alloc_grid heap 1 (wxr_nlin st) (wxr_ncol st);
         height \<leftarrow> alloc_grid heap 4 (wxr_nlin st) (wxr_ncol st);
         data \<leftarrow> interpolate bilinear_uchar (wxr_data_tmp st) data st;
         height \<leftarrow> interpolate bilinear_int (wxr_height_tmp st) height st;
         free_rows (wxr_nlin_tmp st) (wxr_data_tmp st);
         free_rows (wxr_nlin_tmp st) (wxr_height_tmp st);
         Some (st\<lparr>wxr_data := data, wxr_height := height, wxr_data_tmp := None,
           wxr_height_tmp := None, wxr_lonmin_tmp := WXR_MISS, wxr_lonmax_tmp := WXR_MISS,
           wxr_latmin_tmp := WXR_MISS, wxr_latmax_tmp := WXR_MISS, wxr_phase := 0,
           wxr_newdata := 1\<rparr>)
       }
     }"

text \<open>Type 1: the values of one minute of latitude, from \<open>wxrBuffer[17]\<close> on.\<close>

definition draw_row :: "radar_point \<Rightarrow> radar \<Rightarrow> radar option" where
  "draw_row p st =
     (if rp_lat_min_south p \<noteq> -1 \<and> rp_lat_min_south p \<noteq> 60 then
        do {
          let j = fp_trunc (addf (mulf (subf (rp_lat p) (wxr_latmin_tmp st))
                                       (f32 (wxr_pixperlat_tmp st))) (f32 (rp_lat_min_south p)));
          let i = fp_trunc (mulf (subf (rp_lon p) (wxr_lonmin_tmp st)) (f32 (wxr_pixperlon_tmp st)));
          for_each [0..<nat (wxr_pixperlon_tmp st)] (\<lambda>k st.
            do {
              v \<leftarrow> read_char (rp_buffer p) (17 + int k);
              data \<leftarrow> wxr_data_tmp st;
              data \<leftarrow> grid_set j (i + int k) (to_uchar (v * 10)) data;
              height \<leftarrow> wxr_height_tmp st;
              height \<leftarrow> grid_set i (i + int k) 30000 height;
              Some (st\<lparr>wxr_data_tmp := Some data, wxr_height_tmp := Some height\<rparr>)
            }) st
        }
      else Some st)"

text \<open>Type 2: one pixel, if it lies in the picture.\<close>

definition draw_point :: "radar_point \<Rightarrow> radar \<Rightarrow> radar option" where
  "draw_point p st =
     (let j = fp_trunc (mulf (subf (rp_lat p) (wxr_latmin_tmp st)) (f32 (wxr_pixperlat_tmp st)));
          i = fp_trunc (mulf (subf (rp_lon p) (wxr_lonmin_tmp st)) (f32 (wxr_pixperlon_tmp st)))
      in if 0 \<le> j \<and> j < wxr_nlin_tmp st \<and> 0 \<le> i \<and> i < wxr_ncol_tmp st then
           do {
             data \<leftarrow> wxr_data_tmp st;
             data \<leftarrow> grid_set j i (to_uchar (fp_trunc (muld d_09 (f64 (rp_lev p))))) data;
             height \<leftarrow> wxr_height_tmp st;
             height \<leftarrow> grid_set j i (fp_trunc (muld (rp_hgt p) d_328)) height;
             Some (st\<lparr>wxr_data_tmp := Some data, wxr_height_tmp := Some height\<rparr>)
           }
         else Some st)"

definition picture_step :: "(int \<Rightarrow> bool) \<Rightarrow> radar_point \<Rightarrow> radar \<Rightarrow> radar option" where
  "picture_step heap p st =
     (let lon = rp_lon p; lat = rp_lat p;
          st = (if fp_eq (wxr_lonmax_tmp st) WXR_MISS
                then st\<lparr>wxr_lonmax_tmp := lon, wxr_latmax_tmp := lat\<rparr> else st);
          st = (if fp_less (wxr_lonmax_tmp st) lon then st\<lparr>wxr_lonmax_tmp := lon\<rparr> else st);
          st = (if fp_less (wxr_latmax_tmp st) lat then st\<lparr>wxr_latmax_tmp := lat\<rparr> else st)
      in if behind lon lat st then complete_picture heap st
         else if wxr_type st = 1 then draw_row p st else draw_point p st)"

text \<open>
  The two conditional blocks of the loop over the points: the point that ends phase 0 is the
  first one that is drawn in phase 1. Points with a coordinate 0 are padding.
\<close>

definition radar_step :: "(int \<Rightarrow> bool) \<Rightarrow> (fpval \<Rightarrow> fpval) \<Rightarrow> radar_point \<Rightarrow> radar \<Rightarrow> radar option" where
  "radar_step heap cosine p st =
     do {
       let located = \<not> fp_zero (rp_lon p) \<and> \<not> fp_zero (rp_lat p);
       st \<leftarrow> (if wxr_phase st = 0 \<and> located then bounds_step heap cosine p st else Some st);
       if wxr_phase st = 1 \<and> located then picture_step heap p st else Some st
     }"

section \<open>Reading\<close>

definition wxr_buffer_len :: "radar \<Rightarrow> int" where
  "wxr_buffer_len st =
     (if wxr_type st = 1 then 81
      else if wxr_is_xp12 st \<noteq> 0 then 5 + 24 * int MAXRADAR else 5 + 13 * int MAXRADAR)"

definition wxr_nrad :: "radar \<Rightarrow> nat" where
  "wxr_nrad st = (if wxr_type st = 1 then 1 else MAXRADAR)"

text \<open>The loop over the points of one datagram.\<close>

definition read_points :: "(int \<Rightarrow> bool) \<Rightarrow> (fpval \<Rightarrow> fpval) \<Rightarrow> nat \<Rightarrow> mem \<Rightarrow> radar \<Rightarrow> radar option" where
  "read_points heap cosine nrad buf =
     for_each [0..<nrad] (\<lambda>r st.
       do {
         p \<leftarrow> read_point (wxr_type st) (wxr_is_xp12 st) buf r;
         radar_step heap cosine p st
       })"

text \<open>
  The loop \<open>while (wxrReadLeft > 0)\<close>: the number of bytes to move is converted to \<open>size_t\<close>, so
  that it is huge when less than a datagram is left.
\<close>

partial_function (option) read_loop ::
  "(int \<Rightarrow> bool) \<Rightarrow> (fpval \<Rightarrow> fpval) \<Rightarrow> int \<times> int \<Rightarrow> int \<Rightarrow> nat \<Rightarrow> radar \<Rightarrow> radar option" where
  "read_loop heap cosine now len nrad st =
     (if wxrReadLeft st > 0 then
        (if heap len then
           do {
             let st = st\<lparr>wxr_t1 := now, wxr_firstread := 1\<rparr>;
             b \<leftarrow> wxrRecvBuffer st;
             buf \<leftarrow> mem_read b 0 (nat len);
             rest \<leftarrow> mem_read b len (nat (to_size (wxrReadLeft st - len)));
             b \<leftarrow> mem_write b 0 rest;
             st \<leftarrow> read_points heap cosine nrad buf
               (st\<lparr>wxrRecvBuffer := Some b, wxrReadLeft := wxrReadLeft st - len\<rparr>);
             read_loop heap cosine now len nrad st
           }
         else None)
      else Some st)"

definition read_wxr ::
  "(int \<Rightarrow> bool) \<Rightarrow> (fpval \<Rightarrow> fpval) \<Rightarrow> int \<times> int \<Rightarrow> radar \<Rightarrow> radar option" where
  "read_wxr heap cosine now st =
     (if (wxr_type st = 1 \<or> wxr_type st = 2) \<and> wxr_initialized st \<noteq> 0
      then read_loop heap cosine now (wxr_buffer_len st) (wxr_nrad st) st
      else Some st)"

section \<open>End\<close>

definition exit_wxr :: "radar \<Rightarrow> radar option" where
  "exit_wxr st =
     (if wxr_initialized st = 0 then Some st
      else do {
        let st = (if wxr_type st = 1 then deallocate_wxrdata (exit_wxr_socket st) else st);
        st \<leftarrow>
          (if wxr_type st = 2 then
             do {
               st \<leftarrow> put_request 0 7 st;
               st \<leftarrow> send_wxr_to_server st;
               Some (deallocate_wxrdata (exit_wxr_socket st))
             }
           else Some st);
        Some (st\<lparr>wxr_initialized := 0\<rparr>)
      })"

text \<open>The variables as C initialises them; \<open>wxr_type\<close> comes from the configuration of the display.\<close>

definition static_radar :: "int \<Rightarrow> radar" where
  "static_radar t =
     \<lparr> wxrServerIP = replicate 30 0, wxrServerPort = 0, wxrSendBuffer = None, wxrRecvBuffer = None,
       wxrSendBufferLen = 0, wxrRecvBufferLen = 0, wxrReadLeft = 0, wxr_is_xp12 = 0,
       wxr_poll_thread_exit_code = 0, wxr_poll_buffer = [], wxr_sent = [],
       wxr_lonmin_tmp = Fin 0 0, wxr_lonmax_tmp = Fin 0 0, wxr_latmin_tmp = Fin 0 0,
       wxr_latmax_tmp = Fin 0 0, wxr_pixperlon_tmp = 0, wxr_pixperlat_tmp = 0, wxr_ncol_tmp = 0,
       wxr_nlin_tmp = 0, wxr_data_tmp = None, wxr_height_tmp = None, wxr_type = t,
       wxr_lonmin = Fin 0 0, wxr_lonmax = Fin 0 0, wxr_latmin = Fin 0 0, wxr_latmax = Fin 0 0,
       wxr_pixperlon = 0, wxr_pixperlat = 0, wxr_ncol = 0, wxr_nlin = 0, wxr_phase = 0,
       wxr_initialized = 0, wxr_data = None, wxr_height = None, wxr_newdata = 0, wxr_firstread = 0,
       wxr_firstsend = 0, wxr_t1 = (0, 0) \<rparr>"

end
