(* ===== verification/WxrInterp.thy ===== *)
theory WxrInterp
  imports WxrFloat
begin

text \<open>
  The enlargement of the radar picture by \<open>bilinear_uchar\<close> and \<open>bilinear_int\<close>: in spite of the
  rounding of every operation, the loops read inside the old picture, and no pixel of the new one
  is larger than the largest of the four pixels it is computed from.
\<close>

section \<open>Which pixels are read\<close>

text \<open>An upper bound of \<open>(width-1)/newWidth\<close> in units of \<open>2 powi - 24\<close>.\<close>

definition scale_bound :: "int \<Rightarrow> int" where
  "scale_bound w = 2 ^ 24 * (w - 1) div (5 * w) + 1"

lemma scale_bound:
  assumes "2 \<le> w" and "w \<le> 32768"
  shows "2 ^ 24 * (w - 1) < scale_bound w * (5 * w)" and "scale_bound w * (5 * w) \<le> 2 ^ 24 * (w - 1) + 5 * w"
    and "0 \<le> scale_bound w" and "scale_bound w < 2 ^ 22" and "5 * scale_bound w \<ge> 2 ^ 23"
proof -
  let ?a = "2 ^ 24 * (w - 1)" and ?d = "5 * w"
  have d: "0 < ?d" using assms by simp
  from div_mult_mod_eq [of ?a ?d] pos_mod_bound [OF d, of ?a] pos_mod_sign [OF d, of ?a]
  show l: "?a < scale_bound w * ?d" and "scale_bound w * ?d \<le> ?a + ?d"
    by (simp_all add: scale_bound_def distrib_right)
  show "0 \<le> scale_bound w" using assms by (simp add: scale_bound_def pos_imp_zdiv_nonneg_iff)
  have "?a div ?d \<le> (2 ^ 24 * w) div ?d" using assms by (intro zdiv_mono1) simp_all
  also have "(2 ^ 24 * w) div ?d = 2 ^ 24 div 5" using assms by (metis mult.commute div_mult_mult2 less_irrefl zero_less_numeral less_le_trans)
  finally show "scale_bound w < 2 ^ 22" by (simp add: scale_bound_def)
  have "2 ^ 23 * w \<le> ?a" using assms by simp
  also note l
  also have "scale_bound w * ?d = (5 * scale_bound w) * w" by simp
  finally have "2 ^ 23 < 5 * scale_bound w"
    by (rule mult_right_less_imp_less) (use assms in simp)
  then show "5 * scale_bound w \<ge> 2 ^ 23" by simp
qed

lemma scale_is:
  assumes w: "2 \<le> w" "w \<le> 32768"
  shows "\<exists>u. fp_is (scale w (5 * w)) u \<and> u \<le> of_int (scale_bound w) / 2 ^ 24"
proof -
  define k where "k = nat (int 23 + 3 + bitlength \<bar>5 * w\<bar>)"
  define q where "q = \<bar>w - 1\<bar> * 2 ^ k div \<bar>5 * w\<bar>"
  define sticky :: int where "sticky = (if \<bar>w - 1\<bar> * 2 ^ k mod \<bar>5 * w\<bar> = 0 then 0 else 1)"
  let ?t = "scale_bound w"
  note t = scale_bound [OF w]
  have f: "f32 (w - 1) = Fin (w - 1) 0" "f32 (5 * w) = Fin (5 * w) 0"
    using w by (simp_all add: fp_of_int_exact)
  have sc: "scale w (5 * w) = fp_round 23 8 (2 * q + sticky) (- int k - 1)"
    using w by (simp add: scale_def f fin_div_def Let_def k_def q_def sticky_def)
  have k: "24 \<le> k" unfolding k_def using bitlength_nonneg [of "\<bar>5 * w\<bar>"] by linarith
  then have "(2 :: int) ^ k = 2 ^ 24 * 2 ^ (k - 24)" using power_add [of "2 :: int" 24 "k - 24"] by simp
  then have "(w - 1) * 2 ^ k = 2 ^ 24 * (w - 1) * 2 ^ (k - 24)" by (simp only: mult_ac)
  also have "\<dots> < (?t * 2 ^ (k - 24)) * (5 * w)"
    using mult_strict_right_mono [OF t(1), of "2 ^ (k - 24)"] by (simp add: mult_ac)
  finally have "(w - 1) * 2 ^ k < (?t * 2 ^ (k - 24)) * (5 * w)" .
  moreover have "q * (5 * w) \<le> (w - 1) * 2 ^ k"
  proof -
    have "0 \<le> (w - 1) * 2 ^ k mod (5 * w)" by (rule pos_mod_sign) (use w in simp)
    moreover have "q = (w - 1) * 2 ^ k div (5 * w)" using w by (simp add: q_def)
    ultimately show ?thesis using div_mult_mod_eq [of "(w - 1) * 2 ^ k" "5 * w"] by simp
  qed
  ultimately have "q * (5 * w) < (?t * 2 ^ (k - 24)) * (5 * w)" by (rule le_less_trans [rotated])
  then have "q < ?t * 2 ^ (k - 24)" by (rule mult_right_less_imp_less) (use w in simp)
  then have "2 * q + sticky \<le> 2 * (?t * 2 ^ (k - 24))" by (simp add: sticky_def)
  then have "val (2 * q + sticky) (- int k - 1) \<le> val (?t * 2 ^ (k - 24) * 2 ^ 1) (- int k - 1)"
    by (simp only: val_le_iff) simp
  also have "\<dots> = val ?t (- 24)" using k by (simp only: val_shift) (simp add: of_nat_diff)
  finally have le: "val (2 * q + sticky) (- int k - 1) \<le> val ?t (- 24)" .
  have v: "val ?t (- 24) = of_int ?t / 2 ^ 24" by (simp add: val_def power_int_def field_simps)
  moreover have "of_int ?t < (2 :: real) ^ 24" using t(4) by (simp flip: of_int_less_iff)
  ultimately have "val ?t (- 24) < 1" by simp
  then have "val ?t (- 24) < 2 powi (2 ^ (8 - 1))" by (simp add: power_int_def)
  moreover have "0 \<le> 2 * q + sticky"
    using w by (simp add: q_def sticky_def pos_imp_zdiv_nonneg_iff)
  ultimately show ?thesis
    using fp_round_le [OF _ le t(3), of 23 8] t(4) sc v by auto
qed

text \<open>The index computed for pixel \<open>i\<close> of the new picture, and the position between two pixels.\<close>

definition source :: "int \<Rightarrow> int \<Rightarrow> int" where
  "source w i = fp_trunc (mulf (scale w (5 * w)) (f32 i))"

definition offset :: "int \<Rightarrow> int \<Rightarrow> fpval" where
  "offset w i = subf (mulf (scale w (5 * w)) (f32 i)) (f32 (source w i))"

lemma position_is:
  assumes w: "2 \<le> w" "w \<le> 32768" and i: "0 \<le> i" "i < 5 * w"
  shows "\<exists>u. fp_is (mulf (scale w (5 * w)) (f32 i)) u \<and> u < of_int (w - 1)"
proof -
  let ?t = "scale_bound w" and ?n = "(w - 1) * 2 ^ 8 - 1"
  note t = scale_bound [OF w]
  from scale_is [OF w] obtain u where u: "fp_is (scale w (5 * w)) u" "u \<le> of_int ?t / 2 ^ 24" by blast
  from mul_value [OF u(1) f32_is, of i 23 8] i w obtain k g where
    k: "mulf (scale w (5 * w)) (f32 i) = fp_round 23 8 k g" "0 \<le> k" "val k g = u * of_int i" by auto
  have "?t * i \<le> ?t * (5 * w - 1)" using t(3) i by (intro mult_left_mono) simp_all
  also have "\<dots> \<le> 2 ^ 16 * ?n" using t(2,5) w by (simp add: algebra_simps)
  finally have ti: "of_int (?t * i) \<le> (of_int (2 ^ 16 * ?n) :: real)" by (simp only: of_int_le_iff)
  have "u * of_int i \<le> of_int ?t / 2 ^ 24 * of_int i"
    using u(2) i by (intro mult_right_mono) simp_all
  also have "\<dots> = of_int (?t * i) / 2 ^ 24" by simp
  also have "\<dots> \<le> of_int (2 ^ 16 * ?n) / 2 ^ 24" using ti by (intro divide_right_mono) simp_all
  also have "\<dots> = val ?n (- 8)" by (simp add: val_def power_int_def field_simps)
  finally have le: "val k g \<le> val ?n (- 8)" using k(3) by simp
  have v: "val ?n (- 8) < of_int (w - 1)" by (simp add: val_def power_int_def field_simps)
  also have "\<dots> \<le> 2 powi (2 ^ (8 - 1))" using w by (simp add: power_int_def)
  finally have "val ?n (- 8) < 2 powi (2 ^ (8 - 1))" .
  from fp_round_le [where mb = 23, OF k(2) le _ _ _ this] w obtain a h where
    "fp_round 23 8 k g = Fin a h" "0 \<le> a" "val a h \<le> val ?n (- 8)" by auto
  with k(1) v show ?thesis by (intro exI [of _ "val a h"]) simp
qed

lemma source_is:
  assumes w: "2 \<le> w" "w \<le> 32768" and i: "0 \<le> i" "i < 5 * w"
  shows "0 \<le> source w i" and "source w i + 1 < w" and "\<exists>u. fp_is (offset w i) u \<and> u \<le> 1"
proof -
  from position_is [OF assms] obtain u where
    u: "fp_is (mulf (scale w (5 * w)) (f32 i)) u" "u < of_int (w - 1)" by blast
  from fp_trunc_floor [OF u(1)] u(2) w have s: "source w i = \<lfloor>u\<rfloor>" by (simp add: source_def)
  with fp_is_nonneg [OF u(1)] show nn: "0 \<le> source w i" by simp
  from u(2) have "\<lfloor>u\<rfloor> < w - 1" by (simp only: floor_less_iff)
  with s show lt: "source w i + 1 < w" by simp
  have "fp_is (f32 (source w i)) (of_int (source w i))" using nn lt w by (intro f32_is) simp_all
  from subf_is_1 [OF u(1) this] s show "\<exists>u. fp_is (offset w i) u \<and> u \<le> 1"
    by (simp add: offset_def)
qed


section \<open>The weighted sum\<close>

lemma prod_bound:
  fixes p :: real
  assumes "0 \<le> p" "p \<le> P + a" and "0 \<le> q" "q \<le> Q + b"
    and "0 \<le> P" "P \<le> 255" "0 \<le> Q" "Q \<le> 1" "0 \<le> a" "0 \<le> b" "b \<le> 1"
  shows "p * q \<le> P * Q + (255 * b + 2 * a)"
proof -
  have "p * q \<le> (P + a) * (Q + b)" using assms by (intro mult_mono) simp_all
  also have "\<dots> = P * Q + P * b + (a * Q + a * b)" by (simp add: algebra_simps)
  also have "P * b \<le> 255 * b" using assms by (intro mult_right_mono) simp_all
  also have "a * Q + a * b \<le> a * 1 + a * 1" using assms by (intro add_mono mult_left_mono) simp_all
  finally show ?thesis by simp
qed

text \<open>One term: two products after another, in \<open>double\<close> or in \<open>float\<close>, with small errors.\<close>

abbreviation (input) eps :: real where "eps \<equiv> 1 / 2 ^ 40"
abbreviation (input) delta :: real where "delta \<equiv> 1 / 2 ^ 14"

lemma term_dd:
  assumes A: "fp_is a A" "A \<le> 255" and p: "fp_is p s" "s \<le> P + eps" "0 \<le> P" "P \<le> 1"
    and q: "fp_is q t" "t \<le> Q + eps" "0 \<le> Q" "Q \<le> 1"
  shows "\<exists>u. fp_is (muld (muld a p) q) u \<and> u \<le> A * P * Q + 4 * delta"
proof -
  note nn = fp_is_nonneg [OF A(1)] fp_is_nonneg [OF p(1)] fp_is_nonneg [OF q(1)]
  have ap: "A * P \<le> 255" using A p nn by (intro order_trans [OF mult_mono [of A 255 P 1]]) simp_all
  have apq: "A * P * Q \<le> 255" using ap q nn p by (intro order_trans [OF mult_mono [of "A * P" 255 Q 1]]) simp_all
  have b1: "A * s \<le> A * P + 255 * eps"
    using prod_bound [of A A 0 s P eps] A p nn by simp
  with ap have "A * s \<le> 2000" by simp
  from muld_is [OF A(1) p(1) this] b1 obtain u where
    u: "fp_is (muld a p) u" "u \<le> A * P + 256 * eps" by auto
  have b2: "u * t \<le> A * P * Q + (255 * eps + 2 * (256 * eps))"
    using prod_bound [of u "A * P" "256 * eps" t Q eps] u fp_is_nonneg [OF u(1)] q ap nn p by simp
  with apq have "u * t \<le> 2000" by simp
  from muld_is [OF u(1) q(1) this] b2 show ?thesis by auto
qed

lemma term_fd:
  assumes A: "fp_is a A" "A \<le> 255" and p: "fp_is p P" "P \<le> 1"
    and q: "fp_is q t" "t \<le> Q + eps" "0 \<le> Q" "Q \<le> 1"
  shows "\<exists>u. fp_is (muld (mulf a p) q) u \<and> u \<le> A * P * Q + 4 * delta"
proof -
  note nn = fp_is_nonneg [OF A(1)] fp_is_nonneg [OF p(1)] fp_is_nonneg [OF q(1)]
  have ap: "A * P \<le> 255" using A p nn by (intro order_trans [OF mult_mono [of A 255 P 1]]) simp_all
  have apq: "A * P * Q \<le> 255" using ap q nn by (intro order_trans [OF mult_mono [of "A * P" 255 Q 1]]) simp_all
  from mulf_is [OF A(1) p(1)] ap obtain u where
    u: "fp_is (mulf a p) u" "u \<le> A * P + delta" by auto
  have b: "u * t \<le> A * P * Q + (255 * eps + 2 * delta)"
    using prod_bound [of u "A * P" delta t Q eps] u fp_is_nonneg [OF u(1)] q ap nn by simp
  with apq have "u * t \<le> 2000" by simp
  from muld_is [OF u(1) q(1) this] b show ?thesis by auto
qed

lemma term_ff:
  assumes A: "fp_is a A" "A \<le> 255" and p: "fp_is p P" "P \<le> 1" and q: "fp_is q Q" "Q \<le> 1"
  shows "\<exists>u. fp_is (mulf (mulf a p) q) u \<and> u \<le> A * P * Q + 4 * delta"
proof -
  note nn = fp_is_nonneg [OF A(1)] fp_is_nonneg [OF p(1)] fp_is_nonneg [OF q(1)]
  have ap: "A * P \<le> 255" using A p nn by (intro order_trans [OF mult_mono [of A 255 P 1]]) simp_all
  have apq: "A * P * Q \<le> 255" using ap q nn by (intro order_trans [OF mult_mono [of "A * P" 255 Q 1]]) simp_all
  from mulf_is [OF A(1) p(1)] ap obtain u where
    u: "fp_is (mulf a p) u" "u \<le> A * P + delta" by auto
  have b: "u * Q \<le> A * P * Q + 2 * delta"
    using prod_bound [of u "A * P" delta Q Q 0] u fp_is_nonneg [OF u(1)] q ap nn by simp
  with apq have "u * Q \<le> 511" by simp
  from mulf_is [OF u(1) q(1) this] b show ?thesis by auto
qed

lemma weights:
  fixes M :: real
  assumes "0 \<le> X" "X \<le> 1" "0 \<le> Y" "Y \<le> 1" "A \<le> M" "B \<le> M" "C \<le> M" "D \<le> M"
  shows "A * (1 - X) * (1 - Y) + B * (1 - Y) * X + C * Y * (1 - X) + D * Y * X \<le> M"
proof -
  have w: "A * (1 - X) * (1 - Y) \<le> M * (1 - X) * (1 - Y)" "B * (1 - Y) * X \<le> M * (1 - Y) * X"
    "C * Y * (1 - X) \<le> M * Y * (1 - X)" "D * Y * X \<le> M * Y * X"
    using assms by (intro mult_right_mono; simp)+
  have "M * (1 - X) * (1 - Y) + M * (1 - Y) * X + M * Y * (1 - X) + M * Y * X = M"
    by (simp add: algebra_simps)
  with w show ?thesis by linarith
qed

lemma bilinear_sum_is:
  assumes v: "\<And>k. k \<in> {a, b, c, d} \<Longrightarrow> 0 \<le> k \<and> k \<le> m" and m: "m \<le> 255"
    and x: "fp_is xd X" "X \<le> 1" and y: "fp_is yd Y" "Y \<le> 1"
  shows "0 \<le> fp_trunc (bilinear_sum a b c d xd yd)" and "fp_trunc (bilinear_sum a b c d xd yd) \<le> m"
proof -
  note nn = fp_is_nonneg [OF x(1)] fp_is_nonneg [OF y(1)]
  have e: "f64 1 = Fin 1 0" by code_simp
  have one: "fp_is (f64 1) 1" by (simp add: e)
  from subd_is [OF one x(1)] x(2) nn obtain x1 where x1: "fp_is (subd (f64 1) xd) x1" "x1 \<le> 1 - X + eps" by auto
  from subd_is [OF one y(1)] y(2) nn obtain y1 where y1: "fp_is (subd (f64 1) yd) y1" "y1 \<le> 1 - Y + eps" by auto
  have px: "fp_is (f32 k) (of_int k)" "real_of_int k \<le> 255" "real_of_int k \<le> m" if "k \<in> {a, b, c, d}" for k
    using v [OF that] m by (simp_all add: f32_is)
  obtain t1 where t1: "fp_is (muld (muld (f32 a) (subd (f64 1) xd)) (subd (f64 1) yd)) t1"
    "t1 \<le> a * (1 - X) * (1 - Y) + 4 * delta"
    using term_dd [OF px(1,2) x1 _ _ y1, of a] x(2) y(2) nn by auto
  obtain t2 where t2: "fp_is (muld (muld (f32 b) (subd (f64 1) yd)) xd) t2"
    "t2 \<le> b * (1 - Y) * X + 4 * delta"
    using term_dd [OF px(1,2) y1 _ _ x(1), of b X] x(2) y(2) nn by auto
  obtain t3 where t3: "fp_is (muld (mulf (f32 c) yd) (subd (f64 1) xd)) t3"
    "t3 \<le> c * Y * (1 - X) + 4 * delta"
    using term_fd [OF px(1,2) y x1, of c] x(2) nn by auto
  obtain t4 where t4: "fp_is (mulf (mulf (f32 d) yd) xd) t4" "t4 \<le> d * Y * X + 4 * delta"
    using term_ff [OF px(1,2) y x, of d] by auto
  have w: "a * (1 - X) * (1 - Y) + b * (1 - Y) * X + c * Y * (1 - X) + d * Y * X \<le> real_of_int m"
    using weights [of X Y a m b c d] x(2) y(2) nn px(3) by simp
  have p: "0 \<le> a * (1 - X) * (1 - Y)" "0 \<le> b * (1 - Y) * X" "0 \<le> c * Y * (1 - X)" "0 \<le> d * Y * X"
    using v x(2) y(2) nn by simp_all
  have m': "real_of_int m \<le> 255" using m by simp
  note t = t1(2) t2(2) t3(2) t4(2)
  obtain s1 where s1: "fp_is (addd (muld (muld (f32 a) (subd (f64 1) xd)) (subd (f64 1) yd))
      (muld (muld (f32 b) (subd (f64 1) yd)) xd)) s1" "s1 \<le> t1 + t2 + eps"
    using addd_is [OF t1(1) t2(1)] t w p m' by auto
  obtain s2 where s2: "fp_is (addd (addd (muld (muld (f32 a) (subd (f64 1) xd)) (subd (f64 1) yd))
      (muld (muld (f32 b) (subd (f64 1) yd)) xd)) (muld (mulf (f32 c) yd) (subd (f64 1) xd))) s2" "s2 \<le> s1 + t3 + eps"
    using addd_is [OF s1(1) t3(1)] s1(2) t w p m' by auto
  obtain s3 where s3: "fp_is (bilinear_sum a b c d xd yd) s3" "s3 \<le> s2 + t4 + eps"
    using addd_is [OF s2(1) t4(1)] s1(2) s2(2) t w p m' unfolding bilinear_sum_def Let_def by auto
  have lt: "s3 < real_of_int (m + 1)" using s1(2) s2(2) s3(2) t w by simp
  then have tr: "fp_trunc (bilinear_sum a b c d xd yd) = \<lfloor>s3\<rfloor>"
    using fp_trunc_floor [OF s3(1)] m' by simp
  with fp_is_nonneg [OF s3(1)] show "0 \<le> fp_trunc (bilinear_sum a b c d xd yd)" by simp
  from lt have "\<lfloor>s3\<rfloor> < m + 1" by (simp only: floor_less_iff)
  with tr show "fp_trunc (bilinear_sum a b c d xd yd) \<le> m" by simp
qed


section \<open>The loops over the new picture\<close>

definition is_grid :: "int \<Rightarrow> int \<Rightarrow> grid \<Rightarrow> bool" where
  "is_grid h w g \<longleftrightarrow> int (length g) = h \<and> (\<forall>row \<in> set g. int (length row) = w)"

definition pixel_at :: "grid \<Rightarrow> int \<Rightarrow> int \<Rightarrow> int" where
  "pixel_at g j i = g ! nat j ! nat i"

lemma is_grid_row: "is_grid h w g \<Longrightarrow> 0 \<le> j \<Longrightarrow> j < h \<Longrightarrow> int (length (g ! nat j)) = w"
  by (auto simp: is_grid_def)

lemma grid_get_in:
  "is_grid h w g \<Longrightarrow> 0 \<le> j \<Longrightarrow> j < h \<Longrightarrow> 0 \<le> i \<Longrightarrow> i < w \<Longrightarrow> grid_get g j i = Some (pixel_at g j i)"
  using is_grid_row [of h w g j] by (simp add: grid_get_def arr_get_def is_grid_def pixel_at_def)

lemma grid_set_in:
  "is_grid h w g \<Longrightarrow> 0 \<le> j \<Longrightarrow> j < h \<Longrightarrow> 0 \<le> i \<Longrightarrow> i < w \<Longrightarrow>
   grid_set j i v g = Some (g[nat j := (g ! nat j)[nat i := v]])"
  using is_grid_row [of h w g j] by (simp add: grid_set_def arr_get_def arr_set_def is_grid_def)

lemma is_grid_update:
  "is_grid h w g \<Longrightarrow> int (length row) = w \<Longrightarrow> is_grid h w (g[j := row])"
  unfolding is_grid_def by (intro conjI ball_upd) simp_all

lemma is_grid_map [simp]:
  "is_grid (int h) (int w) (map (\<lambda>j. map (f j) [0..<w]) [0..<h])"
  by (auto simp: is_grid_def)

lemma is_grid_replicate [simp]: "0 \<le> h \<Longrightarrow> 0 \<le> w \<Longrightarrow> is_grid h w (replicate (nat h) (replicate (nat w) v))"
  by (auto simp: is_grid_def)

lemma fill_row:
  assumes g: "is_grid h w g" and j: "int j < h" and n: "int n \<le> w"
    and pixel: "\<And>i. i < n \<Longrightarrow> pixel (int j) (int i) = Some (f (int j) (int i))"
  shows "for_each [0..<n] (\<lambda>i newData. do { v \<leftarrow> pixel (int j) (int i);
      grid_set (int j) (int i) v newData }) g =
    Some (g[j := map (\<lambda>i. f (int j) (int i)) [0..<n] @ drop n (g ! j)])"
  using n pixel
proof (induction n)
  case (Suc n)
  let ?row = "map (\<lambda>i. f (int j) (int i)) [0..<n] @ drop n (g ! j)"
  from g j have lj: "j < length g" "int (length (g ! j)) = w"
    using is_grid_row [of h w g "int j"] by (auto simp: is_grid_def)
  from Suc.prems have nw: "int n < w" by simp
  with lj have l: "n < length (g ! j)" by simp
  have "is_grid h w (g[j := ?row])" using g l lj by (intro is_grid_update) simp_all
  then have "grid_set (int j) (int n) (f (int j) (int n)) (g[j := ?row]) =
      Some (g[j := ?row[n := f (int j) (int n)]])"
    using j nw lj by (subst grid_set_in) simp_all
  also have "?row[n := f (int j) (int n)] = map (\<lambda>i. f (int j) (int i)) [0..<Suc n] @ drop (Suc n) (g ! j)"
    using l by (simp add: list_update_append Cons_nth_drop_Suc [symmetric])
  finally show ?case using Suc by (simp add: for_each_append)
qed simp

lemma fill_grid_eq:
  assumes g: "is_grid (int h) (int w) g"
    and pixel: "\<And>j i. j < h \<Longrightarrow> i < w \<Longrightarrow> pixel (int j) (int i) = Some (f (int j) (int i))"
  shows "fill_grid pixel (int w) (int h) g =
    Some (map (\<lambda>j. map (\<lambda>i. f (int j) (int i)) [0..<w]) [0..<h])"
proof -
  let ?row = "\<lambda>j. map (\<lambda>i. f (int j) (int i)) [0..<w]"
  have "n \<le> h \<Longrightarrow> for_each [0..<n] (\<lambda>j. for_each [0..<w] (\<lambda>i newData.
      do { v \<leftarrow> pixel (int j) (int i); grid_set (int j) (int i) v newData })) g =
      Some (map ?row [0..<n] @ drop n g)" for n
  proof (induction n)
    case (Suc n)
    let ?g = "map ?row [0..<n] @ drop n g"
    from g have lg: "length g = h" by (simp add: is_grid_def)
    have gr: "is_grid (int h) (int w) ?g"
      using g Suc.prems by (auto simp: is_grid_def dest: in_set_dropD)
    from is_grid_row [OF gr, of "int n"] Suc.prems have "length (?g ! n) = w" by simp
    then have "?g[n := ?row n @ drop w (?g ! n)] = map ?row [0..<Suc n] @ drop (Suc n) g"
      using lg Suc.prems by (simp add: list_update_append Cons_nth_drop_Suc [symmetric])
    with fill_row [OF gr, of n w pixel f] Suc pixel show ?case
      by (simp add: for_each_append)
  qed simp
  from this [of h] g show ?thesis by (simp add: fill_grid_def is_grid_def)
qed

section \<open>The enlarged picture\<close>

lemma bilinear_pixel_is:
  assumes data: "is_grid h w data" and w: "2 \<le> w" "w \<le> 32768" and h: "2 \<le> h" "h \<le> 32768"
    and ij: "0 \<le> i" "i < 5 * w" "0 \<le> j" "j < 5 * h"
  shows "bilinear_pixel data (scale w (5 * w)) (scale h (5 * h)) j i =
    (let x = source w i; y = source h j
     in Some (bilinear_sum (pixel_at data y x) (pixel_at data y (x + 1)) (pixel_at data (y + 1) x)
          (pixel_at data (y + 1) (x + 1)) (offset w i) (offset h j)))"
proof -
  note x = source_is(1,2) [OF w ij(1,2)] and y = source_is(1,2) [OF h ij(3,4)]
  have "grid_get data (source h j) (source w i) = Some (pixel_at data (source h j) (source w i))"
    "grid_get data (source h j) (source w i + 1) = Some (pixel_at data (source h j) (source w i + 1))"
    "grid_get data (source h j + 1) (source w i) = Some (pixel_at data (source h j + 1) (source w i))"
    "grid_get data (source h j + 1) (source w i + 1) = Some (pixel_at data (source h j + 1) (source w i + 1))"
    using x y by (intro grid_get_in [OF data]; simp)+
  then show ?thesis
    unfolding bilinear_pixel_def Let_def source_def [symmetric] offset_def [symmetric] by simp
qed

text \<open>The four pixels of the old picture that a pixel of the new one is computed from.\<close>

definition neighbours :: "int \<Rightarrow> int \<Rightarrow> grid \<Rightarrow> int \<Rightarrow> int \<Rightarrow> int list" where
  "neighbours h w data j i =
     (let x = source w i; y = source h j
      in [pixel_at data y x, pixel_at data y (x + 1), pixel_at data (y + 1) x, pixel_at data (y + 1) (x + 1)])"

definition bytes_grid :: "grid \<Rightarrow> bool" where
  "bytes_grid g \<longleftrightarrow> (\<forall>row \<in> set g. \<forall>v \<in> set row. 0 \<le> v \<and> v \<le> 255)"

lemma pixel_at_byte:
  "is_grid h w g \<Longrightarrow> bytes_grid g \<Longrightarrow> 0 \<le> j \<Longrightarrow> j < h \<Longrightarrow> 0 \<le> i \<Longrightarrow> i < w \<Longrightarrow>
   0 \<le> pixel_at g j i \<and> pixel_at g j i \<le> 255"
proof -
  assume g: "is_grid h w g" "bytes_grid g" and ji: "0 \<le> j" "j < h" "0 \<le> i" "i < w"
  from g(1) ji have "g ! nat j \<in> set g" by (intro nth_mem) (simp add: is_grid_def nat_less_iff)
  moreover have "g ! nat j ! nat i \<in> set (g ! nat j)"
    using is_grid_row [OF g(1) ji(1,2)] ji by (intro nth_mem) (simp add: nat_less_iff)
  ultimately show ?thesis using g(2) by (simp add: bytes_grid_def pixel_at_def)
qed

definition enlarged :: "(fpval \<Rightarrow> int) \<Rightarrow> int \<Rightarrow> int \<Rightarrow> grid \<Rightarrow> int \<Rightarrow> int \<Rightarrow> int" where
  "enlarged conv h w data j i =
     (let n = neighbours h w data j i
      in conv (bilinear_sum (n ! 0) (n ! 1) (n ! 2) (n ! 3) (offset w i) (offset h j)))"

lemma bilinear_fill:
  assumes data: "is_grid h w data" and new: "is_grid (5 * h) (5 * w) new"
    and w: "2 \<le> w" "w \<le> 32768" and h: "2 \<le> h" "h \<le> 32768"
  shows "fill_grid (\<lambda>j i. map_option conv (bilinear_pixel data (scale w (5 * w)) (scale h (5 * h)) j i))
      (5 * w) (5 * h) new =
    Some (map (\<lambda>j. map (\<lambda>i. enlarged conv h w data (int j) (int i)) [0..<nat (5 * w)]) [0..<nat (5 * h)])"
proof -
  let ?p = "\<lambda>j i. map_option conv (bilinear_pixel data (scale w (5 * w)) (scale h (5 * h)) j i)"
  have p: "?p (int j) (int i) = Some (enlarged conv h w data (int j) (int i))"
    if "j < nat (5 * h)" "i < nat (5 * w)" for j i
    using that by (subst bilinear_pixel_is [OF data w h]) (simp_all add: enlarged_def neighbours_def Let_def)
  have n: "int (nat (5 * w)) = 5 * w" "int (nat (5 * h)) = 5 * h" using w h by simp_all
  from fill_grid_eq [of "nat (5 * h)" "nat (5 * w)" new ?p "enlarged conv h w data", unfolded n, OF new p]
  show ?thesis .
qed

lemmas bilinear_defs = bilinear_uchar_def bilinear_int_def Let_def

lemma is_grid_enlarged:
  "0 \<le> w \<Longrightarrow> 0 \<le> h \<Longrightarrow>
   is_grid h w (map (\<lambda>j. map (\<lambda>i. f (int j) (int i)) [0..<nat w]) [0..<nat h])"
  by (auto simp: is_grid_def)

lemma enlarged_uchar_bound:
  assumes data: "is_grid h w data" "bytes_grid data"
    and w: "2 \<le> w" "w \<le> 32768" and h: "2 \<le> h" "h \<le> 32768"
    and ij: "0 \<le> i" "i < 5 * w" "0 \<le> j" "j < 5 * h"
  shows "0 \<le> enlarged (\<lambda>v. to_uchar (fp_trunc v)) h w data j i"
    and "enlarged (\<lambda>v. to_uchar (fp_trunc v)) h w data j i \<le> Max (set (neighbours h w data j i))"
proof -
  note x = source_is [OF w ij(1,2)] and y = source_is [OF h ij(3,4)]
  let ?n = "neighbours h w data j i"
  have b: "0 \<le> k \<and> k \<le> 255" if "k \<in> set ?n" for k
    using that pixel_at_byte [OF data] x(1,2) y(1,2) by (auto simp: neighbours_def Let_def)
  have s: "{?n ! 0, ?n ! 1, ?n ! 2, ?n ! 3} = set ?n" by (simp add: neighbours_def Let_def)
  have m: "Max (set ?n) \<le> 255" using b by (subst Max_le_iff) (auto simp: neighbours_def Let_def)
  from x(3) y(3) obtain X Y where xy: "fp_is (offset w i) X" "X \<le> 1" "fp_is (offset h j) Y" "Y \<le> 1" by blast
  have r: "0 \<le> k \<and> k \<le> Max (set ?n)" if "k \<in> {?n ! 0, ?n ! 1, ?n ! 2, ?n ! 3}" for k
    using that b unfolding s by simp
  define t where "t = fp_trunc (bilinear_sum (?n ! 0) (?n ! 1) (?n ! 2) (?n ! 3) (offset w i) (offset h j))"
  have t: "0 \<le> t" "t \<le> Max (set ?n)"
    unfolding t_def by (rule bilinear_sum_is(1) [OF r m xy] bilinear_sum_is(2) [OF r m xy]; assumption)+
  from t m have "to_uchar t = t" unfolding to_uchar_def by (intro mod_pos_pos_trivial) linarith+
  then have "enlarged (\<lambda>v. to_uchar (fp_trunc v)) h w data j i = t"
    by (simp only: enlarged_def Let_def t_def)
  with t show "0 \<le> enlarged (\<lambda>v. to_uchar (fp_trunc v)) h w data j i"
    and "enlarged (\<lambda>v. to_uchar (fp_trunc v)) h w data j i \<le> Max (set ?n)"
    by simp_all
qed

text \<open>C25: \<open>bilinear_uchar\<close> enlarges a picture of 2 to 32768 rows and columns five times without
  leaving its arrays. Although every operation is rounded, no pixel of the result is brighter than
  the brightest of the four pixels it is computed from; nothing wraps around, and where there is
  no precipitation none appears.\<close>

theorem bilinear_uchar_correct:
  assumes "is_grid h w data" and "bytes_grid data" and "is_grid (5 * h) (5 * w) new"
    and "2 \<le> w" "w \<le> 32768" "2 \<le> h" "h \<le> 32768"
  shows "\<exists>pic. bilinear_uchar data new w h (5 * w) (5 * h) = Some pic \<and> is_grid (5 * h) (5 * w) pic \<and>
    (\<forall>i j. 0 \<le> i \<longrightarrow> i < 5 * w \<longrightarrow> 0 \<le> j \<longrightarrow> j < 5 * h \<longrightarrow>
       source w i + 1 < w \<and> source h j + 1 < h \<and>
       0 \<le> pixel_at pic j i \<and> pixel_at pic j i \<le> Max (set (neighbours h w data j i)))"
proof -
  let ?e = "enlarged (\<lambda>v. to_uchar (fp_trunc v)) h w data"
  let ?pic = "map (\<lambda>j. map (\<lambda>i. ?e (int j) (int i)) [0..<nat (5 * w)]) [0..<nat (5 * h)]"
  have px: "pixel_at ?pic j i = ?e j i" if "0 \<le> i" "i < 5 * w" "0 \<le> j" "j < 5 * h" for i j
    using that by (simp add: pixel_at_def)
  have "bilinear_uchar data new w h (5 * w) (5 * h) = Some ?pic"
    unfolding bilinear_defs by (rule bilinear_fill [OF assms(1,3-7)])
  moreover have "is_grid (5 * h) (5 * w) ?pic" using assms(4,6) by (intro is_grid_enlarged) simp_all
  ultimately show ?thesis
    using source_is(2) [OF assms(4,5)] source_is(2) [OF assms(6,7)]
      enlarged_uchar_bound [OF assms(1,2,4-7)] px by auto
qed

end
