(* ===== verification/WxrPicture.thy ===== *)
theory WxrPicture
  imports WxrScan WxrInterp
begin

text \<open>
  From radar points to the picture. A scan is a sequence of points that does not start over; the
  point that lies both west and south of what has been reached starts the next one. The lemmas
  follow \<open>radar_step\<close> through the scan that tells the bounds and the scan that is collected, and
  say what the picture is: every pixel shows the last point that fell on it.
\<close>

section \<open>Specification\<close>

text \<open>The points that are not padding, and those whose coordinates make sense.\<close>

definition located :: "radar_point \<Rightarrow> bool" where
  "located p \<longleftrightarrow> \<not> fp_zero (rp_lon p) \<and> \<not> fp_zero (rp_lat p)"

definition on_globe :: "radar_point \<Rightarrow> bool" where
  "on_globe p \<longleftrightarrow>
     fp_le (Fin (- 180) 0) (rp_lon p) \<and> fp_le (rp_lon p) (Fin 180 0) \<and>
     fp_le (Fin (- 90) 0) (rp_lat p) \<and> fp_le (rp_lat p) (Fin 90 0)"

text \<open>The western, eastern, southern and northern bound of a sequence of points.\<close>

type_synonym box = "fpval \<times> fpval \<times> fpval \<times> fpval"

fun extend :: "radar_point \<Rightarrow> box \<Rightarrow> box" where
  "extend p (west, east, south, north) =
     (if fp_less (rp_lon p) west then rp_lon p else west,
      if fp_less east (rp_lon p) then rp_lon p else east,
      if fp_less (rp_lat p) south then rp_lat p else south,
      if fp_less north (rp_lat p) then rp_lat p else north)"

definition around :: "radar_point \<Rightarrow> box" where
  "around p = (rp_lon p, rp_lon p, rp_lat p, rp_lat p)"

definition bounds :: "radar_point list \<Rightarrow> box" where
  "bounds ps = fold extend (tl ps) (around (hd ps))"

abbreviation (input) west :: "box \<Rightarrow> fpval" where "west b \<equiv> fst b"
abbreviation (input) east :: "box \<Rightarrow> fpval" where "east b \<equiv> fst (snd b)"
abbreviation (input) south :: "box \<Rightarrow> fpval" where "south b \<equiv> fst (snd (snd b))"
abbreviation (input) north :: "box \<Rightarrow> fpval" where "north b \<equiv> snd (snd (snd b))"

text \<open>The point \<open>p\<close> after the points \<open>ps\<close> starts a new scan.\<close>

definition starts_over :: "radar_point \<Rightarrow> radar_point list \<Rightarrow> bool" where
  "starts_over p ps \<longleftrightarrow>
     (let b = bounds (ps @ [p]) in fp_less (rp_lon p) (east b) \<and> fp_less (rp_lat p) (north b))"

fun continues :: "radar_point list \<Rightarrow> radar_point list \<Rightarrow> bool" where
  "continues ps [] = True"
| "continues ps (q # qs) = (\<not> starts_over q ps \<and> continues (ps @ [q]) qs)"

text \<open>What a point shows, and where: row and column.\<close>

definition level :: "radar_point \<Rightarrow> int" where
  "level p = to_uchar (fp_trunc (muld d_09 (f64 (rp_lev p))))"

definition top :: "radar_point \<Rightarrow> int" where
  "top p = fp_trunc (muld (rp_hgt p) d_328)"

definition row_of :: "fpval \<Rightarrow> radar_point \<Rightarrow> int" where
  "row_of latmin p = fp_trunc (mulf (subf (rp_lat p) latmin) (f32 60))"

definition column_of :: "fpval \<Rightarrow> int \<Rightarrow> radar_point \<Rightarrow> int" where
  "column_of lonmin n p = fp_trunc (mulf (subf (rp_lon p) lonmin) (f32 n))"

text \<open>The pixel shows the last point that falls on it, and 0 where there is none.\<close>

definition shown :: "(radar_point \<Rightarrow> int) \<Rightarrow> fpval \<Rightarrow> fpval \<Rightarrow> int \<Rightarrow> radar_point list \<Rightarrow> int \<Rightarrow> int \<Rightarrow> int" where
  "shown f lonmin latmin n ps j i =
     (case find (\<lambda>p. row_of latmin p = j \<and> column_of lonmin n p = i) (rev ps) of
        None \<Rightarrow> 0 | Some p \<Rightarrow> f p)"

definition grid_of :: "int \<Rightarrow> int \<Rightarrow> (int \<Rightarrow> int \<Rightarrow> int) \<Rightarrow> grid" where
  "grid_of h w f = map (\<lambda>j. map (\<lambda>i. f (int j) (int i)) [0..<nat w]) [0..<nat h]"

definition columns :: "box \<Rightarrow> int \<Rightarrow> int" where
  "columns b n = fp_trunc (addf (mulf (subf (east b) (west b)) (f32 n)) (f32 1))"

definition rows :: "box \<Rightarrow> int" where
  "rows b = fp_trunc (addf (mulf (subf (north b) (south b)) (f32 60)) (f32 1))"

section \<open>Comparisons\<close>

lemma fp_less_irrefl [simp]: "\<not> fp_less a a"
  by (simp add: fp_less_def)

text \<open>No coordinate on the globe is the missing value, nor is a bound of such coordinates.\<close>

definition not_miss :: "fpval \<Rightarrow> bool" where
  "not_miss v \<longleftrightarrow> fp_le (Fin (- 180) 0) v"

lemma not_miss_ne: "not_miss v \<Longrightarrow> \<not> fp_eq v WXR_MISS"
  by (cases v) (auto simp: not_miss_def fp_eq_def fin_le_val)

lemma bounds_Cons [simp]: "bounds [p] = around p"
  by (simp add: bounds_def)

lemma bounds_snoc: "ps \<noteq> [] \<Longrightarrow> bounds (ps @ [p]) = extend p (bounds ps)"
  by (simp add: bounds_def)

lemma bounds_not_miss:
  "ps \<noteq> [] \<Longrightarrow> \<forall>p \<in> set ps. on_globe p \<Longrightarrow> not_miss (east (bounds ps))"
proof (induction ps rule: rev_induct)
  case (snoc p ps)
  show ?case
  proof (cases "ps = []")
    case True
    with snoc.prems show ?thesis by (simp add: around_def on_globe_def not_miss_def)
  next
    case False
    obtain a b c d where "bounds ps = (a, b, c, d)" by (cases "bounds ps")
    with False snoc show ?thesis by (auto simp: bounds_snoc on_globe_def not_miss_def)
  qed
qed simp

lemma starts_over_single [simp]: "\<not> starts_over p []"
  by (simp add: starts_over_def around_def)

lemma continues_snoc: "continues ps (qs @ [q]) \<longleftrightarrow> continues ps qs \<and> \<not> starts_over q (ps @ qs)"
  by (induction qs arbitrary: ps) auto

lemma shown_snoc:
  "shown f lonmin latmin n (ps @ [p]) j i =
     (if row_of latmin p = j \<and> column_of lonmin n p = i then f p else shown f lonmin latmin n ps j i)"
  by (simp add: shown_def)

section \<open>Grids\<close>

lemma is_grid_of [simp]: "0 \<le> h \<Longrightarrow> 0 \<le> w \<Longrightarrow> is_grid h w (grid_of h w f)"
  unfolding grid_of_def by (rule is_grid_enlarged)

lemma length_grid_of [simp]: "length (grid_of h w f) = nat h"
  by (simp add: grid_of_def)

lemma grid_of_zero: "replicate (nat h) (replicate (nat w) 0) = grid_of h w (\<lambda>j i. 0)"
  by (simp add: grid_of_def map_replicate_const)

lemma grid_set_of:
  assumes "0 \<le> j" "j < h" "0 \<le> i" "i < w"
  shows "grid_set j i v (grid_of h w f) = Some (grid_of h w (\<lambda>j' i'. if j = j' \<and> i = i' then v else f j' i'))"
proof -
  have "grid_set j i v (grid_of h w f) =
      Some ((grid_of h w f)[nat j := (grid_of h w f ! nat j)[nat i := v]])"
    using assms by (intro grid_set_in [of h w]) simp_all
  also have "(grid_of h w f)[nat j := (grid_of h w f ! nat j)[nat i := v]] =
      grid_of h w (\<lambda>j' i'. if j = j' \<and> i = i' then v else f j' i')"
    using assms by (intro nth_equalityI) (auto simp: grid_of_def nth_list_update intro!: nth_equalityI)
  finally show ?thesis .
qed


lemma grid_of_cong:
  "(\<And>j i. 0 \<le> j \<Longrightarrow> j < h \<Longrightarrow> 0 \<le> i \<Longrightarrow> i < w \<Longrightarrow> f j i = g j i) \<Longrightarrow> grid_of h w f = grid_of h w g"
  by (auto simp: grid_of_def)

section \<open>The scan that tells the bounds\<close>

definition set_box :: "box \<Rightarrow> radar \<Rightarrow> radar" where
  "set_box b st =
     st\<lparr>wxr_lonmin_tmp := west b, wxr_lonmax_tmp := east b, wxr_latmin_tmp := south b,
        wxr_latmax_tmp := north b\<rparr>"

text \<open>The state after the points \<open>ps\<close> of the first scan.\<close>

definition scanning :: "radar_point list \<Rightarrow> radar \<Rightarrow> radar" where
  "scanning ps st = set_box (if ps = [] then (WXR_MISS, WXR_MISS, WXR_MISS, WXR_MISS) else bounds ps) st"

lemma widen_scanning:
  assumes "\<forall>p \<in> set ps. on_globe p"
  shows "widen (rp_lon p) (rp_lat p) (scanning ps st) = set_box (bounds (ps @ [p])) st"
proof (cases "ps = []")
  case True
  have "fp_eq WXR_MISS WXR_MISS" by code_simp
  with True show ?thesis by (simp add: widen_def scanning_def set_box_def around_def)
next
  case False
  obtain a b c d where b: "bounds ps = (a, b, c, d)" by (cases "bounds ps")
  from not_miss_ne [OF bounds_not_miss [OF False assms]] b have "\<not> fp_eq b WXR_MISS" by simp
  with False b show ?thesis
    by (simp add: widen_def scanning_def set_box_def bounds_snoc Let_def)
qed

lemma bounds_step_continues:
  assumes "\<forall>p \<in> set ps. on_globe p" and "\<not> starts_over p ps"
  shows "bounds_step heap cosine p (scanning ps st) = Some (scanning (ps @ [p]) st)"
proof -
  have "\<not> behind (rp_lon p) (rp_lat p) (set_box (bounds (ps @ [p])) st)"
    using assms(2) by (simp add: behind_def set_box_def starts_over_def Let_def)
  then show ?thesis
    unfolding bounds_step_def Let_def widen_scanning [OF assms(1)] by (simp add: scanning_def)
qed

lemma phase_scanning [simp]:
  "wxr_phase (scanning ps st) = wxr_phase st" "wxr_type (scanning ps st) = wxr_type st"
  by (simp_all add: scanning_def set_box_def)

lemma scan_bounds:
  assumes "wxr_phase st = 0" and "\<forall>p \<in> set (ps @ qs). located p \<and> on_globe p" and "continues ps qs"
  shows "for_each qs (radar_step heap cosine) (scanning ps st) = Some (scanning (ps @ qs) st)"
  using assms(2,3)
proof (induction qs arbitrary: ps)
  case (Cons q qs)
  from bounds_step_continues [of ps q heap cosine st] Cons.prems assms(1)
  have "radar_step heap cosine q (scanning ps st) = Some (scanning (ps @ [q]) st)"
    by (simp add: radar_step_def located_def)
  with Cons.IH [of "ps @ [q]"] Cons.prems show ?case by simp
qed simp

section \<open>The scan that is collected\<close>

text \<open>Enough memory for a picture of 32768 rows and columns, enlarged.\<close>

definition enough :: "(int \<Rightarrow> bool) \<Rightarrow> bool" where
  "enough heap \<longleftrightarrow> (\<forall>n \<in> {0..2000000}. heap n)"

lemma alloc_grid_of:
  assumes "enough heap" and "0 < h" "h \<le> 163840" "0 < w" "w \<le> 163840" "0 < k" "k \<le> 8"
  shows "alloc_grid heap k h w = Some (Some (grid_of h w (\<lambda>j i. 0)))"
proof -
  have "w * k \<le> 163840 * 8" using assms by (intro mult_mono) simp_all
  with assms have "heap (to_size (h * 8))" "heap (to_size (w * k))" by (simp_all add: enough_def)
  with assms show ?thesis by (simp add: alloc_grid_def grid_of_zero)
qed

definition picture :: "(radar_point \<Rightarrow> int) \<Rightarrow> box \<Rightarrow> int \<Rightarrow> radar_point list \<Rightarrow> grid" where
  "picture f b n qs = grid_of (rows b) (columns b n) (shown f (west b) (south b) n qs)"

text \<open>The state after the points \<open>qs\<close> of the second scan, with the bounds \<open>b\<close> of the first one.\<close>

definition collecting :: "box \<Rightarrow> int \<Rightarrow> radar_point list \<Rightarrow> radar \<Rightarrow> radar" where
  "collecting b n qs st =
     st\<lparr>wxr_lonmin_tmp := west b, wxr_latmin_tmp := south b,
        wxr_lonmax_tmp := (if qs = [] then WXR_MISS else east (bounds qs)),
        wxr_latmax_tmp := (if qs = [] then WXR_MISS else north (bounds qs)),
        wxr_pixperlon_tmp := n, wxr_pixperlat_tmp := 60, wxr_ncol_tmp := columns b n,
        wxr_nlin_tmp := rows b, wxr_data_tmp := Some (picture level b n qs),
        wxr_height_tmp := Some (picture top b n qs), wxr_phase := 1\<rparr>"

definition fits :: "box \<Rightarrow> int \<Rightarrow> bool" where
  "fits b n \<longleftrightarrow> 2 \<le> columns b n \<and> columns b n \<le> 32768 \<and> 2 \<le> rows b \<and> rows b \<le> 32768"

lemma picture_Nil: "picture f b n [] = grid_of (rows b) (columns b n) (\<lambda>j i. 0)"
  unfolding picture_def by (rule grid_of_cong) (simp add: shown_def)

lemma bounds_step_turns:
  assumes "\<forall>p \<in> set ps. on_globe p" and "starts_over p ps" and "wxr_type st = 2" and "enough heap"
    and b: "b = bounds (ps @ [p])" and n: "n = pixels_per_lon cosine (south b) (north b)"
    and "fits b n"
  shows "bounds_step heap cosine p (scanning ps st) = Some (collecting b n [] st)"
proof -
  have behind: "behind (rp_lon p) (rp_lat p) (set_box b st)"
    using assms(2) by (simp add: behind_def set_box_def starts_over_def Let_def b)
  have size: "set_size cosine (set_box b st) = (set_box b st)\<lparr>wxr_pixperlon_tmp := n,
      wxr_pixperlat_tmp := 60, wxr_ncol_tmp := columns b n, wxr_nlin_tmp := rows b\<rparr>"
    using assms(3) by (simp add: set_size_def set_box_def Let_def columns_def rows_def n)
  have "alloc_grid heap k (rows b) (columns b n) = Some (Some (grid_of (rows b) (columns b n) (\<lambda>j i. 0)))"
    if "k = 1 \<or> k = 4" for k
    using assms(4,7) that by (intro alloc_grid_of) (auto simp: fits_def)
  with behind show ?thesis
    unfolding bounds_step_def Let_def widen_scanning [OF assms(1)] b [symmetric] size
    by (simp add: collecting_def picture_Nil set_box_def)
qed

lemma picture_snoc:
  "picture f b n (qs @ [q]) =
     (if 0 \<le> row_of (south b) q \<and> row_of (south b) q < rows b \<and>
         0 \<le> column_of (west b) n q \<and> column_of (west b) n q < columns b n
      then the (grid_set (row_of (south b) q) (column_of (west b) n q) (f q) (picture f b n qs))
      else picture f b n qs)"
  unfolding picture_def
  by (auto simp: grid_set_of shown_snoc intro!: grid_of_cong)

text \<open>What \<open>picture_step\<close> has done to the eastern and northern bound when it decides.\<close>

definition reach :: "radar_point \<Rightarrow> radar \<Rightarrow> radar" where
  "reach p st =
     (let st = (if fp_eq (wxr_lonmax_tmp st) WXR_MISS
                then st\<lparr>wxr_lonmax_tmp := rp_lon p, wxr_latmax_tmp := rp_lat p\<rparr> else st);
          st = (if fp_less (wxr_lonmax_tmp st) (rp_lon p) then st\<lparr>wxr_lonmax_tmp := rp_lon p\<rparr> else st)
      in if fp_less (wxr_latmax_tmp st) (rp_lat p) then st\<lparr>wxr_latmax_tmp := rp_lat p\<rparr> else st)"

lemma picture_step_reach:
  "picture_step heap p st =
     (if behind (rp_lon p) (rp_lat p) (reach p st) then complete_picture heap (reach p st)
      else if wxr_type (reach p st) = 1 then draw_row p (reach p st) else draw_point p (reach p st))"
  by (simp add: picture_step_def reach_def Let_def)

definition reached :: "box \<Rightarrow> int \<Rightarrow> radar_point list \<Rightarrow> radar_point \<Rightarrow> radar \<Rightarrow> radar" where
  "reached b n qs q st =
     (collecting b n qs st)\<lparr>wxr_lonmax_tmp := east (bounds (qs @ [q])),
       wxr_latmax_tmp := north (bounds (qs @ [q]))\<rparr>"

lemma reach_collecting:
  assumes "\<forall>p \<in> set qs. on_globe p"
  shows "reach q (collecting b n qs st) = reached b n qs q st"
proof (cases "qs = []")
  case True
  have "fp_eq WXR_MISS WXR_MISS" by code_simp
  with True show ?thesis by (simp add: reach_def collecting_def reached_def around_def Let_def)
next
  case False
  obtain a e c d where e: "bounds qs = (a, e, c, d)" by (cases "bounds qs")
  from not_miss_ne [OF bounds_not_miss [OF False assms]] e have "\<not> fp_eq e WXR_MISS" by simp
  with False e show ?thesis
    by (simp add: reach_def collecting_def reached_def bounds_snoc Let_def)
qed

lemma behind_reached:
  "behind (rp_lon q) (rp_lat q) (reached b n qs q st) \<longleftrightarrow> starts_over q qs"
  by (simp add: behind_def reached_def starts_over_def Let_def)

lemma draw_reached:
  "draw_point q (reached b n qs q st) =
     Some ((reached b n qs q st)\<lparr>wxr_data_tmp := Some (picture level b n (qs @ [q])),
       wxr_height_tmp := Some (picture top b n (qs @ [q]))\<rparr>)"
proof -
  let ?j = "row_of (south b) q" and ?i = "column_of (west b) n q"
  show ?thesis
  proof (cases "0 \<le> ?j \<and> ?j < rows b \<and> 0 \<le> ?i \<and> ?i < columns b n")
    case True
    then have "grid_set ?j ?i (f q) (picture f b n qs) = Some (picture f b n (qs @ [q]))" for f
      unfolding picture_snoc by (simp add: picture_def grid_set_of)
    with True show ?thesis
      by (simp add: draw_point_def reached_def collecting_def row_of_def [symmetric]
        column_of_def [symmetric] level_def [symmetric] top_def [symmetric] Let_def)
  next
    case False
    then have "picture f b n (qs @ [q]) = picture f b n qs" for f unfolding picture_snoc by auto
    with False show ?thesis
      by (auto simp: draw_point_def reached_def collecting_def row_of_def [symmetric]
        column_of_def [symmetric] Let_def)
  qed
qed

lemma picture_step_continues:
  assumes "\<forall>p \<in> set qs. on_globe p" and "\<not> starts_over q qs" and "wxr_type st = 2"
  shows "picture_step heap q (collecting b n qs st) = Some (collecting b n (qs @ [q]) st)"
proof -
  have "wxr_type (reached b n qs q st) = 2"
    using assms(3) by (simp add: reached_def collecting_def)
  then show ?thesis
    using assms(2) unfolding picture_step_reach reach_collecting [OF assms(1)] behind_reached draw_reached
    by (simp add: reached_def collecting_def)
qed

lemma scan_picture:
  assumes "wxr_type st = 2" and "\<forall>p \<in> set (ps @ qs). located p \<and> on_globe p" and "continues ps qs"
  shows "for_each qs (radar_step heap cosine) (collecting b n ps st) = Some (collecting b n (ps @ qs) st)"
  using assms(2,3)
proof (induction qs arbitrary: ps)
  case (Cons q qs)
  from picture_step_continues [of ps q st heap b n] Cons.prems assms(1)
  have "radar_step heap cosine q (collecting b n ps st) = Some (collecting b n (ps @ [q]) st)"
    by (simp add: radar_step_def located_def collecting_def)
  with Cons.IH [of "ps @ [q]"] Cons.prems show ?case by simp
qed simp

section \<open>The finished picture\<close>

definition big_picture :: "(fpval \<Rightarrow> int) \<Rightarrow> (radar_point \<Rightarrow> int) \<Rightarrow> box \<Rightarrow> int \<Rightarrow> radar_point list \<Rightarrow> grid" where
  "big_picture conv f b n qs =
     grid_of (5 * rows b) (5 * columns b n) (enlarged conv (rows b) (columns b n) (picture f b n qs))"

definition finished :: "box \<Rightarrow> int \<Rightarrow> radar_point list \<Rightarrow> radar \<Rightarrow> radar" where
  "finished b n qs st =
     st\<lparr>wxr_lonmin_tmp := WXR_MISS, wxr_lonmax_tmp := WXR_MISS, wxr_latmin_tmp := WXR_MISS,
        wxr_latmax_tmp := WXR_MISS, wxr_pixperlon_tmp := n, wxr_pixperlat_tmp := 60,
        wxr_ncol_tmp := columns b n, wxr_nlin_tmp := rows b, wxr_data_tmp := None,
        wxr_height_tmp := None, wxr_lonmin := west b, wxr_latmin := south b,
        wxr_lonmax := addf (west b) (f32 (5 * columns b n sdiv (5 * n))),
        wxr_latmax := addf (south b) (f32 (5 * rows b sdiv 300)),
        wxr_pixperlon := 5 * n, wxr_pixperlat := 300, wxr_ncol := 5 * columns b n,
        wxr_nlin := 5 * rows b, wxr_phase := 0,
        wxr_data := Some (big_picture (\<lambda>v. to_uchar (fp_trunc v)) level b n qs),
        wxr_height := Some (big_picture fp_trunc top b n qs), wxr_newdata := 1\<rparr>"

text \<open>The rows of the picture shown so far are there to be freed.\<close>

definition shown_ok :: "radar \<Rightarrow> bool" where
  "shown_ok st \<longleftrightarrow>
     free_grid (wxr_nlin st) (wxr_data st) = Some () \<and> free_grid (wxr_nlin st) (wxr_height st) = Some ()"

lemma complete_reached:
  assumes "enough heap" and "fits b n" and "1 \<le> n" "n \<le> 60" and "shown_ok st"
  shows "complete_picture heap (reached b n qs q st) = Some (finished b n qs st)"
proof -
  let ?h = "rows b" and ?w = "columns b n"
  from assms(2) have hw: "2 \<le> ?h" "?h \<le> 32768" "2 \<le> ?w" "?w \<le> 32768" by (simp_all add: fits_def)
  have al: "alloc_grid heap k (5 * ?h) (5 * ?w) = Some (Some (grid_of (5 * ?h) (5 * ?w) (\<lambda>j i. 0)))"
    if "k = 1 \<or> k = 4" for k
    using assms(1) hw that by (intro alloc_grid_of) auto
  have gp: "is_grid ?h ?w (picture f b n qs)" for f using hw by (simp add: picture_def)
  have gn: "is_grid (5 * ?h) (5 * ?w) (grid_of (5 * ?h) (5 * ?w) (\<lambda>j i. 0))" using hw by simp
  have bu: "bilinear_uchar (picture f b n qs) (grid_of (5 * ?h) (5 * ?w) (\<lambda>j i. 0)) ?w ?h (5 * ?w) (5 * ?h) =
      Some (big_picture (\<lambda>v. to_uchar (fp_trunc v)) f b n qs)" for f
    unfolding bilinear_defs big_picture_def grid_of_def
    by (rule bilinear_fill [OF gp gn [unfolded grid_of_def] hw(3,4,1,2)])
  have bi: "bilinear_int (picture f b n qs) (grid_of (5 * ?h) (5 * ?w) (\<lambda>j i. 0)) ?w ?h (5 * ?w) (5 * ?h) =
      Some (big_picture fp_trunc f b n qs)" for f
    unfolding bilinear_defs big_picture_def grid_of_def
    by (rule bilinear_fill [OF gp gn [unfolded grid_of_def] hw(3,4,1,2)])
  have wr: "wrap32 (5 * ?h) = 5 * ?h" "wrap32 (5 * ?w) = 5 * ?w" "wrap32 (5 * n) = 5 * n" "wrap32 300 = 300"
    using hw assms(3,4) by (simp_all add: in_i32_def)
  have fr: "free_rows ?h (Some (picture f b n qs)) = Some ()" for f
    using hw by (simp add: free_rows_def picture_def)
  show ?thesis
    using assms(3,5) hw al bu bi fr
    by (simp add: complete_picture_def reached_def collecting_def shown_ok_def wr interpolate_def
      Let_def finished_def)
qed


section \<open>Two scans make a picture\<close>

text \<open>
  A complete transmission: the points \<open>ps\<close> of a first scan, the points \<open>qs\<close> of a second one, and
  the first point of a third one.
\<close>

definition two_scans :: "radar_point list \<Rightarrow> radar_point list \<Rightarrow> radar_point \<Rightarrow> bool" where
  "two_scans ps qs c \<longleftrightarrow>
     qs \<noteq> [] \<and> list_all on_globe (ps @ qs @ [c]) \<and> continues [] ps \<and> starts_over (hd qs) ps \<and>
     continues [] qs \<and> starts_over c qs"

text \<open>The bounds that the code determines from them, and the resolution.\<close>

definition scan_box :: "radar_point list \<Rightarrow> radar_point list \<Rightarrow> box" where
  "scan_box ps qs = bounds (ps @ [hd qs])"

definition resolution :: "(fpval \<Rightarrow> fpval) \<Rightarrow> box \<Rightarrow> int" where
  "resolution cosine b = pixels_per_lon cosine (south b) (north b)"

text \<open>The receiver waits for the first point of a first scan.\<close>

definition waiting :: "radar \<Rightarrow> bool" where
  "waiting st \<longleftrightarrow>
     wxr_phase st = 0 \<and> wxr_lonmin_tmp st = WXR_MISS \<and> wxr_lonmax_tmp st = WXR_MISS \<and>
     wxr_latmin_tmp st = WXR_MISS \<and> wxr_latmax_tmp st = WXR_MISS \<and> shown_ok st"

lemma waiting_scanning: "waiting st \<Longrightarrow> scanning [] st = st"
  by (simp add: waiting_def scanning_def set_box_def)

lemma radar_step_padding: "\<not> located p \<Longrightarrow> radar_step heap cosine p st = Some st"
  by (auto simp: radar_step_def located_def)

lemma without_padding:
  "for_each ps (radar_step heap cosine) st = for_each (filter located ps) (radar_step heap cosine) st"
proof (induction ps arbitrary: st)
  case (Cons p ps)
  then show ?case
    by (cases "located p"; cases "radar_step heap cosine p st") (simp_all add: radar_step_padding)
qed simp

lemma two_scans_finished:
  assumes st: "waiting st" "wxr_type st = 2" and heap: "enough heap"
    and points: "filter located points = ps @ qs @ [c]" and scans: "two_scans ps qs c"
    and n: "1 \<le> resolution cosine (scan_box ps qs)" "resolution cosine (scan_box ps qs) \<le> 60"
    and size: "fits (scan_box ps qs) (resolution cosine (scan_box ps qs))"
  shows "for_each points (radar_step heap cosine) st =
    Some (finished (scan_box ps qs) (resolution cosine (scan_box ps qs)) qs st)"
proof -
  let ?b = "scan_box ps qs" and ?n = "resolution cosine (scan_box ps qs)"
  from scans obtain q rest where qs: "qs = q # rest" by (cases qs) (auto simp: two_scans_def)
  have loc: "\<forall>p \<in> set (ps @ qs @ [c]). located p" unfolding points [symmetric] by simp
  have ok: "\<forall>p \<in> set (ps @ qs @ [c]). on_globe p"
    using scans by (simp add: two_scans_def list_all_iff)
  from st(1) have ph: "wxr_phase st = 0" by (simp add: waiting_def)
  have 1: "for_each ps (radar_step heap cosine) st = Some (scanning ps st)"
    using scan_bounds [of st "[]" ps heap cosine] ph loc ok scans
    by (simp add: waiting_scanning [OF st(1)] two_scans_def)
  have "bounds_step heap cosine q (scanning ps st) = Some (collecting ?b ?n [] st)"
    using ok scans qs st(2) heap size
    by (intro bounds_step_turns) (simp_all add: two_scans_def scan_box_def resolution_def)
  moreover have "picture_step heap q (collecting ?b ?n [] st) = Some (collecting ?b ?n [q] st)"
    using picture_step_continues [of "[]" q st heap ?b ?n] st(2) by simp
  ultimately have 2: "radar_step heap cosine q (scanning ps st) = Some (collecting ?b ?n [q] st)"
    using ph loc qs by (simp add: radar_step_def located_def collecting_def)
  have 3: "for_each rest (radar_step heap cosine) (collecting ?b ?n [q] st) = Some (collecting ?b ?n qs st)"
    using scan_picture [OF st(2), of "[q]" rest heap cosine ?b ?n] loc ok scans qs
    by (simp add: two_scans_def)
  have "picture_step heap c (collecting ?b ?n qs st) = Some (finished ?b ?n qs st)"
    using scans ok heap size n st(1) complete_reached [of heap ?b ?n st qs c]
    by (simp add: picture_step_reach reach_collecting behind_reached two_scans_def waiting_def)
  then have 4: "radar_step heap cosine c (collecting ?b ?n qs st) = Some (finished ?b ?n qs st)"
    using loc by (simp add: radar_step_def located_def collecting_def)
  show ?thesis
    unfolding without_padding [of points] points using 1 2 3 4 qs by (simp add: for_each_append)
qed

lemma waiting_finished: "fits b n \<Longrightarrow> waiting (finished b n qs st)"
  by (simp add: waiting_def finished_def shown_ok_def free_grid_def free_rows_def big_picture_def fits_def)

end
