(* ===== verification/WxrFrames.thy ===== *)
theory WxrFrames
  imports WxrPicture
begin

text \<open>
  From datagrams to radar points: the receive thread appends whole datagrams to the buffer, and
  \<open>read_wxr\<close> takes them out and processes their points in order, so that a transmission of any
  number of datagrams in any number of turns of the main loop becomes one sequence of points.
\<close>

section \<open>The steps do not touch the receiver\<close>

text \<open>What the receive thread and \<open>read_loop\<close> change between the datagrams.\<close>

definition reception :: "ptr \<Rightarrow> int \<Rightarrow> int \<Rightarrow> int \<times> int \<Rightarrow> mem \<times> int \<times> int \<times> int \<Rightarrow> radar \<Rightarrow> radar" where
  "reception b left xp12 now m st =
     st\<lparr>wxrRecvBuffer := b, wxrReadLeft := left, wxr_is_xp12 := xp12, wxr_t1 := now, wxr_firstread := 1,
        wxr_type := 2, wxr_poll_buffer := fst m, wxr_initialized := fst (snd m),
        wxr_poll_thread_exit_code := fst (snd (snd m)), wxrRecvBufferLen := snd (snd (snd m))\<rparr>"

text \<open>\<open>reception\<close> is moved outwards through reads and writes of the picture's variables.\<close>

lemma reception_sel:
  "wxr_lonmin_tmp (reception b l x t m u) = wxr_lonmin_tmp u"
  "wxr_lonmax_tmp (reception b l x t m u) = wxr_lonmax_tmp u"
  "wxr_latmin_tmp (reception b l x t m u) = wxr_latmin_tmp u"
  "wxr_latmax_tmp (reception b l x t m u) = wxr_latmax_tmp u"
  "wxr_pixperlon_tmp (reception b l x t m u) = wxr_pixperlon_tmp u"
  "wxr_pixperlat_tmp (reception b l x t m u) = wxr_pixperlat_tmp u"
  "wxr_ncol_tmp (reception b l x t m u) = wxr_ncol_tmp u"
  "wxr_nlin_tmp (reception b l x t m u) = wxr_nlin_tmp u"
  "wxr_data_tmp (reception b l x t m u) = wxr_data_tmp u"
  "wxr_height_tmp (reception b l x t m u) = wxr_height_tmp u"
  "wxr_lonmin (reception b l x t m u) = wxr_lonmin u"
  "wxr_lonmax (reception b l x t m u) = wxr_lonmax u"
  "wxr_latmin (reception b l x t m u) = wxr_latmin u"
  "wxr_latmax (reception b l x t m u) = wxr_latmax u"
  "wxr_pixperlon (reception b l x t m u) = wxr_pixperlon u"
  "wxr_pixperlat (reception b l x t m u) = wxr_pixperlat u"
  "wxr_ncol (reception b l x t m u) = wxr_ncol u"
  "wxr_nlin (reception b l x t m u) = wxr_nlin u"
  "wxr_phase (reception b l x t m u) = wxr_phase u"
  "wxr_data (reception b l x t m u) = wxr_data u"
  "wxr_height (reception b l x t m u) = wxr_height u"
  "wxr_newdata (reception b l x t m u) = wxr_newdata u"
  "wxr_type (reception b l x t m u) = 2" "wxr_poll_buffer (reception b l x t m u) = fst m"
  "wxr_initialized (reception b l x t m u) = fst (snd m)"
  "wxr_poll_thread_exit_code (reception b l x t m u) = fst (snd (snd m))"
  "wxrRecvBufferLen (reception b l x t m u) = snd (snd (snd m))" "wxrRecvBuffer (reception b l x t m u) = b"
  "wxrReadLeft (reception b l x t m u) = l" "wxr_is_xp12 (reception b l x t m u) = x"
  by (simp_all add: reception_def)

lemma reception_upd:
  "(reception b l x t m u)\<lparr>wxr_lonmin_tmp := v0\<rparr> = reception b l x t m (u\<lparr>wxr_lonmin_tmp := v0\<rparr>)"
  "(reception b l x t m u)\<lparr>wxr_lonmax_tmp := v1\<rparr> = reception b l x t m (u\<lparr>wxr_lonmax_tmp := v1\<rparr>)"
  "(reception b l x t m u)\<lparr>wxr_latmin_tmp := v2\<rparr> = reception b l x t m (u\<lparr>wxr_latmin_tmp := v2\<rparr>)"
  "(reception b l x t m u)\<lparr>wxr_latmax_tmp := v3\<rparr> = reception b l x t m (u\<lparr>wxr_latmax_tmp := v3\<rparr>)"
  "(reception b l x t m u)\<lparr>wxr_pixperlon_tmp := v4\<rparr> = reception b l x t m (u\<lparr>wxr_pixperlon_tmp := v4\<rparr>)"
  "(reception b l x t m u)\<lparr>wxr_pixperlat_tmp := v5\<rparr> = reception b l x t m (u\<lparr>wxr_pixperlat_tmp := v5\<rparr>)"
  "(reception b l x t m u)\<lparr>wxr_ncol_tmp := v6\<rparr> = reception b l x t m (u\<lparr>wxr_ncol_tmp := v6\<rparr>)"
  "(reception b l x t m u)\<lparr>wxr_nlin_tmp := v7\<rparr> = reception b l x t m (u\<lparr>wxr_nlin_tmp := v7\<rparr>)"
  "(reception b l x t m u)\<lparr>wxr_data_tmp := v8\<rparr> = reception b l x t m (u\<lparr>wxr_data_tmp := v8\<rparr>)"
  "(reception b l x t m u)\<lparr>wxr_height_tmp := v9\<rparr> = reception b l x t m (u\<lparr>wxr_height_tmp := v9\<rparr>)"
  "(reception b l x t m u)\<lparr>wxr_lonmin := v10\<rparr> = reception b l x t m (u\<lparr>wxr_lonmin := v10\<rparr>)"
  "(reception b l x t m u)\<lparr>wxr_lonmax := v11\<rparr> = reception b l x t m (u\<lparr>wxr_lonmax := v11\<rparr>)"
  "(reception b l x t m u)\<lparr>wxr_latmin := v12\<rparr> = reception b l x t m (u\<lparr>wxr_latmin := v12\<rparr>)"
  "(reception b l x t m u)\<lparr>wxr_latmax := v13\<rparr> = reception b l x t m (u\<lparr>wxr_latmax := v13\<rparr>)"
  "(reception b l x t m u)\<lparr>wxr_pixperlon := v14\<rparr> = reception b l x t m (u\<lparr>wxr_pixperlon := v14\<rparr>)"
  "(reception b l x t m u)\<lparr>wxr_pixperlat := v15\<rparr> = reception b l x t m (u\<lparr>wxr_pixperlat := v15\<rparr>)"
  "(reception b l x t m u)\<lparr>wxr_ncol := v16\<rparr> = reception b l x t m (u\<lparr>wxr_ncol := v16\<rparr>)"
  "(reception b l x t m u)\<lparr>wxr_nlin := v17\<rparr> = reception b l x t m (u\<lparr>wxr_nlin := v17\<rparr>)"
  "(reception b l x t m u)\<lparr>wxr_phase := v18\<rparr> = reception b l x t m (u\<lparr>wxr_phase := v18\<rparr>)"
  "(reception b l x t m u)\<lparr>wxr_data := v19\<rparr> = reception b l x t m (u\<lparr>wxr_data := v19\<rparr>)"
  "(reception b l x t m u)\<lparr>wxr_height := v20\<rparr> = reception b l x t m (u\<lparr>wxr_height := v20\<rparr>)"
  "(reception b l x t m u)\<lparr>wxr_newdata := v21\<rparr> = reception b l x t m (u\<lparr>wxr_newdata := v21\<rparr>)"
  by (simp_all add: reception_def)

lemma reception_if:
  "(if c then reception b l x t m u else reception b l x t m v) = reception b l x t m (if c then u else v)"
  "(if c then map_option (reception b l x t m) y else map_option (reception b l x t m) n) =
     map_option (reception b l x t m) (if c then y else n)"
  "(if c then None else map_option (reception b l x t m) n) =
     map_option (reception b l x t m) (if c then None else n)"
  "Some (reception b l x t m u) = map_option (reception b l x t m) (Some u)"
  by simp_all

lemma map_bind: "Option.bind x (\<lambda>y. map_option f (g y)) = map_option f (Option.bind x g)"
  by (cases x) simp_all

lemmas reception_simps = reception_sel reception_upd reception_if map_bind

lemma widen_reception: "widen lon lat (reception b l x t m u) = reception b l x t m (widen lon lat u)"
  unfolding widen_def Let_def by (simp only: reception_simps)

lemma behind_reception: "behind lon lat (reception b l x t m u) = behind lon lat u"
  unfolding behind_def by (simp only: reception_simps)

lemma type_widen: "wxr_type (widen lon lat u) = wxr_type u"
  unfolding widen_def Let_def by simp

lemma set_size_reception:
  "wxr_type u = 2 \<Longrightarrow> set_size cosine (reception b l x t m u) = reception b l x t m (set_size cosine u)"
  unfolding set_size_def Let_def by (simp add: reception_sel) (simp only: reception_upd)

lemma bounds_step_reception:
  "wxr_type st = 2 \<Longrightarrow> bounds_step heap cosine p (reception b l x t m st) =
     map_option (reception b l x t m) (bounds_step heap cosine p st)"
  unfolding bounds_step_def Let_def
  by (simp only: widen_reception behind_reception set_size_reception type_widen reception_simps)

lemma interpolate_reception: "interpolate f src dst (reception b l x t m u) = interpolate f src dst u"
  unfolding interpolate_def by (simp only: reception_simps)

lemma complete_reception:
  "complete_picture heap (reception b l x t m st) = map_option (reception b l x t m) (complete_picture heap st)"
  unfolding complete_picture_def Let_def
  by (simp only: interpolate_reception reception_simps)

lemma draw_point_reception:
  "draw_point p (reception b l x t m st) = map_option (reception b l x t m) (draw_point p st)"
  unfolding draw_point_def Let_def by (simp only: reception_simps)

lemma reach_reception: "reach p (reception b l x t m u) = reception b l x t m (reach p u)"
  unfolding reach_def Let_def by (simp only: reception_simps)

lemma type_reach: "wxr_type (reach p u) = wxr_type u"
  unfolding reach_def Let_def by simp


lemma picture_step_reception:
  "wxr_type st = 2 \<Longrightarrow> picture_step heap p (reception b l x t m st) =
     map_option (reception b l x t m) (picture_step heap p st)"
  unfolding picture_step_reach reach_reception behind_reception complete_reception
    draw_point_reception reception_sel type_reach
  by simp

text \<open>A type is not changed.\<close>

lemma type_bounds_step: "bounds_step heap cosine p st = Some u \<Longrightarrow> wxr_type u = wxr_type st"
  by (auto simp: bounds_step_def Let_def set_size_def type_widen split: if_splits bind_splits)

lemma radar_step_reception:
  assumes "wxr_type st = 2"
  shows "radar_step heap cosine p (reception b l x t m st) =
    map_option (reception b l x t m) (radar_step heap cosine p st)"
proof -
  let ?f = "\<lambda>st. if wxr_phase st = 0 \<and> \<not> fp_zero (rp_lon p) \<and> \<not> fp_zero (rp_lat p)
    then bounds_step heap cosine p st else Some st"
  have m: "?f (reception b l x t m st) = map_option (reception b l x t m) (?f st)"
    using bounds_step_reception [OF assms] by (simp add: reception_sel)
  have ty: "wxr_type u = 2" if "?f st = Some u" for u
    using that type_bounds_step assms by (auto split: if_splits)
  show ?thesis
    unfolding radar_step_def Let_def m
    using ty picture_step_reception
    by (cases "?f st") (auto simp: reception_sel)
qed


section \<open>The loop over the datagrams\<close>

text \<open>
  The state without what belongs to the reception: the abstraction under which reading is
  processing one point after the other.
\<close>

definition blank :: "radar \<Rightarrow> radar" where
  "blank st = reception None 0 0 (0, 0) ([], 0, 0, 0) st"

lemma reception_twice [simp]:
  "reception b l x t m (reception b' l' x' t' m' st) = reception b l x t m st"
  by (simp add: reception_def)

lemma reception_fixed:
  assumes "reception b l x t m st = st"
  shows "wxrRecvBuffer st = b" "wxrReadLeft st = l" "wxr_is_xp12 st = x" "wxr_type st = 2"
    "wxr_poll_buffer st = fst m"
  by (subst assms [symmetric], simp only: reception_sel)+

lemma radar_run_reception:
  assumes "reception b' l' x' t' m' st = st"
  shows "for_each ps (radar_step heap cosine) (reception b l x t m st) =
    map_option (reception b l x t m) (for_each ps (radar_step heap cosine) st)"
  using assms
proof (induction ps arbitrary: st)
  case (Cons p ps)
  from Cons.prems have ty: "wxr_type st = 2" by (rule reception_fixed)
  note c = radar_step_reception [OF ty, of heap cosine p]
  show ?case
  proof (cases "radar_step heap cosine p st")
    case (Some u)
    with c [of b' l' x' t' m'] Cons.prems have "reception b' l' x' t' m' u = u" by simp
    with Cons.IH Some c show ?thesis by simp
  qed (use c in simp)
qed simp

lemma radar_run_fixed:
  assumes "reception b l x t m st = st" and "for_each ps (radar_step heap cosine) st = Some u"
  shows "reception b l x t m u = u"
  using radar_run_reception [OF assms(1), of ps heap cosine b l x t m] assms by simp

text \<open>The points of a datagram.\<close>

definition datagram_len :: "int \<Rightarrow> nat" where
  "datagram_len x = (if x \<noteq> 0 then 2405 else 1305)"

definition points_of :: "int \<Rightarrow> mem \<Rightarrow> radar_point list" where
  "points_of x d = map (\<lambda>r. the (read_point 2 x d r)) [0..<MAXRADAR]"

lemma read_point_defined:
  assumes "length d = datagram_len x" and "r < MAXRADAR"
  shows "\<exists>p. read_point 2 x d r = Some p"
proof (cases "x = 0")
  case True
  with assms have "int r * 13 + 13 \<le> 1300" "length d = 1305" by (simp_all add: datagram_len_def)
  with True show ?thesis
    by (simp add: read_point_def read_float_def read_char_def mem_read_def)
next
  case False
  with assms have "int r * 24 + 24 \<le> 2400" "length d = 2405" by (simp_all add: datagram_len_def)
  with False show ?thesis by (simp add: read_point_def read_float_def mem_read_def)
qed

text \<open>A datagram of X-Plane 11 is a head and 100 blocks of 13 bytes, one for each point.\<close>

definition decode_point :: "mem \<Rightarrow> radar_point" where
  "decode_point v =
     \<lparr>rp_lon = fp_val 23 8 (le_val (take 4 v)), rp_lat = fp_val 23 8 (le_val (take 4 (drop 4 v))),
      rp_hgt = fp_val 23 8 (le_val (take 4 (drop 9 v))), rp_lev = to_char (le_val (take 1 (drop 8 v))),
      rp_lat_min_south = 0, rp_buffer = []\<rparr>"

lemma block_of_concat:
  "\<forall>v \<in> set vs. length v = n \<Longrightarrow> r < length vs \<Longrightarrow> take n (drop (n * r) (concat vs)) = vs ! r"
proof (induction vs arbitrary: r)
  case (Cons v vs)
  then show ?case by (cases r) simp_all
qed simp

lemma read_point_block:
  assumes "5 + 13 * r + 13 \<le> length d"
  shows "read_point 2 0 d r = Some (decode_point (take 13 (drop (5 + 13 * r) d)))"
proof -
  have "mem_read d (5 + int r * 13 + int k) n = Some (take n (drop k (take 13 (drop (5 + 13 * r) d))))"
    if "k + n \<le> 13" for k n
  proof -
    have "nat (5 + int r * 13 + int k) = 5 + 13 * r + k" by simp
    then show ?thesis using assms that by (simp add: mem_read_def drop_take min_def add_ac)
  qed
  from this [of 0 4] this [of 4 4] this [of 8 1] this [of 9 4] show ?thesis
    by (simp add: read_point_def read_float_def read_char_def decode_point_def)
qed

lemma points_of_datagram:
  assumes "length header = 5" and "\<forall>v \<in> set vs. length v = 13" and "length vs = MAXRADAR"
  shows "points_of 0 (header @ concat vs) = map decode_point vs"
proof (rule nth_equalityI)
  have len: "length (concat vs) = 13 * length vs"
    using assms(2) by (induction vs) auto
  fix r assume "r < length (points_of 0 (header @ concat vs))"
  then have r: "r < 100" by (simp add: points_of_def)
  with len assms(1,3) have "5 + 13 * r + 13 \<le> length (header @ concat vs)" by simp
  from read_point_block [OF this] block_of_concat [OF assms(2), of r] r assms(1,3)
  show "points_of 0 (header @ concat vs) ! r = map decode_point vs ! r"
    by (simp add: points_of_def)
qed (simp add: points_of_def assms(3))

lemma read_points_run:
  assumes "reception b l x t m st = st" and "\<forall>r \<in> set rs. r < MAXRADAR" and "length d = datagram_len x"
  shows "for_each rs (\<lambda>r st. do { p \<leftarrow> read_point (wxr_type st) (wxr_is_xp12 st) d r;
      radar_step heap cosine p st }) st =
    for_each (map (\<lambda>r. the (read_point 2 x d r)) rs) (radar_step heap cosine) st"
  using assms(1,2)
proof (induction rs arbitrary: st)
  case (Cons r rs)
  from Cons.prems(1) have f: "wxr_type st = 2" "wxr_is_xp12 st = x" by (rule reception_fixed)+
  from read_point_defined [OF assms(3)] Cons.prems(2) obtain p where
    p: "read_point 2 x d r = Some p" by auto
  show ?case
  proof (cases "radar_step heap cosine p st")
    case (Some u)
    with radar_run_fixed [OF Cons.prems(1), of "[p]" heap cosine u] have "reception b l x t m u = u" by simp
    with Cons.IH Cons.prems(2) Some p f show ?thesis by simp
  qed (use p f in simp)
qed simp


lemma pop_datagram:
  assumes "length b = 50000" and "take (length (d @ q)) b = d @ q" and "length (d @ q) \<le> 50000"
  shows "\<exists>b'. mem_read b 0 (length d) = Some d \<and>
    mem_read b (int (length d)) (length q) = Some q \<and> mem_write b 0 q = Some b' \<and>
    length b' = 50000 \<and> take (length q) b' = q"
proof -
  have "take (length d) b = take (length d) (take (length (d @ q)) b)" by simp
  then have d: "take (length d) b = d" unfolding assms(2) by simp
  have "take (length q) (drop (length d) b) = drop (length d) (take (length (d @ q)) b)"
    by (simp add: take_drop add.commute)
  then have q: "take (length q) (drop (length d) b) = q" unfolding assms(2) by simp
  show ?thesis using assms(1,3) d q by (simp add: mem_read_def mem_write_def)
qed

lemma read_loop_run:
  assumes "reception (Some b) (int (length (concat ds))) x now m st = st" and "length b = 50000"
    and "take (length (concat ds)) b = concat ds" and "length (concat ds) \<le> 50000"
    and "\<forall>d \<in> set ds. length d = datagram_len x" and "heap (int (datagram_len x))"
  shows "\<exists>b'. length b' = 50000 \<and>
    read_loop heap cosine now (int (datagram_len x)) MAXRADAR st =
      map_option (reception (Some b') 0 x now m)
        (for_each (concat (map (points_of x) ds)) (radar_step heap cosine) st)"
  using assms(1-5)
proof (induction ds arbitrary: st b)
  case Nil
  from reception_fixed(2) [OF Nil.prems(1)] have "wxrReadLeft st = 0" by simp
  then have "read_loop heap cosine now (int (datagram_len x)) MAXRADAR st = Some st"
    by (subst read_loop.simps) simp
  with Nil.prems show ?case by (intro exI [of _ b]) simp
next
  case (Cons d ds)
  let ?L = "int (datagram_len x)" and ?q = "concat ds"
  note fix1 = Cons.prems(1)
  note f = reception_fixed [OF fix1]
  have "(reception (Some b) l x now m st)\<lparr>wxr_t1 := now, wxr_firstread := 1\<rparr> = reception (Some b) l x now m st" for l
    by (simp add: reception_def)
  from this [of "int (length (concat (d # ds)))"]
  have again: "st\<lparr>wxr_t1 := now, wxr_firstread := 1\<rparr> = st" unfolding fix1 .
  from Cons.prems(5) have ld: "length d = datagram_len x" by simp
  have pos: "0 < datagram_len x" by (simp add: datagram_len_def)
  from pop_datagram [of b d ?q] Cons.prems(2-4) obtain b1 where b1:
    "mem_read b 0 (length d) = Some d" "mem_read b (int (length d)) (length ?q) = Some ?q"
    "mem_write b 0 ?q = Some b1" "length b1 = 50000" "take (length ?q) b1 = ?q" by auto
  let ?st = "reception (Some b1) (int (length ?q)) x now m st"
  have "(reception (Some b) l x now m st)\<lparr>wxrRecvBuffer := Some b1, wxrReadLeft := int (length ?q)\<rparr> = ?st" for l
    by (simp add: reception_def)
  from this [of "int (length (concat (d # ds)))"]
  have st1: "st\<lparr>wxrRecvBuffer := Some b1, wxrReadLeft := int (length ?q)\<rparr> = ?st" unfolding fix1 .
  have "read_points heap cosine MAXRADAR d ?st = for_each (points_of x d) (radar_step heap cosine) ?st"
    unfolding read_points_def points_of_def by (rule read_points_run) (simp_all add: ld)
  also have "\<dots> = map_option (reception (Some b1) (int (length ?q)) x now m)
      (for_each (points_of x d) (radar_step heap cosine) st)"
    by (rule radar_run_reception [OF fix1])
  finally have rp: "read_points heap cosine MAXRADAR d ?st = \<dots>" .
  have sz: "to_size (int (length ?q)) = int (length ?q)" using Cons.prems(4) by (intro to_size_id) simp_all
  have loop: "read_loop heap cosine now ?L MAXRADAR st =
      Option.bind (read_points heap cosine MAXRADAR d ?st) (read_loop heap cosine now ?L MAXRADAR)"
    using f again b1(1-3) ld pos assms(6) st1 sz by (subst read_loop.simps) simp
  show ?case
  proof (cases "for_each (points_of x d) (radar_step heap cosine) st")
    case None
    with loop rp b1(4) show ?thesis by (intro exI [of _ b1]) (simp add: for_each_append)
  next
    case (Some u)
    let ?u = "reception (Some b1) (int (length ?q)) x now m u"
    from Cons.IH [of b1 ?u] b1 Cons.prems(4,5) obtain b' where b': "length b' = 50000"
      "read_loop heap cosine now ?L MAXRADAR ?u = map_option (reception (Some b') 0 x now m)
         (for_each (concat (map (points_of x) ds)) (radar_step heap cosine) ?u)" by auto
    from radar_run_fixed [OF fix1 Some] have "for_each (concat (map (points_of x) ds)) (radar_step heap cosine) ?u =
        map_option (reception (Some b1) (int (length ?q)) x now m)
          (for_each (concat (map (points_of x) ds)) (radar_step heap cosine) u)"
      by (rule radar_run_reception)
    with loop rp Some b' show ?thesis
      by (intro exI [of _ b']) (simp add: for_each_append option.map_comp comp_def)
  qed
qed


section \<open>The receive thread\<close>

text \<open>The receiver between two turns, and with the datagrams \<open>q\<close> in its buffer.\<close>

definition receiver :: "mem \<Rightarrow> radar \<Rightarrow> bool" where
  "receiver q st \<longleftrightarrow>
     wxr_type st = 2 \<and> wxr_initialized st \<noteq> 0 \<and> wxr_poll_thread_exit_code st = 0 \<and>
     wxrRecvBufferLen st = 50000 \<and> length (wxr_poll_buffer st) = 50000 \<and>
     (\<exists>b. wxrRecvBuffer st = Some b \<and> length b = 50000 \<and> take (length q) b = q) \<and>
     length q \<le> 50000 \<and> wxrReadLeft st = int (length q)"

definition radar_datagram :: "int \<Rightarrow> mem \<Rightarrow> bool" where
  "radar_datagram x d \<longleftrightarrow> length d = datagram_len x \<and> take 4 d = chars ''RADR'' \<and> (x = 0 \<or> x = 1)"

lemma wxr_poll_appends:
  assumes st: "receiver q st" and d: "radar_datagram x d" and room: "length (q @ d) \<le> 50000"
  shows "\<exists>u. wxr_poll d st = Some u \<and> receiver (q @ d) u \<and> wxr_is_xp12 u = x \<and> blank u = blank st"
proof -
  from st obtain b where b: "wxrRecvBuffer st = Some b" "length b = 50000" "take (length q) b = q"
    by (auto simp: receiver_def)
  from d have ld: "4 \<le> length d" "length d \<le> 50000" "(length d = 1305 \<and> x = 0) \<or> (length d = 2405 \<and> x = 1)"
    by (auto simp: radar_datagram_def datagram_len_def split: if_splits)
  let ?pb = "d @ drop (length d) (wxr_poll_buffer st)"
  have w: "mem_write (wxr_poll_buffer st) 0 d = Some ?pb"
    using st ld by (simp add: mem_write_def receiver_def)
  have r: "is_wxr ?pb = Some True"
  proof -
    have "strneq 4 ?pb (chars ''RADR'' @ [0]) = Some True"
      using d ld by (subst strneq_take) (auto simp: radar_datagram_def chars_def)
    moreover have "strneq 4 ?pb (chars ''xRAD'' @ [0]) = Some False"
      using d ld by (subst strneq_take) (auto simp: radar_datagram_def chars_def)
    ultimately show ?thesis by (simp add: is_wxr_def)
  qed
  let ?b = "take (length q) b @ d @ drop (length q + length d) b"
  have wb: "mem_write b (int (length q)) d = Some ?b"
    using b room by (simp add: mem_write_def)
  have rd: "mem_read ?pb 0 (length d) = Some d" by (simp add: mem_read_def)
  have x: "(if (int (length d) - 5) sdiv 13 * 13 = int (length d) - 5 then 0 else 1) = x"
    using ld(3) by (auto simp: signed_divide_int_def)
  let ?u = "st\<lparr>wxr_poll_buffer := ?pb, wxr_is_xp12 := x, wxrRecvBuffer := Some ?b,
    wxrReadLeft := int (length q) + int (length d)\<rparr>"
  have "d \<noteq> []" using ld(1) by auto
  then have "wxr_poll d st = Some ?u"
    using st b ld w r wb rd x room unfolding wxr_poll_def Let_def
    by (simp add: receiver_def del: signed_divide_int_def)
  moreover have "receiver (q @ d) ?u"
    using st b ld room by (simp add: receiver_def)
  moreover have "blank ?u = blank st" by (simp add: blank_def reception_def)
  ultimately show ?thesis by (intro exI [of _ ?u]) simp
qed

lemma wxr_poll_all:
  assumes "receiver q st" and "list_all (radar_datagram x) ds" and "length (q @ concat ds) \<le> 50000"
  shows "\<exists>u. for_each ds wxr_poll st = Some u \<and> receiver (q @ concat ds) u \<and>
    (ds \<noteq> [] \<longrightarrow> wxr_is_xp12 u = x) \<and> blank u = blank st"
  using assms
proof (induction ds arbitrary: q st)
  case (Cons d ds)
  from wxr_poll_appends [of q st x d] Cons.prems obtain u where
    u: "wxr_poll d st = Some u" "receiver (q @ d) u" "wxr_is_xp12 u = x" "blank u = blank st" by auto
  from Cons.IH [OF u(2)] Cons.prems obtain v where
    "for_each ds wxr_poll u = Some v" "receiver ((q @ d) @ concat ds) v"
    "ds \<noteq> [] \<longrightarrow> wxr_is_xp12 v = x" "blank v = blank u" by auto
  with u show ?case by (cases "ds = []") auto
qed simp


section \<open>Turns of the main loop\<close>

text \<open>In a turn some datagrams arrive, then the display calls \<open>read_wxr\<close> at some time of day.\<close>

definition radar_turn ::
  "(int \<Rightarrow> bool) \<Rightarrow> (fpval \<Rightarrow> fpval) \<Rightarrow> mem list \<times> int \<times> int \<Rightarrow> radar \<Rightarrow> radar option" where
  "radar_turn heap cosine turn st =
     do { st \<leftarrow> for_each (fst turn) wxr_poll st; read_wxr heap cosine (snd turn) st }"

definition turn_ok :: "int \<Rightarrow> mem list \<times> int \<times> int \<Rightarrow> bool" where
  "turn_ok x turn \<longleftrightarrow> list_all (radar_datagram x) (fst turn) \<and> length (concat (fst turn)) \<le> 50000"

definition points_of_turns :: "int \<Rightarrow> (mem list \<times> int \<times> int) list \<Rightarrow> radar_point list" where
  "points_of_turns x turns = concat (map (points_of x) (concat (map fst turns)))"

lemma receiver_recv: "receiver q st \<Longrightarrow> \<exists>b. wxrRecvBuffer st = Some b \<and> length b = 50000 \<and> take (length q) b = q"
  by (simp add: receiver_def)

lemma radar_turn_run:
  assumes st: "receiver [] st" and turn: "turn_ok x turn" and heap: "enough heap"
  shows "case for_each (concat (map (points_of x) (fst turn))) (radar_step heap cosine) (blank st) of
      None \<Rightarrow> radar_turn heap cosine turn st = None
    | Some v \<Rightarrow> \<exists>u. radar_turn heap cosine turn st = Some u \<and> blank u = v \<and> receiver [] u"
proof -
  obtain ds now where t: "turn = (ds, now)" by (cases turn)
  let ?ps = "concat (map (points_of x) ds)"
  from wxr_poll_all [OF st, of x ds] turn t obtain u where
    u: "for_each ds wxr_poll st = Some u" "receiver (concat ds) u" "ds \<noteq> [] \<longrightarrow> wxr_is_xp12 u = x"
      "blank u = blank st" by (auto simp: turn_ok_def)
  show ?thesis
  proof (cases "ds = []")
    case True
    with u(2) have "read_wxr heap cosine now u = Some u"
      by (simp add: read_wxr_def receiver_def) (subst read_loop.simps, simp)
    with u t True show ?thesis by (simp add: radar_turn_def)
  next
    case False
    from turn t have ds: "list_all (radar_datagram x) ds" by (simp add: turn_ok_def)
    have len: "\<forall>d \<in> set ds. length d = datagram_len x"
      using ds by (auto simp: list_all_iff radar_datagram_def)
    from receiver_recv [OF u(2)] obtain b where
      b: "wxrRecvBuffer u = Some b" "length b = 50000" "take (length (concat ds)) b = concat ds" by blast
    let ?m = "(wxr_poll_buffer u, wxr_initialized u, wxr_poll_thread_exit_code u, wxrRecvBufferLen u)"
    let ?v = "u\<lparr>wxr_t1 := now, wxr_firstread := 1\<rparr>" and ?l = "int (length (concat ds))"
    have fix1: "reception (Some b) ?l x now ?m ?v = ?v"
      using u(2,3) b(1) False by (simp add: reception_def receiver_def)
    have "concat ds \<noteq> []"
      using False len by (cases ds) (auto simp: datagram_len_def split: if_splits)
    then have pos: "0 < wxrReadLeft u" using u(2) by (simp add: receiver_def)
    have hp: "heap (int (datagram_len x))" using heap by (simp add: enough_def datagram_len_def)
    have "read_wxr heap cosine now u = read_loop heap cosine now (int (datagram_len x)) MAXRADAR u"
      using u(2,3) False
      by (simp add: read_wxr_def receiver_def wxr_buffer_len_def wxr_nrad_def datagram_len_def)
    also have "\<dots> = read_loop heap cosine now (int (datagram_len x)) MAXRADAR ?v"
      using pos by (subst (1 2) read_loop.simps) simp
    finally have rd: "read_wxr heap cosine now u = \<dots>" .
    from read_loop_run [where heap = heap and cosine = cosine, OF fix1 b(2,3) _ len hp] u(2) obtain b' where b': "length b' = 50000"
      "read_wxr heap cosine now u = map_option (reception (Some b') 0 x now ?m)
         (for_each ?ps (radar_step heap cosine) ?v)" unfolding rd by (auto simp: receiver_def)
    have "blank ?v = blank st" using u(4) by (simp add: blank_def reception_def)
    then have bl: "for_each ?ps (radar_step heap cosine) (blank st) =
        map_option blank (for_each ?ps (radar_step heap cosine) ?v)"
      using radar_run_reception [OF fix1, of ?ps heap cosine None 0 0 "(0, 0)" "([], 0, 0, 0)"]
      unfolding blank_def by simp
    have "receiver [] (reception (Some b') 0 x now ?m w)" for w
      using u(2) b'(1) by (simp add: receiver_def reception_sel)
    moreover have "blank (reception (Some b') 0 x now ?m w) = blank w" for w by (simp add: blank_def)
    ultimately show ?thesis
      using u(1) b'(2) bl t
      by (cases "for_each ?ps (radar_step heap cosine) ?v") (simp_all add: radar_turn_def)
  qed
qed

lemma radar_turns_run:
  assumes "receiver [] st" and "list_all (turn_ok x) turns" and "enough heap"
  shows "case for_each (points_of_turns x turns) (radar_step heap cosine) (blank st) of
      None \<Rightarrow> for_each turns (radar_turn heap cosine) st = None
    | Some v \<Rightarrow> \<exists>u. for_each turns (radar_turn heap cosine) st = Some u \<and> blank u = v \<and> receiver [] u"
  using assms(1,2)
proof (induction turns arbitrary: st)
  case (Cons turn turns)
  let ?ps = "concat (map (points_of x) (fst turn))"
  have p: "points_of_turns x (turn # turns) = ?ps @ points_of_turns x turns"
    by (simp add: points_of_turns_def)
  from radar_turn_run [OF Cons.prems(1) _ assms(3), of x turn cosine] Cons.prems(2)
  have t: "case for_each ?ps (radar_step heap cosine) (blank st) of
      None \<Rightarrow> radar_turn heap cosine turn st = None
    | Some v \<Rightarrow> \<exists>u. radar_turn heap cosine turn st = Some u \<and> blank u = v \<and> receiver [] u" by simp
  show ?case
  proof (cases "for_each ?ps (radar_step heap cosine) (blank st)")
    case None
    with t show ?thesis by (simp add: p for_each_append)
  next
    case (Some v)
    with t obtain u where u: "radar_turn heap cosine turn st = Some u" "blank u = v" "receiver [] u" by auto
    have "for_each (turn # turns) (radar_turn heap cosine) st = for_each turns (radar_turn heap cosine) u"
      using u(1) by simp
    moreover have "for_each (points_of_turns x (turn # turns)) (radar_step heap cosine) (blank st) =
        for_each (points_of_turns x turns) (radar_step heap cosine) (blank u)"
      using Some u(2) by (simp add: p for_each_append)
    moreover have "list_all (turn_ok x) turns" using Cons.prems(2) by simp
    ultimately show ?thesis using Cons.IH [OF u(3)] by (simp only:)
  qed
qed (simp add: points_of_turns_def)

text \<open>C24: Receiving and reading is processing points: however the datagrams of X-Plane 11 or 12 are
  distributed over the turns of the main loop, as long as those of one turn fit into the receive
  buffer, the turns have the effect of processing the points of all datagrams one after the other;
  the receiver ends empty and ready.\<close>

theorem radar_turns_correct:
  assumes "receiver [] st" and "list_all (turn_ok x) turns" and "enough heap"
  shows "map_option blank (for_each turns (radar_turn heap cosine) st) =
      for_each (points_of_turns x turns) (radar_step heap cosine) (blank st) \<and>
    pred_option (receiver []) (for_each turns (radar_turn heap cosine) st)"
  using radar_turns_run [OF assms, of cosine]
  by (cases "for_each (points_of_turns x turns) (radar_step heap cosine) (blank st)") auto

end
