(* ===== verification/WxrFacts.thy ===== *)
theory WxrFacts
  imports WxrFrames
begin

text \<open>
  The properties of the radar receiver as a whole: datagrams become a picture, and what happens
  with the data that the code is not prepared for.
\<close>

section \<open>From datagrams to the picture\<close>

lemma waiting_blank: "waiting (blank st) \<longleftrightarrow> waiting st"
  by (simp add: waiting_def shown_ok_def blank_def reception_sel)

lemma type_blank: "wxr_type (blank st) = 2"
  by (simp add: blank_def reception_sel)

text \<open>C23: When the datagrams of any number of turns contain, apart from padding, a scan, a second scan
  and the first point of a third one, the display gets a new picture: its bounds are those of the
  first scan, and it is the enlargement of the picture in which every pixel shows the level of the
  last point of the second scan that falls on it. The receiver is then ready for the next one.\<close>

theorem radar_picture:
  assumes "receiver [] st" and "waiting st" and "list_all (turn_ok x) turns" and "enough heap"
    and "filter located (points_of_turns x turns) = ps @ qs @ [c]" and "two_scans ps qs c"
    and "scan_box ps qs = b" and "resolution cosine b = n" and "1 \<le> n" "n \<le> 60" and "fits b n"
  shows "\<exists>u. for_each turns (radar_turn heap cosine) st = Some u \<and> receiver [] u \<and> waiting u \<and>
    wxr_newdata u = 1 \<and> wxr_lonmin u = west b \<and> wxr_latmin u = south b \<and>
    wxr_ncol u = 5 * columns b n \<and> wxr_nlin u = 5 * rows b \<and>
    wxr_data u = Some (big_picture (\<lambda>v. to_uchar (fp_trunc v)) level b n qs) \<and>
    wxr_height u = Some (big_picture fp_trunc top b n qs)"
proof -
  have "for_each (points_of_turns x turns) (radar_step heap cosine) (blank st) =
      Some (finished b n qs (blank st))"
    using two_scans_finished [of "blank st" heap _ ps qs c cosine] assms
    by (simp add: waiting_blank type_blank)
  with radar_turns_run [OF assms(1,3,4), of cosine] obtain u where
    u: "for_each turns (radar_turn heap cosine) st = Some u" "blank u = finished b n qs (blank st)"
      "receiver [] u" by auto
  from waiting_finished [OF assms(11), of qs "blank st"] u(2) have "waiting u"
    by (metis waiting_blank)
  moreover have "wxr_newdata (blank u) = 1 \<and> wxr_lonmin (blank u) = west b \<and>
    wxr_latmin (blank u) = south b \<and> wxr_ncol (blank u) = 5 * columns b n \<and>
    wxr_nlin (blank u) = 5 * rows b \<and>
    wxr_data (blank u) = Some (big_picture (\<lambda>v. to_uchar (fp_trunc v)) level b n qs) \<and>
    wxr_height (blank u) = Some (big_picture fp_trunc top b n qs)"
    unfolding u(2) by (simp add: finished_def)
  ultimately show ?thesis using u(1,3) by (simp add: blank_def reception_sel)
qed

section \<open>Data the code is not prepared for\<close>

text \<open>C40: A single datagram that begins with \<open>RADR\<close> but is shorter than the radar data of X-Plane
  makes the next \<open>read_wxr\<close> move a negative number of bytes, that is, access memory far outside
  the receive buffer.\<close>

theorem short_datagram_undefined:
  assumes "receiver [] st" and "take 4 d = chars ''RADR''" and "length d < 1305"
  shows "radar_turn heap cosine ([d], now) st = None"
proof -
  have d4: "4 \<le> length d" using arg_cong [OF assms(2), of length] by (simp add: chars_def)
  from receiver_recv [OF assms(1)] obtain b where b: "wxrRecvBuffer st = Some b" "length b = 50000" by auto
  let ?pb = "d @ drop (length d) (wxr_poll_buffer st)"
  have w: "mem_write (wxr_poll_buffer st) 0 d = Some ?pb"
    using assms(1,3) by (simp add: mem_write_def receiver_def)
  have r: "is_wxr ?pb = Some True"
    using assms(2) d4 by (simp add: is_wxr_def strneq_take chars_def)
  have wb: "mem_write b 0 d = Some (d @ drop (length d) b)" using b assms(3) by (simp add: mem_write_def)
  have rd: "mem_read ?pb 0 (length d) = Some d" by (simp add: mem_read_def)
  have "d \<noteq> []" using d4 by auto
  then obtain u where u: "wxr_poll d st = Some u" "wxrReadLeft u = int (length d)" "wxr_type u = 2"
    "wxr_initialized u \<noteq> 0" "wxrRecvBuffer u = Some (d @ drop (length d) b)"
    using assms(1,3) b w r wb rd
    unfolding wxr_poll_def Let_def by (simp add: receiver_def)
  have "mem_read b' L (nat (to_size (int (length d) - L))) = None"
    if "length b' = 50000" "L = 1305 \<or> L = 2405" for b' :: mem and L
  proof -
    have "9223372036854775808 \<le> to_size (int (length d) - L)"
      using that(2) assms(3) by (intro to_size_neg) auto
    with that show ?thesis by (auto simp: mem_read_def)
  qed
  moreover have "length (d @ drop (length d) b) = 50000" using b assms(3) by simp
  moreover have "wxr_buffer_len u = 1305 \<or> wxr_buffer_len u = 2405"
    using u(3) by (simp add: wxr_buffer_len_def)
  ultimately have "read_loop heap cosine now (wxr_buffer_len u) (wxr_nrad u) u = None"
    using u d4 by (subst read_loop.simps) (auto simp: bind_eq_None_conv)
  then show ?thesis using u by (simp add: radar_turn_def read_wxr_def)
qed

text \<open>In the data of the control pad (type 1) the row of the height array is chosen by the column
  of the picture: a point at least as many columns east of the western bound as the picture has
  rows is written outside the array.\<close>

lemma control_pad_overruns:
  assumes "wxr_pixperlon_tmp st = 60" and "wxr_height_tmp st = Some g"
    and "fp_trunc (mulf (subf (rp_lon p) (wxr_lonmin_tmp st)) (f32 60)) \<ge> int (length g)"
    and "0 \<le> rp_lat_min_south p" "rp_lat_min_south p < 60"
  shows "draw_row p st = None"
proof -
  have "grid_set i k 30000 g = None" if "i \<ge> int (length g)" for i k
    using that by (simp add: grid_set_def arr_get_def)
  moreover have "[0..<nat 60] = 0 # [Suc 0..<60]" by (simp add: upt_rec)
  ultimately show ?thesis
    using assms by (auto simp: draw_row_def Let_def bind_eq_None_conv)
qed

text \<open>Near the poles a degree of longitude has no pixel: the division is by zero.\<close>

lemma pole_undefined: "wxr_pixperlon_tmp st = 0 \<Longrightarrow> complete_picture heap st = None"
proof -
  have "wrap32 0 = 0" by (simp add: in_i32_def)
  then show "wxr_pixperlon_tmp st = 0 \<Longrightarrow> complete_picture heap st = None"
    by (auto simp: complete_picture_def Let_def bind_eq_None_conv)
qed

text \<open>A point one minute of latitude north of 45 degrees falls on the row of the southern bound.\<close>

lemma arc_minute_lost: "rp_lat p = fp_val 23 8 0x42341111 \<Longrightarrow> row_of (Fin 45 0) p = 0"
  by (simp add: row_of_def) code_simp

end
