(* ===== verification/ServerData.thy ===== *)
theory ServerData
  imports Datarefs
begin

text \<open>
  \<open>libxpcockpit/src/serverdata.c\<close>: the client's table of dataref subscriptions.

  The dynamically grown array \<open>serverdata\<close> is a list; \<open>numalloc\<close> is its length and the
  \<open>NULL\<close> pointer is the empty list (the array is \<open>NULL\<close> exactly as long as nothing is
  allocated). A pointer returned to the application is the index of the slot whose block it
  points to. Memory that \<open>realloc\<close> adds has arbitrary contents, given by the argument
  \<open>junk\<close>; \<open>avail n\<close> says whether a request for \<open>n\<close> bytes can be met. Messages that the code
  prints are left out.
\<close>

section \<open>State\<close>

record sdata =
  sd_name :: mem
  sd_type :: int
  sd_nelements :: int
  sd_index :: int
  sd_precision :: int
  sd_status :: int
  sd_data :: ptr
  sd_data_old :: ptr
  sd_nextindex :: int
  sd_nsend :: int
  sd_nrecv :: int
  sd_received :: int

record sdstate =
  serverdata :: "sdata list"
  numlink :: int
  lastindex :: int
  numreceived :: int
  predict :: int
  serverdata_verbose :: int
  clientname :: mem
  interval :: int
  interval_counter :: int

definition numalloc :: "'a sdstate_scheme \<Rightarrow> int" where
  "numalloc st = int (length (serverdata st))"

definition upd_slot :: "nat \<Rightarrow> (sdata \<Rightarrow> sdata) \<Rightarrow> 'a sdstate_scheme \<Rightarrow> 'a sdstate_scheme" where
  "upd_slot i f st = st\<lparr>serverdata := (serverdata st)[i := f (serverdata st ! i)]\<rparr>"

section \<open>Start, end and counters\<close>

definition initialize_dataref :: "int \<Rightarrow> 'a sdstate_scheme \<Rightarrow> 'a sdstate_scheme" where
  "initialize_dataref verbose st =
     st\<lparr>serverdata_verbose := verbose, serverdata := [], numlink := 0, numreceived := 0\<rparr>"

text \<open>All blocks are freed and the array is released (only when something was allocated).\<close>

definition clear_dataref :: "'a sdstate_scheme \<Rightarrow> 'a sdstate_scheme" where
  "clear_dataref st =
     (if serverdata st \<noteq> [] \<and> numalloc st > 0 then st\<lparr>serverdata := [], numlink := 0\<rparr> else st)"

definition count_dataref :: "'a sdstate_scheme \<Rightarrow> 'a sdstate_scheme" where
  "count_dataref st =
     st\<lparr>numlink := int (length (filter (\<lambda>s. sd_status s = XPSTATUS_VALID) (serverdata st)))\<rparr>"

definition count_received :: "'a sdstate_scheme \<Rightarrow> 'a sdstate_scheme" where
  "count_received st =
     st\<lparr>numreceived := int (length (filter (\<lambda>s. sd_received s = 1) (serverdata st)))\<rparr>"

definition reset_received :: "'a sdstate_scheme \<Rightarrow> 'a sdstate_scheme" where
  "reset_received st = st\<lparr>serverdata := map (\<lambda>s. s\<lparr>sd_received := 0\<rparr>) (serverdata st)\<rparr>"

section \<open>Elapsed time\<close>

type_synonym timeval = "int \<times> int" \<comment> \<open>\<open>tv_sec\<close>, \<open>tv_usec\<close>\<close>

text \<open>\<open>time_subtract(x,y,result)\<close>: the result, the modified \<open>y\<close> and the return value.\<close>

definition time_subtract :: "timeval \<Rightarrow> timeval \<Rightarrow> timeval \<times> timeval \<times> bool" where
  "time_subtract x y =
     (let y1 = (if snd x < snd y
                then let nsec = (snd y - snd x) sdiv 1000000 + 1
                     in (fst y + nsec, snd y - 1000000 * nsec)
                else y);
          y2 = (if snd x - snd y1 > 1000000
                then let nsec = (snd x - snd y1) sdiv 1000000
                     in (fst y1 - nsec, snd y1 + 1000000 * nsec)
                else y1)
      in ((fst x - fst y2, snd x - snd y2), y2, fst x < fst y2))"

section \<open>Subscribing to a dataref\<close>

text \<open>The identity of a slot that \<open>link_dataref\<close> searches for.\<close>

definition slot_matches :: "mem \<Rightarrow> int \<Rightarrow> int \<Rightarrow> int \<Rightarrow> sdata \<Rightarrow> bool option" where
  "slot_matches name type nelements index s =
     do {
       eq \<leftarrow> streq name (sd_name s);
       Some (eq \<and> type = sd_type s \<and> index = sd_index s \<and> nelements = sd_nelements s)
     }"

text \<open>The linear search, from slot \<open>i\<close> on.\<close>

fun find_slot :: "mem \<Rightarrow> int \<Rightarrow> int \<Rightarrow> int \<Rightarrow> nat \<Rightarrow> sdata list \<Rightarrow> nat option option" where
  "find_slot name type nelements index i [] = Some None"
| "find_slot name type nelements index i (s # ss) =
     do {
       m \<leftarrow> slot_matches name type nelements index s;
       (if m then Some (Some i) else find_slot name type nelements index (Suc i) ss)
     }"

text \<open>
  The search as the code does it: with \<open>predict\<close> set it first tries the slot that followed
  the last one used, and remembers the successor when it has to search.
\<close>

definition predicted_slot ::
  "mem \<Rightarrow> int \<Rightarrow> int \<Rightarrow> int \<Rightarrow> 'a sdstate_scheme \<Rightarrow> nat option option" where
  "predicted_slot name type nelements index st =
     (if lastindex st \<noteq> INT_MISS \<and> lastindex st < numalloc st then
        (if lastindex st < 0 then None
         else let i = sd_nextindex (serverdata st ! nat (lastindex st))
              in if i \<noteq> INT_MISS then
                   (if 0 \<le> i \<and> i < numalloc st then
                      do { m \<leftarrow> slot_matches name type nelements index (serverdata st ! nat i);
                           Some (if m then Some (nat i) else None) }
                    else None)
                 else Some None)
      else Some None)"

definition lookup_slot ::
  "mem \<Rightarrow> int \<Rightarrow> int \<Rightarrow> int \<Rightarrow> 'a sdstate_scheme \<Rightarrow> ('a sdstate_scheme \<times> nat option) option" where
  "lookup_slot name type nelements index st =
     (if serverdata st = [] then Some (st, None)
      else if predict st \<noteq> 0 then
        do {
          hit \<leftarrow> predicted_slot name type nelements index st;
          (case hit of
             Some i \<Rightarrow> Some (st\<lparr>lastindex := int i\<rparr>, Some i)
           | None \<Rightarrow>
               do {
                 found \<leftarrow> find_slot name type nelements index 0 (serverdata st);
                 (case found of
                    None \<Rightarrow> Some (st, None)
                  | Some i \<Rightarrow>
                      (let st1 = (if lastindex st \<noteq> INT_MISS \<and> lastindex st < numalloc st
                                  then upd_slot (nat (lastindex st)) (\<lambda>s. s\<lparr>sd_nextindex := int i\<rparr>) st
                                  else st)
                       in Some (st1\<lparr>lastindex := int i\<rparr>, Some i)))
               })
        }
      else map_option (\<lambda>r. (st, r)) (find_slot name type nelements index 0 (serverdata st)))"

text \<open>The first slot with an empty name, \<open>numalloc\<close> if there is none.\<close>

fun free_slot :: "sdata list \<Rightarrow> nat option" where
  "free_slot [] = Some 0"
| "free_slot (s # ss) =
     do {
       e \<leftarrow> streq (sd_name s) [0];
       (if e then Some 0 else map_option Suc (free_slot ss))
     }"

text \<open>
  The memory of a dataref: \<open>NULL\<close> for an unknown type. The code initialises the block before
  it tests the pointer, so a failed \<open>malloc\<close> is undefined behaviour.
\<close>

definition alloc_block :: "(nat \<Rightarrow> bool) \<Rightarrow> int \<Rightarrow> int \<Rightarrow> int \<Rightarrow> ptr option" where
  "alloc_block avail type nelements index =
     (if \<not> known_type type then Some None
      else if avail (block_size type nelements index)
           then Some (Some (init_block type nelements index))
           else None)"

text \<open>\<open>sizeof(serverdata_struct)\<close> with 64-bit pointers.\<close>

abbreviation (input) SERVERDATA_STRUCT :: nat where "SERVERDATA_STRUCT \<equiv> 152"

definition create_slot ::
  "(nat \<Rightarrow> bool) \<Rightarrow> sdata \<Rightarrow> mem \<Rightarrow> int \<Rightarrow> int \<Rightarrow> int \<Rightarrow> int \<Rightarrow> 'a sdstate_scheme \<Rightarrow>
   ('a sdstate_scheme \<times> nat option) option" where
  "create_slot avail junk name type nelements index precision st =
     do {
       i \<leftarrow> free_slot (serverdata st);
       let st = st\<lparr>lastindex := 0\<rparr>;
       (if int i = numalloc st \<and> \<not> avail (SERVERDATA_STRUCT * (i + 1)) then Some (st, None)
        else
          do {
            let st = (if int i = numalloc st then st\<lparr>serverdata := serverdata st @ [junk]\<rparr> else st);
            data \<leftarrow> alloc_block avail type nelements index;
            data_old \<leftarrow> alloc_block avail type nelements index;
            let st = upd_slot i (\<lambda>s. s\<lparr>sd_status := XPSTATUS_UNINITIALIZED, sd_data := data,
                                       sd_data_old := data_old\<rparr>) st;
            (if data = None \<or> data_old = None then Some (st, None)
             else
               do {
                 nm \<leftarrow> strcpy (replicate NAMELEN 0) name;
                 Some (upd_slot i (\<lambda>s. s\<lparr>sd_name := nm, sd_status := XPSTATUS_ALLOC,
                         sd_type := type, sd_nelements := nelements, sd_index := index,
                         sd_precision := precision, sd_nextindex := INT_MISS,
                         sd_nsend := 0, sd_nrecv := 0, sd_received := 0\<rparr>) st, Some i)
               })
          })
     }"

text \<open>Scalars ignore the array arguments; integers and commands ignore the precision.\<close>

definition norm_nelements :: "int \<Rightarrow> int \<Rightarrow> int" where
  "norm_nelements type nelements = (if scalar_type type then 1 else nelements)"

definition norm_index :: "int \<Rightarrow> int \<Rightarrow> int" where
  "norm_index type index = (if scalar_type type then 0 else index)"

definition norm_precision :: "int \<Rightarrow> int \<Rightarrow> int" where
  "norm_precision type precision =
     (if type = XPTYPE_INT \<or> type = XPTYPE_INT_ARR \<or> type = XPTYPE_BYTE_ARR \<or>
         type = XPTYPE_CMD_ONCE \<or> type = XPTYPE_CMD_HOLD then INT_MISS
      else if precision > 10 \<or> precision < -10 then INT_MISS else precision)"

definition link_dataref ::
  "(nat \<Rightarrow> bool) \<Rightarrow> sdata \<Rightarrow> mem \<Rightarrow> int \<Rightarrow> int \<Rightarrow> int \<Rightarrow> int \<Rightarrow> 'a sdstate_scheme \<Rightarrow>
   ('a sdstate_scheme \<times> nat option) option" where
  "link_dataref avail junk name type nelements0 index0 precision0 st =
     (let nelements = norm_nelements type nelements0;
          index = norm_index type index0;
          precision = norm_precision type precision0
      in if nelements < 1 then Some (st, None)
         else if index < -1 then Some (st, None)
         else if index \<ge> nelements then Some (st, None)
         else
           do {
             empty \<leftarrow> streq name [0];
             (if empty then Some (st, None)
              else
                do {
                  (st, found) \<leftarrow> lookup_slot name type nelements index st;
                  (case found of
                     Some i \<Rightarrow> Some (st, if sd_data (serverdata st ! i) = None then None else Some i)
                   | None \<Rightarrow> create_slot avail junk name type nelements index precision st)
                })
           })"

text \<open>The type-specific wrappers.\<close>

definition link_dataref_int where
  "link_dataref_int avail junk name = link_dataref avail junk name XPTYPE_INT 1 0 INT_MISS"
definition link_dataref_flt where
  "link_dataref_flt avail junk name precision =
     link_dataref avail junk name XPTYPE_FLT 1 0 precision"
definition link_dataref_dbl where
  "link_dataref_dbl avail junk name precision =
     link_dataref avail junk name XPTYPE_DBL 1 0 precision"
definition link_dataref_flt_arr where
  "link_dataref_flt_arr avail junk name nelements index precision =
     link_dataref avail junk name XPTYPE_FLT_ARR nelements index precision"
definition link_dataref_int_arr where
  "link_dataref_int_arr avail junk name nelements index =
     link_dataref avail junk name XPTYPE_INT_ARR nelements index INT_MISS"
definition link_dataref_byte_arr where
  "link_dataref_byte_arr avail junk name nelements index =
     link_dataref avail junk name XPTYPE_BYTE_ARR nelements index INT_MISS"
definition link_dataref_cmd_once where
  "link_dataref_cmd_once avail junk name = link_dataref avail junk name XPTYPE_CMD_ONCE 1 0 INT_MISS"
definition link_dataref_cmd_hold where
  "link_dataref_cmd_hold avail junk name = link_dataref avail junk name XPTYPE_CMD_HOLD 1 0 INT_MISS"

section \<open>Unsubscribing\<close>

definition dealloc_slot :: "sdata \<Rightarrow> sdata" where
  "dealloc_slot s = s\<lparr>sd_data := None, sd_data_old := None, sd_type := XPTYPE_UNKNOWN,
     sd_nelements := INT_MISS, sd_index := INT_MISS, sd_precision := INT_MISS,
     sd_status := XPSTATUS_DEALLOC, sd_nextindex := INT_MISS, sd_nsend := INT_MISS,
     sd_nrecv := INT_MISS, sd_received := INT_MISS\<rparr>"

fun unlink_slots :: "mem \<Rightarrow> sdata list \<Rightarrow> (sdata list \<times> int) option" where
  "unlink_slots name [] = Some ([], 0)"
| "unlink_slots name (s # ss) =
     do {
       eq \<leftarrow> streq name (sd_name s);
       (ss', n) \<leftarrow> unlink_slots name ss;
       Some (if eq then (dealloc_slot s # ss', n + 1) else (s # ss', n))
     }"

definition unlink_dataref :: "mem \<Rightarrow> 'a sdstate_scheme \<Rightarrow> ('a sdstate_scheme \<times> int) option" where
  "unlink_dataref name st =
     do {
       (ss, n) \<leftarrow> unlink_slots name (serverdata st);
       Some (st\<lparr>serverdata := ss\<rparr>, n)
     }"

section \<open>Driving switches by up/down and toggle commands\<close>

text \<open>
  The arguments are pointers (\<open>None\<close> is \<open>NULL\<close>); the result is the return value with the new
  contents of the command pointers.
\<close>

definition set_state_updn ::
  "int \<Rightarrow> int option \<Rightarrow> int option \<Rightarrow> int option \<Rightarrow> int option \<Rightarrow> int \<times> int option \<times> int option" where
  "set_state_updn counter new_state old_state up dn =
     (case (new_state, old_state, up, dn) of
        (Some new, Some old, Some _, Some _) \<Rightarrow>
          (if new \<noteq> INT_MISS \<and> old \<noteq> INT_MISS \<and> counter = 0 then
             (if new > old then (1, Some 1, Some 0)
              else if new < old then (-1, Some 0, Some 1)
              else (0, up, dn))
           else (0, up, dn))
      | _ \<Rightarrow> (0, up, dn))"

definition set_state_toggle ::
  "int \<Rightarrow> int option \<Rightarrow> int option \<Rightarrow> int option \<Rightarrow> int \<times> int option" where
  "set_state_toggle counter new_state old_state toggle =
     (case (new_state, old_state, toggle) of
        (Some new, Some old, Some _) \<Rightarrow>
          (if new \<noteq> INT_MISS \<and> old \<noteq> INT_MISS \<and> counter = 0 then
             (if new > old then (1, Some 1) else if new < old then (-1, Some 1) else (0, toggle))
           else (0, toggle))
      | _ \<Rightarrow> (0, toggle))"

text \<open>\<open>lroundf\<close> to a 64-bit \<open>long\<close>, stored in an \<open>int\<close>; the argument is the bytes of the float.\<close>

definition lroundf_int :: "mem \<Rightarrow> int" where
  "lroundf_int v =
     (case fp_val 23 8 (le_val v) of
        Fin m e \<Rightarrow> (let r = round_away m e
                   in wrap32 (if - (2 ^ 63) \<le> r \<and> r < 2 ^ 63 then r else - (2 ^ 63)))
      | _ \<Rightarrow> wrap32 (- (2 ^ 63)))"

definition float_state :: "mem \<Rightarrow> int" where
  "float_state v = (if v = flt_miss then INT_MISS else lroundf_int v)"

text \<open>The float versions dereference both state pointers without a test.\<close>

definition set_state_updnf ::
  "int \<Rightarrow> ptr \<Rightarrow> ptr \<Rightarrow> int option \<Rightarrow> int option \<Rightarrow> (int \<times> int option \<times> int option) option" where
  "set_state_updnf counter new_statef old_statef up dn =
     do {
       new \<leftarrow> new_statef;
       old \<leftarrow> old_statef;
       Some (set_state_updn counter (Some (float_state new)) (Some (float_state old)) up dn)
     }"

definition set_state_togglef ::
  "int \<Rightarrow> ptr \<Rightarrow> ptr \<Rightarrow> int option \<Rightarrow> (int \<times> int option) option" where
  "set_state_togglef counter new_statef old_statef toggle =
     do {
       new \<leftarrow> new_statef;
       old \<leftarrow> old_statef;
       Some (set_state_toggle counter (Some (float_state new)) (Some (float_state old)) toggle)
     }"

text \<open>
  \<open>value\<close> is not initialised when the position is known but the interval counter is not 0;
  the argument \<open>junk\<close> is what it then holds.
\<close>

definition set_switch_cover :: "int \<Rightarrow> int \<Rightarrow> ptr \<Rightarrow> int option \<Rightarrow> int \<Rightarrow> (int \<times> int option) option" where
  "set_switch_cover counter junk switch_cover_pos toggle on =
     do {
       pos \<leftarrow> switch_cover_pos;
       let val =
         (if pos \<noteq> flt_miss then
            (if counter = 0 then
               (if on = 1
                then (case fp_val 23 8 (le_val pos) of
                        Fin m e \<Rightarrow> (if m > 0 then 1 else 0)
                      | Inf neg \<Rightarrow> (if neg then 0 else 1)
                      | NaN \<Rightarrow> 0)
                else (if pos = [0, 0, 0x80, 0x3F] then 1 else 0))
             else junk)
          else INT_MISS);
       Some (set_state_toggle counter (Some on) (Some val) toggle)
     }"

end
