(* ===== verification/HandleServer.thy ===== *)
theory HandleServer
  imports ServerData
begin

text \<open>
  \<open>libxpcockpit/src/handleserver.c\<close>: the client's side of the TCP/IP protocol.

  The environment of a call is an argument: what each \<open>recv\<close> returns is a list of events,
  and so is what each \<open>send\<close> returns; \<open>sock_ok\<close> says whether \<open>socket()\<close> succeeds and
  \<open>now\<close> is the time of day. A loop that polls a non-blocking socket is run over the events:
  when they are used up before it ends, the call has not returned and the result is \<open>None\<close>.
\<close>

section \<open>State\<close>

abbreviation (input) MARK_DATA :: int where "MARK_DATA \<equiv> 1000000"
abbreviation (input) MARK_LINK :: int where "MARK_LINK \<equiv> 2000000"
abbreviation (input) MARK_UNLINK :: int where "MARK_UNLINK \<equiv> 3000000"
abbreviation (input) MARK_EOT :: int where "MARK_EOT \<equiv> 4000000"
abbreviation (input) MARK_DISCONNECT :: int where "MARK_DISCONNECT \<equiv> 5000000"

abbreviation (input) status_Connected :: int where "status_Connected \<equiv> 1"
abbreviation (input) status_Ready :: int where "status_Ready \<equiv> 2"
abbreviation (input) status_Init :: int where "status_Init \<equiv> 3"
abbreviation (input) status_Error :: int where "status_Error \<equiv> 4"

abbreviation (input) TCPBUFSIZE :: int where "TCPBUFSIZE \<equiv> 1000000"

record client = sdstate +
  socketStatus :: int
  recvBuffer :: mem
  XPlaneServerIP :: mem
  XPlaneServerManual :: int
  connect_t1 :: timeval

text \<open>
  \<open>errno\<close> after a failed socket call, as far as the two programs tell values apart:
  \<open>CONNLOST\<close> stands for \<open>ECONNABORTED\<close>, \<open>ECONNREFUSED\<close>, \<open>ECONNRESET\<close>, \<open>EHOSTUNREACH\<close>,
  \<open>ENETDOWN\<close> and \<open>ENETRESET\<close>, \<open>UNREACHABLE\<close> for \<open>ENETUNREACH\<close> and \<open>ETIMEDOUT\<close>.
\<close>

datatype errno = EWOULDBLOCK | EINPROGRESS | CONNLOST | UNREACHABLE | EOTHER

text \<open>One \<open>recv\<close>: the bytes it delivers (none: the peer has closed), or \<open>-1\<close> with \<open>errno\<close>.\<close>

datatype recv_event = RData mem | RFail errno

text \<open>One \<open>send\<close>: the number of bytes it accepts, or \<open>-1\<close> with \<open>errno\<close>.\<close>

datatype send_event = SSent nat | SFail errno

section \<open>Socket creation and shutdown\<close>

definition create_tcpip_socket :: "bool \<Rightarrow> timeval \<Rightarrow> client \<Rightarrow> client \<times> int" where
  "create_tcpip_socket sock_ok now st =
     (let st = st\<lparr>socketStatus := status_Init, connect_t1 := now\<rparr>
      in if \<not> sock_ok then (st, -1) else (st\<lparr>socketStatus := status_Ready\<rparr>, 0))"

definition initialize_tcpip_client :: "bool \<Rightarrow> timeval \<Rightarrow> client \<Rightarrow> (client \<times> int) option" where
  "initialize_tcpip_client sock_ok now st =
     do {
       e \<leftarrow> streq (XPlaneServerIP st) [0];
       Some (create_tcpip_socket sock_ok now
         (st\<lparr>interval_counter := 0, XPlaneServerManual := (if e then 0 else 1)\<rparr>))
     }"

text \<open>
  The disconnect marker is sent until it is through or an error occurs (a socket that is not
  ready counts as an error here); the events that \<open>send\<close> has not used are returned. The
  status passes through \<open>Ready\<close> and ends as \<open>Init\<close>.
\<close>

fun exit_send :: "mem \<Rightarrow> send_event list \<Rightarrow> mem \<Rightarrow> (mem \<times> bool) option" where
  "exit_send sent evs [] = Some (sent, True)"
| "exit_send sent [] buf = None"
| "exit_send sent (SFail e # evs) buf = Some (sent, False)"
| "exit_send sent (SSent n # evs) buf = exit_send (sent @ take n buf) evs (drop n buf)"

definition exit_tcpip_client :: "send_event list \<Rightarrow> client \<Rightarrow> (client \<times> mem) option" where
  "exit_tcpip_client evs st =
     do {
       (sent, ok) \<leftarrow> (if socketStatus st = status_Connected
                      then exit_send [] evs (enc_int MARK_DISCONNECT) else Some ([], True));
       Some (st\<lparr>socketStatus := status_Init\<rparr>, sent)
     }"

section \<open>Connecting\<close>

text \<open>The outcome of the connection attempt: \<open>connect()\<close>, \<open>select()\<close> and \<open>getsockopt()\<close>.\<close>

record attempt =
  at_ioctl_ok :: bool
  at_connect :: "int + errno"     \<comment> \<open>the return value, or \<open>-1\<close> with \<open>errno\<close>\<close>
  at_select :: int
  at_sockopt :: "int option"      \<comment> \<open>\<open>SO_ERROR\<close>, \<open>None\<close> when the call fails\<close>

definition connect_succeeds :: "attempt \<Rightarrow> bool" where
  "connect_succeeds a =
     (let completed = (at_select a > 0 \<and>
            (case at_sockopt a of None \<Rightarrow> False | Some err \<Rightarrow> err \<le> 0))
      in case at_connect a of
           Inl r \<Rightarrow> r = 0 \<or> (r > 0 \<and> completed)
         | Inr e \<Rightarrow> e = EINPROGRESS \<and> completed)"

text \<open>
  \<open>check_xpserver\<close>. The time since the last attempt is compared with one second on whole
  microseconds: the code's conversion to \<open>float\<close> does not change the comparison, since the
  spacing of floats at 1.0 is below one microsecond.
\<close>

definition check_xpserver ::
  "mem \<Rightarrow> timeval \<Rightarrow> attempt \<Rightarrow> bool \<Rightarrow> client \<Rightarrow> (client \<times> int) option" where
  "check_xpserver beaconIP now a sock_ok st0 =
     do {
       let st = (if socketStatus st0 = status_Error then st0\<lparr>socketStatus := status_Connected\<rparr>
                 else st0);
       st \<leftarrow>
         (if socketStatus st = status_Ready then
            do {
              let st = (if XPlaneServerManual st = 0
                        then st\<lparr>XPlaneServerIP := strncpy (XPlaneServerIP st) beaconIP\<rparr> else st);
              noip \<leftarrow> streq (XPlaneServerIP st) [0];
              (if noip then Some st
               else if (fst now - fst (connect_t1 st)) * 1000000 +
                       (snd now - snd (connect_t1 st)) \<le> 1000000 then Some st
               else
                 do {
                   let st = st\<lparr>connect_t1 := now\<rparr>;
                   let st = (if at_ioctl_ok a then st else st\<lparr>socketStatus := status_Error\<rparr>);
                   let st = (if connect_succeeds a then st\<lparr>socketStatus := status_Connected\<rparr> else st);
                   Some (if socketStatus st = status_Ready
                         then fst (create_tcpip_socket sock_ok now st) else st)
                 })
            }
          else if socketStatus st = status_Init then Some (fst (create_tcpip_socket sock_ok now st))
          else Some st);
       Some (st, if socketStatus st = status_Connected then 1 else 0)
     }"

section \<open>Receiving\<close>

text \<open>\<open>interval_counter\<close> counts the calls modulo \<open>INTERVAL_UPDN / interval\<close>.\<close>

abbreviation (input) INTERVAL_UPDN :: int where "INTERVAL_UPDN \<equiv> 100"

definition tick :: "client \<Rightarrow> client" where
  "tick st =
     (let c = wrap32 (interval_counter st + 1)
      in st\<lparr>interval_counter :=
              (if interval st \<noteq> 0 \<and> c \<ge> INTERVAL_UPDN sdiv interval st then 0 else c)\<rparr>)"

text \<open>
  The loop that collects a transmission: the state, the buffer, the size of the message and
  the disconnect flag, with the events not yet used. The last four bytes received are looked
  at after every piece; with fewer than four bytes the read lies before the buffer.
\<close>

fun recv_loop ::
  "client \<Rightarrow> mem \<Rightarrow> nat \<Rightarrow> recv_event list \<Rightarrow>
   (client \<times> mem \<times> nat \<times> bool \<times> recv_event list) option" where
  "recv_loop st buf n evs =
     (if socketStatus st \<noteq> status_Connected then Some (st, buf, n, False, evs)
      else case evs of
        [] \<Rightarrow> None
      | RFail e # evs' \<Rightarrow>
          (if e = EWOULDBLOCK then
             (if n = 0 then Some (st, buf, n, False, evs') else recv_loop st buf n evs')
           else if e = CONNLOST \<or> e = UNREACHABLE then Some (st\<lparr>socketStatus := status_Init\<rparr>, buf, 0, True, evs')
           else Some (st\<lparr>socketStatus := status_Error\<rparr>, buf, 0, False, evs'))
      | RData bs # evs' \<Rightarrow>
          (if bs = [] then Some (st, buf, 0, True, evs')
           else if TCPBUFSIZE < int (n + length bs) then None
           else
             do {
               buf \<leftarrow> mem_write buf (int n) bs;
               datai \<leftarrow> read_int buf (int (n + length bs) - 4);
               (if datai = MARK_EOT \<or> datai = MARK_DISCONNECT
                then Some (st, buf, n + length bs, False, evs')
                else recv_loop st buf (n + length bs) evs')
             }))"

declare recv_loop.simps [simp del]

text \<open>
  The element-wise copy of received data into a block: elements that carry the missing-value
  marker are skipped. The block is not touched, and may be \<open>NULL\<close>, when all are.
\<close>

definition ptr_write :: "ptr \<Rightarrow> int \<Rightarrow> mem \<Rightarrow> ptr option" where
  "ptr_write p i v = (case p of None \<Rightarrow> None | Some b \<Rightarrow> map_option Some (mem_write b i v))"

fun store_elems :: "int \<Rightarrow> nat \<Rightarrow> nat \<Rightarrow> mem \<Rightarrow> ptr \<Rightarrow> ptr option" where
  "store_elems t j 0 payload p = Some p"
| "store_elems t j (Suc k) payload p =
     do {
       v \<leftarrow> mem_read payload (int (j * elem_size t)) (elem_size t);
       p \<leftarrow> (if is_miss t v then Some p else ptr_write p (int (j * elem_size t)) v);
       store_elems t (Suc j) k payload p
     }"

text \<open>
  A data message for slot \<open>offset\<close>: \<open>tot\<close> is the size of the message in the buffer and
  \<open>left\<close> what remains of it. The size tests compare in \<open>size_t\<close>, in which a negative
  remainder counts as huge. Array data goes through a temporary block; when that cannot be
  allocated the data is dropped.
\<close>

definition recv_payload ::
  "(nat \<Rightarrow> bool) \<Rightarrow> mem \<Rightarrow> int \<Rightarrow> int \<Rightarrow> sdata \<Rightarrow> (sdata \<times> int) option" where
  "recv_payload avail buf tot left s =
     (let n = elem_count (sd_type s) (sd_nelements s) (sd_index s);
          need = to_size (n * int (elem_size (sd_type s)))
      in if need \<le> to_size left then
           do {
             s \<leftarrow> (if sd_status s = XPSTATUS_VALID \<and>
                       (scalar_type (sd_type s) \<or> avail (nat need)) then
                     do {
                       v \<leftarrow> mem_read buf (tot - left) (nat need);
                       d \<leftarrow> store_elems (sd_type s) 0 (nat n) v (sd_data s);
                       d_old \<leftarrow> store_elems (sd_type s) 0 (nat n) v (sd_data_old s);
                       Some (s\<lparr>sd_data := d, sd_data_old := d_old\<rparr>)
                     }
                   else Some s);
             Some (s, wrap32 (left - need))
           }
         else Some (s, 0))"

definition recv_data ::
  "(nat \<Rightarrow> bool) \<Rightarrow> mem \<Rightarrow> int \<Rightarrow> int \<Rightarrow> int \<Rightarrow> client \<Rightarrow> (client \<times> int) option" where
  "recv_data avail buf tot left offset st =
     (if serverdata st \<noteq> [] \<and> offset < numalloc st then
        do {
          let i = nat offset;
          let s = serverdata st ! i;
          let s = s\<lparr>sd_received := 1, sd_nrecv := wrap32 (sd_nrecv s + 1)\<rparr>;
          (if known_type (sd_type s) then
             do {
               (s, left) \<leftarrow> recv_payload avail buf tot left s;
               Some (upd_slot i (\<lambda>_. s) st, left)
             }
           else Some (upd_slot i (\<lambda>_. s) st, left))
        }
      else Some (st, left))"

text \<open>
  The answer to a link request. The slot is addressed without testing that it exists; a name
  that differs from the slot's is the server's error text.
\<close>

definition recv_link :: "mem \<Rightarrow> int \<Rightarrow> int \<Rightarrow> int \<Rightarrow> client \<Rightarrow> (client \<times> int) option" where
  "recv_link buf tot left offset st =
     (if int NAMELEN \<le> to_size left then
        do {
          errorstring \<leftarrow> mem_read buf (tot - left) NAMELEN;
          let left = left - int NAMELEN;
          (if offset < numalloc st then
             do {
               eq \<leftarrow> strneq NAMELEN (sd_name (serverdata st ! nat offset)) errorstring;
               Some (if eq
                     then count_dataref (upd_slot (nat offset)
                            (\<lambda>s. s\<lparr>sd_status := XPSTATUS_VALID, sd_received := 1\<rparr>) st)
                     else st, left)
             }
           else None)
        }
      else Some (st, 0))"

definition recv_unlink :: "mem \<Rightarrow> int \<Rightarrow> int \<Rightarrow> int \<Rightarrow> client \<Rightarrow> (client \<times> int) option" where
  "recv_unlink buf tot left offset st =
     (if int NAMELEN \<le> to_size left then
        do {
          errorstring \<leftarrow> mem_read buf (tot - left) NAMELEN;
          let left = left - int NAMELEN;
          (if offset < numalloc st then
             do {
               eq \<leftarrow> strneq NAMELEN (sd_name (serverdata st ! nat offset)) errorstring;
               Some (if eq
                     then count_dataref (upd_slot (nat offset)
                            (\<lambda>s. s\<lparr>sd_name := replicate NAMELEN 0,
                                   sd_status := XPSTATUS_UNINITIALIZED, sd_received := 1\<rparr>) st)
                     else st, left)
             }
           else None)
        }
      else Some (st, 0))"

text \<open>One message of a transmission, and the loop over a transmission.\<close>

definition recv_message ::
  "(nat \<Rightarrow> bool) \<Rightarrow> mem \<Rightarrow> int \<Rightarrow> int \<Rightarrow> client \<times> bool \<Rightarrow> ((client \<times> bool) \<times> int) option" where
  "recv_message avail buf tot left0 = (\<lambda>(st, disconnected).
     do {
       first \<leftarrow> read_int buf (tot - left0);
       let left = left0 - 4;
       (st, left) \<leftarrow>
         (if first \<ge> MARK_DATA \<and> first < MARK_LINK
          then recv_data avail buf tot left (first - MARK_DATA) st
          else if first \<ge> MARK_LINK \<and> first < MARK_UNLINK
          then recv_link buf tot left (first - MARK_LINK) st
          else if first \<ge> MARK_UNLINK \<and> first < MARK_EOT
          then recv_unlink buf tot left (first - MARK_UNLINK) st
          else Some (st, left));
       Some (if first = MARK_DISCONNECT then (st\<lparr>socketStatus := status_Init\<rparr>, True)
             else (st, disconnected), left)
     })"

partial_function (option) recv_messages ::
  "(nat \<Rightarrow> bool) \<Rightarrow> mem \<Rightarrow> int \<Rightarrow> int \<Rightarrow> client \<times> bool \<Rightarrow> (client \<times> bool) option" where
  "recv_messages avail buf tot left s =
     (if left > 0 then
        do {
          (s, left) \<leftarrow> recv_message avail buf tot left s;
          recv_messages avail buf tot left s
        }
      else Some s)"

text \<open>After a disconnection every named slot is to be linked again.\<close>

definition realloc_status :: "sdata \<Rightarrow> sdata option" where
  "realloc_status s =
     do {
       e \<leftarrow> streq [0] (sd_name s);
       Some (if e then s else s\<lparr>sd_status := XPSTATUS_ALLOC\<rparr>)
     }"

fun map_opt :: "('a \<Rightarrow> 'b option) \<Rightarrow> 'a list \<Rightarrow> 'b list option" where
  "map_opt f [] = Some []"
| "map_opt f (x # xs) = do { y \<leftarrow> f x; ys \<leftarrow> map_opt f xs; Some (y # ys) }"

definition receive_xpserver ::
  "(nat \<Rightarrow> bool) \<Rightarrow> bool \<Rightarrow> timeval \<Rightarrow> recv_event list \<Rightarrow> client \<Rightarrow>
   (client \<times> int \<times> recv_event list) option" where
  "receive_xpserver avail sock_ok now evs st =
     do {
       let st = reset_received (tick st);
       (st, buf, n, disc, evs) \<leftarrow> recv_loop st ((recvBuffer st)[0 := 0]) 0 evs;
       let st = st\<lparr>recvBuffer := buf\<rparr>;
       (st, disc) \<leftarrow> recv_messages avail buf (int n) (int n) (st, disc);
       (st, ret) \<leftarrow>
         (if disc then
            do {
              slots \<leftarrow> map_opt realloc_status (serverdata st);
              let (st, r) = create_tcpip_socket sock_ok now (st\<lparr>serverdata := slots\<rparr>);
              Some (st, if r < 0 then -123 else int n)
            }
          else Some (st, int n));
       Some (count_received st, ret, evs)
     }"

section \<open>Sending\<close>

text \<open>
  \<open>send_xpserver\<close> of \<open>libxpcockpit/src/handleserver.c\<close>: link and unlink requests and changed
  data of all slots are packed into the transmission buffer, which is then sent.

  The buffer is the list of the bytes written so far (\<open>send_left\<close> is its length); writing
  past \<open>TCPBUFSIZE\<close> is undefined. Each message is preceded by its own test that it fits.
\<close>

definition put :: "mem \<Rightarrow> mem \<Rightarrow> mem option" where
  "put out v = (if int (length out + length v) \<le> TCPBUFSIZE then Some (out @ v) else None)"

definition send_link :: "mem \<Rightarrow> nat \<Rightarrow> sdata \<Rightarrow> mem \<Rightarrow> (sdata \<times> mem) option" where
  "send_link cname i s out =
     (if int (length out + 6 * 4 + NAMELEN + NAMELEN) \<le> TCPBUFSIZE then
        do {
          name \<leftarrow> mem_read (sd_name s) 0 NAMELEN;
          cn \<leftarrow> mem_read cname 0 NAMELEN;
          out \<leftarrow> put out (enc_int (MARK_LINK + int i));
          out \<leftarrow> put out (enc_int (sd_type s));
          out \<leftarrow> put out (enc_int (sd_nelements s));
          out \<leftarrow> put out (enc_int (sd_index s));
          out \<leftarrow> put out (enc_int (sd_precision s));
          out \<leftarrow> put out name;
          out \<leftarrow> put out cn;
          Some (s\<lparr>sd_status := XPSTATUS_LINK\<rparr>, out)
        }
      else Some (s, out))"

definition send_unlink :: "nat \<Rightarrow> sdata \<Rightarrow> mem \<Rightarrow> (sdata \<times> mem) option" where
  "send_unlink i s out =
     (if int (length out + 4 + NAMELEN) \<le> TCPBUFSIZE then
        do {
          name \<leftarrow> mem_read (sd_name s) 0 NAMELEN;
          out \<leftarrow> put out (enc_int (MARK_UNLINK + int i));
          out \<leftarrow> put out name;
          Some (s\<lparr>sd_status := XPSTATUS_UNLINK\<rparr>, out)
        }
      else Some (s, out))"

text \<open>
  Data of a linked slot. A change that does not fit leaves \<open>data_old\<close> alone, so that it is
  found again in the next round; a one-time command is reset after it was packed. The number
  of transmissions is counted whether or not the data fitted.
\<close>

definition send_data :: "nat \<Rightarrow> sdata \<Rightarrow> mem \<Rightarrow> (sdata \<times> mem) option" where
  "send_data i s out =
     (if \<not> known_type (sd_type s) then Some (s, out)
      else
        do {
          let t = sd_type s;
          let n = nat (elem_count t (sd_nelements s) (sd_index s));
          let len = n * elem_size t;
          data \<leftarrow> sd_data s;
          data_old \<leftarrow> sd_data_old s;
          changed \<leftarrow> blocks_changed t (sd_precision s) n data data_old;
          (if changed then
             do {
               (s, out) \<leftarrow>
                 (if int (length out + 2 * 4 + len) \<le> TCPBUFSIZE then
                    do {
                      out \<leftarrow> put out (enc_int (MARK_DATA + int i));
                      v \<leftarrow> mem_read data 0 len;
                      out \<leftarrow> put out v;
                      data \<leftarrow> (if t = XPTYPE_CMD_ONCE then mem_write data 0 (enc_int 0)
                              else Some data);
                      v \<leftarrow> mem_read data 0 len;
                      data_old \<leftarrow> mem_write data_old 0 v;
                      Some (s\<lparr>sd_data := Some data, sd_data_old := Some data_old\<rparr>, out)
                    }
                  else Some (s, out));
               Some (s\<lparr>sd_nsend := wrap32 (sd_nsend s + 1)\<rparr>, out)
             }
           else Some (s, out))
        })"

definition send_slot :: "mem \<Rightarrow> nat \<Rightarrow> sdata \<Rightarrow> mem \<Rightarrow> (sdata \<times> mem) option" where
  "send_slot cname i s out =
     do {
       e \<leftarrow> streq [0] (sd_name s);
       (if e then Some (s, out)
        else if sd_status s = XPSTATUS_ALLOC then send_link cname i s out
        else if sd_status s = XPSTATUS_DEALLOC then send_unlink i s out
        else if sd_status s = XPSTATUS_VALID then send_data i s out
        else Some (s, out))
     }"

fun send_slots :: "mem \<Rightarrow> nat \<Rightarrow> sdata list \<Rightarrow> mem \<Rightarrow> (sdata list \<times> mem) option" where
  "send_slots cname i [] out = Some ([], out)"
| "send_slots cname i (s # ss) out =
     do {
       (s, out) \<leftarrow> send_slot cname i s out;
       (ss, out) \<leftarrow> send_slots cname (Suc i) ss out;
       Some (s # ss, out)
     }"

text \<open>The loop around \<open>send\<close>: what was sent, and whether it was ended by an error.\<close>

fun send_loop :: "mem \<Rightarrow> mem \<Rightarrow> send_event list \<Rightarrow> (mem \<times> bool \<times> send_event list) option" where
  "send_loop sent buf evs =
     (if buf = [] then Some (sent, True, evs)
      else case evs of
        [] \<Rightarrow> None
      | SFail e # evs' \<Rightarrow> (if e = EWOULDBLOCK then send_loop sent buf evs'
                            else Some (sent, False, evs'))
      | SSent n # evs' \<Rightarrow> send_loop (sent @ take n buf) (drop n buf) evs')"

declare send_loop.simps [simp del]

definition send_xpserver ::
  "send_event list \<Rightarrow> client \<Rightarrow> (client \<times> int \<times> mem \<times> send_event list) option" where
  "send_xpserver evs st =
     (if socketStatus st = status_Connected \<and> serverdata st \<noteq> [] then
        do {
          (ss, out) \<leftarrow> send_slots (clientname st) 0 (serverdata st) [];
          let st = st\<lparr>serverdata := ss\<rparr>;
          (if out = [] then Some (st, socketStatus st, [], evs)
           else
             do {
               out \<leftarrow> put out (enc_int MARK_EOT);
               (sent, ok, evs) \<leftarrow> send_loop [] out evs;
               let st = (if ok then st else st\<lparr>socketStatus := status_Error\<rparr>);
               Some (st, socketStatus st, sent, evs)
             })
        }
      else Some (st, socketStatus st, [], evs))"

end
