(* ===== verification/Beacon.thy ===== *)
theory Beacon
  imports HandleServer Arrays
begin

text \<open>
  \<open>libxpcockpit/src/xplanebeacon.c\<close>: the thread that listens to the multicast messages by which
  X-Plane announces itself, and so finds the address the client connects to (\<open>check_xpserver\<close>).

  What \<open>recvfrom\<close> returns is a list of events; the thread ends when they are used up or
  \<open>exit_beacon_client\<close> has been called. The record holds the variables of the file and the
  local buffer of the thread, which keeps the bytes of earlier datagrams. The main program reads
  \<open>XPlaneBeaconIP\<close> without a lock; the model lets it read between two turns of the loop.
\<close>

section \<open>State\<close>

abbreviation (input) XPBEACON_POLL_MAX_TIMEOUT :: int where "XPBEACON_POLL_MAX_TIMEOUT \<equiv> 300"
abbreviation (input) BECNBUFLEN :: nat where "BECNBUFLEN \<equiv> 1000"

record beacon =
  XPlaneBeaconIP :: mem
  XPlaneBeaconPort :: int
  xpbeacon_poll_timeout_counter :: int
  xpbeacon_poll_thread_exit_code :: int
  becn_buffer :: mem

text \<open>The sender's address as \<open>recvfrom\<close> stores it, in network byte order.\<close>

record sockaddr =
  sin_addr :: mem
  sin_port :: mem

text \<open>
  One \<open>recvfrom\<close>: \<open>-1\<close> because the second is over or a signal came, \<open>-1\<close> with another error,
  or a datagram.
\<close>

datatype beacon_event = BTimeout | BError | BDatagram sockaddr mem

definition ntohs :: "mem \<Rightarrow> int" where
  "ntohs p = 256 * uint (p ! 0) + uint (p ! 1)"

text \<open>\<open>inet_ntoa\<close>, with the terminator.\<close>

definition dotted :: "mem \<Rightarrow> mem" where
  "dotted a =
     dec_digits (unat (a ! 0)) @ chars ''.'' @ dec_digits (unat (a ! 1)) @ chars ''.'' @
     dec_digits (unat (a ! 2)) @ chars ''.'' @ dec_digits (unat (a ! 3))"

definition inet_ntoa :: "mem \<Rightarrow> mem" where
  "inet_ntoa a = dotted a @ [0]"

section \<open>The receive thread\<close>

text \<open>
  A beacon: the fields are copied out of the buffer, whether or not this datagram was long enough
  to fill them, and the computer name is what is left of the datagram. Only the sender of a
  beacon of X-Plane (not of PlaneMaker) in the role of the master is remembered.
\<close>

definition take_beacon :: "sockaddr \<Rightarrow> int \<Rightarrow> beacon \<Rightarrow> beacon option" where
  "take_beacon from ret s =
     do {
       let buffer = becn_buffer s;
       beacon_major_version \<leftarrow> mem_read buffer 5 1;
       beacon_minor_version \<leftarrow> mem_read buffer 6 1;
       application_host_id \<leftarrow> read_int buffer 7;
       version_number \<leftarrow> read_int buffer 11;
       role \<leftarrow> map_option le_val (mem_read buffer 15 4);
       port \<leftarrow> mem_read buffer 19 2;
       computer_name \<leftarrow>
         (if ret > 21 then
            do { name \<leftarrow> mem_read buffer 21 (nat (ret - 21)); mem_write (replicate 500 0) 0 name }
          else Some (replicate 500 0));
       if application_host_id = 1 \<and> role = 1 then
         do {
           ip \<leftarrow> strcpy (XPlaneBeaconIP s) (inet_ntoa (sin_addr from));
           Some (s\<lparr>xpbeacon_poll_timeout_counter := 0, XPlaneBeaconIP := ip,
             XPlaneBeaconPort := ntohs (sin_port from)\<rparr>)
         }
       else Some s
     }"

definition beacon_timeout :: "beacon \<Rightarrow> beacon" where
  "beacon_timeout s =
     (let n = wrap32 (xpbeacon_poll_timeout_counter s + 1);
          s = s\<lparr>xpbeacon_poll_timeout_counter := n\<rparr>
      in if n = XPBEACON_POLL_MAX_TIMEOUT \<and> XPlaneBeaconPort s \<noteq> 0
         then s\<lparr>XPlaneBeaconIP := map (\<lambda>_. 0) (XPlaneBeaconIP s), XPlaneBeaconPort := 0\<rparr>
         else s)"

text \<open>One turn of the loop.\<close>

definition beacon_poll :: "beacon_event \<Rightarrow> beacon \<Rightarrow> beacon option" where
  "beacon_poll ev s =
     (case ev of
        BTimeout \<Rightarrow> Some (beacon_timeout s)
      | BError \<Rightarrow> Some s
      | BDatagram from data \<Rightarrow>
          do {
            let msg = take BECNBUFLEN data;
            let ret = int (length msg);
            buffer \<leftarrow> mem_write (becn_buffer s) 0 msg;
            let s = s\<lparr>becn_buffer := buffer\<rparr>;
            if ret > 0 then
              do {
                is_becn \<leftarrow> strneq 4 buffer (chars ''BECN'' @ [0]);
                if is_becn then take_beacon from ret s else Some s
              }
            else Some s
          })"

fun xpbeacon_poll_thread_main :: "beacon_event list \<Rightarrow> beacon \<Rightarrow> beacon option" where
  "xpbeacon_poll_thread_main [] s = Some s"
| "xpbeacon_poll_thread_main (ev # evs) s =
     (if xpbeacon_poll_thread_exit_code s = 0
      then do { s \<leftarrow> beacon_poll ev s; xpbeacon_poll_thread_main evs s }
      else Some s)"

section \<open>Start and end\<close>

text \<open>
  \<open>initialize_beacon_client\<close>: the variables, then the calls that set up the socket, each of
  which may fail, and the creation of the thread, whose buffer has arbitrary contents (\<open>junk\<close>).
\<close>

record beacon_setup =
  bs_socket :: int
  bs_reuseaddr :: int
  bs_bind :: int
  bs_membership :: int
  bs_ioctl :: int
  bs_thread :: int

definition initialize_beacon_client :: "beacon_setup \<Rightarrow> mem \<Rightarrow> beacon \<Rightarrow> beacon \<times> int" where
  "initialize_beacon_client r junk s =
     (let s = s\<lparr>XPlaneBeaconIP := map (\<lambda>_. 0) (XPlaneBeaconIP s), XPlaneBeaconPort := 0,
                xpbeacon_poll_timeout_counter := 0\<rparr>
      in if bs_socket r < 0 then (s, -1)
         else if bs_reuseaddr r < 0 then (s, -1)
         else if bs_bind r < 0 then (s, -1)
         else if bs_membership r < 0 then (s, -1)
         else if bs_ioctl r < 0 then (s, -1)
         else (let s = s\<lparr>xpbeacon_poll_thread_exit_code := 0\<rparr>
               in if bs_thread r > 0 then (s, -1) else (s\<lparr>becn_buffer := junk\<rparr>, 0)))"

definition exit_beacon_client :: "beacon \<Rightarrow> beacon" where
  "exit_beacon_client s = s\<lparr>xpbeacon_poll_thread_exit_code := 1\<rparr>"

text \<open>The variables as C initialises them.\<close>

definition static_beacon :: beacon where
  "static_beacon =
     \<lparr> XPlaneBeaconIP = replicate 30 0, XPlaneBeaconPort = 0, xpbeacon_poll_timeout_counter = 0,
       xpbeacon_poll_thread_exit_code = 0, becn_buffer = [] \<rparr>"

end
