(* ===== verification/BeaconFacts.thy ===== *)
theory BeaconFacts
  imports Beacon
begin

text \<open>
  What the beacon receiver promises, in terms of the datagrams that have arrived: the address is
  that of the last master heard, as long as fewer than 300 seconds of silence have passed since
  then. \<open>check_xpserver\<close> connects to it. The last section has the datagrams the code is not
  prepared for.
\<close>

section \<open>Specification\<close>

definition is_becn :: "mem \<Rightarrow> bool" where
  "is_becn data \<longleftrightarrow> take 4 data = chars ''BECN''"

definition master :: "mem \<Rightarrow> bool" where
  "master data \<longleftrightarrow>
     is_becn data \<and> dec_int (take 4 (drop 7 data)) = 1 \<and> le_val (take 4 (drop 15 data)) = 1"

fun from_master :: "beacon_event \<Rightarrow> bool" where
  "from_master (BDatagram a data) = master data"
| "from_master _ = False"

text \<open>
  Datagrams that the code can handle: beacons are complete and the computer name fits, other
  datagrams have at least the four bytes that are compared, and the sender has a port.
\<close>

fun fair :: "beacon_event \<Rightarrow> bool" where
  "fair (BDatagram a data) =
     (4 \<le> length data \<and> (is_becn data \<longrightarrow> 21 \<le> length data \<and> length data \<le> 521) \<and>
      ntohs (sin_port a) \<noteq> 0)"
| "fair _ = True"

fun sender :: "beacon_event \<Rightarrow> sockaddr option" where
  "sender (BDatagram a data) = Some a"
| "sender _ = None"

definition last_master :: "beacon_event list \<Rightarrow> sockaddr option" where
  "last_master evs = Option.bind (find from_master (rev evs)) sender"

text \<open>The seconds without any datagram since the last beacon of a master.\<close>

definition silence :: "beacon_event list \<Rightarrow> nat" where
  "silence evs =
     length (filter (\<lambda>ev. ev = BTimeout) (takeWhile (\<lambda>ev. \<not> from_master ev) (rev evs)))"

definition announced :: "beacon_event list \<Rightarrow> sockaddr option" where
  "announced evs = (if silence evs < 300 then last_master evs else None)"

section \<open>Refinement\<close>

text \<open>The addresses are short enough for the array.\<close>

lemma length_dec_digits_byte: "length (dec_digits (unat (b :: byte))) \<le> 3"
proof -
  have "unat b < 256" proof -
    have "(unsigned b :: nat) < 2 ^ LENGTH(8)" by (rule unsigned_less)
    then show ?thesis by simp
  qed
  then have "unat b div 10 div 10 < 10" by simp
  then show ?thesis
    by (subst dec_digits.simps, subst dec_digits.simps, subst dec_digits.simps) simp
qed

lemma length_dotted: "length (dotted a) \<le> 15"
  using length_dec_digits_byte [of "a ! 0"] length_dec_digits_byte [of "a ! 1"]
    length_dec_digits_byte [of "a ! 2"] length_dec_digits_byte [of "a ! 3"]
  by (simp add: dotted_def chars_def)

lemma dotted_no_nul: "0 \<notin> set (dotted a)"
  using dec_digits_no_nul by (auto simp: dotted_def chars_def)

lemma dotted_not_Nil: "dotted a \<noteq> []"
  by (simp add: dotted_def chars_def)

lemma cstr_inet_ntoa: "cstr (inet_ntoa a) = dotted a" "terminated (inet_ntoa a)"
  by (simp_all add: inet_ntoa_def cstr_append_nul dotted_no_nul)

lemma strcpy_address:
  assumes "length b = 30"
  shows "\<exists>d. strcpy b (inet_ntoa a) = Some d \<and> length d = 30 \<and> terminated d \<and> cstr d = dotted a"
proof -
  from length_dotted [of a] assms
  obtain d where "strcpy b (inet_ntoa a) = Some d"
    by (simp add: strcpy_Some cstr_inet_ntoa)
  with strcpy_result [OF this] assms show ?thesis by (simp add: cstr_inet_ntoa)
qed

text \<open>What the state of the thread says about the events so far.\<close>

definition shows_master :: "mem \<Rightarrow> int \<Rightarrow> sockaddr option \<Rightarrow> bool" where
  "shows_master ip port m \<longleftrightarrow>
     (case m of None \<Rightarrow> cstr ip = [] \<and> port = 0
      | Some a \<Rightarrow> cstr ip = dotted (sin_addr a) \<and> port = ntohs (sin_port a))"

definition beacon_inv :: "beacon_event list \<Rightarrow> beacon \<Rightarrow> bool" where
  "beacon_inv evs s \<longleftrightarrow>
     length (XPlaneBeaconIP s) = 30 \<and> terminated (XPlaneBeaconIP s) \<and>
     length (becn_buffer s) = BECNBUFLEN \<and> xpbeacon_poll_thread_exit_code s = 0 \<and>
     (last_master evs \<noteq> None \<longrightarrow> xpbeacon_poll_timeout_counter s = wrap32 (int (silence evs))) \<and>
     (\<forall>a. last_master evs = Some a \<longrightarrow> ntohs (sin_port a) \<noteq> 0) \<and>
     shows_master (XPlaneBeaconIP s) (XPlaneBeaconPort s) (announced evs)"

lemma history_snoc:
  "last_master (evs @ [ev]) = (if from_master ev then sender ev else last_master evs)"
  "silence (evs @ [ev]) = (if from_master ev then 0 else silence evs + (if ev = BTimeout then 1 else 0))"
  by (simp_all add: last_master_def silence_def)

lemma wrap32_Suc: "wrap32 (wrap32 x + 1) = wrap32 (x + 1)"
  by (simp add: wrap32_def mod_simps algebra_simps)

lemma wrap32_small: "n \<le> 300 \<Longrightarrow> wrap32 (int n) = int n"
  by (simp add: in_i32_def)

lemma beacon_inv_timeout:
  assumes "beacon_inv evs s"
  shows "beacon_inv (evs @ [BTimeout]) (beacon_timeout s)"
proof -
  have z: "map (\<lambda>_. 0) (XPlaneBeaconIP s) = replicate 30 (0 :: byte)"
    using assms by (simp add: beacon_inv_def map_replicate_const)
  show ?thesis
  proof (cases "last_master evs")
    case None
    with assms show ?thesis
      by (auto simp: beacon_inv_def beacon_timeout_def Let_def history_snoc announced_def
        shows_master_def z split: if_splits)
  next
    case (Some a)
    with assms have c: "wrap32 (xpbeacon_poll_timeout_counter s + 1) = wrap32 (int (silence evs) + 1)"
      by (simp add: beacon_inv_def wrap32_Suc)
    consider "silence evs < 299" | "silence evs = 299" | "silence evs \<ge> 300" by linarith
    then show ?thesis
    proof cases
      case 1
      then have "wrap32 (int (silence evs) + 1) \<noteq> 300" by (simp add: in_i32_def)
      with 1 c Some assms show ?thesis
        by (simp add: beacon_inv_def beacon_timeout_def Let_def history_snoc announced_def add.commute)
    next
      case 2
      with c Some assms show ?thesis
        by (simp add: beacon_inv_def beacon_timeout_def Let_def history_snoc announced_def
          shows_master_def z in_i32_def)
    next
      case 3
      with c Some assms show ?thesis
        by (simp add: beacon_inv_def beacon_timeout_def Let_def history_snoc announced_def
          shows_master_def add.commute)
    qed
  qed
qed

lemma read_prefix:
  "i + n \<le> length d \<Longrightarrow> mem_read (d @ r) (int i) n = Some (take n (drop i d))"
  by (simp add: mem_read_def)

lemma read_int_prefix:
  "i + 4 \<le> length d \<Longrightarrow> read_int (d @ r) (int i) = Some (dec_int (take 4 (drop i d)))"
  by (simp add: read_int_def read_prefix)

lemma take_beacon_fair:
  assumes "becn_buffer s = data @ r" and "21 \<le> length data" and "length data \<le> 521"
    and "length (XPlaneBeaconIP s) = 30" and "is_becn data" and "ret \<le> int (length data)"
  shows "\<exists>ip. take_beacon a ret s =
      Some (if master data then s\<lparr>xpbeacon_poll_timeout_counter := 0, XPlaneBeaconIP := ip,
        XPlaneBeaconPort := ntohs (sin_port a)\<rparr> else s) \<and>
    length ip = 30 \<and> terminated ip \<and> cstr ip = dotted (sin_addr a)"
proof -
  from strcpy_address [OF assms(4)] obtain ip where
    ip: "strcpy (XPlaneBeaconIP s) (inet_ntoa (sin_addr a)) = Some ip" "length ip = 30"
      "terminated ip" "cstr ip = dotted (sin_addr a)" by blast
  from assms(2) have r: "mem_read (data @ r) 5 1 \<noteq> None" "mem_read (data @ r) 6 1 \<noteq> None"
    "mem_read (data @ r) 19 2 \<noteq> None"
    by (simp_all add: mem_read_def)
  from assms(2) have f: "read_int (data @ r) 7 = Some (dec_int (take 4 (drop 7 data)))"
    "read_int (data @ r) 11 = Some (dec_int (take 4 (drop 11 data)))"
    "mem_read (data @ r) 15 4 = Some (take 4 (drop 15 data))"
    using read_int_prefix [of 7 data r] read_int_prefix [of 11 data r] read_prefix [of 15 4 data r]
    by simp_all
  from assms(2,3,6) have n: "\<exists>v. mem_read (data @ r) 21 (nat (ret - 21)) = Some v \<and>
      (\<exists>w. mem_write (replicate 500 0) 0 v = Some w)" if "ret > 21"
    using that by (auto simp: mem_read_def mem_write_def)
  from ip r f n assms(5) show ?thesis
    unfolding take_beacon_def assms(1) Let_def master_def
    by (auto simp: bind_eq_Some_conv)
qed

lemma beacon_inv_poll:
  assumes inv: "beacon_inv evs s" and ev: "fair ev"
  shows "\<exists>t. beacon_poll ev s = Some t \<and> beacon_inv (evs @ [ev]) t"
proof (cases ev)
  case BTimeout
  with beacon_inv_timeout [OF inv] show ?thesis by (simp add: beacon_poll_def)
next
  case BError
  then have "announced (evs @ [ev]) = announced evs" by (simp add: announced_def history_snoc)
  with inv BError show ?thesis by (simp add: beacon_poll_def beacon_inv_def history_snoc)
next
  case (BDatagram a data)
  let ?d = "take BECNBUFLEN data"
  from inv have lb: "length (becn_buffer s) = 1000" "length (XPlaneBeaconIP s) = 30"
    by (simp_all add: beacon_inv_def)
  let ?s = "s\<lparr>becn_buffer := ?d @ drop (length ?d) (becn_buffer s)\<rparr>"
  have w: "mem_write (becn_buffer s) 0 ?d = Some (?d @ drop (length ?d) (becn_buffer s))"
    using lb by (simp add: mem_write_def)
  from ev BDatagram have l: "4 \<le> length data" by simp
  then have m: "strneq 4 (?d @ drop (length ?d) (becn_buffer s)) (chars ''BECN'' @ [0]) = Some (is_becn data)"
    by (subst strneq_take) (auto simp: is_becn_def chars_def min_def)
  show ?thesis
  proof (cases "is_becn data")
    case True
    with ev BDatagram have lens: "21 \<le> length data" "length data \<le> 521" by simp_all
    then have d: "?d = data" by simp
    from take_beacon_fair [of ?s data "drop (length data) (becn_buffer s)" "int (length data)" a] lens lb True d
    obtain ip where ip: "take_beacon a (int (length data)) ?s =
        Some (if master data then ?s\<lparr>xpbeacon_poll_timeout_counter := 0, XPlaneBeaconIP := ip,
          XPlaneBeaconPort := ntohs (sin_port a)\<rparr> else ?s)"
      "length ip = 30" "terminated ip" "cstr ip = dotted (sin_addr a)" by auto
    have p: "beacon_poll ev s = Some (if master data then ?s\<lparr>xpbeacon_poll_timeout_counter := 0,
        XPlaneBeaconIP := ip, XPlaneBeaconPort := ntohs (sin_port a)\<rparr> else ?s)"
      using BDatagram w m True l ip(1) lens d by (auto simp: beacon_poll_def Let_def)
    show ?thesis
    proof (cases "master data")
      case True
      with p inv ip lb BDatagram ev show ?thesis
        by (simp add: beacon_inv_def history_snoc announced_def shows_master_def wrap32_def)
    next
      case False
      with BDatagram have "announced (evs @ [ev]) = announced evs"
        by (simp add: announced_def history_snoc)
      with p inv lb BDatagram False show ?thesis by (simp add: beacon_inv_def history_snoc)
    qed
  next
    case False
    then have "beacon_poll ev s = Some ?s"
      using BDatagram w m l by (auto simp: beacon_poll_def Let_def)
    moreover from False have "\<not> master data" by (simp add: master_def)
    moreover from this BDatagram have "announced (evs @ [ev]) = announced evs"
      by (simp add: announced_def history_snoc)
    ultimately show ?thesis using inv lb BDatagram by (simp add: beacon_inv_def history_snoc)
  qed
qed

lemma beacon_inv_thread:
  "beacon_inv pre s \<Longrightarrow> \<forall>ev \<in> set evs. fair ev \<Longrightarrow>
   \<exists>t. xpbeacon_poll_thread_main evs s = Some t \<and> beacon_inv (pre @ evs) t"
proof (induction evs arbitrary: pre s)
  case (Cons ev evs)
  from beacon_inv_poll [OF Cons.prems(1), of ev] Cons.prems(2) obtain u where
    u: "beacon_poll ev s = Some u" "beacon_inv (pre @ [ev]) u" by auto
  from Cons.IH [OF u(2)] Cons.prems obtain t where
    "xpbeacon_poll_thread_main evs u = Some t" "beacon_inv ((pre @ [ev]) @ evs) t" by auto
  with u(1) Cons.prems(1) show ?case by (simp add: beacon_inv_def)
qed simp

lemma beacon_inv_init:
  "initialize_beacon_client r junk static_beacon = (s, 0) \<Longrightarrow> length junk = BECNBUFLEN \<Longrightarrow>
   beacon_inv [] s"
  by (auto simp: initialize_beacon_client_def static_beacon_def Let_def beacon_inv_def last_master_def
    announced_def shows_master_def map_replicate_const split: if_splits)


section \<open>The address the client connects to\<close>

lemma strncpy_terminated:
  assumes "length dst = length src" and "terminated src"
  shows "terminated (strncpy dst src)" and "cstr (strncpy dst src) = cstr src"
proof -
  from length_cstr [OF assms(2)] assms(1) obtain k where
    "length dst = length (cstr src) + Suc k" by (metis add_Suc_right less_imp_Suc_add)
  then have "strncpy dst src = cstr src @ 0 # replicate k 0" by (simp add: strncpy_def)
  then show "terminated (strncpy dst src)" and "cstr (strncpy dst src) = cstr src"
    by (simp_all add: cstr_append_nul cstr_no_nul)
qed

lemma XPlaneServerIP_create [simp]: "XPlaneServerIP (fst (create_tcpip_socket b now st)) = XPlaneServerIP st"
  by (simp add: create_tcpip_socket_def Let_def)

lemma status_create: "socketStatus (fst (create_tcpip_socket b now st)) \<noteq> status_Connected"
  by (simp add: create_tcpip_socket_def Let_def)

lemma check_xpserver_auto:
  assumes "socketStatus st = status_Ready" and "XPlaneServerManual st = 0"
    and "length (XPlaneServerIP st) = length ip" and "terminated ip"
    and "(fst now - fst (connect_t1 st)) * 1000000 + (snd now - snd (connect_t1 st)) > 1000000"
  shows "\<exists>st' ret. check_xpserver ip now att ok st = Some (st', ret) \<and>
    cstr (XPlaneServerIP st') = cstr ip \<and> (ret = 1 \<longleftrightarrow> cstr ip \<noteq> [] \<and> connect_succeeds att)"
proof -
  note c = strncpy_terminated [OF assms(3,4)]
  have e: "streq (strncpy (XPlaneServerIP st) ip) [0] = Some (cstr ip = [])"
    using c by (simp add: streq_terminated)
  show ?thesis
    using assms c(2) e by (simp add: check_xpserver_def Let_def status_create)
qed

text \<open>C26: Whatever history of fair events the beacon thread has received since it was started, beacons of
  masters and of others, other datagrams, errors and seconds of silence, \<open>check_xpserver\<close> in automatic mode then
  connects to the sender of the last master's beacon, if fewer than 300 seconds of silence have passed
  since that beacon, and otherwise to nobody. Errors and silence are always fair; a datagram is (\<open>fair\<close>) when it has at
  least the four bytes that are compared, its sender has a port other than 0 and, if it is a beacon, it has between 21
  and 521 bytes. The code does not check any of this: bytes of an earlier beacon complete a datagram that is too
  short (\<open>stale_beacon_accepted\<close>), and a beacon that is too long overruns the stack (\<open>long_beacon_overflows\<close>).\<close>

theorem server_found:
  assumes "initialize_beacon_client r junk static_beacon = (s0, 0)" and "length junk = BECNBUFLEN"
    and "\<forall>ev \<in> set evs. fair ev"
    and "socketStatus st = status_Ready" and "XPlaneServerManual st = 0"
    and "length (XPlaneServerIP st) = 30"
    and "(fst now - fst (connect_t1 st)) * 1000000 + (snd now - snd (connect_t1 st)) > 1000000"
  shows "\<exists>s st' ret. xpbeacon_poll_thread_main evs s0 = Some s \<and>
    check_xpserver (XPlaneBeaconIP s) now att ok st = Some (st', ret) \<and>
    (case announced evs of
       Some a \<Rightarrow> cstr (XPlaneServerIP st') = dotted (sin_addr a) \<and>
         XPlaneBeaconPort s = ntohs (sin_port a) \<and> (ret = 1 \<longleftrightarrow> connect_succeeds att)
     | None \<Rightarrow> cstr (XPlaneServerIP st') = [] \<and> ret \<noteq> 1)"
proof -
  from beacon_inv_thread [OF beacon_inv_init [OF assms(1,2)] assms(3)] obtain s where
    s: "xpbeacon_poll_thread_main evs s0 = Some s" "beacon_inv evs s" by auto
  with assms(6) have "length (XPlaneServerIP st) = length (XPlaneBeaconIP s)"
    and "terminated (XPlaneBeaconIP s)" by (simp_all add: beacon_inv_def)
  from check_xpserver_auto [OF assms(4,5) this assms(7)] obtain st' ret where
    "check_xpserver (XPlaneBeaconIP s) now att ok st = Some (st', ret)"
    "cstr (XPlaneServerIP st') = cstr (XPlaneBeaconIP s)"
    "ret = 1 \<longleftrightarrow> cstr (XPlaneBeaconIP s) \<noteq> [] \<and> connect_succeeds att" by blast
  with s show ?thesis
    by (auto simp: beacon_inv_def shows_master_def dotted_not_Nil split: option.splits)
qed

section \<open>Datagrams the code is not prepared for\<close>

text \<open>C39: The receiver accepts datagrams of 1000 bytes but has room for 500 bytes of computer name: a
  beacon of more than 521 bytes overruns the array on the stack of the receive thread.\<close>

theorem long_beacon_overflows:
  assumes "length (becn_buffer s) = BECNBUFLEN" and "is_becn data" and "521 < length data"
  shows "beacon_poll (BDatagram a data) s = None"
proof -
  let ?d = "take BECNBUFLEN data"
  let ?b = "?d @ drop (length ?d) (becn_buffer s)"
  have w: "mem_write (becn_buffer s) 0 ?d = Some ?b" using assms(1) by (simp add: mem_write_def)
  have m: "strneq 4 ?b (chars ''BECN'' @ [0]) = Some True"
    using assms(2,3) by (subst strneq_take) (auto simp: is_becn_def chars_def min_def)
  have l: "int (length ?d) > 521" using assms(3) by simp
  have "mem_read ?b 21 (length ?d - 21) = Some (take (length ?d - 21) (drop 21 ?d))"
    using read_prefix [of 21 "length ?d - 21" ?d] assms(3) by simp
  moreover have "nat (int (length ?d) - 21) = length ?d - 21" by simp
  ultimately have n: "(do { name \<leftarrow> mem_read ?b 21 (nat (int (length ?d) - 21));
      mem_write (replicate 500 0) 0 name }) = None"
    using l by (simp add: mem_write_def)
  have "take_beacon a (int (length ?d)) t = None" if "becn_buffer t = ?b" for t
    unfolding take_beacon_def that Let_def using n l
    by (simp add: bind_eq_None_conv) blast
  with w m l show ?thesis by (auto simp: beacon_poll_def Let_def)
qed

text \<open>
  The bytes of earlier datagrams stay in the buffer: after a beacon of a master, the single
  letter \<open>B\<close> from anybody is taken as a complete beacon.
\<close>

lemma stale_beacon_accepted:
  assumes "length (becn_buffer s) = BECNBUFLEN" and "length (XPlaneBeaconIP s) = 30"
    and "master data" and "21 \<le> length data" and "length data \<le> 521"
  shows "\<exists>t u. beacon_poll (BDatagram a data) s = Some t \<and>
    beacon_poll (BDatagram b (chars ''B'')) t = Some u \<and> cstr (XPlaneBeaconIP u) = dotted (sin_addr b)"
proof -
  let ?b = "data @ drop (length data) (becn_buffer s)"
  let ?s = "s\<lparr>becn_buffer := ?b\<rparr>"
  from assms(3) have m: "is_becn data" by (simp add: master_def)
  then obtain rest where data: "data = chars ''B'' @ rest" by (cases data) (auto simp: is_becn_def chars_def)
  have eq: "strneq 4 ?b (chars ''BECN'' @ [0]) = Some True"
    using m assms(4) by (subst strneq_take) (auto simp: is_becn_def chars_def)
  have poll: "beacon_poll (BDatagram c d) t = take_beacon c (int (length d)) u"
    if "t\<lparr>becn_buffer := ?b\<rparr> = u" and "d \<noteq> []" and "length d \<le> 1000" and "mem_write (becn_buffer t) 0 d = Some ?b" for c d t u
    using that eq by (simp add: beacon_poll_def Let_def)
  have w: "mem_write (becn_buffer s) 0 data = Some ?b"
    using assms(1,5) by (simp add: mem_write_def)
  from take_beacon_fair [of ?s data _ "int (length data)" a] assms m obtain ip where
    ip: "take_beacon a (int (length data)) ?s = Some (?s\<lparr>xpbeacon_poll_timeout_counter := 0,
      XPlaneBeaconIP := ip, XPlaneBeaconPort := ntohs (sin_port a)\<rparr>)" "length ip = 30" by auto
  let ?t = "?s\<lparr>xpbeacon_poll_timeout_counter := 0, XPlaneBeaconIP := ip,
    XPlaneBeaconPort := ntohs (sin_port a)\<rparr>"
  have w2: "mem_write (becn_buffer ?t) 0 (chars ''B'') = Some ?b"
    using data by (simp add: mem_write_def chars_def)
  from take_beacon_fair [of ?t data _ 1 b] assms m ip(2) obtain ip' where
    "take_beacon b 1 ?t = Some (?t\<lparr>xpbeacon_poll_timeout_counter := 0,
      XPlaneBeaconIP := ip', XPlaneBeaconPort := ntohs (sin_port b)\<rparr>)"
    "cstr ip' = dotted (sin_addr b)" by auto
  moreover have "beacon_poll (BDatagram a data) s = Some ?t"
    using poll [OF refl _ _ w, of a] ip(1) assms(5) data by (simp add: chars_def)
  moreover have "beacon_poll (BDatagram b (chars ''B'')) ?t = take_beacon b 1 ?t"
    using poll [of ?t ?t "chars ''B''" b, OF _ _ _ w2] by (simp add: chars_def)
  ultimately show ?thesis by fastforce
qed

end
