(* ===== verification/WxrWitnesses.thy ===== *)
theory WxrWitnesses
  imports WxrFacts BeaconFacts
begin

text \<open>The properties of the beacon and radar receivers at concrete datagrams.\<close>

section \<open>A radar transmission\<close>

text \<open>Scans of four points, at 10 and 11 degrees east and 45 and 46 degrees north, of X-Plane 11.\<close>

definition sample_point :: "mem \<Rightarrow> mem \<Rightarrow> byte \<Rightarrow> mem" where
  "sample_point lon lat lev = lon @ lat @ [lev] @ [0, 0, 0, 0]"

definition lon10 :: mem where "lon10 = [0, 0, 0x20, 0x41]"
definition lon11 :: mem where "lon11 = [0, 0, 0x30, 0x41]"
definition lat45 :: mem where "lat45 = [0, 0, 0x34, 0x42]"
definition lat46 :: mem where "lat46 = [0, 0, 0x38, 0x42]"

lemmas sample_point_defs = sample_point_def lon10_def lon11_def lat45_def lat46_def

definition sample_scan :: "mem list" where
  "sample_scan =
     [sample_point lon10 lat45 50, sample_point lon11 lat45 0,
      sample_point lon10 lat46 0, sample_point lon11 lat46 20]"

definition sample_blocks :: "mem list" where
  "sample_blocks = sample_scan @ sample_scan @ [sample_point lon10 lat45 50]"

definition sample_datagram :: mem where
  "sample_datagram = (chars ''RADR'' @ [0]) @ concat (sample_blocks @ replicate 91 (replicate 13 0))"

lemma length_blocks [simp]: "length sample_blocks = 9" "\<forall>v \<in> set sample_blocks. length v = 13"
  by (simp_all add: sample_blocks_def sample_scan_def sample_point_defs)

lemma sample_points: "points_of 0 sample_datagram = map decode_point (sample_blocks @ replicate 91 (replicate 13 0))"
  unfolding sample_datagram_def by (rule points_of_datagram) (auto simp: chars_def)

lemma padding_point: "\<not> located (decode_point (replicate 13 0))"
  by code_simp

definition sample_scan_points :: "radar_point list" where
  "sample_scan_points = map decode_point sample_scan"

lemma located_points:
  "filter located (points_of 0 sample_datagram) =
     sample_scan_points @ sample_scan_points @ [decode_point (sample_point lon10 lat45 50)]"
proof -
  have "list_all (\<lambda>v. located (decode_point v)) sample_blocks" by code_simp
  then have "filter located (map decode_point sample_blocks) = map decode_point sample_blocks"
    by (simp add: list_all_iff filter_id_conv)
  moreover have "filter located (map decode_point (replicate 91 (replicate 13 0))) = []"
    using padding_point by (simp add: filter_empty_conv)
  ultimately have "filter located (points_of 0 sample_datagram) = map decode_point sample_blocks"
    unfolding sample_points map_append filter_append by (simp only: append_Nil2)
  then show ?thesis by (simp add: sample_blocks_def sample_scan_points_def)
qed

lemma sample_two_scans:
  "two_scans sample_scan_points sample_scan_points (decode_point (sample_point lon10 lat45 50))"
  by code_simp

definition sample_box :: box where
  "sample_box = scan_box sample_scan_points sample_scan_points"

definition unit_cosine :: "fpval \<Rightarrow> fpval" where
  "unit_cosine v = Fin 1 0"

lemma sample_resolution: "resolution unit_cosine sample_box = 60"
  by code_simp

lemma sample_fits: "fits sample_box 60"
  by code_simp

definition sample_receiver :: radar where
  "sample_receiver = (static_radar 2)\<lparr>wxr_initialized := 1, wxrRecvBufferLen := 50000,
     wxrRecvBuffer := Some (replicate 50000 0), wxr_poll_buffer := replicate 50000 0,
     wxr_lonmin_tmp := WXR_MISS, wxr_lonmax_tmp := WXR_MISS, wxr_latmin_tmp := WXR_MISS,
     wxr_latmax_tmp := WXR_MISS\<rparr>"

lemma sample_receiver_ok: "receiver [] sample_receiver" "waiting sample_receiver"
  by (simp_all add: sample_receiver_def static_radar_def receiver_def waiting_def shown_ok_def free_grid_def)

lemma length_sample_datagram: "length sample_datagram = 1305"
proof -
  have "length (concat vs) = 13 * length vs" if "\<forall>v \<in> set vs. length v = 13" for vs :: "mem list"
    using that by (induction vs) auto
  from this [of "sample_blocks @ replicate 91 (replicate 13 0)"] length_blocks
  show ?thesis by (auto simp: sample_datagram_def chars_def)
qed

lemma sample_turns: "list_all (turn_ok 0) [([sample_datagram], 1, 2)]"
  by (simp add: turn_ok_def radar_datagram_def datagram_len_def length_sample_datagram)
    (simp add: sample_datagram_def chars_def)

lemma radar_turns_correct_witness:
  "map_option blank (for_each [([sample_datagram], 1, 2)] (radar_turn (\<lambda>n. True) unit_cosine) sample_receiver) =
      for_each (points_of_turns 0 [([sample_datagram], 1, 2)]) (radar_step (\<lambda>n. True) unit_cosine) (blank sample_receiver) \<and>
    pred_option (receiver []) (for_each [([sample_datagram], 1, 2)] (radar_turn (\<lambda>n. True) unit_cosine) sample_receiver)"
  by (rule radar_turns_correct [OF sample_receiver_ok(1) sample_turns]) (simp add: enough_def)

lemma radar_picture_witness:
  "\<exists>u. for_each [([sample_datagram], 1, 2)] (radar_turn (\<lambda>n. True) unit_cosine) sample_receiver = Some u \<and>
    wxr_newdata u = 1 \<and> wxr_ncol u = 305 \<and> wxr_nlin u = 305"
proof -
  have "filter located (points_of_turns 0 [([sample_datagram], 1, 2)]) =
      sample_scan_points @ sample_scan_points @ [decode_point (sample_point lon10 lat45 50)]"
    by (simp add: points_of_turns_def located_points)
  moreover have "enough (\<lambda>n. True)" by (simp add: enough_def)
  moreover have "columns sample_box 60 = 61" "rows sample_box = 61" by code_simp+
  ultimately show ?thesis
    using radar_picture [OF sample_receiver_ok sample_turns _ _ sample_two_scans
      sample_box_def [symmetric] sample_resolution _ _ sample_fits, of "\<lambda>n. True"] by auto
qed

lemma short_datagram_undefined_witness:
  "radar_turn (\<lambda>n. True) unit_cosine ([chars ''RADR'' @ [0]], 1, 2) sample_receiver = None"
  by (rule short_datagram_undefined [OF sample_receiver_ok(1)]) (simp_all add: chars_def)

lemma control_pad_overruns_witness:
  "\<exists>p st. draw_row p st = None \<and> wxr_height_tmp st = Some (replicate 60 (replicate 120 0))"
proof -
  let ?p = "\<lparr>rp_lon = Fin 11 0, rp_lat = Fin 45 0, rp_hgt = NaN, rp_lev = 0, rp_lat_min_south = 0,
    rp_buffer = replicate 81 0\<rparr>"
  let ?st = "(static_radar 1)\<lparr>wxr_pixperlon_tmp := 60, wxr_lonmin_tmp := Fin 10 0,
    wxr_height_tmp := Some (replicate 60 (replicate 120 0))\<rparr>"
  have "fp_trunc (mulf (subf (Fin 11 0) (Fin 10 0)) (f32 60)) = 60" by code_simp
  then have "draw_row ?p ?st = None"
    by (intro control_pad_overruns [of ?st "replicate 60 (replicate 120 0)"]) simp_all
  then show ?thesis by (intro exI [of _ ?p] exI [of _ ?st]) simp
qed

lemma bilinear_uchar_correct_witness:
  "\<exists>pic. bilinear_uchar [[10, 0], [0, 0]] (replicate 10 (replicate 10 0)) 2 2 10 10 = Some pic \<and>
     is_grid 10 10 pic \<and> 0 \<le> pixel_at pic 3 4 \<and> pixel_at pic 3 4 \<le> 10"
proof -
  have "is_grid 2 2 [[10, 0], [0, 0]]" "bytes_grid [[10, 0], [0, 0]]"
    "is_grid (5 * 2) (5 * 2) (replicate 10 (replicate 10 0))"
    by (simp_all add: is_grid_def bytes_grid_def)
  from bilinear_uchar_correct [OF this] obtain pic where
    pic: "bilinear_uchar [[10, 0], [0, 0]] (replicate 10 (replicate 10 0)) 2 2 10 10 = Some pic"
      "is_grid 10 10 pic" "0 \<le> pixel_at pic 3 4"
      "pixel_at pic 3 4 \<le> Max (set (neighbours 2 2 [[10, 0], [0, 0]] 3 4))"
    by auto
  have "Max (set (neighbours 2 2 [[10, 0], [0, 0]] 3 4)) = 10" by code_simp
  with pic show ?thesis by auto
qed

section \<open>Beacons\<close>

text \<open>A beacon of X-Plane 11 as the master, on a computer without a name, and one of PlaneMaker.\<close>

definition sample_beacon :: "byte \<Rightarrow> mem" where
  "sample_beacon app =
     chars ''BECN'' @ [0, 1, 2] @ [app, 0, 0, 0] @ [0x6C, 0xCF, 1, 0] @ [1, 0, 0, 0] @ [0x68, 0xBF] @ [0]"

definition sample_sender :: "byte \<Rightarrow> sockaddr" where
  "sample_sender k = \<lparr>sin_addr = [192, 168, 1, k], sin_port = [0xC1, 0xEB]\<rparr>"

definition sample_events :: "beacon_event list" where
  "sample_events = [BTimeout, BDatagram (sample_sender 7) (sample_beacon 1), BError,
     BDatagram (sample_sender 9) (sample_beacon 2), BTimeout]"

lemma sample_announced: "announced sample_events = Some (sample_sender 7)"
  by code_simp


definition sample_client :: client where
  "sample_client =
     \<lparr>serverdata = [], numlink = 0, lastindex = 0, numreceived = 0, predict = 1, serverdata_verbose = 0,
      clientname = replicate NAMELEN 0, interval = 0, interval_counter = 0,
      socketStatus = status_Ready, recvBuffer = replicate 1000000 0, XPlaneServerIP = replicate 30 0,
      XPlaneServerManual = 0, connect_t1 = (0, 0)\<rparr>"

definition sample_setup :: beacon_setup where
  "sample_setup = \<lparr>bs_socket = 3, bs_reuseaddr = 0, bs_bind = 0, bs_membership = 0, bs_ioctl = 0, bs_thread = 0\<rparr>"

definition sample_attempt :: attempt where
  "sample_attempt = \<lparr>at_ioctl_ok = True, at_connect = Inl 0, at_select = 0, at_sockopt = None\<rparr>"

definition sample_beacon_state :: beacon where
  "sample_beacon_state = static_beacon\<lparr>becn_buffer := replicate 1000 0\<rparr>"

lemma server_found_witness:
  "\<exists>s st' ret. xpbeacon_poll_thread_main sample_events sample_beacon_state = Some s \<and>
     check_xpserver (XPlaneBeaconIP s) (2, 0) sample_attempt True sample_client = Some (st', ret) \<and>
     cstr (XPlaneServerIP st') = chars ''192.168.1.7'' \<and> ret = 1"
proof -
  have i: "initialize_beacon_client sample_setup (replicate 1000 0) static_beacon = (sample_beacon_state, 0)"
    by (simp add: initialize_beacon_client_def sample_setup_def sample_beacon_state_def static_beacon_def Let_def)
  have f: "\<forall>ev \<in> set sample_events. fair ev" by code_simp
  have d: "dotted (sin_addr (sample_sender 7)) = chars ''192.168.1.7''" by code_simp
  have a: "connect_succeeds sample_attempt" by (simp add: connect_succeeds_def sample_attempt_def)
  show ?thesis
    using server_found [OF i _ f, of sample_client "(2, 0)" sample_attempt True] sample_announced d a
    by (auto simp: sample_client_def)
qed

lemma long_beacon_overflows_witness:
  "beacon_poll (BDatagram (sample_sender 7) (sample_beacon 1 @ replicate 600 65)) sample_beacon_state = None"
  by (rule long_beacon_overflows)
    (simp_all add: sample_beacon_state_def sample_beacon_def is_becn_def chars_def)

end
