(* ===== verification/ServerTable.thy ===== *)
theory ServerTable
  imports ServerData
begin

text \<open>
  The invariant of the client's subscription table, and the behaviour of \<open>link_dataref\<close>,
  \<open>unlink_dataref\<close> and the search with prediction under it.
\<close>

section \<open>Invariant\<close>

definition name_ok :: "mem \<Rightarrow> bool" where
  "name_ok n \<longleftrightarrow> length n = NAMELEN \<and> terminated n"

definition dims_ok :: "int \<Rightarrow> int \<Rightarrow> int \<Rightarrow> bool" where
  "dims_ok t n i \<longleftrightarrow> 1 \<le> n \<and> in_i32 n \<and> -1 \<le> i \<and> i < n \<and> (scalar_type t \<longrightarrow> n = 1 \<and> i = 0)"

definition block_ok :: "int \<Rightarrow> int \<Rightarrow> int \<Rightarrow> ptr \<Rightarrow> bool" where
  "block_ok t n i p \<longleftrightarrow> (case p of None \<Rightarrow> False | Some b \<Rightarrow> length b = block_size t n i)"

text \<open>
  A slot with a dataref type owns two blocks of the size that its type and dimensions ask
  for; every name is terminated within its array and every number is an \<open>int\<close>.
\<close>

definition slot_ok :: "sdata \<Rightarrow> bool" where
  "slot_ok s \<longleftrightarrow> name_ok (sd_name s) \<and>
     in_i32 (sd_type s) \<and> in_i32 (sd_nelements s) \<and> in_i32 (sd_index s) \<and> in_i32 (sd_precision s) \<and>
     (known_type (sd_type s) \<longrightarrow>
        dims_ok (sd_type s) (sd_nelements s) (sd_index s) \<and>
        block_ok (sd_type s) (sd_nelements s) (sd_index s) (sd_data s) \<and>
        block_ok (sd_type s) (sd_nelements s) (sd_index s) (sd_data_old s))"

definition next_ok :: "nat \<Rightarrow> sdata \<Rightarrow> bool" where
  "next_ok k s \<longleftrightarrow> sd_nextindex s = INT_MISS \<or> (0 \<le> sd_nextindex s \<and> sd_nextindex s < int k)"

definition has_key :: "mem \<Rightarrow> int \<Rightarrow> int \<Rightarrow> int \<Rightarrow> sdata \<Rightarrow> bool" where
  "has_key name t n i s \<longleftrightarrow>
     cstr name = cstr (sd_name s) \<and> t = sd_type s \<and> i = sd_index s \<and> n = sd_nelements s"

definition live :: "sdata \<Rightarrow> bool" where
  "live s \<longleftrightarrow> cstr (sd_name s) \<noteq> [] \<and> known_type (sd_type s)"

definition unique_keys :: "sdata list \<Rightarrow> bool" where
  "unique_keys ss \<longleftrightarrow>
     (\<forall>i j. i < length ss \<longrightarrow> j < length ss \<longrightarrow> live (ss ! i) \<longrightarrow>
        has_key (sd_name (ss ! i)) (sd_type (ss ! i)) (sd_nelements (ss ! i)) (sd_index (ss ! i)) (ss ! j) \<longrightarrow>
        i = j)"

text \<open>Uniqueness only depends on the identifying fields.\<close>

definition ident :: "sdata \<Rightarrow> mem \<times> int \<times> int \<times> int" where
  "ident s = (sd_name s, sd_type s, sd_nelements s, sd_index s)"

lemma live_ident: "ident s = ident s' \<Longrightarrow> live s = live s'"
  by (simp add: ident_def live_def)

lemma unique_keys_shrink:
  assumes u: "unique_keys ss" and l: "length ss' = length ss"
    and e: "\<And>k. k < length ss \<Longrightarrow> live (ss' ! k) \<Longrightarrow> ident (ss' ! k) = ident (ss ! k)"
  shows "unique_keys ss'"
  unfolding unique_keys_def l
proof (intro allI impI)
  fix i j
  assume ij: "i < length ss" "j < length ss" "live (ss' ! i)" and
    k: "has_key (sd_name (ss' ! i)) (sd_type (ss' ! i)) (sd_nelements (ss' ! i)) (sd_index (ss' ! i)) (ss' ! j)"
  from ij(3) k have "live (ss' ! j)" by (auto simp: live_def has_key_def)
  with e ij have "ident (ss' ! i) = ident (ss ! i)" "ident (ss' ! j) = ident (ss ! j)" by simp_all
  with k have "has_key (sd_name (ss ! i)) (sd_type (ss ! i)) (sd_nelements (ss ! i)) (sd_index (ss ! i)) (ss ! j)"
    by (simp add: has_key_def ident_def)
  with u ij live_ident [OF \<open>ident (ss' ! i) = ident (ss ! i)\<close>] show "i = j"
    unfolding unique_keys_def by blast
qed

lemma unique_keys_ident:
  assumes "unique_keys ss" and "map ident ss' = map ident ss"
  shows "unique_keys ss'"
proof (rule unique_keys_shrink [OF assms(1)])
  show l: "length ss' = length ss" using assms(2) by (rule map_eq_imp_length_eq)
  show "ident (ss' ! k) = ident (ss ! k)" if "k < length ss" for k
    using that assms(2) l by (metis nth_map)
qed

text \<open>A change of one slot that keeps it well-formed and does not give it a new identity.\<close>

definition keeps :: "(sdata \<Rightarrow> sdata) \<Rightarrow> bool" where
  "keeps f \<longleftrightarrow> (\<forall>s. slot_ok s \<longrightarrow> slot_ok (f s)) \<and> (\<forall>s. live (f s) \<longrightarrow> ident (f s) = ident s) \<and>
     (\<forall>s k. next_ok k s \<longrightarrow> next_ok k (f s))"

definition table_ok :: "'a sdstate_scheme \<Rightarrow> bool" where
  "table_ok st \<longleftrightarrow>
     (\<forall>s \<in> set (serverdata st). slot_ok s \<and> next_ok (length (serverdata st)) s) \<and>
     unique_keys (serverdata st) \<and> (lastindex st = INT_MISS \<or> 0 \<le> lastindex st)"

lemma table_okD:
  assumes "table_ok st" and "i < length (serverdata st)"
  shows "slot_ok (serverdata st ! i)" and "next_ok (length (serverdata st)) (serverdata st ! i)"
  using assms by (simp_all add: table_ok_def)

lemma upd_slot_table_ok:
  assumes "table_ok st" and "keeps f"
  shows "table_ok (upd_slot i f st)"
proof -
  let ?ss = "(serverdata st)[i := f (serverdata st ! i)]"
  have "unique_keys ?ss"
  proof (rule unique_keys_shrink)
    show "unique_keys (serverdata st)" using assms(1) by (simp add: table_ok_def)
    show "ident (?ss ! k) = ident (serverdata st ! k)" if "k < length (serverdata st)" "live (?ss ! k)" for k
      using that assms(2) by (cases "k = i") (auto simp: keeps_def)
  qed simp
  moreover have "\<forall>s \<in> set ?ss. slot_ok s \<and> next_ok (length (serverdata st)) s"
    using assms table_okD [OF assms(1), of i]
    by (intro ball_upd) (auto simp: table_ok_def keeps_def)
  ultimately show ?thesis using assms(1) by (simp add: table_ok_def upd_slot_def)
qed

lemma slot_ok_name [simp]: "slot_ok s \<Longrightarrow> terminated (sd_name s)"
  by (simp add: slot_ok_def name_ok_def)

section \<open>The search\<close>

lemma slot_matches_key:
  "terminated name \<Longrightarrow> slot_ok s \<Longrightarrow> slot_matches name t n i s = Some (has_key name t n i s)"
  by (simp add: slot_matches_def has_key_def streq_terminated)

lemma find_slot_first:
  assumes "terminated name" and "\<forall>s \<in> set ss. slot_ok s"
  shows "find_slot name t n i k ss = Some (map_option ((+) k) (first_index (has_key name t n i) ss))"
  using assms(2)
proof (induction ss arbitrary: k)
  case (Cons s ss)
  then show ?case
    by (cases "has_key name t n i s"; cases "first_index (has_key name t n i) ss")
      (simp_all add: slot_matches_key assms(1))
qed simp

lemma unique_first:
  assumes "unique_keys ss" and "j < length ss" and "has_key name t n i (ss ! j)"
    and "cstr name \<noteq> []" and "known_type t"
  shows "first_index (has_key name t n i) ss = Some j"
proof (rule first_indexI [where P = "has_key name t n i", OF assms(2,3)])
  fix k assume k: "k < length ss" "has_key name t n i (ss ! k)"
  show "k = j"
    using assms k unfolding unique_keys_def live_def has_key_def by metis
qed

text \<open>The state without the prediction hints.\<close>

definition hintless :: "'a sdstate_scheme \<Rightarrow> 'a sdstate_scheme" where
  "hintless st = st\<lparr>serverdata := map (\<lambda>s. s\<lparr>sd_nextindex := 0\<rparr>) (serverdata st), lastindex := 0\<rparr>"

lemma hint_slot_ok [simp]: "slot_ok (s\<lparr>sd_nextindex := x\<rparr>) = slot_ok s"
  by (simp add: slot_ok_def)

lemma set_hint:
  assumes "table_ok st" and "i < length (serverdata st)"
  shows "table_ok (upd_slot k (\<lambda>s. s\<lparr>sd_nextindex := int i\<rparr>) st)"
    and "hintless (upd_slot k (\<lambda>s. s\<lparr>sd_nextindex := int i\<rparr>) st) = hintless st"
proof -
  let ?f = "\<lambda>s. s\<lparr>sd_nextindex := int i\<rparr>"
  let ?ss = "(serverdata st)[k := ?f (serverdata st ! k)]"
  have "map ident ?ss = map ident (serverdata st)"
    by (rule map_upd_same) (simp add: ident_def)
  then have "unique_keys ?ss"
    using assms(1) unique_keys_ident by (auto simp: table_ok_def)
  moreover have "\<forall>s \<in> set ?ss. slot_ok s \<and> next_ok (length (serverdata st)) s"
    using assms table_okD [OF assms(1), of k]
    by (intro ball_upd) (auto simp: table_ok_def next_ok_def)
  ultimately show "table_ok (upd_slot k ?f st)"
    using assms(1) by (simp add: table_ok_def upd_slot_def)
  show "hintless (upd_slot k ?f st) = hintless st"
    by (simp add: hintless_def upd_slot_def map_upd_same [where g = ?f])
qed

lemma lastindex_ok:
  "table_ok st \<Longrightarrow> table_ok (st\<lparr>lastindex := int i\<rparr>)"
  "hintless (st\<lparr>lastindex := int i\<rparr>) = hintless st"
  by (simp_all add: table_ok_def hintless_def)

lemma predicted_slot_sound:
  assumes ok: "table_ok st" and name: "terminated name"
  shows "predicted_slot name t n i st = Some None \<or>
    (\<exists>j. predicted_slot name t n i st = Some (Some j) \<and> j < length (serverdata st) \<and>
         has_key name t n i (serverdata st ! j))"
proof (cases "lastindex st \<noteq> INT_MISS \<and> lastindex st < numalloc st")
  case False
  then show ?thesis by (auto simp: predicted_slot_def)
next
  case True
  let ?l = "nat (lastindex st)"
  let ?n = "sd_nextindex (serverdata st ! ?l)"
  have l: "0 \<le> lastindex st" "?l < length (serverdata st)"
    using ok True by (auto simp: table_ok_def numalloc_def)
  show ?thesis
  proof (cases "?n = INT_MISS")
    case True
    with \<open>lastindex st \<noteq> INT_MISS \<and> _\<close> l show ?thesis by (simp add: predicted_slot_def)
  next
    case False
    with table_okD(2) [OF ok l(2)] have r: "0 \<le> ?n" "?n < numalloc st" "nat ?n < length (serverdata st)"
      by (auto simp: next_ok_def numalloc_def)
    have "predicted_slot name t n i st =
        Some (if has_key name t n i (serverdata st ! nat ?n) then Some (nat ?n) else None)"
      using True False l r slot_matches_key [OF name table_okD(1) [OF ok r(3)]]
      by (simp add: predicted_slot_def Let_def)
    with r(3) show ?thesis by simp
  qed
qed

lemma lookup_slot_first:
  assumes ok: "table_ok st" and name: "terminated name" "cstr name \<noteq> []" and t: "known_type t"
  shows "\<exists>st'. lookup_slot name t n i st = Some (st', first_index (has_key name t n i) (serverdata st)) \<and>
    table_ok st' \<and> hintless st' = hintless st"
proof -
  let ?F = "first_index (has_key name t n i) (serverdata st)"
  have slots: "\<forall>s \<in> set (serverdata st). slot_ok s" using ok by (simp add: table_ok_def)
  have uniq: "unique_keys (serverdata st)" using ok by (simp add: table_ok_def)
  have find: "find_slot name t n i 0 (serverdata st) = Some ?F"
    using find_slot_first [OF name(1) slots, of t n i 0] by (cases ?F) simp_all
  show ?thesis
  proof (cases "serverdata st = [] \<or> predict st = 0")
    case True
    then show ?thesis using find ok by (auto simp: lookup_slot_def)
  next
    case False
    from predicted_slot_sound [OF ok name(1), of t n i]
    consider (miss) "predicted_slot name t n i st = Some None"
      | (hit) j where "predicted_slot name t n i st = Some (Some j)" "j < length (serverdata st)"
          "has_key name t n i (serverdata st ! j)" by blast
    then show ?thesis
    proof cases
      case (hit j)
      have "lookup_slot name t n i st = Some (st\<lparr>lastindex := int j\<rparr>, Some j)"
        using False by (simp add: lookup_slot_def hit(1))
      with unique_first [OF uniq hit(2,3) name(2) t] show ?thesis
        using lastindex_ok(1) [OF ok, of j] lastindex_ok(2) [of j st] by simp
    next
      case miss
      show ?thesis
      proof (cases ?F)
        case None
        have "lookup_slot name t n i st = Some (st, None)"
          using False by (simp add: lookup_slot_def miss find None)
        with None ok show ?thesis by simp
      next
        case (Some j)
        let ?st1 = "if lastindex st \<noteq> INT_MISS \<and> lastindex st < numalloc st
          then upd_slot (nat (lastindex st)) (\<lambda>s. s\<lparr>sd_nextindex := int j\<rparr>) st else st"
        have "j < length (serverdata st)" using first_index_Some [OF Some] by simp
        note h = set_hint [OF ok this, of "nat (lastindex st)"]
        have "table_ok ?st1" "hintless ?st1 = hintless st" using h ok by simp_all
        note h' = lastindex_ok(1) [OF this(1), of j] lastindex_ok(2) [of j ?st1] this
        have "lookup_slot name t n i st = Some (?st1\<lparr>lastindex := int j\<rparr>, Some j)"
          using False by (simp add: lookup_slot_def miss find Some Let_def)
        with h' Some show ?thesis by metis
      qed
    qed
  qed
qed

section \<open>Creating a slot\<close>

text \<open>A table in which every allocation is met, and an application's request for a dataref.\<close>

definition good_name :: "mem \<Rightarrow> bool" where
  "good_name name \<longleftrightarrow> terminated name \<and> cstr name \<noteq> [] \<and> length (cstr name) < NAMELEN"

text \<open>What \<open>create_slot\<close> promises: which slot it used and what that slot holds.\<close>

definition created :: "mem \<Rightarrow> int \<Rightarrow> int \<Rightarrow> int \<Rightarrow> int \<Rightarrow> sdata list \<Rightarrow> nat \<Rightarrow> sdata list \<Rightarrow> bool" where
  "created name t n i p ss j ss' \<longleftrightarrow>
     j < length ss' \<and> length ss \<le> length ss' \<and> length ss' \<le> Suc (length ss) \<and>
     (j < length ss \<longrightarrow> cstr (sd_name (ss ! j)) = []) \<and>
     (\<forall>k < length ss. k \<noteq> j \<longrightarrow> ss' ! k = ss ! k) \<and>
     (\<forall>k < length ss'. k \<noteq> j \<longrightarrow> k < length ss) \<and>
     has_key name t n i (ss' ! j) \<and> sd_status (ss' ! j) = XPSTATUS_ALLOC \<and>
     sd_precision (ss' ! j) = p \<and> sd_received (ss' ! j) = 0 \<and>
     sd_data (ss' ! j) = Some (init_block t n i) \<and> sd_data_old (ss' ! j) = Some (init_block t n i)"

lemma free_slot_first:
  assumes "\<forall>s \<in> set ss. slot_ok s"
  shows "free_slot ss = Some (case first_index (\<lambda>s. cstr (sd_name s) = []) ss of
    None \<Rightarrow> length ss | Some j \<Rightarrow> j)"
  using assms
proof (induction ss)
  case (Cons s ss)
  have "streq (sd_name s) [0] = Some (cstr (sd_name s) = [])"
    using Cons.prems streq_terminated [of "sd_name s" "[0]"] by simp
  with Cons show ?case by (auto split: option.splits)
qed simp

lemma created_unique:
  assumes u: "unique_keys ss" and c: "created name t n i p ss j ss'"
    and new: "\<forall>s \<in> set ss. \<not> has_key name t n i s"
  shows "unique_keys ss'"
  unfolding unique_keys_def
proof (intro allI impI)
  fix a b
  assume a: "a < length ss'" "b < length ss'" "live (ss' ! a)" and
    k: "has_key (sd_name (ss' ! a)) (sd_type (ss' ! a)) (sd_nelements (ss' ! a)) (sd_index (ss' ! a)) (ss' ! b)"
  have old: "\<And>k. k < length ss' \<Longrightarrow> k \<noteq> j \<Longrightarrow> k < length ss \<and> ss' ! k = ss ! k" and
    key: "has_key name t n i (ss' ! j)"
    using c unfolding created_def by blast+
  have no: "\<not> has_key name t n i (ss ! k)" if "k < length ss" for k using new that by simp
  consider "a = j" "b = j" | "a = j" "b \<noteq> j" | "a \<noteq> j" "b = j" | "a \<noteq> j" "b \<noteq> j" by blast
  then show "a = b"
  proof cases
    case 2
    with old [OF a(2)] k key have "has_key name t n i (ss ! b)" by (simp add: has_key_def)
    with no old [OF a(2)] 2 show ?thesis by blast
  next
    case 3
    with old [OF a(1)] k key have "has_key name t n i (ss ! a)" by (simp add: has_key_def)
    with no old [OF a(1)] 3 show ?thesis by blast
  next
    case 4
    with old [OF a(1)] old [OF a(2)] k a(3) u show ?thesis by (simp add: unique_keys_def)
  qed simp
qed

lemma alloc_block_known:
  "known_type t \<Longrightarrow> avail (block_size t n i) \<Longrightarrow> alloc_block avail t n i = Some (Some (init_block t n i))"
  by (simp add: alloc_block_def)

lemma strcpy_name:
  assumes "good_name name"
  obtains nm where "strcpy (replicate NAMELEN 0) name = Some nm" "name_ok nm" "cstr nm = cstr name"
proof -
  from assms obtain nm where nm: "strcpy (replicate NAMELEN 0) name = Some nm"
    by (simp add: good_name_def strcpy_Some)
  from strcpy_result [OF nm] nm show ?thesis by (intro that [of nm]) (simp_all add: name_ok_def)
qed

lemma known_type_i32: "known_type t \<Longrightarrow> in_i32 t"
  by (auto simp: known_type_def in_i32_def)

lemma dims_ok_i32: "dims_ok t n i \<Longrightarrow> in_i32 n \<and> in_i32 i"
  by (auto simp: dims_ok_def in_i32_def)

lemma create_slot_created:
  assumes ok: "table_ok st" and name: "good_name name" and t: "known_type t" and d: "dims_ok t n i"
    and p: "in_i32 p" and new: "\<forall>s \<in> set (serverdata st). \<not> has_key name t n i s"
    and mem: "\<And>n. avail n"
  shows "\<exists>st' j. create_slot avail junk name t n i p st = Some (st', Some j) \<and> table_ok st' \<and>
    created name t n i p (serverdata st) j (serverdata st')"
proof -
  let ?ss = "serverdata st"
  have slots: "\<forall>s \<in> set ?ss. slot_ok s" using ok by (simp add: table_ok_def)
  obtain j where free: "free_slot ?ss = Some j" and j: "j \<le> length ?ss"
    and empty: "j < length ?ss \<longrightarrow> cstr (sd_name (?ss ! j)) = []"
    using free_slot_first [OF slots]
    by (cases "first_index (\<lambda>s. cstr (sd_name s) = []) ?ss") (auto dest!: first_index_Some)
  obtain nm where nm: "strcpy (replicate NAMELEN 0) name = Some nm" "name_ok nm" "cstr nm = cstr name"
    using strcpy_name [OF name] .
  let ?ext = "if j = length ?ss then ?ss @ [junk] else ?ss"
  let ?new = "(?ext ! j)\<lparr>sd_data := Some (init_block t n i), sd_data_old := Some (init_block t n i),
      sd_name := nm, sd_status := XPSTATUS_ALLOC, sd_type := t, sd_nelements := n, sd_index := i,
      sd_precision := p, sd_nextindex := INT_MISS, sd_nsend := 0, sd_nrecv := 0, sd_received := 0\<rparr>"
  let ?st' = "st\<lparr>lastindex := 0, serverdata := ?ext[j := ?new]\<rparr>"
  have jx: "j < length ?ext" using j by auto
  have res: "create_slot avail junk name t n i p st = Some (?st', Some j)"
    using free mem alloc_block_known [OF t] nm(1) jx
    by (auto simp: create_slot_def numalloc_def upd_slot_def Let_def)
  have cr: "created name t n i p ?ss j (serverdata ?st')"
    unfolding created_def has_key_def using jx j empty nm(3) by (auto simp: nth_append)
  have "slot_ok ?new"
    using nm(2) t d p known_type_i32 [OF t] dims_ok_i32 [OF d] by (simp add: slot_ok_def block_ok_def)
  then have "slot_ok s \<and> next_ok (length (serverdata ?st')) s" if "s \<in> set (serverdata ?st')" for s
  proof -
    from that obtain k where k: "k < length (serverdata ?st')" "s = serverdata ?st' ! k"
      by (metis in_set_conv_nth)
    show ?thesis
    proof (cases "k = j")
      case True
      with k(2) jx \<open>slot_ok ?new\<close> show ?thesis by (simp add: next_ok_def)
    next
      case False
      with cr k have "k < length ?ss" "s = ?ss ! k" "length ?ss \<le> length (serverdata ?st')"
        unfolding created_def by auto
      with table_okD [OF ok this(1)] show ?thesis by (auto simp: next_ok_def)
    qed
  qed
  moreover have "unique_keys (serverdata ?st')"
    using created_unique [OF _ cr new] ok by (simp add: table_ok_def)
  ultimately have "table_ok ?st'" by (simp add: table_ok_def)
  with res cr show ?thesis by blast
qed

section \<open>Linking\<close>

text \<open>The dimensions a request asks for are sensible.\<close>

definition valid_request :: "int \<Rightarrow> int \<Rightarrow> int \<Rightarrow> bool" where
  "valid_request t n0 i0 \<longleftrightarrow>
     1 \<le> norm_nelements t n0 \<and> -1 \<le> norm_index t i0 \<and> norm_index t i0 < norm_nelements t n0"

lemma valid_request_dims:
  "valid_request t n0 i0 \<Longrightarrow> in_i32 n0 \<Longrightarrow> dims_ok t (norm_nelements t n0) (norm_index t i0)"
  by (auto simp: valid_request_def dims_ok_def norm_nelements_def norm_index_def in_i32_def)

lemma norm_precision_i32 [simp]: "in_i32 (norm_precision t p)"
  by (auto simp: norm_precision_def in_i32_def)

text \<open>Invalid requests are refused and leave the table alone.\<close>

lemma link_dataref_invalid:
  "\<not> valid_request t n0 i0 \<Longrightarrow> link_dataref avail junk name t n0 i0 p0 st = Some (st, None)"
  by (auto simp: link_dataref_def valid_request_def Let_def)

lemma link_dataref_noname:
  "terminated name \<Longrightarrow> cstr name = [] \<Longrightarrow> link_dataref avail junk name t n0 i0 p0 st = Some (st, None)"
  by (auto simp: link_dataref_def Let_def streq_terminated)

lemma link_dataref_valid:
  assumes "valid_request t n0 i0" and "good_name name"
  shows "link_dataref avail junk name t n0 i0 p0 st =
    do {
      (st, found) \<leftarrow> lookup_slot name t (norm_nelements t n0) (norm_index t i0) st;
      (case found of
         Some i \<Rightarrow> Some (st, if sd_data (serverdata st ! i) = None then None else Some i)
       | None \<Rightarrow> create_slot avail junk name t (norm_nelements t n0) (norm_index t i0)
                   (norm_precision t p0) st)
    }"
  using assms
  by (simp add: link_dataref_def valid_request_def Let_def streq_terminated good_name_def)

lemma hintless_slots:
  assumes "hintless st' = hintless st"
  shows "length (serverdata st') = length (serverdata st)"
    and "j < length (serverdata st) \<Longrightarrow>
      (serverdata st' ! j)\<lparr>sd_nextindex := 0\<rparr> = (serverdata st ! j)\<lparr>sd_nextindex := 0\<rparr>"
proof -
  have m: "map (\<lambda>s. s\<lparr>sd_nextindex := 0\<rparr>) (serverdata st') = map (\<lambda>s. s\<lparr>sd_nextindex := 0\<rparr>) (serverdata st)"
    using arg_cong [OF assms, of serverdata] by (simp add: hintless_def)
  then show l: "length (serverdata st') = length (serverdata st)" by (rule map_eq_imp_length_eq)
  show "(serverdata st' ! j)\<lparr>sd_nextindex := 0\<rparr> = (serverdata st ! j)\<lparr>sd_nextindex := 0\<rparr>"
    if "j < length (serverdata st)"
    using arg_cong [OF m, of "\<lambda>xs. xs ! j"] that l by simp
qed

lemma same_but_hint:
  assumes "s\<lparr>sd_nextindex := 0\<rparr> = s'\<lparr>sd_nextindex := (0::int)\<rparr>"
  shows "sd_name s = sd_name s' \<and> sd_type s = sd_type s' \<and> sd_nelements s = sd_nelements s' \<and>
    sd_index s = sd_index s' \<and> sd_status s = sd_status s' \<and> sd_data s = sd_data s'"
  using arg_cong [OF assms, of sd_name] arg_cong [OF assms, of sd_type]
    arg_cong [OF assms, of sd_nelements] arg_cong [OF assms, of sd_index]
    arg_cong [OF assms, of sd_status] arg_cong [OF assms, of sd_data]
  by simp

lemma hintless_fields:
  assumes "hintless st' = hintless st" and "j < length (serverdata st)"
  shows "sd_name (serverdata st' ! j) = sd_name (serverdata st ! j)"
    and "sd_type (serverdata st' ! j) = sd_type (serverdata st ! j)"
    and "sd_nelements (serverdata st' ! j) = sd_nelements (serverdata st ! j)"
    and "sd_index (serverdata st' ! j) = sd_index (serverdata st ! j)"
    and "sd_status (serverdata st' ! j) = sd_status (serverdata st ! j)"
    and "sd_data (serverdata st' ! j) = sd_data (serverdata st ! j)"
  using same_but_hint [OF hintless_slots(2) [OF assms]] by simp_all

lemma hintless_has_key:
  "hintless st' = hintless st \<Longrightarrow> j < length (serverdata st) \<Longrightarrow>
   has_key name t n i (serverdata st' ! j) = has_key name t n i (serverdata st ! j)"
  using hintless_fields [of st' st j] by (simp add: has_key_def)

text \<open>
  A valid request that the table already holds returns its slot and only changes the hints;
  otherwise a slot is created, and no other slot changes.
\<close>

lemma link_dataref_found:
  assumes ok: "table_ok st" and name: "good_name name" and t: "known_type t"
    and v: "valid_request t n0 i0" and j: "j < length (serverdata st)"
    and k: "has_key name t (norm_nelements t n0) (norm_index t i0) (serverdata st ! j)"
  shows "\<exists>st'. link_dataref avail junk name t n0 i0 p0 st = Some (st', Some j) \<and>
    table_ok st' \<and> hintless st' = hintless st"
proof -
  let ?n = "norm_nelements t n0" and ?i = "norm_index t i0"
  have nm: "terminated name" "cstr name \<noteq> []" using name by (simp_all add: good_name_def)
  have u: "unique_keys (serverdata st)" using ok by (simp add: table_ok_def)
  obtain st' where st': "lookup_slot name t ?n ?i st = Some (st', Some j)"
    "table_ok st'" "hintless st' = hintless st"
    using lookup_slot_first [OF ok nm t, of ?n ?i] unique_first [OF u j k nm(2) t] by auto
  have "sd_data (serverdata st ! j) \<noteq> None"
    using table_okD(1) [OF ok j] k t by (auto simp: slot_ok_def has_key_def block_ok_def split: option.splits)
  then have "sd_data (serverdata st' ! j) \<noteq> None"
    using hintless_fields(6) [OF st'(3) j] by simp
  with st' show ?thesis by (simp add: link_dataref_valid [OF v name])
qed

lemma link_dataref_new:
  assumes ok: "table_ok st" and name: "good_name name" and t: "known_type t" and r: "in_i32 n0"
    and v: "valid_request t n0 i0" and mem: "\<And>n. avail n"
    and new: "\<forall>s \<in> set (serverdata st). \<not> has_key name t (norm_nelements t n0) (norm_index t i0) s"
  shows "\<exists>st' j. link_dataref avail junk name t n0 i0 p0 st = Some (st', Some j) \<and> table_ok st' \<and>
    created name t (norm_nelements t n0) (norm_index t i0) (norm_precision t p0)
      (serverdata st) j (serverdata st')"
proof -
  let ?n = "norm_nelements t n0" and ?i = "norm_index t i0"
  have nm: "terminated name" "cstr name \<noteq> []" using name by (simp_all add: good_name_def)
  have "first_index (has_key name t ?n ?i) (serverdata st) = None"
    using new by (simp add: first_index_None)
  with lookup_slot_first [OF ok nm t, of ?n ?i] obtain st1 where
    st1: "lookup_slot name t ?n ?i st = Some (st1, None)" "table_ok st1" "hintless st1 = hintless st"
    by auto
  have "st1 = st" using st1(1) by (auto simp: lookup_slot_def split: if_splits option.splits bind_splits)
  with create_slot_created [OF ok name t valid_request_dims [OF v r] norm_precision_i32 new mem] st1(1)
  show ?thesis by (simp add: link_dataref_valid [OF v name])
qed

section \<open>Unlinking\<close>

definition unlinked :: "mem \<Rightarrow> sdata \<Rightarrow> sdata" where
  "unlinked name s = (if cstr name = cstr (sd_name s) then dealloc_slot s else s)"

lemma dealloc_slot_ok: "slot_ok s \<Longrightarrow> slot_ok (dealloc_slot s)"
  by (simp add: slot_ok_def dealloc_slot_def known_type_def in_i32_def)

lemma unlink_slots_map:
  assumes "terminated name" and "\<forall>s \<in> set ss. slot_ok s"
  shows "unlink_slots name ss = Some (map (unlinked name) ss,
    int (length (filter (\<lambda>s. cstr name = cstr (sd_name s)) ss)))"
  using assms(2)
  by (induction ss) (simp_all add: unlinked_def streq_terminated assms(1))

lemma unlinked_live: "live (unlinked name s) \<Longrightarrow> unlinked name s = s"
  by (auto simp: unlinked_def live_def dealloc_slot_def known_type_def)

lemma unlinked_unique:
  assumes "unique_keys ss"
  shows "unique_keys (map (unlinked name) ss)"
  by (rule unique_keys_shrink [OF assms]) (auto dest: unlinked_live)

lemma unlinked_next: "next_ok k s \<Longrightarrow> next_ok k (unlinked name s)"
  by (simp add: next_ok_def unlinked_def dealloc_slot_def)

lemma unlink_dataref_map:
  assumes "table_ok st" and "terminated name"
  shows "unlink_dataref name st = Some (st\<lparr>serverdata := map (unlinked name) (serverdata st)\<rparr>,
    int (length (filter (\<lambda>s. cstr name = cstr (sd_name s)) (serverdata st))))"
  using assms by (simp add: unlink_dataref_def unlink_slots_map table_ok_def)

lemma unlink_table_ok:
  assumes "table_ok st"
  shows "table_ok (st\<lparr>serverdata := map (unlinked name) (serverdata st)\<rparr>)"
proof -
  have "slot_ok (unlinked name s) \<and> next_ok k (unlinked name s)" if "slot_ok s" "next_ok k s" for s k
    using that dealloc_slot_ok unlinked_next by (simp add: unlinked_def)
  then have "\<forall>s \<in> set (serverdata st). slot_ok (unlinked name s) \<and>
      next_ok (length (serverdata st)) (unlinked name s)"
    using assms by (meson table_ok_def)
  with assms unlinked_unique show ?thesis by (simp add: table_ok_def)
qed

section \<open>Properties\<close>

lemma link_dataref_cases:
  assumes "table_ok st" and "good_name name" and "known_type t" and "in_i32 n0" and "\<forall>n. avail n"
    and v: "valid_request t n0 i0"
  obtains (Found) st' j where "link_dataref avail junk name t n0 i0 p0 st = Some (st', Some j)"
      "table_ok st'" "hintless st' = hintless st" "j < length (serverdata st')"
      "has_key name t (norm_nelements t n0) (norm_index t i0) (serverdata st' ! j)"
      "\<exists>s \<in> set (serverdata st). has_key name t (norm_nelements t n0) (norm_index t i0) s"
  | (New) st' j where "link_dataref avail junk name t n0 i0 p0 st = Some (st', Some j)"
      "table_ok st'" "j < length (serverdata st')"
      "has_key name t (norm_nelements t n0) (norm_index t i0) (serverdata st' ! j)"
      "created name t (norm_nelements t n0) (norm_index t i0) (norm_precision t p0)
                 (serverdata st) j (serverdata st')"
      "\<not> (\<exists>s \<in> set (serverdata st). has_key name t (norm_nelements t n0) (norm_index t i0) s)"
proof (cases "\<exists>s \<in> set (serverdata st). has_key name t (norm_nelements t n0) (norm_index t i0) s")
  case True
  then obtain j where j: "j < length (serverdata st)"
    "has_key name t (norm_nelements t n0) (norm_index t i0) (serverdata st ! j)"
    by (metis in_set_conv_nth)
  obtain st' where st': "link_dataref avail junk name t n0 i0 p0 st = Some (st', Some j)"
    "table_ok st'" "hintless st' = hintless st"
    using link_dataref_found [OF assms(1-3) v j, of avail junk p0] by blast
  from st' True j hintless_has_key [OF st'(3) j(1)] hintless_slots(1) [OF st'(3)] show ?thesis
    by (intro Found [OF st']) simp_all
next
  case False
  then have "\<forall>s \<in> set (serverdata st). \<not> has_key name t (norm_nelements t n0) (norm_index t i0) s"
    by blast
  from link_dataref_new [OF assms(1-4) v _ this, where avail = avail and junk = junk and ?p0.0 = p0]
    assms(5) obtain st' j where st': "link_dataref avail junk name t n0 i0 p0 st = Some (st', Some j)"
    "table_ok st'" "created name t (norm_nelements t n0) (norm_index t i0) (norm_precision t p0)
                 (serverdata st) j (serverdata st')"
    by blast
  from st'(3) have "j < length (serverdata st')"
    "has_key name t (norm_nelements t n0) (norm_index t i0) (serverdata st' ! j)"
    unfolding created_def by blast+
  with st' False show ?thesis by (intro New)
qed

text \<open>C33: A well-formed request always returns, and keeps the table well-formed. It is refused
  exactly when its dimensions are not sensible, without a change; when the table holds a slot with
  the same name, type and dimensions that slot is returned and nothing but the prediction hints
  changes; otherwise one slot is created, with both blocks filled with the missing value and no
  other slot touched, so that the pointers handed out before stay valid.\<close>

theorem link_dataref_correct:
  assumes "table_ok st" and "good_name name" and "known_type t" and "in_i32 n0" and "\<forall>n. avail n"
  shows "\<exists>st' r. link_dataref avail junk name t n0 i0 p0 st = Some (st', r) \<and> table_ok st' \<and>
    (case r of
       None \<Rightarrow> \<not> valid_request t n0 i0 \<and> st' = st
     | Some j \<Rightarrow> valid_request t n0 i0 \<and> j < length (serverdata st') \<and>
         has_key name t (norm_nelements t n0) (norm_index t i0) (serverdata st' ! j) \<and>
         (if \<exists>s \<in> set (serverdata st). has_key name t (norm_nelements t n0) (norm_index t i0) s
          then hintless st' = hintless st
          else created name t (norm_nelements t n0) (norm_index t i0) (norm_precision t p0)
                 (serverdata st) j (serverdata st')))"
proof (cases "valid_request t n0 i0")
  case False
  with link_dataref_invalid [OF False] assms(1) show ?thesis
    by (intro exI [of _ st] exI [of _ None]) simp
next
  case v: True
  from assms v show ?thesis
  proof (cases rule: link_dataref_cases [where junk = junk and ?p0.0 = p0])
    case (Found st' j)
    with v show ?thesis by (intro exI [of _ st'] exI [of _ "Some j"]) simp
  next
    case (New st' j)
    with v show ?thesis by (intro exI [of _ st'] exI [of _ "Some j"]) simp
  qed
qed

text \<open>Asking twice for the same dataref returns the same slot, and the second request changes
  nothing but prediction hints.\<close>

theorem link_dataref_idempotent:
  assumes "table_ok st" and "good_name name" and "known_type t" and "in_i32 n0" and "\<forall>n. avail n"
    and "link_dataref avail junk name t n0 i0 p0 st = Some (st1, Some j)"
  shows "\<exists>st2. link_dataref avail junk' name t n0 i0 p0' st1 = Some (st2, Some j) \<and>
    hintless st2 = hintless st1 \<and> table_ok st2"
proof -
  have v: "valid_request t n0 i0"
    using link_dataref_invalid [of t n0 i0 avail junk name p0 st] assms(6) by auto
  from assms(1-5) v have "j < length (serverdata st1) \<and> table_ok st1 \<and>
    has_key name t (norm_nelements t n0) (norm_index t i0) (serverdata st1 ! j)"
    by (cases rule: link_dataref_cases [where junk = junk and ?p0.0 = p0]) (use assms(6) in auto)
  then show ?thesis using link_dataref_found [OF _ assms(2,3) v] by blast
qed

text \<open>C35: Prediction only saves time: with and without it the search finds the first slot that has
  the requested name, type and dimensions, and every hint it follows or stores addresses a slot of
  the table.\<close>

theorem prediction_transparent:
  assumes "table_ok st" and "terminated name" and "cstr name \<noteq> []" and "known_type t"
  shows "\<exists>st'. lookup_slot name t n i st =
      Some (st', first_index (has_key name t n i) (serverdata st)) \<and>
    lookup_slot name t n i (st\<lparr>predict := 0\<rparr>) =
      Some (st\<lparr>predict := 0\<rparr>, first_index (has_key name t n i) (serverdata st)) \<and>
    table_ok st' \<and> hintless st' = hintless st"
proof -
  have "table_ok (st\<lparr>predict := 0\<rparr>)" using assms(1) by (simp add: table_ok_def)
  from lookup_slot_first [OF this assms(2-4), of n i] lookup_slot_first [OF assms, of n i]
  show ?thesis by (auto simp: lookup_slot_def)
qed

text \<open>C34: Unlinking a name releases the blocks of every slot of that name and marks them for the
  server, leaves the other slots alone, keeps the table well-formed, and returns the number of
  slots of that name (one that was released before and is not yet confirmed by the server still bears the name,
  and is counted again); a later request for the name no longer finds one of them.\<close>

theorem unlink_dataref_correct:
  assumes "table_ok st" and "terminated name"
  shows "\<exists>st'. unlink_dataref name st =
      Some (st', int (length (filter (\<lambda>s. cstr name = cstr (sd_name s)) (serverdata st)))) \<and>
    table_ok st' \<and> length (serverdata st') = length (serverdata st) \<and>
    (\<forall>j < length (serverdata st).
       if cstr name = cstr (sd_name (serverdata st ! j))
       then serverdata st' ! j = dealloc_slot (serverdata st ! j) \<and>
            \<not> (\<exists>t n i. known_type t \<and> has_key name t n i (serverdata st' ! j))
       else serverdata st' ! j = serverdata st ! j)"
proof -
  let ?st' = "st\<lparr>serverdata := map (unlinked name) (serverdata st)\<rparr>"
  have "\<not> (known_type t \<and> has_key name t n i (dealloc_slot s))" for t n i s
    by (auto simp: has_key_def dealloc_slot_def known_type_def)
  then show ?thesis
    using unlink_dataref_map [OF assms] unlink_table_ok [OF assms(1), of name]
    by (intro exI [of _ ?st']) (simp add: unlinked_def)
qed

section \<open>Time and switches\<close>

lemma sdiv_small: "0 \<le> a \<Longrightarrow> a < b \<Longrightarrow> a sdiv b = (0::int)"
  by (simp add: signed_divide_int_def sgn_if)

definition micros :: "timeval \<Rightarrow> int" where
  "micros t = fst t * 1000000 + snd t"

text \<open>The time difference is exact: for two times of day it is the difference to the microsecond,
  normalised, and the return value says whether it is negative; the second operand is rewritten but
  still stands for the same time.\<close>

theorem time_subtract_exact:
  assumes "0 \<le> snd x \<and> snd x < 1000000" and "0 \<le> snd y \<and> snd y < 1000000"
    and "time_subtract x y = (d, y', negative)"
  shows "micros d = micros x - micros y \<and> 0 \<le> snd d \<and> snd d < 1000000 \<and>
    (negative \<longleftrightarrow> micros x < micros y) \<and> micros y' = micros y"
proof -
  obtain xs xu ys yu where xy: "x = (xs, xu)" "y = (ys, yu)" by (cases x, cases y)
  show ?thesis
  proof (cases "xu < yu")
    case True
    with assms xy have "(yu - xu) sdiv 1000000 = 0" by (intro sdiv_small) simp_all
    with True assms xy show ?thesis by (auto simp: time_subtract_def micros_def Let_def)
  next
    case False
    with assms xy show ?thesis by (auto simp: time_subtract_def micros_def Let_def)
  qed
qed

text \<open>A switch with a cover is driven correctly whatever the variable \<open>value\<close> held that the code leaves
  unset between two intervals; at the interval the toggle command is raised exactly when the switch
  and the cover (0.0 closed, 1.0 open) disagree.\<close>

theorem switch_cover_determined:
  assumes "pos \<in> {[0, 0, 0, 0], [0, 0, 0x80, 0x3F]}" and "on \<in> {0, 1}"
  shows "set_switch_cover counter junk (Some pos) (Some t) on =
    Some (if counter \<noteq> 0 then (0, Some t)
          else if (on = 1) = (pos = [0, 0, 0x80, 0x3F]) then (0, Some t)
          else (if on = 1 then 1 else -1, Some 1))"
proof -
  have f: "fp_val 23 8 (le_val [0, 0, 0, 0]) = Fin 0 (-149)"
    "fp_val 23 8 (le_val [0, 0, 0x80, 0x3F]) = Fin 8388608 (-23)"
    by code_simp+
  have m: "[0, 0, 0, 0] \<noteq> flt_miss" "[0, 0, 0x80, 0x3F] \<noteq> flt_miss"
    "([0, 0, 0, 0] :: mem) \<noteq> [0, 0, 0x80, 0x3F]"
    by (simp_all add: flt_miss_def)
  note d = set_switch_cover_def set_state_toggle_def Let_def f m
  from assms consider "pos = [0, 0, 0, 0]" "on = 0" | "pos = [0, 0, 0, 0]" "on = 1"
    | "pos = [0, 0, 0x80, 0x3F]" "on = 0" | "pos = [0, 0, 0x80, 0x3F]" "on = 1"
    by blast
  then show ?thesis
    by cases (cases "counter = 0"; simp add: d del: le_val.simps)+
qed

end
