(* ===== verification/Protocol.thy ===== *)
theory Protocol
  imports ServerTable HandleServer
begin

text \<open>
  The messages of the protocol as data, and the proof that the client's receiver, which works
  on positions in its transmission buffer, does to the subscription table exactly what the
  messages in the buffer say, one after the other.
\<close>

section \<open>Messages from the server to the client\<close>

datatype smsg = SData nat mem | SLink nat mem | SUnlink nat mem

fun enc_smsg :: "smsg \<Rightarrow> mem" where
  "enc_smsg (SData i v) = enc_int (MARK_DATA + int i) @ v"
| "enc_smsg (SLink i name) = enc_int (MARK_LINK + int i) @ name"
| "enc_smsg (SUnlink i name) = enc_int (MARK_UNLINK + int i) @ name"

definition enc_smsgs :: "smsg list \<Rightarrow> mem" where
  "enc_smsgs ms = concat (map enc_smsg ms)"

text \<open>Received elements replace the stored ones, but for those that are missing.\<close>

fun merge_elems :: "int \<Rightarrow> nat \<Rightarrow> mem \<Rightarrow> mem \<Rightarrow> mem" where
  "merge_elems t 0 v b = []"
| "merge_elems t (Suc k) v b =
     (let e = take (elem_size t) v
      in (if is_miss t e then take (elem_size t) b else e) @
         merge_elems t k (drop (elem_size t) v) (drop (elem_size t) b))"

definition slot_elems :: "sdata \<Rightarrow> nat" where
  "slot_elems s = nat (elem_count (sd_type s) (sd_nelements s) (sd_index s))"

definition slot_size :: "sdata \<Rightarrow> nat" where
  "slot_size s = block_size (sd_type s) (sd_nelements s) (sd_index s)"

text \<open>What a message means for the slot that it names.\<close>

definition data_slot :: "mem \<Rightarrow> sdata \<Rightarrow> sdata" where
  "data_slot v s =
     (let s = s\<lparr>sd_received := 1, sd_nrecv := wrap32 (sd_nrecv s + 1)\<rparr>;
          m = map_option (merge_elems (sd_type s) (slot_elems s) v)
      in if sd_status s = XPSTATUS_VALID
         then s\<lparr>sd_data := m (sd_data s), sd_data_old := m (sd_data_old s)\<rparr> else s)"

definition link_slot :: "sdata \<Rightarrow> sdata" where
  "link_slot s = s\<lparr>sd_status := XPSTATUS_VALID, sd_received := 1\<rparr>"

definition free_name :: "sdata \<Rightarrow> sdata" where
  "free_name s = s\<lparr>sd_name := replicate NAMELEN 0, sd_status := XPSTATUS_UNINITIALIZED, sd_received := 1\<rparr>"

fun apply_smsg :: "smsg \<Rightarrow> 'a sdstate_scheme \<Rightarrow> 'a sdstate_scheme" where
  "apply_smsg (SData i v) st = upd_slot i (data_slot v) st"
| "apply_smsg (SLink i name) st =
     (if cstr (sd_name (serverdata st ! i)) = cstr name
      then count_dataref (upd_slot i link_slot st) else st)"
| "apply_smsg (SUnlink i name) st =
     (if cstr (sd_name (serverdata st ! i)) = cstr name
      then count_dataref (upd_slot i free_name st) else st)"

text \<open>
  A message that the client can make sense of in its present state: it names a slot, data has
  the size of that slot's block, names fill their field.
\<close>

fun acceptable :: "'a sdstate_scheme \<Rightarrow> smsg \<Rightarrow> bool" where
  "acceptable st (SData i v) \<longleftrightarrow> i < length (serverdata st) \<and> i < 1000000 \<and>
     known_type (sd_type (serverdata st ! i)) \<and> length v = slot_size (serverdata st ! i)"
| "acceptable st (SLink i name) \<longleftrightarrow> i < length (serverdata st) \<and> i < 1000000 \<and> length name = NAMELEN"
| "acceptable st (SUnlink i name) \<longleftrightarrow> i < length (serverdata st) \<and> i < 1000000 \<and> length name = NAMELEN"

fun all_acceptable :: "'a sdstate_scheme \<Rightarrow> smsg list \<Rightarrow> bool" where
  "all_acceptable st [] \<longleftrightarrow> True"
| "all_acceptable st (m # ms) \<longleftrightarrow> acceptable st m \<and> all_acceptable (apply_smsg m st) ms"

section \<open>Storing elements\<close>

lemma length_merge_elems:
  "length v = k * elem_size t \<Longrightarrow> length b = k * elem_size t \<Longrightarrow> length (merge_elems t k v b) = k * elem_size t"
  by (induction k arbitrary: v b) (simp_all add: Let_def)

lemma merge_elem:
  assumes "length v = k * elem_size t" and "length b = k * elem_size t" and "j < k"
  shows "take (elem_size t) (drop (j * elem_size t) (merge_elems t k v b)) =
    (let e = take (elem_size t) (drop (j * elem_size t) v)
     in if is_miss t e then take (elem_size t) (drop (j * elem_size t) b) else e)"
  using assms
proof (induction k arbitrary: v b j)
  case (Suc k)
  show ?case
  proof (cases j)
    case 0
    with Suc.prems show ?thesis by (simp add: Let_def)
  next
    case (Suc l)
    with Suc.prems Suc.IH [of "drop (elem_size t) v" "drop (elem_size t) b" l] show ?thesis
      by (simp add: Let_def add.commute)
  qed
qed simp

lemma store_elems_merge:
  assumes "length pre = j * elem_size t" and "length vpre = j * elem_size t"
    and "length v = k * elem_size t" and "length b = k * elem_size t"
  shows "store_elems t j k (vpre @ v) (Some (pre @ b)) = Some (Some (pre @ merge_elems t k v b))"
  using assms
proof (induction k arbitrary: j pre vpre v b)
  case (Suc k)
  let ?es = "elem_size t"
  let ?e = "take ?es v"
  let ?d = "if is_miss t ?e then take ?es b else ?e"
  have lv: "length ?e = ?es" "length (take ?es b) = ?es" using Suc.prems by simp_all
  have split: "v = ?e @ drop ?es v" "b = take ?es b @ drop ?es b" by simp_all
  have r: "mem_read (vpre @ v) (int (j * ?es)) ?es = Some ?e"
    using mem_read_append [OF Suc.prems(2) lv(1), of "drop ?es v"] by simp
  have w: "mem_write (pre @ b) (int (j * ?es)) ?e = Some (pre @ ?e @ drop ?es b)"
    using mem_write_append [OF Suc.prems(1), of "take ?es b" ?e "drop ?es b"] lv by simp
  have IH: "store_elems t (Suc j) k ((vpre @ ?e) @ drop ?es v) (Some ((pre @ ?d) @ drop ?es b)) =
      Some (Some ((pre @ ?d) @ merge_elems t k (drop ?es v) (drop ?es b)))"
    by (rule Suc.IH) (use Suc.prems lv in auto)
  show ?case
    using IH r w by (cases "is_miss t ?e") (simp_all add: ptr_write_def Let_def)
qed simp

lemma store_block:
  "length v = k * elem_size t \<Longrightarrow> length b = k * elem_size t \<Longrightarrow>
   store_elems t 0 k v (Some b) = Some (Some (merge_elems t k v b))"
  using store_elems_merge [of "[]" 0 t "[]" v k b] by simp

section \<open>Receiving one message\<close>

lemma elem_count_bound:
  assumes "dims_ok t n i"
  shows "1 \<le> elem_count t n i" and "elem_count t n i < 2147483648"
  using assms by (auto simp: elem_count_def dims_ok_def in_i32_def)

lemma need_size:
  assumes "dims_ok t n i"
  shows "to_size (elem_count t n i * int (elem_size t)) = int (block_size t n i)"
proof -
  note b = elem_count_bound [OF assms]
  have es: "int (elem_size t) \<le> 8" using elem_size_bound [of t] by simp
  have "elem_count t n i * int (elem_size t) \<le> 2147483648 * 8"
    using b es by (intro mult_mono) simp_all
  then have "elem_count t n i * int (elem_size t) < 18446744073709551616" by simp
  moreover have "0 \<le> elem_count t n i * int (elem_size t)" using b by simp
  ultimately show ?thesis using b by (simp add: block_size_def)
qed

lemma slot_ok_dims:
  assumes "slot_ok s" and "known_type (sd_type s)"
  shows "dims_ok (sd_type s) (sd_nelements s) (sd_index s)"
    and "\<exists>b. sd_data s = Some b \<and> length b = slot_size s"
    and "\<exists>b. sd_data_old s = Some b \<and> length b = slot_size s"
  using assms by (auto simp: slot_ok_def block_ok_def slot_size_def split: option.splits)

lemma slot_size_elems: "slot_size s = slot_elems s * elem_size (sd_type s)"
  by (simp add: slot_size_def slot_elems_def block_size_def)

lemma recv_payload_data:
  assumes s: "slot_ok s" "known_type (sd_type s)" and v: "length v = slot_size s"
    and mem: "\<And>n. avail n" and tot: "tot = int (length pre) + left" and left: "int (length v) \<le> left"
    and small: "left < 2147483648"
  shows "recv_payload avail (pre @ v @ post) tot left s =
    Some (if sd_status s = XPSTATUS_VALID
          then s\<lparr>sd_data := map_option (merge_elems (sd_type s) (slot_elems s) v) (sd_data s),
                 sd_data_old := map_option (merge_elems (sd_type s) (slot_elems s) v) (sd_data_old s)\<rparr>
          else s, left - int (length v))"
proof -
  let ?n = "elem_count (sd_type s) (sd_nelements s) (sd_index s)"
  obtain b b' where b: "sd_data s = Some b" "length b = slot_size s"
    "sd_data_old s = Some b'" "length b' = slot_size s"
    using slot_ok_dims [OF s] by blast
  have need: "to_size (?n * int (elem_size (sd_type s))) = int (length v)"
    using need_size [OF slot_ok_dims(1) [OF s]] v by (simp add: slot_size_def)
  have read: "mem_read (pre @ v @ post) (tot - left) (length v) = Some v"
    using mem_read_append [of pre "length pre" v "length v" post] tot by simp
  have st: "store_elems (sd_type s) 0 (nat ?n) v (Some b) = Some (Some (merge_elems (sd_type s) (slot_elems s) v b))"
    "store_elems (sd_type s) 0 (nat ?n) v (Some b') = Some (Some (merge_elems (sd_type s) (slot_elems s) v b'))"
    using v b slot_size_elems [of s] by (simp_all add: store_block slot_elems_def)
  have "to_size left = left" "wrap32 (left - int (length v)) = left - int (length v)"
    using left small by (simp_all add: in_i32_def)
  with need left read st b mem show ?thesis
    by (simp add: recv_payload_def Let_def)
qed

lemma upd_slot_const: "upd_slot i (\<lambda>_. f (serverdata st ! i)) st = upd_slot i f st"
  by (simp add: upd_slot_def)

lemma recv_data_apply:
  assumes ok: "table_ok st" and m: "acceptable st (SData i v)" and mem: "\<And>n. avail n"
    and tot: "tot = int (length pre) + left" and left: "int (length v) \<le> left" and small: "left < 2147483648"
  shows "recv_data avail (pre @ v @ post) tot left (int i) st = Some (apply_smsg (SData i v) st, left - int (length v))"
proof -
  let ?s = "(serverdata st ! i)\<lparr>sd_received := 1, sd_nrecv := wrap32 (sd_nrecv (serverdata st ! i) + 1)\<rparr>"
  have i: "i < length (serverdata st)" and t: "known_type (sd_type ?s)" and
    v: "length v = slot_size ?s" using m by (simp_all add: slot_size_def)
  have "slot_ok ?s" using table_okD(1) [OF ok i] by (simp add: slot_ok_def)
  note p = recv_payload_data [where avail = avail and post = post, OF this t v mem tot left small]
  have "(if sd_status ?s = XPSTATUS_VALID
          then ?s\<lparr>sd_data := map_option (merge_elems (sd_type ?s) (slot_elems ?s) v) (sd_data ?s),
                 sd_data_old := map_option (merge_elems (sd_type ?s) (slot_elems ?s) v) (sd_data_old ?s)\<rparr>
          else ?s) = data_slot v (serverdata st ! i)"
    by (simp add: data_slot_def Let_def slot_elems_def)
  with p i t show ?thesis
    by (auto simp: recv_data_def numalloc_def Let_def upd_slot_const simp del: fun_upd_apply)
qed

lemma recv_link_apply:
  assumes ok: "table_ok st" and m: "acceptable st (SLink i name)"
    and tot: "tot = int (length pre) + left" and left: "int NAMELEN \<le> left" and small: "left < 2147483648"
  shows "recv_link (pre @ name @ post) tot left (int i) st =
    Some (apply_smsg (SLink i name) st, left - int (length name))"
proof -
  let ?s = "serverdata st ! i"
  have i: "i < length (serverdata st)" and n: "length name = NAMELEN" using m by simp_all
  have nm: "terminated (sd_name ?s)" "length (sd_name ?s) = NAMELEN"
    using table_okD(1) [OF ok i] by (simp_all add: slot_ok_def name_ok_def)
  have read: "mem_read (pre @ name @ post) (tot - left) NAMELEN = Some name"
    using mem_read_append [of pre "length pre" name NAMELEN post] tot n by simp
  have "to_size left = left" using left small by simp
  with read i nm n left show ?thesis
    using strneq_terminated [OF nm(1), of NAMELEN name]
    by (simp add: recv_link_def numalloc_def Let_def link_slot_def [abs_def])
qed

lemma recv_unlink_apply:
  assumes ok: "table_ok st" and m: "acceptable st (SUnlink i name)"
    and tot: "tot = int (length pre) + left" and left: "int NAMELEN \<le> left" and small: "left < 2147483648"
  shows "recv_unlink (pre @ name @ post) tot left (int i) st =
    Some (apply_smsg (SUnlink i name) st, left - int (length name))"
proof -
  let ?s = "serverdata st ! i"
  have i: "i < length (serverdata st)" and n: "length name = NAMELEN" using m by simp_all
  have nm: "terminated (sd_name ?s)" "length (sd_name ?s) = NAMELEN"
    using table_okD(1) [OF ok i] by (simp_all add: slot_ok_def name_ok_def)
  have read: "mem_read (pre @ name @ post) (tot - left) NAMELEN = Some name"
    using mem_read_append [of pre "length pre" name NAMELEN post] tot n by simp
  have "to_size left = left" using left small by simp
  with read i nm n left show ?thesis
    using strneq_terminated [OF nm(1), of NAMELEN name]
    by (simp add: recv_unlink_def numalloc_def Let_def free_name_def [abs_def])
qed

text \<open>The effect of a message keeps the table well-formed.\<close>

lemma keeps_data: "length v = slot_size s \<Longrightarrow> slot_ok s \<Longrightarrow> slot_ok (data_slot v s)"
  using slot_size_elems [of s] length_merge_elems
  by (auto simp: slot_ok_def data_slot_def Let_def block_ok_def slot_size_def slot_elems_def
      split: option.splits)

lemma keeps_link: "keeps link_slot"
  by (simp add: keeps_def link_slot_def slot_ok_def live_def ident_def next_ok_def)

lemma keeps_free: "keeps free_name"
  by (simp add: keeps_def free_name_def slot_ok_def name_ok_def live_def ident_def next_ok_def)

lemma count_dataref_ok [simp]: "table_ok (count_dataref st) = table_ok st"
  by (simp add: count_dataref_def table_ok_def)

lemma data_slot_table_ok:
  assumes "table_ok st" and "acceptable st (SData i v)"
  shows "table_ok (upd_slot i (data_slot v) st)"
proof -
  let ?f = "\<lambda>s. if length v = slot_size s then data_slot v s else s"
  have "keeps ?f"
    using keeps_data by (auto simp: keeps_def data_slot_def Let_def live_def ident_def next_ok_def)
  from upd_slot_table_ok [OF assms(1) this, of i] assms(2) show ?thesis by (simp add: upd_slot_def)
qed

lemma apply_smsg_ok: "table_ok st \<Longrightarrow> acceptable st m \<Longrightarrow> table_ok (apply_smsg m st)"
  by (cases m) (simp_all add: data_slot_table_ok upd_slot_table_ok keeps_link keeps_free)

section \<open>Receiving a transmission\<close>

text \<open>A marker, and the message it starts, at a position of the buffer.\<close>

lemma length_enc_smsg: "4 \<le> length (enc_smsg m)"
  by (cases m) simp_all

lemma recv_message_apply:
  assumes ok: "table_ok st" and m: "acceptable st m" and mem: "\<And>n. avail n"
    and tot: "tot = int (length pre) + left" and left: "int (length (enc_smsg m)) \<le> left"
    and small: "left < 2147483648"
  shows "recv_message avail (pre @ enc_smsg m @ post) tot left (st, d) =
    Some ((apply_smsg m st, d), left - int (length (enc_smsg m)))"
proof -
  have first: "read_int (pre @ enc_int k @ q) (tot - left) = Some k" if "in_i32 k" for k q
    using read_int_append [of pre "length pre" k q] that tot by simp
  show ?thesis
  proof (cases m)
    case (SData i v)
    have i: "i < 1000000" and l: "int (length v) \<le> left - 4" using m left SData by simp_all
    have "recv_data avail ((pre @ enc_int (MARK_DATA + int i)) @ v @ post) tot (left - 4) (int i) st =
        Some (apply_smsg m st, left - 4 - int (length v))"
      unfolding SData
      by (rule recv_data_apply) (use ok m SData mem tot l small in auto)
    with first [of "MARK_DATA + int i" "v @ post"] i show ?thesis
      by (simp add: recv_message_def SData in_i32_def)
  next
    case (SLink i v)
    have i: "i < 1000000" and l: "int NAMELEN \<le> left - 4" using m left SLink by simp_all
    have "recv_link ((pre @ enc_int (MARK_LINK + int i)) @ v @ post) tot (left - 4) (int i) st =
        Some (apply_smsg m st, left - 4 - int (length v))"
      unfolding SLink
      by (rule recv_link_apply) (use ok m SLink tot l small in auto)
    with first [of "MARK_LINK + int i" "v @ post"] i show ?thesis
      by (simp add: recv_message_def SLink in_i32_def)
  next
    case (SUnlink i v)
    have i: "i < 1000000" and l: "int NAMELEN \<le> left - 4" using m left SUnlink by simp_all
    have "recv_unlink ((pre @ enc_int (MARK_UNLINK + int i)) @ v @ post) tot (left - 4) (int i) st =
        Some (apply_smsg m st, left - 4 - int (length v))"
      unfolding SUnlink
      by (rule recv_unlink_apply) (use ok m SUnlink tot l small in auto)
    with first [of "MARK_UNLINK + int i" "v @ post"] i show ?thesis
      by (simp add: recv_message_def SUnlink in_i32_def)
  qed
qed

declare recv_messages.simps [code]

lemma recv_messages_done: "left \<le> 0 \<Longrightarrow> recv_messages avail buf tot left s = Some s"
  by (subst recv_messages.simps) simp

lemma recv_messages_step:
  "0 < left \<Longrightarrow> recv_message avail buf tot left s = Some (s', left') \<Longrightarrow>
   recv_messages avail buf tot left s = recv_messages avail buf tot left' s'"
  by (subst recv_messages.simps) simp

text \<open>A transmission ends with a marker: more may follow, or the peer goes away.\<close>

definition end_mark :: "bool \<Rightarrow> mem" where
  "end_mark closing = enc_int (if closing then MARK_DISCONNECT else MARK_EOT)"

definition end_state :: "bool \<Rightarrow> client \<times> bool \<Rightarrow> client \<times> bool" where
  "end_state closing s = (if closing then ((fst s)\<lparr>socketStatus := status_Init\<rparr>, True) else s)"

lemma recv_message_end:
  assumes "tot = int (length pre) + 4"
  shows "recv_message avail (pre @ end_mark closing @ post) tot 4 s = Some (end_state closing s, 0)"
proof -
  have "read_int (pre @ end_mark closing @ post) (tot - 4) = Some (if closing then MARK_DISCONNECT else MARK_EOT)"
    using read_int_append [of pre "length pre"] assms by (auto simp: end_mark_def in_i32_def)
  then show ?thesis by (cases s) (simp add: recv_message_def end_state_def)
qed

lemma recv_messages_apply:
  assumes "table_ok st" and "all_acceptable st ms" and mem: "\<And>n. avail n"
    and "tot = int (length pre + length (enc_smsgs ms) + 4)" and "tot < 2147483648"
  shows "recv_messages avail (pre @ enc_smsgs ms @ end_mark closing @ post) tot
      (int (length (enc_smsgs ms)) + 4) (st, d) =
    Some (end_state closing (fold apply_smsg ms st, d))"
  using assms(1,2,4,5)
proof (induction ms arbitrary: pre st)
  case Nil
  then show ?case
    using recv_messages_step [OF _ recv_message_end [of tot pre avail closing post "(st, d)"]]
    by (simp add: enc_smsgs_def recv_messages_done)
next
  case (Cons m ms)
  let ?post = "enc_smsgs ms @ end_mark closing @ post"
  have e: "enc_smsgs (m # ms) = enc_smsg m @ enc_smsgs ms" by (simp add: enc_smsgs_def)
  have "recv_message avail (pre @ enc_smsg m @ ?post) tot (int (length (enc_smsgs (m # ms))) + 4) (st, d) =
      Some ((apply_smsg m st, d), int (length (enc_smsgs (m # ms))) + 4 - int (length (enc_smsg m)))"
    by (rule recv_message_apply) (use Cons.prems mem e in auto)
  then have step: "recv_message avail (pre @ enc_smsg m @ ?post) tot (int (length (enc_smsgs (m # ms))) + 4) (st, d) =
      Some ((apply_smsg m st, d), int (length (enc_smsgs ms)) + 4)"
    by (simp add: e)
  have "recv_messages avail ((pre @ enc_smsg m) @ ?post) tot
      (int (length (enc_smsgs ms)) + 4) (apply_smsg m st, d) =
    Some (end_state closing (fold apply_smsg ms (apply_smsg m st), d))"
    by (rule Cons.IH) (use Cons.prems apply_smsg_ok e in auto)
  with recv_messages_step [OF _ step] show ?case by (simp add: e)
qed

section \<open>Collecting a transmission\<close>

text \<open>
  \<open>delivers acc evs rest\<close>: with \<open>acc\<close> already received, the events deliver the bytes \<open>rest\<close>
  in non-empty pieces, with waits in between. No piece but the last ends at a place where the
  last four bytes happen to be an end marker, and the first has at least four bytes: the
  receiver cannot tell such a piece from a complete transmission.
\<close>

definition ends_marked :: "mem \<Rightarrow> bool" where
  "ends_marked b \<longleftrightarrow> dec_int (drop (length b - 4) b) \<in> {MARK_EOT, MARK_DISCONNECT}"

inductive delivers :: "mem \<Rightarrow> recv_event list \<Rightarrow> mem \<Rightarrow> bool" where
  last_piece: "bs \<noteq> [] \<Longrightarrow> delivers acc [RData bs] bs"
| piece: "bs \<noteq> [] \<Longrightarrow> 4 \<le> length (acc @ bs) \<Longrightarrow> \<not> ends_marked (acc @ bs) \<Longrightarrow>
    delivers (acc @ bs) evs rest \<Longrightarrow> delivers acc (RData bs # evs) (bs @ rest)"
| wait: "acc \<noteq> [] \<Longrightarrow> delivers acc evs rest \<Longrightarrow> delivers acc (RFail EWOULDBLOCK # evs) rest"

lemma read_last:
  assumes "4 \<le> length a"
  shows "read_int (a @ q) (int (length a) - 4) = Some (dec_int (drop (length a - 4) a))"
proof -
  have "mem_read (take (length a - 4) a @ drop (length a - 4) a @ q) (int (length a - 4)) 4 =
      Some (drop (length a - 4) a)"
    using assms by (intro mem_read_append) simp_all
  moreover have "take (length a - 4) a @ drop (length a - 4) a @ q = a @ q"
    by (simp flip: append_assoc)
  ultimately show ?thesis using assms by (simp add: read_int_def of_nat_diff)
qed

text \<open>One piece that arrives when the buffer holds \<open>acc\<close>.\<close>

lemma write_piece:
  assumes "length acc + length bs \<le> length (acc @ old)"
  shows "mem_write (acc @ old) (int (length acc)) bs = Some ((acc @ bs) @ drop (length bs) old)"
  using assms mem_write_append [of acc "length acc" "take (length bs) old" bs "drop (length bs) old"]
  by simp

lemma recv_loop_piece:
  assumes c: "socketStatus st = status_Connected" and bs: "bs \<noteq> []" "4 \<le> length (acc @ bs)"
    and buf: "int (length (acc @ old)) = TCPBUFSIZE" "length (acc @ bs) \<le> length (acc @ old)"
  shows "recv_loop st (acc @ old) (length acc) (RData bs # evs) =
    (if ends_marked (acc @ bs) then Some (st, (acc @ bs) @ drop (length bs) old, length (acc @ bs), False, evs)
     else recv_loop st ((acc @ bs) @ drop (length bs) old) (length (acc @ bs)) evs)"
proof -
  have fits: "\<not> TCPBUFSIZE < int (length acc + length bs)" using buf by simp
  have w: "mem_write (acc @ old) (int (length acc)) bs = Some ((acc @ bs) @ drop (length bs) old)"
    by (rule write_piece) (use buf in simp)
  have r: "read_int ((acc @ bs) @ drop (length bs) old) (int (length acc + length bs) - 4) =
      Some (dec_int (drop (length (acc @ bs) - 4) (acc @ bs)))"
    using read_last [OF bs(2), of "drop (length bs) old"] by simp
  show ?thesis
    by (subst recv_loop.simps) (use c bs fits w r in \<open>simp add: ends_marked_def\<close>)
qed

lemma recv_loop_wait:
  assumes "socketStatus st = status_Connected" and "acc \<noteq> []"
  shows "recv_loop st buf (length acc) (RFail EWOULDBLOCK # evs) = recv_loop st buf (length acc) evs"
  by (subst recv_loop.simps) (use assms in simp)

text \<open>
  The contract of a receive loop, which the loops of both programs meet: in a connected state a
  piece is stored behind what has arrived and a marker at its end completes the transmission, and
  an idle socket is polled again. \<open>result\<close> is what the loop returns.
\<close>

locale piece_reader =
  fixes loop :: "'s \<Rightarrow> mem \<Rightarrow> nat \<Rightarrow> recv_event list \<Rightarrow> 'r option"
    and connected :: "'s \<Rightarrow> bool"
    and result :: "'s \<Rightarrow> mem \<Rightarrow> nat \<Rightarrow> recv_event list \<Rightarrow> 'r"
  assumes on_piece: "connected st \<Longrightarrow> bs \<noteq> [] \<Longrightarrow> 4 \<le> length (acc @ bs) \<Longrightarrow>
      int (length (acc @ old)) = TCPBUFSIZE \<Longrightarrow> length (acc @ bs) \<le> length (acc @ old) \<Longrightarrow>
      loop st (acc @ old) (length acc) (RData bs # evs) =
        (if ends_marked (acc @ bs)
         then Some (result st ((acc @ bs) @ drop (length bs) old) (length (acc @ bs)) evs)
         else loop st ((acc @ bs) @ drop (length bs) old) (length (acc @ bs)) evs)"
    and on_wait: "connected st \<Longrightarrow> acc \<noteq> [] \<Longrightarrow>
      loop st buf (length acc) (RFail EWOULDBLOCK # evs) = loop st buf (length acc) evs"
begin

lemma collects:
  assumes "delivers acc evs rest" and "connected st"
    and "4 \<le> length (acc @ rest)" and "ends_marked (acc @ rest)"
    and "int (length (acc @ old)) = TCPBUFSIZE" and "length (acc @ rest) \<le> length (acc @ old)"
  shows "loop st (acc @ old) (length acc) evs =
    Some (result st ((acc @ rest) @ drop (length rest) old) (length (acc @ rest)) [])"
  using assms
proof (induction arbitrary: old rule: delivers.induct)
  case (last_piece bs acc)
  then show ?case using on_piece [of st bs acc old "[]"] by simp
next
  case (piece bs acc evs rest)
  have "loop st ((acc @ bs) @ drop (length bs) old) (length (acc @ bs)) evs =
      Some (result st (((acc @ bs) @ rest) @ drop (length rest) (drop (length bs) old)) (length ((acc @ bs) @ rest)) [])"
    by (rule piece.IH) (use piece.prems in auto)
  with piece on_piece [of st bs acc old evs] show ?case
    by (simp add: add.commute)
next
  case (wait acc evs rest)
  then show ?case using on_wait [of st acc "acc @ old" evs] by simp
qed

lemma collects_all:
  assumes "delivers [] evs msg" and "connected st" and "4 \<le> length msg" and "ends_marked msg"
    and "int (length buf) = TCPBUFSIZE" and "length msg \<le> length buf"
  shows "loop st buf 0 evs = Some (result st (msg @ drop (length msg) buf) (length msg) [])"
  using collects [OF assms(1,2), of buf] assms(3-) by simp

end

interpretation reader: piece_reader recv_loop "\<lambda>st. socketStatus st = status_Connected"
  "\<lambda>st buf n evs. (st, buf, n, False, evs)"
  by unfold_locales (auto simp: recv_loop_piece recv_loop_wait)

text \<open>However TCP cuts a transmission into pieces, and however often the socket has to be polled
  in between, the client's receive loop returns with exactly the transmission in its buffer, and
  the rest of the buffer as it was, provided that no earlier piece happens to end in a marker.\<close>

theorem recv_loop_reassembles:
  assumes "delivers [] evs msg" and "socketStatus st = status_Connected"
    and "4 \<le> length msg" and "ends_marked msg"
    and "int (length buf) = TCPBUFSIZE" and "length msg \<le> length buf"
  shows "recv_loop st buf 0 evs = Some (st, msg @ drop (length msg) buf, length msg, False, [])"
  using reader.collects_all [OF assms] .

section \<open>A complete call\<close>

lemma apply_smsg_serverdata:
  "serverdata st = serverdata st' \<Longrightarrow> serverdata (apply_smsg m st) = serverdata (apply_smsg m st')"
  by (cases m) (simp_all add: upd_slot_def count_dataref_def)

lemma acceptable_serverdata:
  "serverdata st = serverdata st' \<Longrightarrow> acceptable st m = acceptable st' m"
  by (cases m) simp_all

lemma all_acceptable_serverdata:
  "serverdata st = serverdata st' \<Longrightarrow> all_acceptable st ms = all_acceptable st' ms"
proof (induction ms arbitrary: st st')
  case (Cons m ms)
  from Cons.IH [OF apply_smsg_serverdata [OF Cons.prems, of m]] acceptable_serverdata [OF Cons.prems]
  show ?case by simp
qed simp

lemma fold_apply_serverdata:
  "serverdata st = serverdata st' \<Longrightarrow> serverdata (fold apply_smsg ms st) = serverdata (fold apply_smsg ms st')"
proof (induction ms arbitrary: st st')
  case (Cons m ms)
  from Cons.IH [OF apply_smsg_serverdata [OF Cons.prems, of m]] show ?case by simp
qed simp

lemma fold_apply_ok: "table_ok st \<Longrightarrow> all_acceptable st ms \<Longrightarrow> table_ok (fold apply_smsg ms st)"
  by (induction ms arbitrary: st) (simp_all add: apply_smsg_ok)

lemma reset_received_ok: "table_ok st \<Longrightarrow> table_ok (reset_received st)"
proof -
  assume ok: "table_ok st"
  have "map ident (map (\<lambda>s. s\<lparr>sd_received := 0\<rparr>) (serverdata st)) = map ident (serverdata st)"
    by (simp add: ident_def)
  from unique_keys_ident [OF _ this] ok show ?thesis
    by (auto simp: table_ok_def reset_received_def slot_ok_def next_ok_def)
qed

lemma tick_ok: "table_ok st \<Longrightarrow> table_ok (tick st)"
  by (simp add: table_ok_def tick_def Let_def)

lemma apply_smsg_client:
  "socketStatus (apply_smsg m st) = socketStatus st" "recvBuffer (apply_smsg m st) = recvBuffer st"
  by (cases m; simp add: upd_slot_def count_dataref_def)+

lemma end_mark_ends: "ends_marked (a @ end_mark closing)" "length (end_mark closing) = 4"
  by (auto simp: ends_marked_def end_mark_def in_i32_def)

lemma receive_xpserver_applies:
  assumes "table_ok st" and "socketStatus st = status_Connected" and "\<forall>n. avail n"
    and "int (length (recvBuffer st)) = TCPBUFSIZE"
    and "delivers [] evs (enc_smsgs ms @ end_mark False)"
    and "int (length (enc_smsgs ms) + 4) \<le> TCPBUFSIZE"
    and "all_acceptable (reset_received (tick st)) ms"
  shows "\<exists>buf. receive_xpserver avail sock_ok now evs st =
      Some (count_received (fold apply_smsg ms ((reset_received (tick st))\<lparr>recvBuffer := buf\<rparr>)),
            int (length (enc_smsgs ms) + 4), []) \<and>
    length buf = length (recvBuffer st)"
proof -
  let ?msg = "enc_smsgs ms @ end_mark False"
  let ?st = "reset_received (tick st)"
  let ?buf = "?msg @ drop (length ?msg) ((recvBuffer st)[0 := 0])"
  let ?st1 = "?st\<lparr>recvBuffer := ?buf\<rparr>"
  have f: "socketStatus ?st = status_Connected" "recvBuffer ?st = recvBuffer st"
    using assms(2) by (simp_all add: reset_received_def tick_def Let_def)
  have len: "length ?msg = length (enc_smsgs ms) + 4" by (simp add: end_mark_ends)
  have loop: "recv_loop ?st ((recvBuffer st)[0 := 0]) 0 evs = Some (?st, ?buf, length ?msg, False, [])"
    using reader.collects_all [of evs ?msg ?st "(recvBuffer st)[0 := 0]"] assms(4-6) f len
    by (simp add: end_mark_ends)
  have ok: "table_ok ?st1" "all_acceptable ?st1 ms"
    using reset_received_ok [OF tick_ok [OF assms(1)]] assms(7)
      all_acceptable_serverdata [of ?st1 ?st ms] by (simp_all add: table_ok_def)
  have "recv_messages avail ([] @ enc_smsgs ms @ end_mark False @ drop (length ?msg) ((recvBuffer st)[0 := 0]))
      (int (length ?msg)) (int (length (enc_smsgs ms)) + 4) (?st1, False) =
    Some (end_state False (fold apply_smsg ms ?st1, False))"
    by (rule recv_messages_apply) (use ok assms(3,6) len in auto)
  then have "recv_messages avail ?buf (int (length ?msg)) (int (length ?msg)) (?st1, False) =
    Some (fold apply_smsg ms ?st1, False)"
    by (simp add: end_state_def end_mark_ends add.commute)
  then show ?thesis
    using loop f(2) len assms(4,6)
    by (intro exI [of _ ?buf]) (simp add: receive_xpserver_def Let_def del: append_assoc)
qed

text \<open>C2: Receiving is correct: when a transmission made of messages that the client can make sense of
  arrives in pieces that \<open>delivers\<close> allows, the call returns, the table is what the messages say one after the
  other, it is well-formed, and the number returned is the size of the transmission. The pieces may have any
  size and the socket may report between them that nothing has arrived yet, but the first one has at least
  four bytes, and no piece before the last leaves the bytes received so far ending in one of the two end
  marker values: the code reads before its buffer in the first case and stops too early in the
  second.\<close>

theorem receive_xpserver_correct:
  assumes "table_ok st" and "socketStatus st = status_Connected" and "\<forall>n. avail n"
    and "int (length (recvBuffer st)) = TCPBUFSIZE"
    and "delivers [] evs (enc_smsgs ms @ end_mark False)"
    and "int (length (enc_smsgs ms) + 4) \<le> TCPBUFSIZE"
    and "all_acceptable (reset_received (tick st)) ms"
  shows "\<exists>buf. receive_xpserver avail sock_ok now evs st =
      Some (count_received (fold apply_smsg ms ((reset_received (tick st))\<lparr>recvBuffer := buf\<rparr>)),
            int (length (enc_smsgs ms) + 4), []) \<and>
    length buf = length (recvBuffer st) \<and>
    table_ok (count_received (fold apply_smsg ms ((reset_received (tick st))\<lparr>recvBuffer := buf\<rparr>)))"
proof -
  have "table_ok (count_received (fold apply_smsg ms ((reset_received (tick st))\<lparr>recvBuffer := buf\<rparr>)))" for buf
    using fold_apply_ok [of "(reset_received (tick st))\<lparr>recvBuffer := buf\<rparr>" ms]
      reset_received_ok [OF tick_ok [OF assms(1)]] assms(7)
      all_acceptable_serverdata [of "(reset_received (tick st))\<lparr>recvBuffer := buf\<rparr>" "reset_received (tick st)" ms]
    by (simp add: table_ok_def count_received_def)
  then show ?thesis
    using receive_xpserver_applies [OF assms, of sock_ok now] by blast
qed

section \<open>Losing the connection\<close>

definition relink :: "sdata \<Rightarrow> sdata" where
  "relink s = (if cstr (sd_name s) = [] then s else s\<lparr>sd_status := XPSTATUS_ALLOC\<rparr>)"

lemma realloc_status_relink: "slot_ok s \<Longrightarrow> realloc_status s = Some (relink s)"
  using streq_terminated [of "[0]" "sd_name s"] by (auto simp: realloc_status_def relink_def)

lemma map_opt_map: "\<forall>x \<in> set xs. f x = Some (g x) \<Longrightarrow> map_opt f xs = Some (map g xs)"
  by (induction xs) simp_all

lemma relink_keeps: "slot_ok s \<Longrightarrow> slot_ok (relink s)" "next_ok k s \<Longrightarrow> next_ok k (relink s)"
  "ident (relink s) = ident s"
  by (simp_all add: relink_def slot_ok_def next_ok_def ident_def)

lemma relink_table_ok:
  assumes "table_ok st"
  shows "table_ok (st\<lparr>serverdata := map relink (serverdata st)\<rparr>)"
proof -
  have "map ident (map relink (serverdata st)) = map ident (serverdata st)"
    by (simp add: relink_keeps)
  from unique_keys_ident [OF _ this] assms show ?thesis
    by (auto simp: table_ok_def relink_keeps)
qed

lemma relink_all:
  "table_ok st \<Longrightarrow> map_opt realloc_status (serverdata st) = Some (map relink (serverdata st))"
  by (intro map_opt_map) (simp add: table_ok_def realloc_status_relink)

text \<open>When the plugin says farewell, the messages that came before the farewell marker are
  applied, every named slot is marked to be linked again, a new socket is created and the table
  stays well-formed; the call fails only when no socket can be had.\<close>

lemma disconnect_relinks:
  assumes "table_ok st" and "socketStatus st = status_Connected" and "\<forall>n. avail n"
    and "int (length (recvBuffer st)) = TCPBUFSIZE"
    and "delivers [] evs (enc_smsgs ms @ end_mark True)"
    and "int (length (enc_smsgs ms) + 4) \<le> TCPBUFSIZE"
    and "all_acceptable (reset_received (tick st)) ms"
  shows "\<exists>st' r. receive_xpserver avail sock_ok now evs st = Some (st', r, []) \<and> table_ok st' \<and>
    serverdata st' = map relink (serverdata (fold apply_smsg ms (reset_received (tick st)))) \<and>
    (if sock_ok then socketStatus st' = status_Ready \<and> r = int (length (enc_smsgs ms) + 4)
     else socketStatus st' = status_Init \<and> r = -123)"
proof -
  let ?msg = "enc_smsgs ms @ end_mark True"
  let ?st = "reset_received (tick st)"
  let ?buf = "?msg @ drop (length ?msg) ((recvBuffer st)[0 := 0])"
  let ?st1 = "?st\<lparr>recvBuffer := ?buf\<rparr>"
  let ?st2 = "(fold apply_smsg ms ?st1)\<lparr>socketStatus := status_Init\<rparr>"
  have f: "socketStatus ?st = status_Connected" "recvBuffer ?st = recvBuffer st"
    using assms(2) by (simp_all add: reset_received_def tick_def Let_def)
  have len: "length ?msg = length (enc_smsgs ms) + 4" by (simp add: end_mark_ends)
  have loop: "recv_loop ?st ((recvBuffer st)[0 := 0]) 0 evs = Some (?st, ?buf, length ?msg, False, [])"
    using reader.collects_all [of evs ?msg ?st "(recvBuffer st)[0 := 0]"] assms(4-6) f len
    by (simp add: end_mark_ends)
  have ok: "table_ok ?st1" "all_acceptable ?st1 ms"
    using reset_received_ok [OF tick_ok [OF assms(1)]] assms(7)
      all_acceptable_serverdata [of ?st1 ?st ms] by (simp_all add: table_ok_def)
  have "recv_messages avail ([] @ enc_smsgs ms @ end_mark True @ drop (length ?msg) ((recvBuffer st)[0 := 0]))
      (int (length ?msg)) (int (length (enc_smsgs ms)) + 4) (?st1, False) =
    Some (end_state True (fold apply_smsg ms ?st1, False))"
    by (rule recv_messages_apply) (use ok assms(3,6) len in auto)
  then have msgs: "recv_messages avail ?buf (int (length ?msg)) (int (length ?msg)) (?st1, False) =
    Some (?st2, True)"
    by (simp add: end_state_def end_mark_ends add.commute)
  have ok2: "table_ok ?st2" using fold_apply_ok [OF ok] by (simp add: table_ok_def)
  have same: "serverdata (fold apply_smsg ms ?st1) = serverdata (fold apply_smsg ms ?st)"
    by (rule fold_apply_serverdata) simp
  have ok3: "table_ok (?st2\<lparr>serverdata := map relink (serverdata ?st2)\<rparr>)"
    using relink_table_ok [OF ok2] .
  show ?thesis
    using loop f(2) len assms(4,6) msgs relink_all [OF ok2] ok3 same
    by (cases sock_ok)
      (auto simp: receive_xpserver_def create_tcpip_socket_def Let_def count_received_def table_ok_def
        simp del: append_assoc)
qed

end
