(* ===== verification/Requests.thy ===== *)
theory Requests
  imports Protocol
begin

text \<open>
  The messages that the client sends, and the proof that \<open>send_xpserver\<close> turns the
  subscription table into exactly the messages that its slots call for, as far as they fit
  into one transmission, and that what does not fit is asked for again in the next one.
\<close>

section \<open>Messages from the client to the server\<close>

datatype cmsg = CLink nat int int int int mem mem | CUnlink nat mem | CData nat mem

fun enc_cmsg :: "cmsg \<Rightarrow> mem" where
  "enc_cmsg (CLink i t n idx p name cn) =
     enc_int (MARK_LINK + int i) @ enc_int t @ enc_int n @ enc_int idx @ enc_int p @ name @ cn"
| "enc_cmsg (CUnlink i name) = enc_int (MARK_UNLINK + int i) @ name"
| "enc_cmsg (CData i v) = enc_int (MARK_DATA + int i) @ v"

definition enc_cmsgs :: "cmsg list \<Rightarrow> mem" where
  "enc_cmsgs ms = concat (map enc_cmsg ms)"

lemma enc_cmsgs_simps [simp]:
  "enc_cmsgs [] = []" "enc_cmsgs (m # ms) = enc_cmsg m @ enc_cmsgs ms"
  by (simp_all add: enc_cmsgs_def)

text \<open>Has the data of a slot changed enough to be sent?\<close>

definition slot_changed :: "sdata \<Rightarrow> bool" where
  "slot_changed s =
     (case (sd_data s, sd_data_old s) of
        (Some a, Some b) \<Rightarrow>
          list_ex (\<lambda>j. elem_changed (sd_type s) (sd_precision s)
             (take (elem_size (sd_type s)) (drop (j * elem_size (sd_type s)) a))
             (take (elem_size (sd_type s)) (drop (j * elem_size (sd_type s)) b))) [0..<slot_elems s]
      | _ \<Rightarrow> False)"

text \<open>The message that a slot calls for.\<close>

definition slot_msg :: "mem \<Rightarrow> nat \<Rightarrow> sdata \<Rightarrow> cmsg option" where
  "slot_msg cn i s =
     (if cstr (sd_name s) = [] then None
      else if sd_status s = XPSTATUS_ALLOC
      then Some (CLink i (sd_type s) (sd_nelements s) (sd_index s) (sd_precision s) (sd_name s) cn)
      else if sd_status s = XPSTATUS_DEALLOC then Some (CUnlink i (sd_name s))
      else if sd_status s = XPSTATUS_VALID \<and> known_type (sd_type s) \<and> slot_changed s
      then Some (CData i (the (sd_data s)))
      else None)"

text \<open>The space that the code's tests ask for, and the slot afterwards.\<close>

fun room :: "cmsg \<Rightarrow> nat" where
  "room (CUnlink i name) = length (enc_cmsg (CUnlink i name))"
| "room m = length (enc_cmsg m) + 4"

definition count_send :: "sdata \<Rightarrow> sdata" where
  "count_send s = s\<lparr>sd_nsend := wrap32 (sd_nsend s + 1)\<rparr>"

definition sent_slot :: "cmsg \<Rightarrow> sdata \<Rightarrow> sdata" where
  "sent_slot m s =
     (case m of
        CLink i t n idx p name cn \<Rightarrow> s\<lparr>sd_status := XPSTATUS_LINK\<rparr>
      | CUnlink i name \<Rightarrow> s\<lparr>sd_status := XPSTATUS_UNLINK\<rparr>
      | CData i v \<Rightarrow>
          (let d = (if sd_type s = XPTYPE_CMD_ONCE then Some (enc_int 0) else sd_data s)
           in count_send (s\<lparr>sd_data := d, sd_data_old := d\<rparr>)))"

definition kept_slot :: "cmsg \<Rightarrow> sdata \<Rightarrow> sdata" where
  "kept_slot m s = (case m of CData i v \<Rightarrow> count_send s | _ \<Rightarrow> s)"

text \<open>The table after sending with \<open>n\<close> bytes of the buffer used, and the messages sent.\<close>

fun pack :: "mem \<Rightarrow> nat \<Rightarrow> sdata list \<Rightarrow> nat \<Rightarrow> sdata list \<times> cmsg list" where
  "pack cn i [] n = ([], [])"
| "pack cn i (s # ss) n =
     (case slot_msg cn i s of
        None \<Rightarrow> (case pack cn (Suc i) ss n of (ss', ms) \<Rightarrow> (s # ss', ms))
      | Some m \<Rightarrow>
          if int (n + room m) \<le> TCPBUFSIZE
          then (case pack cn (Suc i) ss (n + length (enc_cmsg m)) of (ss', ms) \<Rightarrow> (sent_slot m s # ss', m # ms))
          else (case pack cn (Suc i) ss n of (ss', ms) \<Rightarrow> (kept_slot m s # ss', ms)))"

section \<open>One slot\<close>

lemma put_fits [simp]:
  "int (length out + length v) \<le> TCPBUFSIZE \<Longrightarrow> put out v = Some (out @ v)"
  by (simp add: put_def)

lemma blocks_changed_slot:
  assumes "slot_ok s" and "known_type (sd_type s)"
  shows "\<exists>a b. sd_data s = Some a \<and> sd_data_old s = Some b \<and> length a = slot_size s \<and> length b = slot_size s \<and>
    blocks_changed (sd_type s) (sd_precision s) (slot_elems s) a b = Some (slot_changed s)"
proof -
  obtain a b where ab: "sd_data s = Some a" "length a = slot_size s" "sd_data_old s = Some b" "length b = slot_size s"
    using slot_ok_dims [OF assms] by blast
  then show ?thesis
    by (simp add: blocks_changed_def slot_changed_def mem_read_whole slot_size_elems)
qed

lemma cmd_size: "slot_ok s \<Longrightarrow> sd_type s = XPTYPE_CMD_ONCE \<Longrightarrow> slot_size s = 4"
  by (simp add: slot_size_def block_size_def elem_count_def elem_size_def scalar_type_def)

lemma send_data_msg:
  assumes ok: "slot_ok s" and t: "known_type (sd_type s)"
  shows "send_data i s out =
    (if slot_changed s
     then let m = CData i (the (sd_data s))
          in if int (length out + room m) \<le> TCPBUFSIZE then Some (sent_slot m s, out @ enc_cmsg m)
             else Some (kept_slot m s, out)
     else Some (s, out))"
proof -
  obtain a b where ab: "sd_data s = Some a" "sd_data_old s = Some b" "length a = slot_size s" "length b = slot_size s"
    and ch: "blocks_changed (sd_type s) (sd_precision s) (slot_elems s) a b = Some (slot_changed s)"
    using blocks_changed_slot [OF assms] by blast
  let ?len = "nat (elem_count (sd_type s) (sd_nelements s) (sd_index s)) * elem_size (sd_type s)"
  have len: "?len = slot_size s" by (simp add: slot_size_def block_size_def)
  have ch': "blocks_changed (sd_type s) (sd_precision s)
      (nat (elem_count (sd_type s) (sd_nelements s) (sd_index s))) a b = Some (slot_changed s)"
    using ch by (simp add: slot_elems_def)
  show ?thesis
  proof (cases "sd_type s = XPTYPE_CMD_ONCE")
    case True
    with ab cmd_size [OF ok True] t ch' len show ?thesis
      by (simp add: send_data_def Let_def mem_read_whole mem_write_whole sent_slot_def kept_slot_def count_send_def)
  next
    case False
    with ab t ch' len show ?thesis
      by (simp add: send_data_def Let_def mem_read_whole mem_write_whole sent_slot_def kept_slot_def count_send_def)
  qed
qed

lemma send_slot_msg:
  assumes ok: "slot_ok s" and cn: "length cn = NAMELEN"
  shows "send_slot cn i s out =
    (case slot_msg cn i s of
       None \<Rightarrow> Some (s, out)
     | Some m \<Rightarrow> if int (length out + room m) \<le> TCPBUFSIZE then Some (sent_slot m s, out @ enc_cmsg m)
                 else Some (kept_slot m s, out))"
proof -
  have nm: "length (sd_name s) = NAMELEN" "terminated (sd_name s)"
    using ok by (simp_all add: slot_ok_def name_ok_def)
  have e: "streq [0] (sd_name s) = Some (cstr (sd_name s) = [])"
    using streq_terminated [of "[0]" "sd_name s"] nm by auto
  consider (empty) "cstr (sd_name s) = []"
    | (link) "cstr (sd_name s) \<noteq> []" "sd_status s = XPSTATUS_ALLOC"
    | (unlink) "cstr (sd_name s) \<noteq> []" "sd_status s = XPSTATUS_DEALLOC"
    | (data) "cstr (sd_name s) \<noteq> []" "sd_status s = XPSTATUS_VALID"
    | (other) "cstr (sd_name s) \<noteq> []" "sd_status s \<noteq> XPSTATUS_ALLOC" "sd_status s \<noteq> XPSTATUS_DEALLOC"
        "sd_status s \<noteq> XPSTATUS_VALID" by blast
  then show ?thesis
  proof cases
    case link
    with e nm cn show ?thesis
      by (simp add: send_slot_def slot_msg_def send_link_def mem_read_whole sent_slot_def kept_slot_def)
  next
    case unlink
    with e nm show ?thesis
      by (simp add: send_slot_def slot_msg_def send_unlink_def mem_read_whole sent_slot_def kept_slot_def)
  next
    case data
    show ?thesis
    proof (cases "known_type (sd_type s)")
      case True
      with data e send_data_msg [OF ok True] show ?thesis
        by (simp add: send_slot_def slot_msg_def Let_def)
    next
      case False
      with data e show ?thesis by (simp add: send_slot_def slot_msg_def send_data_def)
    qed
  qed (use e in \<open>simp_all add: send_slot_def slot_msg_def\<close>)
qed

lemma send_slots_pack:
  assumes "\<forall>s \<in> set ss. slot_ok s" and "length cn = NAMELEN"
  shows "send_slots cn i ss out =
    Some (fst (pack cn i ss (length out)), out @ enc_cmsgs (snd (pack cn i ss (length out))))"
  using assms(1)
proof (induction ss arbitrary: i out)
  case (Cons s ss)
  have ok: "slot_ok s" and oks: "\<forall>s \<in> set ss. slot_ok s" using Cons.prems by simp_all
  show ?case
    using send_slot_msg [OF ok assms(2), of i out] Cons.IH [OF oks]
    by (auto split: option.splits prod.splits)
qed simp

section \<open>The whole table\<close>

fun msg_index :: "cmsg \<Rightarrow> nat" where
  "msg_index (CLink i t n idx p name cn) = i"
| "msg_index (CUnlink i name) = i"
| "msg_index (CData i v) = i"

lemma slot_msg_index: "slot_msg cn i s = Some m \<Longrightarrow> msg_index m = i"
  by (auto simp: slot_msg_def split: if_splits)

lemma pack_Cons_None:
  "slot_msg cn i s = None \<Longrightarrow>
   pack cn i (s # ss) n = (s # fst (pack cn (Suc i) ss n), snd (pack cn (Suc i) ss n))"
  by (simp split: prod.splits)

lemma pack_Cons_sent:
  "slot_msg cn i s = Some m \<Longrightarrow> int (n + room m) \<le> TCPBUFSIZE \<Longrightarrow>
   pack cn i (s # ss) n = (sent_slot m s # fst (pack cn (Suc i) ss (n + length (enc_cmsg m))),
     m # snd (pack cn (Suc i) ss (n + length (enc_cmsg m))))"
  by (simp split: prod.splits)

lemma pack_Cons_kept:
  "slot_msg cn i s = Some m \<Longrightarrow> \<not> int (n + room m) \<le> TCPBUFSIZE \<Longrightarrow>
   pack cn i (s # ss) n = (kept_slot m s # fst (pack cn (Suc i) ss n), snd (pack cn (Suc i) ss n))"
  by (simp split: prod.splits)

lemmas pack_Cons = pack_Cons_None pack_Cons_sent pack_Cons_kept

lemma pack_cases [case_names Nil None Sent Kept]:
  assumes "\<And>i n. P i [] n"
    and "\<And>i s ss n. slot_msg cn i s = None \<Longrightarrow> P (Suc i) ss n \<Longrightarrow> P i (s # ss) n"
    and "\<And>i s ss n m. slot_msg cn i s = Some m \<Longrightarrow> int (n + room m) \<le> TCPBUFSIZE \<Longrightarrow>
      P (Suc i) ss (n + length (enc_cmsg m)) \<Longrightarrow> P i (s # ss) n"
    and "\<And>i s ss n m. slot_msg cn i s = Some m \<Longrightarrow> \<not> int (n + room m) \<le> TCPBUFSIZE \<Longrightarrow>
      P (Suc i) ss n \<Longrightarrow> P i (s # ss) n"
  shows "P i ss n"
proof (induction ss arbitrary: i n)
  case Nil
  show ?case by (rule assms(1))
next
  case (Cons s ss)
  show ?case
  proof (cases "slot_msg cn i s")
    case None
    with assms(2) Cons.IH show ?thesis by blast
  next
    case (Some m)
    with assms(3,4) Cons.IH show ?thesis by blast
  qed
qed

lemma pack_index: "m \<in> set (snd (pack cn i ss n)) \<Longrightarrow> i \<le> msg_index m"
  by (induction i ss n rule: pack_cases [where cn = cn])
    (auto simp: pack_Cons slot_msg_index dest: Suc_leD simp del: pack.simps(2))

lemma length_pack [simp]: "length (fst (pack cn i ss n)) = length ss"
  by (induction i ss n rule: pack_cases [where cn = cn]) (simp_all add: pack_Cons del: pack.simps(2))

text \<open>Each slot has sent its message or keeps it, and the messages sent tell which.\<close>

definition next_slot :: "mem \<Rightarrow> nat \<Rightarrow> sdata \<Rightarrow> cmsg list \<Rightarrow> sdata" where
  "next_slot cn i s ms =
     (case slot_msg cn i s of
        None \<Rightarrow> s
      | Some m \<Rightarrow> if m \<in> set ms then sent_slot m s else kept_slot m s)"

lemma pack_slot:
  "k < length ss \<Longrightarrow>
   fst (pack cn i ss n) ! k = next_slot cn (i + k) (ss ! k) (snd (pack cn i ss n))"
proof (induction i ss n arbitrary: k rule: pack_cases [where cn = cn])
  case (Nil i n)
  then show ?case by simp
next
  case (None i s ss n)
  then show ?case by (cases k) (simp_all add: pack_Cons next_slot_def del: pack.simps(2))
next
  case (Sent i s ss n m)
  have "m' \<noteq> m" if "slot_msg cn (Suc (i + l)) s' = Some m'" for l s' m'
    using slot_msg_index [OF that] slot_msg_index [OF Sent(1)] by auto
  with Sent show ?case
    by (cases k) (auto simp: pack_Cons next_slot_def simp del: pack.simps(2) split: option.splits)
next
  case (Kept i s ss n m)
  have "m \<notin> set (snd (pack cn (Suc i) ss n))"
    using pack_index slot_msg_index [OF Kept(1)] by fastforce
  with Kept show ?case by (cases k) (simp_all add: pack_Cons next_slot_def del: pack.simps(2))
qed

lemma pack_bound:
  "int n \<le> TCPBUFSIZE \<Longrightarrow> int (n + length (enc_cmsgs (snd (pack cn i ss n)))) \<le> TCPBUFSIZE"
proof (induction i ss n rule: pack_cases [where cn = cn])
  case (Sent i s ss n m)
  have "length (enc_cmsg m) \<le> room m" by (cases m) simp_all
  with Sent show ?case by (simp add: pack_Cons del: pack.simps(2))
qed (simp_all add: pack_Cons del: pack.simps(2))

text \<open>Without an unlink request the tests leave room for the end marker.\<close>

definition pending_unlink :: "sdata \<Rightarrow> bool" where
  "pending_unlink s \<longleftrightarrow> cstr (sd_name s) \<noteq> [] \<and> sd_status s = XPSTATUS_DEALLOC"

lemma slot_msg_room:
  "slot_msg cn i s = Some m \<Longrightarrow> \<not> pending_unlink s \<Longrightarrow> room m = length (enc_cmsg m) + 4"
  by (auto simp: slot_msg_def pending_unlink_def split: if_splits)

lemma pack_bound_eot:
  "int (n + 4) \<le> TCPBUFSIZE \<Longrightarrow> \<forall>s \<in> set ss. \<not> pending_unlink s \<Longrightarrow>
   int (n + length (enc_cmsgs (snd (pack cn i ss n))) + 4) \<le> TCPBUFSIZE"
proof (induction i ss n rule: pack_cases [where cn = cn])
  case (Sent i s ss n m)
  with slot_msg_room [OF Sent(1)] show ?case
    by (simp add: pack_Cons del: pack.simps(2))
qed (simp_all add: pack_Cons del: pack.simps(2))

lemma pack_overrun:
  "int (n + 4) \<le> TCPBUFSIZE \<Longrightarrow> TCPBUFSIZE < int (n + length (enc_cmsgs (snd (pack cn i ss n))) + 4) \<Longrightarrow>
   \<exists>j name. CUnlink j name \<in> set (snd (pack cn i ss n))"
proof (induction i ss n rule: pack_cases [where cn = cn])
  case (Sent i s ss n m)
  show ?case
  proof (cases m)
    case (CUnlink j name)
    with Sent(1,2) show ?thesis by (auto simp: pack_Cons simp del: pack.simps(2))
  qed (use Sent in \<open>auto simp: pack_Cons simp del: pack.simps(2)\<close>)
qed (simp_all add: pack_Cons del: pack.simps(2))

text \<open>Nothing is sent only when nothing that a slot calls for would fit into an empty buffer.\<close>

lemma pack_progress:
  "snd (pack cn i ss n) = [] \<Longrightarrow> k < length ss \<Longrightarrow> slot_msg cn (i + k) (ss ! k) = Some m \<Longrightarrow>
   \<not> int (n + room m) \<le> TCPBUFSIZE"
proof (induction i ss n arbitrary: k rule: pack_cases [where cn = cn])
  case (None i s ss n)
  then show ?case by (cases k) (auto simp: pack_Cons simp del: pack.simps(2))
next
  case (Kept i s ss n m')
  then show ?case by (cases k) (auto simp: pack_Cons simp del: pack.simps(2))
qed (simp_all add: pack_Cons del: pack.simps(2))

lemma count_send_keeps [simp]:
  "slot_ok (count_send s) = slot_ok s" "ident (count_send s) = ident s" "next_ok k (count_send s) = next_ok k s"
  by (simp_all add: count_send_def slot_ok_def ident_def next_ok_def)

lemma status_keeps [simp]:
  "slot_ok (s\<lparr>sd_status := x\<rparr>) = slot_ok s" "ident (s\<lparr>sd_status := x\<rparr>) = ident s"
  "next_ok k (s\<lparr>sd_status := x\<rparr>) = next_ok k s"
  by (simp_all add: slot_ok_def ident_def next_ok_def)

lemma block_ok_cmd: "block_ok XPTYPE_CMD_ONCE n i (Some (enc_int 0))"
  by (simp add: block_ok_def block_size_def elem_count_def elem_size_def scalar_type_def)

lemma data_keeps [simp]:
  "ident (s\<lparr>sd_data := x, sd_data_old := y\<rparr>) = ident s"
  "next_ok k (s\<lparr>sd_data := x, sd_data_old := y\<rparr>) = next_ok k s"
  by (simp_all add: ident_def next_ok_def)

lemma data_sync_ok:
  "slot_ok s \<Longrightarrow> slot_ok (s\<lparr>sd_data := sd_data s, sd_data_old := sd_data s\<rparr>)"
  "slot_ok s \<Longrightarrow> sd_type s = XPTYPE_CMD_ONCE \<Longrightarrow>
   slot_ok (s\<lparr>sd_data := Some (enc_int 0), sd_data_old := Some (enc_int 0)\<rparr>)"
  using block_ok_cmd by (simp_all add: slot_ok_def)

lemma sent_slot_keeps:
  "slot_ok s \<Longrightarrow> slot_ok (sent_slot m s)" "ident (sent_slot m s) = ident s"
  "next_ok k (sent_slot m s) = next_ok k s"
  using data_sync_ok [of s] by (cases m; simp add: sent_slot_def Let_def)+

lemma kept_slot_keeps:
  "slot_ok s \<Longrightarrow> slot_ok (kept_slot m s)" "ident (kept_slot m s) = ident s"
  "next_ok k (kept_slot m s) = next_ok k s"
  by (cases m; simp add: kept_slot_def)+

lemma next_slot_keeps:
  "slot_ok s \<Longrightarrow> slot_ok (next_slot cn i s ms)" "ident (next_slot cn i s ms) = ident s"
  "next_ok k (next_slot cn i s ms) = next_ok k s"
  by (simp_all add: next_slot_def sent_slot_keeps kept_slot_keeps split: option.splits)

lemma pack_table_ok:
  assumes "table_ok st"
  shows "table_ok (st\<lparr>serverdata := fst (pack cn i (serverdata st) n)\<rparr>)"
proof -
  let ?ss = "serverdata st" and ?ss' = "fst (pack cn i (serverdata st) n)"
  have nth: "slot_ok (?ss' ! k) \<and> ident (?ss' ! k) = ident (?ss ! k) \<and> next_ok (length ?ss) (?ss' ! k)"
    if k: "k < length ?ss" for k
    unfolding pack_slot [OF k]
    using table_okD [OF assms k] by (simp add: next_slot_keeps)
  have "map ident ?ss' = map ident ?ss"
    by (rule nth_equalityI) (simp_all add: nth)
  from unique_keys_ident [OF _ this] have "unique_keys ?ss'" using assms by (simp add: table_ok_def)
  moreover have "\<forall>s \<in> set ?ss'. slot_ok s \<and> next_ok (length ?ss) s"
    unfolding all_set_conv_all_nth using nth by simp
  ultimately show ?thesis using assms by (simp add: table_ok_def)
qed

section \<open>Handing the buffer to the socket\<close>

text \<open>The events take \<open>n\<close> bytes, in whatever portions and with whatever waits, and no more.\<close>

inductive takes :: "nat \<Rightarrow> send_event list \<Rightarrow> bool" where
  all_taken: "takes 0 []"
| portion: "0 < k \<Longrightarrow> k \<le> n \<Longrightarrow> takes (n - k) evs \<Longrightarrow> takes n (SSent k # evs)"
| blocked: "0 < n \<Longrightarrow> takes n evs \<Longrightarrow> takes n (SFail EWOULDBLOCK # evs)"

lemma send_loop_takes:
  "takes n evs \<Longrightarrow> n = length buf \<Longrightarrow> send_loop sent buf evs = Some (sent @ buf, True, [])"
proof (induction arbitrary: sent buf rule: takes.induct)
  case all_taken
  then show ?case by (subst send_loop.simps) simp
next
  case (portion k n evs)
  have "send_loop (sent @ take k buf) (drop k buf) evs = Some ((sent @ take k buf) @ drop k buf, True, [])"
    by (rule portion.IH) (use portion.prems in simp)
  moreover have "buf \<noteq> []" using portion by auto
  ultimately show ?case by (subst send_loop.simps) simp
next
  case (blocked n evs)
  have "send_loop sent buf evs = Some (sent @ buf, True, [])"
    by (rule blocked.IH) (rule blocked.prems)
  moreover have "buf \<noteq> []" using blocked by auto
  ultimately show ?case by (subst send_loop.simps) simp
qed

text \<open>However the socket portions out the transmission, the send loop hands over all of it, once and
  in order, and then ends.\<close>

theorem send_loop_complete:
  assumes "takes (length buf) evs"
  shows "send_loop [] buf evs = Some (buf, True, [])"
  using send_loop_takes [OF assms refl, of "[]"] by simp

section \<open>A complete call\<close>

definition transmission :: "cmsg list \<Rightarrow> mem" where
  "transmission ms = (if ms = [] then [] else enc_cmsgs ms @ enc_int MARK_EOT)"

lemma enc_cmsg_pos: "enc_cmsg m \<noteq> []"
  by (cases m) (simp_all add: enc_int_def)

lemma enc_cmsgs_empty: "enc_cmsgs ms = [] \<longleftrightarrow> ms = []"
  by (cases ms) (simp_all add: enc_cmsg_pos)

lemma length_transmission: "ms \<noteq> [] \<Longrightarrow> length (transmission ms) = length (enc_cmsgs ms) + 4"
  by (simp add: transmission_def)

text \<open>The call, for whatever the socket does: what is packed, the end marker, and the send loop.\<close>

lemma send_xpserver_run:
  assumes "table_ok st" and "socketStatus st = status_Connected" and "length (clientname st) = NAMELEN"
    and pk: "pack (clientname st) 0 (serverdata st) 0 = (ss, ms)"
  shows "send_xpserver evs st =
    (if ms = [] then Some (st\<lparr>serverdata := ss\<rparr>, status_Connected, [], evs)
     else if int (length (transmission ms)) \<le> TCPBUFSIZE
     then map_option (\<lambda>(sent, ok, evs).
        if ok then (st\<lparr>serverdata := ss\<rparr>, status_Connected, sent, evs)
        else (st\<lparr>serverdata := ss, socketStatus := status_Error\<rparr>, status_Error, sent, evs))
          (send_loop [] (transmission ms) evs)
     else None)"
proof (cases "serverdata st = []")
  case True
  with pk have "ss = []" "ms = []" by simp_all
  with True assms(2) show ?thesis by (simp add: send_xpserver_def)
next
  case False
  have slots: "\<forall>s \<in> set (serverdata st). slot_ok s" using assms(1) by (simp add: table_ok_def)
  have s: "send_slots (clientname st) 0 (serverdata st) [] = Some (ss, enc_cmsgs ms)"
    using send_slots_pack [OF slots assms(3), of 0 "[]"] pk by simp
  show ?thesis
  proof (cases "ms = []")
    case True
    with s False assms(2) show ?thesis by (simp add: send_xpserver_def)
  next
    case ms: False
    have p: "put (enc_cmsgs ms) (enc_int MARK_EOT) =
        (if int (length (transmission ms)) \<le> TCPBUFSIZE then Some (transmission ms) else None)"
      using ms by (simp add: put_def transmission_def)
    show ?thesis
      using s p ms False assms(2)
      by (cases "send_loop [] (transmission ms) evs") (auto simp: send_xpserver_def enc_cmsgs_empty Let_def)
  qed
qed

lemma send_xpserver_sends:
  assumes "table_ok st" and "socketStatus st = status_Connected" and "length (clientname st) = NAMELEN"
    and "pack (clientname st) 0 (serverdata st) 0 = (ss, ms)"
    and "int (length (transmission ms)) \<le> TCPBUFSIZE" and t: "takes (length (transmission ms)) evs"
  shows "send_xpserver evs st = Some (st\<lparr>serverdata := ss\<rparr>, status_Connected, transmission ms, [])"
proof (cases "ms = []")
  case True
  with t have "evs = []" by (auto simp: transmission_def elim: takes.cases)
  with True send_xpserver_run [OF assms(1-4)] show ?thesis by (simp add: transmission_def)
next
  case False
  with send_loop_takes [OF t refl, of "[]"] send_xpserver_run [OF assms(1-4)] assms(5)
  show ?thesis by simp
qed

lemma send_xpserver_packs:
  assumes "table_ok st" and "socketStatus st = status_Connected" and "serverdata st \<noteq> []"
    and "length (clientname st) = NAMELEN" and "\<forall>s \<in> set (serverdata st). \<not> pending_unlink s"
    and "pack (clientname st) 0 (serverdata st) 0 = (ss, ms)"
    and "takes (length (transmission ms)) evs"
  shows "send_xpserver evs st = Some (st\<lparr>serverdata := ss\<rparr>, status_Connected, transmission ms, []) \<and>
    int (length (enc_cmsgs ms) + 4) \<le> TCPBUFSIZE"
proof -
  have bound: "int (length (enc_cmsgs ms) + 4) \<le> TCPBUFSIZE"
    using pack_bound_eot [OF _ assms(5), of 0 "clientname st" 0] assms(6) by simp
  then have "int (length (transmission ms)) \<le> TCPBUFSIZE" by (simp add: transmission_def)
  from send_xpserver_sends [OF assms(1,2,4,6) this assms(7)] bound show ?thesis by simp
qed

text \<open>C3: Sending is correct: what is packed are the messages that the slots call for (requests to link and to
  unlink, and changed data), in the order of the slots and as far as they fit; every slot ends up as
  one that has sent its message or keeps it for the next transmission, and the table stays
  well-formed. When the messages and the end marker fit into the buffer, exactly these bytes go out
  (none when no slot calls for a message), whatever the portions in which the socket takes them.
  When they do not, the call has written past the buffer and is undefined: this is possible only because the
  test before an unlink request leaves no room for the marker, so a transmission without such a request
  always fits.\<close>

theorem send_xpserver_correct:
  assumes "table_ok st" and "socketStatus st = status_Connected" and "length (clientname st) = NAMELEN"
    and "(ss, ms) = pack (clientname st) 0 (serverdata st) 0"
  shows "table_ok (st\<lparr>serverdata := ss\<rparr>) \<and>
    (\<forall>k < length (serverdata st). ss ! k = next_slot (clientname st) k (serverdata st ! k) ms) \<and>
    (if int (length (transmission ms)) \<le> TCPBUFSIZE
     then \<forall>evs. takes (length (transmission ms)) evs \<longrightarrow>
       send_xpserver evs st = Some (st\<lparr>serverdata := ss\<rparr>, status_Connected, transmission ms, [])
     else (\<exists>i name. CUnlink i name \<in> set ms) \<and> (\<forall>evs. send_xpserver evs st = None))"
proof -
  have p: "ss = fst (pack (clientname st) 0 (serverdata st) 0)"
    "ms = snd (pack (clientname st) 0 (serverdata st) 0)"
    using assms(4) by (metis fst_conv, metis snd_conv)
  have "\<forall>k < length (serverdata st). ss ! k = next_slot (clientname st) k (serverdata st ! k) ms"
    using pack_slot [of _ "serverdata st" "clientname st" 0 0] p by simp
  moreover have "table_ok (st\<lparr>serverdata := ss\<rparr>)"
    using pack_table_ok [OF assms(1)] p by simp
  moreover have "\<exists>i name. CUnlink i name \<in> set ms" if "\<not> int (length (transmission ms)) \<le> TCPBUFSIZE"
    using pack_overrun [of 0 "clientname st" 0 "serverdata st"] that p(2)
    by (cases "ms = []") (auto simp: transmission_def)
  moreover have "send_xpserver evs st = None" if "\<not> int (length (transmission ms)) \<le> TCPBUFSIZE" for evs
    using send_xpserver_run [OF assms(1-3) assms(4) [symmetric], of evs] that
    by (cases "ms = []") (simp_all add: transmission_def)
  ultimately show ?thesis
    using send_xpserver_sends [OF assms(1-3) assms(4) [symmetric]] by simp
qed

section \<open>Nothing is lost, nothing is repeated\<close>

text \<open>A NaN differs from itself, so that without a precision it is sent over and over.\<close>

definition elem_nan :: "int \<Rightarrow> int \<Rightarrow> mem \<Rightarrow> bool" where
  "elem_nan t p a \<longleftrightarrow> no_precision p \<and>
     (if t = XPTYPE_FLT \<or> t = XPTYPE_FLT_ARR then fp_val 23 8 (le_val a) = NaN
      else t = XPTYPE_DBL \<and> fp_val 52 11 (le_val a) = NaN)"

definition slot_nan :: "sdata \<Rightarrow> bool" where
  "slot_nan s =
     (case sd_data s of None \<Rightarrow> False
      | Some a \<Rightarrow> list_ex (\<lambda>j. elem_nan (sd_type s) (sd_precision s)
          (take (elem_size (sd_type s)) (drop (j * elem_size (sd_type s)) a))) [0..<slot_elems s])"

lemma elem_changed_refl: "elem_changed t p a a \<longleftrightarrow> elem_nan t p a"
  by (auto simp: elem_changed_def elem_nan_def fp_changed_def fp_ne_def)

lemma slot_changed_sync: "slot_changed (s\<lparr>sd_data := d, sd_data_old := d\<rparr>) \<longleftrightarrow> slot_nan (s\<lparr>sd_data := d\<rparr>)"
  by (simp add: slot_changed_def slot_nan_def slot_elems_def elem_changed_refl split: option.splits)

lemma slot_changed_count_send [simp]: "slot_changed (count_send s) = slot_changed s"
  by (simp add: count_send_def slot_changed_def slot_elems_def split: option.splits)

lemma slot_msg_count_send [simp]: "slot_msg cn i (count_send s) = slot_msg cn i s"
  using slot_changed_count_send [of s] by (simp add: count_send_def slot_msg_def)

lemma slot_msg_kept [simp]: "slot_msg cn i (kept_slot m s) = slot_msg cn i s"
  by (cases m) (simp_all add: kept_slot_def)

lemma slot_msg_sync:
  "sd_status s = XPSTATUS_VALID \<Longrightarrow> \<not> slot_nan (s\<lparr>sd_data := d\<rparr>) \<Longrightarrow>
   slot_msg cn i (s\<lparr>sd_data := d, sd_data_old := d\<rparr>) = None"
  by (simp add: slot_msg_def slot_changed_sync)

lemma slot_msg_sent:
  assumes "slot_msg cn i s = Some m" and "\<not> slot_nan s"
  shows "slot_msg cn i (sent_slot m s) = None"
proof (cases m)
  case (CData i' v)
  then have st: "sd_status s = XPSTATUS_VALID"
    using assms(1) by (auto simp: slot_msg_def split: if_splits)
  show ?thesis
  proof (cases "sd_type s = XPTYPE_CMD_ONCE")
    case True
    then have "\<not> slot_nan (s\<lparr>sd_data := Some (enc_int 0)\<rparr>)"
      by (simp add: slot_nan_def elem_nan_def list_ex_iff)
    with True CData st show ?thesis
      by (simp add: sent_slot_def Let_def slot_msg_sync)
  next
    case False
    have "slot_msg cn i (s\<lparr>sd_data_old := sd_data s\<rparr>) = None"
      using slot_msg_sync [OF st, of "sd_data s" cn i] assms(2) by simp
    with False CData show ?thesis by (simp add: sent_slot_def Let_def)
  qed
qed (use assms(1) in \<open>auto simp: sent_slot_def slot_msg_def\<close>)

text \<open>What becomes of the message of one slot, in the abstract scheduler.\<close>

lemma pack_keeps_change:
  assumes "k < length ss" and "slot_msg cn k (ss ! k) = Some m" and "pack cn 0 ss 0 = (ss', ms)"
  shows "if m \<in> set ms then slot_nan (ss ! k) \<or> slot_msg cn k (ss' ! k) = None
    else slot_msg cn k (ss' ! k) = Some m"
proof -
  have "ss' ! k = next_slot cn k (ss ! k) ms"
    using pack_slot [OF assms(1), of cn 0 0] assms(3) by simp
  with slot_msg_sent [OF assms(2)] assms(2) show ?thesis
    by (cases "slot_nan (ss ! k)") (simp_all add: next_slot_def)
qed

lemma send_loop_ok:
  "send_loop sent buf evs = Some (s, True, evs') \<Longrightarrow> s = sent @ buf"
proof (induction evs arbitrary: sent buf)
  case Nil
  then show ?case by (subst (asm) send_loop.simps) (simp split: if_splits)
next
  case (Cons e evs)
  show ?case
  proof (cases "buf = []")
    case True
    with Cons.prems show ?thesis by (subst (asm) send_loop.simps) simp
  next
    case False
    with Cons.prems have r: "(case e of
        SSent n \<Rightarrow> send_loop (sent @ take n buf) (drop n buf) evs
      | SFail x \<Rightarrow> if x = EWOULDBLOCK then send_loop sent buf evs else Some (sent, False, evs)) = Some (s, True, evs')"
      by (subst (asm) send_loop.simps) (simp split: send_event.splits)
    show ?thesis
    proof (cases e)
      case (SSent n)
      with r Cons.IH [of "sent @ take n buf" "drop n buf"] show ?thesis by simp
    next
      case (SFail x)
      with r Cons.IH [of sent buf] show ?thesis by (simp split: if_splits)
    qed
  qed
qed

text \<open>C10: No change is lost and none is repeated: when a call of \<open>send_xpserver\<close> leaves the client
  connected, whatever the socket did meanwhile, the bytes that went out are a transmission of whole
  messages, and of every slot that called for a message (a link or unlink request, or changed data) either this
  message was sent, and the slot calls for nothing until it changes again (unless its value is a NaN,
  which compares as different from itself), or it was not, and the slot calls for the same message in the
  next call. Something is sent whenever some message fits into an empty buffer. (A call that ends in a
  socket error does lose what it had packed: \<open>send_error_loses_changes\<close>.)\<close>

theorem no_change_lost:
  assumes "table_ok st" and "length (clientname st) = NAMELEN"
    and "send_xpserver evs st = Some (st', status_Connected, sent, evs')"
  shows "\<exists>ms. sent = transmission ms \<and>
    (\<forall>k < length (serverdata st). \<forall>m. slot_msg (clientname st) k (serverdata st ! k) = Some m \<longrightarrow>
       (if m \<in> set ms then slot_nan (serverdata st ! k) \<or> slot_msg (clientname st') k (serverdata st' ! k) = None
        else slot_msg (clientname st') k (serverdata st' ! k) = Some m)) \<and>
    ((\<exists>k < length (serverdata st). \<exists>m. slot_msg (clientname st) k (serverdata st ! k) = Some m \<and>
        int (room m) \<le> TCPBUFSIZE) \<longrightarrow> ms \<noteq> [])"
proof -
  obtain ss ms where pk: "pack (clientname st) 0 (serverdata st) 0 = (ss, ms)" by fastforce
  have "socketStatus st = status_Connected"
    using assms(3) by (auto simp: send_xpserver_def split: if_splits)
  note run = send_xpserver_run [OF assms(1) this assms(2) pk, of evs]
  have "st' = st\<lparr>serverdata := ss\<rparr> \<and> sent = transmission ms"
  proof (cases "ms = []")
    case True
    with run assms(3) show ?thesis by (simp add: transmission_def)
  next
    case False
    with run assms(3) have "map_option (\<lambda>(sent, ok, evs).
        if ok then (st\<lparr>serverdata := ss\<rparr>, status_Connected, sent, evs)
        else (st\<lparr>serverdata := ss, socketStatus := status_Error\<rparr>, status_Error, sent, evs))
          (send_loop [] (transmission ms) evs) = Some (st', status_Connected, sent, evs')"
      by (metis option.distinct(1))
    then obtain b ok e where l: "send_loop [] (transmission ms) evs = Some (b, ok, e)"
      and r: "(if ok then (st\<lparr>serverdata := ss\<rparr>, status_Connected, b, e)
        else (st\<lparr>serverdata := ss, socketStatus := status_Error\<rparr>, status_Error, b, e)) = (st', status_Connected, sent, evs')"
      by auto
    then have "ok" "st' = st\<lparr>serverdata := ss\<rparr>" "b = sent" by (simp_all split: if_splits)
    with l send_loop_ok [of "[]" "transmission ms" evs b e] show ?thesis by simp
  qed
  moreover have "ms \<noteq> []" if "k < length (serverdata st)" "slot_msg (clientname st) k (serverdata st ! k) = Some m"
    "int (room m) \<le> TCPBUFSIZE" for k m
    using pack_progress [of "clientname st" 0 "serverdata st" 0 k m] that pk by auto
  ultimately show ?thesis using pack_keeps_change [OF _ _ pk] by (intro exI [of _ ms]) auto
qed

text \<open>The copy of the sent data is taken when a message is packed: when the connection fails in the call,
  nothing of the transmission need have gone out, and yet its changes count as sent.\<close>

lemma send_error_loses_changes:
  assumes "table_ok st" and "socketStatus st = status_Connected" and "length (clientname st) = NAMELEN"
    and pk: "pack (clientname st) 0 (serverdata st) 0 = (ss, ms)" and "ms \<noteq> []"
    and "int (length (transmission ms)) \<le> TCPBUFSIZE" and "x \<noteq> EWOULDBLOCK"
    and "k < length (serverdata st)" and "slot_msg (clientname st) k (serverdata st ! k) = Some m" and "m \<in> set ms"
    and "\<not> slot_nan (serverdata st ! k)"
  shows "\<exists>st'. send_xpserver (SFail x # evs) st = Some (st', status_Error, [], evs) \<and>
    slot_msg (clientname st') k (serverdata st' ! k) = None"
proof -
  have "transmission ms \<noteq> []" using assms(5) by (simp add: transmission_def enc_cmsgs_empty)
  then have "send_loop [] (transmission ms) (SFail x # evs) = Some ([], False, evs)"
    using assms(7) by (subst send_loop.simps) simp
  with send_xpserver_run [OF assms(1-4), of "SFail x # evs"] assms(5,6)
    pack_keeps_change [OF assms(8,9) pk] assms(10,11)
  show ?thesis by simp
qed

text \<open>A one-time command fires once: when it has been sent its value is 0 on both sides of the
  comparison, so that it is not sent again before the application raises it again.\<close>

theorem command_once_resets:
  assumes "slot_msg cn i s = Some (CData i v)" and "sd_type s = XPTYPE_CMD_ONCE"
  shows "sd_data (sent_slot (CData i v) s) = Some (enc_int 0) \<and>
    slot_msg cn i (sent_slot (CData i v) s) = None"
proof -
  have "\<not> slot_nan s"
    using assms(2) by (simp add: slot_nan_def elem_nan_def list_ex_iff split: option.splits)
  from slot_msg_sent [OF assms(1) this] assms(2) show ?thesis
    by (simp add: sent_slot_def Let_def count_send_def)
qed

end
