(* ===== verification/ClientSystem.thy ===== *)
theory ClientSystem
  imports Requests
begin

text \<open>
  The client library as a state machine: the calls that an application makes, in any order and
  whatever arrives from the network, and the invariant that all of them keep.
\<close>

section \<open>Whatever arrives\<close>

text \<open>
  The receiver is given arbitrary bytes here. A call that returns has kept the table
  well-formed: data is only ever stored within the blocks.
\<close>

lemma store_elems_length:
  "store_elems t j k v p = Some p' \<Longrightarrow> map_option length p' = map_option length p"
proof (induction k arbitrary: j p)
  case (Suc k)
  then obtain e p1 where e: "mem_read v (int (j * elem_size t)) (elem_size t) = Some e"
    and p1: "(if is_miss t e then Some p else ptr_write p (int (j * elem_size t)) e) = Some p1"
    and r: "store_elems t (Suc j) k v p1 = Some p'"
    by (auto split: bind_splits)
  have "map_option length p1 = map_option length p"
    using p1 by (auto simp: ptr_write_def length_mem_write split: if_splits option.splits)
  with Suc.IH [OF r] show ?case by simp
qed simp

lemma block_ok_length:
  "block_ok t n i p \<Longrightarrow> map_option length p' = map_option length p \<Longrightarrow> block_ok t n i p'"
  by (auto simp: block_ok_def split: option.splits)

lemma recv_payload_keeps:
  assumes "recv_payload avail buf tot left s = Some (s', left')"
  shows "(slot_ok s \<longrightarrow> slot_ok s') \<and> ident s' = ident s \<and> sd_nextindex s' = sd_nextindex s"
proof -
  consider "s' = s" | d d_old v n where "s' = s\<lparr>sd_data := d, sd_data_old := d_old\<rparr>"
      "store_elems (sd_type s) 0 n v (sd_data s) = Some d"
      "store_elems (sd_type s) 0 n v (sd_data_old s) = Some d_old"
    using assms by (auto simp: recv_payload_def Let_def split: if_splits bind_splits)
  then show ?thesis
  proof cases
    case (2 d d_old v n)
    with store_elems_length [OF 2(2)] store_elems_length [OF 2(3)] show ?thesis
      using block_ok_length by (auto simp: slot_ok_def ident_def)
  qed simp
qed

definition set_slot :: "nat \<Rightarrow> sdata \<Rightarrow> 'a sdstate_scheme \<Rightarrow> 'a sdstate_scheme" where
  "set_slot i s st = upd_slot i (\<lambda>_. s) st"

lemma set_slot_table_ok:
  assumes "table_ok st" and "i < length (serverdata st) \<Longrightarrow>
    (slot_ok (serverdata st ! i) \<longrightarrow> slot_ok s) \<and> ident s = ident (serverdata st ! i) \<and>
    sd_nextindex s = sd_nextindex (serverdata st ! i)"
  shows "table_ok (set_slot i s st)"
proof (cases "i < length (serverdata st)")
  case True
  let ?ss = "(serverdata st)[i := s]"
  have "unique_keys ?ss"
    by (rule unique_keys_shrink [of "serverdata st"])
      (use assms True in \<open>auto simp: table_ok_def nth_list_update\<close>)
  moreover have "\<forall>s \<in> set ?ss. slot_ok s \<and> next_ok (length (serverdata st)) s"
    using assms True table_okD [OF assms(1) True]
    by (intro ball_upd) (auto simp: table_ok_def next_ok_def)
  ultimately show ?thesis using assms(1) by (simp add: table_ok_def set_slot_def upd_slot_def)
next
  case False
  with assms(1) show ?thesis by (simp add: set_slot_def upd_slot_def table_ok_def list_update_beyond)
qed

lemma recv_data_keeps:
  assumes ok: "table_ok st" and r: "recv_data avail buf tot left offset st = Some (st', left')"
  shows "table_ok st'"
proof (cases "serverdata st \<noteq> [] \<and> offset < numalloc st")
  case False
  with r ok show ?thesis by (auto simp: recv_data_def split: if_splits)
next
  case True
  let ?s = "(serverdata st ! nat offset)\<lparr>sd_received := 1, sd_nrecv := wrap32 (sd_nrecv (serverdata st ! nat offset) + 1)\<rparr>"
  have s: "(slot_ok (serverdata st ! nat offset) \<longrightarrow> slot_ok ?s) \<and> ident ?s = ident (serverdata st ! nat offset) \<and>
      sd_nextindex ?s = sd_nextindex (serverdata st ! nat offset)"
    by (simp add: slot_ok_def ident_def)
  show ?thesis
  proof (cases "known_type (sd_type ?s)")
    case False
    with True r have "st' = set_slot (nat offset) ?s st" by (auto simp: recv_data_def Let_def set_slot_def)
    with set_slot_table_ok [OF ok] s show ?thesis by blast
  next
    case kt: True
    with True r obtain s' l where p: "recv_payload avail buf tot left ?s = Some (s', l)"
      and st': "st' = set_slot (nat offset) s' st"
      by (auto simp: recv_data_def Let_def set_slot_def split: bind_splits)
    have "(slot_ok (serverdata st ! nat offset) \<longrightarrow> slot_ok s') \<and> ident s' = ident (serverdata st ! nat offset) \<and>
        sd_nextindex s' = sd_nextindex (serverdata st ! nat offset)"
      using recv_payload_keeps [OF p] s by metis
    with set_slot_table_ok [OF ok] st' show ?thesis by blast
  qed
qed

lemma recv_link_keeps:
  "table_ok st \<Longrightarrow> recv_link buf tot left offset st = Some (st', left') \<Longrightarrow> table_ok st'"
  using upd_slot_table_ok [OF _ keeps_link] unfolding link_slot_def
  by (auto simp: recv_link_def link_slot_def Let_def split: if_splits bind_splits)

lemma recv_unlink_keeps:
  "table_ok st \<Longrightarrow> recv_unlink buf tot left offset st = Some (st', left') \<Longrightarrow> table_ok st'"
  using upd_slot_table_ok [OF _ keeps_free] unfolding free_name_def
  by (auto simp: recv_unlink_def Let_def split: if_splits bind_splits)

text \<open>What every call leaves of the rest of the state.\<close>

definition client_inv :: "client \<Rightarrow> bool" where
  "client_inv st \<longleftrightarrow> table_ok st \<and> int (length (recvBuffer st)) = TCPBUFSIZE \<and>
     length (clientname st) = NAMELEN \<and>
     socketStatus st \<in> {status_Connected, status_Ready, status_Init, status_Error}"

definition same_rest :: "client \<Rightarrow> client \<Rightarrow> bool" where
  "same_rest st st' \<longleftrightarrow> recvBuffer st' = recvBuffer st \<and> clientname st' = clientname st \<and> socketStatus st' = socketStatus st"

lemma recv_data_rest: "recv_data avail buf tot left offset st = Some (st', left') \<Longrightarrow> same_rest st st'"
  by (auto simp: recv_data_def same_rest_def upd_slot_def Let_def split: if_splits bind_splits)

lemma recv_link_rest: "recv_link buf tot left offset st = Some (st', left') \<Longrightarrow> same_rest st st'"
  by (auto simp: recv_link_def same_rest_def upd_slot_def count_dataref_def Let_def split: if_splits bind_splits)

lemma recv_unlink_rest: "recv_unlink buf tot left offset st = Some (st', left') \<Longrightarrow> same_rest st st'"
  by (auto simp: recv_unlink_def same_rest_def upd_slot_def count_dataref_def Let_def split: if_splits bind_splits)

lemma client_inv_rest: "client_inv st \<Longrightarrow> same_rest st st' \<Longrightarrow> table_ok st' \<Longrightarrow> client_inv st'"
  by (simp add: client_inv_def same_rest_def)

lemma client_inv_table: "client_inv st \<Longrightarrow> table_ok st"
  by (simp add: client_inv_def)

lemma client_inv_status:
  "client_inv st \<Longrightarrow> x \<in> {status_Connected, status_Ready, status_Init, status_Error} \<Longrightarrow>
   client_inv (st\<lparr>socketStatus := x\<rparr>)"
  by (simp add: client_inv_def table_ok_def)

lemma recv_message_inv:
  assumes "client_inv (fst s)" and "recv_message avail buf tot left s = Some (s', left')"
  shows "client_inv (fst s')"
proof -
  obtain st d where s: "s = (st, d)" by (cases s)
  with assms(2) obtain first st1 l where
    "(if first \<ge> MARK_DATA \<and> first < MARK_LINK then recv_data avail buf tot (left - 4) (first - MARK_DATA) st
      else if first \<ge> MARK_LINK \<and> first < MARK_UNLINK then recv_link buf tot (left - 4) (first - MARK_LINK) st
      else if first \<ge> MARK_UNLINK \<and> first < MARK_EOT then recv_unlink buf tot (left - 4) (first - MARK_UNLINK) st
      else Some (st, left - 4)) = Some (st1, l)" and
    s': "fst s' = (if first = MARK_DISCONNECT then st1\<lparr>socketStatus := status_Init\<rparr> else st1)"
    by (auto simp: recv_message_def Let_def split: bind_splits)
  moreover have inv: "client_inv st" using assms(1) s by simp
  ultimately consider "recv_data avail buf tot (left - 4) (first - MARK_DATA) st = Some (st1, l)"
    | "recv_link buf tot (left - 4) (first - MARK_LINK) st = Some (st1, l)"
    | "recv_unlink buf tot (left - 4) (first - MARK_UNLINK) st = Some (st1, l)" | "st1 = st"
    by (metis option.inject prod.inject)
  then have "client_inv st1"
  proof cases
    case 1
    from client_inv_rest [OF inv recv_data_rest [OF 1] recv_data_keeps [OF client_inv_table [OF inv] 1]]
    show ?thesis .
  next
    case 2
    from client_inv_rest [OF inv recv_link_rest [OF 2] recv_link_keeps [OF client_inv_table [OF inv] 2]]
    show ?thesis .
  next
    case 3
    from client_inv_rest [OF inv recv_unlink_rest [OF 3] recv_unlink_keeps [OF client_inv_table [OF inv] 3]]
    show ?thesis .
  qed (simp add: inv)
  with s' client_inv_status show ?thesis by simp
qed

lemma recv_messages_inv:
  assumes "recv_messages avail buf tot left s = Some s'"
  shows "client_inv (fst s) \<longrightarrow> client_inv (fst s')"
  using assms
proof (rule recv_messages.raw_induct [rotated])
  fix recv :: "(nat \<Rightarrow> bool) \<Rightarrow> mem \<Rightarrow> int \<Rightarrow> int \<Rightarrow> client \<times> bool \<Rightarrow> (client \<times> bool) option"
    and av buf tot left s s'
  assume IH: "\<And>av buf tot left s y. recv av buf tot left s = Some y \<Longrightarrow> client_inv (fst s) \<longrightarrow> client_inv (fst y)"
    and r: "(if 0 < left then recv_message av buf tot left s \<bind> (\<lambda>(s, left). recv av buf tot left s) else Some s) = Some s'"
  show "client_inv (fst s) \<longrightarrow> client_inv (fst s')"
  proof (cases "0 < left")
    case True
    with r obtain s1 l where "recv_message av buf tot left s = Some (s1, l)" "recv av buf tot l s1 = Some s'"
      by (auto split: bind_splits)
    with IH recv_message_inv show ?thesis by blast
  qed (use r in simp)
qed

lemma recv_loop_Cons:
  assumes "socketStatus st = status_Connected"
  shows "recv_loop st buf n (e # evs) =
    (case e of
       RFail x \<Rightarrow>
         (if x = EWOULDBLOCK then (if n = 0 then Some (st, buf, n, False, evs) else recv_loop st buf n evs)
          else if x = CONNLOST \<or> x = UNREACHABLE then Some (st\<lparr>socketStatus := status_Init\<rparr>, buf, 0, True, evs)
          else Some (st\<lparr>socketStatus := status_Error\<rparr>, buf, 0, False, evs))
     | RData bs \<Rightarrow>
         (if bs = [] then Some (st, buf, 0, True, evs)
          else if TCPBUFSIZE < int (n + length bs) then None
          else do {
            buf \<leftarrow> mem_write buf (int n) bs;
            datai \<leftarrow> read_int buf (int (n + length bs) - 4);
            (if datai = MARK_EOT \<or> datai = MARK_DISCONNECT
             then Some (st, buf, n + length bs, False, evs)
             else recv_loop st buf (n + length bs) evs)
          }))"
  by (subst recv_loop.simps) (use assms in simp)

lemma recv_loop_inv:
  "client_inv st \<Longrightarrow> int (length buf) = TCPBUFSIZE \<Longrightarrow> recv_loop st buf n evs = Some (st', buf', n', d, evs') \<Longrightarrow>
   client_inv st' \<and> int (length buf') = TCPBUFSIZE"
proof (induction evs arbitrary: buf n)
  case Nil
  then show ?case by (subst (asm) recv_loop.simps) (auto split: if_splits)
next
  case (Cons e evs)
  show ?case
  proof (cases "socketStatus st = status_Connected")
    case False
    with Cons.prems show ?thesis by (subst (asm) recv_loop.simps) auto
  next
    case c: True
    show ?thesis
    proof (cases e)
      case (RFail x)
      have eq: "(if x = EWOULDBLOCK then (if n = 0 then Some (st, buf, n, False, evs) else recv_loop st buf n evs)
          else if x = CONNLOST \<or> x = UNREACHABLE then Some (st\<lparr>socketStatus := status_Init\<rparr>, buf, 0, True, evs)
          else Some (st\<lparr>socketStatus := status_Error\<rparr>, buf, 0, False, evs)) = Some (st', buf', n', d, evs')"
        using Cons.prems(3) RFail by (simp add: recv_loop_Cons [OF c])
      show ?thesis
      proof (cases "x = EWOULDBLOCK")
        case True
        show ?thesis
        proof (cases "n = 0")
          case False
          with eq True have "recv_loop st buf n evs = Some (st', buf', n', d, evs')" by simp
          from Cons.IH [OF Cons.prems(1,2) this] show ?thesis .
        next
          case n: True
          from eq [unfolded True n, simplified] Cons.prems(1,2) show ?thesis by simp
        qed
      next
        case False
        obtain y where "st' = st\<lparr>socketStatus := y\<rparr>" "buf' = buf" "y \<in> {status_Init, status_Error}"
        proof (cases "x = CONNLOST \<or> x = UNREACHABLE")
          case True
          with eq False that [of status_Init] show ?thesis by simp
        next
          case other: False
          with eq False that [of status_Error] show ?thesis by simp
        qed
        with client_inv_status [OF Cons.prems(1), of y] Cons.prems(2) show ?thesis by auto
      qed
    next
      case (RData bs)
      from Cons.prems(3) RData consider "st' = st" "buf' = buf"
        | b where "mem_write buf (int n) bs = Some b" "st' = st" "buf' = b"
        | b where "mem_write buf (int n) bs = Some b"
            "recv_loop st b (n + length bs) evs = Some (st', buf', n', d, evs')"
        by (auto simp: recv_loop_Cons [OF c] split: if_splits bind_splits)
      then show ?thesis
      proof cases
        case 1
        with Cons.prems(1,2) show ?thesis by simp
      next
        case (2 b)
        with length_mem_write [OF 2(1)] Cons.prems(1,2) show ?thesis by simp
      next
        case (3 b)
        have "int (length b) = TCPBUFSIZE" using length_mem_write [OF 3(1)] Cons.prems(2) by simp
        from Cons.IH [OF Cons.prems(1) this 3(2)] show ?thesis .
      qed
    qed
  qed
qed

section \<open>Every call keeps the invariant\<close>

lemma socket_inv: "client_inv st \<Longrightarrow> client_inv (fst (create_tcpip_socket sock_ok now st))"
  by (simp add: create_tcpip_socket_def Let_def client_inv_def table_ok_def)

lemma receive_inv:
  assumes inv: "client_inv st" and r: "receive_xpserver avail sock_ok now evs st = Some (st', ret, evs')"
  shows "client_inv st'"
proof -
  let ?st = "reset_received (tick st)"
  have inv0: "client_inv ?st"
    using inv reset_received_ok [OF tick_ok [of st]]
    by (simp add: client_inv_def reset_received_def tick_def Let_def)
  have l0: "int (length ((recvBuffer st)[0 := 0])) = TCPBUFSIZE" "recvBuffer ?st = recvBuffer st"
    using inv by (simp_all add: client_inv_def reset_received_def tick_def Let_def)
  from r l0(2) obtain st1 buf n d e where
    loop: "recv_loop ?st ((recvBuffer st)[0 := 0]) 0 evs = Some (st1, buf, n, d, e)" and
    rest: "do {
       (st, disc) \<leftarrow> recv_messages avail buf (int n) (int n) (st1\<lparr>recvBuffer := buf\<rparr>, d);
       (st, ret) \<leftarrow>
         (if disc then
            do {
              slots \<leftarrow> map_opt realloc_status (serverdata st);
              let (st, r) = create_tcpip_socket sock_ok now (st\<lparr>serverdata := slots\<rparr>);
              Some (st, if r < 0 then -123 else int n)
            }
          else Some (st, int n));
       Some (count_received st, ret, e)
     } = Some (st', ret, evs')"
    by (auto simp: receive_xpserver_def Let_def split: bind_splits)
  from recv_loop_inv [OF inv0 l0(1) loop] have "client_inv (st1\<lparr>recvBuffer := buf\<rparr>)"
    by (simp add: client_inv_def table_ok_def)
  moreover from rest obtain st2 disc where
    msgs: "recv_messages avail buf (int n) (int n) (st1\<lparr>recvBuffer := buf\<rparr>, d) = Some (st2, disc)"
    and rest2: "do {
       (st, ret) \<leftarrow>
         (if disc then
            do {
              slots \<leftarrow> map_opt realloc_status (serverdata st2);
              let (st, r) = create_tcpip_socket sock_ok now (st2\<lparr>serverdata := slots\<rparr>);
              Some (st, if r < 0 then -123 else int n)
            }
          else Some (st2, int n));
       Some (count_received st, ret, e)
     } = Some (st', ret, evs')"
    by (cases "recv_messages avail buf (int n) (int n) (st1\<lparr>recvBuffer := buf\<rparr>, d)") auto
  ultimately have inv2: "client_inv st2" using recv_messages_inv [OF msgs] by simp
  have fin: "client_inv (count_received st3)" if "client_inv st3" for st3
    using that by (simp add: client_inv_def count_received_def table_ok_def)
  show ?thesis
  proof (cases disc)
    case False
    with rest2 fin [OF inv2] show ?thesis by auto
  next
    case True
    let ?st3 = "st2\<lparr>serverdata := map relink (serverdata st2)\<rparr>"
    have "map_opt realloc_status (serverdata st2) = Some (map relink (serverdata st2))"
      by (rule relink_all [OF client_inv_table [OF inv2]])
    with True rest2 have "st' = count_received (fst (create_tcpip_socket sock_ok now ?st3))"
      by (auto split: prod.splits)
    moreover have "client_inv ?st3"
      using inv2 relink_table_ok [OF client_inv_table [OF inv2]] by (simp add: client_inv_def)
    ultimately show ?thesis using fin socket_inv by simp
  qed
qed

lemma send_inv:
  assumes inv: "client_inv st" and s: "send_xpserver evs st = Some (st', ret, sent, evs')"
  shows "client_inv st'"
proof (cases "socketStatus st = status_Connected \<and> serverdata st \<noteq> []")
  case False
  with s inv show ?thesis by (auto simp: send_xpserver_def)
next
  case True
  let ?p = "pack (clientname st) 0 (serverdata st) 0"
  have slots: "\<forall>s \<in> set (serverdata st). slot_ok s" and cn: "length (clientname st) = NAMELEN"
    using inv by (simp_all add: client_inv_def table_ok_def)
  have pk: "send_slots (clientname st) 0 (serverdata st) [] = Some (fst ?p, enc_cmsgs (snd ?p))"
    using send_slots_pack [OF slots cn, of 0 "[]"] by simp
  have inv1: "client_inv (st\<lparr>serverdata := fst ?p\<rparr>)"
    using inv pack_table_ok [OF client_inv_table [OF inv]] by (simp add: client_inv_def)
  from s True pk have "st' = st\<lparr>serverdata := fst ?p\<rparr> \<or> st' = st\<lparr>serverdata := fst ?p, socketStatus := status_Error\<rparr>"
    by (auto simp: send_xpserver_def Let_def split: if_splits bind_splits)
  with inv1 client_inv_status [OF inv1, of status_Error] show ?thesis by auto
qed

lemma client_inv_frame:
  "client_inv st \<Longrightarrow> serverdata st' = serverdata st \<Longrightarrow> lastindex st' = lastindex st \<Longrightarrow>
   recvBuffer st' = recvBuffer st \<Longrightarrow> clientname st' = clientname st \<Longrightarrow>
   socketStatus st' \<in> {status_Connected, status_Ready, status_Init, status_Error} \<Longrightarrow> client_inv st'"
  by (simp add: client_inv_def table_ok_def)

lemma socket_frame:
  "serverdata (fst (create_tcpip_socket ok now st)) = serverdata st"
  "lastindex (fst (create_tcpip_socket ok now st)) = lastindex st"
  "recvBuffer (fst (create_tcpip_socket ok now st)) = recvBuffer st"
  "clientname (fst (create_tcpip_socket ok now st)) = clientname st"
  "socketStatus (fst (create_tcpip_socket ok now st)) = (if ok then status_Ready else status_Init)"
  by (simp_all add: create_tcpip_socket_def Let_def)

lemma check_inv:
  assumes inv: "client_inv st" and c: "check_xpserver ip now a sock_ok st = Some (st', ret)"
  shows "client_inv st'"
proof -
  have "socketStatus st \<in> {status_Connected, status_Ready, status_Init, status_Error}"
    using inv by (simp add: client_inv_def)
  with c have "serverdata st' = serverdata st \<and> lastindex st' = lastindex st \<and> recvBuffer st' = recvBuffer st \<and>
      clientname st' = clientname st \<and>
      socketStatus st' \<in> {status_Connected, status_Ready, status_Init, status_Error}"
    by (auto simp: check_xpserver_def Let_def socket_frame split: if_splits bind_splits)
  with client_inv_frame [OF inv] show ?thesis by blast
qed

lemma lookup_rest:
  "lookup_slot name t n i st = Some (st', r) \<Longrightarrow> same_rest st st'"
  by (auto simp: lookup_slot_def same_rest_def upd_slot_def Let_def split: if_splits bind_splits option.splits)

lemma create_rest:
  "create_slot avail junk name t n i p st = Some (st', r) \<Longrightarrow> same_rest st st'"
  by (auto simp: create_slot_def same_rest_def upd_slot_def Let_def split: if_splits bind_splits option.splits)

lemma link_rest:
  assumes "link_dataref avail junk name t n0 i0 p0 st = Some (st', r)"
  shows "same_rest st st'"
proof -
  consider "st' = st" | st1 found where "lookup_slot name t (norm_nelements t n0) (norm_index t i0) st = Some (st1, found)"
      "st' = st1 \<or> (\<exists>r. create_slot avail junk name t (norm_nelements t n0) (norm_index t i0) (norm_precision t p0) st1 = Some (st', r))"
    using assms by (auto simp: link_dataref_def Let_def split: if_splits bind_splits option.splits)
  then show ?thesis
  proof cases
    case 2
    from lookup_rest [OF 2(1)] create_rest 2(2) show ?thesis by (auto simp: same_rest_def)
  qed (simp add: same_rest_def)
qed

text \<open>
  A request that returns either gave up when the table could not grow, or found memory for all it
  needed and a name that fits.
\<close>

lemma create_slot_avail:
  assumes "create_slot avail junk name t n i p st = Some (st', r)" and "known_type t"
  shows "st' = st\<lparr>lastindex := 0\<rparr> \<or>
    (create_slot (\<lambda>_. True) junk name t n i p st = Some (st', r) \<and> strcpy (replicate NAMELEN 0) name \<noteq> None)"
proof (cases "free_slot (serverdata st)")
  case None
  with assms(1) show ?thesis by (simp add: create_slot_def)
next
  case (Some k)
  have na: "numalloc (st\<lparr>lastindex := 0\<rparr>) = numalloc st" by (simp add: numalloc_def)
  show ?thesis
  proof (cases "int k = numalloc st \<and> \<not> avail (SERVERDATA_STRUCT * (k + 1))")
    case True
    with Some assms(1) na show ?thesis by (simp add: create_slot_def Let_def)
  next
    case False
    with Some assms na have a: "avail (block_size t n i)"
      by (auto simp: create_slot_def alloc_block_def Let_def split: if_splits)
    then have "create_slot avail junk name t n i p st = create_slot (\<lambda>_. True) junk name t n i p st"
      using False Some assms(2) na by (auto simp: create_slot_def alloc_block_known)
    moreover have "strcpy (replicate NAMELEN 0) name \<noteq> None"
      using False Some assms a na
      by (cases "strcpy (replicate NAMELEN 0) name")
        (auto simp: create_slot_def alloc_block_known Let_def split: if_splits)
    ultimately show ?thesis using assms(1) by simp
  qed
qed

lemma strcpy_fits:
  "terminated name \<Longrightarrow> strcpy dst name \<noteq> None \<Longrightarrow> length (cstr name) < length dst"
  by (auto simp: strcpy_def mem_write_def split: if_splits)

lemma create_slot_inv:
  assumes ok: "table_ok st" and name: "terminated name" "cstr name \<noteq> []" and t: "known_type t"
    and d: "dims_ok t n i" and p: "in_i32 p" and new: "\<forall>s \<in> set (serverdata st). \<not> has_key name t n i s"
    and c: "create_slot avail junk name t n i p st = Some (st', r)"
  shows "table_ok st'"
  using create_slot_avail [OF c t]
proof
  assume "st' = st\<lparr>lastindex := 0\<rparr>"
  with ok show ?thesis by (simp add: table_ok_def)
next
  assume a: "create_slot (\<lambda>_. True) junk name t n i p st = Some (st', r) \<and>
    strcpy (replicate NAMELEN 0) name \<noteq> None"
  with strcpy_fits [OF name(1), of "replicate NAMELEN 0"] name have "good_name name"
    by (simp add: good_name_def)
  from create_slot_created [OF ok this t d p new, of "\<lambda>_. True" junk] a show ?thesis by auto
qed

lemma link_inv:
  assumes inv: "client_inv st" and name: "terminated name" and t: "known_type t" and n: "in_i32 n0"
    and l: "link_dataref avail junk name t n0 i0 p0 st = Some (st', r)"
  shows "client_inv st'"
proof (cases "valid_request t n0 i0 \<and> cstr name \<noteq> []")
  case False
  with link_dataref_invalid [of t n0 i0 avail junk name p0 st] inv l
    link_dataref_noname [OF name, of avail junk t n0 i0 p0 st] show ?thesis by auto
next
  case True
  let ?n = "norm_nelements t n0" and ?i = "norm_index t i0"
  note ok = client_inv_table [OF inv]
  obtain st1 where st1: "lookup_slot name t ?n ?i st =
      Some (st1, first_index (has_key name t ?n ?i) (serverdata st))" "table_ok st1"
    using lookup_slot_first [OF ok name _ t, of ?n ?i] True by blast
  have "table_ok st'"
  proof (cases "first_index (has_key name t ?n ?i) (serverdata st)")
    case (Some j)
    with l st1 True name show ?thesis
      by (auto simp: link_dataref_def valid_request_def Let_def streq_terminated)
  next
    case None
    then have new: "\<forall>s \<in> set (serverdata st). \<not> has_key name t ?n ?i s" by (simp add: first_index_None)
    have "st1 = st" using st1(1) None by (auto simp: lookup_slot_def split: if_splits option.splits bind_splits)
    with l st1 True name None
    have "create_slot avail junk name t ?n ?i (norm_precision t p0) st = Some (st', r)"
      by (auto simp: link_dataref_def valid_request_def Let_def streq_terminated)
    from create_slot_inv [OF ok name _ t valid_request_dims [OF _ n] norm_precision_i32 new this] True
    show ?thesis by blast
  qed
  with client_inv_rest [OF inv link_rest [OF l]] show ?thesis by blast
qed

text \<open>Starting, starting again and clearing.\<close>

lemma restart_inv:
  "client_inv st \<Longrightarrow> client_inv (initialize_dataref v st)"
  "client_inv st \<Longrightarrow> client_inv (clear_dataref st)"
  by (simp_all add: initialize_dataref_def clear_dataref_def client_inv_def table_ok_def unique_keys_def)

lemma counters_inv:
  "client_inv st \<Longrightarrow> client_inv (count_dataref st)"
  "client_inv st \<Longrightarrow> client_inv (count_received st)"
  "client_inv st \<Longrightarrow> client_inv (reset_received st)"
  using reset_received_ok [of st]
  by (simp_all add: count_dataref_def count_received_def reset_received_def client_inv_def table_ok_def)

lemma initialize_inv:
  assumes "client_inv st" and "initialize_tcpip_client sock_ok now st = Some (st', r)"
  shows "client_inv st'"
proof -
  have "\<exists>m. create_tcpip_socket sock_ok now (st\<lparr>interval_counter := 0, XPlaneServerManual := m\<rparr>) = (st', r)"
    using assms(2) by (auto simp: initialize_tcpip_client_def split: bind_splits)
  then obtain m where
    st': "st' = fst (create_tcpip_socket sock_ok now (st\<lparr>interval_counter := 0, XPlaneServerManual := m\<rparr>))"
    by (metis fst_conv)
  have "client_inv (st\<lparr>interval_counter := 0, XPlaneServerManual := m\<rparr>)"
    using assms(1) by (simp add: client_inv_def table_ok_def)
  with st' socket_inv show ?thesis by simp
qed

section \<open>The state machine\<close>

text \<open>
  One call of the library, or a write of the application through a pointer that it was given.
  Nothing is assumed about the network (the events of \<open>recv\<close> and \<open>send\<close> are arbitrary), about the
  memory (any allocation may fail), or about the requests, other than that a name is a string, a
  number is an \<open>int\<close> and the type is one of the dataref types, as in the typed functions
  \<open>link_dataref_int\<close> and so on. A request for an unknown type does harm the table
  (\<open>Defects.unknown_type_leaves_junk\<close>).
\<close>

inductive client_step :: "client \<Rightarrow> client \<Rightarrow> bool" where
  link: "terminated name \<Longrightarrow> known_type t \<Longrightarrow> in_i32 n0 \<Longrightarrow>
    link_dataref avail junk name t n0 i0 p0 st = Some (st', r) \<Longrightarrow> client_step st st'"
| unlink: "terminated name \<Longrightarrow> unlink_dataref name st = Some (st', n) \<Longrightarrow> client_step st st'"
| app_write: "j < length (serverdata st) \<Longrightarrow> sd_data (serverdata st ! j) = Some b \<Longrightarrow> length b' = length b \<Longrightarrow>
    client_step st (set_slot j ((serverdata st ! j)\<lparr>sd_data := Some b'\<rparr>) st)"
| clear: "client_step st (clear_dataref st)"
| initialize: "client_step st (initialize_dataref v st)"
| count: "client_step st (count_dataref st)"
| count_recv: "client_step st (count_received st)"
| reset: "client_step st (reset_received st)"
| socket: "client_step st (fst (create_tcpip_socket sock_ok now st))"
| connect: "initialize_tcpip_client sock_ok now st = Some (st', r) \<Longrightarrow> client_step st st'"
| check: "check_xpserver ip now a sock_ok st = Some (st', r) \<Longrightarrow> client_step st st'"
| receive: "receive_xpserver avail sock_ok now evs st = Some (st', r, evs') \<Longrightarrow> client_step st st'"
| send: "send_xpserver evs st = Some (st', r, sent, evs') \<Longrightarrow> client_step st st'"
| leave: "exit_tcpip_client evs st = Some (st', sent) \<Longrightarrow> client_step st st'"

inductive_cases client_stepE: "client_step st st'"

lemma client_step_inv:
  assumes "client_step st st'" and inv: "client_inv st"
  shows "client_inv st'"
  using assms(1)
proof cases
  case (link name t n0 avail junk i0 p0 r)
  with link_inv inv show ?thesis by blast
next
  case (unlink name n)
  from unlink_dataref_map [OF client_inv_table [OF inv] unlink(1)] unlink(2)
  have "st' = st\<lparr>serverdata := map (unlinked name) (serverdata st)\<rparr>" by simp
  with inv unlink_table_ok [OF client_inv_table [OF inv], of name] show ?thesis by (simp add: client_inv_def)
next
  case (app_write j b b')
  let ?s = "serverdata st ! j"
  have "(slot_ok ?s \<longrightarrow> slot_ok (?s\<lparr>sd_data := Some b'\<rparr>)) \<and> ident (?s\<lparr>sd_data := Some b'\<rparr>) = ident ?s \<and>
      sd_nextindex (?s\<lparr>sd_data := Some b'\<rparr>) = sd_nextindex ?s"
    using app_write(3,4) by (simp add: slot_ok_def ident_def block_ok_def)
  with set_slot_table_ok [OF client_inv_table [OF inv], of j] have "table_ok st'"
    using app_write(1) by blast
  moreover have "same_rest st st'" using app_write(1) by (simp add: same_rest_def set_slot_def upd_slot_def)
  ultimately show ?thesis using client_inv_rest [OF inv] by blast
next
  case clear
  with restart_inv(2) [OF inv] show ?thesis by simp
next
  case (initialize v)
  with restart_inv(1) [OF inv] show ?thesis by simp
next
  case count
  with counters_inv(1) [OF inv] show ?thesis by simp
next
  case count_recv
  with counters_inv(2) [OF inv] show ?thesis by simp
next
  case reset
  with counters_inv(3) [OF inv] show ?thesis by simp
next
  case (socket sock_ok now)
  with socket_inv [OF inv] show ?thesis by simp
next
  case (connect sock_ok now r)
  with initialize_inv inv show ?thesis by blast
next
  case (check ip now a sock_ok r)
  with check_inv inv show ?thesis by blast
next
  case (receive avail sock_ok now evs r evs')
  with receive_inv inv show ?thesis by blast
next
  case (send evs r sent evs')
  with send_inv inv show ?thesis by blast
next
  case (leave evs sent)
  then have "st' = st\<lparr>socketStatus := status_Init\<rparr>"
    by (auto simp: exit_tcpip_client_def split: bind_splits)
  with client_inv_status [OF inv, of status_Init] show ?thesis by simp
qed

definition client_start :: "client \<Rightarrow> bool" where
  "client_start st \<longleftrightarrow> serverdata st = [] \<and> 0 \<le> lastindex st \<and> int (length (recvBuffer st)) = TCPBUFSIZE \<and>
     length (clientname st) = NAMELEN \<and> socketStatus st = status_Init"

inductive client_run :: "client \<Rightarrow> bool" where
  start: "client_start st \<Longrightarrow> client_run st"
| step: "client_run st \<Longrightarrow> client_step st st' \<Longrightarrow> client_run st'"

text \<open>C1: Safety of the client library: whatever sequence of calls an application makes (starting and
  clearing the table, its counters, requests with one of the dataref types of the library, releases, connecting,
  receiving, sending, leaving) and whatever it writes into its blocks, and whatever bytes, errors, delays
  and failed allocations the system produces, every state that is reached by calls that return (a call whose
  behaviour is undefined is not a step) has a well-formed table: each slot
  with a type owns two blocks of the right size, names are terminated, no two slots have the same
  name, type and dimensions, the prediction hints stay within the table, and the connection status
  is one of the four. A request with a type that the library does not know is excluded: it leaves an
  uninitialised slot behind (\<open>Defects.unknown_type_leaves_junk\<close>).\<close>

theorem client_always_well_formed:
  assumes "client_run st"
  shows "table_ok st \<and> int (length (recvBuffer st)) = TCPBUFSIZE \<and> length (clientname st) = NAMELEN \<and>
    socketStatus st \<in> {status_Connected, status_Ready, status_Init, status_Error}"
proof -
  from assms have "client_inv st"
  proof induction
    case (start st)
    then show ?case
      by (simp add: client_start_def client_inv_def table_ok_def unique_keys_def)
  next
    case (step st st')
    with client_step_inv show ?case by blast
  qed
  then show ?thesis by (simp add: client_inv_def)
qed

end
