(* ===== verification/ClientData.thy ===== *)
theory ClientData
  imports ServerData
begin

text \<open>
  \<open>xpserver/src/clientdata.c\<close>: the plugin's table of the datarefs that a client has linked,
  and the interface of X-Plane that the plugin uses.

  X-Plane itself is not part of the repository. Its plugin interface is a record of functions
  over a state \<open>'w\<close> (\<open>xplm\<close>), an argument of every definition that calls it; a handle is a
  number, 0 being \<open>NULL\<close>. As documented for the plugin interface, reading does not change the
  state, and an array read returns the elements that it copied.
\<close>

section \<open>The interface of X-Plane\<close>

record 'w xplm =
  XPLMFindCommand :: "mem \<Rightarrow> 'w \<Rightarrow> nat"
  XPLMFindDataRef :: "mem \<Rightarrow> 'w \<Rightarrow> nat"
  XPLMIsDataRefGood :: "nat \<Rightarrow> 'w \<Rightarrow> bool"
  XPLMGetDataRefTypes :: "nat \<Rightarrow> 'w \<Rightarrow> int"
  XPLMCanWriteDataRef :: "nat \<Rightarrow> 'w \<Rightarrow> int"
  XPLMCountDatavf :: "nat \<Rightarrow> 'w \<Rightarrow> int" \<comment> \<open>\<open>XPLMGetDatavf(ref,NULL,0,0)\<close>\<close>
  XPLMCountDatavi :: "nat \<Rightarrow> 'w \<Rightarrow> int"
  XPLMCountDatab :: "nat \<Rightarrow> 'w \<Rightarrow> int"
  XPLMGetDatai :: "nat \<Rightarrow> 'w \<Rightarrow> int"
  XPLMGetDataf :: "nat \<Rightarrow> 'w \<Rightarrow> mem"
  XPLMGetDatad :: "nat \<Rightarrow> 'w \<Rightarrow> mem"
  XPLMGetDatavf :: "nat \<Rightarrow> int \<Rightarrow> int \<Rightarrow> 'w \<Rightarrow> mem" \<comment> \<open>first element, maximum\<close>
  XPLMGetDatavi :: "nat \<Rightarrow> int \<Rightarrow> int \<Rightarrow> 'w \<Rightarrow> mem"
  XPLMGetDatab :: "nat \<Rightarrow> int \<Rightarrow> int \<Rightarrow> 'w \<Rightarrow> mem"
  XPLMSetDatai :: "nat \<Rightarrow> int \<Rightarrow> 'w \<Rightarrow> 'w"
  XPLMSetDataf :: "nat \<Rightarrow> mem \<Rightarrow> 'w \<Rightarrow> 'w"
  XPLMSetDatad :: "nat \<Rightarrow> mem \<Rightarrow> 'w \<Rightarrow> 'w"
  XPLMSetDatavf :: "nat \<Rightarrow> mem \<Rightarrow> int \<Rightarrow> int \<Rightarrow> 'w \<Rightarrow> 'w" \<comment> \<open>values, first element, count\<close>
  XPLMSetDatavi :: "nat \<Rightarrow> mem \<Rightarrow> int \<Rightarrow> int \<Rightarrow> 'w \<Rightarrow> 'w"
  XPLMSetDatab :: "nat \<Rightarrow> mem \<Rightarrow> int \<Rightarrow> int \<Rightarrow> 'w \<Rightarrow> 'w"
  XPLMCommandOnce :: "nat \<Rightarrow> 'w \<Rightarrow> 'w"
  XPLMCommandBegin :: "nat \<Rightarrow> 'w \<Rightarrow> 'w"
  XPLMCommandEnd :: "nat \<Rightarrow> 'w \<Rightarrow> 'w"
  XPLMRegisterDataAccessor :: "mem \<Rightarrow> int \<Rightarrow> nat \<Rightarrow> 'w \<Rightarrow> nat \<times> 'w" \<comment> \<open>name, type, refcon\<close>

section \<open>State\<close>

record cdata =
  cd_name :: mem
  cd_type :: int
  cd_nelements :: int
  cd_index :: int
  cd_precision :: int
  cd_status :: int
  cd_data :: ptr
  cd_dataref :: nat
  cd_write :: int

record cdstate =
  clientdata :: "cdata list"
  srv_numlink :: int
  srv_clientname :: mem

definition srv_numalloc :: "'a cdstate_scheme \<Rightarrow> int" where
  "srv_numalloc st = int (length (clientdata st))"

definition upd_entry :: "nat \<Rightarrow> (cdata \<Rightarrow> cdata) \<Rightarrow> 'a cdstate_scheme \<Rightarrow> 'a cdstate_scheme" where
  "upd_entry i f st = st\<lparr>clientdata := (clientdata st)[i := f (clientdata st ! i)]\<rparr>"

section \<open>Formatted error texts\<close>

text \<open>\<open>snprintf\<close> into the name field: truncated to 99 characters and terminated.\<close>

definition snprintf_name :: "mem \<Rightarrow> mem \<Rightarrow> mem" where
  "snprintf_name dst txt =
     (let t = take (NAMELEN - 1) txt in t @ [0] @ drop (Suc (length t)) dst)"

section \<open>Allocation\<close>

abbreviation (input) CLIENTDATA_STRUCT :: nat where "CLIENTDATA_STRUCT \<equiv> 152"

text \<open>
  The entry addressed by \<open>offset\<close> is reused when it has the same name and index. Then the
  rest of the request has to agree with it.
\<close>

definition found_entry :: "int \<Rightarrow> int \<Rightarrow> mem \<Rightarrow> 'a cdstate_scheme \<Rightarrow> bool option" where
  "found_entry offset index name st =
     (if clientdata st \<noteq> [] \<and> offset < srv_numalloc st then
        do {
          eq \<leftarrow> streq name (cd_name (clientdata st ! nat offset));
          Some (eq \<and> index = cd_index (clientdata st ! nat offset))
        }
      else Some False)"

definition consistent_entry :: "int \<Rightarrow> int \<Rightarrow> int \<Rightarrow> int \<Rightarrow> cdata \<Rightarrow> bool" where
  "consistent_entry type nelements index precision c \<longleftrightarrow>
     Bit_Operations.and (cd_type c) type = type \<and> nelements = cd_nelements c \<and>
     index = cd_index c \<and> precision = cd_precision c"

definition create_entry ::
  "(nat \<Rightarrow> bool) \<Rightarrow> (nat \<Rightarrow> cdata) \<Rightarrow> nat \<Rightarrow> int \<Rightarrow> int \<Rightarrow> int \<Rightarrow> int \<Rightarrow> mem \<Rightarrow>
   'a cdstate_scheme \<Rightarrow> ('a cdstate_scheme \<times> int) option" where
  "create_entry avail junk i type nelements index precision name st =
     (if int i \<ge> srv_numalloc st \<and> \<not> avail (CLIENTDATA_STRUCT * (i + 1)) then Some (st, -1)
      else
        do {
          let st = st\<lparr>clientdata := clientdata st @ map junk [length (clientdata st)..<Suc i]\<rparr>;
          data \<leftarrow> alloc_block avail type nelements index;
          let st = upd_entry i (\<lambda>c. c\<lparr>cd_status := XPSTATUS_UNINITIALIZED, cd_data := data\<rparr>) st;
          (if data = None then Some (st, -1)
           else
             do {
               nm \<leftarrow> strcpy (cd_name (clientdata st ! i)) name;
               Some (upd_entry i (\<lambda>c. c\<lparr>cd_name := nm, cd_status := XPSTATUS_ALLOC,
                       cd_type := type, cd_nelements := nelements, cd_index := index,
                       cd_precision := precision\<rparr>) st, 0)
             })
        })"

definition allocate_clientdata ::
  "(nat \<Rightarrow> bool) \<Rightarrow> (nat \<Rightarrow> cdata) \<Rightarrow> int \<Rightarrow> int \<Rightarrow> int \<Rightarrow> int \<Rightarrow> int \<Rightarrow> mem \<Rightarrow>
   'a cdstate_scheme \<Rightarrow> ('a cdstate_scheme \<times> int) option" where
  "allocate_clientdata avail junk offset type nelements0 index0 precision0 name st =
     (let nelements = norm_nelements type nelements0;
          index = norm_index type index0;
          precision = norm_precision type precision0
      in if nelements < 1 then Some (st, -1)
         else if index < -1 then Some (st, -1)
         else if index \<ge> nelements then Some (st, -1)
         else
           do {
             empty \<leftarrow> streq name [0];
             (if empty then Some (st, -1)
              else
                do {
                  found \<leftarrow> found_entry offset index name st;
                  (if found then
                     Some (st, if consistent_entry type nelements index precision
                                    (clientdata st ! nat offset) then 0 else -1)
                   else create_entry avail junk (nat offset) type nelements index precision name st)
                })
           })"

section \<open>Checking against X-Plane\<close>

text \<open>
  Return values: 0 the dataref or command is usable, 2 it is not (then the name holds the
  error text for the client), -1 there is no such entry.
\<close>

definition count_mismatch :: "'w xplm \<Rightarrow> 'w \<Rightarrow> cdata \<Rightarrow> nat \<Rightarrow> int option" where
  "count_mismatch X w c ref =
     (if cd_nelements c > 1 then
        (if cd_type c = XPTYPE_FLT_ARR then
           (if cd_nelements c \<noteq> XPLMCountDatavf X ref w then Some (XPLMCountDatavf X ref w) else None)
         else if cd_type c = XPTYPE_INT_ARR then
           (if cd_nelements c \<noteq> XPLMCountDatavi X ref w then Some (XPLMCountDatavi X ref w) else None)
         else None)
      else None)"

definition check_entry :: "'w xplm \<Rightarrow> 'w \<Rightarrow> cdata \<Rightarrow> cdata \<times> int" where
  "check_entry X w c =
     (if command_type (cd_type c) then
        (let ref = XPLMFindCommand X (cstr (cd_name c)) w; c = c\<lparr>cd_dataref := ref\<rparr>
         in if ref \<noteq> 0 then (c\<lparr>cd_write := 1\<rparr>, 0)
            else (c\<lparr>cd_name := snprintf_name (cd_name c)
                     (chars ''Command '' @ cstr (cd_name c) @ chars '' not found in X-Plane'')\<rparr>, 2))
      else
        (let ref = XPLMFindDataRef X (cstr (cd_name c)) w; c = c\<lparr>cd_dataref := ref\<rparr>
         in if XPLMIsDataRefGood X ref w then
              (let xptype = XPLMGetDataRefTypes X ref w
               in if Bit_Operations.and xptype (cd_type c) \<noteq> cd_type c then
                    (c\<lparr>cd_name := snprintf_name (cd_name c)
                       (chars ''Dataref differs in type: '' @ fmt_int (cd_type c) @
                        chars '' (client) vs. '' @ fmt_int xptype @ chars '' (X-Plane)'')\<rparr>, 2)
                  else case count_mismatch X w c ref of
                    Some k \<Rightarrow>
                      (c\<lparr>cd_name := snprintf_name (cd_name c)
                         (chars ''Dataref differs in # elements: '' @ fmt_int (cd_nelements c) @
                          chars '' (client) vs. '' @ fmt_int k @ chars '' (X-Plane)'')\<rparr>, 2)
                  | None \<Rightarrow> (c\<lparr>cd_write := XPLMCanWriteDataRef X ref w\<rparr>, 0))
            else (c\<lparr>cd_name := snprintf_name (cd_name c)
                     (chars ''Dataref '' @ cstr (cd_name c) @ chars '' not found in X-Plane'')\<rparr>, 2)))"

definition check_clientdata ::
  "'w xplm \<Rightarrow> 'w \<Rightarrow> int \<Rightarrow> 'a cdstate_scheme \<Rightarrow> 'a cdstate_scheme \<times> int" where
  "check_clientdata X w offset st =
     (if clientdata st \<noteq> [] \<and> offset < srv_numalloc st then
        (case check_entry X w (clientdata st ! nat offset) of
           (c, r) \<Rightarrow> (upd_entry (nat offset) (\<lambda>_. c) st, r))
      else (st, -1))"

section \<open>Deallocation and counting\<close>

definition dealloc_entry :: "cdata \<Rightarrow> cdata" where
  "dealloc_entry c = c\<lparr>cd_data := None, cd_type := XPTYPE_UNKNOWN, cd_nelements := INT_MISS,
     cd_index := INT_MISS, cd_precision := INT_MISS, cd_status := XPSTATUS_DEALLOC,
     cd_name := replicate NAMELEN 0\<rparr>"

definition deallocate_clientdata :: "int \<Rightarrow> 'a cdstate_scheme \<Rightarrow> 'a cdstate_scheme \<times> int" where
  "deallocate_clientdata offset st =
     (if clientdata st \<noteq> [] \<and> offset < srv_numalloc st
      then (upd_entry (nat offset) dealloc_entry st, 0) else (st, -1))"

definition clear_clientdata :: "'a cdstate_scheme \<Rightarrow> 'a cdstate_scheme" where
  "clear_clientdata st = st\<lparr>clientdata := []\<rparr>"

definition count_clientdata :: "'a cdstate_scheme \<Rightarrow> 'a cdstate_scheme" where
  "count_clientdata st =
     st\<lparr>srv_numlink := int (length (filter (\<lambda>c. cd_status c = XPSTATUS_VALID) (clientdata st)))\<rparr>"

end
