(* ===== verification/ClientTable.thy ===== *)
theory ClientTable
  imports ClientData ServerTable
begin

text \<open>
  The invariant of the plugin's table of linked datarefs, and the behaviour of its operations
  under it: allocation for a link request, the check against X-Plane, deallocation, counting.
\<close>

section \<open>Invariant\<close>

definition entry_ok :: "cdata \<Rightarrow> bool" where
  "entry_ok c \<longleftrightarrow> name_ok (cd_name c) \<and>
     (known_type (cd_type c) \<longrightarrow>
        dims_ok (cd_type c) (cd_nelements c) (cd_index c) \<and>
        block_ok (cd_type c) (cd_nelements c) (cd_index c) (cd_data c))"

definition entries_ok :: "'a cdstate_scheme \<Rightarrow> bool" where
  "entries_ok st \<longleftrightarrow> (\<forall>c \<in> set (clientdata st). entry_ok c)"

lemma entries_okD: "entries_ok st \<Longrightarrow> i < length (clientdata st) \<Longrightarrow> entry_ok (clientdata st ! i)"
  by (simp add: entries_ok_def)

lemma upd_entry_ok:
  assumes "entries_ok st" and "i < length (clientdata st) \<Longrightarrow> entry_ok (f (clientdata st ! i))"
  shows "entries_ok (upd_entry i f st)"
  using ball_upd [of "clientdata st" entry_ok i "f (clientdata st ! i)"] assms
  by (simp add: entries_ok_def upd_entry_def)

lemma upd_entry_simps [simp]:
  "length (clientdata (upd_entry i f st)) = length (clientdata st)"
  "i < length (clientdata st) \<Longrightarrow> clientdata (upd_entry i f st) ! i = f (clientdata st ! i)"
  "j \<noteq> i \<Longrightarrow> clientdata (upd_entry i f st) ! j = clientdata st ! j"
  by (simp_all add: upd_entry_def)

text \<open>The truncating \<open>snprintf\<close> leaves a terminated text in the name field.\<close>

lemma snprintf_name_ok: "length dst = NAMELEN \<Longrightarrow> name_ok (snprintf_name dst txt)"
  by (auto simp: name_ok_def snprintf_name_def Let_def)

lemma snprintf_name_cstr:
  assumes "0 \<notin> set txt"
  shows "cstr (snprintf_name dst txt) = take (NAMELEN - 1) txt"
proof -
  have "0 \<notin> set (take (NAMELEN - 1) txt)" using assms by (meson in_set_takeD)
  from cstr_append_nul [OF this] show ?thesis by (simp add: snprintf_name_def Let_def)
qed

section \<open>Allocation\<close>

text \<open>What a new entry holds.\<close>

definition fresh_entry :: "mem \<Rightarrow> int \<Rightarrow> int \<Rightarrow> int \<Rightarrow> int \<Rightarrow> cdata \<Rightarrow> bool" where
  "fresh_entry name t n i p c \<longleftrightarrow>
     cstr (cd_name c) = cstr name \<and> cd_type c = t \<and> cd_nelements c = n \<and> cd_index c = i \<and>
     cd_precision c = p \<and> cd_status c = XPSTATUS_ALLOC \<and> cd_data c = Some (init_block t n i)"

lemma create_entry_fresh:
  assumes ok: "entries_ok st" and name: "good_name name" and t: "known_type t" and d: "dims_ok t n idx"
    and mem: "\<And>n. avail n" and i: "i \<le> length (clientdata st)" and junk: "length (cd_name (junk i)) = NAMELEN"
  shows "\<exists>st'. create_entry avail junk i t n idx p name st = Some (st', 0) \<and> entries_ok st' \<and>
    length (clientdata st') = max (length (clientdata st)) (Suc i) \<and>
    fresh_entry name t n idx p (clientdata st' ! i) \<and>
    (\<forall>k < length (clientdata st). k \<noteq> i \<longrightarrow> clientdata st' ! k = clientdata st ! k)"
proof -
  let ?ext = "st\<lparr>clientdata := clientdata st @ map junk [length (clientdata st)..<Suc i]\<rparr>"
  let ?c = "clientdata ?ext ! i"
  have lx: "length (clientdata ?ext) = max (length (clientdata st)) (Suc i)" "i < length (clientdata ?ext)"
    using i by (auto simp: max_def)
  have nm: "length (cd_name ?c) = NAMELEN"
  proof (cases "i < length (clientdata st)")
    case True
    with entries_okD [OF ok this] show ?thesis by (simp add: nth_append entry_ok_def name_ok_def)
  next
    case False
    with i junk show ?thesis by (simp add: nth_append)
  qed
  have n2: "terminated name" "length (cstr name) < length (cd_name ?c)"
    using name nm by (simp_all add: good_name_def)
  obtain d' where d': "strcpy (cd_name ?c) name = Some d'" "cstr d' = cstr name" "name_ok d'"
    using strcpy_Some [OF n2] strcpy_result nm by (metis name_ok_def)
  let ?f1 = "\<lambda>c. c\<lparr>cd_status := XPSTATUS_UNINITIALIZED, cd_data := Some (init_block t n idx)\<rparr>"
  let ?f2 = "\<lambda>c. c\<lparr>cd_name := d', cd_status := XPSTATUS_ALLOC, cd_type := t, cd_nelements := n,
    cd_index := idx, cd_precision := p\<rparr>"
  let ?st' = "upd_entry i ?f2 (upd_entry i ?f1 ?ext)"
  have res: "create_entry avail junk i t n idx p name st = Some (?st', 0)"
    using mem alloc_block_known [OF t] d'(1) lx(2) by (simp add: create_entry_def Let_def)
  have at: "clientdata ?st' ! i = ?f2 (?f1 ?c)" using lx(2) by simp
  have other: "clientdata ?st' ! k = clientdata st ! k" if "k < length (clientdata st)" "k \<noteq> i" for k
    using that by (simp add: nth_append)
  have "entry_ok (clientdata ?st' ! k)" if "k < length (clientdata ?st')" for k
  proof (cases "k = i")
    case True
    with at d'(3) d show ?thesis by (simp add: entry_ok_def block_ok_def)
  next
    case False
    with that lx(1) i have "k < length (clientdata st)" by (auto simp: max_def split: if_splits)
    with False other entries_okD [OF ok] show ?thesis by simp
  qed
  then have "entries_ok ?st'" by (simp add: entries_ok_def all_set_conv_all_nth)
  moreover have "fresh_entry name t n idx p (clientdata ?st' ! i)"
    using at d'(2) by (simp add: fresh_entry_def)
  moreover have "length (clientdata ?st') = max (length (clientdata st)) (Suc i)"
    using lx(1) by (simp del: upt_Suc)
  ultimately show ?thesis using res other by blast
qed

text \<open>The entry that a request may reuse.\<close>

definition matching_entry :: "nat \<Rightarrow> int \<Rightarrow> mem \<Rightarrow> 'a cdstate_scheme \<Rightarrow> bool" where
  "matching_entry i idx name st \<longleftrightarrow> i < length (clientdata st) \<and>
     cstr name = cstr (cd_name (clientdata st ! i)) \<and> idx = cd_index (clientdata st ! i)"

lemma found_entry_matching:
  assumes "entries_ok st" and "terminated name"
  shows "found_entry (int i) idx name st = Some (matching_entry i idx name st)"
proof (cases "i < length (clientdata st)")
  case True
  with entries_okD [OF assms(1) True] assms(2) show ?thesis
    by (auto simp: found_entry_def srv_numalloc_def matching_entry_def entry_ok_def name_ok_def streq_terminated)
qed (auto simp: found_entry_def srv_numalloc_def matching_entry_def)

text \<open>C36: Allocation for a link request always returns and keeps the table well-formed: bad dimensions are
  refused; an entry with the same name and index is kept, and accepted only when the request agrees
  with it in type, size and precision; otherwise the entry is created with a block of missing values
  and no other entry changes.\<close>

theorem allocate_clientdata_correct:
  assumes "entries_ok st" and "good_name name" and "known_type t" and "in_i32 n0" and "\<forall>n. avail n"
    and "i \<le> length (clientdata st)" and "length (cd_name (junk i)) = NAMELEN"
  shows "\<exists>st' r. allocate_clientdata avail junk (int i) t n0 i0 p0 name st = Some (st', r) \<and> entries_ok st' \<and>
    (if \<not> valid_request t n0 i0 then r = -1 \<and> st' = st
     else if matching_entry i (norm_index t i0) name st then
       st' = st \<and> r = (if consistent_entry t (norm_nelements t n0) (norm_index t i0) (norm_precision t p0)
                             (clientdata st ! i) then 0 else -1)
     else r = 0 \<and>
       fresh_entry name t (norm_nelements t n0) (norm_index t i0) (norm_precision t p0) (clientdata st' ! i) \<and>
       length (clientdata st') = max (length (clientdata st)) (Suc i) \<and>
       (\<forall>k < length (clientdata st). k \<noteq> i \<longrightarrow> clientdata st' ! k = clientdata st ! k))"
proof (cases "valid_request t n0 i0")
  case False
  then have "allocate_clientdata avail junk (int i) t n0 i0 p0 name st = Some (st, -1)"
    by (auto simp: allocate_clientdata_def valid_request_def Let_def)
  with False assms(1) show ?thesis by simp
next
  case v: True
  have nm: "terminated name" "cstr name \<noteq> []" using assms(2) by (simp_all add: good_name_def)
  have eq: "allocate_clientdata avail junk (int i) t n0 i0 p0 name st =
      (if matching_entry i (norm_index t i0) name st
       then Some (st, if consistent_entry t (norm_nelements t n0) (norm_index t i0) (norm_precision t p0)
                             (clientdata st ! i) then 0 else -1)
       else create_entry avail junk i t (norm_nelements t n0) (norm_index t i0) (norm_precision t p0) name st)"
    using v found_entry_matching [OF assms(1) nm(1)] nm
    by (simp add: allocate_clientdata_def valid_request_def Let_def streq_terminated)
  show ?thesis
  proof (cases "matching_entry i (norm_index t i0) name st")
    case True
    with v eq assms(1) show ?thesis by simp
  next
    case False
    obtain st' where st': "create_entry avail junk i t (norm_nelements t n0) (norm_index t i0) (norm_precision t p0)
        name st = Some (st', 0)" "entries_ok st'"
      "length (clientdata st') = max (length (clientdata st)) (Suc i)"
      "fresh_entry name t (norm_nelements t n0) (norm_index t i0) (norm_precision t p0) (clientdata st' ! i)"
      "\<forall>k < length (clientdata st). k \<noteq> i \<longrightarrow> clientdata st' ! k = clientdata st ! k"
      using create_entry_fresh [where avail = avail and junk = junk and p = "norm_precision t p0",
        OF assms(1,2,3) valid_request_dims [OF v assms(4)] _ assms(6,7)] assms(5) by blast
    with v False eq show ?thesis by (intro exI [of _ st'] exI [of _ 0]) simp
  qed
qed

section \<open>Checking against X-Plane\<close>

text \<open>The error text for a check that failed, as the code formats it.\<close>

definition check_error :: "'w xplm \<Rightarrow> 'w \<Rightarrow> cdata \<Rightarrow> mem option" where
  "check_error X w c =
     (if command_type (cd_type c) then
        (if XPLMFindCommand X (cstr (cd_name c)) w \<noteq> 0 then None
         else Some (chars ''Command '' @ cstr (cd_name c) @ chars '' not found in X-Plane''))
      else
        (let ref = XPLMFindDataRef X (cstr (cd_name c)) w; xptype = XPLMGetDataRefTypes X ref w
         in if \<not> XPLMIsDataRefGood X ref w
            then Some (chars ''Dataref '' @ cstr (cd_name c) @ chars '' not found in X-Plane'')
            else if Bit_Operations.and xptype (cd_type c) \<noteq> cd_type c
            then Some (chars ''Dataref differs in type: '' @ fmt_int (cd_type c) @
                       chars '' (client) vs. '' @ fmt_int xptype @ chars '' (X-Plane)'')
            else map_option (\<lambda>k. chars ''Dataref differs in # elements: '' @ fmt_int (cd_nelements c) @
                       chars '' (client) vs. '' @ fmt_int k @ chars '' (X-Plane)'')
                   (count_mismatch X w c ref)))"

lemma count_mismatch_ref [simp]: "count_mismatch X w (c\<lparr>cd_dataref := r\<rparr>) ref = count_mismatch X w c ref"
  by (simp add: count_mismatch_def)

lemma check_error_no_nul: "check_error X w c = Some txt \<Longrightarrow> 0 \<notin> set txt"
  using cstr_no_nul [of "cd_name c"] fmt_int_no_nul
  by (auto simp: check_error_def Let_def chars_def split: if_splits)

lemma check_entry_error:
  "check_entry X w c =
     (let ref = (if command_type (cd_type c) then XPLMFindCommand X (cstr (cd_name c)) w
                 else XPLMFindDataRef X (cstr (cd_name c)) w)
      in case check_error X w c of
           None \<Rightarrow> (c\<lparr>cd_dataref := ref, cd_write :=
                      (if command_type (cd_type c) then 1 else XPLMCanWriteDataRef X ref w)\<rparr>, 0)
         | Some e \<Rightarrow> (c\<lparr>cd_dataref := ref, cd_name := snprintf_name (cd_name c) e\<rparr>, 2))"
  by (simp add: check_error_def check_entry_def Let_def split: option.split)

text \<open>The check accepts exactly the entries for which X-Plane has a command, or a dataref of a
  compatible type and the same number of elements; then the entry keeps its name and gets X-Plane's
  handle. Otherwise the name field holds the error text, cut off to fit and terminated. Neither
  touches the type, the dimensions, the status or the data.\<close>

lemma check_entry_correct:
  assumes "length (cd_name c) = NAMELEN" and "check_entry X w c = (c', r)"
  shows "(case check_error X w c of
        None \<Rightarrow> r = 0 \<and> cd_name c' = cd_name c \<and>
          cd_dataref c' = (if command_type (cd_type c) then XPLMFindCommand X (cstr (cd_name c)) w
                           else XPLMFindDataRef X (cstr (cd_name c)) w)
      | Some txt \<Rightarrow> r = 2 \<and> name_ok (cd_name c') \<and> cstr (cd_name c') = take (NAMELEN - 1) txt) \<and>
    cd_type c' = cd_type c \<and> cd_nelements c' = cd_nelements c \<and> cd_index c' = cd_index c \<and>
    cd_data c' = cd_data c \<and> cd_status c' = cd_status c"
proof -
  have nul: "cstr (snprintf_name (cd_name c) e) = take (NAMELEN - 1) e" if "check_error X w c = Some e" for e
    using snprintf_name_cstr [OF check_error_no_nul [OF that]] .
  show ?thesis
  proof (cases "check_error X w c")
    case None
    with assms(2) show ?thesis by (auto simp: check_entry_error Let_def)
  next
    case (Some e)
    with assms(2) nul [OF Some] snprintf_name_ok [OF assms(1), of e] show ?thesis
      by (auto simp: check_entry_error Let_def)
  qed
qed

section \<open>Deallocation and counting\<close>

lemma dealloc_entry_ok: "entry_ok (dealloc_entry c)"
  by (simp add: entry_ok_def dealloc_entry_def name_ok_def known_type_def)

lemma deallocate_ok: "entries_ok st \<Longrightarrow> entries_ok (fst (deallocate_clientdata offset st))"
  by (simp add: deallocate_clientdata_def upd_entry_ok dealloc_entry_ok)

lemma count_clientdata_ok [simp]:
  "entries_ok (count_clientdata st) = entries_ok st"
  "clientdata (count_clientdata st) = clientdata st"
  by (simp_all add: count_clientdata_def entries_ok_def)

end
