(* ===== verification/CustomData.thy ===== *)
theory CustomData
  imports ClientData
begin

text \<open>
  \<open>xpserver/src/customdata.c\<close>: datarefs that the plugin itself publishes in X-Plane, and the
  accessor callbacks through which X-Plane and other plugins read and write them.

  The world of the plugin is X-Plane's state together with the table \<open>customdata\<close>, which the
  callbacks read and write whenever X-Plane calls them. A refcon is \<open>NULL\<close> or the index of a
  table entry.
\<close>

section \<open>State\<close>

record custom =
  cu_name :: mem
  cu_type :: int
  cu_nelements :: int
  cu_data :: ptr

record 'x world =
  customdata :: "custom list option"
  plane :: 'x

abbreviation (input) MAXCUSTOMALLOC :: nat where "MAXCUSTOMALLOC \<equiv> 150"
abbreviation (input) CUSTOMDATA_STRUCT :: nat where "CUSTOMDATA_STRUCT \<equiv> 120"

definition upd_custom :: "nat \<Rightarrow> (custom \<Rightarrow> custom) \<Rightarrow> 'x world \<Rightarrow> 'x world" where
  "upd_custom i f w =
     w\<lparr>customdata := map_option (\<lambda>cs. cs[i := f (cs ! i)]) (customdata w)\<rparr>"

section \<open>Registration\<close>

text \<open>First entry with the given name, searched from \<open>i\<close> on; the empty name finds a free one.\<close>

fun find_custom :: "mem \<Rightarrow> nat \<Rightarrow> custom list \<Rightarrow> nat option option" where
  "find_custom name i [] = Some None"
| "find_custom name i (c # cs) =
     do {
       eq \<leftarrow> streq name (cu_name c);
       (if eq then Some (Some i) else find_custom name (Suc i) cs)
     }"

text \<open>\<open>NULL\<close> for types a custom dataref cannot have (commands among them).\<close>

definition alloc_custom_block :: "(nat \<Rightarrow> bool) \<Rightarrow> int \<Rightarrow> int \<Rightarrow> ptr option" where
  "alloc_custom_block avail type nelements =
     (if \<not> known_type type \<or> command_type type then Some None
      else if avail (block_size type nelements (-1))
           then Some (Some (init_block type nelements (-1)))
           else None)"

text \<open>The new dataref is set to the missing value through X-Plane.\<close>

definition reset_custom :: "('x world) xplm \<Rightarrow> int \<Rightarrow> int \<Rightarrow> nat \<Rightarrow> 'x world \<Rightarrow> 'x world" where
  "reset_custom X type nelements ref w =
     (if type = XPTYPE_INT then XPLMSetDatai X ref INT_MISS w
      else if type = XPTYPE_FLT then XPLMSetDataf X ref flt_miss w
      else if type = XPTYPE_DBL then XPLMSetDatad X ref dbl_miss w
      else if type = XPTYPE_INT_ARR then
        fold (\<lambda>j. XPLMSetDatavi X ref (enc_int INT_MISS) (int j) 1) [0..<nat nelements] w
      else if type = XPTYPE_FLT_ARR then
        fold (\<lambda>j. XPLMSetDatavf X ref flt_miss (int j) 1) [0..<nat nelements] w
      else fold (\<lambda>j. XPLMSetDatab X ref [0] (int j) 1) [0..<nat nelements] w)"

definition create_custom ::
  "(nat \<Rightarrow> bool) \<Rightarrow> ('x world) xplm \<Rightarrow> nat \<Rightarrow> int \<Rightarrow> int \<Rightarrow> mem \<Rightarrow> 'x world \<Rightarrow>
   ('x world \<times> int) option" where
  "create_custom avail X i type nelements name w =
     do {
       data \<leftarrow> alloc_custom_block avail type nelements;
       let w = upd_custom i (\<lambda>c. c\<lparr>cu_data := data\<rparr>) w;
       (if data = None then Some (w, -1)
        else
          do {
            cs \<leftarrow> customdata w;
            nm \<leftarrow> strcpy (cu_name (cs ! i)) name;
            let w = upd_custom i (\<lambda>c. c\<lparr>cu_name := nm, cu_type := type, cu_nelements := nelements\<rparr>) w;
            let (ref, w) = XPLMRegisterDataAccessor X (cstr name) type i w;
            Some (if XPLMIsDataRefGood X ref w then (reset_custom X type nelements ref w, 0)
                  else (w, -1))
          })
     }"

definition allocate_customdata ::
  "(nat \<Rightarrow> bool) \<Rightarrow> ('x world) xplm \<Rightarrow> custom \<Rightarrow> int \<Rightarrow> int \<Rightarrow> mem \<Rightarrow> 'x world \<Rightarrow>
   ('x world \<times> int) option" where
  "allocate_customdata avail X junk type nelements0 name w =
     (let nelements = norm_nelements type nelements0
      in if nelements < 1 then Some (w, -1)
         else
           do {
             empty \<leftarrow> streq name [0];
             (if empty then Some (w, -1)
              else if customdata w = None \<and> \<not> avail (CUSTOMDATA_STRUCT * MAXCUSTOMALLOC)
              then Some (w, -1)
              else
                do {
                  found \<leftarrow> (case customdata w of None \<Rightarrow> Some None | Some cs \<Rightarrow> find_custom name 0 cs);
                  let w = (case customdata w of
                             None \<Rightarrow> w\<lparr>customdata := Some (replicate MAXCUSTOMALLOC
                                        (junk\<lparr>cu_name := replicate NAMELEN 0\<rparr>))\<rparr>
                           | Some _ \<Rightarrow> w);
                  cs \<leftarrow> customdata w;
                  (case found of
                     Some i \<Rightarrow>
                       Some (w, if type \<noteq> cu_type (cs ! i) then 2
                                else if nelements \<noteq> cu_nelements (cs ! i) then 2 else 0)
                   | None \<Rightarrow>
                       do {
                         free \<leftarrow> find_custom [0] 0 cs;
                         (case free of
                            None \<Rightarrow> Some (w, -1)
                          | Some i \<Rightarrow> create_custom avail X i type nelements name w)
                       })
                })
           })"

section \<open>Accessor callbacks\<close>

text \<open>
  The entry a refcon points to with its data: \<open>Some None\<close> when the refcon or the data is
  \<open>NULL\<close>, undefined when it points outside the table.
\<close>

definition refcon_data :: "nat option \<Rightarrow> 'x world \<Rightarrow> (nat \<times> custom \<times> mem) option option" where
  "refcon_data refcon w =
     (case refcon of None \<Rightarrow> Some None
      | Some i \<Rightarrow>
          do {
            cs \<leftarrow> customdata w;
            (if i < length cs then Some (map_option (\<lambda>d. (i, cs ! i, d)) (cu_data (cs ! i))) else None)
          })"

definition GetDataiCB :: "nat option \<Rightarrow> 'x world \<Rightarrow> int option" where
  "GetDataiCB refcon w =
     do {
       p \<leftarrow> refcon_data refcon w;
       (case p of None \<Rightarrow> Some INT_MISS | Some (i, c, d) \<Rightarrow> read_int d 0)
     }"

definition set_bytes :: "mem \<Rightarrow> nat option \<Rightarrow> 'x world \<Rightarrow> 'x world option" where
  "set_bytes v refcon w =
     do {
       p \<leftarrow> refcon_data refcon w;
       (case p of
          None \<Rightarrow> Some w
        | Some (i, c, d) \<Rightarrow>
            do { d \<leftarrow> mem_write d 0 v; Some (upd_custom i (\<lambda>c. c\<lparr>cu_data := Some d\<rparr>) w) })
     }"

definition SetDataiCB :: "nat option \<Rightarrow> int \<Rightarrow> 'x world \<Rightarrow> 'x world option" where
  "SetDataiCB refcon inValue w = set_bytes (enc_int inValue) refcon w"

definition GetDatafCB :: "nat option \<Rightarrow> 'x world \<Rightarrow> mem option" where
  "GetDatafCB refcon w =
     do {
       p \<leftarrow> refcon_data refcon w;
       (case p of None \<Rightarrow> Some flt_miss | Some (i, c, d) \<Rightarrow> mem_read d 0 4)
     }"

definition SetDatafCB :: "nat option \<Rightarrow> mem \<Rightarrow> 'x world \<Rightarrow> 'x world option" where
  "SetDatafCB refcon inValue w = set_bytes inValue refcon w"

definition GetDatadCB :: "nat option \<Rightarrow> 'x world \<Rightarrow> mem option" where
  "GetDatadCB refcon w =
     do {
       p \<leftarrow> refcon_data refcon w;
       (case p of None \<Rightarrow> Some dbl_miss | Some (i, c, d) \<Rightarrow> mem_read d 0 8)
     }"

definition SetDatadCB :: "nat option \<Rightarrow> mem \<Rightarrow> 'x world \<Rightarrow> 'x world option" where
  "SetDatadCB refcon inValue w = set_bytes inValue refcon w"

text \<open>
  The array callbacks differ only in the element size \<open>es\<close>. A read with a \<open>NULL\<close> buffer
  returns the number of elements; the values are the elements copied out.
\<close>

definition copied :: "custom \<Rightarrow> int \<Rightarrow> int \<Rightarrow> int" where
  "copied c inOffset inMax =
     (let r = cu_nelements c - inOffset in if r > inMax then inMax else r)"

definition get_array ::
  "nat \<Rightarrow> nat option \<Rightarrow> bool \<Rightarrow> int \<Rightarrow> int \<Rightarrow> 'x world \<Rightarrow> (int \<times> mem) option" where
  "get_array es refcon outNull inOffset inMax w =
     do {
       p \<leftarrow> refcon_data refcon w;
       (case p of
          None \<Rightarrow> Some (0, [])
        | Some (i, c, d) \<Rightarrow>
            (if outNull then Some (cu_nelements c, [])
             else
               (let r = copied c inOffset inMax
                in if r \<le> 0 then Some (r, [])
                   else map_option (\<lambda>v. (r, v)) (mem_read d (inOffset * int es) (nat r * es)))))
     }"

definition set_array ::
  "nat \<Rightarrow> nat option \<Rightarrow> mem \<Rightarrow> int \<Rightarrow> int \<Rightarrow> 'x world \<Rightarrow> 'x world option" where
  "set_array es refcon inValues inOffset inMax w =
     do {
       p \<leftarrow> refcon_data refcon w;
       (case p of
          None \<Rightarrow> Some w
        | Some (i, c, d) \<Rightarrow>
            (let r = copied c inOffset inMax
             in if r \<le> 0 then Some w
                else
                  do {
                    v \<leftarrow> mem_read inValues 0 (nat r * es);
                    d \<leftarrow> mem_write d (inOffset * int es) v;
                    Some (upd_custom i (\<lambda>c. c\<lparr>cu_data := Some d\<rparr>) w)
                  }))
     }"

definition GetDataviCB where "GetDataviCB = get_array 4"
definition SetDataviCB where "SetDataviCB = set_array 4"
definition GetDatavfCB where "GetDatavfCB = get_array 4"
definition SetDatavfCB where "SetDatavfCB = set_array 4"
definition GetDatabCB where "GetDatabCB = get_array 1"
definition SetDatabCB where "SetDatabCB = set_array 1"

end
