(* ===== verification/HandleClient.thy ===== *)
theory HandleClient
  imports HandleServer CustomData
begin

text \<open>
  \<open>xpserver/src/handleclient.c\<close>: the plugin's side of the protocol. Transmissions from a
  client change its table and drive X-Plane; changed X-Plane data is sent back.

  The protocol markers, socket events and the transmission buffer are those of
  \<open>HandleServer\<close> (the two programs define the same constants). The receive
  buffer is a local array, so that it starts with arbitrary contents, an argument.
\<close>

section \<open>State\<close>

abbreviation (input) srv_Ready :: int where "srv_Ready \<equiv> 1"
abbreviation (input) srv_Connected :: int where "srv_Connected \<equiv> 3"
abbreviation (input) srv_Disconnected :: int where "srv_Disconnected \<equiv> 4"
abbreviation (input) srv_Error :: int where "srv_Error \<equiv> 5"

record 'x server = cdstate +
  srv_status :: int
  env :: "'x world"

text \<open>What the C library gives the program: whether an allocation succeeds, the contents of a
  fresh heap block, of the memory added by \<open>realloc\<close> and of fresh custom entries.\<close>

record heap =
  avail :: "nat \<Rightarrow> bool"
  fresh :: "nat \<Rightarrow> byte"
  junk_entry :: "nat \<Rightarrow> cdata"
  junk_custom :: custom

section \<open>Shutdown\<close>

definition close_client :: "send_event list \<Rightarrow> 'x server \<Rightarrow> ('x server \<times> mem) option" where
  "close_client evs st =
     (if srv_status st = srv_Connected then
        do {
          (sent, ok) \<leftarrow> exit_send [] evs (enc_int MARK_DISCONNECT);
          Some (if ok then st else st\<lparr>srv_status := srv_Error\<rparr>, sent)
        }
      else Some (st, []))"

section \<open>Receiving\<close>

fun srv_recv_loop ::
  "'x server \<Rightarrow> mem \<Rightarrow> nat \<Rightarrow> recv_event list \<Rightarrow>
   ('x server \<times> mem \<times> nat \<times> recv_event list) option" where
  "srv_recv_loop st buf n evs =
     (if srv_status st \<noteq> srv_Connected then Some (st, buf, n, evs)
      else case evs of
        [] \<Rightarrow> None
      | RFail e # evs' \<Rightarrow>
          (if e = EWOULDBLOCK then
             (if n = 0 then Some (st, buf, n, evs') else srv_recv_loop st buf n evs')
           else if e = CONNLOST then Some (st\<lparr>srv_status := srv_Disconnected\<rparr>, buf, 0, evs')
           else Some (st\<lparr>srv_status := srv_Error\<rparr>, buf, 0, evs'))
      | RData bs # evs' \<Rightarrow>
          (if bs = [] then Some (st\<lparr>srv_status := srv_Disconnected\<rparr>, buf, 0, evs')
           else if TCPBUFSIZE < int (n + length bs) then None
           else
             do {
               buf \<leftarrow> mem_write buf (int n) bs;
               datai \<leftarrow> read_int buf (int (n + length bs) - 4);
               (if datai = MARK_EOT \<or> datai = MARK_DISCONNECT
                then Some (st, buf, n + length bs, evs')
                else srv_recv_loop st buf (n + length bs) evs')
             }))"

declare srv_recv_loop.simps [simp del]

text \<open>What a received element does to X-Plane; \<open>idx\<close> is the index within an array.\<close>

definition set_xplane :: "('x world) xplm \<Rightarrow> int \<Rightarrow> nat \<Rightarrow> int \<Rightarrow> mem \<Rightarrow> 'x world \<Rightarrow> 'x world" where
  "set_xplane X t ref idx v w =
     (if t = XPTYPE_INT then XPLMSetDatai X ref (dec_int v) w
      else if t = XPTYPE_FLT then XPLMSetDataf X ref v w
      else if t = XPTYPE_DBL then XPLMSetDatad X ref v w
      else if t = XPTYPE_FLT_ARR then XPLMSetDatavf X ref v idx 1 w
      else if t = XPTYPE_INT_ARR then XPLMSetDatavi X ref v idx 1 w
      else if t = XPTYPE_BYTE_ARR then XPLMSetDatab X ref v idx 1 w
      else if t = XPTYPE_CMD_ONCE then
        (if dec_int v = 1 then XPLMCommandOnce X ref w else w)
      else (if dec_int v = 1 then XPLMCommandBegin X ref w else XPLMCommandEnd X ref w))"

fun apply_elems ::
  "('x world) xplm \<Rightarrow> cdata \<Rightarrow> nat \<Rightarrow> nat \<Rightarrow> mem \<Rightarrow> ptr \<times> 'x world \<Rightarrow> (ptr \<times> 'x world) option" where
  "apply_elems X c j 0 payload s = Some s"
| "apply_elems X c j (Suc k) payload s =
     do {
       let t = cd_type c;
       v \<leftarrow> mem_read payload (int (j * elem_size t)) (elem_size t);
       s \<leftarrow> (if is_miss t v then Some s
             else do {
               p \<leftarrow> ptr_write (fst s) (int (j * elem_size t)) v;
               Some (p, set_xplane X t (cd_dataref c)
                          (if cd_index c = -1 then int j else cd_index c) v (snd s))
             });
       apply_elems X c (Suc j) k payload s
     }"

text \<open>Datarefs have to be valid and writable, commands only valid.\<close>

definition writable :: "cdata \<Rightarrow> bool" where
  "writable c \<longleftrightarrow> cd_status c = XPSTATUS_VALID \<and> (command_type (cd_type c) \<or> cd_write c = 1)"

definition srv_recv_data ::
  "heap \<Rightarrow> ('x world) xplm \<Rightarrow> mem \<Rightarrow> int \<Rightarrow> int \<Rightarrow> int \<Rightarrow> 'x server \<Rightarrow> ('x server \<times> int) option" where
  "srv_recv_data H X buf tot left offset st =
     (if clientdata st \<noteq> [] \<and> offset < srv_numalloc st \<and>
         known_type (cd_type (clientdata st ! nat offset)) then
        (let i = nat offset; c = clientdata st ! i;
             n = elem_count (cd_type c) (cd_nelements c) (cd_index c);
             need = to_size (n * int (elem_size (cd_type c)))
         in if need \<le> to_size left then
              do {
                st \<leftarrow> (if writable c \<and> (scalar_type (cd_type c) \<or> avail H (nat need)) then
                         do {
                           v \<leftarrow> mem_read buf (tot - left) (nat need);
                           (p, w) \<leftarrow> apply_elems X c 0 (nat n) v (cd_data c, env st);
                           Some (upd_entry i (\<lambda>c. c\<lparr>cd_data := p\<rparr>) (st\<lparr>env := w\<rparr>))
                         }
                       else Some st);
                Some (st, wrap32 (left - need))
              }
            else Some (st, 0))
      else Some (st, left))"

text \<open>
  Names that start with the package name belong to custom datarefs, which are registered in
  X-Plane first. A failed check leaves an error text in the name and a \<open>NULL\<close> handle; the
  entry then waits in status \<open>LINK\<close> until the text has been sent.
\<close>

definition link_check ::
  "heap \<Rightarrow> ('x world) xplm \<Rightarrow> int \<Rightarrow> int \<Rightarrow> int \<Rightarrow> mem \<Rightarrow> 'x server \<Rightarrow> ('x server \<times> int) option" where
  "link_check H X offset type nelements name st =
     do {
       own \<leftarrow> strneq 8 name (chars ''xpserver'');
       (if own then
          do {
            (w, r) \<leftarrow> allocate_customdata (avail H) X (junk_custom H) type nelements name (env st);
            let st = st\<lparr>env := w\<rparr>;
            Some (if r = 0 then check_clientdata X (env st) offset st
                  else if r = 2 then
                    (upd_entry (nat offset) (\<lambda>c. c\<lparr>cd_name := snprintf_name (cd_name c)
                       (chars ''Custom Dataref differs in # elements '' @ fmt_int (cd_nelements c) @
                        chars '' or Type '' @ fmt_int (cd_type c) @
                        chars '' from already allocated Custom Dataref'')\<rparr>) st, r)
                  else (st, r))
          }
        else Some (check_clientdata X (env st) offset st))
     }"

definition link_request ::
  "heap \<Rightarrow> ('x world) xplm \<Rightarrow> int \<Rightarrow> int \<Rightarrow> int \<Rightarrow> int \<Rightarrow> int \<Rightarrow> mem \<Rightarrow> 'x server \<Rightarrow>
   'x server option" where
  "link_request H X offset type nelements index precision name st =
     do {
       (st, r) \<leftarrow> allocate_clientdata (avail H) (junk_entry H) offset type nelements index precision
                    name st;
       (if r = 0 then
          do {
            (st, r) \<leftarrow> link_check H X offset type nelements name st;
            Some (if r = 2 then upd_entry (nat offset)
                                  (\<lambda>c. c\<lparr>cd_dataref := 0, cd_status := XPSTATUS_LINK\<rparr>) st
                  else if r = 0 then upd_entry (nat offset) (\<lambda>c. c\<lparr>cd_status := XPSTATUS_LINK\<rparr>) st
                  else st)
          }
        else Some st)
     }"

definition srv_recv_link ::
  "heap \<Rightarrow> ('x world) xplm \<Rightarrow> mem \<Rightarrow> int \<Rightarrow> int \<Rightarrow> int \<Rightarrow> 'x server \<Rightarrow> ('x server \<times> int) option" where
  "srv_recv_link H X buf tot left offset st =
     (if int (4 * 4 + NAMELEN + NAMELEN) \<le> to_size left then
        do {
          let pos = tot - left;
          type \<leftarrow> read_int buf pos;
          nelements \<leftarrow> read_int buf (pos + 4);
          index \<leftarrow> read_int buf (pos + 8);
          precision \<leftarrow> read_int buf (pos + 12);
          name \<leftarrow> mem_read buf (pos + 16) NAMELEN;
          cname \<leftarrow> mem_read buf (pos + 16 + int NAMELEN) NAMELEN;
          st \<leftarrow> link_request H X offset type nelements index precision name
                  (st\<lparr>srv_clientname := cname\<rparr>);
          Some (st, left - int (4 * 4 + NAMELEN + NAMELEN))
        }
      else Some (st, 0))"

text \<open>The entry to unlink is addressed without testing that it exists.\<close>

definition srv_recv_unlink ::
  "mem \<Rightarrow> int \<Rightarrow> int \<Rightarrow> int \<Rightarrow> 'x server \<Rightarrow> ('x server \<times> int) option" where
  "srv_recv_unlink buf tot left offset st =
     (if int (4 + NAMELEN) \<le> to_size left then
        do {
          name \<leftarrow> mem_read buf (tot - left) NAMELEN;
          (if offset < srv_numalloc st
           then Some (upd_entry (nat offset) (\<lambda>c. c\<lparr>cd_status := XPSTATUS_UNLINK\<rparr>) st,
                      left - int NAMELEN)
           else None)
        }
      else Some (st, 0))"

definition srv_recv_message ::
  "heap \<Rightarrow> ('x world) xplm \<Rightarrow> mem \<Rightarrow> int \<Rightarrow> int \<Rightarrow> 'x server \<Rightarrow> ('x server \<times> int) option" where
  "srv_recv_message H X buf tot left0 st =
     do {
       first \<leftarrow> read_int buf (tot - left0);
       let left = left0 - 4;
       (st, left) \<leftarrow>
         (if first \<ge> MARK_DATA \<and> first < MARK_LINK
          then srv_recv_data H X buf tot left (first - MARK_DATA) st
          else if first \<ge> MARK_LINK \<and> first < MARK_UNLINK
          then srv_recv_link H X buf tot left (first - MARK_LINK) st
          else if first \<ge> MARK_UNLINK \<and> first < MARK_EOT
          then srv_recv_unlink buf tot left (first - MARK_UNLINK) st
          else Some (st, left));
       Some (if first = MARK_DISCONNECT then st\<lparr>srv_status := srv_Disconnected\<rparr> else st, left)
     }"

partial_function (option) srv_recv_messages ::
  "heap \<Rightarrow> ('x world) xplm \<Rightarrow> mem \<Rightarrow> int \<Rightarrow> int \<Rightarrow> 'x server \<Rightarrow> 'x server option" where
  "srv_recv_messages H X buf tot left st =
     (if left > 0 then
        do {
          (st, left) \<leftarrow> srv_recv_message H X buf tot left st;
          srv_recv_messages H X buf tot left st
        }
      else Some st)"

definition receive_client ::
  "heap \<Rightarrow> ('x world) xplm \<Rightarrow> mem \<Rightarrow> recv_event list \<Rightarrow> 'x server \<Rightarrow>
   ('x server \<times> recv_event list) option" where
  "receive_client H X buf evs st =
     do {
       (st, buf, n, evs) \<leftarrow> srv_recv_loop st (buf[0 := 0]) 0 evs;
       st \<leftarrow> srv_recv_messages H X buf (int n) (int n) st;
       Some (st, evs)
     }"

section \<open>Sending\<close>

text \<open>The outcome of the validity check, and the confirmation of an unlink request.\<close>

definition srv_send_link :: "nat \<Rightarrow> 'x server \<Rightarrow> mem \<Rightarrow> ('x server \<times> mem) option" where
  "srv_send_link i st out =
     (if int (length out + 4 + NAMELEN) \<le> TCPBUFSIZE then
        do {
          let c = clientdata st ! i;
          name \<leftarrow> mem_read (cd_name c) 0 NAMELEN;
          out \<leftarrow> put out (enc_int (MARK_LINK + int i));
          out \<leftarrow> put out name;
          Some (if cd_dataref c \<noteq> 0
                then count_clientdata (upd_entry i (\<lambda>c. c\<lparr>cd_status := XPSTATUS_VALID\<rparr>) st)
                else fst (deallocate_clientdata (int i) st), out)
        }
      else Some (st, out))"

definition srv_send_unlink :: "nat \<Rightarrow> 'x server \<Rightarrow> mem \<Rightarrow> ('x server \<times> mem) option" where
  "srv_send_unlink i st out =
     (if int (length out + 4 + NAMELEN) \<le> TCPBUFSIZE then
        do {
          let c = clientdata st ! i;
          name \<leftarrow> mem_read (cd_name c) 0 NAMELEN;
          out \<leftarrow> put out (enc_int (MARK_UNLINK + int i));
          out \<leftarrow> put out name;
          Some (count_clientdata (fst (deallocate_clientdata (int i) st)), out)
        }
      else Some (st, out))"

text \<open>
  The current value of an entry as X-Plane reports it. An array is read into a fresh block;
  elements that X-Plane does not provide are missing when the whole array is transferred, and
  what the block happened to hold when a single element is.
\<close>

definition array_block :: "heap \<Rightarrow> int \<Rightarrow> bool \<Rightarrow> nat \<Rightarrow> mem \<Rightarrow> mem option" where
  "array_block H t whole n vs =
     (if n * elem_size t < length vs then None
      else Some (if whole
                 then vs @ concat (replicate (n - length vs div elem_size t) (init_elem t))
                 else vs @ map (fresh H) [length vs..<n * elem_size t]))"

definition get_xplane ::
  "heap \<Rightarrow> ('x world) xplm \<Rightarrow> cdata \<Rightarrow> 'x world \<Rightarrow> mem option" where
  "get_xplane H X c w =
     (let t = cd_type c; ref = cd_dataref c; whole = (cd_index c = -1);
          n = nat (elem_count t (cd_nelements c) (cd_index c));
          start = (if whole then 0 else cd_index c)
      in if t = XPTYPE_INT then Some (enc_int (XPLMGetDatai X ref w))
         else if t = XPTYPE_FLT then Some (XPLMGetDataf X ref w)
         else if t = XPTYPE_DBL then Some (XPLMGetDatad X ref w)
         else if t = XPTYPE_FLT_ARR
         then array_block H t whole n (XPLMGetDatavf X ref start (int n) w)
         else if t = XPTYPE_INT_ARR
         then array_block H t whole n (XPLMGetDatavi X ref start (int n) w)
         else array_block H t whole n (XPLMGetDatab X ref start (int n) w))"

definition srv_send_data ::
  "heap \<Rightarrow> ('x world) xplm \<Rightarrow> nat \<Rightarrow> cdata \<Rightarrow> 'x world \<Rightarrow> mem \<Rightarrow> (cdata \<times> mem) option" where
  "srv_send_data H X i c w out =
     (let t = cd_type c;
          n = nat (elem_count t (cd_nelements c) (cd_index c)); len = n * elem_size t
      in if \<not> known_type t \<or> command_type t \<or> (\<not> scalar_type t \<and> \<not> avail H len) then Some (c, out)
         else
           do {
             v \<leftarrow> get_xplane H X c w;
             data \<leftarrow> cd_data c;
             changed \<leftarrow> blocks_changed t (cd_precision c) n data v;
             (if changed \<and> int (length out + 2 * 4 + len) \<le> TCPBUFSIZE then
                do {
                  out \<leftarrow> put out (enc_int (MARK_DATA + int i));
                  v \<leftarrow> mem_read v 0 len;
                  out \<leftarrow> put out v;
                  data \<leftarrow> mem_write data 0 v;
                  Some (c\<lparr>cd_data := Some data\<rparr>, out)
                }
              else Some (c, out))
           })"

definition srv_send_entry ::
  "heap \<Rightarrow> ('x world) xplm \<Rightarrow> nat \<Rightarrow> 'x server \<Rightarrow> mem \<Rightarrow> ('x server \<times> mem) option" where
  "srv_send_entry H X i st out =
     do {
       let c = clientdata st ! i;
       e \<leftarrow> streq [0] (cd_name c);
       (if e then Some (st, out)
        else if cd_status c = XPSTATUS_LINK then srv_send_link i st out
        else if cd_status c = XPSTATUS_UNLINK then srv_send_unlink i st out
        else if cd_status c = XPSTATUS_VALID then
          do {
            (c, out) \<leftarrow> srv_send_data H X i c (env st) out;
            Some (upd_entry i (\<lambda>_. c) st, out)
          }
        else Some (st, out))
     }"

fun srv_send_entries ::
  "heap \<Rightarrow> ('x world) xplm \<Rightarrow> nat list \<Rightarrow> 'x server \<Rightarrow> mem \<Rightarrow> ('x server \<times> mem) option" where
  "srv_send_entries H X [] st out = Some (st, out)"
| "srv_send_entries H X (i # is) st out =
     do {
       (st, out) \<leftarrow> srv_send_entry H X i st out;
       srv_send_entries H X is st out
     }"

definition send_client ::
  "heap \<Rightarrow> ('x world) xplm \<Rightarrow> send_event list \<Rightarrow> 'x server \<Rightarrow>
   ('x server \<times> mem \<times> send_event list) option" where
  "send_client H X evs st =
     (if srv_status st = srv_Connected \<and> clientdata st \<noteq> [] then
        do {
          (st, out) \<leftarrow> srv_send_entries H X [0..<length (clientdata st)] st [];
          (if out = [] then Some (st, [], evs)
           else
             do {
               out \<leftarrow> put out (enc_int MARK_EOT);
               (sent, ok, evs) \<leftarrow> send_loop [] out evs;
               Some (if ok then st else st\<lparr>srv_status := srv_Error\<rparr>, sent, evs)
             })
        }
      else Some (st, [], evs))"

end
