(* ===== verification/PluginProtocol.thy ===== *)
theory PluginProtocol
  imports Requests ClientTable HandleClient
begin

text \<open>
  The plugin's receiver does what the client's messages say, one after the other; and a link
  request makes its way from the client's table to the plugin's table and back.
\<close>

section \<open>What a message means for the plugin\<close>

definition entry_elems :: "cdata \<Rightarrow> nat" where
  "entry_elems c = nat (elem_count (cd_type c) (cd_nelements c) (cd_index c))"

definition entry_size :: "cdata \<Rightarrow> nat" where
  "entry_size c = block_size (cd_type c) (cd_nelements c) (cd_index c)"

text \<open>The elements of a received block, set in X-Plane one by one.\<close>

fun set_elems :: "('x world) xplm \<Rightarrow> cdata \<Rightarrow> nat \<Rightarrow> nat \<Rightarrow> mem \<Rightarrow> 'x world \<Rightarrow> 'x world" where
  "set_elems X c j 0 v w = w"
| "set_elems X c j (Suc k) v w =
     (let e = take (elem_size (cd_type c)) v
      in set_elems X c (Suc j) k (drop (elem_size (cd_type c)) v)
           (if is_miss (cd_type c) e then w
            else set_xplane X (cd_type c) (cd_dataref c) (if cd_index c = -1 then int j else cd_index c) e w))"

definition apply_data :: "('x world) xplm \<Rightarrow> nat \<Rightarrow> mem \<Rightarrow> 'x server \<Rightarrow> 'x server" where
  "apply_data X i v st =
     (let c = clientdata st ! i
      in if writable c
         then upd_entry i (\<lambda>c. c\<lparr>cd_data := map_option (merge_elems (cd_type c) (entry_elems c) v) (cd_data c)\<rparr>)
                (st\<lparr>env := set_elems X c 0 (entry_elems c) v (env st)\<rparr>)
         else st)"

fun apply_cmsg :: "heap \<Rightarrow> ('x world) xplm \<Rightarrow> cmsg \<Rightarrow> 'x server \<Rightarrow> 'x server option" where
  "apply_cmsg H X (CLink i t n idx p name cn) st =
     link_request H X (int i) t n idx p name (st\<lparr>srv_clientname := cn\<rparr>)"
| "apply_cmsg H X (CUnlink i name) st = Some (upd_entry i (\<lambda>c. c\<lparr>cd_status := XPSTATUS_UNLINK\<rparr>) st)"
| "apply_cmsg H X (CData i v) st = Some (apply_data X i v st)"

text \<open>A message that the plugin can make sense of in its present state.\<close>

fun plugin_accepts :: "'x server \<Rightarrow> cmsg \<Rightarrow> bool" where
  "plugin_accepts st (CLink i t n idx p name cn) \<longleftrightarrow> i < 1000000 \<and> in_i32 t \<and> in_i32 n \<and> in_i32 idx \<and> in_i32 p \<and>
     length name = NAMELEN \<and> length cn = NAMELEN"
| "plugin_accepts st (CUnlink i name) \<longleftrightarrow> i < 1000000 \<and> length name = NAMELEN \<and> i < length (clientdata st)"
| "plugin_accepts st (CData i v) \<longleftrightarrow> i < 1000000 \<and> i < length (clientdata st) \<and>
     known_type (cd_type (clientdata st ! i)) \<and> entry_ok (clientdata st ! i) \<and>
     length v = entry_size (clientdata st ! i)"

text \<open>A sequence of messages; \<open>None\<close> when one of them cannot be made sense of.\<close>

fun run_cmsgs :: "heap \<Rightarrow> ('x world) xplm \<Rightarrow> cmsg list \<Rightarrow> 'x server \<Rightarrow> 'x server option" where
  "run_cmsgs H X [] st = Some st"
| "run_cmsgs H X (m # ms) st =
     (if plugin_accepts st m then do { st \<leftarrow> apply_cmsg H X m st; run_cmsgs H X ms st } else None)"

section \<open>Receiving one message\<close>

lemma apply_elems_set:
  assumes "length pre = j * elem_size (cd_type c)" and "length vpre = j * elem_size (cd_type c)"
    and "length v = k * elem_size (cd_type c)" and "length b = k * elem_size (cd_type c)"
  shows "apply_elems X c j k (vpre @ v) (Some (pre @ b), w) =
    Some (Some (pre @ merge_elems (cd_type c) k v b), set_elems X c j k v w)"
  using assms
proof (induction k arbitrary: j pre vpre v b w)
  case (Suc k)
  let ?es = "elem_size (cd_type c)"
  let ?e = "take ?es v"
  let ?d = "if is_miss (cd_type c) ?e then take ?es b else ?e"
  let ?w = "if is_miss (cd_type c) ?e then w
    else set_xplane X (cd_type c) (cd_dataref c) (if cd_index c = -1 then int j else cd_index c) ?e w"
  have lv: "length ?e = ?es" "length (take ?es b) = ?es" using Suc.prems by simp_all
  have r: "mem_read (vpre @ v) (int (j * ?es)) ?es = Some ?e"
    using mem_read_append [OF Suc.prems(2) lv(1), of "drop ?es v"] by simp
  have wr: "mem_write (pre @ b) (int (j * ?es)) ?e = Some (pre @ ?e @ drop ?es b)"
    using mem_write_append [OF Suc.prems(1), of "take ?es b" ?e "drop ?es b"] lv by simp
  have IH: "apply_elems X c (Suc j) k ((vpre @ ?e) @ drop ?es v) (Some ((pre @ ?d) @ drop ?es b), ?w) =
      Some (Some ((pre @ ?d) @ merge_elems (cd_type c) k (drop ?es v) (drop ?es b)),
            set_elems X c (Suc j) k (drop ?es v) ?w)"
    by (rule Suc.IH) (use Suc.prems lv in auto)
  show ?case
    using IH r wr by (cases "is_miss (cd_type c) ?e") (simp_all add: ptr_write_def Let_def)
qed simp

lemma apply_block:
  "length v = k * elem_size (cd_type c) \<Longrightarrow> length b = k * elem_size (cd_type c) \<Longrightarrow>
   apply_elems X c 0 k v (Some b, w) = Some (Some (merge_elems (cd_type c) k v b), set_elems X c 0 k v w)"
  using apply_elems_set [of "[]" 0 c "[]" v k b X w] by simp

lemma entry_size_elems: "entry_size c = entry_elems c * elem_size (cd_type c)"
  by (simp add: entry_size_def entry_elems_def block_size_def)

lemma upd_entry_env: "upd_entry i (\<lambda>c. c\<lparr>cd_data := p\<rparr>) st = upd_entry i (\<lambda>_. (clientdata st ! i)\<lparr>cd_data := p\<rparr>) st"
  by (simp add: upd_entry_def)

lemma srv_recv_data_apply:
  assumes m: "plugin_accepts st (CData i v)" and mem: "\<And>n. avail H n"
    and tot: "tot = int (length pre) + left" and left: "int (length v) \<le> left" and small: "left < 2147483648"
  shows "srv_recv_data H X (pre @ v @ post) tot left (int i) st =
    Some (apply_data X i v st, left - int (length v))"
proof -
  let ?c = "clientdata st ! i"
  let ?n = "elem_count (cd_type ?c) (cd_nelements ?c) (cd_index ?c)"
  have i: "i < length (clientdata st)" and t: "known_type (cd_type ?c)" and v: "length v = entry_size ?c"
    and ok: "entry_ok ?c" using m by simp_all
  from ok t have d: "dims_ok (cd_type ?c) (cd_nelements ?c) (cd_index ?c)" by (simp add: entry_ok_def)
  from ok t obtain b where b: "cd_data ?c = Some b" "length b = entry_size ?c"
    by (auto simp: entry_ok_def block_ok_def entry_size_def split: option.splits)
  have need: "to_size (?n * int (elem_size (cd_type ?c))) = int (length v)"
    using need_size [OF d] v by (simp add: entry_size_def)
  have read: "mem_read (pre @ v @ post) (tot - left) (length v) = Some v"
    using mem_read_append [of pre "length pre" v "length v" post] tot by simp
  have ap: "apply_elems X ?c 0 (nat ?n) v (Some b, env st) =
      Some (Some (merge_elems (cd_type ?c) (entry_elems ?c) v b), set_elems X ?c 0 (entry_elems ?c) v (env st))"
    using apply_block [of v "nat ?n" ?c b X "env st"] v b entry_size_elems [of ?c] by (simp add: entry_elems_def)
  have "to_size left = left" "wrap32 (left - int (length v)) = left - int (length v)"
    using left small by (simp_all add: in_i32_def)
  with need left read ap b mem i t show ?thesis
    by (auto simp: srv_recv_data_def srv_numalloc_def Let_def apply_data_def upd_entry_def)
qed

lemma srv_recv_link_apply:
  assumes m: "plugin_accepts st (CLink i t n idx p name cn)"
    and tot: "tot = int (length pre) + left" and left: "int (4 * 4 + NAMELEN + NAMELEN) \<le> left"
    and small: "left < 2147483648"
  shows "srv_recv_link H X (pre @ enc_int t @ enc_int n @ enc_int idx @ enc_int p @ name @ cn @ post) tot left (int i) st =
    map_option (\<lambda>st. (st, left - int (4 * 4 + NAMELEN + NAMELEN)))
      (apply_cmsg H X (CLink i t n idx p name cn) st)"
proof -
  let ?buf = "pre @ enc_int t @ enc_int n @ enc_int idx @ enc_int p @ name @ cn @ post"
  have pos: "tot - left = int (length pre)" using tot by simp
  have r: "read_int ?buf (int (length pre)) = Some t"
    "read_int ?buf (int (length pre) + 4) = Some n"
    "read_int ?buf (int (length pre) + 8) = Some idx"
    "read_int ?buf (int (length pre) + 12) = Some p"
    "mem_read ?buf (int (length pre) + 16) NAMELEN = Some name"
    "mem_read ?buf (int (length pre) + 16 + int NAMELEN) NAMELEN = Some cn"
    using m read_int_append [of pre "length pre" t "enc_int n @ enc_int idx @ enc_int p @ name @ cn @ post"]
      read_int_append [of "pre @ enc_int t" "length pre + 4" n "enc_int idx @ enc_int p @ name @ cn @ post"]
      read_int_append [of "pre @ enc_int t @ enc_int n" "length pre + 8" idx "enc_int p @ name @ cn @ post"]
      read_int_append [of "pre @ enc_int t @ enc_int n @ enc_int idx" "length pre + 12" p "name @ cn @ post"]
      mem_read_append [of "pre @ enc_int t @ enc_int n @ enc_int idx @ enc_int p" "length pre + 16" name NAMELEN "cn @ post"]
      mem_read_append [of "pre @ enc_int t @ enc_int n @ enc_int idx @ enc_int p @ name" "length pre + 16 + NAMELEN" cn NAMELEN post]
    by (simp_all add: add.assoc)
  have "to_size left = left" using left small by simp
  with left r show ?thesis
    unfolding srv_recv_link_def pos
    by (cases "link_request H X (int i) t n idx p name (st\<lparr>srv_clientname := cn\<rparr>)") (simp_all add: Let_def)
qed

lemma srv_recv_unlink_apply:
  assumes m: "plugin_accepts st (CUnlink i name)"
    and tot: "tot = int (length pre) + left" and left: "int (4 + NAMELEN) \<le> left" and small: "left < 2147483648"
  shows "srv_recv_unlink (pre @ name @ post) tot left (int i) st =
    Some (upd_entry i (\<lambda>c. c\<lparr>cd_status := XPSTATUS_UNLINK\<rparr>) st, left - int NAMELEN)"
proof -
  have n: "length name = NAMELEN" and i: "i < length (clientdata st)" using m by simp_all
  have read: "mem_read (pre @ name @ post) (tot - left) NAMELEN = Some name"
    using mem_read_append [of pre "length pre" name NAMELEN post] tot n by simp
  have "to_size left = left" using left small by simp
  with read i left show ?thesis by (simp add: srv_recv_unlink_def srv_numalloc_def)
qed

lemma srv_recv_message_apply:
  assumes m: "plugin_accepts st m" and ap: "apply_cmsg H X m st = Some st'" and mem: "\<And>n. avail H n"
    and tot: "tot = int (length pre) + left" and left: "int (length (enc_cmsg m)) + 4 \<le> left"
    and small: "left < 2147483648"
  shows "srv_recv_message H X (pre @ enc_cmsg m @ post) tot left st =
    Some (st', left - int (length (enc_cmsg m)))"
proof -
  have first: "read_int (pre @ enc_int k @ q) (tot - left) = Some k" if "in_i32 k" for k q
    using read_int_append [of pre "length pre" k q] that tot by simp
  show ?thesis
  proof (cases m)
    case (CData i v)
    have "srv_recv_data H X ((pre @ enc_int (MARK_DATA + int i)) @ v @ post) tot (left - 4) (int i) st =
        Some (apply_data X i v st, left - 4 - int (length v))"
      by (rule srv_recv_data_apply) (use m CData mem tot left small in auto)
    with first [of "MARK_DATA + int i" "v @ post"] m ap CData show ?thesis
      by (simp add: srv_recv_message_def in_i32_def)
  next
    case (CLink i t n idx p name cn)
    have "srv_recv_link H X ((pre @ enc_int (MARK_LINK + int i)) @ enc_int t @ enc_int n @ enc_int idx @
          enc_int p @ name @ cn @ post) tot (left - 4) (int i) st =
        map_option (\<lambda>st. (st, left - 4 - int (4 * 4 + NAMELEN + NAMELEN))) (apply_cmsg H X (CLink i t n idx p name cn) st)"
      by (rule srv_recv_link_apply) (use m CLink tot left small in auto)
    with first [of "MARK_LINK + int i" "enc_int t @ enc_int n @ enc_int idx @ enc_int p @ name @ cn @ post"]
      m ap CLink show ?thesis
      by (simp add: srv_recv_message_def in_i32_def)
  next
    case (CUnlink i name)
    have "srv_recv_unlink ((pre @ enc_int (MARK_UNLINK + int i)) @ name @ post) tot (left - 4) (int i) st =
        Some (upd_entry i (\<lambda>c. c\<lparr>cd_status := XPSTATUS_UNLINK\<rparr>) st, left - 4 - int NAMELEN)"
      by (rule srv_recv_unlink_apply) (use m CUnlink tot left small in auto)
    with first [of "MARK_UNLINK + int i" "name @ post"] m ap CUnlink show ?thesis
      by (simp add: srv_recv_message_def in_i32_def)
  qed
qed

section \<open>Receiving a transmission\<close>

lemma srv_recv_messages_done: "left \<le> 0 \<Longrightarrow> srv_recv_messages H X buf tot left st = Some st"
  by (subst srv_recv_messages.simps) simp

lemma srv_recv_messages_step:
  "0 < left \<Longrightarrow> srv_recv_message H X buf tot left st = Some (st', left') \<Longrightarrow>
   srv_recv_messages H X buf tot left st = srv_recv_messages H X buf tot left' st'"
  by (subst srv_recv_messages.simps) simp

definition srv_end_state :: "bool \<Rightarrow> 'x server \<Rightarrow> 'x server" where
  "srv_end_state closing st = (if closing then st\<lparr>srv_status := srv_Disconnected\<rparr> else st)"

lemma srv_recv_message_end:
  assumes "tot = int (length pre) + 4"
  shows "srv_recv_message H X (pre @ end_mark closing @ post) tot 4 st = Some (srv_end_state closing st, 0)"
proof -
  have "read_int (pre @ end_mark closing @ post) (tot - 4) = Some (if closing then MARK_DISCONNECT else MARK_EOT)"
    using read_int_append [of pre "length pre"] assms by (auto simp: end_mark_def in_i32_def)
  then show ?thesis by (simp add: srv_recv_message_def srv_end_state_def)
qed

lemma srv_recv_messages_run:
  assumes "run_cmsgs H X ms st = Some st'" and mem: "\<And>n. avail H n"
    and "tot = int (length pre + length (enc_cmsgs ms) + 4)" and "tot < 2147483648"
  shows "srv_recv_messages H X (pre @ enc_cmsgs ms @ end_mark closing @ post) tot
      (int (length (enc_cmsgs ms)) + 4) st =
    Some (srv_end_state closing st')"
  using assms(1,3,4)
proof (induction ms arbitrary: pre st)
  case Nil
  then show ?case
    using srv_recv_messages_step [OF _ srv_recv_message_end [of tot pre H X closing post st]]
    by (simp add: srv_recv_messages_done)
next
  case (Cons m ms)
  let ?post = "enc_cmsgs ms @ end_mark closing @ post"
  from Cons.prems(1) obtain st1 where m: "plugin_accepts st m" "apply_cmsg H X m st = Some st1"
    and run: "run_cmsgs H X ms st1 = Some st'"
    by (auto split: if_splits bind_splits)
  have "srv_recv_message H X (pre @ enc_cmsg m @ ?post) tot (int (length (enc_cmsgs (m # ms))) + 4) st =
      Some (st1, int (length (enc_cmsgs (m # ms))) + 4 - int (length (enc_cmsg m)))"
    by (rule srv_recv_message_apply [OF m]) (use Cons.prems mem in auto)
  then have step: "srv_recv_message H X (pre @ enc_cmsg m @ ?post) tot (int (length (enc_cmsgs (m # ms))) + 4) st =
      Some (st1, int (length (enc_cmsgs ms)) + 4)"
    by simp
  have "srv_recv_messages H X ((pre @ enc_cmsg m) @ ?post) tot (int (length (enc_cmsgs ms)) + 4) st1 =
      Some (srv_end_state closing st')"
    by (rule Cons.IH) (use Cons.prems run in auto)
  with srv_recv_messages_step [OF _ step] show ?case by simp
qed

lemma srv_recv_loop_piece:
  assumes c: "srv_status st = srv_Connected" and bs: "bs \<noteq> []" "4 \<le> length (acc @ bs)"
    and buf: "int (length (acc @ old)) = TCPBUFSIZE" "length (acc @ bs) \<le> length (acc @ old)"
  shows "srv_recv_loop st (acc @ old) (length acc) (RData bs # evs) =
    (if ends_marked (acc @ bs) then Some (st, (acc @ bs) @ drop (length bs) old, length (acc @ bs), evs)
     else srv_recv_loop st ((acc @ bs) @ drop (length bs) old) (length (acc @ bs)) evs)"
proof -
  have fits: "\<not> TCPBUFSIZE < int (length acc + length bs)" using buf by simp
  have w: "mem_write (acc @ old) (int (length acc)) bs = Some ((acc @ bs) @ drop (length bs) old)"
    by (rule write_piece) (use buf in simp)
  have r: "read_int ((acc @ bs) @ drop (length bs) old) (int (length acc + length bs) - 4) =
      Some (dec_int (drop (length (acc @ bs) - 4) (acc @ bs)))"
    using read_last [OF bs(2), of "drop (length bs) old"] by simp
  show ?thesis
    by (subst srv_recv_loop.simps) (use c bs fits w r in \<open>simp add: ends_marked_def\<close>)
qed

lemma srv_recv_loop_wait:
  assumes "srv_status st = srv_Connected" and "acc \<noteq> []"
  shows "srv_recv_loop st buf (length acc) (RFail EWOULDBLOCK # evs) = srv_recv_loop st buf (length acc) evs"
  by (subst srv_recv_loop.simps) (use assms in simp)

interpretation srv_reader: piece_reader srv_recv_loop "\<lambda>st. srv_status st = srv_Connected"
  "\<lambda>st buf n evs. (st, buf, n, evs)"
  by unfold_locales (auto simp: srv_recv_loop_piece srv_recv_loop_wait)

lemma receive_client_runs:
  assumes "srv_status st = srv_Connected" and "\<forall>n. avail H n" and "int (length buf) = TCPBUFSIZE"
    and "delivers [] evs (enc_cmsgs ms @ end_mark closing)"
    and "int (length (enc_cmsgs ms) + 4) \<le> TCPBUFSIZE"
    and "run_cmsgs H X ms st = Some st'"
  shows "receive_client H X buf evs st = Some (srv_end_state closing st', [])"
proof -
  let ?msg = "enc_cmsgs ms @ end_mark closing"
  have len: "length ?msg = length (enc_cmsgs ms) + 4" by (simp add: end_mark_ends)
  have loop: "srv_recv_loop st (buf[0 := 0]) 0 evs = Some (st, ?msg @ drop (length ?msg) (buf[0 := 0]), length ?msg, [])"
    using srv_reader.collects_all [of evs ?msg st "buf[0 := 0]"] assms(1,3-5) len by (simp add: end_mark_ends)
  have "srv_recv_messages H X ([] @ enc_cmsgs ms @ end_mark closing @ drop (length ?msg) (buf[0 := 0]))
      (int (length ?msg)) (int (length (enc_cmsgs ms)) + 4) st = Some (srv_end_state closing st')"
    by (rule srv_recv_messages_run) (use assms len in auto)
  then have "srv_recv_messages H X (?msg @ drop (length ?msg) (buf[0 := 0])) (int (length ?msg)) (int (length ?msg)) st =
      Some (srv_end_state closing st')"
    by (simp add: end_mark_ends add.commute)
  with loop show ?thesis by (simp add: receive_client_def del: append_assoc)
qed

text \<open>C4: Receiving on the plugin's side is correct: a transmission of messages that the plugin can make
  sense of, in pieces that \<open>delivers\<close> allows (of any size and with waits between them, but the first of at
  least four bytes, and none before the last that leaves the bytes received so far ending in an end marker
  value, which the code would take for the end) and whatever the buffer held before, has exactly the effect
  of the messages, one after the other, on the table and on X-Plane; a farewell marker at its end
  also marks the connection as closed.\<close>

theorem receive_client_correct:
  assumes "srv_status st = srv_Connected" and "\<forall>n. avail H n" and "int (length buf) = TCPBUFSIZE"
    and "delivers [] evs (enc_cmsgs ms @ end_mark closing)"
    and "int (length (enc_cmsgs ms) + 4) \<le> TCPBUFSIZE"
    and "run_cmsgs H X ms st = Some st'"
  shows "receive_client H X buf evs st = Some (srv_end_state closing st', [])"
  by (rule receive_client_runs [OF assms])

end
