(* ===== verification/Handshake.thy ===== *)
theory Handshake
  imports PluginProtocol
begin

text \<open>
  The two programs together: what the plugin sends for an entry, and the way of a link request
  from the client's table through the plugin and X-Plane back to the client.
\<close>

section \<open>The plugin's answers\<close>

lemma strneq_prefix:
  "0 \<notin> set ys \<Longrightarrow> length ys \<le> length xs \<Longrightarrow>
   strneq (length ys) xs ys = Some (take (length ys) xs = ys)"
proof (induction ys arbitrary: xs)
  case (Cons y ys)
  then show ?case by (cases xs) auto
qed simp

definition custom_name :: "mem \<Rightarrow> bool" where
  "custom_name name \<longleftrightarrow> take 8 name = chars ''xpserver''"

lemma own_name: "length name = NAMELEN \<Longrightarrow> strneq 8 name (chars ''xpserver'') = Some (custom_name name)"
proof -
  assume l: "length name = NAMELEN"
  have c: "length (chars ''xpserver'') = 8" "0 \<notin> set (chars ''xpserver'')" by (simp_all add: chars_def)
  from strneq_prefix [OF c(2), of name] l show ?thesis unfolding c(1) by (simp add: custom_name_def)
qed

lemma dims_ok_norm:
  assumes "dims_ok t n i"
  shows "norm_nelements t n = n" and "norm_index t i = i" and "valid_request t n i" and "in_i32 n"
  using assms by (auto simp: dims_ok_def norm_nelements_def norm_index_def valid_request_def)

text \<open>The entry that a link request creates, before the check.\<close>

definition requested :: "nat \<Rightarrow> sdata \<Rightarrow> cdata \<Rightarrow> bool" where
  "requested k s c \<longleftrightarrow> fresh_entry (sd_name s) (sd_type s) (sd_nelements s) (sd_index s)
     (norm_precision (sd_type s) (sd_precision s)) c"

lemma link_allocates:
  assumes s: "slot_ok s" "live s" and ok: "entries_ok g" and k: "k \<le> length (clientdata g)"
    and new: "\<not> matching_entry k (sd_index s) (sd_name s) g" and mem: "\<forall>n. avail H n"
    and junk: "length (cd_name (junk_entry H k)) = NAMELEN"
  obtains g1 where
    "allocate_clientdata (avail H) (junk_entry H) (int k) (sd_type s) (sd_nelements s) (sd_index s)
       (sd_precision s) (sd_name s) g = Some (g1, 0)"
    "entries_ok g1" "k < length (clientdata g1)" "requested k s (clientdata g1 ! k)" "env g1 = env g"
proof -
  have t: "known_type (sd_type s)" and d: "dims_ok (sd_type s) (sd_nelements s) (sd_index s)"
    using s by (simp_all add: live_def slot_ok_def)
  have n: "good_name (sd_name s)"
    using s length_cstr [of "sd_name s"] by (auto simp: good_name_def live_def slot_ok_def name_ok_def)
  note nd = dims_ok_norm [OF d]
  have eq: "allocate_clientdata (avail H) (junk_entry H) (int k) (sd_type s) (sd_nelements s) (sd_index s)
       (sd_precision s) (sd_name s) g =
     create_entry (avail H) (junk_entry H) k (sd_type s) (sd_nelements s) (sd_index s)
       (norm_precision (sd_type s) (sd_precision s)) (sd_name s) g"
    using nd found_entry_matching [OF ok, of "sd_name s" k "sd_index s"] new n
    by (simp add: allocate_clientdata_def valid_request_def Let_def streq_terminated good_name_def)
  obtain g1 where "create_entry (avail H) (junk_entry H) k (sd_type s) (sd_nelements s) (sd_index s)
       (norm_precision (sd_type s) (sd_precision s)) (sd_name s) g = Some (g1, 0)" "entries_ok g1"
    "length (clientdata g1) = max (length (clientdata g)) (Suc k)" "requested k s (clientdata g1 ! k)"
    using create_entry_fresh [where avail = "avail H" and junk = "junk_entry H"
        and p = "norm_precision (sd_type s) (sd_precision s)", OF ok n t d _ k junk] mem
    unfolding requested_def by blast
  moreover from this(1) have "env g1 = env g"
    by (auto simp: create_entry_def upd_entry_def Let_def split: if_splits bind_splits)
  ultimately show ?thesis using eq by (intro that [of g1]) (simp_all add: max_def)
qed

lemma check_entry_ok: "entry_ok c \<Longrightarrow> entry_ok (fst (check_entry X w c))"
  using snprintf_name_ok [of "cd_name c"]
  by (auto simp: check_entry_error Let_def entry_ok_def name_ok_def split: option.split)

text \<open>What becomes of a request for a dataref that X-Plane itself owns.\<close>

lemma link_request_result:
  assumes s: "slot_ok s" "live s" and ok: "entries_ok g" and k: "k \<le> length (clientdata g)"
    and new: "\<not> matching_entry k (sd_index s) (sd_name s) g" and mem: "\<forall>n. avail H n"
    and junk: "length (cd_name (junk_entry H k)) = NAMELEN"
    and own: "\<not> custom_name (sd_name s)"
  obtains c0 g' where "requested k s c0" "entry_ok c0"
    "link_request H X (int k) (sd_type s) (sd_nelements s) (sd_index s) (sd_precision s) (sd_name s) g = Some g'"
    "entries_ok g'" "k < length (clientdata g')" "env g' = env g" "srv_status g' = srv_status g"
    "clientdata g' ! k =
       (let c = fst (check_entry X (env g) c0)
        in c\<lparr>cd_dataref := (if check_error X (env g) c0 = None then cd_dataref c else 0),
             cd_status := XPSTATUS_LINK\<rparr>)"
proof -
  obtain g1 where g1: "allocate_clientdata (avail H) (junk_entry H) (int k) (sd_type s) (sd_nelements s) (sd_index s)
       (sd_precision s) (sd_name s) g = Some (g1, 0)"
    "entries_ok g1" "k < length (clientdata g1)" "requested k s (clientdata g1 ! k)" "env g1 = env g"
    using link_allocates [OF assms(1-7)] .
  let ?old = "clientdata g1 ! k"
  let ?c = "fst (check_entry X (env g) ?old)"
  let ?g2 = "upd_entry k (\<lambda>_. ?c) g1"
  have eo: "entry_ok ?old" by (rule entries_okD [OF g1(2,3)])
  have st: "srv_status g1 = srv_status g"
    using g1(1) by (auto simp: allocate_clientdata_def create_entry_def upd_entry_def Let_def
        split: if_splits bind_splits)
  have chk: "link_check H X (int k) (sd_type s) (sd_nelements s) (sd_name s) g1 = Some (?g2, snd (check_entry X (env g) ?old))"
    using own_name [of "sd_name s"] s own g1(3,5)
    by (auto simp: link_check_def slot_ok_def name_ok_def check_clientdata_def srv_numalloc_def split: prod.split)
  have r: "snd (check_entry X (env g) ?old) = (if check_error X (env g) ?old = None then 0 else 2)"
    by (auto simp: check_entry_error Let_def split: option.split)
  let ?f = "\<lambda>c. c\<lparr>cd_dataref := (if check_error X (env g) ?old = None then cd_dataref c else 0),
             cd_status := XPSTATUS_LINK\<rparr>"
  have res: "link_request H X (int k) (sd_type s) (sd_nelements s) (sd_index s) (sd_precision s) (sd_name s) g =
      Some (upd_entry k ?f ?g2)"
    using g1(1) chk r by (cases "check_error X (env g) ?old") (simp_all add: link_request_def)
  have okc: "entry_ok ?c" by (rule check_entry_ok [OF eo])
  have ok2: "entries_ok ?g2" by (rule upd_entry_ok) (use g1(2) okc in auto)
  have "entries_ok (upd_entry k ?f ?g2)"
    by (rule upd_entry_ok [OF ok2]) (use okc g1(3) in \<open>simp add: entry_ok_def\<close>)
  with res g1(3-5) eo st show ?thesis
    by (intro that [of ?old "upd_entry k ?f ?g2"]) (simp_all add: Let_def, simp_all add: upd_entry_def)
qed

section \<open>The way of a link request\<close>

text \<open>The entry that stands for a slot of the client, as far as the check looks at it.\<close>

definition as_entry :: "sdata \<Rightarrow> cdata" where
  "as_entry s = \<lparr>cd_name = sd_name s, cd_type = sd_type s, cd_nelements = sd_nelements s,
     cd_index = sd_index s, cd_precision = sd_precision s, cd_status = XPSTATUS_UNINITIALIZED,
     cd_data = None, cd_dataref = 0, cd_write = 0\<rparr>"

definition handle_of :: "'w xplm \<Rightarrow> 'w \<Rightarrow> cdata \<Rightarrow> nat" where
  "handle_of X w c = (if command_type (cd_type c) then XPLMFindCommand X (cstr (cd_name c)) w
                      else XPLMFindDataRef X (cstr (cd_name c)) w)"

lemma requested_as_entry:
  assumes "requested k s c"
  shows "check_error X w c = check_error X w (as_entry s)" and "handle_of X w c = handle_of X w (as_entry s)"
  using assms
  by (simp_all add: requested_def fresh_entry_def check_error_def handle_of_def as_entry_def count_mismatch_def
    Let_def)

lemma slot_msg_link:
  "live s \<Longrightarrow> sd_status s = XPSTATUS_ALLOC \<Longrightarrow>
   slot_msg cn k s = Some (CLink k (sd_type s) (sd_nelements s) (sd_index s) (sd_precision s) (sd_name s) cn)"
  by (simp add: slot_msg_def live_def)

lemma srv_send_link_reply:
  assumes "entry_ok (clientdata g ! k)" and "k < length (clientdata g)"
    and "cd_status (clientdata g ! k) = XPSTATUS_LINK" and "cstr (cd_name (clientdata g ! k)) \<noteq> []"
  shows "srv_send_entry H X k g [] =
    Some (if cd_dataref (clientdata g ! k) \<noteq> 0
          then count_clientdata (upd_entry k (\<lambda>c. c\<lparr>cd_status := XPSTATUS_VALID\<rparr>) g)
          else upd_entry k dealloc_entry g,
          enc_smsg (SLink k (cd_name (clientdata g ! k))))"
proof -
  have "streq [0] (cd_name (clientdata g ! k)) = Some False" "length (cd_name (clientdata g ! k)) = NAMELEN"
    using assms(1,4) streq_terminated [of "[0]" "cd_name (clientdata g ! k)"]
    by (auto simp: entry_ok_def name_ok_def)
  with assms(2,3) show ?thesis
    by (auto simp: srv_send_entry_def srv_send_link_def mem_read_whole deallocate_clientdata_def
        srv_numalloc_def Let_def)
qed

text \<open>C5: The handshake succeeds: when X-Plane has what a new slot of the client asks for, the slot's link
  request makes the plugin create an entry of the same name, type and dimensions at the same position;
  its answer carries the name, makes the entry valid, and on arrival makes the client's slot valid.\<close>

theorem link_handshake:
  assumes "table_ok st" and "k < length (serverdata st)" and "live (serverdata st ! k)"
    and "sd_status (serverdata st ! k) = XPSTATUS_ALLOC" and "\<not> custom_name (sd_name (serverdata st ! k))"
    and "slot_msg cn k (serverdata st ! k) = Some m"
    and "entries_ok g" and "k \<le> length (clientdata g)"
    and "\<not> matching_entry k (sd_index (serverdata st ! k)) (sd_name (serverdata st ! k)) g"
    and "\<forall>n. avail H n" and "length (cd_name (junk_entry H k)) = NAMELEN"
    and "check_error X (env g) (as_entry (serverdata st ! k)) = None"
    and "handle_of X (env g) (as_entry (serverdata st ! k)) \<noteq> 0"
  shows "\<exists>g1 g2 reply. apply_cmsg H X m g = Some g1 \<and>
    srv_send_entry H X k g1 [] = Some (g2, enc_smsg (SLink k reply)) \<and>
    cd_status (clientdata g2 ! k) = XPSTATUS_VALID \<and> cd_type (clientdata g2 ! k) = sd_type (serverdata st ! k) \<and>
    cd_nelements (clientdata g2 ! k) = sd_nelements (serverdata st ! k) \<and>
    cd_index (clientdata g2 ! k) = sd_index (serverdata st ! k) \<and> entry_ok (clientdata g2 ! k) \<and>
    sd_status (serverdata (apply_smsg (SLink k reply) (upd_slot k (sent_slot m) st)) ! k) = XPSTATUS_VALID"
proof -
  let ?s = "serverdata st ! k"
  let ?g = "g\<lparr>srv_clientname := cn\<rparr>"
  have m: "m = CLink k (sd_type ?s) (sd_nelements ?s) (sd_index ?s) (sd_precision ?s) (sd_name ?s) cn"
    using slot_msg_link [OF assms(3,4)] assms(6) by simp
  have g: "entries_ok ?g" "k \<le> length (clientdata ?g)" "\<not> matching_entry k (sd_index ?s) (sd_name ?s) ?g"
    using assms(7-9) by (simp_all add: entries_ok_def matching_entry_def)
  obtain old g1 where old: "requested k ?s old" "entry_ok old" and
    g1: "link_request H X (int k) (sd_type ?s) (sd_nelements ?s) (sd_index ?s) (sd_precision ?s) (sd_name ?s) ?g = Some g1"
    "entries_ok g1" "k < length (clientdata g1)" and
    at: "clientdata g1 ! k =
       (let c = fst (check_entry X (env ?g) old)
        in c\<lparr>cd_dataref := (if check_error X (env ?g) old = None then cd_dataref c else 0),
             cd_status := XPSTATUS_LINK\<rparr>)"
    using link_request_result [OF table_okD(1) [OF assms(1,2)] assms(3) g assms(10,11,5)] .
  have none: "check_error X (env g) old = None"
    using requested_as_entry(1) [OF old(1), of X "env g"] assms(12) by (simp only:)
  have h: "handle_of X (env g) old \<noteq> 0"
    using requested_as_entry(2) [OF old(1), of X "env g"] assms(13) by (simp only: not_False_eq_True)
  let ?c = "clientdata g1 ! k"
  have f: "cd_name ?c = cd_name old" "cd_type ?c = cd_type old" "cd_nelements ?c = cd_nelements old"
    "cd_index ?c = cd_index old" "cd_status ?c = XPSTATUS_LINK" "cd_dataref ?c = handle_of X (env g) old"
    using at none by (simp_all add: check_entry_error Let_def handle_of_def)
  have o: "cstr (cd_name old) = cstr (sd_name ?s)" "cd_type old = sd_type ?s" "cd_nelements old = sd_nelements ?s"
    "cd_index old = sd_index ?s"
    using old(1) by (simp_all add: requested_def fresh_entry_def)
  have ne: "cstr (cd_name ?c) \<noteq> []" using f(1) o(1) assms(3) by (simp add: live_def)
  have ok: "entry_ok ?c" by (rule entries_okD [OF g1(2,3)])
  let ?g2 = "count_clientdata (upd_entry k (\<lambda>c. c\<lparr>cd_status := XPSTATUS_VALID\<rparr>) g1)"
  have rep: "srv_send_entry H X k g1 [] = Some (?g2, enc_smsg (SLink k (cd_name ?c)))"
    using srv_send_link_reply [OF ok g1(3) f(5) ne, of H X] f(6) h by simp
  have "sd_status (serverdata (apply_smsg (SLink k (cd_name ?c)) (upd_slot k (sent_slot m) st)) ! k) = XPSTATUS_VALID"
    using assms(2) f(1) o(1) m by (simp add: upd_slot_def sent_slot_def count_dataref_def link_slot_def)
  moreover have "apply_cmsg H X m g = Some g1" using g1(1) m by simp
  moreover have "entry_ok (clientdata ?g2 ! k)" using ok g1(3) by (simp add: entry_ok_def)
  ultimately show ?thesis using rep f o g1(3)
    by (intro exI [of _ g1] exI [of _ ?g2] exI [of _ "cd_name ?c"]) simp
qed

text \<open>C6: A refused request is reported: when X-Plane does not have what the slot asks for, the answer
  carries the text of the error (cut off to fit), the plugin's entry is released, and the client's
  slot does not become valid.\<close>

theorem link_refused:
  assumes "table_ok st" and "k < length (serverdata st)" and "live (serverdata st ! k)"
    and "sd_status (serverdata st ! k) = XPSTATUS_ALLOC" and "\<not> custom_name (sd_name (serverdata st ! k))"
    and "slot_msg cn k (serverdata st ! k) = Some m"
    and "entries_ok g" and "k \<le> length (clientdata g)"
    and "\<not> matching_entry k (sd_index (serverdata st ! k)) (sd_name (serverdata st ! k)) g"
    and "\<forall>n. avail H n" and "length (cd_name (junk_entry H k)) = NAMELEN"
    and "check_error X (env g) (as_entry (serverdata st ! k)) = Some e"
    and "cstr (sd_name (serverdata st ! k)) \<noteq> take (NAMELEN - 1) e"
  shows "\<exists>g1 g2 reply. apply_cmsg H X m g = Some g1 \<and>
    srv_send_entry H X k g1 [] = Some (g2, enc_smsg (SLink k reply)) \<and> cstr reply = take (NAMELEN - 1) e \<and>
    cd_status (clientdata g2 ! k) = XPSTATUS_DEALLOC \<and> cd_data (clientdata g2 ! k) = None \<and>
    apply_smsg (SLink k reply) (upd_slot k (sent_slot m) st) = upd_slot k (sent_slot m) st"
proof -
  let ?s = "serverdata st ! k"
  let ?g = "g\<lparr>srv_clientname := cn\<rparr>"
  have m: "m = CLink k (sd_type ?s) (sd_nelements ?s) (sd_index ?s) (sd_precision ?s) (sd_name ?s) cn"
    using slot_msg_link [OF assms(3,4)] assms(6) by simp
  have g: "entries_ok ?g" "k \<le> length (clientdata ?g)" "\<not> matching_entry k (sd_index ?s) (sd_name ?s) ?g"
    using assms(7-9) by (simp_all add: entries_ok_def matching_entry_def)
  obtain old g1 where old: "requested k ?s old" "entry_ok old" and
    g1: "link_request H X (int k) (sd_type ?s) (sd_nelements ?s) (sd_index ?s) (sd_precision ?s) (sd_name ?s) ?g = Some g1"
    "entries_ok g1" "k < length (clientdata g1)" and
    at: "clientdata g1 ! k =
       (let c = fst (check_entry X (env ?g) old)
        in c\<lparr>cd_dataref := (if check_error X (env ?g) old = None then cd_dataref c else 0),
             cd_status := XPSTATUS_LINK\<rparr>)"
    using link_request_result [OF table_okD(1) [OF assms(1,2)] assms(3) g assms(10,11,5)] .
  have err: "check_error X (env g) old = Some e"
    using requested_as_entry(1) [OF old(1), of X "env g"] assms(12) by (simp only:)
  let ?c = "clientdata g1 ! k"
  have f: "cd_name ?c = snprintf_name (cd_name old) e" "cd_status ?c = XPSTATUS_LINK" "cd_dataref ?c = 0"
    using at err by (simp_all add: check_entry_error Let_def)
  have text_sent: "cstr (cd_name ?c) = take (NAMELEN - 1) e"
    using f(1) snprintf_name_cstr [OF check_error_no_nul [OF err]] by simp
  have "e \<noteq> []" using err by (auto simp: check_error_def chars_def Let_def split: if_splits)
  then have ne: "cstr (cd_name ?c) \<noteq> []" using text_sent by simp
  have ok: "entry_ok ?c" by (rule entries_okD [OF g1(2,3)])
  let ?g2 = "upd_entry k dealloc_entry g1"
  have rep: "srv_send_entry H X k g1 [] = Some (?g2, enc_smsg (SLink k (cd_name ?c)))"
    using srv_send_link_reply [OF ok g1(3) f(2) ne, of H X] f(3) by simp
  have "apply_smsg (SLink k (cd_name ?c)) (upd_slot k (sent_slot m) st) = upd_slot k (sent_slot m) st"
    using assms(2,13) text_sent m by (simp add: upd_slot_def sent_slot_def)
  moreover have "apply_cmsg H X m g = Some g1" using g1(1) m by simp
  ultimately show ?thesis using rep text_sent g1(3)
    by (intro exI [of _ g1] exI [of _ ?g2] exI [of _ "cd_name ?c"]) (simp add: dealloc_entry_def)
qed

section \<open>Entries and slots that belong together\<close>

text \<open>An entry of the plugin that belongs to a slot of the client.\<close>

definition mirrors :: "cdata \<Rightarrow> sdata \<Rightarrow> bool" where
  "mirrors c s \<longleftrightarrow> cd_type c = sd_type s \<and> cd_nelements c = sd_nelements s \<and> cd_index c = sd_index s"

text \<open>A block in which no element is missing.\<close>

definition no_miss :: "int \<Rightarrow> nat \<Rightarrow> mem \<Rightarrow> bool" where
  "no_miss t n v \<longleftrightarrow> (\<forall>j < n. \<not> is_miss t (take (elem_size t) (drop (j * elem_size t) v)))"

lemma merge_no_miss:
  assumes "no_miss t n v" and "length v = n * elem_size t" and "length b = n * elem_size t"
  shows "merge_elems t n v b = v"
  using assms
proof (induction n arbitrary: v b)
  case (Suc n)
  let ?es = "elem_size t"
  have "\<not> is_miss t (take ?es v)" using Suc.prems(1) unfolding no_miss_def by (metis drop_0 mult_0 zero_less_Suc)
  moreover have "no_miss t n (drop ?es v)"
    unfolding no_miss_def
  proof (intro allI impI)
    fix j assume "j < n"
    then have "Suc j < Suc n" by simp
    with Suc.prems(1) have "\<not> is_miss t (take ?es (drop (Suc j * ?es) v))"
      unfolding no_miss_def by blast
    then show "\<not> is_miss t (take ?es (drop (j * ?es) (drop ?es v)))" by (simp add: add.commute)
  qed
  ultimately show ?case using Suc.IH [of "drop ?es v" "drop ?es b"] Suc.prems by (simp add: Let_def)
qed simp

end
