(* ===== verification/Replies.thy ===== *)
theory Replies
  imports PluginProtocol
begin

text \<open>
  The messages that the plugin sends, and the proof that \<open>send_client\<close> turns its table and the
  present values of X-Plane into exactly the messages that the entries call for, as far as they
  fit into one transmission.
\<close>

section \<open>Reading X-Plane\<close>

text \<open>
  The documented behaviour of the read functions of the plugin interface: a float has four bytes, a
  double eight, and an array read delivers whole elements, no more than were asked for.
\<close>

definition array_reads :: "nat \<Rightarrow> (nat \<Rightarrow> int \<Rightarrow> int \<Rightarrow> 'w \<Rightarrow> mem) \<Rightarrow> bool" where
  "array_reads sz get \<longleftrightarrow> (\<forall>ref ofs n w. \<exists>k \<le> nat n. length (get ref ofs n w) = k * sz)"

definition xplm_reads :: "'w xplm \<Rightarrow> bool" where
  "xplm_reads X \<longleftrightarrow> (\<forall>ref w. length (XPLMGetDataf X ref w) = 4 \<and> length (XPLMGetDatad X ref w) = 8) \<and>
     array_reads 4 (XPLMGetDatavf X) \<and> array_reads 4 (XPLMGetDatavi X) \<and> array_reads 1 (XPLMGetDatab X)"

lemma array_readsD: "array_reads sz get \<Longrightarrow> \<exists>k \<le> n. length (get ref ofs (int n) w) = k * sz"
  unfolding array_reads_def by (metis nat_int)

lemma array_block_size:
  assumes "\<exists>k \<le> n. length vs = k * elem_size t" and "0 < elem_size t"
  shows "\<exists>v. array_block H t whole n vs = Some v \<and> length v = n * elem_size t"
proof -
  obtain k where k: "k \<le> n" "length vs = k * elem_size t" using assms(1) by blast
  have le: "length vs \<le> n * elem_size t" using k by simp
  have d: "length vs div elem_size t = k" using k assms(2) by simp
  have "length (vs @ concat (replicate (n - k) (init_elem t))) = n * elem_size t"
    using k by (simp add: length_concat sum_list_replicate length_init_elem flip: add_mult_distrib)
  moreover have "length (vs @ map (fresh H) [length vs..<n * elem_size t]) = n * elem_size t"
    using le by simp
  ultimately show ?thesis
    using le d by (cases whole) (simp_all add: array_block_def)
qed

text \<open>The value of an entry.\<close>

definition entry_value :: "heap \<Rightarrow> ('x world) xplm \<Rightarrow> 'x world \<Rightarrow> cdata \<Rightarrow> mem" where
  "entry_value H X w c = the (get_xplane H X c w)"

lemma get_xplane_value:
  assumes "xplm_reads X" and "known_type (cd_type c)" and "\<not> command_type (cd_type c)"
  shows "get_xplane H X c w = Some (entry_value H X w c)"
    and "length (entry_value H X w c) = entry_size c"
proof -
  let ?t = "cd_type c" and ?n = "nat (elem_count (cd_type c) (cd_nelements c) (cd_index c))"
  have sz: "entry_size c = ?n * elem_size ?t" by (simp add: entry_size_def block_size_def)
  let ?start = "if cd_index c = -1 then 0 else cd_index c"
  consider (sc) "?t \<in> {XPTYPE_INT, XPTYPE_FLT, XPTYPE_DBL}"
    | (vf) "?t = XPTYPE_FLT_ARR" | (vi) "?t = XPTYPE_INT_ARR" | (vb) "?t = XPTYPE_BYTE_ARR"
    using assms(2,3) by (auto simp: known_type_def command_type_def)
  then have "\<exists>v. get_xplane H X c w = Some v \<and> length v = entry_size c"
  proof cases
    case sc
    with assms(1) show ?thesis
      by (auto simp: get_xplane_def Let_def sz xplm_reads_def elem_count_def scalar_type_def elem_size_def)
  next
    case vf
    have "\<exists>k \<le> ?n. length (XPLMGetDatavf X (cd_dataref c) ?start (int ?n) w) = k * elem_size ?t"
      by (rule array_readsD) (use assms(1) vf in \<open>simp add: xplm_reads_def elem_size_def\<close>)
    from array_block_size [OF this elem_size_pos, of H "cd_index c = -1"] obtain v
      where v: "array_block H ?t (cd_index c = -1) ?n (XPLMGetDatavf X (cd_dataref c) ?start (int ?n) w) = Some v"
        "length v = ?n * elem_size ?t" by blast
    have "get_xplane H X c w = array_block H ?t (cd_index c = -1) ?n (XPLMGetDatavf X (cd_dataref c) ?start (int ?n) w)"
      unfolding get_xplane_def Let_def vf by simp
    with v sz show ?thesis by simp
  next
    case vi
    have "\<exists>k \<le> ?n. length (XPLMGetDatavi X (cd_dataref c) ?start (int ?n) w) = k * elem_size ?t"
      by (rule array_readsD) (use assms(1) vi in \<open>simp add: xplm_reads_def elem_size_def\<close>)
    from array_block_size [OF this elem_size_pos, of H "cd_index c = -1"] obtain v
      where v: "array_block H ?t (cd_index c = -1) ?n (XPLMGetDatavi X (cd_dataref c) ?start (int ?n) w) = Some v"
        "length v = ?n * elem_size ?t" by blast
    have "get_xplane H X c w = array_block H ?t (cd_index c = -1) ?n (XPLMGetDatavi X (cd_dataref c) ?start (int ?n) w)"
      unfolding get_xplane_def Let_def vi by simp
    with v sz show ?thesis by simp
  next
    case vb
    have "\<exists>k \<le> ?n. length (XPLMGetDatab X (cd_dataref c) ?start (int ?n) w) = k * elem_size ?t"
      by (rule array_readsD) (use assms(1) vb in \<open>simp add: xplm_reads_def elem_size_def\<close>)
    from array_block_size [OF this elem_size_pos, of H "cd_index c = -1"] obtain v
      where v: "array_block H ?t (cd_index c = -1) ?n (XPLMGetDatab X (cd_dataref c) ?start (int ?n) w) = Some v"
        "length v = ?n * elem_size ?t" by blast
    have "get_xplane H X c w = array_block H ?t (cd_index c = -1) ?n (XPLMGetDatab X (cd_dataref c) ?start (int ?n) w)"
      unfolding get_xplane_def Let_def vb by simp
    with v sz show ?thesis by simp
  qed
  then show "get_xplane H X c w = Some (entry_value H X w c)" "length (entry_value H X w c) = entry_size c"
    by (auto simp: entry_value_def)
qed

section \<open>What the entries call for\<close>

definition entry_changed :: "cdata \<Rightarrow> mem \<Rightarrow> bool" where
  "entry_changed c v =
     (case cd_data c of
        Some a \<Rightarrow>
          list_ex (\<lambda>j. elem_changed (cd_type c) (cd_precision c)
             (take (elem_size (cd_type c)) (drop (j * elem_size (cd_type c)) a))
             (take (elem_size (cd_type c)) (drop (j * elem_size (cd_type c)) v))) [0..<entry_elems c]
      | None \<Rightarrow> False)"

definition entry_msg :: "heap \<Rightarrow> ('x world) xplm \<Rightarrow> 'x world \<Rightarrow> nat \<Rightarrow> cdata \<Rightarrow> smsg option" where
  "entry_msg H X w i c =
     (if cstr (cd_name c) = [] then None
      else if cd_status c = XPSTATUS_LINK then Some (SLink i (cd_name c))
      else if cd_status c = XPSTATUS_UNLINK then Some (SUnlink i (cd_name c))
      else if cd_status c = XPSTATUS_VALID \<and> known_type (cd_type c) \<and> \<not> command_type (cd_type c) \<and>
              entry_changed c (entry_value H X w c)
      then Some (SData i (entry_value H X w c))
      else None)"

text \<open>The space that the code's tests ask for, and the entry after its message was packed.\<close>

fun reply_room :: "smsg \<Rightarrow> nat" where
  "reply_room (SData i v) = length (enc_smsg (SData i v)) + 4"
| "reply_room m = length (enc_smsg m)"

fun answered :: "smsg \<Rightarrow> cdata \<Rightarrow> cdata" where
  "answered (SLink i name) c =
     (if cd_dataref c \<noteq> 0 then c\<lparr>cd_status := XPSTATUS_VALID\<rparr> else dealloc_entry c)"
| "answered (SUnlink i name) c = dealloc_entry c"
| "answered (SData i v) c = c\<lparr>cd_data := Some v\<rparr>"

text \<open>The entries after sending with \<open>n\<close> bytes of the buffer used, and the messages sent.\<close>

fun replies ::
  "heap \<Rightarrow> ('x world) xplm \<Rightarrow> 'x world \<Rightarrow> nat \<Rightarrow> cdata list \<Rightarrow> nat \<Rightarrow> cdata list \<times> smsg list" where
  "replies H X w i [] n = ([], [])"
| "replies H X w i (c # cs) n =
     (case entry_msg H X w i c of
        None \<Rightarrow> (case replies H X w (Suc i) cs n of (cs', ms) \<Rightarrow> (c # cs', ms))
      | Some m \<Rightarrow>
          if int (n + reply_room m) \<le> TCPBUFSIZE
          then (case replies H X w (Suc i) cs (n + length (enc_smsg m)) of (cs', ms) \<Rightarrow>
                  (answered m c # cs', m # ms))
          else (case replies H X w (Suc i) cs n of (cs', ms) \<Rightarrow> (c # cs', ms)))"

section \<open>One entry\<close>

text \<open>The plugin after an entry was handled: only the table and the count of links change.\<close>

definition table_step :: "cdata list \<Rightarrow> 'x server \<Rightarrow> 'x server \<Rightarrow> bool" where
  "table_step cs st st' \<longleftrightarrow> (\<exists>n. st' = st\<lparr>clientdata := cs, srv_numlink := n\<rparr>)"

lemma table_step_same: "clientdata st = cs \<Longrightarrow> table_step cs st st"
  by (auto simp: table_step_def intro: exI [of _ "srv_numlink st"])

lemma table_step_trans: "table_step cs st st' \<Longrightarrow> table_step cs' st' st'' \<Longrightarrow> table_step cs' st st''"
  by (auto simp: table_step_def)

lemma table_step_simps:
  assumes "table_step cs st st'"
  shows "clientdata st' = cs" and "env st' = env st" and "srv_status st' = srv_status st"
  using assms by (auto simp: table_step_def)

lemma srv_send_data_msg:
  assumes ok: "entry_ok c" and t: "known_type (cd_type c)" "\<not> command_type (cd_type c)"
    and X: "xplm_reads X" and mem: "\<forall>n. avail H n"
  shows "srv_send_data H X i c w out =
    (let v = entry_value H X w c; m = SData i v
     in if entry_changed c v \<and> int (length out + reply_room m) \<le> TCPBUFSIZE
        then Some (answered m c, out @ enc_smsg m) else Some (c, out))"
proof -
  let ?v = "entry_value H X w c"
  let ?n = "nat (elem_count (cd_type c) (cd_nelements c) (cd_index c))"
  have v: "get_xplane H X c w = Some ?v" "length ?v = entry_size c"
    using get_xplane_value [OF X t] by simp_all
  obtain a where a: "cd_data c = Some a" "length a = entry_size c"
    using ok t by (auto simp: entry_ok_def block_ok_def entry_size_def split: option.splits)
  have len: "?n * elem_size (cd_type c) = entry_size c" by (simp add: entry_size_def block_size_def)
  have ch: "blocks_changed (cd_type c) (cd_precision c) ?n a ?v = Some (entry_changed c ?v)"
    using a v len by (simp add: blocks_changed_def entry_changed_def mem_read_whole entry_elems_def)
  show ?thesis
    using t a v ch len mem
    by (simp add: srv_send_data_def Let_def mem_read_whole mem_write_whole)
qed

lemma upd_entry_step:
  "table_step ((clientdata st)[i := f (clientdata st ! i)]) st (upd_entry i f st)"
  "table_step cs st st' \<Longrightarrow> table_step cs st (count_clientdata st')"
  by (auto simp: table_step_def upd_entry_def count_clientdata_def intro: exI [of _ "srv_numlink st"])

lemma dealloc_step:
  "i < length (clientdata st) \<Longrightarrow>
   fst (deallocate_clientdata (int i) st) = upd_entry i dealloc_entry st"
  by (auto simp: deallocate_clientdata_def srv_numalloc_def)

lemma srv_send_entry_msg:
  assumes i: "i < length (clientdata st)" and ok: "entry_ok (clientdata st ! i)"
    and X: "xplm_reads X" and mem: "\<forall>n. avail H n"
  shows "\<exists>st'. srv_send_entry H X i st out =
      (case entry_msg H X (env st) i (clientdata st ! i) of
         None \<Rightarrow> Some (st', out)
       | Some m \<Rightarrow> if int (length out + reply_room m) \<le> TCPBUFSIZE then Some (st', out @ enc_smsg m)
                   else Some (st', out)) \<and>
    table_step ((clientdata st)[i :=
      (case entry_msg H X (env st) i (clientdata st ! i) of
         None \<Rightarrow> clientdata st ! i
       | Some m \<Rightarrow> if int (length out + reply_room m) \<le> TCPBUFSIZE then answered m (clientdata st ! i)
                   else clientdata st ! i)]) st st'"
proof -
  let ?c = "clientdata st ! i"
  have nm: "length (cd_name ?c) = NAMELEN" "terminated (cd_name ?c)"
    using ok by (simp_all add: entry_ok_def name_ok_def)
  have e: "streq [0] (cd_name ?c) = Some (cstr (cd_name ?c) = [])"
    using streq_terminated [of "[0]" "cd_name ?c"] nm by auto
  have same: "table_step ((clientdata st)[i := ?c]) st st" by (rule table_step_same) simp
  have upd: "table_step ((clientdata st)[i := f ?c]) st (upd_entry i f st)" for f
    by (rule upd_entry_step(1))
  consider (empty) "cstr (cd_name ?c) = []"
    | (link) "cstr (cd_name ?c) \<noteq> []" "cd_status ?c = XPSTATUS_LINK"
    | (unlink) "cstr (cd_name ?c) \<noteq> []" "cd_status ?c = XPSTATUS_UNLINK"
    | (data) "cstr (cd_name ?c) \<noteq> []" "cd_status ?c = XPSTATUS_VALID"
    | (other) "cstr (cd_name ?c) \<noteq> []" "cd_status ?c \<noteq> XPSTATUS_LINK" "cd_status ?c \<noteq> XPSTATUS_UNLINK"
        "cd_status ?c \<noteq> XPSTATUS_VALID" by blast
  then show ?thesis
  proof cases
    case link
    show ?thesis
      using link e nm same upd [of "\<lambda>c. c\<lparr>cd_status := XPSTATUS_VALID\<rparr>"] upd [of dealloc_entry] dealloc_step [OF i]
      by (cases "int (length out + (4 + NAMELEN)) \<le> TCPBUFSIZE"; cases "cd_dataref ?c = 0")
        (auto simp: srv_send_entry_def entry_msg_def srv_send_link_def Let_def mem_read_whole intro: upd_entry_step(2))
  next
    case unlink
    show ?thesis
      using unlink e nm same upd [of dealloc_entry] dealloc_step [OF i]
      by (cases "int (length out + (4 + NAMELEN)) \<le> TCPBUFSIZE")
        (auto simp: srv_send_entry_def entry_msg_def srv_send_unlink_def Let_def mem_read_whole intro: upd_entry_step(2))
  next
    case data
    show ?thesis
    proof (cases "known_type (cd_type ?c) \<and> \<not> command_type (cd_type ?c)")
      case True
      let ?v = "entry_value H X (env st) ?c"
      from True srv_send_data_msg [OF ok _ _ X mem, of i "env st" out] data e
        upd [of "\<lambda>_. answered (SData i ?v) ?c"] upd [of "\<lambda>_. ?c"] same
      show ?thesis
        by (cases "entry_changed ?c ?v"; cases "int (length out + reply_room (SData i ?v)) \<le> TCPBUFSIZE")
          (auto simp: srv_send_entry_def entry_msg_def Let_def)
    next
      case False
      with data e upd [of "\<lambda>_. ?c"] show ?thesis
        by (auto simp: srv_send_entry_def entry_msg_def srv_send_data_def Let_def)
    qed
  qed (use e same in \<open>auto simp: srv_send_entry_def entry_msg_def Let_def\<close>)
qed

lemma entry_value_size:
  "entry_msg H X w i c = Some (SData j v) \<Longrightarrow> xplm_reads X \<Longrightarrow> length v = entry_size c \<and> v = entry_value H X w c \<and> j = i"
  using get_xplane_value(2) [of X c H w] by (auto simp: entry_msg_def split: if_splits)

lemma answered_dealloc_ok: "entry_ok (dealloc_entry c)"
  by (simp add: entry_ok_def dealloc_entry_def name_ok_def known_type_def)

lemma answered_ok:
  assumes "entry_ok c" and "entry_msg H X w i c = Some m" and "xplm_reads X"
  shows "entry_ok (answered m c)"
proof (cases m)
  case (SData j v)
  with assms entry_value_size [of H X w i c j v] show ?thesis
    by (auto simp: entry_ok_def block_ok_def entry_size_def)
next
  case (SLink j name)
  with assms(1) answered_dealloc_ok show ?thesis by (simp add: entry_ok_def)
qed (simp add: answered_dealloc_ok)

section \<open>The whole table\<close>

lemma replies_Cons:
  "entry_msg H X w i c = None \<Longrightarrow>
   replies H X w i (c # cs) n = (c # fst (replies H X w (Suc i) cs n), snd (replies H X w (Suc i) cs n))"
  "entry_msg H X w i c = Some m \<Longrightarrow> int (n + reply_room m) \<le> TCPBUFSIZE \<Longrightarrow>
   replies H X w i (c # cs) n = (answered m c # fst (replies H X w (Suc i) cs (n + length (enc_smsg m))),
     m # snd (replies H X w (Suc i) cs (n + length (enc_smsg m))))"
  "entry_msg H X w i c = Some m \<Longrightarrow> \<not> int (n + reply_room m) \<le> TCPBUFSIZE \<Longrightarrow>
   replies H X w i (c # cs) n = (c # fst (replies H X w (Suc i) cs n), snd (replies H X w (Suc i) cs n))"
  by (simp_all split: prod.splits)

lemma replies_cases [case_names Nil None Sent Kept]:
  assumes "\<And>i n. P i [] n"
    and "\<And>i c cs n. entry_msg H X w i c = None \<Longrightarrow> P (Suc i) cs n \<Longrightarrow> P i (c # cs) n"
    and "\<And>i c cs n m. entry_msg H X w i c = Some m \<Longrightarrow> int (n + reply_room m) \<le> TCPBUFSIZE \<Longrightarrow>
      P (Suc i) cs (n + length (enc_smsg m)) \<Longrightarrow> P i (c # cs) n"
    and "\<And>i c cs n m. entry_msg H X w i c = Some m \<Longrightarrow> \<not> int (n + reply_room m) \<le> TCPBUFSIZE \<Longrightarrow>
      P (Suc i) cs n \<Longrightarrow> P i (c # cs) n"
  shows "P i cs n"
proof (induction cs arbitrary: i n)
  case Nil
  show ?case by (rule assms(1))
next
  case (Cons c cs)
  show ?case
  proof (cases "entry_msg H X w i c")
    case None
    with assms(2) Cons.IH show ?thesis by blast
  next
    case (Some m)
    with assms(3,4) Cons.IH show ?thesis by blast
  qed
qed

lemma length_replies [simp]: "length (fst (replies H X w i cs n)) = length cs"
  by (induction i cs n rule: replies_cases [where H = H and X = X and w = w])
    (simp_all add: replies_Cons del: replies.simps(2))

text \<open>Every message sent is what one entry calls for, and the entries that sent none are unchanged.\<close>

lemma replies_sound:
  "m \<in> set (snd (replies H X w i cs n)) \<Longrightarrow> \<exists>k < length cs. entry_msg H X w (i + k) (cs ! k) = Some m"
proof (induction i cs n rule: replies_cases [where H = H and X = X and w = w])
  case (None i c cs n)
  then show ?case by (fastforce simp: replies_Cons simp del: replies.simps(2))
next
  case (Sent i c cs n m')
  then show ?case by (fastforce simp: replies_Cons simp del: replies.simps(2))
next
  case (Kept i c cs n m')
  then show ?case by (fastforce simp: replies_Cons simp del: replies.simps(2))
qed simp

lemma entry_msg_index:
  "entry_msg H X w i c = Some m \<Longrightarrow> entry_msg H X w j c' = Some m \<Longrightarrow> i = j"
  by (auto simp: entry_msg_def split: if_splits)

definition next_entry :: "heap \<Rightarrow> ('x world) xplm \<Rightarrow> 'x world \<Rightarrow> nat \<Rightarrow> cdata \<Rightarrow> smsg list \<Rightarrow> cdata" where
  "next_entry H X w i c ms =
     (case entry_msg H X w i c of
        None \<Rightarrow> c
      | Some m \<Rightarrow> if m \<in> set ms then answered m c else c)"

lemma replies_entry:
  "k < length cs \<Longrightarrow>
   fst (replies H X w i cs n) ! k = next_entry H X w (i + k) (cs ! k) (snd (replies H X w i cs n))"
proof (induction i cs n arbitrary: k rule: replies_cases [where H = H and X = X and w = w])
  case (Nil i n)
  then show ?case by simp
next
  case (None i c cs n)
  then show ?case by (cases k) (simp_all add: replies_Cons next_entry_def del: replies.simps(2))
next
  case (Sent i c cs n m)
  have "m' \<noteq> m" if "entry_msg H X w (Suc (i + l)) c' = Some m'" for l c' m'
    using entry_msg_index [OF Sent(1)] that by fastforce
  with Sent show ?case
    by (cases k) (auto simp: replies_Cons next_entry_def simp del: replies.simps(2) split: option.splits)
next
  case (Kept i c cs n m)
  have "m \<notin> set (snd (replies H X w (Suc i) cs n))"
    using replies_sound entry_msg_index [OF Kept(1)] by fastforce
  with Kept show ?case by (cases k) (simp_all add: replies_Cons next_entry_def del: replies.simps(2))
qed

lemma srv_send_entries_replies:
  assumes "\<forall>c \<in> set cs. entry_ok c" and "xplm_reads X" and "\<forall>n. avail H n"
    and "clientdata st = pre @ cs" and "length pre = i"
  shows "\<exists>st'. srv_send_entries H X [i..<i + length cs] st out =
      Some (st', out @ enc_smsgs (snd (replies H X (env st) i cs (length out)))) \<and>
    table_step (pre @ fst (replies H X (env st) i cs (length out))) st st'"
  using assms(1,4,5)
proof (induction cs arbitrary: pre i st out)
  case Nil
  then show ?case by (auto simp: enc_smsgs_def intro: table_step_same)
next
  case (Cons c cs)
  have i: "i < length (clientdata st)" "clientdata st ! i = c" using Cons.prems by (auto simp: nth_append)
  let ?m = "entry_msg H X (env st) i c"
  obtain st1 out1 c1 where
    one: "srv_send_entry H X i st out = Some (st1, out1)" "table_step ((clientdata st)[i := c1]) st st1" and
    cases: "?m = None \<and> out1 = out \<and> c1 = c \<or>
       (\<exists>m. ?m = Some m \<and> int (length out + reply_room m) \<le> TCPBUFSIZE \<and>
          out1 = out @ enc_smsg m \<and> c1 = answered m c) \<or>
       (\<exists>m. ?m = Some m \<and> \<not> int (length out + reply_room m) \<le> TCPBUFSIZE \<and> out1 = out \<and> c1 = c)"
    using srv_send_entry_msg [OF i(1) _ assms(2,3), of out] i(2) Cons.prems(1)
    by (cases ?m) (auto split: if_splits)
  have st1: "clientdata st1 = (pre @ [c1]) @ cs" "env st1 = env st"
    using table_step_simps [OF one(2)] Cons.prems(2,3) by (auto simp: list_update_append)
  have oks: "\<forall>c \<in> set cs. entry_ok c" using Cons.prems(1) by simp
  have range: "[i..<i + length (c # cs)] = i # [Suc i..<Suc i + length cs]"
    by (simp add: upt_conv_Cons del: upt_Suc)
  obtain st' where rest:
    "srv_send_entries H X [Suc i..<Suc i + length cs] st1 out1 =
      Some (st', out1 @ enc_smsgs (snd (replies H X (env st) (Suc i) cs (length out1))))"
    "table_step ((pre @ [c1]) @ fst (replies H X (env st) (Suc i) cs (length out1))) st1 st'"
    using Cons.IH [OF oks st1(1), of "Suc i" out1] Cons.prems(3) st1(2) by auto
  have "srv_send_entries H X [i..<i + length (c # cs)] st out =
      Some (st', out1 @ enc_smsgs (snd (replies H X (env st) (Suc i) cs (length out1))))"
    unfolding range using one(1) rest(1) by simp
  moreover have "table_step ((pre @ [c1]) @ fst (replies H X (env st) (Suc i) cs (length out1))) st st'"
    by (rule table_step_trans [OF one(2) rest(2)])
  moreover have "c1 # fst (replies H X (env st) (Suc i) cs (length out1)) =
      fst (replies H X (env st) i (c # cs) (length out)) \<and>
    out1 @ enc_smsgs (snd (replies H X (env st) (Suc i) cs (length out1))) =
      out @ enc_smsgs (snd (replies H X (env st) i (c # cs) (length out)))"
    using cases by (elim disjE) (auto simp: enc_smsgs_def replies_Cons simp del: replies.simps(2))
  ultimately show ?case by (intro exI [of _ st']) (metis append.assoc append_Cons append_Nil)
qed

section \<open>One call\<close>

definition reply_transmission :: "smsg list \<Rightarrow> mem" where
  "reply_transmission ms = (if ms = [] then [] else enc_smsgs ms @ enc_int MARK_EOT)"

lemma enc_smsgs_empty: "enc_smsgs ms = [] \<longleftrightarrow> ms = []"
proof (cases ms)
  case (Cons m ms')
  have "enc_smsg m \<noteq> []" by (cases m) (simp_all add: enc_int_def)
  with Cons show ?thesis by (simp add: enc_smsgs_def)
qed (simp add: enc_smsgs_def)

lemma send_client_replies:
  assumes "entries_ok g" and "srv_status g = srv_Connected" and "clientdata g \<noteq> []"
    and "xplm_reads X" and "\<forall>n. avail H n"
    and "replies H X (env g) 0 (clientdata g) 0 = (cs, ms)"
    and "int (length (enc_smsgs ms) + 4) \<le> TCPBUFSIZE"
    and "takes (length (reply_transmission ms)) evs"
  shows "\<exists>g'. send_client H X evs g = Some (g', reply_transmission ms, []) \<and> table_step cs g g'"
proof -
  have oks: "\<forall>c \<in> set (clientdata g). entry_ok c" using assms(1) by (simp add: entries_ok_def)
  obtain g' where g':
    "srv_send_entries H X [0..<length (clientdata g)] g [] = Some (g', enc_smsgs ms)" "table_step cs g g'"
    using srv_send_entries_replies [OF oks assms(4,5), of g "[]" 0 "[]"] assms(6) by auto
  have "send_client H X evs g = Some (g', reply_transmission ms, [])"
  proof (cases "ms = []")
    case True
    with assms(8) have "evs = []" by (auto simp: reply_transmission_def elim: takes.cases)
    with True g' assms(2,3) show ?thesis
      by (simp add: send_client_def reply_transmission_def enc_smsgs_empty)
  next
    case False
    with send_loop_takes [OF assms(8), of "enc_smsgs ms @ enc_int MARK_EOT" "[]"] assms(2,3,7) g'
    show ?thesis
      by (simp add: send_client_def reply_transmission_def enc_smsgs_empty)
  qed
  with g' show ?thesis by blast
qed

text \<open>C7: Sending on the plugin's side is correct: the bytes that go out are what the entries call for (the
  outcome of a link request, the confirmation of an unlink request, an X-Plane value that has changed),
  in the order of the entries and as far as they fit, ended by the marker; an entry that has sent its
  message has moved on accordingly, the others are as before; X-Plane is only read. The messages must leave
  room for the marker: the test before an answer to a request reserves none.\<close>

theorem send_client_correct:
  assumes "entries_ok g" and "srv_status g = srv_Connected" and "clientdata g \<noteq> []"
    and "xplm_reads X" and "\<forall>n. avail H n"
    and "replies H X (env g) 0 (clientdata g) 0 = (cs, ms)"
    and "int (length (enc_smsgs ms) + 4) \<le> TCPBUFSIZE"
    and "takes (length (reply_transmission ms)) evs"
  shows "\<exists>g'. send_client H X evs g = Some (g', reply_transmission ms, []) \<and>
    entries_ok g' \<and> env g' = env g \<and> srv_status g' = srv_Connected \<and>
    length (clientdata g') = length (clientdata g) \<and>
    (\<forall>k < length (clientdata g). clientdata g' ! k = next_entry H X (env g) k (clientdata g ! k) ms)"
proof -
  obtain g' where g': "send_client H X evs g = Some (g', reply_transmission ms, [])" "table_step cs g g'"
    using send_client_replies [OF assms] by blast
  note f = table_step_simps [OF g'(2)]
  have len: "length cs = length (clientdata g)"
    using length_replies [of H X "env g" 0 "clientdata g" 0] assms(6) by simp
  have at: "cs ! k = next_entry H X (env g) k (clientdata g ! k) ms" if "k < length (clientdata g)" for k
    using replies_entry [OF that, of H X "env g" 0 0] assms(6) by simp
  have "entry_ok (cs ! k)" if k: "k < length cs" for k
    using at [of k] k len entries_okD [OF assms(1), of k] answered_ok [OF _ _ assms(4)]
    by (auto simp: next_entry_def split: option.split)
  then have "entries_ok g'" using f(1) by (simp add: entries_ok_def all_set_conv_all_nth)
  with g'(1) f len at assms(2) show ?thesis by auto
qed

end
