(* ===== verification/EndToEnd.thy ===== *)
theory EndToEnd
  imports Handshake Replies
begin

text \<open>
  Whole transmissions from one program to the other, when the tables are linked and no request is
  pending: what the cockpit changes reaches X-Plane, and what X-Plane changes reaches the cockpit.
\<close>

section \<open>Messages on linked tables\<close>

text \<open>What a data message does to X-Plane, in terms of the entry it is for.\<close>

fun data_effect :: "('x world) xplm \<Rightarrow> cdata list \<Rightarrow> cmsg \<Rightarrow> 'x world \<Rightarrow> 'x world" where
  "data_effect X cs (CData k v) w =
     (if writable (cs ! k) then set_elems X (cs ! k) 0 (entry_elems (cs ! k)) v w else w)"
| "data_effect X cs m w = w"

text \<open>Data leaves an entry as it is, but for its block.\<close>

definition same_frame :: "cdata \<Rightarrow> cdata \<Rightarrow> bool" where
  "same_frame c c' \<longleftrightarrow> c'\<lparr>cd_data := cd_data c\<rparr> = c"

lemma same_frame_fields:
  assumes "same_frame c c'"
  shows "cd_type c' = cd_type c" "cd_nelements c' = cd_nelements c" "cd_index c' = cd_index c"
    "cd_dataref c' = cd_dataref c" "cd_status c' = cd_status c" "cd_write c' = cd_write c" "cd_name c' = cd_name c"
  by (use assms in \<open>simp add: same_frame_def, metis cdata.simps(1-9) cdata.surjective cdata.update_convs(7)\<close>)+

lemma same_frame_refl: "same_frame c c"
  by (simp add: same_frame_def)

lemma same_frame_trans: "same_frame c c' \<Longrightarrow> same_frame c' c'' \<Longrightarrow> same_frame c c''"
  unfolding same_frame_def by (metis cdata.update_convs(7) cdata.surjective)

lemma set_elems_frame:
  assumes "same_frame c c'"
  shows "set_elems X c' j n v w = set_elems X c j n v w"
  using same_frame_fields [OF assms] by (induction n arbitrary: j v w) (simp_all add: Let_def)

lemma data_effect_frame:
  assumes "list_all2 same_frame cs cs'" and "msg_index m < length cs"
  shows "data_effect X cs' m w = data_effect X cs m w"
proof (cases m)
  case (CData k v)
  have f: "same_frame (cs ! k) (cs' ! k)" using assms CData by (simp add: list_all2_nthD)
  note same_frame_fields [OF f] set_elems_frame [OF f, of X]
  with CData show ?thesis by (auto simp: writable_def entry_elems_def)
qed simp_all

lemma apply_data_frame:
  assumes "k < length (clientdata g)"
  shows "list_all2 same_frame (clientdata g) (clientdata (apply_data X k v g))"
  using assms same_frame_refl
  by (auto simp: apply_data_def Let_def upd_entry_def list_all2_conv_all_nth nth_list_update same_frame_def)

lemma apply_data_env:
  "env (apply_data X k v g) = data_effect X (clientdata g) (CData k v) (env g)"
  by (simp add: apply_data_def Let_def upd_entry_def)

lemma apply_data_ok:
  assumes "entries_ok g" and "plugin_accepts g (CData k v)"
  shows "entries_ok (apply_data X k v g)"
proof -
  let ?c = "clientdata g ! k"
  have c: "entry_ok ?c" "known_type (cd_type ?c)" "length v = entry_size ?c" using assms(2) by simp_all
  then obtain b where b: "cd_data ?c = Some b" "length b = entry_size ?c"
    by (auto simp: entry_ok_def block_ok_def entry_size_def split: option.splits)
  have sz: "entry_size ?c = entry_elems ?c * elem_size (cd_type ?c)"
    by (simp add: entry_size_def entry_elems_def block_size_def)
  have "length (merge_elems (cd_type ?c) (entry_elems ?c) v b) = entry_size ?c"
    using length_merge_elems [of v "entry_elems ?c" "cd_type ?c" b] c(3) b(2) sz by simp
  then have "entry_ok (?c\<lparr>cd_data := map_option (merge_elems (cd_type ?c) (entry_elems ?c) v) (cd_data ?c)\<rparr>)"
    using c b by (simp add: entry_ok_def block_ok_def entry_size_def)
  moreover have "entries_ok (g\<lparr>env := w\<rparr>)" for w using assms(1) by (simp add: entries_ok_def)
  ultimately show ?thesis
    using assms(1) by (auto simp: apply_data_def Let_def intro!: upd_entry_ok)
qed

lemma plugin_accepts_frame:
  assumes "list_all2 same_frame (clientdata g) (clientdata g')" and "entries_ok g'"
    and "plugin_accepts g (CData k v)"
  shows "plugin_accepts g' (CData k v)"
proof -
  have k: "k < length (clientdata g)" "length (clientdata g') = length (clientdata g)"
    using assms(1,3) by (auto dest: list_all2_lengthD)
  have "same_frame (clientdata g ! k) (clientdata g' ! k)" using assms(1) k(1) by (simp add: list_all2_nthD)
  from same_frame_fields [OF this] show ?thesis
    using assms(3) k entries_okD [OF assms(2), of k] by (simp add: entry_size_def)
qed

lemma run_data:
  assumes "entries_ok g" and "\<forall>m \<in> set ms. (\<exists>k v. m = CData k v) \<and> plugin_accepts g m"
  shows "\<exists>g'. run_cmsgs H X ms g = Some g' \<and> env g' = fold (data_effect X (clientdata g)) ms (env g) \<and>
    entries_ok g' \<and> list_all2 same_frame (clientdata g) (clientdata g') \<and> srv_status g' = srv_status g"
  using assms
proof (induction ms arbitrary: g)
  case Nil
  then show ?case by (simp add: list_all2_refl same_frame_refl)
next
  case (Cons m ms)
  obtain k v where m: "m = CData k v" "plugin_accepts g m" using Cons.prems(2) by auto
  let ?g = "apply_data X k v g"
  have fr: "list_all2 same_frame (clientdata g) (clientdata ?g)"
    by (rule apply_data_frame) (use m in simp)
  have ok: "entries_ok ?g" by (rule apply_data_ok) (use Cons.prems(1) m in auto)
  have "\<forall>m \<in> set ms. (\<exists>k v. m = CData k v) \<and> plugin_accepts ?g m"
    using Cons.prems(2) plugin_accepts_frame [OF fr ok] by fastforce
  from Cons.IH [OF ok this] obtain g' where g':
    "run_cmsgs H X ms ?g = Some g'" "env g' = fold (data_effect X (clientdata ?g)) ms (env ?g)"
    "entries_ok g'" "list_all2 same_frame (clientdata ?g) (clientdata g')" "srv_status g' = srv_status ?g" by blast
  have "data_effect X (clientdata ?g) m' = data_effect X (clientdata g) m'" if "m' \<in> set ms" for m'
    using Cons.prems(2) that by (intro ext data_effect_frame [OF fr]) fastforce
  then have "fold (data_effect X (clientdata ?g)) ms = fold (data_effect X (clientdata g)) ms"
    by (intro ext fold_cong [OF refl refl]) simp
  moreover have "list_all2 same_frame (clientdata g) (clientdata g')"
    by (rule list_all2_trans [OF same_frame_trans fr g'(4)])
  moreover have "srv_status ?g = srv_status g" by (simp add: apply_data_def Let_def upd_entry_def)
  ultimately show ?case using g' m apply_data_env [of X k v g] by simp
qed

section \<open>From the cockpit to X-Plane\<close>

lemma pack_sound:
  "m \<in> set (snd (pack cn i ss n)) \<Longrightarrow> \<exists>k < length ss. slot_msg cn (i + k) (ss ! k) = Some m"
proof (induction i ss n rule: pack_cases [where cn = cn])
  case (None i s ss n)
  then show ?case by (fastforce simp: pack_Cons simp del: pack.simps(2))
next
  case (Sent i s ss n m')
  then show ?case by (fastforce simp: pack_Cons simp del: pack.simps(2))
next
  case (Kept i s ss n m')
  then show ?case by (fastforce simp: pack_Cons simp del: pack.simps(2))
qed simp

text \<open>No slot waits to be linked or unlinked.\<close>

definition no_request :: "sdata \<Rightarrow> bool" where
  "no_request s \<longleftrightarrow> cstr (sd_name s) = [] \<or> (sd_status s \<noteq> XPSTATUS_ALLOC \<and> sd_status s \<noteq> XPSTATUS_DEALLOC)"

text \<open>Every slot that the client takes for linked has its entry in the plugin.\<close>

definition slots_linked :: "sdata list \<Rightarrow> cdata list \<Rightarrow> bool" where
  "slots_linked ss cs \<longleftrightarrow> length ss \<le> 1000000 \<and>
     (\<forall>k < length ss. cstr (sd_name (ss ! k)) \<noteq> [] \<and> sd_status (ss ! k) = XPSTATUS_VALID \<and> known_type (sd_type (ss ! k)) \<longrightarrow>
        k < length cs \<and> mirrors (cs ! k) (ss ! k))"

lemma packed_data_accepted:
  assumes "table_ok st" and "\<forall>s \<in> set (serverdata st). no_request s"
    and "slots_linked (serverdata st) (clientdata g)" and "entries_ok g"
    and "m \<in> set (snd (pack cn 0 (serverdata st) 0))"
  shows "\<exists>k < length (serverdata st). m = CData k (the (sd_data (serverdata st ! k))) \<and>
      slot_changed (serverdata st ! k) \<and> plugin_accepts g m"
proof -
  obtain k where k: "k < length (serverdata st)" "slot_msg cn k (serverdata st ! k) = Some m"
    using pack_sound [OF assms(5)] by auto
  let ?s = "serverdata st ! k"
  have nr: "no_request ?s" using assms(2) k(1) by simp
  then have m: "m = CData k (the (sd_data ?s))" "slot_changed ?s" "cstr (sd_name ?s) \<noteq> []"
    "sd_status ?s = XPSTATUS_VALID" "known_type (sd_type ?s)"
    using k(2) by (auto simp: slot_msg_def no_request_def split: if_splits)
  then have c: "k < length (clientdata g)" "mirrors (clientdata g ! k) ?s" "k < 1000000"
    using assms(3) k(1) by (auto simp: slots_linked_def)
  have "length (the (sd_data ?s)) = slot_size ?s"
    using slot_ok_dims(2) [OF table_okD(1) [OF assms(1) k(1)] m(5)] by auto
  then have "plugin_accepts g m"
    using m(1,5) c entries_okD [OF assms(4) c(1)]
    by (simp add: mirrors_def entry_size_def slot_size_def)
  with k(1) m show ?thesis by auto
qed

text \<open>C8: The cockpit drives X-Plane: on linked tables without pending requests, one call of the client's
  \<open>send_xpserver\<close> and one of the plugin's \<open>receive_client\<close> bring the data of the changed datarefs that fit
  into the transmission to X-Plane. In the order of the slots, every element of such a dataref that is not the missing
  value is set, changed itself or not, if X-Plane lets the dataref be written (\<open>data_effect\<close>), and nothing else is
  set. The bytes may be cut as \<open>delivers\<close> allows: a first piece of at least four bytes, and no
  piece before the last that leaves the bytes received so far ending in an end marker value.\<close>

theorem changes_reach_xplane:
  assumes "table_ok st" and "socketStatus st = status_Connected" and "serverdata st \<noteq> []"
    and "length (clientname st) = NAMELEN" and "\<forall>s \<in> set (serverdata st). no_request s"
    and "slots_linked (serverdata st) (clientdata g)" and "entries_ok g"
    and "pack (clientname st) 0 (serverdata st) 0 = (ss, ms)" and "ms \<noteq> []"
    and "takes (length (transmission ms)) evs"
    and "srv_status g = srv_Connected" and "\<forall>n. avail H n" and "int (length buf) = TCPBUFSIZE"
    and "delivers [] revs (transmission ms)"
  shows "send_xpserver evs st = Some (st\<lparr>serverdata := ss\<rparr>, status_Connected, transmission ms, []) \<and>
    (\<exists>g'. receive_client H X buf revs g = Some (g', []) \<and> entries_ok g' \<and> srv_status g' = srv_Connected \<and>
       env g' = fold (data_effect X (clientdata g)) ms (env g)) \<and>
    (\<forall>m \<in> set ms. \<exists>k < length (serverdata st).
       m = CData k (the (sd_data (serverdata st ! k))) \<and> slot_changed (serverdata st ! k))"
proof -
  have "\<forall>s \<in> set (serverdata st). \<not> pending_unlink s"
    using assms(5) by (auto simp: no_request_def pending_unlink_def)
  note sent = send_xpserver_packs [OF assms(1-4) this assms(8,10)]
  have msgs: "\<forall>m \<in> set ms. \<exists>k < length (serverdata st). m = CData k (the (sd_data (serverdata st ! k))) \<and>
      slot_changed (serverdata st ! k) \<and> plugin_accepts g m"
    using packed_data_accepted [OF assms(1,5-7), of _ "clientname st"] assms(8) by simp
  then obtain g' where g': "run_cmsgs H X ms g = Some g'" "env g' = fold (data_effect X (clientdata g)) ms (env g)"
    "entries_ok g'" "srv_status g' = srv_status g"
    using run_data [OF assms(7), of ms H X] by blast
  have tr: "transmission ms = enc_cmsgs ms @ end_mark False"
    using assms(9) by (simp add: transmission_def end_mark_def)
  have "receive_client H X buf revs g = Some (g', [])"
    using receive_client_runs [OF assms(11-13) _ _ g'(1), of revs False] assms(14) tr sent
    by (simp add: srv_end_state_def)
  with sent g'(2-4) assms(11) msgs show ?thesis by auto
qed

section \<open>From X-Plane to the cockpit\<close>

fun smsg_index :: "smsg \<Rightarrow> nat" where
  "smsg_index (SData i v) = i"
| "smsg_index (SLink i name) = i"
| "smsg_index (SUnlink i name) = i"

lemma entry_msg_smsg_index: "entry_msg H X w i c = Some m \<Longrightarrow> smsg_index m = i"
  by (auto simp: entry_msg_def split: if_splits)

lemma replies_index: "m \<in> set (snd (replies H X w i cs n)) \<Longrightarrow> i \<le> smsg_index m"
  using replies_sound entry_msg_smsg_index by fastforce

lemma replies_distinct: "distinct (map smsg_index (snd (replies H X w i cs n)))"
proof (induction i cs n rule: replies_cases [where H = H and X = X and w = w])
  case (Sent i c cs n m)
  then show ?case
    using replies_index [of _ H X w "Suc i" cs "n + length (enc_smsg m)"] entry_msg_smsg_index [OF Sent(1)]
    by (fastforce simp: replies_Cons simp del: replies.simps(2))
qed (simp_all add: replies_Cons del: replies.simps(2))

text \<open>Data leaves what a slot is as it is.\<close>

lemma data_slot_fields [simp]:
  "sd_type (data_slot v s) = sd_type s" "sd_nelements (data_slot v s) = sd_nelements s"
  "sd_index (data_slot v s) = sd_index s" "sd_status (data_slot v s) = sd_status s"
  by (simp_all add: data_slot_def Let_def)

lemma acceptable_data_slot:
  "k < length (serverdata st) \<Longrightarrow> acceptable (upd_slot k (data_slot v) st) (SData j w) = acceptable st (SData j w)"
  by (cases "j = k") (auto simp: upd_slot_def slot_size_def)

lemma run_sdata:
  assumes "\<forall>m \<in> set ms. (\<exists>k v. m = SData k v) \<and> acceptable st m" and "distinct (map smsg_index ms)"
  shows "all_acceptable st ms \<and> length (serverdata (fold apply_smsg ms st)) = length (serverdata st) \<and>
    (\<forall>k v. SData k v \<in> set ms \<longrightarrow> serverdata (fold apply_smsg ms st) ! k = data_slot v (serverdata st ! k)) \<and>
    (\<forall>k. k \<notin> smsg_index ` set ms \<longrightarrow> serverdata (fold apply_smsg ms st) ! k = serverdata st ! k)"
  using assms
proof (induction ms arbitrary: st)
  case (Cons m ms)
  obtain k v where m: "m = SData k v" "acceptable st m" using Cons.prems(1) by auto
  let ?st = "upd_slot k (data_slot v) st"
  have k: "k < length (serverdata st)" using m by simp
  have "(\<exists>k v. m' = SData k v) \<and> acceptable ?st m'" if m': "m' \<in> set ms" for m'
  proof -
    obtain j w where "m' = SData j w" "acceptable st m'" using Cons.prems(1) m' by auto
    with acceptable_data_slot [OF k, of v j w] show ?thesis by (simp del: acceptable.simps)
  qed
  then have "\<forall>m \<in> set ms. (\<exists>k v. m = SData k v) \<and> acceptable ?st m" by blast
  note IH = Cons.IH [OF this]
  have d: "distinct (map smsg_index ms)" "k \<notin> smsg_index ` set ms" using Cons.prems(2) m by simp_all
  have "l \<noteq> k" if "SData l w \<in> set ms" for l w
  proof
    assume "l = k"
    with that have "smsg_index (SData k w) \<in> smsg_index ` set ms" by (intro imageI) simp
    with d(2) show False by simp
  qed
  note other = this
  have at: "serverdata ?st ! k = data_slot v (serverdata st ! k)" "length (serverdata ?st) = length (serverdata st)"
    using k by (simp_all add: upd_slot_def)
  have off: "serverdata ?st ! l = serverdata st ! l" if "l \<noteq> k" for l
    using that by (simp add: upd_slot_def)
  have res: "fold apply_smsg (m # ms) st = fold apply_smsg ms ?st" using m(1) by simp
  have "all_acceptable st (m # ms)" using m IH [OF d(1)] by simp
  moreover have "length (serverdata (fold apply_smsg (m # ms) st)) = length (serverdata st)"
    unfolding res using IH [OF d(1)] at(2) by simp
  moreover have "serverdata (fold apply_smsg (m # ms) st) ! l = data_slot w (serverdata st ! l)"
    if "SData l w \<in> set (m # ms)" for l w
  proof (cases "SData l w = m")
    case True
    then have "l = k" "w = v" using m(1) by simp_all
    then show ?thesis unfolding res using IH [OF d(1)] d(2) at(1) by simp
  next
    case False
    then have "SData l w \<in> set ms" using that by simp
    with other [OF this] off [of l] IH [OF d(1)] show ?thesis unfolding res by simp
  qed
  moreover have "serverdata (fold apply_smsg (m # ms) st) ! l = serverdata st ! l"
    if "l \<notin> smsg_index ` set (m # ms)" for l
  proof -
    have "l \<noteq> k" "l \<notin> smsg_index ` set ms" using that m(1) by auto
    with off [of l] IH [OF d(1)] show ?thesis unfolding res by simp
  qed
  ultimately show ?case by blast
qed simp

text \<open>No entry waits to be answered, and every valid entry belongs to a valid slot of the client.\<close>

definition no_answer :: "cdata \<Rightarrow> bool" where
  "no_answer c \<longleftrightarrow> cstr (cd_name c) = [] \<or> (cd_status c \<noteq> XPSTATUS_LINK \<and> cd_status c \<noteq> XPSTATUS_UNLINK)"

definition entries_linked :: "cdata list \<Rightarrow> sdata list \<Rightarrow> bool" where
  "entries_linked cs ss \<longleftrightarrow> length ss \<le> 1000000 \<and>
     (\<forall>k < length cs. cstr (cd_name (cs ! k)) \<noteq> [] \<and> cd_status (cs ! k) = XPSTATUS_VALID \<and> known_type (cd_type (cs ! k)) \<longrightarrow>
        k < length ss \<and> mirrors (cs ! k) (ss ! k) \<and> sd_status (ss ! k) = XPSTATUS_VALID)"

lemma replied_data_acceptable:
  assumes "\<forall>c \<in> set (clientdata g). no_answer c" and "entries_linked (clientdata g) (serverdata st)"
    and "xplm_reads X" and "m \<in> set (snd (replies H X w 0 (clientdata g) 0))"
  shows "\<exists>k < length (serverdata st). k < length (clientdata g) \<and> m = SData k (entry_value H X w (clientdata g ! k)) \<and>
    acceptable st m \<and> mirrors (clientdata g ! k) (serverdata st ! k) \<and>
    sd_status (serverdata st ! k) = XPSTATUS_VALID"
proof -
  obtain k where k: "k < length (clientdata g)" "entry_msg H X w k (clientdata g ! k) = Some m"
    using replies_sound [OF assms(4)] by auto
  let ?c = "clientdata g ! k"
  have na: "no_answer ?c" using assms(1) k(1) by simp
  then have m: "m = SData k (entry_value H X w ?c)" "cstr (cd_name ?c) \<noteq> []"
    "cd_status ?c = XPSTATUS_VALID" "known_type (cd_type ?c)" "\<not> command_type (cd_type ?c)"
    using k(2) by (auto simp: entry_msg_def no_answer_def split: if_splits)
  with assms(2) k(1) have s: "k < length (serverdata st)" "mirrors ?c (serverdata st ! k)"
    "sd_status (serverdata st ! k) = XPSTATUS_VALID" "k < 1000000"
    by (auto simp: entries_linked_def)
  have "length (entry_value H X w ?c) = entry_size ?c" by (rule get_xplane_value(2) [OF assms(3) m(4,5)])
  then have "acceptable st m"
    using m(1,4) s by (simp add: mirrors_def entry_size_def slot_size_def)
  with k(1) m(1) s show ?thesis by blast
qed

lemma replies_bound_eot:
  "int (n + 4) \<le> TCPBUFSIZE \<Longrightarrow> \<forall>c \<in> set cs. no_answer c \<Longrightarrow>
   int (n + length (enc_smsgs (snd (replies H X w i cs n))) + 4) \<le> TCPBUFSIZE"
proof (induction i cs n rule: replies_cases [where H = H and X = X and w = w])
  case (Sent i c cs n m)
  then have "reply_room m = length (enc_smsg m) + 4"
    by (auto simp: entry_msg_def no_answer_def split: if_splits)
  with Sent show ?case by (simp add: replies_Cons enc_smsgs_def del: replies.simps(2))
qed (simp_all add: replies_Cons enc_smsgs_def del: replies.simps(2))

lemma data_slot_received:
  assumes "slot_ok s" and "known_type (sd_type s)" and "sd_status s = XPSTATUS_VALID"
    and "length v = slot_size s" and "no_miss (sd_type s) (slot_elems s) v"
  shows "sd_data (data_slot v s) = Some v \<and> sd_data_old (data_slot v s) = Some v"
proof -
  obtain a b where ab: "sd_data s = Some a" "length a = slot_size s" "sd_data_old s = Some b" "length b = slot_size s"
    using slot_ok_dims [OF assms(1,2)] by blast
  then show ?thesis
    using merge_no_miss [OF assms(5)] assms(3,4) slot_size_elems [of s]
    by (simp add: data_slot_def Let_def slot_elems_def)
qed

text \<open>C9: X-Plane drives the cockpit: on linked tables without pending answers, one call of the plugin's
  \<open>send_client\<close> and one of the client's \<open>receive_xpserver\<close>, with the bytes cut by the network as \<open>delivers\<close>
  allows (a first piece of at least four bytes, no early end marker value),
  leave in every slot for which a value was sent X-Plane's present value, in the block that the
  application reads as well as in the one it is compared with (unless an element is the missing-value
  marker), and the table of the client well-formed.\<close>

theorem values_reach_cockpit:
  assumes "entries_ok g" and "srv_status g = srv_Connected" and "clientdata g \<noteq> []"
    and "xplm_reads X" and "\<forall>n. avail H n" and "\<forall>c \<in> set (clientdata g). no_answer c"
    and "replies H X (env g) 0 (clientdata g) 0 = (cs, ms)" and "ms \<noteq> []"
    and "takes (length (reply_transmission ms)) evs"
    and "table_ok st" and "entries_linked (clientdata g) (serverdata st)"
    and "socketStatus st = status_Connected" and "\<forall>n. av n" and "int (length (recvBuffer st)) = TCPBUFSIZE"
    and "delivers [] revs (reply_transmission ms)"
  shows "\<exists>g' st' n. send_client H X evs g = Some (g', reply_transmission ms, []) \<and>
    receive_xpserver av sock_ok now revs st = Some (st', n, []) \<and> table_ok st' \<and>
    (\<forall>k v. SData k v \<in> set ms \<longrightarrow> k < length (serverdata st) \<and> v = entry_value H X (env g) (clientdata g ! k) \<and>
       (no_miss (sd_type (serverdata st ! k)) (slot_elems (serverdata st ! k)) v \<longrightarrow>
          sd_data (serverdata st' ! k) = Some v \<and> sd_data_old (serverdata st' ! k) = Some v))"
proof -
  have room: "int (length (enc_smsgs ms) + 4) \<le> TCPBUFSIZE"
    using replies_bound_eot [of 0 "clientdata g" H X "env g" 0] assms(6,7) by simp
  obtain g' where g': "send_client H X evs g = Some (g', reply_transmission ms, [])"
    using send_client_replies [OF assms(1-5,7) room assms(9)] by blast
  let ?st = "reset_received (tick st)"
  let ?res = "\<lambda>buf. fold apply_smsg ms (?st\<lparr>recvBuffer := buf\<rparr>)"
  have ok: "table_ok ?st" by (rule reset_received_ok [OF tick_ok [OF assms(10)]])
  have sd: "serverdata ?st = map (\<lambda>s. s\<lparr>sd_received := 0\<rparr>) (serverdata st)"
    by (simp add: reset_received_def tick_def Let_def)
  have linked: "entries_linked (clientdata g) (serverdata (?st\<lparr>recvBuffer := buf\<rparr>))" for buf
    using assms(11) by (auto simp: entries_linked_def sd mirrors_def)
  have acc: "\<exists>k < length (serverdata st). m = SData k (entry_value H X (env g) (clientdata g ! k)) \<and>
      acceptable (?st\<lparr>recvBuffer := buf\<rparr>) m \<and> sd_status (serverdata st ! k) = XPSTATUS_VALID"
    if "m \<in> set ms" for m buf
    using replied_data_acceptable [OF assms(6) linked assms(4), of m H "env g" buf] that assms(7)
    by (auto simp: sd)
  have dist: "distinct (map smsg_index ms)"
    using replies_distinct [of H X "env g" 0 "clientdata g" 0] assms(7) by simp
  have "\<forall>m \<in> set ms. (\<exists>k v. m = SData k v) \<and> acceptable (?st\<lparr>recvBuffer := buf\<rparr>) m" for buf
    using acc [of _ buf] by blast
  note run = run_sdata [OF this dist]
  have "all_acceptable ?st ms"
    using run [of undefined] all_acceptable_serverdata [of "?st\<lparr>recvBuffer := undefined\<rparr>" ?st ms] by simp
  moreover have tr: "reply_transmission ms = enc_smsgs ms @ end_mark False"
    using assms(8) by (simp add: reply_transmission_def end_mark_def)
  ultimately obtain buf where r: "receive_xpserver av sock_ok now revs st =
      Some (count_received (?res buf), int (length (enc_smsgs ms) + 4), [])"
    using receive_xpserver_applies [OF assms(10,12,13,14), of revs ms sock_ok now] assms(15) room by auto
  have "table_ok (?res buf)"
    by (rule fold_apply_ok) (use ok run [of buf] in \<open>simp_all add: table_ok_def\<close>)
  then have ok': "table_ok (count_received (?res buf))" by (simp add: table_ok_def count_received_def)
  have "k < length (serverdata st) \<and> v = entry_value H X (env g) (clientdata g ! k) \<and>
      (no_miss (sd_type (serverdata st ! k)) (slot_elems (serverdata st ! k)) v \<longrightarrow>
         sd_data (serverdata (count_received (?res buf)) ! k) = Some v \<and>
         sd_data_old (serverdata (count_received (?res buf)) ! k) = Some v)"
    if m: "SData k v \<in> set ms" for k v
  proof -
    have k: "k < length (serverdata st)" "v = entry_value H X (env g) (clientdata g ! k)"
      "acceptable (?st\<lparr>recvBuffer := buf\<rparr>) (SData k v)" "sd_status (serverdata st ! k) = XPSTATUS_VALID"
      using acc [OF m, of buf] by auto
    let ?s = "(serverdata st ! k)\<lparr>sd_received := 0\<rparr>"
    have "slot_ok ?s" using table_okD(1) [OF assms(10) k(1)] by (simp add: slot_ok_def)
    moreover have "serverdata (count_received (?res buf)) ! k = data_slot v ?s"
      using run [of buf] m k(1) sd by (simp add: count_received_def)
    ultimately show ?thesis
      using k data_slot_received [of ?s v] sd by (simp add: slot_size_def slot_elems_def)
  qed
  with g' r ok' show ?thesis by blast
qed

end
