(* ===== verification/CustomAccess.thy ===== *)
theory CustomAccess
  imports CustomData
begin

text \<open>
  The accessor callbacks of custom datarefs: what is written through one is read back through
  the other, and no access leaves the block that was allocated.
\<close>

section \<open>Arrays behind an accessor\<close>

definition array_at :: "nat \<Rightarrow> 'x world \<Rightarrow> nat \<Rightarrow> nat \<Rightarrow> bool" where
  "array_at es w i n \<longleftrightarrow>
     (case customdata w of None \<Rightarrow> False
      | Some cs \<Rightarrow> i < length cs \<and> cu_nelements (cs ! i) = int n \<and>
          (case cu_data (cs ! i) of None \<Rightarrow> False | Some d \<Rightarrow> length d = n * es))"

definition content :: "'x world \<Rightarrow> nat \<Rightarrow> mem" where
  "content w i = the (cu_data (the (customdata w) ! i))"

lemma array_atE:
  assumes "array_at es w i n"
  obtains cs d where "customdata w = Some cs" "i < length cs" "cu_nelements (cs ! i) = int n"
    "cu_data (cs ! i) = Some d" "length d = n * es" "content w i = d"
  using assms by (auto simp: array_at_def content_def split: option.splits)

text \<open>
  The contract between the plugin and whoever uses the accessors: a read copies the elements of
  the range that exist and says how many, a write replaces exactly them, and neither fails on an
  offset within the array.
\<close>

locale array_accessor =
  fixes es :: nat
    and get :: "nat option \<Rightarrow> bool \<Rightarrow> int \<Rightarrow> int \<Rightarrow> 'x world \<Rightarrow> (int \<times> mem) option"
    and put :: "nat option \<Rightarrow> mem \<Rightarrow> int \<Rightarrow> int \<Rightarrow> 'x world \<Rightarrow> 'x world option"
  assumes read_range: "array_at es w i n \<Longrightarrow> off \<le> n \<Longrightarrow> get (Some i) False (int off) (int k) w =
      Some (int (min k (n - off)), take (min k (n - off) * es) (drop (off * es) (content w i)))"
    and write_range: "array_at es w i n \<Longrightarrow> off \<le> n \<Longrightarrow> min k (n - off) * es \<le> length vs \<Longrightarrow>
      \<exists>w'. put (Some i) vs (int off) (int k) w = Some w' \<and> array_at es w' i n \<and> plane w' = plane w \<and>
        content w' i = take (off * es) (content w i) @ take (min k (n - off) * es) vs @
                       drop ((off + min k (n - off)) * es) (content w i) \<and>
        (\<forall>j. j \<noteq> i \<longrightarrow> content w' j = content w j)"
    and array_length: "array_at es w i n \<Longrightarrow> length (content w i) = n * es"
begin

lemma read_back:
  assumes "array_at es w i n" and "off \<le> n" and "min k (n - off) * es \<le> length vs"
  shows "\<exists>w'. put (Some i) vs (int off) (int k) w = Some w' \<and> array_at es w' i n \<and>
    get (Some i) False (int off) (int k) w' = Some (int (min k (n - off)), take (min k (n - off) * es) vs)"
proof -
  obtain w' where w': "put (Some i) vs (int off) (int k) w = Some w'" "array_at es w' i n"
    "content w' i = take (off * es) (content w i) @ take (min k (n - off) * es) vs @
       drop ((off + min k (n - off)) * es) (content w i)"
    using write_range [OF assms] by blast
  have "off * es \<le> length (content w i)" using array_length [OF assms(1)] assms(2) by simp
  then show ?thesis
    using w' read_range [OF w'(2) assms(2), of k] assms(3)
    by (intro exI [of _ w']) (simp add: min_def)
qed

lemma read_other:
  assumes "array_at es w i n" and "off < n" and "es \<le> length vs" and "j < n" and "j \<noteq> off"
  shows "\<exists>w'. put (Some i) vs (int off) 1 w = Some w' \<and> array_at es w' i n \<and>
    get (Some i) False (int j) 1 w' = get (Some i) False (int j) 1 w"
proof -
  have one: "min 1 (n - off) = 1" "min 1 (n - j) = 1" using assms(2,4) by simp_all
  obtain w' where w': "put (Some i) vs (int off) 1 w = Some w'" "array_at es w' i n"
    "content w' i = take (off * es) (content w i) @ take es vs @ drop ((off + 1) * es) (content w i)"
    using write_range [of w i n off 1 vs] assms(1-3) one by auto
  have l: "length (content w i) = n * es" by (rule array_length [OF assms(1)])
  have oe: "(off + 1) * es \<le> n * es" using assms(2) by (intro mult_le_mono1) simp
  have "take es (drop (j * es) (content w' i)) = take es (drop (j * es) (content w i))"
  proof (cases "j < off")
    case True
    then have "(j + 1) * es \<le> off * es" by (intro mult_le_mono1) simp
    then show ?thesis using l oe w'(3) by (simp add: take_drop)
  next
    case False
    with assms(5) have "(off + 1) * es \<le> j * es" by (intro mult_le_mono1) simp
    moreover have "min (n * es) (off * es) = off * es" using assms(2) by simp
    moreover have "off * es - j * es = 0" "off * es \<le> j * es"
      using calculation(1) by (simp_all only: add_mult_distrib diff_is_0_eq)
    ultimately show ?thesis using l oe w'(3) assms(3) by simp
  qed
  then show ?thesis
    using w'(1,2) read_range [OF w'(2), of j 1] read_range [OF assms(1), of j 1] assms(4) one by auto
qed

end

section \<open>The callbacks\<close>

lemma get_array_range:
  assumes "array_at es w i n" and "off \<le> n"
  shows "get_array es (Some i) False (int off) (int k) w =
    Some (int (min k (n - off)), take (min k (n - off) * es) (drop (off * es) (content w i)))"
proof -
  obtain cs d where w: "customdata w = Some cs" "i < length cs" "cu_nelements (cs ! i) = int n"
    "cu_data (cs ! i) = Some d" "length d = n * es" "content w i = d"
    using array_atE [OF assms(1)] .
  have c: "copied (cs ! i) (int off) (int k) = int (min k (n - off))"
    using w(3) assms(2) by (simp add: copied_def Let_def)
  have "(off + min k (n - off)) * es \<le> n * es" using assms(2) by (intro mult_le_mono1) simp
  then have "mem_read d (int (off * es)) (min k (n - off) * es) =
      Some (take (min k (n - off) * es) (drop (off * es) d))"
    using w(5) by (simp add: mem_read_def add_mult_distrib flip: of_nat_mult of_nat_add)
  with w c show ?thesis by (simp add: get_array_def refcon_data_def Let_def)
qed

lemma set_array_range:
  assumes "array_at es w i n" and "off \<le> n" and "min k (n - off) * es \<le> length vs"
  shows "\<exists>w'. set_array es (Some i) vs (int off) (int k) w = Some w' \<and> array_at es w' i n \<and> plane w' = plane w \<and>
    content w' i = take (off * es) (content w i) @ take (min k (n - off) * es) vs @
                   drop ((off + min k (n - off)) * es) (content w i) \<and>
    (\<forall>j. j \<noteq> i \<longrightarrow> content w' j = content w j)"
proof -
  obtain cs d where w: "customdata w = Some cs" "i < length cs" "cu_nelements (cs ! i) = int n"
    "cu_data (cs ! i) = Some d" "length d = n * es" "content w i = d"
    using array_atE [OF assms(1)] .
  obtain r where r: "min k (n - off) = r" by blast
  have c: "copied (cs ! i) (int off) (int k) = int r"
    using w(3) assms(2) r by (auto simp: copied_def Let_def min_def split: if_splits)
  show ?thesis
    unfolding r
  proof (cases "r = 0")
    case True
    then have "set_array es (Some i) vs (int off) (int k) w = Some w"
      using w c by (simp add: set_array_def refcon_data_def Let_def)
    with True assms(1) show "\<exists>w'. set_array es (Some i) vs (int off) (int k) w = Some w' \<and> array_at es w' i n \<and>
        plane w' = plane w \<and>
        content w' i = take (off * es) (content w i) @ take (r * es) vs @ drop ((off + r) * es) (content w i) \<and>
        (\<forall>j. j \<noteq> i \<longrightarrow> content w' j = content w j)" by simp
  next
    case False
    have "off + r \<le> n" using assms(2) r by auto
    then have le: "(off + r) * es \<le> n * es" by (rule mult_le_mono1)
    let ?v = "take (r * es) vs"
    let ?d = "take (off * es) d @ ?v @ drop ((off + r) * es) d"
    let ?w = "upd_custom i (\<lambda>c. c\<lparr>cu_data := Some ?d\<rparr>) w"
    have lv: "r * es \<le> length vs" using assms(3) r by simp
    have rd: "mem_read vs 0 (r * es) = Some ?v" using lv by (simp add: mem_read_def flip: of_nat_mult)
    have wr: "mem_write d (int (off * es)) ?v = Some ?d"
      using lv le w(5) by (simp add: mem_write_def add_mult_distrib flip: of_nat_mult of_nat_add)
    have len: "length ?d = n * es"
      using lv le w(5) by (simp add: add_mult_distrib)
    have "set_array es (Some i) vs (int off) (int k) w = Some ?w"
      using w c False rd wr by (simp add: set_array_def refcon_data_def Let_def)
    moreover have "array_at es ?w i n" "content ?w i = ?d" "plane ?w = plane w"
      using w len by (simp_all add: array_at_def content_def upd_custom_def)
    moreover have "content ?w j = content w j" if "j \<noteq> i" for j
      using that w(1) by (simp add: content_def upd_custom_def)
    ultimately show "\<exists>w'. set_array es (Some i) vs (int off) (int k) w = Some w' \<and> array_at es w' i n \<and>
        plane w' = plane w \<and>
        content w' i = take (off * es) (content w i) @ take (r * es) vs @ drop ((off + r) * es) (content w i) \<and>
        (\<forall>j. j \<noteq> i \<longrightarrow> content w' j = content w j)"
      using w(6) by (intro exI [of _ ?w]) simp
  qed
qed

lemma content_length: "array_at es w i n \<Longrightarrow> length (content w i) = n * es"
  by (auto elim: array_atE)

interpretation ints: array_accessor 4 GetDataviCB SetDataviCB
  unfolding GetDataviCB_def SetDataviCB_def
  by unfold_locales (fact get_array_range set_array_range content_length)+

interpretation floats: array_accessor 4 GetDatavfCB SetDatavfCB
  unfolding GetDatavfCB_def SetDatavfCB_def
  by unfold_locales (fact get_array_range set_array_range content_length)+

interpretation bytes: array_accessor 1 GetDatabCB SetDatabCB
  unfolding GetDatabCB_def SetDatabCB_def
  by unfold_locales (fact get_array_range set_array_range content_length)+

section \<open>Properties\<close>

text \<open>What is written into a range of a custom integer array is read back from it: a write that reaches
  beyond the end is cut off there, the read reports how many elements there are, and neither leaves
  the block.\<close>

theorem custom_ints_read_back:
  assumes "array_at 4 w i n" and "off \<le> n" and "min k (n - off) * 4 \<le> length vs"
  shows "\<exists>w'. SetDataviCB (Some i) vs (int off) (int k) w = Some w' \<and> array_at 4 w' i n \<and>
    GetDataviCB (Some i) False (int off) (int k) w' = Some (int (min k (n - off)), take (min k (n - off) * 4) vs)"
  by (rule ints.read_back [OF assms])

text \<open>Setting one element of a custom float array leaves every other element as it was.\<close>

theorem custom_floats_independent:
  assumes "array_at 4 w i n" and "off < n" and "4 \<le> length vs" and "j < n" and "j \<noteq> off"
  shows "\<exists>w'. SetDatavfCB (Some i) vs (int off) 1 w = Some w' \<and> array_at 4 w' i n \<and>
    GetDatavfCB (Some i) False (int j) 1 w' = GetDatavfCB (Some i) False (int j) 1 w"
  by (rule floats.read_other [OF assms])

end
