(* ===== verification/XpServer.thy ===== *)
theory XpServer
  imports HandleClient
begin

text \<open>
  \<open>xpserver/src/xpserver.c\<close>: the plugin's flight loop callback, which accepts connections and
  exchanges data with each connected client, and its start and stop.

  The globals of \<open>clientdata.c\<close> and \<open>handleclient.c\<close> (\<open>'x server\<close>) serve one client at a
  time; the per-client arrays keep the rest. Windows, menus and the log are left out.
\<close>

section \<open>State\<close>

abbreviation (input) MAXCONNECT :: nat where "MAXCONNECT \<equiv> 20"

record conn =
  co_sock :: int          \<comment> \<open>\<open>clntSockArray\<close>, -1 when free\<close>
  co_addr :: mem          \<comment> \<open>\<open>clntAddrArray\<close>\<close>
  co_data :: "cdata list" \<comment> \<open>\<open>clientdataArray\<close> and \<open>numallocArray\<close>\<close>
  co_numlink :: int
  co_name :: mem

record 'x plugin =
  conns :: "conn list"
  nConnect :: int
  master :: "int list"    \<comment> \<open>\<open>socketSetMaster\<close>\<close>
  servSockMax :: int
  globals :: "'x server"

text \<open>The inputs of one call: the listening socket and what happens on every connection.\<close>

record 'x loop_input =
  in_ready :: bool        \<comment> \<open>\<open>select\<close> reports a connection request\<close>
  in_accept :: int        \<comment> \<open>the result of \<open>accept\<close>\<close>
  in_addr :: mem
  in_stack :: "nat \<Rightarrow> mem"
  in_recv :: "nat \<Rightarrow> recv_event list"
  in_send :: "nat \<Rightarrow> send_event list"

section \<open>Start\<close>

text \<open>The part of \<open>XPluginStart\<close> that sets up the connection slots.\<close>

definition reset_conn :: "conn \<Rightarrow> conn" where
  "reset_conn c = c\<lparr>co_sock := -1, co_addr := strncpy (co_addr c) [0], co_data := [],
     co_numlink := 0, co_name := strncpy (co_name c) [0]\<rparr>"

definition start_slots :: "int \<Rightarrow> 'x plugin \<Rightarrow> 'x plugin" where
  "start_slots servSock p =
     p\<lparr>conns := map reset_conn (conns p), nConnect := 0, master := [servSock],
       servSockMax := servSock\<rparr>"

section \<open>The flight loop callback\<close>

text \<open>\<open>i=0; while ((i < MAXCONNECT) && (clntSockArray[i]>=0)) i++;\<close>\<close>

fun first_free :: "conn list \<Rightarrow> nat" where
  "first_free [] = 0"
| "first_free (c # cs) = (if co_sock c \<ge> 0 then Suc (first_free cs) else 0)"

definition accept_client :: "'x loop_input \<Rightarrow> 'x plugin \<Rightarrow> 'x plugin option" where
  "accept_client inp p =
     (if in_ready inp \<and> nConnect p < int MAXCONNECT then
        (if in_accept inp \<ge> 0 then
           (let i = first_free (conns p)
            in if i < length (conns p) then
                 Some (p\<lparr>master := in_accept inp # master p,
                         servSockMax := max (servSockMax p) (in_accept inp),
                         conns := (conns p)[i := (conns p ! i)\<lparr>co_sock := in_accept inp,
                                     co_addr := strncpy (co_addr (conns p ! i)) (in_addr inp)\<rparr>],
                         nConnect := nConnect p + 1\<rparr>)
               else None)
         else Some p)
      else Some p)"

definition load_conn :: "conn \<Rightarrow> 'x server \<Rightarrow> 'x server" where
  "load_conn c g = g\<lparr>srv_status := srv_Connected, clientdata := co_data c,
     srv_numlink := co_numlink c, srv_clientname := strncpy (srv_clientname g) (co_name c)\<rparr>"

definition store_conn :: "'x server \<Rightarrow> conn \<Rightarrow> conn" where
  "store_conn g c = c\<lparr>co_data := clientdata g, co_numlink := srv_numlink g,
     co_name := strncpy (co_name c) (srv_clientname g)\<rparr>"

definition serve_conn ::
  "heap \<Rightarrow> ('x world) xplm \<Rightarrow> 'x loop_input \<Rightarrow> nat \<Rightarrow> 'x plugin \<Rightarrow> 'x plugin option" where
  "serve_conn H X inp j p =
     (let c = conns p ! j in
      if co_sock c \<ge> 0 then
        do {
          (g, _) \<leftarrow> receive_client H X (in_stack inp j) (in_recv inp j) (load_conn c (globals p));
          (g, _, _) \<leftarrow> send_client H X (in_send inp j) g;
          Some (if srv_status g = srv_Disconnected \<or> srv_status g = srv_Error then
                  (let g = clear_clientdata (g\<lparr>srv_status := srv_Disconnected\<rparr>);
                       g = g\<lparr>srv_clientname := strncpy (srv_clientname g) [0]\<rparr>;
                       c' = c\<lparr>co_sock := -1, co_addr := strncpy (co_addr c) [0]\<rparr>
                   in p\<lparr>master := removeAll (co_sock c) (master p), nConnect := nConnect p - 1,
                        globals := g, conns := (conns p)[j := store_conn g c']\<rparr>)
                else p\<lparr>globals := g, conns := (conns p)[j := store_conn g c]\<rparr>)
        }
      else Some p)"

fun serve_conns ::
  "heap \<Rightarrow> ('x world) xplm \<Rightarrow> 'x loop_input \<Rightarrow> nat list \<Rightarrow> 'x plugin \<Rightarrow> 'x plugin option" where
  "serve_conns H X inp [] p = Some p"
| "serve_conns H X inp (j # js) p =
     do { p \<leftarrow> serve_conn H X inp j p; serve_conns H X inp js p }"

definition xpserverLoopCallback ::
  "heap \<Rightarrow> ('x world) xplm \<Rightarrow> 'x loop_input \<Rightarrow> 'x plugin \<Rightarrow> 'x plugin option" where
  "xpserverLoopCallback H X inp p =
     do {
       p \<leftarrow> accept_client inp p;
       serve_conns H X inp [0..<MAXCONNECT] p
     }"

section \<open>Stop\<close>

text \<open>
  \<open>XPluginStop\<close> tells the connected clients that the plugin goes away. The socket status it
  tests is the global one; the results are the bytes sent on each connection.
\<close>

fun stop_conns ::
  "(nat \<Rightarrow> send_event list) \<Rightarrow> nat list \<Rightarrow> 'x plugin \<Rightarrow> ('x plugin \<times> (nat \<times> mem) list) option" where
  "stop_conns evs [] p = Some (p, [])"
| "stop_conns evs (j # js) p =
     (let c = conns p ! j in
      if co_sock c \<ge> 0 then
        do {
          (g, sent) \<leftarrow> close_client (evs j) ((globals p)\<lparr>clientdata := co_data c\<rparr>);
          let g = clear_clientdata g;
          let c = c\<lparr>co_data := clientdata g, co_numlink := srv_numlink g,
                    co_name := strncpy (co_name c) [0]\<rparr>;
          (p, out) \<leftarrow> stop_conns evs js (p\<lparr>globals := g, conns := (conns p)[j := c]\<rparr>);
          Some (p, (j, sent) # out)
        }
      else stop_conns evs js p)"

definition XPluginStop ::
  "(nat \<Rightarrow> send_event list) \<Rightarrow> 'x plugin \<Rightarrow> ('x plugin \<times> (nat \<times> mem) list) option" where
  "XPluginStop evs p = stop_conns evs [0..<MAXCONNECT] p"

section \<open>Connection slots\<close>

text \<open>There are \<open>MAXCONNECT\<close> slots, and \<open>nConnect\<close> counts those in use.\<close>

definition used :: "conn \<Rightarrow> bool" where
  "used c \<longleftrightarrow> co_sock c \<ge> 0"

definition plugin_ok :: "'x plugin \<Rightarrow> bool" where
  "plugin_ok p \<longleftrightarrow> length (conns p) = MAXCONNECT \<and> nConnect p = int (length (filter used (conns p)))"

lemma first_free_index: "first_free cs = (case first_index (\<lambda>c. \<not> used c) cs of None \<Rightarrow> length cs | Some i \<Rightarrow> i)"
  by (induction cs) (auto simp: used_def split: option.splits)

lemma first_free_bound:
  assumes "int (length (filter used cs)) < int (length cs)"
  shows "first_free cs < length cs \<and> \<not> used (cs ! first_free cs)"
proof (cases "first_index (\<lambda>c. \<not> used c) cs")
  case None
  then have "filter used cs = cs" by (simp add: first_index_None)
  with assms show ?thesis by simp
next
  case (Some i)
  from first_index_Some [OF Some] show ?thesis by (simp add: first_free_index Some)
qed

lemma accept_client_ok:
  assumes "plugin_ok p"
  shows "\<exists>p'. accept_client inp p = Some p' \<and> plugin_ok p' \<and>
    (if in_ready inp \<and> nConnect p < int MAXCONNECT \<and> in_accept inp \<ge> 0
     then nConnect p' = nConnect p + 1 \<and> (\<exists>i < MAXCONNECT. \<not> used (conns p ! i) \<and>
            co_sock (conns p' ! i) = in_accept inp \<and> (\<forall>j < MAXCONNECT. j \<noteq> i \<longrightarrow> conns p' ! j = conns p ! j))
     else p' = p)"
proof (cases "in_ready inp \<and> nConnect p < int MAXCONNECT \<and> in_accept inp \<ge> 0")
  case False
  with assms show ?thesis by (auto simp: accept_client_def)
next
  case True
  let ?i = "first_free (conns p)"
  let ?c = "(conns p ! ?i)\<lparr>co_sock := in_accept inp, co_addr := strncpy (co_addr (conns p ! ?i)) (in_addr inp)\<rparr>"
  have l: "length (conns p) = MAXCONNECT" "nConnect p = int (length (filter used (conns p)))"
    using assms by (simp_all add: plugin_ok_def)
  with True first_free_bound [of "conns p"] have i: "?i < MAXCONNECT" "\<not> used (conns p ! ?i)" by simp_all
  have "int (length (filter used ((conns p)[?i := ?c]))) = nConnect p + 1"
    using count_upd [of ?i "conns p" used ?c] i l True by (simp add: used_def)
  with True i l show ?thesis
    by (auto simp: accept_client_def plugin_ok_def Let_def)
qed

lemma serve_conn_ok:
  fixes p :: "'x plugin"
  assumes "plugin_ok p" and "j < MAXCONNECT" and "serve_conn H X inp j p = Some p'"
  shows "plugin_ok p' \<and> (\<forall>i < MAXCONNECT. i \<noteq> j \<longrightarrow> conns p' ! i = conns p ! i)"
proof (cases "used (conns p ! j)")
  case False
  with assms show ?thesis by (auto simp: serve_conn_def used_def)
next
  case True
  have l: "length (conns p) = MAXCONNECT" "nConnect p = int (length (filter used (conns p)))"
    using assms(1) by (simp_all add: plugin_ok_def)
  have keep: "int (length (filter used ((conns p)[j := store_conn g (conns p ! j)]))) = nConnect p" for g :: "'x server"
    using count_upd [of j "conns p" used "store_conn g (conns p ! j)"] assms(2) l True
    by (simp add: used_def store_conn_def)
  have free: "int (length (filter used ((conns p)[j := store_conn g ((conns p ! j)\<lparr>co_sock := -1, co_addr := a\<rparr>)]))) =
      nConnect p - 1" for g :: "'x server" and a
    using count_upd [of j "conns p" used "store_conn g ((conns p ! j)\<lparr>co_sock := -1, co_addr := a\<rparr>)"] assms(2) l True
    by (simp add: used_def store_conn_def)
  show ?thesis
    using assms(3) True l keep free
    by (auto simp: serve_conn_def used_def plugin_ok_def Let_def split: bind_splits if_splits)
qed

lemma serve_conns_ok:
  "plugin_ok p \<Longrightarrow> \<forall>j \<in> set js. j < MAXCONNECT \<Longrightarrow> serve_conns H X inp js p = Some p' \<Longrightarrow> plugin_ok p'"
proof (induction js arbitrary: p)
  case (Cons j js)
  then obtain p1 where "serve_conn H X inp j p = Some p1" "serve_conns H X inp js p1 = Some p'"
    by (auto split: bind_splits)
  with Cons serve_conn_ok [of p j H X inp p1] show ?case by auto
qed simp

lemma start_slots_ok:
  assumes "length (conns p) = MAXCONNECT"
  shows "plugin_ok (start_slots servSock p)"
  using assms by (simp add: plugin_ok_def start_slots_def filter_empty_conv used_def reset_conn_def)

section \<open>Properties\<close>

text \<open>A new connection never overruns the arrays: while fewer than \<open>MAXCONNECT\<close> clients are connected an
  accepted connection gets a free slot, no other slot changes and the counter stays exact; otherwise,
  or when there is none to accept, nothing changes.\<close>

theorem accept_client_correct:
  assumes "plugin_ok p"
  shows "\<exists>p'. accept_client inp p = Some p' \<and> plugin_ok p' \<and>
    (if in_ready inp \<and> nConnect p < int MAXCONNECT \<and> in_accept inp \<ge> 0
     then nConnect p' = nConnect p + 1 \<and> (\<exists>i < MAXCONNECT. \<not> used (conns p ! i) \<and>
            co_sock (conns p' ! i) = in_accept inp \<and> (\<forall>j < MAXCONNECT. j \<noteq> i \<longrightarrow> conns p' ! j = conns p ! j))
     else p' = p)"
  by (rule accept_client_ok [OF assms])

inductive plugin_run :: "heap \<Rightarrow> ('x world) xplm \<Rightarrow> 'x plugin \<Rightarrow> bool" for H X where
  start: "length (conns p) = MAXCONNECT \<Longrightarrow> plugin_run H X (start_slots servSock p)"
| loop: "plugin_run H X p \<Longrightarrow> xpserverLoopCallback H X inp p = Some p' \<Longrightarrow> plugin_run H X p'"

text \<open>C37: The connection counter is exact for ever: from the start of the plugin on, after every run of the
  flight loop callback, whatever the clients send and X-Plane does, it is the number of slots in use
  and lies between 0 and \<open>MAXCONNECT\<close>.\<close>

theorem connection_count_exact:
  assumes "plugin_run H X p"
  shows "nConnect p = int (length (filter used (conns p))) \<and> 0 \<le> nConnect p \<and> nConnect p \<le> int MAXCONNECT"
proof -
  from assms have "plugin_ok p"
  proof induction
    case (start p servSock)
    then show ?case by (rule start_slots_ok)
  next
    case (loop p inp p')
    then obtain p1 where a: "accept_client inp p = Some p1" and s: "serve_conns H X inp [0..<MAXCONNECT] p1 = Some p'"
      by (auto simp: xpserverLoopCallback_def split: bind_splits)
    from accept_client_ok [OF loop.IH, of inp] a have "plugin_ok p1" by auto
    with serve_conns_ok [OF _ _ s] show ?case by auto
  qed
  then have "length (conns p) = MAXCONNECT" "nConnect p = int (length (filter used (conns p)))"
    by (simp_all add: plugin_ok_def)
  with length_filter_le [of used "conns p"] show ?thesis by simp
qed

end
