(* ===== verification/Samples.thy ===== *)
theory Samples
  imports ClientSystem EndToEnd CustomAccess XpServer Dictionary
begin

text \<open>
  Concrete states of both programs, on which the theorems of the development are applied: a client
  with one integer dataref called ``a'', a plugin with the entry that belongs to it, an X-Plane
  that knows every name, and a custom array of three elements.
\<close>

definition demo_name :: mem where
  "demo_name = chars ''a'' @ replicate 99 0"

definition demo_slot :: "int \<Rightarrow> int \<Rightarrow> int \<Rightarrow> sdata" where
  "demo_slot status v v_old =
     \<lparr>sd_name = demo_name, sd_type = XPTYPE_INT, sd_nelements = 1, sd_index = 0, sd_precision = INT_MISS,
      sd_status = status, sd_data = Some (enc_int v), sd_data_old = Some (enc_int v_old),
      sd_nextindex = INT_MISS, sd_nsend = 0, sd_nrecv = 0, sd_received = 0\<rparr>"

definition demo_client :: "int \<Rightarrow> sdata list \<Rightarrow> client" where
  "demo_client status ss =
     \<lparr>serverdata = ss, numlink = 0, lastindex = 0, numreceived = 0, predict = 1, serverdata_verbose = 0,
      clientname = replicate NAMELEN 0, interval = 0, interval_counter = 0,
      socketStatus = status, recvBuffer = replicate 1000000 0, XPlaneServerIP = [0],
      XPlaneServerManual = 0, connect_t1 = (0, 0)\<rparr>"

definition demo_entry :: "int \<Rightarrow> int \<Rightarrow> cdata" where
  "demo_entry status v =
     \<lparr>cd_name = demo_name, cd_type = XPTYPE_INT, cd_nelements = 1, cd_index = 0, cd_precision = INT_MISS,
      cd_status = status, cd_data = Some (enc_int v), cd_dataref = 1, cd_write = 1\<rparr>"

definition demo_world :: "unit world" where
  "demo_world = \<lparr>customdata = None, plane = ()\<rparr>"

definition demo_server :: "cdata list \<Rightarrow> unit server" where
  "demo_server cs =
     \<lparr>clientdata = cs, srv_numlink = 0, srv_clientname = replicate NAMELEN 0,
      srv_status = srv_Connected, env = demo_world\<rparr>"

definition demo_custom :: custom where
  "demo_custom = \<lparr>cu_name = replicate NAMELEN 0, cu_type = XPTYPE_INT_ARR, cu_nelements = 3,
     cu_data = Some (replicate 12 0)\<rparr>"

definition demo_heap :: heap where
  "demo_heap = \<lparr>avail = \<lambda>_. True, fresh = \<lambda>_. 0, junk_entry = \<lambda>_. demo_entry 0 0, junk_custom = demo_custom\<rparr>"

text \<open>An X-Plane that has a command and an integer dataref for every name when \<open>knows\<close>, else nothing.\<close>

definition demo_xplm :: "bool \<Rightarrow> (unit world) xplm" where
  "demo_xplm knows =
     \<lparr>XPLMFindCommand = \<lambda>_ _. if knows then 1 else 0, XPLMFindDataRef = \<lambda>_ _. if knows then 1 else 0,
      XPLMIsDataRefGood = \<lambda>_ _. knows, XPLMGetDataRefTypes = \<lambda>_ _. 1, XPLMCanWriteDataRef = \<lambda>_ _. 1,
      XPLMCountDatavf = \<lambda>_ _. 1, XPLMCountDatavi = \<lambda>_ _. 1, XPLMCountDatab = \<lambda>_ _. 1,
      XPLMGetDatai = \<lambda>_ _. 7, XPLMGetDataf = \<lambda>_ _. [0, 0, 0, 0], XPLMGetDatad = \<lambda>_ _. replicate 8 0,
      XPLMGetDatavf = \<lambda>_ _ _ _. [], XPLMGetDatavi = \<lambda>_ _ _ _. [], XPLMGetDatab = \<lambda>_ _ _ _. [],
      XPLMSetDatai = \<lambda>_ _ w. w, XPLMSetDataf = \<lambda>_ _ w. w, XPLMSetDatad = \<lambda>_ _ w. w,
      XPLMSetDatavf = \<lambda>_ _ _ _ w. w, XPLMSetDatavi = \<lambda>_ _ _ _ w. w, XPLMSetDatab = \<lambda>_ _ _ _ w. w,
      XPLMCommandOnce = \<lambda>_ w. w, XPLMCommandBegin = \<lambda>_ w. w, XPLMCommandEnd = \<lambda>_ w. w,
      XPLMRegisterDataAccessor = \<lambda>_ _ _ w. (1, w)\<rparr>"

definition demo_conn :: conn where
  "demo_conn = \<lparr>co_sock = -1, co_addr = replicate NAMELEN 0, co_data = [], co_numlink = 0,
     co_name = replicate NAMELEN 0\<rparr>"

definition demo_plugin :: "unit plugin" where
  "demo_plugin = \<lparr>conns = replicate MAXCONNECT demo_conn, nConnect = 0, master = [3], servSockMax = 3,
     globals = demo_server []\<rparr>"

definition demo_array :: "unit world" where
  "demo_array = \<lparr>customdata = Some [demo_custom], plane = ()\<rparr>"

lemma demo_name_facts [simp]:
  "length demo_name = NAMELEN" "terminated demo_name" "cstr demo_name = [0x61]"
  by (simp_all add: demo_name_def chars_def)

lemma demo_good [simp]: "good_name demo_name"
  by (simp add: good_name_def)

lemma demo_own [simp]: "\<not> custom_name demo_name"
  by (simp add: custom_name_def demo_name_def chars_def)

lemma demo_int [simp]: "known_type 1" "scalar_type 1" "block_size 1 1 0 = 4" "elem_size 1 = 4" "elem_count 1 1 0 = 1"
  by (simp_all add: known_type_def scalar_type_def block_size_def elem_count_def elem_size_def)

lemma demo_slot_ok [simp]: "slot_ok (demo_slot status v v_old)"
  by (simp add: slot_ok_def demo_slot_def name_ok_def in_i32_def dims_ok_def block_ok_def)

lemma demo_slot_fields [simp]:
  "sd_name (demo_slot status v v_old) = demo_name" "sd_type (demo_slot status v v_old) = 1"
  "sd_nelements (demo_slot status v v_old) = 1" "sd_index (demo_slot status v v_old) = 0"
  "sd_precision (demo_slot status v v_old) = INT_MISS"
  "sd_status (demo_slot status v v_old) = status" "sd_data (demo_slot status v v_old) = Some (enc_int v)"
  "sd_data_old (demo_slot status v v_old) = Some (enc_int v_old)"
  "sd_nextindex (demo_slot status v v_old) = INT_MISS"
  by (simp_all add: demo_slot_def)

lemma demo_sizes [simp]:
  "slot_size (demo_slot status v v_old) = 4" "slot_elems (demo_slot status v v_old) = 1"
  by (simp_all add: slot_size_def slot_elems_def)

lemma demo_client_fields [simp]:
  "serverdata (demo_client status ss) = ss" "socketStatus (demo_client status ss) = status"
  "length (recvBuffer (demo_client status ss)) = 1000000" "length (clientname (demo_client status ss)) = NAMELEN"
  "lastindex (demo_client status ss) = 0"
  by (simp_all add: demo_client_def)

lemma demo_client_ok [simp]:
  "table_ok (demo_client status [])" "table_ok (demo_client status [demo_slot x v v_old])"
  by (simp_all add: table_ok_def unique_keys_def next_ok_def)

lemma demo_live [simp]: "live (demo_slot status v v_old)"
  by (simp add: live_def)

lemma demo_not_nan [simp]: "\<not> slot_nan (demo_slot status v v_old)"
  by (simp add: slot_nan_def elem_nan_def)

lemma demo_changed [simp]:
  "in_i32 v \<Longrightarrow> in_i32 v_old \<Longrightarrow> slot_changed (demo_slot status v v_old) = (v \<noteq> v_old)"
  using le.enc_inject [of v v_old] by (auto simp: slot_changed_def elem_changed_def)

lemma demo_entry_fields [simp]:
  "cd_name (demo_entry status v) = demo_name" "cd_type (demo_entry status v) = 1"
  "cd_nelements (demo_entry status v) = 1" "cd_index (demo_entry status v) = 0"
  "cd_status (demo_entry status v) = status" "cd_data (demo_entry status v) = Some (enc_int v)"
  "cd_dataref (demo_entry status v) = 1" "cd_write (demo_entry status v) = 1"
  by (simp_all add: demo_entry_def)

lemma demo_entry_ok [simp]: "entry_ok (demo_entry status v)"
  by (simp add: entry_ok_def name_ok_def in_i32_def dims_ok_def block_ok_def)

lemma demo_server_fields [simp]:
  "clientdata (demo_server cs) = cs" "srv_status (demo_server cs) = srv_Connected" "env (demo_server cs) = demo_world"
  by (simp_all add: demo_server_def)

lemma demo_server_ok [simp]: "entries_ok (demo_server [])" "entries_ok (demo_server [demo_entry status v])"
  by (simp_all add: entries_ok_def)

lemma demo_heap_fields [simp]: "avail demo_heap = (\<lambda>_. True)" "junk_entry demo_heap k = demo_entry 0 0"
  by (simp_all add: demo_heap_def)

lemma demo_check [simp]:
  "check_error (demo_xplm True) w (as_entry (demo_slot status v v_old)) = None"
  "handle_of (demo_xplm True) w (as_entry (demo_slot status v v_old)) = 1"
  "check_error (demo_xplm False) w (as_entry (demo_slot status v v_old)) =
     Some (chars ''Dataref '' @ [0x61] @ chars '' not found in X-Plane'')"
  by (simp_all add: check_error_def handle_of_def as_entry_def demo_xplm_def command_type_def count_mismatch_def)

lemma demo_array_at [simp]: "array_at 4 demo_array 0 3"
  by (simp add: array_at_def demo_array_def demo_custom_def)

lemma demo_plugin_ok [simp]: "plugin_ok demo_plugin"
  by (simp add: plugin_ok_def demo_plugin_def used_def demo_conn_def)

end
