(* ===== verification/Witnesses.thy ===== *)
theory Witnesses
  imports Samples
begin

text \<open>
  The theorems with hypotheses, each applied at a concrete state in which its hypotheses hold.
\<close>

theorem client_always_well_formed_witness: "table_ok (demo_client status_Init [])"
proof -
  have "client_run (demo_client status_Init [])"
    by (rule client_run.start) (simp add: client_start_def)
  from client_always_well_formed [OF this] show ?thesis by blast
qed

lemma demo_data_msg: "acceptable (reset_received (tick (demo_client status_Connected [demo_slot XPSTATUS_VALID 1 1])))
    (SData 0 (enc_int 5))"
  by (simp add: reset_received_def tick_def Let_def slot_size_def)

theorem receive_xpserver_correct_witness:
  "\<exists>st' r. receive_xpserver (\<lambda>_. True) True (0, 0) [RData (enc_smsgs [SData 0 (enc_int 5)] @ end_mark False)]
      (demo_client status_Connected [demo_slot XPSTATUS_VALID 1 1]) = Some (st', r, []) \<and> table_ok st'"
proof -
  have "delivers [] [RData (enc_smsgs [SData 0 (enc_int 5)] @ end_mark False)] (enc_smsgs [SData 0 (enc_int 5)] @ end_mark False)"
    by (rule delivers.last_piece) (simp add: enc_smsgs_def enc_int_def)
  from receive_xpserver_correct [where avail = "\<lambda>_. True" and sock_ok = True and now = "(0, 0)",
      OF demo_client_ok(2) _ _ _ this, of status_Connected XPSTATUS_VALID 1 1] demo_data_msg
  show ?thesis by (auto simp: enc_smsgs_def)
qed

theorem disconnect_relinks_witness:
  "\<exists>st' r. receive_xpserver (\<lambda>_. True) True (0, 0) [RData (enc_smsgs [] @ end_mark True)]
      (demo_client status_Connected [demo_slot XPSTATUS_VALID 1 1]) = Some (st', r, []) \<and>
    socketStatus st' = status_Ready \<and> sd_status (serverdata st' ! 0) = XPSTATUS_ALLOC"
proof -
  have "delivers [] [RData (enc_smsgs [] @ end_mark True)] (enc_smsgs [] @ end_mark True)"
    by (rule delivers.last_piece) (simp add: enc_smsgs_def end_mark_def enc_int_def)
  from disconnect_relinks [where avail = "\<lambda>_. True" and sock_ok = True and now = "(0, 0)", OF _ _ _ _ this,
      of "demo_client status_Connected [demo_slot XPSTATUS_VALID 1 1]"]
  obtain st' r where "receive_xpserver (\<lambda>_. True) True (0, 0) [RData (enc_smsgs [] @ end_mark True)]
      (demo_client status_Connected [demo_slot XPSTATUS_VALID 1 1]) = Some (st', r, [])"
    "socketStatus st' = status_Ready"
    "serverdata st' = map relink (serverdata (reset_received (tick (demo_client status_Connected [demo_slot XPSTATUS_VALID 1 1]))))"
    by (auto simp: enc_smsgs_def)
  then show ?thesis
    by (intro exI [of _ st'] exI [of _ r]) (simp add: reset_received_def tick_def Let_def relink_def)
qed

theorem recv_loop_reassembles_witness:
  "recv_loop (demo_client status_Connected []) (replicate 1000000 0) 0
     [RData (enc_int 7), RFail EWOULDBLOCK, RData (enc_int MARK_EOT)] =
   Some (demo_client status_Connected [], (enc_int 7 @ enc_int MARK_EOT) @ drop 8 (replicate 1000000 0), 8, False, [])"
proof -
  have n: "\<not> ends_marked (enc_int 7)" by (simp add: ends_marked_def in_i32_def)
  have "delivers (enc_int 7) [RFail EWOULDBLOCK, RData (enc_int MARK_EOT)] (enc_int MARK_EOT)"
    by (intro delivers.wait delivers.last_piece) (simp_all add: enc_int_def)
  then have d: "delivers [] [RData (enc_int 7), RFail EWOULDBLOCK, RData (enc_int MARK_EOT)] (enc_int 7 @ enc_int MARK_EOT)"
    using n delivers.piece [of "enc_int 7" "[]"] by (simp add: enc_int_def)
  have "ends_marked (enc_int 7 @ enc_int MARK_EOT)"
    using end_mark_ends(1) [of "enc_int 7" False] by (simp add: end_mark_def)
  from recv_loop_reassembles [OF d _ _ this, of "demo_client status_Connected []" "replicate 1000000 0"]
  show ?thesis by simp
qed

theorem send_loop_complete_witness:
  "send_loop [] (enc_int 7) [SFail EWOULDBLOCK, SSent 3, SSent 1] = Some (enc_int 7, True, [])"
proof -
  have "takes (length (enc_int 7)) [SFail EWOULDBLOCK, SSent 3, SSent 1]"
    by (intro takes.blocked takes.portion) (simp_all add: takes.all_taken)
  from send_loop_complete [OF this] show ?thesis .
qed

lemma demo_pack:
  "pack (replicate NAMELEN 0) 0 [demo_slot XPSTATUS_VALID 2 1] 0 =
   ([sent_slot (CData 0 (enc_int 2)) (demo_slot XPSTATUS_VALID 2 1)], [CData 0 (enc_int 2)])"
  by (simp add: slot_msg_def in_i32_def)

text \<open>A table with a changed value and an unlink request.\<close>

definition two_slots :: "sdata list" where
  "two_slots = [demo_slot XPSTATUS_VALID 2 1, dealloc_slot (demo_slot XPSTATUS_VALID 0 0)]"

definition two_msgs :: "cmsg list" where
  "two_msgs = [CData 0 (enc_int 2), CUnlink 1 demo_name]"

lemma two_slots_ok: "table_ok (demo_client status two_slots)"
  by (auto simp: two_slots_def table_ok_def unique_keys_def next_ok_def live_def less_Suc_eq
      dealloc_slot_ok has_key_def dealloc_slot_def known_type_def slot_ok_def name_ok_def in_i32_def
      dims_ok_def block_ok_def)

lemma two_slots_pack:
  "pack (clientname (demo_client status_Connected two_slots)) 0 (serverdata (demo_client status_Connected two_slots)) 0 =
   ([sent_slot (CData 0 (enc_int 2)) (demo_slot XPSTATUS_VALID 2 1),
     sent_slot (CUnlink 1 demo_name) (dealloc_slot (demo_slot XPSTATUS_VALID 0 0))], two_msgs)"
  by (simp add: two_slots_def two_msgs_def slot_msg_def in_i32_def dealloc_slot_def)

lemma two_msgs_size: "length (transmission two_msgs) = 116"
  by (simp add: transmission_def two_msgs_def)

theorem send_xpserver_correct_witness:
  "\<exists>st'. send_xpserver [SSent 100, SSent 16] (demo_client status_Connected two_slots) =
    Some (st', status_Connected, transmission two_msgs, []) \<and> table_ok st'"
proof -
  have "takes (length (transmission two_msgs)) [SSent 100, SSent 16]"
    unfolding two_msgs_size by (intro takes.intros) (simp_all add: takes.all_taken)
  moreover note send_xpserver_correct [OF two_slots_ok _ _ two_slots_pack [symmetric]]
  ultimately show ?thesis using two_msgs_size by fastforce
qed

theorem no_change_lost_witness:
  "\<exists>st' ms. send_xpserver [SSent 100, SFail EWOULDBLOCK, SSent 16] (demo_client status_Connected two_slots) =
      Some (st', status_Connected, transmission ms, []) \<and> ms \<noteq> []"
proof -
  let ?evs = "[SSent 100, SFail EWOULDBLOCK, SSent 16]"
  have t: "takes (length (transmission two_msgs)) ?evs"
    unfolding two_msgs_size by (intro takes.intros) (simp_all add: takes.all_taken)
  obtain st' where s: "send_xpserver ?evs (demo_client status_Connected two_slots) =
      Some (st', status_Connected, transmission two_msgs, [])"
    using send_xpserver_sends [OF two_slots_ok _ _ two_slots_pack _ t] two_msgs_size by simp
  have m: "0 < length (serverdata (demo_client status_Connected two_slots))"
    "slot_msg (clientname (demo_client status_Connected two_slots)) 0
      (serverdata (demo_client status_Connected two_slots) ! 0) = Some (CData 0 (enc_int 2))"
    "int (room (CData 0 (enc_int 2))) \<le> TCPBUFSIZE"
    by (simp_all add: two_slots_def slot_msg_def in_i32_def)
  from no_change_lost [OF two_slots_ok _ s] obtain ms where
    "transmission two_msgs = transmission ms" "ms \<noteq> []"
    using m by auto
  with s show ?thesis by metis
qed

theorem command_once_resets_witness:
  "sd_data (sent_slot (CData 0 (enc_int 1)) ((demo_slot XPSTATUS_VALID 1 0)\<lparr>sd_type := XPTYPE_CMD_ONCE\<rparr>)) = Some (enc_int 0)"
proof -
  let ?s = "(demo_slot XPSTATUS_VALID 1 0)\<lparr>sd_type := XPTYPE_CMD_ONCE\<rparr>"
  have "slot_elems ?s = 1" by (simp add: slot_elems_def elem_count_def scalar_type_def)
  then have "slot_changed ?s"
    using le.enc_inject [of 1 0] by (simp add: slot_changed_def elem_changed_def elem_size_def in_i32_def)
  then have "slot_msg [] 0 ?s = Some (CData 0 (enc_int 1))"
    by (simp add: slot_msg_def known_type_def)
  from command_once_resets [OF this] show ?thesis by simp
qed

theorem receive_client_correct_witness:
  "\<exists>g'. receive_client demo_heap (demo_xplm True) (replicate 1000000 0)
      [RData (enc_cmsgs [CData 0 (enc_int 2)] @ end_mark False)] (demo_server [demo_entry XPSTATUS_VALID 1]) = Some (g', [])"
proof -
  have d: "delivers [] [RData (enc_cmsgs [CData 0 (enc_int 2)] @ end_mark False)] (enc_cmsgs [CData 0 (enc_int 2)] @ end_mark False)"
    by (rule delivers.last_piece) (simp add: enc_int_def)
  have run: "run_cmsgs demo_heap (demo_xplm True) [CData 0 (enc_int 2)] (demo_server [demo_entry XPSTATUS_VALID 1]) =
      Some (apply_data (demo_xplm True) 0 (enc_int 2) (demo_server [demo_entry XPSTATUS_VALID 1]))"
    by (simp add: entry_size_def)
  from receive_client_correct [OF _ _ _ d _ run, of "replicate 1000000 0"] show ?thesis by simp
qed

lemma demo_link_msg:
  "slot_msg [] 0 (demo_slot XPSTATUS_ALLOC 0 0) = Some (CLink 0 1 1 0 INT_MISS demo_name [])"
  by (simp add: slot_msg_def)

theorem link_handshake_witness:
  "\<exists>g1 g2 reply. apply_cmsg demo_heap (demo_xplm True) (CLink 0 1 1 0 INT_MISS demo_name []) (demo_server []) = Some g1 \<and>
    srv_send_entry demo_heap (demo_xplm True) 0 g1 [] = Some (g2, enc_smsg (SLink 0 reply)) \<and>
    cd_status (clientdata g2 ! 0) = XPSTATUS_VALID"
  using link_handshake [where st = "demo_client status_Connected [demo_slot XPSTATUS_ALLOC 0 0]" and k = 0
      and cn = "[]" and m = "CLink 0 1 1 0 INT_MISS demo_name []" and g = "demo_server []" and H = demo_heap
      and X = "demo_xplm True"] demo_link_msg
  by (simp add: matching_entry_def) blast

theorem link_refused_witness:
  "\<exists>g1 g2 reply. apply_cmsg demo_heap (demo_xplm False) (CLink 0 1 1 0 INT_MISS demo_name []) (demo_server []) = Some g1 \<and>
    srv_send_entry demo_heap (demo_xplm False) 0 g1 [] = Some (g2, enc_smsg (SLink 0 reply)) \<and>
    cd_data (clientdata g2 ! 0) = None"
proof -
  have "[0x61] \<noteq> take (NAMELEN - 1) (chars ''Dataref '' @ [0x61] @ chars '' not found in X-Plane'')"
    by (simp add: chars_def)
  with link_refused [where st = "demo_client status_Connected [demo_slot XPSTATUS_ALLOC 0 0]" and k = 0
      and cn = "[]" and m = "CLink 0 1 1 0 INT_MISS demo_name []" and g = "demo_server []" and H = demo_heap
      and X = "demo_xplm False" and e = "chars ''Dataref '' @ [0x61] @ chars '' not found in X-Plane''"] demo_link_msg
  show ?thesis by (simp add: matching_entry_def del: take_append) blast
qed

theorem link_dataref_correct_witness:
  "\<exists>st' j. link_dataref (\<lambda>_. True) (demo_slot 0 0 0) demo_name XPTYPE_INT 1 0 0 (demo_client status_Init []) = Some (st', Some j) \<and>
    has_key demo_name XPTYPE_INT 1 0 (serverdata st' ! j)"
proof -
  have "valid_request 1 1 0" "norm_nelements 1 1 = 1" "norm_index 1 0 = 0"
    by (simp_all add: valid_request_def norm_nelements_def norm_index_def)
  with link_dataref_correct [where avail = "\<lambda>_. True" and junk = "demo_slot 0 0 0" and name = demo_name and t = 1
      and ?n0.0 = 1 and ?i0.0 = 0 and ?p0.0 = 0 and st = "demo_client status_Init []"]
  show ?thesis by (auto simp: in_i32_def split: option.splits)
qed

theorem link_dataref_idempotent_witness:
  "\<exists>st2. link_dataref (\<lambda>_. True) (demo_slot 0 0 0) demo_name XPTYPE_INT 1 0 0
      (demo_client status_Init [demo_slot XPSTATUS_ALLOC 1 1]) = Some (st2, Some 0)"
proof -
  have "valid_request 1 1 0" "norm_nelements 1 1 = 1" "norm_index 1 0 = 0"
    by (simp_all add: valid_request_def norm_nelements_def norm_index_def)
  then obtain st1 where "link_dataref (\<lambda>_. True) (demo_slot 0 0 0) demo_name XPTYPE_INT 1 0 0
      (demo_client status_Init [demo_slot XPSTATUS_ALLOC 1 1]) = Some (st1, Some 0)"
    using link_dataref_found [of "demo_client status_Init [demo_slot XPSTATUS_ALLOC 1 1]" demo_name 1 1 0 0
        "\<lambda>_. True" "demo_slot 0 0 0" 0] by (auto simp: has_key_def)
  from link_dataref_idempotent [OF demo_client_ok(2) demo_good demo_int(1) _ _ this] this
  show ?thesis by blast
qed

theorem unlink_dataref_correct_witness:
  "\<exists>st'. unlink_dataref demo_name (demo_client status_Init [demo_slot XPSTATUS_VALID 1 1]) = Some (st', 1) \<and>
    sd_status (serverdata st' ! 0) = XPSTATUS_DEALLOC"
  using unlink_dataref_correct [of "demo_client status_Init [demo_slot XPSTATUS_VALID 1 1]" demo_name]
  by (auto simp: dealloc_slot_def)

theorem prediction_transparent_witness:
  "\<exists>st'. lookup_slot demo_name XPTYPE_INT 1 0 (demo_client status_Init [demo_slot XPSTATUS_VALID 1 1]) = Some (st', Some 0)"
  using prediction_transparent [of "demo_client status_Init [demo_slot XPSTATUS_VALID 1 1]" demo_name 1 1 0]
  by (auto simp: has_key_def)

theorem allocate_clientdata_correct_witness:
  "\<exists>g'. allocate_clientdata (\<lambda>_. True) (\<lambda>_. demo_entry 0 0) 0 XPTYPE_INT 1 0 0 demo_name (demo_server []) = Some (g', 0) \<and>
    entries_ok g'"
proof -
  have "valid_request 1 1 0" by (simp add: valid_request_def norm_nelements_def norm_index_def)
  with allocate_clientdata_correct [where avail = "\<lambda>_. True" and junk = "\<lambda>_. demo_entry 0 0" and name = demo_name
      and t = 1 and ?n0.0 = 1 and ?i0.0 = 0 and ?p0.0 = 0 and st = "demo_server []" and i = 0]
  show ?thesis by (auto simp: in_i32_def matching_entry_def)
qed

theorem check_entry_correct_witness:
  "snd (check_entry (demo_xplm True) demo_world (demo_entry XPSTATUS_ALLOC 0)) = 0"
proof -
  have e: "check_error (demo_xplm True) demo_world (demo_entry XPSTATUS_ALLOC 0) = None"
    by (simp add: check_error_def demo_xplm_def command_type_def count_mismatch_def)
  obtain c r where c: "check_entry (demo_xplm True) demo_world (demo_entry XPSTATUS_ALLOC 0) = (c, r)"
    by fastforce
  from check_entry_correct [OF _ c] e c show ?thesis by simp
qed

theorem accept_client_correct_witness:
  "\<exists>p'. accept_client \<lparr>in_ready = True, in_accept = 5, in_addr = [0], in_stack = \<lambda>_. [], in_recv = \<lambda>_. [], in_send = \<lambda>_. []\<rparr>
      demo_plugin = Some p' \<and> nConnect p' = 1"
  using accept_client_correct [OF demo_plugin_ok, of "\<lparr>in_ready = True, in_accept = 5, in_addr = [0],
      in_stack = \<lambda>_. [], in_recv = \<lambda>_. [], in_send = \<lambda>_. []\<rparr>"]
  by (auto simp: demo_plugin_def)

theorem connection_count_exact_witness: "nConnect (start_slots 3 demo_plugin) = 0"
proof -
  have "plugin_run demo_heap (demo_xplm True) (start_slots 3 demo_plugin)"
    by (rule plugin_run.start) (simp add: demo_plugin_def)
  from connection_count_exact [OF this] show ?thesis
    by (simp add: start_slots_def)
qed

theorem custom_ints_read_back_witness:
  "\<exists>w'. SetDataviCB (Some 0) (enc_int 7 @ enc_int 8) 1 2 demo_array = Some w' \<and>
    GetDataviCB (Some 0) False 1 2 w' = Some (2, enc_int 7 @ enc_int 8)"
  using custom_ints_read_back [OF demo_array_at, of 1 2 "enc_int 7 @ enc_int 8"] by auto

theorem custom_floats_independent_witness:
  "\<exists>w'. SetDatavfCB (Some 0) [0, 0, 0x80, 0x3F] 1 1 demo_array = Some w' \<and>
    GetDatavfCB (Some 0) False 2 1 w' = GetDatavfCB (Some 0) False 2 1 demo_array"
  using custom_floats_independent [OF demo_array_at, of 1 "[0, 0, 0x80, 0x3F]" 2] by auto

theorem dictionary_get_set_witness:
  "\<exists>d. dictionary_set (\<lambda>_. True) (dictionary_new 0) [0x61] (Some [0x62]) = Some (d, 0) \<and>
    dictionary_get d [0x61] Invalid = Some (Str [0x62])"
  using dictionary_get_set [OF dictionary_new_inv, of 0 "[0x61]" "Some [0x62]" Invalid]
  by (auto simp: ptr_of_def)

theorem dictionary_get_unset_witness:
  "\<exists>d. dictionary_unset (dictionary_new 0) [0x61] = Some d \<and> dictionary_get d [0x61] Null = Some Null"
  using dictionary_get_unset [OF dictionary_new_inv, of 0 "[0x61]" Null] by auto

theorem time_subtract_exact_witness:
  "time_subtract (5, 100) (3, 200) = ((1, 999900), (4, -999800), False) \<and>
   micros (1, 999900) = micros (5, 100) - micros (3, 200)"
proof -
  have e: "time_subtract (5, 100) (3, 200) = ((1, 999900), (4, -999800), False)" by code_simp
  from time_subtract_exact [OF _ _ e] e show ?thesis by simp
qed

theorem switch_cover_determined_witness:
  "set_switch_cover 0 77 (Some [0, 0, 0, 0]) (Some 0) 1 = Some (1, Some 1)"
  using switch_cover_determined [of "[0, 0, 0, 0]" 1 0 77 0] by simp

theorem changes_reach_xplane_witness:
  "\<exists>g'. receive_client demo_heap (demo_xplm True) (replicate 1000000 0)
      [RData (transmission [CData 0 (enc_int 2)])] (demo_server [demo_entry XPSTATUS_VALID 1]) = Some (g', [])"
proof -
  let ?st = "demo_client status_Connected [demo_slot XPSTATUS_VALID 2 1]"
  have t: "takes (length (transmission [CData 0 (enc_int 2)])) [SSent 12]"
    by (rule takes.portion) (simp_all add: transmission_def takes.all_taken)
  have d: "delivers [] [RData (transmission [CData 0 (enc_int 2)])] (transmission [CData 0 (enc_int 2)])"
    by (rule delivers.last_piece) (simp add: transmission_def enc_int_def)
  have cn: "clientname ?st = replicate NAMELEN 0" by (simp add: demo_client_def)
  have p: "pack (clientname ?st) 0 (serverdata ?st) 0 =
      ([sent_slot (CData 0 (enc_int 2)) (demo_slot XPSTATUS_VALID 2 1)], [CData 0 (enc_int 2)])"
    unfolding cn by (simp only: demo_pack demo_client_fields)
  have l: "slots_linked (serverdata ?st) (clientdata (demo_server [demo_entry XPSTATUS_VALID 1]))"
    by (simp add: slots_linked_def mirrors_def)
  from changes_reach_xplane [OF demo_client_ok(2) _ _ _ _ l _ p _ t _ _ _ d, of "demo_heap" "replicate 1000000 0"]
  show ?thesis by (auto simp: no_request_def)
qed

lemma demo_entry_msg:
  "entry_msg demo_heap (demo_xplm True) demo_world 0 (demo_entry XPSTATUS_VALID 1) = Some (SData 0 (enc_int 7))"
  using le.enc_inject [of 1 7]
  by (auto simp: entry_msg_def entry_value_def get_xplane_def demo_xplm_def command_type_def entry_changed_def
      entry_elems_def elem_changed_def in_i32_def)

lemma demo_replies:
  "replies demo_heap (demo_xplm True) demo_world 0 [demo_entry XPSTATUS_VALID 1] 0 =
     ([answered (SData 0 (enc_int 7)) (demo_entry XPSTATUS_VALID 1)], [SData 0 (enc_int 7)])"
  by (simp add: demo_entry_msg)

lemma demo_reads: "xplm_reads (demo_xplm True)"
  by (auto simp: xplm_reads_def array_reads_def demo_xplm_def)

lemma demo_reply_taken: "takes (length (reply_transmission [SData 0 (enc_int 7)])) [SSent 12]"
  by (rule takes.portion) (simp_all add: reply_transmission_def enc_smsgs_def takes.all_taken)

theorem send_client_correct_witness:
  "\<exists>g'. send_client demo_heap (demo_xplm True) [SSent 12] (demo_server [demo_entry XPSTATUS_VALID 1]) =
    Some (g', reply_transmission [SData 0 (enc_int 7)], [])"
  using send_client_correct [of "demo_server [demo_entry XPSTATUS_VALID 1]" "demo_xplm True" demo_heap
      "[answered (SData 0 (enc_int 7)) (demo_entry XPSTATUS_VALID 1)]" "[SData 0 (enc_int 7)]" "[SSent 12]"]
    demo_replies demo_reads demo_reply_taken
  by (auto simp: enc_smsgs_def)

theorem values_reach_cockpit_witness:
  "\<exists>st' n. receive_xpserver (\<lambda>_. True) True (0, 0) [RData (reply_transmission [SData 0 (enc_int 7)])]
      (demo_client status_Connected [demo_slot XPSTATUS_VALID 1 1]) = Some (st', n, [])"
proof -
  let ?st = "demo_client status_Connected [demo_slot XPSTATUS_VALID 1 1]"
  have d: "delivers [] [RData (reply_transmission [SData 0 (enc_int 7)])] (reply_transmission [SData 0 (enc_int 7)])"
    by (rule delivers.last_piece) (simp add: reply_transmission_def enc_smsgs_def enc_int_def)
  have l: "entries_linked (clientdata (demo_server [demo_entry XPSTATUS_VALID 1])) (serverdata ?st)"
    by (simp add: entries_linked_def mirrors_def)
  have r: "replies demo_heap (demo_xplm True) (env (demo_server [demo_entry XPSTATUS_VALID 1])) 0
      (clientdata (demo_server [demo_entry XPSTATUS_VALID 1])) 0 =
     ([answered (SData 0 (enc_int 7)) (demo_entry XPSTATUS_VALID 1)], [SData 0 (enc_int 7)])"
    by (simp only: demo_server_fields demo_replies)
  from values_reach_cockpit [OF _ _ _ demo_reads _ _ r _ demo_reply_taken _ l _ _ _ d, of "\<lambda>_. True" True "(0, 0)"]
  show ?thesis by (auto simp: no_answer_def)
qed

end
