(* ===== verification/Defects.thy ===== *)
theory Defects
  imports Samples
begin

text \<open>
  Situations that the programs do not handle: each theorem exhibits one on a well-formed state.
  ``Undefined'' is an access outside an object or through a null pointer.
\<close>

section \<open>Receiving data for a dataref that was just unlinked\<close>

lemma recv_messages_undefined:
  "0 < left \<Longrightarrow> recv_message av buf tot left s = None \<Longrightarrow> recv_messages av buf tot left s = None"
  by (subst recv_messages.simps) simp

text \<open>Data for a slot without a type is not skipped, so that its bytes are taken for a message.\<close>

lemma recv_message_untyped:
  assumes "i < length (serverdata st)" and "i < 1000000" and "\<not> known_type (sd_type (serverdata st ! i))"
  shows "\<exists>st'. recv_message av (enc_int (MARK_DATA + int i) @ rest) tot tot (st, d) = Some ((st', d), tot - 4) \<and>
    length (serverdata st') = length (serverdata st)"
proof -
  have "read_int ([] @ enc_int (MARK_DATA + int i) @ rest) (int 0) = Some (MARK_DATA + int i)"
    by (rule read_int_append) (use assms(2) in \<open>simp_all add: in_i32_def\<close>)
  with assms show ?thesis
    by (auto simp: recv_message_def recv_data_def numalloc_def Let_def upd_slot_def)
qed

definition stray_data :: mem where
  "stray_data = enc_smsgs [SData 0 (enc_int (MARK_LINK + 7)), SLink 0 demo_name] @ end_mark False"

text \<open>A race that the protocol does not handle: the plugin sends a value and another answer for a dataref
  that the client has meanwhile unlinked. While the dataref was linked the transmission was fine;
  now the value is taken for the head of a message, and for a value such as 2000007 the client
  addresses a slot that does not exist.\<close>

lemma unlinked_data_undefined:
  "all_acceptable (demo_client status_Connected [demo_slot XPSTATUS_VALID 1 1])
     [SData 0 (enc_int (MARK_LINK + 7)), SLink 0 demo_name] \<and>
   (\<exists>st'. unlink_dataref demo_name (demo_client status_Connected [demo_slot XPSTATUS_VALID 1 1]) = Some (st', 1) \<and>
      table_ok st' \<and> recv_messages (\<lambda>_. True) stray_data 116 116 (st', False) = None)"
proof -
  let ?st = "demo_client status_Connected [demo_slot XPSTATUS_VALID 1 1]"
  let ?st' = "?st\<lparr>serverdata := map (unlinked demo_name) (serverdata ?st)\<rparr>"
  let ?rest = "enc_int (MARK_LINK + 7) @ enc_smsg (SLink 0 demo_name) @ end_mark False"
  have data: "stray_data = enc_int (MARK_DATA + int 0) @ ?rest"
    by (simp add: stray_data_def enc_smsgs_def)
  have ty: "\<not> known_type (sd_type (serverdata ?st' ! 0))"
    by (simp add: unlinked_def dealloc_slot_def known_type_def)
  obtain st2 where m1: "recv_message (\<lambda>_. True) stray_data 116 116 (?st', False) = Some ((st2, False), 112)"
    and l: "length (serverdata st2) = 1"
    using recv_message_untyped [of 0 ?st' "\<lambda>_. True" ?rest 116 False] ty unfolding data by auto
  have first: "read_int (enc_int (MARK_DATA + int 0) @ enc_int (MARK_LINK + 7) @ enc_smsg (SLink 0 demo_name) @ end_mark False) (int 4) =
      Some (MARK_LINK + 7)"
    by (rule read_int_append) (simp_all add: in_i32_def)
  have name: "\<exists>e. mem_read stray_data 8 NAMELEN = Some e"
    by (simp add: mem_read_def stray_data_def enc_smsgs_def end_mark_ends)
  have "recv_message (\<lambda>_. True) stray_data 116 112 (st2, False) = None"
    using first name l unfolding data
    by (auto simp: recv_message_def recv_link_def numalloc_def Let_def)
  then have "recv_messages (\<lambda>_. True) stray_data 116 116 (?st', False) = None"
    using recv_messages_step [OF _ m1] recv_messages_undefined by simp
  moreover have "unlink_dataref demo_name ?st = Some (?st', 1)"
    using unlink_dataref_map [of ?st demo_name] by simp
  moreover have "table_ok ?st'" by (rule unlink_table_ok) simp
  moreover have "all_acceptable ?st [SData 0 (enc_int (MARK_LINK + 7)), SLink 0 demo_name]"
    by (simp add: upd_slot_def)
  ultimately show ?thesis by blast
qed

section \<open>Unlinking a dataref that was never linked\<close>

text \<open>Unlinking a dataref before its link request was sent brings the plugin down: the client then asks the
  plugin to unlink an entry that the plugin never created, and the plugin addresses it without
  looking whether it exists.\<close>

theorem early_unlink_undefined:
  "\<exists>st'. unlink_dataref demo_name (demo_client status_Connected [demo_slot XPSTATUS_ALLOC 0 0]) = Some (st', 1) \<and>
     table_ok st' \<and> slot_msg cn 0 (serverdata st' ! 0) = Some (CUnlink 0 demo_name) \<and>
     srv_recv_messages H X (enc_cmsgs [CUnlink 0 demo_name] @ end_mark False) 108 108 (demo_server []) = None"
proof -
  let ?st = "demo_client status_Connected [demo_slot XPSTATUS_ALLOC 0 0]"
  let ?st' = "?st\<lparr>serverdata := map (unlinked demo_name) (serverdata ?st)\<rparr>"
  let ?buf = "enc_cmsgs [CUnlink 0 demo_name] @ end_mark False"
  have first: "read_int ([] @ enc_int (MARK_UNLINK + int 0) @ demo_name @ end_mark False) (int 0) = Some (MARK_UNLINK + int 0)"
    by (rule read_int_append) (simp_all add: in_i32_def)
  have name: "\<exists>e. mem_read ?buf 4 NAMELEN = Some e"
    by (simp add: mem_read_def end_mark_ends)
  have "srv_recv_message H X ?buf 108 108 (demo_server []) = None"
    using first name by (auto simp: srv_recv_message_def srv_recv_unlink_def srv_numalloc_def Let_def)
  then have "srv_recv_messages H X ?buf 108 108 (demo_server []) = None"
    by (subst srv_recv_messages.simps) simp
  moreover have "unlink_dataref demo_name ?st = Some (?st', 1)"
    using unlink_dataref_map [of ?st demo_name] by simp
  moreover have "table_ok ?st'" by (rule unlink_table_ok) simp
  moreover have "slot_msg cn 0 (serverdata ?st' ! 0) = Some (CUnlink 0 demo_name)"
    by (simp add: unlinked_def dealloc_slot_def slot_msg_def)
  ultimately show ?thesis by blast
qed

section \<open>A full transmission that ends in an unlink request\<close>

text \<open>A slot with a big changed byte array, and one that waits to be unlinked.\<close>

definition big_slot :: sdata where
  "big_slot = (demo_slot XPSTATUS_VALID 0 0)\<lparr>sd_type := XPTYPE_BYTE_ARR, sd_nelements := 999892, sd_index := -1,
     sd_data := Some (replicate 999892 1), sd_data_old := Some (replicate 999892 0)\<rparr>"

definition gone_slot :: sdata where
  "gone_slot = dealloc_slot (demo_slot XPSTATUS_VALID 0 0)"

lemma big_slot_facts:
  "slot_ok big_slot" "slot_msg cn i big_slot = Some (CData i (replicate 999892 1))"
proof -
  have b: "block_size XPTYPE_BYTE_ARR 999892 (-1) = 999892"
    by (simp add: block_size_def elem_count_def elem_size_def scalar_type_def)
  then show "slot_ok big_slot"
    by (simp add: slot_ok_def big_slot_def name_ok_def in_i32_def dims_ok_def block_ok_def scalar_type_def)
  have e: "slot_elems big_slot = 999892" "elem_size (sd_type big_slot) = 1" "sd_type big_slot = XPTYPE_BYTE_ARR"
    "sd_data big_slot = Some (replicate 999892 1)" "sd_data_old big_slot = Some (replicate 999892 0)"
    by (simp_all add: big_slot_def slot_elems_def elem_count_def elem_size_def scalar_type_def)
  have "take 1 (replicate 999892 1) \<noteq> take 1 (replicate 999892 (0 :: byte))"
    by (simp add: take_replicate)
  then have "slot_changed big_slot"
    unfolding slot_changed_def e list_ex_iff elem_changed_def by (auto intro!: bexI [of _ 0])
  then show "slot_msg cn i big_slot = Some (CData i (replicate 999892 1))"
    by (simp add: slot_msg_def e known_type_def) (simp add: big_slot_def)
qed

lemma gone_slot_facts:
  "slot_ok gone_slot" "slot_msg cn i gone_slot = Some (CUnlink i demo_name)"
proof -
  show "slot_ok gone_slot" unfolding gone_slot_def by (rule dealloc_slot_ok) simp
  show "slot_msg cn i gone_slot = Some (CUnlink i demo_name)"
    by (simp add: gone_slot_def dealloc_slot_def slot_msg_def)
qed

text \<open>The test before an unlink request does not leave room for the end marker: when the request fills
  the transmission buffer to the last byte, the marker is written behind it.\<close>

lemma unlink_overruns_buffer:
  "send_xpserver evs (demo_client status_Connected [big_slot, gone_slot]) = None"
proof -
  have pk: "pack cn 0 [big_slot, gone_slot] 0 =
      ([sent_slot (CData 0 (replicate 999892 1)) big_slot, sent_slot (CUnlink 1 demo_name) gone_slot],
       [CData 0 (replicate 999892 1), CUnlink 1 demo_name])" for cn
    by (simp add: big_slot_facts gone_slot_facts)
  have "send_slots (clientname (demo_client status_Connected [big_slot, gone_slot])) 0 [big_slot, gone_slot] [] =
      Some (fst (pack (clientname (demo_client status_Connected [big_slot, gone_slot])) 0 [big_slot, gone_slot] 0),
            enc_cmsgs (snd (pack (clientname (demo_client status_Connected [big_slot, gone_slot])) 0 [big_slot, gone_slot] 0)))"
    using send_slots_pack [of "[big_slot, gone_slot]" "clientname (demo_client status_Connected [big_slot, gone_slot])" 0 "[]"]
      big_slot_facts(1) gone_slot_facts(1) by simp
  moreover have "put (enc_cmsgs [CData 0 (replicate 999892 1), CUnlink 1 demo_name]) (enc_int MARK_EOT) = None"
    by (simp add: put_def)
  moreover have "enc_cmsgs [CData 0 (replicate 999892 1), CUnlink 1 demo_name] \<noteq> []"
    by (simp add: enc_cmsgs_empty del: enc_cmsgs_simps)
  ultimately show ?thesis
    unfolding pk by (simp add: send_xpserver_def del: enc_cmsgs_simps)
qed

section \<open>A request for an unknown type\<close>

text \<open>The table grows before the type of the request is looked at: a request for a type that the library
  does not know fails and leaves the uninitialised element \<open>junk\<close> at the end of the table, apart from
  its status and its pointers. Whatever its name, type and dimensions happen to be belongs to the table
  from then on.\<close>

lemma unknown_type_leaves_junk:
  assumes "\<not> known_type t" and "\<not> scalar_type t" and "serverdata st = []"
    and "av 152" and "good_name name"
  shows "link_dataref av junk name t 1 0 p st =
    Some (st\<lparr>lastindex := 0, serverdata := [junk\<lparr>sd_status := XPSTATUS_UNINITIALIZED, sd_data := None, sd_data_old := None\<rparr>]\<rparr>, None)"
proof -
  have v: "valid_request t 1 0" using assms(2) by (simp add: valid_request_def norm_nelements_def norm_index_def)
  have l: "lookup_slot name t 1 0 st = Some (st, None)"
    using assms(3) by (simp add: lookup_slot_def)
  show ?thesis
    using link_dataref_valid [OF v assms(5), of av junk p st] l assms
    by (simp add: create_slot_def alloc_block_def numalloc_def upd_slot_def norm_nelements_def norm_index_def)
qed

text \<open>With a name that is not terminated in its array the next request already reads beyond it.\<close>

theorem unknown_type_breaks_table:
  "\<exists>st'. link_dataref (\<lambda>_. True) ((demo_slot 0 0 0)\<lparr>sd_name := replicate NAMELEN 1\<rparr>) demo_name 3 1 0 INT_MISS
      (demo_client status_Init []) = Some (st', None) \<and> \<not> table_ok st'"
proof -
  have "\<not> known_type 3" "\<not> scalar_type 3" by (simp_all add: known_type_def scalar_type_def)
  moreover have "\<not> terminated (replicate NAMELEN (1 :: 8 word))" by (simp add: terminated_def)
  ultimately show ?thesis
    by (simp add: unknown_type_leaves_junk table_ok_def slot_ok_def name_ok_def)
qed

section \<open>A dictionary that cannot grow\<close>

text \<open>When a full dictionary cannot get the memory to grow, setting a new key reports failure, but the
  arrays are gone: the next look-up of any key is undefined.\<close>

lemma failed_growth_loses_dictionary:
  assumes "dict_inv d" and "d_n d = d_size d" and "dict_map d key = None"
  shows "\<exists>d'. dictionary_set (\<lambda>_. False) d key val = Some (d', -1) \<and> dictionary_get d' key' def = None"
proof -
  have pos: "0 < d_size d" by (rule dict_invD(4) [OF assms(1)])
  have "find_key key (dictionary_hash key) (d_key d) (d_hash d) 0 (d_size d) = Some None"
    using assms(1)
  proof (cases rule: find_key_cases [of d key])
    case (Present j)
    with dict_map_slot [OF assms(1) Present(2,3)] assms(3) show ?thesis by simp
  qed
  then have "dictionary_set (\<lambda>_. False) d key val = Some (d\<lparr>d_val := [], d_key := [], d_hash := []\<rparr>, -1)"
    using assms(2) by (simp add: dictionary_set_def grow_def mem_double_def Let_def)
  moreover have "find_key key' (dictionary_hash key') [] [] 0 (d_size d) = None"
    using pos by (cases "d_size d") simp_all
  ultimately show ?thesis by (auto simp: dictionary_get_def)
qed

definition full_dict :: dictionary where
  "full_dict = \<lparr>d_n = 1, d_size = 1, d_val = [None], d_key = [Some []], d_hash = [dictionary_hash []]\<rparr>"

theorem failed_growth_loses_dictionary_witness:
  "\<exists>d'. dictionary_set (\<lambda>_. False) full_dict [0x61] None = Some (d', -1) \<and> dictionary_get d' [] Null = None"
proof -
  have "dict_inv full_dict" by (simp add: dict_inv_def full_dict_def)
  moreover have "dict_map full_dict [0x61] = None" by (simp add: dict_map_def full_dict_def)
  ultimately show ?thesis using failed_growth_loses_dictionary [of full_dict] by (simp add: full_dict_def)
qed

end
