(* ===== verification/Sismo.thy ===== *)
theory Sismo
  imports Floats SismoSort
begin

text \<open>
  The SISMO SOLUCIONES card driver of \<open>xpsismo/src\<close>: the card table of \<open>libsismo.h\<close>, its
  initialisation and the end-of-cycle reset of \<open>ini.c\<close>, the receive buffer of \<open>handleudp.c\<close>, and
  the exchange of messages with the cards, \<open>read_sismo\<close> and \<open>write_sismo\<close> of \<open>libsismo.c\<close>.

  A \<open>char\<close> is signed, as on the machines the makefiles are for. An array is a list; an access
  outside it makes the result \<open>None\<close>. The datagrams that \<open>send_udp\<close> hands to the socket are
  the list \<open>sent\<close>: address, port and bytes.
\<close>

section \<open>The card table\<close>

abbreviation (input) MAXCARDS :: nat where "MAXCARDS \<equiv> 10"
abbreviation (input) RECVMSGLEN :: nat where "RECVMSGLEN \<equiv> 30"
abbreviation (input) SENDMSGLEN :: nat where "SENDMSGLEN \<equiv> 28"
abbreviation (input) UDPRECVBUFLEN :: nat where "UDPRECVBUFLEN \<equiv> 30 * 1000"
abbreviation (input) MAXANALOGINPUTS :: nat where "MAXANALOGINPUTS \<equiv> 5 + 10"
abbreviation (input) MAXINPUTS :: nat where "MAXINPUTS \<equiv> 64 + 64 + 64"
abbreviation (input) MAXOUTPUTS :: nat where "MAXOUTPUTS \<equiv> 64 + 64 + 64"
abbreviation (input) MAXDISPLAYS :: nat where "MAXDISPLAYS \<equiv> 32 + 32 + 32"
abbreviation (input) MAXSERVOS :: nat where "MAXSERVOS \<equiv> 14"
abbreviation (input) MAXSAVE :: nat where "MAXSAVE \<equiv> 30"
abbreviation (input) DISPLAYBRIGHTNESS :: int where "DISPLAYBRIGHTNESS \<equiv> 15"
abbreviation (input) INPUTINITVAL :: int where "INPUTINITVAL \<equiv> - 1"
abbreviation (input) DISPLAYSINITVAL :: int where "DISPLAYSINITVAL \<equiv> - 1"
abbreviation (input) OUTPUTSINITVAL :: int where "OUTPUTSINITVAL \<equiv> 0"
abbreviation (input) SERVOSINITVAL :: int where "SERVOSINITVAL \<equiv> 0"
abbreviation (input) UNCHANGED :: int where "UNCHANGED \<equiv> 0"
abbreviation (input) CHANGED :: int where "CHANGED \<equiv> 1"
abbreviation (input) UNCHANGEDBINARY :: int where "UNCHANGEDBINARY \<equiv> 2"
abbreviation (input) CHANGEDBINARY :: int where "CHANGEDBINARY \<equiv> 3"

text \<open>
  The length of \<open>inputs_nsave\<close>, written \<open>MAXINPUTS/64\<close>: the macro has no parentheses, so that
  it expands to \<open>64+64+64/64\<close>, more than the three banks that are used.
\<close>

abbreviation (input) NBANKS :: nat where "NBANKS \<equiv> 64 + 64 + 64 div 64"

record sismo_struct =
  connected :: int
  ip :: mem
  port :: int
  mac :: mem
  daughter_output1 :: int
  daughter_output2 :: int
  daughter_servo :: int
  daughter_display1 :: int
  daughter_display2 :: int
  daughter_analoginput :: int
  daughter_analogoutput :: int
  ninputs :: int
  nanaloginputs :: int
  nanalogoutputs :: int
  noutputs :: int
  ndisplays :: int
  nservos :: int
  analoginputs :: "int list list"
  analoginputs_save :: "int list"
  inputs :: "int list list"
  inputs_updown :: "int list"
  inputs_time :: "(int \<times> int) list"
  inputs_nsave :: "int list"
  outputs :: "int list"
  outputs_changed :: "int list"
  displays :: "int list"
  displays_brightness :: "int list"
  displays_changed :: "int list"
  servos :: "int list"
  servos_changed :: "int list"

record sismo_state =
  sismo :: "sismo_struct list"
  udpRecvBuffer :: mem
  udpReadLeft :: int

type_synonym datagram = "mem \<times> int \<times> mem"

section \<open>Initial values and the reset at the end of a cycle\<close>

text \<open>
  The table as C initialises it: all bytes 0. \<open>ini_card\<close> is the body of the loop over the cards
  in \<open>ini_read\<close>; the address, port and MAC bytes are what the ini file gives for the card.
\<close>

definition static_card :: sismo_struct where
  "static_card =
     \<lparr> connected = 0, ip = replicate 30 0, port = 0, mac = [0, 0],
       daughter_output1 = 0, daughter_output2 = 0, daughter_servo = 0, daughter_display1 = 0,
       daughter_display2 = 0, daughter_analoginput = 0, daughter_analogoutput = 0,
       ninputs = 0, nanaloginputs = 0, nanalogoutputs = 0, noutputs = 0, ndisplays = 0, nservos = 0,
       analoginputs = replicate MAXANALOGINPUTS (replicate MAXSAVE 0),
       analoginputs_save = replicate MAXANALOGINPUTS 0,
       inputs = replicate MAXINPUTS (replicate MAXSAVE 0),
       inputs_updown = replicate MAXINPUTS 0, inputs_time = replicate MAXINPUTS (0, 0),
       inputs_nsave = replicate NBANKS 0,
       outputs = replicate MAXOUTPUTS 0, outputs_changed = replicate MAXOUTPUTS 0,
       displays = replicate MAXDISPLAYS 0, displays_brightness = replicate MAXDISPLAYS 0,
       displays_changed = replicate MAXDISPLAYS 0,
       servos = replicate MAXSERVOS 0, servos_changed = replicate MAXSERVOS 0 \<rparr>"

definition ini_card :: "mem \<Rightarrow> int \<Rightarrow> int \<Rightarrow> int \<Rightarrow> sismo_struct \<Rightarrow> sismo_struct option" where
  "ini_card address card_port mac1 mac2 c =
     do {
       ip' \<leftarrow> strcpy (ip c) address;
       Some (c\<lparr>ip := ip', port := card_port, mac := [word_of_int mac1, word_of_int mac2],
         connected := 0, daughter_output1 := 0, daughter_output2 := 0, daughter_servo := 0,
         daughter_analogoutput := 0, daughter_display1 := 0, daughter_display2 := 0,
         ninputs := int MAXINPUTS, nanaloginputs := 5, noutputs := 64, ndisplays := 32,
         nservos := 0, nanalogoutputs := 0\<rparr>)
     }"

text \<open>The loops of \<open>ini_sismodata\<close> for one card, then for all of them.\<close>

definition ini_card_data :: "sismo_struct \<Rightarrow> sismo_struct" where
  "ini_card_data c =
     c\<lparr>analoginputs := map (map (\<lambda>_. INPUTINITVAL)) (analoginputs c),
       analoginputs_save := map (\<lambda>_. INPUTINITVAL) (analoginputs_save c),
       inputs_nsave := map (\<lambda>_. 0) (inputs_nsave c),
       inputs_updown := map (\<lambda>_. 0) (inputs_updown c),
       inputs_time := map (\<lambda>_. (0, 0)) (inputs_time c),
       inputs := map (map (\<lambda>_. INPUTINITVAL)) (inputs c),
       outputs := map (\<lambda>_. OUTPUTSINITVAL) (outputs c),
       outputs_changed := map (\<lambda>_. CHANGED) (outputs_changed c),
       displays := map (\<lambda>_. DISPLAYSINITVAL) (displays c),
       displays_brightness := map (\<lambda>_. DISPLAYBRIGHTNESS) (displays_brightness c),
       displays_changed := map (\<lambda>_. CHANGED) (displays_changed c),
       servos := map (\<lambda>_. SERVOSINITVAL) (servos c),
       servos_changed := map (\<lambda>_. CHANGED) (servos_changed c)\<rparr>"

definition ini_sismodata :: "sismo_state \<Rightarrow> sismo_state" where
  "ini_sismodata st = st\<lparr>sismo := map ini_card_data (sismo st)\<rparr>"

text \<open>\<open>reset_sismodata\<close>: the oldest unread input state of every bank has been processed.\<close>

definition reset_card :: "sismo_struct \<Rightarrow> sismo_struct" where
  "reset_card c =
     (if connected c = 1
      then c\<lparr>inputs_nsave := map (\<lambda>n. if n > 0 then to_char (n - 1) else n) (inputs_nsave c)\<rparr>
      else c)"

definition reset_sismodata :: "sismo_state \<Rightarrow> sismo_state" where
  "reset_sismodata st = st\<lparr>sismo := map reset_card (sismo st)\<rparr>"

section \<open>The receive thread\<close>

text \<open>
  \<open>init_udp_receive\<close> clears the buffer. One turn of the loop in \<open>udpclient_thread_main\<close>: \<open>recv\<close>
  returned a datagram, at most as long as the buffer it was given; it is appended if there is
  room for all of it, and dropped otherwise. The empty datagram (\<open>ret = 0\<close>) does nothing.
\<close>

definition init_udp_receive :: "sismo_state \<Rightarrow> sismo_state" where
  "init_udp_receive st = st\<lparr>udpRecvBuffer := replicate UDPRECVBUFLEN 0, udpReadLeft := 0\<rparr>"

definition udp_receive :: "mem \<Rightarrow> sismo_state \<Rightarrow> sismo_state option" where
  "udp_receive buffer st =
     (let ret = int (length buffer)
      in if ret > 0 \<and> ret \<le> int UDPRECVBUFLEN then
           (if ret \<le> int UDPRECVBUFLEN - udpReadLeft st then
              do {
                b \<leftarrow> mem_write (udpRecvBuffer st) (udpReadLeft st) buffer;
                Some (st\<lparr>udpRecvBuffer := b, udpReadLeft := udpReadLeft st + ret\<rparr>)
              }
            else Some st)
         else Some st)"

section \<open>Bits and digits\<close>

definition set_bit_of :: "byte \<Rightarrow> nat \<Rightarrow> int \<Rightarrow> byte" where
  "set_bit_of b k val =
     (let mask = push_bit k 1
      in if val = 0 then and b (xor mask 0xff) else or b mask)"

definition get_bit :: "byte \<Rightarrow> nat \<Rightarrow> int" where
  "get_bit b k = uint (and (drop_bit k b) 1)"

definition digit_segments :: "int \<Rightarrow> byte" where
  "digit_segments v =
     (if v = 0 then 0x7E else if v = 1 then 0x30 else if v = 2 then 0x6D else if v = 3 then 0x79
      else if v = 4 then 0x33 else if v = 5 then 0x5B else if v = 6 then 0x5F
      else if v = 7 then 0x70 else if v = 8 then 0x7F else if v = 9 then 0x7B
      else if v = -10 then 0x01 else 0x00)"

definition set_7segment :: "int \<Rightarrow> byte" where
  "set_7segment val =
     (if val \<ge> 10 then or (digit_segments (val - 10)) 0x80 else digit_segments val)"

section \<open>Reading\<close>

text \<open>The last card of the table that the message names, as in the loop without a \<open>break\<close>.\<close>

definition from_card :: "mem \<Rightarrow> sismo_struct \<Rightarrow> bool" where
  "from_card msg c \<longleftrightarrow>
     mac c ! 0 = msg ! 2 \<and> mac c ! 1 = msg ! 3 \<and> port c = uint (msg ! 6) + 256 * uint (msg ! 7)"

definition which_card :: "mem \<Rightarrow> sismo_struct list \<Rightarrow> int" where
  "which_card msg cards =
     fold (\<lambda>i card. if from_card msg (cards ! i) then int i else card) [0..<length cards] (- 1)"

text \<open>The first message of a card tells its daughter boards.\<close>

definition init_card :: "byte \<Rightarrow> sismo_struct \<Rightarrow> sismo_struct" where
  "init_card flags c =
     (let output1 = get_bit flags 0; output2 = get_bit flags 1; servo = get_bit flags 2;
          display1 = get_bit flags 3; analogoutput = get_bit flags 4; analoginput = get_bit flags 5;
          display2 = get_bit flags 6
      in c\<lparr>connected := 1, daughter_output1 := output1, daughter_output2 := output2,
           daughter_servo := servo, daughter_display1 := display1,
           daughter_analogoutput := analogoutput, daughter_analoginput := analoginput,
           daughter_display2 := display2,
           noutputs := 64 + 64 * output1 + 64 * output2, nservos := 14 * servo,
           ndisplays := 32 + 32 * display1 + 32 * display2, nanaloginputs := 5 + 10 * analoginput,
           nanalogoutputs := 0 * analogoutput\<rparr>)"

text \<open>\<open>for (s=MAXSAVE-2;s>=0;s--) h[s+1] = h[s]\<close>, over the counter values.\<close>

definition shift_history :: "int list \<Rightarrow> int list option" where
  "shift_history h =
     for_each (rev [0..<MAXSAVE - 1])
       (\<lambda>s h. do { x \<leftarrow> arr_get h (int s); arr_set h (int s + 1) x }) h"

definition pushed :: "byte \<Rightarrow> nat \<Rightarrow> int" where
  "pushed b i = 1 - get_bit b i"

text \<open>The 64 inputs of a bank are the bits of bytes 8 to 15.\<close>

definition any_changed :: "mem \<Rightarrow> int \<Rightarrow> int list list \<Rightarrow> bool option" where
  "any_changed msg firstinput ins =
     for_each [0..<8] (\<lambda>b. for_each [0..<8] (\<lambda>i any.
       do {
         h \<leftarrow> arr_get ins (int b * 8 + int i + firstinput);
         old \<leftarrow> arr_get h 0;
         Some (any \<or> pushed (msg ! (8 + b)) i \<noteq> old)
       })) False"

definition push_input :: "mem \<Rightarrow> int \<Rightarrow> nat \<Rightarrow> nat \<Rightarrow> int list list \<Rightarrow> int list list option" where
  "push_input msg firstinput b i ins =
     do {
       let input = int b * 8 + int i + firstinput;
       h \<leftarrow> arr_get ins input;
       h \<leftarrow> shift_history h;
       let val = pushed (msg ! (8 + b)) i;
       old \<leftarrow> arr_get h 0;
       h \<leftarrow> (if val \<noteq> old then arr_set h 0 val else Some h);
       arr_set ins input h
     }"

definition push_inputs :: "mem \<Rightarrow> int \<Rightarrow> int list list \<Rightarrow> int list list option" where
  "push_inputs msg firstinput =
     for_each [0..<8] (\<lambda>b. for_each [0..<8] (push_input msg firstinput b))"

definition read_digital :: "mem \<Rightarrow> sismo_struct \<Rightarrow> sismo_struct option" where
  "read_digital msg c =
     (if msg ! 4 = 0 \<or> msg ! 4 = 1 \<or> msg ! 4 = 2 then
        do {
          let bank = uint (msg ! 4);
          let firstinput = 64 * bank;
          any \<leftarrow> any_changed msg firstinput (inputs c);
          if any then
            do {
              ins \<leftarrow> push_inputs msg firstinput (inputs c);
              n \<leftarrow> arr_get (inputs_nsave c) bank;
              nsave \<leftarrow> (if n < int MAXSAVE then arr_set (inputs_nsave c) bank (to_char (n + 1))
                        else Some (inputs_nsave c));
              Some (c\<lparr>inputs := ins, inputs_nsave := nsave\<rparr>)
            }
          else Some c
        }
      else Some c)"

text \<open>The analog inputs are two bytes each, from byte 16 (master) or byte 8 (daughter) on.\<close>

definition push_analog :: "mem \<Rightarrow> nat \<Rightarrow> int \<Rightarrow> nat \<Rightarrow> int list list \<Rightarrow> int list list option" where
  "push_analog msg firstbyte firstinput input ins =
     do {
       let val = uint (msg ! (firstbyte + input * 2)) + 256 * uint (msg ! (firstbyte + 1 + input * 2));
       h \<leftarrow> arr_get ins (int input + firstinput);
       h \<leftarrow> shift_history h;
       h \<leftarrow> arr_set h 0 val;
       arr_set ins (int input + firstinput) h
     }"

definition read_analog :: "mem \<Rightarrow> sismo_struct \<Rightarrow> sismo_struct option" where
  "read_analog msg c =
     (if msg ! 4 = 0 \<or> msg ! 4 = 3 then
        do {
          let firstinput = (if msg ! 4 = 0 then 0 else 5);
          let num = (if msg ! 4 = 0 then 5 else 10);
          let firstbyte = (if msg ! 4 = 0 then 16 else 8);
          ins \<leftarrow> for_each [0..<num] (push_analog msg firstbyte firstinput) (analoginputs c);
          Some (c\<lparr>analoginputs := ins\<rparr>)
        }
      else Some c)"

text \<open>One message of 30 bytes.\<close>

definition read_message :: "mem \<Rightarrow> sismo_struct list \<Rightarrow> sismo_struct list option" where
  "read_message msg cards =
     (if msg ! 0 = 0x53 \<and> msg ! 1 = 0x43 then
        (let card = which_card msg cards
         in if card \<ge> 0 then
              do {
                c \<leftarrow> arr_get cards card;
                let c = (if connected c = 0 then init_card (msg ! 5) c else c);
                c \<leftarrow> read_digital msg c;
                c \<leftarrow> read_analog msg c;
                arr_set cards card c
              }
            else Some cards)
      else Some cards)"

text \<open>
  The loop takes one message after the other from the front of the buffer. It ends because
  \<open>udpReadLeft\<close> decreases.
\<close>

function read_sismo :: "sismo_state \<Rightarrow> sismo_state option" where
  "read_sismo st =
     (if udpReadLeft st \<ge> int RECVMSGLEN then
        do {
          msg \<leftarrow> mem_read (udpRecvBuffer st) 0 RECVMSGLEN;
          rest \<leftarrow> mem_read (udpRecvBuffer st) (int RECVMSGLEN) (nat (udpReadLeft st - int RECVMSGLEN));
          b \<leftarrow> mem_write (udpRecvBuffer st) 0 rest;
          cards \<leftarrow> read_message msg (sismo st);
          read_sismo (st\<lparr>udpRecvBuffer := b, udpReadLeft := udpReadLeft st - int RECVMSGLEN,
            sismo := cards\<rparr>)
        }
      else Some st)"
  by pat_completeness auto
termination
  by (relation "measure (\<lambda>st. nat (udpReadLeft st))") auto

declare read_sismo.simps [simp del]

end
