(* ===== verification/SismoWrite.thy ===== *)
theory SismoWrite
  imports Sismo
begin

text \<open>
  The output side of \<open>xpsismo/src/libsismo.c\<close>: \<open>write_sismo\<close>, which sends the changed outputs,
  displays and servos of every connected card, and the functions by which the panel code changes
  them. A value that the panel code passes by pointer is an \<open>option\<close>, with \<open>None\<close> for \<open>NULL\<close>; a
  \<open>float\<close> is an \<open>fpval\<close>.
\<close>

section \<open>Sending\<close>

text \<open>
  The header of every message, the group of loops for one bank of 64 outputs, and the
  datagram, which is sent only if an output was marked as changed.
\<close>

definition message_head :: "byte \<Rightarrow> byte \<Rightarrow> mem" where
  "message_head b2 b3 = [0x53, 0x43, b2, b3] @ replicate (SENDMSGLEN - 4) 0"

definition datagram_if :: "bool \<Rightarrow> sismo_struct \<Rightarrow> mem \<Rightarrow> datagram list" where
  "datagram_if anychanged c buf = (if anychanged then [(ip c, port c, buf)] else [])"

definition put_output ::
  "sismo_struct \<Rightarrow> int \<Rightarrow> nat \<Rightarrow> mem \<times> int list \<times> bool \<Rightarrow> (mem \<times> int list \<times> bool) option" where
  "put_output c firstoutput k s =
     (case s of (buf, flags, anychanged) \<Rightarrow>
        do {
          v \<leftarrow> arr_get (outputs c) (int k + firstoutput);
          byte \<leftarrow> arr_get buf (4 + int (k div 8));
          buf \<leftarrow> arr_set buf (4 + int (k div 8)) (set_bit_of byte (k mod 8) v);
          flag \<leftarrow> arr_get flags (int k + firstoutput);
          if flag = CHANGED then
            do {
              flags \<leftarrow> arr_set flags (int k + firstoutput) UNCHANGED;
              Some (buf, flags, True)
            }
          else Some (buf, flags, anychanged)
        })"

definition write_outputs ::
  "byte \<Rightarrow> int \<Rightarrow> sismo_struct \<Rightarrow> (sismo_struct \<times> datagram list) option" where
  "write_outputs sendto firstoutput c =
     do {
       (buf, flags, anychanged) \<leftarrow> for_each [0..<64] (put_output c firstoutput)
          (message_head sendto 0, outputs_changed c, False);
       Some (c\<lparr>outputs_changed := flags\<rparr>, datagram_if anychanged c buf)
     }"

text \<open>One group of eight displays of a bank; byte 13 is the brightness of the group.\<close>

definition put_display ::
  "sismo_struct \<Rightarrow> int \<Rightarrow> nat \<Rightarrow> mem \<times> int list \<times> bool \<Rightarrow> (mem \<times> int list \<times> bool) option" where
  "put_display c first display s =
     (case s of (buf, flags, anychanged) \<Rightarrow>
        do {
          let i = int display + first;
          bright \<leftarrow> arr_get (displays_brightness c) i;
          buf \<leftarrow> (if bright \<noteq> DISPLAYBRIGHTNESS then arr_set buf 13 (word_of_int bright) else Some buf);
          v \<leftarrow> arr_get (displays c) i;
          flag \<leftarrow> arr_get flags i;
          buf \<leftarrow> arr_set buf (5 + int display)
            (if flag = UNCHANGEDBINARY \<or> flag = CHANGEDBINARY then word_of_int v else set_7segment v);
          (flags, anychanged) \<leftarrow>
            (if flag = CHANGEDBINARY then
               do { flags \<leftarrow> arr_set flags i UNCHANGEDBINARY; Some (flags, True) }
             else Some (flags, anychanged));
          flag \<leftarrow> arr_get flags i;
          (flags, anychanged) \<leftarrow>
            (if flag = CHANGED then
               do { flags \<leftarrow> arr_set flags i UNCHANGED; Some (flags, True) }
             else Some (flags, anychanged));
          Some (buf, flags, anychanged)
        })"

definition group_head :: "byte \<Rightarrow> nat \<Rightarrow> mem" where
  "group_head sendto grp =
     (message_head sendto 1)[4 := of_nat (grp + 1), 13 := word_of_int DISPLAYBRIGHTNESS]"

definition write_group ::
  "byte \<Rightarrow> int \<Rightarrow> nat \<Rightarrow> sismo_struct \<Rightarrow> (sismo_struct \<times> datagram list) option" where
  "write_group sendto firstdisplay grp c =
     do {
       (buf, flags, anychanged) \<leftarrow>
         for_each [0..<8] (put_display c (int grp * 8 + firstdisplay))
           (group_head sendto grp, displays_changed c, False);
       Some (c\<lparr>displays_changed := flags\<rparr>, datagram_if anychanged c buf)
     }"

text \<open>A step that may send, run after another one.\<close>

definition and_send ::
  "(sismo_struct \<Rightarrow> (sismo_struct \<times> datagram list) option) \<Rightarrow>
   sismo_struct \<times> datagram list \<Rightarrow> (sismo_struct \<times> datagram list) option" where
  "and_send step s =
     (case s of (c, sent) \<Rightarrow> do { (c, more) \<leftarrow> step c; Some (c, sent @ more) })"

definition write_displays ::
  "byte \<Rightarrow> int \<Rightarrow> sismo_struct \<Rightarrow> (sismo_struct \<times> datagram list) option" where
  "write_displays sendto firstdisplay c =
     for_each [0..<4] (\<lambda>grp. and_send (write_group sendto firstdisplay grp)) (c, [])"

text \<open>The servos: a mask of the changed ones and their values; the second bank starts at bit 2.\<close>

definition put_servo ::
  "sismo_struct \<Rightarrow> nat \<Rightarrow> nat \<Rightarrow> mem \<times> int list \<times> bool \<Rightarrow> (mem \<times> int list \<times> bool) option" where
  "put_servo c bank servo s =
     (case s of (buf, flags, anychanged) \<Rightarrow>
        do {
          let servoindex = (if bank = 0 then servo else servo + 2);
          let i = int servo + int bank * 8;
          flag \<leftarrow> arr_get flags i;
          if flag = CHANGED then
            do {
              mask \<leftarrow> arr_get buf 4;
              buf \<leftarrow> arr_set buf 4 (set_bit_of mask servoindex 1);
              v \<leftarrow> arr_get (servos c) i;
              buf \<leftarrow> arr_set buf (5 + int servoindex) (word_of_int v);
              flags \<leftarrow> arr_set flags i UNCHANGED;
              Some (buf, flags, True)
            }
          else Some (buf, flags, anychanged)
        })"

definition write_servos :: "nat \<Rightarrow> sismo_struct \<Rightarrow> (sismo_struct \<times> datagram list) option" where
  "write_servos bank c =
     do {
       (buf, flags, anychanged) \<leftarrow>
         for_each [0..<if bank = 0 then 8 else 6] (put_servo c bank)
           (message_head 0x03 (of_nat bank), servos_changed c, False);
       Some (c\<lparr>servos_changed := flags\<rparr>, datagram_if anychanged c buf)
     }"

text \<open>\<open>if (connected) \<dots>\<close> around a step.\<close>

definition if_connected ::
  "int \<Rightarrow> (sismo_struct \<Rightarrow> (sismo_struct \<times> datagram list) option) \<Rightarrow>
   sismo_struct \<Rightarrow> (sismo_struct \<times> datagram list) option" where
  "if_connected flag step c = (if flag \<noteq> 0 then step c else Some (c, []))"

text \<open>Everything that is sent for one card, in order. The third bank of outputs starts at 192.\<close>

definition write_card :: "sismo_struct \<Rightarrow> (sismo_struct \<times> datagram list) option" where
  "write_card c =
     (if connected c = 1 then
        do {
          s \<leftarrow> and_send (write_outputs 0 0) (c, []);
          s \<leftarrow> and_send (if_connected (daughter_output1 c) (write_outputs 1 64)) s;
          s \<leftarrow> and_send (if_connected (daughter_output2 c) (write_outputs 2 192)) s;
          s \<leftarrow> and_send (write_displays 0 0) s;
          s \<leftarrow> and_send (if_connected (daughter_display1 c) (write_displays 4 32)) s;
          s \<leftarrow> and_send (if_connected (daughter_display2 c) (write_displays 5 64)) s;
          s \<leftarrow> and_send (if_connected (daughter_servo c) (write_servos 0)) s;
          and_send (if_connected (daughter_servo c) (write_servos 1)) s
        }
      else Some (c, []))"

fun write_cards :: "sismo_struct list \<Rightarrow> (sismo_struct list \<times> datagram list) option" where
  "write_cards [] = Some ([], [])"
| "write_cards (c # cs) =
     do {
       (c, sent) \<leftarrow> write_card c;
       (cs, more) \<leftarrow> write_cards cs;
       Some (c # cs, sent @ more)
     }"

definition write_sismo :: "sismo_state \<Rightarrow> (sismo_state \<times> datagram list) option" where
  "write_sismo st =
     do {
       (cards, sent) \<leftarrow> write_cards (sismo st);
       Some (st\<lparr>sismo := cards\<rparr>, sent)
     }"

section \<open>Changing a card\<close>

text \<open>
  The tests that every access function starts with: the value pointer, the number of the card and
  whether it is connected. A failed test gives \<open>-1\<close>, a \<open>NULL\<close> pointer \<open>0\<close>. A negative number of a
  card is not caught. \<open>body\<close> gives the return value and the changed card.
\<close>

definition on_card ::
  "int \<Rightarrow> 'v option \<Rightarrow> ('v \<Rightarrow> sismo_struct \<Rightarrow> (int \<times> 'v \<times> sismo_struct) option) \<Rightarrow>
   sismo_state \<Rightarrow> (int \<times> 'v option \<times> sismo_state) option" where
  "on_card cardno value body st =
     (case value of
        None \<Rightarrow> Some (0, None, st)
      | Some v \<Rightarrow>
          if cardno < int MAXCARDS then
            do {
              c \<leftarrow> arr_get (sismo st) cardno;
              if connected c \<noteq> 0 then
                do {
                  (retval, v, c) \<leftarrow> body v c;
                  cards \<leftarrow> arr_set (sismo st) cardno c;
                  Some (retval, Some v, st\<lparr>sismo := cards\<rparr>)
                }
              else Some (-1, Some v, st)
            }
          else Some (-1, Some v, st))"

definition output_body :: "int \<Rightarrow> int \<Rightarrow> sismo_struct \<Rightarrow> (int \<times> int \<times> sismo_struct) option" where
  "output_body i value c =
     (if i \<ge> 0 \<and> i < noutputs c then
        (if value \<noteq> INT_MISS then
           (if value = 1 \<or> value = 0 then
              do {
                old \<leftarrow> arr_get (outputs c) i;
                if value \<noteq> old then
                  do {
                    vs \<leftarrow> arr_set (outputs c) i value;
                    flags \<leftarrow> arr_set (outputs_changed c) i CHANGED;
                    Some (0, value, c\<lparr>outputs := vs, outputs_changed := flags\<rparr>)
                  }
                else Some (0, value, c)
              }
            else Some (-1, value, c))
         else Some (0, value, c))
      else Some (-1, value, c))"

definition digital_output ::
  "int \<Rightarrow> int \<Rightarrow> int option \<Rightarrow> sismo_state \<Rightarrow> (int \<times> int option \<times> sismo_state) option" where
  "digital_output cardno i value = on_card cardno value (output_body i)"

text \<open>The \<open>double\<close> nearest to \<open>0.025\<close>, the threshold of the wrapper for floats.\<close>

definition threshold_0025 :: fpval where
  "threshold_0025 = Fin 7205759403792794 (- 58)"

definition digital_outputf ::
  "int \<Rightarrow> int \<Rightarrow> fpval option \<Rightarrow> sismo_state \<Rightarrow> (int \<times> sismo_state) option" where
  "digital_outputf cardno i fvalue st =
     do {
       f \<leftarrow> fvalue;
       let value = (if fp_is_miss f then INT_MISS else if fp_le threshold_0025 f then 1 else 0);
       (retval, _, st) \<leftarrow> digital_output cardno i (Some value) st;
       Some (retval, st)
     }"

text \<open>
  The position of a servo, 0 to 254. Both ends of the range and the value are floats; the
  wrapper converts integers.
\<close>

definition servo_data :: "fpval \<Rightarrow> fpval \<Rightarrow> fpval \<Rightarrow> int" where
  "servo_data f fmin fmax =
     (let x = fp_div 23 8 (fp_sub 23 8 f fmin) (fp_sub 23 8 fmax fmin);
          data = fp_trunc (fp_add 23 8 (fp_mul 23 8 x (fp_of_int 23 8 (254 - 0))) (fp_of_int 23 8 0));
          data = (if data > 254 then 254 else data)
      in if data < 0 then 0 else data)"

definition servo_body ::
  "int \<Rightarrow> fpval \<Rightarrow> fpval \<Rightarrow> fpval \<Rightarrow> sismo_struct \<Rightarrow> (int \<times> fpval \<times> sismo_struct) option" where
  "servo_body servo fmin fmax f c =
     (if servo \<ge> 0 \<and> servo < nservos c then
        (if \<not> fp_is_miss f then
           do {
             let data = servo_data f fmin fmax;
             old \<leftarrow> arr_get (servos c) servo;
             if data \<noteq> old then
               do {
                 vs \<leftarrow> arr_set (servos c) servo data;
                 flags \<leftarrow> arr_set (servos_changed c) servo CHANGED;
                 Some (0, f, c\<lparr>servos := vs, servos_changed := flags\<rparr>)
               }
             else Some (0, f, c)
           }
         else Some (0, f, c))
      else Some (-1, f, c))"

definition servo_outputf ::
  "int \<Rightarrow> int \<Rightarrow> fpval option \<Rightarrow> fpval \<Rightarrow> fpval \<Rightarrow> sismo_state \<Rightarrow>
   (int \<times> fpval option \<times> sismo_state) option" where
  "servo_outputf cardno servo fvalue fmin fmax = on_card cardno fvalue (servo_body servo fmin fmax)"

definition servo_output ::
  "int \<Rightarrow> int \<Rightarrow> int option \<Rightarrow> int \<Rightarrow> int \<Rightarrow> sismo_state \<Rightarrow> (int \<times> sismo_state) option" where
  "servo_output cardno servo value minval maxval st =
     do {
       v \<leftarrow> value;
       let f = (if v = INT_MISS then flt_miss_val else fp_of_int 23 8 v);
       (retval, _, st) \<leftarrow>
         servo_outputf cardno servo (Some f) (fp_of_int 23 8 minval) (fp_of_int 23 8 maxval) st;
       Some (retval, st)
     }"

section \<open>Displays\<close>

text \<open>\<open>displays[i] = v\<close> with its change flag, if the value is different from the old one.\<close>

definition show_at :: "int \<Rightarrow> int \<Rightarrow> int \<Rightarrow> sismo_struct \<Rightarrow> sismo_struct option" where
  "show_at i v flag c =
     do {
       old \<leftarrow> arr_get (displays c) i;
       if old \<noteq> v then
         do {
           vs \<leftarrow> arr_set (displays c) i (to_char v);
           flags \<leftarrow> arr_set (displays_changed c) i flag;
           Some (c\<lparr>displays := vs, displays_changed := flags\<rparr>)
         }
       else Some c
     }"

definition dim_at :: "int \<Rightarrow> int \<Rightarrow> int \<Rightarrow> sismo_struct \<Rightarrow> sismo_struct option" where
  "dim_at i brightness flag c =
     do {
       old \<leftarrow> arr_get (displays_brightness c) i;
       if old \<noteq> brightness then
         do {
           vs \<leftarrow> arr_set (displays_brightness c) i brightness;
           flags \<leftarrow> arr_set (displays_changed c) i flag;
           Some (c\<lparr>displays_brightness := vs, displays_changed := flags\<rparr>)
         }
       else Some c
     }"

text \<open>The first \<open>while\<close> loop: the digits of the number, from the right.\<close>

function show_digits ::
  "int \<Rightarrow> int \<Rightarrow> int \<Rightarrow> int \<Rightarrow> int \<Rightarrow> sismo_struct \<Rightarrow> (int \<times> sismo_struct) option" where
  "show_digits pos n dp tempval cnt c =
     (if tempval \<noteq> 0 \<and> cnt < n then
        do {
          let single = tempval smod 10 + (if dp = cnt then 10 else 0);
          c \<leftarrow> show_at (pos + cnt) single CHANGED c;
          show_digits pos n dp (tempval sdiv 10) (cnt + 1) c
        }
      else Some (cnt, c))"
  by pat_completeness auto
termination
  by (relation "measure (\<lambda>(pos, n, dp, tempval, cnt, c). nat (n - cnt))") auto

text \<open>The second one: the minus sign, zeros up to the decimal point, blanks.\<close>

function show_rest :: "int \<Rightarrow> int \<Rightarrow> int \<Rightarrow> bool \<Rightarrow> int \<Rightarrow> sismo_struct \<Rightarrow> sismo_struct option" where
  "show_rest pos n dp negative cnt c =
     (if cnt < n then
        (if negative then
           (if cnt > dp then
              do {
                c \<leftarrow> show_at (pos + cnt) (- 10) CHANGED c;
                show_rest pos n dp False (cnt + 1) c
              }
            else show_rest pos n dp negative (cnt + 1) c)
         else if cnt = 0 \<or> dp \<ge> cnt then
           do {
             c \<leftarrow> show_at (pos + cnt) (0 + (if dp = cnt then 10 else 0)) CHANGED c;
             show_rest pos n dp negative (cnt + 1) c
           }
         else
           do {
             c \<leftarrow> show_at (pos + cnt) (- 1) CHANGED c;
             show_rest pos n dp negative (cnt + 1) c
           })
      else Some c)"
  by pat_completeness auto
termination
  by (relation "measure (\<lambda>(pos, n, dp, negative, cnt, c). nat (n - cnt))") auto

declare show_digits.simps [simp del] show_rest.simps [simp del]

definition show_number :: "int \<Rightarrow> int \<Rightarrow> int \<Rightarrow> int \<Rightarrow> sismo_struct \<Rightarrow> sismo_struct option" where
  "show_number pos n dp value c =
     do {
       let negative = (value < 0);
       let tempval = (if negative then wrap32 (- value) else value);
       (cnt, c) \<leftarrow> show_digits pos n dp tempval 0 c;
       show_rest pos n dp negative cnt c
     }"

definition display_body ::
  "int \<Rightarrow> int \<Rightarrow> int \<Rightarrow> int \<Rightarrow> int \<Rightarrow> sismo_struct \<Rightarrow> (int \<times> int \<times> sismo_struct) option" where
  "display_body pos n dp brightness value c =
     (if n > 0 \<and> pos \<ge> 0 \<and> wrap32 (pos + n - 1) < ndisplays c then
        (if value \<noteq> INT_MISS then
           do {
             c \<leftarrow> (if brightness > 0 \<and> brightness \<le> 15
                  then for_each [0..<nat n] (\<lambda>k. dim_at (pos + int k) brightness
                         (if n = 1 \<and> dp = - 10 then CHANGEDBINARY else CHANGED)) c
                  else Some c);
             c \<leftarrow> (if brightness = 0
                  then for_each [0..<nat n] (\<lambda>k. show_at (pos + int k) (- 1) CHANGED) c
                  else if n = 1 \<and> dp = - 10 then show_at pos value CHANGEDBINARY c
                  else show_number pos n dp value c);
             Some (0, value, c)
           }
         else Some (0, value, c))
      else Some (-1, value, c))"

definition display_output ::
  "int \<Rightarrow> int \<Rightarrow> int \<Rightarrow> int option \<Rightarrow> int \<Rightarrow> int \<Rightarrow> sismo_state \<Rightarrow>
   (int \<times> int option \<times> sismo_state) option" where
  "display_output cardno pos n value dp brightness = on_card cardno value (display_body pos n dp brightness)"

definition display_outputf ::
  "int \<Rightarrow> int \<Rightarrow> int \<Rightarrow> fpval option \<Rightarrow> int \<Rightarrow> int \<Rightarrow> sismo_state \<Rightarrow> (int \<times> sismo_state) option" where
  "display_outputf cardno pos n fvalue dp brightness st =
     do {
       f \<leftarrow> fvalue;
       let value = (if \<not> fp_is_miss f then fp_lround f else INT_MISS);
       (retval, _, st) \<leftarrow> display_output cardno pos n (Some value) dp brightness st;
       Some (retval, st)
     }"

end
