(* ===== verification/SismoInput.thy ===== *)
theory SismoInput
  imports SismoWrite
begin

text \<open>
  The input functions of \<open>xpsismo/src/libsismo.c\<close> by which the panel code reads buttons, toggle
  switches, potentiometers and rotary encoders from the histories that \<open>read_sismo\<close> keeps. The
  conventions are those of theory \<open>SismoWrite\<close>; the time of day is an argument.
\<close>

section \<open>Digital inputs\<close>

text \<open>The slot of the history to read: the oldest state that has not been processed.\<close>

definition history_slot :: "sismo_struct \<Rightarrow> int \<Rightarrow> int option" where
  "history_slot c bank =
     do {
       n \<leftarrow> arr_get (inputs_nsave c) bank;
       Some (if n \<noteq> 0 then n - 1 else 0)
     }"

definition input_at :: "sismo_struct \<Rightarrow> int \<Rightarrow> int \<Rightarrow> int option" where
  "input_at c i s = do { h \<leftarrow> arr_get (inputs c) i; arr_get h s }"

definition toggle_value :: "int \<Rightarrow> int \<times> int" where
  "toggle_value v =
     (if v \<noteq> INT_MISS then (if v = 0 \<or> v = 1 then (1, 1 - v) else (-1, v)) else (0, v))"

definition input_body ::
  "int \<Rightarrow> int \<Rightarrow> int \<Rightarrow> sismo_struct \<Rightarrow> (int \<times> int \<times> sismo_struct) option" where
  "input_body i type v c =
     (if i \<ge> 0 \<and> i < ninputs c then
        do {
          let bank = i div 64;
          s \<leftarrow> history_slot c bank;
          if type = -1 then
            do {
              x \<leftarrow> input_at c i s;
              if x \<noteq> INPUTINITVAL \<and> wrap32 (1 - v) \<noteq> x then Some (1, 1 - x, c) else Some (0, v, c)
            }
          else if type = 0 then
            do {
              x \<leftarrow> input_at c i s;
              if x \<noteq> INPUTINITVAL \<and> v \<noteq> x then Some (1, x, c) else Some (0, v, c)
            }
          else if type = 1 then
            do {
              n \<leftarrow> arr_get (inputs_nsave c) bank;
              if n \<noteq> 0 \<and> s < int MAXSAVE - 1 then
                do {
                  x \<leftarrow> input_at c i s;
                  y \<leftarrow> input_at c i (s + 1);
                  if x = 1 \<and> y = 0 then Some (fst (toggle_value v), snd (toggle_value v), c)
                  else Some (0, v, c)
                }
              else Some (0, v, c)
            }
          else Some (0, v, c)
        }
      else Some (-1, v, c))"

definition digital_input ::
  "int \<Rightarrow> int \<Rightarrow> int option \<Rightarrow> int \<Rightarrow> sismo_state \<Rightarrow> (int \<times> int option \<times> sismo_state) option" where
  "digital_input cardno i value type = on_card cardno value (input_body i type)"

definition digital_inputf ::
  "int \<Rightarrow> int \<Rightarrow> fpval option \<Rightarrow> int \<Rightarrow> sismo_state \<Rightarrow> (int \<times> fpval option \<times> sismo_state) option" where
  "digital_inputf cardno i fvalue type st =
     do {
       f \<leftarrow> fvalue;
       let value = (if \<not> fp_is_miss f then fp_lround f else INT_MISS);
       (ret, value, st) \<leftarrow> digital_input cardno i (Some value) type st;
       v \<leftarrow> value;
       Some (ret, Some (if v \<noteq> INT_MISS then fp_of_int 23 8 v else f), st)
     }"

section \<open>Analog inputs\<close>

text \<open>\<open>(float) x / (float) (pow(2,10)-1) * (maxval - minval) + minval\<close>.\<close>

definition scaled :: "int \<Rightarrow> fpval \<Rightarrow> fpval \<Rightarrow> fpval" where
  "scaled x minval maxval =
     fp_add 23 8
       (fp_mul 23 8 (fp_div 23 8 (fp_of_int 23 8 x) (fp_of_int 23 8 (2 ^ 10 - 1)))
          (fp_sub 23 8 maxval minval))
       minval"

definition analog_body ::
  "int \<Rightarrow> fpval \<Rightarrow> fpval \<Rightarrow> fpval \<Rightarrow> sismo_struct \<Rightarrow> (int \<times> fpval \<times> sismo_struct) option" where
  "analog_body i minval maxval v c =
     (if i \<ge> 0 \<and> i < nanaloginputs c then
        do {
          h \<leftarrow> arr_get (analoginputs c) i;
          temparr \<leftarrow> quicksort (take MAXSAVE h) 0 (int MAXSAVE - 1);
          median \<leftarrow> arr_get temparr (int MAXSAVE div 2);
          newest \<leftarrow> arr_get h 0;
          save \<leftarrow> arr_get (analoginputs_save c) i;
          if newest \<noteq> INPUTINITVAL \<and> median \<noteq> INPUTINITVAL then
            (if save < median - 5 \<or> save > median + 5 then
               do {
                 saves \<leftarrow> arr_set (analoginputs_save c) i median;
                 Some (1, scaled newest minval maxval, c\<lparr>analoginputs_save := saves\<rparr>)
               }
             else if save \<noteq> INPUTINITVAL then Some (0, scaled save minval maxval, c)
             else Some (0, v, c))
          else if newest \<noteq> INPUTINITVAL \<and> newest \<noteq> save then
            do {
              saves \<leftarrow> arr_set (analoginputs_save c) i newest;
              Some (1, scaled newest minval maxval, c\<lparr>analoginputs_save := saves\<rparr>)
            }
          else Some (0, v, c)
        }
      else Some (-1, v, c))"

definition analog_input ::
  "int \<Rightarrow> int \<Rightarrow> fpval option \<Rightarrow> fpval \<Rightarrow> fpval \<Rightarrow> sismo_state \<Rightarrow>
   (int \<times> fpval option \<times> sismo_state) option" where
  "analog_input cardno i value minval maxval = on_card cardno value (analog_body i minval maxval)"

section \<open>Encoders\<close>

text \<open>The time since the last step of the encoder in milliseconds.\<close>

definition elapsed_ms :: "int \<times> int \<Rightarrow> int \<times> int \<Rightarrow> fpval" where
  "elapsed_ms new old =
     fp_to 23 8
       (fp_mul 52 11
          (fp_add 52 11 (fp_of_int 52 11 (fst new - fst old))
             (fp_div 52 11 (fp_of_int 52 11 (snd new - snd old)) (Fin 1000000 0)))
          (Fin 1000 0))"

text \<open>\<open>1 + (int) (50.0/max(dt,5.0))\<close>.\<close>

definition acceleration :: "fpval \<Rightarrow> int" where
  "acceleration dt =
     1 + fp_trunc (fp_div 52 11 (Fin 50 0) (if fp_less (Fin 5 0) dt then dt else Fin 5 0))"

definition encoder_add :: "fpval \<Rightarrow> int \<Rightarrow> fpval \<Rightarrow> fpval \<Rightarrow> fpval" where
  "encoder_add v updown multiplier dt =
     fp_add 23 8 v
       (fp_mul 23 8 (fp_mul 23 8 (fp_of_int 23 8 updown) multiplier)
          (fp_of_int 23 8 (acceleration dt)))"

text \<open>The direction from the old and the new state of the two inputs of an optical encoder.\<close>

definition optical_updown :: "int \<times> int \<Rightarrow> int \<times> int \<Rightarrow> fpval \<Rightarrow> int \<Rightarrow> int" where
  "optical_updown obits nbits dt last_updown =
     (if obits = (0, 1) \<and> nbits = (0, 0) then 1
      else if obits = (0, 1) \<and> nbits = (1, 1) then -1
      else if obits = (1, 0) \<and> nbits = (1, 1) then 1
      else if obits = (1, 0) \<and> nbits = (0, 0) then -1
      else if obits = (1, 1) \<and> nbits = (0, 0) then (if fp_less dt (Fin 300 0) then last_updown else 0)
      else if obits = (0, 0) \<and> nbits = (1, 1) then (if fp_less dt (Fin 300 0) then last_updown else 0)
      else 0)"

text \<open>The two tests for the gray code encoder, in the order of the code.\<close>

definition gray_updown :: "int \<Rightarrow> int \<Rightarrow> int" where
  "gray_updown oldcount newcount =
     (let forward = (oldcount = 0 \<and> newcount = 1) \<or> (oldcount = 1 \<and> newcount = 3) \<or>
            (oldcount = 3 \<and> newcount = 2) \<or> (oldcount = 2 \<and> newcount = 0);
          backward = (oldcount = 2 \<and> newcount = 3) \<or> (oldcount = 3 \<and> newcount = 1) \<or>
            (oldcount = 1 \<and> newcount = 0) \<or> (oldcount = 0 \<and> newcount = 2)
      in if backward then 1 else if forward then -1 else 0)"

definition encoder_step ::
  "int \<Rightarrow> int \<Rightarrow> fpval \<Rightarrow> int \<times> int \<Rightarrow> int \<times> int \<Rightarrow> int \<times> int \<Rightarrow> fpval \<Rightarrow> sismo_struct \<Rightarrow>
   (int \<times> fpval \<times> sismo_struct) option" where
  "encoder_step type i1 multiplier newtime obits nbits v c =
     do {
       old \<leftarrow> arr_get (inputs_time c) i1;
       let dt = elapsed_ms newtime old;
       last_updown \<leftarrow> arr_get (inputs_updown c) i1;
       if type = 1 then
         do {
           let updown = optical_updown obits nbits dt last_updown;
           if updown \<noteq> 0 then
             do {
               times \<leftarrow> arr_set (inputs_time c) i1 newtime;
               updowns \<leftarrow> arr_set (inputs_updown c) i1 updown;
               Some (1, encoder_add v updown multiplier dt,
                 c\<lparr>inputs_time := times, inputs_updown := updowns\<rparr>)
             }
           else Some (0, v, c)
         }
       else if type = 2 then
         do {
           let updown = gray_updown (to_char (fst obits + 2 * snd obits))
                          (to_char (fst nbits + 2 * snd nbits));
           if updown \<noteq> 0 then
             do {
               times \<leftarrow> arr_set (inputs_time c) i1 newtime;
               Some (1, encoder_add v updown multiplier dt, c\<lparr>inputs_time := times\<rparr>)
             }
           else Some (0, v, c)
         }
       else Some (1, v, c)
     }"

definition encoder_body ::
  "int \<Rightarrow> int \<Rightarrow> fpval \<Rightarrow> int \<Rightarrow> int \<times> int \<Rightarrow> fpval \<Rightarrow> sismo_struct \<Rightarrow>
   (int \<times> fpval \<times> sismo_struct) option" where
  "encoder_body i1 i2 multiplier type newtime v c =
     (if i1 \<ge> 0 \<and> i1 < ninputs c \<and> i2 \<ge> 0 \<and> i2 < ninputs c then
        (if i1 div 64 = i2 div 64 then
           (if \<not> fp_is_miss v then
              do {
                n \<leftarrow> arr_get (inputs_nsave c) (i1 div 64);
                if n \<noteq> 0 \<and> n - 1 < int MAXSAVE - 1 then
                  do {
                    n1 \<leftarrow> input_at c i1 (n - 1);
                    o1 \<leftarrow> input_at c i1 (n - 1 + 1);
                    n2 \<leftarrow> input_at c i2 (n - 1);
                    o2 \<leftarrow> input_at c i2 (n - 1 + 1);
                    if (n1 \<noteq> o1 \<or> n2 \<noteq> o2) \<and> o1 \<noteq> INPUTINITVAL \<and> o2 \<noteq> INPUTINITVAL
                    then encoder_step type i1 multiplier newtime (o1, o2) (n1, n2) v c
                    else Some (0, v, c)
                  }
                else Some (0, v, c)
              }
            else Some (0, v, c))
         else Some (-1, v, c))
      else Some (-1, v, c))"

definition encoder_inputf ::
  "int \<Rightarrow> int \<Rightarrow> int \<Rightarrow> fpval option \<Rightarrow> fpval \<Rightarrow> int \<Rightarrow> int \<times> int \<Rightarrow> sismo_state \<Rightarrow>
   (int \<times> fpval option \<times> sismo_state) option" where
  "encoder_inputf cardno i1 i2 value multiplier type newtime =
     on_card cardno value (encoder_body i1 i2 multiplier type newtime)"

definition encoder_input ::
  "int \<Rightarrow> int \<Rightarrow> int \<Rightarrow> int option \<Rightarrow> int \<Rightarrow> int \<Rightarrow> int \<times> int \<Rightarrow> sismo_state \<Rightarrow>
   (int \<times> int option \<times> sismo_state) option" where
  "encoder_input cardno i1 i2 value multiplier type newtime st =
     do {
       v \<leftarrow> value;
       let fvalue = (if v \<noteq> INT_MISS then fp_of_int 23 8 v else flt_miss_val);
       (ret, fvalue, st) \<leftarrow>
         encoder_inputf cardno i1 i2 (Some fvalue) (fp_of_int 23 8 multiplier) type newtime st;
       f \<leftarrow> fvalue;
       Some (ret, Some (if \<not> fp_is_miss f then fp_lround f else v), st)
     }"

end
