(* ===== verification/SismoTable.thy ===== *)
theory SismoTable
  imports SismoInput
begin

text \<open>
  The invariant of the card table of \<open>xpsismo\<close>, and that reading messages keeps it: the sizes of
  the arrays, the ranges of the values, and the agreement of the numbers of inputs, outputs,
  displays and servos with the daughter boards.
\<close>

section \<open>The invariant\<close>

definition card_ok :: "sismo_struct \<Rightarrow> bool" where
  "card_ok c \<longleftrightarrow>
     within 0 1 (connected c) \<and> length (ip c) = 30 \<and> terminated (ip c) \<and> length (mac c) = 2 \<and>
     within 0 1 (daughter_output1 c) \<and> within 0 1 (daughter_output2 c) \<and>
     within 0 1 (daughter_servo c) \<and> within 0 1 (daughter_display1 c) \<and>
     within 0 1 (daughter_display2 c) \<and> within 0 1 (daughter_analoginput c) \<and>
     ninputs c = 192 \<and> noutputs c = 64 + 64 * daughter_output1 c + 64 * daughter_output2 c \<and>
     ndisplays c = 32 + 32 * daughter_display1 c + 32 * daughter_display2 c \<and>
     nservos c = 14 * daughter_servo c \<and>
     nanaloginputs c = 5 + 10 * daughter_analoginput c \<and>
     arr_ok MAXANALOGINPUTS (arr_ok MAXSAVE (within (- 1) 65535)) (analoginputs c) \<and>
     arr_ok MAXANALOGINPUTS (within (- 1) 65535) (analoginputs_save c) \<and>
     arr_ok MAXINPUTS (arr_ok MAXSAVE (within (- 1) 1)) (inputs c) \<and>
     arr_ok MAXINPUTS (within (- 1) 1) (inputs_updown c) \<and> length (inputs_time c) = MAXINPUTS \<and>
     arr_ok NBANKS (within 0 (int MAXSAVE)) (inputs_nsave c) \<and>
     arr_ok MAXOUTPUTS (within 0 1) (outputs c) \<and> arr_ok MAXOUTPUTS (within 0 1) (outputs_changed c) \<and>
     arr_ok MAXDISPLAYS (within (- 128) 127) (displays c) \<and>
     arr_ok MAXDISPLAYS (within 1 15) (displays_brightness c) \<and>
     arr_ok MAXDISPLAYS (within 0 3) (displays_changed c) \<and>
     arr_ok MAXSERVOS (within 0 254) (servos c) \<and> arr_ok MAXSERVOS (within 0 1) (servos_changed c)"

definition sismo_ok :: "sismo_state \<Rightarrow> bool" where
  "sismo_ok st \<longleftrightarrow>
     arr_ok MAXCARDS card_ok (sismo st) \<and> length (udpRecvBuffer st) = UDPRECVBUFLEN \<and>
     0 \<le> udpReadLeft st \<and> udpReadLeft st \<le> int UDPRECVBUFLEN"

text \<open>The parts of the invariant by name, for the proofs that look at one of them.\<close>

lemma card_okD:
  assumes "card_ok c"
  shows "arr_ok 15 (arr_ok 30 (within (- 1) 65535)) (analoginputs c)"
    and "arr_ok 15 (within (- 1) 65535) (analoginputs_save c)"
    and "arr_ok 192 (arr_ok 30 (within (- 1) 1)) (inputs c)"
    and "arr_ok 192 (within (- 1) 1) (inputs_updown c)" and "length (inputs_time c) = 192"
    and "arr_ok 129 (within 0 30) (inputs_nsave c)"
    and "arr_ok 192 (within 0 1) (outputs c)" and "arr_ok 192 (within 0 1) (outputs_changed c)"
    and "arr_ok 96 (within (- 128) 127) (displays c)"
    and "arr_ok 96 (within 1 15) (displays_brightness c)"
    and "arr_ok 96 (within 0 3) (displays_changed c)"
    and "arr_ok 14 (within 0 254) (servos c)" and "arr_ok 14 (within 0 1) (servos_changed c)"
    and "ninputs c = 192" and "noutputs c \<le> 192" and "ndisplays c \<le> 96" and "nservos c \<le> 14"
    and "nanaloginputs c \<le> 15" and "length (mac c) = 2" and "connected c = 0 \<or> connected c = 1"
  using assms unfolding card_ok_def by (simp_all add: within_def, linarith)

text \<open>Cards that differ from a good one only in arrays that are good.\<close>

lemma card_ok_analog:
  "card_ok c \<Longrightarrow> arr_ok 15 (arr_ok 30 (within (- 1) 65535)) xs \<Longrightarrow> card_ok (c\<lparr>analoginputs := xs\<rparr>)"
  "card_ok c \<Longrightarrow> arr_ok 15 (within (- 1) 65535) ys \<Longrightarrow> card_ok (c\<lparr>analoginputs_save := ys\<rparr>)"
  by (simp_all add: card_ok_def)

lemma card_ok_inputs:
  "card_ok c \<Longrightarrow> arr_ok 192 (arr_ok 30 (within (- 1) 1)) xs \<Longrightarrow> arr_ok 129 (within 0 30) ns \<Longrightarrow>
     card_ok (c\<lparr>inputs := xs, inputs_nsave := ns\<rparr>)"
  "card_ok c \<Longrightarrow> arr_ok 129 (within 0 30) ns \<Longrightarrow> card_ok (c\<lparr>inputs_nsave := ns\<rparr>)"
  "card_ok c \<Longrightarrow> length ts = 192 \<Longrightarrow> card_ok (c\<lparr>inputs_time := ts\<rparr>)"
  "card_ok c \<Longrightarrow> length ts = 192 \<Longrightarrow> arr_ok 192 (within (- 1) 1) us \<Longrightarrow>
     card_ok (c\<lparr>inputs_time := ts, inputs_updown := us\<rparr>)"
  by (simp_all add: card_ok_def)

lemma card_ok_outputs:
  "card_ok c \<Longrightarrow> arr_ok 192 (within 0 1) fs \<Longrightarrow> card_ok (c\<lparr>outputs_changed := fs\<rparr>)"
  "card_ok c \<Longrightarrow> arr_ok 192 (within 0 1) vs \<Longrightarrow> arr_ok 192 (within 0 1) fs \<Longrightarrow>
     card_ok (c\<lparr>outputs := vs, outputs_changed := fs\<rparr>)"
  "card_ok c \<Longrightarrow> arr_ok 96 (within 0 3) fs \<Longrightarrow> card_ok (c\<lparr>displays_changed := fs\<rparr>)"
  "card_ok c \<Longrightarrow> arr_ok 96 (within (- 128) 127) vs \<Longrightarrow> arr_ok 96 (within 0 3) fs \<Longrightarrow>
     card_ok (c\<lparr>displays := vs, displays_changed := fs\<rparr>)"
  "card_ok c \<Longrightarrow> arr_ok 96 (within 1 15) bs \<Longrightarrow> arr_ok 96 (within 0 3) fs \<Longrightarrow>
     card_ok (c\<lparr>displays_brightness := bs, displays_changed := fs\<rparr>)"
  "card_ok c \<Longrightarrow> arr_ok 14 (within 0 1) fs \<Longrightarrow> card_ok (c\<lparr>servos_changed := fs\<rparr>)"
  "card_ok c \<Longrightarrow> arr_ok 14 (within 0 254) vs \<Longrightarrow> arr_ok 14 (within 0 1) fs \<Longrightarrow>
     card_ok (c\<lparr>servos := vs, servos_changed := fs\<rparr>)"
  by (simp_all add: card_ok_def)

section \<open>Initial state and reset\<close>

lemma reset_card_ok: "card_ok c \<Longrightarrow> card_ok (reset_card c)"
proof -
  assume c: "card_ok c"
  have "arr_ok 129 (within 0 30) (map (\<lambda>n. if n > 0 then to_char (n - 1) else n) (inputs_nsave c))"
    by (rule arr_ok_map [OF card_okD(6) [OF c]]) (auto simp: within_def)
  with c show ?thesis by (simp add: reset_card_def card_ok_inputs)
qed

lemma get_bit_of_bool: "get_bit b k = of_bool (bit b k)"
proof (cases "bit b k")
  case True
  then show ?thesis by (simp add: get_bit_def bit_iff_and_drop_bit_eq_1)
next
  case False
  then have "and (drop_bit k b) 1 = 0"
    using bit_iff_and_drop_bit_eq_1 [of b k] by (metis and_one_eq not_mod_2_eq_1_eq_0)
  with False show ?thesis by (simp add: get_bit_def)
qed

lemma get_bit_range: "within 0 1 (get_bit b k)"
  by (simp add: get_bit_of_bool within_def)

lemma init_card_ok: "card_ok c \<Longrightarrow> card_ok (init_card flags c)"
proof -
  assume "card_ok c"
  with get_bit_range [of flags] show ?thesis
    by (simp add: card_ok_def init_card_def Let_def within_def)
qed

end
