(* ===== verification/SismoRead.thy ===== *)
theory SismoRead
  imports SismoTable
begin

text \<open>
  What \<open>read_sismo\<close> does: an abstract effect of one message on a card, without loops over
  counters and without failure, that the code refines; the buffer is taken apart into messages;
  and the history of a bank of inputs is a bounded queue of the states that the panel code has not
  seen yet.
\<close>

section \<open>Pushing a history\<close>

lemma shift_history_30:
  assumes "length h = 30"
  shows "shift_history h = Some (hd h # butlast h)"
proof -
  from assms have "take 1 h = [hd h]" by (cases h) simp_all
  moreover from assms have "take 29 h = butlast h" "drop 30 h = []" by (simp_all add: butlast_conv_take)
  ultimately show ?thesis
    using shift_loop [of 29 h] assms by (simp add: shift_history_def eval_nat_numeral)
qed

text \<open>The history after a new value has come in.\<close>

definition push_value :: "int \<Rightarrow> int list \<Rightarrow> int list" where
  "push_value v h = v # butlast h"

lemma length_push_value [simp]: "h \<noteq> [] \<Longrightarrow> length (push_value v h) = length h"
  by (cases h rule: rev_cases) (simp_all add: push_value_def)

lemma push_value_nth: "j < length h \<Longrightarrow> push_value v h ! j = (if j = 0 then v else h ! (j - 1))"
  by (cases j) (simp_all add: push_value_def nth_butlast)

lemma push_value_ok: "arr_ok 30 P h \<Longrightarrow> P v \<Longrightarrow> arr_ok 30 P (push_value v h)"
  by (auto simp: arr_ok_def push_value_def list_all_iff dest: in_set_butlastD)

text \<open>The counters of the nested loops over bytes and bits, as one counter.\<close>

lemma loop_64: "for_each [0..<8] (\<lambda>b. for_each [0..<8] (f b)) s = for_each [0..<64] (\<lambda>k. f (k div 8) (k mod 8)) s"
proof -
  have "for_each [0..<8] (\<lambda>b. for_each [0..<8] (f b)) s =
      for_each (concat (map (\<lambda>b. map (Pair b) [0..<8]) [0..<8])) (\<lambda>(b, i). f b i) s"
    by (simp only: for_each_concat for_each_map case_prod_conv)
  also have "concat (map (\<lambda>b. map (Pair b) [0..<8]) [0..<8]) =
      map (\<lambda>k. (k div 8, k mod 8)) [0..<64::nat]"
    by code_simp
  finally show ?thesis by (simp add: for_each_map)
qed

text \<open>The 64 input states in a message.\<close>

definition msg_bit :: "mem \<Rightarrow> nat \<Rightarrow> int" where
  "msg_bit msg k = pushed (msg ! (8 + k div 8)) (k mod 8)"

lemma msg_bit_range: "within (- 1) 1 (msg_bit msg k)"
  using get_bit_range [of "msg ! (8 + k div 8)" "k mod 8"]
  by (simp add: msg_bit_def pushed_def within_def)

lemma any_changed_eq:
  assumes "arr_ok 192 (arr_ok 30 P) ins" and "off + 64 \<le> 192"
  shows "any_changed msg (int off) ins = Some (\<exists>k < 64. msg_bit msg k \<noteq> hd (ins ! (off + k)))"
proof -
  let ?f = "\<lambda>k any. do { h \<leftarrow> arr_get ins (int (k div 8) * 8 + int (k mod 8) + int off);
      old \<leftarrow> arr_get h 0; Some (any \<or> msg_bit msg k \<noteq> old) }"
  have f: "?f k any = Some (any \<or> msg_bit msg k \<noteq> hd (ins ! (off + k)))" if "k < 64" for k any
  proof -
    have i: "int (k div 8) * 8 + int (k mod 8) + int off = int (off + k)"
      by (simp add: zdiv_int zmod_int mult.commute mult_div_mod_eq)
    from that assms have "arr_ok 30 P (ins ! (off + k))" by (intro arr_ok_nth) auto
    then have "length (ins ! (off + k)) = 30" by (rule arr_ok_length)
    then have h: "arr_get (ins ! (off + k)) 0 = Some (hd (ins ! (off + k)))"
      by (cases "ins ! (off + k)") (simp_all add: arr_get_def)
    from that assms arr_ok_length [OF assms(1)]
    have "arr_get ins (int (off + k)) = Some (ins ! (off + k))"
      by (simp add: arr_get_def nat_int_add)
    with i h show ?thesis by (simp del: of_nat_add)
  qed
  have "for_each [0..<n] ?f False = Some (\<exists>k < n. msg_bit msg k \<noteq> hd (ins ! (off + k)))"
    if "n \<le> 64" for n
    using that by (induction n) (auto simp: for_each_append f less_Suc_eq simp del: upt_conv_Cons)
  from this [of 64] show ?thesis
    by (simp add: any_changed_def loop_64 msg_bit_def)
qed


text \<open>A bank of inputs with a message pushed.\<close>

definition push_bank :: "mem \<Rightarrow> nat \<Rightarrow> int list list \<Rightarrow> int list list" where
  "push_bank msg off ins =
     take off ins @ map (\<lambda>k. push_value (msg_bit msg k) (ins ! (off + k))) [0..<64] @ drop (off + 64) ins"

lemma push_bank_nth:
  assumes "off + 64 \<le> length ins" and "k < length ins"
  shows "push_bank msg off ins ! k =
    (if off \<le> k \<and> k < off + 64 then push_value (msg_bit msg (k - off)) (ins ! k) else ins ! k)"
  using assms by (auto simp: push_bank_def nth_append)

lemma length_push_bank [simp]: "off + 64 \<le> length ins \<Longrightarrow> length (push_bank msg off ins) = length ins"
  by (simp add: push_bank_def)

lemma push_bank_ok:
  assumes "arr_ok 192 (arr_ok 30 (within (- 1) 1)) ins" and "off + 64 \<le> 192"
  shows "arr_ok 192 (arr_ok 30 (within (- 1) 1)) (push_bank msg off ins)"
proof -
  have l: "length ins = 192" using assms(1) by (rule arr_ok_length)
  have "arr_ok 30 (within (- 1) 1) (push_bank msg off ins ! k)" if "k < 192" for k
    using that assms l arr_ok_nth [OF assms(1) that] msg_bit_range
    by (auto simp: push_bank_nth intro: push_value_ok)
  with assms(2) l show ?thesis by (simp add: arr_ok_def [of 192] list_all_length)
qed

lemma push_input_eq:
  assumes "arr_ok 192 (arr_ok 30 P) ins" and "off + 64 \<le> 192" and "k < 64"
  shows "push_input msg (int off) (k div 8) (k mod 8) ins =
    Some (ins[off + k := push_value (msg_bit msg k) (ins ! (off + k))])"
proof -
  have i: "int (k div 8) * 8 + int (k mod 8) + int off = int (off + k)"
    by (simp add: zdiv_int zmod_int mult.commute mult_div_mod_eq)
  from assms have "arr_ok 30 P (ins ! (off + k))" by (intro arr_ok_nth) auto
  then have l: "length (ins ! (off + k)) = 30" by (rule arr_ok_length)
  then obtain x xs where h: "ins ! (off + k) = x # xs" by (cases "ins ! (off + k)") auto
  from assms arr_ok_length [OF assms(1)]
  have "arr_get ins (int (off + k)) = Some (x # xs)"
    and "arr_set ins (int (off + k)) v = Some (ins[off + k := v])" for v
    by (simp_all add: arr_get_def arr_set_def nat_int_add h)
  with h l show ?thesis
    by (auto simp: push_input_def i shift_history_30 push_value_def msg_bit_def Let_def
        simp del: of_nat_add)
qed

lemma push_inputs_eq:
  assumes "arr_ok 192 (arr_ok 30 P) ins" and "off + 64 \<le> 192"
  shows "push_inputs msg (int off) ins = Some (push_bank msg off ins)"
proof -
  let ?g = "\<lambda>k ins. ins[off + k := push_value (msg_bit msg k) (ins ! (off + k))]"
  let ?I = "arr_ok 192 (arr_ok 30 (\<lambda>_. True)) :: int list list \<Rightarrow> bool"
  have "?I ins" using assms(1) by (auto simp: arr_ok_def list_all_iff)
  moreover have "push_input msg (int off) (k div 8) (k mod 8) s = Some (?g k s) \<and> ?I (?g k s)"
    if "k \<in> set [0..<64]" and s: "?I s" for k s
  proof
    from that have k: "k < 64" by simp
    from push_input_eq [OF s assms(2) k] show "push_input msg (int off) (k div 8) (k mod 8) s = Some (?g k s)" .
    from k assms(2) have "arr_ok 30 (\<lambda>_. True) (s ! (off + k))" by (intro arr_ok_nth [OF s]) simp
    with s show "?I (?g k s)" by (intro arr_ok_update push_value_ok) auto
  qed
  ultimately have "for_each [0..<64] (\<lambda>k. push_input msg (int off) (k div 8) (k mod 8)) ins =
      Some (fold ?g [0..<64] ins)"
    by (rule for_each_fold [where I = ?I, THEN conjunct1])
  also have "fold ?g [0..<64] ins = push_bank msg off ins"
    unfolding push_bank_def using assms(2) arr_ok_length [OF assms(1)]
    by (intro fold_update_range) simp
  finally show ?thesis by (simp add: push_inputs_def loop_64)
qed


section \<open>The effect of a message on a card\<close>

definition bank_of :: "mem \<Rightarrow> nat" where
  "bank_of msg = unat (msg ! 4)"

definition digital_card :: "mem \<Rightarrow> sismo_struct \<Rightarrow> sismo_struct" where
  "digital_card msg c =
     (let bank = bank_of msg; off = 64 * bank
      in if bank \<le> 2 \<and> (\<exists>k < 64. msg_bit msg k \<noteq> hd (inputs c ! (off + k)))
         then c\<lparr>inputs := push_bank msg off (inputs c),
                inputs_nsave := (inputs_nsave c)[bank := min 30 (inputs_nsave c ! bank + 1)]\<rparr>
         else c)"

lemma read_digital_eq:
  assumes c: "card_ok c"
  shows "read_digital msg c = Some (digital_card msg c)" and "card_ok (digital_card msg c)"
proof -
  let ?b = "bank_of msg"
  have b: "uint (msg ! 4) = int ?b" by (simp add: bank_of_def)
  have le: "msg ! 4 = 0 \<or> msg ! 4 = 1 \<or> msg ! 4 = 2 \<longleftrightarrow> ?b \<le> 2"
    unfolding bank_of_def by (auto simp: word_unat_eq_iff)
  note ins = card_okD(3) [OF c] and ns = card_okD(6) [OF c]
  have n: "within 0 30 (inputs_nsave c ! ?b)" if "?b \<le> 2"
    using that by (intro arr_ok_nth [OF ns]) simp
  have off: "64 * int ?b = int (64 * ?b)" by simp
  have ns': "arr_ok 129 (within 0 30) ((inputs_nsave c)[?b := min 30 (inputs_nsave c ! ?b + 1)])"
    if "?b \<le> 2" using n [OF that] by (intro arr_ok_update [OF ns]) (simp add: within_def)
  show "card_ok (digital_card msg c)"
    using c ns' push_bank_ok [OF ins] by (simp add: digital_card_def Let_def card_ok_inputs)
  show "read_digital msg c = Some (digital_card msg c)"
  proof (cases "?b \<le> 2")
    case True
    then have "64 * ?b + 64 \<le> 192" by simp
    note eqs = any_changed_eq [OF ins this, of msg] push_inputs_eq [OF ins this, of msg]
    have get: "arr_get (inputs_nsave c) (int ?b) = Some (inputs_nsave c ! ?b)"
      using True arr_ok_length [OF ns] by (simp add: arr_get_def)
    have set: "(if inputs_nsave c ! ?b < 30
        then arr_set (inputs_nsave c) (int ?b) (to_char (inputs_nsave c ! ?b + 1))
        else Some (inputs_nsave c)) = Some ((inputs_nsave c)[?b := min 30 (inputs_nsave c ! ?b + 1)])"
    proof (cases "inputs_nsave c ! ?b < 30")
      case False
      with n [OF True] have "inputs_nsave c ! ?b = 30" by (simp add: within_def)
      then show ?thesis using list_update_id [of "inputs_nsave c" ?b] by simp
    qed (use True n [OF True] arr_ok_length [OF ns] in \<open>simp add: arr_set_def within_def\<close>)
    show ?thesis
      unfolding read_digital_def le b off Let_def using True
      by (auto simp: eqs get set digital_card_def Let_def simp del: of_nat_mult of_nat_add cong: if_cong)
  qed (simp add: read_digital_def le digital_card_def Let_def)
qed

text \<open>The 16-bit value of an analog input in a message, and a row of inputs with them pushed.\<close>

definition msg_word :: "mem \<Rightarrow> nat \<Rightarrow> int" where
  "msg_word msg pos = uint (msg ! pos) + 256 * uint (msg ! (pos + 1))"

lemma msg_word_range: "within (- 1) 65535 (msg_word msg pos)"
proof -
  have "uint (msg ! pos) < 256" "uint (msg ! (pos + 1)) < 256"
    using uint_lt2p [of "msg ! pos"] uint_lt2p [of "msg ! (pos + 1)"] by simp_all
  with uint_ge_0 [of "msg ! pos"] uint_ge_0 [of "msg ! (pos + 1)"] show ?thesis
    unfolding msg_word_def within_def by linarith
qed

definition push_analogs :: "mem \<Rightarrow> nat \<Rightarrow> nat \<Rightarrow> nat \<Rightarrow> int list list \<Rightarrow> int list list" where
  "push_analogs msg pos off n ins =
     take off ins @ map (\<lambda>k. push_value (msg_word msg (pos + k * 2)) (ins ! (off + k))) [0..<n]
       @ drop (off + n) ins"

definition analog_card :: "mem \<Rightarrow> sismo_struct \<Rightarrow> sismo_struct" where
  "analog_card msg c =
     (if msg ! 4 = 0 then
        c\<lparr>analoginputs := push_analogs msg 16 0 5 (analoginputs c)\<rparr>
      else if msg ! 4 = 3 then
        c\<lparr>analoginputs := push_analogs msg 8 5 10 (analoginputs c)\<rparr>
      else c)"

lemma push_analog_eq:
  assumes "arr_ok 15 (arr_ok 30 P) ins" and "k + off < 15"
  shows "push_analog msg pos (int off) k ins =
    Some (ins[off + k := push_value (msg_word msg (pos + k * 2)) (ins ! (off + k))])"
proof -
  have i: "int k + int off = int (off + k)" by simp
  from assms have "arr_ok 30 P (ins ! (off + k))" by (intro arr_ok_nth) auto
  then have l: "length (ins ! (off + k)) = 30" by (rule arr_ok_length)
  then obtain x xs where h: "ins ! (off + k) = x # xs" by (cases "ins ! (off + k)") auto
  from assms arr_ok_length [OF assms(1)]
  have "arr_get ins (int (off + k)) = Some (x # xs)"
    and "arr_set ins (int (off + k)) v = Some (ins[off + k := v])" for v
    by (simp_all add: arr_get_def arr_set_def nat_int_add h)
  with h l show ?thesis
    by (simp add: push_analog_def i shift_history_30 push_value_def msg_word_def Let_def ac_simps
        del: of_nat_add)
qed

lemma push_analogs_eq:
  assumes "arr_ok 15 (arr_ok 30 (within (- 1) 65535)) ins" and "n + off \<le> 15"
  shows "for_each [0..<n] (push_analog msg pos (int off)) ins =
      Some (push_analogs msg pos off n ins)"
    and "arr_ok 15 (arr_ok 30 (within (- 1) 65535)) (push_analogs msg pos off n ins)"
proof -
  let ?I = "arr_ok 15 (arr_ok 30 (within (- 1) 65535))"
  let ?g = "\<lambda>k ins. ins[off + k := push_value (msg_word msg (pos + k * 2)) (ins ! (off + k))]"
  have "push_analog msg pos (int off) k s = Some (?g k s) \<and> ?I (?g k s)"
    if "k \<in> set [0..<n]" and s: "?I s" for k s
  proof
    from that assms(2) have k: "k + off < 15" by simp
    from push_analog_eq [OF s k] show "push_analog msg pos (int off) k s = Some (?g k s)" .
    from k have "arr_ok 30 (within (- 1) 65535) (s ! (off + k))" by (intro arr_ok_nth [OF s]) simp
    with s show "?I (?g k s)" by (intro arr_ok_update push_value_ok msg_word_range) auto
  qed
  note * = for_each_fold [where I = ?I and g = ?g and ks = "[0..<n]", OF assms(1) this]
  have "fold ?g [0..<n] ins = push_analogs msg pos off n ins"
    unfolding push_analogs_def using assms(2) arr_ok_length [OF assms(1)]
    by (intro fold_update_range) simp
  with * show "for_each [0..<n] (push_analog msg pos (int off)) ins =
      Some (push_analogs msg pos off n ins)" and "?I (push_analogs msg pos off n ins)"
    by simp_all
qed

lemma read_analog_eq:
  assumes c: "card_ok c"
  shows "read_analog msg c = Some (analog_card msg c)" and "card_ok (analog_card msg c)"
proof -
  note ins = card_okD(1) [OF c]
  note m = push_analogs_eq [OF ins, of 5 0 msg 16] and d = push_analogs_eq [OF ins, of 10 5 msg 8]
  show "read_analog msg c = Some (analog_card msg c)"
    using m(1) d(1) by (auto simp: read_analog_def analog_card_def Let_def)
  show "card_ok (analog_card msg c)"
    using m(2) d(2) c by (simp add: analog_card_def card_ok_analog)
qed


section \<open>The effect of a message on the table\<close>

definition card_message :: "mem \<Rightarrow> sismo_struct \<Rightarrow> sismo_struct" where
  "card_message msg c =
     analog_card msg (digital_card msg (if connected c = 0 then init_card (msg ! 5) c else c))"

text \<open>The last card that matches, and the table in which it has taken up the message.\<close>

definition last_match :: "mem \<Rightarrow> sismo_struct list \<Rightarrow> nat option" where
  "last_match msg cards = map_option (\<lambda>i. length cards - Suc i) (first_index (from_card msg) (rev cards))"

definition apply_message :: "mem \<Rightarrow> sismo_struct list \<Rightarrow> sismo_struct list" where
  "apply_message msg cards =
     (if msg ! 0 = 0x53 \<and> msg ! 1 = 0x43 then
        (case last_match msg cards of
           None \<Rightarrow> cards
         | Some i \<Rightarrow> cards[i := card_message msg (cards ! i)])
      else cards)"

lemma fold_last_match:
  "fold (\<lambda>i card. if P (xs ! i) then int i else card) [0..<length xs] (- 1) =
     (case first_index P (rev xs) of None \<Rightarrow> - 1 | Some i \<Rightarrow> int (length xs - Suc i))"
proof (induction xs rule: rev_induct)
  case (snoc x xs)
  have "fold (\<lambda>i card. if P ((xs @ [x]) ! i) then int i else card) [0..<length xs] (- 1) =
      fold (\<lambda>i card. if P (xs ! i) then int i else card) [0..<length xs] (- 1)"
    by (rule fold_cong) (auto simp: nth_append)
  with snoc.IH show ?case by (auto split: option.splits)
qed simp

lemma which_card_last:
  "which_card msg cards = (case last_match msg cards of None \<Rightarrow> - 1 | Some i \<Rightarrow> int i)"
  by (simp add: which_card_def fold_last_match last_match_def split: option.splits)

lemma last_match_in: "last_match msg cards = Some i \<Longrightarrow> i < length cards \<and> from_card msg (cards ! i)"
  unfolding last_match_def
  by (auto dest!: first_index_Some simp: rev_nth)

lemma card_message_eq:
  assumes "card_ok c"
  shows "do { c \<leftarrow> read_digital msg (if connected c = 0 then init_card (msg ! 5) c else c);
      read_analog msg c } = Some (card_message msg c)" and "card_ok (card_message msg c)"
proof -
  have "card_ok (if connected c = 0 then init_card (msg ! 5) c else c)"
    using assms init_card_ok by simp
  from read_digital_eq [OF this, of msg] read_analog_eq [of _ msg]
  show "do { c \<leftarrow> read_digital msg (if connected c = 0 then init_card (msg ! 5) c else c);
      read_analog msg c } = Some (card_message msg c)" and "card_ok (card_message msg c)"
    by (simp_all add: card_message_def)
qed

lemma read_message_eq:
  assumes cards: "arr_ok n card_ok cards"
  shows "read_message msg cards = Some (apply_message msg cards)"
    and "arr_ok n card_ok (apply_message msg cards)"
proof -
  have ok: "card_ok (cards ! i)" if "last_match msg cards = Some i" for i
    using last_match_in [OF that] arr_ok_length [OF cards] by (intro arr_ok_nth [OF cards]) simp
  show "arr_ok n card_ok (apply_message msg cards)"
    using cards ok card_message_eq(2)
    by (auto simp: apply_message_def intro: arr_ok_update split: option.split)
  show "read_message msg cards = Some (apply_message msg cards)"
  proof (cases "last_match msg cards")
    case (Some i)
    with last_match_in have i: "i < length cards" by blast
    let ?c = "if connected (cards ! i) = 0 then init_card (msg ! 5) (cards ! i) else cards ! i"
    from card_message_eq(1) [OF ok [OF Some], of msg]
    obtain d where "read_digital msg ?c = Some d" "read_analog msg d = Some (card_message msg (cards ! i))"
      by (cases "read_digital msg ?c") simp_all
    with Some i show ?thesis
      by (simp add: read_message_def which_card_last apply_message_def arr_get_def arr_set_def Let_def)
  qed (simp add: read_message_def which_card_last apply_message_def)
qed

text \<open>The complete messages in the buffer.\<close>

function messages :: "mem \<Rightarrow> mem list" where
  "messages b = (if length b < 30 then [] else take 30 b # messages (drop 30 b))"
  by pat_completeness auto
termination
  by (relation "measure length") auto

declare messages.simps [simp del]

text \<open>What is in the buffer.\<close>

definition pending :: "sismo_state \<Rightarrow> mem" where
  "pending st = take (nat (udpReadLeft st)) (udpRecvBuffer st)"

lemma read_step:
  assumes ok: "sismo_ok st" and left: "30 \<le> udpReadLeft st"
  obtains b where
    "read_sismo st = read_sismo (st\<lparr>udpRecvBuffer := b, udpReadLeft := udpReadLeft st - 30,
       sismo := apply_message (take 30 (pending st)) (sismo st)\<rparr>)"
    and "length b = 30000" and "take (nat (udpReadLeft st - 30)) b = drop 30 (pending st)"
proof -
  let ?buf = "udpRecvBuffer st" and ?n = "nat (udpReadLeft st - 30)"
  from ok have buf: "length ?buf = 30000" and ub: "udpReadLeft st \<le> 30000"
    and cards: "arr_ok 10 card_ok (sismo st)" by (simp_all add: sismo_ok_def)
  let ?rest = "take ?n (drop 30 ?buf)"
  have rest: "length ?rest = ?n" using left ub buf by simp
  let ?b = "?rest @ drop ?n ?buf"
  have "30 \<le> nat (udpReadLeft st)" using left by simp
  then have msg: "mem_read ?buf 0 30 = Some (take 30 (pending st))"
    using left ub buf by (simp add: mem_read_def pending_def min_def)
  have rd: "mem_read ?buf 30 ?n = Some ?rest"
    using left ub buf by (simp add: mem_read_def)
  have wr: "mem_write ?buf 0 ?rest = Some ?b"
    using rest left ub buf by (simp add: mem_write_def)
  have "read_sismo st = read_sismo (st\<lparr>udpRecvBuffer := ?b, udpReadLeft := udpReadLeft st - 30,
       sismo := apply_message (take 30 (pending st)) (sismo st)\<rparr>)"
    using left by (subst read_sismo.simps) (simp add: msg rd wr read_message_eq(1) [OF cards])
  moreover have "length ?b = 30000" using rest buf left ub by simp
  moreover have "take ?n ?b = drop 30 (pending st)"
    using rest left by (simp add: pending_def drop_take nat_diff_distrib)
  ultimately show ?thesis by (rule that)
qed

lemma read_sismo_runs:
  assumes "sismo_ok st"
  shows "\<exists>b. read_sismo st = Some (st\<lparr>udpRecvBuffer := b, udpReadLeft := udpReadLeft st mod 30,
       sismo := fold apply_message (messages (pending st)) (sismo st)\<rparr>) \<and> length b = 30000 \<and>
     take (nat (udpReadLeft st mod 30)) b = drop (30 * length (messages (pending st))) (pending st) \<and>
     arr_ok 10 card_ok (fold apply_message (messages (pending st)) (sismo st))"
  using assms
proof (induction "nat (udpReadLeft st)" arbitrary: st rule: less_induct)
  case less
  note ok = less.prems [unfolded sismo_ok_def]
  then have len: "int (length (pending st)) = udpReadLeft st" by (auto simp: pending_def min_def)
  show ?case
  proof (cases "udpReadLeft st < 30")
    case True
    then have "read_sismo st = Some st" by (simp add: read_sismo.simps [of st])
    moreover have "messages (pending st) = []" using True len by (simp add: messages.simps)
    moreover have "udpReadLeft st mod 30 = udpReadLeft st" using True ok by simp
    ultimately show ?thesis using ok by (intro exI [of _ "udpRecvBuffer st"]) (simp add: pending_def)
  next
    case False
    then have left: "30 \<le> udpReadLeft st" by simp
    from read_step [OF less.prems this] obtain b where
      run: "read_sismo st = read_sismo (st\<lparr>udpRecvBuffer := b, udpReadLeft := udpReadLeft st - 30,
         sismo := apply_message (take 30 (pending st)) (sismo st)\<rparr>)" (is "_ = read_sismo ?st")
      and b: "length b = 30000" "take (nat (udpReadLeft st - 30)) b = drop 30 (pending st)" .
    have ok': "sismo_ok ?st"
      using ok left b read_message_eq(2) by (simp add: sismo_ok_def)
    have p: "pending ?st = drop 30 (pending st)" by (simp add: pending_def b)
    have m: "messages (pending st) = take 30 (pending st) # messages (pending ?st)"
      using left len p by (simp add: messages.simps [of "pending st"])
    have md: "(udpReadLeft st - 30) mod 30 = udpReadLeft st mod 30"
      by (simp add: mod_diff_right_eq [symmetric])
    from less.hyps [OF _ ok'] left show ?thesis
      by (simp add: run m p md add.commute)
  qed
qed

end
