(* ===== verification/SismoQueue.thy ===== *)
theory SismoQueue
  imports SismoRead
begin

text \<open>
  The history of the inputs as a queue. Several messages of a card may arrive between two turns
  of the main loop. \<open>read_sismo\<close> takes all of them; the panel code then sees one state per turn,
  the oldest first, because \<open>digital_input\<close> looks at the slot \<open>inputs_nsave - 1\<close> and
  \<open>reset_sismodata\<close> decrements \<open>inputs_nsave\<close> at the end of the turn. The locale \<open>event_queue\<close> is
  this contract; the interpretation is the model's card table.
\<close>

section \<open>The contract\<close>

text \<open>The states that differ from the one before.\<close>

fun changes :: "'e \<Rightarrow> 'e list \<Rightarrow> 'e list" where
  "changes x [] = []"
| "changes x (y # ys) = (if x = y then changes x ys else y # changes y ys)"

lemma set_changes: "set (changes x ys) \<subseteq> set ys"
  by (induction x ys rule: changes.induct) auto

locale event_queue =
  fixes good :: "'s \<Rightarrow> bool" and relevant :: "'m \<Rightarrow> bool" and state_of :: "'m \<Rightarrow> 'e"
    and items :: "'s \<Rightarrow> 'e list" and latest :: "'s \<Rightarrow> 'e"
    and push :: "'m \<Rightarrow> 's \<Rightarrow> 's" and pop :: "'s \<Rightarrow> 's" and cap :: nat
  assumes push_good: "good s \<Longrightarrow> good (push m s)"
    and push_latest: "good s \<Longrightarrow> relevant m \<Longrightarrow> latest (push m s) = state_of m"
    and push_items: "good s \<Longrightarrow> relevant m \<Longrightarrow> items (push m s) =
      (if latest s = state_of m then items s
       else drop (Suc (length (items s)) - cap) (items s @ [state_of m]))"
    and push_other: "good s \<Longrightarrow> \<not> relevant m \<Longrightarrow> items (push m s) = items s \<and> latest (push m s) = latest s"
    and pop_good: "good s \<Longrightarrow> good (pop s)"
    and pop_items: "good s \<Longrightarrow> items (pop s) = tl (items s)"
begin

lemma push_all:
  assumes "good s"
    and "length (items s) + length (changes (latest s) (map state_of (filter relevant ms))) \<le> cap"
  shows "good (fold push ms s) \<and>
    items (fold push ms s) = items s @ changes (latest s) (map state_of (filter relevant ms))"
  using assms
proof (induction ms arbitrary: s)
  case (Cons m ms)
  note ok = push_good [OF Cons.prems(1), of m]
  show ?case
  proof (cases "relevant m")
    case False
    with push_other [OF Cons.prems(1) False] Cons.IH [OF ok] Cons.prems(2) show ?thesis by simp
  next
    case True
    note l = push_latest [OF Cons.prems(1) True] and i = push_items [OF Cons.prems(1) True]
    show ?thesis
    proof (cases "latest s = state_of m")
      case same: True
      with True l i Cons.IH [OF ok] Cons.prems(2) show ?thesis by simp
    next
      case False
      with True i Cons.prems(2) have "items (push m s) = items s @ [state_of m]" by simp
      with True False l Cons.IH [OF ok] Cons.prems(2) show ?thesis by simp
    qed
  qed
qed simp

lemma pops: "good s \<Longrightarrow> good ((pop ^^ n) s) \<and> items ((pop ^^ n) s) = drop n (items s)"
  by (induction n) (simp_all add: pop_good pop_items drop_Suc tl_drop)

end

section \<open>The history as a queue\<close>

definition bank_state :: "nat \<Rightarrow> sismo_struct \<Rightarrow> nat \<Rightarrow> int list" where
  "bank_state bank c j = map (\<lambda>k. inputs c ! (64 * bank + k) ! j) [0..<64]"

definition bank_queue :: "nat \<Rightarrow> sismo_struct \<Rightarrow> int list list" where
  "bank_queue bank c = map (bank_state bank c) (rev [0..<nat (inputs_nsave c ! bank)])"

definition msg_state :: "mem \<Rightarrow> int list" where
  "msg_state msg = map (msg_bit msg) [0..<64]"

lemma nsave_range: "card_ok c \<Longrightarrow> bank \<le> 2 \<Longrightarrow> 0 \<le> inputs_nsave c ! bank \<and> inputs_nsave c ! bank \<le> 30"
  using arr_ok_nth [OF card_okD(6), of c bank] by (simp add: within_def)

lemma history_length: "card_ok c \<Longrightarrow> k < 192 \<Longrightarrow> length (inputs c ! k) = 30"
  using arr_ok_nth [OF card_okD(3), of c k] by (simp add: arr_ok_def)

lemma hd_history: "card_ok c \<Longrightarrow> k < 192 \<Longrightarrow> hd (inputs c ! k) = inputs c ! k ! 0"
  using history_length [of c k] by (intro hd_conv_nth) auto

lemma no_change_iff:
  assumes "card_ok c" and "bank_of msg \<le> 2"
  shows "(\<exists>k < 64. msg_bit msg k \<noteq> hd (inputs c ! (64 * bank_of msg + k))) \<longleftrightarrow>
    bank_state (bank_of msg) c 0 \<noteq> msg_state msg"
proof -
  have "hd (inputs c ! (64 * bank_of msg + k)) = inputs c ! (64 * bank_of msg + k) ! 0" if "k < 64" for k
    using that assms by (intro hd_history) auto
  then show ?thesis
    unfolding bank_state_def msg_state_def map_eq_conv by (metis atLeastLessThan_iff le0 set_upt)
qed

lemma digital_same:
  "card_ok c \<Longrightarrow> bank_of msg \<le> 2 \<Longrightarrow> bank_state (bank_of msg) c 0 = msg_state msg \<Longrightarrow>
   digital_card msg c = c"
  by (simp add: digital_card_def Let_def no_change_iff)

lemma digital_new:
  assumes c: "card_ok c" and b: "bank_of msg \<le> 2" and new: "bank_state (bank_of msg) c 0 \<noteq> msg_state msg"
  shows "j < 30 \<Longrightarrow> bank_state (bank_of msg) (digital_card msg c) j =
      (if j = 0 then msg_state msg else bank_state (bank_of msg) c (j - 1))"
    and "inputs_nsave (digital_card msg c) ! bank_of msg = min 30 (inputs_nsave c ! bank_of msg + 1)"
proof -
  have "\<exists>k < 64. msg_bit msg k \<noteq> hd (inputs c ! (64 * bank_of msg + k))"
    using new no_change_iff [OF c b] by simp
  then have d: "digital_card msg c = c\<lparr>inputs := push_bank msg (64 * bank_of msg) (inputs c),
      inputs_nsave := (inputs_nsave c)[bank_of msg := min 30 (inputs_nsave c ! bank_of msg + 1)]\<rparr>"
    using b by (simp add: digital_card_def Let_def)
  note l = arr_ok_length [OF card_okD(3) [OF c]] arr_ok_length [OF card_okD(6) [OF c]]
  show "inputs_nsave (digital_card msg c) ! bank_of msg = min 30 (inputs_nsave c ! bank_of msg + 1)"
    using b l by (simp add: d)
  assume j: "j < 30"
  have "push_bank msg (64 * bank_of msg) (inputs c) ! (64 * bank_of msg + k) ! j =
      (if j = 0 then msg_bit msg k else inputs c ! (64 * bank_of msg + k) ! (j - 1))" if "k < 64" for k
    using that b l j history_length [OF c, of "64 * bank_of msg + k"]
    by (simp add: push_bank_nth push_value_nth)
  then show "bank_state (bank_of msg) (digital_card msg c) j =
      (if j = 0 then msg_state msg else bank_state (bank_of msg) c (j - 1))"
    by (auto simp: d bank_state_def msg_state_def)
qed

lemma rev_upt_Suc: "rev [0..<Suc n] = map Suc (rev [0..<n]) @ [0]"
  by (simp add: upt_conv_Cons map_Suc_upt [symmetric] rev_map del: upt_Suc)

lemma digital_queue:
  assumes c: "card_ok c" and b: "bank_of msg \<le> 2"
  shows "bank_state (bank_of msg) (digital_card msg c) 0 = msg_state msg"
    and "bank_queue (bank_of msg) (digital_card msg c) =
      (let q = bank_queue (bank_of msg) c
       in if bank_state (bank_of msg) c 0 = msg_state msg then q
          else drop (Suc (length q) - 30) (q @ [msg_state msg]))"
proof -
  let ?b = "bank_of msg" and ?d = "digital_card msg c"
  show "bank_state ?b ?d 0 = msg_state msg"
    using digital_same [OF c b] digital_new(1) [OF c b] by (cases "bank_state ?b c 0 = msg_state msg") auto
  show "bank_queue ?b ?d = (let q = bank_queue ?b c
       in if bank_state ?b c 0 = msg_state msg then q else drop (Suc (length q) - 30) (q @ [msg_state msg]))"
  proof (cases "bank_state ?b c 0 = msg_state msg")
    case False
    note new = digital_new [OF c b False]
    define n where "n = nat (inputs_nsave c ! ?b)"
    with nsave_range [OF c b] have n: "n \<le> 30" "inputs_nsave c ! ?b = int n" by auto
    have shifted: "map (bank_state ?b ?d) (rev [0..<Suc m]) = map (bank_state ?b c) (rev [0..<m]) @ [msg_state msg]"
      if "m < 30" for m
      unfolding rev_upt_Suc using that by (auto simp: new(1) o_def)
    show ?thesis
    proof (cases "n = 30")
      case True
      then have "nat (inputs_nsave ?d ! ?b) = Suc 29" using n new(2) by simp
      moreover have "rev [0..<30] = 29 # rev [0..<29::nat]" by (simp add: eval_nat_numeral)
      ultimately show ?thesis
        using shifted [of 29] True False n by (simp add: bank_queue_def Let_def del: upt_Suc)
    next
      case less: False
      then have "nat (inputs_nsave ?d ! ?b) = Suc n" using n new(2) by simp
      then show ?thesis
        using shifted [of n] less False n by (simp add: bank_queue_def Let_def del: upt_Suc)
    qed
  qed (simp add: digital_same [OF c b] Let_def)
qed

text \<open>A message for another bank, and the analog part, leave the bank alone.\<close>

lemma digital_other:
  assumes c: "card_ok c" and b: "bank \<le> 2" and other: "bank_of msg \<noteq> bank"
  shows "bank_state bank (digital_card msg c) j = bank_state bank c j"
    and "bank_queue bank (digital_card msg c) = bank_queue bank c"
proof -
  note l = arr_ok_length [OF card_okD(3) [OF c]] arr_ok_length [OF card_okD(6) [OF c]]
  have "inputs (digital_card msg c) ! (64 * bank + k) = inputs c ! (64 * bank + k)" if "k < 64" for k
  proof (cases "bank_of msg < bank")
    case True
    with that b l show ?thesis by (simp add: digital_card_def Let_def push_bank_nth)
  next
    case False
    with other have "bank < bank_of msg" by simp
    with that b l show ?thesis by (simp add: digital_card_def Let_def push_bank_nth)
  qed
  then have s: "bank_state bank (digital_card msg c) j = bank_state bank c j" for j
    by (simp add: bank_state_def)
  then show "bank_state bank (digital_card msg c) j = bank_state bank c j" .
  have "inputs_nsave (digital_card msg c) ! bank = inputs_nsave c ! bank"
    using other by (simp add: digital_card_def Let_def)
  with s show "bank_queue bank (digital_card msg c) = bank_queue bank c"
    by (simp add: bank_queue_def)
qed

lemma analog_bank [simp]:
  "bank_state bank (analog_card msg c) = bank_state bank c"
  "bank_queue bank (analog_card msg c) = bank_queue bank c"
  by (simp_all add: analog_card_def bank_state_def [abs_def] bank_queue_def)

lemma reset_bank:
  assumes c: "card_ok c" and b: "bank \<le> 2" and on: "connected c = 1"
  shows "bank_state bank (reset_card c) = bank_state bank c"
    and "bank_queue bank (reset_card c) = tl (bank_queue bank c)"
proof -
  show s: "bank_state bank (reset_card c) = bank_state bank c"
    by (simp add: reset_card_def bank_state_def [abs_def])
  define n where "n = nat (inputs_nsave c ! bank)"
  with nsave_range [OF c b] have n: "n \<le> 30" "inputs_nsave c ! bank = int n" by auto
  have "bank < length (inputs_nsave c)" using b arr_ok_length [OF card_okD(6) [OF c]] by simp
  with n on have "nat (inputs_nsave (reset_card c) ! bank) = n - 1"
    by (auto simp: reset_card_def)
  with s n show "bank_queue bank (reset_card c) = tl (bank_queue bank c)"
    by (cases n) (simp_all add: bank_queue_def del: of_nat_Suc)
qed


section \<open>The card table keeps the contract\<close>

text \<open>What the search for the card of a message depends on.\<close>

definition card_addr :: "sismo_struct \<Rightarrow> mem \<times> int" where
  "card_addr c = (mac c, port c)"

lemma last_match_addr:
  assumes "map card_addr cards = map card_addr cards'"
  shows "last_match msg cards = last_match msg cards'"
proof -
  let ?P = "\<lambda>a. fst a ! 0 = msg ! 2 \<and> fst a ! 1 = msg ! 3 \<and> snd a = uint (msg ! 6) + 256 * uint (msg ! 7)"
  have "first_index (from_card msg) xs = first_index ?P (map card_addr xs)" for xs
    by (induction xs) (auto simp: from_card_def card_addr_def)
  moreover from assms have "map card_addr (rev cards) = map card_addr (rev cards')"
    by (simp add: rev_map [symmetric])
  moreover from assms have "length cards = length cards'" by (rule map_eq_imp_length_eq)
  ultimately show ?thesis by (simp add: last_match_def)
qed

lemma card_message_frame [simp]:
  "card_addr (card_message msg c) = card_addr c"
  by (simp add: card_message_def analog_card_def digital_card_def Let_def init_card_def card_addr_def)

lemma card_message_connected: "connected c = 1 \<Longrightarrow> connected (card_message msg c) = 1"
  by (simp add: card_message_def analog_card_def digital_card_def Let_def)

lemma reset_card_frame [simp]: "card_addr (reset_card c) = card_addr c" "connected (reset_card c) = connected c"
  by (simp_all add: reset_card_def card_addr_def)

lemma apply_message_addr [simp]: "map card_addr (apply_message msg cards) = map card_addr cards"
  by (simp add: apply_message_def map_upd_same split: option.split)

lemma length_apply_message [simp]: "length (apply_message msg cards) = length cards"
  by (simp add: apply_message_def split: option.split)

text \<open>A table with the addresses of \<open>cards0\<close> in which card \<open>i\<close> is connected, and the messages
  that report a bank of inputs of this card.\<close>

definition table_good :: "sismo_struct list \<Rightarrow> nat \<Rightarrow> nat \<Rightarrow> sismo_struct list \<Rightarrow> bool" where
  "table_good cards0 i bank cards \<longleftrightarrow>
     arr_ok 10 card_ok cards \<and> map card_addr cards = map card_addr cards0 \<and> i < 10 \<and> bank \<le> 2 \<and>
     connected (cards ! i) = 1"

definition reports :: "sismo_struct list \<Rightarrow> nat \<Rightarrow> nat \<Rightarrow> mem \<Rightarrow> bool" where
  "reports cards0 i bank msg \<longleftrightarrow>
     msg ! 0 = 0x53 \<and> msg ! 1 = 0x43 \<and> last_match msg cards0 = Some i \<and> bank_of msg = bank"

lemma table_good_card: "table_good cards0 i bank cards \<Longrightarrow> card_ok (cards ! i)"
  by (auto simp: table_good_def intro: arr_ok_nth)

lemma table_good_message:
  assumes "table_good cards0 i bank cards"
  shows "apply_message msg cards ! i =
      (if msg ! 0 = 0x53 \<and> msg ! 1 = 0x43 \<and> last_match msg cards0 = Some i
       then analog_card msg (digital_card msg (cards ! i)) else cards ! i)"
    and "table_good cards0 i bank (apply_message msg cards)"
proof -
  from assms have t: "arr_ok 10 card_ok cards" "i < 10" "connected (cards ! i) = 1"
    and a: "map card_addr cards = map card_addr cards0" by (simp_all add: table_good_def)
  from a have m: "last_match msg cards = last_match msg cards0" by (rule last_match_addr)
  from t arr_ok_length [OF t(1)] show eq: "apply_message msg cards ! i =
      (if msg ! 0 = 0x53 \<and> msg ! 1 = 0x43 \<and> last_match msg cards0 = Some i
       then analog_card msg (digital_card msg (cards ! i)) else cards ! i)"
    by (auto simp: apply_message_def m card_message_def nth_list_update split: option.split)
  have "connected (apply_message msg cards ! i) = 1"
    using eq t(3) card_message_connected [OF t(3), of msg] by (simp add: card_message_def)
  with assms show "table_good cards0 i bank (apply_message msg cards)"
    using read_message_eq(2) by (auto simp: table_good_def)
qed

lemma table_good_reset:
  assumes "table_good cards0 i bank cards"
  shows "table_good cards0 i bank (map reset_card cards)" and "map reset_card cards ! i = reset_card (cards ! i)"
proof -
  from assms have t: "arr_ok 10 card_ok cards" "i < length cards"
    using arr_ok_length by (fastforce simp: table_good_def)+
  then show "map reset_card cards ! i = reset_card (cards ! i)" by simp
  have "arr_ok 10 card_ok (map reset_card cards)" by (rule arr_ok_map [OF t(1)]) (rule reset_card_ok)
  moreover have "map (card_addr \<circ> reset_card) cards = map card_addr cards" by simp
  ultimately show "table_good cards0 i bank (map reset_card cards)"
    using assms t(2) unfolding table_good_def map_map by simp
qed

interpretation iq: event_queue "table_good cards0 i bank" "reports cards0 i bank" msg_state
    "\<lambda>cards. bank_queue bank (cards ! i)" "\<lambda>cards. bank_state bank (cards ! i) 0"
    apply_message "map reset_card" 30 for cards0 i bank
proof (unfold_locales, goal_cases)
  case (1 s m)
  then show ?case by (rule table_good_message(2))
next
  case (2 s m)
  note c = table_good_card [OF 2(1)]
  from 2 have "bank_of m \<le> 2" "bank_of m = bank" by (auto simp: table_good_def reports_def)
  with 2 digital_queue(1) [OF c, of m] show ?case
    by (simp add: table_good_message(1) [OF 2(1)] reports_def)
next
  case (3 s m)
  note c = table_good_card [OF 3(1)]
  from 3 have "bank_of m \<le> 2" "bank_of m = bank" by (auto simp: table_good_def reports_def)
  with 3 digital_queue(2) [OF c, of m] show ?case
    by (simp add: table_good_message(1) [OF 3(1)] reports_def Let_def)
next
  case (4 s m)
  note c = table_good_card [OF 4(1)]
  from 4(1) have "bank \<le> 2" by (simp add: table_good_def)
  with 4(2) digital_other [OF c, of bank m] show ?case
    by (auto simp: table_good_message(1) [OF 4(1)] reports_def)
next
  case (5 s)
  then show ?case by (rule table_good_reset(1))
next
  case (6 s)
  then have "bank \<le> 2" "connected (s ! i) = 1" by (simp_all add: table_good_def)
  with reset_bank(2) [OF table_good_card [OF 6]] show ?case
    by (simp add: table_good_reset(2) [OF 6])
qed

section \<open>What the panel code sees\<close>

lemma msg_bit_01: "msg_bit msg k = 0 \<or> msg_bit msg k = 1"
  using get_bit_range [of "msg ! (8 + k div 8)" "k mod 8"]
  by (auto simp: msg_bit_def pushed_def within_def)

text \<open>A plain button: the head of the queue, or the latest state when the queue is empty.\<close>

definition seen :: "nat \<Rightarrow> sismo_struct \<Rightarrow> int list" where
  "seen bank c = (if bank_queue bank c = [] then bank_state bank c 0 else hd (bank_queue bank c))"

lemma digital_input_seen:
  assumes good: "table_good cards0 i bank (sismo st)" and k: "k < 64"
    and known: "seen bank (sismo st ! i) ! k \<noteq> - 1"
  shows "digital_input (int i) (int (64 * bank + k)) (Some v) 0 st =
    Some (if v = seen bank (sismo st ! i) ! k then 0 else 1,
          Some (seen bank (sismo st ! i) ! k), st)"
proof -
  let ?c = "sismo st ! i"
  note c = table_good_card [OF good]
  from good have b: "bank \<le> 2" and i: "i < 10" and on: "connected ?c = 1"
    and l: "length (sismo st) = 10" using arr_ok_length by (auto simp: table_good_def)
  define n where "n = nat (inputs_nsave ?c ! bank)"
  with nsave_range [OF c b] have n: "n \<le> 30" "inputs_nsave ?c ! bank = int n" by auto
  define s where "s = (if n = 0 then 0 else n - 1)"
  have q: "bank_queue bank ?c = map (bank_state bank ?c) (rev [0..<n])"
    by (simp add: bank_queue_def n)
  have "seen bank ?c = bank_state bank ?c s"
    by (cases n) (simp_all add: seen_def q s_def)
  then have x: "seen bank ?c ! k = inputs ?c ! (64 * bank + k) ! s"
    using k by (simp add: bank_state_def)
  have div: "int (64 * bank + k) div 64 = int bank" using k by simp
  have slot: "history_slot ?c (int bank) = Some (int s)"
    using b n arr_ok_length [OF card_okD(6) [OF c]]
    by (auto simp: history_slot_def arr_get_def s_def of_nat_diff)
  have at: "input_at ?c (int (64 * bank + k)) (int s) = Some (seen bank ?c ! k)"
    using b k n(1) arr_ok_length [OF card_okD(3) [OF c]] history_length [OF c, of "64 * bank + k"]
    unfolding x input_at_def arr_get_def by (auto simp: s_def nat_add_distrib nat_mult_distrib)
  have lt: "int (64 * bank + k) < ninputs ?c" using b k card_okD(14) [OF c] by simp
  have upd: "(sismo st)[i := ?c] = sismo st" by simp
  show ?thesis
    unfolding digital_input_def on_card_def input_body_def div
    using i on l lt known by (simp add: slot at arr_get_def arr_set_def upd del: of_nat_add of_nat_mult)
qed


lemma resets: "(reset_sismodata ^^ n) st = st\<lparr>sismo := (map reset_card ^^ n) (sismo st)\<rparr>"
  by (induction n) (simp_all add: reset_sismodata_def)

text \<open>C11: several reports of one bank of inputs may be in the receive buffer, among messages of
  other cards and banks. One \<open>read_sismo\<close> takes them all; the panel code is then shown every
  state that differs from the one before, one per turn of the main loop (\<open>reset_sismodata\<close>
  ends a turn), in the order of arrival, as long as not more than 30 are waiting.\<close>

theorem no_input_lost:
  assumes ok: "sismo_ok st" and i: "i < 10" and on: "connected (sismo st ! i) = 1" and bank: "bank \<le> 2"
    and idle: "inputs_nsave (sismo st ! i) ! bank = 0"
    and chg: "chg = changes (bank_state bank (sismo st ! i) 0)
        (map msg_state (filter (reports (sismo st) i bank) (messages (pending st))))"
    and room: "length chg \<le> 30"
  shows "\<exists>st'. read_sismo st = Some st' \<and>
    (\<forall>n k v. n < length chg \<and> k < 64 \<longrightarrow>
       digital_input (int i) (int (64 * bank + k)) (Some v) 0 ((reset_sismodata ^^ n) st') =
         Some (if v = chg ! n ! k then 0 else 1, Some (chg ! n ! k), (reset_sismodata ^^ n) st'))"
proof -
  from read_sismo_runs [OF ok] obtain st' where run: "read_sismo st = Some st'"
    and s': "sismo st' = fold apply_message (messages (pending st)) (sismo st)" by auto
  have good: "table_good (sismo st) i bank (sismo st)"
    using ok i on bank by (simp add: table_good_def sismo_ok_def)
  have empty: "bank_queue bank (sismo st ! i) = []" using idle by (simp add: bank_queue_def)
  from iq.push_all [OF good, of "messages (pending st)"] empty room
  have good': "table_good (sismo st) i bank (sismo st')" and q: "bank_queue bank (sismo st' ! i) = chg"
    by (simp_all add: s' chg)
  have "digital_input (int i) (int (64 * bank + k)) (Some v) 0 ((reset_sismodata ^^ n) st') =
         Some (if v = chg ! n ! k then 0 else 1, Some (chg ! n ! k), (reset_sismodata ^^ n) st')"
    if n: "n < length chg" and k: "k < 64" for n k v
  proof -
    let ?st = "(reset_sismodata ^^ n) st'"
    from iq.pops [OF good', of n] q n
    have g: "table_good (sismo st) i bank (sismo ?st)"
      and d: "bank_queue bank (sismo ?st ! i) = drop n chg" by (simp_all add: resets)
    have "seen bank (sismo ?st ! i) = chg ! n" using n d by (simp add: seen_def hd_drop_conv_nth)
    moreover have "chg ! n ! k \<noteq> - 1"
    proof -
      from n have "chg ! n \<in> set chg" by simp
      with chg set_changes obtain m where "chg ! n = msg_state m" by fastforce
      with k show ?thesis using msg_bit_01 [of m k] by (auto simp: msg_state_def)
    qed
    ultimately show ?thesis using digital_input_seen [OF g k] by simp
  qed
  with run show ?thesis by blast
qed

lemma concat_messages: "concat (messages b) = take (30 * length (messages b)) b"
proof (induction b rule: messages.induct)
  case (1 b)
  then show ?case by (cases "length b < 30") (simp_all add: messages.simps [of b] take_add)
qed

text \<open>C12: \<open>read_sismo\<close> ends, takes all complete messages from the receive buffer, moves the
  incomplete rest to its start, and changes the card table by exactly the effects of the messages,
  one after the other; it never leaves an array, and keeps the table well-formed.\<close>

theorem read_sismo_correct:
  assumes "sismo_ok st"
  shows "\<exists>st'. read_sismo st = Some st' \<and> sismo_ok st' \<and>
     udpReadLeft st' = udpReadLeft st mod 30 \<and>
     sismo st' = fold apply_message (messages (pending st)) (sismo st) \<and>
     pending st = concat (messages (pending st)) @ pending st'"
proof -
  from read_sismo_runs [OF assms] obtain b where
    run: "read_sismo st = Some (st\<lparr>udpRecvBuffer := b, udpReadLeft := udpReadLeft st mod 30,
       sismo := fold apply_message (messages (pending st)) (sismo st)\<rparr>)"
    and b: "length b = 30000"
      "take (nat (udpReadLeft st mod 30)) b = drop (30 * length (messages (pending st))) (pending st)"
    and t: "arr_ok 10 card_ok (fold apply_message (messages (pending st)) (sismo st))" by auto
  have m: "udpReadLeft st mod 30 \<le> 30000" using pos_mod_bound [of 30 "udpReadLeft st"] by linarith
  let ?st = "st\<lparr>udpRecvBuffer := b, udpReadLeft := udpReadLeft st mod 30,
       sismo := fold apply_message (messages (pending st)) (sismo st)\<rparr>"
  have "pending st = concat (messages (pending st)) @ pending ?st"
    using b(2) concat_messages [of "pending st"] by (simp add: pending_def [of ?st])
  moreover from m b(1) t have "sismo_ok ?st" by (simp add: sismo_ok_def)
  ultimately show ?thesis using run by (intro exI [of _ ?st]) simp
qed

end
