(* ===== verification/SismoSend.thy ===== *)
theory SismoSend
  imports SismoTable
begin

text \<open>
  What \<open>write_sismo\<close> sends. A card is addressed in units: a bank of 64 outputs, a group of eight
  displays, a bank of servos. The specification says for every unit when it is due and what a
  datagram about it must carry; the code is shown to send exactly the datagrams that are due, in
  the order of the units, and to leave nothing due.
\<close>

section \<open>Units\<close>

datatype card_unit = Outputs nat | Displays nat nat | Servos nat

definition all_units :: "card_unit list" where
  "all_units =
     [Outputs 0, Outputs 1, Outputs 2,
      Displays 0 0, Displays 0 1, Displays 0 2, Displays 0 3,
      Displays 1 0, Displays 1 1, Displays 1 2, Displays 1 3,
      Displays 2 0, Displays 2 1, Displays 2 2, Displays 2 3, Servos 0, Servos 1]"

text \<open>The board a unit is on, and the positions of the unit in the arrays of the card.\<close>

fun present :: "sismo_struct \<Rightarrow> card_unit \<Rightarrow> bool" where
  "present c (Outputs b) =
     (if b = 0 then True else if b = 1 then daughter_output1 c \<noteq> 0 else daughter_output2 c \<noteq> 0)"
| "present c (Displays b g) =
     (if b = 0 then True else if b = 1 then daughter_display1 c \<noteq> 0 else daughter_display2 c \<noteq> 0)"
| "present c (Servos b) = (daughter_servo c \<noteq> 0)"

fun unit_off :: "card_unit \<Rightarrow> nat" where
  "unit_off (Outputs b) = 64 * b"
| "unit_off (Displays b g) = 32 * b + 8 * g"
| "unit_off (Servos b) = 8 * b"

fun unit_len :: "card_unit \<Rightarrow> nat" where
  "unit_len (Outputs b) = 64"
| "unit_len (Displays b g) = 8"
| "unit_len (Servos b) = (if b = 0 then 8 else 6)"

fun unit_flags :: "card_unit \<Rightarrow> sismo_struct \<Rightarrow> int list" where
  "unit_flags (Outputs b) c = outputs_changed c"
| "unit_flags (Displays b g) c = displays_changed c"
| "unit_flags (Servos b) c = servos_changed c"

definition unit_changed :: "sismo_struct \<Rightarrow> card_unit \<Rightarrow> bool" where
  "unit_changed c u \<longleftrightarrow> (\<exists>k < unit_len u. odd (unit_flags u c ! (unit_off u + k)))"

definition due :: "sismo_struct \<Rightarrow> card_unit \<Rightarrow> bool" where
  "due c u \<longleftrightarrow> connected c = 1 \<and> present c u \<and> unit_changed c u"

section \<open>What a datagram carries\<close>

text \<open>The segments of a display, and the brightness of a group: that of its last display that is
  not at the standard brightness.\<close>

definition segments :: "sismo_struct \<Rightarrow> nat \<Rightarrow> byte" where
  "segments c i =
     (if displays_changed c ! i = UNCHANGEDBINARY \<or> displays_changed c ! i = CHANGEDBINARY
      then word_of_int (displays c ! i) else set_7segment (displays c ! i))"

definition group_brightness :: "sismo_struct \<Rightarrow> nat \<Rightarrow> nat \<Rightarrow> int" where
  "group_brightness c off n =
     last (15 # filter (\<lambda>x. x \<noteq> 15) (map (\<lambda>k. displays_brightness c ! (off + k)) [0..<n]))"

fun content :: "sismo_struct \<Rightarrow> card_unit \<Rightarrow> mem \<Rightarrow> bool" where
  "content c (Outputs b) buf =
     (take 4 buf = [0x53, 0x43, of_nat b, 0] \<and>
      (\<forall>k < 64. get_bit (buf ! (4 + k div 8)) (k mod 8) = outputs c ! (64 * b + k)))"
| "content c (Displays b g) buf =
     (take 5 buf = [0x53, 0x43, if b = 0 then 0 else of_nat (b + 3), 1, of_nat (g + 1)] \<and>
      (\<forall>k < 8. buf ! (5 + k) = segments c (32 * b + 8 * g + k)) \<and>
      buf ! 13 = word_of_int (group_brightness c (32 * b + 8 * g) 8))"
| "content c (Servos b) buf =
     (take 4 buf = [0x53, 0x43, 3, of_nat b] \<and>
      (\<forall>k < unit_len (Servos b).
         get_bit (buf ! 4) (k + 2 * b) = servos_changed c ! (8 * b + k) \<and>
         (servos_changed c ! (8 * b + k) = 1 \<longrightarrow>
            buf ! (5 + k + 2 * b) = word_of_int (servos c ! (8 * b + k)))))"

definition carries :: "sismo_struct \<Rightarrow> card_unit \<Rightarrow> datagram \<Rightarrow> bool" where
  "carries c u d \<longleftrightarrow>
     (case d of (address, p, buf) \<Rightarrow> address = ip c \<and> p = port c \<and> length buf = 28 \<and> content c u buf)"

section \<open>Resetting flags\<close>

definition settle :: "int \<Rightarrow> int" where
  "settle f = (if f = CHANGEDBINARY then UNCHANGEDBINARY else if f = CHANGED then UNCHANGED else f)"

definition settle_range :: "nat \<Rightarrow> nat \<Rightarrow> int list \<Rightarrow> int list" where
  "settle_range off n xs = take off xs @ map settle (take n (drop off xs)) @ drop (off + n) xs"

fun settle_unit :: "card_unit \<Rightarrow> sismo_struct \<Rightarrow> sismo_struct" where
  "settle_unit (Outputs b) c =
     c\<lparr>outputs_changed := settle_range (unit_off (Outputs b)) 64 (outputs_changed c)\<rparr>"
| "settle_unit (Displays b g) c =
     c\<lparr>displays_changed := settle_range (unit_off (Displays b g)) 8 (displays_changed c)\<rparr>"
| "settle_unit (Servos b) c =
     c\<lparr>servos_changed := settle_range (unit_off (Servos b)) (unit_len (Servos b)) (servos_changed c)\<rparr>"

lemma length_settle_range [simp]: "off + n \<le> length xs \<Longrightarrow> length (settle_range off n xs) = length xs"
  by (simp add: settle_range_def)

lemma settle_range_nth:
  "off + n \<le> length xs \<Longrightarrow> k < length xs \<Longrightarrow>
   settle_range off n xs ! k = (if off \<le> k \<and> k < off + n then settle (xs ! k) else xs ! k)"
  by (auto simp: settle_range_def nth_append)

lemma settle_range_0 [simp]: "settle_range off 0 xs = xs"
  by (simp add: settle_range_def)

lemma settle_range_Suc:
  assumes "off + n < length xs"
  shows "(settle_range off n xs)[off + n := settle (xs ! (off + n))] = settle_range off (Suc n) xs"
  using assms by (intro nth_equalityI) (auto simp: settle_range_nth nth_list_update less_Suc_eq)

lemma settle_range_ok:
  assumes "arr_ok m P xs" and "off + n \<le> m" and "\<And>x. P x \<Longrightarrow> P (settle x)"
  shows "arr_ok m P (settle_range off n xs)"
  using assms arr_ok_length [OF assms(1)] arr_ok_nth [OF assms(1)]
  by (auto simp: arr_ok_def list_all_length settle_range_nth)

lemma settle_simps [simp]: "settle 0 = 0" "settle 1 = 0" "settle 2 = 2" "settle 3 = 2"
  by (simp_all add: settle_def)

section \<open>One unit\<close>

lemma bit_set_bit_of:
  assumes "j < 8" and "i < 8"
  shows "bit (set_bit_of b j v) i \<longleftrightarrow> (if i = j then v \<noteq> 0 else bit b i)"
proof -
  have "(0xff :: byte) = - 1" by simp
  then have m: "bit (0xff :: byte) i" using assms(2) by (simp only: bit_minus_1_iff) simp
  show ?thesis
    using assms m by (auto simp: set_bit_of_def Let_def bit_and_iff bit_or_iff bit_xor_iff bit_exp_iff)
qed


text \<open>One output, one display and one servo in the loops.\<close>

lemma put_output_eq:
  assumes c: "card_ok c" and k: "k < 64" and off: "off + 64 \<le> 192" and buf: "length buf = 28"
    and flags: "length flags = 192"
  shows "put_output c (int off) k (buf, flags, any) =
    Some (buf[4 + k div 8 := set_bit_of (buf ! (4 + k div 8)) (k mod 8) (outputs c ! (off + k))],
      (if flags ! (off + k) = 1 then flags[off + k := 0] else flags),
      any \<or> flags ! (off + k) = 1)"
proof -
  have i: "int k + int off = int (off + k)" and b: "4 + int (k div 8) = int (4 + k div 8)" by simp_all
  have "arr_get (outputs c) (int (off + k)) = Some (outputs c ! (off + k))"
    "arr_get flags (int (off + k)) = Some (flags ! (off + k))"
    "arr_set flags (int (off + k)) v = Some (flags[off + k := v])" for v
    using k off flags arr_ok_length [OF card_okD(7) [OF c]]
    by (simp_all add: arr_get_def arr_set_def nat_int_add)
  moreover have "arr_get buf (int (4 + k div 8)) = Some (buf ! (4 + k div 8))"
    "arr_set buf (int (4 + k div 8)) v = Some (buf[4 + k div 8 := v])" for v
    using k buf by (simp_all add: arr_get_def arr_set_def nat_int_add del: of_nat_add)
  ultimately show ?thesis
    unfolding put_output_def case_prod_conv i b by (simp del: of_nat_add)
qed

definition outputs_so_far :: "sismo_struct \<Rightarrow> nat \<Rightarrow> byte \<Rightarrow> nat \<Rightarrow> mem \<Rightarrow> bool" where
  "outputs_so_far c off b n buf \<longleftrightarrow>
     length buf = 28 \<and> take 4 buf = [0x53, 0x43, b, 0] \<and>
     (\<forall>k < n. bit (buf ! (4 + k div 8)) (k mod 8) \<longleftrightarrow> outputs c ! (off + k) \<noteq> 0)"

lemma outputs_so_far_Suc:
  assumes "outputs_so_far c off b n buf" and "n < 64"
  shows "outputs_so_far c off b (Suc n)
    (buf[4 + n div 8 := set_bit_of (buf ! (4 + n div 8)) (n mod 8) (outputs c ! (off + n))])"
proof -
  have "bit (buf[4 + n div 8 := set_bit_of (buf ! (4 + n div 8)) (n mod 8) (outputs c ! (off + n))] !
      (4 + k div 8)) (k mod 8) \<longleftrightarrow> outputs c ! (off + k) \<noteq> 0" if k: "k < Suc n" for k
  proof (cases "k div 8 = n div 8")
    case True
    then have "k mod 8 = n mod 8 \<longleftrightarrow> k = n" by (metis div_mult_mod_eq)
    moreover have "bit (buf ! (4 + n div 8)) (k mod 8) \<longleftrightarrow> outputs c ! (off + k) \<noteq> 0" if "k \<noteq> n"
      using assms(1) k that True by (metis outputs_so_far_def less_Suc_eq)
    ultimately show ?thesis using True k assms by (auto simp: outputs_so_far_def bit_set_bit_of)
  next
    case False
    then have "k \<noteq> n" by auto
    with False k assms show ?thesis by (auto simp: outputs_so_far_def)
  qed
  with assms show ?thesis by (auto simp: outputs_so_far_def)
qed

text \<open>The state of a loop over a unit after \<open>n\<close> steps: the buffer, the flags and the mark.\<close>

definition loop_state :: "nat \<Rightarrow> nat \<Rightarrow> int list \<Rightarrow> (mem \<Rightarrow> bool) \<Rightarrow> mem \<times> int list \<times> bool \<Rightarrow> bool" where
  "loop_state off n flags good s \<longleftrightarrow>
     (case s of (buf, fs, any) \<Rightarrow>
        good buf \<and> fs = settle_range off n flags \<and> any = (\<exists>k < n. odd (flags ! (off + k))))"

text \<open>The flag of the next element is still the old one, and resetting it moves the range on.\<close>

lemma settle_step:
  assumes "fs = settle_range off k flags" and "off + k < length flags"
  shows "fs ! (off + k) = flags ! (off + k)"
    and "fs[off + k := settle (flags ! (off + k))] = settle_range off (Suc k) flags"
  using assms by (simp_all add: settle_range_nth settle_range_Suc)

lemma odd_flag_Suc:
  "(\<exists>j < Suc k. odd (flags ! (off + j) :: int)) \<longleftrightarrow> (\<exists>j < k. odd (flags ! (off + j))) \<or> odd (flags ! (off + k))"
  by (auto simp: less_Suc_eq)

text \<open>A loop over a unit that keeps this state in each step ends in it.\<close>

lemma unit_loop:
  assumes "loop_state off 0 flags (good 0) s"
    and "\<And>k s. k < n \<Longrightarrow> loop_state off k flags (good k) s \<Longrightarrow>
      \<exists>t. f k s = Some t \<and> loop_state off (Suc k) flags (good (Suc k)) t"
  shows "\<exists>t. for_each [0..<n] f s = Some t \<and> loop_state off n flags (good n) t"
  using assms(2)
proof (induction n)
  case 0
  with assms(1) show ?case by simp
next
  case (Suc n)
  from Suc.IH Suc.prems obtain t where "for_each [0..<n] f s = Some t" "loop_state off n flags (good n) t"
    by force
  with Suc.prems [of n t] show ?case by (auto simp: for_each_append)
qed

lemma length_message_head [simp]: "length (message_head a b) = 28"
  by (simp add: message_head_def)

lemma write_outputs_eq:
  assumes c: "card_ok c" and b: "b \<le> 1"
  shows "\<exists>sent. write_outputs (of_nat b) (int (64 * b)) c = Some (settle_unit (Outputs b) c, sent) \<and>
    list_all2 (carries c) (if unit_changed c (Outputs b) then [Outputs b] else []) sent"
proof -
  note fl = card_okD(8) [OF c]
  have flag: "outputs_changed c ! i = 0 \<or> outputs_changed c ! i = 1" if "i < 192" for i
    using arr_ok_nth [OF fl that] by (auto simp: within_def)
  have "\<exists>t. for_each [0..<64] (put_output c (int (64 * b)))
        (message_head (of_nat b) 0, outputs_changed c, False) = Some t \<and>
      loop_state (64 * b) 64 (outputs_changed c) (outputs_so_far c (64 * b) (of_nat b) 64) t"
  proof (rule unit_loop [where good = "outputs_so_far c (64 * b) (of_nat b)"])
    show "loop_state (64 * b) 0 (outputs_changed c) (outputs_so_far c (64 * b) (of_nat b) 0)
        (message_head (of_nat b) 0, outputs_changed c, False)"
      by (simp add: loop_state_def outputs_so_far_def message_head_def)
  next
    fix k s assume k: "k < 64"
      and s: "loop_state (64 * b) k (outputs_changed c) (outputs_so_far c (64 * b) (of_nat b) k) s"
    from s obtain buf fs any where [simp]: "s = (buf, fs, any)"
      and buf: "outputs_so_far c (64 * b) (of_nat b) k buf"
      and fs: "fs = settle_range (64 * b) k (outputs_changed c)"
      and any: "any = (\<exists>j < k. odd (outputs_changed c ! (64 * b + j)))"
      by (cases s) (auto simp: loop_state_def)
    have len: "64 * b + k < length (outputs_changed c)" "length fs = 192"
      using k b arr_ok_length [OF fl] by (simp_all add: fs)
    note step = settle_step [OF fs len(1)]
    have f: "outputs_changed c ! (64 * b + k) = 0 \<or> outputs_changed c ! (64 * b + k) = 1"
      using flag k b by simp
    then have "(if fs ! (64 * b + k) = 1 then fs[64 * b + k := 0] else fs) =
        settle_range (64 * b) (Suc k) (outputs_changed c)"
      unfolding step(2) [symmetric] step(1) using list_update_id [of fs "64 * b + k"] step(1) by auto
    then show "\<exists>t. put_output c (int (64 * b)) k s = Some t \<and>
        loop_state (64 * b) (Suc k) (outputs_changed c) (outputs_so_far c (64 * b) (of_nat b) (Suc k)) t"
      using put_output_eq [OF c k, of "64 * b" buf fs any] b len outputs_so_far_Suc [OF buf k] any f
        step(1) buf [unfolded outputs_so_far_def]
      by (auto simp: loop_state_def odd_flag_Suc)
  qed
  then obtain buf where
    "for_each [0..<64] (put_output c (int (64 * b))) (message_head (of_nat b) 0, outputs_changed c, False) =
      Some (buf, settle_range (64 * b) 64 (outputs_changed c), unit_changed c (Outputs b))"
    "outputs_so_far c (64 * b) (of_nat b) 64 buf"
    by (auto simp: loop_state_def unit_changed_def)
  moreover have "get_bit x j = outputs c ! (64 * b + k)"
    if "k < 64" "bit x j \<longleftrightarrow> outputs c ! (64 * b + k) \<noteq> 0" for x :: byte and j k
    using arr_ok_nth [OF card_okD(7) [OF c], of "64 * b + k"] that b
    by (auto simp: get_bit_of_bool within_def)
  ultimately show ?thesis
    by (auto simp: write_outputs_def datagram_if_def carries_def outputs_so_far_def)
qed


lemma put_display_eq:
  assumes c: "card_ok c" and k: "k < 8" and off: "off + 8 \<le> 96" and buf: "length buf = 28"
    and flags: "length flags = 96" and f: "within 0 3 (flags ! (off + k))"
  shows "put_display c (int off) k (buf, flags, any) =
    Some ((if displays_brightness c ! (off + k) \<noteq> 15
           then buf[13 := word_of_int (displays_brightness c ! (off + k))] else buf)
        [5 + k := if flags ! (off + k) = 2 \<or> flags ! (off + k) = 3
                  then word_of_int (displays c ! (off + k)) else set_7segment (displays c ! (off + k))],
      flags[off + k := settle (flags ! (off + k))], any \<or> odd (flags ! (off + k)))"
proof -
  have i: "int k + int off = int (off + k)" by simp
  have get: "arr_get (displays c) (int (off + k)) = Some (displays c ! (off + k))"
    "arr_get (displays_brightness c) (int (off + k)) = Some (displays_brightness c ! (off + k))"
    using k off arr_ok_length [OF card_okD(9) [OF c]] arr_ok_length [OF card_okD(10) [OF c]]
    by (simp_all add: arr_get_def nat_int_add)
  have fget: "arr_get fs (int (off + k)) = Some (fs ! (off + k))"
    "arr_set fs (int (off + k)) v = Some (fs[off + k := v])" if "length fs = 96" for fs :: "int list" and v
    using k off that by (simp_all add: arr_get_def arr_set_def nat_int_add)
  have b: "arr_set bf 13 v = Some (bf[13 := v])" "arr_set bf (5 + int k) v = Some (bf[5 + k := v])"
    if "length bf = 28" for bf :: mem and v
    using k that by (simp_all add: arr_set_def nat_add_distrib)
  have "flags ! (off + k) = 0 \<or> flags ! (off + k) = 1 \<or> flags ! (off + k) = 2 \<or> flags ! (off + k) = 3"
    using f unfolding within_def by linarith
  moreover have "off + k < length flags" using k off flags by simp
  ultimately show ?thesis
    unfolding put_display_def case_prod_conv i Let_def
    using list_update_id [of flags "off + k"]
    by (elim disjE) (auto simp: get fget b buf flags simp del: of_nat_add)
qed

definition displays_so_far :: "sismo_struct \<Rightarrow> nat \<Rightarrow> mem \<Rightarrow> nat \<Rightarrow> mem \<Rightarrow> bool" where
  "displays_so_far c off head n buf \<longleftrightarrow>
     length buf = 28 \<and> take 5 buf = head \<and> (\<forall>k < n. buf ! (5 + k) = segments c (off + k)) \<and>
     buf ! 13 = word_of_int (group_brightness c off n)"

lemma group_brightness_Suc:
  "group_brightness c off (Suc n) =
     (if displays_brightness c ! (off + n) \<noteq> 15 then displays_brightness c ! (off + n)
      else group_brightness c off n)"
  by (simp add: group_brightness_def)

lemma displays_so_far_Suc:
  assumes "displays_so_far c off head n buf" and "n < 8"
  shows "displays_so_far c off head (Suc n)
    ((if displays_brightness c ! (off + n) \<noteq> 15
      then buf[13 := word_of_int (displays_brightness c ! (off + n))] else buf)
      [5 + n := segments c (off + n)])"
  using assms by (auto simp: displays_so_far_def group_brightness_Suc nth_list_update less_Suc_eq)

lemma write_group_eq:
  assumes c: "card_ok c" and b: "b \<le> 2" and g: "g \<le> 3" and dev: "dev = (if b = 0 then 0 else of_nat (b + 3))"
  shows "\<exists>sent. write_group dev (int (32 * b)) g c = Some (settle_unit (Displays b g) c, sent) \<and>
    list_all2 (carries c) (if unit_changed c (Displays b g) then [Displays b g] else []) sent"
proof -
  let ?off = "32 * b + 8 * g" and ?head = "[0x53, 0x43, dev, 1, of_nat (g + 1)]"
  note fl = card_okD(11) [OF c]
  have pos: "int g * 8 + int (32 * b) = int ?off" by simp
  have "\<exists>t. for_each [0..<8] (put_display c (int ?off)) (group_head dev g, displays_changed c, False) = Some t \<and>
      loop_state ?off 8 (displays_changed c) (displays_so_far c ?off ?head 8) t"
  proof (rule unit_loop [where good = "displays_so_far c ?off ?head"])
    show "loop_state ?off 0 (displays_changed c) (displays_so_far c ?off ?head 0)
        (group_head dev g, displays_changed c, False)"
      by (simp add: loop_state_def displays_so_far_def group_head_def message_head_def group_brightness_def
          eval_nat_numeral)
  next
    fix k s assume k: "k < 8"
      and s: "loop_state ?off k (displays_changed c) (displays_so_far c ?off ?head k) s"
    from s obtain buf fs any where [simp]: "s = (buf, fs, any)"
      and buf: "displays_so_far c ?off ?head k buf"
      and fs: "fs = settle_range ?off k (displays_changed c)"
      and any: "any = (\<exists>j < k. odd (displays_changed c ! (?off + j)))"
      by (cases s) (auto simp: loop_state_def)
    have len: "?off + k < length (displays_changed c)" "length fs = 96" "?off + 8 \<le> 96"
      using k b g arr_ok_length [OF fl] by (simp_all add: fs)
    note step = settle_step [OF fs len(1)]
    have f: "within 0 3 (fs ! (?off + k))"
      unfolding step(1) using len(1) arr_ok_length [OF fl] by (intro arr_ok_nth [OF fl]) simp
    have l: "length buf = 28" using buf by (simp add: displays_so_far_def)
    from displays_so_far_Suc [OF buf k] step any
    show "\<exists>t. put_display c (int ?off) k s = Some t \<and>
        loop_state ?off (Suc k) (displays_changed c) (displays_so_far c ?off ?head (Suc k)) t"
      by (simp add: put_display_eq [OF c k len(3) l len(2) f] loop_state_def odd_flag_Suc segments_def
          del: of_nat_add of_nat_mult)
  qed
  then obtain buf where
    "for_each [0..<8] (put_display c (int ?off)) (group_head dev g, displays_changed c, False) =
      Some (buf, settle_range ?off 8 (displays_changed c), unit_changed c (Displays b g))"
    "displays_so_far c ?off ?head 8 buf"
    by (auto simp: loop_state_def unit_changed_def)
  then show ?thesis
    unfolding write_group_def pos by (auto simp: datagram_if_def carries_def displays_so_far_def dev)
qed

lemma put_servo_eq:
  assumes c: "card_ok c" and b: "b \<le> 1" and k: "k < unit_len (Servos b)" and buf: "length buf = 28"
    and flags: "length flags = 14"
  shows "put_servo c b k (buf, flags, any) =
    Some (if flags ! (8 * b + k) = 1
      then (buf[4 := set_bit_of (buf ! 4) (k + 2 * b) 1, 5 + k + 2 * b := word_of_int (servos c ! (8 * b + k))],
        flags[8 * b + k := 0], True)
      else (buf, flags, any))"
proof -
  have i: "int k + int b * 8 = int (8 * b + k)" by simp
  have kb: "8 * b + k < 14" "5 + k + 2 * b < 28" using k b by (auto split: if_splits simp: le_Suc_eq)
  then have get: "arr_get flags (int (8 * b + k)) = Some (flags ! (8 * b + k))"
    "arr_set flags (int (8 * b + k)) v = Some (flags[8 * b + k := v])"
    "arr_get (servos c) (int (8 * b + k)) = Some (servos c ! (8 * b + k))" for v
    using flags arr_ok_length [OF card_okD(12) [OF c]]
    by (simp_all add: arr_get_int arr_set_int del: of_nat_add of_nat_mult)
  have si: "(if b = 0 then k else k + 2) = k + 2 * b" using b by (cases b) auto
  have bi: "5 + int (k + 2 * b) = int (5 + k + 2 * b)" by simp
  have bset: "arr_get bf 4 = Some (bf ! 4)" "arr_set bf 4 v = Some (bf[4 := v])"
    "arr_set bf (int (5 + k + 2 * b)) v = Some (bf[5 + k + 2 * b := v])"
    if "length bf = 28" for bf :: mem and v
    using kb(2) that by (simp_all add: arr_get_def arr_set_def nat_add_distrib nat_mult_distrib)
  show ?thesis
    unfolding put_servo_def case_prod_conv i Let_def si bi
    by (simp add: get bset buf del: of_nat_add of_nat_mult)
qed

definition servos_so_far :: "sismo_struct \<Rightarrow> nat \<Rightarrow> nat \<Rightarrow> mem \<Rightarrow> bool" where
  "servos_so_far c b n buf \<longleftrightarrow>
     length buf = 28 \<and> take 4 buf = [0x53, 0x43, 3, of_nat b] \<and>
     (\<forall>j < 8. bit (buf ! 4) j \<longleftrightarrow> (\<exists>k < n. j = k + 2 * b \<and> servos_changed c ! (8 * b + k) = 1)) \<and>
     (\<forall>k < n. servos_changed c ! (8 * b + k) = 1 \<longrightarrow>
        buf ! (5 + k + 2 * b) = word_of_int (servos c ! (8 * b + k)))"

lemma servos_so_far_Suc:
  assumes "servos_so_far c b n buf" and "n + 2 * b < 8"
  shows "servos_so_far c b (Suc n)
    (if servos_changed c ! (8 * b + n) = 1
     then buf[4 := set_bit_of (buf ! 4) (n + 2 * b) 1, 5 + n + 2 * b := word_of_int (servos c ! (8 * b + n))]
     else buf)"
  using assms by (auto simp: servos_so_far_def less_Suc_eq bit_set_bit_of nth_list_update)

lemma write_servos_eq:
  assumes c: "card_ok c" and b: "b \<le> 1"
  shows "\<exists>sent. write_servos b c = Some (settle_unit (Servos b) c, sent) \<and>
    list_all2 (carries c) (if unit_changed c (Servos b) then [Servos b] else []) sent"
proof -
  let ?n = "unit_len (Servos b)"
  note fl = card_okD(13) [OF c]
  have nb: "8 * b + ?n \<le> 14" "?n + 2 * b \<le> 8" using b by (auto simp: le_Suc_eq)
  have flag: "servos_changed c ! i = 0 \<or> servos_changed c ! i = 1" if "i < 14" for i
    using arr_ok_nth [OF fl that] by (auto simp: within_def)
  have "\<exists>t. for_each [0..<?n] (put_servo c b) (message_head 3 (of_nat b), servos_changed c, False) = Some t \<and>
      loop_state (8 * b) ?n (servos_changed c) (servos_so_far c b ?n) t"
  proof (rule unit_loop [where good = "servos_so_far c b"])
    show "loop_state (8 * b) 0 (servos_changed c) (servos_so_far c b 0)
        (message_head 3 (of_nat b), servos_changed c, False)"
      by (simp add: loop_state_def servos_so_far_def message_head_def eval_nat_numeral)
  next
    fix k s assume k: "k < ?n" and s: "loop_state (8 * b) k (servos_changed c) (servos_so_far c b k) s"
    from s obtain buf fs any where [simp]: "s = (buf, fs, any)"
      and buf: "servos_so_far c b k buf"
      and fs: "fs = settle_range (8 * b) k (servos_changed c)"
      and any: "any = (\<exists>j < k. odd (servos_changed c ! (8 * b + j)))"
      by (cases s) (auto simp: loop_state_def)
    have len: "8 * b + k < length (servos_changed c)" "length fs = 14"
      using k nb arr_ok_length [OF fl] by (simp_all add: fs)
    note step = settle_step [OF fs len(1)]
    have f: "servos_changed c ! (8 * b + k) = 0 \<or> servos_changed c ! (8 * b + k) = 1"
      using flag k nb(1) by simp
    have l: "length buf = 28" using buf by (simp add: servos_so_far_def)
    have "k + 2 * b < 8" using k nb(2) by simp
    from servos_so_far_Suc [OF buf this] step any f list_update_id [of fs "8 * b + k"]
    show "\<exists>t. put_servo c b k s = Some t \<and>
        loop_state (8 * b) (Suc k) (servos_changed c) (servos_so_far c b (Suc k)) t"
      by (auto simp: put_servo_eq [OF c b k l len(2)] loop_state_def odd_flag_Suc simp del: unit_len.simps)
  qed
  then obtain buf where loop:
    "for_each [0..<?n] (put_servo c b) (message_head 3 (of_nat b), servos_changed c, False) =
      Some (buf, settle_range (8 * b) ?n (servos_changed c), unit_changed c (Servos b))"
    and buf: "servos_so_far c b ?n buf"
    by (auto simp: loop_state_def unit_changed_def simp del: unit_len.simps)
  have "get_bit (buf ! 4) (k + 2 * b) = servos_changed c ! (8 * b + k)" if k: "k < ?n" for k
    using buf k nb flag [of "8 * b + k"] by (auto simp: servos_so_far_def get_bit_of_bool simp del: unit_len.simps)
  with buf have "content c (Servos b) buf" by (simp add: servos_so_far_def del: unit_len.simps)
  with loop buf show ?thesis
    by (auto simp: write_servos_def datagram_if_def carries_def servos_so_far_def)
qed


section \<open>Units do not disturb each other\<close>

fun valid_unit :: "card_unit \<Rightarrow> bool" where
  "valid_unit (Outputs b) \<longleftrightarrow> b \<le> 2"
| "valid_unit (Displays b g) \<longleftrightarrow> b \<le> 2 \<and> g \<le> 3"
| "valid_unit (Servos b) \<longleftrightarrow> b \<le> 1"

lemma all_units_valid: "u \<in> set all_units \<Longrightarrow> valid_unit u"
  by (auto simp: all_units_def)

lemma distinct_units: "distinct all_units"
  by (simp add: all_units_def)

text \<open>The parts of a card that sending does not change.\<close>

definition without_flags :: "sismo_struct \<Rightarrow> sismo_struct" where
  "without_flags c = c\<lparr>outputs_changed := [], displays_changed := [], servos_changed := []\<rparr>"

lemma settle_unit_frame [simp]: "without_flags (settle_unit u c) = without_flags c"
  by (cases u) (simp_all add: without_flags_def)

lemma frame_fields:
  assumes "without_flags c = without_flags d"
  shows "ip c = ip d" and "port c = port d" and "connected c = connected d" and "present c u = present d u"
    and "outputs c = outputs d" and "displays c = displays d"
    and "displays_brightness c = displays_brightness d" and "servos c = servos d"
proof -
  have *: "ip c = ip (without_flags c) \<and> port c = port (without_flags c) \<and>
      connected c = connected (without_flags c) \<and> present c u = present (without_flags c) u \<and>
      outputs c = outputs (without_flags c) \<and> displays c = displays (without_flags c) \<and>
      displays_brightness c = displays_brightness (without_flags c) \<and> servos c = servos (without_flags c)" for c
    by (cases u) (simp_all add: without_flags_def)
  show "ip c = ip d" "port c = port d" "connected c = connected d" "present c u = present d u"
    "outputs c = outputs d" "displays c = displays d"
    "displays_brightness c = displays_brightness d" "servos c = servos d"
    using * [of c] * [of d] assms by simp_all
qed

lemma settle_unit_ok:
  assumes c: "card_ok c" and u: "valid_unit u"
  shows "card_ok (settle_unit u c)"
proof (cases u)
  case (Outputs b)
  with u have "arr_ok 192 (within 0 1) (settle_range (64 * b) 64 (outputs_changed c))"
    by (intro settle_range_ok [OF card_okD(8) [OF c]]) (auto simp: within_def settle_def)
  with c Outputs show ?thesis by (simp add: card_ok_outputs)
next
  case (Displays b g)
  with u have "arr_ok 96 (within 0 3) (settle_range (32 * b + 8 * g) 8 (displays_changed c))"
    by (intro settle_range_ok [OF card_okD(11) [OF c]]) (auto simp: within_def settle_def)
  with c Displays show ?thesis by (simp add: card_ok_outputs)
next
  case (Servos b)
  with u have "arr_ok 14 (within 0 1) (settle_range (8 * b) (unit_len (Servos b)) (servos_changed c))"
    by (intro settle_range_ok [OF card_okD(13) [OF c]]) (auto simp: within_def settle_def)
  with c Servos show ?thesis by (simp add: card_ok_outputs)
qed

text \<open>The flags of a valid unit: their array, and that different units have different ones.\<close>

lemma unit_flags_ok:
  assumes "card_ok c" and "valid_unit u"
  shows "unit_off u + unit_len u \<le> length (unit_flags u c)"
    and "k < unit_len u \<Longrightarrow> within 0 3 (unit_flags u c ! (unit_off u + k))"
proof -
  note c = assms(1) and l = arr_ok_length [OF card_okD(8) [OF assms(1)]]
    arr_ok_length [OF card_okD(11) [OF assms(1)]] arr_ok_length [OF card_okD(13) [OF assms(1)]]
  show "unit_off u + unit_len u \<le> length (unit_flags u c)"
    using assms(2) l by (cases u) auto
  show "within 0 3 (unit_flags u c ! (unit_off u + k))" if k: "k < unit_len u"
  proof (cases u)
    case (Outputs b)
    with k assms(2) arr_ok_nth [OF card_okD(8) [OF c], of "64 * b + k"] show ?thesis
      by (simp add: within_def)
  next
    case (Displays b g)
    with k assms(2) arr_ok_nth [OF card_okD(11) [OF c], of "32 * b + 8 * g + k"] show ?thesis
      by (simp add: within_def)
  next
    case (Servos b)
    with k assms(2) arr_ok_nth [OF card_okD(13) [OF c], of "8 * b + k"] show ?thesis
      by (auto simp: within_def le_Suc_eq split: if_splits)
  qed
qed

lemma group_inj:
  fixes b b' g g' :: nat
  assumes "g \<le> 3" and "g' \<le> 3"
  shows "4 * b + g = 4 * b' + g' \<longleftrightarrow> b = b' \<and> g = g'"
proof
  assume eq: "4 * b + g = 4 * b' + g'"
  have "(4 * b + g) div 4 = b" and "(4 * b' + g') div 4 = b'" using assms by simp_all
  with eq show "b = b' \<and> g = g'" by simp
qed simp

lemma settled_flags:
  assumes c: "card_ok c" and u: "valid_unit u" and v: "valid_unit v" and k: "k < unit_len v"
  shows "unit_flags v (settle_unit u c) ! (unit_off v + k) =
    (if u = v then settle (unit_flags v c ! (unit_off v + k)) else unit_flags v c ! (unit_off v + k))"
proof (cases u)
  case U: (Outputs b)
  then show ?thesis using u v k arr_ok_length [OF card_okD(8) [OF c]]
    by (cases v) (auto simp: settle_range_nth)
next
  case U: (Displays b g)
  show ?thesis
  proof (cases v)
    case (Displays b' g')
    let ?x = "32 * b' + 8 * g' + k"
    from U Displays u v k have "b \<le> 2" "g \<le> 3" "b' \<le> 2" "g' \<le> 3" "k < 8" by simp_all
    moreover from this have "4 * b + g = 4 * b' + g' \<longleftrightarrow> b = b' \<and> g = g'" by (intro group_inj)
    moreover from calculation have "32 * b + 8 * g \<le> ?x \<and> ?x < 32 * b + 8 * g + 8 \<longleftrightarrow>
        4 * b + g = 4 * b' + g'" by auto
    ultimately have "32 * b + 8 * g \<le> ?x \<and> ?x < 32 * b + 8 * g + 8 \<longleftrightarrow> b = b' \<and> g = g'"
      and "32 * b + 8 * g + 8 \<le> 96" and "?x < 96" by simp_all
    then show ?thesis using U Displays arr_ok_length [OF card_okD(11) [OF c]]
      by (simp add: settle_range_nth)
  qed (use U in simp_all)
next
  case U: (Servos b)
  then show ?thesis using u v k arr_ok_length [OF card_okD(13) [OF c]]
    by (cases v) (auto simp: settle_range_nth le_Suc_eq split: if_splits)
qed

lemma settled_changed:
  assumes "card_ok c" and "valid_unit u" and "valid_unit v"
  shows "unit_changed (settle_unit u c) v \<longleftrightarrow> u \<noteq> v \<and> unit_changed c v"
proof -
  have "even (settle f)" if "within 0 3 f" for f
  proof -
    from that have "f = 0 \<or> f = 1 \<or> f = 2 \<or> f = 3" by (auto simp: within_def)
    then show ?thesis by auto
  qed
  then show ?thesis
    using unit_flags_ok(2) [OF assms(1,3)] settled_flags [OF assms]
    by (cases "u = v") (auto simp: unit_changed_def)
qed

lemma settled_carries:
  assumes c: "card_ok c" and u: "valid_unit u" and v: "valid_unit v" and ne: "u \<noteq> v"
  shows "carries (settle_unit u c) v = carries c v"
proof -
  note fl = settled_flags [OF c u v] and fr = frame_fields [OF settle_unit_frame [of u c]]
  have "content (settle_unit u c) v buf = content c v buf" for buf
  proof (cases v)
    case (Displays b g)
    have "segments (settle_unit u c) (32 * b + 8 * g + k) = segments c (32 * b + 8 * g + k)" if "k < 8" for k
      using fl [of k] ne that Displays by (simp add: segments_def fr)
    then show ?thesis using Displays by (auto simp: group_brightness_def fr)
  next
    case (Servos b)
    have "servos_changed (settle_unit u c) ! (8 * b + k) = servos_changed c ! (8 * b + k)"
      if "k < unit_len (Servos b)" for k
      using fl [of k] ne that Servos by simp
    then show ?thesis using Servos by (auto simp: fr simp del: unit_len.simps)
  qed (simp add: fr)
  then show ?thesis by (auto simp: carries_def fr fun_eq_iff)
qed

section \<open>A card\<close>

fun unit_step :: "card_unit \<Rightarrow> sismo_struct \<Rightarrow> (sismo_struct \<times> datagram list) option" where
  "unit_step (Outputs b) = write_outputs (of_nat b) (if b = 2 then 192 else int (64 * b))"
| "unit_step (Displays b g) = write_group (if b = 0 then 0 else of_nat (b + 3)) (int (32 * b)) g"
| "unit_step (Servos b) = write_servos b"

lemma unit_step_eq:
  assumes "card_ok c" and "valid_unit u" and "u \<noteq> Outputs 2"
  shows "\<exists>sent. unit_step u c = Some (settle_unit u c, sent) \<and>
    list_all2 (carries c) (if unit_changed c u then [u] else []) sent"
proof (cases u)
  case (Outputs b)
  with assms have "b \<le> 1" by simp
  with assms(1) Outputs write_outputs_eq [of c b] show ?thesis
    by (cases "unit_changed c (Outputs b)") auto
next
  case (Displays b g)
  with assms write_group_eq [of c b g "if b = 0 then 0 else of_nat (b + 3)"] show ?thesis
    by (simp only: unit_step.simps valid_unit.simps)
next
  case (Servos b)
  with assms write_servos_eq [of c b] show ?thesis by (simp only: unit_step.simps valid_unit.simps)
qed

text \<open>The loop over the units that \<open>write_card\<close> amounts to.\<close>

definition if_present :: "sismo_struct \<Rightarrow> card_unit \<Rightarrow> sismo_struct \<Rightarrow> (sismo_struct \<times> datagram list) option" where
  "if_present c u d = (if present c u then unit_step u d else Some (d, []))"

lemma and_send_loop:
  "for_each ks (\<lambda>k. and_send (g k)) (c, l @ l') =
     map_option (\<lambda>(c, l'). (c, l @ l')) (for_each ks (\<lambda>k. and_send (g k)) (c, l'))"
proof (induction ks arbitrary: c l')
  case (Cons k ks)
  show ?case
  proof (cases "g k c")
    case (Some r)
    with Cons.IH [of "fst r" "l' @ snd r"] show ?thesis by (cases r) (simp add: and_send_def)
  qed (simp add: and_send_def)
qed simp

lemma and_send_for_each:
  "and_send (\<lambda>c. for_each ks (\<lambda>k. and_send (g k)) (c, [])) s = for_each ks (\<lambda>k. and_send (g k)) s"
proof (cases s)
  case (Pair c l)
  with and_send_loop [of ks g c l "[]"] show ?thesis
    by (cases "for_each ks (\<lambda>k. and_send (g k)) (c, [])") (auto simp: and_send_def)
qed

lemma and_send_skip: "and_send (\<lambda>c. Some (c, [])) s = Some s"
  by (cases s) (simp add: and_send_def)

lemma send_displays:
  "and_send (if_connected flag (write_displays dev first)) s =
     for_each [0..<4] (\<lambda>g. and_send (\<lambda>d. if flag \<noteq> 0 then write_group dev first g d else Some (d, []))) s"
proof (cases "flag = 0")
  case True
  have "for_each ks (\<lambda>g. and_send (\<lambda>d. Some (d, []))) s = Some s" for ks :: "nat list"
    by (induction ks) (simp_all add: and_send_skip)
  with True show ?thesis by (simp add: if_connected_def [abs_def] and_send_skip)
next
  case False
  then show ?thesis
    by (simp add: if_connected_def [abs_def] write_displays_def [abs_def] and_send_for_each)
qed

lemma write_card_units:
  "write_card c = (if connected c = 1 then for_each all_units (\<lambda>u. and_send (if_present c u)) (c, [])
                   else Some (c, []))"
proof -
  have m: "and_send (write_displays 0 0) s = and_send (if_connected 1 (write_displays 0 0)) s" for s
    by (simp add: if_connected_def [abs_def])
  have u4: "[0..<4] = [0, 1, 2, 3::nat]" by (simp add: upt_conv_Cons)
  show ?thesis
    unfolding write_card_def m send_displays u4 all_units_def
    by (simp add: for_each_run if_connected_def [abs_def] if_present_def [abs_def] cong: if_cong)
qed


text \<open>After the units in \<open>done\<close>: nothing of them is left changed, and the others are as before.\<close>

definition sent_so_far :: "sismo_struct \<Rightarrow> card_unit list \<Rightarrow> card_unit list \<Rightarrow> sismo_struct \<times> datagram list \<Rightarrow> bool" where
  "sent_so_far c ds rs s \<longleftrightarrow>
     (case s of (d, sent) \<Rightarrow>
        card_ok d \<and> without_flags d = without_flags c \<and>
        (\<forall>u \<in> set ds. present c u \<longrightarrow> \<not> unit_changed d u) \<and>
        (\<forall>u \<in> set rs. unit_changed d u = unit_changed c u \<and> carries d u = carries c u) \<and>
        list_all2 (carries c) (filter (\<lambda>u. present c u \<and> unit_changed c u) ds) sent)"

lemma send_unit:
  assumes s: "sent_so_far c ds (u # rs) s" and v: "\<forall>v \<in> set (ds @ u # rs). valid_unit v"
    and u: "u \<notin> set ds" "u \<notin> set rs" and two: "present c u \<Longrightarrow> u \<noteq> Outputs 2"
  shows "\<exists>t. and_send (if_present c u) s = Some t \<and> sent_so_far c (ds @ [u]) rs t"
proof -
  obtain d sent where [simp]: "s = (d, sent)" by (cases s)
  from s have d: "card_ok d" "without_flags d = without_flags c" by (simp_all add: sent_so_far_def)
  show ?thesis
  proof (cases "present c u")
    case False
    with s show ?thesis by (auto simp: sent_so_far_def and_send_def if_present_def)
  next
    case True
    from v have vu: "valid_unit u" by simp
    from unit_step_eq [OF d(1) vu two [OF True]] s obtain more where
      step: "unit_step u d = Some (settle_unit u d, more)"
      and more: "list_all2 (carries c) (if unit_changed c u then [u] else []) more"
      by (auto simp: sent_so_far_def list_all2_Cons1 split: if_splits)
    have ch: "unit_changed (settle_unit u d) w \<longleftrightarrow> u \<noteq> w \<and> unit_changed d w" if "w \<in> set (ds @ u # rs)" for w
      using v that by (intro settled_changed [OF d(1) vu]) auto
    have ca: "carries (settle_unit u d) w = carries d w" if "w \<in> set rs" for w
      using v u that by (intro settled_carries [OF d(1) vu]) auto
    have "sent_so_far c (ds @ [u]) rs (settle_unit u d, sent @ more)"
      using s more settle_unit_ok [OF d(1) vu] d(2) ch ca u True
      by (auto simp: sent_so_far_def list_all2_appendI)
    with step True show ?thesis by (simp add: and_send_def if_present_def)
  qed
qed

lemma send_units:
  assumes "sent_so_far c ds us s" and "\<forall>v \<in> set (ds @ us). valid_unit v" and "distinct (ds @ us)"
    and "present c (Outputs 2) \<Longrightarrow> Outputs 2 \<notin> set us"
  shows "\<exists>t. for_each us (\<lambda>u. and_send (if_present c u)) s = Some t \<and> sent_so_far c (ds @ us) [] t"
  using assms
proof (induction us arbitrary: ds s)
  case (Cons u us)
  have "u \<noteq> Outputs 2" if "present c u" using Cons.prems(4) that by auto
  with Cons.prems send_unit [of c ds u us s] obtain t where
    "and_send (if_present c u) s = Some t" "sent_so_far c (ds @ [u]) us t" by auto
  with Cons.IH [of "ds @ [u]" t] Cons.prems show ?case by auto
qed simp

lemma write_card_eq:
  assumes c: "card_ok c" and two: "connected c = 1 \<Longrightarrow> daughter_output2 c = 0"
  shows "\<exists>d sent. write_card c = Some (d, sent) \<and> card_ok d \<and> without_flags d = without_flags c \<and>
    (\<forall>u \<in> set all_units. \<not> due d u) \<and> list_all2 (carries c) (filter (due c) all_units) sent"
proof (cases "connected c = 1")
  case False
  then have "\<not> due c u" for u by (simp add: due_def)
  with False c show ?thesis by (simp add: write_card_def)
next
  case True
  have "sent_so_far c [] all_units (c, [])" using c by (simp add: sent_so_far_def)
  from send_units [OF this] all_units_valid distinct_units two [OF True] obtain d sent where
    "write_card c = Some (d, sent)" and s: "sent_so_far c all_units [] (d, sent)"
    by (auto simp: write_card_units True)
  moreover from s have "without_flags d = without_flags c" by (simp add: sent_so_far_def)
  moreover note fr = frame_fields [OF this]
  moreover have "due c = (\<lambda>u. present c u \<and> unit_changed c u)" using True by (auto simp: due_def)
  ultimately show ?thesis using s by (auto simp: sent_so_far_def due_def fr(4))
qed

section \<open>The table\<close>

lemma write_cards_eq:
  assumes "list_all card_ok cs" and "\<forall>c \<in> set cs. connected c = 1 \<longrightarrow> daughter_output2 c = 0"
  shows "\<exists>ds sents. write_cards cs = Some (ds, concat sents) \<and> list_all card_ok ds \<and>
    map without_flags ds = map without_flags cs \<and> (\<forall>d \<in> set ds. \<forall>u \<in> set all_units. \<not> due d u) \<and>
    list_all2 (\<lambda>c sent. list_all2 (carries c) (filter (due c) all_units) sent) cs sents"
  using assms
proof (induction cs)
  case (Cons c cs)
  from Cons.prems write_card_eq [of c] obtain d sent where
    1: "write_card c = Some (d, sent)" "card_ok d" "without_flags d = without_flags c"
      "\<forall>u \<in> set all_units. \<not> due d u" "list_all2 (carries c) (filter (due c) all_units) sent" by auto
  from Cons obtain ds sents where
    2: "write_cards cs = Some (ds, concat sents)" "list_all card_ok ds" "map without_flags ds = map without_flags cs"
      "\<forall>d \<in> set ds. \<forall>u \<in> set all_units. \<not> due d u"
      "list_all2 (\<lambda>c sent. list_all2 (carries c) (filter (due c) all_units) sent) cs sents" by auto
  from 1 2 show ?case by (intro exI [of _ "d # ds"] exI [of _ "sent # sents"]) auto
qed simp

text \<open>What the specification says about one call: the datagrams that are due, card by card and unit
  by unit, each carrying its unit; afterwards nothing is due, and only change flags have changed.\<close>

definition all_sent :: "sismo_struct list \<Rightarrow> sismo_struct list \<Rightarrow> datagram list \<Rightarrow> bool" where
  "all_sent cs ds sent \<longleftrightarrow>
     map without_flags ds = map without_flags cs \<and>
     (\<forall>d \<in> set ds. \<forall>u \<in> set all_units. \<not> due d u) \<and>
     list_all2 (\<lambda>(c, u). carries c u)
       (concat (map (\<lambda>c. map (Pair c) (filter (due c) all_units)) cs)) sent"

lemma all_sent_concat:
  "list_all2 (\<lambda>c sent. list_all2 (carries c) (filter (due c) all_units) sent) cs sents \<Longrightarrow>
   list_all2 (\<lambda>(c, u). carries c u)
     (concat (map (\<lambda>c. map (Pair c) (filter (due c) all_units)) cs)) (concat sents)"
  by (induction rule: list_all2_induct) (auto intro!: list_all2_appendI simp: list_all2_map1)

lemma write_sismo_sends:
  assumes "sismo_ok st" and "\<forall>c \<in> set (sismo st). connected c = 1 \<longrightarrow> daughter_output2 c = 0"
  shows "\<exists>ds sent. write_sismo st = Some (st\<lparr>sismo := ds\<rparr>, sent) \<and> sismo_ok (st\<lparr>sismo := ds\<rparr>) \<and>
    all_sent (sismo st) ds sent"
proof -
  from assms have "list_all card_ok (sismo st)" by (simp add: sismo_ok_def arr_ok_def)
  from write_cards_eq [OF this assms(2)] obtain ds sents where
    w: "write_cards (sismo st) = Some (ds, concat sents)" "list_all card_ok ds"
      "map without_flags ds = map without_flags (sismo st)" "\<forall>d \<in> set ds. \<forall>u \<in> set all_units. \<not> due d u"
      "list_all2 (\<lambda>c sent. list_all2 (carries c) (filter (due c) all_units) sent) (sismo st) sents" by auto
  from map_eq_imp_length_eq [OF w(3)] assms(1) w(2) have "sismo_ok (st\<lparr>sismo := ds\<rparr>)"
    by (simp add: sismo_ok_def arr_ok_def)
  with w all_sent_concat [OF w(5)] show ?thesis
    by (intro exI [of _ ds] exI [of _ "concat sents"]) (simp add: write_sismo_def all_sent_def)
qed

lemma all_sent_silent:
  assumes "\<forall>d \<in> set ds. \<forall>u \<in> set all_units. \<not> due d u" and "all_sent ds es sent"
  shows "sent = []"
proof -
  have "filter (due d) all_units = []" if "d \<in> set ds" for d
    using assms(1) that by (auto simp: filter_empty_conv)
  then have "concat (map (\<lambda>c. map (Pair c) (filter (due c) all_units)) ds) = []" by simp
  with assms(2) show ?thesis by (simp add: all_sent_def)
qed

text \<open>C13: on a well-formed table with no card that has the second daughter board for outputs,
  \<open>write_sismo\<close> sends exactly one datagram for every bank of outputs, group of displays and bank
  of servos that is connected and has a changed element; the datagram goes to the card and carries
  the state of all elements of the unit. The values stay, nothing is left marked as changed, and
  a second call sends nothing.\<close>

theorem write_sismo_correct:
  assumes "sismo_ok st" and "\<forall>c \<in> set (sismo st). connected c = 1 \<longrightarrow> daughter_output2 c = 0"
  shows "\<exists>st' sent. write_sismo st = Some (st', sent) \<and> sismo_ok st' \<and>
    all_sent (sismo st) (sismo st') sent \<and> (\<exists>st''. write_sismo st' = Some (st'', []))"
proof -
  from write_sismo_sends [OF assms] obtain ds sent where
    w: "write_sismo st = Some (st\<lparr>sismo := ds\<rparr>, sent)" "sismo_ok (st\<lparr>sismo := ds\<rparr>)"
      "all_sent (sismo st) ds sent" by auto
  have "\<forall>d \<in> set ds. connected d = 1 \<longrightarrow> daughter_output2 d = 0"
  proof
    fix d assume "d \<in> set ds"
    then obtain i where i: "i < length ds" "ds ! i = d" by (auto simp: in_set_conv_nth)
    from w(3) have m: "map without_flags ds = map without_flags (sismo st)" by (simp add: all_sent_def)
    note map_eq_imp_length_eq [OF m]
    moreover from m i have "without_flags d = without_flags (sismo st ! i)"
      using calculation by (metis nth_map)
    ultimately show "connected d = 1 \<longrightarrow> daughter_output2 d = 0"
      using assms(2) i frame_fields(3) [of d "sismo st ! i"] frame_fields(4) [of d "sismo st ! i" "Outputs 2"]
      by auto
  qed
  with write_sismo_sends [OF w(2)] obtain es sent' where
    w': "write_sismo (st\<lparr>sismo := ds\<rparr>) = Some (st\<lparr>sismo := es\<rparr>, sent')" "all_sent ds es sent'" by auto
  from w(3) have "\<forall>d \<in> set ds. \<forall>u \<in> set all_units. \<not> due d u" by (simp add: all_sent_def)
  from all_sent_silent [OF this w'(2)] w w'(1) show ?thesis by auto
qed

end
