(* ===== verification/SismoDisplay.thy ===== *)
theory SismoDisplay
  imports SismoSend
begin

text \<open>
  What \<open>display_output\<close> shows: the bytes that are sent for the displays are read back as the number,
  with its decimal point and its sign.
\<close>

section \<open>Drawing\<close>

definition without_displays :: "sismo_struct \<Rightarrow> sismo_struct" where
  "without_displays c = c\<lparr>displays := [], displays_changed := []\<rparr>"

text \<open>
  From \<open>c\<close> to \<open>d\<close>, displays \<open>p + j .. p + m - 1\<close> have got the values \<open>g\<close>; nothing else but
  change flags of these displays has changed, and a flag that has changed is \<open>CHANGED\<close>.
\<close>

definition drawn :: "nat \<Rightarrow> nat \<Rightarrow> nat \<Rightarrow> (nat \<Rightarrow> int) \<Rightarrow> sismo_struct \<Rightarrow> sismo_struct \<Rightarrow> bool" where
  "drawn p j m g c d \<longleftrightarrow>
     card_ok d \<and>
     without_displays d = without_displays c \<and>
     (\<forall>i < 96. (if p + j \<le> i \<and> i < p + m then displays d ! i = g (i - p)
                   \<and> (displays_changed d ! i = displays_changed c ! i \<or> displays_changed d ! i = 1)
                else displays d ! i = displays c ! i \<and> displays_changed d ! i = displays_changed c ! i))"

lemma drawn_empty: "card_ok c \<Longrightarrow> drawn p j j g c c"
  by (auto simp: drawn_def)

lemma drawn_cong: "drawn p j m g c d \<Longrightarrow> (\<And>k. j \<le> k \<Longrightarrow> k < m \<Longrightarrow> g k = h k) \<Longrightarrow> drawn p j m h c d"
  by (auto simp: drawn_def)

lemma drawn_join:
  assumes cd: "drawn p j k g c d" and de: "drawn p k m g d e" and "j \<le> k" and "k \<le> m"
  shows "drawn p j m g c e"
  unfolding drawn_def
proof (intro conjI allI impI)
  show "card_ok e" using de by (simp add: drawn_def)
  show "without_displays e = without_displays c" using cd de by (simp add: drawn_def)
  fix i assume i: "i < (96::nat)"
  from cd i have "if p + j \<le> i \<and> i < p + k
    then displays d ! i = g (i - p) \<and> (displays_changed d ! i = displays_changed c ! i \<or> displays_changed d ! i = 1)
    else displays d ! i = displays c ! i \<and> displays_changed d ! i = displays_changed c ! i"
    unfolding drawn_def by blast
  moreover from de i have "if p + k \<le> i \<and> i < p + m
    then displays e ! i = g (i - p) \<and> (displays_changed e ! i = displays_changed d ! i \<or> displays_changed e ! i = 1)
    else displays e ! i = displays d ! i \<and> displays_changed e ! i = displays_changed d ! i"
    unfolding drawn_def by blast
  ultimately show "if p + j \<le> i \<and> i < p + m then displays e ! i = g (i - p)
      \<and> (displays_changed e ! i = displays_changed c ! i \<or> displays_changed e ! i = 1)
    else displays e ! i = displays c ! i \<and> displays_changed e ! i = displays_changed c ! i"
    using assms(3,4) by (cases "i < p + k") (auto split: if_splits)
qed

lemma show_at_drawn:
  assumes c: "card_ok c" and i: "p + j < 96" and v: "- 128 \<le> g j" "g j < 128"
  shows "\<exists>d. show_at (int p + int j) (g j) CHANGED c = Some d \<and> drawn p j (Suc j) g c d"
proof -
  have ix: "int p + int j = int (p + j)" by simp
  note l = arr_ok_length [OF card_okD(9) [OF c]] arr_ok_length [OF card_okD(11) [OF c]]
  show ?thesis
  proof (cases "displays c ! (p + j) = g j")
    case True
    with i l have "show_at (int p + int j) (g j) CHANGED c = Some c"
      by (simp add: show_at_def ix arr_get_int del: of_nat_add)
    moreover have "drawn p j (Suc j) g c c"
      using True c by (auto simp: drawn_def le_less_Suc_eq)
    ultimately show ?thesis by blast
  next
    case False
    let ?d = "c\<lparr>displays := (displays c)[p + j := g j], displays_changed := (displays_changed c)[p + j := 1]\<rparr>"
    from False i l v have "show_at (int p + int j) (g j) CHANGED c = Some ?d"
      by (simp add: show_at_def ix arr_get_int arr_set_int del: of_nat_add)
    moreover have "card_ok ?d"
      using v by (intro card_ok_outputs(4) c arr_ok_update card_okD(9) [OF c] card_okD(11) [OF c])
        (simp_all add: within_def)
    then have "drawn p j (Suc j) g c ?d"
      using i l by (auto simp: drawn_def without_displays_def nth_list_update)
    ultimately show ?thesis by blast
  qed
qed

section \<open>The digits\<close>

definition point :: "int \<Rightarrow> nat \<Rightarrow> int" where
  "point dp k = (if dp = int k then 10 else 0)"

lemma smod_sdiv_nonneg: "0 \<le> (x::int) \<Longrightarrow> x smod 10 = x mod 10 \<and> x sdiv 10 = x div 10"
  by (simp add: signed_divide_int_def signed_modulo_int_def sgn_if)

lemma show_digits_drawn:
  assumes "card_ok c" and "0 \<le> v" and "j \<le> n" and "p + n \<le> 96"
  shows "\<exists>m d. show_digits (int p) (int n) dp (v div 10 ^ j) (int j) c = Some (int m, d) \<and>
    j \<le> m \<and> m \<le> n \<and> drawn p j m (\<lambda>k. v div 10 ^ k mod 10 + point dp k) c d \<and>
    (m < n \<longrightarrow> v div 10 ^ m = 0) \<and> (j < m \<longrightarrow> v div 10 ^ (m - 1) \<noteq> 0)"
  using assms
proof (induction "n - j" arbitrary: j c)
  case 0
  then have "j = n" by simp
  with 0 show ?case by (intro exI [of _ j] exI [of _ c]) (simp add: show_digits.simps drawn_empty)
next
  case (Suc l)
  let ?g = "\<lambda>k. v div 10 ^ k mod 10 + point dp k"
  have pos: "0 \<le> v div 10 ^ j" using Suc.prems by (simp add: pos_imp_zdiv_nonneg_iff)
  show ?case
  proof (cases "v div 10 ^ j = 0")
    case True
    with Suc.prems show ?thesis
      by (intro exI [of _ j] exI [of _ c]) (simp add: show_digits.simps drawn_empty)
  next
    case False
    from Suc.hyps(2) have j: "j < n" by simp
    have "- 128 \<le> ?g j" "?g j < 128" by (auto simp: point_def pos_mod_bound [of 10] intro: add_nonneg_nonneg
        order_trans [of _ "0::int"] less_le_trans [of _ "10::int"] less_le_trans [of _ "20::int"])
    from show_at_drawn [where g = ?g and p = p, OF Suc.prems(1) _ this] j Suc.prems(4) obtain d where
      d: "show_at (int p + int j) (?g j) CHANGED c = Some d" "drawn p j (Suc j) ?g c d" by auto
    from d(2) have cd: "card_ok d" by (simp add: drawn_def)
    from Suc.hyps(2) j have l: "l = n - Suc j" "Suc j \<le> n" by simp_all
    from Suc.hyps(1) [OF l(1) cd Suc.prems(2) l(2) Suc.prems(4)] obtain m e where
      e: "show_digits (int p) (int n) dp (v div 10 ^ Suc j) (int (Suc j)) d = Some (int m, e)"
        "Suc j \<le> m" "m \<le> n" "drawn p (Suc j) m ?g d e" "m < n \<longrightarrow> v div 10 ^ m = 0"
        "Suc j < m \<longrightarrow> v div 10 ^ (m - 1) \<noteq> 0" by blast
    have dv: "v div 10 ^ j div 10 = v div 10 ^ Suc j"
      using zdiv_zmult2_eq [of 10 v "10 ^ j"] by (simp only: power_Suc mult.commute)
    have s: "int j + 1 = int (Suc j)" by simp
    have "show_digits (int p) (int n) dp (v div 10 ^ j) (int j) c = Some (int m, e)"
      using False j d(1) e(1) smod_sdiv_nonneg [OF pos]
      by (subst show_digits.simps) (simp add: point_def Let_def dv s del: of_nat_Suc)
    moreover have "drawn p j m ?g c e" by (rule drawn_join [OF d(2) e(4)]) (use e(2) in simp_all)
    moreover have "v div 10 ^ (m - 1) \<noteq> 0" using e(2,6) False by (cases "m = Suc j") auto
    ultimately show ?thesis using e(2,3,5) by (intro exI [of _ m] exI [of _ e]) simp
  qed
qed

text \<open>The rest of a number that is not negative: zeros up to the decimal point, then blanks.\<close>

definition filler :: "int \<Rightarrow> nat \<Rightarrow> int" where
  "filler dp k = (if k = 0 \<or> int k \<le> dp then point dp k else - 1)"

lemma show_rest_drawn:
  assumes "card_ok c" and "j \<le> n" and "p + n \<le> 96"
  shows "\<exists>d. show_rest (int p) (int n) dp False (int j) c = Some d \<and> drawn p j n (filler dp) c d"
  using assms
proof (induction "n - j" arbitrary: j c)
  case 0
  then have "j = n" by simp
  with 0 show ?case by (simp add: show_rest.simps drawn_empty)
next
  case (Suc l)
  from Suc.hyps(2) have j: "j < n" by simp
  have "- 128 \<le> filler dp j" "filler dp j < 128" by (simp_all add: filler_def point_def)
  from show_at_drawn [where g = "filler dp" and p = p, OF Suc.prems(1) _ this] j Suc.prems(3) obtain d where
    d: "show_at (int p + int j) (filler dp j) CHANGED c = Some d" "drawn p j (Suc j) (filler dp) c d" by auto
  from d(2) have cd: "card_ok d" by (simp add: drawn_def)
  from Suc.hyps(2) j have l: "l = n - Suc j" "Suc j \<le> n" by simp_all
  from Suc.hyps(1) [OF l(1) cd l(2) Suc.prems(3)] obtain e where
    e: "show_rest (int p) (int n) dp False (int (Suc j)) d = Some e" "drawn p (Suc j) n (filler dp) d e" by blast
  have s: "int j + 1 = int (Suc j)" by simp
  have "show_rest (int p) (int n) dp False (int j) c = Some e"
    using j d(1) e(1) by (subst show_rest.simps) (auto simp: filler_def point_def s simp del: of_nat_Suc)
  moreover have "drawn p j n (filler dp) c e" by (rule drawn_join [OF d(2) e(2)]) (use j in simp_all)
  ultimately show ?case by blast
qed

text \<open>The rest of a negative number whose digits reach beyond the decimal point: the sign, blanks.\<close>

lemma show_rest_negative:
  assumes "card_ok c" and "j < n" and "p + n \<le> 96" and "dp < int j" and "0 < j"
  shows "\<exists>d. show_rest (int p) (int n) dp True (int j) c = Some d \<and>
    drawn p j n (\<lambda>k. if k = j then - 10 else - 1) c d"
proof -
  let ?g = "\<lambda>k. if k = j then - 10 else - 1 :: int"
  from show_at_drawn [of c p j ?g] assms obtain d where
    d: "show_at (int p + int j) (- 10) CHANGED c = Some d" "drawn p j (Suc j) ?g c d" by auto
  from d(2) have "card_ok d" by (simp add: drawn_def)
  with show_rest_drawn [of d "Suc j" n p dp] assms obtain e where
    e: "show_rest (int p) (int n) dp False (int (Suc j)) d = Some e" "drawn p (Suc j) n (filler dp) d e" by auto
  from e(2) have "drawn p (Suc j) n ?g d e" by (rule drawn_cong) (use assms(4) in \<open>auto simp: filler_def\<close>)
  with d(2) have "drawn p j n ?g c e" by (rule drawn_join) (use assms in simp_all)
  moreover have "show_rest (int p) (int n) dp True (int j) c = Some e"
    using assms d(1) e(1) by (subst show_rest.simps) (simp add: add.commute)
  ultimately show ?thesis by blast
qed


section \<open>Numbers\<close>

text \<open>What stands at position \<open>k\<close>, from the right, of a number.\<close>

definition glyph :: "int \<Rightarrow> int \<Rightarrow> nat \<Rightarrow> int" where
  "glyph dp v k =
     (if \<bar>v\<bar> div 10 ^ k \<noteq> 0 then \<bar>v\<bar> div 10 ^ k mod 10 + point dp k
      else if v < 0 then (if \<bar>v\<bar> div 10 ^ (k - 1) \<noteq> 0 then - 10 else - 1)
      else filler dp k)"

text \<open>A negative number must leave room for its sign, and must have a digit left of its point.\<close>

definition fits :: "nat \<Rightarrow> int \<Rightarrow> int \<Rightarrow> bool" where
  "fits n dp v \<longleftrightarrow>
     - 2147483648 < v \<and> v < 2147483648 \<and>
     (if v < 0 then \<bar>v\<bar> < 10 ^ (n - 1) \<and> (dp < 0 \<or> 10 ^ nat dp \<le> \<bar>v\<bar>) else v < 10 ^ n)"

lemma glyph_digit: "10 ^ k \<le> \<bar>v\<bar> \<Longrightarrow> glyph dp v k = \<bar>v\<bar> div 10 ^ k mod 10 + point dp k"
  by (simp add: glyph_def div_power_0)

lemma glyph_rest: "0 \<le> v \<Longrightarrow> v < 10 ^ k \<Longrightarrow> glyph dp v k = filler dp k"
  by (simp add: glyph_def)

lemma glyph_minus: "v < 0 \<Longrightarrow> \<bar>v\<bar> < 10 ^ k \<Longrightarrow> glyph dp v k = (if 10 ^ (k - 1) \<le> \<bar>v\<bar> then - 10 else - 1)"
  by (simp add: glyph_def div_power_0 not_less [symmetric])

lemma show_number_drawn:
  assumes c: "card_ok c" and n: "0 < n" and pn: "p + n \<le> 96" and v: "fits n dp v"
  shows "\<exists>d. show_number (int p) (int n) dp v c = Some d \<and> drawn p 0 n (glyph dp v) c d"
proof -
  have abs: "(if v < 0 then wrap32 (- v) else v) = \<bar>v\<bar>" using v by (auto simp: fits_def in_i32_def)
  from show_digits_drawn [OF c, of "\<bar>v\<bar>" 0 n p dp] pn obtain m d where
    d: "show_digits (int p) (int n) dp \<bar>v\<bar> 0 c = Some (int m, d)" "m \<le> n"
      "drawn p 0 m (\<lambda>k. \<bar>v\<bar> div 10 ^ k mod 10 + point dp k) c d"
      "m < n \<longrightarrow> \<bar>v\<bar> div 10 ^ m = 0" "0 < m \<longrightarrow> \<bar>v\<bar> div 10 ^ (m - 1) \<noteq> 0" by auto
  from d(5) have lo: "10 ^ (m - 1) \<le> \<bar>v\<bar>" if "0 < m" using that by (simp add: div_power_0)
  have big: "10 ^ k \<le> \<bar>v\<bar>" if "k < m" for k
    using lo power_10_mono [of k "m - 1"] that by linarith
  from d(3) have dm: "drawn p 0 m (glyph dp v) c d" by (rule drawn_cong) (simp add: glyph_digit big)
  from d(3) have cd: "card_ok d" by (simp add: drawn_def)
  have small: "\<bar>v\<bar> < 10 ^ k" if "m \<le> k" "k < n" for k
  proof -
    from d(4) that have "\<bar>v\<bar> < 10 ^ m" by (simp add: div_power_0)
    with power_10_mono [OF that(1)] show ?thesis by linarith
  qed
  show ?thesis
  proof (cases "v < 0")
    case False
    from show_rest_drawn [OF cd d(2) pn, of dp] obtain e where
      e: "show_rest (int p) (int n) dp False (int m) d = Some e" "drawn p m n (filler dp) d e" by auto
    from e(2) have "drawn p m n (glyph dp v) d e"
      by (rule drawn_cong) (use False small in \<open>simp add: glyph_rest\<close>)
    with dm have "drawn p 0 n (glyph dp v) c e" by (rule drawn_join) (use d(2) in simp_all)
    with False d(1) e(1) abs show ?thesis by (auto simp: show_number_def Let_def)
  next
    case True
    with v have room: "\<bar>v\<bar> < 10 ^ (n - 1)" and pt: "dp < 0 \<or> 10 ^ nat dp \<le> \<bar>v\<bar>"
      by (simp_all add: fits_def)
    have "m \<noteq> 0" using True small [of 0] n by (intro notI) simp
    moreover have "m \<noteq> n" using lo room n by (intro notI) simp
    ultimately have m: "0 < m" "m < n" using d(2) by simp_all
    have "dp < int m"
    proof (rule ccontr)
      assume "\<not> dp < int m"
      then have "m \<le> nat dp" "0 \<le> dp" by simp_all
      with pt small [of m] m(2) power_10_mono [of m "nat dp"] show False by linarith
    qed
    from show_rest_negative [OF cd m(2) pn this m(1)] obtain e where
      e: "show_rest (int p) (int n) dp True (int m) d = Some e"
        "drawn p m n (\<lambda>k. if k = m then - 10 else - 1) d e" by auto
    have gl: "glyph dp v k = (if k = m then - 10 else - 1)" if k: "m \<le> k" "k < n" for k
    proof (cases "k = m")
      case True
      with \<open>v < 0\<close> small [OF k] lo m(1) show ?thesis by (simp add: glyph_minus)
    next
      case False
      with k have "m \<le> k - 1" "k - 1 < n" by simp_all
      from small [OF this] \<open>v < 0\<close> small [OF k] False show ?thesis by (simp add: glyph_minus)
    qed
    from e(2) have "drawn p m n (glyph dp v) d e" by (rule drawn_cong) (simp only: gl)
    with dm have "drawn p 0 n (glyph dp v) c e" by (rule drawn_join) (use d(2) in simp_all)
    with True d(1) e(1) abs show ?thesis by (auto simp: show_number_def Let_def)
  qed
qed

section \<open>Reading a display\<close>

text \<open>The digit, the decimal point and the sign that a person sees in the segments of a display.\<close>

definition read_digit :: "byte \<Rightarrow> int" where
  "read_digit b =
     (let s = and b 0x7F
      in if s = 0x30 then 1 else if s = 0x6D then 2 else if s = 0x79 then 3 else if s = 0x33 then 4
         else if s = 0x5B then 5 else if s = 0x5F then 6 else if s = 0x70 then 7 else if s = 0x7F then 8
         else if s = 0x7B then 9 else 0)"

definition read_number :: "byte list \<Rightarrow> int" where
  "read_number bs =
     (let m = (\<Sum>k < length bs. read_digit (bs ! k) * 10 ^ k) in if 0x01 \<in> set bs then - m else m)"

lemma digit_cases:
  fixes d :: int
  assumes "0 \<le> d" and "d < 10"
  shows "d = 0 \<or> d = 1 \<or> d = 2 \<or> d = 3 \<or> d = 4 \<or> d = 5 \<or> d = 6 \<or> d = 7 \<or> d = 8 \<or> d = 9"
  using assms by presburger

lemma seven_segments:
  assumes "0 \<le> d" and "d < 10"
  shows "read_digit (set_7segment d) = d" and "read_digit (set_7segment (d + 10)) = d"
    and "\<not> bit (set_7segment d) 7" and "bit (set_7segment (d + 10)) 7"
    and "set_7segment d \<noteq> 1" and "set_7segment (d + 10) \<noteq> 1"
  using digit_cases [OF assms]
  by (elim disjE; simp add: set_7segment_def digit_segments_def read_digit_def bit_numeral_word_iff)+

lemma other_segments:
  "read_digit (set_7segment (- 1)) = 0" "read_digit (set_7segment (- 10)) = 0"
  "\<not> bit (set_7segment (- 1)) 7" "\<not> bit (set_7segment (- 10)) 7"
  "set_7segment (- 1) \<noteq> 1" "set_7segment (- 10) = 1"
  by (simp_all add: set_7segment_def digit_segments_def read_digit_def)

lemma filler_cases: "filler dp k = 0 \<and> dp \<noteq> int k \<or> filler dp k = 10 \<and> dp = int k \<or> filler dp k = - 1 \<and> dp \<noteq> int k"
  by (auto simp: filler_def point_def)

lemma glyph_segments:
  assumes v: "fits n dp v" and k: "k < n"
  shows "read_digit (set_7segment (glyph dp v k)) = \<bar>v\<bar> div 10 ^ k mod 10"
    and "bit (set_7segment (glyph dp v k)) 7 \<longleftrightarrow> dp = int k"
    and "set_7segment (glyph dp v k) = 1 \<longleftrightarrow> v < 0 \<and> \<bar>v\<bar> div 10 ^ k = 0 \<and> \<bar>v\<bar> div 10 ^ (k - 1) \<noteq> 0"
proof -
  let ?d = "\<bar>v\<bar> div 10 ^ k mod 10"
  have d: "0 \<le> ?d" "?d < 10" by simp_all
  have pt: "dp \<noteq> int k" if "v < 0" "\<bar>v\<bar> div 10 ^ k = 0"
  proof
    assume "dp = int k"
    with v that show False by (simp add: fits_def div_power_0)
  qed
  consider (digit) "\<bar>v\<bar> div 10 ^ k \<noteq> 0"
    | (neg) "\<bar>v\<bar> div 10 ^ k = 0" "v < 0" | (fill) "\<bar>v\<bar> div 10 ^ k = 0" "0 \<le> v" by linarith
  then have "read_digit (set_7segment (glyph dp v k)) = ?d \<and>
    (bit (set_7segment (glyph dp v k)) 7 \<longleftrightarrow> dp = int k) \<and>
    (set_7segment (glyph dp v k) = 1 \<longleftrightarrow> v < 0 \<and> \<bar>v\<bar> div 10 ^ k = 0 \<and> \<bar>v\<bar> div 10 ^ (k - 1) \<noteq> 0)"
  proof cases
    case digit
    then show ?thesis using seven_segments [OF d] by (cases "dp = int k") (simp_all add: glyph_def point_def)
  next
    case neg
    then show ?thesis using pt other_segments by (simp add: glyph_def)
  next
    case fill
    then have "glyph dp v k = filler dp k" by (simp add: glyph_def)
    with fill filler_cases [of dp k] seven_segments [of 0] other_segments show ?thesis by auto
  qed
  then show "read_digit (set_7segment (glyph dp v k)) = ?d"
    "bit (set_7segment (glyph dp v k)) 7 \<longleftrightarrow> dp = int k"
    "set_7segment (glyph dp v k) = 1 \<longleftrightarrow> v < 0 \<and> \<bar>v\<bar> div 10 ^ k = 0 \<and> \<bar>v\<bar> div 10 ^ (k - 1) \<noteq> 0"
    by blast+
qed

lemma sign_shown:
  assumes v: "fits n dp v" and n: "0 < n"
  shows "(\<exists>k < n. set_7segment (glyph dp v k) = 1) \<longleftrightarrow> v < 0"
proof
  assume neg: "v < 0"
  define k where "k = (LEAST k. \<bar>v\<bar> < 10 ^ k)"
  from v neg have room: "\<bar>v\<bar> < 10 ^ (n - 1)" by (simp add: fits_def)
  then have k: "\<bar>v\<bar> < 10 ^ k" "k \<le> n - 1" unfolding k_def by (rule LeastI, rule Least_le)
  with neg have "0 < k" by (cases k) simp_all
  then have "\<not> \<bar>v\<bar> < 10 ^ (k - 1)" unfolding k_def by (intro not_less_Least) simp
  with k n neg glyph_segments(3) [OF v, of k] show "\<exists>k < n. set_7segment (glyph dp v k) = 1"
    by (intro exI [of _ k]) (simp add: div_power_0)
qed (use glyph_segments(3) [OF v] in blast)

lemma read_number_glyphs:
  assumes v: "fits n dp v" and n: "0 < n"
  shows "read_number (map (\<lambda>k. set_7segment (glyph dp v k)) [0..<n]) = v"
proof -
  have "(\<Sum>k < n. read_digit (map (\<lambda>k. set_7segment (glyph dp v k)) [0..<n] ! k) * 10 ^ k) =
      (\<Sum>k < n. \<bar>v\<bar> div 10 ^ k mod 10 * 10 ^ k)"
    by (intro sum.cong) (simp_all add: glyph_segments(1) [OF v])
  also have "\<dots> = \<bar>v\<bar> mod 10 ^ n" by (rule digits_sum) simp
  also have "\<bar>v\<bar> < 10 ^ n"
  proof (cases "v < 0")
    case True
    with v have "\<bar>v\<bar> < 10 ^ (n - 1)" by (simp add: fits_def)
    moreover have "(10::int) ^ (n - 1) \<le> 10 ^ n" by (rule power_10_mono) simp
    ultimately show ?thesis by linarith
  qed (use v in \<open>simp add: fits_def\<close>)
  then have "\<bar>v\<bar> mod 10 ^ n = \<bar>v\<bar>" by (intro mod_pos_pos_trivial) simp_all
  finally have s: "(\<Sum>k < n. read_digit (map (\<lambda>k. set_7segment (glyph dp v k)) [0..<n] ! k) * 10 ^ k) = \<bar>v\<bar>" .
  have "1 \<in> set (map (\<lambda>k. set_7segment (glyph dp v k)) [0..<n]) \<longleftrightarrow> v < 0"
    using sign_shown [OF v n] by auto
  with s show ?thesis by (simp add: read_number_def Let_def)
qed

section \<open>The call\<close>

lemma dim_loop:
  assumes c: "card_ok c" and pn: "p + n \<le> 96" and b: "0 < b" "b \<le> 15"
  shows "\<exists>d. for_each [0..<n] (\<lambda>k. dim_at (int p + int k) b CHANGED) c = Some d \<and>
    card_ok d \<and> displays d = displays c \<and> ndisplays d = ndisplays c \<and> connected d = connected c \<and>
    (\<forall>i. displays_changed d ! i = displays_changed c ! i \<or> displays_changed d ! i = 1)"
proof -
  let ?I = "\<lambda>d. card_ok d \<and> displays d = displays c \<and> ndisplays d = ndisplays c \<and> connected d = connected c \<and>
    (\<forall>i. displays_changed d ! i = displays_changed c ! i \<or> displays_changed d ! i = 1)"
  show ?thesis
  proof (rule for_each_inv [where I = ?I])
    fix k d assume k: "k \<in> set [0..<n]" and d: "?I d"
    then have cd: "card_ok d" by blast
    have i: "int p + int k = int (p + k)" "p + k < 96" using k pn by simp_all
    note l = arr_ok_length [OF card_okD(10) [OF cd]] arr_ok_length [OF card_okD(11) [OF cd]]
    let ?e = "d\<lparr>displays_brightness := (displays_brightness d)[p + k := b],
      displays_changed := (displays_changed d)[p + k := 1]\<rparr>"
    have "card_ok ?e"
      using b by (intro card_ok_outputs(5) cd arr_ok_update card_okD(10) [OF cd] card_okD(11) [OF cd])
        (simp_all add: within_def)
    with d l i have e: "?I ?e" by (auto simp: nth_list_update)
    show "\<exists>e. dim_at (int p + int k) b CHANGED d = Some e \<and> ?I e"
    proof (cases "displays_brightness d ! (p + k) = b")
      case True
      with i l d show ?thesis by (intro exI [of _ d]) (simp add: dim_at_def i(1) arr_get_int del: of_nat_add)
    next
      case False
      with i l have "dim_at (int p + int k) b CHANGED d = Some ?e"
        by (simp add: dim_at_def i(1) arr_get_int arr_set_int del: of_nat_add)
      with e show ?thesis by blast
    qed
  qed (use c in simp)
qed

text \<open>C14: A number shown on a row of displays is read back from the bytes that are sent for them:
  with its sign, with the decimal point at the requested position and nowhere else; other
  displays keep their values. This holds for a number that fits (\<open>fits\<close>): it has no more digits than there
  are displays, and a negative one leaves a display for its sign and has a digit to the left of its
  point. The displays must not have been written in binary mode last, nor is the binary mode of a single
  display (point -10) meant, and the brightness is between 1 and 15. Outside these conditions the
  code may leave an old digit in place or send a digit as raw segments.\<close>

theorem display_reads_back:
  assumes ok: "sismo_ok st" and i: "i < 10" and on: "connected (sismo st ! i) = 1"
    and n: "0 < n" and pn: "int (p + n) \<le> ndisplays (sismo st ! i)"
    and v: "fits n dp v" "v \<noteq> INT_MISS" and b: "0 < b" "b \<le> 15"
    and mode: "\<not> (n = 1 \<and> dp = - 10)" "\<forall>k < n. displays_changed (sismo st ! i) ! (p + k) \<le> 1"
  shows "\<exists>st'. display_output (int i) (int p) (int n) (Some v) dp b st = Some (0, Some v, st') \<and>
    sismo_ok st' \<and>
    read_number (map (\<lambda>k. segments (sismo st' ! i) (p + k)) [0..<n]) = v \<and>
    (\<forall>k < n. bit (segments (sismo st' ! i) (p + k)) 7 \<longleftrightarrow> dp = int k) \<and>
    (\<forall>j < 96. j < p \<or> p + n \<le> j \<longrightarrow> displays (sismo st' ! i) ! j = displays (sismo st ! i) ! j)"
proof -
  let ?c = "sismo st ! i"
  from ok have cards: "arr_ok 10 card_ok (sismo st)" by (simp add: sismo_ok_def)
  then have l: "length (sismo st) = 10" by (rule arr_ok_length)
  from i have c: "card_ok ?c" by (rule arr_ok_nth [OF cards])
  from pn card_okD(16) [OF c] have pn96: "p + n \<le> 96" by simp
  from dim_loop [OF c pn96 b] obtain d where
    d: "for_each [0..<n] (\<lambda>k. dim_at (int p + int k) b CHANGED) ?c = Some d" "card_ok d"
      "displays d = displays ?c" "\<And>i. displays_changed d ! i = displays_changed ?c ! i \<or> displays_changed d ! i = 1"
    by blast
  from show_number_drawn [OF d(2) n pn96 v(1)] obtain e where
    e: "show_number (int p) (int n) dp v d = Some e" "drawn p 0 n (glyph dp v) d e" by auto
  from e(2) have ce: "card_ok e" by (simp add: drawn_def)
  have "wrap32 (int p + int n - 1) = int (p + n) - 1" using pn96 n by (simp add: in_i32_def)
  then have "display_body (int p) (int n) dp b v ?c = Some (0, v, e)"
    using n pn v(2) b mode(1) d(1) e(1) by (auto simp: display_body_def)
  then have "display_output (int i) (int p) (int n) (Some v) dp b st =
      Some (0, Some v, st\<lparr>sismo := (sismo st)[i := e]\<rparr>)"
    using i on l by (simp add: display_output_def on_card_def arr_get_int arr_set_int)
  moreover have "sismo_ok (st\<lparr>sismo := (sismo st)[i := e]\<rparr>)"
    using ok ce by (simp add: sismo_ok_def arr_ok_update)
  moreover have seg: "segments e (p + k) = set_7segment (glyph dp v k)" if "k < n" for k
  proof -
    from e(2) that pn96 have "displays e ! (p + k) = glyph dp v k"
      and "displays_changed e ! (p + k) = displays_changed d ! (p + k) \<or> displays_changed e ! (p + k) = 1"
      by (simp_all add: drawn_def)
    with mode(2) that d(4) [of "p + k"] show ?thesis by (auto simp: segments_def)
  qed
  then have "map (\<lambda>k. segments e (p + k)) [0..<n] = map (\<lambda>k. set_7segment (glyph dp v k)) [0..<n]" by simp
  then have "read_number (map (\<lambda>k. segments e (p + k)) [0..<n]) = v"
    using read_number_glyphs [OF v(1) n] by (simp only:)
  moreover have "\<forall>k < n. bit (segments e (p + k)) 7 \<longleftrightarrow> dp = int k"
    using seg glyph_segments(2) [OF v(1)] by simp
  moreover have "displays e ! j = displays ?c ! j" if "j < 96" "j < p \<or> p + n \<le> j" for j
    using e(2) d(3) that by (auto simp: drawn_def)
  ultimately show ?thesis
    using i l by simp
qed

end
