(* ===== verification/SismoSystem.thy ===== *)
theory SismoSystem
  imports SismoQueue SismoDisplay
begin

text \<open>
  The driver as a whole: every state that the program can reach, by any sequence of datagrams from
  the network, turns of the main loop and calls of the panel code, has a well-formed card table,
  and no call leaves an array.
\<close>

section \<open>Start\<close>

text \<open>The loop of \<open>ini_read\<close> over the cards, and the other initialisations of \<open>main\<close>.\<close>

fun ini_cards :: "(mem \<times> int \<times> int \<times> int) list \<Rightarrow> sismo_struct list option" where
  "ini_cards [] = Some []"
| "ini_cards ((address, p, mac1, mac2) # settings) =
     do {
       c \<leftarrow> ini_card address p mac1 mac2 static_card;
       cs \<leftarrow> ini_cards settings;
       Some (c # cs)
     }"

definition start_sismo :: "(mem \<times> int \<times> int \<times> int) list \<Rightarrow> sismo_state option" where
  "start_sismo settings =
     do {
       cards \<leftarrow> ini_cards settings;
       Some (init_udp_receive (ini_sismodata
         \<lparr>sismo = cards, udpRecvBuffer = [], udpReadLeft = 0\<rparr>))
     }"

lemma ini_card_ok:
  assumes "ini_card address p mac1 mac2 static_card = Some c"
  shows "card_ok (ini_card_data c)"
proof -
  from assms obtain i where i: "strcpy (ip static_card) address = Some i"
    and c: "c = static_card\<lparr>ip := i, port := p, mac := [word_of_int mac1, word_of_int mac2],
         connected := 0, daughter_output1 := 0, daughter_output2 := 0, daughter_servo := 0,
         daughter_analogoutput := 0, daughter_display1 := 0, daughter_display2 := 0,
         ninputs := int MAXINPUTS, nanaloginputs := 5, noutputs := 64, ndisplays := 32,
         nservos := 0, nanalogoutputs := 0\<rparr>"
    by (auto simp: ini_card_def split: Option.bind_splits)
  from strcpy_result [OF i] have "length i = 30" "terminated i" by (simp_all add: static_card_def)
  then show ?thesis
    by (simp add: c card_ok_def ini_card_data_def static_card_def within_def arr_ok_replicate)
qed

lemma ini_cards_ok:
  "ini_cards settings = Some cards \<Longrightarrow> arr_ok (length settings) card_ok (map ini_card_data cards)"
proof (induction settings arbitrary: cards)
  case (Cons s settings)
  then show ?case
    by (cases s) (auto simp: arr_ok_def dest!: ini_card_ok split: Option.bind_splits)
qed (simp add: arr_ok_def)

lemma start_sismo_ok: "start_sismo settings = Some st \<Longrightarrow> length settings = 10 \<Longrightarrow> sismo_ok st"
  by (auto simp: start_sismo_def sismo_ok_def init_udp_receive_def ini_sismodata_def
      dest: ini_cards_ok split: Option.bind_splits)

section \<open>Single calls\<close>

lemma udp_receive_ok:
  assumes "sismo_ok st"
  shows "\<exists>st'. udp_receive d st = Some st' \<and> sismo_ok st'"
proof (cases "0 < length d \<and> int (length d) \<le> 30000 - udpReadLeft st")
  case True
  with assms have "\<exists>b. mem_write (udpRecvBuffer st) (udpReadLeft st) d = Some b"
    by (simp add: sismo_ok_def mem_write_def)
  then obtain b where b: "mem_write (udpRecvBuffer st) (udpReadLeft st) d = Some b" by blast
  with length_mem_write [OF b] True assms show ?thesis
    by (simp add: udp_receive_def Let_def sismo_ok_def)
qed (use assms in \<open>auto simp: udp_receive_def Let_def sismo_ok_def\<close>)

text \<open>The access functions share their frame.\<close>

lemma on_card_ok:
  assumes ok: "sismo_ok st" and i: "0 \<le> i"
    and body: "\<And>v c. card_ok c \<Longrightarrow> \<exists>r v' c'. body v c = Some (r, v', c') \<and> card_ok c'"
  shows "\<exists>r v' st'. on_card i v body st = Some (r, v', st') \<and> sismo_ok st' \<and> (v' = None \<longleftrightarrow> v = None)"
proof (cases v)
  case None
  with ok show ?thesis by (simp add: on_card_def)
next
  case (Some x)
  from ok have cards: "arr_ok 10 card_ok (sismo st)" by (simp add: sismo_ok_def)
  show ?thesis
  proof (cases "i < 10")
    case True
    with i arr_ok_get [OF cards] have g: "arr_get (sismo st) i = Some (sismo st ! nat i)"
      and c: "card_ok (sismo st ! nat i)" by simp_all
    show ?thesis
    proof (cases "connected (sismo st ! nat i) = 0")
      case False
      from body [OF c] obtain r v' c' where b: "body x (sismo st ! nat i) = Some (r, v', c')" "card_ok c'"
        by blast
      from arr_ok_set [OF cards i _ b(2)] True
      have "arr_set (sismo st) i c' = Some ((sismo st)[nat i := c'])"
        and "arr_ok 10 card_ok ((sismo st)[nat i := c'])" by simp_all
      with Some True g False b(1) ok show ?thesis by (simp add: on_card_def sismo_ok_def)
    qed (use Some True g ok in \<open>simp add: on_card_def\<close>)
  qed (use Some ok in \<open>simp add: on_card_def\<close>)
qed

lemma output_body_ok:
  assumes c: "card_ok c"
  shows "\<exists>r v' c'. output_body i v c = Some (r, v', c') \<and> card_ok c'"
proof (cases "0 \<le> i \<and> i < noutputs c \<and> (v = 0 \<or> v = 1)")
  case True
  with card_okD(15) [OF c] have i: "0 \<le> i" "i < int 192" by simp_all
  have "within 0 1 v" "within 0 1 1" using True by (auto simp: within_def)
  note s = arr_ok_set [OF card_okD(7) [OF c] i this(1)] arr_ok_set [OF card_okD(8) [OF c] i this(2)]
  from True arr_ok_get [OF card_okD(7) [OF c] i] s card_ok_outputs(2) [OF c] c show ?thesis
    by (cases "v = outputs c ! nat i") (auto simp: output_body_def)
qed (use c in \<open>auto simp: output_body_def\<close>)

lemma servo_body_ok:
  assumes c: "card_ok c"
  shows "\<exists>r v' c'. servo_body i lo hi v c = Some (r, v', c') \<and> card_ok c'"
proof (cases "0 \<le> i \<and> i < nservos c \<and> \<not> fp_is_miss v")
  case True
  with card_okD(17) [OF c] have i: "0 \<le> i" "i < int 14" by simp_all
  have "within 0 254 (servo_data v lo hi)" "within 0 1 1" by (simp_all add: servo_data_def Let_def within_def)
  note s = arr_ok_set [OF card_okD(12) [OF c] i this(1)] arr_ok_set [OF card_okD(13) [OF c] i this(2)]
  from True arr_ok_get [OF card_okD(12) [OF c] i] s card_ok_outputs(7) [OF c] c show ?thesis
    by (cases "servo_data v lo hi = servos c ! nat i") (auto simp: servo_body_def Let_def)
qed (use c in \<open>auto simp: servo_body_def\<close>)


lemma to_char_range: "within (- 128) 127 (to_char v)"
  using pos_mod_bound [of 256 "v + 128"] pos_mod_sign [of 256 "v + 128"]
  unfolding within_def to_char_def by linarith

lemma show_at_ok:
  assumes c: "card_ok c" and i: "0 \<le> i" "i < 96" and f: "within 0 3 f"
  shows "\<exists>d. show_at i v f c = Some d \<and> card_ok d"
proof -
  from i have i': "0 \<le> i" "i < int 96" by simp_all
  note s = arr_ok_set [OF card_okD(9) [OF c] i' to_char_range [of v]] arr_ok_set [OF card_okD(11) [OF c] i' f]
  from arr_ok_get [OF card_okD(9) [OF c] i'] s card_ok_outputs(4) [OF c] c show ?thesis
    by (cases "displays c ! nat i = v") (auto simp: show_at_def)
qed

lemma dim_at_ok:
  assumes c: "card_ok c" and i: "0 \<le> i" "i < 96" and f: "within 0 3 f" and b: "within 1 15 b"
  shows "\<exists>d. dim_at i b f c = Some d \<and> card_ok d"
proof -
  from i have i': "0 \<le> i" "i < int 96" by simp_all
  note s = arr_ok_set [OF card_okD(10) [OF c] i' b] arr_ok_set [OF card_okD(11) [OF c] i' f]
  from arr_ok_get [OF card_okD(10) [OF c] i'] s card_ok_outputs(5) [OF c] c show ?thesis
    by (cases "displays_brightness c ! nat i = b") (auto simp: dim_at_def)
qed

lemma flag_range [simp]: "within 0 3 1" "within 0 3 3"
  by (simp_all add: within_def)

lemma show_digits_ok:
  assumes "card_ok c" and "0 \<le> pos" and "pos + n \<le> 96" and "0 \<le> j" and "j \<le> n"
  shows "\<exists>m d. show_digits pos n dp v j c = Some (m, d) \<and> card_ok d \<and> 0 \<le> m \<and> m \<le> n"
  using assms
proof (induction "nat (n - j)" arbitrary: v j c rule: less_induct)
  case less
  show ?case
  proof (cases "v \<noteq> 0 \<and> j < n")
    case True
    with less.prems show_at_ok [of c "pos + j" 1 "v smod 10 + (if dp = j then 10 else 0)"] obtain d where
      d: "show_at (pos + j) (v smod 10 + (if dp = j then 10 else 0)) 1 c = Some d" "card_ok d" by auto
    from True less.prems less.hyps [of "j + 1" d "v sdiv 10"] d(2) obtain m e where
      "show_digits pos n dp (v sdiv 10) (j + 1) d = Some (m, e)" "card_ok e" "0 \<le> m" "m \<le> n" by auto
    with True d(1) show ?thesis by (subst show_digits.simps) (simp add: Let_def)
  next
    case False
    with less.prems show ?thesis by (subst show_digits.simps) auto
  qed
qed

lemma show_rest_ok:
  assumes "card_ok c" and "0 \<le> pos" and "pos + n \<le> 96" and "0 \<le> j"
  shows "\<exists>d. show_rest pos n dp neg j c = Some d \<and> card_ok d"
  using assms
proof (induction "nat (n - j)" arbitrary: neg j c rule: less_induct)
  case less
  show ?case
  proof (cases "j < n")
    case True
    have nxt: "\<exists>e. show_rest pos n dp neg' (j + 1) d = Some e \<and> card_ok e" if "card_ok d" for neg' d
      using True less.prems that by (intro less.hyps) auto
    have put: "\<exists>e. do { d \<leftarrow> show_at (pos + j) v 1 c; show_rest pos n dp neg' (j + 1) d } = Some e \<and> card_ok e"
      for v neg'
    proof -
      from True less.prems show_at_ok [of c "pos + j" 1 v] obtain d where
        "show_at (pos + j) v 1 c = Some d" "card_ok d" by auto
      with nxt show ?thesis by simp
    qed
    show ?thesis
      using True put nxt [OF less.prems(1)] by (subst show_rest.simps) auto
  qed (use less.prems in \<open>simp add: show_rest.simps\<close>)
qed

lemma show_number_ok:
  assumes "card_ok c" and "0 \<le> pos" and "pos + n \<le> 96" and "0 < n"
  shows "\<exists>d. show_number pos n dp v c = Some d \<and> card_ok d"
proof -
  define t where "t = (if v < 0 then wrap32 (- v) else v)"
  from show_digits_ok [of c pos n 0 dp t] assms obtain m d where
    d: "show_digits pos n dp t 0 c = Some (m, d)" "card_ok d" "0 \<le> m" by auto
  with show_rest_ok [OF d(2) assms(2,3) d(3)] show ?thesis
    by (simp add: show_number_def Let_def t_def [symmetric] del: if_split)
qed

lemma display_loop_ok:
  assumes "card_ok c" and "\<And>k d. k < n \<Longrightarrow> card_ok d \<Longrightarrow> \<exists>e. f k d = Some e \<and> card_ok e"
  shows "\<exists>d. for_each [0..<n] f c = Some d \<and> card_ok d"
  by (rule for_each_inv) (use assms in auto)

lemma display_body_ok:
  assumes c: "card_ok c" and no: "pos + n - 1 < 2147483648"
  shows "\<exists>r v' c'. display_body pos n dp b v c = Some (r, v', c') \<and> card_ok c'"
proof (cases "0 < n \<and> 0 \<le> pos \<and> pos + n - 1 < ndisplays c \<and> v \<noteq> INT_MISS")
  case True
  with no have w: "wrap32 (pos + n - 1) = pos + n - 1" by (simp add: in_i32_def)
  from True card_okD(16) [OF c] have pn: "pos + n \<le> 96" by simp
  let ?f = "if n = 1 \<and> dp = - 10 then CHANGEDBINARY else CHANGED"
  have "\<exists>d. (if b > 0 \<and> b \<le> 15 then for_each [0..<nat n] (\<lambda>k. dim_at (pos + int k) b ?f) c
      else Some c) = Some d \<and> card_ok d"
  proof (cases "b > 0 \<and> b \<le> 15")
    case in_range: True
    have "\<exists>d. for_each [0..<nat n] (\<lambda>k. dim_at (pos + int k) b ?f) c = Some d \<and> card_ok d"
      by (rule display_loop_ok [OF c], rule dim_at_ok)
        (use True pn in_range in \<open>auto simp: within_def\<close>)
    with in_range show ?thesis by simp
  qed (use c in auto)
  then obtain d where d: "(if b > 0 \<and> b \<le> 15 then for_each [0..<nat n] (\<lambda>k. dim_at (pos + int k) b ?f) c
      else Some c) = Some d" "card_ok d" by blast
  have "\<exists>e. for_each [0..<nat n] (\<lambda>k. show_at (pos + int k) (- 1) CHANGED) d = Some e \<and> card_ok e"
    by (rule display_loop_ok [OF d(2)], rule show_at_ok) (use True pn in auto)
  moreover have "\<exists>e. show_at pos v CHANGEDBINARY d = Some e \<and> card_ok e"
    using True pn by (intro show_at_ok d(2)) auto
  moreover have "\<exists>e. show_number pos n dp v d = Some e \<and> card_ok e"
    using True pn by (intro show_number_ok d(2)) auto
  ultimately have "\<exists>e. (if b = 0 then for_each [0..<nat n] (\<lambda>k. show_at (pos + int k) (- 1) CHANGED) d
      else if n = 1 \<and> dp = - 10 then show_at pos v CHANGEDBINARY d
      else show_number pos n dp v d) = Some e \<and> card_ok e" by simp
  then obtain e where e: "(if b = 0 then for_each [0..<nat n] (\<lambda>k. show_at (pos + int k) (- 1) CHANGED) d
      else if n = 1 \<and> dp = - 10 then show_at pos v CHANGEDBINARY d
      else show_number pos n dp v d) = Some e" "card_ok e" by blast
  have "display_body pos n dp b v c = Some (0, v, e)"
    unfolding display_body_def w using True d(1) e(1) by simp
  with e(2) show ?thesis by blast
next
  case False
  show ?thesis
  proof (cases "0 < n \<and> 0 \<le> pos")
    case True
    with no have "wrap32 (pos + n - 1) = pos + n - 1" by (simp add: in_i32_def)
    with False True c show ?thesis by (auto simp: display_body_def)
  qed (use c in \<open>auto simp: display_body_def\<close>)
qed

lemma input_at_ok:
  assumes "card_ok c" and "0 \<le> i" "i < 192" "0 \<le> s" "s < 30"
  shows "\<exists>x. input_at c i s = Some x \<and> within (- 1) 1 x"
proof -
  from assms have i: "0 \<le> i" "i < int 192" "0 \<le> s" "s < int 30" by simp_all
  from arr_ok_get [OF card_okD(3) [OF assms(1)] i(1,2)] obtain h where
    "arr_get (inputs c) i = Some h" "arr_ok 30 (within (- 1) 1) h" by auto
  with arr_ok_get [OF this(2) i(3,4)] show ?thesis by (simp add: input_at_def)
qed

lemma nsave_get:
  assumes "card_ok c" and "0 \<le> i" "i < 192"
  shows "\<exists>n. arr_get (inputs_nsave c) (i div 64) = Some n \<and> 0 \<le> n \<and> n \<le> 30"
proof -
  have "0 \<le> i div 64" "i div 64 < int 129" using assms by linarith+
  from arr_ok_get [OF card_okD(6) [OF assms(1)] this] show ?thesis by (simp add: within_def)
qed

lemma input_body_ok:
  assumes c: "card_ok c"
  shows "\<exists>r v' c'. input_body i type v c = Some (r, v', c') \<and> card_ok c'"
proof (cases "0 \<le> i \<and> i < ninputs c")
  case True
  with card_okD(14) [OF c] have i: "0 \<le> i" "i < 192" by simp_all
  from nsave_get [OF c i] obtain n where n: "arr_get (inputs_nsave c) (i div 64) = Some n" "0 \<le> n" "n \<le> 30"
    by blast
  define s where "s = (if n \<noteq> 0 then n - 1 else 0)"
  have slot: "history_slot c (i div 64) = Some s" by (simp add: history_slot_def n s_def)
  have s: "0 \<le> s" "s < 30" using n by (auto simp: s_def)
  from input_at_ok [OF c i s] obtain x where x: "input_at c i s = Some x" by blast
  have y: "\<exists>y. input_at c i (s + 1) = Some y" if "s < 29"
    using input_at_ok [OF c i, of "s + 1"] s that by auto
  show ?thesis
    using True slot n(1) x y c by (auto simp: input_body_def Let_def split: if_splits)
qed (use c in \<open>auto simp: input_body_def\<close>)

lemma analog_body_ok:
  assumes c: "card_ok c"
  shows "\<exists>r v' c'. analog_body i lo hi v c = Some (r, v', c') \<and> card_ok c'"
proof (cases "0 \<le> i \<and> i < nanaloginputs c")
  case True
  with card_okD(18) [OF c] have i: "0 \<le> i" "i < int 15" by simp_all
  from arr_ok_get [OF card_okD(1) [OF c] i] obtain h where
    h: "arr_get (analoginputs c) i = Some h" "arr_ok 30 (within (- 1) 65535) h" by blast
  note l = arr_ok_length [OF h(2)]
  have q: "quicksort (take 30 h) 0 29 = Some (sort h)" using quicksort_whole [of h] l by simp
  have "within (- 1) 65535 (sort h ! 15)"
  proof -
    from l have "sort h ! 15 \<in> set (sort h)" by (intro nth_mem) simp
    with h(2) show ?thesis by (auto simp: arr_ok_def list_all_iff)
  qed
  note sv = arr_ok_set [OF card_okD(2) [OF c] i this]
    arr_ok_set [OF card_okD(2) [OF c] i arr_ok_nth [OF h(2), of 0]]
  have m: "arr_get (sort h) 15 = Some (sort h ! 15)" "arr_get h 0 = Some (h ! 0)"
    using l by (simp_all add: arr_get_def)
  from True h(1) q m arr_ok_get [OF card_okD(2) [OF c] i] sv card_ok_analog(2) [OF c] c show ?thesis
    by (auto simp: analog_body_def Let_def)
qed (use c in \<open>auto simp: analog_body_def\<close>)


lemma optical_range: "within (- 1) 1 u \<Longrightarrow> within (- 1) 1 (optical_updown ob nb dt u)"
  by (simp add: optical_updown_def within_def)

lemma encoder_step_ok:
  assumes c: "card_ok c" and i: "0 \<le> i" "i < 192"
  shows "\<exists>r v' c'. encoder_step type i m t ob nb v c = Some (r, v', c') \<and> card_ok c'"
proof -
  from i have i': "0 \<le> i" "i < int 192" by simp_all
  from i arr_ok_length [OF card_okD(4) [OF c]] card_okD(5) [OF c]
  have g: "arr_get (inputs_time c) i = Some (inputs_time c ! nat i)"
    "arr_set (inputs_time c) i t = Some ((inputs_time c)[nat i := t])"
    "length ((inputs_time c)[nat i := t]) = 192"
    by (simp_all add: arr_get_def arr_set_def)
  from arr_ok_get [OF card_okD(4) [OF c] i'] obtain u where
    u: "arr_get (inputs_updown c) i = Some u" "within (- 1) 1 u" by blast
  define w where "w = optical_updown ob nb (elapsed_ms t (inputs_time c ! nat i)) u"
  have "within (- 1) 1 w" unfolding w_def by (rule optical_range [OF u(2)])
  from arr_ok_set [OF card_okD(4) [OF c] i' this] card_ok_inputs(3,4) [OF c g(3)] c show ?thesis
    by (auto simp: encoder_step_def g u Let_def w_def [symmetric])
qed

lemma encoder_body_ok:
  assumes c: "card_ok c"
  shows "\<exists>r v' c'. encoder_body i1 i2 m type t v c = Some (r, v', c') \<and> card_ok c'"
proof (cases "i1 \<ge> 0 \<and> i1 < ninputs c \<and> i2 \<ge> 0 \<and> i2 < ninputs c \<and> i1 div 64 = i2 div 64 \<and> \<not> fp_is_miss v")
  case True
  with card_okD(14) [OF c] have i: "0 \<le> i1" "i1 < 192" "0 \<le> i2" "i2 < 192" by simp_all
  from nsave_get [OF c i(1,2)] obtain n where n: "arr_get (inputs_nsave c) (i1 div 64) = Some n" "0 \<le> n" "n \<le> 30"
    by blast
  show ?thesis
  proof (cases "n \<noteq> 0 \<and> n - 1 < 29")
    case in_range: True
    with n have s: "0 \<le> n - 1" "n - 1 < 30" "0 \<le> n - 1 + 1" "n - 1 + 1 < 30" by auto
    from input_at_ok [OF c i(1,2) s(1,2)] input_at_ok [OF c i(1,2) s(3,4)]
      input_at_ok [OF c i(3,4) s(1,2)] input_at_ok [OF c i(3,4) s(3,4)] obtain a b a' b' where
      x: "input_at c i1 (n - 1) = Some a" "input_at c i1 (n - 1 + 1) = Some b"
        "input_at c i2 (n - 1) = Some a'" "input_at c i2 (n - 1 + 1) = Some b'" by blast
    show ?thesis
    proof (cases "(a \<noteq> b \<or> a' \<noteq> b') \<and> b \<noteq> INPUTINITVAL \<and> b' \<noteq> INPUTINITVAL")
      case moved: True
      have "encoder_body i1 i2 m type t v c = encoder_step type i1 m t (b, b') (a, a') v c"
        unfolding encoder_body_def using True n(1) in_range x moved by simp
      with encoder_step_ok [OF c i(1,2)] show ?thesis by simp
    next
      case False
      have "encoder_body i1 i2 m type t v c = Some (0, v, c)"
        unfolding encoder_body_def using True n(1) in_range x False by auto
      with c show ?thesis by simp
    qed
  next
    case False
    have "encoder_body i1 i2 m type t v c = Some (0, v, c)"
      unfolding encoder_body_def using True n(1) False by auto
    with c show ?thesis by simp
  qed
qed (use c in \<open>auto simp: encoder_body_def\<close>)

section \<open>All calls\<close>

datatype sismo_call =
    Datagram mem
  | ReadCards
  | WriteCards
  | EndOfCycle
  | Button int int "int option" int
  | ButtonF int int "fpval option" int
  | Potentiometer int int "fpval option" fpval fpval
  | Encoder int int int "int option" int int "int \<times> int"
  | EncoderF int int int "fpval option" fpval int "int \<times> int"
  | Lamp int int "int option"
  | LampF int int "fpval option"
  | Servo int int "int option" int int
  | ServoF int int "fpval option" fpval fpval
  | Display int int int "int option" int int
  | DisplayF int int int "fpval option" int int

text \<open>The state after a call.\<close>

fun run_call :: "sismo_call \<Rightarrow> sismo_state \<Rightarrow> sismo_state option" where
  "run_call (Datagram d) st = udp_receive d st"
| "run_call ReadCards st = read_sismo st"
| "run_call WriteCards st = map_option fst (write_sismo st)"
| "run_call EndOfCycle st = Some (reset_sismodata st)"
| "run_call (Button i k v ty) st = map_option (snd \<circ> snd) (digital_input i k v ty st)"
| "run_call (ButtonF i k v ty) st = map_option (snd \<circ> snd) (digital_inputf i k v ty st)"
| "run_call (Potentiometer i k v lo hi) st = map_option (snd \<circ> snd) (analog_input i k v lo hi st)"
| "run_call (Encoder i k l v m ty t) st = map_option (snd \<circ> snd) (encoder_input i k l v m ty t st)"
| "run_call (EncoderF i k l v m ty t) st = map_option (snd \<circ> snd) (encoder_inputf i k l v m ty t st)"
| "run_call (Lamp i k v) st = map_option (snd \<circ> snd) (digital_output i k v st)"
| "run_call (LampF i k v) st = map_option snd (digital_outputf i k v st)"
| "run_call (Servo i k v lo hi) st = map_option snd (servo_output i k v lo hi st)"
| "run_call (ServoF i k v lo hi) st = map_option (snd \<circ> snd) (servo_outputf i k v lo hi st)"
| "run_call (Display i p n v dp b) st = map_option (snd \<circ> snd) (display_output i p n v dp b st)"
| "run_call (DisplayF i p n v dp b) st = map_option snd (display_outputf i p n v dp b st)"

text \<open>
  What the code asks of its callers: no negative number of a card, no range of displays beyond the
  largest \<open>int\<close>, no \<open>NULL\<close> for the wrappers that dereference their pointer, and no card with the
  second daughter board for outputs when the cards are written.
\<close>

fun safe_call :: "sismo_call \<Rightarrow> sismo_state \<Rightarrow> bool" where
  "safe_call WriteCards st \<longleftrightarrow> (\<forall>c \<in> set (sismo st). connected c = 1 \<longrightarrow> daughter_output2 c = 0)"
| "safe_call (Button i k v ty) st \<longleftrightarrow> 0 \<le> i"
| "safe_call (ButtonF i k v ty) st \<longleftrightarrow> 0 \<le> i \<and> v \<noteq> None"
| "safe_call (Potentiometer i k v lo hi) st \<longleftrightarrow> 0 \<le> i"
| "safe_call (Encoder i k l v m ty t) st \<longleftrightarrow> 0 \<le> i \<and> v \<noteq> None"
| "safe_call (EncoderF i k l v m ty t) st \<longleftrightarrow> 0 \<le> i"
| "safe_call (Lamp i k v) st \<longleftrightarrow> 0 \<le> i"
| "safe_call (LampF i k v) st \<longleftrightarrow> 0 \<le> i \<and> v \<noteq> None"
| "safe_call (Servo i k v lo hi) st \<longleftrightarrow> 0 \<le> i \<and> v \<noteq> None"
| "safe_call (ServoF i k v lo hi) st \<longleftrightarrow> 0 \<le> i"
| "safe_call (Display i p n v dp b) st \<longleftrightarrow> 0 \<le> i \<and> p + n - 1 < 2147483648"
| "safe_call (DisplayF i p n v dp b) st \<longleftrightarrow> 0 \<le> i \<and> p + n - 1 < 2147483648 \<and> v \<noteq> None"
| "safe_call k st \<longleftrightarrow> True"

lemma reset_sismodata_ok: "sismo_ok st \<Longrightarrow> sismo_ok (reset_sismodata st)"
  using arr_ok_map [of 10 card_ok "sismo st" card_ok reset_card] reset_card_ok
  by (simp add: sismo_ok_def reset_sismodata_def)

lemma access_ok:
  assumes "sismo_ok st" and "0 \<le> i"
  shows "\<exists>r v' st'. digital_input i k v ty st = Some (r, v', st') \<and> sismo_ok st' \<and> (v' = None \<longleftrightarrow> v = None)"
    and "\<exists>r v' st'. analog_input i k f lo hi st = Some (r, v', st') \<and> sismo_ok st' \<and> (v' = None \<longleftrightarrow> f = None)"
    and "\<exists>r v' st'. encoder_inputf i k l f m ty t st = Some (r, v', st') \<and> sismo_ok st' \<and> (v' = None \<longleftrightarrow> f = None)"
    and "\<exists>r v' st'. digital_output i k v st = Some (r, v', st') \<and> sismo_ok st' \<and> (v' = None \<longleftrightarrow> v = None)"
    and "\<exists>r v' st'. servo_outputf i k f lo hi st = Some (r, v', st') \<and> sismo_ok st' \<and> (v' = None \<longleftrightarrow> f = None)"
    and "p + n - 1 < 2147483648 \<Longrightarrow> \<exists>r v' st'. display_output i p n v dp b st = Some (r, v', st') \<and> sismo_ok st' \<and>
           (v' = None \<longleftrightarrow> v = None)"
  unfolding digital_input_def analog_input_def encoder_inputf_def digital_output_def servo_outputf_def
    display_output_def
  by (rule on_card_ok [OF assms input_body_ok] on_card_ok [OF assms analog_body_ok]
      on_card_ok [OF assms encoder_body_ok] on_card_ok [OF assms output_body_ok]
      on_card_ok [OF assms servo_body_ok] on_card_ok [OF assms display_body_ok]; assumption)+

text \<open>The wrappers that dereference their pointer.\<close>

lemma wrapper_ok:
  assumes "sismo_ok st" and "0 \<le> i"
  shows "\<exists>st'. run_call (ButtonF i k (Some f) ty) st = Some st' \<and> sismo_ok st'"
    and "\<exists>st'. run_call (Encoder i k l (Some v) m ty t) st = Some st' \<and> sismo_ok st'"
    and "\<exists>st'. run_call (LampF i k (Some f)) st = Some st' \<and> sismo_ok st'"
    and "\<exists>st'. run_call (Servo i k (Some v) a b) st = Some st' \<and> sismo_ok st'"
    and "p + n - 1 < 2147483648 \<Longrightarrow>
      \<exists>st'. run_call (DisplayF i p n (Some f) dp b) st = Some st' \<and> sismo_ok st'"
proof -
  define x where "x = (if \<not> fp_is_miss f then fp_lround f else INT_MISS)"
  from access_ok(1) [OF assms, of k "Some x" ty] show
    "\<exists>st'. run_call (ButtonF i k (Some f) ty) st = Some st' \<and> sismo_ok st'"
    by (auto simp: digital_inputf_def Let_def x_def [symmetric] simp del: if_split)
  from access_ok(6) [OF assms, of p n "Some x" dp b] show
    "p + n - 1 < 2147483648 \<Longrightarrow> \<exists>st'. run_call (DisplayF i p n (Some f) dp b) st = Some st' \<and> sismo_ok st'"
    by (auto simp: display_outputf_def Let_def x_def [symmetric] simp del: if_split)
  define y where "y = (if v \<noteq> INT_MISS then fp_of_int 23 8 v else flt_miss_val)"
  from access_ok(3) [OF assms, of k l "Some y" "fp_of_int 23 8 m" ty t] show
    "\<exists>st'. run_call (Encoder i k l (Some v) m ty t) st = Some st' \<and> sismo_ok st'"
    by (auto simp: encoder_input_def Let_def y_def [symmetric] simp del: if_split)
  define z where "z = (if v = INT_MISS then flt_miss_val else fp_of_int 23 8 v)"
  from access_ok(5) [OF assms, of k "Some z" "fp_of_int 23 8 a" "fp_of_int 23 8 b"] show
    "\<exists>st'. run_call (Servo i k (Some v) a b) st = Some st' \<and> sismo_ok st'"
    by (auto simp: servo_output_def Let_def z_def [symmetric] simp del: if_split)
  define w where "w = (if fp_is_miss f then INT_MISS else if fp_le threshold_0025 f then 1 else 0)"
  from access_ok(4) [OF assms, of k "Some w"] show
    "\<exists>st'. run_call (LampF i k (Some f)) st = Some st' \<and> sismo_ok st'"
    by (auto simp: digital_outputf_def Let_def w_def [symmetric] simp del: if_split)
qed

lemma run_call_ok:
  assumes ok: "sismo_ok st" and safe: "safe_call k st"
  shows "\<exists>st'. run_call k st = Some st' \<and> sismo_ok st'"
proof (cases k)
  case (Datagram d)
  with udp_receive_ok [OF ok] show ?thesis by simp
next
  case ReadCards
  from read_sismo_runs [OF ok] obtain b where
    r: "read_sismo st = Some (st\<lparr>udpRecvBuffer := b, udpReadLeft := udpReadLeft st mod 30,
       sismo := fold apply_message (messages (pending st)) (sismo st)\<rparr>)" "length b = 30000"
      "arr_ok 10 card_ok (fold apply_message (messages (pending st)) (sismo st))" by blast
  have "udpReadLeft st mod 30 \<le> 30000" using pos_mod_bound [of 30 "udpReadLeft st"] by linarith
  with ReadCards r show ?thesis by (simp add: sismo_ok_def)
next
  case WriteCards
  with safe write_sismo_sends [OF ok] show ?thesis by fastforce
next
  case EndOfCycle
  with reset_sismodata_ok [OF ok] show ?thesis by simp
next
  case (Button i m v ty)
  with safe access_ok(1) [OF ok, of i m v ty] show ?thesis by auto
next
  case (ButtonF i m v ty)
  with safe wrapper_ok(1) [OF ok, of i m _ ty] show ?thesis by auto
next
  case (Potentiometer i m v lo hi)
  with safe access_ok(2) [OF ok, of i m v lo hi] show ?thesis by auto
next
  case (Encoder i m l v x ty t)
  with safe wrapper_ok(2) [OF ok, of i m l _ x ty t] show ?thesis by auto
next
  case (EncoderF i m l v x ty t)
  with safe access_ok(3) [OF ok, of i m l v x ty t] show ?thesis by auto
next
  case (Lamp i m v)
  with safe access_ok(4) [OF ok, of i m v] show ?thesis by auto
next
  case (LampF i m v)
  with safe wrapper_ok(3) [OF ok, of i m] show ?thesis by auto
next
  case (Servo i m v lo hi)
  with safe wrapper_ok(4) [OF ok, of i m _ lo hi] show ?thesis by auto
next
  case (ServoF i m v lo hi)
  with safe access_ok(5) [OF ok, of i m v lo hi] show ?thesis by auto
next
  case (Display i p n v dp b)
  with safe access_ok(6) [OF ok, of i p n v dp b] show ?thesis by auto
next
  case (DisplayF i p n v dp b)
  with safe wrapper_ok(5) [OF ok, of i p n _ dp b] show ?thesis by auto
qed

text \<open>The states that the program can reach.\<close>

inductive sismo_reachable :: "sismo_state \<Rightarrow> bool" where
  start: "start_sismo settings = Some st \<Longrightarrow> length settings = MAXCARDS \<Longrightarrow> sismo_reachable st"
| call: "sismo_reachable st \<Longrightarrow> safe_call k st \<Longrightarrow> run_call k st = Some st' \<Longrightarrow> sismo_reachable st'"

text \<open>C15: whatever datagrams arrive, and whatever the main loop and the panel code call in whatever
  order, the card table stays well-formed (the sizes of all arrays, the ranges of all values, the
  numbers of inputs, outputs, displays and servos), and every call that keeps to its preconditions
  returns without leaving an array.\<close>

theorem sismo_always_well_formed:
  assumes "sismo_reachable st"
  shows "sismo_ok st \<and> (\<forall>k. safe_call k st \<longrightarrow> run_call k st \<noteq> None)"
proof -
  from assms have "sismo_ok st"
  proof induction
    case (start settings st)
    then show ?case by (rule start_sismo_ok)
  next
    case (call st k st')
    with run_call_ok [of st k] show ?case by auto
  qed
  with run_call_ok show ?thesis by blast
qed

end
