(* ===== verification/SismoFacts.thy ===== *)
theory SismoFacts
  imports SismoSystem
begin

text \<open>
  Potentiometers and encoders of the \<open>xpsismo\<close> driver: the median filter ignores spikes, and an
  encoder counts its steps. The last section shows what the driver does with boards and numbers
  that it does not handle.
\<close>

section \<open>The median filter\<close>

text \<open>An interval that holds more than half of 30 numbers holds the element at position 15 of the
  sorted list.\<close>

lemma filter_upto:
  assumes "j \<le> length xs" and "\<And>k. k < j \<Longrightarrow> \<not> P (xs ! k)"
  shows "length (filter P xs) \<le> length xs - j"
proof -
  have "filter P (take j xs) = []"
    using assms by (auto simp: filter_empty_conv in_set_conv_nth)
  moreover have "filter P xs = filter P (take j xs) @ filter P (drop j xs)"
    by (metis append_take_drop_id filter_append)
  ultimately show ?thesis using length_filter_le [of P "drop j xs"] by simp
qed

lemma filter_from:
  assumes "\<And>k. j \<le> k \<Longrightarrow> k < length xs \<Longrightarrow> \<not> P (xs ! k)"
  shows "length (filter P xs) \<le> j"
proof -
  have "filter P (drop j xs) = []"
    using assms by (auto simp: filter_empty_conv in_set_conv_nth)
  moreover have "filter P xs = filter P (take j xs) @ filter P (drop j xs)"
    by (metis append_take_drop_id filter_append)
  ultimately show ?thesis using length_filter_le [of P "take j xs"] by simp
qed

lemma median_in_interval:
  fixes h :: "int list"
  assumes l: "length h = 30" and most: "16 \<le> length (filter (\<lambda>x. lo \<le> x \<and> x \<le> hi) h)"
  shows "lo \<le> sort h ! 15" and "sort h ! 15 \<le> hi"
proof -
  let ?P = "\<lambda>x. lo \<le> x \<and> x \<le> hi"
  have "length (filter ?P (sort h)) = length (filter ?P h)"
    by (metis mset_filter mset_sort size_mset)
  with most have m: "16 \<le> length (filter ?P (sort h))" by simp
  have mono: "sort h ! i \<le> sort h ! j" if "i \<le> j" "j < 30" for i j
    using that l by (intro sorted_nth_mono) simp_all
  show "lo \<le> sort h ! 15"
  proof (rule ccontr)
    assume "\<not> lo \<le> sort h ! 15"
    then have "\<not> ?P (sort h ! k)" if "k < 16" for k using mono [of k 15] that by simp
    from filter_upto [of 16 "sort h" ?P, OF _ this] l m show False by simp
  qed
  show "sort h ! 15 \<le> hi"
  proof (rule ccontr)
    assume "\<not> sort h ! 15 \<le> hi"
    then have "\<not> ?P (sort h ! k)" if "15 \<le> k" "k < length (sort h)" for k
      using mono [of 15 k] l that by simp
    from filter_from [of 15 "sort h" ?P, OF this] m show False by simp
  qed
qed

text \<open>One call, in terms of the library's \<open>sort\<close>.\<close>

lemma analog_input_sort:
  assumes ok: "sismo_ok st" and i: "i < 10" and on: "connected (sismo st ! i) = 1"
    and k: "int k < nanaloginputs (sismo st ! i)"
    and known: "analoginputs (sismo st ! i) ! k ! 0 \<noteq> - 1" "sort (analoginputs (sismo st ! i) ! k) ! 15 \<noteq> - 1"
      "analoginputs_save (sismo st ! i) ! k \<noteq> - 1"
    and quiet: "\<bar>analoginputs_save (sismo st ! i) ! k - sort (analoginputs (sismo st ! i) ! k) ! 15\<bar> \<le> 5"
  shows "analog_input (int i) (int k) (Some v) lo hi st =
    Some (0, Some (scaled (analoginputs_save (sismo st ! i) ! k) lo hi), st)"
proof -
  let ?c = "sismo st ! i" and ?h = "analoginputs (sismo st ! i) ! k"
  from ok have cards: "arr_ok 10 card_ok (sismo st)" by (simp add: sismo_ok_def)
  then have l: "length (sismo st) = 10" by (rule arr_ok_length)
  from i have c: "card_ok ?c" by (rule arr_ok_nth [OF cards])
  from k card_okD(18) [OF c] have k15: "k < 15" by simp
  note len = arr_ok_length [OF card_okD(1) [OF c]] arr_ok_length [OF card_okD(2) [OF c]]
    arr_ok_length [OF arr_ok_nth [OF card_okD(1) [OF c] k15]]
  have q: "quicksort ?h 0 29 = Some (sort ?h)" using quicksort_whole [of ?h] len(3) by simp
  have m: "arr_get (sort ?h) 15 = Some (sort ?h ! 15)" "arr_get ?h 0 = Some (?h ! 0)"
    using len(3) by (simp_all add: arr_get_def)
  from quiet have "\<not> analoginputs_save ?c ! k < sort ?h ! 15 - 5" "\<not> sort ?h ! 15 + 5 < analoginputs_save ?c ! k"
    by linarith+
  then have "analog_body (int k) lo hi v ?c = Some (0, scaled (analoginputs_save ?c ! k) lo hi, ?c)"
    using k k15 len known by (simp add: analog_body_def arr_get_int q m)
  with i on l show ?thesis by (simp add: analog_input_def on_card_def arr_get_int arr_set_int)
qed

text \<open>C16: as long as more than half of the last 30 readings of a potentiometer are within 5 of the
  stored position, a call reports no change and the stored position, whatever the other readings
  are: spikes do not get through.\<close>

theorem spikes_ignored:
  assumes ok: "sismo_ok st" and i: "i < 10" and on: "connected (sismo st ! i) = 1"
    and k: "int k < nanaloginputs (sismo st ! i)"
    and save: "0 \<le> save" "analoginputs_save (sismo st ! i) ! k = save"
    and newest: "analoginputs (sismo st ! i) ! k ! 0 \<noteq> - 1"
    and known: "sort (analoginputs (sismo st ! i) ! k) ! 15 \<noteq> - 1"
    and most: "16 \<le> length (filter (\<lambda>x. \<bar>x - save\<bar> \<le> 5) (analoginputs (sismo st ! i) ! k))"
  shows "analog_input (int i) (int k) (Some v) lo hi st = Some (0, Some (scaled save lo hi), st)"
proof -
  let ?h = "analoginputs (sismo st ! i) ! k"
  from ok have cards: "arr_ok 10 card_ok (sismo st)" by (simp add: sismo_ok_def)
  from i have c: "card_ok (sismo st ! i)" by (rule arr_ok_nth [OF cards])
  from k card_okD(18) [OF c] have "k < 15" by simp
  then have l: "length ?h = 30" by (rule arr_ok_length [OF arr_ok_nth [OF card_okD(1) [OF c]]])
  have "(\<lambda>x. \<bar>x - save\<bar> \<le> 5) = (\<lambda>x. save - 5 \<le> x \<and> x \<le> save + 5)" by (auto simp: fun_eq_iff)
  with most have m: "16 \<le> length (filter (\<lambda>x. save - 5 \<le> x \<and> x \<le> save + 5) ?h)" by simp
  have "\<bar>save - sort ?h ! 15\<bar> \<le> 5"
    using median_in_interval [OF l m] by linarith
  with analog_input_sort [OF ok i on k newest known] save show ?thesis by simp
qed

section \<open>The gray code encoder\<close>

text \<open>The position of a state of the two inputs in the cycle of the encoder, and the step between
  two positions: one forward, one back, or none.\<close>

definition phase :: "int \<Rightarrow> int \<Rightarrow> int" where
  "phase b1 b2 = (if b2 = 0 then (if b1 = 0 then 0 else 3) else (if b1 = 0 then 1 else 2))"

definition turn :: "int \<Rightarrow> int \<Rightarrow> int" where
  "turn p q = (if (q - p) mod 4 = 1 then 1 else if (q - p) mod 4 = 3 then - 1 else 0)"

lemma gray_updown_turn:
  assumes "o1 = 0 \<or> o1 = 1" "o2 = 0 \<or> o2 = 1" "n1 = 0 \<or> n1 = 1" "n2 = 0 \<or> n2 = 1"
  shows "gray_updown (to_char (o1 + 2 * o2)) (to_char (n1 + 2 * n2)) = turn (phase o1 o2) (phase n1 n2)"
  using assms by (elim disjE) (simp_all add: gray_updown_def turn_def phase_def Let_def)

lemma turn_same: "turn p p = 0"
  by (simp add: turn_def)

lemma sum_23: "\<bar>x\<bar> < 2 ^ 23 \<Longrightarrow> \<bar>y\<bar> < 2 ^ 23 \<Longrightarrow> \<bar>x + y\<bar> < (2::int) ^ 24"
  by simp

text \<open>On integers of up to 23 bits the arithmetic of the encoder is exact.\<close>

lemma encoder_add_exact:
  assumes u: "u = 1 \<or> u = - 1" and v: "\<bar>v\<bar> < 2 ^ 23" and m: "\<bar>m\<bar> < 2 ^ 23"
    and a: "\<bar>acceleration dt\<bar> < 2 ^ 23" "\<bar>m * acceleration dt\<bar> < 2 ^ 23"
  shows "encoder_add (Fin v 0) u (fp_of_int 23 8 m) dt = Fin (v + u * m * acceleration dt) 0"
proof -
  let ?a = "acceleration dt"
  from u m have um: "\<bar>u * m\<bar> < 2 ^ 24" by auto
  from u a(2) have uma: "\<bar>u * m * ?a\<bar> < 2 ^ 23" by auto
  then have uma24: "\<bar>u * m * ?a\<bar> < 2 ^ 24" by simp
  note add = fp_add_exact [OF sum_23 [OF v uma]]
  from u have "\<bar>u\<bar> < 2 ^ 24" by auto
  moreover from m have "\<bar>m\<bar> < 2 ^ 24" by simp
  moreover from a(1) have "\<bar>?a\<bar> < 2 ^ 24" by simp
  ultimately show ?thesis
    by (simp only: encoder_add_def fp_of_int_exact fp_mul_exact [OF um] fp_mul_exact [OF uma24] add)
qed

text \<open>C17: an encoder of the gray code type adds, for the oldest change of its two inputs that the
  panel code has not seen, the multiplier times the acceleration in the direction of the step in
  the gray code cycle; a repeated state and a step of two positions leave the value alone.\<close>

theorem encoder_counts_steps:
  assumes ok: "sismo_ok st" and i: "i < 10" and on: "connected (sismo st ! i) = 1"
    and k: "k1 < 192" "k2 < 192" "k1 div 64 = k2 div 64"
    and n: "inputs_nsave (sismo st ! i) ! (k1 div 64) = int (Suc s)" "s < 29"
    and old: "inputs (sismo st ! i) ! k1 ! Suc s = o1" "inputs (sismo st ! i) ! k2 ! Suc s = o2"
      "o1 = 0 \<or> o1 = 1" "o2 = 0 \<or> o2 = 1"
    and new: "inputs (sismo st ! i) ! k1 ! s = n1" "inputs (sismo st ! i) ! k2 ! s = n2"
      "n1 = 0 \<or> n1 = 1" "n2 = 0 \<or> n2 = 1"
    and a: "a = acceleration (elapsed_ms t (inputs_time (sismo st ! i) ! k1))"
    and small: "\<bar>v\<bar> < 2 ^ 23" "\<bar>m\<bar> < 2 ^ 23" "\<bar>a\<bar> < 2 ^ 23" "\<bar>m * a\<bar> < 2 ^ 23"
  shows "\<exists>st'. encoder_input (int i) (int k1) (int k2) (Some v) m 2 t st =
    Some (if turn (phase o1 o2) (phase n1 n2) = 0 then 0 else 1,
      Some (v + turn (phase o1 o2) (phase n1 n2) * m * a), st') \<and> sismo_ok st'"
proof -
  let ?c = "sismo st ! i" and ?u = "turn (phase o1 o2) (phase n1 n2)"
  from ok have cards: "arr_ok 10 card_ok (sismo st)" by (simp add: sismo_ok_def)
  then have l: "length (sismo st) = 10" by (rule arr_ok_length)
  from i have c: "card_ok ?c" by (rule arr_ok_nth [OF cards])
  note len = arr_ok_length [OF card_okD(3) [OF c]] arr_ok_length [OF card_okD(6) [OF c]]
    arr_ok_length [OF card_okD(4) [OF c]] card_okD(5) [OF c]
    arr_ok_length [OF arr_ok_nth [OF card_okD(3) [OF c] k(1)]]
    arr_ok_length [OF arr_ok_nth [OF card_okD(3) [OF c] k(2)]]
  have u: "?u = 0 \<or> ?u = 1 \<or> ?u = - 1" by (simp add: turn_def)
  have bank: "int k1 div 64 = int (k1 div 64)" "int k2 div 64 = int (k1 div 64)"
    using k(3) by (metis zdiv_int of_nat_numeral)+
  have at: "input_at ?c (int k1) (int s) = Some n1" "input_at ?c (int k2) (int s) = Some n2"
    "input_at ?c (int k1) (int s + 1) = Some o1" "input_at ?c (int k2) (int s + 1) = Some o2"
    using len k n(2) old new arr_get_int [of "Suc s"] unfolding input_at_def
    by (simp_all add: arr_get_int add.commute [of _ 1] del: of_nat_Suc flip: of_nat_Suc)
  have get: "arr_get (inputs_nsave ?c) (int (k1 div 64)) = Some (int (Suc s))"
    "arr_get (inputs_time ?c) (int k1) = Some (inputs_time ?c ! k1)"
    "arr_get (inputs_updown ?c) (int k1) = Some (inputs_updown ?c ! k1)"
    "arr_set (inputs_time ?c) (int k1) t = Some ((inputs_time ?c)[k1 := t])"
    using len k n(1) by (simp_all add: arr_get_int arr_set_int del: of_nat_Suc)
  have exact: "fp_of_int 23 8 v = Fin v 0" using small(1) by (intro fp_of_int_exact) simp
  have miss: "\<not> fp_is_miss (Fin v 0)" "v \<noteq> INT_MISS" using small(1) by (auto simp: fp_is_miss_int)
  have out: "\<not> fp_is_miss (Fin (v + ?u * m * a) 0)" "fp_lround (Fin (v + ?u * m * a) 0) = v + ?u * m * a"
  proof -
    from u small(4) have "\<bar>?u * m * a\<bar> < 2 ^ 23" by auto
    note lt = sum_23 [OF small(1) this]
    then have "\<bar>v + ?u * m * a\<bar> < 16777216" by simp
    then have "in_i32 (v + ?u * m * a)" unfolding in_i32_def by linarith
    with lt show "\<not> fp_is_miss (Fin (v + ?u * m * a) 0)" "fp_lround (Fin (v + ?u * m * a) 0) = v + ?u * m * a"
      by (auto simp: fp_is_miss_int fp_lround_exact)
  qed
  define c' where "c' = (if ?u = 0 then ?c else ?c\<lparr>inputs_time := (inputs_time ?c)[k1 := t]\<rparr>)"
  have ok': "card_ok c'" using c len(4) by (simp add: c'_def card_ok_inputs(3))
  have gray: "gray_updown (to_char (o1 + 2 * o2)) (to_char (n1 + 2 * n2)) = ?u"
    using old new by (intro gray_updown_turn) simp_all
  have "encoder_step 2 (int k1) (fp_of_int 23 8 m) t (o1, o2) (n1, n2) (Fin v 0) ?c =
      Some (if ?u = 0 then 0 else 1, Fin (v + ?u * m * a) 0, c')"
    using u encoder_add_exact [OF _ small(1,2), of ?u "elapsed_ms t (inputs_time ?c ! k1)"] small(3,4)
    by (auto simp: encoder_step_def get gray a c'_def Let_def)
  moreover have "?u = 0" if "n1 = o1" "n2 = o2" by (simp add: that turn_same)
  ultimately have body: "encoder_body (int k1) (int k2) (fp_of_int 23 8 m) 2 t (Fin v 0) ?c =
      Some (if ?u = 0 then 0 else 1, Fin (v + ?u * m * a) 0, c')"
    using k(1,2) n(2) card_okD(14) [OF c] at miss(1) old(3,4)
    by (auto simp: encoder_body_def bank get c'_def add.commute [of _ 1])
  have "encoder_inputf (int i) (int k1) (int k2) (Some (Fin v 0)) (fp_of_int 23 8 m) 2 t st =
      Some (if ?u = 0 then 0 else 1, Some (Fin (v + ?u * m * a) 0), st\<lparr>sismo := (sismo st)[i := c']\<rparr>)"
    using i on l body by (simp add: encoder_inputf_def on_card_def arr_get_int arr_set_int)
  then have "encoder_input (int i) (int k1) (int k2) (Some v) m 2 t st =
      Some (if ?u = 0 then 0 else 1, Some (v + ?u * m * a), st\<lparr>sismo := (sismo st)[i := c']\<rparr>)"
    using miss(2) out by (simp add: encoder_input_def exact)
  moreover have "sismo_ok (st\<lparr>sismo := (sismo st)[i := c']\<rparr>)"
    using ok ok' by (simp add: sismo_ok_def arr_ok_update)
  ultimately show ?thesis by blast
qed

section \<open>What the driver does not handle\<close>

text \<open>The bank of the second daughter board for outputs is sent from element 192 on, the first one
  behind the array, instead of 128.\<close>

lemma write_outputs_192:
  assumes "length (outputs c) = 192"
  shows "write_outputs 2 192 c = None"
proof -
  have "[0..<64] = (0::nat) # [Suc 0..<64]" by (simp add: upt_conv_Cons)
  moreover have "put_output c 192 0 s = None" for s
    using assms by (cases s) (simp add: put_output_def arr_get_def)
  ultimately show ?thesis by (simp add: write_outputs_def)
qed

lemma write_outputs_outputs: "write_outputs dev first c = Some (d, l) \<Longrightarrow> outputs d = outputs c"
  by (auto simp: write_outputs_def split: Option.bind_splits)

lemma write_card_second_board:
  assumes c: "card_ok c" and on: "connected c = 1" and two: "daughter_output2 c \<noteq> 0"
  shows "write_card c = None"
proof -
  have l: "length (outputs c) = 192" using arr_ok_length [OF card_okD(7) [OF c]] by simp
  have third: "and_send (if_connected (daughter_output2 c) (write_outputs 2 192)) s = None"
    if "outputs (fst s) = outputs c" for s
    using that l two by (cases s) (simp add: and_send_def if_connected_def write_outputs_192)
  have keep: "outputs (fst t) = outputs (fst s)"
    if "and_send (if_connected flag (write_outputs dev first)) s = Some t" for flag dev first s t
    using that by (cases s) (auto simp: and_send_def if_connected_def
        dest: write_outputs_outputs split: Option.bind_splits if_splits)
  have one: "and_send (write_outputs 0 0) = and_send (if_connected 1 (write_outputs 0 0))"
    by (simp add: if_connected_def [abs_def])
  show ?thesis
    unfolding write_card_def one using on keep third
    by (auto simp: bind_eq_None_conv)
qed

lemma write_cards_undefined: "c \<in> set cs \<Longrightarrow> write_card c = None \<Longrightarrow> write_cards cs = None"
  by (induction cs) (auto simp: bind_eq_None_conv)

text \<open>C18: as soon as a card with the second daughter board for outputs is connected, the next
  \<open>write_sismo\<close> reads and writes behind the arrays of outputs: it has no defined result.\<close>

theorem second_output_board_undefined:
  assumes "sismo_ok st" and "c \<in> set (sismo st)" and "connected c = 1" and "daughter_output2 c = 1"
  shows "write_sismo st = None"
proof -
  from assms have "card_ok c" by (auto simp: sismo_ok_def arr_ok_def list_all_iff)
  with assms(3,4) have "write_card c = None" by (intro write_card_second_board) simp_all
  with assms(2) show ?thesis by (simp add: write_sismo_def write_cards_undefined)
qed

end
