(* ===== verification/SismoWitnesses.thy ===== *)
theory SismoWitnesses
  imports SismoFacts
begin

text \<open>
  The properties of the \<open>xpsismo\<close> driver at concrete tables and datagrams: a table with one
  connected master card, and messages of this card.
\<close>

section \<open>A table\<close>

text \<open>A card as the ini file and the first message of a master card without daughter boards leave
  it, and the table with this card in front and some bytes in the receive buffer.\<close>

definition spare_card :: sismo_struct where
  "spare_card = ini_card_data
     (static_card\<lparr>ninputs := 192, nanaloginputs := 5, noutputs := 64, ndisplays := 32\<rparr>)"

definition master_card :: sismo_struct where
  "master_card = spare_card\<lparr>connected := 1, port := 1024, mac := [16, 32]\<rparr>"

definition panel :: "sismo_struct \<Rightarrow> mem \<Rightarrow> sismo_state" where
  "panel c bytes =
     \<lparr>sismo = c # replicate 9 spare_card, udpRecvBuffer = bytes @ replicate (30000 - length bytes) 0,
      udpReadLeft = int (length bytes)\<rparr>"

lemma spare_card_ok: "card_ok spare_card"
  by (simp add: spare_card_def card_ok_def ini_card_data_def static_card_def within_def arr_ok_replicate
      terminated_def)

lemma master_card_ok: "card_ok master_card"
  using spare_card_ok by (simp add: master_card_def card_ok_def within_def)

lemma panel_ok: "card_ok c \<Longrightarrow> length bytes \<le> 30000 \<Longrightarrow> sismo_ok (panel c bytes)"
  using spare_card_ok by (auto simp: panel_def sismo_ok_def arr_ok_def list_all_iff)

lemma panel_sel [simp]: "sismo (panel c bytes) = c # replicate 9 spare_card"
  "pending (panel c bytes) = bytes" "udpReadLeft (panel c bytes) = int (length bytes)"
  by (simp_all add: panel_def pending_def)

lemma spare_connected [simp]: "connected spare_card = 0"
  by (simp add: spare_card_def ini_card_data_def static_card_def)

lemma master_sel [simp]: "connected master_card = 1" "daughter_output2 master_card = 0"
  "mac master_card = [16, 32]" "port master_card = 1024" "ndisplays master_card = 32"
  "nanaloginputs master_card = 5" "displays_changed master_card = replicate 96 1"
  "outputs_changed master_card = replicate 192 1" "servos_changed master_card = replicate 14 1"
  "inputs master_card = replicate 192 (replicate 30 (- 1))" "inputs_nsave master_card = replicate 129 0"
  "analoginputs master_card = replicate 15 (replicate 30 (- 1))"
  "analoginputs_save master_card = replicate 15 (- 1)" "inputs_time master_card = replicate 192 (0, 0)"
  "daughter_output1 master_card = 0" "daughter_display1 master_card = 0"
  "daughter_display2 master_card = 0" "daughter_servo master_card = 0"
  by (simp_all add: master_card_def spare_card_def ini_card_data_def static_card_def)

section \<open>Messages\<close>

text \<open>Button 0 of the card is pressed, then released.\<close>

definition button_msg :: "byte \<Rightarrow> mem" where
  "button_msg b = [0x53, 0x43, 16, 32, 0, 0, 0, 4, b] @ replicate 21 0xFF"

lemma length_button_msg [simp]: "length (button_msg b) = 30"
  by (simp add: button_msg_def)

lemma button_reports: "reports (master_card # replicate 9 spare_card) 0 0 (button_msg b)"
proof -
  have "mac spare_card = [0, 0]" by (simp add: spare_card_def ini_card_data_def static_card_def)
  then have "\<not> from_card (button_msg b) spare_card" by (simp add: from_card_def button_msg_def)
  moreover have "from_card (button_msg b) master_card" by (simp add: from_card_def button_msg_def)
  ultimately have "last_match (button_msg b) (master_card # replicate 9 spare_card) = Some 0"
    by (simp add: last_match_def eval_nat_numeral)
  then show ?thesis by (simp add: reports_def bank_of_def button_msg_def)
qed

lemma two_messages: "messages (button_msg a @ button_msg b @ rest) =
    button_msg a # button_msg b # messages rest"
  by (simp add: messages.simps [of "button_msg a @ _"] messages.simps [of "button_msg b @ _"])

lemma one_byte: "messages [x] = []"
  by (simp add: messages.simps)

lemma button_state: "msg_state (button_msg b) ! 0 = 1 - get_bit b 0"
  by (simp add: msg_state_def msg_bit_def pushed_def button_msg_def)

lemma press_release: "changes (bank_state 0 master_card 0) [msg_state (button_msg 0xFE), msg_state (button_msg 0xFF)] =
    [msg_state (button_msg 0xFE), msg_state (button_msg 0xFF)]"
proof -
  have "bank_state 0 master_card 0 ! 0 = - 1" by (simp add: bank_state_def)
  moreover have "msg_state (button_msg 0xFE) ! 0 = 1" "msg_state (button_msg 0xFF) ! 0 = 0"
    by (simp_all add: button_state get_bit_def)
  ultimately show ?thesis by auto
qed

theorem no_input_lost_witness:
  "\<exists>st'. read_sismo (panel master_card (button_msg 0xFE @ button_msg 0xFF)) = Some st' \<and>
     digital_input 0 0 (Some 0) 0 st' = Some (1, Some 1, st') \<and>
     digital_input 0 0 (Some 1) 0 (reset_sismodata st') = Some (1, Some 0, reset_sismodata st')"
proof -
  let ?st = "panel master_card (button_msg 0xFE @ button_msg 0xFF)"
  let ?chg = "[msg_state (button_msg 0xFE), msg_state (button_msg 0xFF)]"
  have m: "messages (button_msg 0xFE @ button_msg 0xFF) = [button_msg 0xFE, button_msg 0xFF]"
    using two_messages [of _ _ "[]"] by (simp add: messages.simps [of "[]"])
  have "?chg = changes (bank_state 0 (sismo ?st ! 0) 0)
        (map msg_state (filter (reports (sismo ?st) 0 0) (messages (pending ?st))))"
    using press_release by (simp add: m button_reports)
  from no_input_lost [OF panel_ok [OF master_card_ok] _ _ _ _ this] obtain st' where
    "read_sismo ?st = Some st'"
    and d: "\<And>n k v. n < 2 \<Longrightarrow> k < 64 \<Longrightarrow>
       digital_input 0 (int k) (Some v) 0 ((reset_sismodata ^^ n) st') =
         Some (if v = ?chg ! n ! k then 0 else 1, Some (?chg ! n ! k), (reset_sismodata ^^ n) st')" by auto
  with d [of 0 0 0] d [of 1 0 1] show ?thesis by (simp add: button_state get_bit_def)
qed

theorem read_sismo_correct_witness:
  "\<exists>st'. read_sismo (panel master_card (button_msg 0xFE @ button_msg 0xFF @ [0x53])) = Some st' \<and>
     udpReadLeft st' = 1 \<and> pending st' = [0x53] \<and>
     sismo st' = apply_message (button_msg 0xFF) (apply_message (button_msg 0xFE)
       (master_card # replicate 9 spare_card))"
  using read_sismo_correct [OF panel_ok [OF master_card_ok, of "button_msg 0xFE @ button_msg 0xFF @ [0x53]"]]
  by (auto simp: two_messages one_byte)

section \<open>Outputs and displays\<close>

lemma due_spare: "\<not> due spare_card u"
  by (simp add: due_def)

lemma due_master: "filter (due master_card) all_units =
    [Outputs 0, Displays 0 0, Displays 0 1, Displays 0 2, Displays 0 3]"
proof -
  have "due master_card u" if "u \<in> {Outputs 0, Displays 0 0, Displays 0 1, Displays 0 2, Displays 0 3}" for u
    using that by (auto simp: due_def unit_changed_def intro: exI [of _ "0::nat"])
  then show ?thesis by (simp add: all_units_def) (simp add: due_def)
qed

theorem write_sismo_correct_witness:
  "\<exists>st' sent. write_sismo (panel master_card []) = Some (st', sent) \<and> length sent = 5 \<and>
     (\<exists>st''. write_sismo st' = Some (st'', []))"
proof -
  have "\<forall>c \<in> set (sismo (panel master_card [])). connected c = 1 \<longrightarrow> daughter_output2 c = 0" by simp
  from write_sismo_correct [OF panel_ok [OF master_card_ok] this] obtain st' sent where
    w: "write_sismo (panel master_card []) = Some (st', sent)" "\<exists>st''. write_sismo st' = Some (st'', [])"
    and s: "all_sent (sismo (panel master_card [])) (sismo st') sent" by auto
  have "filter (due spare_card) all_units = []" by (simp add: due_spare)
  then have "concat (map (\<lambda>c. map (Pair c) (filter (due c) all_units)) (replicate 9 spare_card)) = []" by simp
  with s have "length sent = 5"
    by (auto simp: all_sent_def due_master dest!: list_all2_lengthD)
  with w show ?thesis by blast
qed

theorem display_reads_back_witness:
  "\<exists>st'. display_output 0 3 6 (Some (- 1234)) 2 10 (panel master_card []) = Some (0, Some (- 1234), st') \<and>
     read_number (map (\<lambda>k. segments (sismo st' ! 0) (3 + k)) [0..<6]) = - 1234 \<and>
     bit (segments (sismo st' ! 0) 5) 7"
proof -
  have "fits 6 2 (- 1234)" by (simp add: fits_def in_i32_def)
  from display_reads_back [OF panel_ok [OF master_card_ok, of "[]"] _ _ _ _ this, of 0 3 10] obtain st' where
    "display_output 0 3 6 (Some (- 1234)) 2 10 (panel master_card []) = Some (0, Some (- 1234), st')"
    "read_number (map (\<lambda>k. segments (sismo st' ! 0) (3 + k)) [0..<6]) = - 1234"
    and p: "\<forall>k < 6. bit (segments (sismo st' ! 0) (3 + k)) 7 \<longleftrightarrow> (2::int) = int k" by auto
  with p [rule_format, of 2] show ?thesis by auto
qed

section \<open>The whole driver\<close>

theorem sismo_always_well_formed_witness:
  "\<exists>st. start_sismo (replicate 10 ([0x31, 0], 1024, 16, 32)) = Some st \<and> sismo_ok st \<and>
     run_call ReadCards st \<noteq> None \<and> run_call (Lamp 0 5 (Some 1)) st \<noteq> None"
proof -
  let ?ini = "replicate 10 ([0x31, 0 :: byte], 1024 :: int, 16 :: int, 32 :: int)"
  have "strcpy (replicate 30 0) [0x31, 0] \<noteq> None" by code_simp
  then have "\<exists>c. ini_card [0x31, 0] 1024 16 32 static_card = Some c"
    by (auto simp: ini_card_def static_card_def)
  then have "\<exists>cs. ini_cards (replicate n ([0x31, 0], 1024, 16, 32)) = Some cs" for n
    by (induction n) auto
  from this [of 10] obtain st where st: "start_sismo ?ini = Some st" by (auto simp: start_sismo_def)
  have "sismo_reachable st" by (rule sismo_reachable.start [OF st]) simp
  from sismo_always_well_formed [OF this] have "sismo_ok st"
    and "\<And>k. safe_call k st \<Longrightarrow> run_call k st \<noteq> None" by blast+
  with st this(2) [of ReadCards] this(2) [of "Lamp 0 5 (Some 1)"] show ?thesis by auto
qed

theorem spikes_ignored_witness:
  "let c = master_card\<lparr>analoginputs := (analoginputs master_card)[2 := 1023 # replicate 29 500],
         analoginputs_save := (analoginputs_save master_card)[2 := 502]\<rparr>
   in analog_input 0 2 (Some (Fin 7 0)) (Fin 0 0) (Fin 100 0) (panel c []) =
     Some (0, Some (scaled 502 (Fin 0 0) (Fin 100 0)), panel c [])"
proof -
  let ?h = "1023 # replicate 29 500 :: int list"
  let ?c = "master_card\<lparr>analoginputs := (analoginputs master_card)[2 := ?h],
         analoginputs_save := (analoginputs_save master_card)[2 := 502]\<rparr>"
  have "card_ok ?c"
    by (intro card_ok_analog arr_ok_update card_okD(2) [OF master_card_ok] card_okD(1) [OF master_card_ok]
        master_card_ok)
      (use card_okD(1,2) [OF master_card_ok] in \<open>auto simp: arr_ok_def within_def list_all_iff\<close>)
  then have "sismo_ok (panel ?c [])" by (rule panel_ok) simp
  moreover have "sort ?h ! 15 \<noteq> - 1" by code_simp
  moreover have "16 \<le> length (filter (\<lambda>x. \<bar>x - 502\<bar> \<le> 5) ?h)" by code_simp
  ultimately show ?thesis
    using spikes_ignored [of "panel ?c []" 0 2 502 "Fin 7 0" "Fin 0 0" "Fin 100 0"] by simp
qed

theorem encoder_counts_steps_witness:
  "let c = master_card\<lparr>inputs := (inputs master_card)[4 := 0 # replicate 29 0, 5 := 1 # replicate 29 0],
         inputs_nsave := (inputs_nsave master_card)[0 := 1]\<rparr>
   in \<exists>st'. encoder_input 0 4 5 (Some 10) 3 2 (100, 0) (panel c []) = Some (1, Some 13, st')"
proof -
  let ?c = "master_card\<lparr>inputs := (inputs master_card)[4 := 0 # replicate 29 0, 5 := 1 # replicate 29 0],
         inputs_nsave := (inputs_nsave master_card)[0 := 1]\<rparr>"
  have "card_ok ?c"
    by (intro card_ok_inputs(1) arr_ok_update card_okD(3) [OF master_card_ok] card_okD(6) [OF master_card_ok]
        master_card_ok) (auto simp: arr_ok_def within_def list_all_iff)
  then have "sismo_ok (panel ?c [])" by (rule panel_ok) simp
  moreover have "acceleration (elapsed_ms (100, 0) (0, 0)) = 1" by code_simp
  ultimately show ?thesis
    using encoder_counts_steps [of "panel ?c []" 0 4 5 0 0 0 0 1 1 "(100, 0)" 10 3]
    by (auto simp: turn_def phase_def)
qed

theorem second_output_board_undefined_witness:
  "write_sismo (panel (master_card\<lparr>daughter_output2 := 1, noutputs := 128\<rparr>) []) = None"
proof -
  let ?c = "master_card\<lparr>daughter_output2 := 1, noutputs := 128\<rparr>"
  have "card_ok ?c" using master_card_ok by (simp add: card_ok_def within_def)
  then have "sismo_ok (panel ?c [])" by (rule panel_ok) simp
  from second_output_board_undefined [OF this, of ?c] show ?thesis by simp
qed

end
