(* ===== verification/IniLine.thy ===== *)
theory IniLine
  imports Iniparser
begin

text \<open>
  What \<open>iniparser_line\<close> recognises: the chain of \<open>sscanf\<close> calls is equivalent to one pass over the
  line that cuts it at the first equals sign.
\<close>

section \<open>White space and letters\<close>

named_theorems strip_simps \<open>removal of white space\<close>

definition strip :: "mem \<Rightarrow> mem" where
  "strip s = strip_end (dropWhile isspace s)"

definition lower :: "mem \<Rightarrow> mem" where
  "lower s = map tolower s"

lemma length_strip_end: "length (strip_end s) \<le> length s"
  using length_dropWhile_le [of isspace "rev s"] by (simp add: strip_end_def)

lemma length_strip: "length (strip s) \<le> length s"
  unfolding strip_def by (rule le_trans [OF length_strip_end length_dropWhile_le])

lemma length_lower [simp]: "length (lower s) = length s"
  by (simp add: lower_def)

lemma strip_end_append: "\<exists>w. s = strip_end s @ w \<and> list_all isspace w"
proof -
  have "rev s = takeWhile isspace (rev s) @ dropWhile isspace (rev s)" by simp
  then have "s = strip_end s @ rev (takeWhile isspace (rev s))"
    unfolding strip_end_def by (metis rev_append rev_rev_ident)
  moreover have "list_all isspace (rev (takeWhile isspace (rev s)))"
    by (auto simp: list_all_iff dest: set_takeWhileD)
  ultimately show ?thesis by blast
qed

lemma strip_end_last: "strip_end s \<noteq> [] \<Longrightarrow> \<not> isspace (last (strip_end s))"
  using hd_dropWhile [of isspace "rev s"] by (simp add: strip_end_def last_rev)

lemma strip_end_id [strip_simps]: "s = [] \<or> \<not> isspace (last s) \<Longrightarrow> strip_end s = s"
  by (cases s rule: rev_cases) (auto simp: strip_end_def)

lemma dropWhile_id [strip_simps]: "s = [] \<or> \<not> P (hd s) \<Longrightarrow> dropWhile P s = s"
  by (cases s) auto

lemma strip_end_idem [strip_simps]: "strip_end (strip_end s) = strip_end s"
  using strip_end_last by (intro strip_end_id) blast

lemma hd_strip_end: "s \<noteq> [] \<Longrightarrow> \<not> isspace (hd s) \<Longrightarrow> strip_end s \<noteq> [] \<and> hd (strip_end s) = hd s"
proof -
  assume s: "s \<noteq> []" "\<not> isspace (hd s)"
  obtain w where w: "s = strip_end s @ w" "list_all isspace w" using strip_end_append by blast
  show ?thesis
  proof (cases "strip_end s")
    case Nil
    with w s show ?thesis by (cases w) auto
  next
    case (Cons c r)
    have "hd s = hd (strip_end s @ w)" by (rule arg_cong [OF w(1)])
    with Cons show ?thesis by simp
  qed
qed

lemma strip_clean: "strip s = [] \<or> (\<not> isspace (hd (strip s)) \<and> \<not> isspace (last (strip s)))"
proof (cases "dropWhile isspace s = []")
  case False
  then have "\<not> isspace (hd (dropWhile isspace s))" by (rule hd_dropWhile)
  from hd_strip_end [OF False this] this strip_end_last show ?thesis by (simp add: strip_def)
next
  case True
  then have "strip s = strip_end []" unfolding strip_def by (rule arg_cong)
  then show ?thesis by (simp add: strip_end_def)
qed

lemma strip_id [strip_simps]: "s = [] \<or> (\<not> isspace (hd s) \<and> \<not> isspace (last s)) \<Longrightarrow> strip s = s"
  by (auto simp: strip_def strip_simps)

lemma strip_idem [strip_simps]: "strip (strip s) = strip s"
  using strip_clean by (rule strip_id)

lemma isspace_tolower [simp]: "isspace (tolower c) = isspace c"
  by (auto simp: isspace_def tolower_def word_le_nat_alt unat_word_ariths word_unat_eq_iff)

lemma tolower_idem [simp]: "tolower (tolower c) = tolower c"
  by (auto simp: tolower_def word_le_nat_alt unat_word_ariths)

lemma lower_idem [simp]: "lower (lower s) = lower s"
  by (simp add: lower_def)

lemma strip_lower: "strip (lower s) = lower (strip s)"
proof -
  have d: "dropWhile isspace (map tolower t) = map tolower (dropWhile isspace t)" for t
    by (induction t) auto
  show ?thesis by (simp add: strip_def lower_def strip_end_def d rev_map)
qed

lemma set_strip: "set (strip s) \<subseteq> set s"
proof -
  have "set (dropWhile isspace t) \<subseteq> set t" for t using set_dropWhileD by fast
  from this [of "rev (dropWhile isspace s)"] this [of s] show ?thesis
    by (simp add: strip_def strip_end_def)
qed

section \<open>Scanning a line\<close>

datatype ini_item = Skip | Same_section | Section mem | Entry mem mem | Bad

text \<open>The text between a pair of quotes at the start, if it is not empty.\<close>

definition quoted :: "byte \<Rightarrow> mem \<Rightarrow> mem option" where
  "quoted q r =
     (if r \<noteq> [] \<and> hd r = q \<and> takeWhile (\<lambda>c. c \<noteq> q) (tl r) \<noteq> []
      then Some (takeWhile (\<lambda>c. c \<noteq> q) (tl r)) else None)"

definition value_of :: "mem \<Rightarrow> mem" where
  "value_of r =
     (let v = strip (case quoted 34 r of Some w \<Rightarrow> w
                     | None \<Rightarrow> (case quoted 39 r of Some w \<Rightarrow> w
                       | None \<Rightarrow> takeWhile (\<lambda>c. c \<noteq> 59 \<and> c \<noteq> 35) r))
      in if v = [34, 34] \<or> v = [39, 39] then [] else v)"

definition item_of :: "mem \<Rightarrow> ini_item" where
  "item_of s =
     (let l = strip s; k = takeWhile (\<lambda>c. c \<noteq> 61) l; w = takeWhile (\<lambda>c. c \<noteq> 93) (tl l)
      in if l = [] \<or> hd l = 35 then Skip
         else if hd l = 91 \<and> last l = 93 then (if w = [] then Same_section else Section (lower (strip w)))
         else if k = [] \<or> 61 \<notin> set l then Bad
         else Entry (lower (strip k)) (value_of (dropWhile isspace (tl (dropWhile (\<lambda>c. c \<noteq> 61) l)))))"

lemma copy_in_fits [simp]: "length s < cap \<Longrightarrow> copy_in cap s = Some s"
  by (simp add: copy_in_def)

lemma strstrip_eq: "length s \<le> 1024 \<Longrightarrow> strstrip s = Some (strip s)"
  using length_dropWhile_le [of isspace s] by (simp add: strstrip_def strip_def)

lemma clean_name_eq: "length s \<le> 1024 \<Longrightarrow> clean_name s = Some (lower (strip s))"
  using length_strip [of s] by (simp add: clean_name_def strstrip_eq strlwc_def lower_def)

text \<open>The calls of \<open>sscanf\<close> on a line that has an equals sign, and on one that has none.\<close>

definition key_part :: "mem \<Rightarrow> mem" where
  "key_part l = takeWhile (\<lambda>c. c \<noteq> 61) l"

definition value_part :: "mem \<Rightarrow> mem" where
  "value_part l = dropWhile isspace (tl (dropWhile (\<lambda>c. c \<noteq> 61) l))"

lemma value_part_length: "length (value_part l) \<le> length l"
  unfolding value_part_def
  using length_dropWhile_le [of "\<lambda>c. c \<noteq> 61" l] by (intro le_trans [OF length_dropWhile_le]) simp

lemma key_part_length: "length (key_part l) \<le> length l"
  by (simp add: key_part_def length_takeWhile_le)

lemma sscanf_key:
  assumes "61 \<in> set l" and "key_part l \<noteq> []"
  shows "sscanf (NoneOf [61] # Blank # Lit 61 # Blank # fs) l = key_part l # sscanf fs (value_part l)"
    and "sscanf [NoneOf [61], Blank, OneOf [61]] l = [key_part l, takeWhile (\<lambda>c. c = 61) (dropWhile (\<lambda>c. c \<noteq> 61) l)]"
proof -
  obtain r where r: "dropWhile (\<lambda>c. c \<noteq> 61) l = 61 # r"
    using assms(1) hd_dropWhile [of "\<lambda>c. c \<noteq> 61" l] by (cases "dropWhile (\<lambda>c. c \<noteq> 61) l") auto
  have "\<not> isspace 61" by (simp add: isspace_def)
  with assms(2) r show "sscanf (NoneOf [61] # Blank # Lit 61 # Blank # fs) l = key_part l # sscanf fs (value_part l)"
    and "sscanf [NoneOf [61], Blank, OneOf [61]] l = [key_part l, takeWhile (\<lambda>c. c = 61) (dropWhile (\<lambda>c. c \<noteq> 61) l)]"
    by (simp_all add: key_part_def value_part_def Let_def)
qed

lemma sscanf_no_key:
  assumes "key_part l = [] \<or> 61 \<notin> set l" and "fmt \<in> set (value_formats @ empty_formats)"
  shows "length (sscanf fmt l) \<le> 1" and "\<forall>w \<in> set (sscanf fmt l). length w \<le> length l"
proof -
  have "sscanf fmt l = [] \<or> sscanf fmt l = [key_part l]"
  proof (cases "key_part l = []")
    case True
    then have "takeWhile (\<lambda>c. c \<noteq> 61) l = []" unfolding key_part_def .
    with assms(2) show ?thesis by (auto simp: value_formats_def empty_formats_def)
  next
    case False
    with assms(1) have "dropWhile (\<lambda>c. c \<noteq> 61) l = []" by (auto simp: dropWhile_eq_Nil_conv)
    note * = this False [unfolded key_part_def]
    from assms(2) show ?thesis
      by (auto simp: * Let_def value_formats_def empty_formats_def key_part_def cong: if_cong)
  qed
  with key_part_length [of l] show "length (sscanf fmt l) \<le> 1" "\<forall>w \<in> set (sscanf fmt l). length w \<le> length l"
    by auto
qed

lemma scan_any_fails:
  assumes "\<forall>fmt \<in> set fmts. length (sscanf fmt l) \<le> 1 \<and> (\<forall>w \<in> set (sscanf fmt l). length w \<le> length l)"
    and "length l \<le> 1023" and "length key \<le> 1023"
  shows "\<exists>key'. scan_any fmts l key val = Some (False, key', val) \<and> length key' \<le> 1023"
  using assms
proof (induction fmts arbitrary: key)
  case (Cons fmt fmts)
  have "\<exists>n key'. scan_pair fmt l key val = Some (n, key', val) \<and> n \<noteq> 2 \<and> length key' \<le> 1023"
  proof (cases "sscanf fmt l")
    case (Cons w ws)
    with Cons.prems have "ws = []" "length w \<le> 1023" by auto
    with Cons show ?thesis by (simp add: scan_pair_def)
  qed (use Cons.prems in \<open>simp add: scan_pair_def\<close>)
  then obtain n key' where "scan_pair fmt l key val = Some (n, key', val)" "n \<noteq> 2" "length key' \<le> 1023" by blast
  with Cons.IH [of key'] Cons.prems show ?case by auto
qed simp

section \<open>A line is an item\<close>

lemma quoted_scan:
  "sscanf [Lit q, NoneOf [q], Lit q] r = (case quoted q r of None \<Rightarrow> [] | Some w \<Rightarrow> [w])"
  by (cases r) (auto simp: quoted_def Let_def split: list.split)

lemma quoted_length: "quoted q r = Some w \<Longrightarrow> length w < length r"
  using length_takeWhile_le [of "\<lambda>c. c \<noteq> q" "tl r"] by (cases r) (auto simp: quoted_def split: if_splits)

lemma scan_pair_key:
  assumes "sscanf fmt l = k # (case v of None \<Rightarrow> [] | Some w \<Rightarrow> [w])" and "length k < 1025"
    and "\<And>w. v = Some w \<Longrightarrow> length w < 1025"
  shows "scan_pair fmt l key val = Some (case v of None \<Rightarrow> (1, k, val) | Some w \<Rightarrow> (2, k, w))"
  using assms by (cases v) (simp_all add: scan_pair_def)

text \<open>The first group of formats finds a value, or, after white space, nothing or the start of a comment;
  the second group then matches.\<close>

lemma scan_value:
  assumes l: "61 \<in> set l" "key_part l \<noteq> []" "length l \<le> 1023"
  defines "r \<equiv> value_part l"
  defines "v \<equiv> (case quoted 34 r of Some w \<Rightarrow> w
       | None \<Rightarrow> (case quoted 39 r of Some w \<Rightarrow> w | None \<Rightarrow> takeWhile (\<lambda>c. c \<noteq> 59 \<and> c \<noteq> 35) r))"
  shows "scan_any value_formats l key val = Some (v \<noteq> [], key_part l, if v \<noteq> [] then v else val)"
    and "length v \<le> 1023"
    and "v = [] \<Longrightarrow> \<exists>val'. scan_any empty_formats l key val = Some (True, key_part l, val')"
proof -
  note * = sscanf_key(1) [OF l(1,2)]
  have k: "length (key_part l) < 1025" using key_part_length [of l] l(3) by simp
  have r: "length r \<le> 1023" using value_part_length [of l] l(3) by (simp add: r_def)
  let ?t = "takeWhile (\<lambda>c. c \<noteq> 59 \<and> c \<noteq> 35) r"
  have lt: "length w \<le> 1023" if "quoted q r = Some w" for q w using quoted_length [OF that] r by simp
  have t: "length ?t \<le> 1023" using length_takeWhile_le [of "\<lambda>c. c \<noteq> 59 \<and> c \<noteq> 35" r] r by simp
  have ne: "w \<noteq> []" if "quoted q r = Some w" for q w using that by (auto simp: quoted_def split: if_splits)
  have p1: "scan_pair [NoneOf [61], Blank, Lit 61, Blank, Lit q, NoneOf [q], Lit q] l key val =
      Some (case quoted q r of None \<Rightarrow> (1, key_part l, val) | Some w \<Rightarrow> (2, key_part l, w))" for q key val
    by (rule scan_pair_key) (use k lt [of q] in \<open>auto simp: * quoted_scan r_def simp del: sscanf.simps dest: le_imp_less_Suc\<close>)
  have p3: "scan_pair [NoneOf [61], Blank, Lit 61, Blank, NoneOf [59, 35]] l key val =
      Some (if ?t = [] then (1, key_part l, val) else (2, key_part l, ?t))" for key val
  proof -
    have "sscanf [NoneOf [61], Blank, Lit 61, Blank, NoneOf [59, 35]] l = key_part l # sscanf [NoneOf [59, 35]] r"
      unfolding r_def by (rule *)
    also have "sscanf [NoneOf [59, 35]] r = (if ?t = [] then [] else [?t])" by (simp add: Let_def)
    finally show ?thesis using k t by (simp add: scan_pair_def del: sscanf.simps)
  qed
  show "scan_any value_formats l key val = Some (v \<noteq> [], key_part l, if v \<noteq> [] then v else val)"
    using ne by (auto simp: value_formats_def p1 p3 v_def split: option.split)
  show "length v \<le> 1023" using lt t by (auto simp: v_def split: option.split)
  assume "v = []"
  with ne have "?t = []" by (auto simp: v_def split: option.splits)
  then have c: "r = [] \<or> hd r = 59 \<or> hd r = 35" by (cases r) (auto split: if_splits)
  define w where "w = takeWhile (\<lambda>c. c \<in> {59, 35}) r"
  have w: "length w \<le> 1023" using length_takeWhile_le [of "\<lambda>c. c \<in> {59, 35}" r] r by (simp add: w_def)
  define e where "e = takeWhile (\<lambda>c. c = 61) (dropWhile (\<lambda>c. c \<noteq> 61) l)"
  have e: "length e \<le> 1023"
    using length_takeWhile_le [of "\<lambda>c. c = 61" "dropWhile (\<lambda>c. c \<noteq> 61) l"] length_dropWhile_le [of "\<lambda>c. c \<noteq> 61" l] l(3)
    by (simp add: e_def)
  have "sscanf [NoneOf [61], Blank, Lit 61, Blank, OneOf [59, 35]] l = key_part l # (if w = [] then [] else [w])"
    unfolding * r_def [symmetric] by (simp add: w_def Let_def)
  moreover have "sscanf [NoneOf [61], Blank, OneOf [61]] l = [key_part l, e]"
    unfolding e_def by (rule sscanf_key(2) [OF l(1,2)])
  ultimately show "\<exists>val'. scan_any empty_formats l key val = Some (True, key_part l, val')"
    using k w e by (simp add: empty_formats_def scan_pair_def)
qed

lemma value_of_eq:
  "value_of r = (let v = strip (case quoted 34 r of Some w \<Rightarrow> w
      | None \<Rightarrow> (case quoted 39 r of Some w \<Rightarrow> w | None \<Rightarrow> takeWhile (\<lambda>c. c \<noteq> 59 \<and> c \<noteq> 35) r))
    in if v = [34, 34] \<or> v = [39, 39] then [] else v)"
  by (simp add: value_of_def)

lemma strip_Nil [simp]: "strip [] = []"
  by (simp add: strip_def strip_end_def)

text \<open>What a line does to the three strings of the caller: the status, the section, and key and value
  if it has them.\<close>

fun item_result :: "ini_item \<Rightarrow> mem \<Rightarrow> line_status \<times> mem \<times> mem \<times> mem \<Rightarrow> bool" where
  "item_result Skip sec (sta, sec', _) \<longleftrightarrow> (sta = LINE_EMPTY \<or> sta = LINE_COMMENT) \<and> sec' = sec"
| "item_result Same_section sec (sta, sec', _) \<longleftrightarrow> sta = LINE_SECTION \<and> sec' = lower (strip sec)"
| "item_result (Section s) sec (sta, sec', _) \<longleftrightarrow> sta = LINE_SECTION \<and> sec' = s"
| "item_result (Entry k v) sec (sta, sec', key, val) \<longleftrightarrow> sta = LINE_VALUE \<and> sec' = sec \<and> key = k \<and> val = v"
| "item_result Bad sec (sta, sec', _) \<longleftrightarrow> sta = LINE_ERROR \<and> sec' = sec"

lemma line_eq:
  assumes l: "length s \<le> 1023" and old: "length sec \<le> 1024" "length key \<le> 1023"
  shows "\<exists>sta sec' key' val'. iniparser_line s sec key val = Some (sta, sec', key', val') \<and>
    item_result (item_of s) sec (sta, sec', key', val') \<and> length key' \<le> 1023"
proof -
  let ?l = "strip s"
  have ll: "length ?l \<le> 1023" using length_strip [of s] l by simp
  have stripped: "strstrip s = Some ?l" using l by (simp add: strstrip_eq)
  note item = item_of_def [of s] key_part_def [of ?l, symmetric] value_part_def [of ?l, symmetric]
  note line = iniparser_line_def [of s sec key val] stripped
  consider (empty) "?l = []" | (hash) "?l \<noteq> []" "hd ?l = 35"
    | (brackets) "?l \<noteq> []" "hd ?l \<noteq> 35" "hd ?l = 91 \<and> last ?l = 93"
    | (bad) "?l \<noteq> []" "hd ?l \<noteq> 35" "\<not> (hd ?l = 91 \<and> last ?l = 93)" "key_part ?l = [] \<or> 61 \<notin> set ?l"
    | (entry) "?l \<noteq> []" "hd ?l \<noteq> 35" "\<not> (hd ?l = 91 \<and> last ?l = 93)" "key_part ?l \<noteq> []" "61 \<in> set ?l"
    by blast
  then show ?thesis
  proof cases
    case brackets
    let ?w = "takeWhile (\<lambda>c. c \<noteq> 93) (tl ?l)"
    have w: "length ?w \<le> 1023"
      using length_takeWhile_le [of "\<lambda>c. c \<noteq> 93" "tl ?l"] ll by simp
    obtain r where r: "?l = 91 # r" using brackets by (cases ?l) auto
    have "sscanf [Lit 91, NoneOf [93]] ?l = (if ?w = [] then [] else [?w])" by (simp add: r Let_def)
    moreover from brackets have "item_of s = (if ?w = [] then Same_section else Section (lower (strip ?w)))"
      by (simp add: item Let_def)
    ultimately show ?thesis using brackets old ll w
      by (cases "?w = []") (simp_all add: line clean_name_eq del: sscanf.simps)
  next
    case bad
    note no = sscanf_no_key [OF bad(4)]
    from scan_any_fails [of value_formats ?l key val] no ll old obtain k1 where
      1: "scan_any value_formats ?l key val = Some (False, k1, val)" "length k1 \<le> 1023" by auto
    from scan_any_fails [of empty_formats ?l k1 val] no ll 1(2) obtain k2 where
      2: "scan_any empty_formats ?l k1 val = Some (False, k2, val)" "length k2 \<le> 1023" by auto
    from bad have "item_of s = Bad" by (auto simp: item Let_def)
    with bad(1-3) ll 1 2 show ?thesis by (auto simp: line)
  next
    case entry
    define v where "v = (case quoted 34 (value_part ?l) of Some w \<Rightarrow> w | None \<Rightarrow>
       (case quoted 39 (value_part ?l) of Some w \<Rightarrow> w | None \<Rightarrow> takeWhile (\<lambda>c. c \<noteq> 59 \<and> c \<noteq> 35) (value_part ?l)))"
    note sc = scan_value [OF entry(5,4) ll, folded v_def]
    have it: "item_of s = Entry (lower (strip (key_part ?l))) (value_of (value_part ?l))"
      using entry by (simp add: item Let_def)
    have vo: "value_of (value_part ?l) = (if strip v = [34, 34] \<or> strip v = [39, 39] then [] else strip v)"
      by (simp add: value_of_eq v_def Let_def)
    have k: "length (key_part ?l) \<le> 1023" using key_part_length [of ?l] ll by simp
    then have ck: "clean_name (key_part ?l) = Some (lower (strip (key_part ?l)))"
      "length (lower (strip (key_part ?l))) \<le> 1023"
      using length_strip [of "key_part ?l"] by (simp_all add: clean_name_eq)
    have v: "strstrip v = Some (strip v)" "length (strip v) < 1025"
      using sc(2) length_strip [of v] by (simp_all add: strstrip_eq)
    show ?thesis
    proof (cases "v = []")
      case False
      with entry(1-3) ll sc(1) [of key val] ck v show ?thesis by (auto simp: line it vo)
    next
      case True
      from sc(3) [OF True, of "key_part ?l" val] obtain val' where
        "scan_any empty_formats ?l (key_part ?l) val = Some (True, key_part ?l, val')" by blast
      with True entry(1-3) ll sc(1) [of key val] ck show ?thesis by (auto simp: line it vo)
    qed
  qed (use ll old in \<open>simp_all add: line item Let_def\<close>)
qed

end
