(* ===== verification/IniLoad.thy ===== *)
theory IniLoad
  imports IniLine
begin

text \<open>
  What \<open>iniparser_load\<close> returns: the meaning of a file is defined line by line, without buffers, and
  the parser computes it; on every file without null characters it ends and stays inside its
  buffers. The copy of the parser in the plugin has a buffer that is too small.
\<close>

section \<open>The meaning of a file\<close>

text \<open>A line that ends in a backslash is continued on the next one.\<close>

fun logical :: "mem \<Rightarrow> mem list \<Rightarrow> mem list" where
  "logical acc [] = []"
| "logical acc (l # ls) =
     (let t = strip_end (acc @ l)
      in if t \<noteq> [] \<and> last t = 92 then logical (butlast t) ls else t # logical [] ls)"

text \<open>Lines that fit into the buffer, with what they continue.\<close>

fun fitting :: "mem \<Rightarrow> mem list \<Rightarrow> bool" where
  "fitting acc [] = True"
| "fitting acc (l # ls) =
     (length acc + length l \<le> 1022 \<and> 10 \<notin> set l \<and> 0 \<notin> set l \<and>
      (let t = strip_end (acc @ l)
       in if t \<noteq> [] \<and> last t = 92 then fitting (butlast t) ls else fitting [] ls))"

type_synonym ini_meaning = "mem \<times> (mem \<Rightarrow> mem option option) \<times> int"

text \<open>The current section, the settings so far, and the number of errors since the last good line.\<close>

fun item_step :: "ini_item \<Rightarrow> ini_meaning \<Rightarrow> ini_meaning" where
  "item_step Skip (sec, m, e) = (sec, m, e)"
| "item_step Same_section (sec, m, e) = (sec, m(sec \<mapsto> None), 0)"
| "item_step (Section s) (sec, m, e) = (s, m(s \<mapsto> None), 0)"
| "item_step (Entry k v) (sec, m, e) = (sec, m(sec @ 58 # k \<mapsto> Some v), 0)"
| "item_step Bad (sec, m, e) = (sec, m, e + 1)"

definition meaning :: "mem list \<Rightarrow> ini_meaning" where
  "meaning ls = fold (\<lambda>l. item_step (item_of l)) (logical [] ls) ([], Map.empty, 0)"

definition file_text :: "mem list \<Rightarrow> mem" where
  "file_text ls = concat (map (\<lambda>l. l @ [10]) ls)"

section \<open>A line\<close>

definition ini_ok :: "ini_state \<Rightarrow> bool" where
  "ini_ok st \<longleftrightarrow>
     dict_inv (ini_dict st) \<and> length (ini_section st) \<le> 1024 \<and> length (ini_key st) \<le> 1023 \<and>
     lower (strip (ini_section st)) = ini_section st"

definition ini_abs :: "ini_state \<Rightarrow> ini_meaning" where
  "ini_abs st = (ini_section st, dict_map (ini_dict st), ini_errs st)"

lemma lower_strip_idem: "lower (strip (lower (strip s))) = lower (strip s)"
  by (simp add: strip_lower strip_idem)

lemma item_section:
  assumes "item_of s = Section w" and "length s \<le> 1023"
  shows "length w \<le> 1024" and "lower (strip w) = w"
proof -
  have *: "\<exists>u. w = lower (strip u) \<and> length u \<le> length (strip s)"
    using assms(1) le_trans [OF length_takeWhile_le, of "tl (strip s)" "length (strip s)" "\<lambda>c. c \<noteq> 93"]
    by (auto simp: item_of_def Let_def split: if_splits)
  then obtain u where u: "w = lower (strip u)" "length u \<le> length (strip s)" by blast
  show "lower (strip w) = w" unfolding u(1) by (rule lower_strip_idem)
  from u length_strip [of u] length_strip [of s] assms(2) show "length w \<le> 1024" by simp
qed

lemma load_line_step:
  assumes st: "ini_ok st" and s: "length s \<le> 1023"
  shows "\<exists>st'. load_line (\<lambda>_. True) 2050 s st = Some st' \<and> ini_ok st' \<and>
    ini_abs st' = (case item_step (item_of s) (ini_abs st) of (sec, m, e) \<Rightarrow>
      (sec, m, if item_of s = Bad then wrap32 e else e))"
proof -
  let ?d = "ini_dict st" and ?sec = "ini_section st"
  from st have d: "dict_inv ?d" and b: "length ?sec \<le> 1024" "length (ini_key st) \<le> 1023"
    and cl: "lower (strip ?sec) = ?sec" by (simp_all add: ini_ok_def)
  from line_eq [OF s b] obtain sta sec key val where
    line: "iniparser_line s ?sec (ini_key st) (ini_val st) = Some (sta, sec, key, val)"
    and it: "item_result (item_of s) ?sec (sta, sec, key, val)" and k: "length key \<le> 1023" by blast
  show ?thesis
  proof (cases "item_of s")
    case Skip
    with it line d b cl k show ?thesis by (auto simp: load_line_def ini_ok_def ini_abs_def)
  next
    case Same_section
    from dictionary_set_map [OF d, of "\<lambda>_. True" ?sec None] obtain d' where
      "dictionary_set (\<lambda>_. True) ?d ?sec None = Some (d', 0)" "dict_inv d'" "dict_map d' = (dict_map ?d)(?sec \<mapsto> None)" by blast
    with Same_section it line b cl k show ?thesis by (simp add: load_line_def ini_ok_def ini_abs_def)
  next
    case (Section w)
    from dictionary_set_map [OF d, of "\<lambda>_. True" w None] obtain d' where
      "dictionary_set (\<lambda>_. True) ?d w None = Some (d', 0)" "dict_inv d'" "dict_map d' = (dict_map ?d)(w \<mapsto> None)" by blast
    with Section it line k item_section [OF Section s] show ?thesis
      by (simp add: load_line_def ini_ok_def ini_abs_def)
  next
    case (Entry k' v)
    from dictionary_set_map [OF d, of "\<lambda>_. True" "?sec @ 58 # key" "Some val"] obtain d' where
      "dictionary_set (\<lambda>_. True) ?d (?sec @ 58 # key) (Some val) = Some (d', 0)" "dict_inv d'"
      "dict_map d' = (dict_map ?d)(?sec @ 58 # key \<mapsto> Some val)" by blast
    with Entry it line b cl k show ?thesis by (simp add: load_line_def ini_ok_def ini_abs_def)
  next
    case Bad
    with it line d b cl k show ?thesis by (simp add: load_line_def ini_ok_def ini_abs_def)
  qed
qed

lemma load_end_ok: "ini_ok st \<Longrightarrow>
  load_end st = Some (if ini_errs st = 0 then Some (ini_dict st) else None)"
  by (simp add: load_end_def ini_ok_def dict_inv_def dictionary_del_def)

lemma dictionary_del_ok: "dict_inv d \<Longrightarrow> dictionary_del d = Some ()"
  by (simp add: dict_inv_def dictionary_del_def)

section \<open>The loop\<close>

lemma cstr_id: "0 \<notin> set s \<Longrightarrow> cstr s = s"
  by (induction s) auto

lemma newline_space: "isspace 10"
  by (simp add: isspace_def)

lemma strip_end_newline: "strip_end (s @ [10]) = strip_end s"
  by (simp add: strip_end_def newline_space)

text \<open>Every file: the loop ends, because a call of \<open>fgets\<close> reads at least one character.\<close>

lemma load_loop_total:
  assumes "0 \<notin> set inp" and "ini_ok st" and "pos \<le> 1021"
  shows "\<exists>r. load_loop (\<lambda>_. True) 2050 inp line pos st = Some r \<and>
    (\<forall>d. r = Some d \<longrightarrow> dict_inv d) \<and> (inp \<noteq> [] \<and> last inp \<noteq> 10 \<longrightarrow> r = None)"
  using assms
proof (induction "length inp" arbitrary: inp line pos st rule: less_induct)
  case less
  show ?case
  proof (cases "inp = []")
    case True
    with less.prems(2) load_end_ok [OF less.prems(2)] show ?thesis
      by (subst load_loop.simps) (auto simp: fgets_def ini_ok_def)
  next
    case False
    define k where "k = min (1023 - pos) (Suc (length (takeWhile (\<lambda>c. c \<noteq> 10) inp)))"
    have k: "0 < k" "k \<le> 1023 - pos" using less.prems(3) by (auto simp: k_def)
    have tx: "take k inp \<noteq> []" "0 \<notin> set (take k inp)" "length (take k inp) \<le> 1023 - pos"
      using False k less.prems(1) by (auto dest: in_set_takeD)
    have rest: "length (drop k inp) < length inp" "0 \<notin> set (drop k inp)"
      using False k less.prems(1) by (auto dest: in_set_dropD)
    have fg: "fgets (1024 - pos) inp = Some (take k inp, drop k inp)"
      using False by (simp add: fgets_def k_def Let_def)
    let ?line = "take pos line @ take k inp"
    note run = load_loop.simps [of "\<lambda>_. True" 2050 inp line pos st] fg cstr_id [OF tx(2)]
    show ?thesis
    proof (cases "last ?line = 10")
      case nl: False
      with tx(1) less.prems(2) show ?thesis
        by (simp add: run dictionary_del_ok ini_ok_def)
    next
      case True
      then have "?line = butlast ?line @ [10]"
        using tx(1) append_butlast_last_id [of ?line] by (metis Nil_is_append_conv)
      then have "length (strip_end ?line) \<le> length (butlast ?line)"
        using strip_end_newline [of "butlast ?line"] length_strip_end [of "butlast ?line"] by metis
      then have t: "length (strip_end ?line) \<le> 1022" using tx(3) less.prems(3) by simp
      have tail: "drop k inp \<noteq> [] \<and> last (drop k inp) = last inp" if "last inp \<noteq> 10"
      proof -
        have "drop k inp \<noteq> []"
        proof
          assume "drop k inp = []"
          then have "take k inp = inp" by simp
          with True tx(1) that show False by simp
        qed
        then show ?thesis by (simp add: last_drop)
      qed
      show ?thesis
      proof (cases "strip_end ?line \<noteq> [] \<and> last (strip_end ?line) = 92")
        case cont: True
        have "length (strip_end ?line) - 1 \<le> 1021" using t by simp
        from less.hyps [OF rest less.prems(2) this, of "strip_end ?line"] True cont tx(1) tail show ?thesis
          by (auto simp: run)
      next
        case plain: False
        from load_line_step [OF less.prems(2), of "strip_end ?line"] t obtain st' where
          st': "load_line (\<lambda>_. True) 2050 (strip_end ?line) st = Some st'" "ini_ok st'" by auto
        show ?thesis
        proof (cases "ini_errs st' < 0")
          case stop: True
          with st'(1) load_end_ok [OF st'(2)] True plain tx(1) show ?thesis by (auto simp: run Let_def)
        next
          case False
          with less.hyps [OF rest st'(2), of 0 "[]"] st'(1) True plain tx(1) tail show ?thesis
            by (auto simp: run Let_def)
        qed
      qed
    qed
  qed
qed

lemma start_ok: "ini_ok \<lparr>ini_section = [], ini_key = [], ini_val = [], ini_dict = dictionary_new 0, ini_errs = 0\<rparr>"
  by (simp add: ini_ok_def dictionary_new_inv lower_def)

text \<open>C20: On every file without null characters the parser ends, never writes outside one of its
  buffers, and returns \<open>NULL\<close> or a well-formed dictionary; so it does when the file cannot be
  opened.\<close>

theorem ini_load_total:
  assumes "\<And>s. inp = Some s \<Longrightarrow> 0 \<notin> set s"
  shows "\<exists>r. iniparser_load (\<lambda>_. True) 2050 inp = Some r \<and> (\<forall>d. r = Some d \<longrightarrow> dict_inv d)"
proof (cases inp)
  case (Some s)
  from load_loop_total [OF assms [OF Some] start_ok, of 0 "[]"] Some show ?thesis
    by (auto simp: iniparser_load_def)
qed (simp add: iniparser_load_def)

text \<open>A file whose last line is not ended by a newline is refused as a whole (with the message
  that a line is too long), whatever it contains.\<close>

theorem ini_unfinished_refused:
  assumes "0 \<notin> set inp" and "inp \<noteq> []" and "last inp \<noteq> 10"
  shows "iniparser_load (\<lambda>_. True) 2050 (Some inp) = Some None"
  using load_loop_total [OF assms(1) start_ok, of 0 "[]"] assms by (auto simp: iniparser_load_def)

text \<open>A file of complete lines.\<close>

lemma fgets_line:
  assumes "10 \<notin> set l" and "length l + 1 < n"
  shows "fgets n (l @ 10 # rest) = Some (l @ [10], rest)"
proof -
  from assms(1) have "length (takeWhile (\<lambda>c. c \<noteq> 10) (l @ 10 # rest)) = length l"
    by (subst takeWhile_append2) auto
  with assms(2) show ?thesis by (simp add: fgets_def)
qed

lemma meaning_errs: "0 \<le> e \<Longrightarrow> item_step (item_of l) (sec, m, e) = (sec', m', e') \<Longrightarrow> 0 \<le> e' \<and> e' \<le> e + 1"
  by (cases "item_of l") auto

lemma load_loop_lines:
  assumes "fitting (take pos line) ls" and "pos \<le> length line" and "ini_ok st"
    and "0 \<le> ini_errs st" and "ini_errs st + int (length ls) < 2147483648"
  shows "\<exists>d. load_loop (\<lambda>_. True) 2050 (file_text ls) line pos st =
      Some (if snd (snd (fold (\<lambda>l. item_step (item_of l)) (logical (take pos line) ls) (ini_abs st))) = 0
            then Some d else None) \<and>
    dict_inv d \<and> dict_map d = fst (snd (fold (\<lambda>l. item_step (item_of l)) (logical (take pos line) ls) (ini_abs st)))"
  using assms
proof (induction ls arbitrary: line pos st)
  case Nil
  then show ?case
    by (subst load_loop.simps) (auto simp: file_text_def fgets_def load_end_ok ini_abs_def ini_ok_def)
next
  case (Cons l ls)
  let ?acc = "take pos line"
  from Cons.prems have fits: "length ?acc + length l \<le> 1022" "10 \<notin> set l" "0 \<notin> set l" by simp_all
  have pos: "pos = length ?acc" using Cons.prems(2) by simp
  have fg: "fgets (1024 - pos) (file_text (l # ls)) = Some (l @ [10], file_text ls)"
    using fgets_line [OF fits(2), of "1024 - pos" "file_text ls"] fits(1) pos by (simp add: file_text_def)
  have c: "cstr (l @ [10]) = l @ [10]" using fits(3) by (intro cstr_id) simp
  let ?t = "strip_end (?acc @ l)"
  have t: "strip_end (?acc @ l @ [10]) = ?t" using strip_end_newline [of "?acc @ l"] by simp
  note run = load_loop.simps [of "\<lambda>_. True" 2050 "file_text (l # ls)" line pos st] fg c t
  show ?case
  proof (cases "?t \<noteq> [] \<and> last ?t = 92")
    case True
    then have "take (length ?t - 1) ?t = butlast ?t" by (simp add: butlast_conv_take)
    with Cons.IH [of "length ?t - 1" ?t st] Cons.prems True show ?thesis by (simp add: run Let_def)
  next
    case False
    have "length ?t \<le> 1023" using length_strip_end [of "?acc @ l"] fits(1) by simp
    from load_line_step [OF Cons.prems(3) this] obtain st' where
      st': "load_line (\<lambda>_. True) 2050 ?t st = Some st'" "ini_ok st'"
      and ab: "ini_abs st' = (case item_step (item_of ?t) (ini_abs st) of (sec, m, e) \<Rightarrow>
        (sec, m, if item_of ?t = Bad then wrap32 e else e))" by blast
    obtain sec m e where step: "item_step (item_of ?t) (ini_abs st) = (sec, m, e)"
      by (cases "item_step (item_of ?t) (ini_abs st)")
    from meaning_errs [OF Cons.prems(4)] step have e: "0 \<le> e" "e \<le> ini_errs st + 1"
      by (simp_all add: ini_abs_def)
    with Cons.prems(5) have "wrap32 e = e" by (simp add: in_i32_def)
    with ab step have ab': "ini_abs st' = (sec, m, e)" by simp
    then have "ini_errs st' = e" by (simp add: ini_abs_def)
    with Cons.IH [of 0 "[]" st'] Cons.prems st' e False show ?thesis
      by (auto simp: run ab' step Let_def)
  qed
qed

text \<open>C19: A file of lines that fit into the buffer, each ended by a newline, is read as its meaning says:
  comments, sections, keys in lower case, values with and without quotes, continued lines, empty
  values; it is refused exactly when a line that is none of these comes after the last section
  header or setting.\<close>

theorem ini_load_correct:
  assumes "fitting [] ls" and "length ls < 2 ^ 31"
  shows "\<exists>d. iniparser_load (\<lambda>_. True) 2050 (Some (file_text ls)) =
      Some (if snd (snd (meaning ls)) = 0 then Some d else None) \<and>
    dict_inv d \<and> dict_map d = fst (snd (meaning ls))"
  using load_loop_lines [of 0 "[]" ls, OF _ _ start_ok] assms
  by (simp add: iniparser_load_def meaning_def ini_abs_def dictionary_new_map)

section \<open>The copy in the plugin\<close>

text \<open>In the copy of the parser in \<open>xpserver/src\<close> the buffer for a section and a key together has
  1025 characters: a section name and a key that both fit into the lines of a file overflow it.\<close>

lemma plugin_parser_overflows:
  assumes "fitting [] [l1, l2]" and "strip_end l1 = l1" and "strip_end l2 = l2"
    and "last l1 \<noteq> 92" and "last l2 \<noteq> 92"
    and "item_of l1 = Section s" and "item_of l2 = Entry k v" and "1024 \<le> length s + length k"
  shows "iniparser_load (\<lambda>_. True) 1025 (Some (file_text [l1, l2])) = None"
proof -
  from assms(1-5) have f: "length l1 \<le> 1022" "10 \<notin> set l1" "0 \<notin> set l1" "length l2 \<le> 1022" "10 \<notin> set l2" "0 \<notin> set l2"
    by (auto simp: Let_def split: if_splits)
  let ?st = "\<lparr>ini_section = [], ini_key = [], ini_val = [], ini_dict = dictionary_new 0, ini_errs = 0\<rparr>"
  from line_eq [of l1 "[]" "[]" "[]"] f(1) assms(6) obtain key val where
    l1: "iniparser_line l1 [] [] [] = Some (LINE_SECTION, s, key, val)" "length key \<le> 1023" by auto
  from dictionary_set_map [OF dictionary_new_inv, of "\<lambda>_. True" 0 s None] obtain d where
    d: "dictionary_set (\<lambda>_. True) (dictionary_new 0) s None = Some (d, 0)" by blast
  have s: "length s \<le> 1024" using item_section(1) [OF assms(6)] f(1) by simp
  from line_eq [of l2 s key val] f(4) s l1(2) assms(7) have
    l2: "iniparser_line l2 s key val = Some (LINE_VALUE, s, k, v)" by auto
  have c: "cstr (l1 @ [10]) = l1 @ [10]" "cstr (l2 @ [10]) = l2 @ [10]" using f by (auto intro!: cstr_id)
  have g1: "fgets 1024 (l1 @ 10 # l2 @ [10]) = Some (l1 @ [10], l2 @ [10])"
    using fgets_line [OF f(2), of 1024 "l2 @ [10]"] f(1) by simp
  have g2: "fgets 1024 (l2 @ [10]) = Some (l2 @ [10], [])"
    using fgets_line [OF f(5), of 1024 "[]"] f(4) by simp
  have "copy_in 1025 (s @ 58 # k) = None" using assms(8) by (simp add: copy_in_def)
  with l1 l2 d have "load_line (\<lambda>_. True) 1025 l1 ?st =
      Some (?st\<lparr>ini_section := s, ini_key := key, ini_val := val, ini_dict := d, ini_errs := 0\<rparr>)"
    and "load_line (\<lambda>_. True) 1025 l2 (?st\<lparr>ini_section := s, ini_key := key, ini_val := val, ini_dict := d, ini_errs := 0\<rparr>) = None"
    by (simp_all add: load_line_def)
  with assms(2-5) show ?thesis
    by (simp add: iniparser_load_def file_text_def load_loop.simps [of _ _ "l1 @ _"] load_loop.simps [of _ _ "l2 @ _"]
        g1 g2 c strip_end_newline Let_def)
qed

section \<open>Numbers\<close>

text \<open>The decimal numeral of a number.\<close>

fun decimal :: "nat \<Rightarrow> mem" where
  "decimal n = (if n < 10 then [] else decimal (n div 10)) @ [of_nat (48 + n mod 10)]"

declare decimal.simps [simp del]

lemma digit_value_digit: "n < 10 \<Longrightarrow> digit_value (of_nat (48 + n)) = int n"
proof -
  assume "n < 10"
  then have "n = 0 \<or> n = 1 \<or> n = 2 \<or> n = 3 \<or> n = 4 \<or> n = 5 \<or> n = 6 \<or> n = 7 \<or> n = 8 \<or> n = 9" by presburger
  then show ?thesis by (elim disjE) (simp_all add: digit_value_def)
qed

lemma read_digits_append:
  "\<forall>c \<in> set s. digit_value c < base \<Longrightarrow> read_digits base acc (s @ t) = read_digits base (read_digits base acc s) t"
  by (induction s arbitrary: acc) auto

lemma numeral_digits: "\<forall>c \<in> set (decimal n). digit_value c < 10"
proof (induction n rule: decimal.induct)
  case (1 n)
  have "digit_value (of_nat (48 + n mod 10)) = int (n mod 10)" by (rule digit_value_digit) simp
  with 1 show ?case by (subst decimal.simps) auto
qed

lemma read_numeral: "read_digits 10 0 (decimal n) = int n"
proof (induction n rule: decimal.induct)
  case (1 n)
  have d: "digit_value (of_nat (48 + n mod 10)) = int (n mod 10)" by (rule digit_value_digit) simp
  show ?case
  proof (cases "n < 10")
    case False
    have "decimal n = decimal (n div 10) @ [of_nat (48 + n mod 10)]"
      using False by (subst decimal.simps) simp
    then have "read_digits 10 0 (decimal n) = read_digits 10 (int (n div 10)) [of_nat (48 + n mod 10)]"
      using read_digits_append [OF numeral_digits, of 0 "n div 10" "[of_nat (48 + n mod 10)]"] 1 [OF False]
      by (simp only:)
    also have "\<dots> = int (n div 10) * 10 + int (n mod 10)" unfolding read_digits.simps d by simp
    also have "\<dots> = int (n div 10 * 10 + n mod 10)" by (simp only: of_nat_add of_nat_mult of_nat_numeral)
    finally show ?thesis by (simp only: div_mult_mod_eq)
  next
    case True
    then have "decimal n = [of_nat (48 + n mod 10)]" by (subst decimal.simps) simp
    moreover have "read_digits 10 0 [of_nat (48 + n mod 10)] = int (n mod 10)"
      unfolding read_digits.simps d by simp
    ultimately show ?thesis using True by simp
  qed
qed

lemma numeral_nonempty: "decimal n \<noteq> []"
  by (subst decimal.simps) simp

lemma numeral_hd: "n \<noteq> 0 \<Longrightarrow> hd (decimal n) \<noteq> 48"
proof (induction n rule: decimal.induct)
  case (1 n)
  show ?case
  proof (cases "n < 10")
    case True
    with 1(2) have "n = 1 \<or> n = 2 \<or> n = 3 \<or> n = 4 \<or> n = 5 \<or> n = 6 \<or> n = 7 \<or> n = 8 \<or> n = 9" by presburger
    then show ?thesis by (elim disjE) (simp_all add: decimal.simps)
  next
    case False
    with 1 numeral_nonempty [of "n div 10"] show ?thesis by (subst decimal.simps) simp
  qed
qed

lemma digit_value_space: "digit_value c < 10 \<Longrightarrow> \<not> isspace c \<and> c \<noteq> 45 \<and> c \<noteq> 43"
  by (auto simp: digit_value_def isspace_def tolower_def word_le_nat_alt split: if_splits)

lemma strtol_unsigned_numeral: "strtol_unsigned (decimal n) = int n"
proof (cases "n = 0")
  case True
  then show ?thesis by (simp add: decimal.simps strtol_unsigned_def digit_value_def)
next
  case False
  with numeral_nonempty obtain c r where c: "decimal n = c # r" "c \<noteq> 48"
    using numeral_hd [OF False] by (cases "decimal n") auto
  have "strtol_unsigned (c # r) = read_digits 10 0 (c # r)"
    using c(2) by (auto simp: strtol_unsigned_def split: list.split)
  with c(1) read_numeral [of n] show ?thesis by simp
qed

definition signed_numeral :: "int \<Rightarrow> mem" where
  "signed_numeral v = (if v < 0 then [45] else []) @ decimal (nat \<bar>v\<bar>)"

lemma strtol_numeral:
  assumes "in_i32 v"
  shows "wrap32 (strtol (signed_numeral v)) = v"
proof -
  obtain c r where c: "decimal (nat \<bar>v\<bar>) = c # r" using numeral_nonempty by (cases "decimal (nat \<bar>v\<bar>)") auto
  then have "digit_value c < 10" using numeral_digits [of "nat \<bar>v\<bar>"] by simp
  note d = digit_value_space [OF this]
  have u: "strtol_unsigned (c # r) = \<bar>v\<bar>" using strtol_unsigned_numeral [of "nat \<bar>v\<bar>"] c by simp
  have "\<not> isspace 45" by (simp add: isspace_def)
  with c d u have "strtol (signed_numeral v) = max (- (2 ^ 63)) (min (2 ^ 63 - 1) v)"
    by (simp add: strtol_def signed_numeral_def Let_def)
  with assms show ?thesis by (simp add: in_i32_def)
qed

lemma strlwc_id: "lower key = key \<Longrightarrow> length key \<le> 1024 \<Longrightarrow> strlwc key = key"
  by (simp add: strlwc_def lower_def)

lemma getstring_map:
  assumes "dict_inv d" and "lower key = key" and "length key \<le> 1024"
  shows "iniparser_getstring (Some d) key def = Some (case dict_map d key of None \<Rightarrow> def | Some v \<Rightarrow> ptr_of v)"
  using assms by (simp add: iniparser_getstring_def strlwc_id dictionary_get_map)

text \<open>From a file that is not refused, \<open>iniparser_getint\<close> reads every setting that is a decimal number
  as this number, and gives the caller's default for a setting that is not there.\<close>

theorem ini_number_read:
  assumes "fitting [] ls" and "length ls < 2 ^ 31" and "snd (snd (meaning ls)) = 0"
  shows "\<exists>d. iniparser_load (\<lambda>_. True) 2050 (Some (file_text ls)) = Some (Some d) \<and>
    (\<forall>key. lower key = key \<and> length key \<le> 1024 \<longrightarrow>
       (\<forall>v. fst (snd (meaning ls)) key = Some (Some (signed_numeral v)) \<and> in_i32 v \<longrightarrow>
          iniparser_getint (Some d) key notfound = Some v) \<and>
       (fst (snd (meaning ls)) key = None \<longrightarrow> iniparser_getint (Some d) key notfound = Some notfound))"
proof -
  from load_loop_lines [of 0 "[]" ls, OF _ _ start_ok] assms obtain d where
    d: "iniparser_load (\<lambda>_. True) 2050 (Some (file_text ls)) = Some (Some d)" "dict_inv d"
      "dict_map d = fst (snd (meaning ls))"
    by (auto simp: iniparser_load_def meaning_def ini_abs_def dictionary_new_map)
  then show ?thesis
    by (intro exI [of _ d]) (auto simp: iniparser_getint_def getstring_map ptr_of_def strtol_numeral)
qed

end
