(* ===== verification/IniDump.thy ===== *)
theory IniDump
  imports IniLoad
begin

text \<open>
  Round trip: a dictionary that \<open>iniparser_dump_ini\<close> writes to a file is read back by
  \<open>iniparser_load\<close>.
\<close>

section \<open>Dictionaries that can be written\<close>

definition section_ok :: "mem \<Rightarrow> bool" where
  "section_ok s \<longleftrightarrow>
     s \<noteq> [] \<and> lower s = s \<and> strip s = s \<and> 93 \<notin> set s \<and> 10 \<notin> set s \<and> 0 \<notin> set s \<and> length s \<le> 1000"

definition entry_ok :: "mem \<Rightarrow> mem \<Rightarrow> bool" where
  "entry_ok k v \<longleftrightarrow>
     k \<noteq> [] \<and> lower k = k \<and> strip k = k \<and> 61 \<notin> set k \<and> 10 \<notin> set k \<and> 0 \<notin> set k \<and> hd k \<noteq> 35 \<and> hd k \<noteq> 91 \<and>
     strip v = v \<and> 59 \<notin> set v \<and> 35 \<notin> set v \<and> 10 \<notin> set v \<and> 0 \<notin> set v \<and>
     (v \<noteq> [] \<longrightarrow> hd v \<noteq> 34 \<and> hd v \<noteq> 39 \<and> last v \<noteq> 92) \<and> max 30 (length k) + 3 + length v \<le> 1022"

text \<open>Sections have no value, every setting belongs to a section, and there is a section.\<close>

definition savable :: "dictionary \<Rightarrow> bool" where
  "savable d \<longleftrightarrow>
     dict_inv d \<and> (\<exists>s v. dict_map d s = Some v \<and> 58 \<notin> set s) \<and>
     (\<forall>s v. dict_map d s = Some v \<longrightarrow> 58 \<notin> set s \<longrightarrow> section_ok s \<and> v = None) \<and>
     (\<forall>s k v. dict_map d (s @ 58 # k) = Some v \<longrightarrow> 58 \<notin> set s \<longrightarrow>
        dict_map d s \<noteq> None \<and> (\<exists>w. v = Some w \<and> entry_ok k w))"

lemma savable_entry:
  assumes "savable d" and "dict_map d (s @ 58 # k) = Some v" and "58 \<notin> set s"
  shows "dict_map d s \<noteq> None \<and> (\<exists>w. v = Some w \<and> entry_ok k w)"
  using assms unfolding savable_def by blast

lemma savable_section:
  assumes "savable d" and "dict_map d s = Some v" and "58 \<notin> set s"
  shows "section_ok s \<and> v = None"
  using assms unfolding savable_def by blast

section \<open>The lines of the file\<close>

definition entry_text :: "mem \<Rightarrow> mem \<Rightarrow> mem" where
  "entry_text k v = k @ replicate (30 - length k) 32 @ [32, 61, 32] @ v"

lemma space: "isspace 32" "\<not> isspace 61" "\<not> isspace 91" "\<not> isspace 93" "tolower 91 = 91"
  by (simp_all add: isspace_def tolower_def)

lemma strip_end_spaces: "strip_end (s @ replicate n 32) = strip_end s"
proof -
  have "dropWhile isspace (replicate n 32 @ rev s) = dropWhile isspace (rev s)"
    by (induction n) (simp_all add: space)
  then show ?thesis by (simp add: strip_end_def)
qed

lemma clean_ends: "strip s = s \<Longrightarrow> s \<noteq> [] \<Longrightarrow> \<not> isspace (hd s) \<and> \<not> isspace (last s)"
  using strip_clean [of s] by simp

lemma strip_starting: "s \<noteq> [] \<Longrightarrow> \<not> isspace (hd s) \<Longrightarrow> strip s = strip_end s"
  by (simp add: strip_def dropWhile_id)

lemma section_line:
  assumes "section_ok s"
  shows "strip_end (91 # s @ [93]) = 91 # s @ [93]" and "item_of (91 # s @ [93]) = Section s"
proof -
  show "strip_end (91 # s @ [93]) = 91 # s @ [93]" by (rule strip_end_id) (simp add: space)
  then have l: "strip (91 # s @ [93]) = 91 # s @ [93]" by (simp add: strip_starting space)
  have "takeWhile (\<lambda>c. c \<noteq> 93) (s @ [93]) = s"
    using assms by (subst takeWhile_append2) (auto simp: section_ok_def)
  with assms l show "item_of (91 # s @ [93]) = Section s"
    by (simp add: item_of_def Let_def section_ok_def)
qed

lemma value_of_plain:
  assumes "strip v = v" and "59 \<notin> set v" and "35 \<notin> set v" and "v \<noteq> [] \<longrightarrow> hd v \<noteq> 34 \<and> hd v \<noteq> 39"
  shows "value_of v = v"
proof -
  have t: "takeWhile (\<lambda>c. c \<noteq> 59 \<and> c \<noteq> 35) v = v" using assms(2,3) by (auto simp: takeWhile_eq_all_conv)
  have "quoted 34 v = None" "quoted 39 v = None" using assms(4) by (auto simp: quoted_def)
  moreover have "v \<noteq> [34, 34]" "v \<noteq> [39, 39]" using assms(4) by auto
  ultimately show ?thesis using assms(1) by (simp add: value_of_eq Let_def t)
qed

lemma entry_line_item:
  assumes ok: "entry_ok k v"
  shows "last (strip_end (entry_text k v)) \<noteq> 92" and "item_of (strip_end (entry_text k v)) = Entry k v"
proof -
  from ok have k: "k \<noteq> []" "\<not> isspace (hd k)" "strip k = k" "lower k = k" "61 \<notin> set k" "hd k \<noteq> 35" "hd k \<noteq> 91"
    using clean_ends [of k] by (simp_all add: entry_ok_def)
  from ok have v: "strip v = v" "v \<noteq> [] \<longrightarrow> \<not> isspace (hd v) \<and> \<not> isspace (last v)"
    using clean_ends [of v] by (auto simp: entry_ok_def)
  define u where "u = (if v = [] then [] else 32 # v)"
  define n where "n = Suc (30 - length k)"
  have pad: "replicate (30 - length k) 32 @ [32] = replicate n (32::byte)"
    by (simp add: n_def replicate_append_same)
  have tx: "entry_text k v = k @ replicate n 32 @ 61 # 32 # v"
    unfolding pad [symmetric] by (simp add: entry_text_def)
  have t: "strip_end (entry_text k v) = k @ replicate n 32 @ 61 # u"
  proof (cases "v = []")
    case True
    have "strip_end ((k @ replicate n 32 @ [61]) @ replicate 1 32) = strip_end (k @ replicate n 32 @ [61])"
      by (rule strip_end_spaces)
    also have "\<dots> = k @ replicate n 32 @ [61]" by (rule strip_end_id) (simp add: space)
    finally show ?thesis using True tx by (simp add: u_def)
  next
    case False
    with v show ?thesis by (simp add: tx u_def) (rule strip_end_id, simp)
  qed
  show "last (strip_end (entry_text k v)) \<noteq> 92" unfolding t using ok by (auto simp: entry_ok_def u_def)
  let ?l = "k @ replicate n 32 @ 61 # u"
  have "strip ?l = strip_end ?l" using k by (intro strip_starting) simp_all
  also have "\<dots> = ?l" unfolding t [symmetric] by (rule strip_end_idem)
  finally have l: "strip ?l = ?l" .
  have tw: "takeWhile (\<lambda>c. c \<noteq> 61) ?l = k @ replicate n 32"
    using k(5) by (subst append_assoc [symmetric], subst takeWhile_append2) auto
  have dw: "dropWhile (\<lambda>c. c \<noteq> 61) ?l = 61 # u"
    using k(5) by (subst append_assoc [symmetric], subst dropWhile_append2) auto
  have "dropWhile isspace u = v" using v(2) by (cases v) (simp_all add: space u_def)
  moreover have "strip (k @ replicate n 32) = k"
    using k strip_end_spaces [of k n] by (simp add: strip_starting)
  moreover have "value_of v = v" using v(1) ok by (intro value_of_plain) (auto simp: entry_ok_def)
  ultimately show "item_of (strip_end (entry_text k v)) = Entry k v"
    using k unfolding t item_of_def l by (simp add: Let_def tw dw)
qed

lemma blank_line: "strip_end [] = []" "item_of [] = Skip"
  by (simp_all add: strip_end_def item_of_def)

section \<open>The file\<close>

definition slots :: "dictionary \<Rightarrow> (mem option \<times> mem option) list" where
  "slots d = take (d_size d) (zip (d_key d) (d_val d))"

fun slot_entry :: "mem \<Rightarrow> mem option \<times> mem option \<Rightarrow> (mem \<times> mem) list" where
  "slot_entry s (Some key, Some val) =
     (if take (length s + 1) key = s @ [58] then [(drop (length s + 1) key, val)] else [])"
| "slot_entry s _ = []"

definition entries :: "dictionary \<Rightarrow> mem \<Rightarrow> (mem \<times> mem) list" where
  "entries d s = concat (map (slot_entry s) (slots d))"

definition sections :: "dictionary \<Rightarrow> mem list" where
  "sections d = map the (filter is_section (take (d_size d) (d_key d)))"

definition section_lines :: "dictionary \<Rightarrow> mem \<Rightarrow> mem list" where
  "section_lines d s = [] # (91 # s @ [93]) # map (\<lambda>(k, v). entry_text k v) (entries d s)"

definition section_settings :: "dictionary \<Rightarrow> mem \<Rightarrow> (mem \<times> mem option) list" where
  "section_settings d s = (s, None) # map (\<lambda>(k, v). (s @ 58 # k, Some v)) (entries d s)"

lemma prefix_iff: "take (length s + 1) key = s @ [58] \<longleftrightarrow> (\<exists>k. key = s @ 58 # k)"
proof
  assume "take (length s + 1) key = s @ [58]"
  then have "key = (s @ [58]) @ drop (length s + 1) key" by (metis append_take_drop_id)
  then have "key = s @ 58 # drop (length s + 1) key" by (simp only: append_assoc append_Cons append_Nil)
  then show "\<exists>k. key = s @ 58 # k" by (rule exI)
qed auto

lemma slot_iff:
  assumes "dict_inv d"
  shows "(Some key, v) \<in> set (slots d) \<longleftrightarrow> dict_map d key = Some v"
proof -
  have "take (d_size d) (zip (d_key d) (d_val d)) = zip (d_key d) (d_val d)"
    using assms by (simp add: dict_inv_def)
  then show ?thesis
    using assms dict_map_iff [OF assms, of key v] by (auto simp: slots_def in_set_zip dict_inv_def)
qed

lemma set_entries:
  assumes "dict_inv d"
  shows "(k, v) \<in> set (entries d s) \<longleftrightarrow> dict_map d (s @ 58 # k) = Some (Some v)"
proof -
  have "(k, v) \<in> set (slot_entry s x) \<longleftrightarrow> x = (Some (s @ 58 # k), Some v)" for x
    using prefix_iff by (cases "(s, x)" rule: slot_entry.cases) auto
  then show ?thesis by (simp add: entries_def slot_iff [OF assms, symmetric])
qed

lemma section_keys: "is_section k \<longleftrightarrow> (\<exists>s. k = Some s \<and> 58 \<notin> set s)"
  by (cases k) (simp_all add: is_section_def)

lemma set_sections:
  assumes "dict_inv d"
  shows "s \<in> set (sections d) \<longleftrightarrow> 58 \<notin> set s \<and> dict_map d s \<noteq> None"
proof -
  have "s \<in> set (sections d) \<longleftrightarrow> 58 \<notin> set s \<and> Some s \<in> set (d_key d)"
    using assms by (force simp: sections_def section_keys dict_inv_def image_iff)
  moreover have "Some s \<in> set (d_key d) \<longleftrightarrow> dict_map d s \<noteq> None"
    using dict_map_iff [OF assms, of s] assms by (auto simp: in_set_conv_nth dict_inv_def)
  ultimately show ?thesis by simp
qed

text \<open>What is printed is the text of the lines.\<close>

lemma file_text_append: "file_text (a @ b) = file_text a @ file_text b"
  by (simp add: file_text_def)

lemma section_entries_text:
  assumes "savable d" and "58 \<notin> set s"
  shows "section_entries s d = file_text (map (\<lambda>(k, v). entry_text k v) (entries d s))"
proof -
  from assms have inv: "dict_inv d" by (simp add: savable_def)
  have slot: "(case x of (k, v) \<Rightarrow> (case k of None \<Rightarrow> [] | Some key \<Rightarrow>
        (if take (length s + 1) key = s @ [58]
         then entry_line (drop (length s + 1) key) (case v of None \<Rightarrow> [] | Some val \<Rightarrow> val) else []))) =
      file_text (map (\<lambda>(k, v). entry_text k v) (slot_entry s x))" if x: "x \<in> set (slots d)" for x
  proof -
    obtain k v where kv: "x = (k, v)" by (cases x)
    show ?thesis
    proof (cases k)
      case (Some key)
      show ?thesis
      proof (cases v)
        case None
        have "take (length s + 1) key \<noteq> s @ [58]"
        proof
          assume "take (length s + 1) key = s @ [58]"
          then obtain k' where "key = s @ 58 # k'" using prefix_iff by blast
          with Some None kv x slot_iff [OF inv, of key None] savable_entry [OF assms(1) _ assms(2), of k' None]
            show False by simp
        qed
        with Some None kv show ?thesis by (simp add: file_text_def)
      qed (use Some kv in \<open>simp add: file_text_def entry_line_def entry_text_def\<close>)
    qed (use kv in \<open>simp add: file_text_def\<close>)
  qed
  have ft: "file_text (map g (concat (map f xs))) = concat (map (\<lambda>x. file_text (map g (f x))) xs)"
    for f :: "mem option \<times> mem option \<Rightarrow> (mem \<times> mem) list" and g xs
    by (induction xs) (simp_all add: file_text_def)
  show ?thesis
    unfolding section_entries_def entries_def ft slots_def [symmetric]
    by (rule arg_cong [where f = concat], rule map_cong [OF refl], rule slot)
qed

lemma dump_sections_text:
  assumes "savable d" and "\<forall>s \<in> set ss. section_ok s \<and> 58 \<notin> set s"
  shows "dump_sections (map Some ss) d = Some (file_text (concat (map (section_lines d) ss) @ [[]]))"
  using assms(2)
proof (induction ss)
  case (Cons s ss)
  then have "length s \<le> 1000" by (simp add: section_ok_def)
  with Cons section_entries_text [OF assms(1), of s] show ?case
    by (simp add: section_lines_def file_text_append) (simp add: file_text_def)
qed (simp add: file_text_def)

text \<open>The lines fit into the buffer, and none is continued.\<close>

lemma logical_plain:
  assumes "\<forall>l \<in> set ls. strip_end l = [] \<or> last (strip_end l) \<noteq> 92"
  shows "logical [] ls = map strip_end ls"
  using assms by (induction ls) (auto simp: Let_def)

lemma fitting_plain:
  assumes "\<forall>l \<in> set ls. (strip_end l = [] \<or> last (strip_end l) \<noteq> 92) \<and> length l \<le> 1022 \<and> 10 \<notin> set l \<and> 0 \<notin> set l"
  shows "fitting [] ls"
  using assms by (induction ls) (auto simp: Let_def)

definition plain_line :: "mem \<Rightarrow> bool" where
  "plain_line l \<longleftrightarrow>
     (strip_end l = [] \<or> last (strip_end l) \<noteq> 92) \<and> length l \<le> 1022 \<and> 10 \<notin> set l \<and> 0 \<notin> set l"

lemma section_lines_plain:
  assumes d: "savable d" and s: "s \<in> set (sections d)" and l: "l \<in> set (section_lines d s)"
  shows "plain_line l"
proof -
  from d have inv: "dict_inv d" by (simp add: savable_def)
  from s obtain v where sv: "58 \<notin> set s" "dict_map d s = Some v" using set_sections [OF inv, of s] by auto
  from savable_section [OF d sv(2,1)] have ok: "section_ok s" by simp
  from l consider "l = []" | "l = 91 # s @ [93]" | k w where "(k, w) \<in> set (entries d s)" "l = entry_text k w"
    by (auto simp: section_lines_def)
  then show ?thesis
  proof cases
    case 2
    with ok section_line(1) [OF ok] show ?thesis by (simp add: plain_line_def section_ok_def)
  next
    case (3 k w)
    with set_entries [OF inv, of k w s] savable_entry [OF d _ sv(1), of k "Some w"] have e: "entry_ok k w" by simp
    have "length (entry_text k w) = max 30 (length k) + 3 + length w" by (simp add: entry_text_def)
    moreover have "10 \<notin> set (entry_text k w)" "0 \<notin> set (entry_text k w)"
      using e by (auto simp: entry_text_def entry_ok_def)
    ultimately show ?thesis using e entry_line_item(1) [OF e] 3(2) by (simp add: plain_line_def entry_ok_def)
  qed (simp add: plain_line_def blank_line)
qed

text \<open>What the lines of a section do.\<close>

lemma entries_meaning:
  assumes "\<forall>(k, v) \<in> set es. entry_ok k v"
  shows "fold (\<lambda>l. item_step (item_of l)) (map strip_end (map (\<lambda>(k, v). entry_text k v) es)) (s, m, 0) =
    (s, m ++ map_of (rev (map (\<lambda>(k, v). (s @ 58 # k, Some v)) es)), 0)"
  using assms
proof (induction es arbitrary: m)
  case (Cons e es)
  obtain k v where e: "e = (k, v)" by (cases e)
  with Cons.prems entry_line_item(2) [of k v] have "item_of (strip_end (entry_text k v)) = Entry k v" by simp
  with Cons.IH Cons.prems e show ?case by (simp add: map_add_upd)
qed simp

lemma section_meaning:
  assumes d: "savable d" and s: "s \<in> set (sections d)"
  shows "fold (\<lambda>l. item_step (item_of l)) (map strip_end (section_lines d s)) (sec, m, 0) =
    (s, m ++ map_of (rev (section_settings d s)), 0)"
proof -
  from d have inv: "dict_inv d" by (simp add: savable_def)
  from s obtain v where sv: "58 \<notin> set s" "dict_map d s = Some v" using set_sections [OF inv, of s] by auto
  from savable_section [OF d sv(2,1)] have ok: "section_ok s" by simp
  have "\<forall>(k, v) \<in> set (entries d s). entry_ok k v"
    using set_entries [OF inv, of _ _ s] savable_entry [OF d _ sv(1)] by fastforce
  from entries_meaning [OF this, of s "m(s \<mapsto> None)"] section_line [OF ok] show ?thesis
    by (simp add: section_lines_def section_settings_def blank_line map_add_upd)
qed

lemma sections_meaning:
  assumes "savable d" and "set ss \<subseteq> set (sections d)"
  shows "\<exists>sec'. fold (\<lambda>l. item_step (item_of l)) (map strip_end (concat (map (section_lines d) ss))) (sec, m, 0) =
    (sec', m ++ map_of (rev (concat (map (section_settings d) ss))), 0)"
  using assms(2)
proof (induction ss arbitrary: sec m)
  case (Cons s ss)
  with section_meaning [OF assms(1), of s sec m] Cons.IH [of s "m ++ map_of (rev (section_settings d s))"]
  show ?case by (auto simp: map_add_assoc)
qed simp

lemma map_of_rev_eq:
  assumes "\<And>k v. (k, v) \<in> set xs \<longleftrightarrow> m k = Some v"
  shows "map_of (rev xs) = m"
proof
  fix k
  show "map_of (rev xs) k = m k"
  proof (cases "map_of (rev xs) k")
    case None
    then have "(k, v) \<notin> set xs" for v by (force simp: map_of_eq_None_iff)
    with assms None show ?thesis by (cases "m k") auto
  next
    case (Some v)
    with map_of_SomeD [OF Some] assms show ?thesis by simp
  qed
qed

lemma all_settings:
  assumes "savable d"
  shows "map_of (rev (concat (map (section_settings d) (sections d)))) = dict_map d"
proof (rule map_of_rev_eq)
  fix key v
  from assms have inv: "dict_inv d" by (simp add: savable_def)
  show "(key, v) \<in> set (concat (map (section_settings d) (sections d))) \<longleftrightarrow> dict_map d key = Some v"
  proof
    assume "(key, v) \<in> set (concat (map (section_settings d) (sections d)))"
    then obtain s where s: "s \<in> set (sections d)" "(key, v) \<in> set (section_settings d s)" by auto
    then obtain u where u: "dict_map d s = Some u" "58 \<notin> set s" using set_sections [OF inv] by auto
    from s(2) savable_section [OF assms u] u(1) show "dict_map d key = Some v"
      by (auto simp: section_settings_def set_entries [OF inv])
  next
    assume m: "dict_map d key = Some v"
    show "(key, v) \<in> set (concat (map (section_settings d) (sections d)))"
    proof (cases "58 \<in> set key")
      case False
      with m savable_section [OF assms m] set_sections [OF inv, of key] show ?thesis
        by (auto simp: section_settings_def intro!: bexI [of _ key])
    next
      case True
      then obtain s k where key: "key = s @ 58 # k" "58 \<notin> set s" by (metis split_list_first)
      from savable_entry [OF assms _ key(2)] m key(1) obtain u w where
        w: "dict_map d s = Some u" "v = Some w" by blast
      with m key set_sections [OF inv, of s] have "s \<in> set (sections d)" "(k, w) \<in> set (entries d s)"
        by (simp_all add: set_entries [OF inv])
      with w key show ?thesis by (force simp: section_settings_def)
    qed
  qed
qed

lemma some_sections: "map Some (map the (filter is_section ks)) = filter is_section ks"
  by (induction ks) (auto simp: section_keys)

text \<open>C21: A dictionary whose sections and settings consist of plain text is written by
  \<open>iniparser_dump_ini\<close> as a file from which \<open>iniparser_load\<close> reads back the same dictionary.\<close>

theorem dump_load_roundtrip:
  assumes "savable d" and "length (concat (map (section_lines d) (sections d))) < 2 ^ 31 - 1"
  shows "\<exists>out d'. iniparser_dump_ini (Some d) = Some out \<and>
    iniparser_load (\<lambda>_. True) 2050 (Some out) = Some (Some d') \<and> dict_inv d' \<and> dict_map d' = dict_map d"
proof -
  from assms(1) have inv: "dict_inv d" by (simp add: savable_def)
  let ?secs = "filter is_section (take (d_size d) (d_key d))" and ?ls = "concat (map (section_lines d) (sections d)) @ [[]]"
  have some: "map Some (sections d) = ?secs"
    unfolding sections_def by (rule some_sections)
  from assms(1) obtain s v where "dict_map d s = Some v" "58 \<notin> set s" by (auto simp: savable_def)
  then have "s \<in> set (sections d)" using set_sections [OF inv, of s] by simp
  then have ne: "?secs \<noteq> []" using some by auto
  have "map (\<lambda>i. iniparser_getsecname (Some d) (int i)) [0..<nat (iniparser_getnsec (Some d))] = ?secs"
    by (rule nth_equalityI) (simp_all add: iniparser_getnsec_def iniparser_getsecname_def Let_def)
  moreover have "\<forall>s \<in> set (sections d). section_ok s \<and> 58 \<notin> set s"
    using set_sections [OF inv] savable_section [OF assms(1)] by auto
  ultimately have out: "iniparser_dump_ini (Some d) = Some (file_text ?ls)"
    using dump_sections_text [OF assms(1)] ne unfolding some [symmetric]
    by (simp add: iniparser_dump_ini_def iniparser_getnsec_def Suc_le_eq flip: some)
  have plain: "\<forall>l \<in> set ?ls. plain_line l"
    using section_lines_plain [OF assms(1)] by (auto simp: plain_line_def blank_line)
  then have fit: "fitting [] ?ls" and lg: "logical [] ?ls = map strip_end ?ls"
    unfolding plain_line_def by (blast intro: fitting_plain, blast intro: logical_plain)
  from sections_meaning [OF assms(1) subset_refl, of "[]" Map.empty] obtain sec where
    "meaning ?ls = (sec, dict_map d, 0)"
    unfolding meaning_def lg by (auto simp: all_settings [OF assms(1)] blank_line)
  with load_loop_lines [of 0 "[]" ?ls, OF _ _ start_ok] fit assms(2) show ?thesis
    by (simp add: out iniparser_load_def meaning_def ini_abs_def dictionary_new_map)
qed

end
