(* ===== verification/SismoIni.thy ===== *)
theory SismoIni
  imports SismoSystem IniLoad
begin

text \<open>
  From the ini file to the card table: \<open>ini_read\<close> of \<open>xpsismo/src/ini.c\<close> loads the file and copies
  the settings of the cards, and \<open>main\<close> starts the driver on them.
\<close>

section \<open>Reading the settings\<close>

text \<open>\<open>sprintf(tmp, "card%i:\<dots>", i)\<close>.\<close>

definition card_key :: "nat \<Rightarrow> string \<Rightarrow> mem" where
  "card_key i name = chars ''card'' @ decimal i @ chars name"

text \<open>The settings of one card; a string that is \<open>NULL\<close> cannot be copied.\<close>

definition read_setting :: "dictionary option \<Rightarrow> nat \<Rightarrow> (mem \<times> int \<times> int \<times> int) option" where
  "read_setting ini i =
     do {
       a \<leftarrow> iniparser_getstring ini (card_key i '':Address'') (Str (chars ''NA''));
       address \<leftarrow> (case a of Str s \<Rightarrow> Some (s @ [0]) | _ \<Rightarrow> None);
       p \<leftarrow> iniparser_getint ini (card_key i '':Port'') 0;
       mac1 \<leftarrow> iniparser_getint ini (card_key i '':Mac1'') 0;
       mac2 \<leftarrow> iniparser_getint ini (card_key i '':Mac2'') 0;
       Some (address, p, mac1, mac2)
     }"

fun read_settings :: "dictionary option \<Rightarrow> nat list \<Rightarrow> (mem \<times> int \<times> int \<times> int) list option" where
  "read_settings ini [] = Some []"
| "read_settings ini (i # is) =
     do { s \<leftarrow> read_setting ini i; ss \<leftarrow> read_settings ini is; Some (s # ss) }"

text \<open>The start of the driver; without a file the program ends.\<close>

definition start_from_file :: "(nat \<Rightarrow> bool) \<Rightarrow> mem option \<Rightarrow> sismo_state option option" where
  "start_from_file avail file =
     do {
       ini \<leftarrow> iniparser_load avail 2050 file;
       (case ini of
          None \<Rightarrow> Some None
        | Some d \<Rightarrow>
            do {
              settings \<leftarrow> read_settings (Some d) [0..<MAXCARDS];
              st \<leftarrow> start_sismo settings;
              Some (Some st)
            })
     }"

section \<open>What the cards are configured to\<close>

text \<open>A string and a number among the settings of a file.\<close>

definition setting :: "(mem \<Rightarrow> mem option option) \<Rightarrow> nat \<Rightarrow> string \<Rightarrow> mem option option" where
  "setting m i name = m (lower (card_key i name))"

definition string_setting :: "(mem \<Rightarrow> mem option option) \<Rightarrow> nat \<Rightarrow> string \<Rightarrow> mem" where
  "string_setting m i name = (case setting m i name of Some (Some s) \<Rightarrow> s | _ \<Rightarrow> chars ''NA'')"

definition number_setting :: "(mem \<Rightarrow> mem option option) \<Rightarrow> nat \<Rightarrow> string \<Rightarrow> int" where
  "number_setting m i name = (case setting m i name of Some (Some s) \<Rightarrow> wrap32 (strtol s) | _ \<Rightarrow> 0)"

text \<open>No setting of a card is the name of a section, and the address fits into the card's field.\<close>

definition card_settings_ok :: "(mem \<Rightarrow> mem option option) \<Rightarrow> nat \<Rightarrow> bool" where
  "card_settings_ok m i \<longleftrightarrow>
     setting m i '':Address'' \<noteq> Some None \<and> setting m i '':Port'' \<noteq> Some None \<and>
     setting m i '':Mac1'' \<noteq> Some None \<and> setting m i '':Mac2'' \<noteq> Some None \<and>
     length (string_setting m i '':Address'') < 30"

lemma numeral_length: "i < 10 \<Longrightarrow> length (decimal i) = 1"
  by (simp add: decimal.simps [of i])

lemma card_key_length: "i < 10 \<Longrightarrow> length name \<le> 10 \<Longrightarrow> length (card_key i name) \<le> 15"
  by (simp add: card_key_def numeral_length chars_def)

lemma getstring_key:
  assumes "dict_inv d" and "length key \<le> 1024"
  shows "iniparser_getstring (Some d) key def =
    Some (case dict_map d (lower key) of None \<Rightarrow> def | Some v \<Rightarrow> ptr_of v)"
  using assms by (simp add: iniparser_getstring_def strlwc_def lower_def dictionary_get_map)

lemma getint_key:
  assumes "dict_inv d" and "length key \<le> 1024" and "dict_map d (lower key) \<noteq> Some None"
  shows "iniparser_getint (Some d) key nf =
    Some (case dict_map d (lower key) of Some (Some s) \<Rightarrow> wrap32 (strtol s) | _ \<Rightarrow> nf)"
  using assms by (auto simp: iniparser_getint_def getstring_key ptr_of_def split: option.splits)

definition the_setting :: "(mem \<Rightarrow> mem option option) \<Rightarrow> nat \<Rightarrow> mem \<times> int \<times> int \<times> int" where
  "the_setting m i = (string_setting m i '':Address'' @ [0], number_setting m i '':Port'',
     number_setting m i '':Mac1'', number_setting m i '':Mac2'')"

lemma read_setting_eq:
  assumes d: "dict_inv d" and i: "i < 10" and ok: "card_settings_ok (dict_map d) i"
  shows "read_setting (Some d) i = Some (the_setting (dict_map d) i)"
proof -
  have len: "length (card_key i '':Address'') \<le> 1024" "length (card_key i '':Port'') \<le> 1024"
    "length (card_key i '':Mac1'') \<le> 1024" "length (card_key i '':Mac2'') \<le> 1024"
    using card_key_length [OF i] by (simp_all add: le_trans [OF card_key_length [OF i]])
  have "iniparser_getstring (Some d) (card_key i '':Address'') (Str (chars ''NA'')) =
      Some (Str (string_setting (dict_map d) i '':Address''))"
    using ok by (auto simp: getstring_key [OF d len(1)] card_settings_ok_def string_setting_def setting_def
        ptr_of_def split: option.split)
  moreover note getint_key [OF d len(2), of 0] getint_key [OF d len(3), of 0] getint_key [OF d len(4), of 0]
  ultimately show ?thesis using ok
    by (simp add: read_setting_def card_settings_ok_def setting_def number_setting_def the_setting_def)
qed

lemma read_settings_eq:
  assumes "dict_inv d" and "\<forall>i \<in> set is. i < 10 \<and> card_settings_ok (dict_map d) i"
  shows "read_settings (Some d) is = Some (map (the_setting (dict_map d)) is)"
  using assms by (induction "is") (simp_all add: read_setting_eq)

text \<open>What a card of the table looks like after the start.\<close>

definition configured :: "mem \<Rightarrow> int \<Rightarrow> int \<Rightarrow> int \<Rightarrow> sismo_struct \<Rightarrow> bool" where
  "configured a p m1 m2 c \<longleftrightarrow>
     cstr (ip c) = cstr (a @ [0]) \<and> port c = p \<and> mac c = [word_of_int m1, word_of_int m2] \<and> connected c = 0"

lemma ini_card_runs:
  assumes "length a < 30"
  shows "\<exists>c. ini_card (a @ [0]) p m1 m2 static_card = Some c \<and> configured a p m1 m2 (ini_card_data c)"
proof -
  have "length (cstr (a @ [0])) < length (replicate 30 (0::byte))"
    using length_cstr [of "a @ [0]"] assms by simp
  from strcpy_Some [OF _ this] obtain i where i: "strcpy (replicate 30 0) (a @ [0]) = Some i" by auto
  from strcpy_result(3) [OF i] i show ?thesis
    by (simp add: ini_card_def static_card_def configured_def ini_card_data_def)
qed

lemma ini_cards_runs:
  assumes "\<forall>i \<in> set is. length (string_setting m i '':Address'') < 30"
  shows "\<exists>cs. ini_cards (map (the_setting m) is) = Some cs \<and>
    list_all2 (\<lambda>i c. configured (string_setting m i '':Address'') (number_setting m i '':Port'')
      (number_setting m i '':Mac1'') (number_setting m i '':Mac2'') (ini_card_data c)) is cs"
  using assms
proof (induction "is")
  case (Cons i "is")
  from ini_card_runs [of "string_setting m i '':Address''" "number_setting m i '':Port''"
      "number_setting m i '':Mac1''" "number_setting m i '':Mac2''"] Cons show ?case
    by (auto simp: the_setting_def)
qed simp

text \<open>C22: Started on an ini file, the driver has a well-formed table in which every card has the
  address, the port and the two bytes of the hardware address that the file gives for it in its
  section, in any notation that \<open>strtol\<close> reads, and the defaults where the file gives none; no
  card is connected yet.\<close>

theorem cards_configured:
  assumes "fitting [] ls" and "length ls < 2 ^ 31" and "snd (snd (meaning ls)) = 0"
    and "m = fst (snd (meaning ls))" and "\<forall>i < 10. card_settings_ok m i"
  shows "\<exists>st. start_from_file (\<lambda>_. True) (Some (file_text ls)) = Some (Some st) \<and> sismo_ok st \<and>
    (\<forall>i < 10. configured (string_setting m i '':Address'') (number_setting m i '':Port'')
      (number_setting m i '':Mac1'') (number_setting m i '':Mac2'') (sismo st ! i))"
proof -
  from load_loop_lines [of 0 "[]" ls, OF _ _ start_ok] assms obtain d where
    d: "iniparser_load (\<lambda>_. True) 2050 (Some (file_text ls)) = Some (Some d)" "dict_inv d" "dict_map d = m"
    by (auto simp: iniparser_load_def meaning_def ini_abs_def dictionary_new_map)
  have s: "read_settings (Some d) [0..<10] = Some (map (the_setting m) [0..<10])"
    using read_settings_eq [OF d(2), of "[0..<10]"] assms(5) d(3) by simp
  from ini_cards_runs [of "[0..<10]" m] assms(5) obtain cs where
    cs: "ini_cards (map (the_setting m) [0..<10]) = Some cs"
      "list_all2 (\<lambda>i c. configured (string_setting m i '':Address'') (number_setting m i '':Port'')
        (number_setting m i '':Mac1'') (number_setting m i '':Mac2'') (ini_card_data c)) [0..<10] cs"
    by (auto simp: card_settings_ok_def)
  obtain st where st: "start_sismo (map (the_setting m) [0..<10]) = Some st" "sismo st = map ini_card_data cs"
    using cs(1) by (auto simp: start_sismo_def init_udp_receive_def ini_sismodata_def)
  from start_sismo_ok [OF st(1)] have ok: "sismo_ok st" by simp
  from cs(2) st(2) have "\<forall>i < 10. configured (string_setting m i '':Address'') (number_setting m i '':Port'')
      (number_setting m i '':Mac1'') (number_setting m i '':Mac2'') (sismo st ! i)"
    by (auto simp: list_all2_conv_all_nth)
  with d(1) s st(1) ok show ?thesis by (simp add: start_from_file_def)
qed

end
