(* ===== verification/IniWitnesses.thy ===== *)
theory IniWitnesses
  imports IniDump SismoIni
begin

text \<open>The properties of the ini-file parser at concrete files.\<close>

section \<open>A file\<close>

definition sample_lines :: "mem list" where
  "sample_lines = map chars
     [''# the cards of the panel'', ''[Card0]'', ''Address = 10.0.0.7  # the master'', ''Port = 1024 ; udp'',
      ''Mac1 = 0x1a'', '''', ''Name  =  two '' @ [CHR 0x5C], ''  lines '', ''Empty =''] @
     [chars ''Mac2 = '' @ [34] @ chars ''0x2B'' @ [34]]"

definition sample_items :: "ini_item list" where
  "sample_items =
     [Skip, Section (chars ''card0''), Entry (chars ''address'') (chars ''10.0.0.7''),
      Entry (chars ''port'') (chars ''1024''), Entry (chars ''mac1'') (chars ''0x1a''), Skip,
      Entry (chars ''name'') (chars ''two   lines''), Entry (chars ''empty'') [],
      Entry (chars ''mac2'') (chars ''0x2B'')]"

lemma sample_fitting: "fitting [] sample_lines"
  by code_simp

lemma sample_logical: "map item_of (logical [] sample_lines) = sample_items"
  by code_simp

lemma fold_items: "fold (\<lambda>l. item_step (item_of l)) ls s = fold item_step (map item_of ls) s"
  by (induction ls arbitrary: s) simp_all

lemma sample_meaning:
  "snd (snd (meaning sample_lines)) = 0"
  "fst (snd (meaning sample_lines)) = [chars ''card0'' \<mapsto> None,
     chars ''card0'' @ 58 # chars ''address'' \<mapsto> Some (chars ''10.0.0.7''),
     chars ''card0'' @ 58 # chars ''port'' \<mapsto> Some (chars ''1024''),
     chars ''card0'' @ 58 # chars ''mac1'' \<mapsto> Some (chars ''0x1a''),
     chars ''card0'' @ 58 # chars ''name'' \<mapsto> Some (chars ''two   lines''),
     chars ''card0'' @ 58 # chars ''empty'' \<mapsto> Some [],
     chars ''card0'' @ 58 # chars ''mac2'' \<mapsto> Some (chars ''0x2B'')]"
  unfolding meaning_def fold_items sample_logical sample_items_def by (simp_all del: append_Cons append_Nil)

lemma sample_length: "length sample_lines < 2 ^ 31"
  by (simp add: sample_lines_def)

theorem ini_load_total_witness:
  "\<exists>r. iniparser_load (\<lambda>_. True) 2050 (Some [91, 10, 61, 92, 10, 255]) = Some r \<and> (\<forall>d. r = Some d \<longrightarrow> dict_inv d)"
  by (rule ini_load_total) auto

theorem ini_load_correct_witness:
  "\<exists>d. iniparser_load (\<lambda>_. True) 2050 (Some (file_text sample_lines)) = Some (Some d) \<and> dict_inv d \<and>
     dict_map d (chars ''card0:name'') = Some (Some (chars ''two   lines''))"
proof -
  have "chars ''card0:name'' = chars ''card0'' @ 58 # chars ''name''"
    "chars ''card0:name'' \<noteq> chars ''card0'' @ 58 # chars ''empty''"
    "chars ''card0:name'' \<noteq> chars ''card0'' @ 58 # chars ''mac2''" by code_simp+
  with ini_load_correct [OF sample_fitting sample_length] show ?thesis
    by (auto simp: sample_meaning)
qed

theorem ini_number_read_witness:
  "\<exists>d. iniparser_load (\<lambda>_. True) 2050 (Some (file_text sample_lines)) = Some (Some d) \<and>
     iniparser_getint (Some d) (chars ''card0:port'') 7 = Some 1024 \<and>
     iniparser_getint (Some d) (chars ''card1:port'') 7 = Some 7"
proof -
  let ?m = "fst (snd (meaning sample_lines))" and ?p = "chars ''card0:port''" and ?q = "chars ''card1:port''"
  have k: "lower ?p = ?p" "length ?p \<le> 1024" "lower ?q = ?q" "length ?q \<le> 1024" by code_simp+
  have v: "?m ?p = Some (Some (signed_numeral 1024))" "?m ?q = None"
    unfolding sample_meaning by code_simp+
  have "in_i32 1024" by (simp add: in_i32_def)
  with ini_number_read [OF sample_fitting sample_length sample_meaning(1), of 7] k v show ?thesis by blast
qed

theorem plugin_parser_overflows_witness:
  "iniparser_load (\<lambda>_. True) 1025
     (Some (file_text [91 # replicate 600 97 @ [93], replicate 600 98 @ [61, 49]])) = None"
proof -
  let ?a = "replicate 600 (97::byte)" and ?b = "replicate 600 (98::byte)"
  have r: "\<not> isspace 97" "\<not> isspace 98" "tolower 97 = 97" "tolower 98 = 98" "\<not> isspace 49" by (simp_all add: isspace_def tolower_def)
  have a: "section_ok ?a" using r by (auto simp: section_ok_def lower_def strip_id)
  have l2: "strip_end (?b @ [61, 49]) = ?b @ [61, 49]" using r by (intro strip_end_id) simp
  have s2: "strip (?b @ [61, 49]) = ?b @ [61, 49]" using r l2 by (simp add: strip_starting)
  have "takeWhile (\<lambda>c. c \<noteq> 61) (?b @ [61, 49]) = ?b" by (subst takeWhile_append2) auto
  moreover have "strip ?b = ?b" using r by (intro strip_id) simp
  moreover have "hd (?b @ [61, 49]) = 98" by simp
  ultimately have i2: "item_of (?b @ [61, 49]) = Entry ?b
      (value_of (dropWhile isspace (tl (dropWhile (\<lambda>c. c \<noteq> 61) (?b @ [61, 49])))))"
    using r unfolding item_of_def s2 by (simp add: Let_def lower_def)
  have f: "fitting [] [91 # ?a @ [93], ?b @ [61, 49]]"
    using section_line(1) [OF a] l2 by (simp add: Let_def)
  show ?thesis
    by (rule plugin_parser_overflows [OF f section_line(1) [OF a] l2 _ _ section_line(2) [OF a] i2]) simp_all
qed

section \<open>A dictionary\<close>

text \<open>A section with one setting.\<close>

definition small_dict :: dictionary where
  "small_dict = (dictionary_new 0)\<lparr>d_key := [Some [97], Some [97, 58, 98]] @ replicate 126 None,
     d_val := [None, Some [49, 50]] @ replicate 126 None,
     d_hash := [dictionary_hash [97], dictionary_hash [97, 58, 98]] @ replicate 126 0, d_n := 2\<rparr>"

lemma small_dict_inv: "dict_inv small_dict"
proof -
  have k: "(Some [97] # Some [97, 58, 98] # replicate 126 None) ! i = Some k \<longleftrightarrow>
      i = 0 \<and> k = [97] \<or> i = 1 \<and> k = [97, 58, 98]" if "i < 128" for i and k :: mem
    using that by (auto simp: nth_append nth_Cons split: nat.splits)
  show ?thesis
    unfolding dict_inv_def small_dict_def dictionary_new_def by (auto simp: k Let_def)
qed

lemma small_dict_map: "dict_map small_dict key = Some v \<longleftrightarrow>
    key = [97] \<and> v = None \<or> key = [97, 58, 98] \<and> v = Some [49, 50]"
proof -
  have "map_of (replicate 126 (None, None :: mem option)) (Some key) = None" by (auto simp: map_of_eq_None_iff)
  then show ?thesis by (auto simp: dict_map_def small_dict_def split: if_splits)
qed

theorem dump_load_roundtrip_witness:
  "\<exists>out d'. iniparser_dump_ini (Some small_dict) = Some out \<and>
    iniparser_load (\<lambda>_. True) 2050 (Some out) = Some (Some d') \<and> dict_inv d' \<and> dict_map d' = dict_map small_dict"
proof (rule dump_load_roundtrip)
  have "section_ok [97]" "entry_ok [98] [49, 50]"
    by (simp_all add: section_ok_def entry_ok_def lower_def strip_id isspace_def tolower_def)
  then show "savable small_dict"
    unfolding savable_def small_dict_map using small_dict_inv
    by (auto simp: small_dict_map append_eq_Cons_conv intro: exI [of _ "[97]"])
  show "length (concat (map (section_lines small_dict) (sections small_dict))) < 2 ^ 31 - 1"
  proof -
    have "sections small_dict = [[97]]"
      by (simp add: sections_def small_dict_def dictionary_new_def is_section_def)
    moreover have "entries small_dict [97] = [([98], [49, 50])]"
      by (simp add: entries_def slots_def small_dict_def dictionary_new_def map_replicate_const)
    ultimately show ?thesis by (simp add: section_lines_def)
  qed
qed

text \<open>Only card 0 is mentioned in the file.\<close>

lemma other_cards:
  assumes i: "i < 10" "i \<noteq> 0"
  shows "setting (fst (snd (meaning sample_lines))) i name = None"
proof (rule ccontr)
  let ?key = "lower (card_key i name)"
  assume "setting (fst (snd (meaning sample_lines))) i name \<noteq> None"
  then have "fst (snd (meaning sample_lines)) ?key \<noteq> None" by (simp add: setting_def)
  moreover have "length (chars ''card0'') = 5" "chars ''card0'' ! 4 = 48" by code_simp+
  ultimately have "?key ! 4 = 48"
    unfolding sample_meaning by (auto simp: nth_append split: if_splits)
  moreover have "?key ! 4 = tolower (of_nat (48 + i))"
    using i(1) by (simp add: lower_def card_key_def decimal.simps [of i] chars_def)
  moreover have "i = 1 \<or> i = 2 \<or> i = 3 \<or> i = 4 \<or> i = 5 \<or> i = 6 \<or> i = 7 \<or> i = 8 \<or> i = 9" using i by presburger
  ultimately show False by (elim disjE) (simp_all add: tolower_def)
qed

theorem cards_configured_witness:
  "\<exists>st. start_from_file (\<lambda>_. True) (Some (file_text sample_lines)) = Some (Some st) \<and> sismo_ok st \<and>
     configured (chars ''10.0.0.7'') 1024 26 43 (sismo st ! 0) \<and>
     configured (chars ''NA'') 0 0 0 (sismo st ! 9)"
proof -
  let ?m = "fst (snd (meaning sample_lines))"
  have s: "setting ?m 0 '':Address'' = Some (Some (chars ''10.0.0.7''))" "setting ?m 0 '':Port'' = Some (Some (chars ''1024''))"
    "setting ?m 0 '':Mac1'' = Some (Some (chars ''0x1a''))" "setting ?m 0 '':Mac2'' = Some (Some (chars ''0x2B''))"
    unfolding sample_meaning setting_def by code_simp+
  have n: "strtol (chars ''1024'') = 1024" "strtol (chars ''0x1a'') = 26" "strtol (chars ''0x2B'') = 43" by code_simp+
  have l: "length (chars ''10.0.0.7'') < 30" "length (chars ''NA'') < 30" by (simp_all add: chars_def)
  have ok: "\<forall>i < 10. card_settings_ok ?m i"
  proof (intro allI impI)
    fix i :: nat assume i: "i < 10"
    show "card_settings_ok ?m i"
      using s l other_cards [OF i] by (cases "i = 0") (simp_all add: card_settings_ok_def string_setting_def)
  qed
  have v: "string_setting ?m 0 '':Address'' = chars ''10.0.0.7''" "number_setting ?m 0 '':Port'' = 1024"
    "number_setting ?m 0 '':Mac1'' = 26" "number_setting ?m 0 '':Mac2'' = 43"
    "string_setting ?m 9 '':Address'' = chars ''NA''" "number_setting ?m 9 '':Port'' = 0"
    "number_setting ?m 9 '':Mac1'' = 0" "number_setting ?m 9 '':Mac2'' = 0"
    using other_cards [of 9] by (simp_all add: string_setting_def number_setting_def s n in_i32_def)
  from cards_configured [OF sample_fitting sample_length sample_meaning(1) refl ok] obtain st where
    st: "start_from_file (\<lambda>_. True) (Some (file_text sample_lines)) = Some (Some st)" "sismo_ok st"
    and c: "\<And>i. i < 10 \<Longrightarrow> configured (string_setting ?m i '':Address'') (number_setting ?m i '':Port'')
      (number_setting ?m i '':Mac1'') (number_setting ?m i '':Mac2'') (sismo st ! i)" by auto
  from st c [of 0] c [of 9] v show ?thesis by auto
qed

end
