(* ===== verification/Spec2Isabelle.thy ===== *)
theory Spec2Isabelle
  imports TeensyWitnesses UsbWitnesses WxrWitnesses Witnesses Defects SismoWitnesses IniWitnesses
begin

text \<open>
  xpcockpit connects cockpit hardware to the flight simulator X-Plane. A client program links
  against the library \<open>libxpcockpit\<close>, subscribes to named values of the simulator (``datarefs''
  and commands) and then reads and writes plain C variables; the plugin \<open>xpserver\<close>, which runs
  inside X-Plane, serves up to twenty such clients over TCP/IP. Three of the clients are \<open>xpsismo\<close>, the
  driver of the SISMO SOLUCIONES cards, \<open>xpusb\<close>, the driver of the OpenCockpits and Leo Bodnar
  USB cards, and \<open>xpteensy\<close>, the driver of Teensy micro-controllers. This development models the
  library with its receivers for X-Plane's beacons and weather radar, the plugin, the ini-file
  dictionary and parser that both of them contain, the drivers of \<open>xpsismo\<close>, \<open>xpusb\<close> and
  \<open>xpteensy\<close>, and the firmware of the Teensys.

  \<^bold>\<open>How the parts interact.\<close> \<open>link_dataref\<close> (\<open>serverdata.c\<close>) enters a subscription as a slot in
  the table \<open>serverdata\<close>, in status \<open>ALLOC\<close>. \<open>send_xpserver\<close> (\<open>handleserver.c\<close>) sends a \<open>LINK\<close>
  message for it. The plugin's \<open>receive_client\<close> (\<open>handleclient.c\<close>) creates the entry of the same
  position in \<open>clientdata\<close> (\<open>clientdata.c\<close>), publishes it first if its name belongs to the plugin
  (\<open>customdata.c\<close>), and checks it against X-Plane; \<open>send_client\<close> answers with the name or an error
  text. \<open>receive_xpserver\<close> makes the slot \<open>VALID\<close> when the name comes back. From then on each side
  sends a \<open>DATA\<close> message when its value has changed. \<open>UNLINK\<close> undoes the link, in the same way.
  A transmission is a sequence of messages that ends with an \<open>EOT\<close> or \<open>DISCONNECT\<close> marker.

  A client in automatic mode gets the address of the server from the beacons that X-Plane sends to
  the whole network: a thread (\<open>xplanebeacon.c\<close>) notes the sender, which \<open>check_xpserver\<close> reads
  when the client is not connected. A client with a weather radar display asks X-Plane for radar
  data (\<open>write_wxr\<close>); a thread (\<open>xplanewxr.c\<close>) appends the datagrams to a buffer, and \<open>read_wxr\<close>
  (\<open>wxrdata.c\<close>) takes the points out of it, finds the bounds of the picture in the first scan,
  draws the second and, at its end, hands the enlarged picture to the display.

  In \<open>xpsismo\<close> a thread appends the datagrams of the cards to a buffer (\<open>handleudp.c\<close>). A turn of the
  main loop takes the messages out of it (\<open>read_sismo\<close>), lets the panel code read inputs and set
  outputs, displays and servos (\<open>libsismo.c\<close>), sends what has changed (\<open>write_sismo\<close>) and ends with
  \<open>reset_sismodata\<close> (\<open>ini.c\<close>), after which the next state of every bank of inputs is seen.

  In \<open>xpusb\<close> one thread per device (\<open>hidapi_interface.c\<close>) appends the reports of a USB card to the
  buffer of the device. A turn of the main loop takes the reports out (\<open>receive_mastercard\<close>,
  \<open>receive_keys\<close>, \<open>receive_axes\<close>, \<open>receive_bu0836\<close> in \<open>libiocards.c\<close>), lets the panel code read inputs
  and set outputs, displays, servos and motors, writes what differs from the saved values to the
  devices (\<open>send_mastercard\<close>, \<open>send_servos\<close>, \<open>send_motors\<close>) and ends with \<open>copy_iocardsdata\<close>, which
  makes the present values the saved ones.

  In \<open>xpteensy\<close> a thread appends the datagrams of the Teensys to a buffer (\<open>handleudp.c\<close>). A turn of the
  main loop pings and initialises those that are not yet running (\<open>init_teensy\<close>), takes one message
  out of the buffer (\<open>recv_teensy\<close>), lets the panel code read inputs and set outputs (\<open>libteensy.c\<close>),
  sends what differs from the saved values (\<open>send_teensy\<close>) and ends with \<open>reset_teensydata\<close> (\<open>ini.c\<close>).
  On the board, a turn of \<open>loop\<close> (\<open>firmware.ino\<close>) takes one datagram and carries it out
  (\<open>udp_receive.ino\<close>), on the pins of the board or on a chip that is connected to it, and sends
  the inputs that have changed.

  \<^bold>\<open>Theories that model code.\<close>
  \<^item> \<open>Prelude\<close>: bytes, memory blocks, \<open>NULL\<close>, C strings, 32-bit integers, \<open>size_t\<close>.
  \<^item> \<open>Datarefs\<close>: type codes, block sizes, missing values, and the test whether a value has
    changed, with the floating point arithmetic computed exactly from the IEEE bit patterns.
  \<^item> \<open>ServerData\<close>: \<open>libxpcockpit/src/serverdata.c\<close>, all functions.
  \<^item> \<open>HandleServer\<close>: \<open>libxpcockpit/src/handleserver.c\<close>, all functions but the
    unused \<open>htonf\<close> and \<open>ntohf\<close>. The big loops are cut into one definition per message kind.
  \<^item> \<open>ClientData\<close>, \<open>CustomData\<close>, \<open>HandleClient\<close>: the files of the same names in \<open>xpserver/src\<close>.
  \<^item> \<open>XpServer\<close>: connection slots, flight loop callback and stop of \<open>xpserver/src/xpserver.c\<close>.
  \<^item> \<open>Dictionary\<close>: \<open>dictionary.c\<close> of both programs.
  \<^item> \<open>Iniparser\<close>: \<open>iniparser.c\<close>: access, the scanning of a line, the loop over a file, writing a file.
  \<^item> \<open>Beacon\<close>: \<open>libxpcockpit/src/xplanebeacon.c\<close>, all functions.
  \<^item> \<open>WxrData\<close>: \<open>xplanewxr.c\<close> but the socket setup, and the arithmetic, the arrays of
    arrays and the three enlargements of \<open>wxrdata.c\<close>. \<open>WxrScan\<close>: its functions \<open>init_wxr\<close>,
    \<open>write_wxr\<close>, \<open>read_wxr\<close> and \<open>exit_wxr\<close>; the body of \<open>read_wxr\<close> is cut at its phases.
  \<^item> \<open>Arrays\<close>: arrays with checked access, and counting loops.
  \<^item> \<open>Floats\<close>: the \<open>float\<close> and \<open>double\<close> arithmetic of the hardware clients.
  \<^item> \<open>SismoSort\<close>: the quicksort of \<open>libsismo.c\<close>.
  \<^item> \<open>Sismo\<close>: the card table, its initialisation and reset, the receive thread, \<open>read_sismo\<close>.
  \<^item> \<open>SismoWrite\<close>: \<open>write_sismo\<close>, and the access functions for outputs, servos and displays.
  \<^item> \<open>SismoInput\<close>: the access functions for buttons, potentiometers and encoders.
  \<^item> \<open>Usb\<close>: \<open>xpusb/src/hidapi_interface.c\<close>: the buffer of a device, its read thread, its set-up.
  \<^item> \<open>Iocards\<close>: the device table of \<open>libiocards.c\<close>, its initialisation, and \<open>copy_iocardsdata\<close>.
  \<^item> \<open>IocardsReceive\<close>, \<open>IocardsSend\<close>: the functions of \<open>libiocards.c\<close> that read and write the devices.
  \<^item> \<open>IocardsAccess\<close>: those that the panel code calls for inputs, outputs, encoders and displays.

  \<^item> \<open>Teensy\<close>: the tables of \<open>xpteensy\<close> (\<open>teensy_config.h\<close>), their initialisation and reset (\<open>ini.c\<close>), the
    receive thread, \<open>recv_teensy\<close>. \<open>TeensySend\<close>: \<open>ping_teensy\<close>, \<open>init_teensy\<close>, \<open>send_teensy\<close>.
  \<^item> \<open>TeensyAccess\<close>: the functions of \<open>libteensy.c\<close> that the panel code calls.
  \<^item> \<open>Firmware\<close>, \<open>FirmwareLoop\<close>: the firmware of the Teensys, \<open>xpteensy/ino/firmware/*.ino\<close>.

  \<^bold>\<open>Correspondence.\<close> A C structure is a record with the structure's fields; a growing array is a
  list, whose length is the element count that the code keeps beside it; a pointer handed out to
  an application is the index of its slot. A memory block is the list of its bytes. An access
  outside a block, or through \<open>NULL\<close>, makes the result \<open>None\<close>, so that a theorem that says
  \<open>= Some \<dots>\<close> also says that the code does no such access. What a call gets from outside is an
  argument: the results of the socket calls as lists of events, the time of day, whether
  an allocation succeeds (\<open>avail\<close>), the contents of fresh memory (\<open>junk\<close>, \<open>fresh\<close>), and the
  X-Plane SDK as the record of functions \<open>xplm\<close>. No property assumes anything about the functions
  of \<open>xplm\<close> but what it says in its statement.

  In \<open>xpsismo\<close> an array is a list whose accesses are checked, \<open>char\<close> is signed, the receive thread is
  a step of its own between the calls of the main loop (the code's lock makes the copying atomic),
  the datagrams that are sent are a list, and the time of day is an argument. The sign of a zero
  is not kept.

  In \<open>xpusb\<close> the read thread of a device is a step (\<open>poll_turn\<close>) whose argument is what the blocking
  read brought. The HIDAPI library is the devices it finds (\<open>hid_found\<close>) and the result of
  \<open>hid_write\<close>, an arbitrary function of the reports written so far; the reports written are a list.

  In \<open>xpteensy\<close> what the code keeps for one Teensy in eight arrays is one record, \<open>teensy_unit\<close>; the
  firmware has one such record, too. What the firmware does to the hardware, by calls of the Arduino core
  and of the chips' libraries, is a list of actions (\<open>hw\<close>), and what it learns from the hardware in a
  turn is the record \<open>board_io\<close>, an argument.

  The receive threads of the beacons and of the radar are steps of their own as well. In \<open>wxrdata.c\<close> the
  cosine of the C library is an argument (\<open>cosine\<close>), so is which allocations succeed (\<open>heap\<close>), and
  the conversion of a \<open>float\<close> to \<open>unsigned char\<close> goes through \<open>int\<close>.

  \<^bold>\<open>Loops.\<close> Loops over tables are structural recursions. The loops around \<open>recv\<close> and \<open>send\<close> poll a
  non-blocking socket and are recursive on the list of what the socket reports; they return
  \<open>None\<close> when the list is used up too early, and the theorems show that every sequence of reports
  that delivers (\<open>delivers\<close>, which excludes the pieces that the code cannot handle) or takes
  (\<open>takes\<close>) all bytes makes them return. The loops over the
  messages of a transmission are partial functions in the option monad, as a payload of size 0
  would be possible in corrupt memory; on acceptable messages they are proved to return. So are the
  loops of quicksort, which is proved to sort, and the loop over the lines of an ini file, which is
  proved to end on every file.

  \<^bold>\<open>Theories that specify and prove.\<close>
  \<^item> \<open>ServerTable\<close>: the invariant \<open>table_ok\<close> of the subscription table; what linking, unlinking and
    the search with its prediction do under it; the time and switch helpers.
  \<^item> \<open>Protocol\<close>: the messages to the client as a datatype with an encoder; receiving is refined to
    applying messages one after the other; the locale \<open>piece_reader\<close> gives, once for both
    programs, that a transmission is put together from its pieces (\<open>delivers\<close> says which are possible).
  \<^item> \<open>Requests\<close>: the messages from the client; sending is refined to an abstract scheduler
    (\<open>pack\<close>) that takes what the slots call for as long as it fits, unlink requests included; when
    the call leaves the client connected, nothing is lost.
  \<^item> \<open>ClientSystem\<close>: the client as a state machine (\<open>client_step\<close>) whose reachable states are all
    well-formed, whatever the application does with the known types and whatever bytes arrive.
  \<^item> \<open>ClientTable\<close>, \<open>PluginProtocol\<close>: the same for the plugin's table and its receiver.
  \<^item> \<open>Handshake\<close>: the two ends together: the link handshake, its refusal, and data both ways.
  \<^item> \<open>Replies\<close>: the plugin's sending: exactly the messages that the entries call for.
  \<^item> \<open>EndToEnd\<close>: a change made in the cockpit reaches X-Plane, and the other way round.
  \<^item> \<open>IniLine\<close>, \<open>IniLoad\<close>: the five \<open>sscanf\<close> formats recognise what one pass over a line does; a file
    is read as its meaning, line by line; numbers; the overflow in the plugin's copy.
  \<^item> \<open>IniDump\<close>: a dictionary that is written is read back. \<open>IniWitnesses\<close>: concrete files.
  \<^item> \<open>BeaconFacts\<close>: what a history of fair datagrams (\<open>fair\<close>) has announced (\<open>announced\<close>),
    and that \<open>check_xpserver\<close> connects to it.
  \<^item> \<open>WxrFrames\<close>: the datagrams of any number of turns are processed as their points.
  \<^item> \<open>WxrPicture\<close>: what two scans make of the picture, in terms of the last point on each pixel.
  \<^item> \<open>WxrFloat\<close>, \<open>WxrInterp\<close>: rounding is monotone and exact on representable numbers; with it, the
    enlargement stays inside its arrays and between the values of its pixels.
  \<^item> \<open>WxrFacts\<close>: from the network to the display; situations the radar code does not handle.
  \<^item> \<open>WxrWitnesses\<close>: the properties of the two receivers at concrete datagrams.
  \<^item> \<open>SismoIni\<close>: from the ini file to the card table of \<open>xpsismo\<close> (\<open>ini_read\<close> and \<open>main\<close>).
  \<^item> \<open>SismoTable\<close>, \<open>SismoRead\<close>: the invariant of the card table; a message is refined to an effect on
    one card without loops and failure.
  \<^item> \<open>SismoQueue\<close>: the history of a bank of inputs is a bounded queue of unseen states (locale
    \<open>event_queue\<close>, interpreted on the card table); no change of an input is lost.
  \<^item> \<open>SismoSend\<close>: \<open>write_sismo\<close> is refined to the list of the datagrams that are due.
  \<^item> \<open>SismoDisplay\<close>: numbers that fit (\<open>fits\<close>) are read back from the segments of the displays.
  \<^item> \<open>SismoSystem\<close>: every reachable state of the driver is well-formed, no call leaves an array.
  \<^item> \<open>SismoFacts\<close>: the median filter, the encoders, and a board that the driver does not handle.
  \<^item> \<open>SismoWitnesses\<close>: the properties of the driver at concrete tables and datagrams.
  \<^item> \<open>Usb\<close>, second part: the buffer of a USB device is a queue of reports.
  \<^item> \<open>IocardsReport\<close>: what one report of a MASTERCARD does to the inputs, without loops.
  \<^item> \<open>IocardsDecode\<close>, \<open>IocardsInputs\<close>, \<open>IocardsTurn\<close>: the reports by which a card announces a
    change; a turn of \<open>receive_mastercard\<close> over any number of them gives the inputs their values.
  \<^item> \<open>IocardsTable\<close>: the invariant \<open>device_ok\<close> of the device table, set up by \<open>initialize_iocards\<close>.
  \<^item> \<open>IocardsCopy\<close>: what \<open>copy_iocardsdata\<close> does to each array.
  \<^item> \<open>IocardsTransmit\<close>: \<open>send_mastercard\<close> is refined to the reports that are due, once each.
  \<^item> \<open>IocardsDisplay\<close>: a number on a MASTERCARD display is read back from its digits.
  \<^item> \<open>UsbWitnesses\<close>: the properties of the USB driver at concrete devices.
  \<^item> \<open>TeensyTable\<close>, \<open>TeensySystem\<close>: every reachable state of the Teensy driver is well-formed, and no call
    leaves an array. \<open>TeensyRange\<close>: the values for actuators are ones that the hardware takes.
  \<^item> \<open>TeensyWire\<close>: the regular messages to a Teensy as orders; \<open>send_unit\<close> sends those that are due, and
    the firmware understands each. \<open>TeensyBoard\<close>: what the hardware of a board shows, and which orders a
    board accepts. \<open>TeensyMirror\<close>: every order is carried out and leaves all other places alone.
    \<open>TeensyOutputs\<close>: the outputs of a cycle reach the hardware (locale \<open>order_server\<close>, the contract of a
    board, interpreted on the firmware).
  \<^item> \<open>TeensyWitnesses\<close>: the properties of the Teensy driver at concrete tables and datagrams.
  \<^item> \<open>CustomAccess\<close>: custom arrays behind their accessors (locale \<open>array_accessor\<close>).
  \<^item> \<open>Dictionary\<close>: a dictionary is a map (locale \<open>string_dict\<close>), through hash collisions and growth.
  \<^item> \<open>XpServer\<close>: the connection count is exact and the slot array is never overrun.
  \<^item> \<open>Samples\<close>, \<open>Witnesses\<close>: every theorem with hypotheses at a concrete input.
  \<^item> \<open>Defects\<close>: situations that the code does not handle, each exhibited on a well-formed state.
  \<^item> This theory: only the header.

  \<^bold>\<open>Assumptions of the model.\<close> Little-endian two's complement, 32-bit \<open>int\<close>, 64-bit \<open>size_t\<close> and
  pointers; the conversion of an out-of-range floating point value to \<open>int\<close> gives the most
  negative value, as on the machines the makefiles are for; \<open>pow(10, n)\<close> rounded to \<open>float\<close> is the
  nearest \<open>float\<close>. Console and log output has no effect on the state and is left out.

  \<^bold>\<open>Not modelled.\<close> Socket setup, menus, windows and drawing of the plugin; the panel programs
  (\<open>b737_*.c\<close>, \<open>a320_*.c\<close>, \<open>*_test.c\<close>) of the hardware clients, which are long lists of calls of the
  driver and of \<open>link_dataref\<close>; of \<open>libiocards.c\<close> the reading of the ini file and the two functions
  that pass reports to the Chrono-A320 module; \<open>libusb_interface.c\<close>, an alternative to
  \<open>hidapi_interface.c\<close> that the build does not select; the aircraft check of the library; the other
  hardware clients (\<open>xpleo\<close>, \<open>xparduino\<close>, \<open>xppi\<close>); of the Teensy firmware the start of the board. The displays \<open>xpopengc\<close> and
  \<open>warpblend\<close> only draw.
\<close>

end
